(* ===== verification/Prelude.thy ===== *)
theory Prelude
  imports Main "HOL-Library.Multiset" "HOL-Library.Char_ord" "HOL-Library.List_Lexorder" "HOL-Library.Product_Lexorder"
begin

text \<open>
  What every component shares: the exceptions of the program as values, the result type of a
  fallible operation, sequencing of results, and Python's duplicate-free sorted tuples.

  A Python \<^verbatim>\<open>str\<close> is modelled as a \<^typ>\<open>string\<close> whose characters are the code points
  0 to 255; Python's order on \<^verbatim>\<open>str\<close> (by code point, lexicographic) is then the order of
  \<^verbatim>\<open>HOL-Library.List_Lexorder\<close>.
\<close>

named_theorems result_simps \<open>evaluation rules for results of fallible operations\<close>
named_theorems contract_defs \<open>definitions of constructors and their contract checks\<close>

section \<open>Exceptions and results\<close>

text \<open>
  One constructor per exception class the modelled code raises; the argument is the message.
  \<^verbatim>\<open>NightShiftContractError\<close> and \<^verbatim>\<open>P3ContractError\<close> are both direct subclasses of
  \<^verbatim>\<open>ValueError\<close>; \<^verbatim>\<open>JSONDecodeError\<close> is one too.
\<close>

datatype py_error =
    P3ContractError string
  | NightShiftContractError string
  | EnterpriseContractError string
  | CaseLedgerContractError string
  | CryptoAgilityV1Error string
  | CaseProductHardeningError string
  | IdempotencyConflictError string
  | CIRPContractError string
  | JSONDecodeError
  | BuiltinValueError string
  | BuiltinKeyError string
  | BuiltinTypeError string
  | BuiltinRuntimeError string
  | BuiltinAttributeError string
  | BuiltinIndexError string
  | BuiltinOverflowError
  | SqliteIntegrityError

type_synonym 'a result = "py_error + 'a"

abbreviation raise :: "py_error \<Rightarrow> 'a result" where
  "raise e \<equiv> Inl e"

abbreviation raise_ns :: "string \<Rightarrow> 'a result" where
  "raise_ns msg \<equiv> Inl (NightShiftContractError msg)"

abbreviation raise_p3 :: "string \<Rightarrow> 'a result" where
  "raise_p3 msg \<equiv> Inl (P3ContractError msg)"

abbreviation return :: "'a \<Rightarrow> 'a result" where
  "return x \<equiv> Inr x"

text \<open>Sequencing: the first exception ends the computation.\<close>

definition and_then :: "'e + 'a \<Rightarrow> ('a \<Rightarrow> 'e + 'b) \<Rightarrow> 'e + 'b" where
  "and_then m f = (case m of Inl e \<Rightarrow> Inl e | Inr x \<Rightarrow> f x)"

text \<open>A guard: \<open>require c e\<close> is the statement \<^verbatim>\<open>if not c: raise e\<close>.\<close>

definition require :: "bool \<Rightarrow> py_error \<Rightarrow> unit result" where
  "require c e = (if c then Inr () else Inl e)"

text \<open>\<^verbatim>\<open>try: ... except ValueError as exc: raise NightShiftContractError(str(exc))\<close>, for the
  exceptions a digest check can raise.\<close>

fun as_ns_error :: "'a result \<Rightarrow> 'a result" where
  "as_ns_error (Inl (P3ContractError msg)) = raise_ns msg"
| "as_ns_error r = r"

lemma and_then_Inl [simp, result_simps]: "and_then (Inl e) f = Inl e"
  by (simp add: and_then_def)

lemma and_then_Inr [simp, result_simps]: "and_then (Inr x) f = f x"
  by (simp add: and_then_def)

lemma and_then_eq_Inr [simp]: "and_then m f = Inr y \<longleftrightarrow> (\<exists>x. m = Inr x \<and> f x = Inr y)"
  by (cases m) auto

lemma and_then_eq_Inl: "and_then m f = Inl e \<longleftrightarrow> m = Inl e \<or> (\<exists>x. m = Inr x \<and> f x = Inl e)"
  by (cases m) auto

lemma and_then_cong [fundef_cong]:
  assumes "m = m'" and "\<And>x. m' = Inr x \<Longrightarrow> f x = g x"
  shows "and_then m f = and_then m' g"
  using assms by (cases m') auto

lemma require_eq_Inr [simp]: "require c e = Inr u \<longleftrightarrow> c"
  by (simp add: require_def)

lemma require_eq_Inl: "require c e = Inl e' \<longleftrightarrow> \<not> c \<and> e' = e"
  by (auto simp: require_def)

lemma require_True [simp, result_simps]: "require True e = Inr ()"
  by (simp add: require_def)

lemma require_False [simp, result_simps]: "require False e = Inl e"
  by (simp add: require_def)

lemma and_then_require: "and_then (require c e) f = (if c then f () else Inl e)"
  by (simp add: require_def)

lemma as_ns_error_eq_Inr [simp]: "as_ns_error r = Inr x \<longleftrightarrow> r = Inr x"
  by (cases r rule: as_ns_error.cases) auto

lemma as_ns_error_Inr [result_simps]: "as_ns_error (Inr x) = Inr x"
  by simp

text \<open>A tuple comprehension whose element function may raise: the first exception wins.\<close>

fun map_result :: "('a \<Rightarrow> 'e + 'b) \<Rightarrow> 'a list \<Rightarrow> 'e + 'b list" where
  "map_result f [] = Inr []"
| "map_result f (x # xs) = and_then (f x) (\<lambda>y. and_then (map_result f xs) (\<lambda>ys. Inr (y # ys)))"

lemma map_result_cong [fundef_cong]:
  assumes "xs = ys" and "\<And>x. x \<in> set ys \<Longrightarrow> f x = g x"
  shows "map_result f xs = map_result g ys"
proof -
  have "map_result f ys = map_result g ys" using assms(2)
    by (induction ys) (auto intro!: and_then_cong)
  with assms(1) show ?thesis by simp
qed

lemma map_result_Inr_iff:
  "map_result f xs = Inr ys \<longleftrightarrow> list_all2 (\<lambda>x y. f x = Inr y) xs ys"
  by (induction xs arbitrary: ys) (auto simp: list_all2_Cons1)

lemma map_result_pure [simp]: "map_result (\<lambda>x. Inr (f x)) xs = Inr (map f xs)"
  by (induction xs) auto

lemma list_all2_right: "list_all2 P xs ys \<Longrightarrow> y \<in> set ys \<Longrightarrow> \<exists>x \<in> set xs. P x y"
  by (induction rule: list_all2_induct) auto

lemma map_result_map: "map_result f (map g xs) = map_result (\<lambda>x. f (g x)) xs"
  by (induction xs) auto

lemma map_result_all: "(\<And>x. x \<in> set xs \<Longrightarrow> f x = Inr (g x)) \<Longrightarrow> map_result f xs = Inr (map g xs)"
  by (induction xs) auto

lemma map_result_snoc:
  "map_result f (xs @ [x]) = and_then (map_result f xs) (\<lambda>ys. and_then (f x) (\<lambda>y. Inr (ys @ [y])))"
  by (induction xs) (simp_all add: and_then_def split: sum.split)

lemma map_result_length: "map_result f xs = Inr ys \<Longrightarrow> length ys = length xs"
  by (simp add: map_result_Inr_iff list_all2_lengthD)

text \<open>An operation on stored state gives its result and the state after it. \<open>checked m st f\<close>
  evaluates \<open>m\<close> first; when it raises, the stored state stays as it was.\<close>

definition checked :: "'a result \<Rightarrow> 'st \<Rightarrow> ('a \<Rightarrow> 'b result \<times> 'st) \<Rightarrow> 'b result \<times> 'st" where
  "checked m st f = (case m of Inl e \<Rightarrow> (Inl e, st) | Inr x \<Rightarrow> f x)"

lemma checked_Inl [simp, result_simps]: "checked (Inl e) st f = (Inl e, st)"
  by (simp add: checked_def)

lemma checked_Inr [simp, result_simps]: "checked (Inr x) st f = f x"
  by (simp add: checked_def)

lemma checked_result: "checked m st f = (Inr y, st') \<longleftrightarrow> (\<exists>x. m = Inr x \<and> f x = (Inr y, st'))"
  by (cases m) simp_all

lemma checked_stored:
  assumes "checked m st f = (r, st')" "\<not> (\<exists>e. r = Inl e \<and> st' = st)"
  obtains x where "m = Inr x" "f x = (r, st')"
  using assms by (cases m) auto

lemma checked_cases:
  obtains e where "m = Inl e" "checked m st f = (Inl e, st)"
  | x where "m = Inr x" "checked m st f = f x"
  by (cases m) simp_all

lemma checked_eq_Inr [simp]:
  "fst (checked m st f) = Inr y \<longleftrightarrow> (\<exists>x. m = Inr x \<and> fst (f x) = Inr y)"
  by (cases m) simp_all

section \<open>Sorted duplicate-free tuples\<close>

text \<open>\<^verbatim>\<open>tuple(sorted(set(xs)))\<close>.\<close>

definition sorted_set :: "'a::linorder list \<Rightarrow> 'a list" where
  "sorted_set xs = sort (remdups xs)"

lemma set_sorted_set [simp]: "set (sorted_set xs) = set xs"
  by (simp add: sorted_set_def)

lemma sorted_sorted_set [simp]: "sorted (sorted_set xs)"
  by (simp add: sorted_set_def)

lemma distinct_sorted_set [simp]: "distinct (sorted_set xs)"
  by (simp add: sorted_set_def)

lemma sorted_set_Nil_iff [simp]: "sorted_set xs = [] \<longleftrightarrow> xs = []"
  by (metis set_empty set_sorted_set)

lemma sorted_set_Nil [simp]: "sorted_set [] = []"
  by simp

lemma sorted_set_eq_iff: "sorted_set xs = sorted_set ys \<longleftrightarrow> set xs = set ys"
  by (metis distinct_sorted_set set_sorted_set sorted_distinct_set_unique sorted_sorted_set)

lemma sorted_set_idem: "sorted xs \<Longrightarrow> distinct xs \<Longrightarrow> sorted_set xs = xs"
  by (simp add: sorted_set_def sorted_sort_id distinct_remdups_id)

section \<open>Association lists used as insertion-ordered dictionaries\<close>

lemma map_of_eq_Some_distinct:
  "distinct (map fst kvs) \<Longrightarrow> map_of kvs k = Some v \<longleftrightarrow> (k, v) \<in> set kvs"
  by simp

lemma sort_key_Nil_iff [simp]: "sort_key f xs = [] \<longleftrightarrow> xs = []"
  by (metis length_0_conv length_sort)

lemma sort_key_fst_unique:
  assumes "distinct (map fst xs)" and "mset xs = mset ys"
  shows "sort_key fst xs = sort_key fst ys"
proof (rule properties_for_sort_key)
  show "mset (sort_key fst ys) = mset xs" using assms(2) by simp
  show "sorted (map fst (sort_key fst ys))" by simp
  fix k assume "k \<in> set (sort_key fst ys)"
  have d: "distinct (map fst ys)"
    using assms by (metis mset_eq_imp_distinct_iff mset_map)
  have single: "filter (\<lambda>y. fst k = fst y) zs = [k]"
    if "distinct (map fst zs)" "k \<in> set zs" for zs
    using that by (induction zs) (auto simp: filter_empty_conv image_iff)
  have k: "k \<in> set ys" "k \<in> set xs"
    using \<open>k \<in> set (sort_key fst ys)\<close> assms(2) by (auto dest: mset_eq_setD)
  have "distinct (map fst (sort_key fst ys))"
    using d by (metis mset_eq_imp_distinct_iff mset_map mset_sort)
  then show "filter (\<lambda>y. fst k = fst y) (sort_key fst ys) = filter (\<lambda>x. fst k = fst x) xs"
    using single assms(1) k by simp
qed

end
