(* ===== verification/Python_Text.thy ===== *)
theory Python_Text
  imports Prelude
begin

text \<open>
  The \<^verbatim>\<open>str\<close> methods the program uses (\<^verbatim>\<open>strip\<close>, \<^verbatim>\<open>lower\<close>, \<^verbatim>\<open>replace\<close>, \<^verbatim>\<open>split\<close>,
  \<^verbatim>\<open>startswith\<close>, \<^verbatim>\<open>endswith\<close>), on strings of code points below 256, and the contract checks the
  control plane builds on them: nonblank fields, sorted nonblank tuples and hexadecimal digests
  (\<^verbatim>\<open>core/p3/contracts.py\<close>, \<^verbatim>\<open>core/night_shift/contracts.py\<close>).
\<close>

section \<open>String methods of the language\<close>

text \<open>Code points below 256 for which \<^verbatim>\<open>str.isspace\<close> holds.\<close>

definition is_space :: "char \<Rightarrow> bool" where
  "is_space c = (let n = of_char c :: nat in
     9 \<le> n \<and> n \<le> 13 \<or> 28 \<le> n \<and> n \<le> 32 \<or> n = 133 \<or> n = 160)"

definition strip :: "string \<Rightarrow> string" where
  "strip s = rev (dropWhile is_space (rev (dropWhile is_space s)))"

text \<open>\<^verbatim>\<open>str.lower\<close>: the ASCII capitals and the Latin-1 capitals, but the multiplication sign.\<close>

definition lower_char :: "char \<Rightarrow> char" where
  "lower_char c = (let n = of_char c :: nat in
     if 65 \<le> n \<and> n \<le> 90 \<or> 192 \<le> n \<and> n \<le> 222 \<and> n \<noteq> 215 then char_of (n + 32) else c)"

definition lower :: "string \<Rightarrow> string" where
  "lower s = map lower_char s"

definition startswith :: "string \<Rightarrow> string \<Rightarrow> bool" where
  "startswith p s = (take (length p) s = p)"

definition endswith :: "string \<Rightarrow> string \<Rightarrow> bool" where
  "endswith p s = startswith (rev p) (rev s)"

text \<open>\<^verbatim>\<open>s.split(c)\<close> for a one-character separator: never empty.\<close>

fun split_on :: "char \<Rightarrow> string \<Rightarrow> string list" where
  "split_on c [] = [[]]"
| "split_on c (x # xs) =
     (if x = c then [] # split_on c xs
      else (case split_on c xs of [] \<Rightarrow> [[x]] | w # ws \<Rightarrow> (x # w) # ws))"

text \<open>\<^verbatim>\<open>sep.join(xs)\<close>.\<close>

fun join :: "string \<Rightarrow> string list \<Rightarrow> string" where
  "join sep [] = []"
| "join sep [x] = x"
| "join sep (x # y # ys) = x @ sep @ join sep (y # ys)"

subsection \<open>Laws of strip\<close>

text \<open>A string is stripped when it neither starts nor ends with white space.\<close>

definition stripped :: "string \<Rightarrow> bool" where
  "stripped s = (s = [] \<or> \<not> is_space (hd s) \<and> \<not> is_space (last s))"

lemma dropWhile_hd_id: "xs = [] \<or> \<not> P (hd xs) \<Longrightarrow> dropWhile P xs = xs"
  by (cases xs) auto

lemma strip_stripped [simp]: "stripped (strip s)"
proof -
  let ?a = "dropWhile is_space s"
  let ?b = "dropWhile is_space (rev ?a)"
  have last_b: "?b \<noteq> [] \<Longrightarrow> \<not> is_space (hd ?b)" by (metis hd_dropWhile)
  have "?b \<noteq> [] \<Longrightarrow> \<not> is_space (last ?b)"
  proof -
    assume b: "?b \<noteq> []"
    then have "last ?b = last (rev ?a)" by (metis dropWhile_eq_self_iff last_appendR takeWhile_dropWhile_id)
    moreover have "?a \<noteq> []" using b by (cases ?a) auto
    ultimately show ?thesis by (metis hd_dropWhile last_rev)
  qed
  with last_b show ?thesis
    by (auto simp: stripped_def strip_def hd_rev last_rev)
qed

lemma strip_id: "stripped s \<Longrightarrow> strip s = s"
  by (cases "s = []") (auto simp: stripped_def strip_def dropWhile_hd_id hd_rev)

lemma strip_strip [simp]: "strip (strip s) = strip s"
  by (simp add: strip_id)

lemma strip_Nil [simp]: "strip [] = []"
  by (simp add: strip_def)

section \<open>Contract checks on text\<close>

text \<open>\<^verbatim>\<open>_nonblank\<close>, \<^verbatim>\<open>_text\<close>, \<^verbatim>\<open>_require_text\<close>: strip and refuse the empty string.\<close>

definition nonblank :: "string \<Rightarrow> string \<Rightarrow> string result" where
  "nonblank value field_name =
     (let normalized = strip value in
      if normalized = [] then raise_ns (field_name @ '' is required'') else return normalized)"

definition sorted_nonblank :: "string list \<Rightarrow> string \<Rightarrow> string list result" where
  "sorted_nonblank values field_name =
     (let normalized = sorted_set (map strip values) in
      if \<exists>item \<in> set normalized. item = []
      then raise_ns (field_name @ '' cannot contain blank values'') else return normalized)"

definition hex_alphabet :: "char set" where
  "hex_alphabet = set ''0123456789abcdef''"

text \<open>The message lists the admitted lengths, \<^verbatim>\<open>64\<close> or \<^verbatim>\<open>40/64\<close>; the two callers are
  \<open>require_sha256\<close> and \<open>require_git_oid\<close>.\<close>

definition require_hex_digest :: "string \<Rightarrow> string \<Rightarrow> nat list \<Rightarrow> string \<Rightarrow> string result" where
  "require_hex_digest value field_name lengths allowed =
     (let normalized = lower (strip value) in
      if length normalized \<notin> set lengths
      then raise_p3 (field_name @ '' must be a '' @ allowed @ ''-character hex digest'')
      else if \<exists>c \<in> set normalized. c \<notin> hex_alphabet
      then raise_p3 (field_name @ '' must contain hexadecimal characters only'')
      else return normalized)"

definition require_sha256 :: "string \<Rightarrow> string \<Rightarrow> string result" where
  "require_sha256 value field_name = require_hex_digest value field_name [64] ''64''"

definition ns_sha :: "string \<Rightarrow> string \<Rightarrow> string result" where
  "ns_sha value field_name = as_ns_error (require_sha256 value field_name)"

definition require_git_oid :: "string \<Rightarrow> string \<Rightarrow> string result" where
  "require_git_oid value field_name =
     as_ns_error (require_hex_digest value field_name [40, 64] ''40/64'')"

text \<open>The normal form of a digest.\<close>

definition is_hex :: "string \<Rightarrow> bool" where
  "is_hex s = list_all (\<lambda>c. c \<in> hex_alphabet) s"

definition is_sha256 :: "string \<Rightarrow> bool" where
  "is_sha256 s = (length s = 64 \<and> is_hex s)"

definition is_git_oid :: "string \<Rightarrow> bool" where
  "is_git_oid s = (length s \<in> {40, 64} \<and> is_hex s)"

lemma hex_alphabet_cases: "c \<in> hex_alphabet \<longleftrightarrow>
  c = CHR ''0'' \<or> c = CHR ''1'' \<or> c = CHR ''2'' \<or> c = CHR ''3'' \<or> c = CHR ''4'' \<or>
  c = CHR ''5'' \<or> c = CHR ''6'' \<or> c = CHR ''7'' \<or> c = CHR ''8'' \<or> c = CHR ''9'' \<or>
  c = CHR ''a'' \<or> c = CHR ''b'' \<or> c = CHR ''c'' \<or> c = CHR ''d'' \<or> c = CHR ''e'' \<or> c = CHR ''f''"
  by (simp add: hex_alphabet_def)

lemma hex_char_lower: "c \<in> hex_alphabet \<Longrightarrow> lower_char c = c"
  unfolding hex_alphabet_cases by (elim disjE) (simp_all add: lower_char_def Let_def)

lemma hex_char_not_space: "c \<in> hex_alphabet \<Longrightarrow> \<not> is_space c"
  unfolding hex_alphabet_cases by (elim disjE) (simp_all add: is_space_def Let_def)

lemma is_hex_lower: "is_hex s \<Longrightarrow> lower s = s"
  by (auto simp: is_hex_def lower_def list_all_iff hex_char_lower intro: map_idI)

lemma is_hex_strip: "is_hex s \<Longrightarrow> strip s = s"
  by (rule strip_id) (auto simp: stripped_def is_hex_def list_all_iff hex_char_not_space)

lemma require_hex_digest_Inr:
  "require_hex_digest v n ls a = Inr s \<longleftrightarrow>
     s = lower (strip v) \<and> length s \<in> set ls \<and> is_hex s"
  by (auto simp: require_hex_digest_def is_hex_def list_all_iff Let_def)

lemma require_hex_digest_fixed:
  "is_hex s \<Longrightarrow> length s \<in> set ls \<Longrightarrow> require_hex_digest s n ls a = Inr s"
  by (simp add: require_hex_digest_Inr is_hex_strip is_hex_lower)

lemma ns_sha_Inr: "ns_sha v n = Inr s \<longleftrightarrow> s = lower (strip v) \<and> is_sha256 s"
  by (auto simp: ns_sha_def require_sha256_def require_hex_digest_Inr is_sha256_def)

lemma ns_sha_fixed [simp]: "is_sha256 s \<Longrightarrow> ns_sha s n = Inr s"
  by (simp add: ns_sha_Inr is_sha256_def is_hex_strip is_hex_lower)

lemma require_git_oid_Inr: "require_git_oid v n = Inr s \<longleftrightarrow> s = lower (strip v) \<and> is_git_oid s"
  by (auto simp: require_git_oid_def require_hex_digest_Inr is_git_oid_def)

lemma require_git_oid_fixed [simp]: "is_git_oid s \<Longrightarrow> require_git_oid s n = Inr s"
  by (auto simp: require_git_oid_Inr is_git_oid_def is_hex_strip is_hex_lower)

lemma require_sha256_Inr: "require_sha256 v n = Inr s \<longleftrightarrow> s = lower (strip v) \<and> is_sha256 s"
  by (auto simp: require_sha256_def require_hex_digest_Inr is_sha256_def)

text \<open>A nonblank stripped string, and the tuples \<open>sorted_nonblank\<close> returns.\<close>

definition is_text :: "string \<Rightarrow> bool" where
  "is_text s = (s \<noteq> [] \<and> stripped s)"

definition is_text_tuple :: "string list \<Rightarrow> bool" where
  "is_text_tuple xs = (sorted xs \<and> distinct xs \<and> list_all is_text xs)"

lemma nonblank_Inr: "nonblank v n = Inr s \<longleftrightarrow> s = strip v \<and> s \<noteq> []"
  by (auto simp: nonblank_def Let_def)

lemma nonblank_is_text: "nonblank v n = Inr s \<Longrightarrow> is_text s"
  by (auto simp: nonblank_Inr is_text_def)

lemma nonblank_fixed [simp]: "is_text s \<Longrightarrow> nonblank s n = Inr s"
  by (simp add: nonblank_Inr is_text_def strip_id)

lemma nonblank_Inl: "nonblank v n = Inl e \<longleftrightarrow>
    strip v = [] \<and> e = NightShiftContractError (n @ '' is required'')"
  by (auto simp: nonblank_def Let_def)

lemma sorted_nonblank_Inr:
  "sorted_nonblank vs n = Inr xs \<longleftrightarrow> xs = sorted_set (map strip vs) \<and> [] \<notin> set xs"
  by (auto simp: sorted_nonblank_def Let_def)

lemma sorted_nonblank_tuple: "sorted_nonblank vs n = Inr xs \<Longrightarrow> is_text_tuple xs"
  by (auto simp: sorted_nonblank_Inr is_text_tuple_def is_text_def list_all_iff) (metis imageI)

lemma sorted_nonblank_fixed [simp]: "is_text_tuple xs \<Longrightarrow> sorted_nonblank xs n = Inr xs"
proof -
  assume a: "is_text_tuple xs"
  then have "map strip xs = xs"
    by (auto simp: is_text_tuple_def is_text_def list_all_iff strip_id intro: map_idI)
  with a show ?thesis
    by (auto simp: sorted_nonblank_Inr is_text_tuple_def is_text_def list_all_iff sorted_set_idem)
qed

lemmas text_Inr = nonblank_Inr sorted_nonblank_Inr ns_sha_Inr require_git_oid_Inr

end
