(* ===== verification/Sha256.thy ===== *)
theory Sha256
  imports Python_Text "HOL-Library.Word"
begin

text \<open>
  \<^verbatim>\<open>hashlib.sha256(...).hexdigest()\<close> of the standard library, as FIPS 180-4 defines it, on lists
  of bytes, and the UTF-8 encoding \<^verbatim>\<open>str.encode("utf-8")\<close> on code points below 256. The hash is
  a concrete executable function, so no property assumes anything of it: statements about digests
  are of the form \<open>equal digests come from equal contents, or the two contents are a collision\<close>.
\<close>

unbundle bit_operations_syntax

type_synonym u32 = "32 word"
type_synonym byte = "8 word"

section \<open>UTF-8\<close>

definition utf8_char :: "char \<Rightarrow> byte list" where
  "utf8_char c = (let n = of_char c :: nat in
     if n < 128 then [word_of_nat n]
     else [word_of_nat (192 + n div 64), word_of_nat (128 + n mod 64)])"

definition utf8_encode :: "string \<Rightarrow> byte list" where
  "utf8_encode s = concat (map utf8_char s)"

text \<open>The inverse, as a decoder reads it: the first byte decides the length.\<close>

fun utf8_decode :: "byte list \<Rightarrow> string" where
  "utf8_decode [] = []"
| "utf8_decode [b] = [char_of (unat b)]"
| "utf8_decode (b # b' # bs) =
     (if unat b < 128 then char_of (unat b) # utf8_decode (b' # bs)
      else char_of ((unat b - 192) * 64 + (unat b' - 128)) # utf8_decode bs)"

lemma of_char_nat_less: "(of_char c :: nat) < 256"
  by (rule nat_of_char_less_256)

lemma unat_byte: "n < 256 \<Longrightarrow> unat (word_of_nat n :: byte) = n"
  by (simp add: unat_of_nat)

lemma utf8_decode_char: "utf8_decode (utf8_char c @ bs) = c # utf8_decode bs"
proof (cases "(of_char c :: nat) < 128")
  case True
  then show ?thesis
    by (cases bs) (simp_all add: utf8_char_def Let_def unat_byte)
next
  case False
  let ?n = "of_char c :: nat"
  have n: "?n < 256" by (rule of_char_nat_less)
  have "?n div 64 < 4" using n by (intro less_mult_imp_div_less) simp
  then have "192 + ?n div 64 < 256" "128 + ?n mod 64 < 256" by simp_all
  then have "utf8_decode (utf8_char c @ bs) = char_of (?n div 64 * 64 + ?n mod 64) # utf8_decode bs"
    using False by (simp add: utf8_char_def Let_def unat_byte del: of_nat_add)
  then show ?thesis by simp
qed

lemma utf8_decode_encode: "utf8_decode (utf8_encode s) = s"
  by (induction s) (simp_all add: utf8_encode_def utf8_decode_char)

lemma utf8_encode_inject [simp]: "utf8_encode s = utf8_encode t \<longleftrightarrow> s = t"
  by (metis utf8_decode_encode)

section \<open>The compression function\<close>

definition rotr :: "nat \<Rightarrow> u32 \<Rightarrow> u32" where
  "rotr n x = (drop_bit n x OR push_bit (32 - n) x)"

definition ch :: "u32 \<Rightarrow> u32 \<Rightarrow> u32 \<Rightarrow> u32" where
  "ch x y z = ((x AND y) XOR (NOT x AND z))"

definition maj :: "u32 \<Rightarrow> u32 \<Rightarrow> u32 \<Rightarrow> u32" where
  "maj x y z = ((x AND y) XOR (x AND z) XOR (y AND z))"

definition big_sigma0 :: "u32 \<Rightarrow> u32" where
  "big_sigma0 x = (rotr 2 x XOR rotr 13 x XOR rotr 22 x)"

definition big_sigma1 :: "u32 \<Rightarrow> u32" where
  "big_sigma1 x = (rotr 6 x XOR rotr 11 x XOR rotr 25 x)"

definition small_sigma0 :: "u32 \<Rightarrow> u32" where
  "small_sigma0 x = (rotr 7 x XOR rotr 18 x XOR drop_bit 3 x)"

definition small_sigma1 :: "u32 \<Rightarrow> u32" where
  "small_sigma1 x = (rotr 17 x XOR rotr 19 x XOR drop_bit 10 x)"

text \<open>The first 32 bits of the fractional parts of the cube roots of the first 64 primes, and of the
  square roots of the first eight.\<close>

definition round_constants :: "u32 list" where
  "round_constants =
    [1116352408, 1899447441, 3049323471, 3921009573, 961987163, 1508970993, 2453635748, 2870763221,
     3624381080, 310598401, 607225278, 1426881987, 1925078388, 2162078206, 2614888103, 3248222580,
     3835390401, 4022224774, 264347078, 604807628, 770255983, 1249150122, 1555081692, 1996064986,
     2554220882, 2821834349, 2952996808, 3210313671, 3336571891, 3584528711, 113926993, 338241895,
     666307205, 773529912, 1294757372, 1396182291, 1695183700, 1986661051, 2177026350, 2456956037,
     2730485921, 2820302411, 3259730800, 3345764771, 3516065817, 3600352804, 4094571909, 275423344,
     430227734, 506948616, 659060556, 883997877, 958139571, 1322822218, 1537002063, 1747873779,
     1955562222, 2024104815, 2227730452, 2361852424, 2428436474, 2756734187, 3204031479, 3329325298]"

record hash_state =
  ha :: u32
  hb :: u32
  hc :: u32
  hd0 :: u32
  he :: u32
  hf :: u32
  hg :: u32
  hh :: u32

definition initial_hash :: hash_state where
  "initial_hash = \<lparr>ha = 1779033703, hb = 3144134277, hc = 1013904242, hd0 = 2773480762,
     he = 1359893119, hf = 2600822924, hg = 528734635, hh = 1541459225\<rparr>"

definition round_step :: "hash_state \<Rightarrow> u32 \<Rightarrow> u32 \<Rightarrow> hash_state" where
  "round_step s k w =
     (let t1 = hh s + big_sigma1 (he s) + ch (he s) (hf s) (hg s) + k + w;
          t2 = big_sigma0 (ha s) + maj (ha s) (hb s) (hc s)
      in \<lparr>ha = t1 + t2, hb = ha s, hc = hb s, hd0 = hc s,
          he = hd0 s + t1, hf = he s, hg = hf s, hh = hg s\<rparr>)"

text \<open>The message schedule as a sliding window of sixteen words: round \<open>t\<close> consumes the first
  word and appends word \<open>t + 16\<close>.\<close>

definition next_word :: "u32 list \<Rightarrow> u32" where
  "next_word w = small_sigma1 (w ! 14) + w ! 9 + small_sigma0 (w ! 1) + w ! 0"

fun rounds :: "u32 list \<Rightarrow> u32 list \<Rightarrow> hash_state \<Rightarrow> hash_state" where
  "rounds [] w s = s"
| "rounds (k # ks) w s = rounds ks (tl w @ [next_word w]) (round_step s k (hd w))"

definition add_state :: "hash_state \<Rightarrow> hash_state \<Rightarrow> hash_state" where
  "add_state s t = \<lparr>ha = ha s + ha t, hb = hb s + hb t, hc = hc s + hc t, hd0 = hd0 s + hd0 t,
     he = he s + he t, hf = hf s + hf t, hg = hg s + hg t, hh = hh s + hh t\<rparr>"

definition compress :: "hash_state \<Rightarrow> u32 list \<Rightarrow> hash_state" where
  "compress s block = add_state s (rounds round_constants block s)"

section \<open>Padding, blocks and the digest\<close>

fun word_of_bytes :: "byte list \<Rightarrow> u32 list" where
  "word_of_bytes (a # b # c # d # bs) =
     (push_bit 24 (ucast a) OR push_bit 16 (ucast b) OR push_bit 8 (ucast c) OR ucast d)
       # word_of_bytes bs"
| "word_of_bytes _ = []"

definition pad :: "byte list \<Rightarrow> byte list" where
  "pad msg = (let n = length msg; bits = 8 * n in
     msg @ [0x80] @ replicate ((119 - n mod 64) mod 64) 0 @
     map (\<lambda>i. word_of_int (int bits div 256 ^ i mod 256)) [7, 6, 5, 4, 3, 2, 1, 0])"

function blocks :: "u32 list \<Rightarrow> u32 list list" where
  "blocks ws = (if length ws < 16 then [] else take 16 ws # blocks (drop 16 ws))"
  by pat_completeness auto
termination
  by (relation "measure length") auto

declare blocks.simps [simp del]

definition sha256_state :: "byte list \<Rightarrow> hash_state" where
  "sha256_state msg = foldl compress initial_hash (blocks (word_of_bytes (pad msg)))"

definition hex_digit :: "nat \<Rightarrow> char" where
  "hex_digit n = ''0123456789abcdef'' ! n"

definition hex_of_word :: "u32 \<Rightarrow> string" where
  "hex_of_word w = map (\<lambda>i. hex_digit (unat (drop_bit (4 * i) w AND 15))) [7, 6, 5, 4, 3, 2, 1, 0]"

definition sha256_hex :: "byte list \<Rightarrow> string" where
  "sha256_hex msg = (let s = sha256_state msg in
     hex_of_word (ha s) @ hex_of_word (hb s) @ hex_of_word (hc s) @ hex_of_word (hd0 s) @
     hex_of_word (he s) @ hex_of_word (hf s) @ hex_of_word (hg s) @ hex_of_word (hh s))"

lemma hex_digit_alphabet: "n < 16 \<Longrightarrow> hex_digit n \<in> hex_alphabet"
  unfolding hex_digit_def hex_alphabet_def by (rule nth_mem) simp

lemma nibble_less: "unat (x AND 15 :: u32) < 16"
proof -
  have "unat (x AND 15 :: u32) \<le> unat (15 :: u32)"
    by (rule word_and_le1 [THEN word_le_nat_alt [THEN iffD1]])
  then show ?thesis by simp
qed

lemma hex_of_word_hex: "is_hex (hex_of_word w)" "length (hex_of_word w) = 8"
  by (simp_all add: hex_of_word_def is_hex_def hex_digit_alphabet nibble_less)

lemma is_sha256_sha256_hex [simp]: "is_sha256 (sha256_hex msg)"
  using hex_of_word_hex by (simp add: is_sha256_def sha256_hex_def Let_def is_hex_def)

text \<open>Two different messages with one digest. No such pair is known; a statement that ends in
  \<open>collision\<close> exhibits one when its other alternatives fail.\<close>

definition collision :: "byte list \<Rightarrow> byte list \<Rightarrow> bool" where
  "collision x y = (x \<noteq> y \<and> sha256_hex x = sha256_hex y)"

lemma sha256_eqD: "sha256_hex x = sha256_hex y \<Longrightarrow> x = y \<or> collision x y"
  by (auto simp: collision_def)

end
