(* ===== verification/Canonical_Json.thy ===== *)
theory Canonical_Json
  imports Sha256
begin

text \<open>
  Canonical JSON and content digests, \<^verbatim>\<open>core/p3/contracts.py\<close>: the values the program
  canonicalises, \<^verbatim>\<open>_normalize\<close>, the text \<^verbatim>\<open>json.dumps\<close> writes for them, the text
  \<^verbatim>\<open>json.loads\<close> reads back, \<^verbatim>\<open>canonical_json\<close>, \<^verbatim>\<open>content_digest\<close> and \<^verbatim>\<open>require_digest\<close>.

  Floats are outside the model (their \<^verbatim>\<open>repr\<close> is not modelled): no value here is one, and the
  reader refuses a number with a fraction or an exponent. So are code points above 255.
\<close>

section \<open>Values\<close>

text \<open>JSON values; an object keeps its entries in the insertion order of the \<^verbatim>\<open>dict\<close>.\<close>

datatype json =
    JNull
  | JBool bool
  | JInt int
  | JStr string
  | JList "json list"
  | JObj "(string \<times> json) list"

text \<open>A \<^verbatim>\<open>dict\<close> has no duplicate keys.\<close>

primrec wf_json :: "json \<Rightarrow> bool" where
  "wf_json JNull = True"
| "wf_json (JBool b) = True"
| "wf_json (JInt i) = True"
| "wf_json (JStr s) = True"
| "wf_json (JList xs) = list_all (\<lambda>b. b) (map wf_json xs)"
| "wf_json (JObj kvs) =
     (distinct (map fst kvs) \<and> list_all (\<lambda>(k, b). b) (map (map_prod id wf_json) kvs))"

lemma wf_json_simps [simp]:
  "wf_json (JList xs) = list_all wf_json xs"
  "wf_json (JObj kvs) = (distinct (map fst kvs) \<and> list_all (\<lambda>(k, v). wf_json v) kvs)"
  by (auto simp: list_all_iff)

declare wf_json.simps(5,6) [simp del]

text \<open>The sorted-key form \<^verbatim>\<open>_normalize\<close> gives a JSON value.\<close>

primrec norm_json :: "json \<Rightarrow> json" where
  "norm_json JNull = JNull"
| "norm_json (JBool b) = JBool b"
| "norm_json (JInt i) = JInt i"
| "norm_json (JStr s) = JStr s"
| "norm_json (JList xs) = JList (map norm_json xs)"
| "norm_json (JObj kvs) = JObj (sort_key fst (map (map_prod id norm_json) kvs))"

section \<open>json.dumps\<close>

text \<open>\<^verbatim>\<open>ensure_ascii=False\<close>: only the quotation mark, the backslash and the control characters
  below 32 are escaped.\<close>

definition dump_char :: "char \<Rightarrow> string" where
  "dump_char c =
     (if c = CHR 0x22 then [CHR 0x5C, CHR 0x22]
      else if c = CHR 0x5C then [CHR 0x5C, CHR 0x5C]
      else if c = CHR 0x0A then [CHR 0x5C, CHR ''n'']
      else if c = CHR 0x0D then [CHR 0x5C, CHR ''r'']
      else if c = CHR 0x09 then [CHR 0x5C, CHR ''t'']
      else if c = CHR 0x0C then [CHR 0x5C, CHR ''f'']
      else if c = CHR 0x08 then [CHR 0x5C, CHR ''b'']
      else let n = of_char c :: nat in
        if n < 32 then [CHR 0x5C, CHR ''u'', CHR ''0'', CHR ''0'', hex_digit (n div 16), hex_digit (n mod 16)]
        else [c])"

definition dump_str :: "string \<Rightarrow> string" where
  "dump_str s = [CHR 0x22] @ concat (map dump_char s) @ [CHR 0x22]"

definition digit_char :: "int \<Rightarrow> char" where
  "digit_char i = ''0123456789'' ! nat i"

function show_nat :: "int \<Rightarrow> string" where
  "show_nat i = (if i < 10 then [digit_char i] else show_nat (i div 10) @ [digit_char (i mod 10)])"
  by pat_completeness auto
termination
  by (relation "measure nat") auto

declare show_nat.simps [simp del]

definition show_int :: "int \<Rightarrow> string" where
  "show_int i = (if i < 0 then CHR ''-'' # show_nat (- i) else show_nat i)"

primrec dumps :: "json \<Rightarrow> string" where
  "dumps JNull = ''null''"
| "dumps (JBool b) = (if b then ''true'' else ''false'')"
| "dumps (JInt i) = show_int i"
| "dumps (JStr s) = dump_str s"
| "dumps (JList xs) = ''['' @ join '','' (map dumps xs) @ '']''"
| "dumps (JObj kvs) =
     ''{'' @ join '','' (map (\<lambda>(k, t). dump_str k @ '':'' @ t) (map (map_prod id dumps) kvs)) @ ''}''"

text \<open>\<^verbatim>\<open>canonical_json\<close> and \<^verbatim>\<open>content_digest\<close> of a JSON value.\<close>

definition canonical_json :: "json \<Rightarrow> string" where
  "canonical_json j = dumps (norm_json j)"

definition content_digest :: "json \<Rightarrow> string" where
  "content_digest j = sha256_hex (utf8_encode (canonical_json j))"

definition require_digest :: "json \<Rightarrow> string \<Rightarrow> unit result" where
  "require_digest value expected_digest =
     and_then (require_sha256 expected_digest ''expected_digest'') (\<lambda>expected.
       require (content_digest value = expected) (P3ContractError ''content digest mismatch''))"

section \<open>_normalize on Python values\<close>

text \<open>The Python values a caller hands over: besides the JSON values, tuples, sets (elements in
  iteration order), dictionaries whose keys may be integers, and values of any other type, named
  by it.\<close>

datatype pykey = KStr string | KInt int

datatype pyval =
    PyNone
  | PyBool bool
  | PyInt int
  | PyStr string
  | PyList "pyval list"
  | PyTuple "pyval list"
  | PySet "pyval list"
  | PyDict "(pykey \<times> pyval) list"
  | PyOther string

fun key_str :: "pykey \<Rightarrow> string" where
  "key_str (KStr s) = s"
| "key_str (KInt i) = show_int i"

text \<open>A dictionary display or comprehension: a later entry replaces the value of an equal key.\<close>

fun dict_put :: "'k \<Rightarrow> 'v \<Rightarrow> ('k \<times> 'v) list \<Rightarrow> ('k \<times> 'v) list" where
  "dict_put k v [] = [(k, v)]"
| "dict_put k v ((k', v') # kvs) = (if k = k' then (k, v) # kvs else (k', v') # dict_put k v kvs)"

definition dict_of :: "('k \<times> 'v) list \<Rightarrow> ('k \<times> 'v) list" where
  "dict_of kvs = foldl (\<lambda>d (k, v). dict_put k v d) [] kvs"

lemma size_pydict_entry: "(k, v) \<in> set kvs \<Longrightarrow> size v < Suc (size_list (size_prod (\<lambda>_. 0) size) kvs)"
  by (induction kvs) auto

function normalize_value :: "pyval \<Rightarrow> json result" where
  "normalize_value PyNone = return JNull"
| "normalize_value (PyBool b) = return (JBool b)"
| "normalize_value (PyInt i) = return (JInt i)"
| "normalize_value (PyStr s) = return (JStr s)"
| "normalize_value (PyTuple xs) = and_then (map_result normalize_value xs) (\<lambda>ys. return (JList ys))"
| "normalize_value (PyList xs) = and_then (map_result normalize_value xs) (\<lambda>ys. return (JList ys))"
| "normalize_value (PySet xs) =
     and_then (map_result normalize_value xs) (\<lambda>ys. return (JList (sort_key canonical_json ys)))"
| "normalize_value (PyDict kvs) =
     and_then (map_result (\<lambda>kv. and_then (normalize_value (snd kv)) (\<lambda>j. return (key_str (fst kv), j)))
                (sort_key (\<lambda>kv. key_str (fst kv)) kvs))
       (\<lambda>entries. return (JObj (dict_of entries)))"
| "normalize_value (PyOther t) = raise_p3 (''unsupported canonical value type: '' @ t)"
  by pat_completeness auto
termination
proof (relation "measure size", goal_cases)
  case (5 kvs kv)
  then have "(fst kv, snd kv) \<in> set kvs" by simp
  then have "size (snd kv) < Suc (size_list (size_prod (\<lambda>_. 0) size) kvs)" by (rule size_pydict_entry)
  then show ?case by simp
qed (auto simp: less_Suc_eq_le intro: size_list_estimation')

definition canonical_json_py :: "pyval \<Rightarrow> string result" where
  "canonical_json_py v = and_then (normalize_value v) (\<lambda>j. return (dumps j))"

definition content_digest_py :: "pyval \<Rightarrow> string result" where
  "content_digest_py v = and_then (canonical_json_py v) (\<lambda>t. return (sha256_hex (utf8_encode t)))"

section \<open>json.loads\<close>

definition is_json_ws :: "char \<Rightarrow> bool" where
  "is_json_ws c = (c = CHR 0x20 \<or> c = CHR 0x09 \<or> c = CHR 0x0A \<or> c = CHR 0x0D)"

definition skip_ws :: "string \<Rightarrow> string" where
  "skip_ws s = dropWhile is_json_ws s"

definition is_digit :: "char \<Rightarrow> bool" where
  "is_digit c = (CHR ''0'' \<le> c \<and> c \<le> CHR ''9'')"

definition digit_value :: "char \<Rightarrow> int" where
  "digit_value c = int (of_char c) - 48"

definition hex_value :: "char \<Rightarrow> nat option" where
  "hex_value c = (let n = of_char c :: nat in
     if 48 \<le> n \<and> n \<le> 57 then Some (n - 48)
     else if 97 \<le> n \<and> n \<le> 102 then Some (n - 87)
     else if 65 \<le> n \<and> n \<le> 70 then Some (n - 55)
     else None)"

definition hex4 :: "char \<Rightarrow> char \<Rightarrow> char \<Rightarrow> char \<Rightarrow> nat option" where
  "hex4 a b c d =
     (case (hex_value a, hex_value b, hex_value c, hex_value d) of
        (Some w, Some x, Some y, Some z) \<Rightarrow> Some (((w * 16 + x) * 16 + y) * 16 + z)
      | _ \<Rightarrow> None)"

definition unescape :: "char \<Rightarrow> char option" where
  "unescape e =
     (if e = CHR 0x22 then Some (CHR 0x22)
      else if e = CHR 0x5C then Some (CHR 0x5C)
      else if e = CHR ''/'' then Some (CHR ''/'')
      else if e = CHR ''b'' then Some (CHR 0x08)
      else if e = CHR ''f'' then Some (CHR 0x0C)
      else if e = CHR ''n'' then Some (CHR 0x0A)
      else if e = CHR ''r'' then Some (CHR 0x0D)
      else if e = CHR ''t'' then Some (CHR 0x09)
      else None)"

definition prepend :: "char \<Rightarrow> (string \<times> string) option \<Rightarrow> (string \<times> string) option" where
  "prepend c r = map_option (\<lambda>(s, rest). (c # s, rest)) r"

text \<open>The rest of a string literal after its opening quotation mark; strict, as by default. An
  escape of a code point above 255 is outside the model and refused.\<close>

fun parse_str :: "string \<Rightarrow> (string \<times> string) option" where
  "parse_str [] = None"
| "parse_str (c # cs) =
     (if c = CHR 0x22 then Some ([], cs)
      else if c = CHR 0x5C then
        (case cs of
           [] \<Rightarrow> None
         | e # es \<Rightarrow>
             if e = CHR ''u'' then
               (case es of
                  h1 # h2 # h3 # h4 # rest \<Rightarrow>
                    (case hex4 h1 h2 h3 h4 of
                       Some n \<Rightarrow> if n < 256 then prepend (char_of n) (parse_str rest) else None
                     | None \<Rightarrow> None)
                | _ \<Rightarrow> None)
             else (case unescape e of Some x \<Rightarrow> prepend x (parse_str es) | None \<Rightarrow> None))
      else if (of_char c :: nat) < 32 then None
      else prepend c (parse_str cs))"

definition read_digits :: "string \<Rightarrow> int" where
  "read_digits ds = foldl (\<lambda>n d. 10 * n + digit_value d) 0 ds"

text \<open>An integer without sign: a zero, or digits that do not start with zero. What follows must
  not make it a float.\<close>

definition parse_nat :: "string \<Rightarrow> (int \<times> string) option" where
  "parse_nat s =
     (let ds = takeWhile is_digit s;
          (ds', rest) = (if ds \<noteq> [] \<and> hd ds = CHR ''0'' then (''0'', tl s) else (ds, drop (length ds) s))
      in if ds = [] then None
         else if rest \<noteq> [] \<and> hd rest \<in> {CHR ''.'', CHR ''e'', CHR ''E''} then None
         else Some (read_digits ds', rest))"

definition parse_number :: "string \<Rightarrow> (json \<times> string) option" where
  "parse_number s =
     (case s of
        c # cs \<Rightarrow>
          if c = CHR ''-'' then map_option (\<lambda>(i, rest). (JInt (- i), rest)) (parse_nat cs)
          else map_option (\<lambda>(i, rest). (JInt i, rest)) (parse_nat s)
      | [] \<Rightarrow> None)"

text \<open>The recursive descent, with fuel; two units for each character are enough
  (\<open>parse_fuel_enough\<close>), which is what \<open>loads\<close> gives it.\<close>

fun parse_value :: "nat \<Rightarrow> string \<Rightarrow> (json \<times> string) option"
  and parse_elems :: "nat \<Rightarrow> string \<Rightarrow> (json list \<times> string) option"
  and parse_members :: "nat \<Rightarrow> string \<Rightarrow> ((string \<times> json) list \<times> string) option" where
  "parse_value 0 s = None"
| "parse_value (Suc n) s =
     (case s of
        [] \<Rightarrow> None
      | c # cs \<Rightarrow>
          if c = CHR 0x22 then map_option (\<lambda>(t, rest). (JStr t, rest)) (parse_str cs)
          else if c = CHR 0x7B then
            (case skip_ws cs of
               [] \<Rightarrow> None
             | d # ds \<Rightarrow>
                 if d = CHR 0x7D then Some (JObj [], ds)
                 else map_option (\<lambda>(kvs, rest). (JObj (dict_of kvs), rest)) (parse_members n (d # ds)))
          else if c = CHR 0x5B then
            (case skip_ws cs of
               [] \<Rightarrow> None
             | d # ds \<Rightarrow>
                 if d = CHR 0x5D then Some (JList [], ds)
                 else map_option (\<lambda>(xs, rest). (JList xs, rest)) (parse_elems n (d # ds)))
          else if startswith ''null'' s then Some (JNull, drop 4 s)
          else if startswith ''true'' s then Some (JBool True, drop 4 s)
          else if startswith ''false'' s then Some (JBool False, drop 5 s)
          else parse_number s)"
| "parse_elems 0 s = None"
| "parse_elems (Suc n) s =
     (case parse_value n s of
        None \<Rightarrow> None
      | Some (x, rest) \<Rightarrow>
          (case skip_ws rest of
             [] \<Rightarrow> None
           | d # ds \<Rightarrow>
               if d = CHR 0x5D then Some ([x], ds)
               else if d = CHR 0x2C then
                 map_option (\<lambda>(xs, rest'). (x # xs, rest')) (parse_elems n (skip_ws ds))
               else None))"
| "parse_members 0 s = None"
| "parse_members (Suc n) s =
     (case s of
        [] \<Rightarrow> None
      | c # cs \<Rightarrow>
          if c \<noteq> CHR 0x22 then None
          else (case parse_str cs of
             None \<Rightarrow> None
           | Some (k, rest) \<Rightarrow>
               (case skip_ws rest of
                  [] \<Rightarrow> None
                | d # ds \<Rightarrow>
                    if d \<noteq> CHR 0x3A then None
                    else (case parse_value n (skip_ws ds) of
                       None \<Rightarrow> None
                     | Some (v, rest') \<Rightarrow>
                         (case skip_ws rest' of
                            [] \<Rightarrow> None
                          | e # es \<Rightarrow>
                              if e = CHR 0x7D then Some ([(k, v)], es)
                              else if e = CHR 0x2C then
                                map_option (\<lambda>(kvs, r). ((k, v) # kvs, r)) (parse_members n (skip_ws es))
                              else None)))))"

definition loads :: "string \<Rightarrow> json option" where
  "loads s =
     (case parse_value (2 * length s + 2) (skip_ws s) of
        Some (j, rest) \<Rightarrow> if skip_ws rest = [] then Some j else None
      | None \<Rightarrow> None)"

section \<open>repr\<close>

text \<open>\<^verbatim>\<open>repr\<close> of a string, as the formatted messages (\<^verbatim>\<open>{value!r}\<close>) and \<^verbatim>\<open>str\<close> of a
  container use it.\<close>

definition repr_char :: "char \<Rightarrow> char \<Rightarrow> string" where
  "repr_char q c =
     (let n = of_char c :: nat in
      if c = q \<or> c = CHR 0x5C then [CHR 0x5C, c]
      else if n = 9 then [CHR 0x5C, CHR ''t'']
      else if n = 10 then [CHR 0x5C, CHR ''n'']
      else if n = 13 then [CHR 0x5C, CHR ''r'']
      else if n < 32 \<or> 127 \<le> n \<and> n \<le> 160 \<or> n = 173
      then [CHR 0x5C, CHR ''x'', hex_digit (n div 16), hex_digit (n mod 16)]
      else [c])"

definition repr_str :: "string \<Rightarrow> string" where
  "repr_str s =
     (let q = (if CHR 0x27 \<in> set s \<and> CHR 0x22 \<notin> set s then CHR 0x22 else CHR 0x27)
      in [q] @ concat (map (repr_char q) s) @ [q])"

end
