(* ===== verification/Json_Roundtrip.thy ===== *)
theory Json_Roundtrip
  imports Canonical_Json
begin

text \<open>
  What the canonical text is good for: \<^verbatim>\<open>json.loads\<close> reads back exactly the value
  \<^verbatim>\<open>json.dumps\<close> wrote, so the text determines the value, and the canonical form is a normal form
  for equality of dictionaries. From these, equal content digests mean equal contents up to an
  exhibited SHA-256 collision.
\<close>

section \<open>Integers\<close>

text \<open>What may follow a value in a document: the end, or one of the three delimiters.\<close>

definition delim :: "string \<Rightarrow> bool" where
  "delim rest = (rest = [] \<or> hd rest \<in> {CHR 0x2C, CHR 0x5D, CHR 0x7D})"

lemma digit_cases: "0 \<le> i \<Longrightarrow> i < 10 \<Longrightarrow>
    i = 0 \<or> i = 1 \<or> i = 2 \<or> i = 3 \<or> i = 4 \<or> i = 5 \<or> i = 6 \<or> i = 7 \<or> i = 8 \<or> i = (9::int)"
  by presburger

lemma digit_char_props:
  assumes "0 \<le> i" "i < 10"
  shows "is_digit (digit_char i)" "digit_value (digit_char i) = i" "digit_char i = CHR ''0'' \<longleftrightarrow> i = 0"
  using digit_cases [OF assms]
  by (elim disjE; simp add: is_digit_def digit_char_def digit_value_def)+

lemma read_digits_snoc: "read_digits (ds @ [d]) = 10 * read_digits ds + digit_value d"
  by (simp add: read_digits_def)

lemma show_nat_props:
  "0 \<le> i \<Longrightarrow> read_digits (show_nat i) = i \<and> list_all is_digit (show_nat i) \<and> show_nat i \<noteq> [] \<and>
     (hd (show_nat i) = CHR ''0'' \<longrightarrow> i = 0)"
proof (induction i rule: show_nat.induct)
  case (1 i)
  show ?case
  proof (cases "i < 10")
    case True
    with 1 show ?thesis
      by (simp add: show_nat.simps [of i] digit_char_props) (simp add: read_digits_def digit_char_props)
  next
    case False
    with 1 have IH: "read_digits (show_nat (i div 10)) = i div 10"
        "list_all is_digit (show_nat (i div 10))" "show_nat (i div 10) \<noteq> []"
        "hd (show_nat (i div 10)) = CHR ''0'' \<longrightarrow> i div 10 = 0"
      by (auto simp: pos_imp_zdiv_nonneg_iff)
    moreover have "i div 10 \<noteq> 0" using False by presburger
    ultimately show ?thesis using False
      by (simp add: show_nat.simps [of i] read_digits_snoc digit_char_props)
  qed
qed

lemma show_nat_0: "show_nat 0 = ''0''"
  by (simp add: show_nat.simps digit_char_def)

lemma takeWhile_digits: "list_all is_digit ds \<Longrightarrow> delim rest \<Longrightarrow> takeWhile is_digit (ds @ rest) = ds"
  by (induction ds) (auto simp: delim_def is_digit_def takeWhile_eq_Nil_iff)

lemma parse_nat_show:
  assumes "0 \<le> i" "delim rest"
  shows "parse_nat (show_nat i @ rest) = Some (i, rest)"
proof -
  note p = show_nat_props [OF assms(1)]
  from p have tw: "takeWhile is_digit (show_nat i @ rest) = show_nat i"
    by (simp add: takeWhile_digits assms(2))
  have r: "\<not> (rest \<noteq> [] \<and> hd rest \<in> {CHR ''.'', CHR ''e'', CHR ''E''})"
    using assms(2) by (auto simp: delim_def)
  show ?thesis
  proof (cases "hd (show_nat i) = CHR ''0''")
    case True
    with p have "i = 0" by simp
    then show ?thesis using r tw by (auto simp: parse_nat_def show_nat_0 Let_def read_digits_def digit_value_def)
  next
    case False
    with p r tw show ?thesis by (simp add: parse_nat_def Let_def)
  qed
qed

lemma show_nat_hd_digit: "0 \<le> i \<Longrightarrow> is_digit (hd (show_nat i))"
  using show_nat_props [of i] by (cases "show_nat i") auto

lemma parse_number_show:
  assumes "delim rest"
  shows "parse_number (show_int i @ rest) = Some (JInt i, rest)"
proof (cases "i < 0")
  case True
  then show ?thesis
    using parse_nat_show [of "- i" rest] assms by (simp add: parse_number_def show_int_def)
next
  case False
  then obtain c cs where c: "show_nat i = c # cs"
    using show_nat_props [of i] by (cases "show_nat i") auto
  with False have "is_digit c" using show_nat_hd_digit [of i] by simp
  then have "c \<noteq> CHR ''-''" by (auto simp: is_digit_def)
  with False c show ?thesis
    using parse_nat_show [of i rest] assms by (simp add: parse_number_def show_int_def)
qed

section \<open>Strings\<close>

lemma hex_value_digit:
  assumes "n < 16"
  shows "hex_value (hex_digit n) = Some n"
proof -
  have "\<forall>i \<in> set [0..<16]. hex_value (hex_digit i) = Some i" by code_simp
  with assms show ?thesis by simp
qed

lemma hex4_digits: "n < 32 \<Longrightarrow> hex4 (CHR ''0'') (CHR ''0'') (hex_digit (n div 16)) (hex_digit (n mod 16)) = Some n"
proof -
  assume "n < 32"
  then have "hex_value (hex_digit (n div 16)) = Some (n div 16)"
    and "hex_value (hex_digit (n mod 16)) = Some (n mod 16)"
    by (auto intro!: hex_value_digit)
  moreover have "hex_value (CHR ''0'') = Some 0" by (simp add: hex_value_def)
  ultimately show ?thesis by (simp add: hex4_def)
qed

lemma parse_str_char: "parse_str (dump_char c @ cs) = prepend c (parse_str cs)"
proof (cases "(of_char c :: nat) < 32")
  case True
  then show ?thesis
    by (auto simp: dump_char_def unescape_def Let_def hex4_digits)
next
  case False
  then show ?thesis
    by (auto simp: dump_char_def unescape_def Let_def)
qed

lemma parse_str_dump: "parse_str (concat (map dump_char s) @ CHR 0x22 # rest) = Some (s, rest)"
  by (induction s) (simp_all add: parse_str_char prepend_def)

section \<open>Values\<close>

lemma dict_put_new: "k \<notin> fst ` set d \<Longrightarrow> dict_put k v d = d @ [(k, v)]"
  by (induction d) auto

lemma dict_of_distinct_aux:
  "distinct (map fst (d @ kvs)) \<Longrightarrow> foldl (\<lambda>d (k, v). dict_put k v d) d kvs = d @ kvs"
proof (induction kvs arbitrary: d)
  case Nil
  then show ?case by simp
next
  case (Cons kv kvs)
  then have "fst kv \<notin> fst ` set d" by auto
  then have "foldl (\<lambda>d (k, v). dict_put k v d) d (kv # kvs)
      = foldl (\<lambda>d (k, v). dict_put k v d) (d @ [kv]) kvs"
    by (cases kv) (simp add: dict_put_new)
  also have "\<dots> = (d @ [kv]) @ kvs" using Cons.prems by (intro Cons.IH) simp
  finally show ?case by simp
qed

lemma dict_of_distinct: "distinct (map fst kvs) \<Longrightarrow> dict_of kvs = kvs"
  using dict_of_distinct_aux [of "[]" kvs] by (simp add: dict_of_def)

lemma skip_ws_cons: "\<not> is_json_ws c \<Longrightarrow> skip_ws (c # cs) = c # cs"
  by (simp add: skip_ws_def)

lemma skip_ws_delim: "delim rest \<Longrightarrow> skip_ws rest = rest"
  by (cases rest) (auto simp: skip_ws_def delim_def is_json_ws_def)

text \<open>The first character of a written value.\<close>

lemma dumps_first:
  obtains c cs where "dumps j = c # cs" "\<not> is_json_ws c" "c \<noteq> CHR 0x5D" "c \<noteq> CHR 0x7D"
proof (cases j)
  case (JInt i)
  show ?thesis
  proof (cases "i < 0")
    case True
    with JInt show ?thesis by (intro that) (auto simp: show_int_def is_json_ws_def)
  next
    case False
    then obtain c cs where c: "show_nat i = c # cs" "is_digit c"
      using show_nat_props [of i] by (cases "show_nat i") auto
    then have "\<not> is_json_ws c" "c \<noteq> CHR 0x5D" "c \<noteq> CHR 0x7D"
      by (auto simp: is_digit_def is_json_ws_def)
    with c False JInt show ?thesis by (intro that) (auto simp: show_int_def)
  qed
next
  case (JBool b)
  then show ?thesis by (cases b) (auto intro: that simp: is_json_ws_def)
qed (auto intro: that simp: dump_str_def is_json_ws_def)

lemma skip_ws_dumps: "skip_ws (dumps j @ rest) = dumps j @ rest"
  by (metis append_Cons dumps_first skip_ws_cons)

lemma join_head: "\<exists>t. join sep (x # ys) = x @ t"
  by (cases ys) auto

lemma skip_ws_join:
  assumes "xs \<noteq> []"
  shows "skip_ws (join sep (map dumps xs) @ rest) = join sep (map dumps xs) @ rest"
proof -
  obtain x xs' where "xs = x # xs'" using assms by (cases xs) auto
  then obtain t where "join sep (map dumps xs) = dumps x @ t"
    using join_head [of sep "dumps x" "map dumps xs'"] by auto
  then show ?thesis by (simp add: skip_ws_dumps)
qed

text \<open>What the reader must do on the text of one value, whatever follows it.\<close>

definition reads_back :: "json \<Rightarrow> bool" where
  "reads_back j \<longleftrightarrow> (\<forall>n rest. 2 * length (dumps j) \<le> n \<longrightarrow> delim rest \<longrightarrow>
     parse_value n (dumps j @ rest) = Some (j, rest))"

lemma reads_backD:
  "reads_back j \<Longrightarrow> 2 * length (dumps j) \<le> n \<Longrightarrow> delim rest \<Longrightarrow> parse_value n (dumps j @ rest) = Some (j, rest)"
  by (simp add: reads_back_def)

lemma join_cons: "ys \<noteq> [] \<Longrightarrow> join sep (x # ys) = x @ sep @ join sep ys"
  by (cases ys) auto

lemma delim_simps [simp]: "delim []" "delim (CHR 0x2C # cs)" "delim (CHR 0x5D # cs)" "delim (CHR 0x7D # cs)"
  by (simp_all add: delim_def)

lemma parse_elems_dumps:
  assumes "xs \<noteq> []" "\<And>x. x \<in> set xs \<Longrightarrow> reads_back x"
    and "2 * length (join '','' (map dumps xs)) + 1 \<le> n"
  shows "parse_elems n (join '','' (map dumps xs) @ CHR 0x5D # rest) = Some (xs, rest)"
  using assms
proof (induction xs arbitrary: n)
  case Nil
  then show ?case by simp
next
  case (Cons x xs)
  from Cons.prems(3) obtain m where n: "n = Suc m" by (cases n) auto
  show ?case
  proof (cases "xs = []")
    case True
    with Cons.prems n have "parse_value m (dumps x @ CHR 0x5D # rest) = Some (x, CHR 0x5D # rest)"
      by (intro reads_backD) auto
    with True n show ?thesis by (simp add: skip_ws_delim)
  next
    case False
    let ?r = "join '','' (map dumps xs) @ CHR 0x5D # rest"
    have len: "2 * length (join '','' (map dumps xs)) + 1 \<le> m" "2 * length (dumps x) \<le> m"
      using Cons.prems(3) False n by (simp_all add: join_cons)
    then have "parse_value m (dumps x @ CHR 0x2C # ?r) = Some (x, CHR 0x2C # ?r)"
      using Cons.prems by (intro reads_backD) auto
    moreover have "skip_ws ?r = ?r"
      using False by (rule skip_ws_join)
    moreover have "parse_elems m ?r = Some (xs, rest)"
      using Cons.IH False Cons.prems(2) len by simp
    ultimately show ?thesis using False n by (simp add: join_cons skip_ws_delim)
  qed
qed


definition member_text :: "string \<times> json \<Rightarrow> string" where
  "member_text kv = dump_str (fst kv) @ '':'' @ dumps (snd kv)"

lemma dumps_JObj: "dumps (JObj kvs) = ''{'' @ join '','' (map member_text kvs) @ ''}''"
  by (simp add: member_text_def [abs_def] case_prod_unfold comp_def)

lemma member_text_cons: "member_text kv = CHR 0x22 # tl (member_text kv)"
  by (simp add: member_text_def dump_str_def)

lemma skip_ws_members:
  assumes "kvs \<noteq> []"
  shows "skip_ws (join sep (map member_text kvs) @ rest) = join sep (map member_text kvs) @ rest"
proof -
  obtain kv kvs' where "kvs = kv # kvs'" using assms by (cases kvs) auto
  then obtain t where "join sep (map member_text kvs) = member_text kv @ t"
    using join_head [of sep "member_text kv" "map member_text kvs'"] by auto
  then have "join sep (map member_text kvs) @ rest = CHR 0x22 # tl (member_text kv) @ t @ rest"
    by (metis append_Cons append_assoc member_text_cons)
  then show ?thesis by (simp add: skip_ws_cons is_json_ws_def)
qed

lemma parse_members_one:
  assumes "reads_back v" "2 * length (dumps v) \<le> n" "delim rest"
  shows "parse_members (Suc n) (member_text (k, v) @ rest) =
     (case rest of
        [] \<Rightarrow> None
      | e # es \<Rightarrow>
          if e = CHR 0x7D then Some ([(k, v)], es)
          else if e = CHR 0x2C then map_option (\<lambda>(kvs, r). ((k, v) # kvs, r)) (parse_members n (skip_ws es))
          else None)"
proof -
  have "parse_str (concat (map dump_char k) @ CHR 0x22 # CHR 0x3A # dumps v @ rest)
      = Some (k, CHR 0x3A # dumps v @ rest)"
    by (rule parse_str_dump)
  moreover have "parse_value n (dumps v @ rest) = Some (v, rest)"
    using assms by (rule reads_backD)
  ultimately show ?thesis
    using assms(3)
    by (simp add: member_text_def dump_str_def skip_ws_cons is_json_ws_def skip_ws_dumps skip_ws_delim)
qed

lemma parse_members_dumps:
  assumes "kvs \<noteq> []" "\<And>k v. (k, v) \<in> set kvs \<Longrightarrow> reads_back v"
    and "2 * length (join '','' (map member_text kvs)) + 1 \<le> n"
  shows "parse_members n (join '','' (map member_text kvs) @ CHR 0x7D # rest) = Some (kvs, rest)"
  using assms
proof (induction kvs arbitrary: n)
  case Nil
  then show ?case by simp
next
  case (Cons kv kvs)
  from Cons.prems(3) obtain m where n: "n = Suc m" by (cases n) auto
  obtain k v where kv: "kv = (k, v)" by (cases kv)
  have rb: "reads_back v" using Cons.prems(2) kv by auto
  have vlen: "2 * length (dumps v) \<le> m"
    using Cons.prems(3) n kv by (cases "map member_text kvs") (auto simp: member_text_def)
  show ?case
  proof (cases "kvs = []")
    case True
    with rb vlen n kv show ?thesis by (simp add: parse_members_one del: parse_members.simps)
  next
    case False
    have "2 * length (join '','' (map member_text kvs)) + 1 \<le> m"
      using Cons.prems(3) False n by (simp add: join_cons)
    then have "parse_members m (join '','' (map member_text kvs) @ CHR 0x7D # rest) = Some (kvs, rest)"
      using False Cons.prems(2) by (intro Cons.IH) auto
    with rb vlen n kv False show ?thesis
      by (simp add: join_cons parse_members_one skip_ws_members del: parse_members.simps)
  qed
qed

lemma reads_back_list:
  assumes "\<And>x. x \<in> set xs \<Longrightarrow> reads_back x"
  shows "reads_back (JList xs)"
  unfolding reads_back_def
proof (intro allI impI)
  fix n rest assume n: "2 * length (dumps (JList xs)) \<le> n" and "delim rest"
  then obtain m where m: "n = Suc m" by (cases n) auto
  show "parse_value n (dumps (JList xs) @ rest) = Some (JList xs, rest)"
  proof (cases "xs = []")
    case True
    with m show ?thesis by (simp add: skip_ws_cons is_json_ws_def)
  next
    case False
    let ?t = "join '','' (map dumps xs) @ CHR 0x5D # rest"
    have "parse_elems m ?t = Some (xs, rest)"
      using False assms n m by (intro parse_elems_dumps) auto
    moreover have "skip_ws ?t = ?t" using False by (rule skip_ws_join)
    moreover obtain d ds where "?t = d # ds" "d \<noteq> CHR 0x5D"
    proof -
      obtain x xs' where x: "xs = x # xs'" using False by (cases xs) auto
      obtain t where "join '','' (map dumps xs) = dumps x @ t"
        using join_head [of "'',''" "dumps x" "map dumps xs'"] x by auto
      then show ?thesis using that by (metis append_Cons append_assoc dumps_first)
    qed
    ultimately show ?thesis using m by simp
  qed
qed

lemma reads_back_obj:
  assumes "distinct (map fst kvs)" "\<And>k v. (k, v) \<in> set kvs \<Longrightarrow> reads_back v"
  shows "reads_back (JObj kvs)"
  unfolding reads_back_def dumps_JObj
proof (intro allI impI)
  fix n rest assume n: "2 * length (''{'' @ join '','' (map member_text kvs) @ ''}'') \<le> n" and "delim rest"
  then obtain m where m: "n = Suc m" by (cases n) auto
  show "parse_value n ((''{'' @ join '','' (map member_text kvs) @ ''}'') @ rest) = Some (JObj kvs, rest)"
  proof (cases "kvs = []")
    case True
    with m show ?thesis by (simp add: skip_ws_cons is_json_ws_def)
  next
    case False
    let ?t = "join '','' (map member_text kvs) @ CHR 0x7D # rest"
    have "parse_members m ?t = Some (kvs, rest)"
      using False assms n m by (intro parse_members_dumps) auto
    moreover have "skip_ws ?t = ?t" using False by (rule skip_ws_members)
    moreover obtain ds where "?t = CHR 0x22 # ds"
    proof -
      obtain kv kvs' where x: "kvs = kv # kvs'" using False by (cases kvs) auto
      obtain t where "join '','' (map member_text kvs) = member_text kv @ t"
        using join_head [of "'',''" "member_text kv" "map member_text kvs'"] x by auto
      then show ?thesis using that by (metis append_Cons append_assoc member_text_cons)
    qed
    ultimately show ?thesis using m assms(1) by (simp add: dict_of_distinct)
  qed
qed

lemma reads_back_scalar:
  "reads_back JNull" "reads_back (JBool b)" "reads_back (JStr s)"
proof -
  show "reads_back JNull" unfolding reads_back_def
  proof (intro allI impI)
    fix n rest assume "2 * length (dumps JNull) \<le> n"
    then obtain m where "n = Suc m" by (cases n) auto
    then show "parse_value n (dumps JNull @ rest) = Some (JNull, rest)" by (simp add: startswith_def)
  qed
  show "reads_back (JBool b)" unfolding reads_back_def
  proof (intro allI impI)
    fix n rest assume "2 * length (dumps (JBool b)) \<le> n"
    then obtain m where "n = Suc m" by (cases n) (auto split: if_splits)
    then show "parse_value n (dumps (JBool b) @ rest) = Some (JBool b, rest)"
      by (cases b) (simp_all add: startswith_def)
  qed
  show "reads_back (JStr s)" unfolding reads_back_def
  proof (intro allI impI)
    fix n rest assume "2 * length (dumps (JStr s)) \<le> n"
    then obtain m where "n = Suc m" by (cases n) (auto simp: dump_str_def)
    then show "parse_value n (dumps (JStr s) @ rest) = Some (JStr s, rest)"
      by (simp add: dump_str_def parse_str_dump)
  qed
qed

lemma show_int_first: "\<exists>c cs. show_int i = c # cs \<and> (is_digit c \<or> c = CHR ''-'')"
proof (cases "i < 0")
  case False
  then obtain c cs where "show_nat i = c # cs" "is_digit c"
    using show_nat_props [of i] by (cases "show_nat i") auto
  with False show ?thesis by (simp add: show_int_def)
qed (simp add: show_int_def)

lemma reads_back_int: "reads_back (JInt i)"
  unfolding reads_back_def
proof (intro allI impI)
  fix n rest assume n: "2 * length (dumps (JInt i)) \<le> n" and d: "delim rest"
  obtain c cs where c: "show_int i = c # cs" "is_digit c \<or> c = CHR ''-''"
    using show_int_first by blast
  with n obtain m where m: "n = Suc m" by (cases n) auto
  have "c \<notin> {CHR 0x22, CHR 0x7B, CHR 0x5B, CHR ''n'', CHR ''t'', CHR ''f''}"
    using c(2) by (auto simp: is_digit_def)
  then show "parse_value n (dumps (JInt i) @ rest) = Some (JInt i, rest)"
    using parse_number_show [OF d, of i] c(1) m by (simp add: startswith_def)
qed

theorem wf_reads_back: "wf_json j \<Longrightarrow> reads_back j"
proof (induction j)
  case (JList xs)
  then show ?case by (intro reads_back_list) (auto simp: list_all_iff)
next
  case (JObj kvs)
  then show ?case by (intro reads_back_obj) (fastforce simp: list_all_iff)+
qed (simp_all add: reads_back_scalar reads_back_int)

lemma loads_dumps: "wf_json j \<Longrightarrow> loads (dumps j) = Some j"
proof -
  assume "wf_json j"
  then have "parse_value (2 * length (dumps j) + 2) (dumps j @ []) = Some (j, [])"
    by (intro reads_backD wf_reads_back) auto
  then show ?thesis
    using skip_ws_dumps [of j "[]"] by (simp add: loads_def skip_ws_def)
qed

lemma dumps_inject: "wf_json a \<Longrightarrow> wf_json b \<Longrightarrow> dumps a = dumps b \<longleftrightarrow> a = b"
  by (metis loads_dumps option.inject)

section \<open>The normal form\<close>

lemma norm_json_JObj_keys: "map fst (map (map_prod id norm_json) kvs) = map fst kvs"
  by simp

lemma wf_norm_json [simp]: "wf_json j \<Longrightarrow> wf_json (norm_json j)"
proof (induction j)
  case (JList xs)
  then show ?case by (auto simp: list_all_iff)
next
  case (JObj kvs)
  have "mset (map fst (sort_key fst (map (map_prod id norm_json) kvs))) = mset (map fst kvs)"
    by (simp add: multiset.map_comp comp_def)
  then have "distinct (map fst (sort_key fst (map (map_prod id norm_json) kvs)))"
    using JObj.prems by (metis mset_eq_imp_distinct_iff wf_json_simps(2))
  moreover have "\<forall>kv \<in> set kvs. wf_json (norm_json (snd kv))"
    using JObj by (fastforce simp: list_all_iff)
  ultimately show ?case by (auto simp: list_all_iff)
qed simp_all

lemma loads_canonical_json: "wf_json j \<Longrightarrow> loads (canonical_json j) = Some (norm_json j)"
  by (simp add: canonical_json_def loads_dumps)

lemma canonical_json_eq_iff:
  "wf_json a \<Longrightarrow> wf_json b \<Longrightarrow> canonical_json a = canonical_json b \<longleftrightarrow> norm_json a = norm_json b"
  by (simp add: canonical_json_def dumps_inject)

text \<open>On an object the normal form depends on the entries as a map, not on their order.\<close>

lemma norm_json_JObj_cong:
  assumes "distinct (map fst kvs)" "mset kvs = mset kvs'"
  shows "norm_json (JObj kvs) = norm_json (JObj kvs')"
proof -
  have "mset (map (map_prod id norm_json) kvs) = mset (map (map_prod id norm_json) kvs')"
    using assms(2) by simp
  then show ?thesis using assms(1) by (simp add: sort_key_fst_unique)
qed

text \<open>Objects with the same keys in the same order, the case of two values of one class.\<close>

lemma distinct_keys_set_eq:
  "distinct (map fst f) \<Longrightarrow> map fst f = map fst g \<Longrightarrow> set f = set g \<Longrightarrow> f = g"
proof (induction f arbitrary: g)
  case Nil
  then show ?case by simp
next
  case (Cons x f)
  then obtain y g' where g: "g = y # g'" "fst y = fst x" "map fst f = map fst g'"
    by (cases g) auto
  have "fst x \<notin> set (map fst f)" "fst x \<notin> set (map fst g')"
    using Cons.prems(1) unfolding g(3) [symmetric] by simp_all
  then have out: "z \<notin> set f" "z \<notin> set g'" if "fst z = fst x" for z
    using that by (metis image_eqI set_map)+
  have "y \<in> set (x # f)" using Cons.prems(3) g by simp
  then have "y = x" using out(1) g(2) by auto
  moreover have "set f = set g'"
    using Cons.prems(3) g \<open>y = x\<close> out by (simp add: insert_ident)
  ultimately show ?case using Cons.IH [of g'] Cons.prems(1) g by simp
qed

lemma norm_json_JObj_same_keys:
  assumes "distinct (map fst kvs)" "map fst kvs = map fst kvs'"
  shows "norm_json (JObj kvs) = norm_json (JObj kvs') \<longleftrightarrow>
    map (norm_json \<circ> snd) kvs = map (norm_json \<circ> snd) kvs'"
proof
  let ?n = "map (map_prod id norm_json)"
  assume "norm_json (JObj kvs) = norm_json (JObj kvs')"
  then have "sort_key fst (?n kvs) = sort_key fst (?n kvs')" by simp
  from arg_cong [OF this, of set] have "set (?n kvs) = set (?n kvs')" by simp
  moreover have "distinct (map fst (?n kvs))" "map fst (?n kvs) = map fst (?n kvs')"
    using assms by simp_all
  ultimately have "?n kvs = ?n kvs'" using distinct_keys_set_eq by blast
  then have "map snd (?n kvs) = map snd (?n kvs')" by simp
  then show "map (norm_json \<circ> snd) kvs = map (norm_json \<circ> snd) kvs'" by (simp add: comp_def)
next
  assume v: "map (norm_json \<circ> snd) kvs = map (norm_json \<circ> snd) kvs'"
  have "map (map_prod id norm_json) ks = zip (map fst ks) (map (norm_json \<circ> snd) ks)" for ks :: "(string \<times> json) list"
    by (induction ks) auto
  with v assms(2) show "norm_json (JObj kvs) = norm_json (JObj kvs')" by simp
qed

lemma norm_json_JObj_lookup:
  assumes "distinct (map fst kvs)" "distinct (map fst kvs')"
    and "norm_json (JObj kvs) = norm_json (JObj kvs')"
  shows "map_option norm_json (map_of kvs k) = map_option norm_json (map_of kvs' k)"
proof -
  let ?n = "map (map_prod id norm_json)"
  have "sort_key fst (?n kvs) = sort_key fst (?n kvs')" using assms(3) by simp
  from arg_cong [OF this, of set] have "set (?n kvs) = set (?n kvs')" by simp
  then have "map_of (?n kvs) = map_of (?n kvs')"
    using assms(1,2) by (subst map_of_inject_set) simp_all
  moreover have "map_of (?n ks) = map_option norm_json \<circ> map_of ks" for ks :: "(string \<times> json) list"
    by (induction ks) auto
  ultimately show ?thesis by (metis comp_apply)
qed

text \<open>Equal digests: the same normal form, or two canonical texts that collide under SHA-256.\<close>

definition digest_collision :: "json \<Rightarrow> json \<Rightarrow> bool" where
  "digest_collision a b = collision (utf8_encode (canonical_json a)) (utf8_encode (canonical_json b))"

lemma is_sha256_content_digest [simp]: "is_sha256 (content_digest j)"
  by (simp add: content_digest_def)

lemma content_digest_eqD:
  assumes "wf_json a" "wf_json b" "content_digest a = content_digest b"
  shows "norm_json a = norm_json b \<or> digest_collision a b"
  using sha256_eqD [OF assms(3) [unfolded content_digest_def]] canonical_json_eq_iff [OF assms(1,2)]
  by (auto simp: digest_collision_def)

lemma content_digest_cong: "norm_json a = norm_json b \<Longrightarrow> content_digest a = content_digest b"
  by (simp add: content_digest_def canonical_json_def)

lemma norm_json_idem: "wf_json j \<Longrightarrow> norm_json (norm_json j) = norm_json j"
proof (induction j)
  case (JList xs)
  then show ?case by (auto simp: list_all_iff)
next
  case (JObj kvs)
  let ?s = "sort_key fst (map (map_prod id norm_json) kvs)"
  have "map (map_prod id norm_json) ?s = ?s"
    using JObj by (intro map_idI) (fastforce simp: list_all_iff)
  then show ?case by (simp add: sort_key_id_if_sorted)
qed simp_all

text \<open>Looking a key up in the normal form of an object.\<close>

lemma map_of_norm_entries:
  assumes "distinct (map fst kvs)"
  shows "map_of (sort_key fst (map (map_prod id norm_json) kvs)) k = map_option norm_json (map_of kvs k)"
proof -
  let ?n = "map (map_prod id norm_json) kvs"
  have d: "distinct (map fst ?n)" using assms by simp
  have "mset (map fst (sort_key fst ?n)) = mset (map fst ?n)" by (metis mset_map mset_sort)
  then have "distinct (map fst (sort_key fst ?n))" using d by (metis mset_eq_imp_distinct_iff)
  then have "map_of (sort_key fst ?n) = map_of ?n" using d by (subst map_of_inject_set) simp_all
  moreover have "map_of ?n k = map_option norm_json (map_of kvs k)" by (induction kvs) auto
  ultimately show ?thesis by simp
qed

section \<open>_normalize yields normal forms\<close>

lemma fst_dict_put: "map fst (dict_put k v d) = (if k \<in> fst ` set d then map fst d else map fst d @ [k])"
  by (induction k v d rule: dict_put.induct) auto

lemma set_dict_put: "set (dict_put k v d) \<subseteq> insert (k, v) (set d)"
  by (induction k v d rule: dict_put.induct) auto

lemma dict_of_snoc: "dict_of (xs @ [(k, v)]) = dict_put k v (dict_of xs)"
  by (simp add: dict_of_def)

lemma dict_of_keys: "fst ` set (dict_of xs) = fst ` set xs"
proof (induction xs rule: rev_induct)
  case (snoc x xs)
  obtain k v where x: "x = (k, v)" by (cases x)
  have "set (map fst (dict_put k v (dict_of xs))) = insert k (fst ` set xs)"
    unfolding fst_dict_put using snoc by auto
  then show ?case using x by (simp add: dict_of_snoc)
qed (simp add: dict_of_def)

lemma dict_of_distinct_keys: "distinct (map fst (dict_of xs))"
proof (induction xs rule: rev_induct)
  case (snoc x xs)
  then show ?case by (cases x) (simp add: dict_of_snoc fst_dict_put)
qed (simp add: dict_of_def)

lemma dict_of_subset: "set (dict_of xs) \<subseteq> set xs"
proof (induction xs rule: rev_induct)
  case (snoc x xs)
  then show ?case using set_dict_put [of "fst x" "snd x" "dict_of xs"]
    by (cases x) (auto simp: dict_of_snoc)
qed (simp add: dict_of_def)

lemma dict_of_sorted: "sorted (map fst xs) \<Longrightarrow> sorted (map fst (dict_of xs))"
proof (induction xs rule: rev_induct)
  case (snoc x xs)
  obtain k v where x: "x = (k, v)" by (cases x)
  have IH: "sorted (map fst (dict_of xs))" using snoc by (simp add: sorted_append)
  have "\<forall>y \<in> fst ` set (dict_of xs). y \<le> k"
    using snoc.prems x unfolding dict_of_keys by (auto simp: sorted_append)
  with IH x show ?case by (auto simp: dict_of_snoc fst_dict_put sorted_append)
qed (simp add: dict_of_def)

definition normal_json :: "json \<Rightarrow> bool" where
  "normal_json j = (wf_json j \<and> norm_json j = j)"

lemma normal_list: "(\<And>x. x \<in> set xs \<Longrightarrow> normal_json x) \<Longrightarrow> normal_json (JList xs)"
  by (auto simp: normal_json_def list_all_iff intro: map_idI)

lemma normal_obj:
  assumes "sorted (map fst kvs)" "distinct (map fst kvs)" "\<And>k v. (k, v) \<in> set kvs \<Longrightarrow> normal_json v"
  shows "normal_json (JObj kvs)"
proof -
  have "map (map_prod id norm_json) kvs = kvs"
    using assms(3) by (intro map_idI) (auto simp: normal_json_def)
  with assms show ?thesis
    by (auto simp: normal_json_def list_all_iff sort_key_id_if_sorted)
qed

lemma map_result_normal:
  assumes "map_result f xs = Inr ys" "\<And>x j. x \<in> set xs \<Longrightarrow> f x = Inr j \<Longrightarrow> P j" "y \<in> set ys"
  shows "P y"
proof -
  from assms(1,3) have "\<exists>x \<in> set xs. f x = Inr y" by (induction xs arbitrary: ys) auto
  then show ?thesis using assms(2) by blast
qed

lemma normalize_value_normal: "normalize_value v = Inr j \<Longrightarrow> normal_json j"
proof (induction v arbitrary: j rule: normalize_value.induct)
  case (5 xs)
  then show ?case by (auto intro!: normal_list elim!: map_result_normal)
next
  case (6 xs)
  then show ?case by (auto intro!: normal_list elim!: map_result_normal)
next
  case (7 xs)
  then show ?case by (auto intro!: normal_list elim!: map_result_normal)
next
  case (8 kvs)
  let ?ks = "sort_key (\<lambda>kv. key_str (fst kv)) kvs"
  let ?f = "\<lambda>kv. and_then (normalize_value (snd kv)) (\<lambda>j. Inr (key_str (fst kv), j))"
  from 8(2) obtain entries where e: "map_result ?f ?ks = Inr entries" and j: "j = JObj (dict_of entries)"
    by auto
  have "list_all2 (\<lambda>kv e. fst e = key_str (fst kv)) ?ks entries"
    using e unfolding map_result_Inr_iff by (rule list_all2_mono) auto
  then have "map fst entries = map (\<lambda>kv. key_str (fst kv)) ?ks"
    by (induction rule: list_all2_induct) auto
  then have "sorted (map fst entries)" by simp
  then have "sorted (map fst (dict_of entries))" by (rule dict_of_sorted)
  moreover have "normal_json v" if "(k, v) \<in> set entries" for k v
    using map_result_normal [OF e, of "\<lambda>p. normal_json (snd p)"] 8(1) that by fastforce
  ultimately show ?case
    using dict_of_subset [of entries] unfolding j
    by (intro normal_obj) (auto simp: dict_of_distinct_keys)
qed (auto simp: normal_json_def)

lemma normalize_dict_is_obj:
  "normalize_value (PyDict kvs) = Inr j \<Longrightarrow> \<exists>entries. j = JObj entries"
  by auto

lemma content_digest_py_eq:
  "content_digest_py v = and_then (normalize_value v) (\<lambda>j. Inr (content_digest j))"
proof (cases "normalize_value v")
  case (Inr j)
  then have "norm_json j = j" using normalize_value_normal by (auto simp: normal_json_def)
  with Inr show ?thesis
    by (simp add: content_digest_py_def canonical_json_py_def content_digest_def canonical_json_def)
qed (simp add: content_digest_py_def canonical_json_py_def)

lemma canonical_json_py_eq:
  "canonical_json_py v = and_then (normalize_value v) (\<lambda>j. Inr (canonical_json j))"
proof (cases "normalize_value v")
  case (Inr j)
  then have "norm_json j = j" using normalize_value_normal by (auto simp: normal_json_def)
  with Inr show ?thesis by (simp add: canonical_json_py_def canonical_json_def)
qed (simp add: canonical_json_py_def)

section \<open>The reader's fuel is enough\<close>

lemma skip_ws_length: "length (skip_ws s) \<le> length s"
  by (simp add: skip_ws_def length_dropWhile_le)

lemma skip_ws_eq_length: "skip_ws s = t \<Longrightarrow> length t \<le> length s"
  using skip_ws_length by auto

lemma prepend_eq_Some: "prepend c r = Some (s, t) \<longleftrightarrow> (\<exists>s'. r = Some (s', t) \<and> s = c # s')"
  by (auto simp: prepend_def)

lemma parse_str_consumes: "parse_str s = Some (t, r) \<Longrightarrow> length r < length s"
  by (induction s arbitrary: t r rule: parse_str.induct)
    (fastforce simp: prepend_eq_Some split: if_splits list.splits option.splits)+

lemma parse_nat_consumes: "parse_nat s = Some (i, r) \<Longrightarrow> length r < length s"
  by (cases s) (auto simp: parse_nat_def Let_def less_Suc_eq_le split: if_splits)

lemma parse_number_consumes: "parse_number s = Some (j, r) \<Longrightarrow> length r < length s"
  by (auto simp: parse_number_def dest!: parse_nat_consumes split: list.splits if_splits)

lemma parse_consumes:
  "parse_value n s = Some (j, r) \<Longrightarrow> length r < length s"
  "parse_elems n s = Some (js, r) \<Longrightarrow> length r < length s"
  "parse_members n s = Some (kvs, r) \<Longrightarrow> length r < length s"
proof (induction n s and n s and n s arbitrary: j r and js r and kvs r
    rule: parse_value_parse_elems_parse_members.induct)
  case (2 n s)
  show ?case
  proof (cases s)
    case (Cons c cs)
    have obj: "length ds < Suc (length cs)" if "skip_ws cs = d # ds" for d ds
      using skip_ws_eq_length [OF that] by simp
    have mem: "length r' < Suc (length cs)"
      if "skip_ws cs = d # ds" "d \<noteq> CHR 0x7D" "parse_members n (d # ds) = Some (kvs, r')"
        "c = CHR 0x7B" for d ds kvs r'
      using "2.IH"(1) [of c cs d ds kvs r'] that skip_ws_eq_length [OF that(1)] Cons by simp
    have ele: "length r' < Suc (length cs)"
      if "skip_ws cs = d # ds" "d \<noteq> CHR 0x5D" "parse_elems n (d # ds) = Some (xs, r')"
        "c = CHR 0x5B" for d ds xs r'
      using "2.IH"(2) [of c cs d ds xs r'] that skip_ws_eq_length [OF that(1)] Cons by simp
    show ?thesis
      using "2.prems" Cons parse_number_consumes [of s j r]
      by (auto split: if_splits list.splits option.splits
          dest!: parse_str_consumes intro: mem ele obj)
  qed (use "2.prems" in simp)
next
  case (4 n s)
  then obtain x rest d ds where v: "parse_value n s = Some (x, rest)" and sk: "skip_ws rest = d # ds"
    and alt: "r = ds \<or> (\<exists>xs. d \<noteq> CHR 0x5D \<and> d = CHR 0x2C \<and> parse_elems n (skip_ws ds) = Some (xs, r))"
    by (auto split: option.splits list.splits if_splits)
  have "length rest < length s" using "4.IH"(1) v by blast
  moreover have "length ds < length rest" using skip_ws_eq_length [OF sk] by simp
  moreover have "r = ds \<or> length r < length (skip_ws ds)"
    using alt "4.IH"(2) [OF v refl sk] by blast
  ultimately show ?case using skip_ws_length [of ds] by auto
next
  case (6 n s)
  then obtain k v cs rest d ds rest' e es where s: "s = CHR 0x22 # cs"
    and k: "parse_str cs = Some (k, rest)" and sk: "skip_ws rest = d # ds" "d = CHR 0x3A"
    and v: "parse_value n (skip_ws ds) = Some (v, rest')" and sk': "skip_ws rest' = e # es"
    and alt: "r = es \<or> (\<exists>kvs. e \<noteq> CHR 0x7D \<and> e = CHR 0x2C \<and> parse_members n (skip_ws es) = Some (kvs, r))"
    by (auto split: option.splits list.splits if_splits)
  have "length rest < length cs" using k by (rule parse_str_consumes)
  moreover have "length ds < length rest" using skip_ws_eq_length [OF sk(1)] by simp
  moreover have "length rest' < length (skip_ws ds)" using "6.IH"(1) s k sk v by fastforce
  moreover have "length es < length rest'" using skip_ws_eq_length [OF sk'] by simp
  moreover have "r = es \<or> length r < length (skip_ws es)"
    using alt "6.IH"(2) s k sk v sk' by fastforce
  ultimately show ?case using skip_ws_length [of ds] skip_ws_length [of es] s by auto
qed simp_all

text \<open>Beyond two units for each character more fuel changes nothing.\<close>

lemma parse_fuel_step:
  "(2 * length s \<le> n \<longrightarrow> parse_value (Suc n) s = parse_value n s) \<and>
   (2 * length s + 1 \<le> n \<longrightarrow> parse_elems (Suc n) s = parse_elems n s) \<and>
   (2 * length s + 1 \<le> n \<longrightarrow> parse_members (Suc n) s = parse_members n s)"
proof (induction n arbitrary: s)
  case 0
  then show ?case by (cases s) auto
next
  case (Suc n)
  have val: "parse_value (Suc n) t = parse_value n t" if "2 * length t \<le> n" for t
    using Suc.IH [of t] that by blast
  have elems: "parse_elems (Suc n) t = parse_elems n t" if "2 * length t + 1 \<le> n" for t
    using Suc.IH [of t] that by blast
  have members: "parse_members (Suc n) t = parse_members n t" if "2 * length t + 1 \<le> n" for t
    using Suc.IH [of t] that by blast
  have v: "parse_value (Suc (Suc n)) s = parse_value (Suc n) s" if "2 * length s \<le> Suc n"
  proof (cases s)
    case (Cons c cs)
    have len: "2 * length t + 1 \<le> n" if "skip_ws cs = t" for t
      using skip_ws_eq_length [OF that] \<open>2 * length s \<le> Suc n\<close> Cons by simp
    then show ?thesis
      using Cons
      by (subst (1 2) parse_value.simps) (auto simp: elems members simp del: parse_value.simps
          parse_elems.simps parse_members.simps split: list.split)
  qed simp
  have e: "parse_elems (Suc (Suc n)) s = parse_elems (Suc n) s" if "2 * length s + 1 \<le> Suc n"
  proof -
    have "parse_elems (Suc n) (skip_ws ds) = parse_elems n (skip_ws ds)"
      if "parse_value n s = Some (x, r)" "skip_ws r = d # ds" for x r d ds
      using parse_consumes(1) [OF that(1)] skip_ws_eq_length [OF that(2)] skip_ws_length [of ds]
        \<open>2 * length s + 1 \<le> Suc n\<close> by (intro elems) simp
    then show ?thesis
      using val [of s] that
      by (subst (1 2) parse_elems.simps) (auto simp del: parse_value.simps parse_elems.simps
          parse_members.simps split: list.split option.split)
  qed
  have m: "parse_members (Suc (Suc n)) s = parse_members (Suc n) s" if "2 * length s + 1 \<le> Suc n"
  proof (cases s)
    case (Cons c cs)
    have pv: "parse_value (Suc n) (skip_ws ds) = parse_value n (skip_ws ds)"
      if "parse_str cs = Some (k, r)" "skip_ws r = d # ds" for k r d ds
      using parse_str_consumes [OF that(1)] skip_ws_eq_length [OF that(2)] skip_ws_length [of ds]
        \<open>2 * length s + 1 \<le> Suc n\<close> Cons by (intro val) simp
    moreover have "parse_members (Suc n) (skip_ws es) = parse_members n (skip_ws es)"
      if "parse_str cs = Some (k, r)" "skip_ws r = d # ds"
        "parse_value n (skip_ws ds) = Some (x, r')" "skip_ws r' = e # es" for k r d ds x r' e es
      using parse_str_consumes [OF that(1)] skip_ws_eq_length [OF that(2)] skip_ws_length [of ds]
        parse_consumes(1) [OF that(3)] skip_ws_eq_length [OF that(4)] skip_ws_length [of es]
        \<open>2 * length s + 1 \<le> Suc n\<close> Cons by (intro members) simp
    ultimately show ?thesis
      using Cons
      by (subst (1 2) parse_members.simps) (auto simp del: parse_value.simps parse_elems.simps
          parse_members.simps split: list.split option.split)
  qed simp
  from v e m show ?case by blast
qed

lemma parse_fuel_enough:
  assumes "2 * length s \<le> n" "n \<le> m"
  shows "parse_value m s = parse_value n s"
  using assms(2)
proof (induction m rule: dec_induct)
  case (step k)
  then have "2 * length s \<le> k" using assms(1) by simp
  then show ?case using step.IH parse_fuel_step [of s k] by simp
qed simp

text \<open>What the reader returns has no duplicate keys.\<close>

lemma dict_of_wf: "list_all (\<lambda>(k, v). wf_json v) kvs \<Longrightarrow> wf_json (JObj (dict_of kvs))"
  using dict_of_subset [of kvs] dict_of_distinct_keys [of kvs] by (auto simp: list_all_iff)

lemma parse_wf:
  "parse_value n s = Some (j, r) \<Longrightarrow> wf_json j"
  "parse_elems n s = Some (js, r) \<Longrightarrow> list_all wf_json js"
  "parse_members n s = Some (kvs, r) \<Longrightarrow> list_all (\<lambda>(k, v). wf_json v) kvs"
proof (induction n s and n s and n s arbitrary: j r and js r and kvs r
    rule: parse_value_parse_elems_parse_members.induct)
  case (2 n s)
  show ?case
  proof (cases s)
    case (Cons c cs)
    have num: "parse_number s = Some (j, r) \<Longrightarrow> wf_json j"
      by (auto simp: parse_number_def split: list.splits if_splits)
    have mem: "wf_json (JObj (dict_of kvs))"
      if "skip_ws cs = d # ds" "d \<noteq> CHR 0x7D" "parse_members n (d # ds) = Some (kvs, r')"
        "c = CHR 0x7B" for d ds kvs r'
      using "2.IH"(1) [of c cs d ds kvs r'] that Cons by (intro dict_of_wf) simp
    have ele: "list_all wf_json xs"
      if "skip_ws cs = d # ds" "d \<noteq> CHR 0x5D" "parse_elems n (d # ds) = Some (xs, r')"
        "c = CHR 0x5B" for d ds xs r'
      using "2.IH"(2) [of c cs d ds xs r'] that Cons by simp
    show ?thesis
      using "2.prems" Cons num by (auto split: if_splits list.splits option.splits simp del: wf_json_simps(2) dest: mem)
        (auto dest: ele)
  qed (use "2.prems" in simp)
next
  case (4 n s)
  then show ?case by (fastforce split: if_splits list.splits option.splits)
next
  case (6 n s)
  then show ?case by (fastforce split: if_splits list.splits option.splits)
qed simp_all

lemma loads_wf: "loads s = Some j \<Longrightarrow> wf_json j"
  by (auto simp: loads_def split: option.splits if_splits dest: parse_wf simp del: parse_value.simps)

section \<open>Properties\<close>

text \<open>C36: Canonical text is a faithful encoding. Whatever \<^verbatim>\<open>canonical_json\<close> writes, \<^verbatim>\<open>json.loads\<close>
  reads back as the normalised value, and writing that value again gives the same text; and two Python
  values with one content digest have one normalised form, or their canonical texts are an exhibited
  SHA-256 collision.\<close>

theorem canonical_text_faithful:
  assumes "canonical_json_py v = return s" and "content_digest_py v = return d" and "content_digest_py w = return d"
  shows "\<exists>j k. normalize_value v = return j \<and> normalize_value w = return k \<and>
    loads s = Some j \<and> canonical_json j = s \<and> (j = k \<or> digest_collision j k)"
proof -
  obtain j k where jk: "normalize_value v = Inr j" "normalize_value w = Inr k"
    and "s = canonical_json j" "d = content_digest j" "d = content_digest k"
    using assms by (auto simp: canonical_json_py_eq content_digest_py_eq)
  moreover have "wf_json j" "norm_json j = j" "wf_json k" "norm_json k = k"
    using jk [THEN normalize_value_normal] by (simp_all add: normal_json_def)
  ultimately show ?thesis using loads_canonical_json [of j] content_digest_eqD [of j k] by auto
qed

section \<open>Witnesses\<close>

lemma canonical_text_faithful_witness:
  "loads ''{\"a\":[1,null]}'' = Some (JObj [(''a'', JList [JInt 1, JNull])])"
proof -
  let ?v = "PyDict [(KStr ''a'', PyTuple [PyInt 1, PyNone])]"
  have n: "normalize_value ?v = return (JObj [(''a'', JList [JInt 1, JNull])])" by (simp add: dict_of_def)
  have "canonical_json_py ?v = return ''{\"a\":[1,null]}''" unfolding canonical_json_py_eq n by code_simp
  moreover have "\<exists>d. content_digest_py ?v = return d" unfolding content_digest_py_eq n by simp
  ultimately show ?thesis using canonical_text_faithful [of ?v] n by fastforce
qed

end
