(* ===== verification/Content_Address.thy ===== *)
theory Content_Address
  imports Json_Roundtrip
begin

text \<open>
  The interface every content-addressed record of the program shares: a canonical dictionary from
  which the digest is computed. The law a provider promises is that the dictionary determines the
  record; the client's lemma is that the digest does, up to an exhibited SHA-256 collision.
\<close>

locale content_addressed =
  fixes ok :: "'a \<Rightarrow> bool" and dict :: "'a \<Rightarrow> (string \<times> json) list"
  assumes dict_wf: "ok a \<Longrightarrow> wf_json (JObj (dict a))"
    and dict_inject: "ok a \<Longrightarrow> ok b \<Longrightarrow> norm_json (JObj (dict a)) = norm_json (JObj (dict b)) \<Longrightarrow> a = b"
begin

lemma digest_binds:
  "ok a \<Longrightarrow> ok b \<Longrightarrow> content_digest (JObj (dict a)) = content_digest (JObj (dict b)) \<Longrightarrow>
     a = b \<or> digest_collision (JObj (dict a)) (JObj (dict b))"
  using content_digest_eqD [OF dict_wf dict_wf, of a b] dict_inject [of a b] by blast

lemma distinct_digests:
  "ok a \<Longrightarrow> ok b \<Longrightarrow> a \<noteq> b \<Longrightarrow> \<not> digest_collision (JObj (dict a)) (JObj (dict b)) \<Longrightarrow>
     content_digest (JObj (dict a)) \<noteq> content_digest (JObj (dict b))"
  using digest_binds [of a b] by blast

end

text \<open>Two values are the same, or their canonical texts are an exhibited SHA-256 collision.\<close>

definition same_or_clash :: "('a \<Rightarrow> (string \<times> json) list) \<Rightarrow> 'a \<Rightarrow> 'a \<Rightarrow> bool" where
  "same_or_clash dict a b = (a = b \<or> digest_collision (JObj (dict a)) (JObj (dict b)))"

end
