(* ===== verification/P3_Contracts.thy ===== *)
theory P3_Contracts
  imports Content_Address
begin

text \<open>
  The integrity contracts of \<^verbatim>\<open>core/p3/contracts.py\<close> above canonical JSON: the runtime identity
  of a replay (versions v2 and v3), its completeness, enrichment and comparison, and the recorded
  comparison of two replays.
\<close>

section \<open>Normalised tuples\<close>

definition normalize_versioned_identities :: "string list \<Rightarrow> string \<Rightarrow> string list result" where
  "normalize_versioned_identities values field_name =
     (let normalized = sorted_set (map strip values) in
      if \<exists>item \<in> set normalized. item = []
      then raise_p3 (field_name @ '' cannot contain blank identities'')
      else if \<exists>item \<in> set normalized. CHR 0x40 \<notin> set item \<or> startswith [CHR 0x40] item \<or> endswith [CHR 0x40] item
      then raise_p3 (field_name @ '' must use id@version identities'')
      else return normalized)"

definition normalize_digests :: "string list \<Rightarrow> string \<Rightarrow> string list result" where
  "normalize_digests values field_name =
     and_then (map_result (\<lambda>item. require_sha256 item field_name) values) (\<lambda>ds. return (sorted_set ds))"

definition require_unique_nonblank :: "string list \<Rightarrow> string \<Rightarrow> string list result" where
  "require_unique_nonblank values field_name =
     (let normalized = map strip values in
      if \<exists>item \<in> set normalized. item = []
      then raise_p3 (field_name @ '' cannot contain blank values'')
      else if \<not> distinct normalized
      then raise_p3 (field_name @ '' cannot contain duplicates'')
      else return normalized)"

section \<open>Runtime identity\<close>

definition RUNTIME_IDENTITY_V2 :: string where
  "RUNTIME_IDENTITY_V2 = ''lukart.runtime-identity.v2''"

definition RUNTIME_IDENTITY_V3 :: string where
  "RUNTIME_IDENTITY_V3 = ''lukart.runtime-identity.v3''"

record runtime_identity =
  ri_code_sha :: string
  ri_schema_version :: string
  ri_config_digest :: string
  ri_corpus_digest :: string
  ri_provider_identities :: "string list"
  ri_plugin_identities :: "string list"
  ri_input_digests :: "string list"
  ri_evidence_digests :: "string list"
  ri_provider_inventory_declared :: bool
  ri_plugin_inventory_declared :: bool
  ri_input_inventory_declared :: bool
  ri_evidence_inventory_declared :: bool
  ri_identity_schema :: string
  ri_dependency_lock_digest :: string
  ri_python_implementation :: string
  ri_python_version :: string
  ri_platform_tag :: string
  ri_project_version :: string
  ri_build_backend :: string
  ri_execution_environment_declared :: bool

text \<open>The stripped execution values, by name; the lock digest is also lowered.\<close>

definition execution_values :: "runtime_identity \<Rightarrow> (string \<times> string) list" where
  "execution_values r =
    [(''dependency_lock_digest'', lower (strip (ri_dependency_lock_digest r))),
     (''python_implementation'', strip (ri_python_implementation r)),
     (''python_version'', strip (ri_python_version r)),
     (''platform_tag'', strip (ri_platform_tag r)),
     (''project_version'', strip (ri_project_version r)),
     (''build_backend'', strip (ri_build_backend r))]"

text \<open>The check on the execution identity; its result is the lock digest to store.\<close>

definition check_execution_identity :: "string \<Rightarrow> runtime_identity \<Rightarrow> string result" where
  "check_execution_identity identity_schema r =
     (let lock = lower (strip (ri_dependency_lock_digest r)) in
      if identity_schema = RUNTIME_IDENTITY_V2 then
        (if ri_execution_environment_declared r \<or> (\<exists>nv \<in> set (execution_values r). snd nv \<noteq> [])
         then raise_p3 ''v2 runtime identity cannot contain v3 execution identity''
         else return lock)
      else if ri_execution_environment_declared r then
        (let missing = sort (map fst (filter (\<lambda>nv. snd nv = []) (execution_values r))) in
         if missing \<noteq> []
         then raise_p3 (''declared v3 execution identity is incomplete: '' @ join '', '' missing)
         else require_sha256 lock ''dependency_lock_digest'')
      else return lock)"

definition runtime_identity_init :: "runtime_identity \<Rightarrow> runtime_identity result" where
  "runtime_identity_init r =
     (let schema_version = strip (ri_schema_version r);
          identity_schema = strip (ri_identity_schema r) in
      if schema_version = [] then raise_p3 ''schema_version cannot be blank''
      else if identity_schema \<notin> {RUNTIME_IDENTITY_V2, RUNTIME_IDENTITY_V3}
      then raise_p3 (''unsupported runtime identity schema: '' @ identity_schema)
      else
        and_then (require_hex_digest (ri_code_sha r) ''code_sha'' [40, 64] ''40/64'') (\<lambda>code_sha.
        and_then (require_sha256 (ri_config_digest r) ''config_digest'') (\<lambda>config_digest.
        and_then (require_sha256 (ri_corpus_digest r) ''corpus_digest'') (\<lambda>corpus_digest.
        and_then (normalize_versioned_identities (ri_provider_identities r) ''provider identities'') (\<lambda>providers.
        and_then (normalize_versioned_identities (ri_plugin_identities r) ''plugin identities'') (\<lambda>plugins.
        and_then (normalize_digests (ri_input_digests r) ''input_digest'') (\<lambda>inputs.
        and_then (normalize_digests (ri_evidence_digests r) ''evidence_digest'') (\<lambda>evidence.
        and_then (check_execution_identity identity_schema r) (\<lambda>lock.
        return (r\<lparr>ri_code_sha := code_sha, ri_schema_version := schema_version,
          ri_config_digest := config_digest, ri_corpus_digest := corpus_digest,
          ri_provider_identities := providers, ri_plugin_identities := plugins,
          ri_input_digests := inputs, ri_evidence_digests := evidence,
          ri_identity_schema := identity_schema, ri_dependency_lock_digest := lock,
          ri_python_implementation := strip (ri_python_implementation r),
          ri_python_version := strip (ri_python_version r),
          ri_platform_tag := strip (ri_platform_tag r),
          ri_project_version := strip (ri_project_version r),
          ri_build_backend := strip (ri_build_backend r)\<rparr>))))))))))"

definition complete_for_replay :: "runtime_identity \<Rightarrow> bool" where
  "complete_for_replay r =
     (ri_identity_schema r = RUNTIME_IDENTITY_V3 \<and>
      ri_provider_inventory_declared r \<and> ri_plugin_inventory_declared r \<and>
      ri_input_inventory_declared r \<and> ri_evidence_inventory_declared r \<and>
      ri_execution_environment_declared r)"

definition incomplete_fields :: "runtime_identity \<Rightarrow> string list" where
  "incomplete_fields r =
     sort (map fst (filter (\<lambda>nf. \<not> snd nf)
       [(''provider_identities'', ri_provider_inventory_declared r),
        (''plugin_identities'', ri_plugin_inventory_declared r),
        (''input_digests'', ri_input_inventory_declared r),
        (''evidence_digests'', ri_evidence_inventory_declared r),
        (''execution_environment'',
           ri_identity_schema r = RUNTIME_IDENTITY_V3 \<and> ri_execution_environment_declared r)]))"

definition jstrs :: "string list \<Rightarrow> json" where
  "jstrs xs = JList (map JStr xs)"

lemma norm_json_jstrs [simp]: "norm_json (jstrs xs) = jstrs xs"
  by (simp add: jstrs_def)

lemma wf_json_jstrs [simp]: "wf_json (jstrs xs)"
  by (simp add: jstrs_def list_all_iff)

lemma jstrs_inject [simp]: "jstrs xs = jstrs ys \<longleftrightarrow> xs = ys"
  by (auto simp: jstrs_def inj_map_eq_map inj_def)

lemma jstrs_simps [simp]: "jstrs xs \<noteq> JStr s" "jstrs xs \<noteq> JNull" "jstrs xs \<noteq> JObj d"
  by (simp_all add: jstrs_def)

definition runtime_identity_dict :: "runtime_identity \<Rightarrow> (string \<times> json) list" where
  "runtime_identity_dict r =
     (let v3 = (ri_identity_schema r = RUNTIME_IDENTITY_V3);
          declared =
            [(''providers'', JBool (ri_provider_inventory_declared r)),
             (''plugins'', JBool (ri_plugin_inventory_declared r)),
             (''inputs'', JBool (ri_input_inventory_declared r)),
             (''evidence'', JBool (ri_evidence_inventory_declared r))] @
            (if v3 then [(''execution_environment'', JBool (ri_execution_environment_declared r))] else [])
      in [(''identity_schema'', JStr (ri_identity_schema r)),
          (''code_sha'', JStr (ri_code_sha r)),
          (''schema_version'', JStr (ri_schema_version r)),
          (''config_digest'', JStr (ri_config_digest r)),
          (''corpus_digest'', JStr (ri_corpus_digest r)),
          (''provider_identities'', jstrs (ri_provider_identities r)),
          (''plugin_identities'', jstrs (ri_plugin_identities r)),
          (''input_digests'', jstrs (ri_input_digests r)),
          (''evidence_digests'', jstrs (ri_evidence_digests r)),
          (''inventories_declared'', JObj declared)] @
         (if v3 then
           [(''execution_environment'', JObj
              [(''dependency_lock_digest'', JStr (ri_dependency_lock_digest r)),
               (''python_implementation'', JStr (ri_python_implementation r)),
               (''python_version'', JStr (ri_python_version r)),
               (''platform_tag'', JStr (ri_platform_tag r)),
               (''project_version'', JStr (ri_project_version r)),
               (''build_backend'', JStr (ri_build_backend r))])]
          else []))"

definition runtime_identity_digest :: "runtime_identity \<Rightarrow> string" where
  "runtime_identity_digest r = content_digest (JObj (runtime_identity_dict r))"

text \<open>\<^verbatim>\<open>dict.get\<close>, with \<^verbatim>\<open>None\<close> for a missing key; values compare as dictionaries do,
  without regard to the order of keys.\<close>

definition dict_get :: "(string \<times> json) list \<Rightarrow> string \<Rightarrow> json" where
  "dict_get kvs k = (case map_of kvs k of None \<Rightarrow> JNull | Some v \<Rightarrow> v)"

definition differing_fields :: "runtime_identity \<Rightarrow> runtime_identity \<Rightarrow> string list" where
  "differing_fields r other =
     (let left = runtime_identity_dict r; right = runtime_identity_dict other in
      sorted_set (filter (\<lambda>k. norm_json (dict_get left k) \<noteq> norm_json (dict_get right k))
        (map fst left @ map fst right)))"

definition enrich_runtime_identity_v2 ::
  "runtime_identity \<Rightarrow> string \<Rightarrow> string \<Rightarrow> string \<Rightarrow> string \<Rightarrow> string \<Rightarrow> string \<Rightarrow> runtime_identity result" where
  "enrich_runtime_identity_v2 identity lock impl version platform project backend =
     (if ri_identity_schema identity \<noteq> RUNTIME_IDENTITY_V2
      then raise_p3 ''runtime identity enrichment requires a v2 source''
      else runtime_identity_init (identity\<lparr>
        ri_identity_schema := RUNTIME_IDENTITY_V3, ri_dependency_lock_digest := lock,
        ri_python_implementation := impl, ri_python_version := version, ri_platform_tag := platform,
        ri_project_version := project, ri_build_backend := backend,
        ri_execution_environment_declared := True\<rparr>))"

section \<open>Comparison of replays\<close>

datatype replay_relation = IDENTICAL | CROSS_VERSION_COMPARABLE | DIFFERENT | INCOMPLETE

fun replay_relation_value :: "replay_relation \<Rightarrow> string" where
  "replay_relation_value IDENTICAL = ''IDENTICAL''"
| "replay_relation_value CROSS_VERSION_COMPARABLE = ''CROSS_VERSION_COMPARABLE''"
| "replay_relation_value DIFFERENT = ''DIFFERENT''"
| "replay_relation_value INCOMPLETE = ''INCOMPLETE''"

record replay_comparison =
  rc_relation :: replay_relation
  rc_baseline_identity_digest :: string
  rc_candidate_identity_digest :: string
  rc_differing_fields :: "string list"
  rc_migration_path :: "string list"
  rc_semantic_divergence :: "bool option"
  rc_unresolved :: "string list"

text \<open>The digests are checked but stored as given.\<close>

definition replay_comparison_init :: "replay_comparison \<Rightarrow> replay_comparison result" where
  "replay_comparison_init c =
     and_then (require_sha256 (rc_baseline_identity_digest c) ''baseline_identity_digest'') (\<lambda>_.
     and_then (require_sha256 (rc_candidate_identity_digest c) ''candidate_identity_digest'') (\<lambda>_.
       if rc_relation c = IDENTICAL \<and>
          (rc_differing_fields c \<noteq> [] \<or> rc_migration_path c \<noteq> [] \<or> rc_unresolved c \<noteq> [])
       then raise_p3 ''IDENTICAL replay cannot contain differences or unresolved state''
       else if rc_relation c = CROSS_VERSION_COMPARABLE \<and> length (rc_migration_path c) < 2
       then raise_p3 ''cross-version replay requires explicit migration path''
       else return c))"

definition replay_comparison_dict :: "replay_comparison \<Rightarrow> (string \<times> json) list" where
  "replay_comparison_dict c =
    [(''relation'', JStr (replay_relation_value (rc_relation c))),
     (''baseline_identity_digest'', JStr (rc_baseline_identity_digest c)),
     (''candidate_identity_digest'', JStr (rc_candidate_identity_digest c)),
     (''differing_fields'', jstrs (rc_differing_fields c)),
     (''migration_path'', jstrs (rc_migration_path c)),
     (''semantic_divergence'', (case rc_semantic_divergence c of None \<Rightarrow> JNull | Some b \<Rightarrow> JBool b)),
     (''unresolved'', jstrs (rc_unresolved c))]"

section \<open>What the contracts guarantee\<close>

subsection \<open>The identity invariant\<close>

definition is_versioned :: "string \<Rightarrow> bool" where
  "is_versioned s = (is_text s \<and> CHR 0x40 \<in> set s \<and> \<not> startswith [CHR 0x40] s \<and> \<not> endswith [CHR 0x40] s)"

definition is_versioned_tuple :: "string list \<Rightarrow> bool" where
  "is_versioned_tuple xs = (sorted xs \<and> distinct xs \<and> list_all is_versioned xs)"

definition is_digest_tuple :: "string list \<Rightarrow> bool" where
  "is_digest_tuple xs = (sorted xs \<and> distinct xs \<and> list_all is_sha256 xs)"

definition execution_identity_ok :: "runtime_identity \<Rightarrow> bool" where
  "execution_identity_ok r =
     (let values = map snd (execution_values r) in
      stripped (ri_python_implementation r) \<and> stripped (ri_python_version r) \<and>
      stripped (ri_platform_tag r) \<and> stripped (ri_project_version r) \<and> stripped (ri_build_backend r) \<and>
      lower (strip (ri_dependency_lock_digest r)) = ri_dependency_lock_digest r \<and>
      (ri_identity_schema r = RUNTIME_IDENTITY_V2 \<longrightarrow>
         \<not> ri_execution_environment_declared r \<and> list_all (\<lambda>v. v = []) values) \<and>
      (ri_identity_schema r = RUNTIME_IDENTITY_V3 \<longrightarrow> ri_execution_environment_declared r \<longrightarrow>
         list_all (\<lambda>v. v \<noteq> []) values \<and> is_sha256 (ri_dependency_lock_digest r)))"

definition runtime_identity_ok :: "runtime_identity \<Rightarrow> bool" where
  "runtime_identity_ok r =
     (is_text (ri_schema_version r) \<and>
      ri_identity_schema r \<in> {RUNTIME_IDENTITY_V2, RUNTIME_IDENTITY_V3} \<and>
      is_git_oid (ri_code_sha r) \<and> is_sha256 (ri_config_digest r) \<and> is_sha256 (ri_corpus_digest r) \<and>
      is_versioned_tuple (ri_provider_identities r) \<and> is_versioned_tuple (ri_plugin_identities r) \<and>
      is_digest_tuple (ri_input_digests r) \<and> is_digest_tuple (ri_evidence_digests r) \<and>
      execution_identity_ok r)"

lemma schema_strings: "strip RUNTIME_IDENTITY_V2 = RUNTIME_IDENTITY_V2" "strip RUNTIME_IDENTITY_V3 = RUNTIME_IDENTITY_V3"
  "RUNTIME_IDENTITY_V2 \<noteq> RUNTIME_IDENTITY_V3"
  by (simp_all add: RUNTIME_IDENTITY_V2_def RUNTIME_IDENTITY_V3_def strip_id stripped_def is_space_def)

lemma lower_char_idem: "lower_char (lower_char c) = lower_char c"
proof (cases "lower_char c = c")
  case False
  let ?n = "of_char c :: nat"
  have n: "65 \<le> ?n \<and> ?n \<le> 90 \<or> 192 \<le> ?n \<and> ?n \<le> 222 \<and> ?n \<noteq> 215" and l: "lower_char c = char_of (?n + 32)"
    using False by (auto simp: lower_char_def Let_def split: if_splits)
  have "of_char (char_of (?n + 32) :: char) = ?n + 32"
    using n by (auto simp: of_char_of)
  with n show ?thesis unfolding l by (auto simp: lower_char_def Let_def)
qed simp

lemma is_space_lower: "is_space (lower_char c) = is_space c"
proof (cases "lower_char c = c")
  case False
  let ?n = "of_char c :: nat"
  have n: "65 \<le> ?n \<and> ?n \<le> 90 \<or> 192 \<le> ?n \<and> ?n \<le> 222 \<and> ?n \<noteq> 215" and l: "lower_char c = char_of (?n + 32)"
    using False by (auto simp: lower_char_def Let_def split: if_splits)
  have "of_char (char_of (?n + 32) :: char) = ?n + 32"
    using n by (auto simp: of_char_of)
  with n show ?thesis unfolding l by (auto simp: is_space_def Let_def)
qed simp

lemma lower_strip_stripped: "stripped (lower (strip s))"
  using strip_stripped [of s]
  by (auto simp: stripped_def lower_def hd_map last_map is_space_lower)

lemma lower_strip_idem [simp]: "lower (strip (lower (strip s))) = lower (strip s)"
  by (simp add: strip_id lower_strip_stripped) (simp add: lower_def lower_char_idem)

lemma normalize_versioned_ok:
  "normalize_versioned_identities vs n = Inr xs \<Longrightarrow> is_versioned_tuple xs"
  by (auto simp: normalize_versioned_identities_def Let_def is_versioned_tuple_def is_versioned_def
      list_all_iff is_text_def split: if_splits)

lemma normalize_versioned_fixed:
  assumes "is_versioned_tuple xs"
  shows "normalize_versioned_identities xs n = Inr xs"
proof -
  have "map strip xs = xs"
    using assms by (auto simp: is_versioned_tuple_def is_versioned_def is_text_def list_all_iff
        strip_id intro: map_idI)
  with assms show ?thesis
    by (auto simp: normalize_versioned_identities_def Let_def is_versioned_tuple_def is_versioned_def
        is_text_def list_all_iff sorted_set_idem)
qed

lemma normalize_digests_ok: "normalize_digests vs n = Inr xs \<Longrightarrow> is_digest_tuple xs"
  by (auto simp: normalize_digests_def is_digest_tuple_def list_all_iff map_result_Inr_iff
      list_all2_conv_all_nth in_set_conv_nth require_sha256_Inr)

lemma map_result_fixed: "(\<And>x. x \<in> set xs \<Longrightarrow> f x = Inr x) \<Longrightarrow> map_result f xs = Inr xs"
  by (induction xs) auto

lemma normalize_digests_fixed:
  assumes "is_digest_tuple xs"
  shows "normalize_digests xs n = Inr xs"
proof -
  have "map_result (\<lambda>x. require_sha256 x n) xs = Inr xs"
    using assms by (intro map_result_fixed)
      (auto simp: is_digest_tuple_def list_all_iff require_sha256_Inr is_sha256_def is_hex_strip is_hex_lower)
  with assms show ?thesis
    by (simp add: normalize_digests_def is_digest_tuple_def sorted_set_idem)
qed

lemma check_execution_Inr:
  "check_execution_identity schema r = Inr lock \<longleftrightarrow>
     lock = lower (strip (ri_dependency_lock_digest r)) \<and>
     (if schema = RUNTIME_IDENTITY_V2
      then \<not> ri_execution_environment_declared r \<and> (\<forall>nv \<in> set (execution_values r). snd nv = [])
      else ri_execution_environment_declared r \<longrightarrow>
        (\<forall>nv \<in> set (execution_values r). snd nv \<noteq> []) \<and> is_sha256 lock)"
  by (auto simp: check_execution_identity_def Let_def filter_empty_conv require_sha256_Inr)

lemma execution_values_set:
  "(\<forall>nv \<in> set (execution_values r). P (snd nv)) \<longleftrightarrow> list_all P (map snd (execution_values r))"
  by (simp add: list_all_iff)

lemma runtime_identity_init_ok:
  assumes "runtime_identity_init r = Inr r'"
  shows "runtime_identity_ok r'"
proof -
  let ?sch = "strip (ri_identity_schema r)"
  from assms obtain cs cfg cor pv pl inp ev lock where
    sv: "strip (ri_schema_version r) \<noteq> []" and sch: "?sch \<in> {RUNTIME_IDENTITY_V2, RUNTIME_IDENTITY_V3}"
    and p: "require_hex_digest (ri_code_sha r) ''code_sha'' [40, 64] ''40/64'' = Inr cs"
      "require_sha256 (ri_config_digest r) ''config_digest'' = Inr cfg"
      "require_sha256 (ri_corpus_digest r) ''corpus_digest'' = Inr cor"
      "normalize_versioned_identities (ri_provider_identities r) ''provider identities'' = Inr pv"
      "normalize_versioned_identities (ri_plugin_identities r) ''plugin identities'' = Inr pl"
      "normalize_digests (ri_input_digests r) ''input_digest'' = Inr inp"
      "normalize_digests (ri_evidence_digests r) ''evidence_digest'' = Inr ev"
    and ex: "check_execution_identity ?sch r = Inr lock"
    and r': "r' = r\<lparr>ri_code_sha := cs, ri_schema_version := strip (ri_schema_version r),
          ri_config_digest := cfg, ri_corpus_digest := cor,
          ri_provider_identities := pv, ri_plugin_identities := pl,
          ri_input_digests := inp, ri_evidence_digests := ev,
          ri_identity_schema := ?sch, ri_dependency_lock_digest := lock,
          ri_python_implementation := strip (ri_python_implementation r),
          ri_python_version := strip (ri_python_version r),
          ri_platform_tag := strip (ri_platform_tag r),
          ri_project_version := strip (ri_project_version r),
          ri_build_backend := strip (ri_build_backend r)\<rparr>"
    by (auto simp: runtime_identity_init_def Let_def split: if_splits)
  have ev': "execution_values r' = execution_values r"
    using ex r' by (simp add: execution_values_def check_execution_Inr)
  have "execution_identity_ok r'"
    using ex r' sch schema_strings(3)
    unfolding execution_identity_ok_def Let_def ev'
    by (auto simp: check_execution_Inr list_all_iff)
  then show ?thesis
    using sv sch r' p
    by (auto simp: runtime_identity_ok_def is_text_def is_git_oid_def require_hex_digest_Inr
        require_sha256_Inr intro: normalize_versioned_ok normalize_digests_ok)
qed

lemma runtime_identity_init_fixed:
  assumes "runtime_identity_ok r"
  shows "runtime_identity_init r = Inr r"
proof -
  have sch: "strip (ri_identity_schema r) = ri_identity_schema r"
    using assms schema_strings by (auto simp: runtime_identity_ok_def)
  have st: "stripped (ri_python_implementation r)" "stripped (ri_python_version r)"
      "stripped (ri_platform_tag r)" "stripped (ri_project_version r)" "stripped (ri_build_backend r)"
      "lower (strip (ri_dependency_lock_digest r)) = ri_dependency_lock_digest r"
    using assms by (auto simp: runtime_identity_ok_def execution_identity_ok_def Let_def)
  have ex: "check_execution_identity (ri_identity_schema r) r = Inr (ri_dependency_lock_digest r)"
    using assms by (auto simp: check_execution_Inr runtime_identity_ok_def execution_identity_ok_def
        Let_def list_all_iff)
  have hex: "require_hex_digest (ri_code_sha r) ''code_sha'' [40, 64] ''40/64'' = Inr (ri_code_sha r)"
      "require_sha256 (ri_config_digest r) n = Inr (ri_config_digest r)"
      "require_sha256 (ri_corpus_digest r) n = Inr (ri_corpus_digest r)" for n
    using assms by (auto simp: runtime_identity_ok_def require_sha256_def is_git_oid_def is_sha256_def
        intro!: require_hex_digest_fixed)
  have sv: "strip (ri_schema_version r) = ri_schema_version r" "ri_schema_version r \<noteq> []"
    using assms by (auto simp: runtime_identity_ok_def is_text_def strip_id)
  show ?thesis
    using assms by (simp add: runtime_identity_init_def Let_def sch sv hex ex strip_id st
        runtime_identity_ok_def normalize_versioned_fixed normalize_digests_fixed)
qed

subsection \<open>Digests identify identities\<close>

lemma wf_runtime_identity_dict: "wf_json (JObj (runtime_identity_dict r))"
  by (simp add: runtime_identity_dict_def Let_def)

lemma runtime_identity_dict_lookup:
  assumes "norm_json (JObj (runtime_identity_dict a)) = norm_json (JObj (runtime_identity_dict b))"
  shows "map_option norm_json (map_of (runtime_identity_dict a) k) =
    map_option norm_json (map_of (runtime_identity_dict b) k)"
  using wf_runtime_identity_dict [of a] wf_runtime_identity_dict [of b] assms
  by (intro norm_json_JObj_lookup) simp_all

lemma runtime_identity_dict_inject:
  assumes norm: "norm_json (JObj (runtime_identity_dict a)) = norm_json (JObj (runtime_identity_dict b))"
    and ok: "runtime_identity_ok a" "runtime_identity_ok b"
  shows "a = b"
proof -
  note look = runtime_identity_dict_lookup [OF norm]
  have sch: "ri_identity_schema a = ri_identity_schema b"
    using look [of "''identity_schema''"] by (simp add: runtime_identity_dict_def Let_def)
  have simple: "ri_code_sha a = ri_code_sha b" "ri_schema_version a = ri_schema_version b"
      "ri_config_digest a = ri_config_digest b" "ri_corpus_digest a = ri_corpus_digest b"
      "ri_provider_identities a = ri_provider_identities b" "ri_plugin_identities a = ri_plugin_identities b"
      "ri_input_digests a = ri_input_digests b" "ri_evidence_digests a = ri_evidence_digests b"
    using look [of "''code_sha''"] look [of "''schema_version''"] look [of "''config_digest''"]
      look [of "''corpus_digest''"] look [of "''provider_identities''"] look [of "''plugin_identities''"]
      look [of "''input_digests''"] look [of "''evidence_digests''"]
    by (simp_all add: runtime_identity_dict_def Let_def)
  have inv: "ri_provider_inventory_declared a = ri_provider_inventory_declared b"
      "ri_plugin_inventory_declared a = ri_plugin_inventory_declared b"
      "ri_input_inventory_declared a = ri_input_inventory_declared b"
      "ri_evidence_inventory_declared a = ri_evidence_inventory_declared b"
      "ri_identity_schema a = RUNTIME_IDENTITY_V3 \<Longrightarrow>
        ri_execution_environment_declared a = ri_execution_environment_declared b"
    using look [of "''inventories_declared''"] sch
    by (auto simp: runtime_identity_dict_def Let_def sort_key_def split: if_splits)
  have env: "ri_dependency_lock_digest a = ri_dependency_lock_digest b"
      "ri_python_implementation a = ri_python_implementation b" "ri_python_version a = ri_python_version b"
      "ri_platform_tag a = ri_platform_tag b" "ri_project_version a = ri_project_version b"
      "ri_build_backend a = ri_build_backend b" if v3: "ri_identity_schema a = RUNTIME_IDENTITY_V3"
    using look [of "''execution_environment''"] sch v3
    by (simp_all add: runtime_identity_dict_def Let_def sort_key_def)
  have v2: "ri_dependency_lock_digest r = []" "ri_python_implementation r = []" "ri_python_version r = []"
      "ri_platform_tag r = []" "ri_project_version r = []" "ri_build_backend r = []"
      "\<not> ri_execution_environment_declared r"
    if "runtime_identity_ok r" "ri_identity_schema r = RUNTIME_IDENTITY_V2" for r
    using that schema_strings(3)
    by (auto simp: runtime_identity_ok_def execution_identity_ok_def execution_values_def Let_def strip_id)
  show ?thesis
  proof (cases "ri_identity_schema a = RUNTIME_IDENTITY_V3")
    case True
    show ?thesis by (rule runtime_identity.equality) (simp_all add: sch simple inv(1-4) inv(5) [OF True] env [OF True])
  next
    case False
    then have a2: "ri_identity_schema a = RUNTIME_IDENTITY_V2" using ok(1) by (auto simp: runtime_identity_ok_def)
    then have b2: "ri_identity_schema b = RUNTIME_IDENTITY_V2" using sch by simp
    show ?thesis
      by (rule runtime_identity.equality) (simp_all add: sch simple inv v2 [OF ok(1) a2] v2 [OF ok(2) b2])
  qed
qed

interpretation identities: content_addressed runtime_identity_ok runtime_identity_dict
  using wf_runtime_identity_dict runtime_identity_dict_inject by unfold_locales (blast+)

text \<open>A runtime identity is pinned by its digest. Two identities that
  \<^verbatim>\<open>RuntimeIdentity.__post_init__\<close> accepted and that have the same \<^verbatim>\<open>digest()\<close> are equal field by
  field, unless their canonical texts are an exhibited SHA-256 collision.\<close>

theorem runtime_identity_digest_binds:
  assumes "runtime_identity_init a0 = Inr a" "runtime_identity_init b0 = Inr b"
    and "runtime_identity_digest a = runtime_identity_digest b"
  shows "a = b \<or> digest_collision (JObj (runtime_identity_dict a)) (JObj (runtime_identity_dict b))"
  using assms(3) unfolding runtime_identity_digest_def
  by (intro identities.digest_binds runtime_identity_init_ok [OF assms(1)] runtime_identity_init_ok [OF assms(2)])

text \<open>Normalisation of a runtime identity is stable: whatever \<^verbatim>\<open>__post_init__\<close> stores passes
  \<^verbatim>\<open>__post_init__\<close> again unchanged, and satisfies the identity invariant (stripped nonblank
  version, lower-case hexadecimal digests, sorted duplicate-free inventories, and an execution
  identity that is empty in v2 and complete when declared in v3).\<close>

theorem runtime_identity_init_stable:
  assumes "runtime_identity_init r = Inr r'"
  shows "runtime_identity_init r' = Inr r' \<and> runtime_identity_ok r'"
  using assms by (simp add: runtime_identity_init_ok runtime_identity_init_fixed)

lemma incomplete_fields_Nil: "incomplete_fields r = [] \<longleftrightarrow> complete_for_replay r"
  by (auto simp: incomplete_fields_def complete_for_replay_def filter_empty_conv)

lemma runtime_identity_init_fields:
  assumes "runtime_identity_init r = Inr r'"
  shows "ri_identity_schema r' = strip (ri_identity_schema r)"
    "ri_provider_inventory_declared r' = ri_provider_inventory_declared r"
    "ri_plugin_inventory_declared r' = ri_plugin_inventory_declared r"
    "ri_input_inventory_declared r' = ri_input_inventory_declared r"
    "ri_evidence_inventory_declared r' = ri_evidence_inventory_declared r"
    "ri_execution_environment_declared r' = ri_execution_environment_declared r"
  using assms by (auto simp: runtime_identity_init_def Let_def split: if_splits)

lemma enrich_result:
  assumes "enrich_runtime_identity_v2 r lock impl version platform project backend = Inr r'"
  shows "ri_identity_schema r = RUNTIME_IDENTITY_V2" "ri_identity_schema r' = RUNTIME_IDENTITY_V3"
    "ri_execution_environment_declared r'" "runtime_identity_ok r'"
    "ri_provider_inventory_declared r' = ri_provider_inventory_declared r"
    "ri_plugin_inventory_declared r' = ri_plugin_inventory_declared r"
    "ri_input_inventory_declared r' = ri_input_inventory_declared r"
    "ri_evidence_inventory_declared r' = ri_evidence_inventory_declared r"
proof -
  let ?r = "r\<lparr>ri_identity_schema := RUNTIME_IDENTITY_V3, ri_dependency_lock_digest := lock,
        ri_python_implementation := impl, ri_python_version := version, ri_platform_tag := platform,
        ri_project_version := project, ri_build_backend := backend,
        ri_execution_environment_declared := True\<rparr>"
  show "ri_identity_schema r = RUNTIME_IDENTITY_V2"
    using assms by (auto simp: enrich_runtime_identity_v2_def split: if_splits)
  then have "runtime_identity_init ?r = Inr r'" using assms by (simp add: enrich_runtime_identity_v2_def)
  note f = runtime_identity_init_fields [OF this] runtime_identity_init_ok [OF this]
  from f show "ri_identity_schema r' = RUNTIME_IDENTITY_V3" "ri_execution_environment_declared r'"
    "runtime_identity_ok r'" "ri_provider_inventory_declared r' = ri_provider_inventory_declared r"
    "ri_plugin_inventory_declared r' = ri_plugin_inventory_declared r"
    "ri_input_inventory_declared r' = ri_input_inventory_declared r"
    "ri_evidence_inventory_declared r' = ri_evidence_inventory_declared r"
    by (simp_all add: schema_strings)
qed

lemma differing_fields_schema:
  assumes "ri_identity_schema a \<noteq> ri_identity_schema b"
  shows "''identity_schema'' \<in> set (differing_fields a b)"
  using assms by (simp add: differing_fields_def Let_def runtime_identity_dict_def dict_get_def)

lemma differing_fields_Nil:
  "differing_fields a b = [] \<longleftrightarrow>
     (\<forall>k. norm_json (dict_get (runtime_identity_dict a) k) = norm_json (dict_get (runtime_identity_dict b) k))"
proof
  assume d: "differing_fields a b = []"
  show "\<forall>k. norm_json (dict_get (runtime_identity_dict a) k) = norm_json (dict_get (runtime_identity_dict b) k)"
  proof
    fix k
    let ?A = "runtime_identity_dict a" and ?B = "runtime_identity_dict b"
    show "norm_json (dict_get ?A k) = norm_json (dict_get ?B k)"
    proof (cases "k \<in> set (map fst ?A @ map fst ?B)")
      case True
      then show ?thesis using d by (auto simp: differing_fields_def Let_def filter_empty_conv)
    next
      case False
      then have "map_of ?A k = None" "map_of ?B k = None"
        by (simp_all add: map_of_eq_None_iff)
      then show ?thesis by (simp add: dict_get_def)
    qed
  qed
qed (auto simp: differing_fields_def Let_def filter_empty_conv)

text \<open>Enrichment never fakes an identical replay. \<^verbatim>\<open>enrich_runtime_identity_v2\<close> accepts a v2
  source only, returns a v3 identity with a declared, complete execution environment, always
  differs from its source in \<^verbatim>\<open>differing_fields\<close>, and is complete for replay exactly when the
  source had all four inventories declared; the v2 source never is.\<close>

theorem enrich_is_not_identical:
  assumes "enrich_runtime_identity_v2 r lock impl version platform project backend = Inr r'"
  shows "ri_identity_schema r = RUNTIME_IDENTITY_V2 \<and> ri_identity_schema r' = RUNTIME_IDENTITY_V3 \<and>
    execution_identity_ok r' \<and> differing_fields r r' \<noteq> [] \<and> \<not> complete_for_replay r \<and>
    (complete_for_replay r' \<longleftrightarrow> ri_provider_inventory_declared r \<and> ri_plugin_inventory_declared r \<and>
       ri_input_inventory_declared r \<and> ri_evidence_inventory_declared r)"
proof -
  note e = enrich_result [OF assms]
  have "''identity_schema'' \<in> set (differing_fields r r')"
    using e(1,2) schema_strings(3) by (intro differing_fields_schema) simp
  then have "differing_fields r r' \<noteq> []" by force
  with e schema_strings(3) show ?thesis
    by (simp add: complete_for_replay_def runtime_identity_ok_def)
qed

text \<open>Equality of replays is exact. On identities that passed the constructor,
  \<^verbatim>\<open>differing_fields\<close> is empty exactly for equal identities, so a comparison can only be recorded
  as IDENTICAL for equal ones.\<close>

theorem differing_fields_exact:
  assumes "runtime_identity_init a0 = Inr a" "runtime_identity_init b0 = Inr b"
  shows "differing_fields a b = [] \<longleftrightarrow> a = b"
proof
  assume d: "differing_fields a b = []"
  let ?A = "runtime_identity_dict a" and ?B = "runtime_identity_dict b"
  have "ri_identity_schema a = ri_identity_schema b"
    using differing_fields_schema d by force
  then have keys: "map fst ?A = map fst ?B" by (simp add: runtime_identity_dict_def Let_def)
  have dist: "distinct (map fst ?A)" "distinct (map fst ?B)"
    using wf_runtime_identity_dict [of a] wf_runtime_identity_dict [of b] by simp_all
  have "norm_json (snd (?A ! i)) = norm_json (snd (?B ! i))" if i: "i < length ?A" for i
  proof -
    have i': "i < length ?B" using i keys by (metis length_map)
    have "fst (?A ! i) = fst (?B ! i)" using keys i i' by (metis nth_map)
    moreover have "map_of ?A (fst (?A ! i)) = Some (snd (?A ! i))"
      using dist(1) i by (intro map_of_is_SomeI) simp_all
    moreover have "map_of ?B (fst (?B ! i)) = Some (snd (?B ! i))"
      using dist(2) i' by (intro map_of_is_SomeI) simp_all
    ultimately show ?thesis using d [unfolded differing_fields_Nil, rule_format, of "fst (?A ! i)"]
      by (simp add: dict_get_def)
  qed
  moreover have "length ?A = length ?B" using keys by (metis length_map)
  ultimately have "map (norm_json \<circ> snd) ?A = map (norm_json \<circ> snd) ?B"
    by (intro nth_equalityI) simp_all
  then have "norm_json (JObj ?A) = norm_json (JObj ?B)"
    using norm_json_JObj_same_keys [OF dist(1) keys] by blast
  then show "a = b"
    using runtime_identity_init_ok [OF assms(1)] runtime_identity_init_ok [OF assms(2)]
    by (rule runtime_identity_dict_inject)
qed (simp add: differing_fields_Nil)

section \<open>Witnesses\<close>

definition sample_identity :: runtime_identity where
  "sample_identity = \<lparr>ri_code_sha = replicate 40 (CHR ''a''), ri_schema_version = ''1'',
     ri_config_digest = replicate 64 (CHR ''b''), ri_corpus_digest = replicate 64 (CHR ''c''),
     ri_provider_identities = [''p'' @ [CHR 0x40] @ ''1''], ri_plugin_identities = [], ri_input_digests = [],
     ri_evidence_digests = [], ri_provider_inventory_declared = True, ri_plugin_inventory_declared = True,
     ri_input_inventory_declared = True, ri_evidence_inventory_declared = True,
     ri_identity_schema = RUNTIME_IDENTITY_V2, ri_dependency_lock_digest = [], ri_python_implementation = [],
     ri_python_version = [], ri_platform_tag = [], ri_project_version = [], ri_build_backend = [],
     ri_execution_environment_declared = False\<rparr>"

definition enriched_identity :: runtime_identity where
  "enriched_identity = sample_identity\<lparr>ri_identity_schema := RUNTIME_IDENTITY_V3,
     ri_dependency_lock_digest := replicate 64 (CHR ''d''), ri_python_implementation := ''cpython'',
     ri_python_version := ''3.12'', ri_platform_tag := ''linux'', ri_project_version := ''1.0'',
     ri_build_backend := ''hatch'', ri_execution_environment_declared := True\<rparr>"

lemma sample_identity_init: "runtime_identity_init sample_identity = Inr sample_identity"
  by code_simp

lemma sample_enriched:
  "enrich_runtime_identity_v2 sample_identity (replicate 64 (CHR ''d'')) ''cpython'' ''3.12'' ''linux'' ''1.0'' ''hatch'' =
     Inr enriched_identity"
  by code_simp

lemma runtime_identity_digest_binds_witness:
  "sample_identity = sample_identity \<or>
     digest_collision (JObj (runtime_identity_dict sample_identity)) (JObj (runtime_identity_dict sample_identity))"
  by (rule runtime_identity_digest_binds [OF sample_identity_init sample_identity_init refl])

lemma runtime_identity_init_stable_witness:
  "runtime_identity_init sample_identity = Inr sample_identity \<and> runtime_identity_ok sample_identity"
  by (rule runtime_identity_init_stable [OF sample_identity_init])

lemma enrich_is_not_identical_witness:
  "differing_fields sample_identity enriched_identity \<noteq> [] \<and> complete_for_replay enriched_identity"
  using enrich_is_not_identical [OF sample_enriched] by (simp add: sample_identity_def)

lemma differing_fields_exact_witness: "differing_fields sample_identity enriched_identity \<noteq> []"
proof -
  have "runtime_identity_init enriched_identity = Inr enriched_identity" by code_simp
  moreover have "sample_identity \<noteq> enriched_identity" by (simp add: sample_identity_def enriched_identity_def)
  ultimately show ?thesis using differing_fields_exact [OF sample_identity_init] by blast
qed

end
