(* ===== verification/Hash_Chain.thy ===== *)
theory Hash_Chain
  imports Json_Roundtrip
begin

text \<open>
  The interface of every append-only hash chain of the program: the P3 replay ledger, the Night
  Shift journal, the durable provenance store and the canonical case ledger. A record names the
  hash of its predecessor; its own hash covers a body that includes that name. The laws are proved
  once here, each component interprets the locale on its own records.
\<close>

text \<open>Records linked from a given hash on, each with a hash that recomputes.\<close>

fun linked :: "('r \<Rightarrow> 'h) \<Rightarrow> ('r \<Rightarrow> 'h) \<Rightarrow> ('r \<Rightarrow> bool) \<Rightarrow> 'h \<Rightarrow> 'r list \<Rightarrow> bool" where
  "linked prev hash sound h [] = True"
| "linked prev hash sound h (r # rs) = (prev r = h \<and> sound r \<and> linked prev hash sound (hash r) rs)"

definition chain_head :: "('r \<Rightarrow> 'h) \<Rightarrow> 'h \<Rightarrow> 'r list \<Rightarrow> 'h" where
  "chain_head hash genesis rs = (if rs = [] then genesis else hash (last rs))"

lemma chain_head_simps [simp]:
  "chain_head hash g [] = g"
  "chain_head hash g (rs @ [r]) = hash r"
  by (simp_all add: chain_head_def)

lemma chain_head_Cons: "chain_head hash g (r # rs) = chain_head hash (hash r) rs"
  by (simp add: chain_head_def)

lemma linked_append:
  "linked prev hash sound h (xs @ ys) \<longleftrightarrow>
     linked prev hash sound h xs \<and> linked prev hash sound (chain_head hash h xs) ys"
  by (induction xs arbitrary: h) (auto simp: chain_head_Cons)

lemma linked_snoc:
  "linked prev hash sound h (xs @ [r]) \<longleftrightarrow>
     linked prev hash sound h xs \<and> prev r = chain_head hash h xs \<and> sound r"
  by (simp add: linked_append)

lemma linked_sound: "linked prev hash sound h rs \<Longrightarrow> r \<in> set rs \<Longrightarrow> sound r"
  by (induction rs arbitrary: h) auto

lemma linked_mono:
  "linked prev hash p h rs \<Longrightarrow> (\<And>r. r \<in> set rs \<Longrightarrow> p r \<Longrightarrow> q r) \<Longrightarrow> linked prev hash q h rs"
  by (induction rs arbitrary: h) auto

text \<open>A loop that checks sequence number, link and soundness of each record accepts exactly the
  numbered, linked lists.\<close>

lemma numbered_chain:
  fixes f :: "int \<Rightarrow> 'h \<Rightarrow> 'r list \<Rightarrow> 'e + unit"
  assumes "\<And>i h. f i h [] = Inr ()"
    and "\<And>i h r rs. f i h (r # rs) = Inr () \<longleftrightarrow> num r = i \<and> prev r = h \<and> sound r \<and> f (i + 1) (hash r) rs = Inr ()"
  shows "f i h rs = Inr () \<longleftrightarrow>
    map num rs = map (\<lambda>k. i + int k) [0..<length rs] \<and> linked prev hash sound h rs"
proof (induction rs arbitrary: i h)
  case (Cons r rs)
  have up: "map (\<lambda>k. i + int k) [0..<Suc n] = i # map (\<lambda>k. (i + 1) + int k) [0..<n]" for n
    by (simp add: upt_conv_Cons map_Suc_upt [symmetric] del: upt_Suc)
  show ?case using Cons.IH assms(2) unfolding list.size(4) Nat.add_0_right up [of "length rs"]
    by (auto simp: up simp del: upt_Suc)
qed (simp add: assms(1))

locale hash_chain =
  fixes prev :: "'r \<Rightarrow> 'h"
    and hash :: "'r \<Rightarrow> 'h"
    and sound :: "'r \<Rightarrow> bool"
    and body :: "'r \<Rightarrow> 'b"
    and clash :: "'r \<Rightarrow> 'r \<Rightarrow> bool"
  assumes body_prev: "body r = body r' \<Longrightarrow> prev r = prev r'"
    and hash_binds: "sound r \<Longrightarrow> sound r' \<Longrightarrow> hash r = hash r' \<Longrightarrow> body r = body r' \<or> clash r r'"
begin

text \<open>Tamper evidence: two valid chains with the same head have the same bodies, unless two of
  their records clash or one of their hashes is the genesis value itself.\<close>

lemma tamper_evident:
  assumes "linked prev hash sound g xs" "linked prev hash sound g ys"
    and "chain_head hash g xs = chain_head hash g ys"
  shows "map body xs = map body ys \<or> (\<exists>r \<in> set xs. \<exists>r' \<in> set ys. clash r r') \<or>
    (\<exists>r \<in> set xs \<union> set ys. hash r = g)"
  using assms
proof (induction xs arbitrary: ys rule: rev_induct)
  case Nil
  then show ?case by (cases ys rule: rev_cases) auto
next
  case (snoc x xs)
  show ?case
  proof (cases ys rule: rev_cases)
    case Nil
    with snoc.prems show ?thesis by auto
  next
    case (snoc ys' y)
    with snoc.prems have l: "linked prev hash sound g xs" "linked prev hash sound g ys'"
        and p: "prev x = chain_head hash g xs" "prev y = chain_head hash g ys'"
        and s: "sound x" "sound y" and h: "hash x = hash y"
      by (simp_all add: linked_snoc)
    from hash_binds [OF s h] show ?thesis
    proof
      assume b: "body x = body y"
      then have "chain_head hash g xs = chain_head hash g ys'" using body_prev p by metis
      from snoc.IH [OF l this] show ?thesis using b snoc by auto
    qed (use snoc in auto)
  qed
qed

text \<open>A change to one record of a valid chain is caught: with the later records kept, the chain
  no longer verifies to the same head.\<close>

lemma replaced_record_detected:
  assumes "linked prev hash sound g (xs @ r # ys)" "linked prev hash sound g (xs @ r' # ys)"
    and "body r \<noteq> body r'"
    and "chain_head hash g (xs @ r # ys) = chain_head hash g (xs @ r' # ys)"
  shows "(\<exists>a \<in> set (xs @ r # ys). \<exists>b \<in> set (xs @ r' # ys). clash a b) \<or>
    (\<exists>a \<in> set (xs @ r # ys) \<union> set (xs @ r' # ys). hash a = g)"
  using tamper_evident [OF assms(1,2,4)] assms(3) by auto

end

end
