(* ===== verification/P3_Ledger.thy ===== *)
theory P3_Ledger
  imports P3_Contracts Hash_Chain
begin

text \<open>
  The append-only replay ledger of \<^verbatim>\<open>core/p3/ledger.py\<close>. The state is the ledger file: its text,
  or \<open>None\<close> when it does not exist. Every operation reads the file, splits it into lines, decodes
  each line and verifies the hash chain; \<^verbatim>\<open>append\<close> writes one line and verifies again, so an error
  of the second verification leaves the line in the file. A write is complete or does not happen
  (the partial \<^verbatim>\<open>os.write\<close> of the code is an operating-system failure); a crash that left a partial
  line is an arbitrary file text here.
\<close>

section \<open>What the language does on reading\<close>

text \<open>Text mode reading: universal newlines.\<close>

fun translate_newlines :: "string \<Rightarrow> string" where
  "translate_newlines [] = []"
| "translate_newlines (c # cs) =
     (if c = CHR 0x0D then
        (case cs of
           [] \<Rightarrow> [CHR 0x0A]
         | d # ds \<Rightarrow> if d = CHR 0x0A then CHR 0x0A # translate_newlines ds
                    else CHR 0x0A # translate_newlines cs)
      else c # translate_newlines cs)"

text \<open>\<^verbatim>\<open>str.splitlines\<close> below code point 256: line feed, carriage return (with a following line
  feed), vertical tab, form feed, the separators 28 to 30 and next line (133).\<close>

definition is_line_break :: "char \<Rightarrow> bool" where
  "is_line_break c = ((of_char c :: nat) \<in> {10, 11, 12, 13, 28, 29, 30, 133})"

fun splitlines_from :: "string \<Rightarrow> string \<Rightarrow> string list" where
  "splitlines_from acc [] = (if acc = [] then [] else [rev acc])"
| "splitlines_from acc (c # cs) =
     (if is_line_break c then
        rev acc # (case cs of
           [] \<Rightarrow> []
         | d # ds \<Rightarrow> if c = CHR 0x0D \<and> d = CHR 0x0A then splitlines_from [] ds else splitlines_from [] cs)
      else splitlines_from (c # acc) cs)"

definition splitlines :: "string \<Rightarrow> string list" where
  "splitlines s = splitlines_from [] s"

text \<open>\<^verbatim>\<open>int(x)\<close> on a decoded value; \<open>None\<close> is the \<^verbatim>\<open>TypeError\<close> or \<^verbatim>\<open>ValueError\<close>.\<close>

definition int_of_text :: "string \<Rightarrow> int option" where
  "int_of_text s =
     (let t = strip s;
          neg = (t \<noteq> [] \<and> hd t = CHR ''-'');
          digits = (if t \<noteq> [] \<and> hd t \<in> {CHR ''-'', CHR ''+''} then tl t else t);
          parts = split_on (CHR ''_'') digits
      in if list_all (\<lambda>p. p \<noteq> [] \<and> list_all is_digit p) parts
         then Some (let n = read_digits (concat parts) in if neg then - n else n)
         else None)"

fun py_int :: "json \<Rightarrow> int option" where
  "py_int (JInt i) = Some i"
| "py_int (JBool b) = Some (if b then 1 else 0)"
| "py_int (JStr s) = int_of_text s"
| "py_int _ = None"

text \<open>\<^verbatim>\<open>str(x)\<close> on a decoded value: a string itself, otherwise its \<^verbatim>\<open>repr\<close>.\<close>

primrec py_repr :: "json \<Rightarrow> string" where
  "py_repr JNull = ''None''"
| "py_repr (JBool b) = (if b then ''True'' else ''False'')"
| "py_repr (JInt i) = show_int i"
| "py_repr (JStr s) = repr_str s"
| "py_repr (JList xs) = ''['' @ join '', '' (map py_repr xs) @ '']''"
| "py_repr (JObj kvs) =
     ''{'' @ join '', '' (map (\<lambda>(k, t). repr_str k @ '': '' @ t) (map (map_prod id py_repr) kvs)) @ ''}''"

fun py_str :: "json \<Rightarrow> string" where
  "py_str (JStr s) = s"
| "py_str j = py_repr j"

section \<open>Records\<close>

definition GENESIS :: string where
  "GENESIS = replicate 64 (CHR ''0'')"

record provenance_record =
  pr_sequence :: int
  pr_case_id :: string
  pr_event_type :: string
  pr_runtime_identity_digest :: string
  pr_payload :: "(string \<times> json) list"
  pr_payload_digest :: string
  pr_previous_record_digest :: string
  pr_record_digest :: string

definition pr_canonical_body :: "provenance_record \<Rightarrow> (string \<times> json) list" where
  "pr_canonical_body r =
    [(''sequence'', JInt (pr_sequence r)),
     (''case_id'', JStr (pr_case_id r)),
     (''event_type'', JStr (pr_event_type r)),
     (''runtime_identity_digest'', JStr (pr_runtime_identity_digest r)),
     (''payload'', JObj (pr_payload r)),
     (''payload_digest'', JStr (pr_payload_digest r)),
     (''previous_record_digest'', JStr (pr_previous_record_digest r))]"

definition pr_canonical_dict :: "provenance_record \<Rightarrow> (string \<times> json) list" where
  "pr_canonical_dict r = pr_canonical_body r @ [(''record_digest'', JStr (pr_record_digest r))]"

text \<open>\<^verbatim>\<open>ProvenanceRecord.build\<close>. The payload is a Python dictionary; the record keeps its JSON form.\<close>

definition build_record ::
  "int \<Rightarrow> string \<Rightarrow> string \<Rightarrow> runtime_identity \<Rightarrow> (pykey \<times> pyval) list \<Rightarrow> string \<Rightarrow> provenance_record result" where
  "build_record sequence case_id event_type runtime_identity payload previous =
     (if sequence < 0 then raise_p3 ''provenance sequence cannot be negative''
      else let case_id = strip case_id; event_type = strip event_type in
      if case_id = [] \<or> event_type = [] then raise_p3 ''case_id and event_type are required''
      else if length previous \<noteq> 64 then raise_p3 ''previous record digest must be SHA-256''
      else and_then (normalize_value (PyDict payload)) (\<lambda>copied.
        let entries = (case copied of JObj kvs \<Rightarrow> kvs | _ \<Rightarrow> []);
            r = \<lparr>pr_sequence = sequence, pr_case_id = case_id, pr_event_type = event_type,
                 pr_runtime_identity_digest = runtime_identity_digest runtime_identity,
                 pr_payload = entries, pr_payload_digest = content_digest copied,
                 pr_previous_record_digest = previous, pr_record_digest = []\<rparr>
        in return (r\<lparr>pr_record_digest := content_digest (JObj (pr_canonical_body r))\<rparr>)))"

text \<open>\<^verbatim>\<open>_decode\<close> of one line.\<close>

definition decode_fields :: "(string \<times> json) list \<Rightarrow> (string \<times> json) list \<Rightarrow> provenance_record option" where
  "decode_fields parsed payload =
     Option.bind (Option.bind (map_of parsed ''sequence'') py_int) (\<lambda>sequence.
     Option.bind (map_of parsed ''case_id'') (\<lambda>case_id.
     Option.bind (map_of parsed ''event_type'') (\<lambda>event_type.
     Option.bind (map_of parsed ''runtime_identity_digest'') (\<lambda>runtime.
     Option.bind (map_of parsed ''payload_digest'') (\<lambda>payload_digest.
     Option.bind (map_of parsed ''previous_record_digest'') (\<lambda>previous.
     Option.bind (map_of parsed ''record_digest'') (\<lambda>record_digest.
       Some \<lparr>pr_sequence = sequence, pr_case_id = py_str case_id, pr_event_type = py_str event_type,
         pr_runtime_identity_digest = py_str runtime, pr_payload = payload,
         pr_payload_digest = py_str payload_digest, pr_previous_record_digest = py_str previous,
         pr_record_digest = py_str record_digest\<rparr>)))))))"

definition decode_line :: "string \<Rightarrow> provenance_record result" where
  "decode_line raw =
     (case loads raw of
        None \<Rightarrow> raise_p3 ''corrupt provenance JSON''
      | Some (JObj parsed) \<Rightarrow>
          (case map_of parsed ''payload'' of
             Some (JObj payload) \<Rightarrow>
               (case decode_fields parsed payload of
                  None \<Rightarrow> raise_p3 ''invalid provenance record schema''
                | Some r \<Rightarrow> return r)
           | _ \<Rightarrow> raise_p3 ''provenance payload must be an object'')
      | Some _ \<Rightarrow> raise_p3 ''provenance record must be an object'')"

section \<open>The ledger\<close>

type_synonym ledger_file = "string option"

definition ledger_records :: "ledger_file \<Rightarrow> provenance_record list result" where
  "ledger_records file =
     (case file of
        None \<Rightarrow> return []
      | Some text \<Rightarrow>
          let raw = translate_newlines text in
          if raw \<noteq> [] \<and> last raw \<noteq> CHR 0x0A then raise_p3 ''partial provenance write detected''
          else map_result decode_line (filter (\<lambda>line. line \<noteq> []) (splitlines raw)))"

text \<open>The loop of \<^verbatim>\<open>verify\<close>: the expected sequence number and the previous digest are carried.\<close>

fun verify_from :: "int \<Rightarrow> string \<Rightarrow> provenance_record list \<Rightarrow> unit result" where
  "verify_from expected_sequence previous [] = return ()"
| "verify_from expected_sequence previous (r # rs) =
     (if pr_sequence r \<noteq> expected_sequence then raise_p3 ''provenance sequence discontinuity''
      else if pr_previous_record_digest r \<noteq> previous then raise_p3 ''provenance hash-chain mismatch''
      else if pr_payload_digest r \<noteq> content_digest (JObj (pr_payload r))
      then raise_p3 ''provenance payload digest mismatch''
      else if pr_record_digest r \<noteq> content_digest (JObj (pr_canonical_body r))
      then raise_p3 ''provenance record digest mismatch''
      else verify_from (expected_sequence + 1) (pr_record_digest r) rs)"

definition ledger_verify :: "ledger_file \<Rightarrow> provenance_record list result" where
  "ledger_verify file =
     and_then (ledger_records file) (\<lambda>records.
     and_then (verify_from 0 GENESIS records) (\<lambda>_. return records))"

definition ledger_head :: "provenance_record list \<Rightarrow> string" where
  "ledger_head records = (if records = [] then GENESIS else pr_record_digest (last records))"


definition record_line :: "provenance_record \<Rightarrow> string" where
  "record_line r = canonical_json (JObj (pr_canonical_dict r))"

text \<open>\<^verbatim>\<open>append\<close>: the new file and the outcome.\<close>

definition ledger_append ::
  "ledger_file \<Rightarrow> string \<Rightarrow> string \<Rightarrow> runtime_identity \<Rightarrow> (pykey \<times> pyval) list \<Rightarrow>
   ledger_file \<times> provenance_record result" where
  "ledger_append file case_id event_type runtime_identity payload =
     (case ledger_verify file of
        Inl e \<Rightarrow> (file, Inl e)
      | Inr records \<Rightarrow>
          (case build_record (int (length records)) case_id event_type runtime_identity payload
                  (ledger_head records) of
             Inl e \<Rightarrow> (file, Inl e)
           | Inr r \<Rightarrow>
               let text = (case file of None \<Rightarrow> [] | Some t \<Rightarrow> t);
                   file' = Some (text @ record_line r @ [CHR 0x0A])
               in (file', and_then (ledger_verify file') (\<lambda>_. return r))))"

section \<open>Lines of the file\<close>

lemma translate_cons [simp]:
  "c \<noteq> CHR 0x0D \<Longrightarrow> translate_newlines (c # cs) = c # translate_newlines cs"
  "translate_newlines (CHR 0x0D # CHR 0x0A # ds) = CHR 0x0A # translate_newlines ds"
  "d \<noteq> CHR 0x0A \<Longrightarrow> translate_newlines (CHR 0x0D # d # ds) = CHR 0x0A # translate_newlines (d # ds)"
  "translate_newlines [CHR 0x0D] = [CHR 0x0A]"
  by simp_all

declare translate_newlines.simps(2) [simp del]

lemma translate_induct [case_names Nil plain crlf cr last]:
  assumes "P []" "\<And>c cs. c \<noteq> CHR 0x0D \<Longrightarrow> P cs \<Longrightarrow> P (c # cs)"
    and "\<And>ds. P ds \<Longrightarrow> P (CHR 0x0D # CHR 0x0A # ds)"
    and "\<And>d ds. d \<noteq> CHR 0x0A \<Longrightarrow> P (d # ds) \<Longrightarrow> P (CHR 0x0D # d # ds)" and "P [CHR 0x0D]"
  shows "P t"
proof (induction t rule: translate_newlines.induct)
  case (2 c cs)
  show ?case
  proof (cases "c = CHR 0x0D")
    case c: True
    show ?thesis
    proof (cases cs)
      case Nil
      then show ?thesis using c assms(5) by simp
    next
      case (Cons d ds)
      show ?thesis
      proof (cases "d = CHR 0x0A")
        case True
        then show ?thesis using "2"(1) [OF c Cons True] c Cons assms(3) by simp
      next
        case False
        have "P cs" using c Cons False by (rule "2"(2))
        then show ?thesis using c Cons False assms(4) by simp
      qed
    qed
  next
    case False
    then have "P cs" by (rule "2"(3))
    then show ?thesis using False by (intro assms(2))
  qed
qed (rule assms(1))

lemma translate_append:
  "t = [] \<or> last t \<noteq> CHR 0x0D \<or> s = [] \<or> hd s \<noteq> CHR 0x0A \<Longrightarrow>
   translate_newlines (t @ s) = translate_newlines t @ translate_newlines s"
proof (induction t rule: translate_induct)
  case (plain c cs)
  then show ?case by (cases cs) auto
next
  case (crlf ds)
  then show ?case by (cases ds) auto
next
  case last
  then show ?case by (cases s) auto
qed auto

lemma translate_id: "CHR 0x0D \<notin> set s \<Longrightarrow> translate_newlines s = s"
  by (induction s) auto

lemma translate_last: "t \<noteq> [] \<Longrightarrow> translate_newlines t \<noteq> [] \<and>
    (last (translate_newlines t) = CHR 0x0A \<longleftrightarrow> last t = CHR 0x0A \<or> last t = CHR 0x0D)"
proof (induction t rule: translate_induct)
  case (plain c cs)
  then show ?case by (cases cs) auto
next
  case (crlf ds)
  then show ?case by (cases ds) auto
qed auto

lemma translate_no_cr: "CHR 0x0D \<notin> set (translate_newlines t)"
  by (induction t rule: translate_induct) auto

lemma splitlines_from_cons:
  "c \<noteq> CHR 0x0D \<Longrightarrow> splitlines_from acc (c # cs) =
     (if is_line_break c then rev acc # splitlines_from [] cs else splitlines_from (c # acc) cs)"
  by (cases cs) auto

lemma splitlines_from_plain:
  "\<not> (\<exists>c \<in> set u. is_line_break c) \<Longrightarrow> splitlines_from acc (u @ rest) = splitlines_from (rev u @ acc) rest"
  by (induction u arbitrary: acc) auto

lemma splitlines_append:
  assumes "CHR 0x0D \<notin> set t" "t \<noteq> []" "last t = CHR 0x0A"
  shows "splitlines_from acc (t @ s) = splitlines_from acc t @ splitlines s"
  using assms
proof (induction t arbitrary: acc)
  case Nil
  then show ?case by simp
next
  case (Cons c cs)
  show ?case
  proof (cases "cs = []")
    case True
    with Cons.prems have "c = CHR 0x0A" by simp
    with True show ?thesis by (cases s) (auto simp: is_line_break_def splitlines_def)
  next
    case False
    have "splitlines_from a (cs @ s) = splitlines_from a cs @ splitlines s" for a
      using False Cons.prems by (intro Cons.IH) auto
    moreover have "c \<noteq> CHR 0x0D" using Cons.prems by auto
    ultimately show ?thesis by (simp add: splitlines_from_cons del: splitlines_from.simps)
  qed
qed


subsection \<open>The text of a record\<close>

definition NEL :: char where
  "NEL = CHR 0x85"

lemma hex_digit_no_break: "n < 16 \<Longrightarrow> \<not> is_line_break (hex_digit n)"
  by (drule hex_digit_alphabet, unfold hex_alphabet_cases, elim disjE) (simp_all add: is_line_break_def)

lemma dump_char_break_source:
  assumes "c' \<in> set (dump_char c)" "is_line_break c'"
  shows "c = NEL \<and> c' = NEL"
proof (cases "(of_char c :: nat) < 32")
  case True
  then have "\<not> is_line_break (hex_digit (of_char c div 16))" "\<not> is_line_break (hex_digit (of_char c mod 16))"
    by (auto intro!: hex_digit_no_break)
  then show ?thesis
    using assms True by (auto simp: dump_char_def Let_def split: if_splits) (simp_all add: is_line_break_def)
next
  case False
  then have "c' = c \<or> \<not> is_line_break c'"
    using assms(1) by (auto simp: dump_char_def Let_def is_line_break_def split: if_splits)
  with assms(2) False have "c' = c" "of_char c' = (133 :: nat)" by (auto simp: is_line_break_def)
  moreover have "of_char NEL = (133 :: nat)" by (simp add: NEL_def)
  ultimately show ?thesis by (metis of_char_eq_iff)
qed

lemma NEL_break: "is_line_break NEL"
  by (simp add: is_line_break_def NEL_def)

lemma NEL_in_dump_char: "NEL \<in> set (dump_char c) \<longleftrightarrow> c = NEL"
proof
  assume "NEL \<in> set (dump_char c)"
  then show "c = NEL" using dump_char_break_source NEL_break by blast
next
  have "dump_char NEL = [NEL]" by (simp add: dump_char_def NEL_def)
  then show "c = NEL \<Longrightarrow> NEL \<in> set (dump_char c)" by simp
qed

lemma NEL_ascii [simp]:
  "NEL \<noteq> CHR 0x7B" "NEL \<noteq> CHR 0x3A" "NEL \<noteq> CHR 0x22" "NEL \<notin> set ''case_id''"
  by (simp_all add: NEL_def)

lemmas dump_char_breaks = dump_char_break_source [THEN conjunct2]

lemma digit_no_break: "is_digit c \<Longrightarrow> \<not> is_line_break c"
proof -
  assume "is_digit c"
  then have "48 \<le> (of_char c :: nat) \<and> (of_char c :: nat) \<le> 57"
    unfolding is_digit_def by (simp add: less_eq_char_def)
  then show ?thesis by (auto simp: is_line_break_def)
qed

lemma show_int_no_break: "c \<in> set (show_int i) \<Longrightarrow> \<not> is_line_break c"
  using show_nat_props [of i] show_nat_props [of "- i"] digit_no_break
  by (auto simp: show_int_def list_all_iff is_line_break_def split: if_splits)

lemma dump_str_breaks: "c \<in> set (dump_str s) \<Longrightarrow> is_line_break c \<Longrightarrow> c = NEL"
  by (auto simp: dump_str_def dest: dump_char_breaks) (auto simp: is_line_break_def)

lemma set_join: "set (join sep xs) \<subseteq> set sep \<union> (\<Union>x \<in> set xs. set x)"
  by (induction sep xs rule: join.induct) auto

lemma dumps_breaks: "c \<in> set (dumps j) \<Longrightarrow> is_line_break c \<Longrightarrow> c = NEL"
proof (induction j)
  case (JList xs)
  then show ?case
    using set_join [of "'',''" "map dumps xs"] by (auto simp: is_line_break_def)
next
  case (JObj kvs)
  have "c \<in> set ''{:,}'' \<or> (\<exists>kv \<in> set kvs. c \<in> set (dump_str (fst kv)) \<or> c \<in> set (dumps (snd kv)))"
    using JObj.prems(1) subsetD [OF set_join [of "'',''" "map member_text kvs"], of c]
    unfolding dumps_JObj by (auto simp: member_text_def split: if_splits)
  then show ?case using JObj.IH JObj.prems(2) dump_str_breaks [of c]
    by (auto simp: is_line_break_def)
next
  case (JInt i)
  then show ?case using show_int_no_break by auto
qed (auto simp: dump_str_breaks is_line_break_def split: if_splits)


section \<open>Appending and reading back\<close>

definition record_normal :: "provenance_record \<Rightarrow> bool" where
  "record_normal r = normal_json (JObj (pr_payload r))"




lemma record_line_start: "\<exists>cs. record_line r = CHR 0x7B # cs"
  by (simp add: record_line_def canonical_json_def)

lemma verify_from_linked:
  "verify_from i h rs = Inr () \<longleftrightarrow>
     map pr_sequence rs = map (\<lambda>k. i + int k) [0..<length rs] \<and>
     linked pr_previous_record_digest pr_record_digest
       (\<lambda>r. pr_payload_digest r = content_digest (JObj (pr_payload r)) \<and>
            pr_record_digest r = content_digest (JObj (pr_canonical_body r))) h rs"
  by (rule numbered_chain [of verify_from]) (auto split: if_splits)

definition record_sound :: "provenance_record \<Rightarrow> bool" where
  "record_sound r = (pr_payload_digest r = content_digest (JObj (pr_payload r)) \<and>
     pr_record_digest r = content_digest (JObj (pr_canonical_body r)))"

lemma ledger_verify_Inr:
  "ledger_verify file = Inr rs \<longleftrightarrow> ledger_records file = Inr rs \<and>
     map pr_sequence rs = map int [0..<length rs] \<and>
     linked pr_previous_record_digest pr_record_digest record_sound GENESIS rs"
  by (auto simp: ledger_verify_def verify_from_linked record_sound_def [abs_def])

lemma build_record_props:
  assumes "build_record i c t ri payload h = Inr r"
  shows "record_normal r" "record_sound r" "pr_sequence r = i" "pr_previous_record_digest r = h"
    "pr_case_id r = strip c" "pr_event_type r = strip t"
    "pr_runtime_identity_digest r = runtime_identity_digest ri"
    "normalize_value (PyDict payload) = Inr (JObj (pr_payload r))"
proof -
  from assms obtain j where j: "normalize_value (PyDict payload) = Inr j"
    by (auto simp: build_record_def Let_def simp del: normalize_value.simps split: if_splits)
  then obtain e where e: "j = JObj e" using normalize_dict_is_obj by blast
  have nj: "normal_json (JObj e)" using normalize_value_normal [OF j] e by simp
  show "record_normal r" "record_sound r" "pr_sequence r = i" "pr_previous_record_digest r = h"
    "pr_case_id r = strip c" "pr_event_type r = strip t"
    "pr_runtime_identity_digest r = runtime_identity_digest ri"
    "normalize_value (PyDict payload) = Inr (JObj (pr_payload r))"
    using assms nj j e
    by (auto simp: build_record_def Let_def record_normal_def record_sound_def pr_canonical_body_def
        simp del: normalize_value.simps split: if_splits)
qed



section \<open>A next-line character in the case id\<close>

lemma parse_str_unterminated: "parse_str (concat (map dump_char s)) = None"
  by (induction s) (simp_all add: parse_str_char prepend_def)

lemma dump_char_NEL: "dump_char NEL = [NEL]"
  by (simp add: dump_char_def NEL_def)

definition broken_prefix :: "string \<Rightarrow> string" where
  "broken_prefix u = CHR 0x7B # dump_str ''case_id'' @ [CHR 0x3A, CHR 0x22] @ concat (map dump_char u)"

lemma loads_broken_prefix: "loads (broken_prefix u) = None"
proof -
  let ?s = "broken_prefix u"
  let ?rest = "CHR 0x3A # CHR 0x22 # concat (map dump_char u)"
  have "2 * length ?s + 2 \<ge> 3" by (simp add: broken_prefix_def)
  then obtain n where n: "2 * length ?s + 2 = Suc (Suc (Suc n))"
    using that [of "2 * length ?s - 1"] by simp
  have s: "?s = CHR 0x7B # CHR 0x22 # concat (map dump_char ''case_id'') @ CHR 0x22 # ?rest"
    by (simp add: broken_prefix_def dump_str_def)
  have "parse_str (concat (map dump_char ''case_id'') @ CHR 0x22 # ?rest) = Some (''case_id'', ?rest)"
    by (rule parse_str_dump)
  then have "parse_members (Suc (Suc n)) (CHR 0x22 # concat (map dump_char ''case_id'') @ CHR 0x22 # ?rest) = None"
    by (simp add: skip_ws_cons is_json_ws_def parse_str_unterminated)
  then have "parse_value (Suc (Suc (Suc n))) ?s = None"
    unfolding s by (subst parse_value.simps(2)) (simp add: skip_ws_cons is_json_ws_def del: parse_members.simps)
  moreover have "skip_ws ?s = ?s" by (simp add: broken_prefix_def skip_ws_cons is_json_ws_def)
  ultimately show ?thesis unfolding loads_def n by simp
qed

lemma record_line_case_id:
  "\<exists>rest. record_line r = CHR 0x7B # dump_str ''case_id'' @ [CHR 0x3A] @ dump_str (pr_case_id r) @ rest"
  by (simp add: record_line_def canonical_json_def pr_canonical_dict_def pr_canonical_body_def sort_key_def
      comp_def)

lemma splitlines_add_broken:
  assumes "t = [] \<or> last t = CHR 0x0A" "CHR 0x0D \<notin> set t" "\<not> (\<exists>c \<in> set p. is_line_break c)"
  shows "\<exists>ls. splitlines (t @ p @ NEL # rest) = splitlines t @ p # ls"
proof -
  have brk: "is_line_break NEL" "NEL \<noteq> CHR 0x0D" by (simp_all add: is_line_break_def NEL_def)
  then have "splitlines (p @ NEL # rest) = p # splitlines rest"
    using assms(3) by (simp add: splitlines_def splitlines_from_plain splitlines_from_cons del: splitlines_from.simps)
  then show ?thesis
    using splitlines_append [of t "[]" "p @ NEL # rest"] assms(1,2)
    by (cases "t = []") (auto simp: splitlines_def)
qed

lemma ledger_append_broken:
  assumes v: "ledger_verify file = Inr rs"
    and b: "build_record (int (length rs)) c t ri payload (ledger_head rs) = Inr r"
    and c: "strip c = u @ NEL # w" "NEL \<notin> set u"
  shows "\<exists>file'. ledger_append file c t ri payload = (file', raise_p3 ''corrupt provenance JSON'') \<and>
    ledger_verify file' = raise_p3 ''corrupt provenance JSON''"
proof -
  let ?t = "case file of None \<Rightarrow> [] | Some t \<Rightarrow> t"
  let ?u = "translate_newlines ?t"
  let ?f = "Some (?t @ record_line r @ [CHR 0x0A])"
  obtain rest where line: "record_line r = broken_prefix u @ NEL # rest"
    using record_line_case_id [of r] build_record_props(5) [OF b] c(1)
    by (auto simp: broken_prefix_def dump_str_def dump_char_NEL)
  have brk: "c' \<in> set (broken_prefix u) \<Longrightarrow> \<not> is_line_break c'" for c'
  proof
    assume c': "c' \<in> set (broken_prefix u)" and bl: "is_line_break c'"
    then have "c' = NEL"
      using line dumps_breaks [of c'] unfolding record_line_def canonical_json_def
      by (metis UnI1 set_append)
    moreover have "NEL \<notin> set (concat (map dump_char x))" if "NEL \<notin> set x" for x
      using that by (simp add: NEL_in_dump_char)
    then have "NEL \<notin> set (broken_prefix u)"
      unfolding broken_prefix_def dump_str_def using c(2) NEL_ascii(4)
      by (simp del: set_concat set_map list.map concat.simps)
    ultimately show False using c' by simp
  qed
  have nocr: "CHR 0x0D \<notin> set (record_line r @ [CHR 0x0A])"
  proof -
    have "is_line_break (CHR 0x0D)" "CHR 0x0D \<noteq> NEL" by (simp_all add: is_line_break_def NEL_def)
    then have "CHR 0x0D \<notin> set (dumps j)" for j using dumps_breaks by metis
    then show ?thesis by (simp add: record_line_def canonical_json_def del: dumps.simps norm_json.simps)
  qed
  have hd: "hd (record_line r @ [CHR 0x0A]) \<noteq> CHR 0x0A" using record_line_start [of r] by auto
  have tr: "translate_newlines (?t @ record_line r @ [CHR 0x0A]) = ?u @ record_line r @ [CHR 0x0A]"
    using hd nocr by (subst translate_append) (simp_all add: translate_id)
  have u: "?u = [] \<or> last ?u = CHR 0x0A"
    and old: "map_result decode_line (filter (\<lambda>line. line \<noteq> []) (splitlines ?u)) = Inr rs"
    using v by (auto simp: ledger_verify_Inr ledger_records_def Let_def splitlines_def
        split: option.splits if_splits)
  obtain ls where sp: "splitlines (?u @ record_line r @ [CHR 0x0A]) = splitlines ?u @ broken_prefix u # ls"
    using splitlines_add_broken [OF u translate_no_cr, of "broken_prefix u" "rest @ [CHR 0x0A]"] brk line
    by auto
  have bad: "map_result f xs = Inr ys \<Longrightarrow> f x = Inl e \<Longrightarrow> map_result f (xs @ x # zs) = Inl e"
    for f :: "string \<Rightarrow> provenance_record result" and xs x ys zs e
    by (induction xs arbitrary: ys) auto
  have "broken_prefix u \<noteq> []" by (simp add: broken_prefix_def)
  moreover have "decode_line (broken_prefix u) = raise_p3 ''corrupt provenance JSON''"
    by (simp add: decode_line_def loads_broken_prefix)
  ultimately have "ledger_records ?f = raise_p3 ''corrupt provenance JSON''"
    using bad [OF old] by (simp add: ledger_records_def Let_def tr sp)
  then have "ledger_verify ?f = raise_p3 ''corrupt provenance JSON''"
    by (simp add: ledger_verify_def)
  then show ?thesis using v b by (simp add: ledger_append_def)
qed

section \<open>The ledger as a hash chain\<close>

definition record_content :: "provenance_record \<Rightarrow> json" where
  "record_content r = norm_json (JObj (pr_canonical_body r))"

definition record_clash :: "provenance_record \<Rightarrow> provenance_record \<Rightarrow> bool" where
  "record_clash r r' = digest_collision (JObj (pr_canonical_body r)) (JObj (pr_canonical_body r'))"

definition record_valid :: "provenance_record \<Rightarrow> bool" where
  "record_valid r = (record_sound r \<and> wf_json (JObj (pr_payload r)))"

lemma wf_pr_body: "wf_json (JObj (pr_payload r)) \<Longrightarrow> wf_json (JObj (pr_canonical_body r))"
  by (simp add: pr_canonical_body_def)

lemma record_content_lookup:
  assumes "record_content r = record_content r'"
  shows "map_option norm_json (map_of (pr_canonical_body r) k) = map_option norm_json (map_of (pr_canonical_body r') k)"
  using assms unfolding record_content_def
  by (intro norm_json_JObj_lookup) (simp_all add: pr_canonical_body_def)

lemma record_content_fields:
  assumes "record_content r = record_content r'"
  shows "pr_sequence r = pr_sequence r'" "pr_case_id r = pr_case_id r'" "pr_event_type r = pr_event_type r'"
    "pr_runtime_identity_digest r = pr_runtime_identity_digest r'"
    "pr_previous_record_digest r = pr_previous_record_digest r'"
    "norm_json (JObj (pr_payload r)) = norm_json (JObj (pr_payload r'))"
  using record_content_lookup [OF assms, of "''sequence''"] record_content_lookup [OF assms, of "''case_id''"]
    record_content_lookup [OF assms, of "''event_type''"]
    record_content_lookup [OF assms, of "''runtime_identity_digest''"]
    record_content_lookup [OF assms, of "''previous_record_digest''"]
    record_content_lookup [OF assms, of "''payload''"]
  by (simp_all add: pr_canonical_body_def del: norm_json.simps(6))

interpretation p3: hash_chain pr_previous_record_digest pr_record_digest record_valid record_content record_clash
proof unfold_locales
  fix r r'
  show "record_content r = record_content r' \<Longrightarrow> pr_previous_record_digest r = pr_previous_record_digest r'"
    by (rule record_content_fields)
  assume "record_valid r" "record_valid r'" "pr_record_digest r = pr_record_digest r'"
  then show "record_content r = record_content r' \<or> record_clash r r'"
    unfolding record_content_def record_clash_def
    by (intro content_digest_eqD) (simp_all add: record_valid_def record_sound_def wf_pr_body del: wf_json_simps)
qed

lemma decode_line_wf: "decode_line raw = Inr r \<Longrightarrow> wf_json (JObj (pr_payload r))"
proof -
  assume d: "decode_line raw = Inr r"
  then obtain parsed payload where l: "loads raw = Some (JObj parsed)"
    and m: "map_of parsed ''payload'' = Some (JObj payload)" and f: "decode_fields parsed payload = Some r"
    by (auto simp: decode_line_def split: option.splits json.splits)
  have "wf_json (JObj parsed)" using l by (rule loads_wf)
  then have "wf_json (JObj payload)" using map_of_SomeD [OF m] by (fastforce simp: list_all_iff)
  moreover have "pr_payload r = payload" using f by (auto simp: decode_fields_def split: bind_splits)
  ultimately show ?thesis by simp
qed

lemma ledger_records_wf:
  assumes "ledger_records file = Inr rs" "r \<in> set rs"
  shows "wf_json (JObj (pr_payload r))"
  using assms map_result_normal [of decode_line _ rs "\<lambda>r. wf_json (JObj (pr_payload r))" r] decode_line_wf
  by (auto simp: ledger_records_def Let_def simp del: wf_json_simps split: option.splits if_splits)

lemma ledger_verify_linked:
  assumes "ledger_verify file = Inr rs"
  shows "linked pr_previous_record_digest pr_record_digest record_valid GENESIS rs"
proof (rule linked_mono)
  show "linked pr_previous_record_digest pr_record_digest record_sound GENESIS rs"
    using assms by (simp add: ledger_verify_Inr)
  show "record_valid r" if "r \<in> set rs" "record_sound r" for r
    using assms ledger_records_wf that by (auto simp: ledger_verify_Inr record_valid_def simp del: wf_json_simps)
qed

lemma ledger_head_chain: "ledger_head rs = chain_head pr_record_digest GENESIS rs"
  by (simp add: ledger_head_def chain_head_def)

section \<open>Next-line characters come from the caller's texts\<close>

text \<open>The characters of the keys and strings of a JSON value.\<close>

primrec json_chars :: "json \<Rightarrow> char set" where
  "json_chars JNull = {}"
| "json_chars (JBool b) = {}"
| "json_chars (JInt i) = {}"
| "json_chars (JStr s) = set s"
| "json_chars (JList xs) = \<Union> (set (map json_chars xs))"
| "json_chars (JObj kvs) = (\<Union>kc \<in> set (map (map_prod set json_chars) kvs). fst kc \<union> snd kc)"

lemma json_chars_JObj: "json_chars (JObj kvs) = (\<Union>kv \<in> set kvs. set (fst kv) \<union> json_chars (snd kv))"
  by simp

lemma json_chars_norm [simp]: "json_chars (norm_json j) = json_chars j"
proof (induction j)
  case (JObj kvs)
  have "json_chars (norm_json (JObj kvs)) = (\<Union>kv \<in> set kvs. set (fst kv) \<union> json_chars (norm_json (snd kv)))"
    by (simp add: json_chars_JObj del: json_chars.simps(6))
  also have "\<dots> = (\<Union>kv \<in> set kvs. set (fst kv) \<union> json_chars (snd kv))"
    by (rule SUP_cong) (use JObj in \<open>auto simp: snds.simps\<close>)
  finally show ?case by (simp only: json_chars_JObj)
qed auto

declare json_chars.simps(6) [simp del] json_chars_JObj [simp]






section \<open>Properties of the ledger\<close>


text \<open>C38: A next-line character (U+0085) inside the case id breaks the ledger for good:
  \<^verbatim>\<open>json.dumps\<close> leaves it raw and \<^verbatim>\<open>str.splitlines\<close> splits there. The append reports an error, but
  its line stays in the file, so from then on verification fails and every later append fails
  without changing the file.\<close>

theorem next_line_bricks_ledger:
  assumes "ledger_verify file = Inr rs"
    and "build_record (int (length rs)) c t ri payload (ledger_head rs) = Inr r"
    and "strip c = u @ NEL # w" and "NEL \<notin> set u"
  shows "\<exists>file'. ledger_append file c t ri payload = (file', raise_p3 ''corrupt provenance JSON'') \<and>
    ledger_verify file' = raise_p3 ''corrupt provenance JSON'' \<and>
    (\<forall>c' t' ri' payload'. ledger_append file' c' t' ri' payload' =
       (file', raise_p3 ''corrupt provenance JSON''))"
proof -
  from ledger_append_broken [OF assms] obtain file' where
    f: "ledger_append file c t ri payload = (file', raise_p3 ''corrupt provenance JSON'')"
      "ledger_verify file' = raise_p3 ''corrupt provenance JSON''" by blast
  from f(2) have "ledger_append file' c' t' ri' payload' = (file', raise_p3 ''corrupt provenance JSON'')"
    for c' t' ri' payload' by (simp add: ledger_append_def)
  with f show ?thesis by blast
qed

text \<open>The ledger is tamper evident. Two files that both verify and have the same head digest
  hold the same records (same sequence, identities and payloads up to the order of keys), unless two
  records are an exhibited SHA-256 collision or some record hashes to the genesis value.\<close>

theorem ledger_tamper_evident:
  assumes "ledger_verify file = Inr rs" and "ledger_verify file' = Inr rs'"
    and "ledger_head rs = ledger_head rs'"
  shows "map record_content rs = map record_content rs' \<or>
    (\<exists>r \<in> set rs. \<exists>r' \<in> set rs'. record_clash r r') \<or>
    (\<exists>r \<in> set rs \<union> set rs'. pr_record_digest r = GENESIS)"
  using assms(3) unfolding ledger_head_chain
  by (rule p3.tamper_evident [OF ledger_verify_linked [OF assms(1)] ledger_verify_linked [OF assms(2)]])

section \<open>Witnesses\<close>

lemma ledger_words: "strip ''c'' = ''c''" "strip ''t'' = ''t''"
  by (simp_all add: strip_def is_space_def)

lemma sample_verify: "ledger_verify None = Inr []"
  by (simp add: ledger_verify_def ledger_records_def)



lemma next_line_bricks_ledger_witness:
  "\<exists>file'. ledger_append None [CHR ''c'', NEL, CHR ''d''] ''t'' sample_identity [] =
      (file', raise_p3 ''corrupt provenance JSON'') \<and> ledger_verify file' = raise_p3 ''corrupt provenance JSON''"
proof -
  have strip: "strip [CHR ''c'', NEL, CHR ''d''] = [CHR ''c''] @ NEL # [CHR ''d'']"
    by (simp add: strip_def is_space_def)
  have "\<exists>r. build_record (int (length ([] :: provenance_record list))) [CHR ''c'', NEL, CHR ''d''] ''t'' sample_identity []
      (ledger_head []) = Inr r"
    by (simp add: build_record_def strip ledger_words ledger_head_def GENESIS_def dict_of_def Let_def del: replicate.simps)
  then obtain r where "build_record (int (length ([] :: provenance_record list))) [CHR ''c'', NEL, CHR ''d''] ''t''
      sample_identity [] (ledger_head []) = Inr r" by blast
  from next_line_bricks_ledger [OF sample_verify this strip] show ?thesis by (auto simp: NEL_def)
qed

lemma ledger_tamper_evident_witness: "map record_content [] = map record_content []"
  using ledger_tamper_evident [OF sample_verify sample_verify refl] by simp

end
