(* ===== verification/NS_Contracts.thy ===== *)
theory NS_Contracts
  imports P3_Contracts
begin

text \<open>
  The control-plane contracts of \<^verbatim>\<open>core/night_shift/contracts.py\<close>. Each frozen dataclass is a
  record; \<^verbatim>\<open>__post_init__\<close> is a function from the given field values to the normalised record or
  the first contract error; \<^verbatim>\<open>canonical_dict\<close> and \<^verbatim>\<open>digest\<close> follow. \<^verbatim>\<open>authorize_task\<close> binds them.
\<close>

section \<open>Enumerations\<close>

datatype risk_class = R0 | R1 | R2 | R3 | R4

fun risk_value :: "risk_class \<Rightarrow> string" where
  "risk_value R0 = ''R0''"
| "risk_value R1 = ''R1''"
| "risk_value R2 = ''R2''"
| "risk_value R3 = ''R3''"
| "risk_value R4 = ''R4''"

text \<open>Risk classes are sorted by \<^verbatim>\<open>item.value\<close>.\<close>

instantiation risk_class :: linorder
begin

definition less_eq_risk_class :: "risk_class \<Rightarrow> risk_class \<Rightarrow> bool" where
  "less_eq_risk_class a b = (risk_value a \<le> risk_value b)"

definition less_risk_class :: "risk_class \<Rightarrow> risk_class \<Rightarrow> bool" where
  "less_risk_class a b = (risk_value a < risk_value b)"

instance
proof
  fix a b :: risk_class
  assume "a \<le> b" "b \<le> a"
  then have "risk_value a = risk_value b" by (simp add: less_eq_risk_class_def)
  then show "a = b" by (cases a; cases b) simp_all
qed (auto simp: less_eq_risk_class_def less_risk_class_def)

end

lemma risk_value_inject [simp]: "risk_value a = risk_value b \<longleftrightarrow> a = b"
  by (cases a; cases b) simp_all

datatype promotion_mode = AUTO | PREAUTHORIZED | HUMAN

fun mode_value :: "promotion_mode \<Rightarrow> string" where
  "mode_value AUTO = ''AUTO''"
| "mode_value PREAUTHORIZED = ''PREAUTHORIZED''"
| "mode_value HUMAN = ''HUMAN''"

lemma mode_value_inject [simp]: "mode_value a = mode_value b \<longleftrightarrow> a = b"
  by (cases a; cases b) simp_all

section \<open>PolicyRef\<close>

record policy_ref =
  pol_policy_id :: string
  pol_version :: string
  pol_policy_digest :: string

definition policy_ref_init :: "policy_ref \<Rightarrow> policy_ref result" where
  "policy_ref_init p =
     and_then (nonblank (pol_policy_id p) ''policy_id'') (\<lambda>policy_id.
     and_then (nonblank (pol_version p) ''version'') (\<lambda>version.
     and_then (ns_sha (pol_policy_digest p) ''policy_digest'') (\<lambda>policy_digest.
     return \<lparr>pol_policy_id = policy_id, pol_version = version, pol_policy_digest = policy_digest\<rparr>)))"

definition policy_ref_dict :: "policy_ref \<Rightarrow> (string \<times> json) list" where
  "policy_ref_dict p =
    [(''policy_id'', JStr (pol_policy_id p)),
     (''version'', JStr (pol_version p)),
     (''policy_digest'', JStr (pol_policy_digest p))]"

definition policy_ref_digest :: "policy_ref \<Rightarrow> string" where
  "policy_ref_digest p = content_digest (JObj (policy_ref_dict p))"

section \<open>LiveStateSnapshot\<close>

record live_state =
  ls_snapshot_id :: string
  ls_repository :: string
  ls_branch :: string
  ls_base_sha :: string
  ls_head_sha :: string
  ls_observed_at_epoch :: int
  ls_expires_at_epoch :: int
  ls_evidence_refs :: "string list"

definition live_state_init :: "live_state \<Rightarrow> live_state result" where
  "live_state_init s =
     and_then (nonblank (ls_snapshot_id s) ''snapshot_id'') (\<lambda>snapshot_id.
     and_then (nonblank (ls_repository s) ''repository'') (\<lambda>repository.
     and_then (nonblank (ls_branch s) ''branch'') (\<lambda>branch.
     and_then (require_git_oid (ls_base_sha s) ''base_sha'') (\<lambda>base_sha.
     and_then (require_git_oid (ls_head_sha s) ''head_sha'') (\<lambda>head_sha.
     if ls_observed_at_epoch s < 0 then raise_ns ''observed_at_epoch cannot be negative''
     else if ls_expires_at_epoch s \<le> ls_observed_at_epoch s
     then raise_ns ''state snapshot expiry must follow observation''
     else and_then (sorted_nonblank (ls_evidence_refs s) ''evidence_refs'') (\<lambda>evidence_refs.
       if evidence_refs = [] then raise_ns ''state snapshot requires evidence''
       else return (s\<lparr>ls_snapshot_id := snapshot_id, ls_repository := repository, ls_branch := branch,
         ls_base_sha := base_sha, ls_head_sha := head_sha, ls_evidence_refs := evidence_refs\<rparr>)))))))"

definition state_require_fresh :: "live_state \<Rightarrow> int \<Rightarrow> unit result" where
  "state_require_fresh s now_epoch =
     (if now_epoch < ls_observed_at_epoch s then raise_ns ''current time precedes state observation''
      else if now_epoch \<ge> ls_expires_at_epoch s then raise_ns ''state snapshot is stale''
      else return ())"

definition live_state_dict :: "live_state \<Rightarrow> (string \<times> json) list" where
  "live_state_dict s =
    [(''snapshot_id'', JStr (ls_snapshot_id s)),
     (''repository'', JStr (ls_repository s)),
     (''branch'', JStr (ls_branch s)),
     (''base_sha'', JStr (ls_base_sha s)),
     (''head_sha'', JStr (ls_head_sha s)),
     (''observed_at_epoch'', JInt (ls_observed_at_epoch s)),
     (''expires_at_epoch'', JInt (ls_expires_at_epoch s)),
     (''evidence_refs'', jstrs (ls_evidence_refs s))]"

definition live_state_digest :: "live_state \<Rightarrow> string" where
  "live_state_digest s = content_digest (JObj (live_state_dict s))"

section \<open>TaskCapsule\<close>

record task_capsule =
  tc_task_id :: string
  tc_repository :: string
  tc_state_snapshot_digest :: string
  tc_policy_digest :: string
  tc_objective :: string
  tc_risk_class :: risk_class
  tc_allowed_paths :: "string list"
  tc_forbidden_paths :: "string list"
  tc_acceptance_checks :: "string list"
  tc_max_files_changed :: int
  tc_max_lines_changed :: int
  tc_allow_binary_changes :: bool

definition task_capsule_init :: "task_capsule \<Rightarrow> task_capsule result" where
  "task_capsule_init t =
     and_then (nonblank (tc_task_id t) ''task_id'') (\<lambda>task_id.
     and_then (nonblank (tc_repository t) ''repository'') (\<lambda>repository.
     and_then (ns_sha (tc_state_snapshot_digest t) ''state_snapshot_digest'') (\<lambda>state_digest.
     and_then (ns_sha (tc_policy_digest t) ''policy_digest'') (\<lambda>policy_digest.
     and_then (nonblank (tc_objective t) ''objective'') (\<lambda>objective.
     and_then (sorted_nonblank (tc_allowed_paths t) ''allowed_paths'') (\<lambda>allowed.
     and_then (sorted_nonblank (tc_forbidden_paths t) ''forbidden_paths'') (\<lambda>forbidden.
     and_then (sorted_nonblank (tc_acceptance_checks t) ''acceptance_checks'') (\<lambda>checks.
     if allowed = [] then raise_ns ''task requires at least one allowed path''
     else if checks = [] then raise_ns ''task requires acceptance checks''
     else if tc_max_files_changed t < 1 then raise_ns ''max_files_changed must be positive''
     else if tc_max_lines_changed t < 1 then raise_ns ''max_lines_changed must be positive''
     else if set allowed \<inter> set forbidden \<noteq> {} then raise_ns ''allowed and forbidden paths overlap''
     else return (t\<lparr>tc_task_id := task_id, tc_repository := repository,
       tc_state_snapshot_digest := state_digest, tc_policy_digest := policy_digest,
       tc_objective := objective, tc_allowed_paths := allowed, tc_forbidden_paths := forbidden,
       tc_acceptance_checks := checks\<rparr>)))))))))"

definition task_capsule_dict :: "task_capsule \<Rightarrow> (string \<times> json) list" where
  "task_capsule_dict t =
    [(''task_id'', JStr (tc_task_id t)),
     (''repository'', JStr (tc_repository t)),
     (''state_snapshot_digest'', JStr (tc_state_snapshot_digest t)),
     (''policy_digest'', JStr (tc_policy_digest t)),
     (''objective'', JStr (tc_objective t)),
     (''risk_class'', JStr (risk_value (tc_risk_class t))),
     (''allowed_paths'', jstrs (tc_allowed_paths t)),
     (''forbidden_paths'', jstrs (tc_forbidden_paths t)),
     (''acceptance_checks'', jstrs (tc_acceptance_checks t)),
     (''max_files_changed'', JInt (tc_max_files_changed t)),
     (''max_lines_changed'', JInt (tc_max_lines_changed t)),
     (''allow_binary_changes'', JBool (tc_allow_binary_changes t))]"

definition task_capsule_digest :: "task_capsule \<Rightarrow> string" where
  "task_capsule_digest t = content_digest (JObj (task_capsule_dict t))"

section \<open>AutonomyEnvelope\<close>

record autonomy_envelope =
  ae_envelope_id :: string
  ae_issued_at_epoch :: int
  ae_expires_at_epoch :: int
  ae_repositories :: "string list"
  ae_allowed_risk_classes :: "risk_class list"
  ae_max_tasks :: int
  ae_promotion_mode :: promotion_mode

definition autonomy_envelope_init :: "autonomy_envelope \<Rightarrow> autonomy_envelope result" where
  "autonomy_envelope_init e =
     and_then (nonblank (ae_envelope_id e) ''envelope_id'') (\<lambda>envelope_id.
     if ae_issued_at_epoch e < 0 then raise_ns ''issued_at_epoch cannot be negative''
     else if ae_expires_at_epoch e \<le> ae_issued_at_epoch e
     then raise_ns ''authority expiry must follow issuance''
     else and_then (sorted_nonblank (ae_repositories e) ''repositories'') (\<lambda>repositories.
     if repositories = [] then raise_ns ''authority requires at least one repository''
     else let risks = sorted_set (ae_allowed_risk_classes e) in
     if risks = [] then raise_ns ''authority requires at least one risk class''
     else if ae_max_tasks e < 1 then raise_ns ''max_tasks must be positive''
     else if R4 \<in> set risks then raise_ns ''R4 cannot be authorized for unattended execution''
     else if ae_promotion_mode e = AUTO \<and> (\<exists>risk \<in> set risks. risk \<noteq> R0)
     then raise_ns ''AUTO promotion authority is limited to R0''
     else if ae_promotion_mode e = PREAUTHORIZED \<and> (\<exists>risk \<in> set risks. risk \<notin> {R0, R1})
     then raise_ns ''PREAUTHORIZED promotion authority is limited to R0/R1''
     else return (e\<lparr>ae_envelope_id := envelope_id, ae_repositories := repositories,
       ae_allowed_risk_classes := risks\<rparr>)))"

definition require_authorized :: "autonomy_envelope \<Rightarrow> string \<Rightarrow> risk_class \<Rightarrow> int \<Rightarrow> unit result" where
  "require_authorized e repository risk_class now_epoch =
     (if now_epoch < ae_issued_at_epoch e then raise_ns ''current time precedes authority issuance''
      else if now_epoch \<ge> ae_expires_at_epoch e then raise_ns ''authority envelope expired''
      else if repository \<notin> set (ae_repositories e) then raise_ns ''repository outside authority envelope''
      else if risk_class \<notin> set (ae_allowed_risk_classes e)
      then raise_ns ''risk class outside authority envelope''
      else return ())"

definition autonomy_envelope_dict :: "autonomy_envelope \<Rightarrow> (string \<times> json) list" where
  "autonomy_envelope_dict e =
    [(''envelope_id'', JStr (ae_envelope_id e)),
     (''issued_at_epoch'', JInt (ae_issued_at_epoch e)),
     (''expires_at_epoch'', JInt (ae_expires_at_epoch e)),
     (''repositories'', jstrs (ae_repositories e)),
     (''allowed_risk_classes'', jstrs (map risk_value (ae_allowed_risk_classes e))),
     (''max_tasks'', JInt (ae_max_tasks e)),
     (''promotion_mode'', JStr (mode_value (ae_promotion_mode e)))]"

definition autonomy_envelope_digest :: "autonomy_envelope \<Rightarrow> string" where
  "autonomy_envelope_digest e = content_digest (JObj (autonomy_envelope_dict e))"

section \<open>AuthorityReservation and ExecutionDecision\<close>

record authority_reservation =
  ar_envelope_digest :: string
  ar_task_id :: string
  ar_ordinal :: int

definition authority_reservation_init :: "authority_reservation \<Rightarrow> authority_reservation result" where
  "authority_reservation_init r =
     and_then (ns_sha (ar_envelope_digest r) ''envelope_digest'') (\<lambda>envelope_digest.
     and_then (nonblank (ar_task_id r) ''task_id'') (\<lambda>task_id.
     if ar_ordinal r < 1 then raise_ns ''authority reservation ordinal must be positive''
     else return (r\<lparr>ar_envelope_digest := envelope_digest, ar_task_id := task_id\<rparr>)))"

definition authority_reservation_dict :: "authority_reservation \<Rightarrow> (string \<times> json) list" where
  "authority_reservation_dict r =
    [(''envelope_digest'', JStr (ar_envelope_digest r)),
     (''task_id'', JStr (ar_task_id r)),
     (''ordinal'', JInt (ar_ordinal r))]"

definition authority_reservation_digest :: "authority_reservation \<Rightarrow> string" where
  "authority_reservation_digest r = content_digest (JObj (authority_reservation_dict r))"

record execution_decision =
  ed_decision_id :: string
  ed_policy_ref_digest :: string
  ed_state_snapshot_digest :: string
  ed_task_capsule_digest :: string
  ed_autonomy_envelope_digest :: string
  ed_authority_reservation_digest :: string

definition execution_decision_init :: "execution_decision \<Rightarrow> execution_decision result" where
  "execution_decision_init d =
     and_then (nonblank (ed_decision_id d) ''decision_id'') (\<lambda>decision_id.
     and_then (ns_sha (ed_policy_ref_digest d) ''policy_ref_digest'') (\<lambda>policy.
     and_then (ns_sha (ed_state_snapshot_digest d) ''state_snapshot_digest'') (\<lambda>state.
     and_then (ns_sha (ed_task_capsule_digest d) ''task_capsule_digest'') (\<lambda>task.
     and_then (ns_sha (ed_autonomy_envelope_digest d) ''autonomy_envelope_digest'') (\<lambda>envelope.
     and_then (ns_sha (ed_authority_reservation_digest d) ''authority_reservation_digest'') (\<lambda>reservation.
     return \<lparr>ed_decision_id = decision_id, ed_policy_ref_digest = policy,
       ed_state_snapshot_digest = state, ed_task_capsule_digest = task,
       ed_autonomy_envelope_digest = envelope, ed_authority_reservation_digest = reservation\<rparr>))))))"

definition execution_decision_dict :: "execution_decision \<Rightarrow> (string \<times> json) list" where
  "execution_decision_dict d =
    [(''decision_id'', JStr (ed_decision_id d)),
     (''policy_ref_digest'', JStr (ed_policy_ref_digest d)),
     (''state_snapshot_digest'', JStr (ed_state_snapshot_digest d)),
     (''task_capsule_digest'', JStr (ed_task_capsule_digest d)),
     (''autonomy_envelope_digest'', JStr (ed_autonomy_envelope_digest d)),
     (''authority_reservation_digest'', JStr (ed_authority_reservation_digest d))]"

definition execution_decision_digest :: "execution_decision \<Rightarrow> string" where
  "execution_decision_digest d = content_digest (JObj (execution_decision_dict d))"

section \<open>authorize_task\<close>

text \<open>The \<^verbatim>\<open>AuthorityReservationVerifier\<close> protocol is the argument \<open>require_reserved\<close>.\<close>

definition authorize_task ::
  "policy_ref \<Rightarrow> live_state \<Rightarrow> task_capsule \<Rightarrow> autonomy_envelope \<Rightarrow> authority_reservation \<Rightarrow>
   (authority_reservation \<Rightarrow> unit result) \<Rightarrow> int \<Rightarrow> string \<Rightarrow> execution_decision result" where
  "authorize_task policy state task envelope reservation require_reserved now_epoch decision_id =
     and_then (state_require_fresh state now_epoch) (\<lambda>_.
     and_then (require_authorized envelope (tc_repository task) (tc_risk_class task) now_epoch) (\<lambda>_.
     if tc_repository task \<noteq> ls_repository state
     then raise_ns ''task repository does not match live state''
     else if tc_state_snapshot_digest task \<noteq> live_state_digest state
     then raise_ns ''task is bound to a different state snapshot''
     else if tc_policy_digest task \<noteq> pol_policy_digest policy
     then raise_ns ''task is bound to a different policy digest''
     else and_then (require_reserved reservation) (\<lambda>_.
     if ar_envelope_digest reservation \<noteq> autonomy_envelope_digest envelope
     then raise_ns ''authority reservation belongs to a different envelope''
     else if ar_task_id reservation \<noteq> tc_task_id task
     then raise_ns ''authority reservation belongs to a different task''
     else if ar_ordinal reservation > ae_max_tasks envelope
     then raise_ns ''authority reservation exceeds envelope task budget''
     else execution_decision_init
       \<lparr>ed_decision_id = decision_id,
        ed_policy_ref_digest = policy_ref_digest policy,
        ed_state_snapshot_digest = live_state_digest state,
        ed_task_capsule_digest = task_capsule_digest task,
        ed_autonomy_envelope_digest = autonomy_envelope_digest envelope,
        ed_authority_reservation_digest = authority_reservation_digest reservation\<rparr>)))"

section \<open>Digests bind contents\<close>

lemma jstrs_risks_inject [simp]:
  "map risk_value xs = map risk_value ys \<longleftrightarrow> xs = ys"
  by (rule inj_map_eq_map) (simp add: inj_def)

interpretation policies: content_addressed "\<lambda>_. True" policy_ref_dict
  by unfold_locales (simp_all add: norm_json_JObj_same_keys policy_ref_dict_def policy_ref.equality del: norm_json.simps(6))

interpretation snapshots: content_addressed "\<lambda>_. True" live_state_dict
  by unfold_locales (simp_all add: norm_json_JObj_same_keys live_state_dict_def live_state.equality del: norm_json.simps(6))

interpretation tasks: content_addressed "\<lambda>_. True" task_capsule_dict
  by unfold_locales (simp_all add: norm_json_JObj_same_keys task_capsule_dict_def task_capsule.equality del: norm_json.simps(6))

interpretation envelopes: content_addressed "\<lambda>_. True" autonomy_envelope_dict
  by unfold_locales (simp_all add: norm_json_JObj_same_keys autonomy_envelope_dict_def autonomy_envelope.equality del: norm_json.simps(6))

interpretation reservations: content_addressed "\<lambda>_. True" authority_reservation_dict
  by unfold_locales (simp_all add: norm_json_JObj_same_keys authority_reservation_dict_def authority_reservation.equality del: norm_json.simps(6))

interpretation decisions: content_addressed "\<lambda>_. True" execution_decision_dict
  by unfold_locales (simp_all add: norm_json_JObj_same_keys execution_decision_dict_def execution_decision.equality del: norm_json.simps(6))

lemma policy_ref_binds: "policy_ref_digest a = policy_ref_digest b \<Longrightarrow> same_or_clash policy_ref_dict a b"
  unfolding policy_ref_digest_def same_or_clash_def by (intro policies.digest_binds) simp_all

lemma live_state_binds: "live_state_digest a = live_state_digest b \<Longrightarrow> same_or_clash live_state_dict a b"
  unfolding live_state_digest_def same_or_clash_def by (intro snapshots.digest_binds) simp_all

lemma task_capsule_binds: "task_capsule_digest a = task_capsule_digest b \<Longrightarrow> same_or_clash task_capsule_dict a b"
  unfolding task_capsule_digest_def same_or_clash_def by (intro tasks.digest_binds) simp_all

lemma autonomy_envelope_binds: "autonomy_envelope_digest a = autonomy_envelope_digest b \<Longrightarrow> same_or_clash autonomy_envelope_dict a b"
  unfolding autonomy_envelope_digest_def same_or_clash_def by (intro envelopes.digest_binds) simp_all

lemma authority_reservation_binds: "authority_reservation_digest a = authority_reservation_digest b \<Longrightarrow> same_or_clash authority_reservation_dict a b"
  unfolding authority_reservation_digest_def same_or_clash_def by (intro reservations.digest_binds) simp_all

lemma execution_decision_binds: "execution_decision_digest a = execution_decision_digest b \<Longrightarrow> same_or_clash execution_decision_dict a b"
  unfolding execution_decision_digest_def same_or_clash_def by (intro decisions.digest_binds) simp_all

lemma digests_are_sha256 [simp]:
  "is_sha256 (policy_ref_digest p)" "is_sha256 (live_state_digest s)" "is_sha256 (task_capsule_digest t)"
  "is_sha256 (autonomy_envelope_digest e)" "is_sha256 (authority_reservation_digest r)"
  "is_sha256 (execution_decision_digest d)"
  by (simp_all add: policy_ref_digest_def live_state_digest_def task_capsule_digest_def
      autonomy_envelope_digest_def authority_reservation_digest_def execution_decision_digest_def)

section \<open>Invariants of the constructors\<close>

definition task_capsule_ok :: "task_capsule \<Rightarrow> bool" where
  "task_capsule_ok t =
     (is_text (tc_task_id t) \<and> is_text (tc_repository t) \<and> is_sha256 (tc_state_snapshot_digest t) \<and>
      is_sha256 (tc_policy_digest t) \<and> is_text (tc_objective t) \<and>
      is_text_tuple (tc_allowed_paths t) \<and> is_text_tuple (tc_forbidden_paths t) \<and>
      is_text_tuple (tc_acceptance_checks t) \<and> tc_allowed_paths t \<noteq> [] \<and> tc_acceptance_checks t \<noteq> [] \<and>
      1 \<le> tc_max_files_changed t \<and> 1 \<le> tc_max_lines_changed t \<and>
      set (tc_allowed_paths t) \<inter> set (tc_forbidden_paths t) = {})"

definition autonomy_envelope_ok :: "autonomy_envelope \<Rightarrow> bool" where
  "autonomy_envelope_ok e =
     (is_text (ae_envelope_id e) \<and> 0 \<le> ae_issued_at_epoch e \<and> ae_issued_at_epoch e < ae_expires_at_epoch e \<and>
      is_text_tuple (ae_repositories e) \<and> ae_repositories e \<noteq> [] \<and>
      sorted (ae_allowed_risk_classes e) \<and> distinct (ae_allowed_risk_classes e) \<and>
      ae_allowed_risk_classes e \<noteq> [] \<and> 1 \<le> ae_max_tasks e \<and> R4 \<notin> set (ae_allowed_risk_classes e) \<and>
      (ae_promotion_mode e = AUTO \<longrightarrow> set (ae_allowed_risk_classes e) = {R0}) \<and>
      (ae_promotion_mode e = PREAUTHORIZED \<longrightarrow> set (ae_allowed_risk_classes e) \<subseteq> {R0, R1}))"

definition live_state_ok :: "live_state \<Rightarrow> bool" where
  "live_state_ok s =
     (is_text (ls_snapshot_id s) \<and> is_text (ls_repository s) \<and> is_text (ls_branch s) \<and>
      is_git_oid (ls_base_sha s) \<and> is_git_oid (ls_head_sha s) \<and>
      0 \<le> ls_observed_at_epoch s \<and> ls_observed_at_epoch s < ls_expires_at_epoch s \<and>
      is_text_tuple (ls_evidence_refs s) \<and> ls_evidence_refs s \<noteq> [])"

lemma is_text_strip: "is_text (strip s) \<longleftrightarrow> strip s \<noteq> []"
  by (simp add: is_text_def)

lemma task_capsule_init_ok: "task_capsule_init t = Inr t' \<Longrightarrow> task_capsule_ok t'"
  by (auto simp: task_capsule_init_def task_capsule_ok_def ns_sha_Inr nonblank_Inr is_text_strip
      dest: sorted_nonblank_tuple split: if_splits)

lemma task_capsule_init_fixed: "task_capsule_ok t \<Longrightarrow> task_capsule_init t = Inr t"
  by (simp add: task_capsule_init_def task_capsule_ok_def)

lemma set_all_eq: "xs \<noteq> [] \<Longrightarrow> \<forall>x \<in> set xs. x = a \<Longrightarrow> set xs = {a}"
  by (cases xs) auto

lemma autonomy_envelope_init_ok: "autonomy_envelope_init e = Inr e' \<Longrightarrow> autonomy_envelope_ok e'"
  by (auto simp: autonomy_envelope_init_def autonomy_envelope_ok_def nonblank_Inr is_text_strip Let_def
      simp flip: not_le dest: sorted_nonblank_tuple set_all_eq split: if_splits)

lemma autonomy_envelope_init_fixed: "autonomy_envelope_ok e \<Longrightarrow> autonomy_envelope_init e = Inr e"
  by (auto simp: autonomy_envelope_init_def autonomy_envelope_ok_def Let_def sorted_set_idem)

lemma live_state_init_ok: "live_state_init s = Inr s' \<Longrightarrow> live_state_ok s'"
  by (auto simp: live_state_init_def live_state_ok_def nonblank_Inr require_git_oid_Inr is_text_strip
      dest: sorted_nonblank_tuple split: if_splits)

lemma live_state_init_fixed: "live_state_ok s \<Longrightarrow> live_state_init s = Inr s"
  by (simp add: live_state_init_def live_state_ok_def)

lemma authority_reservation_init_Inr:
  "authority_reservation_init r = Inr r' \<longleftrightarrow>
     r' = r\<lparr>ar_envelope_digest := lower (strip (ar_envelope_digest r)), ar_task_id := strip (ar_task_id r)\<rparr> \<and>
     is_sha256 (ar_envelope_digest r') \<and> ar_task_id r' \<noteq> [] \<and> 1 \<le> ar_ordinal r'"
  by (auto simp: authority_reservation_init_def ns_sha_Inr nonblank_Inr)

lemma execution_decision_init_digests:
  assumes "is_sha256 p" "is_sha256 s" "is_sha256 t" "is_sha256 e" "is_sha256 r"
  shows "execution_decision_init \<lparr>ed_decision_id = d, ed_policy_ref_digest = p,
        ed_state_snapshot_digest = s, ed_task_capsule_digest = t, ed_autonomy_envelope_digest = e,
        ed_authority_reservation_digest = r\<rparr> =
     and_then (nonblank d ''decision_id'') (\<lambda>d'. Inr \<lparr>ed_decision_id = d', ed_policy_ref_digest = p,
        ed_state_snapshot_digest = s, ed_task_capsule_digest = t, ed_autonomy_envelope_digest = e,
        ed_authority_reservation_digest = r\<rparr>)"
  using assms by (simp add: execution_decision_init_def)

lemma state_require_fresh_Inr:
  "state_require_fresh s now = Inr u \<longleftrightarrow> ls_observed_at_epoch s \<le> now \<and> now < ls_expires_at_epoch s"
  by (auto simp: state_require_fresh_def)

lemma require_authorized_Inr:
  "require_authorized e repo risk now = Inr u \<longleftrightarrow>
     ae_issued_at_epoch e \<le> now \<and> now < ae_expires_at_epoch e \<and>
     repo \<in> set (ae_repositories e) \<and> risk \<in> set (ae_allowed_risk_classes e)"
  by (auto simp: require_authorized_def)

lemma authorize_task_Inr:
  "authorize_task policy state task envelope reservation verifier now decision_id = Inr d \<longleftrightarrow>
     ls_observed_at_epoch state \<le> now \<and> now < ls_expires_at_epoch state \<and>
     ae_issued_at_epoch envelope \<le> now \<and> now < ae_expires_at_epoch envelope \<and>
     tc_repository task \<in> set (ae_repositories envelope) \<and>
     tc_risk_class task \<in> set (ae_allowed_risk_classes envelope) \<and>
     tc_repository task = ls_repository state \<and>
     tc_state_snapshot_digest task = live_state_digest state \<and>
     tc_policy_digest task = pol_policy_digest policy \<and>
     verifier reservation = Inr () \<and>
     ar_envelope_digest reservation = autonomy_envelope_digest envelope \<and>
     ar_task_id reservation = tc_task_id task \<and>
     ar_ordinal reservation \<le> ae_max_tasks envelope \<and>
     strip decision_id \<noteq> [] \<and>
     d = \<lparr>ed_decision_id = strip decision_id,
          ed_policy_ref_digest = policy_ref_digest policy,
          ed_state_snapshot_digest = live_state_digest state,
          ed_task_capsule_digest = task_capsule_digest task,
          ed_autonomy_envelope_digest = autonomy_envelope_digest envelope,
          ed_authority_reservation_digest = authority_reservation_digest reservation\<rparr>"
  by (auto simp: authorize_task_def state_require_fresh_Inr require_authorized_Inr
      execution_decision_init_digests nonblank_Inr not_le not_less)

section \<open>Properties of the contracts\<close>

text \<open>C1: A decision digest pins what was authorised. If two authorisations succeed with decisions
  of the same digest, they were given the same policy, snapshot, task, envelope and reservation, or
  one of the six pairs of canonical texts is an exhibited SHA-256 collision.\<close>

theorem execution_decision_pins_inputs:
  assumes "authorize_task p s t e r v now i = Inr d" and "authorize_task p' s' t' e' r' v' now' i' = Inr d'"
    and "execution_decision_digest d = execution_decision_digest d'"
  shows "(p = p' \<and> s = s' \<and> t = t' \<and> e = e' \<and> r = r') \<or>
    digest_collision (JObj (execution_decision_dict d)) (JObj (execution_decision_dict d')) \<or>
    digest_collision (JObj (policy_ref_dict p)) (JObj (policy_ref_dict p')) \<or>
    digest_collision (JObj (live_state_dict s)) (JObj (live_state_dict s')) \<or>
    digest_collision (JObj (task_capsule_dict t)) (JObj (task_capsule_dict t')) \<or>
    digest_collision (JObj (autonomy_envelope_dict e)) (JObj (autonomy_envelope_dict e')) \<or>
    digest_collision (JObj (authority_reservation_dict r)) (JObj (authority_reservation_dict r'))"
proof -
  have "d = d' \<or> digest_collision (JObj (execution_decision_dict d)) (JObj (execution_decision_dict d'))"
    using execution_decision_binds [OF assms(3)] by (simp add: same_or_clash_def)
  moreover have "same_or_clash policy_ref_dict p p' \<and> same_or_clash live_state_dict s s' \<and>
      same_or_clash task_capsule_dict t t' \<and> same_or_clash autonomy_envelope_dict e e' \<and>
      same_or_clash authority_reservation_dict r r'" if "d = d'"
    using assms(1,2) that unfolding authorize_task_Inr
    by (auto intro: policy_ref_binds live_state_binds task_capsule_binds autonomy_envelope_binds
        authority_reservation_binds)
  ultimately show ?thesis by (auto simp: same_or_clash_def)
qed

text \<open>The unattended-authority limits hold in every envelope the constructor accepts: no
  R4, an AUTO envelope covers R0 only, a PREAUTHORIZED one R0 and R1 only, the budget is positive
  and the validity interval nonempty; and the stored envelope is a fixed point of the
  constructor.\<close>

theorem envelope_authority_limits:
  assumes "autonomy_envelope_init e0 = Inr e"
  shows "R4 \<notin> set (ae_allowed_risk_classes e) \<and>
    (ae_promotion_mode e = AUTO \<longrightarrow> set (ae_allowed_risk_classes e) = {R0}) \<and>
    (ae_promotion_mode e = PREAUTHORIZED \<longrightarrow> set (ae_allowed_risk_classes e) \<subseteq> {R0, R1}) \<and>
    1 \<le> ae_max_tasks e \<and> ae_issued_at_epoch e < ae_expires_at_epoch e \<and>
    autonomy_envelope_init e = Inr e"
  using autonomy_envelope_init_ok [OF assms] autonomy_envelope_init_fixed [of e]
  by (simp add: autonomy_envelope_ok_def)

text \<open>No task is ever authorised at risk class R4, and none outside the time window of its
  live-state snapshot, whatever policy, reservation and verifier are supplied.\<close>

theorem r4_never_authorized:
  assumes "autonomy_envelope_init e0 = Inr e"
    and "authorize_task p s t e r v now i = Inr d"
  shows "tc_risk_class t \<noteq> R4 \<and> ls_observed_at_epoch s \<le> now \<and> now < ls_expires_at_epoch s"
proof -
  have "R4 \<notin> set (ae_allowed_risk_classes e)"
    using autonomy_envelope_init_ok [OF assms(1)] unfolding autonomy_envelope_ok_def by blast
  moreover have "tc_risk_class t \<in> set (ae_allowed_risk_classes e)"
    and "ls_observed_at_epoch s \<le> now \<and> now < ls_expires_at_epoch s"
    using assms(2) unfolding authorize_task_Inr by blast+
  ultimately show ?thesis by metis
qed

section \<open>Sample inputs\<close>

definition sample_policy :: policy_ref where
  "sample_policy = \<lparr>pol_policy_id = ''p'', pol_version = ''1'', pol_policy_digest = replicate 64 CHR ''a''\<rparr>"

definition sample_state :: live_state where
  "sample_state = \<lparr>ls_snapshot_id = ''s'', ls_repository = ''repo'', ls_branch = ''main'',
     ls_base_sha = replicate 40 CHR ''a'', ls_head_sha = replicate 40 CHR ''b'', ls_observed_at_epoch = 10,
     ls_expires_at_epoch = 90, ls_evidence_refs = [''ref'']\<rparr>"

definition sample_envelope :: autonomy_envelope where
  "sample_envelope = \<lparr>ae_envelope_id = ''e'', ae_issued_at_epoch = 0, ae_expires_at_epoch = 100,
     ae_repositories = [''repo''], ae_allowed_risk_classes = [R0], ae_max_tasks = 2, ae_promotion_mode = AUTO\<rparr>"

definition sample_task :: "string \<Rightarrow> task_capsule" where
  "sample_task i = \<lparr>tc_task_id = i, tc_repository = ''repo'', tc_state_snapshot_digest = live_state_digest sample_state,
     tc_policy_digest = pol_policy_digest sample_policy, tc_objective = ''o'', tc_risk_class = R0,
     tc_allowed_paths = [''src''], tc_forbidden_paths = [], tc_acceptance_checks = [''tests''],
     tc_max_files_changed = 1, tc_max_lines_changed = 1, tc_allow_binary_changes = False\<rparr>"

definition sample_reservation :: "string \<Rightarrow> authority_reservation" where
  "sample_reservation i = \<lparr>ar_envelope_digest = autonomy_envelope_digest sample_envelope, ar_task_id = i, ar_ordinal = 1\<rparr>"

definition sample_decision :: execution_decision where
  "sample_decision = \<lparr>ed_decision_id = ''d'', ed_policy_ref_digest = policy_ref_digest sample_policy,
     ed_state_snapshot_digest = live_state_digest sample_state,
     ed_task_capsule_digest = task_capsule_digest (sample_task ''t''),
     ed_autonomy_envelope_digest = autonomy_envelope_digest sample_envelope,
     ed_authority_reservation_digest = authority_reservation_digest (sample_reservation ''t'')\<rparr>"

lemma sample_text: "strip ''d'' = ''d''" "strip ''e'' = ''e''" "strip ''repo'' = ''repo''" "strip ''t'' = ''t''"
  by (simp_all add: strip_def is_space_def)

lemma sample_envelope_init: "autonomy_envelope_init sample_envelope = return sample_envelope"
  by (rule autonomy_envelope_init_fixed)
    (simp add: sample_envelope_def autonomy_envelope_ok_def is_text_def is_text_tuple_def stripped_def is_space_def)

lemma sample_authorized:
  "authorize_task sample_policy sample_state (sample_task ''t'') sample_envelope (sample_reservation ''t'')
     (\<lambda>_. return ()) 50 ''d'' = return sample_decision"
  unfolding authorize_task_Inr
  by (simp add: sample_text sample_decision_def) (simp add: sample_state_def sample_envelope_def sample_task_def sample_reservation_def)

section \<open>Witnesses\<close>

lemma execution_decision_pins_inputs_witness:
  "execution_decision_digest sample_decision = execution_decision_digest sample_decision \<and>
   sample_task ''t'' = sample_task ''t''"
  using execution_decision_pins_inputs [OF sample_authorized sample_authorized refl] by simp

lemma envelope_authority_limits_witness:
  "R4 \<notin> set (ae_allowed_risk_classes sample_envelope) \<and> set (ae_allowed_risk_classes sample_envelope) = {R0}"
proof -
  have "ae_promotion_mode sample_envelope = AUTO" by (simp add: sample_envelope_def)
  then show ?thesis using envelope_authority_limits [OF sample_envelope_init] by simp
qed

lemma r4_never_authorized_witness:
  "tc_risk_class (sample_task ''t'') \<noteq> R4 \<and> ls_observed_at_epoch sample_state \<le> 50"
  using r4_never_authorized [OF sample_envelope_init sample_authorized] by simp

end
