(* ===== verification/NS_Journal.thy ===== *)
theory NS_Journal
  imports NS_Contracts Hash_Chain
begin

text \<open>
  The durable event journal, \<^verbatim>\<open>core/night_shift/journal.py\<close> (\<^verbatim>\<open>DurableEventJournal\<close>): the hash
  chain of each workflow, its replay, the idempotent inbox and the outbox. The SQLite file is the
  record of its tables. \<^verbatim>\<open>events\<close> and \<^verbatim>\<open>outbox\<close> are lists of rows in the order of their
  \<^verbatim>\<open>rowid\<close> (\<^verbatim>\<open>sequence\<close> is one), which is the order the queries ask for; \<^verbatim>\<open>inbox\<close> is a map from
  its primary key. Each writing operation is one transaction: what it raises rolls it back.
\<close>

section \<open>Tables\<close>

definition GENESIS_HASH :: string where
  "GENESIS_HASH = replicate 64 (CHR ''0'')"

record event_row =
  er_sequence :: int
  er_event_id :: string
  er_workflow_id :: string
  er_event_type :: string
  er_payload_json :: string
  er_payload_digest :: string
  er_created_at_epoch :: int
  er_previous_hash :: string
  er_event_hash :: string

datatype outbox_status = PENDING | SENT

record outbox_row =
  ob_idempotency_key :: string
  ob_action_type :: string
  ob_payload_json :: string
  ob_payload_digest :: string
  ob_status :: outbox_status

record journal_db =
  jd_events :: "event_row list"
  jd_inbox :: "string \<rightharpoonup> string \<times> string"
  jd_outbox :: "outbox_row list"

definition empty_journal :: journal_db where
  "empty_journal = \<lparr>jd_events = [], jd_inbox = Map.empty, jd_outbox = []\<rparr>"

record journal_event =
  je_sequence :: int
  je_event_id :: string
  je_workflow_id :: string
  je_event_type :: string
  je_payload :: json
  je_created_at_epoch :: int
  je_previous_hash :: string
  je_event_hash :: string

section \<open>Appending\<close>

text \<open>The dictionary an event hash covers.\<close>

definition event_body :: "string \<Rightarrow> string \<Rightarrow> string \<Rightarrow> string \<Rightarrow> int \<Rightarrow> string \<Rightarrow> (string \<times> json) list" where
  "event_body event_id workflow_id event_type payload_digest created_at_epoch previous_hash =
    [(''event_id'', JStr event_id),
     (''workflow_id'', JStr workflow_id),
     (''event_type'', JStr event_type),
     (''payload_digest'', JStr payload_digest),
     (''created_at_epoch'', JInt created_at_epoch),
     (''previous_hash'', JStr previous_hash)]"

definition rows_for :: "string \<Rightarrow> event_row list \<Rightarrow> event_row list" where
  "rows_for workflow_id rows = filter (\<lambda>r. er_workflow_id r = workflow_id) rows"

text \<open>\<^verbatim>\<open>SELECT event_hash ... ORDER BY sequence DESC LIMIT 1\<close>, or the genesis hash.\<close>

definition previous_hash_of :: "string \<Rightarrow> event_row list \<Rightarrow> string" where
  "previous_hash_of workflow_id rows = chain_head er_event_hash GENESIS_HASH (rows_for workflow_id rows)"

definition next_sequence :: "event_row list \<Rightarrow> int" where
  "next_sequence rows = (if rows = [] then 1 else er_sequence (last rows) + 1)"

text \<open>The transaction of \<^verbatim>\<open>append_event\<close>.\<close>

definition insert_event ::
  "journal_db \<Rightarrow> string \<Rightarrow> string \<Rightarrow> string \<Rightarrow> string \<Rightarrow> string \<Rightarrow> int \<Rightarrow> bool result \<times> journal_db" where
  "insert_event db event_id workflow_id event_type payload_json payload_digest created_at_epoch =
     (case find (\<lambda>r. er_event_id r = event_id) (jd_events db) of
       Some existing \<Rightarrow>
         if er_workflow_id existing = workflow_id \<and> er_event_type existing = event_type \<and>
            er_payload_digest existing = payload_digest \<and> er_created_at_epoch existing = created_at_epoch
         then (return False, db)
         else (raise_ns ''event_id reused with conflicting content'', db)
     | None \<Rightarrow>
         let previous_hash = previous_hash_of workflow_id (jd_events db);
             event_hash = content_digest (JObj (event_body event_id workflow_id event_type
               payload_digest created_at_epoch previous_hash));
             row = \<lparr>er_sequence = next_sequence (jd_events db), er_event_id = event_id,
               er_workflow_id = workflow_id, er_event_type = event_type, er_payload_json = payload_json,
               er_payload_digest = payload_digest, er_created_at_epoch = created_at_epoch,
               er_previous_hash = previous_hash, er_event_hash = event_hash\<rparr>
         in if \<exists>r \<in> set (jd_events db). er_event_hash r = event_hash then (raise SqliteIntegrityError, db)
            else (return True, db\<lparr>jd_events := jd_events db @ [row]\<rparr>))"

definition append_event ::
  "journal_db \<Rightarrow> string \<Rightarrow> string \<Rightarrow> string \<Rightarrow> (pykey \<times> pyval) list \<Rightarrow> int \<Rightarrow> bool result \<times> journal_db" where
  "append_event db event_id workflow_id event_type payload created_at_epoch =
     checked (nonblank event_id ''event_id'') db (\<lambda>eid.
     checked (nonblank workflow_id ''workflow_id'') db (\<lambda>wf.
     checked (nonblank event_type ''event_type'') db (\<lambda>ty.
     if created_at_epoch < 0 then (raise_ns ''created_at_epoch cannot be negative'', db)
     else checked (canonical_json_py (PyDict payload)) db (\<lambda>payload_json.
     checked (content_digest_py (PyDict payload)) db (\<lambda>payload_digest.
     insert_event db eid wf ty payload_json payload_digest created_at_epoch)))))"

section \<open>Reading, verifying and replaying\<close>

definition decode_row :: "event_row \<Rightarrow> journal_event result" where
  "decode_row row =
     (case loads (er_payload_json row) of
        None \<Rightarrow> raise JSONDecodeError
      | Some payload \<Rightarrow> return
          \<lparr>je_sequence = er_sequence row, je_event_id = er_event_id row, je_workflow_id = er_workflow_id row,
           je_event_type = er_event_type row, je_payload = payload,
           je_created_at_epoch = er_created_at_epoch row, je_previous_hash = er_previous_hash row,
           je_event_hash = er_event_hash row\<rparr>)"

definition journal_events :: "journal_db \<Rightarrow> string \<Rightarrow> journal_event list result" where
  "journal_events db workflow_id =
     and_then (nonblank workflow_id ''workflow_id'') (\<lambda>wf.
     map_result decode_row (rows_for wf (jd_events db)))"

fun verify_events :: "string \<Rightarrow> journal_event list \<Rightarrow> unit result" where
  "verify_events previous_hash [] = return ()"
| "verify_events previous_hash (event # rest) =
     (if je_previous_hash event \<noteq> previous_hash then raise_ns ''journal hash chain is broken''
      else if je_event_hash event \<noteq> content_digest (JObj (event_body (je_event_id event)
                (je_workflow_id event) (je_event_type event) (content_digest (je_payload event))
                (je_created_at_epoch event) previous_hash))
      then raise_ns ''journal event hash mismatch''
      else verify_events (je_event_hash event) rest)"

definition verify_chain :: "journal_db \<Rightarrow> string \<Rightarrow> journal_event list result" where
  "verify_chain db workflow_id =
     and_then (journal_events db workflow_id) (\<lambda>events.
     and_then (verify_events GENESIS_HASH events) (\<lambda>_. return events))"

text \<open>\<^verbatim>\<open>event.payload.get("to_state")\<close>, which must be a string that is not blank.\<close>

definition target_state :: "journal_event \<Rightarrow> string result" where
  "target_state event =
     (case je_payload event of
        JObj kvs \<Rightarrow>
          (case map_of kvs ''to_state'' of
             Some (JStr s) \<Rightarrow>
               if strip s = [] then raise_ns ''state transition lacks to_state'' else return (strip s)
           | _ \<Rightarrow> raise_ns ''state transition lacks to_state'')
      | _ \<Rightarrow> raise (BuiltinAttributeError ''get''))"

fun replay_events :: "string \<Rightarrow> journal_event list \<Rightarrow> string result" where
  "replay_events state [] = return state"
| "replay_events state (event # rest) =
     (if je_event_type event = ''STATE_TRANSITION''
      then and_then (target_state event) (\<lambda>s. replay_events s rest)
      else replay_events state rest)"

definition replay_state :: "journal_db \<Rightarrow> string \<Rightarrow> string \<Rightarrow> string result" where
  "replay_state db workflow_id initial_state =
     and_then (nonblank initial_state ''initial_state'') (\<lambda>state.
     and_then (verify_chain db workflow_id) (\<lambda>events. replay_events state events))"

section \<open>Inbox and outbox\<close>

definition record_inbox ::
  "journal_db \<Rightarrow> string \<Rightarrow> string \<Rightarrow> (pykey \<times> pyval) list \<Rightarrow> bool result \<times> journal_db" where
  "record_inbox db idempotency_key source payload =
     checked (nonblank idempotency_key ''idempotency_key'') db (\<lambda>key.
     checked (nonblank source ''source'') db (\<lambda>src.
     checked (content_digest_py (PyDict payload)) db (\<lambda>digest.
     case jd_inbox db key of
       Some (src', digest') \<Rightarrow>
         if src' = src \<and> digest' = digest then (return False, db)
         else (raise_ns ''inbox idempotency conflict'', db)
     | None \<Rightarrow> (return True, db\<lparr>jd_inbox := (jd_inbox db)(key \<mapsto> (src, digest))\<rparr>))))"

definition enqueue_outbox ::
  "journal_db \<Rightarrow> string \<Rightarrow> string \<Rightarrow> (pykey \<times> pyval) list \<Rightarrow> bool result \<times> journal_db" where
  "enqueue_outbox db idempotency_key action_type payload =
     checked (nonblank idempotency_key ''idempotency_key'') db (\<lambda>key.
     checked (nonblank action_type ''action_type'') db (\<lambda>action.
     checked (canonical_json_py (PyDict payload)) db (\<lambda>payload_json.
     checked (content_digest_py (PyDict payload)) db (\<lambda>digest.
     case find (\<lambda>r. ob_idempotency_key r = key) (jd_outbox db) of
       Some row \<Rightarrow>
         if ob_action_type row = action \<and> ob_payload_digest row = digest then (return False, db)
         else (raise_ns ''outbox idempotency conflict'', db)
     | None \<Rightarrow>
         (return True, db\<lparr>jd_outbox := jd_outbox db @
            [\<lparr>ob_idempotency_key = key, ob_action_type = action, ob_payload_json = payload_json,
              ob_payload_digest = digest, ob_status = PENDING\<rparr>]\<rparr>)))))"

definition decode_outbox :: "outbox_row \<Rightarrow> (string \<times> string \<times> json) result" where
  "decode_outbox row =
     (case loads (ob_payload_json row) of
        None \<Rightarrow> raise JSONDecodeError
      | Some payload \<Rightarrow> return (ob_idempotency_key row, ob_action_type row, payload))"

definition pending_outbox :: "journal_db \<Rightarrow> (string \<times> string \<times> json) list result" where
  "pending_outbox db = map_result decode_outbox (filter (\<lambda>r. ob_status r = PENDING) (jd_outbox db))"

definition mark_outbox_sent :: "journal_db \<Rightarrow> string \<Rightarrow> unit result \<times> journal_db" where
  "mark_outbox_sent db idempotency_key =
     checked (nonblank idempotency_key ''idempotency_key'') db (\<lambda>key.
     let hit = (\<lambda>r. ob_idempotency_key r = key \<and> ob_status r = PENDING) in
     if length (filter hit (jd_outbox db)) \<noteq> 1
     then (raise_ns ''outbox item is missing or already sent'', db)
     else (return (), db\<lparr>jd_outbox := map (\<lambda>r. if hit r then r\<lparr>ob_status := SENT\<rparr> else r) (jd_outbox db)\<rparr>))"

section \<open>The chain of a workflow\<close>

definition event_content :: "journal_event \<Rightarrow> json" where
  "event_content e = JObj (event_body (je_event_id e) (je_workflow_id e) (je_event_type e)
     (content_digest (je_payload e)) (je_created_at_epoch e) (je_previous_hash e))"

definition event_valid :: "journal_event \<Rightarrow> bool" where
  "event_valid e = (je_event_hash e = content_digest (event_content e) \<and> wf_json (je_payload e))"

definition event_clash :: "journal_event \<Rightarrow> journal_event \<Rightarrow> bool" where
  "event_clash e e' = digest_collision (event_content e) (event_content e')"

lemma wf_event_body [simp]: "wf_json (JObj (event_body a b c d e f))"
  by (simp add: event_body_def)

lemma event_body_inject:
  "norm_json (JObj (event_body a b c d e f)) = norm_json (JObj (event_body a' b' c' d' e' f')) \<longleftrightarrow>
     a = a' \<and> b = b' \<and> c = c' \<and> d = d' \<and> e = e' \<and> f = f'"
  by (auto simp: norm_json_JObj_same_keys event_body_def simp del: norm_json.simps(6))

definition event_hashed :: "journal_event \<Rightarrow> string \<times> string \<times> string \<times> string \<times> int \<times> string" where
  "event_hashed e = (je_event_id e, je_workflow_id e, je_event_type e, content_digest (je_payload e),
     je_created_at_epoch e, je_previous_hash e)"

interpretation journal: hash_chain je_previous_hash je_event_hash event_valid event_hashed event_clash
proof unfold_locales
  fix e e'
  show "event_hashed e = event_hashed e' \<Longrightarrow> je_previous_hash e = je_previous_hash e'"
    by (simp add: event_hashed_def)
  assume "event_valid e" "event_valid e'" "je_event_hash e = je_event_hash e'"
  then have "content_digest (event_content e) = content_digest (event_content e')"
    by (simp add: event_valid_def)
  then have "norm_json (event_content e) = norm_json (event_content e') \<or> event_clash e e'"
    unfolding event_clash_def by (intro content_digest_eqD) (simp_all add: event_content_def del: wf_json_simps)
  then show "event_hashed e = event_hashed e' \<or> event_clash e e'"
    by (auto simp: event_content_def event_body_inject event_hashed_def simp del: norm_json.simps(6))
qed

lemma verify_events_linked:
  assumes "\<forall>e \<in> set es. wf_json (je_payload e)"
  shows "verify_events h es = Inr u \<longleftrightarrow> linked je_previous_hash je_event_hash event_valid h es"
  using assms by (induction h es rule: verify_events.induct) (auto simp: event_valid_def event_content_def)

lemma decode_row_Inr:
  "decode_row r = Inr e \<longleftrightarrow> (\<exists>p. loads (er_payload_json r) = Some p \<and>
     e = \<lparr>je_sequence = er_sequence r, je_event_id = er_event_id r, je_workflow_id = er_workflow_id r,
          je_event_type = er_event_type r, je_payload = p, je_created_at_epoch = er_created_at_epoch r,
          je_previous_hash = er_previous_hash r, je_event_hash = er_event_hash r\<rparr>)"
  by (auto simp: decode_row_def split: option.splits)

lemma decode_rows_wf: "map_result decode_row rs = Inr es \<Longrightarrow> e \<in> set es \<Longrightarrow> wf_json (je_payload e)"
  by (rule map_result_normal [of decode_row rs]) (auto simp: decode_row_Inr loads_wf)

lemma verify_chain_Inr:
  "verify_chain db w = Inr es \<longleftrightarrow>
     journal_events db w = Inr es \<and> linked je_previous_hash je_event_hash event_valid GENESIS_HASH es"
  by (auto simp: verify_chain_def journal_events_def verify_events_linked decode_rows_wf)

section \<open>Invariant\<close>

text \<open>Every row decodes to an object payload whose digest is the stored one, event identifiers are
  distinct, and the rows of each workflow are linked from the genesis hash.\<close>

definition row_ok :: "event_row \<Rightarrow> bool" where
  "row_ok r = (is_text (er_event_id r) \<and> is_text (er_workflow_id r) \<and> is_text (er_event_type r) \<and>
     (\<exists>kvs. loads (er_payload_json r) = Some (JObj kvs) \<and> normal_json (JObj kvs) \<and>
        er_payload_digest r = content_digest (JObj kvs)))"

definition chain_of :: "string \<Rightarrow> event_row list \<Rightarrow> journal_event list" where
  "chain_of w rows = map (\<lambda>r. projr (decode_row r)) (rows_for w rows)"

definition journal_inv :: "journal_db \<Rightarrow> bool" where
  "journal_inv db =
     ((\<forall>r \<in> set (jd_events db). row_ok r) \<and> distinct (map er_event_id (jd_events db)) \<and>
      (\<forall>w. linked je_previous_hash je_event_hash event_valid GENESIS_HASH (chain_of w (jd_events db))) \<and>
      distinct (map ob_idempotency_key (jd_outbox db)))"

lemma journal_inv_empty [simp]: "journal_inv empty_journal"
  by (simp add: journal_inv_def empty_journal_def chain_of_def rows_for_def)

lemma rows_for_simps [simp]:
  "rows_for w [] = []"
  "rows_for w (rs @ [r]) = (if er_workflow_id r = w then rows_for w rs @ [r] else rows_for w rs)"
  by (simp_all add: rows_for_def)

lemma set_rows_for [simp]: "r \<in> set (rows_for w rs) \<longleftrightarrow> r \<in> set rs \<and> er_workflow_id r = w"
  by (auto simp: rows_for_def)

lemma chain_of_simps [simp]:
  "chain_of w [] = []"
  "chain_of w (rs @ [r]) =
     (if er_workflow_id r = w then chain_of w rs @ [projr (decode_row r)] else chain_of w rs)"
  by (simp_all add: chain_of_def)

lemma decode_all:
  assumes "\<forall>r \<in> set rs. row_ok r"
  shows "map_result decode_row rs = Inr (map (\<lambda>r. projr (decode_row r)) rs)"
  using assms by (induction rs) (auto simp: row_ok_def decode_row_def)

lemma projr_decode_row:
  "loads (er_payload_json r) = Some p \<Longrightarrow> projr (decode_row r) =
     \<lparr>je_sequence = er_sequence r, je_event_id = er_event_id r, je_workflow_id = er_workflow_id r,
      je_event_type = er_event_type r, je_payload = p, je_created_at_epoch = er_created_at_epoch r,
      je_previous_hash = er_previous_hash r, je_event_hash = er_event_hash r\<rparr>"
  by (simp add: decode_row_def)

lemma journal_events_chain:
  assumes "journal_inv db" "strip w \<noteq> []"
  shows "journal_events db w = Inr (chain_of (strip w) (jd_events db))"
proof -
  have "\<forall>r \<in> set (rows_for (strip w) (jd_events db)). row_ok r" using assms(1) by (simp add: journal_inv_def)
  then show ?thesis using assms(2) by (simp add: journal_events_def nonblank_def decode_all chain_of_def)
qed

lemma verify_chain_chain:
  assumes "journal_inv db" "strip w \<noteq> []"
  shows "verify_chain db w = Inr (chain_of (strip w) (jd_events db))"
  unfolding verify_chain_Inr using journal_events_chain [OF assms] assms(1) by (simp add: journal_inv_def)

lemma chain_head_chain_of:
  assumes "\<forall>r \<in> set rs. row_ok r"
  shows "chain_head je_event_hash GENESIS_HASH (chain_of w rs) = previous_hash_of w rs"
  using assms
proof (induction rs rule: rev_induct)
  case Nil
  then show ?case by (simp add: previous_hash_of_def)
next
  case (snoc r rs)
  then obtain kvs where "loads (er_payload_json r) = Some (JObj kvs)" by (auto simp: row_ok_def)
  with snoc show ?case by (simp add: previous_hash_of_def projr_decode_row)
qed

section \<open>What append_event does\<close>

text \<open>The event a call asks for, given the normal form of its payload.\<close>

definition asked_event :: "journal_db \<Rightarrow> string \<Rightarrow> string \<Rightarrow> string \<Rightarrow> json \<Rightarrow> int \<Rightarrow> journal_event" where
  "asked_event db eid w ty j created =
     (let prev = previous_hash_of w (jd_events db) in
      \<lparr>je_sequence = next_sequence (jd_events db), je_event_id = eid, je_workflow_id = w, je_event_type = ty,
       je_payload = j, je_created_at_epoch = created, je_previous_hash = prev,
       je_event_hash = content_digest (JObj (event_body eid w ty (content_digest j) created prev))\<rparr>)"

lemma loads_normal: "normal_json j \<Longrightarrow> loads (canonical_json j) = Some j"
  using loads_canonical_json [of j] by (simp add: normal_json_def)

lemma append_event_refused:
  assumes "strip event_id = [] \<or> strip wf_id = [] \<or> strip event_type = [] \<or> created < 0 \<or>
    normalize_value (PyDict payload) = Inl err"
  shows "\<exists>e. append_event db event_id wf_id event_type payload created = (Inl e, db)"
proof -
  consider "strip event_id = []" | "strip event_id \<noteq> []" "strip wf_id = []"
    | "strip event_id \<noteq> []" "strip wf_id \<noteq> []" "strip event_type = []"
    | "strip event_id \<noteq> []" "strip wf_id \<noteq> []" "strip event_type \<noteq> []" "created < 0"
    | "strip event_id \<noteq> []" "strip wf_id \<noteq> []" "strip event_type \<noteq> []" "\<not> created < 0"
        "normalize_value (PyDict payload) = Inl err"
    using assms by blast
  then show ?thesis
    by cases (simp_all add: append_event_def nonblank_def canonical_json_py_eq del: normalize_value.simps)
qed

lemma append_event_good:
  assumes "strip event_id \<noteq> []" "strip wf_id \<noteq> []" "strip event_type \<noteq> []" "\<not> created < 0"
    and "normalize_value (PyDict payload) = Inr j"
  shows "append_event db event_id wf_id event_type payload created =
    insert_event db (strip event_id) (strip wf_id) (strip event_type) (canonical_json j) (content_digest j) created"
  using assms by (simp add: append_event_def nonblank_def canonical_json_py_eq content_digest_py_eq
      del: normalize_value.simps)

lemma append_event_cases:
  obtains (refused) e where "append_event db event_id wf_id event_type payload created = (Inl e, db)"
  | (duplicate) row j where "append_event db event_id wf_id event_type payload created = (Inr False, db)"
      "row \<in> set (jd_events db)" "er_event_id row = strip event_id" "er_workflow_id row = strip wf_id"
      "er_event_type row = strip event_type" "er_created_at_epoch row = created"
      "normalize_value (PyDict payload) = Inr j" "er_payload_digest row = content_digest j"
  | (appended) row j where
      "append_event db event_id wf_id event_type payload created = (Inr True, db\<lparr>jd_events := jd_events db @ [row]\<rparr>)"
      "normalize_value (PyDict payload) = Inr j" "0 \<le> created"
      "is_text (strip event_id)" "is_text (strip wf_id)" "is_text (strip event_type)"
      "strip event_id \<notin> er_event_id ` set (jd_events db)"
      "er_payload_json row = canonical_json j" "er_payload_digest row = content_digest j"
      "projr (decode_row row) = asked_event db (strip event_id) (strip wf_id) (strip event_type) j created"
      "er_workflow_id row = strip wf_id" "er_event_id row = strip event_id" "er_event_type row = strip event_type"
      "er_created_at_epoch row = created"
proof -
  let ?call = "append_event db event_id wf_id event_type payload created"
  consider (bad) e where "?call = (Inl e, db)"
    | (good) j where "strip event_id \<noteq> []" "strip wf_id \<noteq> []" "strip event_type \<noteq> []" "\<not> created < 0"
        "normalize_value (PyDict payload) = Inr j"
    using append_event_refused [where db = db and event_id = event_id and wf_id = wf_id and event_type = event_type
        and created = created and payload = payload] by (metis sum.exhaust)
  then show thesis
  proof cases
    case good
    note call = append_event_good [OF good, of db]
    show thesis
    proof (cases "find (\<lambda>r. er_event_id r = strip event_id) (jd_events db)")
      case (Some row)
      then have "row \<in> set (jd_events db) \<and> er_event_id row = strip event_id" by (auto simp: find_Some_iff)
      with good Some refused duplicate [of row j] show thesis
        unfolding call
        by (cases "er_workflow_id row = strip wf_id \<and> er_event_type row = strip event_type \<and>
              er_payload_digest row = content_digest j \<and> er_created_at_epoch row = created")
          (simp_all add: insert_event_def del: normalize_value.simps)
    next
      case None
      then have fresh: "strip event_id \<notin> er_event_id ` set (jd_events db)" by (auto simp: find_None_iff)
      let ?row = "\<lparr>er_sequence = next_sequence (jd_events db), er_event_id = strip event_id,
          er_workflow_id = strip wf_id, er_event_type = strip event_type, er_payload_json = canonical_json j,
          er_payload_digest = content_digest j, er_created_at_epoch = created,
          er_previous_hash = previous_hash_of (strip wf_id) (jd_events db),
          er_event_hash = content_digest (JObj (event_body (strip event_id) (strip wf_id) (strip event_type)
            (content_digest j) created (previous_hash_of (strip wf_id) (jd_events db))))\<rparr>"
      have res: "?call = (if \<exists>r \<in> set (jd_events db). er_event_hash r = er_event_hash ?row
          then (raise SqliteIntegrityError, db) else (Inr True, db\<lparr>jd_events := jd_events db @ [?row]\<rparr>))"
        unfolding call using None by (simp add: insert_event_def Let_def)
      have "loads (canonical_json j) = Some j"
        using normalize_value_normal [OF good(5)] by (rule loads_normal)
      then have dec: "projr (decode_row ?row) = asked_event db (strip event_id) (strip wf_id) (strip event_type) j created"
        by (simp add: decode_row_def asked_event_def Let_def)
      show thesis
      proof (cases "\<exists>r \<in> set (jd_events db). er_event_hash r = er_event_hash ?row")
        case True
        show thesis by (rule refused) (use res True in simp)
      next
        case False
        show thesis
          by (rule appended [of ?row j])
            (use res False good fresh dec in \<open>simp_all add: is_text_def del: normalize_value.simps\<close>)
      qed
    qed
  qed (use refused in blast)
qed

lemma asked_event_valid: "normal_json j \<Longrightarrow> event_valid (asked_event db eid w ty j created)"
  by (simp add: event_valid_def asked_event_def Let_def event_content_def normal_json_def)

lemma asked_event_prev [simp]:
  "je_previous_hash (asked_event db eid w ty j created) = previous_hash_of w (jd_events db)"
  by (simp add: asked_event_def Let_def)

lemma append_event_chain:
  assumes "append_event db event_id wf_id event_type payload created = (Inr True, db')"
  shows "\<exists>j. normalize_value (PyDict payload) = Inr j \<and>
    (\<forall>w. chain_of w (jd_events db') = (if w = strip wf_id
      then chain_of w (jd_events db) @ [asked_event db (strip event_id) (strip wf_id) (strip event_type) j created]
      else chain_of w (jd_events db)))"
  by (rule append_event_cases [of db event_id wf_id event_type payload created])
    (use assms in \<open>auto simp del: normalize_value.simps\<close>)

lemma journal_inv_snoc:
  assumes "journal_inv db" "row_ok row" "er_event_id row \<notin> er_event_id ` set (jd_events db)" "normal_json j"
    and "projr (decode_row row) = asked_event db eid (er_workflow_id row) ty j created"
  shows "journal_inv (db\<lparr>jd_events := jd_events db @ [row]\<rparr>)"
proof -
  have "linked je_previous_hash je_event_hash event_valid GENESIS_HASH (chain_of w (jd_events db @ [row]))" for w
  proof (cases "w = er_workflow_id row")
    case True
    have "\<forall>r \<in> set (jd_events db). row_ok r" using assms(1) by (simp add: journal_inv_def)
    then have "chain_head je_event_hash GENESIS_HASH (chain_of w (jd_events db)) = previous_hash_of w (jd_events db)"
      by (rule chain_head_chain_of)
    then show ?thesis using True assms asked_event_valid [OF assms(4)]
      by (simp add: linked_snoc journal_inv_def)
  qed (use assms in \<open>simp add: journal_inv_def\<close>)
  then show ?thesis using assms by (simp add: journal_inv_def)
qed

lemma append_event_inv:
  assumes "journal_inv db"
  shows "journal_inv (snd (append_event db event_id wf_id event_type payload created))"
proof (rule append_event_cases [of db event_id wf_id event_type payload created], goal_cases)
  case (3 row j)
  have n: "normal_json j" using normalize_value_normal [OF 3(2)] .
  obtain kvs where kvs: "j = JObj kvs" using normalize_dict_is_obj [OF 3(2)] by blast
  have "row_ok row" unfolding row_ok_def 3 using 3 n loads_normal [OF n] kvs by auto
  from journal_inv_snoc [OF assms this _ n, of "strip event_id" "strip event_type" created] 3 show ?case
    by (simp del: normalize_value.simps)
qed (use assms in simp_all)

lemma record_inbox_events: "jd_events (snd (record_inbox db k s p)) = jd_events db"
    "jd_outbox (snd (record_inbox db k s p)) = jd_outbox db"
  by (auto simp: record_inbox_def checked_def split: sum.splits option.splits)

lemma enqueue_outbox_events: "jd_events (snd (enqueue_outbox db k a p)) = jd_events db"
  by (auto simp: enqueue_outbox_def checked_def split: sum.splits option.splits)

lemma mark_outbox_sent_events: "jd_events (snd (mark_outbox_sent db k)) = jd_events db"
  by (auto simp: mark_outbox_sent_def checked_def Let_def split: sum.splits)

lemma enqueue_outbox_keys:
  assumes "distinct (map ob_idempotency_key (jd_outbox db))"
  shows "distinct (map ob_idempotency_key (jd_outbox (snd (enqueue_outbox db k a p))))"
  using assms
  by (auto simp: enqueue_outbox_def checked_def find_None_iff split: sum.splits option.splits)

lemma mark_outbox_sent_keys:
  "map ob_idempotency_key (jd_outbox (snd (mark_outbox_sent db k))) = map ob_idempotency_key (jd_outbox db)"
  by (auto simp: mark_outbox_sent_def checked_def Let_def split: sum.splits)

lemma journal_inv_same_events:
  "jd_events db' = jd_events db \<Longrightarrow> distinct (map ob_idempotency_key (jd_outbox db')) \<Longrightarrow>
     journal_inv db \<Longrightarrow> journal_inv db'"
  by (simp add: journal_inv_def)

section \<open>Histories\<close>

datatype journal_call =
    AppendEvent string string string "(pykey \<times> pyval) list" int
  | RecordInbox string string "(pykey \<times> pyval) list"
  | EnqueueOutbox string string "(pykey \<times> pyval) list"
  | MarkOutboxSent string

fun journal_exec :: "journal_call \<Rightarrow> journal_db \<Rightarrow> journal_db" where
  "journal_exec (AppendEvent i w t p c) db = snd (append_event db i w t p c)"
| "journal_exec (RecordInbox k s p) db = snd (record_inbox db k s p)"
| "journal_exec (EnqueueOutbox k a p) db = snd (enqueue_outbox db k a p)"
| "journal_exec (MarkOutboxSent k) db = snd (mark_outbox_sent db k)"

definition journal_run :: "journal_call list \<Rightarrow> journal_db \<Rightarrow> journal_db" where
  "journal_run calls db = fold journal_exec calls db"

lemma journal_exec_inv:
  assumes "journal_inv db"
  shows "journal_inv (journal_exec c db)"
proof -
  have keys: "distinct (map ob_idempotency_key (jd_outbox db))" using assms by (simp add: journal_inv_def)
  show ?thesis
  proof (cases c)
    case (AppendEvent i w t p e)
    then show ?thesis using append_event_inv [OF assms] by simp
  next
    case (RecordInbox k s p)
    then show ?thesis using assms keys
      by (intro journal_inv_same_events [OF _ _ assms]) (simp_all add: record_inbox_events)
  next
    case (EnqueueOutbox k a p)
    then show ?thesis using assms keys
      by (intro journal_inv_same_events [OF _ _ assms]) (simp_all add: enqueue_outbox_events enqueue_outbox_keys)
  next
    case (MarkOutboxSent k)
    then show ?thesis using assms keys
      by (intro journal_inv_same_events [OF _ _ assms]) (simp_all add: mark_outbox_sent_events mark_outbox_sent_keys)
  qed
qed

lemma journal_run_inv: "journal_inv db \<Longrightarrow> journal_inv (journal_run calls db)"
  unfolding journal_run_def by (induction calls arbitrary: db) (auto simp: journal_exec_inv)

text \<open>Rows of \<^verbatim>\<open>events\<close> are never removed or changed.\<close>

lemma append_event_rows: "set (jd_events db) \<subseteq> set (jd_events (snd (append_event db i w t p c)))"
  by (rule append_event_cases [of db i w t p c]) auto

lemma journal_exec_rows: "set (jd_events db) \<subseteq> set (jd_events (journal_exec c db))"
  by (cases c) (simp_all add: append_event_rows record_inbox_events enqueue_outbox_events mark_outbox_sent_events)

lemma journal_run_rows: "set (jd_events db) \<subseteq> set (jd_events (journal_run calls db))"
  unfolding journal_run_def
proof (induction calls arbitrary: db)
  case (Cons c calls)
  then show ?case using journal_exec_rows [of db c] by fastforce
qed simp

lemma find_distinct:
  assumes "distinct (map f xs)" "x \<in> set xs"
  shows "find (\<lambda>y. f y = f x) xs = Some x"
  using assms by (induction xs) (auto simp: image_iff)

lemma append_event_leaves_row:
  assumes "append_event db i w t p c = (Inr b, db')"
  shows "\<exists>row j. row \<in> set (jd_events db') \<and> er_event_id row = strip i \<and> er_workflow_id row = strip w \<and>
    er_event_type row = strip t \<and> er_created_at_epoch row = c \<and> normalize_value (PyDict p) = Inr j \<and>
    er_payload_digest row = content_digest j \<and> strip i \<noteq> [] \<and> strip w \<noteq> [] \<and> strip t \<noteq> [] \<and> 0 \<le> c"
proof (rule append_event_cases [of db i w t p c], goal_cases)
  case (2 row j)
  have "\<not> (strip i = [] \<or> strip w = [] \<or> strip t = [] \<or> c < 0)"
    using append_event_refused [where db = db and event_id = i and wf_id = w and event_type = t
        and created = c and payload = p] 2(1) by fastforce
  then show ?case using 2 assms by (intro exI [of _ row] exI [of _ j]) auto
next
  case (3 row j)
  then show ?case using assms by (intro exI [of _ row] exI [of _ j]) (auto simp: is_text_def)
qed (use assms in simp)

lemma append_event_known:
  assumes "journal_inv db" "row \<in> set (jd_events db)" "er_event_id row = strip i"
    and "strip i \<noteq> []" "strip w \<noteq> []" "strip t \<noteq> []" "0 \<le> c" "normalize_value (PyDict p) = Inr j"
  shows "append_event db i w t p c =
    (if er_workflow_id row = strip w \<and> er_event_type row = strip t \<and> er_payload_digest row = content_digest j \<and>
        er_created_at_epoch row = c
     then (Inr False, db) else (raise_ns ''event_id reused with conflicting content'', db))"
proof -
  have "find (\<lambda>r. er_event_id r = strip i) (jd_events db) = Some row"
    using find_distinct [of er_event_id "jd_events db" row] assms(1-3) by (simp add: journal_inv_def)
  then show ?thesis using append_event_good [OF assms(4-6) _ assms(8)] assms(7) by (simp add: insert_event_def)
qed

text \<open>An outbox item that was sent stays sent.\<close>

definition sent_item :: "string \<Rightarrow> journal_db \<Rightarrow> bool" where
  "sent_item key db = (\<exists>r \<in> set (jd_outbox db). ob_idempotency_key r = key \<and> ob_status r = SENT)"

lemma sent_item_exec:
  assumes "sent_item key db"
  shows "sent_item key (journal_exec c db)"
proof -
  obtain r where r: "r \<in> set (jd_outbox db)" "ob_idempotency_key r = key" "ob_status r = SENT"
    using assms by (auto simp: sent_item_def)
  have "r \<in> set (jd_outbox (journal_exec c db))"
  proof (cases c)
    case (AppendEvent i w t p e)
    have "jd_outbox (snd (append_event db i w t p e)) = jd_outbox db"
      by (rule append_event_cases [of db i w t p e]) auto
    then show ?thesis using AppendEvent r by simp
  next
    case (EnqueueOutbox k a p)
    then show ?thesis using r
      by (auto simp: enqueue_outbox_def checked_def split: sum.splits option.splits)
  next
    case (MarkOutboxSent k)
    then show ?thesis using r
      by (force simp: mark_outbox_sent_def checked_def Let_def image_iff split: sum.splits)
  qed (simp add: r record_inbox_events)
  then show ?thesis using r by (auto simp: sent_item_def)
qed

lemma sent_item_run: "sent_item key db \<Longrightarrow> sent_item key (journal_run calls db)"
  unfolding journal_run_def by (induction calls arbitrary: db) (auto simp: sent_item_exec)

lemma same_key_unique: "distinct (map f xs) \<Longrightarrow> x \<in> set xs \<Longrightarrow> y \<in> set xs \<Longrightarrow> f x = f y \<Longrightarrow> x = y"
  by (auto simp: distinct_map dest: inj_onD)

lemma sent_item_not_pending:
  assumes "journal_inv db" "sent_item key db" "r \<in> set (jd_outbox db)" "ob_idempotency_key r = key"
  shows "ob_status r = SENT"
proof -
  obtain r' where r': "r' \<in> set (jd_outbox db)" "ob_idempotency_key r' = key" "ob_status r' = SENT"
    using assms(2) by (auto simp: sent_item_def)
  have "r = r'" using assms r' by (intro same_key_unique [of ob_idempotency_key "jd_outbox db"]) (simp_all add: journal_inv_def)
  with r' show ?thesis by simp
qed

lemma mark_outbox_sent_marks:
  assumes "mark_outbox_sent db k = (Inr (), db')"
  shows "sent_item (strip k) db'" and "strip k \<noteq> []"
proof -
  let ?hit = "\<lambda>r. ob_idempotency_key r = strip k \<and> ob_status r = PENDING"
  show k: "strip k \<noteq> []" using assms by (auto simp: mark_outbox_sent_def nonblank_def)
  then have "length (filter ?hit (jd_outbox db)) = 1"
    and db': "db' = db\<lparr>jd_outbox := map (\<lambda>r. if ?hit r then r\<lparr>ob_status := SENT\<rparr> else r) (jd_outbox db)\<rparr>"
    using assms by (auto simp: mark_outbox_sent_def nonblank_def Let_def split: if_splits)
  then have "filter ?hit (jd_outbox db) \<noteq> []" by (metis length_0_conv zero_neq_one)
  then obtain r where "r \<in> set (jd_outbox db)" "?hit r" unfolding filter_empty_conv by blast
  then show "sent_item (strip k) db'" unfolding db' sent_item_def
    by (intro bexI [of _ "r\<lparr>ob_status := SENT\<rparr>"]) (auto simp: image_iff intro!: bexI [of _ r])
qed

section \<open>Properties\<close>

text \<open>C18: Appending extends the verified chain. In every reachable journal the chain of each
  workflow verifies; an append that returns true puts exactly one event at the end of its
  workflow's chain, with the given identifiers, the normal form of the payload and a hash that
  links it, and leaves the chains of all other workflows as they were.\<close>

theorem append_event_extends_chain:
  assumes "db = journal_run calls empty_journal" and "append_event db i w t p c = (return True, db')"
  shows "\<exists>j es e. normalize_value (PyDict p) = return j \<and>
    verify_chain db w = return es \<and> verify_chain db' w = return (es @ [e]) \<and>
    je_event_id e = strip i \<and> je_workflow_id e = strip w \<and> je_event_type e = strip t \<and>
    je_payload e = j \<and> je_created_at_epoch e = c \<and>
    je_previous_hash e = chain_head je_event_hash GENESIS_HASH es \<and>
    (\<forall>w'. strip w' \<noteq> strip w \<longrightarrow> verify_chain db' w' = verify_chain db w')"
proof -
  have inv: "journal_inv db" unfolding assms(1) by (rule journal_run_inv) simp
  have inv': "journal_inv db'" using append_event_inv [OF inv, of i w t p c] assms(2) by simp
  obtain j where j: "normalize_value (PyDict p) = Inr j"
    and ch: "\<And>x. chain_of x (jd_events db') = (if x = strip w
        then chain_of x (jd_events db) @ [asked_event db (strip i) (strip w) (strip t) j c]
        else chain_of x (jd_events db))"
    using append_event_chain [OF assms(2)] by blast
  have w: "strip w \<noteq> []" using append_event_leaves_row [OF assms(2)] by blast
  let ?es = "chain_of (strip w) (jd_events db)" and ?e = "asked_event db (strip i) (strip w) (strip t) j c"
  have "verify_chain db' w' = verify_chain db w'" if "strip w' \<noteq> strip w" for w'
  proof (cases "strip w' = []")
    case True
    then show ?thesis by (simp add: verify_chain_def journal_events_def nonblank_def)
  qed (use that in \<open>simp add: verify_chain_chain inv inv' ch\<close>)
  moreover have "chain_head je_event_hash GENESIS_HASH ?es = je_previous_hash ?e"
    using chain_head_chain_of [of "jd_events db"] inv by (simp add: journal_inv_def)
  ultimately show ?thesis
    using verify_chain_chain [OF inv w] verify_chain_chain [OF inv' w] ch [of "strip w"] j
    by (intro exI [of _ j] exI [of _ ?es] exI [of _ ?e]) (simp add: asked_event_def Let_def del: normalize_value.simps)
qed

text \<open>Append is idempotent for ever. After an append that returned, repeating it in any later
  state of the journal returns false and changes nothing, and using its event identifier for another
  workflow, type or time is refused.\<close>

theorem append_event_idempotent:
  assumes "append_event (journal_run calls empty_journal) i w t p c = (return b, db')"
    and "db = journal_run later db'"
  shows "append_event db i w t p c = (return False, db) \<and>
    (\<forall>w' t' c' p' j'. (strip w', strip t', c') \<noteq> (strip w, strip t, c) \<longrightarrow> strip w' \<noteq> [] \<longrightarrow> strip t' \<noteq> [] \<longrightarrow>
       0 \<le> c' \<longrightarrow> normalize_value (PyDict p') = return j' \<longrightarrow>
       append_event db i w' t' p' c' = (raise_ns ''event_id reused with conflicting content'', db))"
proof -
  have inv0: "journal_inv (journal_run calls empty_journal)" by (rule journal_run_inv) simp
  have inv: "journal_inv db"
    unfolding assms(2) using append_event_inv [OF inv0, of i w t p c] assms(1) by (simp add: journal_run_inv)
  obtain row j where row: "row \<in> set (jd_events db')" "er_event_id row = strip i" "er_workflow_id row = strip w"
      "er_event_type row = strip t" "er_created_at_epoch row = c" "normalize_value (PyDict p) = Inr j"
      "er_payload_digest row = content_digest j" "strip i \<noteq> []" "strip w \<noteq> []" "strip t \<noteq> []" "0 \<le> c"
    using append_event_leaves_row [OF assms(1)] by blast
  have r: "row \<in> set (jd_events db)" unfolding assms(2) using journal_run_rows row(1) by blast
  note known = append_event_known [OF inv r row(2,8)]
  have same: "append_event db i w t p c = (return False, db)" using known [OF row(9,10,11,6)] row by simp
  have other: "append_event db i w' t' p' c' = (raise_ns ''event_id reused with conflicting content'', db)"
    if "(strip w', strip t', c') \<noteq> (strip w, strip t, c)" "strip w' \<noteq> []" "strip t' \<noteq> []" "0 \<le> c'"
      "normalize_value (PyDict p') = Inr j'" for w' t' c' p' j'
    unfolding known [OF that(2-5)] using that(1) row by auto
  from same other show ?thesis by blast
qed

text \<open>C19: The journal is tamper evident. If the chains of a workflow verify in any two database
  files, however they came about, and end in the same event hash, then they hold the same events
  (identifiers, types, payload digests, times and order), or two of their events exhibit a SHA-256
  collision, or an event hashes to the genesis value.\<close>

theorem journal_tamper_evident:
  assumes "verify_chain db w = return es" and "verify_chain db' w = return es'"
    and "chain_head je_event_hash GENESIS_HASH es = chain_head je_event_hash GENESIS_HASH es'"
  shows "map event_hashed es = map event_hashed es' \<or>
    (\<exists>e \<in> set es. \<exists>e' \<in> set es'. digest_collision (event_content e) (event_content e')) \<or>
    (\<exists>e \<in> set es \<union> set es'. je_event_hash e = GENESIS_HASH)"
  using journal.tamper_evident [of GENESIS_HASH es es'] assms unfolding verify_chain_Inr event_clash_def by blast

text \<open>An outbox item is sent at most once. After \<^verbatim>\<open>mark_outbox_sent\<close> returned for a key, in
  every later state marking it again raises, it is not among the pending items, and no enqueue
  makes it pending again.\<close>

theorem outbox_sent_once:
  assumes "mark_outbox_sent (journal_run calls empty_journal) k = (return (), db')"
    and "db = journal_run later db'"
  shows "mark_outbox_sent db k = (raise_ns ''outbox item is missing or already sent'', db) \<and>
    (\<forall>items. pending_outbox db = return items \<longrightarrow> strip k \<notin> fst ` set items) \<and>
    (\<forall>a p. fst (enqueue_outbox db k a p) \<noteq> return True)"
proof -
  have inv0: "journal_inv (journal_run calls empty_journal)" by (rule journal_run_inv) simp
  then have inv': "journal_inv db'"
    using journal_exec_inv [OF inv0, of "MarkOutboxSent k"] assms(1) by simp
  have inv: "journal_inv db" unfolding assms(2) by (rule journal_run_inv [OF inv'])
  have sent: "sent_item (strip k) db"
    unfolding assms(2) by (rule sent_item_run) (rule mark_outbox_sent_marks(1) [OF assms(1)])
  have k: "strip k \<noteq> []" by (rule mark_outbox_sent_marks(2) [OF assms(1)])
  note none = sent_item_not_pending [OF inv sent]
  have "filter (\<lambda>r. ob_idempotency_key r = strip k \<and> ob_status r = PENDING) (jd_outbox db) = []"
    using none by (auto simp: filter_empty_conv)
  then have "mark_outbox_sent db k = (raise_ns ''outbox item is missing or already sent'', db)"
    using k by (simp add: mark_outbox_sent_def nonblank_def)
  moreover have "strip k \<notin> fst ` set items" if "pending_outbox db = Inr items" for items
  proof
    assume "strip k \<in> fst ` set items"
    then obtain it where it: "it \<in> set items" "fst it = strip k" by auto
    let ?pending = "filter (\<lambda>r. ob_status r = PENDING) (jd_outbox db)"
    have "\<exists>r \<in> set ?pending. decode_outbox r = Inr it"
      by (rule map_result_normal [OF that [unfolded pending_outbox_def] _ it(1)]) blast
    then obtain r where "r \<in> set ?pending" "decode_outbox r = Inr it" by blast
    with it(2) none [of r] show False by (auto simp: decode_outbox_def split: option.splits)
  qed
  moreover have "fst (enqueue_outbox db k a p) \<noteq> Inr True" for a p
  proof -
    obtain r where "r \<in> set (jd_outbox db)" "ob_idempotency_key r = strip k"
      using sent by (auto simp: sent_item_def)
    then have "find (\<lambda>r. ob_idempotency_key r = strip k) (jd_outbox db) \<noteq> None" by (auto simp: find_None_iff)
    then show ?thesis by (auto simp: enqueue_outbox_def nonblank_Inr split: option.splits if_splits)
  qed
  ultimately show ?thesis by blast
qed

section \<open>Witnesses\<close>

definition sample_payload :: "(pykey \<times> pyval) list" where
  "sample_payload = [(KStr ''n'', PyInt 7)]"

lemma normalize_sample: "normalize_value (PyDict sample_payload) = return (JObj [(''n'', JInt 7)])"
  by (simp add: sample_payload_def dict_of_def)

definition one_event_row :: event_row where
  "one_event_row =
    (let d = content_digest (JObj [(''n'', JInt 7)]) in
     \<lparr>er_sequence = 1, er_event_id = ''e'', er_workflow_id = ''w'', er_event_type = ''NOTE'',
      er_payload_json = canonical_json (JObj [(''n'', JInt 7)]), er_payload_digest = d, er_created_at_epoch = 5,
      er_previous_hash = GENESIS_HASH,
      er_event_hash = content_digest (JObj (event_body ''e'' ''w'' ''NOTE'' d 5 GENESIS_HASH))\<rparr>)"

definition one_event_journal :: journal_db where
  "one_event_journal = \<lparr>jd_events = [one_event_row], jd_inbox = Map.empty, jd_outbox = []\<rparr>"

lemma journal_words: "strip ''e'' = ''e''" "strip ''w'' = ''w''" "strip ''NOTE'' = ''NOTE''" "strip ''k'' = ''k''" "strip ''a'' = ''a''"
  by (simp_all add: strip_def is_space_def)

lemma sample_append:
  "append_event (journal_run [] empty_journal) ''e'' ''w'' ''NOTE'' sample_payload 5 = (return True, one_event_journal)"
  by (simp add: append_event_good [OF _ _ _ _ normalize_sample] journal_words journal_run_def insert_event_def Let_def
      empty_journal_def previous_hash_of_def next_sequence_def one_event_journal_def one_event_row_def)

lemma append_event_extends_chain_witness:
  "\<exists>e. verify_chain one_event_journal ''w'' = return [e] \<and> je_payload e = JObj [(''n'', JInt 7)]"
proof -
  have "verify_chain empty_journal ''w'' = return []"
    by (simp add: verify_chain_def journal_events_def nonblank_def journal_words empty_journal_def rows_for_def)
  then show ?thesis
    using append_event_extends_chain [OF refl sample_append] normalize_sample
    by (auto simp: journal_run_def simp del: normalize_value.simps)
qed

lemma append_event_idempotent_witness:
  "append_event one_event_journal ''e'' ''w'' ''NOTE'' sample_payload 5 = (return False, one_event_journal)"
  using append_event_idempotent [OF sample_append, of one_event_journal "[]"] by (simp add: journal_run_def)

lemma journal_tamper_evident_witness:
  "\<exists>es. verify_chain one_event_journal ''w'' = return es \<and> map event_hashed es = map event_hashed es"
proof -
  have "journal_inv one_event_journal"
    using append_event_inv [OF journal_run_inv [of empty_journal "[]"], of "''e''" "''w''" "''NOTE''" sample_payload 5] sample_append by simp
  then have "verify_chain one_event_journal ''w'' = return (chain_of ''w'' (jd_events one_event_journal))"
    using verify_chain_chain [of one_event_journal "''w''"] by (simp add: journal_words)
  then show ?thesis using journal_tamper_evident [OF _ _ refl] by blast
qed

definition sent_journal :: journal_db where
  "sent_journal = \<lparr>jd_events = [], jd_inbox = Map.empty,
     jd_outbox = [\<lparr>ob_idempotency_key = ''k'', ob_action_type = ''a'',
       ob_payload_json = canonical_json (JObj [(''n'', JInt 7)]), ob_payload_digest = content_digest (JObj [(''n'', JInt 7)]),
       ob_status = SENT\<rparr>]\<rparr>"

lemma sample_sent: "mark_outbox_sent (journal_run [EnqueueOutbox ''k'' ''a'' sample_payload] empty_journal) ''k'' = (return (), sent_journal)"
  by (simp add: journal_run_def enqueue_outbox_def mark_outbox_sent_def nonblank_def journal_words canonical_json_py_eq
      content_digest_py_eq normalize_sample empty_journal_def sent_journal_def Let_def del: normalize_value.simps)

lemma outbox_sent_once_witness:
  "mark_outbox_sent sent_journal ''k'' = (raise_ns ''outbox item is missing or already sent'', sent_journal)"
  using outbox_sent_once [OF sample_sent, of sent_journal "[]"] by (simp add: journal_run_def)

end
