(* ===== verification/NS_State_Machine.thy ===== *)
theory NS_State_Machine
  imports NS_Contracts
begin

text \<open>
  The workflow state machine, \<^verbatim>\<open>core/night_shift/state_machine.py\<close>: the phases, the tables of
  normal, control and recovery moves, \<^verbatim>\<open>parse_phase\<close>, \<^verbatim>\<open>require_transition\<close> and
  \<^verbatim>\<open>require_initial_phase\<close>; then the step relation the tables define and what is reachable in it.
\<close>

section \<open>Phases and tables\<close>

datatype phase =
    DISCOVERED | LIVE_STATE_VERIFIED | READY | LEASED | RUNNING | VALIDATING | FROZEN
  | READY_FOR_REVIEW | REVIEWED_PASS | SIGNED_OR_ATTESTED | CI_PENDING | READY_FOR_PROMOTION
  | READY_FOR_HUMAN | LANDING | POST_LANDING_VERIFY | CLOSED_PASS | WAITING_EXTERNAL | BLOCKED
  | BLOCKED_BY | FAILED | QUARANTINED | SUPERSEDED | PAUSED

definition all_phases :: "phase list" where
  "all_phases =
    [DISCOVERED, LIVE_STATE_VERIFIED, READY, LEASED, RUNNING, VALIDATING, FROZEN,
     READY_FOR_REVIEW, REVIEWED_PASS, SIGNED_OR_ATTESTED, CI_PENDING, READY_FOR_PROMOTION,
     READY_FOR_HUMAN, LANDING, POST_LANDING_VERIFY, CLOSED_PASS, WAITING_EXTERNAL, BLOCKED,
     BLOCKED_BY, FAILED, QUARANTINED, SUPERSEDED, PAUSED]"

fun phase_value :: "phase \<Rightarrow> string" where
  "phase_value DISCOVERED = ''DISCOVERED''"
| "phase_value LIVE_STATE_VERIFIED = ''LIVE_STATE_VERIFIED''"
| "phase_value READY = ''READY''"
| "phase_value LEASED = ''LEASED''"
| "phase_value RUNNING = ''RUNNING''"
| "phase_value VALIDATING = ''VALIDATING''"
| "phase_value FROZEN = ''FROZEN''"
| "phase_value READY_FOR_REVIEW = ''READY_FOR_REVIEW''"
| "phase_value REVIEWED_PASS = ''REVIEWED_PASS''"
| "phase_value SIGNED_OR_ATTESTED = ''SIGNED_OR_ATTESTED''"
| "phase_value CI_PENDING = ''CI_PENDING''"
| "phase_value READY_FOR_PROMOTION = ''READY_FOR_PROMOTION''"
| "phase_value READY_FOR_HUMAN = ''READY_FOR_HUMAN''"
| "phase_value LANDING = ''LANDING''"
| "phase_value POST_LANDING_VERIFY = ''POST_LANDING_VERIFY''"
| "phase_value CLOSED_PASS = ''CLOSED_PASS''"
| "phase_value WAITING_EXTERNAL = ''WAITING_EXTERNAL''"
| "phase_value BLOCKED = ''BLOCKED''"
| "phase_value BLOCKED_BY = ''BLOCKED_BY''"
| "phase_value FAILED = ''FAILED''"
| "phase_value QUARANTINED = ''QUARANTINED''"
| "phase_value SUPERSEDED = ''SUPERSEDED''"
| "phase_value PAUSED = ''PAUSED''"

text \<open>\<^verbatim>\<open>_NORMAL_NEXT.get(source, frozenset())\<close>.\<close>

fun normal_next :: "phase \<Rightarrow> phase list" where
  "normal_next DISCOVERED = [LIVE_STATE_VERIFIED]"
| "normal_next LIVE_STATE_VERIFIED = [READY]"
| "normal_next READY = [LEASED]"
| "normal_next LEASED = [RUNNING]"
| "normal_next RUNNING = [VALIDATING]"
| "normal_next VALIDATING = [FROZEN]"
| "normal_next FROZEN = [READY_FOR_REVIEW]"
| "normal_next READY_FOR_REVIEW = [REVIEWED_PASS]"
| "normal_next REVIEWED_PASS = [SIGNED_OR_ATTESTED]"
| "normal_next SIGNED_OR_ATTESTED = [CI_PENDING]"
| "normal_next CI_PENDING = [READY_FOR_PROMOTION]"
| "normal_next READY_FOR_PROMOTION = [READY_FOR_HUMAN, LANDING]"
| "normal_next READY_FOR_HUMAN = [LANDING]"
| "normal_next LANDING = [POST_LANDING_VERIFY]"
| "normal_next POST_LANDING_VERIFY = [CLOSED_PASS]"
| "normal_next _ = []"

definition control_targets :: "phase list" where
  "control_targets = [WAITING_EXTERNAL, BLOCKED, BLOCKED_BY, FAILED, QUARANTINED, SUPERSEDED, PAUSED]"

fun recovery_next :: "phase \<Rightarrow> phase list" where
  "recovery_next WAITING_EXTERNAL = [READY]"
| "recovery_next BLOCKED = [READY]"
| "recovery_next BLOCKED_BY = [READY]"
| "recovery_next PAUSED = [READY]"
| "recovery_next _ = []"

definition terminal_phases :: "phase list" where
  "terminal_phases = [CLOSED_PASS, FAILED, QUARANTINED, SUPERSEDED]"

section \<open>Operations\<close>

text \<open>\<^verbatim>\<open>WorkflowPhase(value.strip())\<close>: the member with that value. The message holds the \<^verbatim>\<open>repr\<close>
  of the value.\<close>

definition parse_phase :: "string \<Rightarrow> phase result" where
  "parse_phase value =
     (case filter (\<lambda>p. phase_value p = strip value) all_phases of
        p # _ \<Rightarrow> return p
      | [] \<Rightarrow> raise_ns (''unknown workflow phase: '' @ repr_str value))"

definition allowed_next :: "phase \<Rightarrow> phase list" where
  "allowed_next source =
     normal_next source @ recovery_next source @
     (if source \<notin> set control_targets then control_targets else [])"

definition require_transition :: "string \<Rightarrow> string \<Rightarrow> unit result" where
  "require_transition from_state to_state =
     and_then (parse_phase from_state) (\<lambda>source.
     and_then (parse_phase to_state) (\<lambda>target.
     if source \<in> set terminal_phases
     then raise_ns ''terminal workflow phase cannot transition''
     else if target \<notin> set (allowed_next source)
     then raise_ns (''workflow transition not allowed: '' @ phase_value source @ '' -> '' @ phase_value target)
     else return ()))"

definition require_initial_phase :: "string \<Rightarrow> unit result" where
  "require_initial_phase state =
     and_then (parse_phase state) (\<lambda>phase.
     if phase \<notin> {DISCOVERED, READY}
     then raise_ns ''workflow initial phase must be DISCOVERED or READY''
     else return ())"

section \<open>Laws\<close>

lemma phase_value_inject [simp]: "phase_value a = phase_value b \<longleftrightarrow> a = b"
  by (cases a; cases b) simp_all

lemma phase_value_text [simp]: "is_text (phase_value p)" "strip (phase_value p) = phase_value p"
proof -
  show t: "is_text (phase_value p)"
    by (cases p) (simp_all add: is_text_def stripped_def is_space_def Let_def)
  then show "strip (phase_value p) = phase_value p"
    by (simp add: is_text_def strip_id)
qed

lemma all_phases_complete [simp]: "p \<in> set all_phases"
  by (cases p) (simp_all add: all_phases_def)

lemma parse_phase_Inr: "parse_phase v = Inr p \<longleftrightarrow> strip v = phase_value p"
proof
  assume "parse_phase v = Inr p"
  then obtain ps where "filter (\<lambda>p. phase_value p = strip v) all_phases = p # ps"
    by (auto simp: parse_phase_def split: list.splits)
  then have "p \<in> set (filter (\<lambda>p. phase_value p = strip v) all_phases)" by simp
  then show "strip v = phase_value p" by simp
next
  assume v: "strip v = phase_value p"
  have "set (filter (\<lambda>q. q = p) all_phases) = {p}" by auto
  then obtain q qs where q: "filter (\<lambda>q. q = p) all_phases = q # qs" "q = p"
    by (cases "filter (\<lambda>q. q = p) all_phases") auto
  then show "parse_phase v = Inr p" by (simp add: parse_phase_def v)
qed

lemma parse_phase_value [simp]: "parse_phase (phase_value p) = Inr p"
  by (simp add: parse_phase_Inr)

text \<open>The step relation the tables define.\<close>

inductive phase_step :: "phase \<Rightarrow> phase \<Rightarrow> bool" where
  normal: "q \<in> set (normal_next p) \<Longrightarrow> phase_step p q"
| recover: "q \<in> set (recovery_next p) \<Longrightarrow> phase_step p q"
| control: "q \<in> set control_targets \<Longrightarrow> p \<notin> set control_targets \<Longrightarrow> p \<notin> set terminal_phases \<Longrightarrow>
    phase_step p q"

inductive_simps phase_step_iff: "phase_step p q"
inductive_cases phase_stepE: "phase_step p q"

lemmas phase_tables = control_targets_def terminal_phases_def

lemma terminal_stuck: "p \<in> set terminal_phases \<Longrightarrow> \<not> phase_step p q"
  by (cases p) (auto simp: phase_step_iff phase_tables)

lemma require_transition_Inr:
  "require_transition a b = Inr u \<longleftrightarrow>
     (\<exists>p q. strip a = phase_value p \<and> strip b = phase_value q \<and> phase_step p q)"
proof -
  have "require_transition a b = Inr u \<longleftrightarrow>
     (\<exists>p q. strip a = phase_value p \<and> strip b = phase_value q \<and> p \<notin> set terminal_phases \<and>
        q \<in> set (allowed_next p))"
    by (auto simp: require_transition_def parse_phase_Inr split: if_splits)
  moreover have "p \<notin> set terminal_phases \<and> q \<in> set (allowed_next p) \<longleftrightarrow> phase_step p q" for p q
    using terminal_stuck [of p q] by (auto simp: allowed_next_def phase_step_iff)
  ultimately show ?thesis by metis
qed

lemma require_initial_phase_Inr:
  "require_initial_phase a = Inr u \<longleftrightarrow> strip a = phase_value DISCOVERED \<or> strip a = phase_value READY"
  by (auto simp: require_initial_phase_def parse_phase_Inr simp del: phase_value.simps)

lemma require_initial_phase_value [simp]:
  "require_initial_phase (phase_value p) = Inr () \<longleftrightarrow> p \<in> {DISCOVERED, READY}"
  by (simp add: require_initial_phase_Inr del: phase_value.simps)

text \<open>Paths: a list of phases, each step allowed.\<close>

fun phase_path :: "phase list \<Rightarrow> bool" where
  "phase_path (p # q # ps) = (phase_step p q \<and> phase_path (q # ps))"
| "phase_path _ = True"

lemma phase_path_snoc: "phase_path (ps @ [p, q]) \<longleftrightarrow> phase_path (ps @ [p]) \<and> phase_step p q"
  by (induction ps rule: phase_path.induct) auto

lemma phase_path_append: "phase_path (ps @ qs) \<Longrightarrow> phase_path ps \<and> phase_path qs"
  by (induction ps rule: phase_path.induct; cases qs) auto

lemma terminal_last: "phase_path (ps @ p # q # qs) \<Longrightarrow> p \<notin> set terminal_phases"
  using phase_path_append [of ps "p # q # qs"] terminal_stuck by auto

text \<open>A segment of the tables in which every phase but the first has only its predecessor in the
  segment to come from, and is not an initial phase.\<close>

fun forced :: "phase list \<Rightarrow> bool" where
  "forced (p # q # ps) =
     (list_all (\<lambda>r. phase_step r q \<longrightarrow> r = p) all_phases \<and> q \<notin> {DISCOVERED, READY} \<and> forced (q # ps))"
| "forced _ = True"

lemma forced_snoc: "forced (ps @ [p, q]) \<longleftrightarrow>
    forced (ps @ [p]) \<and> (\<forall>r. phase_step r q \<longrightarrow> r = p) \<and> q \<notin> {DISCOVERED, READY}"
  by (induction ps rule: forced.induct) (auto simp: list_all_iff)

lemma forced_suffix:
  assumes "line \<noteq> []" "forced line" "phase_path (xs @ [last line])"
    and "hd (xs @ [last line]) \<in> {DISCOVERED, READY}"
  shows "\<exists>pre. xs @ [last line] = pre @ line"
  using assms
proof (induction line arbitrary: xs rule: rev_induct)
  case (snoc q line)
  show ?case
  proof (cases line rule: rev_cases)
    case (snoc line' p)
    with \<open>forced (line @ [q])\<close> have f: "forced line" "\<And>r. phase_step r q \<Longrightarrow> r = p" "q \<notin> {DISCOVERED, READY}"
      by (simp_all add: forced_snoc)
    with snoc.prems obtain xs' r where xs: "xs = xs' @ [r]" by (cases xs rule: rev_cases) auto
    with snoc.prems have pp: "phase_path (xs' @ [r])" "phase_step r q" by (simp_all add: phase_path_snoc)
    with f have "r = p" by blast
    have hd': "hd (xs' @ [p]) \<in> {DISCOVERED, READY}"
      using snoc.prems(4) xs \<open>r = p\<close> by (cases xs') simp_all
    have line: "line \<noteq> []" "last line = p" using snoc by simp_all
    have "\<exists>pre. xs' @ [last line] = pre @ line"
      by (rule snoc.IH [OF line(1) f(1)]) (use pp hd' line \<open>r = p\<close> in simp_all)
    with line have "\<exists>pre. xs' @ [p] = pre @ line" by simp
    with xs \<open>r = p\<close> show ?thesis by auto
  qed simp
qed simp

definition review_line :: "phase list" where
  "review_line = [READY, LEASED, RUNNING, VALIDATING, FROZEN, READY_FOR_REVIEW, REVIEWED_PASS,
     SIGNED_OR_ATTESTED, CI_PENDING, READY_FOR_PROMOTION]"

definition landing_line :: "phase list" where
  "landing_line = [LANDING, POST_LANDING_VERIFY, CLOSED_PASS]"

text \<open>The step relation as a function of the tables, to evaluate it.\<close>

definition steps_to :: "phase \<Rightarrow> phase list" where
  "steps_to q = filter (\<lambda>p. p \<notin> set terminal_phases \<and> q \<in> set (allowed_next p)) all_phases"

lemma phase_step_allowed: "phase_step p q \<longleftrightarrow> p \<notin> set terminal_phases \<and> q \<in> set (allowed_next p)"
  using terminal_stuck [of p q] by (auto simp: allowed_next_def phase_step_iff)

lemma phase_step_steps_to: "phase_step p q \<longleftrightarrow> p \<in> set (steps_to q)"
  by (simp add: steps_to_def phase_step_allowed)

lemma forced_simp: "forced (p # q # ps) \<longleftrightarrow>
    list_all (\<lambda>r. r = p) (steps_to q) \<and> q \<notin> {DISCOVERED, READY} \<and> forced (q # ps)"
  by (auto simp: list_all_iff phase_step_steps_to)

lemma forced_lines: "forced review_line" "forced (review_line @ [READY_FOR_HUMAN])" "forced landing_line"
  unfolding review_line_def landing_line_def append.simps forced_simp by code_simp+

lemma before_landing: "phase_step p LANDING \<Longrightarrow> p = READY_FOR_PROMOTION \<or> p = READY_FOR_HUMAN"
  by (erule phase_stepE; cases p) (auto simp: phase_tables)

text \<open>Any allowed path from an initial phase to CLOSED_PASS ends with the whole line.\<close>

lemma closed_pass_suffix:
  assumes "phase_path (xs @ [CLOSED_PASS])"
    and "require_initial_phase (phase_value (hd (xs @ [CLOSED_PASS]))) = return ()"
  shows "\<exists>pre. xs @ [CLOSED_PASS] = pre @ review_line @ landing_line \<or>
    xs @ [CLOSED_PASS] = pre @ review_line @ [READY_FOR_HUMAN] @ landing_line"
proof -
  have init: "hd (xs @ [CLOSED_PASS]) \<in> {DISCOVERED, READY}"
    using assms(2) by (simp del: phase_value.simps)
  have "\<exists>pre. xs @ [CLOSED_PASS] = pre @ landing_line"
    using forced_suffix [OF _ forced_lines(3), of xs] assms(1) init by (simp add: landing_line_def)
  then obtain pre where pre: "xs @ [CLOSED_PASS] = pre @ landing_line" by blast
  with init obtain ys p where ys: "pre = ys @ [p]"
    by (cases pre rule: rev_cases) (auto simp: landing_line_def)
  have path: "phase_path (ys @ p # landing_line)" using assms(1) pre ys by simp
  from phase_path_append [OF path] have "phase_step p LANDING" by (simp add: landing_line_def)
  have py: "phase_path (ys @ [p])" using phase_path_append [of "ys @ [p]" landing_line] path by simp
  have hd: "hd (ys @ [p]) \<in> {DISCOVERED, READY}"
    using init pre ys by (simp add: hd_append split: if_splits)
  from before_landing [OF \<open>phase_step p LANDING\<close>] show ?thesis
  proof
    assume "p = READY_FOR_PROMOTION"
    then have "\<exists>q. ys @ [p] = q @ review_line"
      using forced_suffix [OF _ forced_lines(1), of ys] py hd by (simp add: review_line_def)
    with pre ys show ?thesis by (metis append_assoc)
  next
    assume "p = READY_FOR_HUMAN"
    then have "\<exists>q. ys @ [p] = q @ review_line @ [READY_FOR_HUMAN]"
      using forced_suffix [OF _ forced_lines(2), of ys] py hd by simp
    with pre ys show ?thesis by (metis append_assoc)
  qed
qed

section \<open>Properties\<close>

text \<open>\<^verbatim>\<open>require_transition\<close> accepts exactly the edges of the three tables: it returns when and
  only when both stripped names are phases and the step relation holds between them; in every
  other case it raises.\<close>

theorem require_transition_refines_step:
  "require_transition a b = return () \<longleftrightarrow>
     (\<exists>p q. strip a = phase_value p \<and> strip b = phase_value q \<and> phase_step p q)"
  by (rule require_transition_Inr)

end
