(* ===== verification/NS_Engine.thy ===== *)
theory NS_Engine
  imports NS_Journal NS_State_Machine
begin

text \<open>
  The local workflow engine, \<^verbatim>\<open>core/night_shift/engine.py\<close> (\<^verbatim>\<open>LocalJournalWorkflowEngine\<close>): it
  keeps a workflow's phase in the event journal and lets only transitions of the state machine
  through. \<^verbatim>\<open>transition\<close> reads and checks first and appends in a later transaction; the two parts
  are \<open>transition_check\<close> and \<open>transition_commit\<close>.
\<close>

section \<open>Operations\<close>

record workflow_state =
  wfs_workflow_id :: string
  wfs_state :: string

text \<open>\<^verbatim>\<open>payload.get("to_state") == value\<close>.\<close>

definition to_state_is :: "json \<Rightarrow> string \<Rightarrow> bool result" where
  "to_state_is payload value =
     (case payload of
        JObj kvs \<Rightarrow> return (map_of kvs ''to_state'' = Some (JStr value))
      | _ \<Rightarrow> raise (BuiltinAttributeError ''get''))"

definition to_state_payload :: "string \<Rightarrow> (pykey \<times> pyval) list" where
  "to_state_payload s = [(KStr ''to_state'', PyStr s)]"

definition engine_start :: "journal_db \<Rightarrow> string \<Rightarrow> string \<Rightarrow> int \<Rightarrow> workflow_state result \<times> journal_db" where
  "engine_start db workflow_id initial_state created_at_epoch =
     checked (nonblank workflow_id ''workflow_id'') db (\<lambda>w.
     checked (nonblank initial_state ''initial_state'') db (\<lambda>init.
     checked (require_initial_phase init) db (\<lambda>_.
     checked (journal_events db w) db (\<lambda>existing.
     case existing of
       first # _ \<Rightarrow>
         checked (if je_event_type first \<noteq> ''STATE_TRANSITION'' then return False
                  else to_state_is (je_payload first) init) db (\<lambda>same.
         if \<not> same then (raise_ns ''workflow restart conflicts with original initial state'', db)
         else checked (replay_state db w init) db (\<lambda>s.
              (return \<lparr>wfs_workflow_id = w, wfs_state = s\<rparr>, db)))
     | [] \<Rightarrow>
         (case append_event db (w @ '':start'') w ''STATE_TRANSITION'' (to_state_payload init) created_at_epoch of
            (Inl e, db') \<Rightarrow> (raise e, db')
          | (Inr _, db') \<Rightarrow> (return \<lparr>wfs_workflow_id = w, wfs_state = init\<rparr>, db'))))))"

definition transition_check ::
  "journal_db \<Rightarrow> string \<Rightarrow> string \<Rightarrow> string \<Rightarrow> (string \<times> string \<times> string) result" where
  "transition_check db workflow_id event_id to_state =
     and_then (nonblank workflow_id ''workflow_id'') (\<lambda>w.
     and_then (nonblank event_id ''event_id'') (\<lambda>eid.
     and_then (nonblank to_state ''to_state'') (\<lambda>to.
     and_then (journal_events db w) (\<lambda>events.
     if events = [] then raise_ns ''workflow has not been started''
     else and_then (replay_state db w ''DISCOVERED'') (\<lambda>current_state.
          and_then (require_transition current_state to) (\<lambda>_. return (w, eid, to)))))))"

definition transition_commit ::
  "journal_db \<Rightarrow> string \<times> string \<times> string \<Rightarrow> int \<Rightarrow> workflow_state result \<times> journal_db" where
  "transition_commit db args created_at_epoch =
     (case args of (w, eid, to) \<Rightarrow>
       (case append_event db eid w ''STATE_TRANSITION'' (to_state_payload to) created_at_epoch of
          (Inl e, db') \<Rightarrow> (raise e, db')
        | (Inr _, db') \<Rightarrow>
            checked (replay_state db' w ''DISCOVERED'') db' (\<lambda>s.
            (return \<lparr>wfs_workflow_id = w, wfs_state = s\<rparr>, db'))))"

definition engine_transition ::
  "journal_db \<Rightarrow> string \<Rightarrow> string \<Rightarrow> string \<Rightarrow> int \<Rightarrow> workflow_state result \<times> journal_db" where
  "engine_transition db workflow_id event_id to_state created_at_epoch =
     checked (transition_check db workflow_id event_id to_state) db (\<lambda>args.
       transition_commit db args created_at_epoch)"

definition engine_state :: "journal_db \<Rightarrow> string \<Rightarrow> workflow_state result" where
  "engine_state db workflow_id =
     and_then (nonblank workflow_id ''workflow_id'') (\<lambda>w.
     and_then (journal_events db w) (\<lambda>events.
     if events = [] then raise_ns ''workflow has not been started''
     else and_then (replay_state db w ''DISCOVERED'') (\<lambda>s.
          return \<lparr>wfs_workflow_id = w, wfs_state = s\<rparr>)))"

section \<open>Journals written by one engine\<close>

datatype engine_call = Start string string int | Transition string string string int

fun engine_exec :: "engine_call \<Rightarrow> journal_db \<Rightarrow> journal_db" where
  "engine_exec (Start w s c) db = snd (engine_start db w s c)"
| "engine_exec (Transition w i s c) db = snd (engine_transition db w i s c)"

definition engine_run :: "engine_call list \<Rightarrow> journal_db \<Rightarrow> journal_db" where
  "engine_run calls db = fold engine_exec calls db"

text \<open>The phase an event records, and the path of phases of a workflow.\<close>

definition event_phase :: "journal_event \<Rightarrow> phase \<Rightarrow> bool" where
  "event_phase e p = (je_event_type e = ''STATE_TRANSITION'' \<and>
     je_payload e = JObj [(''to_state'', JStr (phase_value p))])"

definition follows :: "journal_db \<Rightarrow> string \<Rightarrow> phase list \<Rightarrow> bool" where
  "follows db w ps = (list_all2 event_phase (chain_of w (jd_events db)) ps)"

definition run_path :: "phase list \<Rightarrow> bool" where
  "run_path ps = (phase_path ps \<and> (ps \<noteq> [] \<longrightarrow> hd ps \<in> {DISCOVERED, READY}))"

definition engine_inv :: "journal_db \<Rightarrow> bool" where
  "engine_inv db = (journal_inv db \<and> (\<forall>w. \<exists>ps. follows db w ps \<and> run_path ps))"

lemma engine_inv_empty [simp]: "engine_inv empty_journal"
proof -
  have "follows empty_journal w [] \<and> run_path []" for w
    by (simp add: follows_def run_path_def empty_journal_def)
  then show ?thesis unfolding engine_inv_def by (blast intro: journal_inv_empty)
qed

lemma event_phase_target [simp]: "event_phase e p \<Longrightarrow> target_state e = Inr (phase_value p)"
  using phase_value_text(1) [of p] by (simp add: event_phase_def target_state_def is_text_def strip_id)

lemma replay_follows:
  "list_all2 event_phase es ps \<Longrightarrow>
     replay_events s es = Inr (if ps = [] then s else phase_value (last ps))"
proof (induction es ps arbitrary: s rule: list_all2_induct)
  case (Cons e es p ps)
  then show ?case by (simp add: event_phase_def event_phase_target [of e p])
qed simp

lemma replay_state_follows:
  assumes "journal_inv db" "strip w \<noteq> []" "follows db (strip w) ps" "ps \<noteq> []" "strip s \<noteq> []"
  shows "replay_state db w s = Inr (phase_value (last ps))"
  using assms by (simp add: replay_state_def nonblank_def verify_chain_chain follows_def replay_follows)

lemma follows_Nil: "follows db w ps \<Longrightarrow> chain_of w (jd_events db) = [] \<longleftrightarrow> ps = []"
  by (auto simp: follows_def)

lemma follows_inject: "follows db w ps \<Longrightarrow> follows db w qs \<Longrightarrow> ps = qs"
  unfolding follows_def
proof (induction "chain_of w (jd_events db)" ps arbitrary: qs rule: list_all2_induct)
  have *: "list_all2 event_phase es ps \<Longrightarrow> list_all2 event_phase es qs \<Longrightarrow> ps = qs" for es qs ps
    by (induction es ps arbitrary: qs rule: list_all2_induct) (auto simp: list_all2_Cons1 event_phase_def)
  { case Nil then show ?case by simp }
  { case (Cons e es p ps) then show ?case using * by (metis list_all2_Cons) }
qed

lemma normalize_to_state: "normalize_value (PyDict (to_state_payload s)) = Inr (JObj [(''to_state'', JStr s)])"
  by (simp add: to_state_payload_def dict_of_def)

lemma strip_transition: "strip ''STATE_TRANSITION'' = ''STATE_TRANSITION''"
  by (simp add: strip_def is_space_def)

text \<open>Appending a transition to a phase: refused without change, a duplicate, or one more phase.\<close>

lemma append_transition:
  assumes "journal_inv db" "is_text w" "follows db w ps"
    and "append_event db i w ''STATE_TRANSITION'' (to_state_payload (phase_value q)) c = (r, db')"
  shows "(r \<noteq> Inr True \<and> db' = db) \<or>
    (r = Inr True \<and> journal_inv db' \<and> follows db' w (ps @ [q]) \<and>
      (\<forall>w'. w' \<noteq> w \<longrightarrow> chain_of w' (jd_events db') = chain_of w' (jd_events db)))"
proof (cases "r = Inr True")
  case True
  have inv': "journal_inv db'" using append_event_inv [OF assms(1)] assms(4) by (metis snd_conv)
  have w: "strip w = w" using assms(2) by (simp add: is_text_def strip_id)
  let ?e = "asked_event db (strip i) w ''STATE_TRANSITION'' (JObj [(''to_state'', JStr (phase_value q))]) c"
  have ch: "chain_of x (jd_events db') = (if x = w then chain_of x (jd_events db) @ [?e] else chain_of x (jd_events db))" for x
    using append_event_chain [of db i w "''STATE_TRANSITION''" "to_state_payload (phase_value q)" c db'] assms(4) True
    by (auto simp: normalize_to_state w strip_transition simp del: normalize_value.simps)
  have "event_phase ?e q" by (simp add: event_phase_def asked_event_def Let_def)
  then show ?thesis using True inv' assms(3) by (simp add: ch follows_def list_all2_appendI)
next
  case False
  have "db' = db"
    by (rule append_event_cases [of db i w "''STATE_TRANSITION''" "to_state_payload (phase_value q)" c])
      (use assms(4) False in auto)
  with False show ?thesis by simp
qed

lemma transition_check_Inr:
  assumes "journal_inv db" "follows db (strip w) ps"
  shows "transition_check db w i to = Inr args \<longleftrightarrow>
    strip w \<noteq> [] \<and> strip i \<noteq> [] \<and> strip to \<noteq> [] \<and> ps \<noteq> [] \<and>
    (\<exists>q. strip to = phase_value q \<and> phase_step (last ps) q \<and> args = (strip w, strip i, phase_value q))"
proof (cases "strip w = [] \<or> ps = []")
  case True
  then show ?thesis using assms journal_events_chain [of db "strip w"]
    by (auto simp: transition_check_def nonblank_Inr follows_def)
next
  case False
  then have "replay_state db (strip w) ''DISCOVERED'' = Inr (phase_value (last ps))"
    using assms replay_state_follows [of db "strip w" ps "''DISCOVERED''"]
      phase_value_text(2) [of DISCOVERED] by simp
  moreover have "journal_events db (strip w) = Inr (chain_of (strip w) (jd_events db))"
    using False assms(1) journal_events_chain [of db "strip w"] by simp
  moreover have "chain_of (strip w) (jd_events db) \<noteq> []" using False follows_Nil [OF assms(2)] by simp
  ultimately show ?thesis using False
    by (auto simp: transition_check_def nonblank_Inr require_transition_Inr simp del: phase_value.simps)
qed

lemma run_path_snoc:
  assumes "run_path ps" "ps \<noteq> []" "phase_step (last ps) q"
  shows "run_path (ps @ [q])"
proof -
  have "phase_path (butlast ps @ [last ps, q])"
    using assms by (simp add: run_path_def phase_path_snoc)
  moreover have "butlast ps @ [last ps, q] = ps @ [q]" using assms(2) by (simp add: snoc_eq_iff_butlast)
  ultimately show ?thesis using assms by (simp add: run_path_def)
qed

lemma engine_inv_append:
  assumes "engine_inv db" "is_text w" "follows db w ps" "run_path (ps @ [q])"
  shows "engine_inv (snd (append_event db i w ''STATE_TRANSITION'' (to_state_payload (phase_value q)) c))"
proof -
  obtain r db' where res: "append_event db i w ''STATE_TRANSITION'' (to_state_payload (phase_value q)) c = (r, db')"
    by (cases "append_event db i w ''STATE_TRANSITION'' (to_state_payload (phase_value q)) c")
  have inv: "journal_inv db" using assms(1) by (simp add: engine_inv_def)
  from append_transition [OF inv assms(2,3) res] show ?thesis
  proof
    assume "r = Inr True \<and> journal_inv db' \<and> follows db' w (ps @ [q]) \<and>
      (\<forall>w'. w' \<noteq> w \<longrightarrow> chain_of w' (jd_events db') = chain_of w' (jd_events db))"
    then have *: "journal_inv db'" "follows db' w (ps @ [q])"
      "\<And>w'. w' \<noteq> w \<Longrightarrow> chain_of w' (jd_events db') = chain_of w' (jd_events db)" by blast+
    have "\<exists>ps. follows db' x ps \<and> run_path ps" for x
    proof (cases "x = w")
      case True
      then show ?thesis using * assms(4) by blast
    next
      case False
      then show ?thesis using * assms(1) by (simp add: engine_inv_def follows_def)
    qed
    with * show ?thesis by (simp add: engine_inv_def res)
  qed (use assms(1) res in simp)
qed

lemma transition_commit_snd:
  "snd (transition_commit db (w, i, s) c) = snd (append_event db i w ''STATE_TRANSITION'' (to_state_payload s) c)"
  by (auto simp: transition_commit_def checked_def split: prod.split sum.split)

lemma engine_transition_inv:
  assumes "engine_inv db"
  shows "engine_inv (snd (engine_transition db w i s c))"
proof (cases "transition_check db w i s")
  case (Inr args)
  have inv: "journal_inv db" using assms by (simp add: engine_inv_def)
  obtain ps where ps: "follows db (strip w) ps" "run_path ps" using assms unfolding engine_inv_def by blast
  with Inr transition_check_Inr [OF inv ps(1), of i s args] obtain q where
    q: "args = (strip w, strip i, phase_value q)" "phase_step (last ps) q" "ps \<noteq> []" "strip w \<noteq> []" by blast
  have "engine_inv (snd (append_event db (strip i) (strip w) ''STATE_TRANSITION'' (to_state_payload (phase_value q)) c))"
    by (rule engine_inv_append [OF assms _ ps(1) run_path_snoc [OF ps(2) q(3,2)]])
      (use q(4) in \<open>simp_all add: is_text_def\<close>)
  then show ?thesis using Inr q by (simp add: engine_transition_def transition_commit_snd)
qed (simp add: engine_transition_def assms)

lemma engine_start_snd:
  "snd (engine_start db w s c) = db \<or>
   (\<exists>q. strip s = phase_value q \<and> q \<in> {DISCOVERED, READY} \<and> strip w \<noteq> [] \<and>
      journal_events db (strip w) = Inr [] \<and>
      snd (engine_start db w s c) =
        snd (append_event db (strip w @ '':start'') (strip w) ''STATE_TRANSITION'' (to_state_payload (phase_value q)) c))"
proof -
  consider (bad) "strip w = []" | (bad2) "strip w \<noteq> []" "strip s = []"
    | (bad3) e where "strip w \<noteq> []" "strip s \<noteq> []" "require_initial_phase (strip s) = Inl e"
    | (good) "strip w \<noteq> []" "strip s \<noteq> []" "require_initial_phase (strip s) = Inr ()"
    by (cases "require_initial_phase (strip s)") auto
  then show ?thesis
  proof cases
  case good
  then obtain q where q: "strip s = phase_value q" "q \<in> {DISCOVERED, READY}"
    by (auto simp: require_initial_phase_Inr simp del: phase_value.simps)
  have start: "engine_start db w s c =
     checked (journal_events db (strip w)) db (\<lambda>existing.
     case existing of
       first # _ \<Rightarrow>
         checked (if je_event_type first \<noteq> ''STATE_TRANSITION'' then return False
                  else to_state_is (je_payload first) (strip s)) db (\<lambda>same.
         if \<not> same then (raise_ns ''workflow restart conflicts with original initial state'', db)
         else checked (replay_state db (strip w) (strip s)) db (\<lambda>s'.
              (return \<lparr>wfs_workflow_id = strip w, wfs_state = s'\<rparr>, db)))
     | [] \<Rightarrow>
         (case append_event db (strip w @ '':start'') (strip w) ''STATE_TRANSITION'' (to_state_payload (strip s)) c of
            (Inl e, db') \<Rightarrow> (raise e, db')
          | (Inr _, db') \<Rightarrow> (return \<lparr>wfs_workflow_id = strip w, wfs_state = strip s\<rparr>, db')))"
    using good by (simp add: engine_start_def nonblank_def)
  show ?thesis
  proof (cases "journal_events db (strip w)")
    case (Inr es)
    show ?thesis
    proof (cases es)
      case Nil
      then show ?thesis unfolding start using Inr q good
        by (auto split: prod.split sum.split simp del: phase_value.simps)
    next
      case (Cons e es')
      then show ?thesis unfolding start using Inr by (simp add: checked_def split: sum.split)
    qed
  qed (simp add: start)
  qed (simp_all add: engine_start_def nonblank_def)
qed

lemma engine_start_inv:
  assumes "engine_inv db"
  shows "engine_inv (snd (engine_start db w s c))"
  using engine_start_snd [of db w s c]
proof
  assume "\<exists>q. strip s = phase_value q \<and> q \<in> {DISCOVERED, READY} \<and> strip w \<noteq> [] \<and>
      journal_events db (strip w) = Inr [] \<and>
      snd (engine_start db w s c) =
        snd (append_event db (strip w @ '':start'') (strip w) ''STATE_TRANSITION'' (to_state_payload (phase_value q)) c)"
  then obtain q where q: "q \<in> {DISCOVERED, READY}" "strip w \<noteq> []" "journal_events db (strip w) = Inr []"
      "snd (engine_start db w s c) =
        snd (append_event db (strip w @ '':start'') (strip w) ''STATE_TRANSITION'' (to_state_payload (phase_value q)) c)"
    by blast
  have inv: "journal_inv db" using assms by (simp add: engine_inv_def)
  have f: "follows db (strip w) []"
    using q(2,3) journal_events_chain [OF inv, of "strip w"] by (simp add: follows_def)
  have r: "run_path ([] @ [q])" using q(1) by (auto simp: run_path_def)
  show ?thesis unfolding q(4)
    by (rule engine_inv_append [OF assms _ f r]) (use q(2) in \<open>simp_all add: is_text_def\<close>)
qed (simp add: assms)

lemma engine_run_inv: "engine_inv db \<Longrightarrow> engine_inv (engine_run calls db)"
  unfolding engine_run_def
proof (induction calls arbitrary: db)
  case (Cons c calls)
  then show ?case by (cases c) (simp_all add: engine_start_inv engine_transition_inv)
qed simp

lemma engine_state_follows:
  assumes "journal_inv db" "strip w \<noteq> []" "follows db (strip w) ps"
  shows "engine_state db w = (if ps = [] then raise_ns ''workflow has not been started''
    else Inr \<lparr>wfs_workflow_id = strip w, wfs_state = phase_value (last ps)\<rparr>)"
proof -
  have "strip ''DISCOVERED'' \<noteq> []" using phase_value_text(2) [of DISCOVERED] by simp
  then show ?thesis
    using assms follows_Nil [OF assms(3)] replay_state_follows [OF assms(1) _ , of "strip w" ps "''DISCOVERED''"]
      journal_events_chain [OF assms(1), of "strip w"]
    by (simp add: engine_state_def nonblank_def)
qed

text \<open>Later calls only extend the path of phases, and a terminal one not at all.\<close>

lemma engine_inv_follows:
  assumes "engine_inv db"
  obtains ps where "follows db w ps" "run_path ps"
  using assms unfolding engine_inv_def by blast

lemma append_transition_follows:
  assumes "journal_inv db" "is_text w" "follows db w ps"
  shows "follows (snd (append_event db i w ''STATE_TRANSITION'' (to_state_payload (phase_value q)) c)) w ps \<or>
    follows (snd (append_event db i w ''STATE_TRANSITION'' (to_state_payload (phase_value q)) c)) w (ps @ [q])"
  using append_transition [OF assms, of i q c "fst (append_event db i w ''STATE_TRANSITION'' (to_state_payload (phase_value q)) c)"
      "snd (append_event db i w ''STATE_TRANSITION'' (to_state_payload (phase_value q)) c)"] assms(3)
  by auto

lemma append_transition_other:
  assumes "journal_inv db" "is_text w" "follows db w qs" "w' \<noteq> w" "follows db w' ps"
  shows "follows (snd (append_event db i w ''STATE_TRANSITION'' (to_state_payload (phase_value q)) c)) w' ps"
  using append_transition [OF assms(1-3), of i q c "fst (append_event db i w ''STATE_TRANSITION'' (to_state_payload (phase_value q)) c)"
      "snd (append_event db i w ''STATE_TRANSITION'' (to_state_payload (phase_value q)) c)"] assms(4,5)
  by (auto simp: follows_def)

lemma engine_exec_terminal:
  assumes "engine_inv db" "follows db w ps" "ps \<noteq> []" "last ps \<in> set terminal_phases"
  shows "follows (engine_exec c db) w ps"
proof -
  have inv: "journal_inv db" using assms(1) by (simp add: engine_inv_def)
  show ?thesis
  proof (cases c)
    case (Start w' s e)
    show ?thesis
    proof (cases "engine_exec c db = db")
      case False
      then obtain q where q: "strip w' \<noteq> []" "journal_events db (strip w') = Inr []"
          "engine_exec c db = snd (append_event db (strip w' @ '':start'') (strip w') ''STATE_TRANSITION'' (to_state_payload (phase_value q)) e)"
        using engine_start_snd [of db w' s e] Start by auto
      then have f: "follows db (strip w') []"
        using journal_events_chain [OF inv, of "strip w'"] by (simp add: follows_def)
      then have "w \<noteq> strip w'" using assms(2,3) follows_inject by blast
      then show ?thesis unfolding q(3)
        by (intro append_transition_other [OF inv _ f _ assms(2)]) (simp_all add: is_text_def q(1))
    qed (simp add: assms)
  next
    case (Transition w' i s e)
    show ?thesis
    proof (cases "transition_check db w' i s")
      case (Inr args)
      obtain qs where qs: "follows db (strip w') qs" using engine_inv_follows [OF assms(1)] by blast
      from Inr transition_check_Inr [OF inv qs, of i s args] obtain q where
        q: "args = (strip w', strip i, phase_value q)" "phase_step (last qs) q" "strip w' \<noteq> []" by blast
      have "w \<noteq> strip w'" using q(2) qs assms(2,4) follows_inject terminal_stuck by metis
      then have "follows (snd (append_event db (strip i) (strip w') ''STATE_TRANSITION'' (to_state_payload (phase_value q)) e)) w ps"
        by (intro append_transition_other [OF inv _ qs _ assms(2)]) (simp_all add: is_text_def q(3))
      then show ?thesis using Transition Inr q by (simp add: engine_transition_def transition_commit_snd)
    qed (simp add: Transition engine_transition_def assms)
  qed
qed

lemma engine_run_terminal:
  assumes "engine_inv db" "follows db w ps" "ps \<noteq> []" "last ps \<in> set terminal_phases"
  shows "follows (engine_run calls db) w ps"
  using assms unfolding engine_run_def
proof (induction calls arbitrary: db)
  case (Cons c calls)
  have "engine_inv (engine_exec c db)" using engine_run_inv [OF Cons.prems(1), of "[c]"] by (simp add: engine_run_def)
  with Cons engine_exec_terminal [OF Cons.prems] show ?case by simp
qed simp

text \<open>A commit with a new event identifier.\<close>

lemma transition_commit_fresh:
  assumes "journal_inv db" "is_text w" "is_text i" "follows db w ps" "0 \<le> c"
    and "i \<notin> er_event_id ` set (jd_events db)"
  shows "fst (transition_commit db (w, i, phase_value q) c) = raise SqliteIntegrityError \<or>
    (\<exists>db'. transition_commit db (w, i, phase_value q) c =
       (Inr \<lparr>wfs_workflow_id = w, wfs_state = phase_value q\<rparr>, db') \<and> journal_inv db' \<and> follows db' w (ps @ [q]) \<and>
       er_event_id ` set (jd_events db') = insert i (er_event_id ` set (jd_events db)))"
proof -
  let ?app = "append_event db i w ''STATE_TRANSITION'' (to_state_payload (phase_value q)) c"
  have strips: "strip i = i" "strip w = w" "i \<noteq> []" "w \<noteq> []" using assms(2,3) by (simp_all add: is_text_def strip_id)
  have find: "find (\<lambda>r. er_event_id r = i) (jd_events db) = None" using assms(6) by (auto simp: find_None_iff)
  have call: "?app = insert_event db i w ''STATE_TRANSITION'' (canonical_json (JObj [(''to_state'', JStr (phase_value q))]))
      (content_digest (JObj [(''to_state'', JStr (phase_value q))])) c"
    using append_event_good [of i w "''STATE_TRANSITION''" c "to_state_payload (phase_value q)"] assms(5)
    by (simp add: strips strip_transition normalize_to_state del: normalize_value.simps)
  have "?app = (raise SqliteIntegrityError, db) \<or>
      (\<exists>row. ?app = (Inr True, db\<lparr>jd_events := jd_events db @ [row]\<rparr>) \<and> er_event_id row = i)"
    unfolding call by (auto simp: insert_event_def find Let_def)
  then show ?thesis
  proof
    assume "\<exists>row. ?app = (Inr True, db\<lparr>jd_events := jd_events db @ [row]\<rparr>) \<and> er_event_id row = i"
    then obtain row where row: "?app = (Inr True, db\<lparr>jd_events := jd_events db @ [row]\<rparr>)" "er_event_id row = i" by blast
    let ?db' = "db\<lparr>jd_events := jd_events db @ [row]\<rparr>"
    from append_transition [OF assms(1,2,4) row(1)] have *: "journal_inv ?db'" "follows ?db' w (ps @ [q])" by auto
    have "replay_state ?db' w ''DISCOVERED'' = Inr (phase_value q)"
      using replay_state_follows [OF *(1) _ , of w "ps @ [q]" "''DISCOVERED''"] *(2) strips
        phase_value_text(2) [of DISCOVERED] by simp
    then show ?thesis using row * by (auto simp: transition_commit_def)
  qed (simp add: transition_commit_def)
qed

section \<open>Properties\<close>

text \<open>C17: The engine implements the state machine. In every journal written through one engine, the
  chain of each workflow verifies, its events record the phases of an allowed path that starts in an
  initial phase, and \<^verbatim>\<open>state\<close> returns the last of them, or raises when there is none.\<close>

theorem engine_follows_state_machine:
  assumes "db = engine_run calls empty_journal" and "strip w \<noteq> []"
  shows "\<exists>es ps. verify_chain db w = return es \<and> list_all2 event_phase es ps \<and>
    phase_path ps \<and> (ps = [] \<or> hd ps \<in> {DISCOVERED, READY}) \<and>
    engine_state db w = (if ps = [] then raise_ns ''workflow has not been started''
      else return \<lparr>wfs_workflow_id = strip w, wfs_state = phase_value (last ps)\<rparr>)"
proof -
  have inv: "engine_inv db" unfolding assms(1) by (rule engine_run_inv) simp
  then have j: "journal_inv db" by (simp add: engine_inv_def)
  obtain ps where ps: "follows db (strip w) ps" "run_path ps" using engine_inv_follows [OF inv] .
  with verify_chain_chain [OF j assms(2)] engine_state_follows [OF j assms(2) ps(1)] show ?thesis
    by (intro exI [of _ "chain_of (strip w) (jd_events db)"] exI [of _ ps]) (auto simp: follows_def run_path_def)
qed

text \<open>C3: Nothing closes without every gate, in order and without a detour. When the engine reports
  CLOSED_PASS, the workflow's verified journal ends with the whole line READY, LEASED, RUNNING,
  VALIDATING, FROZEN, review, signature, CI, promotion readiness, landing, post-landing
  verification, CLOSED_PASS, with at most the human gate between readiness and landing; a workflow
  that was blocked or paused on the way has run the line again from READY. The engine may have
  found any journal that satisfies its invariant, such as the empty one, and made any calls.\<close>

theorem closed_pass_through_every_gate:
  assumes "engine_inv db0" and "db = engine_run calls db0" and "engine_state db w = return s"
    and "wfs_state s = phase_value CLOSED_PASS"
  shows "\<exists>es pre. verify_chain db w = return es \<and>
    (list_all2 event_phase es (pre @ review_line @ landing_line) \<or>
     list_all2 event_phase es (pre @ review_line @ [READY_FOR_HUMAN] @ landing_line))"
proof -
  have inv: "engine_inv db" unfolding assms(2) by (rule engine_run_inv) (rule assms(1))
  then have j: "journal_inv db" by (simp add: engine_inv_def)
  have w: "strip w \<noteq> []" using assms(3) by (auto simp: engine_state_def nonblank_Inr)
  obtain ps where ps: "follows db (strip w) ps" "run_path ps" using engine_inv_follows [OF inv] .
  have "ps \<noteq> [] \<and> last ps = CLOSED_PASS"
    using engine_state_follows [OF j w ps(1)] assms(3,4) by (auto simp del: phase_value.simps split: if_splits)
  then obtain xs where xs: "ps = xs @ [CLOSED_PASS]" by (metis append_butlast_last_id)
  have "phase_path (xs @ [CLOSED_PASS])" using ps(2) xs by (simp add: run_path_def)
  moreover have "require_initial_phase (phase_value (hd (xs @ [CLOSED_PASS]))) = Inr ()"
    using ps(2) xs by (simp add: run_path_def del: phase_value.simps)
  ultimately obtain pre where "ps = pre @ review_line @ landing_line \<or>
      ps = pre @ review_line @ [READY_FOR_HUMAN] @ landing_line"
    using closed_pass_suffix [of xs] xs by blast
  with verify_chain_chain [OF j w] ps(1) show ?thesis unfolding follows_def by blast
qed

text \<open>Terminal phases are final for one engine: once \<^verbatim>\<open>state\<close> has reported CLOSED_PASS, FAILED,
  QUARANTINED or SUPERSEDED, no sequence of later calls changes what it reports, whatever journal satisfying the engine's
  invariant it started from.\<close>

theorem terminal_phase_is_final:
  assumes "engine_inv db0" and "db = engine_run calls db0"
    and "engine_state db w = return \<lparr>wfs_workflow_id = strip w, wfs_state = phase_value p\<rparr>"
    and "p \<in> set terminal_phases"
  shows "engine_state (engine_run later db) w = return \<lparr>wfs_workflow_id = strip w, wfs_state = phase_value p\<rparr>"
proof -
  have inv: "engine_inv db" unfolding assms(2) by (rule engine_run_inv) (rule assms(1))
  then have j: "journal_inv db" by (simp add: engine_inv_def)
  have w: "strip w \<noteq> []" using assms(3) by (auto simp: engine_state_def nonblank_Inr)
  obtain ps where ps: "follows db (strip w) ps" "run_path ps" using engine_inv_follows [OF inv] .
  have last: "ps \<noteq> []" "last ps = p"
    using engine_state_follows [OF j w ps(1)] assms(3) by (auto simp del: phase_value.simps split: if_splits)
  have "follows (engine_run later db) (strip w) ps"
    by (rule engine_run_terminal [OF inv ps(1) last(1)]) (simp add: last assms(4))
  moreover have "journal_inv (engine_run later db)" using engine_run_inv [OF inv] by (simp add: engine_inv_def)
  ultimately show ?thesis using engine_state_follows [of "engine_run later db" w ps] w last by simp
qed

text \<open>C34: Two engines on one journal are not safe. \<^verbatim>\<open>transition\<close> checks in one transaction and
  appends in another, so when two processes both pass the check before either appends, both
  transitions return, the workflow leaves the terminal phase the first one entered, and the journal
  still verifies (the one other outcome is the unique constraint on the event hashes).\<close>

theorem transition_race_leaves_terminal:
  assumes "engine_inv db0" and "db = engine_run calls db0"
    and "transition_check db w i (phase_value t) = return a" and "t \<in> set terminal_phases"
    and "transition_check db w i' s = return a'"
    and "strip i \<noteq> strip i'" "strip i \<notin> er_event_id ` set (jd_events db)"
    and "strip i' \<notin> er_event_id ` set (jd_events db)" "0 \<le> c" "0 \<le> c'"
  shows "fst (transition_commit db a c) = raise SqliteIntegrityError \<or>
    fst (transition_commit (snd (transition_commit db a c)) a' c') = raise SqliteIntegrityError \<or>
    (\<exists>db1 db2 es. transition_commit db a c =
         (return \<lparr>wfs_workflow_id = strip w, wfs_state = phase_value t\<rparr>, db1) \<and>
       transition_commit db1 a' c' = (return \<lparr>wfs_workflow_id = strip w, wfs_state = strip s\<rparr>, db2) \<and>
       verify_chain db2 w = return es \<and>
       engine_state db2 w = return \<lparr>wfs_workflow_id = strip w, wfs_state = strip s\<rparr>)"
proof -
  have inv: "engine_inv db" unfolding assms(2) by (rule engine_run_inv) (rule assms(1))
  then have j: "journal_inv db" by (simp add: engine_inv_def)
  obtain ps where ps: "follows db (strip w) ps" using engine_inv_follows [OF inv] .
  have a: "a = (strip w, strip i, phase_value t)" "is_text (strip w)" "is_text (strip i)"
    using assms(3) transition_check_Inr [OF j ps, of i "phase_value t" a] by (auto simp: is_text_def simp del: phase_value.simps)
  obtain q where q: "a' = (strip w, strip i', phase_value q)" "is_text (strip i')" "strip s = phase_value q"
    using assms(5) transition_check_Inr [OF j ps, of i' s a'] by (auto simp: is_text_def simp del: phase_value.simps)
  show ?thesis
  proof (cases "fst (transition_commit db a c) = raise SqliteIntegrityError")
    case False
    from transition_commit_fresh [OF j a(2,3) ps assms(9,7), of t] False a(1) obtain db1 where
      db1: "transition_commit db a c = (Inr \<lparr>wfs_workflow_id = strip w, wfs_state = phase_value t\<rparr>, db1)"
        "journal_inv db1" "follows db1 (strip w) (ps @ [t])"
        "er_event_id ` set (jd_events db1) = insert (strip i) (er_event_id ` set (jd_events db))" by blast
    have fresh: "strip i' \<notin> er_event_id ` set (jd_events db1)" unfolding db1(4) using assms(6,8) by auto
    from transition_commit_fresh [OF db1(2) a(2) q(2) db1(3) assms(10) fresh, of q] show ?thesis
    proof
      assume "\<exists>db'. transition_commit db1 (strip w, strip i', phase_value q) c' =
         (Inr \<lparr>wfs_workflow_id = strip w, wfs_state = phase_value q\<rparr>, db') \<and> journal_inv db' \<and>
         follows db' (strip w) ((ps @ [t]) @ [q]) \<and>
         er_event_id ` set (jd_events db') = insert (strip i') (er_event_id ` set (jd_events db1))"
      then obtain db2 where db2: "transition_commit db1 a' c' = (Inr \<lparr>wfs_workflow_id = strip w, wfs_state = phase_value q\<rparr>, db2)"
          "journal_inv db2" "follows db2 (strip w) ((ps @ [t]) @ [q])" unfolding q(1) by blast
      have w: "strip w \<noteq> []" using a(2) by (simp add: is_text_def)
      show ?thesis using db1(1) db2(1) q(3) verify_chain_chain [OF db2(2) w] engine_state_follows [OF db2(2) w db2(3)]
        by simp
    qed (simp add: db1(1) q(1))
  qed simp
qed

section \<open>Witnesses\<close>

text \<open>A journal that holds a given line of phases of workflow \<^verbatim>\<open>w\<close>.\<close>

definition phase_json :: "phase \<Rightarrow> json" where
  "phase_json q = JObj [(''to_state'', JStr (phase_value q))]"

definition phase_row :: "journal_db \<Rightarrow> phase \<Rightarrow> event_row" where
  "phase_row db q =
     (let i = replicate (Suc (length (jd_events db))) (CHR ''e'') in
      \<lparr>er_sequence = next_sequence (jd_events db), er_event_id = i, er_workflow_id = ''w'',
       er_event_type = ''STATE_TRANSITION'', er_payload_json = canonical_json (phase_json q),
       er_payload_digest = content_digest (phase_json q), er_created_at_epoch = 0,
       er_previous_hash = previous_hash_of ''w'' (jd_events db),
       er_event_hash = content_digest (JObj (event_body i ''w'' ''STATE_TRANSITION'' (content_digest (phase_json q)) 0
         (previous_hash_of ''w'' (jd_events db))))\<rparr>)"

definition record_phases :: "phase list \<Rightarrow> journal_db" where
  "record_phases ps = foldl (\<lambda>db q. db\<lparr>jd_events := jd_events db @ [phase_row db q]\<rparr>) empty_journal ps"

lemma phase_json_normal: "normal_json (phase_json q)"
  using normalize_value_normal [OF normalize_to_state] by (simp add: phase_json_def)

lemma phase_row_event:
  "projr (decode_row (phase_row db q)) =
     asked_event db (replicate (Suc (length (jd_events db))) (CHR ''e'')) ''w'' ''STATE_TRANSITION'' (phase_json q) 0"
  using loads_normal [OF phase_json_normal [of q]]
  by (simp add: projr_decode_row phase_row_def asked_event_def Let_def del: replicate.simps)

lemma phase_row_ok: "row_ok (phase_row db q)"
proof -
  have "is_text (replicate (Suc n) (CHR ''e''))" for n
    by (simp add: is_text_def stripped_def is_space_def)
  moreover have "is_text ''w''" "is_text ''STATE_TRANSITION''" by (simp_all add: is_text_def stripped_def is_space_def)
  moreover have "loads (canonical_json (phase_json q)) = Some (JObj [(''to_state'', JStr (phase_value q))])"
    using loads_normal [OF phase_json_normal [of q]] by (simp add: phase_json_def del: phase_value.simps)
  ultimately show ?thesis using phase_json_normal [of q]
    by (simp add: row_ok_def phase_row_def Let_def phase_json_def del: replicate.simps phase_value.simps)
qed

lemma record_phases_facts:
  "journal_inv (record_phases ps) \<and> follows (record_phases ps) ''w'' ps \<and>
   (\<forall>w. w \<noteq> ''w'' \<longrightarrow> follows (record_phases ps) w []) \<and>
   (\<forall>r \<in> set (jd_events (record_phases ps)). length (er_event_id r) \<le> length (jd_events (record_phases ps)))"
proof (induction ps rule: rev_induct)
  case Nil
  then show ?case by (simp add: record_phases_def follows_def) (simp add: empty_journal_def)
next
  case (snoc q ps)
  let ?db = "record_phases ps"
  have db': "record_phases (ps @ [q]) = ?db\<lparr>jd_events := jd_events ?db @ [phase_row ?db q]\<rparr>"
    by (simp add: record_phases_def)
  have id: "er_event_id (phase_row ?db q) = replicate (Suc (length (jd_events ?db))) (CHR ''e'')"
    "er_workflow_id (phase_row ?db q) = ''w''" by (simp_all add: phase_row_def Let_def del: replicate.simps)
  have "er_event_id (phase_row ?db q) \<notin> er_event_id ` set (jd_events ?db)"
  proof
    assume "er_event_id (phase_row ?db q) \<in> er_event_id ` set (jd_events ?db)"
    then obtain r where "r \<in> set (jd_events ?db)" "length (er_event_id r) = Suc (length (jd_events ?db))"
      by (metis id(1) imageE length_replicate)
    then show False using snoc by fastforce
  qed
  then have inv: "journal_inv (record_phases (ps @ [q]))" unfolding db'
    using snoc phase_row_event [of ?db q] phase_row_ok [of ?db q] phase_json_normal [of q] id(2)
    by (intro journal_inv_snoc) auto
  have "event_phase (projr (decode_row (phase_row ?db q))) q"
    by (simp add: phase_row_event event_phase_def asked_event_def Let_def phase_json_def del: replicate.simps phase_value.simps)
  then show ?case using inv snoc id unfolding db'
    by (auto simp: follows_def list_all2_appendI simp del: replicate.simps)
qed

lemma record_phases_inv: "run_path ps \<Longrightarrow> engine_inv (record_phases ps)"
proof -
  assume ps: "run_path ps"
  have "\<exists>qs. follows (record_phases ps) w qs \<and> run_path qs" for w
    by (rule exI [of _ "if w = ''w'' then ps else []"])
      (use record_phases_facts [of ps] ps in \<open>auto simp: run_path_def\<close>)
  then show ?thesis using record_phases_facts [of ps] by (simp add: engine_inv_def)
qed

lemma record_phases_state:
  "ps \<noteq> [] \<Longrightarrow> engine_state (record_phases ps) ''w'' = Inr \<lparr>wfs_workflow_id = ''w'', wfs_state = phase_value (last ps)\<rparr>"
  using record_phases_facts [of ps] engine_state_follows [of "record_phases ps" "''w''" ps]
  by (simp add: strip_def is_space_def)

lemma engine_follows_state_machine_witness:
  "\<exists>es ps. verify_chain empty_journal ''w'' = return es \<and> list_all2 event_phase es ps \<and> phase_path ps"
proof -
  have "strip ''w'' \<noteq> []" by (simp add: strip_def is_space_def)
  then show ?thesis using engine_follows_state_machine [of empty_journal "[]" "''w''"] by (auto simp: engine_run_def)
qed

lemma closed_pass_through_every_gate_witness:
  "\<exists>es pre. verify_chain (record_phases (review_line @ landing_line)) ''w'' = return es \<and>
    (list_all2 event_phase es (pre @ review_line @ landing_line) \<or>
     list_all2 event_phase es (pre @ review_line @ [READY_FOR_HUMAN] @ landing_line))"
proof -
  let ?ps = "review_line @ landing_line"
  have "run_path ?ps" by (simp add: run_path_def review_line_def landing_line_def phase_step_iff phase_tables)
  moreover have "engine_state (record_phases ?ps) ''w'' = return \<lparr>wfs_workflow_id = ''w'', wfs_state = phase_value CLOSED_PASS\<rparr>"
    using record_phases_state [of ?ps] by (simp add: review_line_def landing_line_def)
  moreover have "record_phases ?ps = engine_run [] (record_phases ?ps)" by (simp add: engine_run_def)
  ultimately show ?thesis
    using closed_pass_through_every_gate [OF record_phases_inv, of ?ps "record_phases ?ps" "[]" "''w''"] by simp
qed

lemma terminal_phase_is_final_witness:
  "engine_state (engine_run [Transition ''w'' ''i'' ''READY'' 0] (record_phases [READY, FAILED])) ''w'' =
     return \<lparr>wfs_workflow_id = ''w'', wfs_state = ''FAILED''\<rparr>"
proof -
  have w: "strip ''w'' = ''w''" by (simp add: strip_def is_space_def)
  have "run_path [READY, FAILED]" by (simp add: run_path_def phase_step_iff phase_tables)
  then have "engine_inv (record_phases [READY, FAILED])" by (rule record_phases_inv)
  moreover have "record_phases [READY, FAILED] = engine_run [] (record_phases [READY, FAILED])" by (simp add: engine_run_def)
  moreover have "engine_state (record_phases [READY, FAILED]) ''w'' =
      return \<lparr>wfs_workflow_id = strip ''w'', wfs_state = phase_value FAILED\<rparr>" by (simp add: record_phases_state w)
  moreover have "FAILED \<in> set terminal_phases" by (simp add: terminal_phases_def)
  ultimately have "engine_state (engine_run [Transition ''w'' ''i'' ''READY'' 0] (record_phases [READY, FAILED])) ''w'' =
      return \<lparr>wfs_workflow_id = strip ''w'', wfs_state = phase_value FAILED\<rparr>" by (rule terminal_phase_is_final)
  then show ?thesis by (simp add: w)
qed

lemma transition_race_leaves_terminal_witness:
  "fst (transition_commit (record_phases [READY]) (''w'', ''i'', ''FAILED'') 0) = raise SqliteIntegrityError \<or>
   fst (transition_commit (snd (transition_commit (record_phases [READY]) (''w'', ''i'', ''FAILED'') 0)) (''w'', ''j'', ''LEASED'') 0)
     = raise SqliteIntegrityError \<or>
   (\<exists>db2. engine_state db2 ''w'' = return \<lparr>wfs_workflow_id = ''w'', wfs_state = ''LEASED''\<rparr>)"
proof -
  have strips: "strip ''w'' = ''w''" "strip ''i'' = ''i''" "strip ''j'' = ''j''" "strip ''LEASED'' = ''LEASED''" "strip ''FAILED'' = ''FAILED''"
    by (simp_all add: strip_def is_space_def)
  have "run_path [READY]" by (simp add: run_path_def phase_step_iff phase_tables)
  then have inv: "engine_inv (record_phases [READY])" by (rule record_phases_inv)
  have f: "follows (record_phases [READY]) (strip ''w'') [READY]" "journal_inv (record_phases [READY])"
    using record_phases_facts [of "[READY]"] by (simp_all add: strips)
  have check: "transition_check (record_phases [READY]) ''w'' ''i'' (phase_value FAILED) = return (''w'', ''i'', ''FAILED'')"
    unfolding transition_check_Inr [OF f(2,1)] by (auto simp: strips phase_step_iff phase_tables intro!: exI [of _ FAILED])
  have check': "transition_check (record_phases [READY]) ''w'' ''j'' ''LEASED'' = return (''w'', ''j'', ''LEASED'')"
    unfolding transition_check_Inr [OF f(2,1)] by (auto simp: strips phase_step_iff phase_tables intro!: exI [of _ LEASED])
  have ids: "er_event_id ` set (jd_events (record_phases [READY])) = {''e''}"
    by (simp add: record_phases_def empty_journal_def phase_row_def Let_def)
  have "record_phases [READY] = engine_run [] (record_phases [READY])" by (simp add: engine_run_def)
  from transition_race_leaves_terminal [OF inv this check _ check', of 0 0] show ?thesis
    by (simp add: strips ids terminal_phases_def) blast
qed

end
