(* ===== verification/NS_Leases.thy ===== *)
theory NS_Leases
  imports NS_Contracts
begin

text \<open>
  Task leases with fencing tokens and compare-and-swap task states,
  \<^verbatim>\<open>core/night_shift/leases.py\<close> (\<^verbatim>\<open>LeaseStore\<close>). The SQLite file is the record of its three
  tables, each a map from its primary key. Every operation but \<^verbatim>\<open>heartbeat\<close> is one transaction;
  \<^verbatim>\<open>heartbeat\<close> reads, updates by compare-and-swap and reads again, so that its update can act on a
  row read before other calls ran: \<open>heartbeat_cas\<close> is that update on its own.
\<close>

section \<open>Tables\<close>

record task_lease =
  tl_task_id :: string
  tl_lease_id :: string
  tl_worker_id :: string
  tl_fencing_token :: int
  tl_expires_at_epoch :: int
  tl_version :: int

record task_state =
  ts_task_id :: string
  ts_state :: string
  ts_version :: int
  ts_fencing_token :: int

record lease_store =
  lc_counters :: "string \<rightharpoonup> int"
  lc_leases :: "string \<rightharpoonup> task_lease"
  lc_states :: "string \<rightharpoonup> task_state"

definition empty_lease_store :: lease_store where
  "empty_lease_store = \<lparr>lc_counters = Map.empty, lc_leases = Map.empty, lc_states = Map.empty\<rparr>"

section \<open>Operations\<close>

definition lease_acquire ::
  "lease_store \<Rightarrow> string \<Rightarrow> string \<Rightarrow> string \<Rightarrow> int \<Rightarrow> int \<Rightarrow> task_lease result \<times> lease_store" where
  "lease_acquire st task_id lease_id worker_id now_epoch ttl_seconds =
     checked (nonblank task_id ''task_id'') st (\<lambda>task.
     checked (nonblank lease_id ''lease_id'') st (\<lambda>lease.
     checked (nonblank worker_id ''worker_id'') st (\<lambda>worker.
     if now_epoch < 0 then (raise_ns ''now_epoch cannot be negative'', st)
     else if ttl_seconds < 1 then (raise_ns ''ttl_seconds must be positive'', st)
     else if (case lc_leases st task of None \<Rightarrow> False | Some row \<Rightarrow> tl_expires_at_epoch row > now_epoch)
     then (raise_ns ''task already has an active lease'', st)
     else
       let token = (case lc_counters st task of None \<Rightarrow> 1 | Some n \<Rightarrow> n + 1);
           version = (case lc_leases st task of None \<Rightarrow> 1 | Some row \<Rightarrow> tl_version row + 1);
           row = \<lparr>tl_task_id = task, tl_lease_id = lease, tl_worker_id = worker, tl_fencing_token = token,
                  tl_expires_at_epoch = now_epoch + ttl_seconds, tl_version = version\<rparr>
       in (return row,
           st\<lparr>lc_counters := (lc_counters st)(task \<mapsto> token), lc_leases := (lc_leases st)(task \<mapsto> row)\<rparr>))))"

text \<open>The row check that \<^verbatim>\<open>require_current\<close>, \<^verbatim>\<open>initialize_state\<close> and
  \<^verbatim>\<open>compare_and_swap_state\<close> each make.\<close>

definition check_lease :: "task_lease option \<Rightarrow> string \<Rightarrow> int \<Rightarrow> int \<Rightarrow> task_lease result" where
  "check_lease row_opt lease_id fencing_token now_epoch =
     (case row_opt of
        None \<Rightarrow> raise_ns ''task lease is missing''
      | Some row \<Rightarrow>
          if tl_lease_id row \<noteq> lease_id \<or> tl_fencing_token row \<noteq> fencing_token
          then raise_ns ''stale lease or fencing token''
          else if now_epoch \<ge> tl_expires_at_epoch row then raise_ns ''task lease expired''
          else return row)"

definition require_current :: "lease_store \<Rightarrow> string \<Rightarrow> string \<Rightarrow> int \<Rightarrow> int \<Rightarrow> task_lease result" where
  "require_current st task_id lease_id fencing_token now_epoch =
     and_then (nonblank task_id ''task_id'') (\<lambda>task.
     and_then (nonblank lease_id ''lease_id'') (\<lambda>lease.
     check_lease (lc_leases st task) lease fencing_token now_epoch))"

text \<open>The update of \<^verbatim>\<open>heartbeat\<close>: it applies to the row with the key, lease, token and version of
  \<open>current\<close>.\<close>

definition heartbeat_cas :: "lease_store \<Rightarrow> task_lease \<Rightarrow> int \<Rightarrow> unit result \<times> lease_store" where
  "heartbeat_cas st current new_expiry =
     (case lc_leases st (tl_task_id current) of
        None \<Rightarrow> (raise_ns ''lease heartbeat CAS conflict'', st)
      | Some row \<Rightarrow>
          if tl_lease_id row = tl_lease_id current \<and> tl_fencing_token row = tl_fencing_token current \<and>
             tl_version row = tl_version current
          then (return (), st\<lparr>lc_leases := (lc_leases st)(tl_task_id current \<mapsto>
                  row\<lparr>tl_expires_at_epoch := new_expiry, tl_version := tl_version row + 1\<rparr>)\<rparr>)
          else (raise_ns ''lease heartbeat CAS conflict'', st))"

text \<open>\<^verbatim>\<open>heartbeat\<close> when no other call runs between its three accesses.\<close>

definition heartbeat ::
  "lease_store \<Rightarrow> string \<Rightarrow> string \<Rightarrow> int \<Rightarrow> int \<Rightarrow> int \<Rightarrow> task_lease result \<times> lease_store" where
  "heartbeat st task_id lease_id fencing_token now_epoch ttl_seconds =
     checked (require_current st task_id lease_id fencing_token now_epoch) st (\<lambda>current.
     if ttl_seconds < 1 then (raise_ns ''ttl_seconds must be positive'', st)
     else (case heartbeat_cas st current (now_epoch + ttl_seconds) of
             (Inl e, st') \<Rightarrow> (raise e, st')
           | (Inr _, st') \<Rightarrow> (require_current st' task_id lease_id fencing_token now_epoch, st')))"

definition initialize_state ::
  "lease_store \<Rightarrow> string \<Rightarrow> string \<Rightarrow> string \<Rightarrow> int \<Rightarrow> int \<Rightarrow> task_state result \<times> lease_store" where
  "initialize_state st task_id state lease_id fencing_token now_epoch =
     checked (nonblank task_id ''task_id'') st (\<lambda>task.
     checked (nonblank lease_id ''lease_id'') st (\<lambda>lease.
     checked (nonblank state ''state'') st (\<lambda>state'.
     checked (check_lease (lc_leases st task) lease fencing_token now_epoch) st (\<lambda>_.
     if lc_states st task \<noteq> None then (raise_ns ''task state already initialized'', st)
     else let row = \<lparr>ts_task_id = task, ts_state = state', ts_version = 1, ts_fencing_token = fencing_token\<rparr>
          in (return row, st\<lparr>lc_states := (lc_states st)(task \<mapsto> row)\<rparr>)))))"

definition compare_and_swap_state ::
  "lease_store \<Rightarrow> string \<Rightarrow> int \<Rightarrow> string \<Rightarrow> string \<Rightarrow> int \<Rightarrow> int \<Rightarrow> task_state result \<times> lease_store" where
  "compare_and_swap_state st task_id expected_version new_state lease_id fencing_token now_epoch =
     checked (nonblank task_id ''task_id'') st (\<lambda>task.
     checked (nonblank lease_id ''lease_id'') st (\<lambda>lease.
     checked (nonblank new_state ''new_state'') st (\<lambda>state'.
     if expected_version < 1 then (raise_ns ''expected_version must be positive'', st)
     else checked (check_lease (lc_leases st task) lease fencing_token now_epoch) st (\<lambda>_.
     case lc_states st task of
       None \<Rightarrow> (raise_ns ''task state CAS conflict'', st)
     | Some old \<Rightarrow>
         if ts_version old \<noteq> expected_version then (raise_ns ''task state CAS conflict'', st)
         else let row = old\<lparr>ts_state := state', ts_version := ts_version old + 1,
                            ts_fencing_token := fencing_token\<rparr>
              in (return row, st\<lparr>lc_states := (lc_states st)(task \<mapsto> row)\<rparr>)))))"

definition get_state :: "lease_store \<Rightarrow> string \<Rightarrow> task_state option result" where
  "get_state st task_id = and_then (nonblank task_id ''task_id'') (\<lambda>task. return (lc_states st task))"

section \<open>Interleaved histories\<close>

text \<open>One atomic access of any process. The update of a heartbeat stands alone, on whatever row its
  process read at an earlier time; reads do not change the tables.\<close>

datatype lease_call =
    Acquire string string string int int
  | HeartbeatCas task_lease int
  | InitializeState string string string int int
  | CasState string int string string int int

fun lease_exec :: "lease_call \<Rightarrow> lease_store \<Rightarrow> lease_store" where
  "lease_exec (Acquire t l w now ttl) st = snd (lease_acquire st t l w now ttl)"
| "lease_exec (HeartbeatCas current expiry) st = snd (heartbeat_cas st current expiry)"
| "lease_exec (InitializeState t s l k now) st = snd (initialize_state st t s l k now)"
| "lease_exec (CasState t v s l k now) st = snd (compare_and_swap_state st t v s l k now)"

definition lease_run :: "lease_call list \<Rightarrow> lease_store \<Rightarrow> lease_store" where
  "lease_run calls st = fold lease_exec calls st"

section \<open>Invariant\<close>

definition lease_inv :: "lease_store \<Rightarrow> bool" where
  "lease_inv st =
     ((\<forall>t row. lc_leases st t = Some row \<longrightarrow>
         tl_task_id row = t \<and> lc_counters st t = Some (tl_fencing_token row) \<and>
         1 \<le> tl_fencing_token row \<and> 1 \<le> tl_version row) \<and>
      (\<forall>t n. lc_counters st t = Some n \<longrightarrow> lc_leases st t \<noteq> None) \<and>
      (\<forall>t s. lc_states st t = Some s \<longrightarrow>
         ts_task_id s = t \<and> 1 \<le> ts_version s \<and>
         (\<exists>n. lc_counters st t = Some n \<and> ts_fencing_token s \<le> n)))"

lemma lease_inv_empty [simp]: "lease_inv empty_lease_store"
  by (simp add: lease_inv_def empty_lease_store_def)

text \<open>The last token issued for a task; zero when none was.\<close>

definition last_token :: "lease_store \<Rightarrow> string \<Rightarrow> int" where
  "last_token st t = (case lc_counters st t of None \<Rightarrow> 0 | Some n \<Rightarrow> n)"

definition state_version :: "lease_store \<Rightarrow> string \<Rightarrow> int" where
  "state_version st t = (case lc_states st t of None \<Rightarrow> 0 | Some s \<Rightarrow> ts_version s)"

definition state_token :: "lease_store \<Rightarrow> string \<Rightarrow> int" where
  "state_token st t = (case lc_states st t of None \<Rightarrow> 0 | Some s \<Rightarrow> ts_fencing_token s)"

lemma check_lease_Inr:
  "check_lease r l k now = Inr row \<longleftrightarrow>
     r = Some row \<and> tl_lease_id row = l \<and> tl_fencing_token row = k \<and> now < tl_expires_at_epoch row"
  by (auto simp: check_lease_def split: option.splits)

lemma lease_acquire_Inr:
  "fst (lease_acquire st t l w now ttl) = Inr row \<longleftrightarrow>
     strip t \<noteq> [] \<and> strip l \<noteq> [] \<and> strip w \<noteq> [] \<and> 0 \<le> now \<and> 1 \<le> ttl \<and>
     (\<forall>old. lc_leases st (strip t) = Some old \<longrightarrow> tl_expires_at_epoch old \<le> now) \<and>
     row = \<lparr>tl_task_id = strip t, tl_lease_id = strip l, tl_worker_id = strip w,
       tl_fencing_token = last_token st (strip t) + 1, tl_expires_at_epoch = now + ttl,
       tl_version = (case lc_leases st (strip t) of None \<Rightarrow> 1 | Some old \<Rightarrow> tl_version old + 1)\<rparr>"
  by (auto simp: lease_acquire_def nonblank_Inr last_token_def Let_def split: option.splits if_splits)

lemma lease_acquire_snd:
  "snd (lease_acquire st t l w now ttl) =
     (case fst (lease_acquire st t l w now ttl) of
        Inl e \<Rightarrow> st
      | Inr row \<Rightarrow> st\<lparr>lc_counters := (lc_counters st)(tl_task_id row \<mapsto> tl_fencing_token row),
                      lc_leases := (lc_leases st)(tl_task_id row \<mapsto> row)\<rparr>)"
  unfolding lease_acquire_def by (simp add: checked_def Let_def split: sum.split)

lemma require_current_Inr:
  "require_current st t l k now = Inr row \<longleftrightarrow>
     strip t \<noteq> [] \<and> strip l \<noteq> [] \<and> lc_leases st (strip t) = Some row \<and> tl_lease_id row = strip l \<and>
     tl_fencing_token row = k \<and> now < tl_expires_at_epoch row"
  by (auto simp: require_current_def nonblank_Inr check_lease_Inr)

lemma initialize_state_Inr:
  "fst (initialize_state st t s l k now) = Inr row \<longleftrightarrow>
     strip t \<noteq> [] \<and> strip l \<noteq> [] \<and> strip s \<noteq> [] \<and> lc_states st (strip t) = None \<and>
     (\<exists>lease. require_current st t l k now = Inr lease) \<and>
     row = \<lparr>ts_task_id = strip t, ts_state = strip s, ts_version = 1, ts_fencing_token = k\<rparr>"
  by (auto simp: initialize_state_def nonblank_Inr check_lease_Inr require_current_Inr Let_def split: if_splits)

lemma initialize_state_snd:
  "snd (initialize_state st t s l k now) =
     (case fst (initialize_state st t s l k now) of
        Inl e \<Rightarrow> st | Inr row \<Rightarrow> st\<lparr>lc_states := (lc_states st)(ts_task_id row \<mapsto> row)\<rparr>)"
  unfolding initialize_state_def by (simp add: checked_def Let_def split: sum.split)

lemma compare_and_swap_state_Inr:
  "fst (compare_and_swap_state st t v s l k now) = Inr row \<longleftrightarrow>
     strip t \<noteq> [] \<and> strip l \<noteq> [] \<and> strip s \<noteq> [] \<and> 1 \<le> v \<and>
     (\<exists>lease. require_current st t l k now = Inr lease) \<and>
     (\<exists>old. lc_states st (strip t) = Some old \<and> ts_version old = v \<and>
        row = old\<lparr>ts_state := strip s, ts_version := v + 1, ts_fencing_token := k\<rparr>)"
  by (auto simp: compare_and_swap_state_def nonblank_Inr check_lease_Inr require_current_Inr Let_def
      split: if_splits option.splits)

lemma compare_and_swap_state_snd:
  "snd (compare_and_swap_state st t v s l k now) =
     (case fst (compare_and_swap_state st t v s l k now) of
        Inl e \<Rightarrow> st | Inr row \<Rightarrow> st\<lparr>lc_states := (lc_states st)(strip t \<mapsto> row)\<rparr>)"
  unfolding compare_and_swap_state_def
  by (simp add: checked_def Let_def nonblank_def split: sum.split option.split)

lemma heartbeat_cas_snd:
  "snd (heartbeat_cas st c e) = st \<or>
     (\<exists>row. lc_leases st (tl_task_id c) = Some row \<and> snd (heartbeat_cas st c e) =
        st\<lparr>lc_leases := (lc_leases st)(tl_task_id c \<mapsto>
             row\<lparr>tl_expires_at_epoch := e, tl_version := tl_version row + 1\<rparr>)\<rparr>)"
  by (auto simp: heartbeat_cas_def split: option.splits)

text \<open>What one access can do to the tables, as a relation.\<close>

inductive lease_change :: "lease_store \<Rightarrow> lease_store \<Rightarrow> bool" where
  same: "lease_change st st"
| acquired: "tl_task_id row = t \<Longrightarrow> tl_fencing_token row = last_token st t + 1 \<Longrightarrow>
    tl_version row = (case lc_leases st t of None \<Rightarrow> 1 | Some old \<Rightarrow> tl_version old + 1) \<Longrightarrow>
    lease_change st (st\<lparr>lc_counters := (lc_counters st)(t \<mapsto> tl_fencing_token row),
      lc_leases := (lc_leases st)(t \<mapsto> row)\<rparr>)"
| beat: "lc_leases st t = Some row \<Longrightarrow> lease_change st (st\<lparr>lc_leases := (lc_leases st)(t \<mapsto>
      row\<lparr>tl_expires_at_epoch := e, tl_version := tl_version row + 1\<rparr>)\<rparr>)"
| wrote: "ts_task_id row = t \<Longrightarrow> lc_leases st t = Some lease \<Longrightarrow>
    ts_fencing_token row = tl_fencing_token lease \<Longrightarrow> ts_version row = state_version st t + 1 \<Longrightarrow>
    lease_change st (st\<lparr>lc_states := (lc_states st)(t \<mapsto> row)\<rparr>)"

lemma lease_acquire_change: "lease_change st (snd (lease_acquire st t l w now ttl))"
proof (cases "fst (lease_acquire st t l w now ttl)")
  case (Inr row)
  then have "lease_change st (st\<lparr>lc_counters := (lc_counters st)(strip t \<mapsto> tl_fencing_token row),
      lc_leases := (lc_leases st)(strip t \<mapsto> row)\<rparr>)"
    by (intro lease_change.acquired) (auto simp: lease_acquire_Inr)
  moreover have "tl_task_id row = strip t" using Inr by (auto simp: lease_acquire_Inr)
  ultimately show ?thesis using Inr by (simp add: lease_acquire_snd)
qed (simp add: lease_acquire_snd lease_change.same)

lemma initialize_state_change: "lease_change st (snd (initialize_state st t s l k now))"
proof (cases "fst (initialize_state st t s l k now)")
  case (Inr row)
  then obtain lease where "lc_leases st (strip t) = Some lease" "tl_fencing_token lease = k"
      "row = \<lparr>ts_task_id = strip t, ts_state = strip s, ts_version = 1, ts_fencing_token = k\<rparr>"
      "lc_states st (strip t) = None"
    by (auto simp: initialize_state_Inr require_current_Inr)
  then show ?thesis using Inr
    by (simp add: initialize_state_snd lease_change.wrote state_version_def)
qed (simp add: initialize_state_snd lease_change.same)

lemma cas_state_change:
  assumes "lease_inv st"
  shows "lease_change st (snd (compare_and_swap_state st t v s l k now))"
proof (cases "fst (compare_and_swap_state st t v s l k now)")
  case (Inr row)
  then obtain lease old where "lc_leases st (strip t) = Some lease" "tl_fencing_token lease = k"
      "lc_states st (strip t) = Some old" "ts_version old = v"
      "row = old\<lparr>ts_state := strip s, ts_version := v + 1, ts_fencing_token := k\<rparr>"
    by (auto simp: compare_and_swap_state_Inr require_current_Inr)
  moreover from this have "ts_task_id old = strip t" using assms by (simp add: lease_inv_def)
  ultimately show ?thesis using Inr
    by (simp add: compare_and_swap_state_snd lease_change.wrote state_version_def)
qed (simp add: compare_and_swap_state_snd lease_change.same)

lemma heartbeat_cas_change: "lease_change st (snd (heartbeat_cas st c e))"
  using heartbeat_cas_snd [of st c e] by (auto intro: lease_change.intros)

lemma lease_exec_change: "lease_inv st \<Longrightarrow> lease_change st (lease_exec c st)"
  by (cases c) (simp_all add: lease_acquire_change initialize_state_change cas_state_change heartbeat_cas_change)

lemma last_token_lease: "lease_inv st \<Longrightarrow> lc_leases st t = Some row \<Longrightarrow> tl_fencing_token row = last_token st t"
  by (simp add: lease_inv_def last_token_def)

lemma last_token_nonneg: "lease_inv st \<Longrightarrow> 0 \<le> last_token st t"
  unfolding lease_inv_def last_token_def by (cases "lc_counters st t"; cases "lc_leases st t") fastforce+

lemma state_token_le: "lease_inv st \<Longrightarrow> state_token st t \<le> last_token st t"
  using last_token_nonneg [of st t] unfolding lease_inv_def last_token_def state_token_def
  by (cases "lc_states st t") fastforce+

lemma lease_change_inv: "lease_change st st' \<Longrightarrow> lease_inv st \<Longrightarrow> lease_inv st'"
proof (induction rule: lease_change.induct)
  case (acquired row t st)
  have "0 \<le> last_token st t" using acquired by (simp add: last_token_nonneg)
  then show ?case using acquired
    by (auto simp: lease_inv_def last_token_def split: option.splits) force+
next
  case (beat st t row e)
  then show ?case by (fastforce simp: lease_inv_def)
next
  case (wrote row t st lease)
  have "0 \<le> state_version st t" using wrote by (auto simp: lease_inv_def state_version_def split: option.splits) force
  then show ?case using wrote by (auto simp: lease_inv_def)
qed

lemma lease_change_mono:
  "lease_change st st' \<Longrightarrow> lease_inv st \<Longrightarrow>
     last_token st x \<le> last_token st' x \<and> state_version st x \<le> state_version st' x \<and>
     state_token st x \<le> state_token st' x"
proof (induction rule: lease_change.induct)
  case (wrote row t st lease)
  then show ?case using state_token_le [of st t] last_token_lease [of st t lease]
    by (auto simp: last_token_def state_version_def state_token_def)
qed (auto simp: last_token_def state_version_def state_token_def)

lemma lease_run_snoc: "lease_run (calls @ [c]) st = lease_exec c (lease_run calls st)"
  by (simp add: lease_run_def)

lemma lease_run_inv: "lease_inv st \<Longrightarrow> lease_inv (lease_run calls st)"
  by (induction calls rule: rev_induct)
    (auto simp: lease_run_def intro: lease_change_inv lease_exec_change)

lemma lease_run_mono:
  "lease_inv st \<Longrightarrow> last_token st x \<le> last_token (lease_run calls st) x \<and>
     state_version st x \<le> state_version (lease_run calls st) x \<and>
     state_token st x \<le> state_token (lease_run calls st) x"
proof (induction calls rule: rev_induct)
  case (snoc c calls)
  then show ?case
    using lease_change_mono [OF lease_exec_change [of "lease_run calls st" c], of x] lease_run_inv [of st calls]
    by (simp add: lease_run_snoc)
qed (simp add: lease_run_def)



section \<open>Properties\<close>


text \<open>No lost update. After a compare-and-swap of a task's state has succeeded against a
  version, every later compare-and-swap against the same or an older version fails and changes
  nothing, whatever ran in between; and the fencing token stored with the state never
  decreases.\<close>

theorem state_cas_succeeds_once:
  assumes "fst (compare_and_swap_state (lease_run before empty_lease_store) t v s l k now) = return row"
    and "st = lease_run later (snd (compare_and_swap_state (lease_run before empty_lease_store) t v s l k now))"
    and "v' \<le> v"
  shows "(\<exists>e. fst (compare_and_swap_state st t v' s' l' k' now') = raise e) \<and>
    snd (compare_and_swap_state st t v' s' l' k' now') = st \<and> k \<le> state_token st (strip t)"
proof -
  let ?st0 = "lease_run before empty_lease_store"
  let ?st1 = "snd (compare_and_swap_state ?st0 t v s l k now)"
  have inv0: "lease_inv ?st0" by (simp add: lease_run_inv)
  have inv1: "lease_inv ?st1" using lease_change_inv [OF cas_state_change [OF inv0] inv0] .
  have row: "ts_version row = v + 1" "ts_fencing_token row = k"
    using assms(1) unfolding compare_and_swap_state_Inr by auto
  have "v + 1 = state_version ?st1 (strip t)" "k = state_token ?st1 (strip t)"
    using assms(1) row by (simp_all add: compare_and_swap_state_snd state_version_def state_token_def)
  then have "v' < state_version st (strip t)" and k: "k \<le> state_token st (strip t)"
    using lease_run_mono [OF inv1, of "strip t" later] assms(2,3) by auto
  then have "fst (compare_and_swap_state st t v' s' l' k' now') \<noteq> Inr r" for r
    unfolding compare_and_swap_state_Inr state_version_def by (auto split: option.splits)
  then obtain e where "fst (compare_and_swap_state st t v' s' l' k' now') = Inl e" by (metis sum.exhaust)
  then show ?thesis using k by (simp add: compare_and_swap_state_snd)
qed

text \<open>A live lease excludes. While the row of a task has not expired at the given clock,
  \<^verbatim>\<open>acquire\<close> raises and changes nothing; once it has, \<^verbatim>\<open>acquire\<close> with valid arguments succeeds with
  the next token, and from then on the previous holder is refused while the new one is current until
  the expiry.\<close>

theorem lease_handover:
  assumes "st = lease_run calls empty_lease_store" and "lc_leases st (strip t) = Some old"
    and "strip l \<noteq> []" "strip w \<noteq> []" "0 \<le> now" "1 \<le> ttl" "strip t \<noteq> []"
  shows "(now < tl_expires_at_epoch old \<longrightarrow>
      lease_acquire st t l w now ttl = (raise_ns ''task already has an active lease'', st)) \<and>
    (tl_expires_at_epoch old \<le> now \<longrightarrow>
      (\<exists>lease st'. lease_acquire st t l w now ttl = (return lease, st') \<and>
         tl_fencing_token lease = tl_fencing_token old + 1 \<and>
         (\<forall>now'. now' < now + ttl \<longrightarrow> require_current st' t l (tl_fencing_token lease) now' = return lease) \<and>
         (\<forall>l' now'. require_current st' t l' (tl_fencing_token old) now' = raise_ns ''stale lease or fencing token''
            \<or> strip l' = [])))"
proof -
  have inv: "lease_inv st" unfolding assms(1) by (simp add: lease_run_inv)
  have c: "lc_counters st (strip t) = Some (tl_fencing_token old)" using inv assms(2) by (simp add: lease_inv_def)
  show ?thesis using assms(2-) c
    by (auto simp: lease_acquire_def nonblank_def Let_def require_current_def check_lease_def)
qed

section \<open>Witnesses\<close>

definition sample_lease :: task_lease where
  "sample_lease = \<lparr>tl_task_id = ''t'', tl_lease_id = ''l'', tl_worker_id = ''w'', tl_fencing_token = 1,
     tl_expires_at_epoch = 10, tl_version = 1\<rparr>"

definition leased_store :: lease_store where
  "leased_store = \<lparr>lc_counters = [''t'' \<mapsto> 1], lc_leases = [''t'' \<mapsto> sample_lease], lc_states = Map.empty\<rparr>"

lemma sample_words: "strip ''t'' = ''t''" "strip ''l'' = ''l''" "strip ''w'' = ''w''" "strip ''READY'' = ''READY''"
  by (simp_all add: strip_def is_space_def)

lemma sample_acquire: "lease_acquire (lease_run [] empty_lease_store) ''t'' ''l'' ''w'' 0 10 = (return sample_lease, leased_store)"
  by (simp add: lease_run_def lease_acquire_def empty_lease_store_def sample_words nonblank_def checked_def sample_lease_def leased_store_def Let_def)

lemma leased_store_run: "leased_store = lease_run [Acquire ''t'' ''l'' ''w'' 0 10] empty_lease_store"
  using sample_acquire by (simp add: lease_run_def)


definition stated_store :: lease_store where
  "stated_store = leased_store\<lparr>lc_states := [''t'' \<mapsto> \<lparr>ts_task_id = ''t'', ts_state = ''READY'', ts_version = 2, ts_fencing_token = 1\<rparr>]\<rparr>"

lemma sample_cas:
  "compare_and_swap_state (lease_run [Acquire ''t'' ''l'' ''w'' 0 10, InitializeState ''t'' ''READY'' ''l'' 1 0] empty_lease_store)
     ''t'' 1 ''READY'' ''l'' 1 0 =
   (return \<lparr>ts_task_id = ''t'', ts_state = ''READY'', ts_version = 2, ts_fencing_token = 1\<rparr>, stated_store)"
proof -
  have "lease_run [Acquire ''t'' ''l'' ''w'' 0 10, InitializeState ''t'' ''READY'' ''l'' 1 0] empty_lease_store =
      snd (initialize_state leased_store ''t'' ''READY'' ''l'' 1 0)"
    unfolding leased_store_run by (simp add: lease_run_def)
  then show ?thesis
    by (simp add: compare_and_swap_state_def initialize_state_def leased_store_def sample_words nonblank_def checked_def
        check_lease_def sample_lease_def stated_store_def Let_def)
qed

lemma state_cas_succeeds_once_witness:
  "\<exists>e. fst (compare_and_swap_state stated_store ''t'' 1 ''READY'' ''l'' 1 0) = raise e"
proof -
  let ?before = "[Acquire ''t'' ''l'' ''w'' 0 10, InitializeState ''t'' ''READY'' ''l'' 1 0]"
  have "stated_store = lease_run [] (snd (compare_and_swap_state (lease_run ?before empty_lease_store) ''t'' 1 ''READY'' ''l'' 1 0))"
    unfolding sample_cas by (simp add: lease_run_def)
  from state_cas_succeeds_once [OF _ this] show ?thesis unfolding sample_cas by simp
qed

lemma lease_handover_witness:
  "\<exists>lease st'. lease_acquire leased_store ''t'' ''l'' ''w'' 20 10 = (return lease, st') \<and> tl_fencing_token lease = 2"
proof -
  have "lc_leases leased_store (strip ''t'') = Some sample_lease" by (simp add: leased_store_def sample_words)
  moreover have "tl_expires_at_epoch sample_lease \<le> 20" "tl_fencing_token sample_lease = 1" by (simp_all add: sample_lease_def)
  ultimately show ?thesis using lease_handover [OF leased_store_run, of "''t''" sample_lease "''l''" "''w''" 20 10]
    by (auto simp: sample_words)
qed

end
