(* ===== verification/NS_Authority.thy ===== *)
theory NS_Authority
  imports NS_Contracts
begin

text \<open>
  The durable task budget of an autonomy envelope, \<^verbatim>\<open>core/night_shift/authority.py\<close>
  (\<^verbatim>\<open>AuthorityBudgetStore\<close>), as the provider of the reservation verifier that \<open>authorize_task\<close>
  consults. The SQLite file is the record of its two tables: \<^verbatim>\<open>envelope_usage\<close> as a map from its
  primary key, \<^verbatim>\<open>authority_reservations\<close> as the list of its rows in insertion order. Each operation
  runs in one transaction; what it raises before the commit leaves the tables as they were.
\<close>

section \<open>Tables and operations\<close>

record authority_store =
  st_usage :: "string \<rightharpoonup> int"
  st_reservations :: "authority_reservation list"

definition empty_authority_store :: authority_store where
  "empty_authority_store = \<lparr>st_usage = Map.empty, st_reservations = []\<rparr>"

text \<open>\<^verbatim>\<open>SELECT ordinal FROM authority_reservations WHERE envelope_digest = ? AND task_id = ?\<close>.\<close>

definition select_reservation :: "authority_store \<Rightarrow> string \<Rightarrow> string \<Rightarrow> authority_reservation option" where
  "select_reservation st digest task_id =
     find (\<lambda>row. ar_envelope_digest row = digest \<and> ar_task_id row = task_id) (st_reservations st)"

text \<open>\<^verbatim>\<open>INSERT INTO authority_reservations\<close>, with its primary key and its unique constraint.\<close>

definition insert_reservation :: "authority_store \<Rightarrow> authority_reservation \<Rightarrow> authority_store result" where
  "insert_reservation st row =
     (if \<exists>r \<in> set (st_reservations st). ar_envelope_digest r = ar_envelope_digest row \<and>
           (ar_task_id r = ar_task_id row \<or> ar_ordinal r = ar_ordinal row)
      then raise SqliteIntegrityError
      else return (st\<lparr>st_reservations := st_reservations st @ [row]\<rparr>))"

text \<open>\<^verbatim>\<open>reserve_task\<close>: what it returns or raises, and the tables after it.\<close>

definition reserve_task ::
  "authority_store \<Rightarrow> autonomy_envelope \<Rightarrow> string \<Rightarrow> int \<Rightarrow> authority_reservation result \<times> authority_store" where
  "reserve_task st envelope task_id now_epoch =
     (case nonblank task_id ''task_id'' of
        Inl e \<Rightarrow> (raise e, st)
      | Inr task \<Rightarrow>
          if now_epoch < ae_issued_at_epoch envelope
          then (raise_ns ''current time precedes authority issuance'', st)
          else if now_epoch \<ge> ae_expires_at_epoch envelope
          then (raise_ns ''authority envelope expired'', st)
          else let digest = autonomy_envelope_digest envelope in
            (case select_reservation st digest task of
               Some row \<Rightarrow>
                 (authority_reservation_init
                    \<lparr>ar_envelope_digest = digest, ar_task_id = task, ar_ordinal = ar_ordinal row\<rparr>, st)
             | None \<Rightarrow>
                 let consumed = (case st_usage st digest of None \<Rightarrow> 0 | Some n \<Rightarrow> n) in
                 if consumed \<ge> ae_max_tasks envelope
                 then (raise_ns ''autonomy envelope task budget exhausted'', st)
                 else let ordinal = consumed + 1;
                          row = \<lparr>ar_envelope_digest = digest, ar_task_id = task, ar_ordinal = ordinal\<rparr>
                      in (case insert_reservation (st\<lparr>st_usage := (st_usage st)(digest \<mapsto> ordinal)\<rparr>) row of
                            Inl e \<Rightarrow> (raise e, st)
                          | Inr st' \<Rightarrow> (authority_reservation_init row, st'))))"

definition require_reserved :: "authority_store \<Rightarrow> authority_reservation \<Rightarrow> unit result" where
  "require_reserved st reservation =
     (case select_reservation st (ar_envelope_digest reservation) (ar_task_id reservation) of
        None \<Rightarrow> raise_ns ''authority reservation is not present in the durable budget store''
      | Some row \<Rightarrow>
          if ar_ordinal row \<noteq> ar_ordinal reservation
          then raise_ns ''authority reservation is not present in the durable budget store''
          else return ())"

section \<open>Invariant of the tables\<close>

definition rows_of :: "string \<Rightarrow> authority_reservation list \<Rightarrow> authority_reservation list" where
  "rows_of digest rows = filter (\<lambda>r. ar_envelope_digest r = digest) rows"

definition consumed_of :: "authority_store \<Rightarrow> string \<Rightarrow> int" where
  "consumed_of st digest = (case st_usage st digest of None \<Rightarrow> 0 | Some n \<Rightarrow> n)"

text \<open>The ordinals of an envelope are 1, 2, ... up to the consumed count, in order of insertion;
  its task identifiers are distinct; every row is a normalised reservation.\<close>

definition authority_inv :: "authority_store \<Rightarrow> bool" where
  "authority_inv st =
     ((\<forall>d. map ar_ordinal (rows_of d (st_reservations st)) = [1..consumed_of st d] \<and>
           0 \<le> consumed_of st d \<and>
           distinct (map ar_task_id (rows_of d (st_reservations st)))) \<and>
      (\<forall>r \<in> set (st_reservations st). is_sha256 (ar_envelope_digest r) \<and> is_text (ar_task_id r)))"

lemma set_rows_of [simp]: "r \<in> set (rows_of d rows) \<longleftrightarrow> r \<in> set rows \<and> ar_envelope_digest r = d"
  by (auto simp: rows_of_def)

lemma rows_of_simps [simp]:
  "rows_of d [] = []"
  "rows_of d (rows @ [r]) = (if ar_envelope_digest r = d then rows_of d rows @ [r] else rows_of d rows)"
  by (simp_all add: rows_of_def)

lemma authority_inv_empty [simp]: "authority_inv empty_authority_store"
  by (simp add: authority_inv_def empty_authority_store_def consumed_of_def)

lemma authority_inv_ordinal:
  assumes "authority_inv st" "r \<in> set (st_reservations st)"
  shows "1 \<le> ar_ordinal r" and "ar_ordinal r \<le> consumed_of st (ar_envelope_digest r)"
proof -
  have "ar_ordinal r \<in> set (map ar_ordinal (rows_of (ar_envelope_digest r) (st_reservations st)))"
    using assms(2) by auto
  then have "ar_ordinal r \<in> {1..consumed_of st (ar_envelope_digest r)}"
    using assms(1) by (metis authority_inv_def set_upto)
  then show "1 \<le> ar_ordinal r" "ar_ordinal r \<le> consumed_of st (ar_envelope_digest r)" by simp_all
qed

lemma authority_inv_inj:
  assumes "authority_inv st" "r \<in> set (st_reservations st)" "r' \<in> set (st_reservations st)"
    and "ar_envelope_digest r = ar_envelope_digest r'"
  shows "ar_ordinal r = ar_ordinal r' \<longleftrightarrow> ar_task_id r = ar_task_id r'"
proof -
  let ?rows = "rows_of (ar_envelope_digest r) (st_reservations st)"
  have o: "distinct (map ar_ordinal ?rows)" and t: "distinct (map ar_task_id ?rows)"
    using assms(1) unfolding authority_inv_def by (metis distinct_upto, metis)
  have "r \<in> set ?rows" "r' \<in> set ?rows" using assms by simp_all
  with o t show ?thesis by (metis distinct_map inj_on_contraD)
qed

lemma select_reservation_Some:
  "select_reservation st d t = Some row \<Longrightarrow>
     row \<in> set (st_reservations st) \<and> ar_envelope_digest row = d \<and> ar_task_id row = t"
  by (auto simp: select_reservation_def find_Some_iff)

lemma select_reservation_None:
  "select_reservation st d t = None \<longleftrightarrow>
     (\<forall>r \<in> set (st_reservations st). ar_envelope_digest r = d \<longrightarrow> ar_task_id r \<noteq> t)"
  by (auto simp: select_reservation_def find_None_iff)

lemma select_reservation_row:
  assumes "authority_inv st" "r \<in> set (st_reservations st)"
  shows "select_reservation st (ar_envelope_digest r) (ar_task_id r) = Some r"
proof (cases "select_reservation st (ar_envelope_digest r) (ar_task_id r)")
  case None
  with assms(2) show ?thesis by (metis select_reservation_None)
next
  case (Some r')
  from select_reservation_Some [OF this] authority_inv_inj [OF assms, of r']
  show ?thesis using Some by auto
qed

lemma require_reserved_Inr:
  assumes "authority_inv st"
  shows "require_reserved st r = Inr () \<longleftrightarrow> r \<in> set (st_reservations st)"
proof
  assume "require_reserved st r = Inr ()"
  then obtain row where row: "select_reservation st (ar_envelope_digest r) (ar_task_id r) = Some row"
      "ar_ordinal row = ar_ordinal r"
    by (auto simp: require_reserved_def split: option.splits if_splits)
  with select_reservation_Some [OF row(1)] have "row = r" by (auto intro: authority_reservation.equality)
  with select_reservation_Some [OF row(1)] show "r \<in> set (st_reservations st)" by simp
qed (simp add: require_reserved_def select_reservation_row [OF assms])

text \<open>The insert of \<open>reserve_task\<close> never violates a constraint.\<close>

lemma insert_reservation_ok:
  assumes "authority_inv st" "select_reservation st d t = None"
  shows "insert_reservation (st\<lparr>st_usage := u\<rparr>) \<lparr>ar_envelope_digest = d, ar_task_id = t, ar_ordinal = consumed_of st d + 1\<rparr> =
    Inr (st\<lparr>st_usage := u, st_reservations := st_reservations st @
      [\<lparr>ar_envelope_digest = d, ar_task_id = t, ar_ordinal = consumed_of st d + 1\<rparr>]\<rparr>)"
  using assms(2) authority_inv_ordinal(2) [OF assms(1)]
  by (fastforce simp: insert_reservation_def select_reservation_None)

lemma authority_reservation_init_row:
  assumes "is_sha256 d" "is_text t" "1 \<le> n"
  shows "authority_reservation_init \<lparr>ar_envelope_digest = d, ar_task_id = t, ar_ordinal = n\<rparr> =
    Inr \<lparr>ar_envelope_digest = d, ar_task_id = t, ar_ordinal = n\<rparr>"
  using assms by (simp add: authority_reservation_init_def)

text \<open>All that \<open>reserve_task\<close> can do under the invariant.\<close>

lemma reserve_task_cases:
  assumes "authority_inv st"
  obtains (refused) e where "reserve_task st env task now = (Inl e, st)"
  | (again) row where "reserve_task st env task now = (Inr row, st)" "row \<in> set (st_reservations st)"
      "ar_envelope_digest row = autonomy_envelope_digest env" "ar_task_id row = strip task"
  | (fresh) row where "reserve_task st env task now =
        (Inr row, \<lparr>st_usage = (st_usage st)(autonomy_envelope_digest env \<mapsto> ar_ordinal row),
          st_reservations = st_reservations st @ [row]\<rparr>)"
      "ar_ordinal row = consumed_of st (autonomy_envelope_digest env) + 1"
      "ar_ordinal row \<le> ae_max_tasks env"
      "ar_envelope_digest row = autonomy_envelope_digest env" "ar_task_id row = strip task"
      "is_text (strip task)"
      "select_reservation st (autonomy_envelope_digest env) (strip task) = None"
proof -
  let ?d = "autonomy_envelope_digest env"
  let ?new = "\<lparr>ar_envelope_digest = ?d, ar_task_id = strip task, ar_ordinal = consumed_of st ?d + 1\<rparr>"
  consider (blank) "strip task = []" | (early) "now < ae_issued_at_epoch env" | (late) "now \<ge> ae_expires_at_epoch env"
    | (ok) "strip task \<noteq> []" "\<not> now < ae_issued_at_epoch env" "\<not> now \<ge> ae_expires_at_epoch env" by blast
  then show thesis
  proof cases
    case ok
    then have n: "nonblank task ''task_id'' = Inr (strip task)" "is_text (strip task)"
      by (simp_all add: nonblank_Inr is_text_def)
    show thesis
    proof (cases "select_reservation st ?d (strip task)")
      case (Some row)
      note sel = select_reservation_Some [OF Some]
      have "reserve_task st env task now = (Inr row, st)"
        using ok n Some sel authority_inv_ordinal(1) [OF assms, of row]
          authority_reservation_init_row [of ?d "strip task" "ar_ordinal row"]
        by (simp add: reserve_task_def Let_def)
      then show thesis using again sel by blast
    next
      case None
      show thesis
      proof (cases "consumed_of st ?d \<ge> ae_max_tasks env")
        case True
        then show thesis using ok n None refused
          by (simp add: reserve_task_def Let_def consumed_of_def)
      next
        case False
        have "0 \<le> consumed_of st ?d" using assms by (simp add: authority_inv_def)
        then have "authority_reservation_init ?new = Inr ?new"
          by (intro authority_reservation_init_row) (simp_all add: n)
        then have "reserve_task st env task now =
           (Inr ?new, st\<lparr>st_usage := (st_usage st)(?d \<mapsto> ar_ordinal ?new), st_reservations := st_reservations st @ [?new]\<rparr>)"
          using ok n None False insert_reservation_ok [OF assms None]
          by (simp add: reserve_task_def Let_def flip: consumed_of_def)
        with n None False show thesis by (intro fresh [of ?new]) simp_all
      qed
    qed
  next
    case blank
    then show thesis using refused by (simp add: reserve_task_def nonblank_def)
  next
    case early
    then show thesis using refused by (cases "nonblank task ''task_id''") (simp_all add: reserve_task_def)
  next
    case late
    then show thesis using refused
      by (cases "nonblank task ''task_id''"; cases "now < ae_issued_at_epoch env") (simp_all add: reserve_task_def)
  qed
qed

lemma authority_inv_fresh:
  assumes inv: "authority_inv st" and "is_sha256 d" "is_text t" "select_reservation st d t = None"
    and row: "ar_envelope_digest row = d" "ar_task_id row = t" "ar_ordinal row = consumed_of st d + 1"
  shows "authority_inv \<lparr>st_usage = (st_usage st)(d \<mapsto> ar_ordinal row), st_reservations = st_reservations st @ [row]\<rparr>"
proof -
  let ?st' = "\<lparr>st_usage = (st_usage st)(d \<mapsto> ar_ordinal row), st_reservations = st_reservations st @ [row]\<rparr>"
  have c: "consumed_of ?st' x = (if x = d then consumed_of st d + 1 else consumed_of st x)" for x
    by (simp add: consumed_of_def row)
  have rows: "rows_of x (st_reservations ?st') =
      (if x = d then rows_of d (st_reservations st) @ [row] else rows_of x (st_reservations st))" for x
    using row by simp
  have "0 \<le> consumed_of st d" using inv by (simp add: authority_inv_def)
  then have "[1..consumed_of st d + 1] = [1..consumed_of st d] @ [consumed_of st d + 1]"
    by (simp add: upto_rec2)
  moreover have "t \<notin> ar_task_id ` set (rows_of d (st_reservations st))"
    using assms(4) by (auto simp: select_reservation_None)
  ultimately have "map ar_ordinal (rows_of x (st_reservations ?st')) = [1..consumed_of ?st' x] \<and>
      0 \<le> consumed_of ?st' x \<and> distinct (map ar_task_id (rows_of x (st_reservations ?st')))" for x
    unfolding rows c using inv row by (cases "x = d") (simp_all add: authority_inv_def)
  moreover have "\<forall>r \<in> set (st_reservations ?st'). is_sha256 (ar_envelope_digest r) \<and> is_text (ar_task_id r)"
    using assms by (simp add: authority_inv_def)
  ultimately show ?thesis unfolding authority_inv_def by blast
qed

lemma reserve_task_inv:
  assumes "authority_inv st"
  shows "authority_inv (snd (reserve_task st env task now))"
  using assms
proof (cases rule: reserve_task_cases [where env = env and task = task and now = now])
  case (fresh row)
  then show ?thesis using authority_inv_fresh [OF assms _ _ fresh(7) fresh(4,5,2)] by simp
qed (simp_all add: assms)

lemma reserve_task_keeps:
  assumes "authority_inv st"
  shows "set (st_reservations st) \<subseteq> set (st_reservations (snd (reserve_task st env task now)))"
  by (cases rule: reserve_task_cases [OF assms, of env task now]) auto

lemma reserve_task_grants:
  assumes "authority_inv st" "fst (reserve_task st env task now) = Inr r"
  shows "r \<in> set (st_reservations (snd (reserve_task st env task now))) \<and>
    ar_envelope_digest r = autonomy_envelope_digest env \<and> ar_task_id r = strip task"
  using assms(2) by (cases rule: reserve_task_cases [OF assms(1), of env task now]) auto

section \<open>The verifier protocol\<close>

text \<open>What \<open>authorize_task\<close> needs of an \<^verbatim>\<open>AuthorityReservationVerifier\<close>: a reservation it
  confirms has a positive ordinal, and one ordinal of an envelope is never confirmed for two
  tasks.\<close>

locale reservation_verifier =
  fixes valid :: "'st \<Rightarrow> bool"
    and verify :: "'st \<Rightarrow> authority_reservation \<Rightarrow> unit result"
  assumes verify_positive: "valid st \<Longrightarrow> verify st r = Inr () \<Longrightarrow> 1 \<le> ar_ordinal r"
    and verify_ordinal: "valid st \<Longrightarrow> verify st r = Inr () \<Longrightarrow> verify st r' = Inr () \<Longrightarrow>
      ar_envelope_digest r = ar_envelope_digest r' \<Longrightarrow> ar_ordinal r = ar_ordinal r' \<Longrightarrow>
      ar_task_id r = ar_task_id r'"
begin

text \<open>The tasks an envelope lets through, over all policies, snapshots and clocks.\<close>

definition authorizable :: "'st \<Rightarrow> autonomy_envelope \<Rightarrow> string set" where
  "authorizable st e =
     {tc_task_id t | t. \<exists>p s r now i d. authorize_task p s t e r (verify st) now i = Inr d}"

lemma authorizable_witnessed:
  assumes "t \<in> authorizable st e"
  obtains r where "verify st r = Inr ()" "ar_envelope_digest r = autonomy_envelope_digest e"
    "ar_task_id r = t" "ar_ordinal r \<le> ae_max_tasks e"
proof -
  from assms obtain p s c r now i d where t: "t = tc_task_id c"
      and a: "authorize_task p s c e r (verify st) now i = Inr d"
    unfolding authorizable_def by blast
  from a have "verify st r = Inr () \<and> ar_envelope_digest r = autonomy_envelope_digest e \<and>
      ar_task_id r = tc_task_id c \<and> ar_ordinal r \<le> ae_max_tasks e"
    unfolding authorize_task_Inr by blast
  with t that show thesis by blast
qed

lemma authorizable_bound:
  assumes "valid st"
  shows "finite (authorizable st e) \<and> card (authorizable st e) \<le> nat (ae_max_tasks e)"
proof -
  define pick where "pick t = (SOME n. n \<in> {1..ae_max_tasks e} \<and> (\<exists>r. verify st r = Inr () \<and>
      ar_envelope_digest r = autonomy_envelope_digest e \<and> ar_task_id r = t \<and> ar_ordinal r = n))" for t
  have pick: "pick t \<in> {1..ae_max_tasks e} \<and> (\<exists>r. verify st r = Inr () \<and>
      ar_envelope_digest r = autonomy_envelope_digest e \<and> ar_task_id r = t \<and> ar_ordinal r = pick t)"
    if "t \<in> authorizable st e" for t
    unfolding pick_def
  proof (rule someI_ex)
    from that obtain r where "verify st r = Inr ()" "ar_envelope_digest r = autonomy_envelope_digest e"
        "ar_task_id r = t" "ar_ordinal r \<le> ae_max_tasks e"
      by (rule authorizable_witnessed)
    with verify_positive [OF assms] show "\<exists>n. n \<in> {1..ae_max_tasks e} \<and> (\<exists>r. verify st r = Inr () \<and>
        ar_envelope_digest r = autonomy_envelope_digest e \<and> ar_task_id r = t \<and> ar_ordinal r = n)"
      by auto
  qed
  have inj: "inj_on pick (authorizable st e)"
  proof (rule inj_onI)
    fix a b assume "a \<in> authorizable st e" "b \<in> authorizable st e" "pick a = pick b"
    with pick [of a] pick [of b] verify_ordinal [OF assms] show "a = b" by metis
  qed
  have sub: "pick ` authorizable st e \<subseteq> {1..ae_max_tasks e}" using pick by blast
  have "finite (authorizable st e)" using inj_on_finite [OF inj sub] by simp
  moreover have "card (authorizable st e) \<le> card {1..ae_max_tasks e}"
    by (rule card_inj_on_le [OF inj sub]) simp
  ultimately show ?thesis by simp
qed

end

interpretation budget: reservation_verifier authority_inv require_reserved
proof
  fix st r assume "authority_inv st" "require_reserved st r = Inr ()"
  then show "1 \<le> ar_ordinal r" by (simp add: require_reserved_Inr authority_inv_ordinal(1))
next
  fix st r r'
  assume "authority_inv st" "require_reserved st r = Inr ()" "require_reserved st r' = Inr ()"
    and "ar_envelope_digest r = ar_envelope_digest r'" "ar_ordinal r = ar_ordinal r'"
  then show "ar_task_id r = ar_task_id r'"
    using authority_inv_inj [of st r r'] by (simp add: require_reserved_Inr)
qed

section \<open>Histories of the store\<close>

text \<open>Any sequence of \<open>reserve_task\<close> calls on a new store; calls of several processes are
  serialised by \<^verbatim>\<open>BEGIN IMMEDIATE\<close>.\<close>

type_synonym reserve_call = "autonomy_envelope \<times> string \<times> int"

definition reserve_call :: "reserve_call \<Rightarrow> authority_store \<Rightarrow> authority_store" where
  "reserve_call c st = (case c of (env, task_id, now) \<Rightarrow> snd (reserve_task st env task_id now))"

definition reserve_all :: "reserve_call list \<Rightarrow> authority_store \<Rightarrow> authority_store" where
  "reserve_all calls st = fold reserve_call calls st"

lemma reserve_call_inv: "authority_inv st \<Longrightarrow> authority_inv (reserve_call c st)"
  by (cases c) (simp add: reserve_call_def reserve_task_inv)

lemma reserve_all_inv: "authority_inv st \<Longrightarrow> authority_inv (reserve_all calls st)"
  unfolding reserve_all_def by (induction calls arbitrary: st) (auto simp: reserve_call_inv)

lemma reserve_all_keeps:
  "authority_inv st \<Longrightarrow> set (st_reservations st) \<subseteq> set (st_reservations (reserve_all calls st))"
  unfolding reserve_all_def
proof (induction calls arbitrary: st)
  case (Cons c calls)
  obtain env task now where c: "c = (env, task, now)" by (cases c)
  have "set (st_reservations st) \<subseteq> set (st_reservations (reserve_call c st))"
    using reserve_task_keeps [OF Cons.prems] by (simp add: c reserve_call_def)
  also have "\<dots> \<subseteq> set (st_reservations (fold reserve_call calls (reserve_call c st)))"
    by (rule Cons.IH) (rule reserve_call_inv [OF Cons.prems])
  finally show ?case by simp
qed simp

text \<open>Each row was granted under some envelope of the history with that digest, within its
  budget.\<close>

lemma rows_within_budget:
  "\<forall>r \<in> set (st_reservations (reserve_all calls empty_authority_store)).
     \<exists>(env, task, now) \<in> set calls. autonomy_envelope_digest env = ar_envelope_digest r \<and>
       ar_ordinal r \<le> ae_max_tasks env"
proof (induction calls rule: rev_induct)
  case Nil
  then show ?case by (simp add: reserve_all_def empty_authority_store_def)
next
  case (snoc c calls)
  let ?st = "reserve_all calls empty_authority_store"
  obtain env task now where c: "c = (env, task, now)" by (cases c)
  have inv: "authority_inv ?st" by (simp add: reserve_all_inv)
  have st: "reserve_all (calls @ [c]) empty_authority_store = snd (reserve_task ?st env task now)"
    by (simp add: reserve_all_def reserve_call_def c)
  show ?case unfolding st
    by (cases rule: reserve_task_cases [OF inv, of env task now]) (use snoc c in fastforce)+
qed

text \<open>A confirmed reservation within the budget of a constructed envelope authorises its task: for a capsule in one
  of the envelope's repositories and risk classes, bound to a snapshot that is current when the envelope is.\<close>

lemma reserved_task_authorized:
  assumes "autonomy_envelope_ok e" and "verifier r = return ()" and "ar_envelope_digest r = autonomy_envelope_digest e"
    and "ar_ordinal r \<le> ae_max_tasks e" and "ar_task_id r = i"
  shows "\<exists>t. i = tc_task_id t \<and> (\<exists>p s r now j d. authorize_task p s t e r verifier now j = return d)"
proof -
  obtain repo risk where repo: "repo \<in> set (ae_repositories e)" "risk \<in> set (ae_allowed_risk_classes e)"
    using assms(1) unfolding autonomy_envelope_ok_def by (metis list.set_sel(1))
  define now where "now = ae_issued_at_epoch e"
  have now: "ae_issued_at_epoch e \<le> now" "now < ae_expires_at_epoch e"
    using assms(1) by (simp_all add: autonomy_envelope_ok_def now_def)
  define s where "s = sample_state\<lparr>ls_repository := repo, ls_observed_at_epoch := now, ls_expires_at_epoch := now + 1\<rparr>"
  define t where "t = (sample_task i)\<lparr>tc_repository := repo, tc_risk_class := risk, tc_state_snapshot_digest := live_state_digest s\<rparr>"
  have "\<exists>d. authorize_task sample_policy s t e r verifier now ''d'' = return d"
    unfolding authorize_task_Inr using assms(2-5) repo now
    by (intro exI conjI) (simp_all add: s_def t_def sample_task_def sample_policy_def strip_def is_space_def)
  moreover have "i = tc_task_id t" by (simp add: t_def sample_task_def)
  ultimately show ?thesis by blast
qed

section \<open>Properties\<close>

text \<open>C2: The autonomy budget holds end to end, and is spent by reservations only. Take the store that any history
  of \<^verbatim>\<open>reserve_task\<close> calls leaves, and an envelope the constructor accepts. The tasks that \<^verbatim>\<open>authorize_task\<close>
  with that store as its verifier authorises under the envelope, for some policy, snapshot, capsule, decision
  identifier and clock, are exactly the tasks of the reservations the store holds for the envelope with an ordinal
  within its budget; they are finitely many, and at most \<^verbatim>\<open>max_tasks\<close>.\<close>

theorem authorized_tasks_within_budget:
  assumes "autonomy_envelope_init e0 = return e" and "st = reserve_all calls empty_authority_store"
    and "authorized = {tc_task_id t | t. \<exists>p s r now i d. authorize_task p s t e r (require_reserved st) now i = return d}"
  shows "authorized = {ar_task_id r | r. r \<in> set (st_reservations st) \<and>
      ar_envelope_digest r = autonomy_envelope_digest e \<and> ar_ordinal r \<le> ae_max_tasks e} \<and>
    finite authorized \<and> card authorized \<le> nat (ae_max_tasks e)"
proof -
  have inv: "authority_inv st" unfolding assms(2) by (simp add: reserve_all_inv)
  have same: "authorized = budget.authorizable st e" unfolding assms(3) budget.authorizable_def ..
  have tasks: "t \<in> authorized \<longleftrightarrow> (\<exists>r \<in> set (st_reservations st). ar_envelope_digest r = autonomy_envelope_digest e \<and>
      ar_task_id r = t \<and> ar_ordinal r \<le> ae_max_tasks e)" for t
  proof
    assume "t \<in> authorized"
    then obtain r where "require_reserved st r = Inr ()" "ar_envelope_digest r = autonomy_envelope_digest e"
        "ar_task_id r = t" "ar_ordinal r \<le> ae_max_tasks e"
      unfolding same by (rule budget.authorizable_witnessed)
    then show "\<exists>r \<in> set (st_reservations st). ar_envelope_digest r = autonomy_envelope_digest e \<and>
        ar_task_id r = t \<and> ar_ordinal r \<le> ae_max_tasks e"
      using require_reserved_Inr [OF inv] by blast
  next
    assume "\<exists>r \<in> set (st_reservations st). ar_envelope_digest r = autonomy_envelope_digest e \<and>
        ar_task_id r = t \<and> ar_ordinal r \<le> ae_max_tasks e"
    then obtain r where r: "r \<in> set (st_reservations st)" "ar_envelope_digest r = autonomy_envelope_digest e"
        "ar_task_id r = t" "ar_ordinal r \<le> ae_max_tasks e"
      by blast
    from r(1) have "require_reserved st r = return ()" by (simp add: require_reserved_Inr [OF inv])
    from reserved_task_authorized [where verifier = "require_reserved st",
        OF autonomy_envelope_init_ok [OF assms(1)] this r(2,4,3)]
    show "t \<in> authorized" unfolding assms(3) mem_Collect_eq by metis
  qed
  have "authorized = {ar_task_id r | r. r \<in> set (st_reservations st) \<and>
      ar_envelope_digest r = autonomy_envelope_digest e \<and> ar_ordinal r \<le> ae_max_tasks e}"
    by (rule set_eqI) (use tasks in auto)
  then show ?thesis using budget.authorizable_bound [OF inv, of e, folded same] by blast
qed

text \<open>The store itself never oversells. After any history, the reservations of an envelope
  carry the ordinals 1, 2, ... in order of insertion without a gap, name distinct tasks, and are at
  most \<^verbatim>\<open>max_tasks\<close> many, unless another envelope of the history has the same digest, which
  exhibits a SHA-256 collision.\<close>

theorem reservations_within_budget:
  assumes "st = reserve_all calls empty_authority_store" and "ae_max_tasks e \<ge> 0"
  shows "map ar_ordinal (rows_of (autonomy_envelope_digest e) (st_reservations st)) =
      [1..int (length (rows_of (autonomy_envelope_digest e) (st_reservations st)))] \<and>
    distinct (map ar_task_id (rows_of (autonomy_envelope_digest e) (st_reservations st))) \<and>
    (int (length (rows_of (autonomy_envelope_digest e) (st_reservations st))) \<le> ae_max_tasks e \<or>
     (\<exists>(e', task, now) \<in> set calls.
        digest_collision (JObj (autonomy_envelope_dict e)) (JObj (autonomy_envelope_dict e'))))"
proof -
  let ?d = "autonomy_envelope_digest e"
  let ?rows = "rows_of ?d (st_reservations st)"
  have inv: "authority_inv st" using assms(1) by (simp add: reserve_all_inv)
  then have rows: "map ar_ordinal ?rows = [1..consumed_of st ?d]" "0 \<le> consumed_of st ?d" "distinct (map ar_task_id ?rows)"
    by (simp_all add: authority_inv_def)
  have len: "int (length ?rows) = consumed_of st ?d"
    using arg_cong [OF rows(1), of length] rows(2) by simp
  have "consumed_of st ?d \<le> ae_max_tasks e \<or>
      (\<exists>(e', task, now) \<in> set calls. digest_collision (JObj (autonomy_envelope_dict e)) (JObj (autonomy_envelope_dict e')))"
  proof (cases "consumed_of st ?d = 0")
    case False
    with rows(2) have "consumed_of st ?d \<in> set (map ar_ordinal ?rows)" unfolding rows(1) by simp
    then obtain r where r: "r \<in> set (st_reservations st)" "ar_envelope_digest r = ?d" "ar_ordinal r = consumed_of st ?d"
      by auto
    with rows_within_budget [of calls] obtain e' task now where e': "(e', task, now) \<in> set calls"
        "autonomy_envelope_digest e' = ?d" "ar_ordinal r \<le> ae_max_tasks e'"
      unfolding assms(1) by fastforce
    from autonomy_envelope_binds [of e e'] e' r show ?thesis
      by (auto simp: same_or_clash_def)
  qed (use assms(2) in simp)
  with rows len show ?thesis by simp
qed

text \<open>A reservation is durable and idempotent. Once \<^verbatim>\<open>reserve_task\<close> has returned it, every
  later state of the store confirms it, and asking again for the same task while the envelope is
  valid returns the same reservation and changes nothing.\<close>

theorem reservation_durable_idempotent:
  assumes "fst (reserve_task (reserve_all before empty_authority_store) e task now) = return r"
    and "st = reserve_all later (snd (reserve_task (reserve_all before empty_authority_store) e task now))"
    and "ae_issued_at_epoch e \<le> now'" "now' < ae_expires_at_epoch e"
  shows "require_reserved st r = return () \<and> reserve_task st e task now' = (return r, st)"
proof -
  let ?st0 = "reserve_all before empty_authority_store"
  have inv0: "authority_inv ?st0" by (simp add: reserve_all_inv)
  have inv: "authority_inv st" unfolding assms(2) by (simp add: reserve_all_inv reserve_task_inv inv0)
  have r: "r \<in> set (st_reservations st)" "ar_envelope_digest r = autonomy_envelope_digest e" "ar_task_id r = strip task"
    using reserve_task_grants [OF inv0 assms(1)] reserve_all_keeps [OF reserve_task_inv [OF inv0]]
    unfolding assms(2) by blast+
  then have t: "is_sha256 (ar_envelope_digest r)" "is_text (ar_task_id r)" "1 \<le> ar_ordinal r"
    using inv authority_inv_ordinal(1) [OF inv] by (auto simp: authority_inv_def)
  then have "strip task \<noteq> []" using r by (simp add: is_text_def)
  moreover have "authority_reservation_init \<lparr>ar_envelope_digest = autonomy_envelope_digest e,
      ar_task_id = strip task, ar_ordinal = ar_ordinal r\<rparr> = Inr r"
    using authority_reservation_init_row [OF t] r by (cases r) simp
  ultimately have "reserve_task st e task now' = (Inr r, st)"
    using select_reservation_row [OF inv r(1)] r assms(3,4)
    by (simp add: reserve_task_def nonblank_Inr nonblank_def)
  with r(1) require_reserved_Inr [OF inv] show ?thesis by simp
qed

section \<open>Witnesses\<close>

definition sample_store :: authority_store where
  "sample_store = \<lparr>st_usage = [autonomy_envelope_digest sample_envelope \<mapsto> 1], st_reservations = [sample_reservation ''t'']\<rparr>"

lemma sample_reserve:
  "reserve_task (reserve_all [] empty_authority_store) sample_envelope ''t'' 50 =
     (return (sample_reservation ''t''), sample_store)"
proof -
  have "nonblank ''t'' ''task_id'' = Inr ''t''" by (simp add: nonblank_Inr strip_def is_space_def)
  moreover have "authority_reservation_init (sample_reservation ''t'') = return (sample_reservation ''t'')"
    by (simp add: authority_reservation_init_def sample_reservation_def nonblank_def sample_text)
  moreover have "ae_issued_at_epoch sample_envelope = 0" "ae_expires_at_epoch sample_envelope = 100"
    "ae_max_tasks sample_envelope = 2" by (simp_all add: sample_envelope_def)
  ultimately show ?thesis
    by (simp add: reserve_task_def reserve_all_def empty_authority_store_def select_reservation_def Let_def
        insert_reservation_def sample_store_def sample_reservation_def)
qed

lemma authorized_tasks_within_budget_witness:
  "{tc_task_id t | t. \<exists>p s r now i d. authorize_task p s t sample_envelope r (require_reserved sample_store) now i = return d} = {''t''}"
proof -
  have "sample_store = reserve_all [(sample_envelope, ''t'', 50)] empty_authority_store"
    using sample_reserve by (simp add: reserve_all_def reserve_call_def)
  from authorized_tasks_within_budget [OF sample_envelope_init this refl] show ?thesis
    by (auto simp: sample_store_def sample_reservation_def sample_envelope_def)
qed

lemma reservations_within_budget_witness:
  "map ar_ordinal (rows_of (autonomy_envelope_digest sample_envelope)
     (st_reservations (reserve_all [(sample_envelope, ''t'', 50)] empty_authority_store))) = [1..1] \<and> length [1..(1::int)] = 1"
proof -
  have "reserve_all [(sample_envelope, ''t'', 50)] empty_authority_store = sample_store"
    using sample_reserve by (simp add: reserve_all_def reserve_call_def)
  moreover have "rows_of (autonomy_envelope_digest sample_envelope) (st_reservations sample_store) = [sample_reservation ''t'']"
    by (simp add: sample_store_def rows_of_def sample_reservation_def)
  moreover have "ae_max_tasks sample_envelope \<ge> 0" by (simp add: sample_envelope_def)
  ultimately show ?thesis using reservations_within_budget [OF refl, of sample_envelope "[(sample_envelope, ''t'', 50)]"]
    by simp
qed

lemma reservation_durable_idempotent_witness:
  "require_reserved sample_store (sample_reservation ''t'') = return () \<and>
   reserve_task sample_store sample_envelope ''t'' 60 = (return (sample_reservation ''t''), sample_store)"
proof -
  have "fst (reserve_task (reserve_all [] empty_authority_store) sample_envelope ''t'' 50) = return (sample_reservation ''t'')"
    "sample_store = reserve_all [] (snd (reserve_task (reserve_all [] empty_authority_store) sample_envelope ''t'' 50))"
    unfolding sample_reserve by (simp_all add: reserve_all_def)
  moreover have "ae_issued_at_epoch sample_envelope \<le> 60" "60 < ae_expires_at_epoch sample_envelope"
    by (simp_all add: sample_envelope_def)
  ultimately show ?thesis by (rule reservation_durable_idempotent)
qed

end
