(* ===== verification/NS_Causal.thy ===== *)
theory NS_Causal
  imports NS_Contracts
begin

text \<open>
  The causal gate graph, \<^verbatim>\<open>core/night_shift/causal.py\<close>: gate results, the graph that binds every
  blocked gate to a local root failure, and the root-cause-first remediation plan.
\<close>

section \<open>Gate results\<close>

datatype gate_state = GS_PASS | GS_FAIL_LOCAL | GS_BLOCKED_BY | GS_WAITING_EXTERNAL | GS_POLICY_BLOCKED | GS_UNKNOWN

fun gate_state_value :: "gate_state \<Rightarrow> string" where
  "gate_state_value GS_PASS = ''PASS''"
| "gate_state_value GS_FAIL_LOCAL = ''FAIL_LOCAL''"
| "gate_state_value GS_BLOCKED_BY = ''BLOCKED_BY''"
| "gate_state_value GS_WAITING_EXTERNAL = ''WAITING_EXTERNAL''"
| "gate_state_value GS_POLICY_BLOCKED = ''POLICY_BLOCKED''"
| "gate_state_value GS_UNKNOWN = ''UNKNOWN''"

record gate_result =
  gr_gate_id :: string
  gr_state :: gate_state
  gr_root_cause_id :: "string option"

definition gate_result_init :: "gate_result \<Rightarrow> gate_result result" where
  "gate_result_init g =
     (let gate_id = strip (gr_gate_id g); root = map_option strip (gr_root_cause_id g);
          has_root = (root \<noteq> None \<and> root \<noteq> Some []) in
      if gate_id = [] then raise_ns ''gate_id is required''
      else if gr_state g = GS_BLOCKED_BY \<and> \<not> has_root then raise_ns ''BLOCKED_BY requires root_cause_id''
      else if gr_state g = GS_BLOCKED_BY \<and> root = Some gate_id then raise_ns ''gate cannot be BLOCKED_BY itself''
      else if gr_state g \<noteq> GS_BLOCKED_BY \<and> has_root
      then raise_ns ''root_cause_id is only valid for BLOCKED_BY''
      else return (g\<lparr>gr_gate_id := gate_id, gr_root_cause_id := root\<rparr>))"

definition opt_str :: "string option \<Rightarrow> json" where
  "opt_str v = (case v of None \<Rightarrow> JNull | Some s \<Rightarrow> JStr s)"

definition gate_result_dict :: "gate_result \<Rightarrow> json" where
  "gate_result_dict g = JObj
    [(''gate_id'', JStr (gr_gate_id g)),
     (''state'', JStr (gate_state_value (gr_state g))),
     (''root_cause_id'', opt_str (gr_root_cause_id g))]"

section \<open>Impacts and plans\<close>

record root_cause_impact =
  im_root_cause_id :: string
  im_blocked_gate_ids :: "string list"

definition root_cause_impact_init :: "root_cause_impact \<Rightarrow> root_cause_impact result" where
  "root_cause_impact_init i =
     (let root = strip (im_root_cause_id i); blocked = sorted_set (map strip (im_blocked_gate_ids i)) in
      if root = [] \<or> (\<exists>item \<in> set blocked. item = [])
      then raise_ns ''root-cause impact identifiers must be nonblank''
      else if root \<in> set blocked then raise_ns ''root cause cannot be its own blocked symptom''
      else return \<lparr>im_root_cause_id = root, im_blocked_gate_ids = blocked\<rparr>)"

definition root_cause_impact_dict :: "root_cause_impact \<Rightarrow> json" where
  "root_cause_impact_dict i = JObj
    [(''root_cause_id'', JStr (im_root_cause_id i)),
     (''blocked_gate_ids'', jstrs (im_blocked_gate_ids i))]"

record causal_plan =
  cp_graph_digest :: string
  cp_state_snapshot_digest :: string
  cp_impacts :: "root_cause_impact list"

definition causal_plan_init :: "causal_plan \<Rightarrow> causal_plan result" where
  "causal_plan_init p =
     and_then (ns_sha (cp_graph_digest p) ''graph_digest'') (\<lambda>graph_digest.
     and_then (ns_sha (cp_state_snapshot_digest p) ''state_snapshot_digest'') (\<lambda>state_digest.
     let impacts = sort_key im_root_cause_id (cp_impacts p) in
     if \<not> distinct (map im_root_cause_id impacts) then raise_ns ''duplicate root cause in remediation plan''
     else return \<lparr>cp_graph_digest = graph_digest, cp_state_snapshot_digest = state_digest, cp_impacts = impacts\<rparr>))"

definition actionable_root_ids :: "causal_plan \<Rightarrow> string list" where
  "actionable_root_ids p = map im_root_cause_id (cp_impacts p)"

definition causal_plan_dict :: "causal_plan \<Rightarrow> (string \<times> json) list" where
  "causal_plan_dict p =
    [(''schema'', JStr ''night-shift-causal-remediation-plan/v1''),
     (''graph_digest'', JStr (cp_graph_digest p)),
     (''state_snapshot_digest'', JStr (cp_state_snapshot_digest p)),
     (''impacts'', JList (map root_cause_impact_dict (cp_impacts p)))]"

definition causal_plan_digest :: "causal_plan \<Rightarrow> string" where
  "causal_plan_digest p = content_digest (JObj (causal_plan_dict p))"

section \<open>The graph\<close>

record causal_graph =
  cg_state_snapshot_digest :: string
  cg_results :: "gate_result list"

definition is_root_failure :: "gate_result \<Rightarrow> bool" where
  "is_root_failure g = (gr_state g = GS_FAIL_LOCAL)"

definition causal_graph_init :: "causal_graph \<Rightarrow> causal_graph result" where
  "causal_graph_init g =
     and_then (ns_sha (cg_state_snapshot_digest g) ''state_snapshot_digest'') (\<lambda>digest.
     let ordered = sort_key gr_gate_id (cg_results g);
         roots = map gr_gate_id (filter is_root_failure ordered) in
     if \<not> distinct (map gr_gate_id ordered) then raise_ns ''duplicate gate_id in causal graph''
     else if \<exists>item \<in> set ordered. gr_state item = GS_BLOCKED_BY \<and> gr_root_cause_id item \<notin> Some ` set roots
     then raise_ns ''BLOCKED_BY references a missing local root failure''
     else return \<lparr>cg_state_snapshot_digest = digest, cg_results = ordered\<rparr>)"

definition causal_graph_dict :: "causal_graph \<Rightarrow> (string \<times> json) list" where
  "causal_graph_dict g =
    [(''schema'', JStr ''night-shift-causal-gate-graph/v1''),
     (''state_snapshot_digest'', JStr (cg_state_snapshot_digest g)),
     (''results'', JList (map gate_result_dict (cg_results g)))]"

definition causal_graph_digest :: "causal_graph \<Rightarrow> string" where
  "causal_graph_digest g = content_digest (JObj (causal_graph_dict g))"

definition graph_root_failures :: "causal_graph \<Rightarrow> gate_result list" where
  "graph_root_failures g = filter is_root_failure (cg_results g)"

definition blocked_for_root :: "causal_graph \<Rightarrow> string \<Rightarrow> gate_result list result" where
  "blocked_for_root g root_cause_id =
     (let root = strip root_cause_id in
      if root = [] then raise_ns ''root_cause_id is required''
      else if root \<notin> gr_gate_id ` set (graph_root_failures g) then raise_ns ''unknown local root failure''
      else return (filter (\<lambda>item. gr_state item = GS_BLOCKED_BY \<and> gr_root_cause_id item = Some root) (cg_results g)))"

definition impact_of_root :: "causal_graph \<Rightarrow> gate_result \<Rightarrow> root_cause_impact result" where
  "impact_of_root g root =
     and_then (blocked_for_root g (gr_gate_id root)) (\<lambda>blocked.
     root_cause_impact_init \<lparr>im_root_cause_id = gr_gate_id root, im_blocked_gate_ids = map gr_gate_id blocked\<rparr>)"

definition remediation_plan :: "causal_graph \<Rightarrow> causal_plan result" where
  "remediation_plan g =
     and_then (map_result (impact_of_root g) (graph_root_failures g)) (\<lambda>impacts.
     causal_plan_init \<lparr>cp_graph_digest = causal_graph_digest g,
       cp_state_snapshot_digest = cg_state_snapshot_digest g, cp_impacts = impacts\<rparr>)"

definition root_failures :: "gate_result list \<Rightarrow> string \<Rightarrow> gate_result list result" where
  "root_failures results digest =
     and_then (causal_graph_init \<lparr>cg_state_snapshot_digest = digest, cg_results = results\<rparr>)
       (\<lambda>g. return (graph_root_failures g))"

definition actionable_failures :: "gate_result list \<Rightarrow> string \<Rightarrow> gate_result list result" where
  "actionable_failures results digest =
     and_then (causal_graph_init \<lparr>cg_state_snapshot_digest = digest, cg_results = results\<rparr>)
       (\<lambda>g. return (graph_root_failures g))"

definition build_remediation_plan :: "gate_result list \<Rightarrow> string \<Rightarrow> causal_plan result" where
  "build_remediation_plan results digest =
     and_then (causal_graph_init \<lparr>cg_state_snapshot_digest = digest, cg_results = results\<rparr>) remediation_plan"

section \<open>Laws\<close>

definition gate_result_ok :: "gate_result \<Rightarrow> bool" where
  "gate_result_ok g = (is_text (gr_gate_id g) \<and>
     (gr_state g = GS_BLOCKED_BY \<longrightarrow> gr_root_cause_id g \<noteq> Some (gr_gate_id g)))"

lemma gate_result_init_ok: "gate_result_init g0 = Inr g \<Longrightarrow> gate_result_ok g"
  by (auto simp: gate_result_init_def gate_result_ok_def Let_def is_text_def split: if_splits)

definition graph_ok :: "causal_graph \<Rightarrow> bool" where
  "graph_ok g =
     (is_sha256 (cg_state_snapshot_digest g) \<and> sorted (map gr_gate_id (cg_results g)) \<and>
      distinct (map gr_gate_id (cg_results g)) \<and>
      (\<forall>item \<in> set (cg_results g). gr_state item = GS_BLOCKED_BY \<longrightarrow>
         (\<exists>root \<in> set (cg_results g). is_root_failure root \<and> gr_root_cause_id item = Some (gr_gate_id root))) \<and>
      (\<forall>item \<in> set (cg_results g). gate_result_ok item))"

lemma causal_graph_init_ok:
  assumes "causal_graph_init g = Inr g'" "\<forall>item \<in> set (cg_results g). gate_result_ok item"
  shows "graph_ok g'" and "set (cg_results g') = set (cg_results g)"
proof -
  let ?ordered = "sort_key gr_gate_id (cg_results g)"
  have g': "cg_results g' = ?ordered" "is_sha256 (cg_state_snapshot_digest g')"
    and d: "distinct (map gr_gate_id ?ordered)"
    and roots: "\<forall>item \<in> set (cg_results g). gr_state item = GS_BLOCKED_BY \<longrightarrow>
      gr_root_cause_id item \<in> Some ` gr_gate_id ` {x \<in> set (cg_results g). is_root_failure x}"
    using assms(1) by (auto simp: causal_graph_init_def ns_sha_Inr Let_def split: if_splits)
  show "set (cg_results g') = set (cg_results g)" using g' by simp
  have "\<exists>root \<in> set (cg_results g'). is_root_failure root \<and> gr_root_cause_id item = Some (gr_gate_id root)"
    if "item \<in> set (cg_results g')" "gr_state item = GS_BLOCKED_BY" for item
    using roots that g' by fastforce
  then show "graph_ok g'" using g' d assms(2) by (simp add: graph_ok_def)
qed

lemma sorted_map_filter: "sorted (map f xs) \<Longrightarrow> sorted (map f (filter P xs))"
  by (induction xs) auto

lemma distinct_map_filter': "distinct (map f xs) \<Longrightarrow> distinct (map f (filter P xs))"
  by (induction xs) auto

definition blocked_ids :: "causal_graph \<Rightarrow> string \<Rightarrow> string list" where
  "blocked_ids g root =
     map gr_gate_id (filter (\<lambda>item. gr_state item = GS_BLOCKED_BY \<and> gr_root_cause_id item = Some root) (cg_results g))"

lemma root_cause_impact_init_fixed:
  assumes "is_text root" "is_text_tuple blocked" "root \<notin> set blocked"
  shows "root_cause_impact_init \<lparr>im_root_cause_id = root, im_blocked_gate_ids = blocked\<rparr> =
    Inr \<lparr>im_root_cause_id = root, im_blocked_gate_ids = blocked\<rparr>"
proof -
  have "map strip blocked = blocked"
    using assms(2) by (intro map_idI) (simp add: is_text_tuple_def list_all_iff is_text_def strip_id)
  then have "sorted_set (map strip blocked) = blocked" using assms(2) by (simp add: is_text_tuple_def sorted_set_idem)
  moreover have "[] \<notin> set blocked" using assms(2) by (auto simp: is_text_tuple_def list_all_iff is_text_def)
  ultimately show ?thesis using assms(1,3) unfolding root_cause_impact_init_def Let_def
    by (auto simp: is_text_def strip_id simp del: set_sorted_set)
qed

lemma impact_of_root_ok:
  assumes "graph_ok g" "root \<in> set (graph_root_failures g)"
  shows "impact_of_root g root = Inr \<lparr>im_root_cause_id = gr_gate_id root, im_blocked_gate_ids = blocked_ids g (gr_gate_id root)\<rparr>"
proof -
  let ?b = "blocked_ids g (gr_gate_id root)"
  have root: "root \<in> set (cg_results g)" "is_root_failure root" "is_text (gr_gate_id root)"
    using assms by (auto simp: graph_root_failures_def graph_ok_def gate_result_ok_def)
  have texts: "\<forall>x \<in> set ?b. is_text x" using assms(1) by (auto simp: blocked_ids_def graph_ok_def gate_result_ok_def)
  moreover have "sorted ?b" "distinct ?b"
    using assms(1) unfolding blocked_ids_def graph_ok_def by (blast intro: sorted_map_filter distinct_map_filter')+
  ultimately have tuple: "is_text_tuple ?b" by (simp add: is_text_tuple_def list_all_iff)
  have inj: "inj_on gr_gate_id (set (cg_results g))" using assms(1) by (simp add: graph_ok_def distinct_map)
  have "gr_gate_id root \<notin> set ?b"
  proof
    assume "gr_gate_id root \<in> set ?b"
    then obtain item where item: "item \<in> set (cg_results g)" "gr_state item = GS_BLOCKED_BY" "gr_gate_id item = gr_gate_id root"
      by (auto simp: blocked_ids_def)
    then have "item = root" using inj_onD [OF inj item(3,1) root(1)] by simp
    with item(2) root(2) show False by (simp add: is_root_failure_def)
  qed
  note init = root_cause_impact_init_fixed [OF root(3) tuple this]
  have "blocked_for_root g (gr_gate_id root) =
      Inr (filter (\<lambda>item. gr_state item = GS_BLOCKED_BY \<and> gr_root_cause_id item = Some (gr_gate_id root)) (cg_results g))"
    using root(3) assms(2) by (simp add: blocked_for_root_def is_text_def strip_id)
  then show ?thesis unfolding impact_of_root_def and_then_Inr
    by (simp only: and_then_Inr init flip: blocked_ids_def)
qed

lemma remediation_plan_ok:
  assumes "graph_ok g"
  shows "remediation_plan g = Inr
    \<lparr>cp_graph_digest = causal_graph_digest g, cp_state_snapshot_digest = cg_state_snapshot_digest g,
     cp_impacts = map (\<lambda>root. \<lparr>im_root_cause_id = gr_gate_id root, im_blocked_gate_ids = blocked_ids g (gr_gate_id root)\<rparr>)
       (graph_root_failures g)\<rparr>"
proof -
  let ?impacts = "map (\<lambda>root. \<lparr>im_root_cause_id = gr_gate_id root, im_blocked_gate_ids = blocked_ids g (gr_gate_id root)\<rparr>)
       (graph_root_failures g)"
  have "map_result (impact_of_root g) (graph_root_failures g) = Inr ?impacts"
    by (rule map_result_all) (simp add: impact_of_root_ok [OF assms])
  moreover have ids: "map im_root_cause_id ?impacts = map gr_gate_id (graph_root_failures g)" by simp
  have "sorted (map gr_gate_id (graph_root_failures g))" "distinct (map gr_gate_id (graph_root_failures g))"
    unfolding graph_root_failures_def using assms
    by (auto simp: graph_ok_def intro: sorted_map_filter distinct_map_filter')
  then have "sorted (map im_root_cause_id ?impacts)" "distinct (map im_root_cause_id ?impacts)"
    unfolding ids .
  then have "sort_key im_root_cause_id ?impacts = ?impacts" by (simp add: sort_key_id_if_sorted)
  ultimately show ?thesis using assms \<open>distinct (map im_root_cause_id ?impacts)\<close>
    by (simp add: remediation_plan_def causal_plan_init_def Let_def graph_ok_def causal_graph_digest_def)
qed

section \<open>Properties\<close>

text \<open>The remediation plan is total and partitions the damage. For a graph its constructor
  accepts, over results their constructor accepted, the plan never raises; its actionable roots are
  exactly the gates that failed locally, in increasing order without repetition; and every blocked
  gate is listed under exactly one of them, its own root cause.\<close>

theorem remediation_plan_partitions:
  assumes "\<forall>item \<in> set results. \<exists>raw. gate_result_init raw = return item"
    and "causal_graph_init \<lparr>cg_state_snapshot_digest = digest, cg_results = results\<rparr> = return g"
  shows "\<exists>plan. build_remediation_plan results digest = return plan \<and>
    set (actionable_root_ids plan) = {gr_gate_id item | item. item \<in> set results \<and> gr_state item = GS_FAIL_LOCAL} \<and>
    sorted (actionable_root_ids plan) \<and> distinct (actionable_root_ids plan) \<and>
    (\<forall>item \<in> set results. gr_state item = GS_BLOCKED_BY \<longrightarrow>
       (\<exists>!impact. impact \<in> set (cp_impacts plan) \<and> gr_gate_id item \<in> set (im_blocked_gate_ids impact)) \<and>
       (\<exists>impact \<in> set (cp_impacts plan). gr_root_cause_id item = Some (im_root_cause_id impact) \<and>
          gr_gate_id item \<in> set (im_blocked_gate_ids impact)))"
proof -
  have "\<forall>item \<in> set results. gate_result_ok item" using assms(1) gate_result_init_ok by blast
  then have ok: "graph_ok g" and set: "set (cg_results g) = set results"
    using causal_graph_init_ok [OF assms(2)] by simp_all
  let ?impact = "\<lambda>root. \<lparr>im_root_cause_id = gr_gate_id root, im_blocked_gate_ids = blocked_ids g (gr_gate_id root)\<rparr>"
  obtain plan where plan: "build_remediation_plan results digest = Inr plan"
      and impacts: "cp_impacts plan = map ?impact (graph_root_failures g)"
    using remediation_plan_ok [OF ok] assms(2) by (simp add: build_remediation_plan_def)
  have ids: "actionable_root_ids plan = map gr_gate_id (graph_root_failures g)"
    by (simp add: actionable_root_ids_def impacts)
  have "sorted (actionable_root_ids plan)" "distinct (actionable_root_ids plan)"
    unfolding ids graph_root_failures_def using ok
    by (auto simp: graph_ok_def intro: sorted_map_filter distinct_map_filter')
  moreover have "set (actionable_root_ids plan) = {gr_gate_id item | item. item \<in> set results \<and> gr_state item = GS_FAIL_LOCAL}"
    by (auto simp: ids graph_root_failures_def is_root_failure_def set)
  moreover have "(\<exists>!impact. impact \<in> set (cp_impacts plan) \<and> gr_gate_id item \<in> set (im_blocked_gate_ids impact)) \<and>
       (\<exists>impact \<in> set (cp_impacts plan). gr_root_cause_id item = Some (im_root_cause_id impact) \<and>
          gr_gate_id item \<in> set (im_blocked_gate_ids impact))"
    if item: "item \<in> set results" "gr_state item = GS_BLOCKED_BY" for item
  proof -
    obtain root where root: "root \<in> set (graph_root_failures g)" "gr_root_cause_id item = Some (gr_gate_id root)"
      using ok item unfolding graph_ok_def set graph_root_failures_def set_filter by blast
    have inj: "inj_on gr_gate_id (set results)" using ok by (simp add: graph_ok_def distinct_map set)
    have mem: "gr_gate_id item \<in> set (blocked_ids g r) \<longleftrightarrow> gr_root_cause_id item = Some r" for r
      using item inj by (auto simp: blocked_ids_def set dest: inj_onD)
    have here: "?impact root \<in> set (cp_impacts plan) \<and> gr_gate_id item \<in> set (im_blocked_gate_ids (?impact root))"
      using root by (simp add: impacts mem)
    have "impact = ?impact root"
      if "impact \<in> set (cp_impacts plan)" "gr_gate_id item \<in> set (im_blocked_gate_ids impact)" for impact
      using that root(2) by (auto simp: impacts mem)
    with here root(2) show ?thesis by (intro conjI ex1I [of _ "?impact root"] bexI [of _ "?impact root"]) auto
  qed
  ultimately show ?thesis using plan by blast
qed

section \<open>Witnesses\<close>

definition sample_gates :: "gate_result list" where
  "sample_gates = [\<lparr>gr_gate_id = ''a'', gr_state = GS_FAIL_LOCAL, gr_root_cause_id = None\<rparr>,
     \<lparr>gr_gate_id = ''b'', gr_state = GS_BLOCKED_BY, gr_root_cause_id = Some ''a''\<rparr>]"

lemma sample_gates_init: "\<forall>item \<in> set sample_gates. gate_result_init item = return item"
  by (simp add: sample_gates_def gate_result_init_def Let_def strip_def is_space_def)

lemma sample_digest: "ns_sha (replicate 64 (CHR ''a'')) n = return (replicate 64 (CHR ''a''))"
proof -
  have "is_sha256 (replicate 64 (CHR ''a''))" by code_simp
  then show ?thesis by simp
qed

lemma sample_graph:
  "causal_graph_init \<lparr>cg_state_snapshot_digest = replicate 64 (CHR ''a''), cg_results = sample_gates\<rparr> =
     return \<lparr>cg_state_snapshot_digest = replicate 64 (CHR ''a''), cg_results = sample_gates\<rparr>"
  by code_simp

lemma remediation_plan_partitions_witness:
  "\<exists>plan. build_remediation_plan sample_gates (replicate 64 (CHR ''a'')) = return plan \<and>
     set (actionable_root_ids plan) = {''a''}"
proof -
  have "{gr_gate_id item | item. item \<in> set sample_gates \<and> gr_state item = GS_FAIL_LOCAL} = {''a''}"
  proof -
    have "{gr_gate_id item | item. item \<in> set sample_gates \<and> gr_state item = GS_FAIL_LOCAL} =
        gr_gate_id ` set (filter is_root_failure sample_gates)" by (auto simp: is_root_failure_def)
    then show ?thesis by (simp add: sample_gates_def is_root_failure_def)
  qed
  moreover have "\<forall>item \<in> set sample_gates. \<exists>raw. gate_result_init raw = return item" using sample_gates_init by blast
  ultimately show ?thesis using remediation_plan_partitions [OF _ sample_graph] by auto
qed

end
