(* ===== verification/NS_Scheduler.thy ===== *)
theory NS_Scheduler
  imports NS_Causal "HOL-Library.Sublist"
begin

text \<open>
  The portfolio scheduler and resource governor, \<^verbatim>\<open>core/night_shift/scheduler.py\<close>: work items,
  the resource policy, the ready queue, batch selection and the root-cause remediation queue.
\<close>

section \<open>Work items and policy\<close>

record work_item =
  wi_task_id :: string
  wi_priority :: int
  wi_closure_percent :: int
  wi_ready :: bool
  wi_blocked_by :: "string list"
  wi_risk_class :: risk_class
  wi_requires_local_writer :: bool
  wi_heavy_compute :: bool
  wi_executor_id :: "string option"
  wi_executor_parallel_limit :: int

definition work_item_init :: "work_item \<Rightarrow> work_item result" where
  "work_item_init w =
     (let task_id = strip (wi_task_id w); blockers = sorted_set (map strip (wi_blocked_by w)) in
      if task_id = [] then raise_ns ''task_id is required''
      else if wi_priority w < 0 then raise_ns ''priority cannot be negative''
      else if \<not> (0 \<le> wi_closure_percent w \<and> wi_closure_percent w \<le> 100)
      then raise_ns ''closure_percent must be within 0..100''
      else if \<exists>item \<in> set blockers. item = [] then raise_ns ''blocked_by cannot contain blank values''
      else if wi_executor_parallel_limit w < 1 then raise_ns ''executor_parallel_limit must be positive''
      else if (case wi_executor_id w of None \<Rightarrow> False | Some e \<Rightarrow> strip e = [])
      then raise_ns ''executor_id cannot be blank''
      else return (w\<lparr>wi_task_id := task_id, wi_blocked_by := blockers\<rparr>))"

record resource_policy =
  rp_technical_active_max :: int
  rp_local_code_writers_max :: int
  rp_heavy_local_compute_max :: int

definition default_resource_policy :: resource_policy where
  "default_resource_policy =
     \<lparr>rp_technical_active_max = 2, rp_local_code_writers_max = 1, rp_heavy_local_compute_max = 1\<rparr>"

definition resource_policy_init :: "resource_policy \<Rightarrow> resource_policy result" where
  "resource_policy_init p =
     (if rp_technical_active_max p < 1 then raise_ns ''technical_active_max must be positive''
      else if rp_local_code_writers_max p < 0 then raise_ns ''local_code_writers_max cannot be negative''
      else if rp_heavy_local_compute_max p < 0 then raise_ns ''heavy_local_compute_max cannot be negative''
      else return p)"

section \<open>The ready queue\<close>

text \<open>The sort key \<^verbatim>\<open>(priority, -closure_percent, risk_class.value, task_id)\<close>; \<^verbatim>\<open>sorted\<close> is stable,
  as \<^verbatim>\<open>sort_key\<close> is.\<close>

definition queue_key :: "work_item \<Rightarrow> int \<times> int \<times> string \<times> string" where
  "queue_key w = (wi_priority w, - wi_closure_percent w, risk_value (wi_risk_class w), wi_task_id w)"

definition schedulable :: "work_item \<Rightarrow> bool" where
  "schedulable w =
     (wi_ready w \<and> wi_blocked_by w = [] \<and> 0 \<le> wi_closure_percent w \<and> wi_closure_percent w \<le> 100)"

definition compile_ready_queue :: "work_item list \<Rightarrow> work_item list" where
  "compile_ready_queue items = sort_key queue_key (filter schedulable items)"

section \<open>Batch selection\<close>

text \<open>The loop of \<^verbatim>\<open>select_batch\<close> with its local variables; the selected items in order.\<close>

record batch =
  ba_selected :: "work_item list"
  ba_writers :: int
  ba_heavy :: int
  ba_executor_counts :: "string \<rightharpoonup> int"

definition count_of :: "(string \<rightharpoonup> int) \<Rightarrow> string \<Rightarrow> int" where
  "count_of counts e = (case counts e of None \<Rightarrow> 0 | Some n \<Rightarrow> n)"

definition batch_refuses :: "resource_policy \<Rightarrow> batch \<Rightarrow> work_item \<Rightarrow> bool" where
  "batch_refuses policy b item =
     (wi_requires_local_writer item \<and> ba_writers b \<ge> rp_local_code_writers_max policy \<or>
      wi_heavy_compute item \<and> ba_heavy b \<ge> rp_heavy_local_compute_max policy \<or>
      (case wi_executor_id item of None \<Rightarrow> False
       | Some e \<Rightarrow> count_of (ba_executor_counts b) e \<ge> wi_executor_parallel_limit item))"

definition batch_add :: "work_item \<Rightarrow> batch \<Rightarrow> batch" where
  "batch_add item b =
     \<lparr>ba_selected = ba_selected b @ [item],
      ba_writers = ba_writers b + of_bool (wi_requires_local_writer item),
      ba_heavy = ba_heavy b + of_bool (wi_heavy_compute item),
      ba_executor_counts =
        (case wi_executor_id item of None \<Rightarrow> ba_executor_counts b
         | Some e \<Rightarrow> (ba_executor_counts b)(e \<mapsto> count_of (ba_executor_counts b) e + 1))\<rparr>"

fun batch_loop :: "resource_policy \<Rightarrow> work_item list \<Rightarrow> batch \<Rightarrow> batch" where
  "batch_loop policy [] b = b"
| "batch_loop policy (item # items) b =
     (if int (length (ba_selected b)) \<ge> rp_technical_active_max policy then b
      else if batch_refuses policy b item then batch_loop policy items b
      else batch_loop policy items (batch_add item b))"

definition empty_batch :: batch where
  "empty_batch = \<lparr>ba_selected = [], ba_writers = 0, ba_heavy = 0, ba_executor_counts = Map.empty\<rparr>"

definition select_batch :: "work_item list \<Rightarrow> resource_policy \<Rightarrow> work_item list" where
  "select_batch items policy = ba_selected (batch_loop policy (compile_ready_queue items) empty_batch)"

section \<open>The root-cause queue\<close>

text \<open>\<^verbatim>\<open>by_task\<close>: refuses a second item with the same task.\<close>

fun index_tasks :: "work_item list \<Rightarrow> (string \<rightharpoonup> work_item) \<Rightarrow> (string \<rightharpoonup> work_item) result" where
  "index_tasks [] by_task = return by_task"
| "index_tasks (item # items) by_task =
     (if by_task (wi_task_id item) \<noteq> None
      then raise_ns ''duplicate task_id in causal remediation scheduler input''
      else index_tasks items (by_task(wi_task_id item \<mapsto> item)))"

fun check_remediable :: "work_item list \<Rightarrow> unit result" where
  "check_remediable [] = return ()"
| "check_remediable (item # items) =
     (if \<not> wi_ready item then raise_ns ''causal root remediation task must be ready''
      else if wi_blocked_by item \<noteq> [] then raise_ns ''causal root remediation task cannot itself be blocked''
      else check_remediable items)"

definition compile_root_cause_remediation_queue ::
  "work_item list \<Rightarrow> gate_result list \<Rightarrow> string \<Rightarrow> work_item list result" where
  "compile_root_cause_remediation_queue items gate_results digest =
     and_then (build_remediation_plan gate_results digest) (\<lambda>plan.
     and_then (index_tasks items Map.empty) (\<lambda>by_task.
     let missing = filter (\<lambda>root. by_task root = None) (actionable_root_ids plan) in
     if missing \<noteq> []
     then raise_ns (''causal root failure has no matching remediation task: '' @ join '','' (sort missing))
     else let selected = map (\<lambda>root. the (by_task root)) (actionable_root_ids plan) in
       and_then (check_remediable selected) (\<lambda>_. return (sort_key queue_key selected))))"

definition causal_remediation_plan :: "gate_result list \<Rightarrow> string \<Rightarrow> causal_plan result" where
  "causal_remediation_plan gate_results digest = build_remediation_plan gate_results digest"

section \<open>Laws of the batch\<close>

definition writers_in :: "work_item list \<Rightarrow> int" where
  "writers_in xs = int (length (filter wi_requires_local_writer xs))"

definition heavy_in :: "work_item list \<Rightarrow> int" where
  "heavy_in xs = int (length (filter wi_heavy_compute xs))"

definition runs_on :: "string \<Rightarrow> work_item list \<Rightarrow> int" where
  "runs_on e xs = int (length (filter (\<lambda>w. wi_executor_id w = Some e) xs))"

lemma count_simps [simp]:
  "writers_in [] = 0" "heavy_in [] = 0" "runs_on e [] = 0"
  "writers_in (xs @ [x]) = writers_in xs + of_bool (wi_requires_local_writer x)"
  "heavy_in (xs @ [x]) = heavy_in xs + of_bool (wi_heavy_compute x)"
  "runs_on e (xs @ [x]) = runs_on e xs + of_bool (wi_executor_id x = Some e)"
  by (simp_all add: writers_in_def heavy_in_def runs_on_def)

lemma count_mono:
  "writers_in xs \<le> writers_in (xs @ ys)" "heavy_in xs \<le> heavy_in (xs @ ys)" "runs_on e xs \<le> runs_on e (xs @ ys)"
  by (simp_all add: writers_in_def heavy_in_def runs_on_def)

text \<open>The counters count, the limits hold, and each selected item was within its executor's limit
  when it was taken.\<close>

definition batch_inv :: "resource_policy \<Rightarrow> batch \<Rightarrow> bool" where
  "batch_inv policy b =
     (ba_writers b = writers_in (ba_selected b) \<and> ba_heavy b = heavy_in (ba_selected b) \<and>
      (\<forall>e. count_of (ba_executor_counts b) e = runs_on e (ba_selected b)) \<and>
      int (length (ba_selected b)) \<le> rp_technical_active_max policy \<and>
      ba_writers b \<le> rp_local_code_writers_max policy \<and> ba_heavy b \<le> rp_heavy_local_compute_max policy \<and>
      (\<forall>xs x ys e. ba_selected b = xs @ x # ys \<longrightarrow> wi_executor_id x = Some e \<longrightarrow>
         runs_on e xs < wi_executor_parallel_limit x))"

lemma batch_inv_empty: "resource_policy_init policy = Inr policy \<Longrightarrow> batch_inv policy empty_batch"
  by (auto simp: batch_inv_def empty_batch_def resource_policy_init_def count_of_def split: if_splits)

lemma batch_add_inv:
  assumes "batch_inv policy b" "int (length (ba_selected b)) < rp_technical_active_max policy"
    and "\<not> batch_refuses policy b item"
  shows "batch_inv policy (batch_add item b)"
proof -
  have limits: "wi_requires_local_writer item \<longrightarrow> ba_writers b < rp_local_code_writers_max policy"
      "wi_heavy_compute item \<longrightarrow> ba_heavy b < rp_heavy_local_compute_max policy"
      "\<And>e. wi_executor_id item = Some e \<Longrightarrow> count_of (ba_executor_counts b) e < wi_executor_parallel_limit item"
    using assms(3) by (auto simp: batch_refuses_def)
  have counts: "count_of (ba_executor_counts (batch_add item b)) e = runs_on e (ba_selected (batch_add item b))" for e
  proof -
    have "count_of (ba_executor_counts b) e = runs_on e (ba_selected b)" using assms(1) by (simp add: batch_inv_def)
    then show ?thesis by (cases "wi_executor_id item") (auto simp: batch_add_def count_of_def)
  qed
  have order: "runs_on e xs < wi_executor_parallel_limit x"
    if "ba_selected b @ [item] = xs @ x # ys" "wi_executor_id x = Some e" for xs x ys e
  proof (cases ys rule: rev_cases)
    case Nil
    with that limits(3) assms(1) show ?thesis by (auto simp: batch_inv_def)
  next
    case (snoc ys' y)
    with that have "ba_selected b = xs @ x # ys'" by simp
    with that(2) assms(1) show ?thesis unfolding batch_inv_def by blast
  qed
  show ?thesis using assms(1,2) limits(1,2) counts order
    by (auto simp: batch_inv_def batch_add_def)
qed

lemma batch_loop_inv: "batch_inv policy b \<Longrightarrow> batch_inv policy (batch_loop policy items b)"
  by (induction policy items b rule: batch_loop.induct) (auto simp: batch_add_inv)

lemma batch_loop_prefix:
  "\<exists>zs. ba_selected (batch_loop policy items b) = ba_selected b @ zs \<and> subseq zs items"
proof (induction policy items b rule: batch_loop.induct)
  case (2 policy item items b)
  show ?case
  proof (cases "int (length (ba_selected b)) \<ge> rp_technical_active_max policy")
    case False
    show ?thesis
    proof (cases "batch_refuses policy b item")
      case True
      then show ?thesis using 2(1) False by (auto simp: list_emb_Cons)
    next
      case taken: False
      from 2(2) [OF False taken] obtain zs where
        "ba_selected (batch_loop policy items (batch_add item b)) = ba_selected (batch_add item b) @ zs" "subseq zs items"
        by blast
      then show ?thesis using False taken by (intro exI [of _ "item # zs"]) (simp add: batch_add_def)
    qed
  qed auto
qed auto

text \<open>Work conservation: an item of the queue that is not taken was refused for a resource that is
  exhausted in the final batch.\<close>

definition exhausted_for :: "resource_policy \<Rightarrow> work_item list \<Rightarrow> work_item \<Rightarrow> bool" where
  "exhausted_for policy xs item =
     (int (length xs) \<ge> rp_technical_active_max policy \<or>
      wi_requires_local_writer item \<and> writers_in xs \<ge> rp_local_code_writers_max policy \<or>
      wi_heavy_compute item \<and> heavy_in xs \<ge> rp_heavy_local_compute_max policy \<or>
      (\<exists>e. wi_executor_id item = Some e \<and> runs_on e xs \<ge> wi_executor_parallel_limit item))"

lemma exhausted_mono: "exhausted_for policy xs item \<Longrightarrow> exhausted_for policy (xs @ ys) item"
  unfolding exhausted_for_def
proof (elim disjE exE conjE)
  fix e assume e: "wi_executor_id item = Some e" "runs_on e xs \<ge> wi_executor_parallel_limit item"
  then have "runs_on e (xs @ ys) \<ge> wi_executor_parallel_limit item" using count_mono(3) [of e xs ys] by linarith
  with e(1) show "rp_technical_active_max policy \<le> int (length (xs @ ys)) \<or>
      wi_requires_local_writer item \<and> rp_local_code_writers_max policy \<le> writers_in (xs @ ys) \<or>
      wi_heavy_compute item \<and> rp_heavy_local_compute_max policy \<le> heavy_in (xs @ ys) \<or>
      (\<exists>e. wi_executor_id item = Some e \<and> wi_executor_parallel_limit item \<le> runs_on e (xs @ ys))" by blast
qed (use count_mono(1,2) [of xs ys] in auto)

lemma refused_exhausted:
  "batch_inv policy b \<Longrightarrow> batch_refuses policy b item \<Longrightarrow> exhausted_for policy (ba_selected b) item"
  by (auto simp: batch_inv_def batch_refuses_def exhausted_for_def split: option.splits)

lemma batch_loop_conserves:
  "batch_inv policy b \<Longrightarrow> item \<in> set items \<Longrightarrow>
     item \<in> set (ba_selected (batch_loop policy items b)) \<or>
     exhausted_for policy (ba_selected (batch_loop policy items b)) item"
proof (induction policy items b rule: batch_loop.induct)
  case (2 policy x items b)
  show ?case
  proof (cases "int (length (ba_selected b)) \<ge> rp_technical_active_max policy")
    case True
    then show ?thesis by (simp add: exhausted_for_def)
  next
    case room: False
    show ?thesis
    proof (cases "batch_refuses policy b x")
      case True
      obtain zs where "ba_selected (batch_loop policy items b) = ba_selected b @ zs"
        using batch_loop_prefix by blast
      then show ?thesis using 2 room True refused_exhausted [of policy b x] exhausted_mono
        by (cases "item = x") auto
    next
      case False
      obtain zs where "ba_selected (batch_loop policy items (batch_add x b)) = ba_selected (batch_add x b) @ zs"
        using batch_loop_prefix by blast
      then show ?thesis using 2 room False batch_add_inv [of policy b x]
        by (cases "item = x") (auto simp: batch_add_def)
    qed
  qed
qed simp

lemma index_tasks_Inr:
  "index_tasks items m = Inr m' \<Longrightarrow>
     distinct (map wi_task_id items) \<and> (\<forall>w \<in> set items. m (wi_task_id w) = None) \<and>
     (\<forall>t w. m' t = Some w \<longleftrightarrow> m t = Some w \<or> (w \<in> set items \<and> wi_task_id w = t))"
  by (induction items m rule: index_tasks.induct) (fastforce split: if_splits)+

lemma check_remediable_Inr:
  "check_remediable items = Inr u \<longleftrightarrow> (\<forall>w \<in> set items. wi_ready w \<and> wi_blocked_by w = [])"
  by (induction items) auto

lemma subseq_set_subset: "subseq xs ys \<Longrightarrow> set xs \<subseteq> set ys"
  by (induction rule: list_emb.induct) auto

lemma subseq_sorted: "subseq xs ys \<Longrightarrow> sorted ys \<Longrightarrow> sorted (xs :: 'a::linorder list)"
proof (induction rule: list_emb.induct)
  case (list_emb_Cons2 x y xs ys)
  then show ?case using subseq_set_subset [of xs ys] by auto
qed auto

section \<open>Properties\<close>

text \<open>C33: A batch never oversubscribes a resource. The selected items are ready, unblocked and in
  queue order; there are at most \<^verbatim>\<open>technical_active_max\<close> of them, at most the permitted local
  writers and heavy computations; and every item was, with those before it, within the parallel limit
  of its executor.\<close>

theorem select_batch_within_limits:
  assumes "resource_policy_init policy = return policy"
  shows "subseq (select_batch items policy) (compile_ready_queue items) \<and>
    set (select_batch items policy) \<subseteq> {w \<in> set items. wi_ready w \<and> wi_blocked_by w = []} \<and>
    sorted (map queue_key (select_batch items policy)) \<and>
    int (length (select_batch items policy)) \<le> rp_technical_active_max policy \<and>
    writers_in (select_batch items policy) \<le> rp_local_code_writers_max policy \<and>
    heavy_in (select_batch items policy) \<le> rp_heavy_local_compute_max policy \<and>
    (\<forall>xs x ys e. select_batch items policy = xs @ x # ys \<longrightarrow> wi_executor_id x = Some e \<longrightarrow>
       runs_on e xs < wi_executor_parallel_limit x)"
proof -
  let ?b = "batch_loop policy (compile_ready_queue items) empty_batch"
  have inv: "batch_inv policy ?b" by (rule batch_loop_inv) (rule batch_inv_empty [OF assms])
  have sub: "subseq (select_batch items policy) (compile_ready_queue items)"
    using batch_loop_prefix [of policy "compile_ready_queue items" empty_batch]
    by (auto simp: select_batch_def empty_batch_def)
  have "set (select_batch items policy) \<subseteq> set (compile_ready_queue items)"
    using sub by (rule subseq_set_subset)
  then have "set (select_batch items policy) \<subseteq> {w \<in> set items. wi_ready w \<and> wi_blocked_by w = []}"
    by (auto simp: compile_ready_queue_def schedulable_def)
  moreover have "sorted (map queue_key (select_batch items policy))"
  proof (rule subseq_sorted)
    show "subseq (map queue_key (select_batch items policy)) (map queue_key (compile_ready_queue items))"
      using sub by (rule subseq_map)
  qed (simp add: compile_ready_queue_def)
  ultimately show ?thesis using sub inv unfolding batch_inv_def select_batch_def by (simp only:) simp
qed

text \<open>A batch leaves no schedulable work behind without reason: an item that is ready and
  unblocked is in the batch, or the batch is full, or the local writers, heavy computations or the
  item's executor are used up by the items selected.\<close>

theorem select_batch_work_conserving:
  assumes "resource_policy_init policy = return policy" and "w \<in> set items" and "schedulable w"
  shows "w \<in> set (select_batch items policy) \<or>
    int (length (select_batch items policy)) = rp_technical_active_max policy \<or>
    wi_requires_local_writer w \<and> writers_in (select_batch items policy) = rp_local_code_writers_max policy \<or>
    wi_heavy_compute w \<and> heavy_in (select_batch items policy) = rp_heavy_local_compute_max policy \<or>
    (\<exists>e. wi_executor_id w = Some e \<and> runs_on e (select_batch items policy) \<ge> wi_executor_parallel_limit w)"
proof -
  let ?b = "batch_loop policy (compile_ready_queue items) empty_batch"
  have inv0: "batch_inv policy empty_batch" by (rule batch_inv_empty [OF assms(1)])
  have inv: "batch_inv policy ?b" by (rule batch_loop_inv [OF inv0])
  have "w \<in> set (compile_ready_queue items)" using assms(2,3) by (simp add: compile_ready_queue_def)
  from batch_loop_conserves [OF inv0 this] show ?thesis
    using inv unfolding exhausted_for_def batch_inv_def select_batch_def by fastforce
qed

text \<open>The root-cause queue schedules exactly the root causes. When it returns, the tasks in it
  are the gates that failed locally, each once, all ready and unblocked, in queue order; symptoms
  that are only blocked by a root are not scheduled.\<close>

theorem root_cause_queue_exact:
  assumes "compile_root_cause_remediation_queue items gates digest = return queue"
  shows "\<exists>plan. build_remediation_plan gates digest = return plan \<and>
    mset (map wi_task_id queue) = mset (actionable_root_ids plan) \<and>
    set queue \<subseteq> set items \<and> (\<forall>w \<in> set queue. wi_ready w \<and> wi_blocked_by w = []) \<and>
    sorted (map queue_key queue)"
proof -
  obtain plan by_task where plan: "build_remediation_plan gates digest = Inr plan"
    and idx: "index_tasks items Map.empty = Inr by_task"
    and miss: "filter (\<lambda>root. by_task root = None) (actionable_root_ids plan) = []"
    and chk: "check_remediable (map (\<lambda>root. the (by_task root)) (actionable_root_ids plan)) = Inr ()"
    and queue: "queue = sort_key queue_key (map (\<lambda>root. the (by_task root)) (actionable_root_ids plan))"
    using assms by (auto simp: compile_root_cause_remediation_queue_def Let_def split: if_splits)
  have found: "the (by_task root) \<in> set items \<and> wi_task_id (the (by_task root)) = root"
    if "root \<in> set (actionable_root_ids plan)" for root
  proof -
    from miss that have "by_task root \<noteq> None" by (auto simp: filter_empty_conv)
    then obtain w where w: "by_task root = Some w" by blast
    then have "w \<in> set items \<and> wi_task_id w = root" using index_tasks_Inr [OF idx] by simp
    with w show ?thesis by simp
  qed
  then have "map (wi_task_id \<circ> (\<lambda>root. the (by_task root))) (actionable_root_ids plan) = actionable_root_ids plan"
    by (intro map_idI) simp
  then have "mset (map wi_task_id queue) = mset (actionable_root_ids plan)"
    by (simp add: queue) (metis mset_map map_map)
  moreover have "set queue \<subseteq> set items" "\<forall>w \<in> set queue. wi_ready w \<and> wi_blocked_by w = []"
    using found chk by (auto simp: queue check_remediable_Inr)
  ultimately show ?thesis using plan queue by auto
qed

section \<open>Witnesses\<close>

definition sample_item :: "string \<Rightarrow> work_item" where
  "sample_item i = \<lparr>wi_task_id = i, wi_priority = 1, wi_closure_percent = 50, wi_ready = True, wi_blocked_by = [],
     wi_risk_class = R0, wi_requires_local_writer = True, wi_heavy_compute = False, wi_executor_id = Some ''x'',
     wi_executor_parallel_limit = 1\<rparr>"

lemma sample_policy_init: "resource_policy_init default_resource_policy = return default_resource_policy"
  by code_simp

lemma sample_batch: "select_batch [sample_item ''b'', sample_item ''a''] default_resource_policy = [sample_item ''a'']"
  by code_simp

lemma select_batch_within_limits_witness:
  "writers_in (select_batch [sample_item ''b'', sample_item ''a''] default_resource_policy) \<le> 1"
  using select_batch_within_limits [OF sample_policy_init, of "[sample_item ''b'', sample_item ''a'']"]
  by (simp add: default_resource_policy_def)

lemma select_batch_work_conserving_witness:
  "writers_in (select_batch [sample_item ''b'', sample_item ''a''] default_resource_policy) = 1 \<or>
   runs_on ''x'' (select_batch [sample_item ''b'', sample_item ''a''] default_resource_policy) \<ge> 1"
proof -
  have "schedulable (sample_item ''b'')" by code_simp
  from select_batch_work_conserving [OF sample_policy_init _ this, of "[sample_item ''b'', sample_item ''a'']"]
  show ?thesis by (simp add: sample_batch) (simp add: sample_item_def writers_in_def default_resource_policy_def heavy_in_def runs_on_def)
qed

lemma root_cause_queue_exact_witness:
  "\<exists>plan. build_remediation_plan [\<lparr>gr_gate_id = ''a'', gr_state = GS_FAIL_LOCAL, gr_root_cause_id = None\<rparr>]
       (replicate 64 (CHR ''a'')) = return plan \<and> mset (actionable_root_ids plan) = {#''a''#}"
proof -
  let ?g = "\<lparr>gr_gate_id = ''a'', gr_state = GS_FAIL_LOCAL, gr_root_cause_id = None\<rparr>"
  let ?d = "replicate 64 (CHR ''a'')"
  have init: "causal_graph_init \<lparr>cg_state_snapshot_digest = ?d, cg_results = [?g]\<rparr> =
      return \<lparr>cg_state_snapshot_digest = ?d, cg_results = [?g]\<rparr>"
    by (simp add: causal_graph_init_def sample_digest del: replicate.simps)
  have strip_a: "strip ''a'' = ''a''" by (simp add: strip_def is_space_def)
  have "is_sha256 (causal_graph_digest g)" for g by (simp add: causal_graph_digest_def)
  then have plan: "build_remediation_plan [?g] ?d = return \<lparr>cp_graph_digest =
      causal_graph_digest \<lparr>cg_state_snapshot_digest = ?d, cg_results = [?g]\<rparr>,
      cp_state_snapshot_digest = ?d, cp_impacts = [\<lparr>im_root_cause_id = ''a'', im_blocked_gate_ids = []\<rparr>]\<rparr>"
    unfolding build_remediation_plan_def init
    by (simp add: remediation_plan_def graph_root_failures_def is_root_failure_def impact_of_root_def blocked_for_root_def
        Let_def strip_a root_cause_impact_init_def causal_plan_init_def sample_digest sorted_set_def del: replicate.simps)
  then have "compile_root_cause_remediation_queue [sample_item ''a''] [?g] ?d = return [sample_item ''a'']"
    by (simp add: compile_root_cause_remediation_queue_def actionable_root_ids_def sample_item_def Let_def del: replicate.simps)
  from root_cause_queue_exact [OF this] show ?thesis by (auto simp: sample_item_def)
qed

end
