(* ===== verification/NS_Portfolio.thy ===== *)
theory NS_Portfolio
  imports NS_Scheduler
begin

text \<open>
  The multi-project portfolio: live project states (\<^verbatim>\<open>core/night_shift/portfolio.py\<close>), the project
  and executor registries (\<^verbatim>\<open>project_registry.py\<close>, \<^verbatim>\<open>executor_registry.py\<close>), capability routing
  (\<^verbatim>\<open>routing.py\<close>) and the compilation of dispatches (\<^verbatim>\<open>multi_project.py\<close>). The YAML files the
  registries are loaded from are read by a third-party parser and are not modelled.
\<close>

section \<open>Project states\<close>

record project_state =
  ps_project_id :: string
  ps_repository :: string
  ps_main_sha :: string
  ps_task_id :: string
  ps_closure_percent :: int
  ps_risk_class :: risk_class
  ps_candidate_sha :: "string option"
  ps_candidate_base_sha :: "string option"
  ps_blockers :: "string list"
  ps_evidence_refs :: "string list"

definition opt_git_oid :: "string option \<Rightarrow> string \<Rightarrow> string option result" where
  "opt_git_oid v field_name =
     (case v of None \<Rightarrow> return None | Some s \<Rightarrow> and_then (require_git_oid s field_name) (\<lambda>x. return (Some x)))"

definition project_state_init :: "project_state \<Rightarrow> project_state result" where
  "project_state_init s =
     (if strip (ps_project_id s) = [] \<or> strip (ps_repository s) = [] \<or> strip (ps_task_id s) = []
      then raise_ns ''project state identity is required''
      else if \<not> (0 \<le> ps_closure_percent s \<and> ps_closure_percent s \<le> 100)
      then raise_ns ''closure_percent must be within 0..100''
      else and_then (require_git_oid (ps_main_sha s) ''main_sha'') (\<lambda>main_sha.
      if (ps_candidate_sha s = None) \<noteq> (ps_candidate_base_sha s = None)
      then raise_ns ''candidate sha/base must appear together''
      else and_then (opt_git_oid (ps_candidate_sha s) ''candidate_sha'') (\<lambda>candidate_sha.
      and_then (opt_git_oid (ps_candidate_base_sha s) ''candidate_base_sha'') (\<lambda>candidate_base_sha.
      let refs = sorted_set (map strip (ps_evidence_refs s)) in
      if refs = [] \<or> (\<exists>x \<in> set refs. x = []) then raise_ns ''project state requires evidence''
      else return (s\<lparr>ps_main_sha := main_sha, ps_candidate_sha := candidate_sha,
        ps_candidate_base_sha := candidate_base_sha, ps_evidence_refs := refs\<rparr>)))))"

definition candidate_stale :: "project_state \<Rightarrow> bool" where
  "candidate_stale s =
     (ps_candidate_base_sha s \<noteq> None \<and> ps_candidate_base_sha s \<noteq> Some (ps_main_sha s))"

definition project_ready :: "project_state \<Rightarrow> bool" where
  "project_ready s = (ps_blockers s = [] \<and> \<not> candidate_stale s)"

record portfolio_snapshot =
  pf_snapshot_id :: string
  pf_observed_at_epoch :: int
  pf_expires_at_epoch :: int
  pf_projects :: "project_state list"

definition portfolio_init :: "portfolio_snapshot \<Rightarrow> portfolio_snapshot result" where
  "portfolio_init p =
     (if strip (pf_snapshot_id p) = [] \<or> pf_observed_at_epoch p < 0 \<or>
         pf_expires_at_epoch p \<le> pf_observed_at_epoch p
      then raise_ns ''invalid portfolio snapshot''
      else if \<not> distinct (map ps_project_id (pf_projects p)) \<or> \<not> distinct (map ps_repository (pf_projects p))
      then raise_ns ''portfolio identities must be unique''
      else return p)"

definition portfolio_require_fresh :: "portfolio_snapshot \<Rightarrow> int \<Rightarrow> unit result" where
  "portfolio_require_fresh p now_epoch =
     (if now_epoch < pf_observed_at_epoch p \<or> now_epoch \<ge> pf_expires_at_epoch p
      then raise_ns ''portfolio snapshot is stale'' else return ())"

definition project_state_dict :: "project_state \<Rightarrow> json" where
  "project_state_dict x = JObj
    [(''project_id'', JStr (ps_project_id x)),
     (''repository'', JStr (ps_repository x)),
     (''main_sha'', JStr (ps_main_sha x)),
     (''task_id'', JStr (ps_task_id x)),
     (''closure_percent'', JInt (ps_closure_percent x)),
     (''risk_class'', JStr (risk_value (ps_risk_class x))),
     (''candidate_sha'', opt_str (ps_candidate_sha x)),
     (''candidate_base_sha'', opt_str (ps_candidate_base_sha x)),
     (''blockers'', jstrs (ps_blockers x)),
     (''evidence_refs'', jstrs (ps_evidence_refs x))]"

definition portfolio_digest :: "portfolio_snapshot \<Rightarrow> string" where
  "portfolio_digest p = content_digest (JObj
    [(''snapshot_id'', JStr (pf_snapshot_id p)),
     (''observed_at_epoch'', JInt (pf_observed_at_epoch p)),
     (''expires_at_epoch'', JInt (pf_expires_at_epoch p)),
     (''projects'', JList (map project_state_dict (pf_projects p)))])"

section \<open>Registries\<close>

record executor_profile =
  ep_executor_id :: string
  ep_capabilities :: "string list"
  ep_mutating :: bool
  ep_independent_review :: bool
  ep_cost_rank :: int
  ep_enabled :: bool
  ep_requires_local_writer :: bool
  ep_heavy_compute :: bool
  ep_max_parallel :: int

definition executor_profile_init :: "executor_profile \<Rightarrow> executor_profile result" where
  "executor_profile_init e =
     (let caps = sorted_set (map strip (ep_capabilities e)) in
      if strip (ep_executor_id e) = [] \<or> caps = [] \<or> ep_cost_rank e < 0 then raise_ns ''invalid executor profile''
      else if ep_max_parallel e < 1 then raise_ns ''max_parallel must be positive''
      else return (e\<lparr>ep_capabilities := caps\<rparr>))"

definition executor_profile_dict :: "executor_profile \<Rightarrow> json" where
  "executor_profile_dict e = JObj
    [(''executor_id'', JStr (ep_executor_id e)),
     (''capabilities'', jstrs (ep_capabilities e)),
     (''mutating'', JBool (ep_mutating e)),
     (''independent_review'', JBool (ep_independent_review e)),
     (''cost_rank'', JInt (ep_cost_rank e)),
     (''enabled'', JBool (ep_enabled e)),
     (''requires_local_writer'', JBool (ep_requires_local_writer e)),
     (''heavy_compute'', JBool (ep_heavy_compute e)),
     (''max_parallel'', JInt (ep_max_parallel e))]"

definition executor_registry_digest :: "executor_profile list \<Rightarrow> string" where
  "executor_registry_digest executors =
     content_digest (JObj [(''executors'', JList (map executor_profile_dict (sort_key ep_executor_id executors)))])"

record project_config =
  pc_project_id :: string
  pc_repository :: string
  pc_priority :: int
  pc_default_risk_class :: risk_class
  pc_required_capabilities :: "string list"
  pc_mutating :: bool

definition project_config_init :: "project_config \<Rightarrow> project_config result" where
  "project_config_init c =
     (let caps = sorted_set (map strip (pc_required_capabilities c)) in
      if strip (pc_project_id c) = [] \<or> strip (pc_repository c) = [] \<or> pc_priority c < 0 \<or> caps = []
      then raise_ns ''invalid project config''
      else return (c\<lparr>pc_required_capabilities := caps\<rparr>))"

definition project_config_dict :: "project_config \<Rightarrow> json" where
  "project_config_dict c = JObj
    [(''project_id'', JStr (pc_project_id c)),
     (''repository'', JStr (pc_repository c)),
     (''priority'', JInt (pc_priority c)),
     (''default_risk_class'', JStr (risk_value (pc_default_risk_class c))),
     (''required_capabilities'', jstrs (pc_required_capabilities c)),
     (''mutating'', JBool (pc_mutating c))]"

definition project_registry_init :: "project_config list \<Rightarrow> project_config list result" where
  "project_registry_init projects =
     (if \<not> distinct (map pc_project_id projects) \<or> \<not> distinct (map pc_repository projects)
      then raise_ns ''project registry identities must be unique'' else return projects)"

definition by_project_id :: "project_config list \<Rightarrow> string \<Rightarrow> project_config result" where
  "by_project_id projects project_id =
     (case filter (\<lambda>x. pc_project_id x = project_id) projects of
        [x] \<Rightarrow> return x
      | _ \<Rightarrow> raise_ns ''project not uniquely registered'')"

definition project_registry_digest :: "project_config list \<Rightarrow> string" where
  "project_registry_digest projects =
     content_digest (JObj [(''projects'', JList (map project_config_dict projects))])"

section \<open>Routing\<close>

record route_decision =
  rd_executor_id :: string
  rd_reason :: string
  rd_requires_local_writer :: bool
  rd_heavy_compute :: bool
  rd_max_parallel :: int

definition route_candidate :: "string list \<Rightarrow> bool \<Rightarrow> bool \<Rightarrow> executor_profile \<Rightarrow> bool" where
  "route_candidate required mutating review x =
     (ep_enabled x \<and> set required \<subseteq> set (ep_capabilities x) \<and> (\<not> mutating \<or> ep_mutating x) \<and>
      (\<not> review \<or> ep_independent_review x))"

definition route_key :: "executor_profile \<Rightarrow> int \<times> string" where
  "route_key x = (ep_cost_rank x, ep_executor_id x)"

text \<open>\<^verbatim>\<open>min(candidates, key=...)\<close>: the first of the smallest, which is the head of the stable sort.\<close>

definition route_executor :: "string list \<Rightarrow> executor_profile list \<Rightarrow> bool \<Rightarrow> bool \<Rightarrow> route_decision result" where
  "route_executor required executors mutating review =
     (case sort_key route_key (filter (route_candidate required mutating review) executors) of
        [] \<Rightarrow> raise_ns ''no executor satisfies required capabilities''
      | winner # _ \<Rightarrow> return
          \<lparr>rd_executor_id = ep_executor_id winner,
           rd_reason = ''minimum enabled cost rank satisfying capabilities'',
           rd_requires_local_writer = ep_requires_local_writer winner,
           rd_heavy_compute = ep_heavy_compute winner,
           rd_max_parallel = ep_max_parallel winner\<rparr>)"

section \<open>Dispatch\<close>

record dispatch =
  dp_project_id :: string
  dp_task_id :: string
  dp_executor_id :: string
  dp_repository :: string

definition stale_blockers :: "project_state \<Rightarrow> string list" where
  "stale_blockers s = ps_blockers s @ (if candidate_stale s then [''STALE_CANDIDATE''] else [])"

text \<open>The body of the loop over the projects: the work item, and the entry of \<^verbatim>\<open>by_task\<close> when the
  project is ready.\<close>

definition project_item ::
  "project_config list \<Rightarrow> executor_profile list \<Rightarrow> project_state \<Rightarrow>
   (work_item \<times> (string \<times> project_state \<times> route_decision) option) result" where
  "project_item configs executors s =
     (case map_of (rev (map (\<lambda>c. (pc_project_id c, c)) configs)) (ps_project_id s) of
        None \<Rightarrow> raise_ns ''live project missing/mismatched registry config''
      | Some config \<Rightarrow>
          if pc_repository config \<noteq> ps_repository s
          then raise_ns ''live project missing/mismatched registry config''
          else let blockers = stale_blockers s in
          if project_ready s \<and> blockers = [] then
            and_then (route_executor (pc_required_capabilities config) executors (pc_mutating config) False) (\<lambda>route.
            and_then (work_item_init
              \<lparr>wi_task_id = ps_task_id s, wi_priority = pc_priority config,
               wi_closure_percent = ps_closure_percent s, wi_ready = True, wi_blocked_by = blockers,
               wi_risk_class = ps_risk_class s, wi_requires_local_writer = rd_requires_local_writer route,
               wi_heavy_compute = rd_heavy_compute route, wi_executor_id = Some (rd_executor_id route),
               wi_executor_parallel_limit = rd_max_parallel route\<rparr>) (\<lambda>item.
            return (item, Some (ps_task_id s, s, route))))
          else
            and_then (work_item_init
              \<lparr>wi_task_id = ps_task_id s, wi_priority = pc_priority config,
               wi_closure_percent = ps_closure_percent s, wi_ready = False, wi_blocked_by = blockers,
               wi_risk_class = ps_risk_class s, wi_requires_local_writer = False,
               wi_heavy_compute = False, wi_executor_id = None, wi_executor_parallel_limit = 1\<rparr>) (\<lambda>item.
            return (item, None)))"

text \<open>\<^verbatim>\<open>by_task\<close> after the loop: a later project replaces the entry of an equal task.\<close>

definition by_task_of ::
  "(work_item \<times> (string \<times> project_state \<times> route_decision) option) list \<Rightarrow>
   string \<rightharpoonup> project_state \<times> route_decision" where
  "by_task_of rows = map_of (rev (List.map_filter snd rows))"

definition dispatch_item ::
  "(string \<rightharpoonup> project_state \<times> route_decision) \<Rightarrow> work_item \<Rightarrow> dispatch result" where
  "dispatch_item by_task item =
     (case by_task (wi_task_id item) of
        None \<Rightarrow> raise (BuiltinKeyError (wi_task_id item))
      | Some (s, route) \<Rightarrow> return
          \<lparr>dp_project_id = ps_project_id s, dp_task_id = ps_task_id s,
           dp_executor_id = rd_executor_id route, dp_repository = ps_repository s\<rparr>)"

definition compile_dispatches ::
  "portfolio_snapshot \<Rightarrow> project_config list \<Rightarrow> executor_profile list \<Rightarrow> resource_policy \<Rightarrow> int \<Rightarrow>
   dispatch list result" where
  "compile_dispatches snapshot configs executors policy now_epoch =
     and_then (portfolio_require_fresh snapshot now_epoch) (\<lambda>_.
     and_then (map_result (project_item configs executors) (pf_projects snapshot)) (\<lambda>rows.
     map_result (dispatch_item (by_task_of rows)) (select_batch (map fst rows) policy)))"

section \<open>Laws\<close>

lemma route_executor_Inr:
  assumes "route_executor required executors mutating review = Inr route"
  shows "\<exists>winner \<in> set executors. route_candidate required mutating review winner \<and>
    rd_executor_id route = ep_executor_id winner \<and> rd_requires_local_writer route = ep_requires_local_writer winner \<and>
    rd_heavy_compute route = ep_heavy_compute winner \<and> rd_max_parallel route = ep_max_parallel winner \<and>
    (\<forall>x \<in> set executors. route_candidate required mutating review x \<longrightarrow> route_key winner \<le> route_key x)"
proof -
  let ?c = "filter (route_candidate required mutating review) executors"
  obtain winner rest where w: "sort_key route_key ?c = winner # rest"
    using assms by (auto simp: route_executor_def split: list.splits)
  have set: "set (winner # rest) = set ?c" using w by (metis set_sort)
  have "sorted (map route_key (winner # rest))" using w by (metis sorted_sort_key)
  then have "\<forall>x \<in> set (winner # rest). route_key winner \<le> route_key x" by simp
  with set have min: "\<forall>x \<in> set executors. route_candidate required mutating review x \<longrightarrow> route_key winner \<le> route_key x"
    by simp
  have "winner \<in> set ?c" using set by auto
  moreover have "route = \<lparr>rd_executor_id = ep_executor_id winner,
      rd_reason = ''minimum enabled cost rank satisfying capabilities'',
      rd_requires_local_writer = ep_requires_local_writer winner, rd_heavy_compute = ep_heavy_compute winner,
      rd_max_parallel = ep_max_parallel winner\<rparr>"
    using assms w by (simp add: route_executor_def)
  ultimately show ?thesis using min by auto
qed

lemma route_executor_Inl:
  "route_executor required executors mutating review = Inl e \<longleftrightarrow>
     e = NightShiftContractError ''no executor satisfies required capabilities'' \<and>
     (\<forall>x \<in> set executors. \<not> route_candidate required mutating review x)"
  by (auto simp: route_executor_def filter_empty_conv split: list.splits)
    (metis filter_empty_conv list.distinct(1) sort_key_Nil_iff)+

lemma subseq_distinct: "subseq xs ys \<Longrightarrow> distinct ys \<Longrightarrow> distinct xs"
proof (induction rule: list_emb.induct)
  case (list_emb_Cons2 x y xs ys)
  then show ?case using subseq_set_subset [of xs ys] by auto
qed auto

lemma distinct_map_sort_key: "distinct (map f (sort_key g xs)) \<longleftrightarrow> distinct (map f xs)"
  by (rule mset_eq_imp_distinct_iff) simp

text \<open>What a row of the loop holds.\<close>

definition row_for ::
  "project_config list \<Rightarrow> executor_profile list \<Rightarrow> project_state \<Rightarrow>
   work_item \<times> (string \<times> project_state \<times> route_decision) option \<Rightarrow> bool" where
  "row_for configs executors s row =
     (wi_task_id (fst row) = strip (ps_task_id s) \<and>
      (wi_ready (fst row) \<longrightarrow> project_ready s \<and>
        (\<exists>route config. snd row = Some (ps_task_id s, s, route) \<and> config \<in> set configs \<and>
           pc_project_id config = ps_project_id s \<and> pc_repository config = ps_repository s \<and>
           route_executor (pc_required_capabilities config) executors (pc_mutating config) False = Inr route)) \<and>
      (\<forall>k v. snd row = Some (k, v) \<longrightarrow> k = ps_task_id s \<and> fst v = s))"

lemma work_item_init_fields:
  "work_item_init w = Inr w' \<Longrightarrow> wi_task_id w' = strip (wi_task_id w) \<and> wi_ready w' = wi_ready w"
  by (auto simp: work_item_init_def Let_def split: if_splits)

lemma project_item_row:
  assumes "project_item configs executors s = Inr row"
  shows "row_for configs executors s row"
proof -
  obtain config where c: "map_of (rev (map (\<lambda>c. (pc_project_id c, c)) configs)) (ps_project_id s) = Some config"
      "pc_repository config = ps_repository s"
    using assms by (auto simp: project_item_def split: option.splits if_splits)
  have "config \<in> set configs" "pc_project_id config = ps_project_id s"
    using map_of_SomeD [OF c(1)] by auto
  with assms c show ?thesis
    by (auto simp: project_item_def Let_def row_for_def split: if_splits dest!: work_item_init_fields)
qed

lemma entries_keys:
  assumes "list_all2 (row_for configs executors) ss rows"
  shows "subseq (map fst (List.map_filter snd rows)) (map ps_task_id ss)"
  using assms
proof (induction ss rows rule: list_all2_induct)
  case (Cons s ss row rows)
  show ?case
  proof (cases "snd row")
    case None
    then show ?thesis using Cons by (auto simp: List.map_filter_simps intro: list_emb_Cons)
  next
    case (Some kv)
    then have "fst kv = ps_task_id s" using Cons(1) by (cases kv) (auto simp: row_for_def)
    then show ?thesis using Some Cons by (simp add: List.map_filter_simps)
  qed
qed (simp add: List.map_filter_simps)

lemma by_task_lookup:
  assumes "list_all2 (row_for configs executors) ss rows" "distinct (map ps_task_id ss)"
    and "row \<in> set rows" "snd row = Some (t, v)"
  shows "by_task_of rows t = Some v"
proof -
  have "distinct (map fst (List.map_filter snd rows))"
    using subseq_distinct [OF entries_keys [OF assms(1)] assms(2)] .
  moreover have "(t, v) \<in> set (List.map_filter snd rows)"
    using assms(3,4) by (force simp: List.map_filter_def)
  ultimately show ?thesis unfolding by_task_of_def
    by (intro map_of_is_SomeI) (simp_all flip: rev_map)
qed

lemma row_tasks:
  "list_all2 (row_for configs executors) ss rows \<Longrightarrow> \<forall>s \<in> set ss. strip (ps_task_id s) = ps_task_id s \<Longrightarrow>
     map (wi_task_id \<circ> fst) rows = map ps_task_id ss"
  by (induction rule: list_all2_induct) (auto simp: row_for_def)

text \<open>Every entry of \<^verbatim>\<open>by_task\<close> is a project of the snapshot under its own task identifier, and the last ready
  project with an identifier is the one its entry holds.\<close>

lemma project_item_rows:
  "map_result (project_item configs executors) ss = Inr rows \<Longrightarrow> list_all2 (row_for configs executors) ss rows"
  unfolding map_result_Inr_iff by (erule list_all2_mono) (rule project_item_row)

lemma by_task_entry:
  assumes "map_result (project_item configs executors) ss = Inr rows" "by_task_of rows k = Some (s, route)"
  shows "s \<in> set ss \<and> k = ps_task_id s"
proof -
  have "(k, s, route) \<in> set (List.map_filter snd rows)"
    using map_of_SomeD [OF assms(2) [unfolded by_task_of_def]] by simp
  then obtain row where row: "row \<in> set rows" "snd row = Some (k, s, route)"
    by (auto simp: List.map_filter_def)
  then obtain s' where "s' \<in> set ss" "row_for configs executors s' row"
    using list_all2_right [OF project_item_rows [OF assms(1)]] by blast
  then show ?thesis using row(2) by (simp add: row_for_def)
qed

lemma project_item_ready:
  assumes "project_item configs executors s = Inr row" "project_ready s"
  shows "\<exists>route. snd row = Some (ps_task_id s, s, route)"
  using assms by (auto simp: project_item_def Let_def stale_blockers_def project_ready_def split: option.splits if_splits)

lemma by_task_last:
  assumes "map_result (project_item configs executors) (front @ s # after) = Inr rows"
    and "project_ready s" "\<forall>s' \<in> set after. ps_task_id s' \<noteq> ps_task_id s"
    and "by_task_of rows (ps_task_id s) = Some v"
  shows "fst v = s"
proof -
  obtain rows1 row rows2 where rows: "rows = rows1 @ row # rows2"
      "project_item configs executors s = Inr row" "map_result (project_item configs executors) after = Inr rows2"
    using assms(1) by (auto simp: map_result_Inr_iff list_all2_append1 list_all2_Cons1)
  obtain route where route: "snd row = Some (ps_task_id s, s, route)"
    using project_item_ready [OF rows(2) assms(2)] by blast
  have "subseq (map fst (List.map_filter snd rows2)) (map ps_task_id after)"
    by (rule entries_keys [OF project_item_rows [OF rows(3)]])
  from subseq_set_subset [OF this] have "ps_task_id s \<notin> fst ` set (List.map_filter snd rows2)"
    using assms(3) by auto
  then have "map_of (rev (List.map_filter snd rows2)) (ps_task_id s) = None"
    by (simp add: map_of_eq_None_iff)
  then have "by_task_of rows (ps_task_id s) = Some (s, route)"
    by (simp add: by_task_of_def rows(1) route List.map_filter_simps List.map_filter_def map_add_def)
  with assms(4) show ?thesis by auto
qed

text \<open>A dispatch that is a ready project's own, on the executor its registered capabilities route to.\<close>

definition sound_dispatch ::
  "project_config list \<Rightarrow> executor_profile list \<Rightarrow> project_state \<Rightarrow> dispatch \<Rightarrow> bool" where
  "sound_dispatch configs executors s d =
     (project_ready s \<and> dp_project_id d = ps_project_id s \<and> dp_task_id d = ps_task_id s \<and>
      dp_repository d = ps_repository s \<and>
      (\<exists>config \<in> set configs. \<exists>route. pc_project_id config = ps_project_id s \<and>
         pc_repository config = ps_repository s \<and>
         route_executor (pc_required_capabilities config) executors (pc_mutating config) False = Inr route \<and>
         dp_executor_id d = rd_executor_id route))"

lemma list_all2_map_eq: "list_all2 (\<lambda>x y. f y = g x) xs ys \<Longrightarrow> map f ys = map g xs"
  by (induction rule: list_all2_induct) auto

section \<open>Properties\<close>

text \<open>Routing picks a cheapest capable executor: a route names an enabled executor that has every
  required capability (and may mutate, or review independently, when that is asked for) and whose
  cost rank and name are smallest among all such executors; it raises exactly when there is
  none.\<close>

theorem route_executor_optimal:
  "(\<forall>route. route_executor required executors mutating review = return route \<longrightarrow>
      (\<exists>winner \<in> set executors. ep_enabled winner \<and> set required \<subseteq> set (ep_capabilities winner) \<and>
         (mutating \<longrightarrow> ep_mutating winner) \<and> (review \<longrightarrow> ep_independent_review winner) \<and>
         rd_executor_id route = ep_executor_id winner \<and> rd_max_parallel route = ep_max_parallel winner \<and>
         (\<forall>x \<in> set executors. route_candidate required mutating review x \<longrightarrow>
            (ep_cost_rank winner, ep_executor_id winner) \<le> (ep_cost_rank x, ep_executor_id x)))) \<and>
   ((\<exists>e. route_executor required executors mutating review = raise e) \<longleftrightarrow>
      \<not> (\<exists>x \<in> set executors. route_candidate required mutating review x))"
proof (intro conjI allI impI)
  fix route assume "route_executor required executors mutating review = return route"
  from route_executor_Inr [OF this] obtain winner where "winner \<in> set executors"
      "route_candidate required mutating review winner" "rd_executor_id route = ep_executor_id winner"
      "rd_max_parallel route = ep_max_parallel winner"
      "\<forall>x \<in> set executors. route_candidate required mutating review x \<longrightarrow> route_key winner \<le> route_key x"
    by blast
  then show "\<exists>winner \<in> set executors. ep_enabled winner \<and> set required \<subseteq> set (ep_capabilities winner) \<and>
         (mutating \<longrightarrow> ep_mutating winner) \<and> (review \<longrightarrow> ep_independent_review winner) \<and>
         rd_executor_id route = ep_executor_id winner \<and> rd_max_parallel route = ep_max_parallel winner \<and>
         (\<forall>x \<in> set executors. route_candidate required mutating review x \<longrightarrow>
            (ep_cost_rank winner, ep_executor_id winner) \<le> (ep_cost_rank x, ep_executor_id x))"
    by (intro bexI [of _ winner]) (auto simp: route_candidate_def route_key_def)
qed (auto simp: route_executor_Inl)

text \<open>Dispatches are sound when the task identifiers of the snapshot are distinct and stripped:
  every dispatch is for a ready project of the snapshot, with that project's own task and repository,
  registered under the same repository, on the executor its capabilities route to; no project is
  dispatched twice, and there are at most \<^verbatim>\<open>technical_active_max\<close>.\<close>

theorem compile_dispatches_sound:
  assumes "compile_dispatches snapshot configs executors policy now = return ds"
    and "portfolio_init snapshot = return snapshot" and "resource_policy_init policy = return policy"
    and "distinct (map ps_task_id (pf_projects snapshot))"
    and "\<forall>s \<in> set (pf_projects snapshot). strip (ps_task_id s) = ps_task_id s"
  shows "int (length ds) \<le> rp_technical_active_max policy \<and>
    distinct (map dp_project_id ds) \<and>
    (\<forall>d \<in> set ds. \<exists>s \<in> set (pf_projects snapshot). sound_dispatch configs executors s d)"
proof -
  let ?ss = "pf_projects snapshot"
  obtain rows where rows: "map_result (project_item configs executors) ?ss = Inr rows"
    and ds: "map_result (dispatch_item (by_task_of rows)) (select_batch (map fst rows) policy) = Inr ds"
    using assms(1) by (auto simp: compile_dispatches_def)
  let ?batch = "select_batch (map fst rows) policy"
  have rel: "list_all2 (row_for configs executors) ?ss rows"
    using rows unfolding map_result_Inr_iff by (rule list_all2_mono) (rule project_item_row)
  have inv: "batch_inv policy (batch_loop policy (compile_ready_queue (map fst rows)) empty_batch)"
    by (rule batch_loop_inv) (rule batch_inv_empty [OF assms(3)])
  then have len: "int (length ?batch) \<le> rp_technical_active_max policy"
    by (simp add: batch_inv_def select_batch_def)
  have sub: "subseq ?batch (compile_ready_queue (map fst rows))"
    using batch_loop_prefix [of policy "compile_ready_queue (map fst rows)" empty_batch]
    by (auto simp: select_batch_def empty_batch_def)
  have tasks: "map (wi_task_id \<circ> fst) rows = map ps_task_id ?ss"
    using row_tasks [OF rel assms(5)] .
  have task_distinct: "distinct (map wi_task_id ?batch)"
  proof -
    have "distinct (map wi_task_id (filter schedulable (map fst rows)))"
      using assms(4) tasks by (intro distinct_map_filter') simp
    then have "distinct (map wi_task_id (compile_ready_queue (map fst rows)))"
      by (simp add: compile_ready_queue_def distinct_map_sort_key)
    then show ?thesis using subseq_map [OF sub] subseq_distinct by blast
  qed
  have each: "\<exists>s \<in> set ?ss. sound_dispatch configs executors s d \<and> dp_task_id d = wi_task_id w"
    if w: "w \<in> set ?batch" and d: "dispatch_item (by_task_of rows) w = Inr d" for w d
  proof -
    have "w \<in> set (compile_ready_queue (map fst rows))" using subseq_set_subset [OF sub] w by blast
    then obtain row where row: "row \<in> set rows" "fst row = w" "wi_ready w"
      by (auto simp: compile_ready_queue_def schedulable_def)
    then obtain s where s: "s \<in> set ?ss" "row_for configs executors s row"
      using list_all2_right [OF rel] by blast
    then obtain route config where e: "snd row = Some (ps_task_id s, s, route)" "config \<in> set configs"
        "pc_project_id config = ps_project_id s" "pc_repository config = ps_repository s" "project_ready s"
        "route_executor (pc_required_capabilities config) executors (pc_mutating config) False = Inr route"
      using row(2,3) unfolding row_for_def by blast
    have t: "ps_task_id s = wi_task_id w" using s row assms(5) by (simp add: row_for_def)
    have "by_task_of rows (wi_task_id w) = Some (s, route)"
      using by_task_lookup [OF rel assms(4) row(1) e(1)] t by simp
    then have "d = \<lparr>dp_project_id = ps_project_id s, dp_task_id = ps_task_id s,
        dp_executor_id = rd_executor_id route, dp_repository = ps_repository s\<rparr>"
      using d by (simp add: dispatch_item_def)
    then have "sound_dispatch configs executors s d \<and> dp_task_id d = wi_task_id w"
      unfolding sound_dispatch_def using e(2-6) t by auto
    then show ?thesis using s(1) by blast
  qed
  have l2: "list_all2 (\<lambda>w d. dispatch_item (by_task_of rows) w = Inr d) ?batch ds"
    using ds by (simp add: map_result_Inr_iff)
  have "list_all2 (\<lambda>w d. dp_task_id d = wi_task_id w) ?batch ds"
  proof (rule list.rel_mono_strong [OF l2])
    fix w d assume "w \<in> set ?batch" "dispatch_item (by_task_of rows) w = Inr d"
    from each [OF this] show "dp_task_id d = wi_task_id w" by blast
  qed
  then have "map dp_task_id ds = map wi_task_id ?batch" by (rule list_all2_map_eq)
  then have dd: "distinct (map dp_task_id ds)" using task_distinct by simp
  have all: "\<forall>d \<in> set ds. \<exists>w \<in> set ?batch. dispatch_item (by_task_of rows) w = Inr d"
    using list_all2_right [OF l2] by blast
  have src: "\<exists>s \<in> set ?ss. sound_dispatch configs executors s d" if "d \<in> set ds" for d
    using all each that by blast
  have dist_proj: "distinct (map ps_project_id ?ss)"
    using assms(2) by (auto simp: portfolio_init_def split: if_splits)
  have "inj_on dp_project_id (set ds)"
  proof (rule inj_onI)
    fix d d' assume d: "d \<in> set ds" "d' \<in> set ds" "dp_project_id d = dp_project_id d'"
    obtain s where s: "s \<in> set ?ss" "sound_dispatch configs executors s d" using src [OF d(1)] by blast
    obtain s' where s': "s' \<in> set ?ss" "sound_dispatch configs executors s' d'" using src [OF d(2)] by blast
    have "ps_project_id s = ps_project_id s'" using s(2) s'(2) d(3) by (simp add: sound_dispatch_def)
    then have "s = s'" using dist_proj s(1) s'(1) by (auto simp: distinct_map dest: inj_onD)
    then have "dp_task_id d = dp_task_id d'" using s(2) s'(2) by (simp add: sound_dispatch_def)
    then show "d = d'" using dd d(1,2) by (auto simp: distinct_map dest: inj_onD)
  qed
  moreover have "distinct ds" using dd by (simp add: distinct_map)
  ultimately have "distinct (map dp_project_id ds)" by (simp add: distinct_map)
  moreover have "length ds = length ?batch" using l2 by (simp add: list_all2_lengthD)
  ultimately show ?thesis using len src by simp
qed

text \<open>C35: Snapshots are not checked for distinct task identifiers, and without that dispatching goes
  wrong. Take any snapshot the constructor accepts in which two projects have the same task identifier, the later
  of them ready and the last project with it. Then whatever is dispatched, the earlier project never is, not even
  when it is ready and its work item is selected: every dispatch of the shared task goes to the later project and
  its repository.\<close>

theorem shared_task_id_misdispatches:
  assumes "compile_dispatches snapshot configs executors policy now = return ds"
    and "portfolio_init snapshot = return snapshot"
    and "pf_projects snapshot = before @ earlier # between @ later # after"
    and "ps_task_id earlier = ps_task_id later" and "\<forall>s \<in> set after. ps_task_id s \<noteq> ps_task_id later"
    and "project_ready later"
  shows "(\<forall>d \<in> set ds. dp_project_id d \<noteq> ps_project_id earlier) \<and>
    (\<forall>d \<in> set ds. dp_task_id d = ps_task_id earlier \<longrightarrow>
       dp_project_id d = ps_project_id later \<and> dp_repository d = ps_repository later)"
proof -
  obtain rows where rows: "map_result (project_item configs executors) (pf_projects snapshot) = Inr rows"
    and ds: "map_result (dispatch_item (by_task_of rows)) (select_batch (map fst rows) policy) = Inr ds"
    using assms(1) by (auto simp: compile_dispatches_def)
  have shared: "by_task_of rows (ps_task_id later) = Some v \<Longrightarrow> fst v = later" for v
    using by_task_last [of configs executors "before @ earlier # between" later after rows] rows assms(3,5,6) by simp
  have source: "\<exists>s \<in> set (pf_projects snapshot). dp_project_id d = ps_project_id s \<and> dp_task_id d = ps_task_id s \<and>
      dp_repository d = ps_repository s \<and> (ps_task_id s = ps_task_id later \<longrightarrow> s = later)" if "d \<in> set ds" for d
  proof -
    obtain w where "dispatch_item (by_task_of rows) w = Inr d"
      using list_all2_right [OF ds [unfolded map_result_Inr_iff], of d] \<open>d \<in> set ds\<close> by metis
    then obtain s route where s: "by_task_of rows (wi_task_id w) = Some (s, route)"
        "dp_project_id d = ps_project_id s" "dp_task_id d = ps_task_id s" "dp_repository d = ps_repository s"
      by (auto simp: dispatch_item_def split: option.splits)
    have "s \<in> set (pf_projects snapshot)" "wi_task_id w = ps_task_id s"
      using by_task_entry [OF rows s(1)] by simp_all
    with s shared [of "(s, route)"] show ?thesis by (intro bexI [of _ s]) auto
  qed
  have dist: "distinct (map ps_project_id (pf_projects snapshot))"
    using assms(2) by (auto simp: portfolio_init_def split: if_splits)
  have "earlier \<in> set (pf_projects snapshot)" using assms(3) by simp
  with dist have "s = earlier" if "s \<in> set (pf_projects snapshot)" "ps_project_id s = ps_project_id earlier" for s
    using that unfolding distinct_map inj_on_def by blast
  moreover have "ps_project_id earlier \<noteq> ps_project_id later" using dist assms(3) by auto
  ultimately show ?thesis using source assms(4) by metis
qed

section \<open>Witnesses\<close>

definition sample_executor :: executor_profile where
  "sample_executor = \<lparr>ep_executor_id = ''x'', ep_capabilities = [''c''], ep_mutating = False, ep_independent_review = False,
     ep_cost_rank = 0, ep_enabled = True, ep_requires_local_writer = False, ep_heavy_compute = False, ep_max_parallel = 2\<rparr>"

definition sample_project :: project_state where
  "sample_project = \<lparr>ps_project_id = ''p'', ps_repository = ''p'', ps_main_sha = replicate 40 (CHR ''0''), ps_task_id = ''t'',
     ps_closure_percent = 0, ps_risk_class = R0, ps_candidate_sha = None, ps_candidate_base_sha = None,
     ps_blockers = [], ps_evidence_refs = [''e'']\<rparr>"

definition sample_config :: project_config where
  "sample_config = \<lparr>pc_project_id = ''p'', pc_repository = ''p'', pc_priority = 0, pc_default_risk_class = R0,
     pc_required_capabilities = [''c''], pc_mutating = False\<rparr>"

definition sample_portfolio :: portfolio_snapshot where
  "sample_portfolio = \<lparr>pf_snapshot_id = ''s'', pf_observed_at_epoch = 0, pf_expires_at_epoch = 1, pf_projects = [sample_project]\<rparr>"

lemma route_executor_optimal_witness:
  "\<exists>winner \<in> set [sample_executor]. ep_enabled winner \<and> ''x'' = ep_executor_id winner"
proof -
  have "\<exists>route. route_executor [''c''] [sample_executor] False False = return route \<and> rd_executor_id route = ''x''"
    by (simp add: route_executor_def route_candidate_def sample_executor_def)
  then show ?thesis using route_executor_optimal [of "[''c'']" "[sample_executor]" False False] by auto
qed

lemma sample_dispatches:
  "compile_dispatches sample_portfolio [sample_config] [sample_executor] default_resource_policy 0 =
     return [\<lparr>dp_project_id = ''p'', dp_task_id = ''t'', dp_executor_id = ''x'', dp_repository = ''p''\<rparr>]"
  by code_simp

lemma compile_dispatches_sound_witness:
  "\<exists>s \<in> set (pf_projects sample_portfolio). sound_dispatch [sample_config] [sample_executor] s
     \<lparr>dp_project_id = ''p'', dp_task_id = ''t'', dp_executor_id = ''x'', dp_repository = ''p''\<rparr>"
proof -
  have "portfolio_init sample_portfolio = return sample_portfolio" by code_simp
  moreover have "distinct (map ps_task_id (pf_projects sample_portfolio))"
    "\<forall>s \<in> set (pf_projects sample_portfolio). strip (ps_task_id s) = ps_task_id s"
    by (simp_all add: sample_portfolio_def sample_project_def strip_def is_space_def)
  ultimately show ?thesis using compile_dispatches_sound [OF sample_dispatches _ sample_policy_init] by simp
qed

text \<open>Two ready projects with the task identifier \<open>''t''\<close>, on inputs every constructor accepts: the second is
  dispatched twice, the first never.\<close>

definition twin_project :: "string \<Rightarrow> project_state" where
  "twin_project i = sample_project\<lparr>ps_project_id := i, ps_repository := i\<rparr>"

definition twin_config :: "string \<Rightarrow> project_config" where
  "twin_config i = sample_config\<lparr>pc_project_id := i, pc_repository := i\<rparr>"

definition twin_portfolio :: portfolio_snapshot where
  "twin_portfolio = sample_portfolio\<lparr>pf_projects := [twin_project ''a'', twin_project ''b'']\<rparr>"

lemma twin_dispatches:
  "compile_dispatches twin_portfolio [twin_config ''a'', twin_config ''b''] [sample_executor] default_resource_policy 0 =
     return [\<lparr>dp_project_id = ''b'', dp_task_id = ''t'', dp_executor_id = ''x'', dp_repository = ''b''\<rparr>,
             \<lparr>dp_project_id = ''b'', dp_task_id = ''t'', dp_executor_id = ''x'', dp_repository = ''b''\<rparr>]"
  by code_simp

lemma twin_accepted:
  "project_state_init (twin_project ''a'') = return (twin_project ''a'')"
  "project_state_init (twin_project ''b'') = return (twin_project ''b'')"
  "portfolio_init twin_portfolio = return twin_portfolio"
  "project_registry_init [twin_config ''a'', twin_config ''b''] = return [twin_config ''a'', twin_config ''b'']"
  "project_ready (twin_project ''a'')" "project_ready (twin_project ''b'')"
  by code_simp+

lemma shared_task_id_misdispatches_witness:
  "project_ready (twin_project ''a'') \<and>
   (\<exists>ds. compile_dispatches twin_portfolio [twin_config ''a'', twin_config ''b''] [sample_executor]
        default_resource_policy 0 = return ds \<and> length ds = 2 \<and>
      (\<forall>d \<in> set ds. dp_project_id d \<noteq> ''a'') \<and> (\<forall>d \<in> set ds. dp_task_id d = ''t'' \<longrightarrow> dp_project_id d = ''b''))"
proof -
  have projects: "pf_projects twin_portfolio = [] @ twin_project ''a'' # [] @ twin_project ''b'' # []"
    by (simp add: twin_portfolio_def)
  have ids: "ps_task_id (twin_project i) = ''t''" "ps_project_id (twin_project i) = i" for i
    by (simp_all add: twin_project_def sample_project_def)
  from shared_task_id_misdispatches [OF twin_dispatches twin_accepted(3) projects _ _ twin_accepted(6)]
  show ?thesis using twin_accepted(5) twin_dispatches unfolding ids by simp
qed

end
