(* ===== verification/NS_Verification.thy ===== *)
theory NS_Verification
  imports NS_State_Machine NS_Causal
begin

text \<open>
  Verification evidence and execution receipts: \<^verbatim>\<open>core/night_shift/verification.py\<close> (evidence of one
  gate, the bundle of all seven, the checks on the quorum profile) and
  \<^verbatim>\<open>core/night_shift/receipts.py\<close>. The profile file is read by a third-party YAML parser; what the
  code then does with the value it gives is modelled on JSON values.
\<close>

section \<open>Gates\<close>

datatype verification_gate =
    FOCUSED_TESTS | STATIC_SECURITY | SCOPE_GUARD | REQUIRED_REGRESSION | INDEPENDENT_REVIEW | EXACT_SHA_CI | POLICY_ENGINE

fun gate_value :: "verification_gate \<Rightarrow> string" where
  "gate_value FOCUSED_TESTS = ''focused_tests''"
| "gate_value STATIC_SECURITY = ''static_security''"
| "gate_value SCOPE_GUARD = ''scope_guard''"
| "gate_value REQUIRED_REGRESSION = ''required_regression''"
| "gate_value INDEPENDENT_REVIEW = ''independent_review''"
| "gate_value EXACT_SHA_CI = ''exact_sha_ci''"
| "gate_value POLICY_ENGINE = ''policy_engine''"

definition required_gates :: "verification_gate list" where
  "required_gates = [FOCUSED_TESTS, STATIC_SECURITY, SCOPE_GUARD, REQUIRED_REGRESSION, INDEPENDENT_REVIEW,
     EXACT_SHA_CI, POLICY_ENGINE]"

section \<open>Evidence\<close>

record verification_evidence =
  ve_gate :: verification_gate
  ve_passed :: bool
  ve_subject_sha :: string
  ve_task_capsule_digest :: string
  ve_producer_identity :: string
  ve_observed_at_epoch :: int
  ve_evidence_digest :: string
  ve_evidence_refs :: "string list"

definition verification_evidence_init :: "verification_evidence \<Rightarrow> verification_evidence result" where
  "verification_evidence_init e =
     and_then (require_git_oid (ve_subject_sha e) ''subject_sha'') (\<lambda>subject_sha.
     and_then (ns_sha (ve_task_capsule_digest e) ''task_capsule_digest'') (\<lambda>digest.
     and_then (ns_sha (ve_evidence_digest e) ''evidence_digest'') (\<lambda>evidence_digest.
     let producer = strip (ve_producer_identity e); refs = sorted_set (map strip (ve_evidence_refs e)) in
     if producer = [] then raise_ns ''verification producer identity is required''
     else if ve_observed_at_epoch e < 0 then raise_ns ''verification observed_at_epoch cannot be negative''
     else if refs = [] \<or> (\<exists>item \<in> set refs. item = []) then raise_ns ''verification evidence refs are required''
     else return (e\<lparr>ve_subject_sha := subject_sha, ve_task_capsule_digest := digest,
       ve_evidence_digest := evidence_digest, ve_producer_identity := producer, ve_evidence_refs := refs\<rparr>))))"

definition verification_evidence_dict :: "verification_evidence \<Rightarrow> (string \<times> json) list" where
  "verification_evidence_dict e =
    [(''gate'', JStr (gate_value (ve_gate e))),
     (''passed'', JBool (ve_passed e)),
     (''subject_sha'', JStr (ve_subject_sha e)),
     (''task_capsule_digest'', JStr (ve_task_capsule_digest e)),
     (''producer_identity'', JStr (ve_producer_identity e)),
     (''observed_at_epoch'', JInt (ve_observed_at_epoch e)),
     (''evidence_digest'', JStr (ve_evidence_digest e)),
     (''evidence_refs'', jstrs (ve_evidence_refs e))]"

definition verification_evidence_digest :: "verification_evidence \<Rightarrow> string" where
  "verification_evidence_digest e = content_digest (JObj (verification_evidence_dict e))"

section \<open>The bundle\<close>

record verification_bundle =
  vb_subject_sha :: string
  vb_task_capsule_digest :: string
  vb_builder_identity :: string
  vb_reviewer_identity :: string
  vb_evidence :: "verification_evidence list"

text \<open>The loop that fills \<^verbatim>\<open>by_gate\<close>.\<close>

fun index_evidence ::
  "string \<Rightarrow> string \<Rightarrow> verification_evidence list \<Rightarrow> (verification_gate \<rightharpoonup> verification_evidence) \<Rightarrow>
   (verification_gate \<rightharpoonup> verification_evidence) result" where
  "index_evidence subject_sha task_digest [] by_gate = return by_gate"
| "index_evidence subject_sha task_digest (item # items) by_gate =
     (if by_gate (ve_gate item) \<noteq> None
      then raise_ns (''duplicate verification evidence for '' @ gate_value (ve_gate item))
      else if ve_subject_sha item \<noteq> subject_sha
      then raise_ns ''verification evidence subject SHA does not match bundle''
      else if ve_task_capsule_digest item \<noteq> task_digest
      then raise_ns ''verification evidence task capsule does not match bundle''
      else index_evidence subject_sha task_digest items (by_gate(ve_gate item \<mapsto> item)))"

definition verification_bundle_init :: "verification_bundle \<Rightarrow> verification_bundle result" where
  "verification_bundle_init b =
     and_then (require_git_oid (vb_subject_sha b) ''subject_sha'') (\<lambda>subject_sha.
     and_then (ns_sha (vb_task_capsule_digest b) ''task_capsule_digest'') (\<lambda>task_digest.
     let builder = strip (vb_builder_identity b); reviewer = strip (vb_reviewer_identity b) in
     if builder = [] \<or> reviewer = [] then raise_ns ''builder and reviewer identities are required''
     else if builder = reviewer then raise_ns ''builder and reviewer identities must be different''
     else and_then (index_evidence subject_sha task_digest (vb_evidence b) Map.empty) (\<lambda>by_gate.
     let missing = filter (\<lambda>gate. by_gate gate = None) required_gates in
     if missing \<noteq> []
     then raise_ns (''verification evidence incomplete: '' @ join '','' (map gate_value missing))
     else let review = the (by_gate INDEPENDENT_REVIEW) in
     if ve_producer_identity review \<noteq> reviewer
     then raise_ns ''independent review evidence producer must match reviewer identity''
     else if ve_producer_identity review = builder
     then raise_ns ''builder cannot self-certify independent review''
     else return \<lparr>vb_subject_sha = subject_sha, vb_task_capsule_digest = task_digest,
       vb_builder_identity = builder, vb_reviewer_identity = reviewer,
       vb_evidence = sort_key (\<lambda>item. gate_value (ve_gate item)) (vb_evidence b)\<rparr>)))"

definition bundle_passed :: "verification_bundle \<Rightarrow> bool" where
  "bundle_passed b = list_all ve_passed (vb_evidence b)"

definition verification_bundle_dict :: "verification_bundle \<Rightarrow> (string \<times> json) list" where
  "verification_bundle_dict b =
    [(''subject_sha'', JStr (vb_subject_sha b)),
     (''task_capsule_digest'', JStr (vb_task_capsule_digest b)),
     (''builder_identity'', JStr (vb_builder_identity b)),
     (''reviewer_identity'', JStr (vb_reviewer_identity b)),
     (''evidence'', JList (map (\<lambda>e. JObj (verification_evidence_dict e)) (vb_evidence b)))]"

definition verification_bundle_digest :: "verification_bundle \<Rightarrow> string" where
  "verification_bundle_digest b = content_digest (JObj (verification_bundle_dict b))"

section \<open>The quorum profile\<close>

text \<open>The two loaders after \<^verbatim>\<open>yaml.safe_load\<close>.\<close>

definition parse_gate :: "json \<Rightarrow> verification_gate result" where
  "parse_gate v =
     (case v of
        JStr s \<Rightarrow> (case find (\<lambda>g. gate_value g = strip s) required_gates of
            None \<Rightarrow> raise_ns (''unknown verification gate: '' @ s)
          | Some g \<Rightarrow> return g)
      | _ \<Rightarrow> raise_ns ''verification gate names must be strings'')"

definition check_required_gates :: "json \<Rightarrow> verification_gate list result" where
  "check_required_gates raw =
     (case raw of
        JObj kvs \<Rightarrow>
          (case map_of kvs ''required_gates'' of
             Some (JList values) \<Rightarrow>
               and_then (map_result parse_gate values) (\<lambda>parsed.
               if \<not> distinct parsed then raise_ns ''verification quorum profile has duplicate gates''
               else if set parsed \<noteq> set required_gates
               then raise_ns ''verification quorum profile does not match canonical V2-09 gates''
               else return parsed)
           | _ \<Rightarrow> raise_ns ''verification quorum profile must contain required_gates'')
      | _ \<Rightarrow> raise_ns ''verification quorum profile must contain required_gates'')"

definition check_max_age :: "json \<Rightarrow> int result" where
  "check_max_age raw =
     (case raw of
        JObj kvs \<Rightarrow>
          (case map_of kvs ''freshness'' of
             Some (JObj freshness) \<Rightarrow>
               (case map_of freshness ''max_evidence_age_seconds'' of
                  Some (JInt i) \<Rightarrow> if i \<le> 0 then raise_ns ''max_evidence_age_seconds must be a positive integer''
                    else return i
                | _ \<Rightarrow> raise_ns ''max_evidence_age_seconds must be a positive integer'')
           | _ \<Rightarrow> raise_ns ''verification quorum profile must contain freshness'')
      | _ \<Rightarrow> raise_ns ''verification quorum profile must be a mapping'')"

section \<open>Execution receipts\<close>

record execution_receipt =
  rx_task_id :: string
  rx_workflow :: string
  rx_lease_id :: string
  rx_fencing_token :: int
  rx_policy_digest :: string
  rx_decision_digest :: string
  rx_state_snapshot_digest :: string
  rx_task_capsule_digest :: string
  rx_authority_envelope_digest :: string
  rx_authority_reservation_digest :: string
  rx_environment_digest :: string
  rx_verification_digest :: string
  rx_input_sha :: string
  rx_output_sha :: string
  rx_diff_digest :: string
  rx_final_state :: string
  rx_evidence_refs :: "string list"

definition reportable_phases :: "phase list" where
  "reportable_phases = [CLOSED_PASS, READY_FOR_HUMAN, BLOCKED, BLOCKED_BY, WAITING_EXTERNAL, FAILED,
     QUARANTINED, SUPERSEDED, PAUSED]"

definition execution_receipt_init :: "execution_receipt \<Rightarrow> execution_receipt result" where
  "execution_receipt_init r =
     and_then (ns_sha (rx_policy_digest r) ''policy_digest'') (\<lambda>policy.
     and_then (ns_sha (rx_decision_digest r) ''decision_digest'') (\<lambda>decision.
     and_then (ns_sha (rx_state_snapshot_digest r) ''state_snapshot_digest'') (\<lambda>state.
     and_then (ns_sha (rx_task_capsule_digest r) ''task_capsule_digest'') (\<lambda>capsule.
     and_then (ns_sha (rx_authority_envelope_digest r) ''authority_envelope_digest'') (\<lambda>envelope.
     and_then (ns_sha (rx_authority_reservation_digest r) ''authority_reservation_digest'') (\<lambda>reservation.
     and_then (ns_sha (rx_environment_digest r) ''environment_digest'') (\<lambda>environment.
     and_then (ns_sha (rx_verification_digest r) ''verification_digest'') (\<lambda>verification.
     and_then (ns_sha (rx_diff_digest r) ''diff_digest'') (\<lambda>diff.
     and_then (require_git_oid (rx_input_sha r) ''input_sha'') (\<lambda>input_sha.
     and_then (require_git_oid (rx_output_sha r) ''output_sha'') (\<lambda>output_sha.
     let task_id = strip (rx_task_id r); workflow_id = strip (rx_workflow r); lease_id = strip (rx_lease_id r);
         final_state = strip (rx_final_state r); evidence = sorted_set (map strip (rx_evidence_refs r)) in
     if task_id = [] \<or> workflow_id = [] \<or> lease_id = [] \<or> final_state = [] \<or> evidence = [] \<or>
        (\<exists>item \<in> set evidence. item = [])
     then raise_ns ''receipt identity/state/evidence must be nonblank''
     else if rx_fencing_token r < 1 then raise_ns ''receipt fencing_token must be positive''
     else and_then (parse_phase final_state) (\<lambda>phase.
     if phase \<notin> set reportable_phases
     then raise_ns ''receipt final_state is not a reportable terminal/control phase''
     else return (r\<lparr>rx_policy_digest := policy, rx_decision_digest := decision,
       rx_state_snapshot_digest := state, rx_task_capsule_digest := capsule,
       rx_authority_envelope_digest := envelope, rx_authority_reservation_digest := reservation,
       rx_environment_digest := environment, rx_verification_digest := verification,
       rx_diff_digest := diff, rx_input_sha := input_sha, rx_output_sha := output_sha,
       rx_task_id := task_id, rx_workflow := workflow_id, rx_lease_id := lease_id,
       rx_final_state := phase_value phase, rx_evidence_refs := evidence\<rparr>)))))))))))))"

definition execution_receipt_dict :: "execution_receipt \<Rightarrow> (string \<times> json) list" where
  "execution_receipt_dict r =
    [(''task_id'', JStr (rx_task_id r)),
     (''workflow_id'', JStr (rx_workflow r)),
     (''lease_id'', JStr (rx_lease_id r)),
     (''fencing_token'', JInt (rx_fencing_token r)),
     (''policy_digest'', JStr (rx_policy_digest r)),
     (''decision_digest'', JStr (rx_decision_digest r)),
     (''state_snapshot_digest'', JStr (rx_state_snapshot_digest r)),
     (''task_capsule_digest'', JStr (rx_task_capsule_digest r)),
     (''authority_envelope_digest'', JStr (rx_authority_envelope_digest r)),
     (''authority_reservation_digest'', JStr (rx_authority_reservation_digest r)),
     (''environment_digest'', JStr (rx_environment_digest r)),
     (''verification_digest'', JStr (rx_verification_digest r)),
     (''input_sha'', JStr (rx_input_sha r)),
     (''output_sha'', JStr (rx_output_sha r)),
     (''diff_digest'', JStr (rx_diff_digest r)),
     (''final_state'', JStr (rx_final_state r)),
     (''evidence_refs'', jstrs (rx_evidence_refs r))]"

definition execution_receipt_digest :: "execution_receipt \<Rightarrow> string" where
  "execution_receipt_digest r = content_digest (JObj (execution_receipt_dict r))"

definition require_receipt_digest :: "execution_receipt \<Rightarrow> string \<Rightarrow> unit result" where
  "require_receipt_digest receipt expected_digest =
     and_then (ns_sha expected_digest ''expected_digest'') (\<lambda>expected.
     if execution_receipt_digest receipt \<noteq> expected then raise_ns ''execution receipt digest mismatch''
     else return ())"

section \<open>Laws\<close>

lemma gate_value_inject [simp]: "gate_value a = gate_value b \<longleftrightarrow> a = b"
  by (cases a; cases b) simp_all

lemma required_gates_all: "g \<in> set required_gates"
  by (cases g) (simp_all add: required_gates_def)

lemma index_evidence_Inr:
  "index_evidence sha task items m = Inr m' \<longleftrightarrow>
     distinct (map ve_gate items) \<and> (\<forall>item \<in> set items. m (ve_gate item) = None \<and>
       ve_subject_sha item = sha \<and> ve_task_capsule_digest item = task) \<and>
     m' = m ++ map_of (map (\<lambda>item. (ve_gate item, item)) items)"
proof (induction items arbitrary: m)
  case (Cons item items)
  show ?case
  proof (cases "ve_gate item \<in> ve_gate ` set items")
    case True
    then have "\<not> (\<forall>x \<in> set items. (m(ve_gate item \<mapsto> item)) (ve_gate x) = None)" by fastforce
    then show ?thesis using True Cons.IH [of "m(ve_gate item \<mapsto> item)"] by (auto simp del: fun_upd_apply)
  next
    case False
    then have "m(ve_gate item \<mapsto> item) ++ map_of (map (\<lambda>item. (ve_gate item, item)) items) =
        m ++ map_of (map (\<lambda>item. (ve_gate item, item)) (item # items))"
      by (simp add: map_add_upd_left dom_map_of_conv_image_fst image_image)
    moreover have "(\<forall>x \<in> set items. (m(ve_gate item \<mapsto> item)) (ve_gate x) = None) \<longleftrightarrow>
        (\<forall>x \<in> set items. m (ve_gate x) = None)" using False by (auto simp: image_iff)
    moreover have "distinct (map ve_gate (item # items)) \<longleftrightarrow> distinct (map ve_gate items)" using False by auto
    ultimately show ?thesis using Cons.IH [of "m(ve_gate item \<mapsto> item)"]
      by (auto simp del: fun_upd_apply map_add_upd map_of.simps(2) list.map(2) simp: ball_conj_distrib)
  qed
qed auto

text \<open>What the constructor of a bundle guarantees.\<close>

definition bundle_ok :: "verification_bundle \<Rightarrow> bool" where
  "bundle_ok b =
     (is_git_oid (vb_subject_sha b) \<and> is_sha256 (vb_task_capsule_digest b) \<and>
      is_text (vb_builder_identity b) \<and> is_text (vb_reviewer_identity b) \<and>
      vb_builder_identity b \<noteq> vb_reviewer_identity b \<and>
      distinct (map ve_gate (vb_evidence b)) \<and> set (map ve_gate (vb_evidence b)) = UNIV \<and>
      sorted (map (\<lambda>e. gate_value (ve_gate e)) (vb_evidence b)) \<and>
      (\<forall>e \<in> set (vb_evidence b). ve_subject_sha e = vb_subject_sha b \<and>
         ve_task_capsule_digest e = vb_task_capsule_digest b \<and>
         (ve_gate e = INDEPENDENT_REVIEW \<longrightarrow> ve_producer_identity e = vb_reviewer_identity b)))"

lemma gate_of_map:
  assumes "distinct (map ve_gate items)" "item \<in> set items"
  shows "map_of (map (\<lambda>item. (ve_gate item, item)) items) (ve_gate item) = Some item"
  using assms by (intro map_of_is_SomeI) (auto simp: comp_def)

lemma all_gates:
  assumes "filter (\<lambda>gate. map_of (map (\<lambda>item. (ve_gate item, item)) items) gate = None) required_gates = []"
  shows "ve_gate ` set items = UNIV"
  using assms required_gates_all by (auto simp: filter_empty_conv map_of_eq_None_iff image_image)

lemma verification_bundle_init_Inr:
  "verification_bundle_init b0 = Inr b \<longleftrightarrow>
     (\<exists>sha task. require_git_oid (vb_subject_sha b0) ''subject_sha'' = Inr sha \<and>
        ns_sha (vb_task_capsule_digest b0) ''task_capsule_digest'' = Inr task \<and>
        strip (vb_builder_identity b0) \<noteq> [] \<and> strip (vb_reviewer_identity b0) \<noteq> [] \<and>
        strip (vb_builder_identity b0) \<noteq> strip (vb_reviewer_identity b0) \<and>
        distinct (map ve_gate (vb_evidence b0)) \<and> ve_gate ` set (vb_evidence b0) = UNIV \<and>
        (\<forall>e \<in> set (vb_evidence b0). ve_subject_sha e = sha \<and> ve_task_capsule_digest e = task \<and>
           (ve_gate e = INDEPENDENT_REVIEW \<longrightarrow> ve_producer_identity e = strip (vb_reviewer_identity b0))) \<and>
        b = \<lparr>vb_subject_sha = sha, vb_task_capsule_digest = task,
          vb_builder_identity = strip (vb_builder_identity b0), vb_reviewer_identity = strip (vb_reviewer_identity b0),
          vb_evidence = sort_key (\<lambda>item. gate_value (ve_gate item)) (vb_evidence b0)\<rparr>)"
  (is "_ \<longleftrightarrow> ?rhs")
proof
  let ?m = "map_of (map (\<lambda>item. (ve_gate item, item)) (vb_evidence b0))"
  {
    assume "verification_bundle_init b0 = Inr b"
    then obtain sha task where *: "require_git_oid (vb_subject_sha b0) ''subject_sha'' = Inr sha"
        "ns_sha (vb_task_capsule_digest b0) ''task_capsule_digest'' = Inr task"
        "strip (vb_builder_identity b0) \<noteq> []" "strip (vb_reviewer_identity b0) \<noteq> []"
        "strip (vb_builder_identity b0) \<noteq> strip (vb_reviewer_identity b0)"
        "index_evidence sha task (vb_evidence b0) Map.empty = Inr ?m"
        "filter (\<lambda>gate. ?m gate = None) required_gates = []"
        "ve_producer_identity (the (?m INDEPENDENT_REVIEW)) = strip (vb_reviewer_identity b0)"
        "b = \<lparr>vb_subject_sha = sha, vb_task_capsule_digest = task,
          vb_builder_identity = strip (vb_builder_identity b0), vb_reviewer_identity = strip (vb_reviewer_identity b0),
          vb_evidence = sort_key (\<lambda>item. gate_value (ve_gate item)) (vb_evidence b0)\<rparr>"
      by (auto simp: verification_bundle_init_def Let_def index_evidence_Inr split: if_splits)
    note idx = *(6) [unfolded index_evidence_Inr]
    then have "ve_producer_identity e = strip (vb_reviewer_identity b0)"
      if "e \<in> set (vb_evidence b0)" "ve_gate e = INDEPENDENT_REVIEW" for e
      using gate_of_map [of "vb_evidence b0" e] that *(8) by simp
    with * idx all_gates [OF *(7)] show ?rhs by blast
  next
    assume ?rhs
    then obtain sha task where *: "require_git_oid (vb_subject_sha b0) ''subject_sha'' = Inr sha"
        "ns_sha (vb_task_capsule_digest b0) ''task_capsule_digest'' = Inr task"
        "distinct (map ve_gate (vb_evidence b0))" "ve_gate ` set (vb_evidence b0) = UNIV"
        "\<forall>e \<in> set (vb_evidence b0). ve_subject_sha e = sha \<and> ve_task_capsule_digest e = task \<and>
           (ve_gate e = INDEPENDENT_REVIEW \<longrightarrow> ve_producer_identity e = strip (vb_reviewer_identity b0))"
      by blast
    have idx: "index_evidence sha task (vb_evidence b0) Map.empty = Inr ?m"
      unfolding index_evidence_Inr using * by auto
    have none: "filter (\<lambda>gate. ?m gate = None) required_gates = []"
      using *(4) by (auto simp: filter_empty_conv map_of_eq_None_iff image_image)
    obtain e where "e \<in> set (vb_evidence b0)" "ve_gate e = INDEPENDENT_REVIEW" using *(4) by (metis UNIV_I imageE)
    then have "ve_producer_identity (the (?m INDEPENDENT_REVIEW)) = strip (vb_reviewer_identity b0)"
      using gate_of_map [OF *(3), of e] *(5) by simp
    then show "verification_bundle_init b0 = Inr b"
      using \<open>?rhs\<close> *(1,2) idx none by (auto simp: verification_bundle_init_def Let_def)
  }
qed

lemma distinct_map_sort_gates: "distinct (map f (sort_key g xs)) \<longleftrightarrow> distinct (map f xs)"
  by (rule mset_eq_imp_distinct_iff) simp

lemma verification_bundle_init_ok: "verification_bundle_init b0 = Inr b \<Longrightarrow> bundle_ok b"
  unfolding verification_bundle_init_Inr
  by (auto simp: bundle_ok_def ns_sha_Inr require_git_oid_Inr is_text_strip distinct_map_sort_gates)

section \<open>Digests\<close>

interpretation evidence: content_addressed "\<lambda>_. True" verification_evidence_dict
  by unfold_locales
    (simp_all add: norm_json_JObj_same_keys verification_evidence_dict_def verification_evidence.equality
      del: norm_json.simps(6))

lemma evidence_list_inject:
  "norm_json (JList (map (\<lambda>e. JObj (verification_evidence_dict e)) xs)) =
     norm_json (JList (map (\<lambda>e. JObj (verification_evidence_dict e)) ys)) \<longleftrightarrow> xs = ys"
proof -
  have "inj (\<lambda>e. norm_json (JObj (verification_evidence_dict e)))"
    using evidence.dict_inject by (auto intro: injI)
  then show ?thesis by (simp add: comp_def inj_map_eq_map del: norm_json.simps(6))
qed

interpretation bundles: content_addressed "\<lambda>_. True" verification_bundle_dict
proof unfold_locales
  fix a b
  show "wf_json (JObj (verification_bundle_dict a))"
    by (simp add: verification_bundle_dict_def verification_evidence_dict_def list_all_iff)
  show "norm_json (JObj (verification_bundle_dict a)) = norm_json (JObj (verification_bundle_dict b)) \<Longrightarrow> a = b"
    by (simp add: norm_json_JObj_same_keys verification_bundle_dict_def evidence_list_inject
        verification_bundle.equality del: norm_json.simps(5,6))
qed

interpretation receipts: content_addressed "\<lambda>_. True" execution_receipt_dict
  by unfold_locales
    (simp_all add: norm_json_JObj_same_keys execution_receipt_dict_def execution_receipt.equality
      del: norm_json.simps(6))

lemma verification_digests_sha [simp]:
  "is_sha256 (verification_bundle_digest b)" "is_sha256 (execution_receipt_digest r)"
  by (simp_all add: verification_bundle_digest_def execution_receipt_digest_def)

section \<open>Properties\<close>

text \<open>A verification bundle is a complete and independent quorum. Whatever the constructor accepts
  holds exactly one piece of evidence for each of the seven gates, in the order of the gate names, all
  of it bound to the bundle's commit and task capsule; builder and reviewer differ, and the
  independent review was produced by the reviewer; constructing it again changes nothing.\<close>

theorem verification_bundle_complete:
  assumes "verification_bundle_init b0 = return b"
  shows "(\<forall>g. \<exists>!e. e \<in> set (vb_evidence b) \<and> ve_gate e = g) \<and> length (vb_evidence b) = length required_gates \<and>
    sorted (map (\<lambda>e. gate_value (ve_gate e)) (vb_evidence b)) \<and>
    (\<forall>e \<in> set (vb_evidence b). ve_subject_sha e = vb_subject_sha b \<and>
       ve_task_capsule_digest e = vb_task_capsule_digest b) \<and>
    vb_builder_identity b \<noteq> vb_reviewer_identity b \<and>
    (\<exists>e \<in> set (vb_evidence b). ve_gate e = INDEPENDENT_REVIEW \<and>
       ve_producer_identity e = vb_reviewer_identity b) \<and>
    verification_bundle_init b = return b"
proof -
  have ok: "bundle_ok b" by (rule verification_bundle_init_ok [OF assms])
  then have d: "distinct (map ve_gate (vb_evidence b))" "ve_gate ` set (vb_evidence b) = UNIV"
    by (simp_all add: bundle_ok_def)
  have one: "\<exists>!e. e \<in> set (vb_evidence b) \<and> ve_gate e = g" for g
  proof -
    obtain e where e: "e \<in> set (vb_evidence b)" "ve_gate e = g" using d(2) by (metis UNIV_I imageE)
    moreover have "e' = e" if "e' \<in> set (vb_evidence b)" "ve_gate e' = g" for e'
      using d(1) e that by (auto simp: distinct_map dest: inj_onD)
    ultimately show ?thesis by blast
  qed
  have "length (vb_evidence b) = card (UNIV :: verification_gate set)"
    using d distinct_card [OF d(1)] by simp
  also have "\<dots> = length required_gates"
  proof -
    have "set required_gates = UNIV" using required_gates_all by auto
    moreover have "distinct required_gates" by (simp add: required_gates_def)
    ultimately show ?thesis by (metis distinct_card)
  qed
  finally have len: "length (vb_evidence b) = length required_gates" .
  moreover have "verification_bundle_init b = return b"
    unfolding verification_bundle_init_Inr using ok d(2)
    by (auto simp: bundle_ok_def require_git_oid_Inr ns_sha_Inr is_text_def strip_id sort_key_id_if_sorted
        is_git_oid_def is_sha256_def is_hex_strip is_hex_lower)
  moreover have "\<exists>e \<in> set (vb_evidence b). ve_gate e = INDEPENDENT_REVIEW"
    using one [of INDEPENDENT_REVIEW] by blast
  ultimately show ?thesis using ok one unfolding bundle_ok_def by blast
qed

text \<open>A receipt that passes \<^verbatim>\<open>require_receipt_digest\<close> is the receipt the digest was taken from:
  two receipts accepted for one expected digest are equal field by field, or their canonical texts are
  an exhibited SHA-256 collision.\<close>

theorem receipt_digest_pins_receipt:
  assumes "require_receipt_digest r expected = return ()" and "require_receipt_digest r' expected = return ()"
  shows "r = r' \<or> digest_collision (JObj (execution_receipt_dict r)) (JObj (execution_receipt_dict r'))"
proof -
  have "execution_receipt_digest r = execution_receipt_digest r'"
    using assms by (auto simp: require_receipt_digest_def split: if_splits)
  then show ?thesis unfolding execution_receipt_digest_def by (intro receipts.digest_binds) simp_all
qed

section \<open>Sample inputs\<close>

definition sample_evidence :: "verification_gate \<Rightarrow> verification_evidence" where
  "sample_evidence g = \<lparr>ve_gate = g, ve_passed = True, ve_subject_sha = replicate 40 CHR ''a'',
     ve_task_capsule_digest = replicate 64 CHR ''c'', ve_producer_identity = ''r'', ve_observed_at_epoch = 5,
     ve_evidence_digest = replicate 64 CHR ''d'', ve_evidence_refs = [''ref'']\<rparr>"

definition sample_bundle :: verification_bundle where
  "sample_bundle = \<lparr>vb_subject_sha = replicate 40 CHR ''a'', vb_task_capsule_digest = replicate 64 CHR ''c'',
     vb_builder_identity = ''b'', vb_reviewer_identity = ''r'',
     vb_evidence = map sample_evidence [EXACT_SHA_CI, FOCUSED_TESTS, INDEPENDENT_REVIEW, POLICY_ENGINE,
       REQUIRED_REGRESSION, SCOPE_GUARD, STATIC_SECURITY]\<rparr>"

definition sample_receipt :: execution_receipt where
  "sample_receipt = \<lparr>rx_task_id = ''t'', rx_workflow = ''w'', rx_lease_id = ''l'', rx_fencing_token = 1,
     rx_policy_digest = replicate 64 CHR ''1'', rx_decision_digest = replicate 64 CHR ''2'',
     rx_state_snapshot_digest = replicate 64 CHR ''3'', rx_task_capsule_digest = replicate 64 CHR ''4'',
     rx_authority_envelope_digest = replicate 64 CHR ''5'', rx_authority_reservation_digest = replicate 64 CHR ''6'',
     rx_environment_digest = replicate 64 CHR ''7'', rx_verification_digest = replicate 64 CHR ''8'',
     rx_input_sha = replicate 40 CHR ''a'', rx_output_sha = replicate 40 CHR ''b'',
     rx_diff_digest = replicate 64 CHR ''9'', rx_final_state = ''CLOSED_PASS'', rx_evidence_refs = [''ref'']\<rparr>"

lemma sample_bundle_init: "verification_bundle_init sample_bundle = return sample_bundle"
  by code_simp

lemma verification_bundle_complete_witness:
  "(\<exists>!e. e \<in> set (vb_evidence sample_bundle) \<and> ve_gate e = SCOPE_GUARD) \<and>
   verification_bundle_init sample_bundle = return sample_bundle"
  using verification_bundle_complete [OF sample_bundle_init] by blast

lemma receipt_digest_pins_receipt_witness:
  "sample_receipt = sample_receipt \<or>
     digest_collision (JObj (execution_receipt_dict sample_receipt)) (JObj (execution_receipt_dict sample_receipt))"
proof -
  have "require_receipt_digest sample_receipt (execution_receipt_digest sample_receipt) = return ()"
    by (simp add: require_receipt_digest_def)
  from receipt_digest_pins_receipt [OF this this] show ?thesis .
qed

end
