(* ===== verification/Enterprise_Contracts.thy ===== *)
theory Enterprise_Contracts
  imports P3_Contracts Base64
begin

text \<open>
  The enterprise boundary, \<^verbatim>\<open>core/enterprise/contracts.py\<close>: authorization contexts, the threat
  model and Ed25519 attestations. The signature primitive of the third-party \<^verbatim>\<open>cryptography\<close>
  package is a parameter: a signer record carries its public key and its signing function, and
  \<open>ed_verify public_key signature message\<close> stands for \<^verbatim>\<open>Ed25519PublicKey.verify\<close> not raising. The
  payload of an attestation is a mapping of JSON values.
\<close>

abbreviation raise_ent :: "string \<Rightarrow> 'a result" where
  "raise_ent msg \<equiv> Inl (EnterpriseContractError msg)"

section \<open>Authorization\<close>

datatype permission =
    CASE_READ | CASE_WRITE | EVIDENCE_READ | EVIDENCE_WRITE | RUN_AGENT | RUN_REPLAY | VIEW_KQM
  | TRUST_PROMOTE | PERM_RELEASE | PERM_SECURITY_REVIEW

fun permission_value :: "permission \<Rightarrow> string" where
  "permission_value CASE_READ = ''case:read''"
| "permission_value CASE_WRITE = ''case:write''"
| "permission_value EVIDENCE_READ = ''evidence:read''"
| "permission_value EVIDENCE_WRITE = ''evidence:write''"
| "permission_value RUN_AGENT = ''agent:run''"
| "permission_value RUN_REPLAY = ''replay:run''"
| "permission_value VIEW_KQM = ''kqm:view''"
| "permission_value TRUST_PROMOTE = ''trust:promote''"
| "permission_value PERM_RELEASE = ''release:publish''"
| "permission_value PERM_SECURITY_REVIEW = ''security:review''"

record authorization_context =
  ac_subject_id :: string
  ac_tenant_id :: string
  ac_roles :: "string list"
  ac_permissions :: "permission list"
  ac_case_ids :: "string list"
  ac_workspace_ids :: "string list"

definition authorization_context_init :: "authorization_context \<Rightarrow> authorization_context result" where
  "authorization_context_init c =
     (let subject = strip (ac_subject_id c); tenant = strip (ac_tenant_id c) in
      if subject = [] \<or> tenant = [] then raise_ent ''subject_id and tenant_id are required''
      else let roles = sorted_set (map strip (ac_roles c)) in
      if roles = [] \<or> [] \<in> set roles then raise_ent ''at least one nonblank role is required''
      else let permissions = sort_key permission_value (remdups (ac_permissions c));
               case_ids = sorted_set (map strip (ac_case_ids c));
               workspace_ids = sorted_set (map strip (ac_workspace_ids c)) in
      if [] \<in> set case_ids then raise_ent ''case_ids cannot contain blanks''
      else if [] \<in> set workspace_ids then raise_ent ''workspace_ids cannot contain blanks''
      else return \<lparr>ac_subject_id = subject, ac_tenant_id = tenant, ac_roles = roles,
        ac_permissions = permissions, ac_case_ids = case_ids, ac_workspace_ids = workspace_ids\<rparr>)"

definition require_scope :: "string list \<Rightarrow> string option \<Rightarrow> bool \<Rightarrow> string \<Rightarrow> unit result" where
  "require_scope scope wanted strict_scope message =
     (case wanted of
        None \<Rightarrow> return ()
      | Some x \<Rightarrow>
          if strict_scope \<and> x \<notin> set scope then raise_ent message
          else if scope \<noteq> [] \<and> x \<notin> set scope then raise_ent message
          else return ())"

definition require_permission ::
  "authorization_context \<Rightarrow> permission \<Rightarrow> string \<Rightarrow> string option \<Rightarrow> string option \<Rightarrow> bool \<Rightarrow> unit result" where
  "require_permission c permission tenant_id case_id workspace_id strict_scope =
     (if strip tenant_id \<noteq> ac_tenant_id c then raise_ent ''cross-tenant access denied''
      else if permission \<notin> set (ac_permissions c)
      then raise_ent (''permission denied: '' @ permission_value permission)
      else and_then (require_scope (ac_case_ids c) case_id strict_scope ''case scope denied'') (\<lambda>_.
        require_scope (ac_workspace_ids c) workspace_id strict_scope ''workspace scope denied''))"

definition authorization_context_dict :: "authorization_context \<Rightarrow> (string \<times> json) list" where
  "authorization_context_dict c =
    [(''subject_id'', JStr (ac_subject_id c)),
     (''tenant_id'', JStr (ac_tenant_id c)),
     (''roles'', jstrs (ac_roles c)),
     (''permissions'', jstrs (map permission_value (ac_permissions c))),
     (''case_ids'', jstrs (ac_case_ids c)),
     (''workspace_ids'', jstrs (ac_workspace_ids c))]"

definition authorization_context_digest :: "authorization_context \<Rightarrow> string" where
  "authorization_context_digest c = content_digest (JObj (authorization_context_dict c))"

section \<open>Threat model\<close>

datatype trust_zone = EXTERNAL | API_EDGE | UNTRUSTED_WORKER | PRODUCT_CORE | EVALUATION | GOVERNANCE

fun trust_zone_value :: "trust_zone \<Rightarrow> string" where
  "trust_zone_value EXTERNAL = ''EXTERNAL''"
| "trust_zone_value API_EDGE = ''API_EDGE''"
| "trust_zone_value UNTRUSTED_WORKER = ''UNTRUSTED_WORKER''"
| "trust_zone_value PRODUCT_CORE = ''PRODUCT_CORE''"
| "trust_zone_value EVALUATION = ''EVALUATION''"
| "trust_zone_value GOVERNANCE = ''GOVERNANCE''"

datatype threat_severity = LOW | MEDIUM | HIGH | CRITICAL

fun severity_value :: "threat_severity \<Rightarrow> string" where
  "severity_value LOW = ''LOW''"
| "severity_value MEDIUM = ''MEDIUM''"
| "severity_value HIGH = ''HIGH''"
| "severity_value CRITICAL = ''CRITICAL''"

record threat =
  th_threat_id :: string
  th_source_zone :: trust_zone
  th_target_zone :: trust_zone
  th_asset :: string
  th_attack :: string
  th_severity :: threat_severity
  th_mitigations :: "string list"
  th_evidence_ids :: "string list"

definition threat_init :: "threat \<Rightarrow> threat result" where
  "threat_init t =
     (let threat_id = strip (th_threat_id t); asset = strip (th_asset t); attack = strip (th_attack t);
          mitigations = sorted_set (map strip (th_mitigations t));
          evidence = sorted_set (map strip (th_evidence_ids t)) in
      if threat_id = [] \<or> asset = [] \<or> attack = [] then raise_ent ''threat id, asset and attack are required''
      else if [] \<in> set (mitigations @ evidence) then raise_ent ''threat mitigations/evidence cannot be blank''
      else if th_severity t \<in> {HIGH, CRITICAL} \<and> (mitigations = [] \<or> evidence = [])
      then raise_ent ''high/critical threats require mitigations and evidence identifiers''
      else return (t\<lparr>th_threat_id := threat_id, th_asset := asset, th_attack := attack,
        th_mitigations := mitigations, th_evidence_ids := evidence\<rparr>))"

definition threat_model_init :: "threat list \<Rightarrow> threat list result" where
  "threat_model_init threats =
     (let ordered = sort_key th_threat_id threats in
      if \<not> distinct (map th_threat_id ordered) then raise_ent ''duplicate threat_id'' else return ordered)"

definition require_zone_coverage :: "threat list \<Rightarrow> trust_zone list \<Rightarrow> unit result" where
  "require_zone_coverage threats zones =
     (let covered = map th_source_zone threats @ map th_target_zone threats;
          missing = sort_key trust_zone_value (remdups (filter (\<lambda>z. z \<notin> set covered) zones)) in
      if missing \<noteq> []
      then raise_ent (''threat-model zone coverage missing: '' @ join '','' (map trust_zone_value missing))
      else return ())"

definition threat_dict :: "threat \<Rightarrow> json" where
  "threat_dict t = JObj
    [(''threat_id'', JStr (th_threat_id t)),
     (''source_zone'', JStr (trust_zone_value (th_source_zone t))),
     (''target_zone'', JStr (trust_zone_value (th_target_zone t))),
     (''asset'', JStr (th_asset t)),
     (''attack'', JStr (th_attack t)),
     (''severity'', JStr (severity_value (th_severity t))),
     (''mitigations'', jstrs (th_mitigations t)),
     (''evidence_ids'', jstrs (th_evidence_ids t))]"

definition threat_model_digest :: "threat list \<Rightarrow> string" where
  "threat_model_digest threats = content_digest (JList (map threat_dict threats))"

section \<open>Attestations\<close>

datatype attestation_purpose = API_TRUST | PROVENANCE | KQM | RELEASE | SECURITY_REVIEW

fun purpose_value :: "attestation_purpose \<Rightarrow> string" where
  "purpose_value API_TRUST = ''API_TRUST''"
| "purpose_value PROVENANCE = ''PROVENANCE''"
| "purpose_value KQM = ''KQM''"
| "purpose_value RELEASE = ''RELEASE''"
| "purpose_value SECURITY_REVIEW = ''SECURITY_REVIEW''"

lemma purpose_value_inject [simp]: "purpose_value a = purpose_value b \<longleftrightarrow> a = b"
  by (cases a; cases b) simp_all

record signed_attestation =
  sa_key_id :: string
  sa_purpose :: attestation_purpose
  sa_subject_digest :: string
  sa_payload_digest :: string
  sa_issued_at :: int
  sa_expires_at :: "int option"
  sa_nonce :: string
  sa_signature_b64 :: string

definition opt_int :: "int option \<Rightarrow> json" where
  "opt_int v = (case v of None \<Rightarrow> JNull | Some i \<Rightarrow> JInt i)"

definition attestation_body :: "signed_attestation \<Rightarrow> (string \<times> json) list" where
  "attestation_body a =
    [(''key_id'', JStr (sa_key_id a)),
     (''purpose'', JStr (purpose_value (sa_purpose a))),
     (''subject_digest'', JStr (sa_subject_digest a)),
     (''payload_digest'', JStr (sa_payload_digest a)),
     (''issued_at'', JInt (sa_issued_at a)),
     (''expires_at'', opt_int (sa_expires_at a)),
     (''nonce'', JStr (sa_nonce a))]"

definition attestation_dict :: "signed_attestation \<Rightarrow> (string \<times> json) list" where
  "attestation_dict a = attestation_body a @ [(''signature_b64'', JStr (sa_signature_b64 a))]"

definition attestation_digest :: "signed_attestation \<Rightarrow> string" where
  "attestation_digest a = content_digest (JObj (attestation_dict a))"

text \<open>What is signed: \<^verbatim>\<open>canonical_json(body).encode("utf-8")\<close>.\<close>

definition attestation_message :: "signed_attestation \<Rightarrow> byte list" where
  "attestation_message a = utf8_encode (canonical_json (JObj (attestation_body a)))"

record attestation_signer =
  sg_key_id :: string
  sg_public_key :: "byte list"
  sg_sign :: "byte list \<Rightarrow> byte list"

definition attestation_signer_init :: "attestation_signer \<Rightarrow> attestation_signer result" where
  "attestation_signer_init s =
     (let key_id = strip (sg_key_id s) in
      if key_id = [] then raise_ent ''key_id is required'' else return (s\<lparr>sg_key_id := key_id\<rparr>))"

definition attestation_sign ::
  "attestation_signer \<Rightarrow> attestation_purpose \<Rightarrow> string \<Rightarrow> (string \<times> json) list \<Rightarrow> int \<Rightarrow> int option \<Rightarrow> string \<Rightarrow>
   signed_attestation result" where
  "attestation_sign signer purpose subject_digest payload issued_at expires_at nonce =
     and_then (require_sha256 subject_digest ''subject_digest'') (\<lambda>subject.
     if issued_at < 0 then raise_ent ''issued_at cannot be negative''
     else if (case expires_at of None \<Rightarrow> False | Some e \<Rightarrow> e \<le> issued_at)
     then raise_ent ''expires_at must be after issued_at''
     else let nonce' = strip nonce in
     if nonce' = [] then raise_ent ''attestation nonce is required''
     else let unsigned = \<lparr>sa_key_id = sg_key_id signer, sa_purpose = purpose, sa_subject_digest = subject,
            sa_payload_digest = content_digest (JObj payload), sa_issued_at = issued_at,
            sa_expires_at = expires_at, sa_nonce = nonce', sa_signature_b64 = []\<rparr>
       in return (unsigned\<lparr>sa_signature_b64 := b64_encode (sg_sign signer (attestation_message unsigned))\<rparr>))"

text \<open>\<^verbatim>\<open>AttestationVerifier\<close>: the trusted keys, a later entry replacing an equal identifier, and the
  revoked identifiers. \<^verbatim>\<open>from_public_bytes\<close> raises unless it is given 32 bytes.\<close>

record attestation_verifier =
  av_keys :: "(string \<times> byte list) list"
  av_revoked :: "string list"

definition load_public_key :: "string \<times> byte list \<Rightarrow> (string \<times> byte list) result" where
  "load_public_key entry =
     (let normalized = strip (fst entry) in
      if normalized = [] then raise_ent ''public key id cannot be blank''
      else if length (snd entry) \<noteq> 32 then raise (BuiltinValueError ''An Ed25519 public key is 32 bytes long'')
      else return (normalized, snd entry))"

definition attestation_verifier_init ::
  "(string \<times> byte list) list \<Rightarrow> string list \<Rightarrow> attestation_verifier result" where
  "attestation_verifier_init public_keys revoked_key_ids =
     and_then (map_result load_public_key public_keys) (\<lambda>entries.
     let revoked = map strip revoked_key_ids in
     if [] \<in> set revoked then raise_ent ''revoked key ids cannot be blank''
     else return \<lparr>av_keys = dict_of entries, av_revoked = revoked\<rparr>)"

definition attestation_verify ::
  "(byte list \<Rightarrow> byte list \<Rightarrow> byte list \<Rightarrow> bool) \<Rightarrow> attestation_verifier \<Rightarrow> signed_attestation \<Rightarrow>
   attestation_purpose \<Rightarrow> string \<Rightarrow> (string \<times> json) list \<Rightarrow> int \<Rightarrow> string result" where
  "attestation_verify ed_verify v a expected_purpose expected_subject_digest payload now =
     and_then (require_sha256 expected_subject_digest ''expected_subject_digest'') (\<lambda>expected_subject.
     if sa_key_id a \<in> set (av_revoked v) then raise_ent ''attestation key is revoked''
     else (case map_of (av_keys v) (sa_key_id a) of
       None \<Rightarrow> raise_ent ''attestation key is not trusted''
     | Some public_key \<Rightarrow>
         if sa_purpose a \<noteq> expected_purpose then raise_ent ''attestation purpose mismatch''
         else if sa_subject_digest a \<noteq> expected_subject then raise_ent ''attestation subject mismatch''
         else if sa_payload_digest a \<noteq> content_digest (JObj payload) then raise_ent ''attestation payload mismatch''
         else if now < sa_issued_at a then raise_ent ''attestation is not yet valid''
         else if (case sa_expires_at a of None \<Rightarrow> False | Some e \<Rightarrow> now \<ge> e) then raise_ent ''attestation expired''
         else (case b64_decode (sa_signature_b64 a) of
           None \<Rightarrow> raise_ent ''invalid attestation signature encoding''
         | Some signature \<Rightarrow>
             if \<not> ed_verify public_key signature (attestation_message a)
             then raise_ent ''attestation signature invalid''
             else return (attestation_digest a))))"

section \<open>Laws\<close>

lemma opt_int_inject [simp]: "opt_int a = opt_int b \<longleftrightarrow> a = b"
  by (auto simp: opt_int_def split: option.splits)

lemma opt_int_json [simp]: "wf_json (opt_int a)" "norm_json (opt_int a) = opt_int a"
  by (simp_all add: opt_int_def split: option.split)

lemma require_scope_Inr:
  "require_scope scope wanted strict m = Inr u \<longleftrightarrow>
     (\<forall>x. wanted = Some x \<longrightarrow> (x \<in> set scope \<or> scope = [] \<and> \<not> strict))"
  by (cases wanted) (auto simp: require_scope_def)

lemma require_permission_Inr:
  "require_permission c permission tenant case_id workspace strict = Inr u \<longleftrightarrow>
     strip tenant = ac_tenant_id c \<and> permission \<in> set (ac_permissions c) \<and>
     (\<forall>x. case_id = Some x \<longrightarrow> (x \<in> set (ac_case_ids c) \<or> ac_case_ids c = [] \<and> \<not> strict)) \<and>
     (\<forall>x. workspace = Some x \<longrightarrow> (x \<in> set (ac_workspace_ids c) \<or> ac_workspace_ids c = [] \<and> \<not> strict))"
  by (auto simp: require_permission_def require_scope_Inr)

lemma attestation_message_inject:
  "attestation_message a = attestation_message b \<longleftrightarrow>
     sa_key_id a = sa_key_id b \<and> sa_purpose a = sa_purpose b \<and> sa_subject_digest a = sa_subject_digest b \<and>
     sa_payload_digest a = sa_payload_digest b \<and> sa_issued_at a = sa_issued_at b \<and>
     sa_expires_at a = sa_expires_at b \<and> sa_nonce a = sa_nonce b"
proof -
  have wf: "wf_json (JObj (attestation_body x))" for x
    by (simp add: attestation_body_def)
  have "attestation_message a = attestation_message b \<longleftrightarrow>
      canonical_json (JObj (attestation_body a)) = canonical_json (JObj (attestation_body b))"
    unfolding attestation_message_def by (metis utf8_decode_encode)
  also have "\<dots> \<longleftrightarrow> norm_json (JObj (attestation_body a)) = norm_json (JObj (attestation_body b))"
    using wf wf by (rule canonical_json_eq_iff)
  also have "\<dots> \<longleftrightarrow> sa_key_id a = sa_key_id b \<and> sa_purpose a = sa_purpose b \<and>
     sa_subject_digest a = sa_subject_digest b \<and> sa_payload_digest a = sa_payload_digest b \<and>
     sa_issued_at a = sa_issued_at b \<and> sa_expires_at a = sa_expires_at b \<and> sa_nonce a = sa_nonce b"
    by (auto simp: norm_json_JObj_same_keys attestation_body_def simp del: norm_json.simps(6))
  finally show ?thesis .
qed

lemma attestation_message_signature [simp]:
  "attestation_message (a\<lparr>sa_signature_b64 := s\<rparr>) = attestation_message a"
  by (simp add: attestation_message_inject)

text \<open>All that a successful verification establishes.\<close>

lemma attestation_verify_Inr:
  "attestation_verify ed v a purpose subject payload now = Inr d \<longleftrightarrow>
     is_sha256 (lower (strip subject)) \<and> sa_key_id a \<notin> set (av_revoked v) \<and>
     sa_purpose a = purpose \<and> sa_subject_digest a = lower (strip subject) \<and>
     sa_payload_digest a = content_digest (JObj payload) \<and>
     sa_issued_at a \<le> now \<and> (\<forall>e. sa_expires_at a = Some e \<longrightarrow> now < e) \<and>
     (\<exists>key signature. map_of (av_keys v) (sa_key_id a) = Some key \<and>
        b64_decode (sa_signature_b64 a) = Some signature \<and> ed key signature (attestation_message a)) \<and>
     d = attestation_digest a"
  by (auto simp: attestation_verify_def require_sha256_Inr split: option.splits)

lemma attestation_sign_Inr:
  "attestation_sign signer purpose subject payload issued expires nonce = Inr a \<Longrightarrow>
     is_sha256 (lower (strip subject)) \<and> 0 \<le> issued \<and> (\<forall>e. expires = Some e \<longrightarrow> issued < e) \<and>
     sa_key_id a = sg_key_id signer \<and> sa_purpose a = purpose \<and> sa_subject_digest a = lower (strip subject) \<and>
     sa_payload_digest a = content_digest (JObj payload) \<and> sa_issued_at a = issued \<and>
     sa_expires_at a = expires \<and> sa_nonce a = strip nonce \<and>
     b64_decode (sa_signature_b64 a) = Some (sg_sign signer (attestation_message a))"
  by (auto simp: attestation_sign_def require_sha256_Inr Let_def b64_decode_encode attestation_message_inject
      intro!: arg_cong [where f = "sg_sign signer"] split: if_splits option.splits)

section \<open>Properties\<close>

text \<open>Access is granted exactly inside the context: \<^verbatim>\<open>require\<close> returns when and only when the
  tenant is the context's own, the permission is held, and the case and the workspace asked for are
  in its scope, where an empty scope means no restriction unless the caller asks for strict
  scope.\<close>

theorem require_permission_exact:
  "require_permission c permission tenant case_id workspace strict = return () \<longleftrightarrow>
     strip tenant = ac_tenant_id c \<and> permission \<in> set (ac_permissions c) \<and>
     (case case_id of None \<Rightarrow> True | Some x \<Rightarrow> x \<in> set (ac_case_ids c) \<or> (ac_case_ids c = [] \<and> \<not> strict)) \<and>
     (case workspace of None \<Rightarrow> True | Some x \<Rightarrow> x \<in> set (ac_workspace_ids c) \<or> (ac_workspace_ids c = [] \<and> \<not> strict))"
  unfolding require_permission_Inr by (simp split: option.split)

text \<open>Signing and verifying agree: an attestation made by a signer whose public key the verifier
  trusts verifies, for the same purpose, subject and payload and at any time from its issue to its
  expiry. The hypothesis on the signature primitive is its documented correctness, that a signature
  made with a private key verifies under the matching public key.\<close>

theorem signed_attestation_verifies:
  assumes "attestation_sign signer purpose subject payload issued expires nonce = return a"
    and "\<And>message. ed_verify (sg_public_key signer) (sg_sign signer message) message"
    and "attestation_verifier_init [(sg_key_id signer, sg_public_key signer)] [] = return v"
    and "strip (sg_key_id signer) = sg_key_id signer"
    and "issued \<le> now" and "\<And>e. expires = Some e \<Longrightarrow> now < e"
  shows "attestation_verify ed_verify v a purpose subject payload now = return (attestation_digest a)"
proof -
  have "av_keys v = [(sg_key_id signer, sg_public_key signer)]" "av_revoked v = []"
    using assms(3,4) by (auto simp: attestation_verifier_init_def load_public_key_def dict_of_def Let_def split: if_splits)
  then show ?thesis using attestation_sign_Inr [OF assms(1)] assms(2,5,6)
    by (simp add: attestation_verify_Inr)
qed

text \<open>A verified attestation speaks for what the caller expects and for nothing else. When
  verification returns, the trusted, unrevoked key named by the attestation verifies its signature on
  the canonical text of its body, at a time inside its validity; and that text determines key,
  purpose, subject, payload digest, times and nonce, so that a signature accepted for two
  verifications with equal signed texts was accepted for the same purpose, subject and payload, up to
  an exhibited SHA-256 collision of the payloads.\<close>

theorem verified_attestation_pins_statement:
  assumes "attestation_verify ed v a purpose subject payload now = return d"
    and "attestation_verify ed' v' a' purpose' subject' payload' now' = return d'"
    and "attestation_message a = attestation_message a'"
    and "wf_json (JObj payload)" and "wf_json (JObj payload')"
  shows "purpose = purpose' \<and> lower (strip subject) = lower (strip subject') \<and>
    sa_key_id a = sa_key_id a' \<and> sa_key_id a \<notin> set (av_revoked v) \<and>
    (\<exists>key signature. map_of (av_keys v) (sa_key_id a) = Some key \<and>
       b64_decode (sa_signature_b64 a) = Some signature \<and> ed key signature (attestation_message a)) \<and>
    sa_issued_at a \<le> now \<and>
    (norm_json (JObj payload) = norm_json (JObj payload') \<or> digest_collision (JObj payload) (JObj payload'))"
proof -
  note v = assms(1) [unfolded attestation_verify_Inr]
  note v' = assms(2) [unfolded attestation_verify_Inr]
  note m = assms(3) [unfolded attestation_message_inject]
  have "content_digest (JObj payload) = content_digest (JObj payload')" using v v' m by simp
  from content_digest_eqD [OF assms(4,5) this] show ?thesis using v v' m by auto
qed

text \<open>A threat model covers what it is asked to cover: \<^verbatim>\<open>require_zone_coverage\<close> returns exactly
  when every zone asked for is the source or the target of one of its threats.\<close>

theorem zone_coverage_exact:
  "require_zone_coverage threats zones = return () \<longleftrightarrow>
     (\<forall>z \<in> set zones. \<exists>t \<in> set threats. th_source_zone t = z \<or> th_target_zone t = z)"
proof -
  have "require_zone_coverage threats zones = return () \<longleftrightarrow>
      filter (\<lambda>z. z \<notin> set (map th_source_zone threats @ map th_target_zone threats)) zones = []"
    by (simp add: require_zone_coverage_def Let_def)
  also have "\<dots> \<longleftrightarrow> (\<forall>z \<in> set zones. \<exists>t \<in> set threats. th_source_zone t = z \<or> th_target_zone t = z)"
    by (auto simp: filter_empty_conv)
  finally show ?thesis .
qed

section \<open>Witnesses\<close>

text \<open>A signer and a verifier that satisfy the hypothesis on the signature primitive: the signature of
  a message is the message.\<close>

definition sample_signer :: attestation_signer where
  "sample_signer = \<lparr>sg_key_id = ''k'', sg_public_key = replicate 32 0, sg_sign = (\<lambda>m. m)\<rparr>"

definition echo_verify :: "byte list \<Rightarrow> byte list \<Rightarrow> byte list \<Rightarrow> bool" where
  "echo_verify public_key signature message = (signature = message)"

definition sample_verifier :: attestation_verifier where
  "sample_verifier = \<lparr>av_keys = [(''k'', replicate 32 0)], av_revoked = []\<rparr>"

definition sample_unsigned :: signed_attestation where
  "sample_unsigned = \<lparr>sa_key_id = ''k'', sa_purpose = RELEASE, sa_subject_digest = replicate 64 (CHR ''a''),
     sa_payload_digest = content_digest (JObj []), sa_issued_at = 5, sa_expires_at = Some 9, sa_nonce = ''n'',
     sa_signature_b64 = []\<rparr>"

definition sample_attestation :: signed_attestation where
  "sample_attestation = sample_unsigned\<lparr>sa_signature_b64 := b64_encode (attestation_message sample_unsigned)\<rparr>"

lemma sample_sha: "require_sha256 (replicate 64 (CHR ''a'')) n = return (replicate 64 (CHR ''a''))"
proof -
  have "is_sha256 (lower (strip (replicate 64 (CHR ''a''))))" "lower (strip (replicate 64 (CHR ''a''))) = replicate 64 (CHR ''a'')"
    by code_simp+
  then show ?thesis by (simp add: require_sha256_Inr del: replicate.simps)
qed

lemma sample_key_text: "strip ''k'' = ''k''" "strip ''n'' = ''n''"
  by (simp_all add: strip_def is_space_def)

lemma sample_signed:
  "attestation_sign sample_signer RELEASE (replicate 64 (CHR ''a'')) [] 5 (Some 9) ''n'' = return sample_attestation"
  by (simp add: attestation_sign_def sample_sha sample_key_text Let_def sample_attestation_def sample_unsigned_def
      sample_signer_def del: replicate.simps)

lemma sample_verifier_init:
  "attestation_verifier_init [(sg_key_id sample_signer, sg_public_key sample_signer)] [] = return sample_verifier"
  by (simp add: attestation_verifier_init_def load_public_key_def dict_of_def Let_def sample_signer_def
      sample_verifier_def sample_key_text del: replicate.simps)

lemma signed_attestation_verifies_witness:
  "attestation_verify echo_verify sample_verifier sample_attestation RELEASE (replicate 64 (CHR ''a'')) [] 7 =
     return (attestation_digest sample_attestation)"
  by (rule signed_attestation_verifies [OF sample_signed _ sample_verifier_init])
    (simp_all add: echo_verify_def sample_signer_def sample_key_text)

lemma sample_verified:
  "attestation_verify echo_verify sample_verifier sample_attestation RELEASE (replicate 64 (CHR ''a'')) [] 7 =
     return (attestation_digest sample_attestation)"
proof -
  have "b64_decode (sa_signature_b64 sample_attestation) = Some (attestation_message sample_attestation)"
    using attestation_sign_Inr [OF sample_signed] by (simp add: sample_signer_def)
  then show ?thesis
    by (simp add: attestation_verify_def sample_sha echo_verify_def sample_verifier_def sample_attestation_def
        sample_unsigned_def del: replicate.simps)
qed

lemma verified_attestation_pins_statement_witness:
  "sa_key_id sample_attestation \<notin> set (av_revoked sample_verifier) \<and> sa_issued_at sample_attestation \<le> 7"
  using verified_attestation_pins_statement [OF sample_verified sample_verified refl] by simp

end
