(* ===== verification/Crypto_Agility.thy ===== *)
theory Crypto_Agility
  imports Enterprise_Contracts
begin

text \<open>
  Versioned crypto trust sets and key lifecycle, \<^verbatim>\<open>core/crypto_agility_v1.py\<close>: trust keys and
  trust sets with their dictionaries and parsers, the verifier pinned to one trust-set digest, and
  signing under a trust set.
\<close>

abbreviation raise_crypto :: "string \<Rightarrow> 'a result" where
  "raise_crypto msg \<equiv> Inl (CryptoAgilityV1Error msg)"

definition CRYPTO_TRUST_KEY_SCHEMA_V1 :: string where
  "CRYPTO_TRUST_KEY_SCHEMA_V1 = ''lukart.crypto-trust-key.v1''"

definition CRYPTO_TRUST_SET_SCHEMA_V1 :: string where
  "CRYPTO_TRUST_SET_SCHEMA_V1 = ''lukart.crypto-trust-set.v1''"

definition CRYPTO_VERIFICATION_SCHEMA_V1 :: string where
  "CRYPTO_VERIFICATION_SCHEMA_V1 = ''lukart.crypto-verification.v1''"

definition KEY_FIELDS :: "string list" where
  "KEY_FIELDS = [''schema'', ''key_id'', ''algorithm'', ''public_key_b64'', ''status'', ''not_before'',
     ''retire_at'', ''predecessor_key_id'', ''allowed_purposes'']"

definition TRUST_SET_FIELDS :: "string list" where
  "TRUST_SET_FIELDS = [''schema'', ''keys'', ''previous_trust_set_digest'', ''trust_set_digest'']"

section \<open>Enumerations and checks\<close>

datatype crypto_algorithm = ED25519
datatype key_status = ACTIVE | RETIRED | REVOKED

fun algorithm_value :: "crypto_algorithm \<Rightarrow> string" where
  "algorithm_value ED25519 = ''ED25519''"

fun key_status_value :: "key_status \<Rightarrow> string" where
  "key_status_value ACTIVE = ''ACTIVE''"
| "key_status_value RETIRED = ''RETIRED''"
| "key_status_value REVOKED = ''REVOKED''"

definition parse_enum :: "('e \<Rightarrow> string) \<Rightarrow> 'e list \<Rightarrow> string \<Rightarrow> 'e option" where
  "parse_enum val members s = find (\<lambda>e. val e = s) members"

text \<open>\<^verbatim>\<open>except ValueError as exc: raise CryptoAgilityV1Error(str(exc))\<close> around a digest check, and the
  conversion of an \<^verbatim>\<open>EnterpriseContractError\<close>.\<close>

fun as_crypto_error :: "'a result \<Rightarrow> 'a result" where
  "as_crypto_error (Inl (P3ContractError msg)) = raise_crypto msg"
| "as_crypto_error r = r"

fun enterprise_as_crypto :: "'a result \<Rightarrow> 'a result" where
  "enterprise_as_crypto (Inl (EnterpriseContractError msg)) = raise_crypto msg"
| "enterprise_as_crypto r = r"

text \<open>\<^verbatim>\<open>_text\<close> and \<^verbatim>\<open>_int\<close> on values read from JSON; a string or integer field of a dataclass is the
  case of its own JSON value.\<close>

definition crypto_text :: "json \<Rightarrow> string \<Rightarrow> string result" where
  "crypto_text v field_name =
     (case v of
        JStr s \<Rightarrow> if s = [] \<or> s \<noteq> strip s then raise_crypto (field_name @ '' must be nonblank and already canonical'')
          else return s
      | _ \<Rightarrow> raise_crypto (field_name @ '' must be nonblank and already canonical''))"

definition crypto_int :: "json \<Rightarrow> string \<Rightarrow> int result" where
  "crypto_int v field_name =
     (case v of
        JInt i \<Rightarrow> if i < 0 then raise_crypto (field_name @ '' must be a nonnegative integer'') else return i
      | _ \<Rightarrow> raise_crypto (field_name @ '' must be a nonnegative integer''))"

definition opt_check :: "('a \<Rightarrow> 'b result) \<Rightarrow> 'a option \<Rightarrow> 'b option result" where
  "opt_check f v = (case v of None \<Rightarrow> return None | Some x \<Rightarrow> and_then (f x) (\<lambda>y. return (Some y)))"

definition exact_keys :: "(string \<times> json) list \<Rightarrow> string list \<Rightarrow> string \<Rightarrow> unit result" where
  "exact_keys kvs expected field_name =
     (let actual = map fst kvs;
          missing = sort (filter (\<lambda>k. k \<notin> set actual) expected);
          unknown = sorted_set (filter (\<lambda>k. k \<notin> set expected) actual) in
      if missing = [] \<and> unknown = [] then return ()
      else raise_crypto (field_name @ '' key contract violation: '' @ join ''; ''
        ((if missing \<noteq> [] then [''missing='' @ join '','' missing] else []) @
         (if unknown \<noteq> [] then [''unknown='' @ join '','' unknown] else []))))"

definition decode_public_key :: "string \<Rightarrow> byte list result" where
  "decode_public_key v =
     (case b64_decode v of
        None \<Rightarrow> raise_crypto ''public key must be canonical base64''
      | Some raw \<Rightarrow>
          if length raw \<noteq> 32 then raise_crypto ''ED25519 public key must be exactly 32 bytes''
          else if b64_encode raw \<noteq> v then raise_crypto ''public key base64 is not canonical''
          else return raw)"

section \<open>Trust keys\<close>

record trust_key =
  ck_key_id :: string
  ck_algorithm :: crypto_algorithm
  ck_public_key_b64 :: string
  ck_status :: key_status
  ck_not_before :: int
  ck_allowed_purposes :: "attestation_purpose list"
  ck_retire_at :: "int option"
  ck_predecessor_key_id :: "string option"
  ck_schema :: string

definition check_retire_at :: "int \<Rightarrow> int \<Rightarrow> int result" where
  "check_retire_at not_before retire_at =
     and_then (crypto_int (JInt retire_at) ''retire_at'') (\<lambda>r.
     if r \<le> not_before then raise_crypto ''retire_at must be after not_before'' else return r)"

definition check_predecessor_id :: "string \<Rightarrow> string \<Rightarrow> string result" where
  "check_predecessor_id key_id predecessor =
     and_then (crypto_text (JStr predecessor) ''predecessor_key_id'') (\<lambda>p.
     if p = key_id then raise_crypto ''key cannot be its own predecessor'' else return p)"

definition trust_key_init :: "trust_key \<Rightarrow> trust_key result" where
  "trust_key_init k =
     (if ck_schema k \<noteq> CRYPTO_TRUST_KEY_SCHEMA_V1
      then raise_crypto (''unsupported crypto key schema: '' @ ck_schema k)
      else and_then (crypto_text (JStr (ck_key_id k)) ''key_id'') (\<lambda>key_id.
      and_then (crypto_text (JStr (ck_public_key_b64 k)) ''public_key_b64'') (\<lambda>public_key.
      and_then (decode_public_key public_key) (\<lambda>_.
      and_then (crypto_int (JInt (ck_not_before k)) ''not_before'') (\<lambda>not_before.
      and_then (opt_check (check_retire_at not_before) (ck_retire_at k)) (\<lambda>retire_at.
      if ck_status k = RETIRED \<and> retire_at = None then raise_crypto ''RETIRED key requires retire_at''
      else and_then (opt_check (check_predecessor_id key_id) (ck_predecessor_key_id k)) (\<lambda>predecessor.
      if ck_allowed_purposes k = [] then raise_crypto ''allowed_purposes cannot be empty''
      else return (k\<lparr>ck_allowed_purposes := sort_key purpose_value (remdups (ck_allowed_purposes k))\<rparr>))))))))"

definition trust_key_dict :: "trust_key \<Rightarrow> (string \<times> json) list" where
  "trust_key_dict k =
    [(''schema'', JStr (ck_schema k)),
     (''key_id'', JStr (ck_key_id k)),
     (''algorithm'', JStr (algorithm_value (ck_algorithm k))),
     (''public_key_b64'', JStr (ck_public_key_b64 k)),
     (''status'', JStr (key_status_value (ck_status k))),
     (''not_before'', JInt (ck_not_before k)),
     (''retire_at'', opt_int (ck_retire_at k)),
     (''predecessor_key_id'', (case ck_predecessor_key_id k of None \<Rightarrow> JNull | Some p \<Rightarrow> JStr p)),
     (''allowed_purposes'', jstrs (map purpose_value (ck_allowed_purposes k)))]"

definition trust_key_digest :: "trust_key \<Rightarrow> string" where
  "trust_key_digest k = content_digest (JObj (trust_key_dict k))"

text \<open>\<^verbatim>\<open>from_public_key_bytes\<close>.\<close>

definition trust_key_from_bytes ::
  "string \<Rightarrow> byte list \<Rightarrow> key_status \<Rightarrow> int \<Rightarrow> attestation_purpose list \<Rightarrow> int option \<Rightarrow> string option \<Rightarrow>
   trust_key result" where
  "trust_key_from_bytes key_id public_key status not_before purposes retire_at predecessor =
     trust_key_init \<lparr>ck_key_id = key_id, ck_algorithm = ED25519, ck_public_key_b64 = b64_encode public_key,
       ck_status = status, ck_not_before = not_before, ck_allowed_purposes = purposes,
       ck_retire_at = retire_at, ck_predecessor_key_id = predecessor, ck_schema = CRYPTO_TRUST_KEY_SCHEMA_V1\<rparr>"

definition json_get :: "(string \<times> json) list \<Rightarrow> string \<Rightarrow> json" where
  "json_get kvs k = (case map_of kvs k of None \<Rightarrow> JNull | Some v \<Rightarrow> v)"

text \<open>Reading an enumeration value inside \<^verbatim>\<open>try ... except ValueError\<close>: whatever goes wrong gives the
  one message.\<close>

definition read_enum :: "('e \<Rightarrow> string) \<Rightarrow> 'e list \<Rightarrow> json \<Rightarrow> string \<Rightarrow> 'e result" where
  "read_enum val members v message =
     (case crypto_text v [] of
        Inl _ \<Rightarrow> raise_crypto message
      | Inr s \<Rightarrow> (case parse_enum val members s of None \<Rightarrow> raise_crypto message | Some e \<Rightarrow> return e))"

definition opt_json :: "json \<Rightarrow> json option" where
  "opt_json v = (if v = JNull then None else Some v)"

definition trust_key_from_dict :: "(string \<times> json) list \<Rightarrow> trust_key result" where
  "trust_key_from_dict v =
     and_then (exact_keys v KEY_FIELDS ''crypto trust key'') (\<lambda>_.
     and_then (read_enum algorithm_value [ED25519] (json_get v ''algorithm'')
        ''unknown crypto algorithm or key status'') (\<lambda>algorithm.
     and_then (read_enum key_status_value [ACTIVE, RETIRED, REVOKED] (json_get v ''status'')
        ''unknown crypto algorithm or key status'') (\<lambda>status.
     and_then (case json_get v ''allowed_purposes'' of JList (x # xs) \<Rightarrow> return (x # xs)
        | _ \<Rightarrow> raise_crypto ''allowed_purposes must be a nonempty list'') (\<lambda>raw_purposes.
     and_then (map_result (\<lambda>item. read_enum purpose_value [API_TRUST, PROVENANCE, KQM, RELEASE, SECURITY_REVIEW]
        item ''unknown attestation purpose'') raw_purposes) (\<lambda>purposes.
     and_then (opt_check (\<lambda>r. crypto_int r ''retire_at'') (opt_json (json_get v ''retire_at''))) (\<lambda>retire_at.
     and_then (opt_check (\<lambda>p. crypto_text p ''predecessor_key_id'')
        (opt_json (json_get v ''predecessor_key_id''))) (\<lambda>predecessor.
     and_then (crypto_text (json_get v ''key_id'') ''key_id'') (\<lambda>key_id.
     and_then (crypto_text (json_get v ''public_key_b64'') ''public_key_b64'') (\<lambda>public_key.
     and_then (crypto_int (json_get v ''not_before'') ''not_before'') (\<lambda>not_before.
     and_then (crypto_text (json_get v ''schema'') ''key schema'') (\<lambda>schema.
     trust_key_init \<lparr>ck_key_id = key_id, ck_algorithm = algorithm, ck_public_key_b64 = public_key,
       ck_status = status, ck_not_before = not_before, ck_allowed_purposes = purposes,
       ck_retire_at = retire_at, ck_predecessor_key_id = predecessor, ck_schema = schema\<rparr>)))))))))))"

section \<open>Trust sets\<close>

record trust_set =
  ct_keys :: "trust_key list"
  ct_previous_digest :: "string option"
  ct_schema :: string

definition check_predecessor :: "trust_key list \<Rightarrow> trust_key \<Rightarrow> unit result" where
  "check_predecessor ordered item =
     (case ck_predecessor_key_id item of
        None \<Rightarrow> return ()
      | Some predecessor \<Rightarrow>
          (case find (\<lambda>k. ck_key_id k = predecessor) ordered of
             None \<Rightarrow> raise_crypto ''key predecessor is not present in trust set''
           | Some previous \<Rightarrow>
               if ck_not_before previous \<ge> ck_not_before item
               then raise_crypto ''key predecessor must predate successor'' else return ()))"

definition trust_set_init :: "trust_set \<Rightarrow> trust_set result" where
  "trust_set_init t =
     (if ct_schema t \<noteq> CRYPTO_TRUST_SET_SCHEMA_V1
      then raise_crypto (''unsupported crypto trust-set schema: '' @ ct_schema t)
      else if ct_keys t = [] then raise_crypto ''crypto trust set cannot be empty''
      else let ordered = sort_key ck_key_id (ct_keys t) in
      if \<not> distinct (map ck_key_id ordered) then raise_crypto ''duplicate crypto key_id''
      else and_then (map_result (check_predecessor ordered) ordered) (\<lambda>_.
      and_then (opt_check (\<lambda>d. as_crypto_error (require_sha256 d ''previous_trust_set_digest''))
        (ct_previous_digest t)) (\<lambda>previous_digest.
      return (t\<lparr>ct_keys := ordered, ct_previous_digest := previous_digest\<rparr>))))"

definition trust_set_body :: "trust_set \<Rightarrow> (string \<times> json) list" where
  "trust_set_body t =
    [(''schema'', JStr (ct_schema t)),
     (''keys'', JList (map (\<lambda>k. JObj (trust_key_dict k)) (ct_keys t))),
     (''previous_trust_set_digest'', (case ct_previous_digest t of None \<Rightarrow> JNull | Some d \<Rightarrow> JStr d))]"

definition trust_set_digest :: "trust_set \<Rightarrow> string" where
  "trust_set_digest t = content_digest (JObj (trust_set_body t))"

definition trust_set_dict :: "trust_set \<Rightarrow> (string \<times> json) list" where
  "trust_set_dict t = trust_set_body t @ [(''trust_set_digest'', JStr (trust_set_digest t))]"

definition key_of_json :: "json \<Rightarrow> trust_key result" where
  "key_of_json raw =
     (case raw of JObj kvs \<Rightarrow> trust_key_from_dict kvs
      | _ \<Rightarrow> raise_crypto ''crypto trust-set key must be an object'')"

definition trust_set_from_dict :: "(string \<times> json) list \<Rightarrow> trust_set result" where
  "trust_set_from_dict v =
     and_then (exact_keys v TRUST_SET_FIELDS ''crypto trust set'') (\<lambda>_.
     and_then (case json_get v ''keys'' of JList (x # xs) \<Rightarrow> return (x # xs)
        | _ \<Rightarrow> raise_crypto ''crypto trust-set keys must be a nonempty list'') (\<lambda>raw_keys.
     and_then (map_result key_of_json raw_keys) (\<lambda>keys.
     and_then (opt_check (\<lambda>p. crypto_text p ''previous_trust_set_digest'')
        (opt_json (json_get v ''previous_trust_set_digest''))) (\<lambda>previous.
     and_then (crypto_text (json_get v ''schema'') ''trust-set schema'') (\<lambda>schema.
     and_then (trust_set_init \<lparr>ct_keys = keys, ct_previous_digest = previous, ct_schema = schema\<rparr>) (\<lambda>trust.
     and_then (crypto_text (json_get v ''trust_set_digest'') ''trust_set_digest'') (\<lambda>recorded_text.
     and_then (as_crypto_error (require_sha256 recorded_text ''trust_set_digest'')) (\<lambda>recorded.
     if recorded \<noteq> trust_set_digest trust then raise_crypto ''crypto trust-set digest mismatch''
     else return trust))))))))"

definition trust_set_key :: "trust_set \<Rightarrow> string \<Rightarrow> trust_key result" where
  "trust_set_key t key_id =
     and_then (crypto_text (JStr key_id) ''key_id'') (\<lambda>normalized.
     (case find (\<lambda>k. ck_key_id k = normalized) (ct_keys t) of
        None \<Rightarrow> raise_crypto ''attestation key is not present in crypto trust set''
      | Some k \<Rightarrow> return k))"

section \<open>Verification and signing under a trust set\<close>

record crypto_verification =
  cv_attestation_digest :: string
  cv_trust_set_digest :: string
  cv_key_digest :: string
  cv_algorithm :: crypto_algorithm
  cv_schema :: string

definition crypto_verification_init :: "crypto_verification \<Rightarrow> crypto_verification result" where
  "crypto_verification_init c =
     (if cv_schema c \<noteq> CRYPTO_VERIFICATION_SCHEMA_V1
      then raise_crypto (''unsupported crypto verification schema: '' @ cv_schema c)
      else and_then (as_crypto_error (require_sha256 (cv_attestation_digest c) ''attestation_digest'')) (\<lambda>a.
      and_then (as_crypto_error (require_sha256 (cv_trust_set_digest c) ''trust_set_digest'')) (\<lambda>t.
      and_then (as_crypto_error (require_sha256 (cv_key_digest c) ''key_digest'')) (\<lambda>k.
      return (c\<lparr>cv_attestation_digest := a, cv_trust_set_digest := t, cv_key_digest := k\<rparr>)))))"

definition crypto_verification_dict :: "crypto_verification \<Rightarrow> (string \<times> json) list" where
  "crypto_verification_dict c =
    [(''schema'', JStr (cv_schema c)),
     (''attestation_digest'', JStr (cv_attestation_digest c)),
     (''trust_set_digest'', JStr (cv_trust_set_digest c)),
     (''key_digest'', JStr (cv_key_digest c)),
     (''algorithm'', JStr (algorithm_value (cv_algorithm c)))]"

definition verification_digest :: "crypto_verification \<Rightarrow> string" where
  "verification_digest c = content_digest (JObj (crypto_verification_dict c))"

text \<open>\<^verbatim>\<open>CryptoTrustVerifierV1\<close>: its constructor pins the trust set and returns the normalised
  digest.\<close>

definition trust_verifier_init :: "trust_set \<Rightarrow> string \<Rightarrow> (trust_set \<times> string) result" where
  "trust_verifier_init t expected_digest =
     and_then (as_crypto_error (require_sha256 expected_digest ''expected_trust_set_digest'')) (\<lambda>expected.
     if trust_set_digest t \<noteq> expected then raise_crypto ''crypto trust-set identity mismatch''
     else return (t, expected))"

definition trust_verify ::
  "(byte list \<Rightarrow> byte list \<Rightarrow> byte list \<Rightarrow> bool) \<Rightarrow> trust_set \<times> string \<Rightarrow> signed_attestation \<Rightarrow>
   attestation_purpose \<Rightarrow> string \<Rightarrow> (string \<times> json) list \<Rightarrow> int \<Rightarrow> crypto_verification result" where
  "trust_verify ed_verify verifier a expected_purpose expected_subject payload now =
     and_then (trust_set_key (fst verifier) (sa_key_id a)) (\<lambda>key.
     if ck_algorithm key \<noteq> ED25519 then raise_crypto ''crypto algorithm adapter is not implemented''
     else if expected_purpose \<notin> set (ck_allowed_purposes key)
     then raise_crypto ''attestation purpose is not allowed for crypto key''
     else if ck_status key = REVOKED then raise_crypto ''crypto key is revoked''
     else if sa_issued_at a < ck_not_before key then raise_crypto ''attestation predates crypto key activation''
     else if (case ck_retire_at key of None \<Rightarrow> False | Some r \<Rightarrow> sa_issued_at a \<ge> r)
     then raise_crypto ''attestation was issued after crypto key retirement''
     else and_then (decode_public_key (ck_public_key_b64 key)) (\<lambda>raw.
       and_then (enterprise_as_crypto (and_then (attestation_verifier_init [(ck_key_id key, raw)] []) (\<lambda>v.
         attestation_verify ed_verify v a expected_purpose expected_subject payload now))) (\<lambda>digest.
       crypto_verification_init \<lparr>cv_attestation_digest = digest, cv_trust_set_digest = snd verifier,
         cv_key_digest = trust_key_digest key, cv_algorithm = ck_algorithm key,
         cv_schema = CRYPTO_VERIFICATION_SCHEMA_V1\<rparr>)))"

definition sign_attestation_v1 ::
  "trust_set \<Rightarrow> string \<Rightarrow> attestation_signer \<Rightarrow> attestation_purpose \<Rightarrow> string \<Rightarrow> (string \<times> json) list \<Rightarrow> int \<Rightarrow>
   int option \<Rightarrow> string \<Rightarrow> signed_attestation result" where
  "sign_attestation_v1 t expected_digest signer purpose subject_digest payload issued_at expires_at nonce =
     and_then (trust_verifier_init t expected_digest) (\<lambda>_.
     and_then (trust_set_key t (sg_key_id signer)) (\<lambda>key.
     if ck_status key \<noteq> ACTIVE then raise_crypto ''only ACTIVE crypto key may sign new attestations''
     else if purpose \<notin> set (ck_allowed_purposes key)
     then raise_crypto ''attestation purpose is not allowed for crypto key''
     else if issued_at < ck_not_before key then raise_crypto ''cannot sign before crypto key activation''
     else if (case ck_retire_at key of None \<Rightarrow> False | Some r \<Rightarrow> issued_at \<ge> r)
     then raise_crypto ''cannot sign at or after crypto key retirement''
     else and_then (decode_public_key (ck_public_key_b64 key)) (\<lambda>raw.
       if sg_public_key signer \<noteq> raw then raise_crypto ''signer public key does not match crypto trust-set key''
       else enterprise_as_crypto
         (attestation_sign signer purpose subject_digest payload issued_at expires_at nonce))))"

section \<open>Laws\<close>

lemma as_crypto_error_Inr [simp]: "as_crypto_error r = Inr x \<longleftrightarrow> r = Inr x"
  by (cases r rule: as_crypto_error.cases) auto

lemma enterprise_as_crypto_Inr [simp]: "enterprise_as_crypto r = Inr x \<longleftrightarrow> r = Inr x"
  by (cases r rule: enterprise_as_crypto.cases) auto

lemma crypto_text_Inr: "crypto_text v n = Inr s \<longleftrightarrow> v = JStr s \<and> s \<noteq> [] \<and> strip s = s"
  by (auto simp: crypto_text_def split: json.splits)

lemma crypto_int_Inr: "crypto_int v n = Inr i \<longleftrightarrow> v = JInt i \<and> 0 \<le> i"
  by (auto simp: crypto_int_def split: json.splits)

lemma opt_check_Inr:
  "opt_check f v = Inr w \<longleftrightarrow> (case v of None \<Rightarrow> w = None | Some x \<Rightarrow> \<exists>y. f x = Inr y \<and> w = Some y)"
  by (auto simp: opt_check_def split: option.splits)

lemma decode_public_key_Inr:
  "decode_public_key v = Inr raw \<longleftrightarrow> v = b64_encode raw \<and> length raw = 32"
  by (auto simp: decode_public_key_def b64_decode_encode split: option.splits if_splits)

lemma key_status_value_inject [simp]: "key_status_value a = key_status_value b \<longleftrightarrow> a = b"
  by (cases a; cases b) simp_all

text \<open>What the constructor of a key guarantees.\<close>

definition trust_key_ok :: "trust_key \<Rightarrow> bool" where
  "trust_key_ok k =
     (ck_schema k = CRYPTO_TRUST_KEY_SCHEMA_V1 \<and> ck_key_id k \<noteq> [] \<and> strip (ck_key_id k) = ck_key_id k \<and>
      ck_public_key_b64 k \<noteq> [] \<and> strip (ck_public_key_b64 k) = ck_public_key_b64 k \<and>
      (\<exists>raw. ck_public_key_b64 k = b64_encode raw \<and> length raw = 32) \<and> 0 \<le> ck_not_before k \<and>
      (\<forall>r. ck_retire_at k = Some r \<longrightarrow> ck_not_before k < r) \<and>
      (ck_status k = RETIRED \<longrightarrow> ck_retire_at k \<noteq> None) \<and>
      (\<forall>p. ck_predecessor_key_id k = Some p \<longrightarrow> p \<noteq> [] \<and> strip p = p \<and> p \<noteq> ck_key_id k) \<and>
      ck_allowed_purposes k \<noteq> [] \<and> distinct (ck_allowed_purposes k) \<and>
      sorted (map purpose_value (ck_allowed_purposes k)))"

lemma check_retire_at_Inr: "opt_check (check_retire_at nb) v = Inr w \<longleftrightarrow>
    w = v \<and> (\<forall>r. v = Some r \<longrightarrow> 0 \<le> r \<and> nb < r)"
  by (cases v) (auto simp: opt_check_def check_retire_at_def crypto_int_Inr split: if_splits)

lemma check_predecessor_id_Inr: "opt_check (check_predecessor_id i) v = Inr w \<longleftrightarrow>
    w = v \<and> (\<forall>p. v = Some p \<longrightarrow> p \<noteq> [] \<and> strip p = p \<and> p \<noteq> i)"
  by (cases v) (auto simp: opt_check_def check_predecessor_id_def crypto_text_Inr split: if_splits)

lemma trust_key_init_Inr:
  "trust_key_init k = Inr k' \<longleftrightarrow>
     ck_schema k = CRYPTO_TRUST_KEY_SCHEMA_V1 \<and>
     crypto_text (JStr (ck_key_id k)) ''key_id'' = Inr (ck_key_id k) \<and>
     crypto_text (JStr (ck_public_key_b64 k)) ''public_key_b64'' = Inr (ck_public_key_b64 k) \<and>
     (\<exists>raw. decode_public_key (ck_public_key_b64 k) = Inr raw) \<and> 0 \<le> ck_not_before k \<and>
     (\<forall>r. ck_retire_at k = Some r \<longrightarrow> 0 \<le> r \<and> ck_not_before k < r) \<and>
     (ck_status k = RETIRED \<longrightarrow> ck_retire_at k \<noteq> None) \<and>
     (\<forall>p. ck_predecessor_key_id k = Some p \<longrightarrow> p \<noteq> [] \<and> strip p = p \<and> p \<noteq> ck_key_id k) \<and>
     ck_allowed_purposes k \<noteq> [] \<and>
     k' = k\<lparr>ck_allowed_purposes := sort_key purpose_value (remdups (ck_allowed_purposes k))\<rparr>"
proof (cases "ck_schema k = CRYPTO_TRUST_KEY_SCHEMA_V1 \<and> ck_allowed_purposes k \<noteq> [] \<and>
    \<not> (ck_status k = RETIRED \<and> ck_retire_at k = None)")
  case True
  then show ?thesis
    unfolding trust_key_init_def
    by (auto simp: crypto_text_Inr crypto_int_Inr check_retire_at_Inr check_predecessor_id_Inr)
next
  case False
  then show ?thesis
    unfolding trust_key_init_def
    by (auto simp: crypto_text_Inr crypto_int_Inr check_retire_at_Inr check_predecessor_id_Inr split: if_splits)
qed

lemma trust_key_init_ok: "trust_key_init k0 = Inr k \<Longrightarrow> trust_key_ok k"
  unfolding trust_key_init_Inr by (auto simp: trust_key_ok_def crypto_text_Inr decode_public_key_Inr)

lemma trust_key_init_fixed: "trust_key_ok k \<Longrightarrow> trust_key_init k = Inr k"
  unfolding trust_key_init_Inr
  by (fastforce simp: trust_key_ok_def crypto_text_Inr decode_public_key_Inr sort_key_id_if_sorted distinct_remdups_id)

text \<open>Reading back what the dictionaries hold.\<close>

lemma read_enum_value:
  assumes "crypto_text (JStr (val e)) [] = Inr (val e)" "parse_enum val members (val e) = Some e"
  shows "read_enum val members (JStr (val e)) m = Inr e"
  using assms by (simp add: read_enum_def)

lemma read_algorithm: "read_enum algorithm_value [ED25519] (JStr (algorithm_value a)) m = Inr a"
  by (cases a) (simp add: read_enum_def crypto_text_def parse_enum_def strip_def is_space_def)

lemma read_status: "read_enum key_status_value [ACTIVE, RETIRED, REVOKED] (JStr (key_status_value s)) m = Inr s"
  by (cases s) (simp_all add: read_enum_def crypto_text_def parse_enum_def strip_def is_space_def)

lemma read_purpose:
  "read_enum purpose_value [API_TRUST, PROVENANCE, KQM, RELEASE, SECURITY_REVIEW] (JStr (purpose_value p)) m = Inr p"
  by (cases p) (simp_all add: read_enum_def crypto_text_def parse_enum_def strip_def is_space_def)

lemma exact_keys_same: "map fst kvs = expected \<Longrightarrow> exact_keys kvs expected n = Inr ()"
  by (simp add: exact_keys_def)

lemma trust_key_dict_get:
  "json_get (trust_key_dict k) ''schema'' = JStr (ck_schema k)"
  "json_get (trust_key_dict k) ''key_id'' = JStr (ck_key_id k)"
  "json_get (trust_key_dict k) ''algorithm'' = JStr (algorithm_value (ck_algorithm k))"
  "json_get (trust_key_dict k) ''public_key_b64'' = JStr (ck_public_key_b64 k)"
  "json_get (trust_key_dict k) ''status'' = JStr (key_status_value (ck_status k))"
  "json_get (trust_key_dict k) ''not_before'' = JInt (ck_not_before k)"
  "json_get (trust_key_dict k) ''retire_at'' = opt_int (ck_retire_at k)"
  "json_get (trust_key_dict k) ''predecessor_key_id'' =
     (case ck_predecessor_key_id k of None \<Rightarrow> JNull | Some p \<Rightarrow> JStr p)"
  "json_get (trust_key_dict k) ''allowed_purposes'' = jstrs (map purpose_value (ck_allowed_purposes k))"
  by (simp_all add: json_get_def trust_key_dict_def)

lemma trust_key_roundtrip:
  assumes "trust_key_ok k"
  shows "trust_key_from_dict (trust_key_dict k) = Inr k"
proof -
  obtain p ps where ps: "ck_allowed_purposes k = p # ps" using assms by (cases "ck_allowed_purposes k") (auto simp: trust_key_ok_def)
  have raw: "(case jstrs (map purpose_value (ck_allowed_purposes k)) of JList (x # xs) \<Rightarrow> Inr (x # xs)
      | _ \<Rightarrow> raise_crypto ''allowed_purposes must be a nonempty list'') =
     Inr (map (\<lambda>p. JStr (purpose_value p)) (ck_allowed_purposes k))"
    by (simp add: jstrs_def ps)
  have purposes: "map_result (\<lambda>item. read_enum purpose_value [API_TRUST, PROVENANCE, KQM, RELEASE, SECURITY_REVIEW]
        item ''unknown attestation purpose'') (map (\<lambda>p. JStr (purpose_value p)) xs) = Inr xs" for xs
    by (induction xs) (simp_all add: read_purpose)
  have retire: "opt_check (\<lambda>r. crypto_int r ''retire_at'') (opt_json (opt_int (ck_retire_at k))) = Inr (ck_retire_at k)"
    using assms by (cases "ck_retire_at k") (auto simp: opt_check_def opt_json_def opt_int_def crypto_int_def trust_key_ok_def)
  have pred: "opt_check (\<lambda>p. crypto_text p ''predecessor_key_id'')
      (opt_json (case ck_predecessor_key_id k of None \<Rightarrow> JNull | Some p \<Rightarrow> JStr p)) = Inr (ck_predecessor_key_id k)"
    using assms by (cases "ck_predecessor_key_id k") (auto simp: opt_check_def opt_json_def crypto_text_def trust_key_ok_def)
  have texts: "crypto_text (JStr (ck_key_id k)) n = Inr (ck_key_id k)"
    "crypto_text (JStr (ck_public_key_b64 k)) n = Inr (ck_public_key_b64 k)"
    "crypto_int (JInt (ck_not_before k)) n = Inr (ck_not_before k)"
    "crypto_text (JStr (ck_schema k)) n = Inr (ck_schema k)" for n
    using assms by (simp_all add: crypto_text_Inr crypto_int_Inr trust_key_ok_def CRYPTO_TRUST_KEY_SCHEMA_V1_def
        strip_def is_space_def)
  have keys: "exact_keys (trust_key_dict k) KEY_FIELDS n = Inr ()" for n
    by (rule exact_keys_same) (simp add: trust_key_dict_def KEY_FIELDS_def)
  show ?thesis
    unfolding trust_key_from_dict_def trust_key_dict_get keys raw and_then_Inr read_algorithm read_status
      purposes retire pred texts
    using trust_key_init_fixed [OF assms] by (cases k) simp
qed

definition trust_set_ok :: "trust_set \<Rightarrow> bool" where
  "trust_set_ok t =
     (ct_schema t = CRYPTO_TRUST_SET_SCHEMA_V1 \<and> ct_keys t \<noteq> [] \<and>
      sorted (map ck_key_id (ct_keys t)) \<and> distinct (map ck_key_id (ct_keys t)) \<and>
      (\<forall>k \<in> set (ct_keys t). trust_key_ok k) \<and>
      (\<forall>k \<in> set (ct_keys t). \<forall>p. ck_predecessor_key_id k = Some p \<longrightarrow>
         (\<exists>k' \<in> set (ct_keys t). ck_key_id k' = p \<and> ck_not_before k' < ck_not_before k)) \<and>
      (\<forall>d. ct_previous_digest t = Some d \<longrightarrow> is_sha256 d))"

lemma check_predecessor_Inr:
  assumes "distinct (map ck_key_id ks)"
  shows "check_predecessor ks k = Inr u \<longleftrightarrow>
    (\<forall>p. ck_predecessor_key_id k = Some p \<longrightarrow>
       (\<exists>k' \<in> set ks. ck_key_id k' = p \<and> ck_not_before k' < ck_not_before k))"
proof (cases "ck_predecessor_key_id k")
  case pred: (Some p)
  show ?thesis
  proof (cases "find (\<lambda>k. ck_key_id k = p) ks")
    case none: None
    then have "\<not> (\<exists>k' \<in> set ks. ck_key_id k' = p)" by (auto simp: find_None_iff)
    moreover have "check_predecessor ks k \<noteq> Inr u" by (simp add: check_predecessor_def pred none del: find_None_iff)
    ultimately show ?thesis using pred by auto
  next
    case (Some k')
    then have k': "k' \<in> set ks" "ck_key_id k' = p" by (auto simp: find_Some_iff)
    have "k'' = k'" if "k'' \<in> set ks" "ck_key_id k'' = p" for k''
      using assms k' that by (auto simp: distinct_map dest: inj_onD)
    then have "(\<exists>k' \<in> set ks. ck_key_id k' = p \<and> ck_not_before k' < ck_not_before k) \<longleftrightarrow>
        ck_not_before k' < ck_not_before k" using k' by blast
    then show ?thesis using Some pred by (simp add: check_predecessor_def)
  qed
qed (simp add: check_predecessor_def)

lemma map_result_unit: "map_result f xs = Inr us \<Longrightarrow> x \<in> set xs \<Longrightarrow> f x = Inr (() :: unit)"
  by (induction xs arbitrary: us) auto

lemma map_result_unit': "\<forall>x \<in> set xs. f x = Inr (() :: unit) \<Longrightarrow> \<exists>us. map_result f xs = Inr us"
  by (induction xs) auto

lemma require_sha256_fixed: "is_sha256 d \<Longrightarrow> require_sha256 d n = Inr d"
  by (simp add: require_sha256_Inr is_sha256_def is_hex_strip is_hex_lower)

lemma sha256_normal_text: "is_sha256 d \<Longrightarrow> lower (strip d) = d"
  by (auto simp: is_sha256_def is_hex_strip is_hex_lower)

lemma trust_set_init_ok:
  assumes "trust_set_init t0 = Inr t" "\<forall>k \<in> set (ct_keys t0). trust_key_ok k"
  shows "trust_set_ok t"
proof -
  let ?o = "sort_key ck_key_id (ct_keys t0)"
  obtain us prev where d: "distinct (map ck_key_id ?o)" and us: "map_result (check_predecessor ?o) ?o = Inr us"
    and prev: "opt_check (\<lambda>d. as_crypto_error (require_sha256 d ''previous_trust_set_digest'')) (ct_previous_digest t0) = Inr prev"
    and t: "t = t0\<lparr>ct_keys := ?o, ct_previous_digest := prev\<rparr>"
    and s: "ct_schema t0 = CRYPTO_TRUST_SET_SCHEMA_V1" "ct_keys t0 \<noteq> []"
    using assms(1) by (auto simp: trust_set_init_def Let_def split: if_splits)
  have "\<forall>k \<in> set ?o. \<forall>p. ck_predecessor_key_id k = Some p \<longrightarrow>
      (\<exists>k' \<in> set ?o. ck_key_id k' = p \<and> ck_not_before k' < ck_not_before k)"
    using map_result_unit [OF us] check_predecessor_Inr [OF d] by blast
  moreover have "\<forall>x. prev = Some x \<longrightarrow> is_sha256 x"
    using prev by (auto simp: opt_check_Inr require_sha256_Inr split: option.splits)
  ultimately show ?thesis using assms(2) d s by (simp add: t trust_set_ok_def)
qed

lemma trust_set_init_fixed:
  assumes "trust_set_ok t"
  shows "trust_set_init t = Inr t"
proof -
  have o: "sort_key ck_key_id (ct_keys t) = ct_keys t" "distinct (map ck_key_id (ct_keys t))"
    using assms by (simp_all add: trust_set_ok_def sort_key_id_if_sorted)
  have "\<forall>k \<in> set (ct_keys t). check_predecessor (ct_keys t) k = Inr ()"
    using assms check_predecessor_Inr [OF o(2)] by (auto simp: trust_set_ok_def)
  then obtain us where "map_result (check_predecessor (ct_keys t)) (ct_keys t) = Inr us"
    using map_result_unit' by blast
  moreover have "opt_check (\<lambda>d. as_crypto_error (require_sha256 d ''previous_trust_set_digest'')) (ct_previous_digest t) =
      Inr (ct_previous_digest t)"
    using assms by (cases "ct_previous_digest t") (auto simp: opt_check_def trust_set_ok_def require_sha256_fixed)
  ultimately show ?thesis using assms o by (simp add: trust_set_init_def Let_def trust_set_ok_def)
qed

lemma trust_set_dict_get:
  "json_get (trust_set_dict t) ''schema'' = JStr (ct_schema t)"
  "json_get (trust_set_dict t) ''keys'' = JList (map (\<lambda>k. JObj (trust_key_dict k)) (ct_keys t))"
  "json_get (trust_set_dict t) ''previous_trust_set_digest'' =
     (case ct_previous_digest t of None \<Rightarrow> JNull | Some d \<Rightarrow> JStr d)"
  "json_get (trust_set_dict t) ''trust_set_digest'' = JStr (trust_set_digest t)"
  by (simp_all add: json_get_def trust_set_dict_def trust_set_body_def)

lemma sha256_text: "is_sha256 d \<Longrightarrow> crypto_text (JStr d) n = Inr d"
  by (auto simp: crypto_text_Inr is_sha256_def is_hex_strip)

lemma trust_set_digest_sha [simp]: "is_sha256 (trust_set_digest t)"
  by (simp add: trust_set_digest_def)

lemma trust_set_key_Inr:
  "trust_set_key t i = Inr k \<Longrightarrow> k \<in> set (ct_keys t) \<and> ck_key_id k = i"
  by (auto simp: trust_set_key_def crypto_text_Inr find_Some_iff split: option.splits)

lemma single_key_verifier:
  "attestation_verifier_init [(i, raw)] [] = Inr v \<Longrightarrow>
     strip i \<noteq> [] \<and> length raw = 32 \<and> v = \<lparr>av_keys = [(strip i, raw)], av_revoked = []\<rparr>"
  by (auto simp: attestation_verifier_init_def load_public_key_def dict_of_def Let_def split: if_splits)

lemma crypto_verification_init_fixed:
  "is_sha256 a \<Longrightarrow> is_sha256 t \<Longrightarrow> is_sha256 k \<Longrightarrow>
     crypto_verification_init \<lparr>cv_attestation_digest = a, cv_trust_set_digest = t, cv_key_digest = k,
       cv_algorithm = alg, cv_schema = CRYPTO_VERIFICATION_SCHEMA_V1\<rparr> =
     Inr \<lparr>cv_attestation_digest = a, cv_trust_set_digest = t, cv_key_digest = k,
       cv_algorithm = alg, cv_schema = CRYPTO_VERIFICATION_SCHEMA_V1\<rparr>"
  by (simp add: crypto_verification_init_def require_sha256_fixed)

text \<open>All that a successful verification under a trust set establishes.\<close>

lemma trust_verify_Inr:
  assumes "trust_verify ed (t, pin) a purpose subject payload now = Inr c"
  shows "\<exists>key raw signature. key \<in> set (ct_keys t) \<and> ck_key_id key = sa_key_id a \<and>
    purpose \<in> set (ck_allowed_purposes key) \<and> ck_status key \<noteq> REVOKED \<and>
    ck_not_before key \<le> sa_issued_at a \<and> (\<forall>r. ck_retire_at key = Some r \<longrightarrow> sa_issued_at a < r) \<and>
    ck_public_key_b64 key = b64_encode raw \<and> length raw = 32 \<and> b64_decode (sa_signature_b64 a) = Some signature \<and>
    ed raw signature (attestation_message a) \<and>
    sa_purpose a = purpose \<and> sa_subject_digest a = lower (strip subject) \<and>
    sa_payload_digest a = content_digest (JObj payload) \<and> sa_issued_at a \<le> now \<and>
    (\<forall>e. sa_expires_at a = Some e \<longrightarrow> now < e) \<and>
    c = \<lparr>cv_attestation_digest = attestation_digest a, cv_trust_set_digest = lower (strip pin),
          cv_key_digest = trust_key_digest key, cv_algorithm = ED25519, cv_schema = CRYPTO_VERIFICATION_SCHEMA_V1\<rparr>"
proof -
  obtain key raw v d where key: "trust_set_key t (sa_key_id a) = Inr key"
    and guards: "purpose \<in> set (ck_allowed_purposes key)" "ck_status key \<noteq> REVOKED"
      "ck_not_before key \<le> sa_issued_at a" "\<forall>r. ck_retire_at key = Some r \<longrightarrow> sa_issued_at a < r"
    and raw: "decode_public_key (ck_public_key_b64 key) = Inr raw"
    and v: "attestation_verifier_init [(ck_key_id key, raw)] [] = Inr v"
    and d: "attestation_verify ed v a purpose subject payload now = Inr d"
    and c: "crypto_verification_init \<lparr>cv_attestation_digest = d, cv_trust_set_digest = pin,
         cv_key_digest = trust_key_digest key, cv_algorithm = ck_algorithm key,
         cv_schema = CRYPTO_VERIFICATION_SCHEMA_V1\<rparr> = Inr c"
    using assms by (auto simp: trust_verify_def split: if_splits option.splits)
  have av: "av_keys v = [(strip (ck_key_id key), raw)]" using single_key_verifier [OF v] by simp
  note dv = d [unfolded attestation_verify_Inr]
  have "map_of (av_keys v) (sa_key_id a) = Some x \<Longrightarrow> x = raw" for x
    by (auto simp: av split: if_splits)
  moreover have dd: "d = attestation_digest a" "is_sha256 d" using dv by (auto simp: attestation_digest_def)
  moreover have c': "c = \<lparr>cv_attestation_digest = d, cv_trust_set_digest = lower (strip pin),
       cv_key_digest = trust_key_digest key, cv_algorithm = ck_algorithm key,
       cv_schema = CRYPTO_VERIFICATION_SCHEMA_V1\<rparr>"
    using c dd(2) by (auto simp: crypto_verification_init_def require_sha256_Inr trust_key_digest_def
        sha256_normal_text)
  moreover have "ck_algorithm key = ED25519" by (cases "ck_algorithm key")
  moreover obtain k signature where sig: "map_of (av_keys v) (sa_key_id a) = Some k"
      "b64_decode (sa_signature_b64 a) = Some signature" "ed k signature (attestation_message a)"
    using dv by blast
  ultimately have "k = raw" by blast
  then show ?thesis
    using guards trust_set_key_Inr [OF key] raw dv sig dd c' \<open>ck_algorithm key = ED25519\<close>
    by (intro exI [of _ key] exI [of _ raw] exI [of _ signature]) (auto simp: decode_public_key_Inr)
qed

lemma trust_set_roundtrip_ok:
  assumes "trust_set_ok t"
  shows "trust_set_from_dict (trust_set_dict t) = Inr t"
proof -
  obtain k ks where ks: "ct_keys t = k # ks" using assms by (cases "ct_keys t") (auto simp: trust_set_ok_def)
  have raw: "(case JList (map (\<lambda>k. JObj (trust_key_dict k)) (ct_keys t)) of JList (x # xs) \<Rightarrow> Inr (x # xs)
      | _ \<Rightarrow> raise_crypto m) = Inr (map (\<lambda>k. JObj (trust_key_dict k)) (ct_keys t))" for m
    by (simp add: ks)
  have read: "map_result key_of_json (map (\<lambda>k. JObj (trust_key_dict k)) xs) = Inr xs"
    if "\<forall>k \<in> set xs. trust_key_ok k" for xs
    using that by (induction xs) (simp_all add: key_of_json_def trust_key_roundtrip)
  have read': "map_result key_of_json (map (\<lambda>k. JObj (trust_key_dict k)) (ct_keys t)) = Inr (ct_keys t)"
    using assms by (intro read) (simp add: trust_set_ok_def)
  have prev: "opt_check (\<lambda>p. crypto_text p n) (opt_json (case ct_previous_digest t of None \<Rightarrow> JNull | Some d \<Rightarrow> JStr d)) =
      Inr (ct_previous_digest t)" for n
    using assms by (cases "ct_previous_digest t") (auto simp: opt_check_def opt_json_def sha256_text trust_set_ok_def)
  have schema: "crypto_text (JStr (ct_schema t)) n = Inr (ct_schema t)" for n
    using assms by (simp add: trust_set_ok_def crypto_text_def CRYPTO_TRUST_SET_SCHEMA_V1_def strip_def is_space_def)
  have keys: "exact_keys (trust_set_dict t) TRUST_SET_FIELDS n = Inr ()" for n
    by (rule exact_keys_same) (simp add: trust_set_dict_def trust_set_body_def TRUST_SET_FIELDS_def)
  have init: "trust_set_init \<lparr>ct_keys = ct_keys t, ct_previous_digest = ct_previous_digest t, ct_schema = ct_schema t\<rparr> = Inr t"
    using trust_set_init_fixed [OF assms] by (cases t) simp
  show ?thesis
    unfolding trust_set_from_dict_def trust_set_dict_get keys and_then_Inr raw read' prev schema init
    by (simp add: sha256_text require_sha256_fixed)
qed

lemma trust_verifier_init_Inr:
  "trust_verifier_init t pin = Inr v \<longleftrightarrow> trust_set_digest t = lower (strip pin) \<and> v = (t, trust_set_digest t)"
  using trust_set_digest_sha [of t]
  by (cases "trust_set_digest t = lower (strip pin)")
    (auto simp: trust_verifier_init_def require_sha256_Inr simp del: trust_set_digest_sha split: if_splits)

lemma find_distinct_key:
  "distinct (map f ks) \<Longrightarrow> k \<in> set ks \<Longrightarrow> find (\<lambda>x. f x = f k) ks = Some k"
  by (induction ks) (auto simp: rev_image_eqI)

lemma signed_trust_verify:
  assumes "sign_attestation_v1 t pin signer purpose subject payload issued expires nonce = Inr a"
    and "\<And>message. ed_verify (sg_public_key signer) (sg_sign signer message) message"
    and "trust_verifier_init t pin = Inr v" and "issued \<le> now" and "\<And>e. expires = Some e \<Longrightarrow> now < e"
  shows "\<exists>c. trust_verify ed_verify v a purpose subject payload now = Inr c \<and>
    cv_attestation_digest c = attestation_digest a"
proof -
  obtain key raw where key: "trust_set_key t (sg_key_id signer) = Inr key" "ck_status key = ACTIVE"
      "purpose \<in> set (ck_allowed_purposes key)" "ck_not_before key \<le> issued"
      "\<forall>r. ck_retire_at key = Some r \<longrightarrow> issued < r"
    and raw: "decode_public_key (ck_public_key_b64 key) = Inr raw" "sg_public_key signer = raw"
    and a: "attestation_sign signer purpose subject payload issued expires nonce = Inr a"
    using assms(1) by (auto simp: sign_attestation_v1_def split: if_splits option.splits)
  note sign = attestation_sign_Inr [OF a]
  have id: "ck_key_id key = sg_key_id signer" "sg_key_id signer \<noteq> []" "strip (sg_key_id signer) = sg_key_id signer"
    using key(1) by (auto simp: trust_set_key_def crypto_text_Inr find_Some_iff split: option.splits)
  let ?v = "\<lparr>av_keys = [(sg_key_id signer, raw)], av_revoked = []\<rparr>"
  have v: "attestation_verifier_init [(ck_key_id key, raw)] [] = Inr ?v"
    using id raw by (simp add: attestation_verifier_init_def load_public_key_def dict_of_def Let_def decode_public_key_Inr)
  have "attestation_verify ed_verify ?v a purpose subject payload now = Inr (attestation_digest a)"
    using sign assms(2,4,5) raw by (auto simp: attestation_verify_Inr)
  moreover have "v = (t, trust_set_digest t)" using assms(3) by (simp add: trust_verifier_init_Inr)
  ultimately show ?thesis
    using key raw sign id v
    by (cases "ck_algorithm key")
      (auto simp: trust_verify_def crypto_verification_init_fixed trust_key_digest_def attestation_digest_def
        split: option.splits)
qed

section \<open>Properties\<close>

text \<open>What the pinned trust verifier vouches for. When \<^verbatim>\<open>CryptoTrustVerifierV1\<close> accepts an
  attestation, the trust set is the one whose digest the caller pinned, and it holds an unrevoked key
  with the attestation's key identifier, allowed for the expected purpose, active when the attestation
  was issued and not yet retired then, whose 32-byte public key verifies the attestation's signature
  on its signed text; purpose, subject and payload are the expected ones and the time is inside the
  attestation's validity; and the record returned names attestation, key and trust set by digest.\<close>

theorem trust_verify_sound:
  assumes "trust_verifier_init t pin = return v"
    and "trust_verify ed_verify v a purpose subject payload now = return c"
  shows "lower (strip pin) = trust_set_digest t \<and>
    (\<exists>key raw signature. key \<in> set (ct_keys t) \<and> ck_key_id key = sa_key_id a \<and>
       purpose \<in> set (ck_allowed_purposes key) \<and> ck_status key \<noteq> REVOKED \<and>
       ck_not_before key \<le> sa_issued_at a \<and> (\<forall>r. ck_retire_at key = Some r \<longrightarrow> sa_issued_at a < r) \<and>
       ck_public_key_b64 key = b64_encode raw \<and> length raw = 32 \<and>
       b64_decode (sa_signature_b64 a) = Some signature \<and> ed_verify raw signature (attestation_message a) \<and>
       c = \<lparr>cv_attestation_digest = attestation_digest a, cv_trust_set_digest = trust_set_digest t,
             cv_key_digest = trust_key_digest key, cv_algorithm = ED25519,
             cv_schema = CRYPTO_VERIFICATION_SCHEMA_V1\<rparr>) \<and>
    sa_purpose a = purpose \<and> sa_subject_digest a = lower (strip subject) \<and>
    sa_payload_digest a = content_digest (JObj payload) \<and>
    sa_issued_at a \<le> now \<and> (\<forall>e. sa_expires_at a = Some e \<longrightarrow> now < e)"
proof -
  have v: "trust_set_digest t = lower (strip pin)" "v = (t, trust_set_digest t)"
    using assms(1) by (simp_all add: trust_verifier_init_Inr)
  show ?thesis using trust_verify_Inr [OF assms(2) [unfolded v(2)]] v(1)
    by (simp add: sha256_normal_text) blast
qed

text \<open>Trust sets survive serialisation: a trust set that its constructor returned for keys their
  constructor returned is read back from its own dictionary as itself, digest check included.\<close>

theorem trust_set_roundtrip:
  assumes "trust_set_init t0 = return t" and "\<forall>k \<in> set (ct_keys t0). \<exists>k0. trust_key_init k0 = return k"
  shows "trust_set_from_dict (trust_set_dict t) = return t"
  using assms by (intro trust_set_roundtrip_ok trust_set_init_ok) (auto dest: trust_key_init_ok)

text \<open>C39: Key rotation has no cycles: in a trust set that was constructed, following predecessors never
  returns to the key it started from.\<close>

theorem predecessor_chain_acyclic:
  assumes "trust_set_init t0 = return t" and "\<forall>k \<in> set (ct_keys t0). \<exists>k0. trust_key_init k0 = return k"
  shows "acyclic {(k, k'). k \<in> set (ct_keys t) \<and> k' \<in> set (ct_keys t) \<and>
    ck_predecessor_key_id k = Some (ck_key_id k')}"
proof -
  have ok: "trust_set_ok t" using assms by (intro trust_set_init_ok) (auto dest: trust_key_init_ok)
  show ?thesis
    by (rule acyclicI_order [where f = "\<lambda>k. ck_not_before k"])
      (use ok in \<open>fastforce simp: trust_set_ok_def distinct_map dest: inj_onD\<close>)
qed

text \<open>What is signed under a trust set verifies under it: an attestation that
  \<^verbatim>\<open>sign_attestation_v1\<close> returns is accepted by the verifier pinned to the same trust set, for the
  same purpose, subject and payload and at every time from its issue to before its expiry. The
  hypothesis on the signature primitive is its documented correctness: a signature made with the
  private key verifies under the signer's public key.\<close>

theorem signed_under_trust_set_verifies:
  assumes "sign_attestation_v1 t pin signer purpose subject payload issued expires nonce = return a"
    and "\<And>message. ed_verify (sg_public_key signer) (sg_sign signer message) message"
    and "trust_verifier_init t pin = return v"
    and "issued \<le> now" and "\<And>e. expires = Some e \<Longrightarrow> now < e"
  shows "\<exists>c. trust_verify ed_verify v a purpose subject payload now = return c \<and>
    cv_attestation_digest c = attestation_digest a"
  by (rule signed_trust_verify) (fact assms)+

section \<open>Witnesses\<close>

definition sample_key :: trust_key where
  "sample_key = \<lparr>ck_key_id = ''k'', ck_algorithm = ED25519, ck_public_key_b64 = b64_encode (replicate 32 0),
     ck_status = ACTIVE, ck_not_before = 1, ck_allowed_purposes = [RELEASE], ck_retire_at = Some 20,
     ck_predecessor_key_id = Some ''old'', ck_schema = CRYPTO_TRUST_KEY_SCHEMA_V1\<rparr>"

definition old_key :: trust_key where
  "old_key = \<lparr>ck_key_id = ''old'', ck_algorithm = ED25519, ck_public_key_b64 = b64_encode (replicate 32 1),
     ck_status = REVOKED, ck_not_before = 0, ck_allowed_purposes = [RELEASE], ck_retire_at = None,
     ck_predecessor_key_id = None, ck_schema = CRYPTO_TRUST_KEY_SCHEMA_V1\<rparr>"

definition sample_trust :: trust_set where
  "sample_trust = \<lparr>ct_keys = [sample_key, old_key], ct_previous_digest = None, ct_schema = CRYPTO_TRUST_SET_SCHEMA_V1\<rparr>"

lemma sample_keys_init: "\<forall>k \<in> set (ct_keys sample_trust). \<exists>k0. trust_key_init k0 = return k"
proof -
  have "trust_key_init sample_key = return sample_key" "trust_key_init old_key = return old_key" by code_simp+
  then show ?thesis by (auto simp: sample_trust_def)
qed

lemma sample_trust_init: "trust_set_init sample_trust = return sample_trust"
  by code_simp

lemma sample_pin: "trust_verifier_init sample_trust (trust_set_digest sample_trust) =
    return (sample_trust, trust_set_digest sample_trust)"
  by (simp add: trust_verifier_init_Inr sha256_normal_text)

lemma sample_decode: "decode_public_key (ck_public_key_b64 sample_key) = return (replicate 32 0)"
  by (simp add: decode_public_key_Inr sample_key_def del: replicate.simps)

lemma sample_trust_key: "trust_set_key sample_trust ''k'' = return sample_key"
  by (simp add: trust_set_key_def crypto_text_def sample_key_text sample_trust_def) (simp add: sample_key_def)

lemma sample_trust_signed:
  "sign_attestation_v1 sample_trust (trust_set_digest sample_trust) sample_signer RELEASE (replicate 64 (CHR ''a'')) []
     5 (Some 9) ''n'' = return sample_attestation"
proof -
  have "sg_key_id sample_signer = ''k''" "sg_public_key sample_signer = replicate 32 0"
    by (simp_all add: sample_signer_def)
  moreover have "ck_status sample_key = ACTIVE" "ck_allowed_purposes sample_key = [RELEASE]"
    "ck_not_before sample_key = 1" "ck_retire_at sample_key = Some 20" by (simp_all add: sample_key_def)
  ultimately show ?thesis
    by (simp add: sign_attestation_v1_def sample_pin sample_trust_key sample_decode sample_signed del: replicate.simps)
qed

lemma signed_under_trust_set_verifies_witness:
  "\<exists>c. trust_verify echo_verify (sample_trust, trust_set_digest sample_trust) sample_attestation RELEASE
     (replicate 64 (CHR ''a'')) [] 7 = return c"
proof -
  have "echo_verify (sg_public_key sample_signer) (sg_sign sample_signer m) m" for m
    by (simp add: echo_verify_def sample_signer_def)
  from signed_under_trust_set_verifies [where ed_verify = echo_verify, OF sample_trust_signed this sample_pin]
  have "\<exists>c. trust_verify echo_verify (sample_trust, trust_set_digest sample_trust) sample_attestation RELEASE
     (replicate 64 (CHR ''a'')) [] 7 = return c \<and> cv_attestation_digest c = attestation_digest sample_attestation" by simp
  then show ?thesis by blast
qed

lemma trust_verify_sound_witness:
  "\<exists>key \<in> set (ct_keys sample_trust). ck_key_id key = ''k'' \<and> ck_status key \<noteq> REVOKED"
proof -
  have "attestation_verifier_init [(ck_key_id sample_key, replicate 32 0)] [] = return sample_verifier"
    using sample_verifier_init by (simp add: sample_signer_def sample_key_def)
  moreover have "sa_key_id sample_attestation = ''k''" "sa_issued_at sample_attestation = 5"
    by (simp_all add: sample_attestation_def sample_unsigned_def)
  moreover have "ck_status sample_key = ACTIVE" "ck_allowed_purposes sample_key = [RELEASE]"
    "ck_not_before sample_key = 1" "ck_retire_at sample_key = Some 20" "ck_algorithm sample_key = ED25519"
    by (simp_all add: sample_key_def)
  ultimately have "\<exists>c. trust_verify echo_verify (sample_trust, trust_set_digest sample_trust) sample_attestation RELEASE
     (replicate 64 (CHR ''a'')) [] 7 = return c"
    by (simp add: trust_verify_def sample_trust_key sample_decode sample_verified crypto_verification_init_fixed
        trust_key_digest_def attestation_digest_def del: replicate.simps)
  then show ?thesis using trust_verify_sound [OF sample_pin] by (metis \<open>sa_key_id sample_attestation = ''k''\<close>)
qed

lemma trust_set_roundtrip_witness: "trust_set_from_dict (trust_set_dict sample_trust) = return sample_trust"
  by (rule trust_set_roundtrip [OF sample_trust_init sample_keys_init])

lemma predecessor_chain_acyclic_witness:
  "acyclic {(k, k'). k \<in> set (ct_keys sample_trust) \<and> k' \<in> set (ct_keys sample_trust) \<and>
     ck_predecessor_key_id k = Some (ck_key_id k')}"
  by (rule predecessor_chain_acyclic [OF sample_trust_init sample_keys_init])

end
