(* ===== verification/NS_Crypto_Identity.thy ===== *)
theory NS_Crypto_Identity
  imports NS_Verification Crypto_Agility
begin

text \<open>
  Cryptographic identities of automation, \<^verbatim>\<open>core/night_shift/crypto_identity.py\<close>: the two signatures
  on a verification bundle, by builder and reviewer, and the signature on an execution receipt, made
  and verified under a pinned crypto trust set.
\<close>

definition VERIFICATION_SIGNATURE_SCHEMA :: string where
  "VERIFICATION_SIGNATURE_SCHEMA = ''night-shift-verification-signature/v1''"

definition RECEIPT_SIGNATURE_SCHEMA :: string where
  "RECEIPT_SIGNATURE_SCHEMA = ''night-shift-receipt-signature/v1''"

text \<open>\<^verbatim>\<open>except CryptoAgilityV1Error as exc: raise NightShiftContractError(str(exc))\<close>.\<close>

fun crypto_as_ns :: "'a result \<Rightarrow> 'a result" where
  "crypto_as_ns (Inl (CryptoAgilityV1Error msg)) = raise_ns msg"
| "crypto_as_ns r = r"

section \<open>Signed artifacts\<close>

record signed_bundle =
  sb_trust_set_digest :: string
  sb_builder_attestation :: signed_attestation
  sb_reviewer_attestation :: signed_attestation

definition signed_bundle_init :: "signed_bundle \<Rightarrow> signed_bundle result" where
  "signed_bundle_init s =
     and_then (ns_sha (sb_trust_set_digest s) ''trust_set_digest'') (\<lambda>trust.
     if sa_key_id (sb_builder_attestation s) = sa_key_id (sb_reviewer_attestation s)
     then raise_ns ''builder and reviewer cryptographic identities must differ''
     else return (s\<lparr>sb_trust_set_digest := trust\<rparr>))"

definition signed_bundle_dict :: "signed_bundle \<Rightarrow> (string \<times> json) list" where
  "signed_bundle_dict s =
    [(''schema'', JStr VERIFICATION_SIGNATURE_SCHEMA),
     (''trust_set_digest'', JStr (sb_trust_set_digest s)),
     (''builder_attestation'', JObj (attestation_dict (sb_builder_attestation s))),
     (''reviewer_attestation'', JObj (attestation_dict (sb_reviewer_attestation s)))]"

definition signed_bundle_digest :: "signed_bundle \<Rightarrow> string" where
  "signed_bundle_digest s = content_digest (JObj (signed_bundle_dict s))"

record crypto_context =
  cc_bundle :: verification_bundle
  cc_signed :: signed_bundle
  cc_trust_set :: trust_set
  cc_expected_trust_set_digest :: string

definition crypto_context_init :: "crypto_context \<Rightarrow> crypto_context result" where
  "crypto_context_init c =
     and_then (ns_sha (cc_expected_trust_set_digest c) ''expected_trust_set_digest'') (\<lambda>expected.
     if sb_trust_set_digest (cc_signed c) \<noteq> expected
     then raise_ns ''signed verification trust-set identity mismatch''
     else return (c\<lparr>cc_expected_trust_set_digest := expected\<rparr>))"

record verified_signatures =
  vs_bundle_digest :: string
  vs_trust_set_digest :: string
  vs_builder_key_id :: string
  vs_reviewer_key_id :: string
  vs_builder_verification_digest :: string
  vs_reviewer_verification_digest :: string
  vs_valid_until_epoch :: int

definition verified_signatures_init :: "verified_signatures \<Rightarrow> verified_signatures result" where
  "verified_signatures_init v =
     and_then (ns_sha (vs_bundle_digest v) ''bundle_digest'') (\<lambda>bundle.
     and_then (ns_sha (vs_trust_set_digest v) ''trust_set_digest'') (\<lambda>trust.
     and_then (ns_sha (vs_builder_verification_digest v) ''builder_verification_digest'') (\<lambda>builder.
     and_then (ns_sha (vs_reviewer_verification_digest v) ''reviewer_verification_digest'') (\<lambda>reviewer.
     if strip (vs_builder_key_id v) = [] \<or> strip (vs_reviewer_key_id v) = []
     then raise_ns ''cryptographic key identities are required''
     else if vs_builder_key_id v = vs_reviewer_key_id v
     then raise_ns ''builder and reviewer cryptographic identities must differ''
     else if vs_valid_until_epoch v < 0 then raise_ns ''cryptographic verification expiry cannot be negative''
     else return (v\<lparr>vs_bundle_digest := bundle, vs_trust_set_digest := trust,
       vs_builder_verification_digest := builder, vs_reviewer_verification_digest := reviewer\<rparr>)))))"

definition verified_signatures_dict :: "verified_signatures \<Rightarrow> (string \<times> json) list" where
  "verified_signatures_dict v =
    [(''schema'', JStr VERIFICATION_SIGNATURE_SCHEMA),
     (''bundle_digest'', JStr (vs_bundle_digest v)),
     (''trust_set_digest'', JStr (vs_trust_set_digest v)),
     (''builder_key_id'', JStr (vs_builder_key_id v)),
     (''reviewer_key_id'', JStr (vs_reviewer_key_id v)),
     (''builder_verification_digest'', JStr (vs_builder_verification_digest v)),
     (''reviewer_verification_digest'', JStr (vs_reviewer_verification_digest v)),
     (''valid_until_epoch'', JInt (vs_valid_until_epoch v))]"

definition verified_signatures_digest :: "verified_signatures \<Rightarrow> string" where
  "verified_signatures_digest v = content_digest (JObj (verified_signatures_dict v))"

record signed_receipt =
  sr_trust_set_digest :: string
  sr_signer_identity :: string
  sr_attestation :: signed_attestation

definition signed_receipt_init :: "signed_receipt \<Rightarrow> signed_receipt result" where
  "signed_receipt_init s =
     and_then (ns_sha (sr_trust_set_digest s) ''trust_set_digest'') (\<lambda>trust.
     let signer = strip (sr_signer_identity s) in
     if signer = [] then raise_ns ''receipt signer identity is required''
     else if sa_key_id (sr_attestation s) \<noteq> signer
     then raise_ns ''receipt attestation key does not match signer identity''
     else return (s\<lparr>sr_trust_set_digest := trust, sr_signer_identity := signer\<rparr>))"

definition signed_receipt_dict :: "signed_receipt \<Rightarrow> (string \<times> json) list" where
  "signed_receipt_dict s =
    [(''schema'', JStr RECEIPT_SIGNATURE_SCHEMA),
     (''trust_set_digest'', JStr (sr_trust_set_digest s)),
     (''signer_identity'', JStr (sr_signer_identity s)),
     (''attestation'', JObj (attestation_dict (sr_attestation s)))]"

definition signed_receipt_digest :: "signed_receipt \<Rightarrow> string" where
  "signed_receipt_digest s = content_digest (JObj (signed_receipt_dict s))"

record canary_context =
  kc_verification :: crypto_context
  kc_receipt_signer :: attestation_signer
  kc_receipt_signer_identity :: string

definition canary_context_init :: "canary_context \<Rightarrow> canary_context result" where
  "canary_context_init c =
     (let identity = strip (kc_receipt_signer_identity c) in
      if identity = [] then raise_ns ''receipt signer identity is required''
      else if sg_key_id (kc_receipt_signer c) \<noteq> identity
      then raise_ns ''receipt signer key does not match declared identity''
      else return (c\<lparr>kc_receipt_signer_identity := identity\<rparr>))"

section \<open>Signing and verifying a bundle\<close>

definition verification_payload ::
  "verification_bundle \<Rightarrow> string \<Rightarrow> string \<Rightarrow> string \<Rightarrow> int \<Rightarrow> (string \<times> json) list result" where
  "verification_payload bundle role identity quorum_digest valid_until =
     and_then (ns_sha quorum_digest ''quorum_digest'') (\<lambda>quorum.
     return
      [(''schema'', JStr VERIFICATION_SIGNATURE_SCHEMA),
       (''artifact'', JStr ''verification_bundle''),
       (''role'', JStr role),
       (''identity'', JStr identity),
       (''bundle_digest'', JStr (verification_bundle_digest bundle)),
       (''quorum_digest'', JStr quorum),
       (''subject_sha'', JStr (vb_subject_sha bundle)),
       (''task_capsule_digest'', JStr (vb_task_capsule_digest bundle)),
       (''evidence_valid_until_epoch'', JInt valid_until)])"

definition sign_verification_bundle ::
  "verification_bundle \<Rightarrow> string \<Rightarrow> int \<Rightarrow> trust_set \<Rightarrow> string \<Rightarrow> attestation_signer \<Rightarrow> attestation_signer \<Rightarrow>
   int \<Rightarrow> string \<Rightarrow> signed_bundle result" where
  "sign_verification_bundle bundle quorum_digest valid_until t expected_digest builder_signer reviewer_signer
     issued_at nonce_prefix =
     and_then (ns_sha expected_digest ''expected_trust_set_digest'') (\<lambda>expected.
     if trust_set_digest t \<noteq> expected then raise_ns ''crypto trust-set identity mismatch''
     else if sg_key_id builder_signer \<noteq> vb_builder_identity bundle
     then raise_ns ''builder signing key does not match declared builder identity''
     else if sg_key_id reviewer_signer \<noteq> vb_reviewer_identity bundle
     then raise_ns ''reviewer signing key does not match declared reviewer identity''
     else if issued_at \<ge> valid_until
     then raise_ns ''cannot sign verification bundle at or after evidence expiry''
     else let nonce = strip nonce_prefix in
     if nonce = [] then raise_ns ''verification signature nonce prefix is required''
     else and_then (verification_payload bundle ''builder'' (vb_builder_identity bundle) quorum_digest valid_until)
       (\<lambda>builder_payload.
     and_then (verification_payload bundle ''reviewer'' (vb_reviewer_identity bundle) quorum_digest valid_until)
       (\<lambda>reviewer_payload.
     and_then (crypto_as_ns (and_then (sign_attestation_v1 t expected builder_signer PROVENANCE
         (verification_bundle_digest bundle) builder_payload issued_at (Some valid_until) (nonce @ '':builder'')) (\<lambda>builder.
       and_then (sign_attestation_v1 t expected reviewer_signer SECURITY_REVIEW
         (verification_bundle_digest bundle) reviewer_payload issued_at (Some valid_until) (nonce @ '':reviewer''))
         (\<lambda>reviewer. return (builder, reviewer))))) (\<lambda>(builder, reviewer).
     signed_bundle_init \<lparr>sb_trust_set_digest = expected, sb_builder_attestation = builder,
       sb_reviewer_attestation = reviewer\<rparr>))))"

definition verify_bundle_signatures ::
  "(byte list \<Rightarrow> byte list \<Rightarrow> byte list \<Rightarrow> bool) \<Rightarrow> crypto_context \<Rightarrow> string \<Rightarrow> int \<Rightarrow> int \<Rightarrow>
   verified_signatures result" where
  "verify_bundle_signatures ed_verify c quorum_digest valid_until now =
     (let bundle = cc_bundle c; signed_r = cc_signed c in
      if sa_key_id (sb_builder_attestation signed_r) \<noteq> vb_builder_identity bundle
      then raise_ns ''builder attestation key does not match declared builder identity''
      else if sa_key_id (sb_reviewer_attestation signed_r) \<noteq> vb_reviewer_identity bundle
      then raise_ns ''reviewer attestation key does not match declared reviewer identity''
      else if sa_expires_at (sb_builder_attestation signed_r) \<noteq> Some valid_until \<or>
        sa_expires_at (sb_reviewer_attestation signed_r) \<noteq> Some valid_until
      then raise_ns ''verification signature expiry does not match evidence lifetime''
      else and_then (verification_payload bundle ''builder'' (vb_builder_identity bundle) quorum_digest valid_until)
        (\<lambda>builder_payload.
      and_then (verification_payload bundle ''reviewer'' (vb_reviewer_identity bundle) quorum_digest valid_until)
        (\<lambda>reviewer_payload.
      and_then (crypto_as_ns (and_then (trust_verifier_init (cc_trust_set c) (cc_expected_trust_set_digest c)) (\<lambda>verifier.
        and_then (trust_verify ed_verify verifier (sb_builder_attestation signed_r) PROVENANCE
          (verification_bundle_digest bundle) builder_payload now) (\<lambda>builder.
        and_then (trust_verify ed_verify verifier (sb_reviewer_attestation signed_r) SECURITY_REVIEW
          (verification_bundle_digest bundle) reviewer_payload now) (\<lambda>reviewer.
        return (builder, reviewer)))))) (\<lambda>(builder, reviewer).
      verified_signatures_init \<lparr>vs_bundle_digest = verification_bundle_digest bundle,
        vs_trust_set_digest = cc_expected_trust_set_digest c,
        vs_builder_key_id = vb_builder_identity bundle, vs_reviewer_key_id = vb_reviewer_identity bundle,
        vs_builder_verification_digest = verification_digest builder,
        vs_reviewer_verification_digest = verification_digest reviewer,
        vs_valid_until_epoch = valid_until\<rparr>))))"

section \<open>Signing and verifying a receipt\<close>

definition receipt_payload :: "execution_receipt \<Rightarrow> (string \<times> json) list" where
  "receipt_payload r =
    [(''schema'', JStr RECEIPT_SIGNATURE_SCHEMA),
     (''artifact'', JStr ''execution_receipt''),
     (''receipt_digest'', JStr (execution_receipt_digest r)),
     (''receipt'', JObj (execution_receipt_dict r))]"

definition sign_execution_receipt ::
  "execution_receipt \<Rightarrow> trust_set \<Rightarrow> string \<Rightarrow> attestation_signer \<Rightarrow> string \<Rightarrow> int \<Rightarrow> int \<Rightarrow> string \<Rightarrow>
   signed_receipt result" where
  "sign_execution_receipt receipt t expected_digest signer signer_identity issued_at expires_at nonce =
     (let identity = strip signer_identity in
      if sg_key_id signer \<noteq> identity then raise_ns ''receipt signer key does not match declared identity''
      else if issued_at \<ge> expires_at then raise_ns ''cannot sign execution receipt at or after signature expiry''
      else and_then (crypto_as_ns (sign_attestation_v1 t expected_digest signer PROVENANCE
        (execution_receipt_digest receipt) (receipt_payload receipt) issued_at (Some expires_at) nonce)) (\<lambda>attestation.
      signed_receipt_init \<lparr>sr_trust_set_digest = expected_digest, sr_signer_identity = identity,
        sr_attestation = attestation\<rparr>))"

definition verify_receipt_signature ::
  "(byte list \<Rightarrow> byte list \<Rightarrow> byte list \<Rightarrow> bool) \<Rightarrow> execution_receipt \<Rightarrow> signed_receipt \<Rightarrow> trust_set \<Rightarrow> string \<Rightarrow>
   string \<Rightarrow> int \<Rightarrow> crypto_verification result" where
  "verify_receipt_signature ed_verify receipt signed_r t expected_digest expected_signer now =
     and_then (ns_sha expected_digest ''expected_trust_set_digest'') (\<lambda>expected.
     let identity = strip expected_signer in
     if sr_trust_set_digest signed_r \<noteq> expected then raise_ns ''receipt trust-set identity mismatch''
     else if sr_signer_identity signed_r \<noteq> identity then raise_ns ''receipt signer identity mismatch''
     else if sa_key_id (sr_attestation signed_r) \<noteq> identity then raise_ns ''receipt attestation key identity mismatch''
     else crypto_as_ns (and_then (trust_verifier_init t expected) (\<lambda>verifier.
       trust_verify ed_verify verifier (sr_attestation signed_r) PROVENANCE (execution_receipt_digest receipt)
         (receipt_payload receipt) now)))"

section \<open>Laws\<close>

lemma crypto_as_ns_Inr [simp]: "crypto_as_ns r = Inr x \<longleftrightarrow> r = Inr x"
  by (cases r rule: crypto_as_ns.cases) auto

text \<open>What an accepted attestation under a pinned trust set vouches for.\<close>

definition vouches ::
  "(byte list \<Rightarrow> byte list \<Rightarrow> byte list \<Rightarrow> bool) \<Rightarrow> trust_set \<Rightarrow> signed_attestation \<Rightarrow> attestation_purpose \<Rightarrow>
   string \<Rightarrow> (string \<times> json) list \<Rightarrow> int \<Rightarrow> bool" where
  "vouches ed t a purpose subject payload now =
     ((\<exists>key raw signature. key \<in> set (ct_keys t) \<and> ck_key_id key = sa_key_id a \<and>
         purpose \<in> set (ck_allowed_purposes key) \<and> ck_status key \<noteq> REVOKED \<and>
         ck_not_before key \<le> sa_issued_at a \<and> (\<forall>r. ck_retire_at key = Some r \<longrightarrow> sa_issued_at a < r) \<and>
         ck_public_key_b64 key = b64_encode raw \<and> length raw = 32 \<and>
         b64_decode (sa_signature_b64 a) = Some signature \<and> ed raw signature (attestation_message a)) \<and>
      sa_purpose a = purpose \<and> sa_subject_digest a = subject \<and> sa_payload_digest a = content_digest (JObj payload) \<and>
      sa_issued_at a \<le> now \<and> (\<forall>e. sa_expires_at a = Some e \<longrightarrow> now < e))"

lemma trust_verify_vouches:
  assumes "trust_verify ed (t, pin) a purpose subject payload now = Inr c" "is_sha256 subject"
  shows "vouches ed t a purpose subject payload now"
  using trust_verify_Inr [OF assms(1)] sha256_normal_text [OF assms(2)] unfolding vouches_def by auto

lemma verification_payload_Inr:
  "verification_payload b role identity q v = Inr p \<longleftrightarrow> is_sha256 (lower (strip q)) \<and>
     p = [(''schema'', JStr VERIFICATION_SIGNATURE_SCHEMA), (''artifact'', JStr ''verification_bundle''),
       (''role'', JStr role), (''identity'', JStr identity), (''bundle_digest'', JStr (verification_bundle_digest b)),
       (''quorum_digest'', JStr (lower (strip q))), (''subject_sha'', JStr (vb_subject_sha b)),
       (''task_capsule_digest'', JStr (vb_task_capsule_digest b)), (''evidence_valid_until_epoch'', JInt v)]"
  by (auto simp: verification_payload_def ns_sha_Inr)

lemma verify_bundle_signatures_Inr:
  assumes "verify_bundle_signatures ed c q valid_until now = Inr v"
  shows "trust_set_digest (cc_trust_set c) = lower (strip (cc_expected_trust_set_digest c)) \<and>
    sa_key_id (sb_builder_attestation (cc_signed c)) = vb_builder_identity (cc_bundle c) \<and>
    sa_key_id (sb_reviewer_attestation (cc_signed c)) = vb_reviewer_identity (cc_bundle c) \<and>
    vb_builder_identity (cc_bundle c) \<noteq> vb_reviewer_identity (cc_bundle c) \<and> now < valid_until \<and>
    (\<exists>p p'. verification_payload (cc_bundle c) ''builder'' (vb_builder_identity (cc_bundle c)) q valid_until = Inr p \<and>
       verification_payload (cc_bundle c) ''reviewer'' (vb_reviewer_identity (cc_bundle c)) q valid_until = Inr p' \<and>
       vouches ed (cc_trust_set c) (sb_builder_attestation (cc_signed c)) PROVENANCE
         (verification_bundle_digest (cc_bundle c)) p now \<and>
       vouches ed (cc_trust_set c) (sb_reviewer_attestation (cc_signed c)) SECURITY_REVIEW
         (verification_bundle_digest (cc_bundle c)) p' now)"
proof -
  let ?b = "sb_builder_attestation (cc_signed c)" and ?r = "sb_reviewer_attestation (cc_signed c)"
  obtain p p' verifier builder reviewer where
    ids: "sa_key_id ?b = vb_builder_identity (cc_bundle c)" "sa_key_id ?r = vb_reviewer_identity (cc_bundle c)"
      "sa_expires_at ?b = Some valid_until"
    and p: "verification_payload (cc_bundle c) ''builder'' (vb_builder_identity (cc_bundle c)) q valid_until = Inr p"
      "verification_payload (cc_bundle c) ''reviewer'' (vb_reviewer_identity (cc_bundle c)) q valid_until = Inr p'"
    and v: "trust_verifier_init (cc_trust_set c) (cc_expected_trust_set_digest c) = Inr verifier"
    and b: "trust_verify ed verifier ?b PROVENANCE (verification_bundle_digest (cc_bundle c)) p now = Inr builder"
    and r: "trust_verify ed verifier ?r SECURITY_REVIEW (verification_bundle_digest (cc_bundle c)) p' now = Inr reviewer"
    and keys: "vb_builder_identity (cc_bundle c) \<noteq> vb_reviewer_identity (cc_bundle c)"
    using assms by (auto simp: verify_bundle_signatures_def verified_signatures_init_def Let_def split: if_splits)
  note v' = v [unfolded trust_verifier_init_Inr]
  have "vouches ed (cc_trust_set c) ?b PROVENANCE (verification_bundle_digest (cc_bundle c)) p now"
    "vouches ed (cc_trust_set c) ?r SECURITY_REVIEW (verification_bundle_digest (cc_bundle c)) p' now"
    using b r v' by (auto intro: trust_verify_vouches)
  moreover from this have "now < valid_until" using ids(3) by (auto simp: vouches_def)
  ultimately show ?thesis using ids p v' keys by blast
qed

lemma sign_attestation_v1_frame:
  assumes "sign_attestation_v1 t pin signer purpose subject payload issued expires nonce = Inr a"
  shows "sa_key_id a = sg_key_id signer" "sa_expires_at a = expires" "0 \<le> issued"
  using assms by (auto simp: sign_attestation_v1_def dest!: attestation_sign_Inr split: if_splits option.splits)

lemma verification_digest_sha [simp]: "is_sha256 (verification_digest c)"
  by (simp add: verification_digest_def)

lemma verified_signatures_init_fixed:
  assumes "is_sha256 b" "is_sha256 t" "is_text i" "is_text j" "i \<noteq> j" "0 \<le> n"
  shows "verified_signatures_init \<lparr>vs_bundle_digest = b, vs_trust_set_digest = t, vs_builder_key_id = i,
      vs_reviewer_key_id = j, vs_builder_verification_digest = verification_digest x,
      vs_reviewer_verification_digest = verification_digest y, vs_valid_until_epoch = n\<rparr> =
    Inr \<lparr>vs_bundle_digest = b, vs_trust_set_digest = t, vs_builder_key_id = i,
      vs_reviewer_key_id = j, vs_builder_verification_digest = verification_digest x,
      vs_reviewer_verification_digest = verification_digest y, vs_valid_until_epoch = n\<rparr>"
  using assms by (auto simp: verified_signatures_init_def is_text_def strip_id)

text \<open>What both signers sign verifies, for the quorum and the lifetime it was signed for.\<close>

lemma signed_bundle_verified:
  assumes "bundle_ok b"
    and sign: "sign_verification_bundle b q valid t pin builder reviewer issued nonce = Inr s"
    and "\<And>m. ed_verify (sg_public_key builder) (sg_sign builder m) m"
    and "\<And>m. ed_verify (sg_public_key reviewer) (sg_sign reviewer m) m"
    and "issued \<le> now" "now < valid"
  shows "\<exists>v. verify_bundle_signatures ed_verify \<lparr>cc_bundle = b, cc_signed = s, cc_trust_set = t,
      cc_expected_trust_set_digest = sb_trust_set_digest s\<rparr> q valid now = Inr v \<and>
    vs_bundle_digest v = verification_bundle_digest b \<and> vs_trust_set_digest v = trust_set_digest t"
proof -
  let ?pin = "lower (strip pin)"
  obtain p p' x y where p: "verification_payload b ''builder'' (vb_builder_identity b) q valid = Inr p"
      "verification_payload b ''reviewer'' (vb_reviewer_identity b) q valid = Inr p'"
    and x: "sign_attestation_v1 t ?pin builder PROVENANCE (verification_bundle_digest b) p issued (Some valid)
        (strip nonce @ '':builder'') = Inr x"
    and y: "sign_attestation_v1 t ?pin reviewer SECURITY_REVIEW (verification_bundle_digest b) p' issued (Some valid)
        (strip nonce @ '':reviewer'') = Inr y"
    and ids: "sg_key_id builder = vb_builder_identity b" "sg_key_id reviewer = vb_reviewer_identity b"
      "trust_set_digest t = ?pin"
    and s: "signed_bundle_init \<lparr>sb_trust_set_digest = ?pin, sb_builder_attestation = x, sb_reviewer_attestation = y\<rparr>
      = Inr s"
    using sign by (auto simp: sign_verification_bundle_def Let_def ns_sha_Inr split: if_splits)
  have pin: "?pin = trust_set_digest t" using ids(3) by simp
  have s': "s = \<lparr>sb_trust_set_digest = trust_set_digest t, sb_builder_attestation = x, sb_reviewer_attestation = y\<rparr>"
    using s unfolding pin by (auto simp: signed_bundle_init_def split: if_splits)
  have v: "trust_verifier_init t (trust_set_digest t) = Inr (t, trust_set_digest t)"
    by (simp add: trust_verifier_init_Inr sha256_normal_text)
  obtain c d where "trust_verify ed_verify (t, trust_set_digest t) x PROVENANCE (verification_bundle_digest b) p now = Inr c"
      "trust_verify ed_verify (t, trust_set_digest t) y SECURITY_REVIEW (verification_bundle_digest b) p' now = Inr d"
    using signed_trust_verify [where ed_verify = ed_verify, OF x [unfolded pin] assms(3) v assms(5)]
      signed_trust_verify [where ed_verify = ed_verify, OF y [unfolded pin] assms(4) v assms(5)] assms(6) by auto
  moreover have "is_text (vb_builder_identity b)" "is_text (vb_reviewer_identity b)"
    "vb_builder_identity b \<noteq> vb_reviewer_identity b" using assms(1) by (simp_all add: bundle_ok_def)
  moreover have "0 \<le> valid" using sign_attestation_v1_frame(3) [OF x] assms(5,6) by simp
  ultimately show ?thesis
    using sign_attestation_v1_frame [OF x] sign_attestation_v1_frame [OF y] ids(1,2) p v
    by (simp add: verify_bundle_signatures_def s' verified_signatures_init_fixed Let_def)
qed

section \<open>Properties\<close>

text \<open>What builder and reviewer sign for a verification bundle verifies: with the signed bundle that
  \<^verbatim>\<open>sign_verification_bundle\<close> returns for a constructed bundle, verification under the same trust
  set, quorum and expiry returns at every time from the issue to before the expiry, and names that
  bundle and that trust set. The hypotheses on the primitive are its documented correctness for the
  two signers' keys.\<close>

theorem signed_bundle_verifies:
  assumes "verification_bundle_init b0 = return b"
    and "sign_verification_bundle b q valid t pin builder reviewer issued nonce = return s"
    and "\<And>m. ed_verify (sg_public_key builder) (sg_sign builder m) m"
    and "\<And>m. ed_verify (sg_public_key reviewer) (sg_sign reviewer m) m"
    and "issued \<le> now" "now < valid"
  shows "\<exists>v. verify_bundle_signatures ed_verify \<lparr>cc_bundle = b, cc_signed = s, cc_trust_set = t,
      cc_expected_trust_set_digest = sb_trust_set_digest s\<rparr> q valid now = return v \<and>
    vs_bundle_digest v = verification_bundle_digest b \<and> vs_trust_set_digest v = trust_set_digest t"
  using assms by (intro signed_bundle_verified verification_bundle_init_ok)

section \<open>Sample inputs\<close>

definition signing_key :: "string \<Rightarrow> byte \<Rightarrow> attestation_purpose \<Rightarrow> trust_key" where
  "signing_key i x purpose = \<lparr>ck_key_id = i, ck_algorithm = ED25519, ck_public_key_b64 = b64_encode (replicate 32 x),
     ck_status = ACTIVE, ck_not_before = 1, ck_allowed_purposes = [purpose], ck_retire_at = None,
     ck_predecessor_key_id = None, ck_schema = CRYPTO_TRUST_KEY_SCHEMA_V1\<rparr>"

definition signing_trust :: trust_set where
  "signing_trust = \<lparr>ct_keys = [signing_key ''b'' 0 PROVENANCE, signing_key ''r'' 1 SECURITY_REVIEW],
     ct_previous_digest = None, ct_schema = CRYPTO_TRUST_SET_SCHEMA_V1\<rparr>"

definition echo_signer :: "string \<Rightarrow> byte \<Rightarrow> attestation_signer" where
  "echo_signer i x = \<lparr>sg_key_id = i, sg_public_key = replicate 32 x, sg_sign = (\<lambda>m. m)\<rparr>"

lemma echo_signer_verifies: "echo_verify (sg_public_key (echo_signer i x)) (sg_sign (echo_signer i x) m) m"
  by (simp add: echo_verify_def echo_signer_def)

lemma signing_trust_keys:
  "trust_set_key signing_trust ''b'' = return (signing_key ''b'' 0 PROVENANCE)"
  "trust_set_key signing_trust ''r'' = return (signing_key ''r'' 1 SECURITY_REVIEW)"
  by (simp_all add: trust_set_key_def crypto_text_def signing_trust_def signing_key_def strip_def is_space_def
      del: replicate.simps)

lemma sample_sign:
  assumes "trust_set_key signing_trust i = return (signing_key i x purpose)" "is_sha256 subject" "nonce \<noteq> []" "stripped nonce"
  shows "\<exists>a. sign_attestation_v1 signing_trust (trust_set_digest signing_trust) (echo_signer i x) purpose subject
    payload 6 (Some 15) nonce = return a \<and> sa_key_id a = i"
proof -
  have "decode_public_key (b64_encode (replicate 32 x)) = return (replicate 32 x)"
    by (simp add: decode_public_key_Inr del: replicate.simps)
  then show ?thesis using assms
    by (simp add: sign_attestation_v1_def trust_verifier_init_Inr sha256_normal_text echo_signer_def signing_key_def
        attestation_sign_def require_sha256_fixed Let_def strip_id del: replicate.simps)
qed

lemma sample_bundle_signed:
  assumes "is_sha256 q"
  shows "\<exists>s. sign_verification_bundle sample_bundle q 15 signing_trust (trust_set_digest signing_trust)
    (echo_signer ''b'' 0) (echo_signer ''r'' 1) 6 ''n'' = return s"
proof -
  obtain p p' where p: "verification_payload sample_bundle ''builder'' ''b'' q 15 = return p"
      "verification_payload sample_bundle ''reviewer'' ''r'' q 15 = return p'"
    using assms by (simp add: verification_payload_def)
  have n: "strip ''n'' = ''n''" "stripped ''n:builder''" "stripped ''n:reviewer''"
    by (simp_all add: strip_def stripped_def is_space_def)
  obtain x y where "sign_attestation_v1 signing_trust (trust_set_digest signing_trust) (echo_signer ''b'' 0) PROVENANCE
        (verification_bundle_digest sample_bundle) p 6 (Some 15) ''n:builder'' = return x" "sa_key_id x = ''b''"
      "sign_attestation_v1 signing_trust (trust_set_digest signing_trust) (echo_signer ''r'' 1) SECURITY_REVIEW
        (verification_bundle_digest sample_bundle) p' 6 (Some 15) ''n:reviewer'' = return y" "sa_key_id y = ''r''"
    using sample_sign [OF signing_trust_keys(1) verification_digests_sha(1) _ n(2)]
      sample_sign [OF signing_trust_keys(2) verification_digests_sha(1) _ n(3)] by (metis list.distinct(1))
  moreover have "sg_key_id (echo_signer i x) = i" for i x by (simp add: echo_signer_def)
  moreover have "vb_builder_identity sample_bundle = ''b''" "vb_reviewer_identity sample_bundle = ''r''"
    by (simp_all add: sample_bundle_def)
  ultimately show ?thesis using p n(1)
    by (simp add: sign_verification_bundle_def signed_bundle_init_def Let_def)
qed

lemma signed_bundle_verifies_witness:
  "\<exists>s v. verify_bundle_signatures echo_verify \<lparr>cc_bundle = sample_bundle, cc_signed = s, cc_trust_set = signing_trust,
      cc_expected_trust_set_digest = sb_trust_set_digest s\<rparr> (replicate 64 CHR ''1'') 15 9 = return v"
proof -
  have "is_sha256 (replicate 64 CHR ''1'')" by code_simp
  then obtain s where s: "sign_verification_bundle sample_bundle (replicate 64 CHR ''1'') 15 signing_trust
      (trust_set_digest signing_trust) (echo_signer ''b'' 0) (echo_signer ''r'' 1) 6 ''n'' = return s"
    using sample_bundle_signed by blast
  have "\<exists>v. verify_bundle_signatures echo_verify \<lparr>cc_bundle = sample_bundle, cc_signed = s, cc_trust_set = signing_trust,
      cc_expected_trust_set_digest = sb_trust_set_digest s\<rparr> (replicate 64 CHR ''1'') 15 9 = return v \<and>
    vs_bundle_digest v = verification_bundle_digest sample_bundle \<and> vs_trust_set_digest v = trust_set_digest signing_trust"
    by (rule signed_bundle_verifies [where ed_verify = echo_verify, OF sample_bundle_init s echo_signer_verifies echo_signer_verifies])
      simp_all
  then show ?thesis by blast
qed

end
