(* ===== verification/NS_Shadow.thy ===== *)
theory NS_Shadow
  imports NS_Contracts
begin

text \<open>
  Shadow-twin calibration and autonomy debt, \<^verbatim>\<open>core/night_shift/shadow.py\<close>: predictions and
  observations of one task, their comparison, the debt ledger that accounts each calibration once, and
  the clearance for automatic promotion issued from a ledger.
\<close>

section \<open>Predictions and observations\<close>

record shadow_prediction =
  sp_task_id :: string
  sp_repository :: string
  sp_subject_sha :: string
  sp_state_snapshot_digest :: string
  sp_task_capsule_digest :: string
  sp_policy_digest :: string
  sp_executor_class :: string
  sp_expected_terminal_state :: string
  sp_predicted_at_epoch :: int
  sp_expires_at_epoch :: int

definition shadow_prediction_init :: "shadow_prediction \<Rightarrow> shadow_prediction result" where
  "shadow_prediction_init p =
     and_then (nonblank (sp_task_id p) ''task_id'') (\<lambda>task_id.
     and_then (nonblank (sp_repository p) ''repository'') (\<lambda>repository.
     and_then (nonblank (sp_executor_class p) ''executor_class'') (\<lambda>executor.
     and_then (nonblank (sp_expected_terminal_state p) ''expected_terminal_state'') (\<lambda>terminal.
     and_then (require_git_oid (sp_subject_sha p) ''subject_sha'') (\<lambda>subject.
     and_then (ns_sha (sp_state_snapshot_digest p) ''state_snapshot_digest'') (\<lambda>state.
     and_then (ns_sha (sp_task_capsule_digest p) ''task_capsule_digest'') (\<lambda>capsule.
     and_then (ns_sha (sp_policy_digest p) ''policy_digest'') (\<lambda>policy.
     if sp_predicted_at_epoch p < 0 then raise_ns ''predicted_at_epoch cannot be negative''
     else if sp_expires_at_epoch p \<le> sp_predicted_at_epoch p
     then raise_ns ''shadow prediction expiry must follow prediction time''
     else return (p\<lparr>sp_task_id := task_id, sp_repository := repository, sp_executor_class := executor,
       sp_expected_terminal_state := terminal, sp_subject_sha := subject, sp_state_snapshot_digest := state,
       sp_task_capsule_digest := capsule, sp_policy_digest := policy\<rparr>)))))))))"

definition shadow_prediction_dict :: "shadow_prediction \<Rightarrow> (string \<times> json) list" where
  "shadow_prediction_dict p =
    [(''schema'', JStr ''night-shift-shadow-prediction/v1''),
     (''task_id'', JStr (sp_task_id p)),
     (''repository'', JStr (sp_repository p)),
     (''subject_sha'', JStr (sp_subject_sha p)),
     (''state_snapshot_digest'', JStr (sp_state_snapshot_digest p)),
     (''task_capsule_digest'', JStr (sp_task_capsule_digest p)),
     (''policy_digest'', JStr (sp_policy_digest p)),
     (''executor_class'', JStr (sp_executor_class p)),
     (''expected_terminal_state'', JStr (sp_expected_terminal_state p)),
     (''predicted_at_epoch'', JInt (sp_predicted_at_epoch p)),
     (''expires_at_epoch'', JInt (sp_expires_at_epoch p))]"

definition shadow_prediction_digest :: "shadow_prediction \<Rightarrow> string" where
  "shadow_prediction_digest p = content_digest (JObj (shadow_prediction_dict p))"

record shadow_observation =
  so_task_id :: string
  so_repository :: string
  so_subject_sha :: string
  so_state_snapshot_digest :: string
  so_task_capsule_digest :: string
  so_policy_digest :: string
  so_executor_class :: string
  so_terminal_state :: string
  so_observed_at_epoch :: int

definition shadow_observation_init :: "shadow_observation \<Rightarrow> shadow_observation result" where
  "shadow_observation_init p =
     and_then (nonblank (so_task_id p) ''task_id'') (\<lambda>task_id.
     and_then (nonblank (so_repository p) ''repository'') (\<lambda>repository.
     and_then (nonblank (so_executor_class p) ''executor_class'') (\<lambda>executor.
     and_then (nonblank (so_terminal_state p) ''terminal_state'') (\<lambda>terminal.
     and_then (require_git_oid (so_subject_sha p) ''subject_sha'') (\<lambda>subject.
     and_then (ns_sha (so_state_snapshot_digest p) ''state_snapshot_digest'') (\<lambda>state.
     and_then (ns_sha (so_task_capsule_digest p) ''task_capsule_digest'') (\<lambda>capsule.
     and_then (ns_sha (so_policy_digest p) ''policy_digest'') (\<lambda>policy.
     if so_observed_at_epoch p < 0 then raise_ns ''observed_at_epoch cannot be negative''
     else return (p\<lparr>so_task_id := task_id, so_repository := repository, so_executor_class := executor,
       so_terminal_state := terminal, so_subject_sha := subject, so_state_snapshot_digest := state,
       so_task_capsule_digest := capsule, so_policy_digest := policy\<rparr>)))))))))"

definition shadow_observation_dict :: "shadow_observation \<Rightarrow> (string \<times> json) list" where
  "shadow_observation_dict p =
    [(''schema'', JStr ''night-shift-shadow-observation/v1''),
     (''task_id'', JStr (so_task_id p)),
     (''repository'', JStr (so_repository p)),
     (''subject_sha'', JStr (so_subject_sha p)),
     (''state_snapshot_digest'', JStr (so_state_snapshot_digest p)),
     (''task_capsule_digest'', JStr (so_task_capsule_digest p)),
     (''policy_digest'', JStr (so_policy_digest p)),
     (''executor_class'', JStr (so_executor_class p)),
     (''terminal_state'', JStr (so_terminal_state p)),
     (''observed_at_epoch'', JInt (so_observed_at_epoch p))]"

definition shadow_observation_digest :: "shadow_observation \<Rightarrow> string" where
  "shadow_observation_digest p = content_digest (JObj (shadow_observation_dict p))"

section \<open>Calibration\<close>

datatype shadow_divergence =
    EXACT_MATCH | EXECUTOR_DIVERGENCE | TERMINAL_DIVERGENCE | EXECUTOR_AND_TERMINAL_DIVERGENCE

fun divergence_value :: "shadow_divergence \<Rightarrow> string" where
  "divergence_value EXACT_MATCH = ''EXACT_MATCH''"
| "divergence_value EXECUTOR_DIVERGENCE = ''EXECUTOR_DIVERGENCE''"
| "divergence_value TERMINAL_DIVERGENCE = ''TERMINAL_DIVERGENCE''"
| "divergence_value EXECUTOR_AND_TERMINAL_DIVERGENCE = ''EXECUTOR_AND_TERMINAL_DIVERGENCE''"

fun expected_delta :: "shadow_divergence \<Rightarrow> int" where
  "expected_delta EXACT_MATCH = -1"
| "expected_delta EXECUTOR_DIVERGENCE = 1"
| "expected_delta TERMINAL_DIVERGENCE = 2"
| "expected_delta EXECUTOR_AND_TERMINAL_DIVERGENCE = 3"

record calibration_result =
  cr_repository :: string
  cr_policy_digest :: string
  cr_subject_sha :: string
  cr_task_capsule_digest :: string
  cr_prediction_digest :: string
  cr_observation_digest :: string
  cr_divergence :: shadow_divergence
  cr_debt_delta :: int

definition calibration_result_init :: "calibration_result \<Rightarrow> calibration_result result" where
  "calibration_result_init r =
     and_then (nonblank (cr_repository r) ''repository'') (\<lambda>repository.
     and_then (require_git_oid (cr_subject_sha r) ''subject_sha'') (\<lambda>subject.
     and_then (ns_sha (cr_policy_digest r) ''policy_digest'') (\<lambda>policy.
     and_then (ns_sha (cr_task_capsule_digest r) ''task_capsule_digest'') (\<lambda>capsule.
     and_then (ns_sha (cr_prediction_digest r) ''prediction_digest'') (\<lambda>prediction.
     and_then (ns_sha (cr_observation_digest r) ''observation_digest'') (\<lambda>observation.
     if cr_debt_delta r \<noteq> expected_delta (cr_divergence r)
     then raise_ns ''shadow calibration debt delta does not match divergence''
     else return (r\<lparr>cr_repository := repository, cr_subject_sha := subject, cr_policy_digest := policy,
       cr_task_capsule_digest := capsule, cr_prediction_digest := prediction,
       cr_observation_digest := observation\<rparr>)))))))"

definition calibration_result_dict :: "calibration_result \<Rightarrow> (string \<times> json) list" where
  "calibration_result_dict r =
    [(''schema'', JStr ''night-shift-shadow-calibration/v1''),
     (''repository'', JStr (cr_repository r)),
     (''policy_digest'', JStr (cr_policy_digest r)),
     (''subject_sha'', JStr (cr_subject_sha r)),
     (''task_capsule_digest'', JStr (cr_task_capsule_digest r)),
     (''prediction_digest'', JStr (cr_prediction_digest r)),
     (''observation_digest'', JStr (cr_observation_digest r)),
     (''divergence'', JStr (divergence_value (cr_divergence r))),
     (''debt_delta'', JInt (cr_debt_delta r))]"

definition calibration_result_digest :: "calibration_result \<Rightarrow> string" where
  "calibration_result_digest r = content_digest (JObj (calibration_result_dict r))"

definition identity_mismatches :: "shadow_prediction \<Rightarrow> shadow_observation \<Rightarrow> string list" where
  "identity_mismatches p o' = map fst (filter (\<lambda>(_, a, b). a \<noteq> b)
     [(''task_id'', sp_task_id p, so_task_id o'),
      (''repository'', sp_repository p, so_repository o'),
      (''subject_sha'', sp_subject_sha p, so_subject_sha o'),
      (''state_snapshot_digest'', sp_state_snapshot_digest p, so_state_snapshot_digest o'),
      (''task_capsule_digest'', sp_task_capsule_digest p, so_task_capsule_digest o'),
      (''policy_digest'', sp_policy_digest p, so_policy_digest o')])"

definition compare_shadow :: "shadow_prediction \<Rightarrow> shadow_observation \<Rightarrow> calibration_result result" where
  "compare_shadow p o' =
     (let mismatched = identity_mismatches p o' in
      if mismatched \<noteq> [] then raise_ns (''shadow twin identity mismatch: '' @ join '','' mismatched)
      else if so_observed_at_epoch o' < sp_predicted_at_epoch p
      then raise_ns ''shadow observation predates prediction''
      else if so_observed_at_epoch o' \<ge> sp_expires_at_epoch p
      then raise_ns ''shadow prediction expired before observation''
      else let executor_match = sp_executor_class p = so_executor_class o';
        terminal_match = sp_expected_terminal_state p = so_terminal_state o';
        (divergence, delta) =
          (if executor_match \<and> terminal_match then (EXACT_MATCH, -1)
           else if \<not> executor_match \<and> terminal_match then (EXECUTOR_DIVERGENCE, 1)
           else if executor_match \<and> \<not> terminal_match then (TERMINAL_DIVERGENCE, 2)
           else (EXECUTOR_AND_TERMINAL_DIVERGENCE, 3)) in
      calibration_result_init \<lparr>cr_repository = sp_repository p, cr_policy_digest = sp_policy_digest p,
        cr_subject_sha = sp_subject_sha p, cr_task_capsule_digest = sp_task_capsule_digest p,
        cr_prediction_digest = shadow_prediction_digest p, cr_observation_digest = shadow_observation_digest o',
        cr_divergence = divergence, cr_debt_delta = delta\<rparr>)"

section \<open>The autonomy debt ledger\<close>

record debt_event =
  de_calibration_digest :: string
  de_debt_delta :: int

definition debt_event_init :: "debt_event \<Rightarrow> debt_event result" where
  "debt_event_init e =
     and_then (ns_sha (de_calibration_digest e) ''calibration_digest'') (\<lambda>digest.
     if de_debt_delta e \<notin> {-1, 1, 2, 3} then raise_ns ''unsupported autonomy debt delta''
     else return (e\<lparr>de_calibration_digest := digest\<rparr>))"

definition debt_event_dict :: "debt_event \<Rightarrow> (string \<times> json) list" where
  "debt_event_dict e =
    [(''calibration_digest'', JStr (de_calibration_digest e)),
     (''debt_delta'', JInt (de_debt_delta e))]"

record debt_ledger =
  dl_repository :: string
  dl_policy_digest :: string
  dl_opening_value :: int
  dl_downgrade_threshold :: int
  dl_minimum_samples :: int
  dl_events :: "debt_event list"

definition debt_ledger_init :: "debt_ledger \<Rightarrow> debt_ledger result" where
  "debt_ledger_init l =
     and_then (nonblank (dl_repository l) ''repository'') (\<lambda>repository.
     and_then (ns_sha (dl_policy_digest l) ''policy_digest'') (\<lambda>policy.
     if dl_opening_value l < 0 then raise_ns ''autonomy debt cannot be negative''
     else if dl_downgrade_threshold l < 1 then raise_ns ''autonomy debt threshold must be positive''
     else if dl_minimum_samples l < 1 then raise_ns ''minimum shadow samples for auto must be positive''
     else if \<not> distinct (map de_calibration_digest (dl_events l))
     then raise_ns ''duplicate shadow calibration in autonomy debt ledger''
     else return (l\<lparr>dl_repository := repository, dl_policy_digest := policy\<rparr>)))"

definition ledger_value :: "debt_ledger \<Rightarrow> int" where
  "ledger_value l = foldl (\<lambda>v event. max 0 (v + de_debt_delta event)) (dl_opening_value l) (dl_events l)"

definition sample_count :: "debt_ledger \<Rightarrow> int" where
  "sample_count l = int (length (dl_events l))"

definition requires_downgrade :: "debt_ledger \<Rightarrow> bool" where
  "requires_downgrade l = (ledger_value l \<ge> dl_downgrade_threshold l)"

definition has_minimum_samples :: "debt_ledger \<Rightarrow> bool" where
  "has_minimum_samples l = (sample_count l \<ge> dl_minimum_samples l)"

definition ledger_apply :: "debt_ledger \<Rightarrow> calibration_result \<Rightarrow> debt_ledger result" where
  "ledger_apply l r =
     (if cr_repository r \<noteq> dl_repository l then raise_ns ''shadow calibration belongs to a different repository''
      else if cr_policy_digest r \<noteq> dl_policy_digest l
      then raise_ns ''shadow calibration belongs to a different policy''
      else and_then (debt_event_init \<lparr>de_calibration_digest = calibration_result_digest r,
          de_debt_delta = cr_debt_delta r\<rparr>) (\<lambda>event.
      if de_calibration_digest event \<in> set (map de_calibration_digest (dl_events l))
      then raise_ns ''shadow calibration already accounted for''
      else debt_ledger_init \<lparr>dl_repository = dl_repository l, dl_policy_digest = dl_policy_digest l,
        dl_opening_value = dl_opening_value l, dl_downgrade_threshold = dl_downgrade_threshold l,
        dl_minimum_samples = dl_minimum_samples l, dl_events = dl_events l @ [event]\<rparr>))"

definition debt_ledger_dict :: "debt_ledger \<Rightarrow> (string \<times> json) list" where
  "debt_ledger_dict l =
    [(''schema'', JStr ''night-shift-autonomy-debt-ledger/v1''),
     (''repository'', JStr (dl_repository l)),
     (''policy_digest'', JStr (dl_policy_digest l)),
     (''opening_value'', JInt (dl_opening_value l)),
     (''downgrade_threshold'', JInt (dl_downgrade_threshold l)),
     (''minimum_samples_for_auto'', JInt (dl_minimum_samples l)),
     (''events'', JList (map (\<lambda>e. JObj (debt_event_dict e)) (dl_events l))),
     (''value'', JInt (ledger_value l)),
     (''sample_count'', JInt (sample_count l))]"

definition debt_ledger_digest :: "debt_ledger \<Rightarrow> string" where
  "debt_ledger_digest l = content_digest (JObj (debt_ledger_dict l))"

section \<open>Promotion clearance\<close>

record promotion_clearance =
  pc_repository :: string
  pc_subject_sha :: string
  pc_task_capsule_digest :: string
  pc_ledger_digest :: string
  pc_debt_value :: int
  pc_downgrade_threshold :: int
  pc_sample_count :: int
  pc_minimum_samples :: int
  pc_issued_at_epoch :: int
  pc_expires_at_epoch :: int

definition promotion_clearance_init :: "promotion_clearance \<Rightarrow> promotion_clearance result" where
  "promotion_clearance_init c =
     and_then (nonblank (pc_repository c) ''repository'') (\<lambda>repository.
     and_then (require_git_oid (pc_subject_sha c) ''subject_sha'') (\<lambda>subject.
     and_then (ns_sha (pc_task_capsule_digest c) ''task_capsule_digest'') (\<lambda>capsule.
     and_then (ns_sha (pc_ledger_digest c) ''ledger_digest'') (\<lambda>ledger.
     if pc_debt_value c < 0 then raise_ns ''clearance debt cannot be negative''
     else if pc_downgrade_threshold c < 1 then raise_ns ''clearance debt threshold must be positive''
     else if pc_sample_count c < 0 then raise_ns ''clearance sample count cannot be negative''
     else if pc_minimum_samples c < 1 then raise_ns ''clearance minimum samples must be positive''
     else if pc_issued_at_epoch c < 0 then raise_ns ''clearance issuance cannot be negative''
     else if pc_expires_at_epoch c \<le> pc_issued_at_epoch c
     then raise_ns ''shadow clearance expiry must follow issuance''
     else return (c\<lparr>pc_repository := repository, pc_subject_sha := subject, pc_task_capsule_digest := capsule,
       pc_ledger_digest := ledger\<rparr>)))))"

definition allows_auto :: "promotion_clearance \<Rightarrow> bool" where
  "allows_auto c = (pc_debt_value c < pc_downgrade_threshold c \<and> pc_sample_count c \<ge> pc_minimum_samples c)"

definition clearance_require_fresh :: "promotion_clearance \<Rightarrow> int \<Rightarrow> unit result" where
  "clearance_require_fresh c now_epoch =
     (if now_epoch < pc_issued_at_epoch c then raise_ns ''current time precedes shadow clearance issuance''
      else if now_epoch \<ge> pc_expires_at_epoch c then raise_ns ''shadow promotion clearance expired''
      else return ())"

definition promotion_clearance_dict :: "promotion_clearance \<Rightarrow> (string \<times> json) list" where
  "promotion_clearance_dict c =
    [(''schema'', JStr ''night-shift-shadow-promotion-clearance/v1''),
     (''repository'', JStr (pc_repository c)),
     (''subject_sha'', JStr (pc_subject_sha c)),
     (''task_capsule_digest'', JStr (pc_task_capsule_digest c)),
     (''ledger_digest'', JStr (pc_ledger_digest c)),
     (''debt_value'', JInt (pc_debt_value c)),
     (''downgrade_threshold'', JInt (pc_downgrade_threshold c)),
     (''sample_count'', JInt (pc_sample_count c)),
     (''minimum_samples_for_auto'', JInt (pc_minimum_samples c)),
     (''issued_at_epoch'', JInt (pc_issued_at_epoch c)),
     (''expires_at_epoch'', JInt (pc_expires_at_epoch c))]"

definition promotion_clearance_digest :: "promotion_clearance \<Rightarrow> string" where
  "promotion_clearance_digest c = content_digest (JObj (promotion_clearance_dict c))"

definition issue_shadow_clearance ::
  "debt_ledger \<Rightarrow> string \<Rightarrow> string \<Rightarrow> int \<Rightarrow> int \<Rightarrow> promotion_clearance result" where
  "issue_shadow_clearance l subject_sha task_capsule now_epoch ttl_seconds =
     (if ttl_seconds \<le> 0 then raise_ns ''shadow clearance ttl must be positive''
      else promotion_clearance_init \<lparr>pc_repository = dl_repository l, pc_subject_sha = subject_sha,
        pc_task_capsule_digest = task_capsule, pc_ledger_digest = debt_ledger_digest l,
        pc_debt_value = ledger_value l, pc_downgrade_threshold = dl_downgrade_threshold l,
        pc_sample_count = sample_count l, pc_minimum_samples = dl_minimum_samples l,
        pc_issued_at_epoch = now_epoch, pc_expires_at_epoch = now_epoch + ttl_seconds\<rparr>)"

section \<open>The compatibility scalar\<close>

record autonomy_debt =
  ad_value :: int
  ad_downgrade_threshold :: int

definition autonomy_debt_init :: "autonomy_debt \<Rightarrow> autonomy_debt result" where
  "autonomy_debt_init d =
     (if ad_value d < 0 then raise_ns ''autonomy debt cannot be negative''
      else if ad_downgrade_threshold d < 1 then raise_ns ''autonomy debt threshold must be positive''
      else return d)"

definition autonomy_debt_apply :: "autonomy_debt \<Rightarrow> calibration_result \<Rightarrow> autonomy_debt result" where
  "autonomy_debt_apply d r =
     autonomy_debt_init \<lparr>ad_value = max 0 (ad_value d + cr_debt_delta r),
       ad_downgrade_threshold = ad_downgrade_threshold d\<rparr>"

definition debt_requires_downgrade :: "autonomy_debt \<Rightarrow> bool" where
  "debt_requires_downgrade d = (ad_value d \<ge> ad_downgrade_threshold d)"

section \<open>Laws\<close>

definition shadow_prediction_ok :: "shadow_prediction \<Rightarrow> bool" where
  "shadow_prediction_ok p =
     (is_text (sp_task_id p) \<and> is_text (sp_repository p) \<and> is_text (sp_executor_class p) \<and>
      is_text (sp_expected_terminal_state p) \<and> is_git_oid (sp_subject_sha p) \<and>
      is_sha256 (sp_state_snapshot_digest p) \<and> is_sha256 (sp_task_capsule_digest p) \<and>
      is_sha256 (sp_policy_digest p) \<and> 0 \<le> sp_predicted_at_epoch p \<and>
      sp_predicted_at_epoch p < sp_expires_at_epoch p)"

lemma shadow_prediction_init_ok: "shadow_prediction_init p0 = Inr p \<Longrightarrow> shadow_prediction_ok p"
  by (auto simp: shadow_prediction_init_def shadow_prediction_ok_def ns_sha_Inr nonblank_Inr require_git_oid_Inr
      is_text_strip split: if_splits)

lemma divergence_value_inject [simp]: "divergence_value a = divergence_value b \<longleftrightarrow> a = b"
  by (cases a; cases b) simp_all

lemma calibration_result_init_fixed:
  "calibration_result_init r = Inr r" if "is_text (cr_repository r)" "is_git_oid (cr_subject_sha r)"
    "is_sha256 (cr_policy_digest r)" "is_sha256 (cr_task_capsule_digest r)" "is_sha256 (cr_prediction_digest r)"
    "is_sha256 (cr_observation_digest r)" "cr_debt_delta r = expected_delta (cr_divergence r)"
  using that by (simp add: calibration_result_init_def)

lemma shadow_digests_sha [simp]:
  "is_sha256 (shadow_prediction_digest p)" "is_sha256 (shadow_observation_digest ob)"
  "is_sha256 (calibration_result_digest r)" "is_sha256 (debt_ledger_digest l)" "is_sha256 (promotion_clearance_digest c)"
  by (simp_all add: shadow_prediction_digest_def shadow_observation_digest_def calibration_result_digest_def
      debt_ledger_digest_def promotion_clearance_digest_def)

interpretation predictions: content_addressed "\<lambda>_. True" shadow_prediction_dict
  by unfold_locales (simp_all add: norm_json_JObj_same_keys shadow_prediction_dict_def shadow_prediction.equality
      del: norm_json.simps(6))

interpretation observations: content_addressed "\<lambda>_. True" shadow_observation_dict
  by unfold_locales (simp_all add: norm_json_JObj_same_keys shadow_observation_dict_def shadow_observation.equality
      del: norm_json.simps(6))

interpretation calibrations: content_addressed "\<lambda>_. True" calibration_result_dict
  by unfold_locales (simp_all add: norm_json_JObj_same_keys calibration_result_dict_def calibration_result.equality
      del: norm_json.simps(6))

interpretation debt_events: content_addressed "\<lambda>_. True" debt_event_dict
  by unfold_locales (simp_all add: norm_json_JObj_same_keys debt_event_dict_def debt_event.equality
      del: norm_json.simps(6))

lemma debt_events_inject:
  "norm_json (JList (map (\<lambda>e. JObj (debt_event_dict e)) xs)) =
     norm_json (JList (map (\<lambda>e. JObj (debt_event_dict e)) ys)) \<longleftrightarrow> xs = ys"
proof -
  have "inj (\<lambda>e. norm_json (JObj (debt_event_dict e)))" using debt_events.dict_inject by (auto intro: injI)
  then show ?thesis by (simp add: comp_def inj_map_eq_map del: norm_json.simps(6))
qed

interpretation debt_ledgers: content_addressed "\<lambda>_. True" debt_ledger_dict
proof unfold_locales
  fix a b
  show "wf_json (JObj (debt_ledger_dict a))"
    by (simp add: debt_ledger_dict_def debt_event_dict_def list_all_iff)
  show "norm_json (JObj (debt_ledger_dict a)) = norm_json (JObj (debt_ledger_dict b)) \<Longrightarrow> a = b"
    by (simp add: norm_json_JObj_same_keys debt_ledger_dict_def debt_events_inject debt_ledger.equality
        del: norm_json.simps(5,6))
qed

interpretation clearances: content_addressed "\<lambda>_. True" promotion_clearance_dict
  by unfold_locales (simp_all add: norm_json_JObj_same_keys promotion_clearance_dict_def promotion_clearance.equality
      del: norm_json.simps(6))

text \<open>What the constructor of a ledger guarantees; every accepted calibration keeps it.\<close>

definition debt_ledger_ok :: "debt_ledger \<Rightarrow> bool" where
  "debt_ledger_ok l =
     (is_text (dl_repository l) \<and> is_sha256 (dl_policy_digest l) \<and> 0 \<le> dl_opening_value l \<and>
      1 \<le> dl_downgrade_threshold l \<and> 1 \<le> dl_minimum_samples l \<and>
      distinct (map de_calibration_digest (dl_events l)))"

lemma debt_ledger_init_ok: "debt_ledger_init l0 = Inr l \<Longrightarrow> debt_ledger_ok l"
  by (auto simp: debt_ledger_init_def debt_ledger_ok_def ns_sha_Inr nonblank_Inr is_text_strip split: if_splits)

lemma debt_ledger_init_fixed: "debt_ledger_ok l \<Longrightarrow> debt_ledger_init l = Inr l"
  by (simp add: debt_ledger_init_def debt_ledger_ok_def)

text \<open>The calibrations a ledger takes up, were they new.\<close>

definition admissible :: "debt_ledger \<Rightarrow> calibration_result \<Rightarrow> bool" where
  "admissible l r = (cr_repository r = dl_repository l \<and> cr_policy_digest r = dl_policy_digest l \<and>
     cr_debt_delta r \<in> {-1, 1, 2, 3})"

lemma ledger_apply_Inr:
  assumes "debt_ledger_ok l"
  shows "ledger_apply l r = Inr l' \<longleftrightarrow> admissible l r \<and>
    calibration_result_digest r \<notin> set (map de_calibration_digest (dl_events l)) \<and>
    l' = l\<lparr>dl_events := dl_events l @
      [\<lparr>de_calibration_digest = calibration_result_digest r, de_debt_delta = cr_debt_delta r\<rparr>]\<rparr>"
  using assms
  by (auto simp: ledger_apply_def admissible_def debt_event_init_def debt_ledger_ok_def debt_ledger_init_fixed
      debt_ledger_init_def split: if_splits)

lemma ledger_apply_ok: "debt_ledger_ok l \<Longrightarrow> ledger_apply l r = Inr l' \<Longrightarrow> debt_ledger_ok l'"
  by (auto simp: ledger_apply_Inr debt_ledger_ok_def)

text \<open>A client that accounts a list of calibrations and keeps the ledger it had when one is refused.\<close>

definition apply_or_keep :: "debt_ledger \<Rightarrow> calibration_result \<Rightarrow> debt_ledger" where
  "apply_or_keep l r = (case ledger_apply l r of Inl _ \<Rightarrow> l | Inr l' \<Rightarrow> l')"

definition counted :: "debt_ledger \<Rightarrow> string set" where
  "counted l = set (map de_calibration_digest (dl_events l))"

lemma apply_or_keep_frame:
  assumes "debt_ledger_ok l"
  shows "debt_ledger_ok (apply_or_keep l r)" "admissible (apply_or_keep l r) = admissible l"
    "counted (apply_or_keep l r) = counted l \<union> (if admissible l r then {calibration_result_digest r} else {})"
proof -
  show "debt_ledger_ok (apply_or_keep l r)"
    using assms by (auto simp: apply_or_keep_def intro: ledger_apply_ok split: sum.split)
  show "admissible (apply_or_keep l r) = admissible l"
    by (auto simp: apply_or_keep_def ledger_apply_Inr [OF assms] admissible_def fun_eq_iff split: sum.split)
  show "counted (apply_or_keep l r) = counted l \<union> (if admissible l r then {calibration_result_digest r} else {})"
  proof (cases "ledger_apply l r")
    case (Inl e)
    then have "\<not> (\<exists>l'. ledger_apply l r = Inr l')" by simp
    then show ?thesis using Inl unfolding ledger_apply_Inr [OF assms] by (auto simp: apply_or_keep_def counted_def)
  next
    case (Inr l')
    then show ?thesis using Inr [unfolded ledger_apply_Inr [OF assms]] by (auto simp: apply_or_keep_def counted_def)
  qed
qed

lemma apply_all_counted:
  assumes "debt_ledger_ok l"
  shows "debt_ledger_ok (foldl apply_or_keep l rs) \<and>
    counted (foldl apply_or_keep l rs) = counted l \<union> calibration_result_digest ` {r \<in> set rs. admissible l r}"
  using assms
proof (induction rs arbitrary: l)
  case (Cons r rs)
  then show ?case using Cons.IH [OF apply_or_keep_frame(1)] by (auto simp: apply_or_keep_frame)
qed simp

lemma ledger_value_snoc:
  "ledger_value (l\<lparr>dl_events := es @ [e]\<rparr>) = max 0 (ledger_value (l\<lparr>dl_events := es\<rparr>) + de_debt_delta e)"
  by (simp add: ledger_value_def)

lemma debt_fold_snoc:
  "foldl (\<lambda>v d. max 0 (v + d)) v (ds @ [d]) = max 0 (foldl (\<lambda>v d. max 0 (v + d)) v ds + (d::int))"
  by simp

text \<open>The running value is the largest sum of a last stretch of the calibrations, or everything.\<close>

lemma reflected_sum:
  fixes ds :: "int list"
  assumes "0 \<le> v"
  shows "foldl (\<lambda>v d. max 0 (v + d)) v ds =
    Max (insert (v + sum_list ds) ((\<lambda>k. sum_list (drop k ds)) ` {..length ds}))"
  (is "?f ds = Max (?S ds)")
proof (induction ds rule: rev_induct)
  case (snoc d ds)
  let ?T = "insert (v + sum_list ds) ((\<lambda>k. sum_list (drop k ds)) ` {..length ds})"
  have "(\<lambda>k. sum_list (drop k (ds @ [d]))) ` {..length ds} = (\<lambda>x. x + d) ` (\<lambda>k. sum_list (drop k ds)) ` {..length ds}"
    by (simp add: image_image)
  moreover have "{..length (ds @ [d])} = insert (Suc (length ds)) {..length ds}" by auto
  ultimately have eq: "?S (ds @ [d]) = insert 0 ((\<lambda>x. x + d) ` ?T)" by auto
  have fin: "finite ?T" "?T \<noteq> {}" by auto
  have "Max ((\<lambda>x. x + d) ` ?T) = Max ?T + d"
    by (rule mono_Max_commute [symmetric]) (auto simp: mono_def)
  moreover have "Max (insert 0 ((\<lambda>x. x + d) ` ?T)) = max 0 (Max ((\<lambda>x. x + d) ` ?T))"
    by (rule Max_insert) (use fin in auto)
  moreover have "?f (ds @ [d]) = max 0 (?f ds + d)" by simp
  ultimately show ?case unfolding eq snoc by simp
qed (use assms in simp)

lemma ledger_value_fold:
  "ledger_value l = foldl (\<lambda>v d. max 0 (v + d)) (dl_opening_value l) (map de_debt_delta (dl_events l))"
  by (simp add: ledger_value_def foldl_map)

lemma ledger_value_nonneg: "debt_ledger_ok l \<Longrightarrow> 0 \<le> ledger_value l"
proof -
  assume "debt_ledger_ok l"
  then have "0 \<le> dl_opening_value l" by (simp add: debt_ledger_ok_def)
  moreover have "0 \<le> v \<Longrightarrow> 0 \<le> foldl (\<lambda>v d. max 0 (v + d)) v ds" for v :: int and ds
    by (induction ds arbitrary: v) auto
  ultimately show ?thesis by (simp add: ledger_value_fold)
qed

section \<open>Properties\<close>

text \<open>A shadow comparison is exact. Between a prediction and an observation the constructors
  accepted, \<^verbatim>\<open>compare_shadow\<close> returns a calibration exactly when the six identity fields agree and the
  observation falls in the prediction's lifetime; the debt of the calibration is -1 for a full match
  and otherwise 1 for a wrong executor plus 2 for a wrong terminal state, and it names both inputs by
  their digests. Building the calibration never fails.\<close>

theorem compare_shadow_exact:
  assumes "shadow_prediction_init p0 = return p" and "shadow_observation_init o0 = return ob"
  shows "compare_shadow p ob = return r \<longleftrightarrow>
    sp_task_id p = so_task_id ob \<and> sp_repository p = so_repository ob \<and> sp_subject_sha p = so_subject_sha ob \<and>
    sp_state_snapshot_digest p = so_state_snapshot_digest ob \<and>
    sp_task_capsule_digest p = so_task_capsule_digest ob \<and> sp_policy_digest p = so_policy_digest ob \<and>
    sp_predicted_at_epoch p \<le> so_observed_at_epoch ob \<and> so_observed_at_epoch ob < sp_expires_at_epoch p \<and>
    cr_repository r = sp_repository p \<and> cr_policy_digest r = sp_policy_digest p \<and>
    cr_subject_sha r = sp_subject_sha p \<and> cr_task_capsule_digest r = sp_task_capsule_digest p \<and>
    cr_prediction_digest r = shadow_prediction_digest p \<and> cr_observation_digest r = shadow_observation_digest ob \<and>
    cr_debt_delta r =
      (if sp_executor_class p = so_executor_class ob \<and> sp_expected_terminal_state p = so_terminal_state ob then -1
       else (if sp_executor_class p = so_executor_class ob then 0 else 1) +
         (if sp_expected_terminal_state p = so_terminal_state ob then 0 else 2)) \<and>
    cr_debt_delta r = expected_delta (cr_divergence r)"
proof -
  note ok = shadow_prediction_init_ok [OF assms(1), unfolded shadow_prediction_ok_def]
  have delta: "expected_delta d = n \<longleftrightarrow> d = (if n = -1 then EXACT_MATCH else if n = 1 then EXECUTOR_DIVERGENCE
      else if n = 2 then TERMINAL_DIVERGENCE else EXECUTOR_AND_TERMINAL_DIVERGENCE)" if "n \<in> {-1, 1, 2, 3}" for d n
    using that by (cases d) auto
  show ?thesis
    using ok by (cases r) (auto simp: compare_shadow_def identity_mismatches_def calibration_result_init_fixed Let_def
        delta eq_commute [of n "expected_delta d" for n d] split: if_splits)
qed

text \<open>Every calibration counts once. However a client accounts calibrations, in any order and with
  any repetition, keeping its ledger whenever one is refused, the ledger holds exactly the distinct
  calibrations of its own repository and policy, the sample count is their number, the ledger stays
  well formed with a debt that is not negative, and offering a counted calibration again is refused.\<close>

theorem calibration_counts_once:
  assumes "debt_ledger_init l0 = return l" and "l' = foldl apply_or_keep l rs"
  shows "set (map de_calibration_digest (dl_events l')) =
      set (map de_calibration_digest (dl_events l)) \<union> calibration_result_digest ` {r \<in> set rs. admissible l r} \<and>
    sample_count l' = int (card (set (map de_calibration_digest (dl_events l')))) \<and>
    debt_ledger_init l' = return l' \<and> 0 \<le> ledger_value l' \<and>
    (\<forall>r \<in> set rs. \<exists>e. ledger_apply l' r = raise e)"
proof -
  note ok = debt_ledger_init_ok [OF assms(1)]
  have "debt_ledger_ok l'" and counted: "counted l' = counted l \<union> calibration_result_digest ` {r \<in> set rs. admissible l r}"
    using apply_all_counted [OF ok, of rs] assms(2) by simp_all
  moreover have "admissible l' = admissible l" using ok unfolding assms(2)
    by (induction rs arbitrary: l) (simp_all add: apply_or_keep_frame)
  then have "\<exists>e. ledger_apply l' r = Inl e" if "r \<in> set rs" for r
    using ledger_apply_Inr [OF \<open>debt_ledger_ok l'\<close>, of r] counted that
    by (cases "ledger_apply l' r") (auto simp: counted_def)
  ultimately show ?thesis using debt_ledger_init_fixed ledger_value_nonneg distinct_card
    unfolding counted_def sample_count_def debt_ledger_ok_def by fastforce
qed

text \<open>The autonomy debt of a ledger, computed event by event with a floor at zero, is the worst
  stretch up to now: the largest sum of the last calibrations, over every length of the stretch, or
  the opening debt plus all of them. A run of bad calibrations therefore shows in full however much
  credit was earned before it.\<close>

theorem ledger_value_worst_stretch:
  assumes "debt_ledger_init l0 = return l"
  shows "ledger_value l = Max (insert (dl_opening_value l + sum_list (map de_debt_delta (dl_events l)))
    ((\<lambda>k. sum_list (drop k (map de_debt_delta (dl_events l)))) ` {..length (dl_events l)}))"
  using reflected_sum [of "dl_opening_value l" "map de_debt_delta (dl_events l)"] debt_ledger_init_ok [OF assms]
  by (simp add: ledger_value_fold debt_ledger_ok_def)

text \<open>A promotion clearance says what its ledger says. It is issued exactly for a positive lifetime,
  a commit and a task capsule in digest form and a time that is not negative; it allows automatic promotion exactly
  when the ledger needs no downgrade and has its samples, it is fresh exactly within its lifetime, and
  the ledger digest in it determines the ledger up to an exhibited SHA-256 collision.\<close>

theorem clearance_reflects_ledger:
  assumes "debt_ledger_init l0 = return l"
  shows "((\<exists>c. issue_shadow_clearance l sha task now ttl = return c) \<longleftrightarrow>
      0 < ttl \<and> is_git_oid (lower (strip sha)) \<and> is_sha256 (lower (strip task)) \<and> 0 \<le> now) \<and>
    (issue_shadow_clearance l sha task now ttl = return c \<longrightarrow>
      (allows_auto c \<longleftrightarrow> \<not> requires_downgrade l \<and> has_minimum_samples l) \<and>
      (clearance_require_fresh c t = return () \<longleftrightarrow> now \<le> t \<and> t < now + ttl) \<and>
      pc_repository c = dl_repository l \<and>
      (pc_ledger_digest c = debt_ledger_digest l' \<longrightarrow> same_or_clash debt_ledger_dict l l'))"
proof -
  note ok = debt_ledger_init_ok [OF assms, unfolded debt_ledger_ok_def]
  have "0 \<le> ledger_value l" using debt_ledger_init_ok [OF assms] by (rule ledger_value_nonneg)
  then have issue: "issue_shadow_clearance l sha task now ttl = return c' \<longleftrightarrow>
      0 < ttl \<and> is_git_oid (lower (strip sha)) \<and> is_sha256 (lower (strip task)) \<and> 0 \<le> now \<and>
      c' = \<lparr>pc_repository = dl_repository l, pc_subject_sha = lower (strip sha),
        pc_task_capsule_digest = lower (strip task), pc_ledger_digest = debt_ledger_digest l,
        pc_debt_value = ledger_value l, pc_downgrade_threshold = dl_downgrade_threshold l,
        pc_sample_count = sample_count l, pc_minimum_samples = dl_minimum_samples l,
        pc_issued_at_epoch = now, pc_expires_at_epoch = now + ttl\<rparr>" for c'
    using ok by (auto simp: issue_shadow_clearance_def promotion_clearance_init_def require_git_oid_Inr ns_sha_Inr
        sample_count_def split: if_splits)
  have "same_or_clash debt_ledger_dict l l'" if "debt_ledger_digest l = debt_ledger_digest l'"
    using debt_ledgers.digest_binds [of l l'] that by (simp add: same_or_clash_def debt_ledger_digest_def)
  then show ?thesis unfolding issue
    by (auto simp: allows_auto_def requires_downgrade_def has_minimum_samples_def clearance_require_fresh_def)
qed

section \<open>Sample inputs\<close>

definition sample_prediction :: shadow_prediction where
  "sample_prediction = \<lparr>sp_task_id = ''t'', sp_repository = ''repo'', sp_subject_sha = replicate 40 CHR ''a'',
     sp_state_snapshot_digest = replicate 64 CHR ''b'', sp_task_capsule_digest = replicate 64 CHR ''c'',
     sp_policy_digest = replicate 64 CHR ''d'', sp_executor_class = ''x'', sp_expected_terminal_state = ''e'',
     sp_predicted_at_epoch = 10, sp_expires_at_epoch = 20\<rparr>"

definition sample_observation :: shadow_observation where
  "sample_observation = \<lparr>so_task_id = ''t'', so_repository = ''repo'', so_subject_sha = replicate 40 CHR ''a'',
     so_state_snapshot_digest = replicate 64 CHR ''b'', so_task_capsule_digest = replicate 64 CHR ''c'',
     so_policy_digest = replicate 64 CHR ''d'', so_executor_class = ''x'', so_terminal_state = ''f'',
     so_observed_at_epoch = 12\<rparr>"

definition sample_calibration :: calibration_result where
  "sample_calibration = \<lparr>cr_repository = ''repo'', cr_policy_digest = replicate 64 CHR ''d'',
     cr_subject_sha = replicate 40 CHR ''a'', cr_task_capsule_digest = replicate 64 CHR ''c'',
     cr_prediction_digest = shadow_prediction_digest sample_prediction,
     cr_observation_digest = shadow_observation_digest sample_observation,
     cr_divergence = TERMINAL_DIVERGENCE, cr_debt_delta = 2\<rparr>"

definition sample_debt_ledger :: "debt_event list \<Rightarrow> debt_ledger" where
  "sample_debt_ledger es = \<lparr>dl_repository = ''repo'', dl_policy_digest = replicate 64 CHR ''d'',
     dl_opening_value = 1, dl_downgrade_threshold = 10, dl_minimum_samples = 1, dl_events = es\<rparr>"

definition sample_events :: "debt_event list" where
  "sample_events = [\<lparr>de_calibration_digest = replicate 64 CHR ''1'', de_debt_delta = -1\<rparr>,
     \<lparr>de_calibration_digest = replicate 64 CHR ''2'', de_debt_delta = -1\<rparr>,
     \<lparr>de_calibration_digest = replicate 64 CHR ''3'', de_debt_delta = 3\<rparr>]"

lemma sample_shadow_init:
  "shadow_prediction_init sample_prediction = return sample_prediction"
  "shadow_observation_init sample_observation = return sample_observation"
  by code_simp+

lemma sample_debt_ledger_init:
  "debt_ledger_init (sample_debt_ledger []) = return (sample_debt_ledger [])"
  "debt_ledger_init (sample_debt_ledger sample_events) = return (sample_debt_ledger sample_events)"
  by code_simp+

lemma compare_shadow_exact_witness: "compare_shadow sample_prediction sample_observation = return sample_calibration"
  using compare_shadow_exact [OF sample_shadow_init, of sample_calibration]
  by (simp add: sample_prediction_def sample_observation_def sample_calibration_def del: replicate.simps)

lemma calibration_counts_once_witness:
  "set (map de_calibration_digest (dl_events (foldl apply_or_keep (sample_debt_ledger []) [sample_calibration, sample_calibration])))
     = {calibration_result_digest sample_calibration} \<and>
   sample_count (foldl apply_or_keep (sample_debt_ledger []) [sample_calibration, sample_calibration]) = 1"
proof -
  have "{r. r = sample_calibration \<and> admissible (sample_debt_ledger []) r} = {sample_calibration}"
    by (auto simp: admissible_def sample_calibration_def sample_debt_ledger_def simp del: replicate.simps)
  moreover have "dl_events (sample_debt_ledger []) = []" by (simp add: sample_debt_ledger_def)
  ultimately show ?thesis
    using calibration_counts_once [OF sample_debt_ledger_init(1) refl, of "[sample_calibration, sample_calibration]"]
    by (simp del: foldl.simps)
qed

lemma ledger_value_worst_stretch_witness:
  "ledger_value (sample_debt_ledger sample_events) = 3 \<and>
   Max (insert (2::int) ((\<lambda>k. sum_list (drop k [-1, -1, 3])) ` {..3})) = ledger_value (sample_debt_ledger sample_events)"
proof -
  have "ledger_value (sample_debt_ledger sample_events) = 3"
    by (simp add: ledger_value_def sample_debt_ledger_def sample_events_def)
  then show ?thesis using ledger_value_worst_stretch [OF sample_debt_ledger_init(2)]
    by (simp add: sample_debt_ledger_def sample_events_def numeral_eq_Suc)
qed

lemma clearance_reflects_ledger_witness:
  "\<exists>c. issue_shadow_clearance (sample_debt_ledger sample_events) (replicate 40 CHR ''a'') (replicate 64 CHR ''c'') 5 10
       = return c \<and> allows_auto c \<and> clearance_require_fresh c 14 = return ()"
proof -
  let ?l = "sample_debt_ledger sample_events"
  note * = clearance_reflects_ledger [OF sample_debt_ledger_init(2), of "replicate 40 CHR ''a''" "replicate 64 CHR ''c''" 5 10]
  have "is_git_oid (lower (strip (replicate 40 CHR ''a'')))" "is_sha256 (lower (strip (replicate 64 CHR ''c'')))"
    by code_simp+
  then obtain c where "issue_shadow_clearance ?l (replicate 40 CHR ''a'') (replicate 64 CHR ''c'') 5 10 = return c"
    using * [of _ 0 ?l] by simp blast
  moreover have "\<not> requires_downgrade ?l \<and> has_minimum_samples ?l"
    by (simp add: requires_downgrade_def has_minimum_samples_def sample_count_def ledger_value_def
        sample_debt_ledger_def sample_events_def)
  ultimately show ?thesis using * [of c 14 ?l] by auto
qed

end
