(* ===== verification/NS_Promotion.thy ===== *)
theory NS_Promotion
  imports NS_Crypto_Identity NS_Shadow
begin

text \<open>
  Verification quorum and promotion policy, \<^verbatim>\<open>core/night_shift/promotion.py\<close>: the quorum derived from
  a bundle, the gate of shadow calibration before automatic promotion, and the decision that combines
  envelope, quorum, two signatures and clearance. Ed25519 verification is the parameter \<open>ed_verify\<close>.
\<close>

section \<open>Quorum\<close>

datatype promotion_state = PROMOTION_BLOCKED | PROMOTION_READY_FOR_HUMAN | ELIGIBLE_AUTO

fun promotion_state_value :: "promotion_state \<Rightarrow> string" where
  "promotion_state_value PROMOTION_BLOCKED = ''BLOCKED''"
| "promotion_state_value PROMOTION_READY_FOR_HUMAN = ''READY_FOR_HUMAN''"
| "promotion_state_value ELIGIBLE_AUTO = ''ELIGIBLE_AUTO''"

record quorum =
  vq_focused_tests_pass :: bool
  vq_static_security_pass :: bool
  vq_scope_guard_pass :: bool
  vq_required_regression_pass :: bool
  vq_independent_review_pass :: bool
  vq_exact_sha_ci_pass :: bool
  vq_policy_engine_pass :: bool
  vq_builder_identity :: string
  vq_reviewer_identity :: string
  vq_subject_sha :: string
  vq_task_capsule_digest :: string
  vq_evidence_digest :: string
  vq_evidence_valid_until_epoch :: int

definition quorum_init :: "quorum \<Rightarrow> quorum result" where
  "quorum_init q =
     (let builder = strip (vq_builder_identity q); reviewer = strip (vq_reviewer_identity q) in
      if builder = [] \<or> reviewer = [] then raise_ns ''builder and reviewer identities are required''
      else if builder = reviewer then raise_ns ''builder and reviewer identities must be different''
      else and_then (require_git_oid (vq_subject_sha q) ''subject_sha'') (\<lambda>subject.
      and_then (ns_sha (vq_task_capsule_digest q) ''task_capsule_digest'') (\<lambda>capsule.
      and_then (ns_sha (vq_evidence_digest q) ''evidence_digest'') (\<lambda>evidence.
      if vq_evidence_valid_until_epoch q < 0 then raise_ns ''evidence_valid_until_epoch cannot be negative''
      else return (q\<lparr>vq_builder_identity := builder, vq_reviewer_identity := reviewer, vq_subject_sha := subject,
        vq_task_capsule_digest := capsule, vq_evidence_digest := evidence\<rparr>)))))"

definition quorum_passed :: "quorum \<Rightarrow> bool" where
  "quorum_passed q = list_all (\<lambda>gate. gate q)
     [vq_focused_tests_pass, vq_static_security_pass, vq_scope_guard_pass, vq_required_regression_pass,
      vq_independent_review_pass, vq_exact_sha_ci_pass, vq_policy_engine_pass]"

definition quorum_dict :: "quorum \<Rightarrow> (string \<times> json) list" where
  "quorum_dict q =
    [(''focused_tests_pass'', JBool (vq_focused_tests_pass q)),
     (''static_security_pass'', JBool (vq_static_security_pass q)),
     (''scope_guard_pass'', JBool (vq_scope_guard_pass q)),
     (''required_regression_pass'', JBool (vq_required_regression_pass q)),
     (''independent_review_pass'', JBool (vq_independent_review_pass q)),
     (''exact_sha_ci_pass'', JBool (vq_exact_sha_ci_pass q)),
     (''policy_engine_pass'', JBool (vq_policy_engine_pass q)),
     (''builder_identity'', JStr (vq_builder_identity q)),
     (''reviewer_identity'', JStr (vq_reviewer_identity q)),
     (''subject_sha'', JStr (vq_subject_sha q)),
     (''task_capsule_digest'', JStr (vq_task_capsule_digest q)),
     (''evidence_digest'', JStr (vq_evidence_digest q)),
     (''evidence_valid_until_epoch'', JInt (vq_evidence_valid_until_epoch q))]"

definition quorum_digest :: "quorum \<Rightarrow> string" where
  "quorum_digest q = content_digest (JObj (quorum_dict q))"

text \<open>\<^verbatim>\<open>by_gate[...]\<close> of a dictionary in which the last evidence of a gate wins, or KeyError; \<^verbatim>\<open>min(observed)\<close>
  of an empty tuple is a ValueError.\<close>

definition gate_passed :: "verification_bundle \<Rightarrow> verification_gate \<Rightarrow> bool result" where
  "gate_passed b gate =
     (case map_of (rev (map (\<lambda>item. (gate_value (ve_gate item), item)) (vb_evidence b))) (gate_value gate) of
        None \<Rightarrow> raise (BuiltinKeyError (gate_value gate))
      | Some item \<Rightarrow> return (ve_passed item))"

definition quorum_from_bundle :: "verification_bundle \<Rightarrow> int \<Rightarrow> int \<Rightarrow> quorum result" where
  "quorum_from_bundle b now_epoch max_age =
     (if now_epoch < 0 then raise_ns ''now_epoch cannot be negative''
      else if max_age \<le> 0 then raise_ns ''max_evidence_age_seconds must be positive''
      else let observed = map ve_observed_at_epoch (vb_evidence b) in
      if \<exists>item \<in> set observed. item > now_epoch
      then raise_ns ''verification evidence cannot be observed in the future''
      else if observed = [] then raise (BuiltinValueError ''min() iterable argument is empty'')
      else let valid_until = Min (set observed) + max_age in
      if now_epoch \<ge> valid_until then raise_ns ''verification evidence expired''
      else and_then (gate_passed b FOCUSED_TESTS) (\<lambda>focused.
      and_then (gate_passed b STATIC_SECURITY) (\<lambda>static.
      and_then (gate_passed b SCOPE_GUARD) (\<lambda>scope.
      and_then (gate_passed b REQUIRED_REGRESSION) (\<lambda>regression.
      and_then (gate_passed b INDEPENDENT_REVIEW) (\<lambda>review.
      and_then (gate_passed b EXACT_SHA_CI) (\<lambda>ci.
      and_then (gate_passed b POLICY_ENGINE) (\<lambda>policy.
      quorum_init \<lparr>vq_focused_tests_pass = focused, vq_static_security_pass = static,
        vq_scope_guard_pass = scope, vq_required_regression_pass = regression,
        vq_independent_review_pass = review, vq_exact_sha_ci_pass = ci, vq_policy_engine_pass = policy,
        vq_builder_identity = vb_builder_identity b, vq_reviewer_identity = vb_reviewer_identity b,
        vq_subject_sha = vb_subject_sha b, vq_task_capsule_digest = vb_task_capsule_digest b,
        vq_evidence_digest = verification_bundle_digest b,
        vq_evidence_valid_until_epoch = valid_until\<rparr>))))))))"

section \<open>The decision\<close>

record promotion_decision =
  pd_state :: promotion_state
  pd_reason :: string
  pd_crypto_digest :: "string option"
  pd_clearance_digest :: "string option"

abbreviation decide :: "promotion_state \<Rightarrow> string \<Rightarrow> string option \<Rightarrow> string option \<Rightarrow> promotion_decision" where
  "decide s reason crypto shadow \<equiv>
     \<lparr>pd_state = s, pd_reason = reason, pd_crypto_digest = crypto, pd_clearance_digest = shadow\<rparr>"

definition shadow_auto_gate ::
  "promotion_clearance option \<Rightarrow> string option \<Rightarrow> string \<Rightarrow> string \<Rightarrow> string \<Rightarrow> int \<Rightarrow> string \<Rightarrow>
   promotion_decision option result" where
  "shadow_auto_gate clearance expected_ledger_digest repository subject_sha task_digest now_epoch crypto_digest =
     (case clearance of
        None \<Rightarrow> return (Some (decide PROMOTION_READY_FOR_HUMAN ''shadow promotion clearance required''
          (Some crypto_digest) None))
      | Some c \<Rightarrow>
          and_then (clearance_require_fresh c now_epoch) (\<lambda>_.
          case expected_ledger_digest of
            None \<Rightarrow> raise_ns ''shadow ledger digest authority is required for auto promotion''
          | Some raw \<Rightarrow>
              and_then (ns_sha raw ''expected_shadow_ledger_digest'') (\<lambda>expected_ledger.
              if pc_ledger_digest c \<noteq> expected_ledger
              then raise_ns ''shadow clearance does not match expected autonomy debt ledger''
              else if pc_repository c \<noteq> repository
              then raise_ns ''shadow clearance belongs to a different repository''
              else if pc_subject_sha c \<noteq> subject_sha
              then raise_ns ''shadow clearance is bound to a different SHA''
              else if pc_task_capsule_digest c \<noteq> task_digest
              then raise_ns ''shadow clearance is bound to a different task capsule''
              else if pc_sample_count c < pc_minimum_samples c
              then return (Some (decide PROMOTION_READY_FOR_HUMAN ''insufficient shadow calibration samples''
                (Some crypto_digest) (Some (promotion_clearance_digest c))))
              else if pc_debt_value c \<ge> pc_downgrade_threshold c
              then return (Some (decide PROMOTION_READY_FOR_HUMAN ''autonomy debt threshold reached''
                (Some crypto_digest) (Some (promotion_clearance_digest c))))
              else return None)))"

text \<open>The same last step in the branches of R0 and R1: the gate, then automatic eligibility.\<close>

definition gate_then_auto ::
  "promotion_clearance option \<Rightarrow> string option \<Rightarrow> string \<Rightarrow> string \<Rightarrow> string \<Rightarrow> int \<Rightarrow> string \<Rightarrow> string \<Rightarrow>
   promotion_decision result" where
  "gate_then_auto clearance expected_ledger_digest repository subject_sha task_digest now_epoch crypto_digest reason =
     and_then (shadow_auto_gate clearance expected_ledger_digest repository subject_sha task_digest now_epoch
       crypto_digest) (\<lambda>shadow_gate.
     case shadow_gate of
       Some d \<Rightarrow> return d
     | None \<Rightarrow> (case clearance of
           None \<Rightarrow> raise_ns ''shadow gate invariant allowed auto without clearance''
         | Some c \<Rightarrow> return (decide ELIGIBLE_AUTO reason (Some crypto_digest) (Some (promotion_clearance_digest c)))))"

definition decide_promotion ::
  "(byte list \<Rightarrow> byte list \<Rightarrow> byte list \<Rightarrow> bool) \<Rightarrow> string \<Rightarrow> risk_class \<Rightarrow> autonomy_envelope \<Rightarrow> quorum \<Rightarrow>
   crypto_context option \<Rightarrow> promotion_clearance option \<Rightarrow> string option \<Rightarrow> string \<Rightarrow> string \<Rightarrow> int \<Rightarrow>
   promotion_decision result" where
  "decide_promotion ed_verify repository risk envelope q context clearance expected_ledger subject task now_epoch =
     and_then (require_git_oid subject ''subject_sha'') (\<lambda>expected_sha.
     and_then (ns_sha task ''task_capsule_digest'') (\<lambda>expected_task.
     if vq_subject_sha q \<noteq> expected_sha then raise_ns ''verification quorum is bound to a different SHA''
     else if vq_task_capsule_digest q \<noteq> expected_task
     then raise_ns ''verification quorum is bound to a different task capsule''
     else and_then (require_authorized envelope repository risk now_epoch) (\<lambda>_.
     if now_epoch \<ge> vq_evidence_valid_until_epoch q
     then return (decide PROMOTION_BLOCKED ''verification evidence expired'' None None)
     else if \<not> quorum_passed q then return (decide PROMOTION_BLOCKED ''verification quorum incomplete'' None None)
     else case context of
       None \<Rightarrow> raise_ns ''cryptographic verification context is required for promotion''
     | Some cc \<Rightarrow>
     (let bundle = cc_bundle cc in
     if vb_subject_sha bundle \<noteq> expected_sha
     then raise_ns ''cryptographic verification bundle is bound to a different SHA''
     else if vb_task_capsule_digest bundle \<noteq> expected_task
     then raise_ns ''cryptographic verification bundle is bound to a different task capsule''
     else if verification_bundle_digest bundle \<noteq> vq_evidence_digest q
     then raise_ns ''cryptographic verification bundle does not match quorum evidence''
     else if vb_builder_identity bundle \<noteq> vq_builder_identity q \<or> vb_reviewer_identity bundle \<noteq> vq_reviewer_identity q
     then raise_ns ''cryptographic verification identities do not match quorum''
     else and_then (verify_bundle_signatures ed_verify cc (quorum_digest q) (vq_evidence_valid_until_epoch q) now_epoch)
       (\<lambda>verified.
     let crypto_digest = verified_signatures_digest verified in
     if risk \<in> {R2, R3, R4}
     then return (decide PROMOTION_READY_FOR_HUMAN (risk_value risk @ '' requires human promotion authority'')
       (Some crypto_digest) None)
     else if ae_promotion_mode envelope = HUMAN
     then return (decide PROMOTION_READY_FOR_HUMAN ''authority envelope requires human promotion''
       (Some crypto_digest) None)
     else if risk = R1
     then if ae_promotion_mode envelope = PREAUTHORIZED
       then gate_then_auto clearance expected_ledger repository expected_sha expected_task now_epoch crypto_digest
         ''R1 pre-authorized with verification and shadow clearance''
       else return (decide PROMOTION_READY_FOR_HUMAN ''R1 lacks pre-authorized promotion authority''
         (Some crypto_digest) None)
     else if risk = R0
     then gate_then_auto clearance expected_ledger repository expected_sha expected_task now_epoch crypto_digest
       ''R0 verification and shadow clearance passed under unattended authority''
     else return (decide PROMOTION_BLOCKED ''unsupported promotion state'' (Some crypto_digest) None))))))"

section \<open>Laws\<close>

lemma quorum_passed_all:
  "quorum_passed q \<longleftrightarrow> vq_focused_tests_pass q \<and> vq_static_security_pass q \<and> vq_scope_guard_pass q \<and>
     vq_required_regression_pass q \<and> vq_independent_review_pass q \<and> vq_exact_sha_ci_pass q \<and>
     vq_policy_engine_pass q"
  by (simp add: quorum_passed_def)

interpretation quorums: content_addressed "\<lambda>_. True" quorum_dict
  by unfold_locales (simp_all add: norm_json_JObj_same_keys quorum_dict_def quorum.equality del: norm_json.simps(6))

lemma gate_passed_ok:
  assumes "bundle_ok b" "e \<in> set (vb_evidence b)"
  shows "gate_passed b (ve_gate e) = Inr (ve_passed e)"
proof -
  let ?kvs = "map (\<lambda>item. (gate_value (ve_gate item), item)) (vb_evidence b)"
  have "distinct (map fst ?kvs)"
    using assms(1) by (auto simp: bundle_ok_def distinct_map comp_def inj_on_def)
  then have "map_of (rev ?kvs) = map_of ?kvs" by (intro map_of_inject_set [THEN iffD2]) (simp_all flip: rev_map del: map_map)
  moreover have "map_of ?kvs (gate_value (ve_gate e)) = Some e"
    using \<open>distinct (map fst ?kvs)\<close> assms(2) by (intro map_of_is_SomeI) auto
  ultimately show ?thesis by (simp add: gate_passed_def)
qed

lemma gate_passed_total:
  assumes "bundle_ok b"
  shows "\<exists>e \<in> set (vb_evidence b). ve_gate e = g \<and> gate_passed b g = Inr (ve_passed e)"
proof -
  obtain e where "e \<in> set (vb_evidence b)" "ve_gate e = g"
    using assms by (metis bundle_ok_def UNIV_I imageE set_map)
  then show ?thesis using gate_passed_ok [OF assms] by blast
qed

lemma all_gates_cases:
  "(\<forall>g. P g) \<longleftrightarrow> P FOCUSED_TESTS \<and> P STATIC_SECURITY \<and> P SCOPE_GUARD \<and> P REQUIRED_REGRESSION \<and>
     P INDEPENDENT_REVIEW \<and> P EXACT_SHA_CI \<and> P POLICY_ENGINE"
  by (metis verification_gate.exhaust)

text \<open>Each gate of the quorum is what the bundle's evidence of it says.\<close>

lemma quorum_from_bundle_Inr:
  assumes ok: "bundle_ok b"
  shows "quorum_from_bundle b now age = Inr q \<longleftrightarrow>
    0 \<le> now \<and> 0 < age \<and>
    (\<forall>e \<in> set (vb_evidence b). ve_observed_at_epoch e \<le> now \<and> now < ve_observed_at_epoch e + age) \<and>
    (\<forall>g. gate_passed b g = Inr (case g of FOCUSED_TESTS \<Rightarrow> vq_focused_tests_pass q
        | STATIC_SECURITY \<Rightarrow> vq_static_security_pass q | SCOPE_GUARD \<Rightarrow> vq_scope_guard_pass q
        | REQUIRED_REGRESSION \<Rightarrow> vq_required_regression_pass q | INDEPENDENT_REVIEW \<Rightarrow> vq_independent_review_pass q
        | EXACT_SHA_CI \<Rightarrow> vq_exact_sha_ci_pass q | POLICY_ENGINE \<Rightarrow> vq_policy_engine_pass q)) \<and>
    vq_builder_identity q = vb_builder_identity b \<and> vq_reviewer_identity q = vb_reviewer_identity b \<and>
    vq_subject_sha q = vb_subject_sha b \<and> vq_task_capsule_digest q = vb_task_capsule_digest b \<and>
    vq_evidence_digest q = verification_bundle_digest b \<and>
    vq_evidence_valid_until_epoch q = Min (ve_observed_at_epoch ` set (vb_evidence b)) + age"
  (is "_ \<longleftrightarrow> ?rhs")
proof -
  let ?O = "ve_observed_at_epoch ` set (vb_evidence b)"
  obtain e where "e \<in> set (vb_evidence b)" using gate_passed_total [OF ok] by blast
  then have ne: "vb_evidence b \<noteq> []" "?O \<noteq> {}" by auto
  have fresh: "now < Min ?O + age \<longleftrightarrow> (\<forall>e \<in> set (vb_evidence b). now < ve_observed_at_epoch e + age)"
    using Min_gr_iff [of ?O "now - age"] ne by (auto simp: algebra_simps)
  define f where "f g = projr (gate_passed b g)" for g
  have f: "gate_passed b g = Inr (f g)" for g using gate_passed_total [OF ok, of g] by (auto simp: f_def)
  let ?q = "\<lparr>vq_focused_tests_pass = f FOCUSED_TESTS, vq_static_security_pass = f STATIC_SECURITY,
    vq_scope_guard_pass = f SCOPE_GUARD, vq_required_regression_pass = f REQUIRED_REGRESSION,
    vq_independent_review_pass = f INDEPENDENT_REVIEW, vq_exact_sha_ci_pass = f EXACT_SHA_CI,
    vq_policy_engine_pass = f POLICY_ENGINE, vq_builder_identity = vb_builder_identity b,
    vq_reviewer_identity = vb_reviewer_identity b, vq_subject_sha = vb_subject_sha b,
    vq_task_capsule_digest = vb_task_capsule_digest b, vq_evidence_digest = verification_bundle_digest b,
    vq_evidence_valid_until_epoch = Min ?O + age\<rparr>"
  have init: "quorum_init ?q = Inr ?q" if "0 \<le> Min ?O + age"
    using ok that by (auto simp: quorum_init_def bundle_ok_def is_text_def strip_id)
  have "quorum_from_bundle b now age = Inr q \<longleftrightarrow> 0 \<le> now \<and> 0 < age \<and> (\<forall>e \<in> set (vb_evidence b).
      ve_observed_at_epoch e \<le> now) \<and> now < Min ?O + age \<and> q = ?q"
    using ne f init by (auto simp: quorum_from_bundle_def Let_def not_le)
  also have "q = ?q \<longleftrightarrow>
    (\<forall>g. gate_passed b g = Inr (case g of FOCUSED_TESTS \<Rightarrow> vq_focused_tests_pass q
        | STATIC_SECURITY \<Rightarrow> vq_static_security_pass q | SCOPE_GUARD \<Rightarrow> vq_scope_guard_pass q
        | REQUIRED_REGRESSION \<Rightarrow> vq_required_regression_pass q | INDEPENDENT_REVIEW \<Rightarrow> vq_independent_review_pass q
        | EXACT_SHA_CI \<Rightarrow> vq_exact_sha_ci_pass q | POLICY_ENGINE \<Rightarrow> vq_policy_engine_pass q)) \<and>
    vq_builder_identity q = vb_builder_identity b \<and> vq_reviewer_identity q = vb_reviewer_identity b \<and>
    vq_subject_sha q = vb_subject_sha b \<and> vq_task_capsule_digest q = vb_task_capsule_digest b \<and>
    vq_evidence_digest q = verification_bundle_digest b \<and>
    vq_evidence_valid_until_epoch q = Min ?O + age" (is "_ \<longleftrightarrow> ?r")
  proof
    assume ?r
    then show "q = ?q" by (intro quorum.equality) (simp_all add: all_gates_cases f)
  qed (auto simp: f split: verification_gate.split)
  finally show ?thesis unfolding fresh by blast
qed

lemma quorum_passed_iff_bundle:
  assumes "bundle_ok b" "quorum_from_bundle b now age = Inr q"
  shows "quorum_passed q \<longleftrightarrow> bundle_passed b"
proof -
  note q = assms(2) [unfolded quorum_from_bundle_Inr [OF assms(1)]]
  have "gate_passed b FOCUSED_TESTS = Inr (vq_focused_tests_pass q)"
    "gate_passed b STATIC_SECURITY = Inr (vq_static_security_pass q)"
    "gate_passed b SCOPE_GUARD = Inr (vq_scope_guard_pass q)"
    "gate_passed b REQUIRED_REGRESSION = Inr (vq_required_regression_pass q)"
    "gate_passed b INDEPENDENT_REVIEW = Inr (vq_independent_review_pass q)"
    "gate_passed b EXACT_SHA_CI = Inr (vq_exact_sha_ci_pass q)"
    "gate_passed b POLICY_ENGINE = Inr (vq_policy_engine_pass q)"
    using q by simp_all
  then have "quorum_passed q \<longleftrightarrow> (\<forall>g. gate_passed b g = Inr True)"
    unfolding all_gates_cases quorum_passed_all by simp
  also have "\<dots> \<longleftrightarrow> bundle_passed b"
  proof
    assume all: "\<forall>g. gate_passed b g = Inr True"
    show "bundle_passed b" unfolding bundle_passed_def list_all_iff
    proof
      fix e
      assume "e \<in> set (vb_evidence b)"
      then show "ve_passed e" using gate_passed_ok [OF assms(1)] all by simp
    qed
  next
    assume "bundle_passed b"
    then show "\<forall>g. gate_passed b g = Inr True"
      using gate_passed_total [OF assms(1)] by (auto simp: bundle_passed_def list_all_iff)
  qed
  finally show ?thesis .
qed

lemma shadow_auto_gate_None:
  "shadow_auto_gate clearance expected repository sha task now crypto = Inr None \<longleftrightarrow>
     (\<exists>c raw. clearance = Some c \<and> expected = Some raw \<and> is_sha256 (lower (strip raw)) \<and>
        pc_ledger_digest c = lower (strip raw) \<and> pc_repository c = repository \<and> pc_subject_sha c = sha \<and>
        pc_task_capsule_digest c = task \<and> allows_auto c \<and> clearance_require_fresh c now = Inr ())"
  by (auto simp: shadow_auto_gate_def ns_sha_Inr allows_auto_def split: option.splits)

lemma shadow_auto_gate_human:
  "shadow_auto_gate clearance expected repository sha task now crypto = Inr (Some d) \<Longrightarrow>
     pd_state d = PROMOTION_READY_FOR_HUMAN"
  by (auto simp: shadow_auto_gate_def split: option.splits if_splits)

lemma gate_then_auto_Inr:
  assumes "gate_then_auto clearance expected repository sha task now crypto reason = Inr d" "pd_state d = ELIGIBLE_AUTO"
  shows "shadow_auto_gate clearance expected repository sha task now crypto = Inr None"
proof -
  obtain g where g: "shadow_auto_gate clearance expected repository sha task now crypto = Inr g"
    using assms(1) by (auto simp: gate_then_auto_def)
  then show ?thesis
    using assms shadow_auto_gate_human [of clearance expected repository sha task now crypto d]
    by (cases g) (auto simp: gate_then_auto_def)
qed

text \<open>The branches that end in automatic eligibility.\<close>

lemma decide_promotion_auto:
  assumes "decide_promotion ed repository risk envelope q context clearance expected subject task now = Inr d"
    and "pd_state d = ELIGIBLE_AUTO"
  shows "\<exists>cc v. context = Some cc \<and> is_git_oid (lower (strip subject)) \<and> is_sha256 (lower (strip task)) \<and>
    vq_subject_sha q = lower (strip subject) \<and> vq_task_capsule_digest q = lower (strip task) \<and>
    require_authorized envelope repository risk now = Inr () \<and>
    now < vq_evidence_valid_until_epoch q \<and> quorum_passed q \<and>
    vb_subject_sha (cc_bundle cc) = lower (strip subject) \<and>
    vb_task_capsule_digest (cc_bundle cc) = lower (strip task) \<and>
    verification_bundle_digest (cc_bundle cc) = vq_evidence_digest q \<and>
    vb_builder_identity (cc_bundle cc) = vq_builder_identity q \<and>
    vb_reviewer_identity (cc_bundle cc) = vq_reviewer_identity q \<and>
    verify_bundle_signatures ed cc (quorum_digest q) (vq_evidence_valid_until_epoch q) now = Inr v \<and>
    risk \<in> {R0, R1} \<and> ae_promotion_mode envelope \<noteq> HUMAN \<and>
    (risk = R1 \<longrightarrow> ae_promotion_mode envelope = PREAUTHORIZED) \<and>
    shadow_auto_gate clearance expected repository (lower (strip subject)) (lower (strip task)) now
      (verified_signatures_digest v) = Inr None"
  using assms
  by (cases risk)
    (auto simp: decide_promotion_def require_git_oid_Inr ns_sha_Inr Let_def
      split: if_splits option.splits dest: gate_then_auto_Inr)

lemma quorum_from_bundle_total:
  assumes "bundle_ok b" "0 \<le> now" "0 < age"
    and "\<forall>e \<in> set (vb_evidence b). ve_observed_at_epoch e \<le> now \<and> now < ve_observed_at_epoch e + age"
  shows "\<exists>q. quorum_from_bundle b now age = Inr q"
proof -
  define f where "f g = projr (gate_passed b g)" for g
  have f: "gate_passed b g = Inr (f g)" for g using gate_passed_total [OF assms(1), of g] by (auto simp: f_def)
  show ?thesis unfolding quorum_from_bundle_Inr [OF assms(1)] all_gates_cases f
    using assms(2-4)
    by (intro exI [of _ "\<lparr>vq_focused_tests_pass = f FOCUSED_TESTS, vq_static_security_pass = f STATIC_SECURITY,
    vq_scope_guard_pass = f SCOPE_GUARD, vq_required_regression_pass = f REQUIRED_REGRESSION,
    vq_independent_review_pass = f INDEPENDENT_REVIEW, vq_exact_sha_ci_pass = f EXACT_SHA_CI,
    vq_policy_engine_pass = f POLICY_ENGINE, vq_builder_identity = vb_builder_identity b,
    vq_reviewer_identity = vb_reviewer_identity b, vq_subject_sha = vb_subject_sha b,
    vq_task_capsule_digest = vb_task_capsule_digest b, vq_evidence_digest = verification_bundle_digest b,
    vq_evidence_valid_until_epoch = Min (ve_observed_at_epoch ` set (vb_evidence b)) + age\<rparr>"]) simp
qed

lemma gate_then_auto_open:
  assumes "shadow_auto_gate (Some c) expected repository sha task now crypto = Inr None"
  shows "gate_then_auto (Some c) expected repository sha task now crypto reason =
    Inr (decide ELIGIBLE_AUTO reason (Some crypto) (Some (promotion_clearance_digest c)))"
  using assms by (simp add: gate_then_auto_def)

text \<open>The whole path to automatic eligibility, from the evidence and the ledger on.\<close>

lemma promotion_pipeline:
  assumes ok: "bundle_ok b" and passed: "bundle_passed b"
    and q: "quorum_from_bundle b t0 age = Inr q"
    and s: "sign_verification_bundle b (quorum_digest q) (vq_evidence_valid_until_epoch q) t pin builder reviewer
      issued nonce = Inr s"
    and ed: "\<And>m. ed_verify (sg_public_key builder) (sg_sign builder m) m"
      "\<And>m. ed_verify (sg_public_key reviewer) (sg_sign reviewer m) m"
    and l: "debt_ledger_ok l" "\<not> requires_downgrade l" "has_minimum_samples l"
    and c: "issue_shadow_clearance l (vb_subject_sha b) (vb_task_capsule_digest b) t1 ttl = Inr c"
    and env: "autonomy_envelope_ok env" "require_authorized env (dl_repository l) risk now = Inr ()"
      "ae_promotion_mode env \<noteq> HUMAN"
    and time: "issued \<le> now" "now < vq_evidence_valid_until_epoch q" "t1 \<le> now" "now < t1 + ttl"
  shows "\<exists>d. decide_promotion ed_verify (dl_repository l) risk env q
      (Some \<lparr>cc_bundle = b, cc_signed = s, cc_trust_set = t, cc_expected_trust_set_digest = sb_trust_set_digest s\<rparr>)
      (Some c) (Some (debt_ledger_digest l)) (vb_subject_sha b) (vb_task_capsule_digest b) now = Inr d \<and>
    pd_state d = ELIGIBLE_AUTO \<and> pd_clearance_digest d = Some (promotion_clearance_digest c)"
proof -
  note q' = q [unfolded quorum_from_bundle_Inr [OF ok]]
  obtain v where v: "verify_bundle_signatures ed_verify \<lparr>cc_bundle = b, cc_signed = s, cc_trust_set = t,
      cc_expected_trust_set_digest = sb_trust_set_digest s\<rparr> (quorum_digest q) (vq_evidence_valid_until_epoch q) now = Inr v"
    using signed_bundle_verified [where ed_verify = ed_verify, OF ok s ed time(1,2)] by blast
  have ids: "is_git_oid (vb_subject_sha b)" "is_sha256 (vb_task_capsule_digest b)"
    using ok by (simp_all add: bundle_ok_def)
  then have c': "c = \<lparr>pc_repository = dl_repository l, pc_subject_sha = vb_subject_sha b,
        pc_task_capsule_digest = vb_task_capsule_digest b, pc_ledger_digest = debt_ledger_digest l,
        pc_debt_value = ledger_value l, pc_downgrade_threshold = dl_downgrade_threshold l,
        pc_sample_count = sample_count l, pc_minimum_samples = dl_minimum_samples l,
        pc_issued_at_epoch = t1, pc_expires_at_epoch = t1 + ttl\<rparr>"
    using c l(1) by (auto simp: issue_shadow_clearance_def promotion_clearance_init_def debt_ledger_ok_def
        split: if_splits)
  have gate: "shadow_auto_gate (Some c) (Some (debt_ledger_digest l)) (dl_repository l) (vb_subject_sha b)
      (vb_task_capsule_digest b) now crypto = Inr None" for crypto
    using l(2,3) time(3,4) unfolding shadow_auto_gate_None
    by (simp add: c' allows_auto_def requires_downgrade_def has_minimum_samples_def clearance_require_fresh_def
        sha256_normal_text)
  have risk: "risk = R0 \<or> risk = R1 \<and> ae_promotion_mode env = PREAUTHORIZED"
    using env by (cases "ae_promotion_mode env") (auto simp: autonomy_envelope_ok_def require_authorized_Inr)
  have "quorum_passed q" using quorum_passed_iff_bundle [OF ok q] passed by simp
  then show ?thesis using q' v ids env time risk
    by (auto simp: decide_promotion_def gate_then_auto_open [OF gate])
qed

section \<open>Properties\<close>

text \<open>C15: Automatic promotion is sound. When \<^verbatim>\<open>decide_promotion\<close> returns ELIGIBLE_AUTO, the risk class
  is R0 or R1 and the envelope authorizes it for the repository now in a mode other than HUMAN,
  PREAUTHORIZED for R1; all seven gates of the quorum passed and its evidence has not expired;
  builder and reviewer are different keys of the pinned trust set, each vouching with an unrevoked
  key for exactly this bundle, quorum and expiry; and a fresh shadow clearance bound to the same
  repository, commit, task and authoritative ledger digest shows debt below its threshold and enough
  samples.\<close>

theorem promotion_auto_sound:
  assumes "decide_promotion ed repository risk envelope q context clearance expected subject task now = return d"
    and "pd_state d = ELIGIBLE_AUTO"
  shows "(risk = R0 \<or> risk = R1 \<and> ae_promotion_mode envelope = PREAUTHORIZED) \<and> ae_promotion_mode envelope \<noteq> HUMAN \<and>
    require_authorized envelope repository risk now = return () \<and>
    quorum_passed q \<and> now < vq_evidence_valid_until_epoch q \<and>
    (\<exists>cc p p'. context = Some cc \<and>
       trust_set_digest (cc_trust_set cc) = lower (strip (cc_expected_trust_set_digest cc)) \<and>
       verification_bundle_digest (cc_bundle cc) = vq_evidence_digest q \<and>
       vq_builder_identity q \<noteq> vq_reviewer_identity q \<and>
       sa_key_id (sb_builder_attestation (cc_signed cc)) = vq_builder_identity q \<and>
       sa_key_id (sb_reviewer_attestation (cc_signed cc)) = vq_reviewer_identity q \<and>
       verification_payload (cc_bundle cc) ''builder'' (vq_builder_identity q) (quorum_digest q)
         (vq_evidence_valid_until_epoch q) = return p \<and>
       verification_payload (cc_bundle cc) ''reviewer'' (vq_reviewer_identity q) (quorum_digest q)
         (vq_evidence_valid_until_epoch q) = return p' \<and>
       vouches ed (cc_trust_set cc) (sb_builder_attestation (cc_signed cc)) PROVENANCE
         (verification_bundle_digest (cc_bundle cc)) p now \<and>
       vouches ed (cc_trust_set cc) (sb_reviewer_attestation (cc_signed cc)) SECURITY_REVIEW
         (verification_bundle_digest (cc_bundle cc)) p' now) \<and>
    (\<exists>c raw. clearance = Some c \<and> expected = Some raw \<and> pc_ledger_digest c = lower (strip raw) \<and>
       pc_repository c = repository \<and> pc_subject_sha c = vq_subject_sha q \<and>
       pc_task_capsule_digest c = vq_task_capsule_digest q \<and>
       pc_debt_value c < pc_downgrade_threshold c \<and> pc_minimum_samples c \<le> pc_sample_count c \<and>
       pc_issued_at_epoch c \<le> now \<and> now < pc_expires_at_epoch c)"
proof -
  obtain cc v where *: "context = Some cc" "require_authorized envelope repository risk now = Inr ()"
      "now < vq_evidence_valid_until_epoch q" "quorum_passed q"
      "verification_bundle_digest (cc_bundle cc) = vq_evidence_digest q"
      "vb_builder_identity (cc_bundle cc) = vq_builder_identity q"
      "vb_reviewer_identity (cc_bundle cc) = vq_reviewer_identity q" "risk \<in> {R0, R1}"
      "ae_promotion_mode envelope \<noteq> HUMAN" "risk = R1 \<longrightarrow> ae_promotion_mode envelope = PREAUTHORIZED"
    and bind: "vq_subject_sha q = lower (strip subject)" "vq_task_capsule_digest q = lower (strip task)"
    and v: "verify_bundle_signatures ed cc (quorum_digest q) (vq_evidence_valid_until_epoch q) now = Inr v"
    and gate: "shadow_auto_gate clearance expected repository (lower (strip subject)) (lower (strip task)) now
      (verified_signatures_digest v) = Inr None"
    using decide_promotion_auto [OF assms] by blast
  note sig = verify_bundle_signatures_Inr [OF v, unfolded *(6,7)]
  obtain c raw where c: "clearance = Some c" "expected = Some raw" "pc_ledger_digest c = lower (strip raw)"
      "pc_repository c = repository" "pc_subject_sha c = vq_subject_sha q"
      "pc_task_capsule_digest c = vq_task_capsule_digest q" "allows_auto c" "clearance_require_fresh c now = Inr ()"
    using gate bind unfolding shadow_auto_gate_None by auto
  have fresh: "pc_issued_at_epoch c \<le> now \<and> now < pc_expires_at_epoch c"
    using c(8) by (simp add: clearance_require_fresh_def split: if_splits)
  obtain p p' where p: "verification_payload (cc_bundle cc) ''builder'' (vq_builder_identity q) (quorum_digest q)
         (vq_evidence_valid_until_epoch q) = Inr p"
       "verification_payload (cc_bundle cc) ''reviewer'' (vq_reviewer_identity q) (quorum_digest q)
         (vq_evidence_valid_until_epoch q) = Inr p'"
       "vouches ed (cc_trust_set cc) (sb_builder_attestation (cc_signed cc)) PROVENANCE
         (verification_bundle_digest (cc_bundle cc)) p now"
       "vouches ed (cc_trust_set cc) (sb_reviewer_attestation (cc_signed cc)) SECURITY_REVIEW
         (verification_bundle_digest (cc_bundle cc)) p' now"
    using sig by blast
  have "risk = R0 \<or> risk = R1 \<and> ae_promotion_mode envelope = PREAUTHORIZED" using *(8,10) by auto
  moreover note *(2-4,9) sig
  ultimately show ?thesis
    using c(1-6) c(7) [unfolded allows_auto_def] fresh p *(1,5)
    by (intro conjI exI [of _ cc] exI [of _ p] exI [of _ p'] exI [of _ c] exI [of _ raw]) simp_all
qed

text \<open>The evidence behind an automatic promotion. When the quorum was derived from a constructed
  bundle by \<^verbatim>\<open>quorum_from_bundle\<close> and the decision is ELIGIBLE_AUTO, every gate has passing evidence in
  that bundle, all of it for the quorum's commit and task and younger than the age limit at the time
  of the decision, and the bundle whose signatures were checked is that bundle, or the two are an
  exhibited SHA-256 collision.\<close>

theorem promotion_auto_evidence:
  assumes "verification_bundle_init b0 = return b" and "quorum_from_bundle b t0 age = return q"
    and "decide_promotion ed repository risk envelope q context clearance expected subject task now = return d"
    and "pd_state d = ELIGIBLE_AUTO"
  shows "(\<forall>g. \<exists>e \<in> set (vb_evidence b). ve_gate e = g \<and> ve_passed e \<and> ve_subject_sha e = vq_subject_sha q \<and>
       ve_task_capsule_digest e = vq_task_capsule_digest q \<and> ve_observed_at_epoch e \<le> t0 \<and>
       now < ve_observed_at_epoch e + age) \<and>
    (\<exists>cc. context = Some cc \<and> same_or_clash verification_bundle_dict (cc_bundle cc) b)"
proof -
  have ok: "bundle_ok b" by (rule verification_bundle_init_ok [OF assms(1)])
  note q = assms(2) [unfolded quorum_from_bundle_Inr [OF ok]]
  obtain cc where cc: "context = Some cc" "quorum_passed q" "now < vq_evidence_valid_until_epoch q"
      "verification_bundle_digest (cc_bundle cc) = vq_evidence_digest q"
    using decide_promotion_auto [OF assms(3,4)] by blast
  have "bundle_passed b" using quorum_passed_iff_bundle [OF ok assms(2)] cc by simp
  moreover have "now < ve_observed_at_epoch e + age" if "e \<in> set (vb_evidence b)" for e
  proof -
    have "Min (ve_observed_at_epoch ` set (vb_evidence b)) \<le> ve_observed_at_epoch e" using that by simp
    then show ?thesis using cc(3) q by linarith
  qed
  ultimately have "\<exists>e \<in> set (vb_evidence b). ve_gate e = g \<and> ve_passed e \<and> ve_subject_sha e = vq_subject_sha q \<and>
       ve_task_capsule_digest e = vq_task_capsule_digest q \<and> ve_observed_at_epoch e \<le> t0 \<and>
       now < ve_observed_at_epoch e + age" for g
    using gate_passed_total [OF ok, of g] q ok by (auto simp: bundle_passed_def list_all_iff bundle_ok_def)
  moreover have "same_or_clash verification_bundle_dict (cc_bundle cc) b"
    using bundles.digest_binds [of "cc_bundle cc" b] cc(4) q
    by (simp add: same_or_clash_def verification_bundle_digest_def)
  ultimately show ?thesis using cc(1) by blast
qed

text \<open>C16: Automatic promotion is reachable through the program's own steps. From a constructed bundle
  whose evidence all passed, the quorum derived from it, the bundle signed for that quorum, a ledger
  that needs no downgrade and has its samples, the clearance issued from it and a constructed envelope that
  authorizes the risk class in a mode other than HUMAN, the decision at any time inside the lifetimes
  is ELIGIBLE_AUTO, with the clearance named by its digest.\<close>

theorem promotion_pipeline_reaches_auto:
  assumes "verification_bundle_init b0 = return b" and "bundle_passed b"
    and "quorum_from_bundle b t0 age = return q"
    and "sign_verification_bundle b (quorum_digest q) (vq_evidence_valid_until_epoch q) t pin builder reviewer
      issued nonce = return s"
    and "\<And>m. ed_verify (sg_public_key builder) (sg_sign builder m) m"
    and "\<And>m. ed_verify (sg_public_key reviewer) (sg_sign reviewer m) m"
    and "debt_ledger_init l0 = return l" and "\<not> requires_downgrade l" and "has_minimum_samples l"
    and "issue_shadow_clearance l (vb_subject_sha b) (vb_task_capsule_digest b) t1 ttl = return c"
    and "autonomy_envelope_init e0 = return env" and "require_authorized env (dl_repository l) risk now = return ()"
    and "ae_promotion_mode env \<noteq> HUMAN"
    and "issued \<le> now" and "now < vq_evidence_valid_until_epoch q" and "t1 \<le> now" and "now < t1 + ttl"
  shows "\<exists>d. decide_promotion ed_verify (dl_repository l) risk env q
      (Some \<lparr>cc_bundle = b, cc_signed = s, cc_trust_set = t, cc_expected_trust_set_digest = sb_trust_set_digest s\<rparr>)
      (Some c) (Some (debt_ledger_digest l)) (vb_subject_sha b) (vb_task_capsule_digest b) now = return d \<and>
    pd_state d = ELIGIBLE_AUTO \<and> pd_clearance_digest d = Some (promotion_clearance_digest c)"
  using assms by (intro promotion_pipeline verification_bundle_init_ok debt_ledger_init_ok autonomy_envelope_init_ok)

section \<open>Sample inputs\<close>

lemma sample_quorum: "\<exists>q. quorum_from_bundle sample_bundle 5 10 = return q \<and> vq_evidence_valid_until_epoch q = 15"
proof -
  have ok: "bundle_ok sample_bundle" by (rule verification_bundle_init_ok [OF sample_bundle_init])
  have "\<forall>e \<in> set (vb_evidence sample_bundle). ve_observed_at_epoch e = 5"
    by (simp add: sample_bundle_def sample_evidence_def)
  moreover have "ve_observed_at_epoch ` set (vb_evidence sample_bundle) = {5}"
    by (simp add: sample_bundle_def sample_evidence_def)
  ultimately show ?thesis
    using quorum_from_bundle_total [OF ok, of 5 10] quorum_from_bundle_Inr [OF ok, of 5 10] by auto
qed

lemma sample_passed: "bundle_passed sample_bundle"
  by (simp add: bundle_passed_def sample_bundle_def sample_evidence_def)

lemma sample_ledger_ready:
  "\<not> requires_downgrade (sample_debt_ledger sample_events)" "has_minimum_samples (sample_debt_ledger sample_events)"
  "dl_repository (sample_debt_ledger sample_events) = ''repo''"
  by (simp_all add: requires_downgrade_def has_minimum_samples_def sample_count_def ledger_value_def
      sample_debt_ledger_def sample_events_def)

lemma sample_clearance:
  "\<exists>c. issue_shadow_clearance (sample_debt_ledger sample_events) (vb_subject_sha sample_bundle)
     (vb_task_capsule_digest sample_bundle) 6 10 = return c"
proof -
  have "is_git_oid (replicate 40 CHR ''a'')" "is_sha256 (replicate 64 CHR ''c'')" by code_simp+
  moreover have "dl_repository (sample_debt_ledger sample_events) = ''repo''" "is_text ''repo''"
      "1 \<le> dl_downgrade_threshold (sample_debt_ledger sample_events)"
      "1 \<le> dl_minimum_samples (sample_debt_ledger sample_events)"
    by (simp_all add: sample_debt_ledger_def is_text_def stripped_def is_space_def)
  moreover have "0 \<le> ledger_value (sample_debt_ledger sample_events)"
    by (rule ledger_value_nonneg [OF debt_ledger_init_ok [OF sample_debt_ledger_init(2)]])
  ultimately show ?thesis
    by (simp add: issue_shadow_clearance_def promotion_clearance_init_def sample_bundle_def sample_count_def
        del: replicate.simps)
qed

lemma sample_authority:
  "require_authorized sample_envelope (dl_repository (sample_debt_ledger sample_events)) R0 9 = return ()"
  "ae_promotion_mode sample_envelope \<noteq> HUMAN"
  by (simp_all add: require_authorized_Inr sample_envelope_def sample_ledger_ready)

text \<open>A decision that is ELIGIBLE_AUTO.\<close>

lemma sample_auto:
  "\<exists>q ctx c d. quorum_from_bundle sample_bundle 5 10 = return q \<and>
     decide_promotion echo_verify ''repo'' R0 sample_envelope q (Some ctx) (Some c)
       (Some (debt_ledger_digest (sample_debt_ledger sample_events))) (vb_subject_sha sample_bundle)
       (vb_task_capsule_digest sample_bundle) 9 = return d \<and> pd_state d = ELIGIBLE_AUTO"
proof -
  obtain q where q: "quorum_from_bundle sample_bundle 5 10 = return q" "vq_evidence_valid_until_epoch q = 15"
    using sample_quorum by blast
  have "is_sha256 (quorum_digest q)" by (simp add: quorum_digest_def)
  then obtain s where s: "sign_verification_bundle sample_bundle (quorum_digest q) (vq_evidence_valid_until_epoch q)
      signing_trust (trust_set_digest signing_trust) (echo_signer ''b'' 0) (echo_signer ''r'' 1) 6 ''n'' = return s"
    using sample_bundle_signed q(2) by force
  obtain c where c: "issue_shadow_clearance (sample_debt_ledger sample_events) (vb_subject_sha sample_bundle)
      (vb_task_capsule_digest sample_bundle) 6 10 = return c" using sample_clearance by blast
  have "\<exists>d. decide_promotion echo_verify (dl_repository (sample_debt_ledger sample_events)) R0 sample_envelope q
      (Some \<lparr>cc_bundle = sample_bundle, cc_signed = s, cc_trust_set = signing_trust,
        cc_expected_trust_set_digest = sb_trust_set_digest s\<rparr>)
      (Some c) (Some (debt_ledger_digest (sample_debt_ledger sample_events))) (vb_subject_sha sample_bundle)
      (vb_task_capsule_digest sample_bundle) 9 = return d \<and>
    pd_state d = ELIGIBLE_AUTO \<and> pd_clearance_digest d = Some (promotion_clearance_digest c)"
    by (rule promotion_pipeline [where ed_verify = echo_verify, OF verification_bundle_init_ok [OF sample_bundle_init]
          sample_passed q(1) s echo_signer_verifies echo_signer_verifies
          debt_ledger_init_ok [OF sample_debt_ledger_init(2)] sample_ledger_ready(1,2) c
          autonomy_envelope_init_ok [OF sample_envelope_init] sample_authority])
      (simp_all add: q(2))
  then show ?thesis using q(1) unfolding sample_ledger_ready(3) by blast
qed

lemma promotion_auto_sound_witness:
  "\<exists>q ctx c d. decide_promotion echo_verify ''repo'' R0 sample_envelope q (Some ctx) (Some c)
       (Some (debt_ledger_digest (sample_debt_ledger sample_events))) (vb_subject_sha sample_bundle)
       (vb_task_capsule_digest sample_bundle) 9 = return d \<and> pd_state d = ELIGIBLE_AUTO \<and> quorum_passed q"
proof -
  obtain q ctx c d where d: "decide_promotion echo_verify ''repo'' R0 sample_envelope q (Some ctx) (Some c)
       (Some (debt_ledger_digest (sample_debt_ledger sample_events))) (vb_subject_sha sample_bundle)
       (vb_task_capsule_digest sample_bundle) 9 = return d" "pd_state d = ELIGIBLE_AUTO"
    using sample_auto by blast
  have "quorum_passed q" using promotion_auto_sound [OF d] by blast
  then show ?thesis using d by blast
qed

lemma promotion_auto_evidence_witness:
  "\<exists>ctx :: crypto_context. (\<forall>g. \<exists>e \<in> set (vb_evidence sample_bundle). ve_gate e = g \<and> ve_passed e) \<and>
     same_or_clash verification_bundle_dict (cc_bundle ctx) sample_bundle"
proof -
  obtain q ctx c d where q: "quorum_from_bundle sample_bundle 5 10 = return q"
    and d: "decide_promotion echo_verify ''repo'' R0 sample_envelope q (Some ctx) (Some c)
       (Some (debt_ledger_digest (sample_debt_ledger sample_events))) (vb_subject_sha sample_bundle)
       (vb_task_capsule_digest sample_bundle) 9 = return d" "pd_state d = ELIGIBLE_AUTO"
    using sample_auto by blast
  note e = promotion_auto_evidence [OF sample_bundle_init q d]
  have "\<forall>g. \<exists>e \<in> set (vb_evidence sample_bundle). ve_gate e = g \<and> ve_passed e" using e [THEN conjunct1] by blast
  then show ?thesis using e [THEN conjunct2] by blast
qed

lemma promotion_pipeline_reaches_auto_witness:
  "\<exists>q ctx c d. decide_promotion echo_verify (dl_repository (sample_debt_ledger sample_events)) R0 sample_envelope q
     (Some ctx) (Some c) (Some (debt_ledger_digest (sample_debt_ledger sample_events)))
     (vb_subject_sha sample_bundle) (vb_task_capsule_digest sample_bundle) 9 = return d \<and> pd_state d = ELIGIBLE_AUTO"
proof -
  obtain q where q: "quorum_from_bundle sample_bundle 5 10 = return q" "vq_evidence_valid_until_epoch q = 15"
    using sample_quorum by blast
  have "is_sha256 (quorum_digest q)" by (simp add: quorum_digest_def)
  then obtain s where s: "sign_verification_bundle sample_bundle (quorum_digest q) (vq_evidence_valid_until_epoch q)
      signing_trust (trust_set_digest signing_trust) (echo_signer ''b'' 0) (echo_signer ''r'' 1) 6 ''n'' = return s"
    using sample_bundle_signed q(2) by force
  obtain c where c: "issue_shadow_clearance (sample_debt_ledger sample_events) (vb_subject_sha sample_bundle)
      (vb_task_capsule_digest sample_bundle) 6 10 = return c" using sample_clearance by blast
  have "(6::int) \<le> 9" "9 < vq_evidence_valid_until_epoch q" "(9::int) < 6 + 10" using q(2) by simp_all
  from promotion_pipeline_reaches_auto [where ed_verify = echo_verify, OF sample_bundle_init sample_passed q(1) s
      echo_signer_verifies echo_signer_verifies sample_debt_ledger_init(2) sample_ledger_ready(1,2) c
      sample_envelope_init sample_authority this(1,2,1,3)]
  show ?thesis by blast
qed

end
