(* ===== verification/Case_Contracts.thy ===== *)
theory Case_Contracts
  imports P3_Contracts Hash_Chain
begin

text \<open>
  Identities and events of the canonical case ledger, \<^verbatim>\<open>core/case_ledger/contracts.py\<close>: content
  addresses, object revisions, events and exported bundles. A mapping handed over by a caller is a
  Python dictionary; frozen content and parsed JSON are JSON values, on which \<^verbatim>\<open>_canonical_mapping\<close> is
  the sorted form. The two enumerations have one member each, so that the constructors' tests on them
  cannot fail; unknown names are refused where text is parsed.
\<close>

abbreviation raise_cl :: "string \<Rightarrow> 'a result" where
  "raise_cl msg \<equiv> Inl (CaseLedgerContractError msg)"

definition CANONICALIZATION_PROFILE_V1 :: string where
  "CANONICALIZATION_PROFILE_V1 = ''lukart.canonical-json.v1''"

definition OBJECT_REVISION_SCHEMA_V1 :: string where
  "OBJECT_REVISION_SCHEMA_V1 = ''lukart.object-revision.v1''"

definition LEDGER_EVENT_SCHEMA_V1 :: string where
  "LEDGER_EVENT_SCHEMA_V1 = ''lukart.canonical-case-ledger-event.v1''"

definition LEDGER_BUNDLE_SCHEMA_V1 :: string where
  "LEDGER_BUNDLE_SCHEMA_V1 = ''lukart.canonical-case-ledger-bundle.v1''"

datatype digest_algorithm = SHA256

fun digest_algorithm_value :: "digest_algorithm \<Rightarrow> string" where
  "digest_algorithm_value SHA256 = ''sha256''"

datatype canonicalization_profile = LUKART_JSON_V1

fun profile_value :: "canonicalization_profile \<Rightarrow> string" where
  "profile_value LUKART_JSON_V1 = CANONICALIZATION_PROFILE_V1"

definition parse_profile :: "string \<Rightarrow> canonicalization_profile result" where
  "parse_profile s =
     (if s = profile_value LUKART_JSON_V1 then return LUKART_JSON_V1
      else raise_cl (''unsupported canonicalization profile: '' @ s))"

section \<open>Identifiers and mappings\<close>

definition require_exact_identifier :: "string \<Rightarrow> string \<Rightarrow> string result" where
  "require_exact_identifier value field_name =
     (if value = [] \<or> value \<noteq> strip value
      then raise_cl (field_name @ '' must be nonblank and already canonical'')
      else if \<exists>c \<in> set value. (of_char c :: nat) < 32 \<or> (of_char c :: nat) = 127
      then raise_cl (field_name @ '' cannot contain control characters'')
      else return value)"

definition case_id_init :: "string \<Rightarrow> string result" where
  "case_id_init value = require_exact_identifier value ''case_id''"

definition object_id_init :: "string \<Rightarrow> string result" where
  "object_id_init value = require_exact_identifier value ''object_id''"

text \<open>\<^verbatim>\<open>_canonical_mapping\<close> on a caller's dictionary, and on JSON.\<close>

definition canonical_mapping :: "(pykey \<times> pyval) list \<Rightarrow> string \<Rightarrow> (string \<times> json) list result" where
  "canonical_mapping value field_name =
     (if \<exists>kv \<in> set value. (case fst kv of KStr _ \<Rightarrow> False | KInt _ \<Rightarrow> True)
      then raise_cl (field_name @ '' keys must be strings'')
      else (case normalize_value (PyDict value) of
        Inl _ \<Rightarrow> raise_cl (field_name @ '' is not canonically serializable'')
      | Inr (JObj decoded) \<Rightarrow> return decoded
      | Inr _ \<Rightarrow> raise_cl (field_name @ '' must be a mapping'')))"

definition json_mapping :: "(string \<times> json) list \<Rightarrow> (string \<times> json) list" where
  "json_mapping value = (case norm_json (JObj value) of JObj decoded \<Rightarrow> decoded | _ \<Rightarrow> [])"

section \<open>Content addresses\<close>

record content_address =
  ca_algorithm :: digest_algorithm
  ca_digest :: string

definition content_address_init :: "content_address \<Rightarrow> content_address result" where
  "content_address_init a =
     and_then (require_sha256 (ca_digest a) ''content_address_digest'') (\<lambda>d. return (a\<lparr>ca_digest := d\<rparr>))"

definition address_for_value :: "json \<Rightarrow> content_address" where
  "address_for_value v = \<lparr>ca_algorithm = SHA256, ca_digest = content_digest v\<rparr>"

definition address_from_dict :: "(string \<times> json) list \<Rightarrow> content_address result" where
  "address_from_dict value =
     (case (dict_get value ''algorithm'', dict_get value ''digest'') of
        (JStr raw_algorithm, JStr raw_digest) \<Rightarrow>
          if raw_algorithm = digest_algorithm_value SHA256
          then content_address_init \<lparr>ca_algorithm = SHA256, ca_digest = raw_digest\<rparr>
          else raise_cl (''unsupported digest algorithm: '' @ raw_algorithm)
      | _ \<Rightarrow> raise_cl ''content address requires algorithm and digest'')"

definition address_dict :: "content_address \<Rightarrow> (string \<times> json) list" where
  "address_dict a =
    [(''algorithm'', JStr (digest_algorithm_value (ca_algorithm a))), (''digest'', JStr (ca_digest a))]"

definition address_str :: "content_address \<Rightarrow> string" where
  "address_str a = digest_algorithm_value (ca_algorithm a) @ '':'' @ ca_digest a"

definition opt_address :: "content_address option \<Rightarrow> json" where
  "opt_address a = (case a of None \<Rightarrow> JNull | Some x \<Rightarrow> JObj (address_dict x))"

definition opt_id :: "string option \<Rightarrow> json" where
  "opt_id i = (case i of None \<Rightarrow> JNull | Some x \<Rightarrow> JStr x)"

section \<open>Object revisions\<close>

record object_revision =
  or_object_id :: string
  or_schema_version :: string
  or_content :: "(string \<times> json) list"
  or_revision_id :: content_address
  or_profile :: canonicalization_profile
  or_schema :: string

definition revision_body :: "object_revision \<Rightarrow> (string \<times> json) list" where
  "revision_body r =
    [(''schema'', JStr (or_schema r)),
     (''canonicalization_profile'', JStr (profile_value (or_profile r))),
     (''object_id'', JStr (or_object_id r)),
     (''schema_version'', JStr (or_schema_version r)),
     (''content'', JObj (or_content r))]"

definition revision_dict :: "object_revision \<Rightarrow> (string \<times> json) list" where
  "revision_dict r = revision_body r @ [(''revision_id'', JObj (address_dict (or_revision_id r)))]"

definition revision_verify :: "object_revision \<Rightarrow> unit result" where
  "revision_verify r =
     (if or_revision_id r \<noteq> address_for_value (JObj (revision_body r))
      then raise_cl ''object revision content-address mismatch'' else return ())"

definition revision_init :: "object_revision \<Rightarrow> object_revision result" where
  "revision_init r =
     (if or_schema r \<noteq> OBJECT_REVISION_SCHEMA_V1
      then raise_cl (''unsupported object revision schema: '' @ or_schema r)
      else and_then (require_exact_identifier (or_schema_version r) ''object schema_version'') (\<lambda>version.
      let r' = r\<lparr>or_schema_version := version, or_content := json_mapping (or_content r)\<rparr> in
      and_then (revision_verify r') (\<lambda>_. return r')))"

definition revision_build :: "string \<Rightarrow> string \<Rightarrow> (pykey \<times> pyval) list \<Rightarrow> object_revision result" where
  "revision_build object_id schema_version content =
     and_then (canonical_mapping content ''object revision content'') (\<lambda>copied.
     and_then (require_exact_identifier schema_version ''object schema_version'') (\<lambda>version.
     let unsigned = \<lparr>or_object_id = object_id, or_schema_version = version, or_content = copied,
           or_revision_id = \<lparr>ca_algorithm = SHA256, ca_digest = []\<rparr>, or_profile = LUKART_JSON_V1,
           or_schema = OBJECT_REVISION_SCHEMA_V1\<rparr> in
     revision_init (unsigned\<lparr>or_revision_id := address_for_value (JObj (revision_body unsigned))\<rparr>)))"

definition revision_from_dict :: "(string \<times> json) list \<Rightarrow> object_revision result" where
  "revision_from_dict value =
     (case (dict_get value ''schema'', dict_get value ''canonicalization_profile'', dict_get value ''object_id'',
            dict_get value ''schema_version'') of
        (JStr schema, JStr profile, JStr object_id, JStr schema_version) \<Rightarrow>
          (case (dict_get value ''content'', dict_get value ''revision_id'') of
             (JObj content, JObj revision_id) \<Rightarrow>
               and_then (parse_profile profile) (\<lambda>profile.
               and_then (object_id_init object_id) (\<lambda>object_id.
               and_then (address_from_dict revision_id) (\<lambda>revision_id.
               revision_init \<lparr>or_object_id = object_id, or_schema_version = schema_version, or_content = content,
                 or_revision_id = revision_id, or_profile = profile, or_schema = schema\<rparr>)))
           | _ \<Rightarrow> raise_cl ''invalid object revision content or revision_id'')
      | _ \<Rightarrow> raise_cl ''invalid object revision identity fields'')"

section \<open>Events\<close>

record ledger_event =
  le_case_id :: string
  le_case_sequence :: int
  le_event_type :: string
  le_runtime :: content_address
  le_payload :: "(string \<times> json) list"
  le_event_id :: content_address
  le_previous :: "content_address option"
  le_object_id :: "string option"
  le_revision_id :: "content_address option"
  le_profile :: canonicalization_profile
  le_schema :: string

definition case_event_body :: "ledger_event \<Rightarrow> (string \<times> json) list" where
  "case_event_body e =
    [(''schema'', JStr (le_schema e)),
     (''canonicalization_profile'', JStr (profile_value (le_profile e))),
     (''case_id'', JStr (le_case_id e)),
     (''case_sequence'', JInt (le_case_sequence e)),
     (''event_type'', JStr (le_event_type e)),
     (''object_id'', opt_id (le_object_id e)),
     (''revision_id'', opt_address (le_revision_id e)),
     (''runtime_identity_digest'', JObj (address_dict (le_runtime e))),
     (''payload'', JObj (le_payload e)),
     (''previous_event_id'', opt_address (le_previous e))]"

definition case_event_dict :: "ledger_event \<Rightarrow> (string \<times> json) list" where
  "case_event_dict e = case_event_body e @ [(''event_id'', JObj (address_dict (le_event_id e)))]"

definition event_verify :: "ledger_event \<Rightarrow> unit result" where
  "event_verify e =
     (if le_event_id e \<noteq> address_for_value (JObj (case_event_body e))
      then raise_cl ''ledger event content-address mismatch'' else return ())"

definition event_init :: "ledger_event \<Rightarrow> ledger_event result" where
  "event_init e =
     (if le_schema e \<noteq> LEDGER_EVENT_SCHEMA_V1 then raise_cl (''unsupported ledger event schema: '' @ le_schema e)
      else if le_case_sequence e < 0 then raise_cl ''case_sequence cannot be negative''
      else if le_case_sequence e = 0 \<and> le_previous e \<noteq> None
      then raise_cl ''genesis case event cannot have previous_event_id''
      else if le_case_sequence e > 0 \<and> le_previous e = None
      then raise_cl ''non-genesis case event requires previous_event_id''
      else and_then (require_exact_identifier (le_event_type e) ''event_type'') (\<lambda>event_type.
      let e' = e\<lparr>le_event_type := event_type, le_payload := json_mapping (le_payload e)\<rparr> in
      and_then (event_verify e') (\<lambda>_. return e')))"

definition event_build ::
  "string \<Rightarrow> int \<Rightarrow> string \<Rightarrow> content_address \<Rightarrow> (pykey \<times> pyval) list \<Rightarrow> content_address option \<Rightarrow>
   string option \<Rightarrow> content_address option \<Rightarrow> ledger_event result" where
  "event_build case_id sequence event_type runtime payload previous object_id revision_id =
     and_then (canonical_mapping payload ''ledger event payload'') (\<lambda>copied.
     and_then (require_exact_identifier event_type ''event_type'') (\<lambda>event_type.
     let unsigned = \<lparr>le_case_id = case_id, le_case_sequence = sequence, le_event_type = event_type,
           le_runtime = runtime, le_payload = copied, le_event_id = \<lparr>ca_algorithm = SHA256, ca_digest = []\<rparr>,
           le_previous = previous, le_object_id = object_id, le_revision_id = revision_id,
           le_profile = LUKART_JSON_V1, le_schema = LEDGER_EVENT_SCHEMA_V1\<rparr> in
     event_init (unsigned\<lparr>le_event_id := address_for_value (JObj (case_event_body unsigned))\<rparr>)))"

text \<open>\<^verbatim>\<open>X if X is not None else None\<close> around a constructor.\<close>

definition opt_built :: "('a \<Rightarrow> 'b result) \<Rightarrow> 'a option \<Rightarrow> 'b option result" where
  "opt_built f v = (case v of None \<Rightarrow> return None | Some x \<Rightarrow> and_then (f x) (\<lambda>y. return (Some y)))"

text \<open>The tests of \<^verbatim>\<open>LedgerEvent.from_dict\<close> on optional fields.\<close>

definition opt_str_field :: "json \<Rightarrow> string \<Rightarrow> string option result" where
  "opt_str_field v m = (case v of JNull \<Rightarrow> return None | JStr s \<Rightarrow> return (Some s) | _ \<Rightarrow> raise_cl m)"

definition opt_obj_field :: "json \<Rightarrow> string \<Rightarrow> (string \<times> json) list option result" where
  "opt_obj_field v m = (case v of JNull \<Rightarrow> return None | JObj d \<Rightarrow> return (Some d) | _ \<Rightarrow> raise_cl m)"

definition event_from_dict :: "(string \<times> json) list \<Rightarrow> ledger_event result" where
  "event_from_dict value =
     (case (dict_get value ''schema'', dict_get value ''canonicalization_profile'') of
        (JStr schema, JStr profile) \<Rightarrow>
     (case (dict_get value ''case_id'', dict_get value ''event_type'') of
        (JStr case_id, JStr event_type) \<Rightarrow>
     (case dict_get value ''case_sequence'' of
        JInt sequence \<Rightarrow>
     and_then (opt_str_field (dict_get value ''object_id'') ''ledger event object_id must be a string or null'')
       (\<lambda>object_id.
     and_then (opt_obj_field (dict_get value ''revision_id'') ''ledger event revision_id must be an object or null'')
       (\<lambda>revision_id.
     case (dict_get value ''runtime_identity_digest'', dict_get value ''payload'') of
        (JObj runtime, JObj payload) \<Rightarrow>
     and_then (opt_obj_field (dict_get value ''previous_event_id'') ''previous_event_id must be an object or null'')
       (\<lambda>previous.
     case dict_get value ''event_id'' of
        JObj event_id \<Rightarrow>
     and_then (parse_profile profile) (\<lambda>profile.
     and_then (case_id_init case_id) (\<lambda>case_id.
     and_then (opt_built object_id_init object_id) (\<lambda>object_id.
     and_then (opt_built address_from_dict revision_id) (\<lambda>revision_id.
     and_then (address_from_dict runtime) (\<lambda>runtime.
     and_then (opt_built address_from_dict previous) (\<lambda>previous.
     and_then (address_from_dict event_id) (\<lambda>event_id.
     event_init \<lparr>le_case_id = case_id, le_case_sequence = sequence, le_event_type = event_type,
       le_runtime = runtime, le_payload = payload, le_event_id = event_id, le_previous = previous,
       le_object_id = object_id, le_revision_id = revision_id, le_profile = profile, le_schema = schema\<rparr>)))))))
      | _ \<Rightarrow> raise_cl ''event_id must be an object'')
      | _ \<Rightarrow> raise_cl ''ledger event runtime digest/payload are invalid''))
      | _ \<Rightarrow> raise_cl ''ledger event case_sequence must be an integer'')
      | _ \<Rightarrow> raise_cl ''ledger event case_id/event_type are required'')
      | _ \<Rightarrow> raise_cl ''ledger event schema/profile are required'')"

section \<open>Bundles\<close>

record case_bundle =
  cb_case_id :: string
  cb_events :: "ledger_event list"
  cb_digest :: content_address
  cb_profile :: canonicalization_profile
  cb_schema :: string

definition events_head :: "ledger_event list \<Rightarrow> content_address option" where
  "events_head events = (if events = [] then None else Some (le_event_id (last events)))"

definition bundle_body :: "string \<Rightarrow> ledger_event list \<Rightarrow> (string \<times> json) list" where
  "bundle_body case_id events =
    [(''schema'', JStr LEDGER_BUNDLE_SCHEMA_V1),
     (''canonicalization_profile'', JStr CANONICALIZATION_PROFILE_V1),
     (''case_id'', JStr case_id),
     (''event_count'', JInt (int (length events))),
     (''head_event_id'', opt_address (events_head events)),
     (''events'', JList (map (\<lambda>e. JObj (case_event_dict e)) events))]"

definition bundle_dict :: "case_bundle \<Rightarrow> (string \<times> json) list" where
  "bundle_dict b = bundle_body (cb_case_id b) (cb_events b) @
     [(''bundle_digest'', JObj (address_dict (cb_digest b)))]"

fun bundle_verify_from :: "string \<Rightarrow> int \<Rightarrow> content_address option \<Rightarrow> ledger_event list \<Rightarrow> unit result" where
  "bundle_verify_from case_id expected_sequence previous [] = return ()"
| "bundle_verify_from case_id expected_sequence previous (e # es) =
     and_then (event_verify e) (\<lambda>_.
     if le_case_id e \<noteq> case_id then raise_cl ''ledger bundle contains a different case_id''
     else if le_case_sequence e \<noteq> expected_sequence then raise_cl ''ledger bundle case sequence discontinuity''
     else if le_previous e \<noteq> previous then raise_cl ''ledger bundle event chain mismatch''
     else bundle_verify_from case_id (expected_sequence + 1) (Some (le_event_id e)) es)"

definition bundle_verify :: "case_bundle \<Rightarrow> unit result" where
  "bundle_verify b =
     and_then (bundle_verify_from (cb_case_id b) 0 None (cb_events b)) (\<lambda>_.
     if cb_digest b \<noteq> address_for_value (JObj (bundle_body (cb_case_id b) (cb_events b)))
     then raise_cl ''ledger bundle content-address mismatch'' else return ())"

definition bundle_init :: "case_bundle \<Rightarrow> case_bundle result" where
  "bundle_init b =
     (if cb_schema b \<noteq> LEDGER_BUNDLE_SCHEMA_V1 then raise_cl (''unsupported ledger bundle schema: '' @ cb_schema b)
      else and_then (bundle_verify b) (\<lambda>_. return b))"

definition bundle_build :: "string \<Rightarrow> ledger_event list \<Rightarrow> case_bundle result" where
  "bundle_build case_id events =
     bundle_init \<lparr>cb_case_id = case_id, cb_events = events,
       cb_digest = address_for_value (JObj (bundle_body case_id events)),
       cb_profile = LUKART_JSON_V1, cb_schema = LEDGER_BUNDLE_SCHEMA_V1\<rparr>"

definition event_of_json :: "json \<Rightarrow> ledger_event result" where
  "event_of_json v =
     (case v of JObj raw_event \<Rightarrow> event_from_dict raw_event | _ \<Rightarrow> raise_cl ''ledger bundle events must be objects'')"

definition bundle_from_dict :: "(string \<times> json) list \<Rightarrow> case_bundle result" where
  "bundle_from_dict value =
     (case (dict_get value ''schema'', dict_get value ''canonicalization_profile'') of
        (JStr schema, JStr profile) \<Rightarrow>
     (case (dict_get value ''case_id'', dict_get value ''events'') of
        (JStr case_id, JList events) \<Rightarrow>
     (case dict_get value ''bundle_digest'' of
        JObj bundle_digest \<Rightarrow>
     and_then (map_result event_of_json events) (\<lambda>parsed_events.
     and_then (parse_profile profile) (\<lambda>profile.
     and_then (case_id_init case_id) (\<lambda>case_id.
     and_then (address_from_dict bundle_digest) (\<lambda>bundle_digest.
     bundle_init \<lparr>cb_case_id = case_id, cb_events = parsed_events, cb_digest = bundle_digest,
       cb_profile = profile, cb_schema = schema\<rparr>))))
      | _ \<Rightarrow> raise_cl ''ledger bundle digest is required'')
      | _ \<Rightarrow> raise_cl ''ledger bundle case_id/events are invalid'')
      | _ \<Rightarrow> raise_cl ''ledger bundle schema/profile are required'')"

section \<open>Laws\<close>

definition is_identifier :: "string \<Rightarrow> bool" where
  "is_identifier s = (is_text s \<and> \<not> (\<exists>c \<in> set s. (of_char c :: nat) < 32 \<or> (of_char c :: nat) = 127))"

lemma require_exact_identifier_Inr: "require_exact_identifier v n = Inr s \<longleftrightarrow> s = v \<and> is_identifier v"
  by (auto simp: require_exact_identifier_def is_identifier_def is_text_def strip_id)
    (metis strip_stripped)

lemma content_address_init_Inr:
  "content_address_init a = Inr b \<longleftrightarrow> b = a\<lparr>ca_digest := lower (strip (ca_digest a))\<rparr> \<and> is_sha256 (ca_digest b)"
  by (auto simp: content_address_init_def require_sha256_Inr)

definition address_ok :: "content_address \<Rightarrow> bool" where
  "address_ok a = is_sha256 (ca_digest a)"

lemma digest_algorithm_one: "(a :: digest_algorithm) = SHA256"
  by (cases a) simp

lemma profile_one: "(p :: canonicalization_profile) = LUKART_JSON_V1"
  by (cases p) simp

lemma address_for_value_ok [simp]: "address_ok (address_for_value v)"
  by (simp add: address_ok_def address_for_value_def)

lemma sha256_stripped: "is_sha256 d \<Longrightarrow> lower (strip d) = d"
  by (auto simp: is_sha256_def is_hex_strip is_hex_lower)

lemma norm_address [simp]: "norm_json (JObj (address_dict a)) = JObj (address_dict a)" "wf_json (JObj (address_dict a))"
  by (simp_all add: address_dict_def)

lemma wf_address_entries [simp]:
  "distinct (map fst (address_dict a))" "list_all (\<lambda>(k, v). wf_json v) (address_dict a)"
  by (simp_all add: address_dict_def)

lemma norm_opt_address [simp]: "norm_json (opt_address a) = opt_address a" "wf_json (opt_address a)"
  by (simp_all add: opt_address_def split: option.split del: norm_json.simps(6) wf_json_simps)

lemma norm_opt_id [simp]: "norm_json (opt_id i) = opt_id i" "wf_json (opt_id i)"
  by (simp_all add: opt_id_def split: option.split)

lemma opt_id_inject [simp]: "opt_id a = opt_id b \<longleftrightarrow> a = b"
  by (auto simp: opt_id_def split: option.splits)

lemma address_dict_inject [simp]: "address_dict a = address_dict b \<longleftrightarrow> a = b"
  using digest_algorithm_one [of "ca_algorithm a"] digest_algorithm_one [of "ca_algorithm b"]
  by (cases a; cases b) (simp add: address_dict_def)

lemma opt_address_inject [simp]: "opt_address a = opt_address b \<longleftrightarrow> a = b"
  by (auto simp: opt_address_def split: option.splits)

lemma json_mapping_normal: "normal_json (JObj kvs) \<Longrightarrow> json_mapping kvs = kvs"
  by (simp add: json_mapping_def normal_json_def del: norm_json.simps)

lemma json_mapping_obj: "norm_json (JObj kvs) = JObj (json_mapping kvs)"
  by (simp add: json_mapping_def)

lemma normal_json_mapping: "wf_json (JObj kvs) \<Longrightarrow> normal_json (JObj (json_mapping kvs))"
  unfolding json_mapping_obj [symmetric] normal_json_def by (simp add: norm_json_idem del: norm_json.simps wf_json_simps)

lemma canonical_mapping_Inr:
  "canonical_mapping v n = Inr kvs \<Longrightarrow> normalize_value (PyDict v) = Inr (JObj kvs) \<and> normal_json (JObj kvs)"
  by (auto simp: canonical_mapping_def simp del: normalize_value.simps dest: normalize_value_normal
      split: if_splits sum.splits json.splits)

text \<open>Reading fields from any JSON text with the same canonical form.\<close>

lemma norm_json_shape [simp]:
  "norm_json x = JNull \<longleftrightarrow> x = JNull" "norm_json x = JStr s \<longleftrightarrow> x = JStr s" "norm_json x = JInt i \<longleftrightarrow> x = JInt i"
  "norm_json x = JList ys \<longleftrightarrow> (\<exists>xs. x = JList xs \<and> map norm_json xs = ys)"
  by (cases x; auto)+

lemma norm_json_obj_shape: "norm_json x = JObj p \<longleftrightarrow> (\<exists>q. x = JObj q \<and> json_mapping q = p)"
  by (cases x) (auto simp: json_mapping_def)

definition same_json :: "(string \<times> json) list \<Rightarrow> (string \<times> json) list \<Rightarrow> bool" where
  "same_json d d' = (wf_json (JObj d) \<and> wf_json (JObj d') \<and> norm_json (JObj d) = norm_json (JObj d'))"

lemma same_json_get:
  assumes "same_json d d'"
  shows "norm_json (dict_get d k) = norm_json (dict_get d' k)" "wf_json (dict_get d k)"
proof -
  have w: "distinct (map fst d)" "distinct (map fst d')" "\<forall>(k, v) \<in> set d. wf_json v"
    using assms by (auto simp: same_json_def list_all_iff)
  have "map_option norm_json (map_of d k) = map_option norm_json (map_of d' k)"
    by (rule norm_json_JObj_lookup [OF w(1,2)]) (use assms in \<open>simp add: same_json_def\<close>)
  then show "norm_json (dict_get d k) = norm_json (dict_get d' k)"
    by (auto simp: dict_get_def split: option.splits)
  show "wf_json (dict_get d k)" using w(3) by (auto simp: dict_get_def dest: map_of_SomeD split: option.split)
qed

lemma same_json_scalar:
  assumes "same_json d d'"
  shows "dict_get d' k = JStr t \<Longrightarrow> dict_get d k = JStr t" "dict_get d' k = JInt i \<Longrightarrow> dict_get d k = JInt i"
    "dict_get d' k = JNull \<Longrightarrow> dict_get d k = JNull"
  using same_json_get(1) [OF assms, of k] by simp_all

lemma same_json_refl: "wf_json (JObj d) \<Longrightarrow> same_json d d"
  by (simp add: same_json_def)

lemma same_json_nested:
  assumes "same_json d d'" "dict_get d' k = JObj q'" "wf_json (JObj q')"
  shows "\<exists>q. dict_get d k = JObj q \<and> same_json q q'"
proof -
  have "norm_json (dict_get d k) = norm_json (JObj q')" using same_json_get(1) [OF assms(1)] assms(2) by metis
  then obtain q where "dict_get d k = JObj q" "norm_json (JObj q) = norm_json (JObj q')"
    unfolding json_mapping_obj norm_json_obj_shape by blast
  then show ?thesis using same_json_get(2) [OF assms(1), of k] assms(3) by (simp add: same_json_def del: norm_json.simps(6))
qed

lemma address_roundtrip:
  assumes "address_ok a" "same_json d (address_dict a)"
  shows "address_from_dict d = Inr a"
proof -
  have "dict_get d ''algorithm'' = JStr ''sha256''" "dict_get d ''digest'' = JStr (ca_digest a)"
    using same_json_get(1) [OF assms(2), of "''algorithm''"] same_json_get(1) [OF assms(2), of "''digest''"]
      digest_algorithm_one [of "ca_algorithm a"] by (simp_all add: address_dict_def dict_get_def)
  then show ?thesis using assms(1) digest_algorithm_one [of "ca_algorithm a"]
    by (cases a) (auto simp: address_from_dict_def content_address_init_def require_sha256_Inr address_ok_def sha256_stripped)
qed

lemma address_field:
  assumes "same_json d d'" "dict_get d' k = JObj (address_dict a)" "address_ok a"
  shows "\<exists>q. dict_get d k = JObj q \<and> address_from_dict q = Inr a"
  using same_json_nested [OF assms(1,2)] address_roundtrip [OF assms(3)] by auto

lemma opt_address_field:
  assumes "same_json d d'" "dict_get d' k = opt_address a" "\<forall>x. a = Some x \<longrightarrow> address_ok x"
  shows "\<exists>q. opt_obj_field (dict_get d k) m = Inr q \<and> opt_built address_from_dict q = Inr a"
proof (cases a)
  case None
  then have "dict_get d k = JNull" using same_json_get(1) [OF assms(1), of k] assms(2) by (simp add: opt_address_def)
  then show ?thesis using None by (simp add: opt_obj_field_def opt_built_def)
next
  case (Some x)
  then obtain q where "dict_get d k = JObj q" "address_from_dict q = Inr x"
    using address_field [OF assms(1), of k x] assms(2,3) by (auto simp: opt_address_def)
  then show ?thesis using Some by (simp add: opt_obj_field_def opt_built_def)
qed

subsection \<open>Revisions\<close>

definition revision_ok :: "object_revision \<Rightarrow> bool" where
  "revision_ok r = (or_schema r = OBJECT_REVISION_SCHEMA_V1 \<and> is_identifier (or_object_id r) \<and>
     is_identifier (or_schema_version r) \<and> normal_json (JObj (or_content r)) \<and>
     or_revision_id r = address_for_value (JObj (revision_body r)))"

lemma revision_init_json:
  assumes "revision_ok r" "json_mapping q = or_content r"
  shows "revision_init (r\<lparr>or_content := q\<rparr>) = Inr r"
proof -
  have "require_exact_identifier (or_schema_version r) n = Inr (or_schema_version r)" for n
    using assms(1) by (simp add: revision_ok_def require_exact_identifier_Inr)
  moreover have "r\<lparr>or_content := q, or_schema_version := or_schema_version r, or_content := json_mapping q\<rparr> = r"
    using assms(2) by simp
  ultimately show ?thesis using assms by (simp add: revision_ok_def revision_init_def revision_verify_def Let_def)
qed

lemma revision_init_ok:
  "revision_init r0 = Inr r \<Longrightarrow> is_identifier (or_object_id r0) \<Longrightarrow> wf_json (JObj (or_content r0)) \<Longrightarrow> revision_ok r"
  by (auto simp: revision_init_def revision_ok_def require_exact_identifier_Inr revision_verify_def Let_def
      normal_json_mapping simp del: wf_json_simps split: if_splits)

lemma revision_build_ok:
  assumes "revision_build i v c = Inr r" "is_identifier i"
  shows "revision_ok r" "normalize_value (PyDict c) = Inr (JObj (or_content r))"
proof -
  obtain kvs where kvs: "canonical_mapping c ''object revision content'' = Inr kvs"
    using assms(1) by (auto simp: revision_build_def)
  note k = canonical_mapping_Inr [OF kvs]
  show "revision_ok r"
    using assms kvs k by (auto simp: revision_build_def Let_def normal_json_def simp del: wf_json_simps
        intro!: revision_init_ok)
  show "normalize_value (PyDict c) = Inr (JObj (or_content r))"
    using assms kvs k by (auto simp: revision_build_def revision_init_def Let_def json_mapping_normal
        simp del: normalize_value.simps split: if_splits)
qed

lemma wf_revision_dict: "revision_ok r \<Longrightarrow> wf_json (JObj (revision_dict r))"
  by (simp add: revision_ok_def revision_dict_def revision_body_def normal_json_def)

lemma revision_roundtrip_ok:
  assumes "revision_ok r" "same_json d (revision_dict r)"
  shows "revision_from_dict d = Inr r"
proof -
  note ok = assms(1) [unfolded revision_ok_def]
  have strs: "dict_get d ''schema'' = JStr (or_schema r)"
    "dict_get d ''canonicalization_profile'' = JStr (profile_value LUKART_JSON_V1)"
    "dict_get d ''object_id'' = JStr (or_object_id r)" "dict_get d ''schema_version'' = JStr (or_schema_version r)"
    by (rule same_json_scalar(1) [OF assms(2)], simp add: dict_get_def revision_dict_def revision_body_def
        profile_one [of "or_profile r"])+
  have "dict_get (revision_dict r) ''content'' = JObj (or_content r)"
    "dict_get (revision_dict r) ''revision_id'' = JObj (address_dict (or_revision_id r))"
    by (simp_all add: dict_get_def revision_dict_def revision_body_def)
  moreover have "wf_json (JObj (or_content r))" using ok by (simp add: normal_json_def)
  ultimately obtain c q where c: "dict_get d ''content'' = JObj c" "same_json c (or_content r)"
    and q: "dict_get d ''revision_id'' = JObj q" "address_from_dict q = Inr (or_revision_id r)"
    using same_json_nested [OF assms(2), of "''content''" "or_content r"]
      address_field [OF assms(2), of "''revision_id''" "or_revision_id r"] ok by auto
  have "json_mapping c = or_content r"
    using c(2) ok json_mapping_normal [of "or_content r"]
    by (simp add: same_json_def json_mapping_obj [symmetric] json_mapping_def del: norm_json.simps)
  from revision_init_json [OF assms(1) this]
  have "revision_init \<lparr>or_object_id = or_object_id r, or_schema_version = or_schema_version r, or_content = c,
      or_revision_id = or_revision_id r, or_profile = LUKART_JSON_V1, or_schema = or_schema r\<rparr> = Inr r"
    using profile_one [of "or_profile r"] by (cases r) simp
  moreover have "object_id_init (or_object_id r) = Inr (or_object_id r)"
    using ok by (simp add: object_id_init_def require_exact_identifier_Inr)
  ultimately show ?thesis
    by (simp add: revision_from_dict_def strs c(1) q parse_profile_def)
qed

interpretation revisions: content_addressed revision_ok revision_body
proof unfold_locales
  fix a b
  show "revision_ok a \<Longrightarrow> wf_json (JObj (revision_body a))"
    by (simp add: revision_ok_def revision_body_def normal_json_def)
  assume ok: "revision_ok a" "revision_ok b" and eq: "norm_json (JObj (revision_body a)) = norm_json (JObj (revision_body b))"
  then have "or_schema a = or_schema b \<and> or_object_id a = or_object_id b \<and> or_schema_version a = or_schema_version b \<and>
      or_content a = or_content b"
    by (simp add: norm_json_JObj_same_keys revision_body_def revision_ok_def normal_json_def del: norm_json.simps(6))
  moreover have "or_profile a = or_profile b" using profile_one by metis
  moreover from calculation have "revision_body a = revision_body b" by (simp add: revision_body_def)
  then have "or_revision_id a = or_revision_id b" using ok by (simp add: revision_ok_def)
  ultimately show "a = b" by (intro object_revision.equality) simp_all
qed

subsection \<open>Events\<close>

definition event_ok :: "ledger_event \<Rightarrow> bool" where
  "event_ok e = (le_schema e = LEDGER_EVENT_SCHEMA_V1 \<and> is_identifier (le_case_id e) \<and> 0 \<le> le_case_sequence e \<and>
     (le_case_sequence e = 0 \<longleftrightarrow> le_previous e = None) \<and> is_identifier (le_event_type e) \<and>
     address_ok (le_runtime e) \<and> normal_json (JObj (le_payload e)) \<and>
     (\<forall>x. le_previous e = Some x \<longrightarrow> address_ok x) \<and> (\<forall>x. le_object_id e = Some x \<longrightarrow> is_identifier x) \<and>
     (\<forall>x. le_revision_id e = Some x \<longrightarrow> address_ok x) \<and>
     le_event_id e = address_for_value (JObj (case_event_body e)))"

lemma event_init_json:
  assumes "event_ok e" "json_mapping q = le_payload e"
  shows "event_init (e\<lparr>le_payload := q\<rparr>) = Inr e"
proof -
  have "require_exact_identifier (le_event_type e) n = Inr (le_event_type e)" for n
    using assms(1) by (simp add: event_ok_def require_exact_identifier_Inr)
  then show ?thesis using assms by (auto simp: event_ok_def event_init_def event_verify_def Let_def)
qed

lemma event_init_ok:
  assumes "event_init e0 = Inr e" "is_identifier (le_case_id e0)" "wf_json (JObj (le_payload e0))" "address_ok (le_runtime e0)"
    "\<forall>x. le_previous e0 = Some x \<longrightarrow> address_ok x" "\<forall>x. le_object_id e0 = Some x \<longrightarrow> is_identifier x"
    "\<forall>x. le_revision_id e0 = Some x \<longrightarrow> address_ok x"
  shows "event_ok e"
  using assms by (auto simp: event_init_def event_ok_def require_exact_identifier_Inr event_verify_def Let_def
      normal_json_mapping simp del: wf_json_simps split: if_splits)

lemma event_build_ok:
  assumes "event_build c n t rt p prev obj rv = Inr e" "is_identifier c" "address_ok rt"
    "\<forall>x. prev = Some x \<longrightarrow> address_ok x" "\<forall>x. obj = Some x \<longrightarrow> is_identifier x" "\<forall>x. rv = Some x \<longrightarrow> address_ok x"
  shows "event_ok e" "normalize_value (PyDict p) = Inr (JObj (le_payload e))" "le_case_id e = c"
    "le_case_sequence e = n" "le_event_type e = t" "le_runtime e = rt" "le_previous e = prev"
    "le_object_id e = obj" "le_revision_id e = rv"
proof -
  obtain kvs where kvs: "canonical_mapping p ''ledger event payload'' = Inr kvs"
    using assms(1) by (auto simp: event_build_def)
  note k = canonical_mapping_Inr [OF kvs]
  obtain e0 where e0: "event_init e0 = Inr e" "le_case_id e0 = c" "le_payload e0 = kvs" "le_runtime e0 = rt"
      "le_case_sequence e0 = n" "le_event_type e0 = t" "le_previous e0 = prev" "le_object_id e0 = obj" "le_revision_id e0 = rv"
    using assms(1) kvs by (auto simp: event_build_def require_exact_identifier_Inr Let_def)
  show "event_ok e" by (rule event_init_ok [OF e0(1)]) (use e0 assms k in \<open>simp_all add: normal_json_def\<close>)
  show "normalize_value (PyDict p) = Inr (JObj (le_payload e))" "le_case_id e = c"
    "le_case_sequence e = n" "le_event_type e = t" "le_runtime e = rt" "le_previous e = prev"
    "le_object_id e = obj" "le_revision_id e = rv"
    using e0 k by (auto simp: event_init_def Let_def json_mapping_normal require_exact_identifier_Inr
        simp del: normalize_value.simps split: if_splits)
qed

lemma event_build_total:
  assumes "canonical_mapping payload ''ledger event payload'' = Inr copied"
    and "require_exact_identifier t ''event_type'' = Inr t" and "0 \<le> k" and "k = 0 \<longleftrightarrow> prev = None"
  shows "\<exists>e. event_build c k t a payload prev obj rv = Inr e"
proof -
  have "json_mapping copied = copied" using canonical_mapping_Inr [OF assms(1)] by (simp add: json_mapping_normal)
  then show ?thesis using assms
    by (auto simp: event_build_def event_init_def event_verify_def case_event_body_def)
qed

lemma object_id_ok: "object_id_init i = Inr j \<longleftrightarrow> j = i \<and> is_identifier i" "case_id_init i = Inr j \<longleftrightarrow> j = i \<and> is_identifier i"
  by (simp_all add: object_id_init_def case_id_init_def require_exact_identifier_Inr)

lemma wf_event: "event_ok e \<Longrightarrow> wf_json (JObj (case_event_dict e))" "event_ok e \<Longrightarrow> wf_json (JObj (case_event_body e))"
  by (simp_all add: event_ok_def case_event_dict_def case_event_body_def normal_json_def)

lemma case_event_dict_get:
  "dict_get (case_event_dict e) ''schema'' = JStr (le_schema e)"
  "dict_get (case_event_dict e) ''canonicalization_profile'' = JStr (profile_value (le_profile e))"
  "dict_get (case_event_dict e) ''case_id'' = JStr (le_case_id e)"
  "dict_get (case_event_dict e) ''case_sequence'' = JInt (le_case_sequence e)"
  "dict_get (case_event_dict e) ''event_type'' = JStr (le_event_type e)"
  "dict_get (case_event_dict e) ''object_id'' = opt_id (le_object_id e)"
  "dict_get (case_event_dict e) ''revision_id'' = opt_address (le_revision_id e)"
  "dict_get (case_event_dict e) ''runtime_identity_digest'' = JObj (address_dict (le_runtime e))"
  "dict_get (case_event_dict e) ''payload'' = JObj (le_payload e)"
  "dict_get (case_event_dict e) ''previous_event_id'' = opt_address (le_previous e)"
  "dict_get (case_event_dict e) ''event_id'' = JObj (address_dict (le_event_id e))"
  by (simp_all add: dict_get_def case_event_dict_def case_event_body_def)

text \<open>Reading back an event from any JSON with its canonical form.\<close>

lemma event_roundtrip_ok:
  assumes "event_ok e" "same_json d (case_event_dict e)"
  shows "event_from_dict d = Inr e"
proof -
  note ok = assms(1) [unfolded event_ok_def]
  note str = same_json_scalar [OF assms(2), unfolded case_event_dict_get]
  have p: "le_profile e = LUKART_JSON_V1" by (rule profile_one)
  have strs: "dict_get d ''schema'' = JStr (le_schema e)"
    "dict_get d ''canonicalization_profile'' = JStr (profile_value LUKART_JSON_V1)"
    "dict_get d ''case_id'' = JStr (le_case_id e)" "dict_get d ''event_type'' = JStr (le_event_type e)"
    "dict_get d ''case_sequence'' = JInt (le_case_sequence e)"
    by (rule same_json_scalar(1,2) [OF assms(2)], simp add: case_event_dict_get p)+
  have obj: "\<exists>q. opt_str_field (dict_get d ''object_id'') m = Inr q \<and> opt_built object_id_init q = Inr (le_object_id e)" for m
  proof (cases "le_object_id e")
    case None
    then have "dict_get d ''object_id'' = JNull"
      by (intro same_json_scalar(3) [OF assms(2)]) (simp add: case_event_dict_get opt_id_def)
    then show ?thesis using None by (simp add: opt_str_field_def opt_built_def)
  next
    case (Some x)
    then have "dict_get d ''object_id'' = JStr x"
      by (intro same_json_scalar(1) [OF assms(2)]) (simp add: case_event_dict_get opt_id_def)
    then show ?thesis using Some ok by (simp add: opt_str_field_def opt_built_def object_id_init_def require_exact_identifier_Inr)
  qed
  have rev: "\<exists>q. opt_obj_field (dict_get d ''revision_id'') m = Inr q \<and> opt_built address_from_dict q = Inr (le_revision_id e)" for m
    by (rule opt_address_field [OF assms(2) case_event_dict_get(7)]) (use ok in simp)
  have prev: "\<exists>q. opt_obj_field (dict_get d ''previous_event_id'') m = Inr q \<and> opt_built address_from_dict q = Inr (le_previous e)" for m
    by (rule opt_address_field [OF assms(2) case_event_dict_get(10)]) (use ok in simp)
  obtain rt where rt: "dict_get d ''runtime_identity_digest'' = JObj rt" "address_from_dict rt = Inr (le_runtime e)"
    using address_field [OF assms(2) case_event_dict_get(8)] ok by blast
  have "address_ok (le_event_id e)" using ok by simp
  then obtain i where i: "dict_get d ''event_id'' = JObj i" "address_from_dict i = Inr (le_event_id e)"
    using address_field [OF assms(2) case_event_dict_get(11)] by blast
  have "wf_json (JObj (le_payload e))" using ok by (simp add: normal_json_def)
  then obtain c where c: "dict_get d ''payload'' = JObj c" "same_json c (le_payload e)"
    using same_json_nested [OF assms(2) case_event_dict_get(9)] by blast
  have "json_mapping c = le_payload e"
    using c(2) ok json_mapping_normal [of "le_payload e"]
    by (simp add: same_json_def json_mapping_obj [symmetric] json_mapping_def del: norm_json.simps)
  from event_init_json [OF assms(1) this]
  have "event_init \<lparr>le_case_id = le_case_id e, le_case_sequence = le_case_sequence e, le_event_type = le_event_type e,
      le_runtime = le_runtime e, le_payload = c, le_event_id = le_event_id e, le_previous = le_previous e,
      le_object_id = le_object_id e, le_revision_id = le_revision_id e, le_profile = LUKART_JSON_V1,
      le_schema = le_schema e\<rparr> = Inr e"
    using p by (cases e) simp
  moreover have "case_id_init (le_case_id e) = Inr (le_case_id e)"
    using ok by (simp add: case_id_init_def require_exact_identifier_Inr)
  moreover obtain o1 where "opt_str_field (dict_get d ''object_id'') ''ledger event object_id must be a string or null'' = Inr o1"
      "opt_built object_id_init o1 = Inr (le_object_id e)" using obj by blast
  moreover obtain r1 where "opt_obj_field (dict_get d ''revision_id'') ''ledger event revision_id must be an object or null'' = Inr r1"
      "opt_built address_from_dict r1 = Inr (le_revision_id e)" using rev by blast
  moreover obtain p1 where "opt_obj_field (dict_get d ''previous_event_id'') ''previous_event_id must be an object or null'' = Inr p1"
      "opt_built address_from_dict p1 = Inr (le_previous e)" using prev by blast
  ultimately show ?thesis by (simp add: event_from_dict_def strs rt i c(1) parse_profile_def)
qed

interpretation case_events: content_addressed event_ok case_event_body
proof unfold_locales
  fix a b
  show "event_ok a \<Longrightarrow> wf_json (JObj (case_event_body a))" by (rule wf_event)
  assume ok: "event_ok a" "event_ok b" and eq: "norm_json (JObj (case_event_body a)) = norm_json (JObj (case_event_body b))"
  then have f: "le_schema a = le_schema b \<and> le_case_id a = le_case_id b \<and> le_case_sequence a = le_case_sequence b \<and>
      le_event_type a = le_event_type b \<and> le_object_id a = le_object_id b \<and> le_revision_id a = le_revision_id b \<and>
      le_runtime a = le_runtime b \<and> le_payload a = le_payload b \<and> le_previous a = le_previous b"
    by (simp add: norm_json_JObj_same_keys case_event_body_def event_ok_def normal_json_def del: norm_json.simps(6))
  have p: "le_profile a = le_profile b" using profile_one by metis
  with f have "case_event_body a = case_event_body b" by (simp add: case_event_body_def)
  then have "le_event_id a = le_event_id b" using ok by (simp add: event_ok_def)
  with f p show "a = b" by (intro ledger_event.equality) simp_all
qed

lemma address_from_dict_ok: "address_from_dict d = Inr a \<Longrightarrow> address_ok a"
  by (auto simp: address_from_dict_def content_address_init_Inr address_ok_def split: json.splits if_splits)

lemma opt_built_Inr:
  "opt_built f v = Inr w \<longleftrightarrow> (case v of None \<Rightarrow> w = None | Some x \<Rightarrow> \<exists>y. f x = Inr y \<and> w = Some y)"
  by (cases v) (auto simp: opt_built_def)

lemma wf_dict_get: "wf_json (JObj d) \<Longrightarrow> wf_json (dict_get d k)"
  by (rule same_json_get(2) [OF same_json_refl])

text \<open>All that reading an event establishes.\<close>

lemma event_from_dict_ok:
  assumes "event_from_dict d = Inr e" "wf_json (JObj d)"
  shows "event_ok e"
proof -
  obtain rt0 where rt0: "dict_get d ''runtime_identity_digest'' = JObj rt0"
    using assms(1) by (cases "dict_get d ''runtime_identity_digest''") (auto simp: event_from_dict_def split: json.splits)
  obtain payload where payload: "dict_get d ''payload'' = JObj payload"
    using assms(1) by (cases "dict_get d ''payload''") (auto simp: event_from_dict_def rt0 split: json.splits)
  obtain eid0 where eid0: "dict_get d ''event_id'' = JObj eid0"
    using assms(1) by (cases "dict_get d ''event_id''") (auto simp: event_from_dict_def rt0 payload split: json.splits)
  obtain schema profile case_id event_type sequence obj rv rt prev eid where
    built: "case_id_init case_id = Inr case_id" "\<exists>q. opt_built object_id_init q = Inr obj"
      "\<exists>q. opt_built address_from_dict q = Inr rv" "\<exists>q. address_from_dict q = Inr rt"
      "\<exists>q. opt_built address_from_dict q = Inr prev"
    and init: "event_init \<lparr>le_case_id = case_id, le_case_sequence = sequence, le_event_type = event_type,
       le_runtime = rt, le_payload = payload, le_event_id = eid, le_previous = prev,
       le_object_id = obj, le_revision_id = rv, le_profile = profile, le_schema = schema\<rparr> = Inr e"
    using assms(1) by (auto simp: event_from_dict_def rt0 payload eid0 case_id_init_def require_exact_identifier_Inr
      split: json.splits) blast
  have "wf_json (JObj payload)" using wf_dict_get [OF assms(2), of "''payload''"] payload by simp
  then show ?thesis using built
    by (intro event_init_ok [OF init])
      (auto simp: case_id_init_def object_id_init_def require_exact_identifier_Inr opt_built_Inr
        simp del: wf_json_simps dest: address_from_dict_ok split: option.splits)
qed

subsection \<open>Bundles\<close>

lemma bundle_verify_from_linked:
  "bundle_verify_from c i h es = Inr () \<longleftrightarrow>
     map le_case_sequence es = map (\<lambda>k. i + int k) [0..<length es] \<and>
     linked le_previous (\<lambda>e. Some (le_event_id e)) (\<lambda>e. event_verify e = Inr () \<and> le_case_id e = c) h es"
  by (rule numbered_chain [of "bundle_verify_from c"]) (auto split: if_splits)

interpretation case_chain: hash_chain le_previous "\<lambda>e. Some (le_event_id e)" event_ok "\<lambda>e. e"
  "\<lambda>e e'. digest_collision (JObj (case_event_body e)) (JObj (case_event_body e'))"
proof unfold_locales
  fix e e'
  assume "event_ok e" "event_ok e'" "Some (le_event_id e) = Some (le_event_id e')"
  then show "e = e' \<or> digest_collision (JObj (case_event_body e)) (JObj (case_event_body e'))"
    by (intro case_events.digest_binds) (simp_all add: event_ok_def address_for_value_def)
qed simp

definition bundle_ok :: "case_bundle \<Rightarrow> bool" where
  "bundle_ok b = (cb_schema b = LEDGER_BUNDLE_SCHEMA_V1 \<and> is_identifier (cb_case_id b) \<and>
     (\<forall>e \<in> set (cb_events b). event_ok e \<and> le_case_id e = cb_case_id b) \<and>
     map le_case_sequence (cb_events b) = map int [0..<length (cb_events b)] \<and>
     linked le_previous (\<lambda>e. Some (le_event_id e)) event_ok None (cb_events b) \<and>
     cb_digest b = address_for_value (JObj (bundle_body (cb_case_id b) (cb_events b))))"

lemma event_ok_verify: "event_ok e \<Longrightarrow> event_verify e = Inr ()"
  by (simp add: event_ok_def event_verify_def)

lemma bundle_init_Inr:
  assumes "is_identifier (cb_case_id b0)" "\<forall>e \<in> set (cb_events b0). event_ok e"
  shows "bundle_init b0 = Inr b \<longleftrightarrow> b = b0 \<and> bundle_ok b"
proof -
  have "linked le_previous (\<lambda>e. Some (le_event_id e)) (\<lambda>e. event_verify e = Inr () \<and> le_case_id e = cb_case_id b0) None
      (cb_events b0) \<longleftrightarrow> (\<forall>e \<in> set (cb_events b0). le_case_id e = cb_case_id b0) \<and>
      linked le_previous (\<lambda>e. Some (le_event_id e)) event_ok None (cb_events b0)"
  proof (intro iffI conjI ballI)
    assume l: "linked le_previous (\<lambda>e. Some (le_event_id e)) (\<lambda>e. event_verify e = Inr () \<and> le_case_id e = cb_case_id b0) None
      (cb_events b0)"
    show "le_case_id e = cb_case_id b0" if "e \<in> set (cb_events b0)" for e using linked_sound [OF l that] by simp
    show "linked le_previous (\<lambda>e. Some (le_event_id e)) event_ok None (cb_events b0)"
      by (rule linked_mono [OF l]) (use assms in blast)
  next
    assume r: "(\<forall>e \<in> set (cb_events b0). le_case_id e = cb_case_id b0) \<and>
      linked le_previous (\<lambda>e. Some (le_event_id e)) event_ok None (cb_events b0)"
    show "linked le_previous (\<lambda>e. Some (le_event_id e)) (\<lambda>e. event_verify e = Inr () \<and> le_case_id e = cb_case_id b0) None
      (cb_events b0)"
      by (rule linked_mono [OF r [THEN conjunct2]]) (use r in \<open>auto simp: event_ok_verify\<close>)
  qed
  then show ?thesis using assms
    by (auto simp: bundle_init_def bundle_verify_def bundle_verify_from_linked bundle_ok_def)
qed

lemma event_of_json_ok: "event_of_json j = Inr e \<Longrightarrow> wf_json j \<Longrightarrow> event_ok e"
  by (auto simp: event_of_json_def dest: event_from_dict_ok simp del: wf_json_simps split: json.splits)

lemma event_of_json_roundtrip:
  assumes "event_ok e" "wf_json j" "norm_json j = norm_json (JObj (case_event_dict e))"
  shows "event_of_json j = Inr e"
proof -
  obtain d where "j = JObj d" using assms(3) unfolding json_mapping_obj norm_json_obj_shape by blast
  then show ?thesis using event_roundtrip_ok [OF assms(1), of d] assms wf_event(1) [OF assms(1)]
    by (simp add: event_of_json_def same_json_def del: norm_json.simps wf_json_simps)
qed

lemma bundle_from_dict_ok:
  assumes "bundle_from_dict d = Inr b" "wf_json (JObj d)"
  shows "bundle_ok b"
proof -
  obtain schema profile case_id events parsed digest where
    get: "dict_get d ''events'' = JList events"
    and parsed: "map_result event_of_json events = Inr parsed" and c: "case_id_init case_id = Inr case_id"
    and init: "bundle_init \<lparr>cb_case_id = case_id, cb_events = parsed, cb_digest = digest,
       cb_profile = profile, cb_schema = schema\<rparr> = Inr b"
    using assms(1) unfolding bundle_from_dict_def
    by (auto simp: case_id_init_def require_exact_identifier_Inr simp del: norm_json_shape split: json.splits)
  have "\<forall>j \<in> set events. wf_json j" using wf_dict_get [OF assms(2), of "''events''"] get by (simp add: list_all_iff)
  then have "\<forall>e \<in> set parsed. event_ok e"
    using parsed unfolding map_result_Inr_iff by (auto dest!: list_all2_right intro: event_of_json_ok)
  moreover have "is_identifier case_id" using c by (simp add: case_id_init_def require_exact_identifier_Inr)
  ultimately show ?thesis using init by (auto simp: bundle_init_Inr)
qed

lemma bundle_dict_get:
  "dict_get (bundle_dict b) ''schema'' = JStr LEDGER_BUNDLE_SCHEMA_V1"
  "dict_get (bundle_dict b) ''canonicalization_profile'' = JStr CANONICALIZATION_PROFILE_V1"
  "dict_get (bundle_dict b) ''case_id'' = JStr (cb_case_id b)"
  "dict_get (bundle_dict b) ''events'' = JList (map (\<lambda>e. JObj (case_event_dict e)) (cb_events b))"
  "dict_get (bundle_dict b) ''bundle_digest'' = JObj (address_dict (cb_digest b))"
  by (simp_all add: dict_get_def bundle_dict_def bundle_body_def)

lemma wf_bundle:
  assumes "bundle_ok b"
  shows "wf_json (JObj (bundle_dict b))" "wf_json (JObj (bundle_body (cb_case_id b) (cb_events b)))"
proof -
  have "wf_json (JList (map (\<lambda>e. JObj (case_event_dict e)) (cb_events b)))"
    using assms wf_event(1) by (auto simp: bundle_ok_def list_all_iff simp del: wf_json_simps(2))
  then show "wf_json (JObj (bundle_dict b))" "wf_json (JObj (bundle_body (cb_case_id b) (cb_events b)))"
    by (simp_all add: bundle_dict_def bundle_body_def del: wf_json_simps(1))
qed

lemma bundle_roundtrip_ok:
  assumes "bundle_ok b" "same_json d (bundle_dict b)"
  shows "bundle_from_dict d = Inr b"
proof -
  note ok = assms(1) [unfolded bundle_ok_def]
  have strs: "dict_get d ''schema'' = JStr LEDGER_BUNDLE_SCHEMA_V1"
    "dict_get d ''canonicalization_profile'' = JStr CANONICALIZATION_PROFILE_V1"
    "dict_get d ''case_id'' = JStr (cb_case_id b)"
    by (rule same_json_scalar(1) [OF assms(2)], simp add: bundle_dict_get)+
  have "norm_json (dict_get d ''events'') = norm_json (JList (map (\<lambda>e. JObj (case_event_dict e)) (cb_events b)))"
    using same_json_get(1) [OF assms(2), of "''events''"] by (simp only: bundle_dict_get)
  then obtain js where js: "dict_get d ''events'' = JList js"
      "map norm_json js = map norm_json (map (\<lambda>e. JObj (case_event_dict e)) (cb_events b))"
    by (auto simp del: norm_json.simps(6))
  have wf: "\<forall>j \<in> set js. wf_json j" using same_json_get(2) [OF assms(2), of "''events''"] js(1) by (simp add: list_all_iff)
  have len: "length js = length (cb_events b)" using js(2) by (metis length_map)
  have "map_result event_of_json js = Inr (cb_events b)"
    unfolding map_result_Inr_iff list_all2_conv_all_nth
  proof (intro conjI allI impI len)
    fix i
    assume i: "i < length js"
    have "norm_json (js ! i) = norm_json (JObj (case_event_dict (cb_events b ! i)))"
      using arg_cong [OF js(2), of "\<lambda>xs. xs ! i"] i len by simp
    then show "event_of_json (js ! i) = Inr (cb_events b ! i)"
      using ok wf i len by (intro event_of_json_roundtrip) auto
  qed
  moreover obtain q where "dict_get d ''bundle_digest'' = JObj q" "address_from_dict q = Inr (cb_digest b)"
    using address_field [OF assms(2) bundle_dict_get(5)] ok by auto
  moreover have "case_id_init (cb_case_id b) = Inr (cb_case_id b)"
    using ok by (simp add: case_id_init_def require_exact_identifier_Inr)
  moreover have "bundle_init \<lparr>cb_case_id = cb_case_id b, cb_events = cb_events b, cb_digest = cb_digest b,
       cb_profile = LUKART_JSON_V1, cb_schema = LEDGER_BUNDLE_SCHEMA_V1\<rparr> = Inr b"
    using ok assms(1) profile_one [of "cb_profile b"] bundle_init_Inr [of b b] by (cases b) simp
  ultimately show ?thesis by (simp add: bundle_from_dict_def strs js(1) parse_profile_def)
qed

lemma same_json_text:
  assumes "wf_json (JObj d)"
  shows "\<exists>d'. loads (canonical_json (JObj d)) = Some (JObj d') \<and> same_json d' d"
proof (intro exI conjI)
  show "loads (canonical_json (JObj d)) = Some (JObj (json_mapping d))"
    using loads_canonical_json [OF assms] unfolding json_mapping_obj .
  show "same_json (json_mapping d) d"
    using normal_json_mapping [OF assms] assms
    by (simp add: same_json_def normal_json_def json_mapping_obj del: wf_json_simps norm_json.simps)
qed

section \<open>Properties\<close>

text \<open>A case history survives export as text: a bundle that was accepted from parsed JSON is written
  as canonical JSON, and reading that text back gives a dictionary from which the very same bundle is
  accepted, with every event's identity checked again on the way.\<close>

theorem case_bundle_roundtrip:
  assumes "bundle_from_dict d = return b" and "wf_json (JObj d)"
  shows "\<exists>d'. loads (canonical_json (JObj (bundle_dict b))) = Some (JObj d') \<and> bundle_from_dict d' = return b"
proof -
  have ok: "bundle_ok b" by (rule bundle_from_dict_ok [OF assms])
  show ?thesis using same_json_text [OF wf_bundle(1) [OF ok]] bundle_roundtrip_ok [OF ok] by blast
qed

text \<open>C32: The head of a case history pins all of it: two bundles accepted from parsed JSON whose last
  events have the same identity hold the same events, or an event of one and an event of the other
  are an exhibited SHA-256 collision.\<close>

theorem case_history_tamper_evident:
  assumes "bundle_from_dict d = return b" and "wf_json (JObj d)"
    and "bundle_from_dict d' = return b'" and "wf_json (JObj d')"
    and "events_head (cb_events b) = events_head (cb_events b')"
  shows "cb_events b = cb_events b' \<or> (\<exists>e \<in> set (cb_events b). \<exists>e' \<in> set (cb_events b').
    digest_collision (JObj (case_event_body e)) (JObj (case_event_body e')))"
proof -
  have "bundle_ok b" "bundle_ok b'" using assms by (blast intro: bundle_from_dict_ok)+
  then have "linked le_previous (\<lambda>e. Some (le_event_id e)) event_ok None (cb_events b)"
    "linked le_previous (\<lambda>e. Some (le_event_id e)) event_ok None (cb_events b')" by (simp_all add: bundle_ok_def)
  from case_chain.tamper_evident [OF this] show ?thesis
    using assms(5) by (simp add: chain_head_def events_head_def)
qed

text \<open>The identity of an object revision pins its content: revisions built for well-formed object
  identifiers read back from their own dictionary, and two of them with the same revision identity are
  equal in object, schema version and content, or are an exhibited SHA-256 collision.\<close>

theorem revision_identity_pins_content:
  assumes "object_id_init i = return i" and "revision_build i v c = return r"
    and "object_id_init i' = return i'" and "revision_build i' v' c' = return r'"
  shows "revision_from_dict (revision_dict r) = return r \<and>
    (or_revision_id r = or_revision_id r' \<longrightarrow>
       r = r' \<or> digest_collision (JObj (revision_body r)) (JObj (revision_body r')))"
proof -
  have ok: "revision_ok r" "revision_ok r'"
    using assms by (auto intro!: revision_build_ok simp: object_id_init_def require_exact_identifier_Inr)
  have "revision_from_dict (revision_dict r) = return r"
    by (rule revision_roundtrip_ok [OF ok(1) same_json_refl [OF wf_revision_dict [OF ok(1)]]])
  moreover have "r = r' \<or> digest_collision (JObj (revision_body r)) (JObj (revision_body r'))"
    if "or_revision_id r = or_revision_id r'"
    using revisions.digest_binds [OF ok] ok that by (simp add: revision_ok_def address_for_value_def)
  ultimately show ?thesis by blast
qed

section \<open>Witnesses\<close>

lemma sample_identifiers: "is_identifier ''c''" "is_identifier ''t''"
  by (simp_all add: is_identifier_def is_text_def stripped_def is_space_def)

lemma sample_names: "case_id_init ''c'' = Inr ''c''" "object_id_init ''c'' = Inr ''c''"
    "require_exact_identifier ''t'' n = Inr ''t''"
  using sample_identifiers by (simp_all add: object_id_ok require_exact_identifier_Inr)

lemma sample_mapping: "canonical_mapping [] n = Inr []"
  by (simp add: canonical_mapping_def dict_of_def)

lemma sample_case_bundle: "\<exists>e b. event_build ''c'' 0 ''t'' (address_for_value JNull) [] None None None = Inr e \<and>
    cb_events b = [e] \<and> bundle_from_dict (bundle_dict b) = Inr b \<and> wf_json (JObj (bundle_dict b))"
proof -
  obtain e where e: "event_build ''c'' 0 ''t'' (address_for_value JNull) [] None None None = Inr e"
    using event_build_total [OF sample_mapping sample_names(3), of 0 None "''c''" "address_for_value JNull" None None] by auto
  have k: "event_ok e" "le_case_id e = ''c''" "le_case_sequence e = 0" "le_previous e = None"
    using event_build_ok [OF e sample_identifiers(1)] by simp_all
  define b where "b = \<lparr>cb_case_id = ''c'', cb_events = [e], cb_digest = address_for_value (JObj (bundle_body ''c'' [e])),
       cb_profile = LUKART_JSON_V1, cb_schema = LEDGER_BUNDLE_SCHEMA_V1\<rparr>"
  have "bundle_ok b" using k sample_identifiers(1) by (simp add: b_def bundle_ok_def)
  then have "bundle_from_dict (bundle_dict b) = Inr b" "wf_json (JObj (bundle_dict b))" "cb_events b = [e]"
    using bundle_roundtrip_ok same_json_refl wf_bundle(1) by (blast, blast, simp add: b_def)
  then show ?thesis using e by blast
qed

lemma case_bundle_roundtrip_witness:
  "\<exists>b d'. length (cb_events b) = 1 \<and> loads (canonical_json (JObj (bundle_dict b))) = Some (JObj d') \<and> bundle_from_dict d' = return b"
proof -
  obtain b where b: "length (cb_events b) = 1" "bundle_from_dict (bundle_dict b) = Inr b" "wf_json (JObj (bundle_dict b))"
    using sample_case_bundle by force
  from case_bundle_roundtrip [OF b(2,3)] show ?thesis using b(1) by blast
qed

lemma case_history_tamper_evident_witness:
  "\<exists>b. length (cb_events b) = 1 \<and> bundle_from_dict (bundle_dict b) = return b \<and>
    (cb_events b = cb_events b \<or> (\<exists>e \<in> set (cb_events b). \<exists>e' \<in> set (cb_events b).
      digest_collision (JObj (case_event_body e)) (JObj (case_event_body e'))))"
proof -
  obtain b where b: "length (cb_events b) = 1" "bundle_from_dict (bundle_dict b) = Inr b" "wf_json (JObj (bundle_dict b))"
    using sample_case_bundle by force
  show ?thesis using case_history_tamper_evident [OF b(2,3) b(2,3) refl] b by (intro exI [of _ b] conjI)
qed

lemma revision_identity_pins_content_witness:
  "\<exists>r. revision_build ''c'' ''t'' [] = return r \<and> revision_from_dict (revision_dict r) = return r"
proof -
  have "json_mapping [] = []" by (simp add: json_mapping_def)
  then obtain r where r: "revision_build ''c'' ''t'' [] = Inr r"
    by (auto simp: revision_build_def sample_mapping sample_names revision_init_def revision_verify_def revision_body_def)
  from revision_identity_pins_content [OF sample_names(2) r sample_names(2) r] show ?thesis using r by blast
qed

end
