(* ===== verification/Python_Time.thy ===== *)
theory Python_Time
  imports Json_Roundtrip Python_Text
begin

text \<open>
  Dates and times of Python's \<^verbatim>\<open>datetime\<close> module, as far as the program uses them. A \<^verbatim>\<open>date\<close> is its
  proleptic Gregorian ordinal, 1 for 1 January of year 1; a \<^verbatim>\<open>datetime\<close> is a day, the microsecond of
  that day, and the offset from UTC in microseconds if there is one. \<^verbatim>\<open>fromisoformat\<close> is modelled for
  the extended calendar format, which is the one \<^verbatim>\<open>isoformat\<close> writes; the basic format without
  separators and the week dates are refused here.
\<close>

section \<open>Dates\<close>

type_synonym py_date = int

definition max_ordinal :: int where
  "max_ordinal = 3652059"

definition date_ok :: "py_date \<Rightarrow> bool" where
  "date_ok n = (1 \<le> n \<and> n \<le> max_ordinal)"

definition is_leap :: "int \<Rightarrow> bool" where
  "is_leap y = (y mod 4 = 0 \<and> (y mod 100 \<noteq> 0 \<or> y mod 400 = 0))"

definition days_before_year :: "int \<Rightarrow> int" where
  "days_before_year y = (let p = y - 1 in p * 365 + p div 4 - p div 100 + p div 400)"

definition days_in_month :: "int \<Rightarrow> int \<Rightarrow> int" where
  "days_in_month y m =
     (if m = 2 \<and> is_leap y then 29 else [31, 28, 31, 30, 31, 30, 31, 31, 30, 31, 30, 31] ! nat (m - 1))"

definition days_before_month :: "int \<Rightarrow> int \<Rightarrow> int" where
  "days_before_month y m =
     [0, 31, 59, 90, 120, 151, 181, 212, 243, 273, 304, 334] ! nat (m - 1) + (if m > 2 \<and> is_leap y then 1 else 0)"

definition ymd_ok :: "int \<Rightarrow> int \<Rightarrow> int \<Rightarrow> bool" where
  "ymd_ok y m d = (1 \<le> y \<and> y \<le> 9999 \<and> 1 \<le> m \<and> m \<le> 12 \<and> 1 \<le> d \<and> d \<le> days_in_month y m)"

definition ymd2ord :: "int \<Rightarrow> int \<Rightarrow> int \<Rightarrow> py_date" where
  "ymd2ord y m d = days_before_year y + days_before_month y m + d"

text \<open>The algorithm of the library: cycles of 400, 100, 4 and 1 years, then an estimate of the month
  that is at most one too late.\<close>

definition ord2ymd :: "py_date \<Rightarrow> int \<times> int \<times> int" where
  "ord2ymd ordinal =
     (let n = ordinal - 1; n400 = n div 146097; n = n mod 146097; n100 = n div 36524; n = n mod 36524;
          n4 = n div 1461; n = n mod 1461; n1 = n div 365; n = n mod 365;
          year = n400 * 400 + 1 + n100 * 100 + n4 * 4 + n1 in
      if n1 = 4 \<or> n100 = 4 then (year - 1, 12, 31)
      else let leapyear = (n1 = 3 \<and> (n4 \<noteq> 24 \<or> n100 = 3));
               before = (\<lambda>m. [0, 31, 59, 90, 120, 151, 181, 212, 243, 273, 304, 334] ! nat (m - 1)
                 + (if m > 2 \<and> leapyear then 1 else 0));
               month = (n + 50) div 32;
               month' = (if before month > n then month - 1 else month) in
           (year, month', n - before month' + 1))"

definition weekday :: "py_date \<Rightarrow> int" where
  "weekday n = (n + 6) mod 7"

section \<open>Texts\<close>

fun zero_pad :: "nat \<Rightarrow> int \<Rightarrow> string" where
  "zero_pad 0 n = []"
| "zero_pad (Suc k) n = zero_pad k (n div 10) @ [digit_char (n mod 10)]"

definition iso_date :: "py_date \<Rightarrow> string" where
  "iso_date n = (case ord2ymd n of (y, m, d) \<Rightarrow> zero_pad 4 y @ ''-'' @ zero_pad 2 m @ ''-'' @ zero_pad 2 d)"

record py_datetime =
  dt_day :: py_date
  dt_micros :: int
  dt_offset :: "int option"

definition US_SECOND :: int where "US_SECOND = 1000000"
definition US_DAY :: int where "US_DAY = 86400000000"

definition datetime_ok :: "py_datetime \<Rightarrow> bool" where
  "datetime_ok t = (date_ok (dt_day t) \<and> 0 \<le> dt_micros t \<and> dt_micros t < US_DAY \<and>
     (\<forall>z. dt_offset t = Some z \<longrightarrow> \<bar>z\<bar> < US_DAY))"

text \<open>Aware datetimes are equal, and ordered, by the instant they name.\<close>

definition instant :: "py_datetime \<Rightarrow> int" where
  "instant t = dt_day t * US_DAY + dt_micros t - (case dt_offset t of None \<Rightarrow> 0 | Some z \<Rightarrow> z)"

definition is_aware :: "py_datetime \<Rightarrow> bool" where
  "is_aware t = (dt_offset t \<noteq> None)"

definition iso_fraction :: "int \<Rightarrow> string" where
  "iso_fraction us = (if us = 0 then [] else ''.'' @ zero_pad 6 us)"

definition iso_clock :: "int \<Rightarrow> string" where
  "iso_clock t = (let s = t div 1000000 in
     zero_pad 2 (s div 3600) @ '':'' @ zero_pad 2 (s div 60 mod 60) @ '':'' @ zero_pad 2 (s mod 60) @ iso_fraction (t mod 1000000))"

definition iso_offset :: "int option \<Rightarrow> string" where
  "iso_offset z = (case z of None \<Rightarrow> []
     | Some off \<Rightarrow> let a = \<bar>off\<bar>; s = a div 1000000; us = a mod 1000000 in
         (if off < 0 then ''-'' else ''+'') @ zero_pad 2 (s div 3600) @ '':'' @ zero_pad 2 (s div 60 mod 60) @
         (if s mod 60 = 0 \<and> us = 0 then [] else '':'' @ zero_pad 2 (s mod 60) @ iso_fraction us))"

definition isoformat :: "py_datetime \<Rightarrow> string" where
  "isoformat t = iso_date (dt_day t) @ ''T'' @ iso_clock (dt_micros t) @ iso_offset (dt_offset t)"

section \<open>Reading\<close>

definition read_fixed :: "nat \<Rightarrow> string \<Rightarrow> (int \<times> string) option" where
  "read_fixed k s =
     (if length s \<ge> k \<and> list_all is_digit (take k s) then Some (read_digits (take k s), drop k s) else None)"

definition expect :: "char \<Rightarrow> string \<Rightarrow> string option" where
  "expect c s = (case s of x # xs \<Rightarrow> if x = c then Some xs else None | [] \<Rightarrow> None)"

definition parse_date :: "string \<Rightarrow> (py_date \<times> string) option" where
  "parse_date s =
     Option.bind (read_fixed 4 s) (\<lambda>(y, s).
     Option.bind (expect CHR ''-'' s) (\<lambda>s.
     Option.bind (read_fixed 2 s) (\<lambda>(m, s).
     Option.bind (expect CHR ''-'' s) (\<lambda>s.
     Option.bind (read_fixed 2 s) (\<lambda>(d, s).
     if ymd_ok y m d then Some (ymd2ord y m d, s) else None)))))"

text \<open>A fraction of a second: at least one digit, of which the first six count.\<close>

definition parse_fraction :: "string \<Rightarrow> (int \<times> string) option" where
  "parse_fraction s =
     (case s of
        c # cs \<Rightarrow>
          if c = CHR ''.'' \<or> c = CHR '','' then
            let ds = takeWhile is_digit cs in
            if ds = [] then None
            else Some (read_digits (take 6 (ds @ replicate 5 (CHR ''0''))), drop (length ds) cs)
          else Some (0, s)
      | [] \<Rightarrow> Some (0, s))"

definition parse_clock :: "string \<Rightarrow> (int \<times> string) option" where
  "parse_clock s =
     Option.bind (read_fixed 2 s) (\<lambda>(h, s).
     if h \<ge> 24 then None else
     case expect CHR '':'' s of None \<Rightarrow> Some (h * 3600000000, s)
     | Some s \<Rightarrow>
     Option.bind (read_fixed 2 s) (\<lambda>(m, s).
     if m \<ge> 60 then None else
     case expect CHR '':'' s of None \<Rightarrow> Some ((h * 60 + m) * 60000000, s)
     | Some s \<Rightarrow>
     Option.bind (read_fixed 2 s) (\<lambda>(sec, s).
     if sec \<ge> 60 then None else
     Option.bind (parse_fraction s) (\<lambda>(us, s). Some (((h * 60 + m) * 60 + sec) * 1000000 + us, s)))))"

definition parse_offset :: "string \<Rightarrow> int option option" where
  "parse_offset s =
     (case s of
        [] \<Rightarrow> Some None
      | c # cs \<Rightarrow>
          if c = CHR ''Z'' \<and> cs = [] then Some (Some 0)
          else if c = CHR ''+'' \<or> c = CHR ''-'' then
            Option.bind (parse_clock cs) (\<lambda>(z, rest).
            if rest = [] then Some (Some (if c = CHR ''-'' then - z else z)) else None)
          else None)"

definition fromisoformat :: "string \<Rightarrow> py_datetime option" where
  "fromisoformat s =
     Option.bind (parse_date s) (\<lambda>(day, s).
     case s of
       [] \<Rightarrow> Some \<lparr>dt_day = day, dt_micros = 0, dt_offset = None\<rparr>
     | _ # s \<Rightarrow>
         Option.bind (parse_clock s) (\<lambda>(us, s).
         Option.bind (parse_offset s) (\<lambda>z. Some \<lparr>dt_day = day, dt_micros = us, dt_offset = z\<rparr>)))"

section \<open>Laws\<close>

lemma length_pad [simp]: "length (zero_pad k n) = k"
  by (induction k n rule: zero_pad.induct) auto

lemma pad_digits:
  assumes "0 \<le> n" "n < 10 ^ k"
  shows "list_all is_digit (zero_pad k n) \<and> read_digits (zero_pad k n) = n"
  using assms
proof (induction k n rule: zero_pad.induct)
  case (2 k n)
  then have "0 \<le> n div 10" "n div 10 < 10 ^ k" "n mod 10 \<in> {0..9}" by auto
  with 2 show ?case by (simp add: read_digits_snoc digit_char_props)
qed (simp add: read_digits_def)

lemma read_fixed_pad [simp]: "0 \<le> n \<Longrightarrow> n < 10 ^ k \<Longrightarrow> read_fixed k (zero_pad k n @ rest) = Some (n, rest)"
  using pad_digits [of n k] by (simp add: read_fixed_def)

lemma expect_Cons [simp]: "expect c (c # s) = Some s" "x \<noteq> c \<Longrightarrow> expect c (x # s) = None" "expect c [] = None"
  by (simp_all add: expect_def)

text \<open>The cycles of the calendar.\<close>

lemma mod_end: "1 \<le> k \<Longrightarrow> k \<le> M \<Longrightarrow> (M * q + k) mod M = 0 \<longleftrightarrow> k = (M::int)"
  by (cases "k = M") (auto simp: mod_add_eq)

lemma div_part: "(x::int) = M * q + k \<Longrightarrow> 0 \<le> k \<Longrightarrow> k < M \<Longrightarrow> x div M = q"
  by simp

lemma twelve: "1 \<le> m \<Longrightarrow> m \<le> 12 \<Longrightarrow> m \<in> {1,2,3,4,5,6,7,8,9,10,11,12::int}"
  by simp presburger

lemma year_cycles:
  fixes a b c e :: int
  assumes r: "0 \<le> b" "b \<le> 3" "0 \<le> c" "c \<le> 24" "0 \<le> e" "e \<le> 3" and y: "y = a * 400 + 1 + b * 100 + c * 4 + e"
  shows "days_before_year y = 146097 * a + 36524 * b + 1461 * c + 365 * e"
    "is_leap y \<longleftrightarrow> e = 3 \<and> (c \<noteq> 24 \<or> b = 3)"
proof -
  have "(y - 1) div 4 = 100 * a + 25 * b + c" by (rule div_part [of _ _ _ e]) (use r y in auto)
  moreover have "(y - 1) div 100 = 4 * a + b" by (rule div_part [of _ _ _ "4 * c + e"]) (use r y in auto)
  moreover have "(y - 1) div 400 = a" by (rule div_part [of _ _ _ "100 * b + 4 * c + e"]) (use r y in auto)
  ultimately show "days_before_year y = 146097 * a + 36524 * b + 1461 * c + 365 * e"
    by (simp add: days_before_year_def Let_def y)
  have "y mod 4 = 0 \<longleftrightarrow> e + 1 = 4"
    using mod_end [of "e + 1" 4 "100 * a + 25 * b + c"] r by (simp add: y algebra_simps)
  moreover have "y mod 100 = 0 \<longleftrightarrow> 4 * c + e + 1 = 100"
    using mod_end [of "4 * c + e + 1" 100 "4 * a + b"] r by (simp add: y algebra_simps)
  moreover have "y mod 400 = 0 \<longleftrightarrow> 100 * b + 4 * c + e + 1 = 400"
    using mod_end [of "100 * b + 4 * c + e + 1" 400 a] r by (simp add: y algebra_simps)
  ultimately show "is_leap y \<longleftrightarrow> e = 3 \<and> (c \<noteq> 24 \<or> b = 3)" using r by (auto simp: is_leap_def)
qed

text \<open>The month of a day of the year.\<close>

lemma month_of_day:
  assumes n: "0 \<le> n" "n \<le> 364" and m: "m = (n + 50) div 32"
    and m': "m' = (if days_before_month y m > n then m - 1 else m)"
  shows "1 \<le> m' \<and> m' \<le> 12 \<and> 0 \<le> n - days_before_month y m' \<and> n - days_before_month y m' < days_in_month y m'"
proof -
  have "1 \<le> m" "m \<le> 12" "32 * m - 50 \<le> n" "n \<le> 32 * m - 19" using n m by auto
  then have "m \<in> {1,2,3,4,5,6,7,8,9,10,11,12}" "32 * m - 50 \<le> n" "n \<le> 32 * m - 19" using twelve [of m] by simp_all
  then show ?thesis using n unfolding m'
    by (cases "is_leap y") (auto simp: days_before_month_def days_in_month_def)
qed

lemma ord2ymd_correct:
  assumes "date_ok ordinal" "ord2ymd ordinal = (y, m, d)"
  shows "ymd_ok y m d \<and> ymd2ord y m d = ordinal"
proof -
  define N where "N = ordinal - 1"
  define a r1 where ar: "a = N div 146097" "r1 = N mod 146097"
  define b r2 where br: "b = r1 div 36524" "r2 = r1 mod 36524"
  define c r3 where cr: "c = r2 div 1461" "r3 = r2 mod 1461"
  define e n where er: "e = r3 div 365" "n = r3 mod 365"
  have N: "0 \<le> N" "N \<le> 3652058" "ordinal = N + 1" using assms(1) by (simp_all add: N_def date_ok_def max_ordinal_def)
  have parts: "N = 146097 * a + r1" "r1 = 36524 * b + r2" "r2 = 1461 * c + r3" "r3 = 365 * e + n"
    unfolding ar br cr er by simp_all
  have rest: "0 \<le> r1" "r1 < 146097" "0 \<le> r2" "r2 < 36524" "0 \<le> r3" "r3 < 1461" "0 \<le> n" "n < 365" "0 \<le> a"
    "0 \<le> b" "0 \<le> c" "0 \<le> e" using N unfolding ar br cr er by (simp_all add: pos_imp_zdiv_nonneg_iff)
  have bounds: "b \<le> 4" "c \<le> 24" "e \<le> 4" "a \<le> 24" using parts rest N by linarith+
  have b4: "c = 0 \<and> e = 0 \<and> n = 0" if "b = 4" using parts rest that by (intro conjI) linarith+
  have e4: "n = 0 \<and> c \<noteq> 24 \<and> b \<noteq> 4" if "e = 4" using parts rest that by (intro conjI notI) linarith+
  define year where "year = a * 400 + 1 + b * 100 + c * 4 + e"
  note step = assms(2) [unfolded ord2ymd_def Let_def, folded N_def, folded ar, folded br, folded cr, folded er, folded year_def]
  show ?thesis
  proof (cases "e = 4 \<or> b = 4")
    case True
    define b' c' where "b' = (if b = 4 then 3 else b)" and "c' = (if b = 4 then 24 else c)"
    have ymd: "y = year - 1" "m = 12" "d = 31" using step True by auto
    have r: "0 \<le> b'" "b' \<le> 3" "0 \<le> c'" "c' \<le> 24" using rest bounds by (auto simp: b'_def c'_def)
    have y: "y = a * 400 + 1 + b' * 100 + c' * 4 + 3" using True b4 by (auto simp: ymd year_def b'_def c'_def)
    note yc = year_cycles [OF r _ _ y, simplified]
    have "c' \<noteq> 24 \<or> b' = 3" using True e4 by (auto simp: b'_def c'_def)
    then have leap: "is_leap y" using yc(2) by simp
    have "N = 146097 * a + 36524 * b' + 1461 * c' + 1460" using True b4 e4 parts by (auto simp: b'_def c'_def)
    then show ?thesis using N r rest y yc(1) leap
      by (auto simp: ymd ymd_ok_def ymd2ord_def days_before_month_def days_in_month_def)
  next
    case False
    then have r: "b \<le> 3" "e \<le> 3" using bounds by linarith+
    note yc = year_cycles [OF rest(10) r(1) rest(11) bounds(2) rest(12) r(2) year_def]
    have before: "[0, 31, 59, 90, 120, 151, 181, 212, 243, 273, 304, 334] ! nat (m - 1)
        + (if 2 < m \<and> e = 3 \<and> (c \<noteq> 24 \<or> b = 3) then 1 else 0) = days_before_month year m" for m
      by (simp only: days_before_month_def yc(2))
    define k where "k = (n + 50) div 32"
    define k' where "k' = (if days_before_month year k > n then k - 1 else k)"
    have "(year, k', n - days_before_month year k' + 1) = (y, m, d)"
      using step unfolding before k_def [symmetric] k'_def [symmetric] if_not_P [OF False] .
    then have ymd: "y = year" "m = k'" "d = n - days_before_month year k' + 1" by auto
    have "year \<le> 9999" using parts rest N r bounds unfolding year_def by linarith
    moreover have "1 \<le> year" using rest by (simp add: year_def)
    moreover have md: "1 \<le> k' \<and> k' \<le> 12 \<and> 0 \<le> n - days_before_month year k' \<and>
        n - days_before_month year k' < days_in_month year k'"
      by (rule month_of_day [OF rest(7) _ k_def k'_def]) (use rest(8) in simp)
    ultimately have "ymd_ok year k' (n - days_before_month year k' + 1)" by (simp add: ymd_ok_def)
    then show ?thesis unfolding ymd using yc(1) N(3) parts by (simp add: ymd2ord_def)
  qed
qed

lemma iso_date_read:
  assumes "date_ok n"
  shows "parse_date (iso_date n @ rest) = Some (n, rest)"
proof -
  obtain y m d where o: "ord2ymd n = (y, m, d)" by (metis prod_cases3)
  note c = ord2ymd_correct [OF assms o]
  have "days_in_month y m \<in> {28, 29, 30, 31}"
    using c twelve [of m] by (auto simp: ymd_ok_def days_in_month_def)
  then have "0 \<le> y" "y < 10 ^ 4" "0 \<le> m" "m < 10 ^ 2" "0 \<le> d" "d < 10 ^ 2" using c by (auto simp: ymd_ok_def)
  then show ?thesis using c by (simp add: parse_date_def iso_date_def o)
qed

text \<open>The fields of a clock.\<close>

lemma clock_digits:
  fixes t :: int
  assumes "0 \<le> t" "t < US_DAY" and f: "s = t div 1000000" "h = s div 3600" "m = s div 60 mod 60" "sec = s mod 60" "us = t mod 1000000"
  shows "0 \<le> h" "h < 24" "0 \<le> m" "m < 60" "0 \<le> sec" "sec < 60" "0 \<le> us" "us < 1000000"
    "((h * 60 + m) * 60 + sec) * 1000000 + us = t"
proof -
  have "0 \<le> s" "s < 86400" using assms(1,2) by (auto simp: f US_DAY_def)
  then show "0 \<le> h" "h < 24" "0 \<le> m" "m < 60" "0 \<le> sec" "sec < 60" "0 \<le> us" "us < 1000000" by (auto simp: f(2-5))
  have "s div 60 div 60 * 60 + s div 60 mod 60 = s div 60" "s div 60 * 60 + s mod 60 = s" by simp_all
  then have "(h * 60 + m) * 60 + sec = s" by (simp add: f(2-4) zdiv_zmult2_eq [symmetric])
  then show "((h * 60 + m) * 60 + sec) * 1000000 + us = t" by (simp add: f(1,5))
qed

lemma read_two: "0 \<le> n \<Longrightarrow> n < 60 \<Longrightarrow> read_fixed 2 (zero_pad 2 n @ rest) = Some (n, rest)"
    "0 \<le> n \<Longrightarrow> n < 60 \<Longrightarrow> read_fixed 2 (zero_pad 2 n) = Some (n, [])"
  using read_fixed_pad [of n 2] read_fixed_pad [of n 2 "[]"] by simp_all

text \<open>What may follow a clock: nothing, or the sign of an offset.\<close>

definition clock_end :: "string \<Rightarrow> bool" where
  "clock_end rest = (rest = [] \<or> hd rest \<in> {CHR ''+'', CHR ''-''})"

lemma parse_fraction_iso:
  assumes "0 \<le> us" "us < 1000000" "clock_end rest"
  shows "parse_fraction (iso_fraction us @ rest) = Some (us, rest)"
proof (cases "us = 0")
  case True
  then show ?thesis using assms(3)
    by (auto simp: iso_fraction_def parse_fraction_def clock_end_def split: list.split)
next
  case False
  have d: "list_all is_digit (zero_pad 6 us)" "read_digits (zero_pad 6 us) = us" using pad_digits [of us 6] assms by simp_all
  have "\<not> is_digit (hd rest)" if "rest \<noteq> []" using assms(3) that by (auto simp: clock_end_def is_digit_def)
  then have "takeWhile is_digit (zero_pad 6 us @ rest) = zero_pad 6 us"
    using d(1) by (simp add: takeWhile_append list_all_iff) (cases rest; simp)
  moreover have "zero_pad 6 us \<noteq> []" using length_pad [of 6 us] by (metis list.size(3) zero_neq_numeral)
  ultimately show ?thesis using False d(2) by (simp add: iso_fraction_def parse_fraction_def Let_def del: zero_pad.simps)
qed

lemma parse_clock_parts:
  assumes "0 \<le> h" "h < 24" "0 \<le> m" "m < 60" "0 \<le> sec" "sec < 60" "0 \<le> us" "us < 1000000" "clock_end rest"
  shows "parse_clock (zero_pad 2 h @ CHR '':'' # zero_pad 2 m @ CHR '':'' # zero_pad 2 sec @ iso_fraction us @ rest) =
      Some (((h * 60 + m) * 60 + sec) * 1000000 + us, rest)"
    "parse_clock (zero_pad 2 h @ CHR '':'' # zero_pad 2 m) = Some ((h * 60 + m) * 60000000, [])"
proof -
  have "\<not> 24 \<le> h" "h < 60" "\<not> 60 \<le> m" "\<not> 60 \<le> sec" using assms by linarith+
  note facts = this read_two assms(1,3-6) parse_fraction_iso [OF assms(7-9)]
  show "parse_clock (zero_pad 2 h @ CHR '':'' # zero_pad 2 m @ CHR '':'' # zero_pad 2 sec @ iso_fraction us @ rest) =
      Some (((h * 60 + m) * 60 + sec) * 1000000 + us, rest)"
    unfolding parse_clock_def by (simp only: facts expect_Cons bind.bind_lunit option.case prod.case if_False)
  show "parse_clock (zero_pad 2 h @ CHR '':'' # zero_pad 2 m) = Some ((h * 60 + m) * 60000000, [])"
    unfolding parse_clock_def by (simp only: facts expect_Cons bind.bind_lunit option.case prod.case if_False)
qed

lemma parse_clock_iso:
  assumes "0 \<le> t" "t < US_DAY" "clock_end rest"
  shows "parse_clock (iso_clock t @ rest) = Some (t, rest)"
proof -
  define s h m sec us where f: "s = t div 1000000" "h = s div 3600" "m = s div 60 mod 60" "sec = s mod 60" "us = t mod 1000000"
  note c = clock_digits [OF assms(1,2) f]
  have "iso_clock t @ rest = zero_pad 2 h @ CHR '':'' # zero_pad 2 m @ CHR '':'' # zero_pad 2 sec @ iso_fraction us @ rest"
    by (simp add: iso_clock_def Let_def f del: zero_pad.simps)
  then show ?thesis using parse_clock_parts(1) [OF c(1-8) assms(3)] unfolding c(9) by (simp only:)
qed

lemma parse_offset_iso:
  assumes "\<forall>z. off = Some z \<longrightarrow> \<bar>z\<bar> < US_DAY"
  shows "parse_offset (iso_offset off) = Some off"
proof (cases off)
  case (Some z)
  define a where "a = \<bar>z\<bar>"
  have a: "0 \<le> a" "a < US_DAY" "z = (if z < 0 then - a else a)" using assms Some by (auto simp: a_def)
  define s h m sec us where f: "s = a div 1000000" "h = s div 3600" "m = s div 60 mod 60" "sec = s mod 60" "us = a mod 1000000"
  note c = clock_digits [OF a(1,2) f]
  have "parse_clock (zero_pad 2 h @ CHR '':'' # zero_pad 2 m @
      (if sec = 0 \<and> us = 0 then [] else CHR '':'' # zero_pad 2 sec @ iso_fraction us)) = Some (a, [])"
    using c parse_clock_parts(1) [OF c(1-8), of "[]"] parse_clock_parts(2) [OF c(1-8), of "[]"]
    by (auto simp: clock_end_def simp del: zero_pad.simps)
  then show ?thesis using a(3) by (auto simp: Some iso_offset_def parse_offset_def Let_def simp flip: a_def f(1) f(2-5) simp del: zero_pad.simps)
qed (simp add: iso_offset_def parse_offset_def)

text \<open>What \<^verbatim>\<open>isoformat\<close> writes, \<^verbatim>\<open>fromisoformat\<close> reads back.\<close>

lemma fromisoformat_isoformat:
  assumes "datetime_ok t"
  shows "fromisoformat (isoformat t) = Some t"
proof -
  have "clock_end (iso_offset (dt_offset t))"
    by (auto simp: clock_end_def iso_offset_def Let_def split: option.split)
  then show ?thesis using assms
    by (cases t) (simp add: fromisoformat_def isoformat_def iso_date_read parse_clock_iso parse_offset_iso datetime_ok_def)
qed

lemma isoformat_inject: "datetime_ok a \<Longrightarrow> datetime_ok b \<Longrightarrow> isoformat a = isoformat b \<Longrightarrow> a = b"
  by (metis fromisoformat_isoformat option.inject)

text \<open>An ISO text needs no stripping.\<close>

lemma zero_pad_digit: "c \<in> set (zero_pad k n) \<Longrightarrow> is_digit c"
  by (induction k n rule: zero_pad.induct) (auto simp: digit_char_props)

lemma digit_not_space: "is_digit c \<Longrightarrow> \<not> is_space c"
  by (auto simp: is_digit_def is_space_def less_eq_char_def)

lemma zero_pad_ends: "is_digit (last (zero_pad (Suc k) n))" "zero_pad (Suc k) n \<noteq> []" "is_digit (hd (zero_pad (Suc k) n))"
  using zero_pad_digit [OF hd_in_set [of "zero_pad (Suc k) n"]] by (simp_all add: digit_char_props del: zero_pad.simps(1))

lemma is_text_isoformat: "is_text (isoformat t)"
proof -
  obtain y m d where o: "ord2ymd (dt_day t) = (y, m, d)" by (metis prod_cases3)
  have four: "is_digit (hd (zero_pad 4 k))" "zero_pad 4 k \<noteq> []"
    and two: "is_digit (last (zero_pad 2 k))" "zero_pad 2 k \<noteq> []"
    and six: "is_digit (last (zero_pad 6 k))" "zero_pad 6 k \<noteq> []" for k
    using zero_pad_ends [of 3 k] zero_pad_ends [of 1 k] zero_pad_ends [of 5 k]
    by (simp_all add: numeral_eq_Suc del: zero_pad.simps)
  have "is_digit (hd (isoformat t))" "isoformat t \<noteq> []"
    by (simp_all add: isoformat_def iso_date_def o four del: zero_pad.simps)
  moreover have clock: "is_digit (last (iso_clock (dt_micros t)))" "iso_clock (dt_micros t) \<noteq> []"
    by (simp_all add: iso_clock_def iso_fraction_def Let_def two six last_append del: zero_pad.simps)
  have "is_digit (last (isoformat t))"
  proof (cases "dt_offset t")
    case None
    then show ?thesis using clock by (simp add: isoformat_def iso_offset_def last_append)
  next
    case (Some z)
    then show ?thesis
      by (simp add: isoformat_def iso_offset_def iso_fraction_def Let_def two six last_append del: zero_pad.simps)
  qed
  ultimately show ?thesis by (simp add: is_text_def stripped_def digit_not_space)
qed

end
