(* ===== verification/External_Action.thy ===== *)
theory External_Action
  imports Case_Contracts Python_Time
begin

text \<open>
  External actions: their identity and receipts, from \<^verbatim>\<open>core/case_product_hardening_v1.py\<close>, and the
  in-process coordinator of \<^verbatim>\<open>core/external_action_execution_v1.py\<close>, which the code calls the
  reference semantics of the durable one. The coordinator's lock makes an operation one step; the
  mutable records it returns are modelled by their value at that moment. The current time is an
  argument where the code reads the clock.
\<close>

abbreviation raise_cph :: "string \<Rightarrow> 'a result" where
  "raise_cph msg \<equiv> Inl (CaseProductHardeningError msg)"

definition EXTERNAL_ACTION_IDENTITY_SCHEMA_V1 :: string where
  "EXTERNAL_ACTION_IDENTITY_SCHEMA_V1 = ''lukart.external-action-identity.v1''"

definition EXTERNAL_ACTION_RECEIPT_SCHEMA_V1 :: string where
  "EXTERNAL_ACTION_RECEIPT_SCHEMA_V1 = ''lukart.external-action-receipt.v1''"

definition cph_identifier :: "string \<Rightarrow> string \<Rightarrow> string result" where
  "cph_identifier value field_name =
     (if value = [] \<or> value \<noteq> strip value
      then raise_cph (field_name @ '' must be nonblank and already canonical'')
      else if \<exists>c \<in> set value. (of_char c :: nat) < 32 \<or> (of_char c :: nat) = 127
      then raise_cph (field_name @ '' contains control characters'')
      else return value)"

definition cph_aware :: "py_datetime \<Rightarrow> string \<Rightarrow> py_datetime result" where
  "cph_aware value field_name =
     (if is_aware value then return value else raise_cph (field_name @ '' must be timezone-aware''))"

definition opt_iso :: "py_datetime option \<Rightarrow> json" where
  "opt_iso t = (case t of None \<Rightarrow> JNull | Some x \<Rightarrow> JStr (isoformat x))"

lemma strip_iff: "s = strip s \<longleftrightarrow> stripped s"
  by (metis strip_id strip_stripped)

lemma cph_identifier_Inr: "cph_identifier v n = Inr s \<longleftrightarrow> s = v \<and> is_identifier v"
  by (auto simp: cph_identifier_def is_identifier_def is_text_def strip_iff)

section \<open>Identity\<close>

record action_identity =
  ai_case_id :: string
  ai_artifact_id :: string
  ai_artifact_version :: string
  ai_artifact_digest :: content_address
  ai_logical_action_id :: string
  ai_action_type :: string
  ai_channel :: string
  ai_payload_digest :: "content_address option"
  ai_schema :: string

definition action_identity_init :: "action_identity \<Rightarrow> action_identity result" where
  "action_identity_init i =
     (if ai_schema i \<noteq> EXTERNAL_ACTION_IDENTITY_SCHEMA_V1
      then raise_cph ''unsupported external action identity schema''
      else and_then (cph_identifier (ai_artifact_version i) ''artifact_version'') (\<lambda>_.
      and_then (cph_identifier (ai_logical_action_id i) ''logical_action_id'') (\<lambda>_.
      and_then (cph_identifier (ai_action_type i) ''action_type'') (\<lambda>_.
      and_then (cph_identifier (ai_channel i) ''channel'') (\<lambda>_. return i)))))"

definition action_identity_dict :: "action_identity \<Rightarrow> (string \<times> json) list" where
  "action_identity_dict i =
    [(''schema'', JStr (ai_schema i)),
     (''case_id'', JStr (ai_case_id i)),
     (''artifact_id'', JStr (ai_artifact_id i)),
     (''artifact_version'', JStr (ai_artifact_version i)),
     (''artifact_digest'', JObj (address_dict (ai_artifact_digest i))),
     (''logical_action_id'', JStr (ai_logical_action_id i)),
     (''action_type'', JStr (ai_action_type i)),
     (''channel'', JStr (ai_channel i)),
     (''payload_digest'', opt_address (ai_payload_digest i))]"

definition identity_digest :: "action_identity \<Rightarrow> content_address" where
  "identity_digest i = address_for_value (JObj (action_identity_dict i))"

definition idempotency_key :: "action_identity \<Rightarrow> string" where
  "idempotency_key i = ''case-action:'' @ ca_digest (identity_digest i)"

section \<open>Receipts\<close>

datatype receipt_outcome = RO_CONFIRMED_SUCCESS | RO_CONFIRMED_NO_EFFECT | RO_UNKNOWN | RO_AMBIGUOUS

fun outcome_value :: "receipt_outcome \<Rightarrow> string" where
  "outcome_value RO_CONFIRMED_SUCCESS = ''CONFIRMED_SUCCESS''"
| "outcome_value RO_CONFIRMED_NO_EFFECT = ''CONFIRMED_NO_EFFECT''"
| "outcome_value RO_UNKNOWN = ''UNKNOWN''"
| "outcome_value RO_AMBIGUOUS = ''AMBIGUOUS''"

record action_receipt =
  rt_receipt_id :: string
  rt_identity_digest :: content_address
  rt_attempt_id :: string
  rt_outcome :: receipt_outcome
  rt_evidence_ref :: string
  rt_recorded_at :: py_datetime
  rt_receipt_digest :: content_address
  rt_provider_reference :: "string option"
  rt_external_timestamp :: "py_datetime option"
  rt_schema_version :: string
  rt_schema :: string

definition receipt_body :: "action_receipt \<Rightarrow> (string \<times> json) list" where
  "receipt_body r =
    [(''schema'', JStr EXTERNAL_ACTION_RECEIPT_SCHEMA_V1),
     (''schema_version'', JStr (rt_schema_version r)),
     (''receipt_id'', JStr (rt_receipt_id r)),
     (''identity_digest'', JObj (address_dict (rt_identity_digest r))),
     (''attempt_id'', JStr (rt_attempt_id r)),
     (''outcome'', JStr (outcome_value (rt_outcome r))),
     (''evidence_ref'', JStr (rt_evidence_ref r)),
     (''provider_reference'', opt_id (rt_provider_reference r)),
     (''external_timestamp'', opt_iso (rt_external_timestamp r)),
     (''recorded_at'', JStr (isoformat (rt_recorded_at r)))]"

definition receipt_dict :: "action_receipt \<Rightarrow> (string \<times> json) list" where
  "receipt_dict r = receipt_body r @ [(''receipt_digest'', JObj (address_dict (rt_receipt_digest r)))]"

definition receipt_verify :: "action_receipt \<Rightarrow> unit result" where
  "receipt_verify r =
     (if rt_receipt_digest r \<noteq> address_for_value (JObj (receipt_body r))
      then raise_cph ''external receipt content-address mismatch'' else return ())"

definition receipt_init :: "action_receipt \<Rightarrow> action_receipt result" where
  "receipt_init r =
     (if rt_schema r \<noteq> EXTERNAL_ACTION_RECEIPT_SCHEMA_V1
      then raise_cph ''unsupported external action receipt schema''
      else and_then (cph_identifier (rt_receipt_id r) ''receipt_id'') (\<lambda>_.
      and_then (cph_identifier (rt_attempt_id r) ''attempt_id'') (\<lambda>_.
      and_then (cph_identifier (rt_evidence_ref r) ''evidence_ref'') (\<lambda>_.
      and_then (cph_identifier (rt_schema_version r) ''schema_version'') (\<lambda>_.
      and_then (opt_built (\<lambda>p. cph_identifier p ''provider_reference'') (rt_provider_reference r)) (\<lambda>_.
      and_then (cph_aware (rt_recorded_at r) ''receipt recorded_at'') (\<lambda>_.
      and_then (opt_built (\<lambda>t. cph_aware t ''receipt external_timestamp'') (rt_external_timestamp r)) (\<lambda>_.
      and_then (receipt_verify r) (\<lambda>_. return r)))))))))"

definition receipt_build ::
  "string \<Rightarrow> action_identity \<Rightarrow> string \<Rightarrow> receipt_outcome \<Rightarrow> string \<Rightarrow> string option \<Rightarrow> py_datetime option \<Rightarrow>
   py_datetime option \<Rightarrow> py_datetime \<Rightarrow> action_receipt result" where
  "receipt_build receipt_id i attempt_id outcome evidence_ref provider_reference external_timestamp recorded_at now =
     (let r = \<lparr>rt_receipt_id = receipt_id, rt_identity_digest = identity_digest i, rt_attempt_id = attempt_id,
            rt_outcome = outcome, rt_evidence_ref = evidence_ref,
            rt_recorded_at = (case recorded_at of None \<Rightarrow> now | Some t \<Rightarrow> t),
            rt_receipt_digest = \<lparr>ca_algorithm = SHA256, ca_digest = []\<rparr>, rt_provider_reference = provider_reference,
            rt_external_timestamp = external_timestamp, rt_schema_version = ''1'',
            rt_schema = EXTERNAL_ACTION_RECEIPT_SCHEMA_V1\<rparr> in
      receipt_init (r\<lparr>rt_receipt_digest := address_for_value (JObj (receipt_body r))\<rparr>))"

definition verify_receipt_for_transition :: "action_receipt \<Rightarrow> action_identity \<Rightarrow> unit result" where
  "verify_receipt_for_transition r expected =
     and_then (receipt_verify r) (\<lambda>_.
     if rt_identity_digest r \<noteq> identity_digest expected
     then raise_cph ''external receipt does not match expected action identity''
     else if rt_outcome r \<noteq> RO_CONFIRMED_SUCCESS
     then raise_cph ''external receipt does not prove confirmed success''
     else return ())"

text \<open>\<^verbatim>\<open>==\<close> on receipts: field by field, aware datetimes by their instant.\<close>

definition same_moment :: "py_datetime option \<Rightarrow> py_datetime option \<Rightarrow> bool" where
  "same_moment a b = (map_option instant a = map_option instant b)"

definition receipt_eq :: "action_receipt \<Rightarrow> action_receipt \<Rightarrow> bool" where
  "receipt_eq a b = (rt_receipt_id a = rt_receipt_id b \<and> rt_identity_digest a = rt_identity_digest b \<and>
     rt_attempt_id a = rt_attempt_id b \<and> rt_outcome a = rt_outcome b \<and> rt_evidence_ref a = rt_evidence_ref b \<and>
     same_moment (Some (rt_recorded_at a)) (Some (rt_recorded_at b)) \<and> rt_receipt_digest a = rt_receipt_digest b \<and>
     rt_provider_reference a = rt_provider_reference b \<and>
     same_moment (rt_external_timestamp a) (rt_external_timestamp b) \<and>
     rt_schema_version a = rt_schema_version b \<and> rt_schema a = rt_schema b)"

section \<open>The in-process coordinator\<close>

datatype action_state = RESERVED | PRE_EFFECT_FAILED | OUTCOME_UNKNOWN | CONFIRMED_EXTERNAL_SUCCESS
  | CONFIRMED_NO_EFFECT | RECEIPT_RECOVERED

record coordinated_action =
  co_identity :: action_identity
  co_state :: action_state
  co_owner :: string
  co_attempts :: int
  co_receipt :: "action_receipt option"

datatype disposition = INVOKE_ALLOWED | IN_PROGRESS | REPLAY_CONFIRMED | RECONCILE_REQUIRED

fun disposition_value :: "disposition \<Rightarrow> string" where
  "disposition_value INVOKE_ALLOWED = ''INVOKE_ALLOWED''"
| "disposition_value IN_PROGRESS = ''IN_PROGRESS''"
| "disposition_value REPLAY_CONFIRMED = ''REPLAY_CONFIRMED''"
| "disposition_value RECONCILE_REQUIRED = ''RECONCILE_REQUIRED''"

record coordinator =
  mc_records :: "string \<Rightarrow> coordinated_action option"
  mc_logical :: "string \<times> string \<Rightarrow> string option"

definition coordinator_init :: coordinator where
  "coordinator_init = \<lparr>mc_records = (\<lambda>_. None), mc_logical = (\<lambda>_. None)\<rparr>"

definition mem_put :: "action_identity \<Rightarrow> coordinated_action \<Rightarrow> coordinator \<Rightarrow> coordinator" where
  "mem_put i c m = m\<lparr>mc_records := (mc_records m)(idempotency_key i \<mapsto> c)\<rparr>"

definition mem_reserve ::
  "action_identity \<Rightarrow> string \<Rightarrow> coordinator \<Rightarrow> (disposition \<times> coordinated_action) result \<times> coordinator" where
  "mem_reserve i attempt_id m =
     (if attempt_id = [] \<or> attempt_id \<noteq> strip attempt_id
      then (raise_cph ''attempt_id must be nonblank and canonical'', m)
      else let key = idempotency_key i; logical = (ai_case_id i, ai_logical_action_id i) in
      if (case mc_logical m logical of None \<Rightarrow> False | Some prior_key \<Rightarrow> prior_key \<noteq> key)
      then (raise (IdempotencyConflictError ''logical action id cannot be reused for a different immutable intent''), m)
      else case mc_records m key of
        None \<Rightarrow>
          let c = \<lparr>co_identity = i, co_state = RESERVED, co_owner = attempt_id, co_attempts = 1, co_receipt = None\<rparr> in
          (return (INVOKE_ALLOWED, c), (mem_put i c m)\<lparr>mc_logical := (mc_logical m)(logical \<mapsto> key)\<rparr>)
      | Some existing \<Rightarrow>
          (case co_state existing of
             CONFIRMED_EXTERNAL_SUCCESS \<Rightarrow> (return (REPLAY_CONFIRMED, existing), m)
           | RECEIPT_RECOVERED \<Rightarrow> (return (REPLAY_CONFIRMED, existing), m)
           | OUTCOME_UNKNOWN \<Rightarrow> (return (RECONCILE_REQUIRED, existing), m)
           | RESERVED \<Rightarrow> (return (IN_PROGRESS, existing), m)
           | _ \<Rightarrow>
               let c = existing\<lparr>co_state := RESERVED, co_owner := attempt_id, co_attempts := co_attempts existing + 1,
                 co_receipt := None\<rparr> in
               (return (INVOKE_ALLOWED, c), mem_put i c m)))"

definition mem_require :: "action_identity \<Rightarrow> coordinator \<Rightarrow> coordinated_action result" where
  "mem_require i m =
     (case mc_records m (idempotency_key i) of None \<Rightarrow> raise_cph ''external action has no reservation''
      | Some c \<Rightarrow> return c)"

definition mem_owned :: "action_identity \<Rightarrow> string \<Rightarrow> coordinator \<Rightarrow> coordinated_action result" where
  "mem_owned i attempt_id m =
     and_then (mem_require i m) (\<lambda>c.
     if co_state c \<noteq> RESERVED then raise_cph ''external action is not in an invokable reservation''
     else if co_owner c \<noteq> attempt_id then raise_cph ''attempt does not own the active reservation''
     else return c)"

definition mem_begin_dispatch ::
  "action_identity \<Rightarrow> string \<Rightarrow> coordinator \<Rightarrow> coordinated_action result \<times> coordinator" where
  "mem_begin_dispatch i attempt_id m =
     checked (mem_owned i attempt_id m) m (\<lambda>c.
     let c' = c\<lparr>co_state := OUTCOME_UNKNOWN\<rparr> in (return c', mem_put i c' m))"

definition mem_mark_pre_effect_failed ::
  "action_identity \<Rightarrow> string \<Rightarrow> coordinator \<Rightarrow> coordinated_action result \<times> coordinator" where
  "mem_mark_pre_effect_failed i attempt_id m =
     checked (mem_owned i attempt_id m) m (\<lambda>c.
     let c' = c\<lparr>co_state := PRE_EFFECT_FAILED\<rparr> in (return c', mem_put i c' m))"

definition mem_mark_outcome_unknown ::
  "action_identity \<Rightarrow> string \<Rightarrow> coordinator \<Rightarrow> coordinated_action result \<times> coordinator" where
  "mem_mark_outcome_unknown i attempt_id m = mem_begin_dispatch i attempt_id m"

definition mem_reference :: "string \<Rightarrow> unit result" where
  "mem_reference reconciliation_ref =
     (if reconciliation_ref = [] \<or> reconciliation_ref \<noteq> strip reconciliation_ref
      then raise_cph ''reconciliation_ref must be nonblank and canonical'' else return ())"

definition mem_confirm_no_effect ::
  "action_identity \<Rightarrow> string \<Rightarrow> coordinator \<Rightarrow> coordinated_action result \<times> coordinator" where
  "mem_confirm_no_effect i reconciliation_ref m =
     checked (and_then (mem_reference reconciliation_ref) (\<lambda>_. mem_require i m)) m (\<lambda>c.
     if co_state c \<noteq> OUTCOME_UNKNOWN
     then (raise_cph ''confirmed no-effect reconciliation requires OUTCOME_UNKNOWN'', m)
     else let c' = c\<lparr>co_state := CONFIRMED_NO_EFFECT\<rparr> in (return c', mem_put i c' m))"

definition mem_confirm_success ::
  "action_identity \<Rightarrow> string \<Rightarrow> action_receipt \<Rightarrow> coordinator \<Rightarrow> coordinated_action result \<times> coordinator" where
  "mem_confirm_success i attempt_id r m =
     checked (verify_receipt_for_transition r i) m (\<lambda>_.
     if rt_attempt_id r \<noteq> attempt_id then (raise_cph ''receipt attempt does not match active attempt'', m)
     else checked (mem_require i m) m (\<lambda>c.
     if co_state c \<noteq> OUTCOME_UNKNOWN
     then (raise_cph ''confirmed success requires dispatch before provider success'', m)
     else if co_owner c \<noteq> attempt_id then (raise_cph ''attempt does not own active dispatch'', m)
     else let c' = c\<lparr>co_state := CONFIRMED_EXTERNAL_SUCCESS, co_receipt := Some r\<rparr> in (return c', mem_put i c' m)))"

definition mem_recover_receipt ::
  "action_identity \<Rightarrow> action_receipt \<Rightarrow> string \<Rightarrow> coordinator \<Rightarrow> coordinated_action result \<times> coordinator" where
  "mem_recover_receipt i r reconciliation_ref m =
     checked (and_then (verify_receipt_for_transition r i) (\<lambda>_. and_then (mem_reference reconciliation_ref) (\<lambda>_.
         mem_require i m))) m (\<lambda>c.
     if co_state c \<noteq> OUTCOME_UNKNOWN then (raise_cph ''receipt recovery requires OUTCOME_UNKNOWN'', m)
     else if rt_attempt_id r \<noteq> co_owner c then (raise_cph ''recovered receipt attempt mismatch'', m)
     else let c' = c\<lparr>co_state := RECEIPT_RECOVERED, co_receipt := Some r\<rparr> in (return c', mem_put i c' m))"

section \<open>The life of one logical action\<close>

text \<open>
  The abstract machine that both coordinators implement: an attempt reserves the action, crosses the
  dispatch boundary, and from then on the outcome is unknown until a receipt or a confirmed absence of
  effect resolves it.
\<close>

datatype action_event = EReserve string | EDispatch | EPreFail | ENoEffect | ESuccess action_receipt | ERecover action_receipt

inductive action_step :: "coordinated_action option \<Rightarrow> action_event \<Rightarrow> coordinated_action \<Rightarrow> bool" where
  first: "action_step None (EReserve a)
      \<lparr>co_identity = i, co_state = RESERVED, co_owner = a, co_attempts = 1, co_receipt = None\<rparr>"
| again: "co_state c \<in> {PRE_EFFECT_FAILED, CONFIRMED_NO_EFFECT} \<Longrightarrow> action_step (Some c) (EReserve a)
      (c\<lparr>co_state := RESERVED, co_owner := a, co_attempts := co_attempts c + 1, co_receipt := None\<rparr>)"
| dispatch: "co_state c = RESERVED \<Longrightarrow> action_step (Some c) EDispatch (c\<lparr>co_state := OUTCOME_UNKNOWN\<rparr>)"
| pre_fail: "co_state c = RESERVED \<Longrightarrow> action_step (Some c) EPreFail (c\<lparr>co_state := PRE_EFFECT_FAILED\<rparr>)"
| no_effect: "co_state c = OUTCOME_UNKNOWN \<Longrightarrow> action_step (Some c) ENoEffect (c\<lparr>co_state := CONFIRMED_NO_EFFECT\<rparr>)"
| success: "co_state c = OUTCOME_UNKNOWN \<Longrightarrow> rt_attempt_id r = co_owner c \<Longrightarrow>
      verify_receipt_for_transition r (co_identity c) = return () \<Longrightarrow>
      action_step (Some c) (ESuccess r) (c\<lparr>co_state := CONFIRMED_EXTERNAL_SUCCESS, co_receipt := Some r\<rparr>)"
| recover: "co_state c = OUTCOME_UNKNOWN \<Longrightarrow> rt_attempt_id r = co_owner c \<Longrightarrow>
      verify_receipt_for_transition r (co_identity c) = return () \<Longrightarrow>
      action_step (Some c) (ERecover r) (c\<lparr>co_state := RECEIPT_RECOVERED, co_receipt := Some r\<rparr>)"

inductive action_history :: "action_event list \<Rightarrow> coordinated_action option \<Rightarrow> bool" where
  start: "action_history [] None"
| move: "action_history es c \<Longrightarrow> action_step c e c' \<Longrightarrow> action_history (es @ [e]) (Some c')"

inductive_cases history_NoneE: "action_history es None"
inductive_cases history_SomeE: "action_history es (Some c)"

text \<open>Effects that may have happened, less those confirmed not to have.\<close>

definition open_effects :: "action_event list \<Rightarrow> int" where
  "open_effects es = int (count_list es EDispatch) - int (count_list es ENoEffect)"

definition effect_open :: "action_state \<Rightarrow> bool" where
  "effect_open s = (s \<in> {OUTCOME_UNKNOWN, CONFIRMED_EXTERNAL_SUCCESS, RECEIPT_RECOVERED})"

lemma open_effects_snoc:
  "open_effects (es @ [e]) = open_effects es + (if e = EDispatch then 1 else if e = ENoEffect then - 1 else 0)"
  by (simp add: open_effects_def)

lemma action_history_effects:
  "action_history es c \<Longrightarrow> open_effects es = (case c of None \<Rightarrow> 0 | Some a \<Rightarrow> if effect_open (co_state a) then 1 else 0)"
proof (induction rule: action_history.induct)
  case (move es c e c')
  from move(2,3) show ?case by cases (auto simp: open_effects_snoc effect_open_def)
qed (simp add: open_effects_def)

text \<open>Attempts, and the receipt that closes an action.\<close>

lemma action_history_receipt:
  "action_history es c \<Longrightarrow> \<forall>a. c = Some a \<longrightarrow> co_attempts a = int (length (filter (\<lambda>e. \<exists>x. e = EReserve x) es)) \<and>
     (co_state a \<in> {CONFIRMED_EXTERNAL_SUCCESS, RECEIPT_RECOVERED} \<longrightarrow>
        (\<exists>r. co_receipt a = Some r \<and> rt_attempt_id r = co_owner a \<and>
           verify_receipt_for_transition r (co_identity a) = return ()))"
proof (induction rule: action_history.induct)
  case (move es c e c')
  have "es = []" if "c = None" using move(1) that by (auto elim: action_history.cases)
  with move(2,3) show ?case by cases auto
qed simp

section \<open>The in-process coordinator implements it\<close>

datatype action_op = OpReserve string | OpDispatch string | OpPreFail string | OpUnknown string | OpNoEffect string
  | OpSuccess string action_receipt | OpRecover action_receipt string

fun op_event :: "action_op \<Rightarrow> action_event" where
  "op_event (OpReserve a) = EReserve a"
| "op_event (OpDispatch a) = EDispatch"
| "op_event (OpPreFail a) = EPreFail"
| "op_event (OpUnknown a) = EDispatch"
| "op_event (OpNoEffect ref) = ENoEffect"
| "op_event (OpSuccess a r) = ESuccess r"
| "op_event (OpRecover r ref) = ERecover r"

text \<open>
  The result of any operation: \<^verbatim>\<open>reserve\<close> returns a disposition with the record, the others the record only.
  A reservation moves the action when it allows the invocation, and only reports on it otherwise.
\<close>

type_synonym op_result = "(disposition option \<times> coordinated_action) result"

definition disposed :: "(disposition \<times> coordinated_action) result \<times> 'st \<Rightarrow> op_result \<times> 'st" where
  "disposed p = (and_then (fst p) (\<lambda>(d, c). return (Some d, c)), snd p)"

definition plain :: "coordinated_action result \<times> 'st \<Rightarrow> op_result \<times> 'st" where
  "plain p = (and_then (fst p) (\<lambda>c. return (None, c)), snd p)"

definition op_moved :: "op_result \<Rightarrow> bool" where
  "op_moved r = (case r of Inl _ \<Rightarrow> False | Inr (d, _) \<Rightarrow> d \<in> {None, Some INVOKE_ALLOWED})"

fun mem_exec :: "action_identity \<Rightarrow> action_op \<Rightarrow> coordinator \<Rightarrow> op_result \<times> coordinator" where
  "mem_exec i (OpReserve a) m = disposed (mem_reserve i a m)"
| "mem_exec i (OpDispatch a) m = plain (mem_begin_dispatch i a m)"
| "mem_exec i (OpPreFail a) m = plain (mem_mark_pre_effect_failed i a m)"
| "mem_exec i (OpUnknown a) m = plain (mem_mark_outcome_unknown i a m)"
| "mem_exec i (OpNoEffect ref) m = plain (mem_confirm_no_effect i ref m)"
| "mem_exec i (OpSuccess a r) m = plain (mem_confirm_success i a r m)"
| "mem_exec i (OpRecover r ref) m = plain (mem_recover_receipt i r ref m)"

lemma plain_Inr [simp]: "plain p = (Inr q, s) \<longleftrightarrow> fst q = None \<and> p = (Inr (snd q), s)"
  by (cases p; cases "fst p"; cases q) (auto simp: plain_def)

lemma plain_Inl [simp]: "plain p = (Inl e, s) \<longleftrightarrow> p = (Inl e, s)"
  by (cases p; cases "fst p") (auto simp: plain_def)

lemma disposed_Inr [simp]: "disposed p = (Inr q, s) \<longleftrightarrow> (\<exists>d. fst q = Some d \<and> p = (Inr (d, snd q), s))"
  by (cases p; cases "fst p"; cases q) (auto simp: disposed_def)

lemma disposed_Inl [simp]: "disposed p = (Inl e, s) \<longleftrightarrow> p = (Inl e, s)"
  by (cases p; cases "fst p") (auto simp: disposed_def)

text \<open>The history of the key \<open>k\<close> along operations of any clients: the events of those that moved the action.\<close>

fun mem_trace :: "string \<Rightarrow> (action_identity \<times> action_op) list \<Rightarrow> coordinator \<Rightarrow> action_event list \<times> coordinator" where
  "mem_trace k [] m = ([], m)"
| "mem_trace k ((i, op) # ops) m =
     (case mem_exec i op m of (r, m') \<Rightarrow>
      case mem_trace k ops m' of (es, m'') \<Rightarrow>
        (if op_moved r \<and> idempotency_key i = k then op_event op # es else es, m''))"

definition coordinator_inv :: "coordinator \<Rightarrow> bool" where
  "coordinator_inv m = (\<forall>k c. mc_records m k = Some c \<longrightarrow> idempotency_key (co_identity c) = k \<and>
     mc_logical m (ai_case_id (co_identity c), ai_logical_action_id (co_identity c)) = Some k)"

text \<open>Receipts are tied to the identity by its digest, so to the key.\<close>

lemma same_key_digest: "idempotency_key i = idempotency_key j \<Longrightarrow> identity_digest i = identity_digest j"
  by (simp add: idempotency_key_def identity_digest_def address_for_value_def)

lemma verify_receipt_key:
  "idempotency_key i = idempotency_key j \<Longrightarrow> verify_receipt_for_transition r i = verify_receipt_for_transition r j"
  by (drule same_key_digest) (simp add: verify_receipt_for_transition_def)

lemma mem_require_Inr: "mem_require i m = Inr c \<longleftrightarrow> mc_records m (idempotency_key i) = Some c"
  by (auto simp: mem_require_def split: option.splits)

lemma mem_put_get: "mc_records (mem_put i c m) k = (if k = idempotency_key i then Some c else mc_records m k)"
    "mc_logical (mem_put i c m) = mc_logical m"
  by (simp_all add: mem_put_def)

text \<open>One operation: a step of the machine on the key of its identity, or nothing.\<close>

lemma mem_reserve_cases:
  assumes "mem_reserve i a m = (r, m')"
  obtains e where "r = Inl e" "m' = m"
  | d c where "r = Inr (d, c)" "d \<noteq> INVOKE_ALLOWED" "m' = m" "mc_records m (idempotency_key i) = Some c"
  | c where "r = Inr (INVOKE_ALLOWED, c)" "mc_records m' = (mc_records m)(idempotency_key i \<mapsto> c)"
      "action_step (mc_records m (idempotency_key i)) (EReserve a) c"
      "mc_records m (idempotency_key i) = None \<Longrightarrow> co_identity c = i \<and>
         mc_logical m' = (mc_logical m)((ai_case_id i, ai_logical_action_id i) \<mapsto> idempotency_key i) \<and>
         mc_logical m (ai_case_id i, ai_logical_action_id i) \<in> {None, Some (idempotency_key i)}"
      "\<And>c0. mc_records m (idempotency_key i) = Some c0 \<Longrightarrow> co_identity c = co_identity c0 \<and> mc_logical m' = mc_logical m"
proof (cases "mc_records m (idempotency_key i)")
  case None
  then show ?thesis using assms that action_step.first [of a i]
    by (auto simp: mem_reserve_def Let_def mem_put_def split: if_splits option.splits)
next
  case (Some c0)
  show ?thesis
  proof (cases "co_state c0 \<in> {PRE_EFFECT_FAILED, CONFIRMED_NO_EFFECT}")
    case True
    then show ?thesis using assms that Some action_step.again [OF True, of a]
      by (auto simp: mem_reserve_def Let_def mem_put_def split: if_splits option.splits)
  next
    case False
    then show ?thesis using assms that Some
      by (cases "co_state c0") (auto simp: mem_reserve_def Let_def split: if_splits option.splits)
  qed
qed

lemma coordinator_inv_put:
  assumes "coordinator_inv m" "mc_records m (idempotency_key i) = Some c0" "co_identity c = co_identity c0"
    and "mc_records m' = (mc_records m)(idempotency_key i \<mapsto> c)" "mc_logical m' = mc_logical m"
  shows "coordinator_inv m'"
  using assms by (auto simp: coordinator_inv_def)

lemma coordinator_inv_new:
  assumes inv: "coordinator_inv m" and c: "co_identity c = i"
    and free: "mc_logical m (ai_case_id i, ai_logical_action_id i) \<in> {None, Some (idempotency_key i)}"
    and m': "mc_records m' = (mc_records m)(idempotency_key i \<mapsto> c)"
      "mc_logical m' = (mc_logical m)((ai_case_id i, ai_logical_action_id i) \<mapsto> idempotency_key i)"
  shows "coordinator_inv m'"
  unfolding coordinator_inv_def
proof (intro allI impI)
  fix k d
  assume d: "mc_records m' k = Some d"
  show "idempotency_key (co_identity d) = k \<and> mc_logical m' (ai_case_id (co_identity d), ai_logical_action_id (co_identity d)) = Some k"
  proof (cases "k = idempotency_key i")
    case False
    then have "idempotency_key (co_identity d) = k" "mc_logical m (ai_case_id (co_identity d), ai_logical_action_id (co_identity d)) = Some k"
      using d inv m'(1) by (auto simp: coordinator_inv_def)
    then show ?thesis using free False m'(2) by auto
  qed (use d c m' in auto)
qed

lemma mem_owned_Inr:
  "mem_owned i a m = Inr c \<longleftrightarrow> mc_records m (idempotency_key i) = Some c \<and> co_state c = RESERVED \<and> co_owner c = a"
  by (auto simp: mem_owned_def mem_require_Inr split: if_splits)

lemma mem_exec_step:
  assumes "mem_exec i op m = (r, m')" "coordinator_inv m"
  shows "coordinator_inv m' \<and> (\<not> op_moved r \<and> mc_records m' = mc_records m \<or>
    (\<exists>d c. r = Inr (d, c) \<and> op_moved r \<and> mc_records m' = (mc_records m)(idempotency_key i \<mapsto> c) \<and>
       action_step (mc_records m (idempotency_key i)) (op_event op) c))"
proof -
  have same: "verify_receipt_for_transition q (co_identity c) = verify_receipt_for_transition q i"
    if "mc_records m (idempotency_key i) = Some c" for q c
    using assms(2) that by (intro verify_receipt_key) (simp add: coordinator_inv_def)
  have moved: ?thesis
    if "r = Inr (None, c)" "m' = mem_put i c m" "mc_records m (idempotency_key i) = Some c0" "co_identity c = co_identity c0"
      "action_step (Some c0) (op_event op) c" for c c0
    using that coordinator_inv_put [OF assms(2) that(3,4), of m'] by (simp add: mem_put_def op_moved_def)
  have raised: ?thesis if "r = Inl e" "m' = m" for e using that assms(2) by (auto simp: op_moved_def)
  have dispatch: ?thesis
    if d: "plain (mem_begin_dispatch i a m) = (r, m')" and e: "op_event op = EDispatch" for a
  proof (cases "mem_owned i a m")
    case (Inl x)
    with d show ?thesis by (intro raised [of x]) (auto simp: mem_begin_dispatch_def plain_def)
  next
    case (Inr c)
    with d e show ?thesis
      by (intro moved [of "c\<lparr>co_state := OUTCOME_UNKNOWN\<rparr>" c])
        (auto simp: mem_begin_dispatch_def plain_def mem_owned_Inr Let_def intro: action_step.dispatch)
  qed
  show ?thesis
  proof (cases op)
    case (OpReserve a)
    obtain q where q: "mem_reserve i a m = (q, m')" using assms(1) OpReserve by (cases "mem_reserve i a m") (auto simp: disposed_def)
    then have r: "r = and_then q (\<lambda>(d, c). return (Some d, c))" using assms(1) OpReserve by (auto simp: disposed_def)
    from q show ?thesis
    proof (cases rule: mem_reserve_cases)
      case (3 c)
      have "coordinator_inv m'"
      proof (cases "mc_records m (idempotency_key i)")
        case None
        then show ?thesis using 3(2) 3(4) [OF None] by (intro coordinator_inv_new [OF assms(2), of c i]) auto
      next
        case (Some c0)
        then show ?thesis using 3(2) 3(5) [OF Some] by (intro coordinator_inv_put [OF assms(2) Some, of c]) auto
      qed
      then show ?thesis using 3(1-3) r OpReserve by (auto simp: op_moved_def)
    qed (use r assms(2) in \<open>auto simp: op_moved_def\<close>)
  next
    case (OpDispatch a)
    then show ?thesis using assms(1) dispatch [of a] by simp
  next
    case (OpUnknown a)
    then show ?thesis using assms(1) dispatch [of a] by (simp add: mem_mark_outcome_unknown_def)
  next
    case (OpPreFail a)
    show ?thesis
    proof (cases "mem_owned i a m")
      case (Inl e)
      with assms(1) OpPreFail show ?thesis by (intro raised [of e]) (auto simp: mem_mark_pre_effect_failed_def plain_def)
    next
      case (Inr c)
      with assms(1) OpPreFail show ?thesis
        by (intro moved [of "c\<lparr>co_state := PRE_EFFECT_FAILED\<rparr>" c])
          (auto simp: mem_mark_pre_effect_failed_def plain_def mem_owned_Inr Let_def intro: action_step.pre_fail)
    qed
  next
    case (OpNoEffect ref)
    show ?thesis
    proof (cases "r")
      case (Inl e)
      with assms(1) OpNoEffect show ?thesis
        by (intro raised [of e]) (auto simp: mem_confirm_no_effect_def checked_def Let_def split: sum.splits if_splits)
    next
      case (Inr c')
      with assms(1) OpNoEffect obtain c where "mc_records m (idempotency_key i) = Some c" "co_state c = OUTCOME_UNKNOWN"
          "c' = (None, c\<lparr>co_state := CONFIRMED_NO_EFFECT\<rparr>)" "m' = mem_put i (snd c') m"
        by (cases c') (auto simp: mem_confirm_no_effect_def checked_result mem_require_Inr Let_def split: if_splits)
      with Inr OpNoEffect show ?thesis by (intro moved [of "snd c'" c]) (auto intro: action_step.no_effect)
    qed
  next
    case (OpSuccess a q)
    show ?thesis
    proof (cases "r")
      case (Inl e)
      with assms(1) OpSuccess show ?thesis
        by (intro raised [of e]) (auto simp: mem_confirm_success_def checked_def Let_def split: sum.splits if_splits)
    next
      case (Inr c')
      with assms(1) OpSuccess obtain c where c: "mc_records m (idempotency_key i) = Some c" "co_state c = OUTCOME_UNKNOWN"
          "rt_attempt_id q = co_owner c" "verify_receipt_for_transition q i = Inr ()"
          "c' = (None, c\<lparr>co_state := CONFIRMED_EXTERNAL_SUCCESS, co_receipt := Some q\<rparr>)" "m' = mem_put i (snd c') m"
        by (cases c') (auto simp: mem_confirm_success_def checked_result mem_require_Inr Let_def split: if_splits)
      with Inr OpSuccess same [OF c(1)] show ?thesis by (intro moved [of "snd c'" c]) (auto intro: action_step.success)
    qed
  next
    case (OpRecover q ref)
    show ?thesis
    proof (cases "r")
      case (Inl e)
      with assms(1) OpRecover show ?thesis
        by (intro raised [of e]) (auto simp: mem_recover_receipt_def checked_def Let_def split: sum.splits if_splits)
    next
      case (Inr c')
      with assms(1) OpRecover obtain c where c: "mc_records m (idempotency_key i) = Some c" "co_state c = OUTCOME_UNKNOWN"
          "rt_attempt_id q = co_owner c" "verify_receipt_for_transition q i = Inr ()"
          "c' = (None, c\<lparr>co_state := RECEIPT_RECOVERED, co_receipt := Some q\<rparr>)" "m' = mem_put i (snd c') m"
        by (cases c') (auto simp: mem_recover_receipt_def checked_result mem_require_Inr Let_def split: if_splits)
      with Inr OpRecover same [OF c(1)] show ?thesis by (intro moved [of "snd c'" c]) (auto intro: action_step.recover)
    qed
  qed
qed

lemma mem_trace_history:
  "coordinator_inv m \<Longrightarrow> action_history es0 (mc_records m k) \<Longrightarrow> mem_trace k ops m = (es, m') \<Longrightarrow>
     coordinator_inv m' \<and> action_history (es0 @ es) (mc_records m' k)"
proof (induction ops arbitrary: m m' es0 es)
  case (Cons x ops)
  obtain i op where x: "x = (i, op)" by (cases x)
  obtain r m1 where r: "mem_exec i op m = (r, m1)" by fastforce
  obtain es1 m2 where t: "mem_trace k ops m1 = (es1, m2)" by fastforce
  note step = mem_exec_step [OF r Cons.prems(1)]
  show ?case
  proof (cases "op_moved r \<and> idempotency_key i = k")
    case True
    then have "action_history (es0 @ [op_event op]) (mc_records m1 k)"
      using step Cons.prems(2) by (auto intro: action_history.move)
    from Cons.IH [OF _ this t] show ?thesis using step True r t Cons.prems(3) x by auto
  next
    case False
    then have "mc_records m1 k = mc_records m k" using step by auto
    then have "action_history es0 (mc_records m1 k)" using Cons.prems(2) by simp
    from Cons.IH [OF _ this t] show ?thesis using step False r t Cons.prems(3) x by auto
  qed
qed simp

lemma coordinator_init_inv: "coordinator_inv coordinator_init"
  by (simp add: coordinator_inv_def coordinator_init_def)

lemma mem_trace_init:
  "action_history (fst (mem_trace k ops coordinator_init)) (mc_records (snd (mem_trace k ops coordinator_init)) k)"
proof -
  have "action_history [] (mc_records coordinator_init k)" by (simp add: coordinator_init_def action_history.start)
  from mem_trace_history [OF coordinator_init_inv this prod.collapse [symmetric]] show ?thesis by simp
qed

section \<open>Properties\<close>

text \<open>C31: The in-process coordinator lets an effect happen at most once. Whatever operations any clients
  run, in any order and for any identities, the dispatches it allowed for a key exceed the confirmed
  absences of effect by one exactly when the action is in doubt or confirmed, and are otherwise equal to
  them: before a second dispatch, the first one was confirmed to have had no effect.\<close>

theorem memory_effect_at_most_once:
  "open_effects (fst (mem_trace k ops coordinator_init)) =
    (case mc_records (snd (mem_trace k ops coordinator_init)) k of None \<Rightarrow> 0
     | Some c \<Rightarrow> if effect_open (co_state c) then 1 else 0)"
  by (rule action_history_effects [OF mem_trace_init])

text \<open>One logical action, one intent: in any state the in-process coordinator can reach, two recorded
  actions with the same case and the same logical action id are recorded under the same key, and so have
  the same identity or exhibit a SHA-256 collision of two identities.\<close>

theorem memory_one_intent:
  assumes "m = snd (mem_trace k0 ops coordinator_init)"
    and "mc_records m k = Some c" and "mc_records m k' = Some c'"
    and "ai_case_id (co_identity c) = ai_case_id (co_identity c')"
    and "ai_logical_action_id (co_identity c) = ai_logical_action_id (co_identity c')"
  shows "k = k' \<and> identity_digest (co_identity c) = identity_digest (co_identity c')"
proof -
  have "action_history [] (mc_records coordinator_init k0)" by (simp add: coordinator_init_def action_history.start)
  from mem_trace_history [OF coordinator_init_inv this prod.collapse [symmetric]]
  have "coordinator_inv m" using assms(1) by simp
  then have "idempotency_key (co_identity c) = k" "idempotency_key (co_identity c') = k'"
    and logical: "mc_logical m (ai_case_id (co_identity c), ai_logical_action_id (co_identity c)) = Some k"
      "mc_logical m (ai_case_id (co_identity c'), ai_logical_action_id (co_identity c')) = Some k'"
    using assms(2,3) by (simp_all add: coordinator_inv_def)
  moreover have "k = k'" using logical unfolding assms(4,5) by simp
  ultimately show ?thesis using same_key_digest by simp
qed

section \<open>Sample inputs and witnesses\<close>

definition sample_action :: action_identity where
  "sample_action = \<lparr>ai_case_id = ''c'', ai_artifact_id = ''o'', ai_artifact_version = ''1'',
     ai_artifact_digest = address_for_value JNull, ai_logical_action_id = ''l'', ai_action_type = ''send'',
     ai_channel = ''post'', ai_payload_digest = None, ai_schema = EXTERNAL_ACTION_IDENTITY_SCHEMA_V1\<rparr>"

definition sample_reserved :: coordinated_action where
  "sample_reserved = \<lparr>co_identity = sample_action, co_state = RESERVED, co_owner = ''a'', co_attempts = 1, co_receipt = None\<rparr>"

lemma sample_action_reserved:
  "mem_exec sample_action (OpReserve ''a'') coordinator_init = (Inr (Some INVOKE_ALLOWED, sample_reserved),
     (mem_put sample_action sample_reserved coordinator_init)\<lparr>mc_logical := [(''c'', ''l'') \<mapsto> idempotency_key sample_action]\<rparr>)"
  by (simp add: mem_reserve_def coordinator_init_def Let_def sample_reserved_def sample_action_def strip_def is_space_def mem_put_def disposed_def)

lemma memory_one_intent_witness:
  "\<exists>m. m = snd (mem_trace [] [(sample_action, OpReserve ''a'')] coordinator_init) \<and>
     mc_records m (idempotency_key sample_action) = Some sample_reserved"
proof (intro exI conjI)
  let ?m = "snd (mem_trace [] [(sample_action, OpReserve ''a'')] coordinator_init)"
  show r: "mc_records ?m (idempotency_key sample_action) = Some sample_reserved"
    unfolding mem_trace.simps sample_action_reserved by (simp add: mem_put_def split: if_splits)
  have "idempotency_key sample_action = idempotency_key sample_action \<and>
      identity_digest (co_identity sample_reserved) = identity_digest (co_identity sample_reserved)"
    by (rule memory_one_intent [OF refl r r refl refl])
qed simp

end
