(* ===== verification/Durable_Store.thy ===== *)
theory Durable_Store
  imports Enterprise_Contracts Hash_Chain
begin

text \<open>
  The transactional provenance store, \<^verbatim>\<open>core/enterprise/durability.py\<close>. The state is the table
  \<^verbatim>\<open>provenance\<close>, a list of rows in insertion order; a statement that fails inside
  \<^verbatim>\<open>BEGIN IMMEDIATE\<close> leaves the table as it was. Backup and restore take the copy that the database
  engine and the file system make as functions \<open>copy\<close> and \<open>move\<close> on tables, about which nothing is
  assumed: the code verifies the result. Removal of side files is not modelled.
\<close>

section \<open>Rows and records\<close>

definition DURABLE_GENESIS :: string where
  "DURABLE_GENESIS = replicate 64 (CHR ''0'')"

record durable_row =
  dw_sequence :: int
  dw_stream_id :: string
  dw_event_type :: string
  dw_payload_json :: string
  dw_payload_digest :: string
  dw_previous_digest :: string
  dw_record_digest :: string

type_synonym durable_table = "durable_row list"

record durable_record =
  dr_sequence :: int
  dr_stream_id :: string
  dr_event_type :: string
  dr_payload :: "(string \<times> json) list"
  dr_payload_digest :: string
  dr_previous_digest :: string
  dr_record_digest :: string

definition durable_body :: "durable_record \<Rightarrow> (string \<times> json) list" where
  "durable_body r =
    [(''sequence'', JInt (dr_sequence r)),
     (''stream_id'', JStr (dr_stream_id r)),
     (''event_type'', JStr (dr_event_type r)),
     (''payload'', JObj (dr_payload r)),
     (''payload_digest'', JStr (dr_payload_digest r)),
     (''previous_digest'', JStr (dr_previous_digest r))]"

record recovery_identity =
  rc_record_count :: int
  rc_head_digest :: string
  rc_semantic_digest :: string
  rc_schema :: string

definition RECOVERY_IDENTITY_SCHEMA :: string where
  "RECOVERY_IDENTITY_SCHEMA = ''lukart.recovery-identity.v1''"

text \<open>The digests are checked, and kept as given.\<close>

definition recovery_identity_init :: "recovery_identity \<Rightarrow> recovery_identity result" where
  "recovery_identity_init i =
     (if rc_record_count i < 0 then raise_ent ''recovery identity record_count cannot be negative''
      else if rc_schema i \<noteq> RECOVERY_IDENTITY_SCHEMA
      then raise_ent (''unsupported recovery identity schema: '' @ rc_schema i)
      else and_then (require_sha256 (rc_head_digest i) ''recovery_head_digest'') (\<lambda>_.
      and_then (require_sha256 (rc_semantic_digest i) ''recovery_semantic_digest'') (\<lambda>_. return i)))"

definition recovery_identity_dict :: "recovery_identity \<Rightarrow> (string \<times> json) list" where
  "recovery_identity_dict i =
    [(''schema'', JStr (rc_schema i)),
     (''record_count'', JInt (rc_record_count i)),
     (''head_digest'', JStr (rc_head_digest i)),
     (''semantic_digest'', JStr (rc_semantic_digest i))]"

definition recovery_identity_digest :: "recovery_identity \<Rightarrow> string" where
  "recovery_identity_digest i = content_digest (JObj (recovery_identity_dict i))"

section \<open>Reading and verifying\<close>

definition durable_decode_row :: "durable_row \<Rightarrow> durable_record result" where
  "durable_decode_row row =
     (case loads (dw_payload_json row) of
        None \<Rightarrow> raise_ent ''corrupt durable provenance payload JSON''
      | Some (JObj payload) \<Rightarrow> return \<lparr>dr_sequence = dw_sequence row, dr_stream_id = dw_stream_id row,
          dr_event_type = dw_event_type row, dr_payload = payload, dr_payload_digest = dw_payload_digest row,
          dr_previous_digest = dw_previous_digest row, dr_record_digest = dw_record_digest row\<rparr>
      | Some _ \<Rightarrow> raise_ent ''durable provenance payload must be an object'')"

definition durable_records :: "durable_table \<Rightarrow> durable_record list result" where
  "durable_records table = map_result durable_decode_row (sort_key dw_sequence table)"

fun durable_verify_from :: "int \<Rightarrow> string \<Rightarrow> durable_record list \<Rightarrow> unit result" where
  "durable_verify_from expected_sequence previous [] = return ()"
| "durable_verify_from expected_sequence previous (r # rs) =
     (if dr_sequence r \<noteq> expected_sequence then raise_ent ''durable provenance sequence discontinuity''
      else if dr_previous_digest r \<noteq> previous then raise_ent ''durable provenance hash-chain mismatch''
      else if dr_payload_digest r \<noteq> content_digest (JObj (dr_payload r))
      then raise_ent ''durable provenance payload digest mismatch''
      else if dr_record_digest r \<noteq> content_digest (JObj (durable_body r))
      then raise_ent ''durable provenance record digest mismatch''
      else durable_verify_from (expected_sequence + 1) (dr_record_digest r) rs)"

definition durable_verify :: "durable_table \<Rightarrow> durable_record list result" where
  "durable_verify table =
     and_then (durable_records table) (\<lambda>records.
     and_then (durable_verify_from 0 DURABLE_GENESIS records) (\<lambda>_. return records))"

definition durable_head :: "durable_record list \<Rightarrow> string" where
  "durable_head records = (if records = [] then DURABLE_GENESIS else dr_record_digest (last records))"

definition durable_head_digest :: "durable_table \<Rightarrow> string result" where
  "durable_head_digest table = and_then (durable_verify table) (\<lambda>records. return (durable_head records))"

text \<open>\<^verbatim>\<open>SELECT record_digest ... WHERE stream_id = ? ORDER BY sequence DESC LIMIT 1\<close>.\<close>

definition select_stream_head :: "durable_table \<Rightarrow> string \<Rightarrow> string option" where
  "select_stream_head table stream =
     map_option dw_record_digest (find (\<lambda>row. dw_stream_id row = stream) (rev (sort_key dw_sequence table)))"

definition stream_head_digest :: "durable_table \<Rightarrow> string \<Rightarrow> string result" where
  "stream_head_digest table stream_id =
     (let normalized = strip stream_id in
      if normalized = [] then raise_ent ''stream_id is required''
      else case select_stream_head table normalized of
        None \<Rightarrow> return DURABLE_GENESIS
      | Some d \<Rightarrow> require_sha256 d ''durable_stream_head_digest'')"

definition semantic_entry :: "durable_record \<Rightarrow> (string \<times> json) list" where
  "semantic_entry r =
    [(''sequence'', JInt (dr_sequence r)),
     (''stream_id'', JStr (dr_stream_id r)),
     (''event_type'', JStr (dr_event_type r)),
     (''payload'', JObj (dr_payload r))]"

definition state_identity :: "durable_table \<Rightarrow> recovery_identity result" where
  "state_identity table =
     and_then (durable_verify table) (\<lambda>records.
     recovery_identity_init \<lparr>rc_record_count = int (length records), rc_head_digest = durable_head records,
       rc_semantic_digest = content_digest (JList (map (\<lambda>r. JObj (semantic_entry r)) records)),
       rc_schema = RECOVERY_IDENTITY_SCHEMA\<rparr>)"

section \<open>Appending\<close>

type_synonym durable_event = "string \<times> string \<times> (pykey \<times> pyval) list"

text \<open>The loop that fills \<^verbatim>\<open>prepared\<close>: stream, event type, copied payload and its digest.\<close>

definition prepare_event :: "durable_event \<Rightarrow> (string \<times> string \<times> (string \<times> json) list \<times> string) result" where
  "prepare_event ev =
     (case ev of (raw_stream_id, raw_event_type, raw_payload) \<Rightarrow>
      let stream_id = strip raw_stream_id; event_type = strip raw_event_type in
      if stream_id = [] \<or> event_type = [] then raise_ent ''stream_id and event_type are required''
      else and_then (normalize_value (PyDict raw_payload)) (\<lambda>copied.
      case copied of
        JObj payload \<Rightarrow> return (stream_id, event_type, payload, content_digest copied)
      | _ \<Rightarrow> raise_ent ''durable provenance payload must be an object''))"

text \<open>The dictionary \<^verbatim>\<open>expected\<close>, and the check that it covers the streams of the batch.\<close>

definition prepare_expected ::
  "(string \<times> string) list option \<Rightarrow> string list \<Rightarrow> (string \<times> string) list option result" where
  "prepare_expected heads event_streams =
     (case heads of
        None \<Rightarrow> return None
      | Some items \<Rightarrow>
          and_then (map_result (\<lambda>(raw_stream_id, raw_digest).
            let stream_id = strip raw_stream_id in
            if stream_id = [] then raise_ent ''expected stream_id cannot be blank''
            else and_then (require_sha256 raw_digest ''expected_stream_head_digest'') (\<lambda>d. return (stream_id, d)))
            items) (\<lambda>pairs.
          let expected = dict_of pairs in
          if set (map fst expected) \<noteq> set event_streams
          then raise_ent ''expected_stream_heads must exactly cover append batch streams''
          else return (Some expected)))"

definition check_heads :: "durable_table \<Rightarrow> (string \<times> string) list option \<Rightarrow> unit result" where
  "check_heads table expected =
     (case expected of
        None \<Rightarrow> return ()
      | Some items \<Rightarrow>
          (if \<exists>(stream_id, digest) \<in> set items.
                (case select_stream_head table stream_id of None \<Rightarrow> DURABLE_GENESIS | Some d \<Rightarrow> d) \<noteq> digest
           then raise_ent ''durable stream head mismatch'' else return ()))"

definition durable_row_of :: "durable_record \<Rightarrow> durable_row" where
  "durable_row_of r = \<lparr>dw_sequence = dr_sequence r, dw_stream_id = dr_stream_id r, dw_event_type = dr_event_type r,
     dw_payload_json = canonical_json (JObj (dr_payload r)), dw_payload_digest = dr_payload_digest r,
     dw_previous_digest = dr_previous_digest r, dw_record_digest = dr_record_digest r\<rparr>"

text \<open>\<^verbatim>\<open>INSERT\<close> under the primary key and the unique digest.\<close>

definition insert_durable :: "durable_table \<Rightarrow> durable_row \<Rightarrow> durable_table result" where
  "insert_durable table row =
     (if \<exists>w \<in> set table. dw_sequence w = dw_sequence row \<or> dw_record_digest w = dw_record_digest row
      then raise SqliteIntegrityError else return (table @ [row]))"

fun insert_prepared ::
  "durable_table \<Rightarrow> int \<Rightarrow> string \<Rightarrow> (string \<times> string \<times> (string \<times> json) list \<times> string) list \<Rightarrow>
   (durable_record list \<times> durable_table) result" where
  "insert_prepared table sequence previous [] = return ([], table)"
| "insert_prepared table sequence previous ((stream_id, event_type, copied, payload_digest) # rest) =
     (let unsigned = \<lparr>dr_sequence = sequence, dr_stream_id = stream_id, dr_event_type = event_type,
            dr_payload = copied, dr_payload_digest = payload_digest, dr_previous_digest = previous,
            dr_record_digest = []\<rparr>;
          r = unsigned\<lparr>dr_record_digest := content_digest (JObj (durable_body unsigned))\<rparr> in
      and_then (insert_durable table (durable_row_of r)) (\<lambda>table'.
      and_then (insert_prepared table' (sequence + 1) (dr_record_digest r) rest) (\<lambda>(inserted, table'').
      return (r # inserted, table''))))"

definition append_batch ::
  "durable_table \<Rightarrow> durable_event list \<Rightarrow> (string \<times> string) list option \<Rightarrow>
   durable_record list result \<times> durable_table" where
  "append_batch table events heads =
     (if events = [] then (raise_ent ''durable append batch cannot be empty'', table)
      else checked (map_result prepare_event events) table (\<lambda>prepared.
      checked (prepare_expected heads (map fst prepared)) table (\<lambda>expected.
      checked (and_then (check_heads table expected) (\<lambda>_. durable_verify table)) table (\<lambda>rows.
      checked (insert_prepared table (int (length rows)) (durable_head rows) prepared) table (\<lambda>(inserted, table').
      (and_then (durable_verify table') (\<lambda>_. return inserted), table'))))))"

definition durable_append ::
  "durable_table \<Rightarrow> string \<Rightarrow> string \<Rightarrow> (pykey \<times> pyval) list \<Rightarrow> string option \<Rightarrow>
   durable_record result \<times> durable_table" where
  "durable_append table stream_id event_type payload expected_head =
     (let (r, table') = append_batch table [(stream_id, event_type, payload)]
        (map_option (\<lambda>h. [(stream_id, h)]) expected_head)
      in (and_then r (\<lambda>inserted. return (hd inserted)), table'))"

section \<open>Backup and restore\<close>

text \<open>The outcome, and the snapshot left behind.\<close>

definition backup_to ::
  "(durable_table \<Rightarrow> durable_table) \<Rightarrow> durable_table \<Rightarrow> durable_table option \<Rightarrow>
   string result \<times> durable_table option" where
  "backup_to copy table snapshot =
     checked (state_identity table) snapshot (\<lambda>source_identity.
     let destination = copy table in
     checked (state_identity destination) (Some destination) (\<lambda>restored_identity.
     if restored_identity \<noteq> source_identity
     then (raise_ent ''backup verification state identity mismatch'', Some destination)
     else (return (rc_head_digest source_identity), Some destination)))"

text \<open>The restored table, and the destination left behind; \<open>move\<close> replaces the destination file.\<close>

definition restore_verified ::
  "(durable_table \<Rightarrow> durable_table) \<Rightarrow> (durable_table \<Rightarrow> durable_table) \<Rightarrow> int option \<Rightarrow> durable_table \<Rightarrow>
   durable_table option \<Rightarrow> durable_table result \<times> durable_table option" where
  "restore_verified copy move max_records snapshot destination =
     (if (case max_records of None \<Rightarrow> False | Some m \<Rightarrow> m < 1)
      then (raise_ent ''restore max_records must be positive'', destination)
      else checked (state_identity snapshot) destination (\<lambda>expected_identity.
      if (case max_records of None \<Rightarrow> False | Some m \<Rightarrow> rc_record_count expected_identity > m)
      then (raise_ent ''restore blast-radius record limit exceeded'', destination)
      else let staged = copy snapshot in
      checked (state_identity staged) destination (\<lambda>staged_identity.
      if staged_identity \<noteq> expected_identity
      then (raise_ent ''restore staging state identity mismatch'', destination)
      else let restored = move staged in
      checked (state_identity restored) (Some restored) (\<lambda>restored_identity.
      if restored_identity \<noteq> expected_identity
      then (raise_ent ''restore verification state identity mismatch'', Some restored)
      else (return restored, Some restored)))))"

section \<open>Laws\<close>

definition durable_normal :: "durable_record \<Rightarrow> bool" where
  "durable_normal r = normal_json (JObj (dr_payload r))"

definition durable_sound :: "durable_record \<Rightarrow> bool" where
  "durable_sound r = (wf_json (JObj (dr_payload r)) \<and> dr_payload_digest r = content_digest (JObj (dr_payload r)) \<and>
     dr_record_digest r = content_digest (JObj (durable_body r)))"

lemma durable_decode_row_Inr:
  "durable_decode_row row = Inr r \<longleftrightarrow>
     loads (dw_payload_json row) = Some (JObj (dr_payload r)) \<and> dr_sequence r = dw_sequence row \<and>
     dr_stream_id r = dw_stream_id row \<and> dr_event_type r = dw_event_type row \<and>
     dr_payload_digest r = dw_payload_digest row \<and> dr_previous_digest r = dw_previous_digest row \<and>
     dr_record_digest r = dw_record_digest row"
  by (cases r) (auto simp: durable_decode_row_def split: option.splits json.splits)

lemma durable_decode_row_of: "durable_normal r \<Longrightarrow> durable_decode_row (durable_row_of r) = Inr r"
  using loads_canonical_json [of "JObj (dr_payload r)"]
  by (simp add: durable_decode_row_Inr durable_row_of_def durable_normal_def normal_json_def)

lemma durable_records_wf: "durable_records table = Inr rs \<Longrightarrow> r \<in> set rs \<Longrightarrow> wf_json (JObj (dr_payload r))"
  unfolding durable_records_def
  by (rule map_result_normal [of durable_decode_row]) (auto simp: durable_decode_row_Inr dest: loads_wf simp del: wf_json_simps)

lemma durable_verify_from_linked:
  "durable_verify_from i h rs = Inr () \<longleftrightarrow>
     map dr_sequence rs = map (\<lambda>k. i + int k) [0..<length rs] \<and>
     linked dr_previous_digest dr_record_digest
       (\<lambda>r. dr_payload_digest r = content_digest (JObj (dr_payload r)) \<and>
            dr_record_digest r = content_digest (JObj (durable_body r))) h rs"
  by (rule numbered_chain [of durable_verify_from]) (auto split: if_splits)

lemma linked_cong:
  "(\<And>r. r \<in> set rs \<Longrightarrow> p r = q r) \<Longrightarrow> linked prev hash p h rs = linked prev hash q h rs"
  by (induction rs arbitrary: h) auto

lemma durable_verify_Inr:
  "durable_verify table = Inr rs \<longleftrightarrow> durable_records table = Inr rs \<and>
     map dr_sequence rs = map int [0..<length rs] \<and>
     linked dr_previous_digest dr_record_digest durable_sound DURABLE_GENESIS rs"
proof -
  have "linked dr_previous_digest dr_record_digest
       (\<lambda>r. dr_payload_digest r = content_digest (JObj (dr_payload r)) \<and>
            dr_record_digest r = content_digest (JObj (durable_body r))) DURABLE_GENESIS rs =
     linked dr_previous_digest dr_record_digest durable_sound DURABLE_GENESIS rs" if "durable_records table = Inr rs"
    using durable_records_wf [OF that] by (intro linked_cong) (simp add: durable_sound_def)
  then show ?thesis by (auto simp: durable_verify_def durable_verify_from_linked)
qed

lemma durable_head_chain: "durable_head rs = chain_head dr_record_digest DURABLE_GENESIS rs"
  by (simp add: durable_head_def chain_head_def)

lemma sort_key_snoc:
  fixes f :: "'a \<Rightarrow> 'b :: linorder"
  assumes "\<forall>y \<in> set xs. f y \<le> f x"
  shows "sort_key f (xs @ [x]) = sort_key f xs @ [x]"
proof (rule properties_for_sort_key)
  show "mset (sort_key f xs @ [x]) = mset (xs @ [x])" by simp
  show "filter (\<lambda>y. f k = f y) (sort_key f xs @ [x]) = filter (\<lambda>y. f k = f y) (xs @ [x])"
    if "k \<in> set (sort_key f xs @ [x])" for k
    using sort_key_stable [of f "f k" xs] by (simp add: eq_commute [of "f k"])
  show "sorted (map f (sort_key f xs @ [x]))" using assms by (auto simp: sorted_append)
qed

lemma list_all2_left: "list_all2 P xs ys \<Longrightarrow> x \<in> set xs \<Longrightarrow> \<exists>y \<in> set ys. P x y"
  by (induction rule: list_all2_induct) auto

text \<open>One more record on a verified table.\<close>

lemma durable_extend:
  assumes "durable_verify table = Inr rs" "durable_normal r" "durable_sound r"
    and "dr_sequence r = int (length rs)" "dr_previous_digest r = durable_head rs"
  shows "durable_verify (table @ [durable_row_of r]) = Inr (rs @ [r])"
proof -
  note v = assms(1) [unfolded durable_verify_Inr]
  have rs: "map_result durable_decode_row (sort_key dw_sequence table) = Inr rs"
    using v by (simp add: durable_records_def)
  have "\<forall>w \<in> set table. dw_sequence w \<le> dw_sequence (durable_row_of r)"
  proof
    fix w
    assume "w \<in> set table"
    then have "w \<in> set (sort_key dw_sequence table)" by simp
    then obtain r' where "r' \<in> set rs" "durable_decode_row w = Inr r'"
      using rs unfolding map_result_Inr_iff by (blast dest: list_all2_left)
    moreover have "dr_sequence r' \<in> set (map int [0..<length rs])"
      unfolding v [THEN conjunct2, THEN conjunct1, symmetric] using \<open>r' \<in> set rs\<close> by simp
    then have "dr_sequence r' \<le> int (length rs)" by auto
    ultimately show "dw_sequence w \<le> dw_sequence (durable_row_of r)"
      using assms(4) by (simp add: durable_decode_row_Inr durable_row_of_def)
  qed
  then have "sort_key dw_sequence (table @ [durable_row_of r]) = sort_key dw_sequence table @ [durable_row_of r]"
    by (rule sort_key_snoc)
  then have "durable_records (table @ [durable_row_of r]) = Inr (rs @ [r])"
    using rs durable_decode_row_of [OF assms(2)]
    by (simp add: durable_records_def map_result_snoc)
  then show ?thesis using v assms(3-5) by (simp add: durable_verify_Inr linked_snoc durable_head_chain)
qed

definition prepared_ok :: "string \<times> string \<times> (string \<times> json) list \<times> string \<Rightarrow> bool" where
  "prepared_ok = (\<lambda>(stream, event_type, copied, digest). is_text stream \<and> is_text event_type \<and>
     normal_json (JObj copied) \<and> digest = content_digest (JObj copied))"

definition entry_of :: "durable_record \<Rightarrow> string \<times> string \<times> (string \<times> json) list \<times> string" where
  "entry_of r = (dr_stream_id r, dr_event_type r, dr_payload r, dr_payload_digest r)"

lemma prepare_event_Inr:
  "prepare_event (s, t, payload) = Inr p \<longleftrightarrow> strip s \<noteq> [] \<and> strip t \<noteq> [] \<and>
     (\<exists>kvs. normalize_value (PyDict payload) = Inr (JObj kvs) \<and>
        p = (strip s, strip t, kvs, content_digest (JObj kvs)))"
proof (cases "normalize_value (PyDict payload)")
  case (Inr j)
  then obtain kvs where "j = JObj kvs" using normalize_dict_is_obj by blast
  then show ?thesis using Inr by (auto simp: prepare_event_def Let_def simp del: normalize_value.simps)
qed (simp add: prepare_event_def Let_def del: normalize_value.simps)

lemma prepare_event_ok: "prepare_event ev = Inr p \<Longrightarrow> prepared_ok p"
  by (cases ev) (auto simp: prepare_event_Inr prepared_ok_def is_text_def simp del: normalize_value.simps
      dest: normalize_value_normal)

lemma insert_prepared_extends:
  assumes "durable_verify table = Inr rs" "\<forall>p \<in> set prepared. prepared_ok p"
    and "insert_prepared table (int (length rs)) (durable_head rs) prepared = Inr (inserted, table')"
  shows "map entry_of inserted = prepared \<and> table' = table @ map durable_row_of inserted \<and>
    durable_verify table' = Inr (rs @ inserted)"
  using assms
proof (induction prepared arbitrary: table rs inserted)
  case (Cons p prepared)
  obtain stream event_type copied digest where p: "p = (stream, event_type, copied, digest)" by (cases p)
  let ?u = "\<lparr>dr_sequence = int (length rs), dr_stream_id = stream, dr_event_type = event_type, dr_payload = copied,
    dr_payload_digest = digest, dr_previous_digest = durable_head rs, dr_record_digest = []\<rparr>"
  define r where "r = ?u\<lparr>dr_record_digest := content_digest (JObj (durable_body ?u))\<rparr>"
  obtain rest where step: "insert_durable table (durable_row_of r) = Inr (table @ [durable_row_of r])"
      "insert_prepared (table @ [durable_row_of r]) (int (length rs) + 1) (dr_record_digest r) prepared = Inr (rest, table')"
      "inserted = r # rest"
    using Cons.prems(3) by (auto simp: p r_def Let_def insert_durable_def split: if_splits)
  have n: "durable_normal r" "durable_sound r" "dr_sequence r = int (length rs)" "dr_previous_digest r = durable_head rs"
    using Cons.prems(2) by (auto simp: p r_def prepared_ok_def durable_normal_def durable_sound_def durable_body_def
        normal_json_def simp del: wf_json_simps)
  have e: "durable_verify (table @ [durable_row_of r]) = Inr (rs @ [r])" by (rule durable_extend [OF Cons.prems(1) n])
  have ih: "map entry_of rest = prepared \<and> table' = (table @ [durable_row_of r]) @ map durable_row_of rest \<and>
      durable_verify table' = Inr ((rs @ [r]) @ rest)"
  proof (rule Cons.IH [OF e])
    show "\<forall>p \<in> set prepared. prepared_ok p" using Cons.prems(2) by simp
    show "insert_prepared (table @ [durable_row_of r]) (int (length (rs @ [r]))) (durable_head (rs @ [r])) prepared =
        Inr (rest, table')"
      using step(2) by (simp add: durable_head_def add.commute)
  qed
  have "entry_of r = p" by (simp add: p r_def entry_of_def)
  then show ?case using step(3) ih [THEN conjunct1] ih [THEN conjunct2, THEN conjunct1]
      ih [THEN conjunct2, THEN conjunct2] by simp
qed simp

section \<open>The store as a hash chain\<close>

definition durable_content :: "durable_record \<Rightarrow> json" where
  "durable_content r = norm_json (JObj (durable_body r))"

definition durable_clash :: "durable_record \<Rightarrow> durable_record \<Rightarrow> bool" where
  "durable_clash r r' = digest_collision (JObj (durable_body r)) (JObj (durable_body r'))"

lemma durable_content_eq:
  "durable_content r = durable_content r' \<longleftrightarrow>
     dr_sequence r = dr_sequence r' \<and> dr_stream_id r = dr_stream_id r' \<and> dr_event_type r = dr_event_type r' \<and>
     norm_json (JObj (dr_payload r)) = norm_json (JObj (dr_payload r')) \<and>
     dr_payload_digest r = dr_payload_digest r' \<and> dr_previous_digest r = dr_previous_digest r'"
  by (simp add: durable_content_def norm_json_JObj_same_keys durable_body_def del: norm_json.simps(6))

interpretation durable: hash_chain dr_previous_digest dr_record_digest durable_sound durable_content durable_clash
proof unfold_locales
  fix r r'
  show "durable_content r = durable_content r' \<Longrightarrow> dr_previous_digest r = dr_previous_digest r'"
    by (simp add: durable_content_eq)
  assume "durable_sound r" "durable_sound r'" "dr_record_digest r = dr_record_digest r'"
  then show "durable_content r = durable_content r' \<or> durable_clash r r'"
    unfolding durable_content_def durable_clash_def
    by (intro content_digest_eqD) (simp_all add: durable_sound_def durable_body_def)
qed

lemma prepare_expected_Inr:
  assumes "prepare_expected (Some items) streams = Inr expected"
  obtains pairs where "expected = Some pairs" "set (map fst pairs) = set streams"
    "\<And>s d. (s, d) \<in> set pairs \<Longrightarrow> \<exists>(s', d') \<in> set items. s = strip s' \<and> d = lower (strip d')"
proof -
  let ?f = "\<lambda>(raw_stream_id, raw_digest).
            let stream_id = strip raw_stream_id in
            if stream_id = [] then raise_ent ''expected stream_id cannot be blank''
            else and_then (require_sha256 raw_digest ''expected_stream_head_digest'') (\<lambda>d. return (stream_id, d))"
  obtain pairs where pairs: "map_result ?f items = Inr pairs"
      "expected = Some (dict_of pairs)" "set (map fst (dict_of pairs)) = set streams"
    using assms by (auto simp: prepare_expected_def Let_def simp del: set_map split: if_splits)
  have "\<exists>(s', d') \<in> set items. s = strip s' \<and> d = lower (strip d')" if "(s, d) \<in> set (dict_of pairs)" for s d
  proof -
    have "(s, d) \<in> set pairs" using that dict_of_subset [of pairs] by blast
    then obtain x where "x \<in> set items" "?f x = Inr (s, d)"
      using pairs(1) [unfolded map_result_Inr_iff] list_all2_right [of _ items pairs "(s, d)"] by blast
    then show ?thesis
      by (intro bexI [of _ x]) (auto simp: Let_def require_sha256_Inr split: prod.splits if_splits)
  qed
  then show ?thesis using pairs(2,3) that [of "dict_of pairs"] by blast
qed

text \<open>A transaction that inserts returns the records in order; one that does not is a collision.\<close>

lemma insert_prepared_total:
  assumes "durable_verify table = Inr rs" "\<forall>p \<in> set prepared. prepared_ok p"
  shows "(\<exists>inserted table'. insert_prepared table (int (length rs)) (durable_head rs) prepared = Inr (inserted, table')) \<or>
    insert_prepared table (int (length rs)) (durable_head rs) prepared = raise SqliteIntegrityError \<and>
      (\<exists>r r'. dr_sequence r < dr_sequence r' \<and> durable_clash r r')"
  using assms
proof (induction prepared arbitrary: table rs)
  case (Cons p prepared)
  obtain stream event_type copied digest where p: "p = (stream, event_type, copied, digest)" by (cases p)
  let ?u = "\<lparr>dr_sequence = int (length rs), dr_stream_id = stream, dr_event_type = event_type, dr_payload = copied,
    dr_payload_digest = digest, dr_previous_digest = durable_head rs, dr_record_digest = []\<rparr>"
  define r where "r = ?u\<lparr>dr_record_digest := content_digest (JObj (durable_body ?u))\<rparr>"
  have n: "durable_normal r" "durable_sound r" "dr_sequence r = int (length rs)" "dr_previous_digest r = durable_head rs"
    using Cons.prems(2) by (auto simp: p r_def prepared_ok_def durable_normal_def durable_sound_def durable_body_def
        normal_json_def simp del: wf_json_simps)
  have unfold: "insert_prepared table (int (length rs)) (durable_head rs) (p # prepared) =
      and_then (insert_durable table (durable_row_of r)) (\<lambda>table'.
      and_then (insert_prepared table' (int (length rs) + 1) (dr_record_digest r) prepared) (\<lambda>(inserted, table'').
      return (r # inserted, table'')))"
    by (simp add: p r_def Let_def)
  show ?case
  proof (cases "insert_durable table (durable_row_of r)")
    case (Inr table1)
    then have t1: "table1 = table @ [durable_row_of r]" by (auto simp: insert_durable_def split: if_splits)
    have e: "durable_verify table1 = Inr (rs @ [r])" unfolding t1 by (rule durable_extend [OF Cons.prems(1) n])
    have "\<forall>p \<in> set prepared. prepared_ok p" using Cons.prems(2) by simp
    from Cons.IH [OF e this] show ?thesis unfolding unfold Inr
      by (auto simp: durable_head_def add.commute)
  next
    case (Inl e)
    then obtain w where w: "w \<in> set table" "e = SqliteIntegrityError"
        "dw_sequence w = dw_sequence (durable_row_of r) \<or> dw_record_digest w = dw_record_digest (durable_row_of r)"
      by (auto simp: insert_durable_def split: if_splits)
    note v = Cons.prems(1) [unfolded durable_verify_Inr]
    have "w \<in> set (sort_key dw_sequence table)" using w by simp
    then obtain r' where r': "r' \<in> set rs" "durable_decode_row w = Inr r'"
      using v unfolding durable_records_def map_result_Inr_iff by (blast dest: list_all2_left)
    have "dr_sequence r' \<in> set (map int [0..<length rs])"
      unfolding v [THEN conjunct2, THEN conjunct1, symmetric] using r' by simp
    then have less: "dr_sequence r' < dr_sequence r" using n(3) by auto
    moreover have "durable_sound r'" using v r' linked_sound [of dr_previous_digest dr_record_digest durable_sound] by blast
    moreover have "dr_record_digest r' = dr_record_digest r"
      using w(3) less r'(2) n(3) by (auto simp: durable_decode_row_Inr durable_row_of_def)
    ultimately have "durable_clash r' r"
      using durable.hash_binds [of r' r] n(2) by (auto simp: durable_content_eq)
    then show ?thesis using less Inl w(2) unfolding unfold by auto
  qed
qed simp

section \<open>Batches\<close>

lemma append_batch_outcome:
  assumes "append_batch table events heads = (r, table')"
  shows "(\<exists>e. r = raise e \<and> table' = table) \<or>
    (\<exists>rs inserted. r = return inserted \<and> durable_verify table = return rs \<and>
       durable_verify table' = return (rs @ inserted) \<and>
       list_all2 (\<lambda>(s, t, p) d. dr_stream_id d = strip s \<and> dr_event_type d = strip t \<and>
         normalize_value (PyDict p) = return (JObj (dr_payload d))) events inserted \<and>
       (\<forall>items. heads = Some items \<longrightarrow> (\<forall>(s, t, p) \<in> set events. \<exists>(s', d) \<in> set items. strip s' = strip s \<and>
          (case select_stream_head table (strip s) of None \<Rightarrow> DURABLE_GENESIS | Some h \<Rightarrow> h) = lower (strip d))))"
proof (cases "\<exists>e. r = raise e \<and> table' = table")
  case False
  note kept = False
  have "events \<noteq> []" using assms kept by (auto simp: append_batch_def)
  then have "checked (map_result prepare_event events) table (\<lambda>prepared.
      checked (prepare_expected heads (map fst prepared)) table (\<lambda>expected.
      checked (and_then (check_heads table expected) (\<lambda>_. durable_verify table)) table (\<lambda>rows.
      checked (insert_prepared table (int (length rows)) (durable_head rows) prepared) table (\<lambda>(inserted, table').
      (and_then (durable_verify table') (\<lambda>_. return inserted), table'))))) = (r, table')"
    using assms by (simp add: append_batch_def)
  then obtain prepared expected rs x where prep: "map_result prepare_event events = Inr prepared"
    and ex: "prepare_expected heads (map fst prepared) = Inr expected"
    and rs0: "and_then (check_heads table expected) (\<lambda>_. durable_verify table) = Inr rs"
    and ins: "insert_prepared table (int (length rs)) (durable_head rs) prepared = Inr x"
      "(case x of (inserted, table') \<Rightarrow> (and_then (durable_verify table') (\<lambda>_. return inserted), table')) = (r, table')"
    using kept by (elim checked_stored) blast+
  have rs: "durable_verify table = Inr rs" and heads_ok: "check_heads table expected = Inr ()" using rs0 by auto
  obtain inserted where ins: "insert_prepared table (int (length rs)) (durable_head rs) prepared = Inr (inserted, table')"
    and r: "r = and_then (durable_verify table') (\<lambda>_. Inr inserted)" using ins by (cases x) auto
  have all: "list_all2 (\<lambda>ev p. prepare_event ev = Inr p) events prepared" using prep by (simp add: map_result_Inr_iff)
  then have "\<forall>p \<in> set prepared. prepared_ok p" by (auto dest: list_all2_right intro: prepare_event_ok)
  note ext = insert_prepared_extends [OF rs this ins]
  have content: "list_all2 (\<lambda>(s, t, p) d. dr_stream_id d = strip s \<and> dr_event_type d = strip t \<and>
         normalize_value (PyDict p) = return (JObj (dr_payload d))) events inserted"
    using all unfolding ext [THEN conjunct1, symmetric] list.rel_map
    by (rule list.rel_mono_strong) (auto simp: prepare_event_Inr entry_of_def simp del: normalize_value.simps)
  have heads: "\<exists>(s', d) \<in> set items. strip s' = strip s \<and>
        (case select_stream_head table (strip s) of None \<Rightarrow> DURABLE_GENESIS | Some h \<Rightarrow> h) = lower (strip d)"
    if items: "heads = Some items" and ev: "(s, t, p) \<in> set events" for items s t p
  proof -
    obtain pairs where pairs: "expected = Some pairs" "set (map fst pairs) = set (map fst prepared)"
        "\<And>s d. (s, d) \<in> set pairs \<Longrightarrow> \<exists>(s', d') \<in> set items. s = strip s' \<and> d = lower (strip d')"
      using prepare_expected_Inr [OF ex [unfolded items]] by metis
    obtain q where "q \<in> set prepared" "prepare_event (s, t, p) = Inr q"
      using list_all2_left [OF all ev] by blast
    then have "strip s \<in> set (map fst pairs)"
      unfolding pairs(2) by (auto simp: prepare_event_Inr simp del: normalize_value.simps intro: rev_image_eqI)
    then obtain d where d: "(strip s, d) \<in> set pairs" by auto
    then have "(case select_stream_head table (strip s) of None \<Rightarrow> DURABLE_GENESIS | Some h \<Rightarrow> h) = d"
      using heads_ok pairs(1) by (auto simp: check_heads_def split: if_splits)
    then show ?thesis using pairs(3) [OF d] by fastforce
  qed
  then show ?thesis using rs ext r content by auto
qed blast

lemma append_batch_total:
  assumes "durable_verify table = return rs" and "events \<noteq> []"
    and "\<forall>(s, t, p) \<in> set events. strip s \<noteq> [] \<and> strip t \<noteq> [] \<and> (\<exists>j. normalize_value (PyDict p) = return j)"
    and "prepare_expected heads (map (\<lambda>(s, t, p). strip s) events) = return expected"
    and "check_heads table expected = return ()"
  shows "(\<exists>inserted table'. append_batch table events heads = (return inserted, table')) \<or>
    append_batch table events heads = (raise SqliteIntegrityError, table) \<and>
      (\<exists>r r'. dr_sequence r < dr_sequence r' \<and> durable_clash r r')"
proof -
  have "\<exists>p. prepare_event ev = Inr p \<and> fst p = strip (fst ev)" if mem: "ev \<in> set events" for ev
  proof -
    obtain s t q where ev: "ev = (s, t, q)" by (cases ev)
    then obtain j where "strip s \<noteq> []" "strip t \<noteq> []" "normalize_value (PyDict q) = Inr j"
      using bspec [OF assms(3) mem] unfolding ev by (auto simp del: normalize_value.simps)
    moreover from this obtain kvs where "j = JObj kvs" using normalize_dict_is_obj by blast
    ultimately show ?thesis by (simp add: ev prepare_event_def Let_def del: normalize_value.simps)
  qed
  then obtain f where f: "\<And>ev. ev \<in> set events \<Longrightarrow> prepare_event ev = Inr (f ev) \<and> fst (f ev) = strip (fst ev)" by metis
  then have prep: "map_result prepare_event events = Inr (map f events)"
    using f by (simp add: map_result_Inr_iff list_all2_map2 list_all2_same)
  have streams: "map fst (map f events) = map (\<lambda>(s, t, p). strip s) events" using f by (auto simp: case_prod_unfold)
  have ok: "\<forall>p \<in> set (map f events). prepared_ok p" using f by (auto intro: prepare_event_ok)
  from insert_prepared_total [OF assms(1) ok] show ?thesis
  proof
    assume "\<exists>inserted table'. insert_prepared table (int (length rs)) (durable_head rs) (map f events) = Inr (inserted, table')"
    then obtain inserted table' where ins: "insert_prepared table (int (length rs)) (durable_head rs) (map f events) = Inr (inserted, table')"
      by blast
    have "durable_verify table' = Inr (rs @ inserted)" using insert_prepared_extends [OF assms(1) ok ins] by blast
    then show ?thesis using assms(1,2,4,5) prep ins unfolding append_batch_def streams [symmetric] by simp
  qed (use assms(1,2,4,5) prep in \<open>simp add: append_batch_def streams [symmetric]\<close>)
qed

section \<open>Properties\<close>

text \<open>A batch is appended whole or not at all. Whatever the table, an append either raises and
  leaves the table untouched, or the table was verified before and verifies afterwards to the old
  records followed by one new record for each event, with its stream, type and canonical payload; and
  when expected heads were given, the head of every stream of the batch was the one its caller
  expected.\<close>

theorem durable_append_all_or_nothing:
  assumes "append_batch table events heads = (r, table')"
  shows "(\<exists>e. r = raise e \<and> table' = table) \<or>
    (\<exists>rs inserted. r = return inserted \<and> durable_verify table = return rs \<and>
       durable_verify table' = return (rs @ inserted) \<and>
       list_all2 (\<lambda>(s, t, p) d. dr_stream_id d = strip s \<and> dr_event_type d = strip t \<and>
         normalize_value (PyDict p) = return (JObj (dr_payload d))) events inserted \<and>
       (\<forall>items. heads = Some items \<longrightarrow> (\<forall>(s, t, p) \<in> set events. \<exists>(s', d) \<in> set items. strip s' = strip s \<and>
          (case select_stream_head table (strip s) of None \<Rightarrow> DURABLE_GENESIS | Some h \<Rightarrow> h) = lower (strip d))))"
  by (rule append_batch_outcome [OF assms])

text \<open>An append goes through. On a verified table, a nonempty batch with stream and type names and
  canonical payloads whose expected heads, if any, cover and match its streams is appended; the only
  other outcome is a refusal by the unique digest, and then a SHA-256 collision of two record bodies is
  exhibited.\<close>

theorem durable_append_succeeds:
  assumes "durable_verify table = return rs" and "events \<noteq> []"
    and "\<forall>(s, t, p) \<in> set events. strip s \<noteq> [] \<and> strip t \<noteq> [] \<and> (\<exists>j. normalize_value (PyDict p) = return j)"
    and "prepare_expected heads (map (\<lambda>(s, t, p). strip s) events) = return expected"
    and "check_heads table expected = return ()"
  shows "(\<exists>inserted table'. append_batch table events heads = (return inserted, table')) \<or>
    append_batch table events heads = (raise SqliteIntegrityError, table) \<and>
      (\<exists>r r'. dr_sequence r < dr_sequence r' \<and> durable_clash r r')"
  by (rule append_batch_total [OF assms])

text \<open>The provenance store is tamper evident: two tables that verify to the same head digest hold
  the same records, field by field, or two of their records are an exhibited SHA-256 collision, or a
  record digest is the genesis value itself.\<close>

theorem durable_tamper_evident:
  assumes "durable_verify table = return rs" and "durable_verify table' = return rs'"
    and "durable_head rs = durable_head rs'"
  shows "map durable_content rs = map durable_content rs' \<or>
    (\<exists>r \<in> set rs. \<exists>r' \<in> set rs'. durable_clash r r') \<or>
    (\<exists>r \<in> set rs \<union> set rs'. dr_record_digest r = DURABLE_GENESIS)"
  using assms durable.tamper_evident [of DURABLE_GENESIS rs rs']
  by (simp add: durable_verify_Inr durable_head_chain)

text \<open>C27: A restore gives back what was saved, whatever the copy made by the database engine and the
  replacement of the file did: when \<^verbatim>\<open>restore_verified\<close> returns, snapshot and restored store both
  verify, have the same number of records and the same head, the record limit was kept, and the events
  of both agree in sequence, stream, type and payload, or the two event lists are an exhibited SHA-256
  collision.\<close>

theorem restore_verified_faithful:
  assumes "restore_verified copy move max_records snapshot destination = (return restored, destination')"
  shows "\<exists>rs rs'. durable_verify snapshot = return rs \<and> durable_verify restored = return rs' \<and>
    destination' = Some restored \<and> length rs' = length rs \<and> durable_head rs' = durable_head rs \<and>
    (\<forall>m. max_records = Some m \<longrightarrow> int (length rs) \<le> m) \<and>
    (norm_json (JList (map (\<lambda>r. JObj (semantic_entry r)) rs')) = norm_json (JList (map (\<lambda>r. JObj (semantic_entry r)) rs)) \<or>
     digest_collision (JList (map (\<lambda>r. JObj (semantic_entry r)) rs')) (JList (map (\<lambda>r. JObj (semantic_entry r)) rs)))"
proof -
  obtain i where i: "state_identity snapshot = Inr i" "state_identity restored = Inr i" "destination' = Some restored"
      "\<forall>m. max_records = Some m \<longrightarrow> rc_record_count i \<le> m"
    using assms by (auto simp: restore_verified_def Let_def checked_result split: if_splits option.splits)
  obtain rs rs' where v: "durable_verify snapshot = Inr rs" "durable_verify restored = Inr rs'"
    and s: "rc_record_count i = int (length rs)" "rc_record_count i = int (length rs')"
      "rc_head_digest i = durable_head rs" "rc_head_digest i = durable_head rs'"
      "rc_semantic_digest i = content_digest (JList (map (\<lambda>r. JObj (semantic_entry r)) rs))"
      "rc_semantic_digest i = content_digest (JList (map (\<lambda>r. JObj (semantic_entry r)) rs'))"
    using i(1,2) by (auto simp: state_identity_def recovery_identity_init_def split: if_splits)
  have wf: "wf_json (JList (map (\<lambda>r. JObj (semantic_entry r)) xs))" if "durable_verify t = Inr xs" for t xs
    using that durable_records_wf [of t xs]
    by (auto simp: durable_verify_Inr semantic_entry_def list_all_iff)
  have "content_digest (JList (map (\<lambda>r. JObj (semantic_entry r)) rs')) =
      content_digest (JList (map (\<lambda>r. JObj (semantic_entry r)) rs))" using s by simp
  from content_digest_eqD [OF wf [OF v(2)] wf [OF v(1)] this] show ?thesis
    using v s i(3,4) by (intro exI [of _ rs] exI [of _ rs']) auto
qed

section \<open>Witnesses\<close>

lemma durable_words: "strip ''s'' = ''s''" "strip ''t'' = ''t''"
  by (simp_all add: strip_def is_space_def)

lemma durable_empty: "durable_verify [] = Inr []"
  by (simp add: durable_verify_def durable_records_def)

lemma sample_heads:
  "prepare_expected (Some [(''s'', DURABLE_GENESIS)]) [''s''] = Inr (Some [(''s'', DURABLE_GENESIS)])"
proof -
  have "is_sha256 DURABLE_GENESIS"
    by (simp add: DURABLE_GENESIS_def is_sha256_def is_hex_def list_all_iff hex_alphabet_def)
  then have "require_sha256 DURABLE_GENESIS n = Inr DURABLE_GENESIS" for n
    by (simp add: require_sha256_Inr is_sha256_def is_hex_strip is_hex_lower)
  then show ?thesis by (simp add: prepare_expected_def durable_words dict_of_def Let_def)
qed

lemma sample_batch_normal: "normalize_value (PyDict []) = Inr (JObj [])"
  by (simp add: dict_of_def)

lemma durable_append_all_or_nothing_witness:
  "\<exists>r table'. append_batch [] [(''s'', ''t'', [])] (Some [(''s'', DURABLE_GENESIS)]) = (r, table') \<and>
     ((\<exists>e. r = raise e \<and> table' = []) \<or> (\<exists>inserted. r = return inserted \<and> durable_verify table' = return inserted))"
proof -
  obtain r table' where a: "append_batch [] [(''s'', ''t'', [])] (Some [(''s'', DURABLE_GENESIS)]) = (r, table')" by fastforce
  show ?thesis using durable_append_all_or_nothing [OF a] a durable_empty by auto
qed

lemma durable_append_succeeds_witness:
  "(\<exists>inserted table'. append_batch [] [(''s'', ''t'', [])] (Some [(''s'', DURABLE_GENESIS)]) = (return inserted, table')) \<or>
   (\<exists>r r'. dr_sequence r < dr_sequence r' \<and> durable_clash r r')"
proof -
  have ev: "\<forall>(s, t, p) \<in> set [(''s'', ''t'', [])]. strip s \<noteq> [] \<and> strip t \<noteq> [] \<and> (\<exists>j. normalize_value (PyDict p) = return j)"
    using sample_batch_normal by (simp add: durable_words del: normalize_value.simps)
  have ex: "prepare_expected (Some [(''s'', DURABLE_GENESIS)]) (map (\<lambda>(s, t, p). strip s) [(''s'', ''t'', [])]) =
      return (Some [(''s'', DURABLE_GENESIS)])" using sample_heads by (simp add: durable_words)
  have "check_heads [] (Some [(''s'', DURABLE_GENESIS)]) = return ()"
    by (simp add: check_heads_def select_stream_head_def)
  from durable_append_succeeds [OF durable_empty _ ev ex this] show ?thesis by auto
qed

lemma durable_tamper_evident_witness: "map durable_content [] = map durable_content []"
  using durable_tamper_evident [OF durable_empty durable_empty refl] by simp

lemma restore_verified_faithful_witness:
  "\<exists>restored. restore_verified (\<lambda>t. t) (\<lambda>t. t) (Some 1) [] None = (return restored, Some restored) \<and>
     durable_verify restored = return []"
proof -
  have "is_sha256 DURABLE_GENESIS"
    by (simp add: DURABLE_GENESIS_def is_sha256_def is_hex_def list_all_iff hex_alphabet_def)
  then have "require_sha256 DURABLE_GENESIS n = Inr DURABLE_GENESIS" for n
    by (simp add: require_sha256_Inr is_sha256_def is_hex_strip is_hex_lower)
  moreover have "require_sha256 (content_digest j) n = Inr (content_digest j)" for j n
    using is_sha256_content_digest [of j] unfolding is_sha256_def
    by (simp add: require_sha256_Inr is_sha256_def is_hex_strip is_hex_lower)
  ultimately have r: "restore_verified (\<lambda>t. t) (\<lambda>t. t) (Some 1) [] None = (return [], Some [])"
    using durable_empty
    by (simp add: restore_verified_def state_identity_def recovery_identity_init_def durable_head_def Let_def)
  show ?thesis using restore_verified_faithful [OF r] r durable_empty by auto
qed

end
