(* ===== verification/Case_Ledger.thy ===== *)
theory Case_Ledger
  imports Case_Contracts Durable_Store
begin

text \<open>
  The canonical case ledger, \<^verbatim>\<open>core/case_ledger/ledger.py\<close>: one chain of canonical events for each case,
  stored as the payloads of one stream of the provenance store. The state is the store's table; every
  operation verifies the whole table first. The reentrant lock of the class makes an operation one
  step; another process can only write between two operations, and the expected heads are for that.
\<close>

section \<open>Streams\<close>

definition BACKEND_EVENT_TYPE :: string where
  "BACKEND_EVENT_TYPE = ''canonical.case-ledger.event.v1''"

definition OBJECT_REVISION_PUBLISHED_V1 :: string where
  "OBJECT_REVISION_PUBLISHED_V1 = ''object.revision.published.v1''"

definition DEFAULT_MAX_CASE_EVENTS :: int where
  "DEFAULT_MAX_CASE_EVENTS = 10000"

definition STREAM_PREFIX :: string where
  "STREAM_PREFIX = ''canonical-case-ledger:''"

definition case_stream :: "string \<Rightarrow> string" where
  "case_stream case_id = STREAM_PREFIX @ case_id"

definition runtime_address :: "runtime_identity \<Rightarrow> content_address result" where
  "runtime_address ri = content_address_init \<lparr>ca_algorithm = SHA256, ca_digest = runtime_identity_digest ri\<rparr>"

definition validate_limit :: "int \<Rightarrow> int result" where
  "validate_limit max_events = (if max_events < 1 then raise_cl ''max_events must be positive'' else return max_events)"

text \<open>A JSON value as the Python value it is: frozen mappings and tuples.\<close>

primrec py_of_json :: "json \<Rightarrow> pyval" where
  "py_of_json JNull = PyNone"
| "py_of_json (JBool b) = PyBool b"
| "py_of_json (JInt i) = PyInt i"
| "py_of_json (JStr s) = PyStr s"
| "py_of_json (JList xs) = PyTuple (map py_of_json xs)"
| "py_of_json (JObj kvs) = PyDict (map (\<lambda>(k, v). (KStr k, v)) (map (map_prod id py_of_json) kvs))"

definition py_mapping :: "(string \<times> json) list \<Rightarrow> (pykey \<times> pyval) list" where
  "py_mapping kvs = map (\<lambda>(k, v). (KStr k, py_of_json v)) kvs"

section \<open>Reading\<close>

fun decode_case_loop ::
  "string \<Rightarrow> int \<Rightarrow> content_address option \<Rightarrow> durable_record list \<Rightarrow> ledger_event list result" where
  "decode_case_loop case_id expected_sequence expected_previous [] = return []"
| "decode_case_loop case_id expected_sequence expected_previous (r # rs) =
     (if dr_event_type r \<noteq> BACKEND_EVENT_TYPE
      then raise_cl ''non-canonical record detected inside canonical case stream''
      else and_then (event_from_dict (dr_payload r)) (\<lambda>e.
      if le_case_id e \<noteq> case_id then raise_cl ''canonical case stream contains wrong case_id''
      else if le_case_sequence e \<noteq> expected_sequence then raise_cl ''canonical case sequence discontinuity''
      else if le_previous e \<noteq> expected_previous then raise_cl ''canonical case event chain mismatch''
      else and_then (decode_case_loop case_id (expected_sequence + 1) (Some (le_event_id e)) rs) (\<lambda>es.
      return (e # es))))"

definition decode_case_records :: "string \<Rightarrow> durable_record list \<Rightarrow> int \<Rightarrow> ledger_event list result" where
  "decode_case_records case_id records max_events =
     (if int (length records) > max_events then raise_cl ''canonical case ledger event limit exceeded''
      else decode_case_loop case_id 0 None records)"

text \<open>\<^verbatim>\<open>except EnterpriseContractError as exc: raise CaseLedgerContractError(...)\<close>.\<close>

fun enterprise_as_case :: "string \<Rightarrow> 'a result \<Rightarrow> 'a result" where
  "enterprise_as_case m (Inl (EnterpriseContractError _)) = raise_cl m"
| "enterprise_as_case m r = r"

definition case_matching :: "string \<Rightarrow> durable_record list \<Rightarrow> durable_record list" where
  "case_matching case_id verified = filter (\<lambda>r. dr_stream_id r = case_stream case_id) verified"

definition case_snapshot :: "durable_table \<Rightarrow> string \<Rightarrow> int \<Rightarrow> (ledger_event list \<times> string) result" where
  "case_snapshot table case_id max_events =
     and_then (validate_limit max_events) (\<lambda>limit.
     and_then (enterprise_as_case ''durable backend verification failed'' (durable_verify table)) (\<lambda>verified.
     let matching = case_matching case_id verified in
     and_then (decode_case_records case_id matching limit) (\<lambda>events.
     return (events, if matching = [] then DURABLE_GENESIS else dr_record_digest (last matching)))))"

definition ledger_case_events :: "durable_table \<Rightarrow> string \<Rightarrow> int \<Rightarrow> ledger_event list result" where
  "ledger_case_events table case_id max_events =
     and_then (case_snapshot table case_id max_events) (\<lambda>(events, _). return events)"

definition case_head :: "durable_table \<Rightarrow> string \<Rightarrow> int \<Rightarrow> content_address option result" where
  "case_head table case_id max_events =
     and_then (ledger_case_events table case_id max_events) (\<lambda>events. return (events_head events))"

definition verified_export :: "(string \<times> json) list \<Rightarrow> int option \<Rightarrow> case_bundle result" where
  "verified_export value max_events =
     (case dict_get value ''events'' of
        JList raw_events \<Rightarrow>
          (if (case max_events of None \<Rightarrow> False | Some m \<Rightarrow> int (length raw_events) > m)
           then raise_cl ''canonical case ledger event limit exceeded''
           else and_then (bundle_from_dict value) (\<lambda>b.
           if canonical_json (JObj value) \<noteq> canonical_json (JObj (bundle_dict b))
           then raise_cl ''serialized ledger bundle contains unbound or inconsistent fields''
           else return b))
      | _ \<Rightarrow> raise_cl ''ledger bundle events are invalid'')"

definition verify_export :: "(string \<times> json) list \<Rightarrow> case_bundle result" where
  "verify_export value = verified_export value None"

definition export_case :: "durable_table \<Rightarrow> string \<Rightarrow> int \<Rightarrow> case_bundle result" where
  "export_case table case_id max_events =
     and_then (ledger_case_events table case_id max_events) (\<lambda>events. bundle_build case_id events)"

section \<open>Writing\<close>

definition case_append_event ::
  "durable_table \<Rightarrow> string \<Rightarrow> string \<Rightarrow> runtime_identity \<Rightarrow> (pykey \<times> pyval) list \<Rightarrow> content_address option \<Rightarrow>
   string option \<Rightarrow> content_address option \<Rightarrow> int \<Rightarrow> ledger_event result \<times> durable_table" where
  "case_append_event table case_id event_type runtime payload expected_head object_id revision_id max_events =
     checked (validate_limit max_events) table (\<lambda>limit.
     if revision_id \<noteq> None \<and> object_id = None then (raise_cl ''revision_id requires object_id'', table)
     else checked (case_snapshot table case_id limit) table (\<lambda>(events, backend_head).
     let actual_head = events_head events in
     if actual_head \<noteq> expected_head then (raise_cl ''canonical case head mismatch'', table)
     else if int (length events) \<ge> limit then (raise_cl ''canonical case ledger event limit exceeded'', table)
     else checked (and_then (runtime_address runtime) (\<lambda>address.
         event_build case_id (int (length events)) event_type address payload actual_head object_id revision_id)) table
       (\<lambda>event.
     let (r, table') = durable_append table (case_stream case_id) BACKEND_EVENT_TYPE
           (py_mapping (case_event_dict event)) (Some backend_head) in
     checked (enterprise_as_case ''canonical case append lost exact backend head'' r) table' (\<lambda>_.
     checked (case_snapshot table' case_id limit) table' (\<lambda>(verified, _).
     if length verified \<noteq> length events + 1 \<or> last verified \<noteq> event
     then (raise_cl ''canonical case append verification mismatch'', table')
     else (return event, table'))))))"

definition publish_revision ::
  "durable_table \<Rightarrow> string \<Rightarrow> object_revision \<Rightarrow> runtime_identity \<Rightarrow> content_address option \<Rightarrow> int \<Rightarrow>
   ledger_event result \<times> durable_table" where
  "publish_revision table case_id rv runtime expected_head max_events =
     checked (revision_verify rv) table (\<lambda>_.
     case_append_event table case_id OBJECT_REVISION_PUBLISHED_V1 runtime
       (py_mapping [(''revision'', JObj (revision_dict rv))]) expected_head (Some (or_object_id rv))
       (Some (or_revision_id rv)) max_events)"

text \<open>\<^verbatim>\<open>except Exception as exc: raise CaseLedgerContractError(...)\<close>.\<close>

definition any_as_case :: "string \<Rightarrow> 'a result \<Rightarrow> 'a result" where
  "any_as_case m r = (case r of Inl _ \<Rightarrow> raise_cl m | Inr x \<Rightarrow> return x)"

text \<open>An event as the backend is handed it.\<close>

definition case_entry :: "string \<Rightarrow> ledger_event \<Rightarrow> durable_event" where
  "case_entry case_id e = (case_stream case_id, BACKEND_EVENT_TYPE, py_mapping (case_event_dict e))"

text \<open>The step that fills the empty stream.\<close>

definition restore_events ::
  "durable_table \<Rightarrow> string \<Rightarrow> ledger_event list \<Rightarrow> string \<Rightarrow> unit result \<times> durable_table" where
  "restore_events table case_id events backend_head =
     (if events = [] then (return (), table)
      else let (r, table') = append_batch table
            (map (case_entry case_id) events)
            (Some [(case_stream case_id, backend_head)]) in
      checked (any_as_case ''canonical case restore transaction failed'' r) table' (\<lambda>inserted.
      if length inserted \<noteq> length events then (raise_cl ''canonical case restore record-count mismatch'', table')
      else (return (), table')))"

definition restore_case ::
  "durable_table \<Rightarrow> string \<Rightarrow> (string \<times> json) list \<Rightarrow> int \<Rightarrow> case_bundle result \<times> durable_table" where
  "restore_case table case_id value max_events =
     checked (validate_limit max_events) table (\<lambda>limit.
     checked (verified_export value (Some limit)) table (\<lambda>bundle.
     if cb_case_id bundle \<noteq> case_id then (raise_cl ''restore bundle case_id does not match target case_id'', table)
     else checked (case_snapshot table case_id limit) table (\<lambda>(existing, backend_head).
     if existing \<noteq> [] then (raise_cl ''restore target case stream is not empty'', table)
     else let (r, table') = restore_events table case_id (cb_events bundle) backend_head in
     checked r table' (\<lambda>_.
     checked (export_case table' case_id limit) table' (\<lambda>restored.
     if restored \<noteq> bundle then (raise_cl ''canonical case restore verification mismatch'', table')
     else (return restored, table'))))))"

section \<open>Python values of JSON\<close>

lemma sort_key_map: "sort_key f (map g xs) = map g (sort_key (f \<circ> g) xs)"
proof (rule properties_for_sort_key)
  show "filter (\<lambda>y. f k = f y) (map g (sort_key (f \<circ> g) xs)) = filter (\<lambda>y. f k = f y) (map g xs)"
    if "k \<in> set (map g (sort_key (f \<circ> g) xs))" for k
    using sort_key_stable [of "f \<circ> g" "f k" xs] by (simp add: filter_map comp_def eq_commute [of "f k"])
  show "sorted (map f (map g (sort_key (f \<circ> g) xs)))"
    using sorted_sort_key [of "f \<circ> g" xs] by simp
qed simp

lemma normalize_py_of_json: "wf_json j \<Longrightarrow> normalize_value (py_of_json j) = Inr (norm_json j)"
proof (induction j)
  case (JList xs)
  have "map_result normalize_value (map py_of_json xs) = Inr (map norm_json xs)"
    unfolding map_result_map using JList by (intro map_result_all) (simp add: list_all_iff)
  then show ?case by simp
next
  case (JObj kvs)
  then have d: "distinct (map fst kvs)" and v: "\<And>k v. (k, v) \<in> set kvs \<Longrightarrow> normalize_value (py_of_json v) = Inr (norm_json v)"
    by (auto simp: list_all_iff snds.simps)
  let ?g = "\<lambda>(k, v). (KStr k, py_of_json v)"
  have s: "sort_key (\<lambda>kv. key_str (fst kv)) (map ?g kvs) = map ?g (sort_key fst kvs)"
    unfolding sort_key_map by (simp add: comp_def case_prod_unfold)
  have m: "map_result (\<lambda>kv. and_then (normalize_value (snd kv)) (\<lambda>j. return (key_str (fst kv), j))) (map ?g (sort_key fst kvs)) =
      Inr (map (map_prod id norm_json) (sort_key fst kvs))"
    unfolding map_result_map using v by (intro map_result_all) auto
  have "distinct (map fst (map (map_prod id norm_json) (sort_key fst kvs)))"
    using d by (simp add: comp_def mset_eq_imp_distinct_iff [of "map fst (sort_key fst kvs)" "map fst kvs"])
  then have "dict_of (map (map_prod id norm_json) (sort_key fst kvs)) = map (map_prod id norm_json) (sort_key fst kvs)"
    by (rule dict_of_distinct)
  moreover have "sort_key fst (map (map_prod id norm_json) kvs) = map (map_prod id norm_json) (sort_key fst kvs)"
    unfolding sort_key_map by (simp add: comp_def)
  moreover have "map (\<lambda>(k, v). (KStr k, v)) (map (map_prod id py_of_json) kvs) = map ?g kvs" by auto
  ultimately show ?case using s m by (simp del: map_map)
qed simp_all

lemma normalize_py_mapping: "wf_json (JObj kvs) \<Longrightarrow> normalize_value (PyDict (py_mapping kvs)) = Inr (norm_json (JObj kvs))"
  using normalize_py_of_json [of "JObj kvs"]
  by (simp add: py_mapping_def comp_def case_prod_unfold map_prod_def del: normalize_value.simps norm_json.simps wf_json_simps)

section \<open>Streams and their records\<close>

lemma strip_case_stream: "is_identifier c \<Longrightarrow> strip (case_stream c) = case_stream c"
  by (rule strip_id) (auto simp: stripped_def case_stream_def STREAM_PREFIX_def is_identifier_def is_text_def is_space_def)

lemma strip_backend_type: "strip BACKEND_EVENT_TYPE = BACKEND_EVENT_TYPE"
  by (simp add: strip_def BACKEND_EVENT_TYPE_def is_space_def)

lemma stream_names [simp]: "case_stream c \<noteq> []" "BACKEND_EVENT_TYPE \<noteq> []" "case_stream a = case_stream b \<longleftrightarrow> a = b"
  by (auto simp: case_stream_def STREAM_PREFIX_def BACKEND_EVENT_TYPE_def)

lemma enterprise_as_case_Inr [simp]: "enterprise_as_case m r = Inr x \<longleftrightarrow> r = Inr x"
  by (cases "(m, r)" rule: enterprise_as_case.cases) auto

lemma validate_limit_Inr [simp]: "validate_limit n = Inr k \<longleftrightarrow> k = n \<and> 1 \<le> n"
  by (auto simp: validate_limit_def)

text \<open>A stream is accepted exactly when its records hold, one by one, events that a bundle would accept.\<close>

lemma decode_case_loop_Inr:
  assumes "\<forall>r \<in> set rs. wf_json (JObj (dr_payload r))"
  shows "decode_case_loop c i h rs = Inr es \<longleftrightarrow>
    list_all2 (\<lambda>r e. dr_event_type r = BACKEND_EVENT_TYPE \<and> event_from_dict (dr_payload r) = Inr e) rs es \<and>
    bundle_verify_from c i h es = Inr ()"
  using assms
proof (induction rs arbitrary: i h es)
  case (Cons r rs)
  have ih: "decode_case_loop c i h rs = Inr es \<longleftrightarrow>
      list_all2 (\<lambda>r e. dr_event_type r = BACKEND_EVENT_TYPE \<and> event_from_dict (dr_payload r) = Inr e) rs es \<and>
      bundle_verify_from c i h es = Inr ()" for i h es
    by (rule Cons.IH) (use Cons.prems in simp)
  show ?case
  proof (cases "event_from_dict (dr_payload r)")
    case (Inr e)
    have v: "event_verify e = Inr ()"
      by (intro event_ok_verify event_from_dict_ok [OF Inr]) (use Cons.prems in simp)
    show ?thesis
    proof (cases es)
      case (Cons e' es')
      show ?thesis unfolding Cons using Inr v by (cases "e' = e") (auto simp: ih)
    qed simp
  qed (cases es; simp)
next
  case Nil
  then show ?case by (cases es) simp_all
qed

lemma bundle_verify_from_append:
  "bundle_verify_from c i h (xs @ ys) = Inr () \<longleftrightarrow> bundle_verify_from c i h xs = Inr () \<and>
     bundle_verify_from c (i + int (length xs)) (if xs = [] then h else events_head xs) ys = Inr ()"
proof (induction xs arbitrary: i h)
  case (Cons x xs)
  have "(if xs = [] then Some (le_event_id x) else events_head xs) = events_head (x # xs)"
    by (simp add: events_head_def)
  moreover have "i + 1 + int (length xs) = i + int (length (x # xs))" by simp
  ultimately have "bundle_verify_from c (i + 1) (Some (le_event_id x)) (xs @ ys) = Inr () \<longleftrightarrow>
      bundle_verify_from c (i + 1) (Some (le_event_id x)) xs = Inr () \<and>
      bundle_verify_from c (i + int (length (x # xs))) (events_head (x # xs)) ys = Inr ()"
    by (simp only: Cons.IH)
  then show ?case by (cases "event_verify x") simp_all
qed simp

lemma case_snapshot_Inr:
  "case_snapshot table c n = Inr (es, bh) \<longleftrightarrow> 1 \<le> n \<and> (\<exists>rs. durable_verify table = Inr rs \<and>
     int (length (case_matching c rs)) \<le> n \<and> decode_case_loop c 0 None (case_matching c rs) = Inr es \<and>
     bh = durable_head (case_matching c rs))"
proof -
  have "case_snapshot table c n = and_then (validate_limit n) (\<lambda>limit.
      and_then (enterprise_as_case ''durable backend verification failed'' (durable_verify table)) (\<lambda>verified.
      and_then (decode_case_records c (case_matching c verified) limit) (\<lambda>es.
      return (es, durable_head (case_matching c verified)))))"
    by (simp add: case_snapshot_def durable_head_def Let_def)
  moreover have "decode_case_records c rs n = Inr es \<longleftrightarrow>
      int (length rs) \<le> n \<and> decode_case_loop c 0 None rs = Inr es" for rs
    by (simp add: decode_case_records_def)
  ultimately show ?thesis by (auto simp del: decode_case_loop.simps)
qed

lemma ledger_case_events_Inr:
  "ledger_case_events table c n = Inr es \<longleftrightarrow> (\<exists>bh. case_snapshot table c n = Inr (es, bh))"
  by (auto simp: ledger_case_events_def)

text \<open>The events of another case depend on that case's records alone.\<close>

lemma ledger_case_events_cong:
  assumes "durable_verify table = Inr rs" "durable_verify table' = Inr rs'" "case_matching c rs' = case_matching c rs"
  shows "ledger_case_events table' c n = ledger_case_events table c n"
  using assms by (simp add: ledger_case_events_def case_snapshot_def)

text \<open>What a snapshot establishes.\<close>

lemma case_snapshot_sound:
  assumes "case_snapshot table c n = Inr (es, bh)"
  shows "bundle_verify_from c 0 None es = Inr ()" "\<forall>e \<in> set es. event_ok e" "int (length es) \<le> n"
proof -
  obtain rs where rs: "durable_verify table = Inr rs" "int (length (case_matching c rs)) \<le> n"
      "decode_case_loop c 0 None (case_matching c rs) = Inr es"
    using assms by (auto simp: case_snapshot_Inr)
  have wf: "\<forall>r \<in> set (case_matching c rs). wf_json (JObj (dr_payload r))"
    using rs(1) by (auto simp: durable_verify_Inr case_matching_def simp del: wf_json_simps dest: durable_records_wf)
  note d = rs(3) [unfolded decode_case_loop_Inr [OF wf]]
  show "bundle_verify_from c 0 None es = Inr ()" using d by blast
  show "\<forall>e \<in> set es. event_ok e" using d wf by (blast dest: list_all2_right intro: event_from_dict_ok)
  show "int (length es) \<le> n" using d rs(2) by (auto dest: list_all2_lengthD)
qed

text \<open>The backend's head of a stream, read by the query and from the verified records.\<close>

lemma find_rev: "find P (rev xs) = (if filter P xs = [] then None else Some (last (filter P xs)))"
  by (induction xs rule: rev_induct) auto

lemma select_stream_head_verified:
  assumes "durable_verify table = Inr rs"
  shows "(case select_stream_head table s of None \<Rightarrow> DURABLE_GENESIS | Some h \<Rightarrow> h) =
    durable_head (filter (\<lambda>r. dr_stream_id r = s) rs)"
proof -
  define ws where "ws = sort_key dw_sequence table"
  have "list_all2 (\<lambda>w r. durable_decode_row w = Inr r) ws rs"
    using assms by (simp add: durable_verify_Inr durable_records_def map_result_Inr_iff ws_def)
  then have "map dw_record_digest (filter (\<lambda>w. dw_stream_id w = s) ws) =
      map dr_record_digest (filter (\<lambda>r. dr_stream_id r = s) rs)"
    by (induction rule: list_all2_induct) (auto simp: durable_decode_row_Inr)
  moreover from this have "filter (\<lambda>w. dw_stream_id w = s) ws = [] \<longleftrightarrow> filter (\<lambda>r. dr_stream_id r = s) rs = []"
    by (metis map_is_Nil_conv)
  ultimately show ?thesis
    by (auto simp: select_stream_head_def durable_head_def find_rev simp flip: ws_def) (metis last_map map_is_Nil_conv)
qed

lemma verified_heads_sha:
  assumes "durable_verify table = Inr rs"
  shows "require_sha256 (durable_head (filter P rs)) n = Inr (durable_head (filter P rs))"
proof -
  have "is_sha256 (durable_head (filter P rs))"
  proof (cases "filter P rs = []")
    case True
    then show ?thesis by (simp add: durable_head_def DURABLE_GENESIS_def is_sha256_def is_hex_def list_all_iff hex_alphabet_def)
  next
    case False
    then have "last (filter P rs) \<in> set rs" using last_in_set [OF False] by simp
    then have "durable_sound (last (filter P rs))" using assms by (auto simp: durable_verify_Inr dest: linked_sound)
    then show ?thesis using False by (simp add: durable_head_def durable_sound_def)
  qed
  then show ?thesis by (simp add: require_sha256_Inr sha256_stripped)
qed

section \<open>Appending to a case\<close>

lemma normalize_case_event:
  "event_ok e \<Longrightarrow> normalize_value (PyDict (py_mapping (case_event_dict e))) = Inr (JObj (json_mapping (case_event_dict e)))"
  unfolding json_mapping_obj [symmetric] by (rule normalize_py_mapping [OF wf_event(1)])

lemma read_case_event:
  assumes "event_ok e" "json_mapping (case_event_dict e) = p"
  shows "event_from_dict p = Inr e"
proof -
  have "normal_json (JObj p)" using assms(2) normal_json_mapping [OF wf_event(1) [OF assms(1)]] by blast
  then have "same_json p (case_event_dict e)"
    using assms(2) wf_event(1) [OF assms(1)] json_mapping_obj [of "case_event_dict e"]
    by (simp add: same_json_def normal_json_def del: norm_json.simps)
  then show ?thesis by (rule event_roundtrip_ok [OF assms(1)])
qed

text \<open>What a batch of events does to the streams.\<close>

lemma case_batch_extends:
  assumes c: "is_identifier c" and v: "durable_verify table = Inr rs"
    and d: "decode_case_loop c 0 None (case_matching c rs) = Inr es"
    and ok: "\<forall>e \<in> set es'. event_ok e" and chain: "bundle_verify_from c 0 None (es @ es') = Inr ()"
    and app: "append_batch table (map (case_entry c) es') heads = (Inr inserted, table')"
  shows "length inserted = length es'" "durable_verify table' = Inr (rs @ inserted)"
    "case_matching c (rs @ inserted) = case_matching c rs @ inserted"
    "decode_case_loop c 0 None (case_matching c rs @ inserted) = Inr (es @ es')"
    "c' \<noteq> c \<Longrightarrow> case_matching c' (rs @ inserted) = case_matching c' rs"
proof -
  have out: "durable_verify table' = Inr (rs @ inserted)"
    "list_all2 (\<lambda>(s, t, p) d. dr_stream_id d = strip s \<and> dr_event_type d = strip t \<and>
         normalize_value (PyDict p) = return (JObj (dr_payload d))) (map (case_entry c) es') inserted"
    using append_batch_outcome [OF app] v by auto
  show "durable_verify table' = Inr (rs @ inserted)" by (rule out)
  have all: "list_all2 (\<lambda>e d. dr_stream_id d = case_stream c \<and> dr_event_type d = BACKEND_EVENT_TYPE \<and>
      normalize_value (PyDict (py_mapping (case_event_dict e))) = return (JObj (dr_payload d))) es' inserted"
    using out(2) by (simp add: list_all2_map1 case_entry_def strip_case_stream [OF c] strip_backend_type del: normalize_value.simps)
  then have streams: "\<forall>d \<in> set inserted. dr_stream_id d = case_stream c" by (blast dest: list_all2_right)
  show "length inserted = length es'" using all by (simp add: list_all2_lengthD)
  show "case_matching c (rs @ inserted) = case_matching c rs @ inserted"
    using streams by (simp add: case_matching_def)
  show "case_matching c' (rs @ inserted) = case_matching c' rs" if "c' \<noteq> c"
    using streams that by (auto simp: case_matching_def filter_empty_conv)
  have wf: "\<forall>r \<in> set (rs @ inserted). wf_json (JObj (dr_payload r))"
    using out(1) by (auto simp: durable_verify_Inr simp del: wf_json_simps dest: durable_records_wf)
  have "list_all2 (\<lambda>e r. dr_event_type r = BACKEND_EVENT_TYPE \<and> event_from_dict (dr_payload r) = Inr e) es' inserted"
    using all by (rule list.rel_mono_strong) (use ok in \<open>auto simp: normalize_case_event simp del: normalize_value.simps intro: read_case_event\<close>)
  then have new: "list_all2 (\<lambda>r e. dr_event_type r = BACKEND_EVENT_TYPE \<and> event_from_dict (dr_payload r) = Inr e) inserted es'"
    by (simp add: list_all2_conv_all_nth)
  have "\<forall>r \<in> set (case_matching c rs). wf_json (JObj (dr_payload r))"
    using wf by (auto simp: case_matching_def)
  then have old: "list_all2 (\<lambda>r e. dr_event_type r = BACKEND_EVENT_TYPE \<and> event_from_dict (dr_payload r) = Inr e)
      (case_matching c rs) es" using d by (simp add: decode_case_loop_Inr del: wf_json_simps)
  have "\<forall>r \<in> set (case_matching c rs @ inserted). wf_json (JObj (dr_payload r))"
    using wf by (auto simp: case_matching_def)
  then show "decode_case_loop c 0 None (case_matching c rs @ inserted) = Inr (es @ es')"
    using list_all2_appendI [OF old new] chain by (simp add: decode_case_loop_Inr del: wf_json_simps)
qed

text \<open>The same on snapshots; the backend's expected head is the one the snapshot gave.\<close>

lemma case_batch_snapshot:
  assumes c: "is_identifier c" and snap: "case_snapshot table c n = Inr (es, bh)"
    and ok: "\<forall>e \<in> set es'. event_ok e" and chain: "bundle_verify_from c 0 None (es @ es') = Inr ()"
    and app: "append_batch table (map (case_entry c) es') heads = (Inr inserted, table')"
    and limit: "int (length es + length es') \<le> n"
  shows "length inserted = length es'" "\<exists>bh'. case_snapshot table' c n = Inr (es @ es', bh')"
    "c' \<noteq> c \<Longrightarrow> ledger_case_events table' c' m = ledger_case_events table c' m"
proof -
  obtain rs where rs: "1 \<le> n" "durable_verify table = Inr rs" "int (length (case_matching c rs)) \<le> n"
      "decode_case_loop c 0 None (case_matching c rs) = Inr es"
    using snap by (auto simp: case_snapshot_Inr)
  note ext = case_batch_extends [OF c rs(2,4) ok chain app]
  show "length inserted = length es'" by (rule ext)
  have "\<forall>r \<in> set (case_matching c rs). wf_json (JObj (dr_payload r))"
    using rs(2) by (auto simp: durable_verify_Inr case_matching_def simp del: wf_json_simps dest: durable_records_wf)
  then have "length (case_matching c rs) = length es"
    using rs(4) by (auto simp: decode_case_loop_Inr simp del: wf_json_simps dest: list_all2_lengthD)
  then show "\<exists>bh'. case_snapshot table' c n = Inr (es @ es', bh')"
    using rs(1) ext limit by (simp add: case_snapshot_Inr)
  show "ledger_case_events table' c' m = ledger_case_events table c' m" if "c' \<noteq> c"
    using ext(5) [OF that] by (intro ledger_case_events_cong [OF rs(2) ext(2)])
qed

text \<open>A batch of events on the snapshot's head is accepted, unless two record bodies collide.\<close>

lemma case_batch_total:
  assumes c: "is_identifier c" and snap: "case_snapshot table c n = Inr (es, bh)" and "es' \<noteq> []"
    and ok: "\<forall>e \<in> set es'. event_ok e"
  shows "(\<exists>inserted table'. append_batch table (map (case_entry c) es') (Some [(case_stream c, bh)]) = (Inr inserted, table')) \<or>
    append_batch table (map (case_entry c) es') (Some [(case_stream c, bh)]) = (raise SqliteIntegrityError, table) \<and>
      (\<exists>r r'. dr_sequence r < dr_sequence r' \<and> durable_clash r r')"
proof -
  obtain rs where rs: "durable_verify table = Inr rs" "bh = durable_head (case_matching c rs)"
    using snap by (auto simp: case_snapshot_Inr)
  have sha: "require_sha256 bh m = Inr bh" for m
    unfolding rs(2) case_matching_def by (rule verified_heads_sha [OF rs(1)])
  have streams: "map (\<lambda>(s, t, p). strip s) (map (case_entry c) es') = replicate (length es') (case_stream c)"
    by (simp add: case_entry_def strip_case_stream [OF c] map_replicate_const [symmetric] comp_def)
  have expected: "prepare_expected (Some [(case_stream c, bh)]) (map (\<lambda>(s, t, p). strip s) (map (case_entry c) es')) =
      Inr (Some [(case_stream c, bh)])"
    unfolding streams using \<open>es' \<noteq> []\<close>
    by (simp add: prepare_expected_def strip_case_stream [OF c] sha dict_of_def set_replicate_conv_if)
  have heads: "check_heads table (Some [(case_stream c, bh)]) = Inr ()"
    using select_stream_head_verified [OF rs(1), of "case_stream c"] rs(2)
    by (simp add: check_heads_def case_matching_def split: option.splits)
  have "\<forall>(s, t, p) \<in> set (map (case_entry c) es'). strip s \<noteq> [] \<and> strip t \<noteq> [] \<and> (\<exists>j. normalize_value (PyDict p) = return j)"
    using ok by (auto simp: case_entry_def strip_case_stream [OF c] strip_backend_type normalize_case_event
        simp del: normalize_value.simps)
  from append_batch_total [OF rs(1) _ this expected heads] show ?thesis using \<open>es' \<noteq> []\<close> by auto
qed

section \<open>Outcomes\<close>

lemma runtime_address_Inr: "\<exists>a. runtime_address ri = Inr a \<and> address_ok a \<and> ca_digest a = runtime_identity_digest ri"
proof -
  have "is_sha256 (runtime_identity_digest ri)" by (simp add: runtime_identity_digest_def)
  then show ?thesis
    by (auto simp: runtime_address_def content_address_init_def require_sha256_Inr address_ok_def sha256_stripped)
qed

lemma address_init_ok: "content_address_init a = Inr a \<longleftrightarrow> address_ok a"
  by (cases a) (auto simp: content_address_init_Inr address_ok_def sha256_stripped)

lemma bundle_verify_from_snoc:
  assumes "bundle_verify_from c 0 None es = Inr ()" "event_ok e" "le_case_id e = c"
    and "le_case_sequence e = int (length es)" "le_previous e = events_head es"
  shows "bundle_verify_from c 0 None (es @ [e]) = Inr ()"
  using assms event_ok_verify [OF assms(2)] by (auto simp: bundle_verify_from_append events_head_def)

lemma events_head_ok: "\<forall>e \<in> set es. event_ok e \<Longrightarrow> \<forall>x. events_head es = Some x \<longrightarrow> address_ok x"
  by (auto simp: events_head_def event_ok_def split: if_splits)

lemma durable_append_entry:
  "durable_append table (case_stream c) BACKEND_EVENT_TYPE (py_mapping (case_event_dict e)) (Some bh) =
    (let (r, table') = append_batch table (map (case_entry c) [e]) (Some [(case_stream c, bh)])
     in (and_then r (\<lambda>inserted. return (hd inserted)), table'))"
  by (simp add: durable_append_def case_entry_def)

text \<open>The steps of \<^verbatim>\<open>append_event\<close> up to the write.\<close>

lemma case_append_event_steps:
  assumes args: "is_identifier c" "\<forall>i. obj = Some i \<longrightarrow> is_identifier i" "\<forall>a. rv = Some a \<longrightarrow> address_ok a"
    and snap: "case_snapshot table c n = Inr (es, bh)" and len: "int (length es) < n" and h: "events_head es = h"
    and rt: "runtime_address ri = Inr a" and e: "event_build c (int (length es)) t a payload h obj rv = Inr e"
    and rvo: "rv \<noteq> None \<longrightarrow> obj \<noteq> None"
    and app: "append_batch table (map (case_entry c) [e]) (Some [(case_stream c, bh)]) = (b, table')"
  shows "case_append_event table c t ri payload h obj rv n =
    (and_then (enterprise_as_case ''canonical case append lost exact backend head'' (and_then b (\<lambda>i. return (hd i)))) (\<lambda>_. return e), table')"
    "event_ok e" "bundle_verify_from c 0 None (es @ [e]) = Inr ()"
    "normalize_value (PyDict payload) = Inr (JObj (le_payload e))" "le_event_type e = t" "le_runtime e = a"
    "le_object_id e = obj" "le_revision_id e = rv" "le_case_id e = c" "le_previous e = h"
proof -
  note sound = case_snapshot_sound [OF snap]
  have "address_ok a" using rt runtime_address_Inr [of ri] by auto
  note b = event_build_ok [OF e args(1) this events_head_ok [OF sound(2), unfolded h] args(2,3)]
  show ok: "event_ok e" and "normalize_value (PyDict payload) = Inr (JObj (le_payload e))" "le_event_type e = t"
    "le_runtime e = a" "le_object_id e = obj" "le_revision_id e = rv" "le_case_id e = c" "le_previous e = h" by (rule b)+
  show chain: "bundle_verify_from c 0 None (es @ [e]) = Inr ()"
    by (rule bundle_verify_from_snoc [OF sound(1) ok]) (simp_all add: b h)
  have n: "1 \<le> n" using snap by (simp add: case_snapshot_Inr)
  show "case_append_event table c t ri payload h obj rv n =
    (and_then (enterprise_as_case ''canonical case append lost exact backend head'' (and_then b (\<lambda>i. return (hd i)))) (\<lambda>_. return e), table')"
  proof (cases b)
    case (Inr inserted)
    obtain bh' where "case_snapshot table' c n = Inr (es @ [e], bh')"
      using case_batch_snapshot(2) [OF args(1) snap _ chain app [unfolded Inr]] ok len by auto
    then show ?thesis using snap len h rt e rvo n app Inr
      by (cases rv; cases obj) (simp_all add: case_append_event_def durable_append_entry validate_limit_def Let_def)
  next
    case (Inl x)
    then have "table' = table" using append_batch_outcome [OF app] by auto
    then show ?thesis using snap len h rt e rvo n app Inl
      by (cases "enterprise_as_case ''canonical case append lost exact backend head'' (Inl x :: durable_record result)")
        (auto simp add: case_append_event_def durable_append_entry validate_limit_def Let_def)
  qed
qed

subsection \<open>Exports\<close>

lemma bundle_ok_verify:
  assumes "bundle_ok b"
  shows "bundle_verify b = Inr ()" "bundle_verify_from (cb_case_id b) 0 None (cb_events b) = Inr ()"
    "bundle_build (cb_case_id b) (cb_events b) = Inr b" "\<forall>e \<in> set (cb_events b). event_ok e" "is_identifier (cb_case_id b)"
proof -
  have i: "bundle_init b = Inr b" using assms by (subst bundle_init_Inr) (auto simp: bundle_ok_def)
  show v: "bundle_verify b = Inr ()" using i by (auto simp: bundle_init_def split: if_splits)
  then show "bundle_verify_from (cb_case_id b) 0 None (cb_events b) = Inr ()" by (auto simp: bundle_verify_def)
  have "\<lparr>cb_case_id = cb_case_id b, cb_events = cb_events b,
       cb_digest = address_for_value (JObj (bundle_body (cb_case_id b) (cb_events b))),
       cb_profile = LUKART_JSON_V1, cb_schema = LEDGER_BUNDLE_SCHEMA_V1\<rparr> = b"
    using assms profile_one [of "cb_profile b"] by (intro case_bundle.equality) (simp_all add: bundle_ok_def)
  then show "bundle_build (cb_case_id b) (cb_events b) = Inr b" using i by (simp add: bundle_build_def)
  show "\<forall>e \<in> set (cb_events b). event_ok e" "is_identifier (cb_case_id b)" using assms by (simp_all add: bundle_ok_def)
qed

lemma bundle_build_snapshot:
  assumes "is_identifier c" "case_snapshot table c n = Inr (es, bh)"
  shows "\<exists>b. bundle_build c es = Inr b \<and> bundle_ok b \<and> cb_case_id b = c \<and> cb_events b = es"
proof -
  note s = case_snapshot_sound [OF assms(2)]
  define b where "b = \<lparr>cb_case_id = c, cb_events = es, cb_digest = address_for_value (JObj (bundle_body c es)),
       cb_profile = LUKART_JSON_V1, cb_schema = LEDGER_BUNDLE_SCHEMA_V1\<rparr>"
  have i: "bundle_init b = Inr b" using s by (simp add: b_def bundle_init_def bundle_verify_def)
  then have "bundle_ok b" using assms(1) s(2) bundle_init_Inr [of b b] by (simp add: b_def)
  then show ?thesis using i by (auto simp: bundle_build_def b_def)
qed

lemma export_case_Inr:
  assumes "is_identifier c"
  shows "export_case table c n = Inr b \<longleftrightarrow>
    bundle_ok b \<and> cb_case_id b = c \<and> (\<exists>bh. case_snapshot table c n = Inr (cb_events b, bh))"
  using bundle_build_snapshot [OF assms] bundle_ok_verify(3)
  by (auto simp: export_case_def ledger_case_events_Inr) fastforce+

lemma bundle_from_dict_events:
  "bundle_from_dict d = Inr b \<Longrightarrow> \<exists>js. dict_get d ''events'' = JList js \<and> length js = length (cb_events b)"
  by (auto simp: bundle_from_dict_def bundle_init_def map_result_Inr_iff dest: list_all2_lengthD
      split: json.splits if_splits)

lemma verified_export_sound:
  assumes "verified_export v m = Inr b" "wf_json (JObj v)"
  shows "bundle_ok b" "\<forall>k. m = Some k \<longrightarrow> int (length (cb_events b)) \<le> k"
proof -
  have b: "bundle_from_dict v = Inr b" using assms(1)
    by (auto simp: verified_export_def split: json.splits if_splits)
  then show "bundle_ok b" by (rule bundle_from_dict_ok [OF _ assms(2)])
  obtain js where "dict_get v ''events'' = JList js" "length js = length (cb_events b)"
    using bundle_from_dict_events [OF b] by blast
  then show "\<forall>k. m = Some k \<longrightarrow> int (length (cb_events b)) \<le> k"
    using assms(1) by (auto simp: verified_export_def split: if_splits)
qed

lemma verified_export_of:
  assumes "bundle_ok b" "same_json d (bundle_dict b)" "\<forall>k. m = Some k \<longrightarrow> int (length (cb_events b)) \<le> k"
  shows "verified_export d m = Inr b"
proof -
  have b: "bundle_from_dict d = Inr b" by (rule bundle_roundtrip_ok [OF assms(1,2)])
  obtain js where js: "dict_get d ''events'' = JList js" "length js = length (cb_events b)"
    using bundle_from_dict_events [OF b] by blast
  have "canonical_json (JObj d) = canonical_json (JObj (bundle_dict b))"
    using assms(2) by (simp add: same_json_def canonical_json_def)
  then show ?thesis using b js assms(3) by (cases m) (simp_all add: verified_export_def)
qed

subsection \<open>Restoring\<close>

lemma restore_events_outcome:
  assumes b: "bundle_ok b" and snap: "case_snapshot table (cb_case_id b) n = Inr ([], bh)"
    and limit: "int (length (cb_events b)) \<le> n"
    and app: "restore_events table (cb_case_id b) (cb_events b) bh = (r, table')"
  shows "r = raise_cl ''canonical case restore transaction failed'' \<and> table' = table \<and>
      (\<exists>d d'. dr_sequence d < dr_sequence d' \<and> durable_clash d d') \<or>
    r = return () \<and> (\<exists>bh'. case_snapshot table' (cb_case_id b) n = Inr (cb_events b, bh')) \<and>
      (\<forall>c' m. c' \<noteq> cb_case_id b \<longrightarrow> ledger_case_events table' c' m = ledger_case_events table c' m)"
proof (cases "cb_events b = []")
  case False
  note ok = bundle_ok_verify [OF b]
  from case_batch_total [OF ok(5) snap False ok(4)] show ?thesis
  proof
    assume "\<exists>inserted t. append_batch table (map (case_entry (cb_case_id b)) (cb_events b)) (Some [(case_stream (cb_case_id b), bh)]) =
      (Inr inserted, t)"
    then obtain inserted t where i: "append_batch table (map (case_entry (cb_case_id b)) (cb_events b))
        (Some [(case_stream (cb_case_id b), bh)]) = (Inr inserted, t)" by blast
    note s = case_batch_snapshot [OF ok(5) snap ok(4) _ i]
    have "length inserted = length (cb_events b)" "\<exists>bh'. case_snapshot t (cb_case_id b) n = Inr (cb_events b, bh')"
      "\<And>c' m. c' \<noteq> cb_case_id b \<Longrightarrow> ledger_case_events t c' m = ledger_case_events table c' m"
      using s ok(2) limit by simp_all
    moreover from this have "r = return ()" "table' = t"
      using app False i by (simp_all add: restore_events_def any_as_case_def)
    ultimately show ?thesis by blast
  next
    assume "append_batch table (map (case_entry (cb_case_id b)) (cb_events b)) (Some [(case_stream (cb_case_id b), bh)]) =
      (raise SqliteIntegrityError, table) \<and> (\<exists>r r'. dr_sequence r < dr_sequence r' \<and> durable_clash r r')"
    then show ?thesis using app False by (auto simp: restore_events_def any_as_case_def)
  qed
qed (use app snap in \<open>auto simp: restore_events_def\<close>)

lemma restore_case_steps:
  assumes v: "verified_export v (Some n) = Inr b" "wf_json (JObj v)"
    and snap: "case_snapshot table (cb_case_id b) n = Inr ([], bh)"
    and app: "restore_events table (cb_case_id b) (cb_events b) bh = (r, table')"
  shows "restore_case table (cb_case_id b) v n = (and_then r (\<lambda>_. return b), table')"
proof -
  note b = verified_export_sound [OF v]
  have n: "1 \<le> n" using snap by (simp add: case_snapshot_Inr)
  have limit: "int (length (cb_events b)) \<le> n" using b(2) by simp
  from restore_events_outcome [OF b(1) snap limit app] show ?thesis
  proof
    assume "r = return () \<and> (\<exists>bh'. case_snapshot table' (cb_case_id b) n = Inr (cb_events b, bh')) \<and>
      (\<forall>c' m. c' \<noteq> cb_case_id b \<longrightarrow> ledger_case_events table' c' m = ledger_case_events table c' m)"
    then have "r = return ()" "export_case table' (cb_case_id b) n = Inr b"
      using export_case_Inr [OF bundle_ok_verify(5) [OF b(1)]] b(1) by blast+
    then show ?thesis using v(1) snap app n by (simp add: restore_case_def validate_limit_def Let_def)
  qed (use v(1) snap app n in \<open>simp add: restore_case_def validate_limit_def Let_def\<close>)
qed

subsection \<open>Appending\<close>

lemma case_append_outcome:
  assumes "case_id_init c = return c" and "\<forall>i. obj = Some i \<longrightarrow> object_id_init i = return i"
    and "\<forall>a. rv = Some a \<longrightarrow> content_address_init a = return a"
    and "case_append_event table c t ri payload h obj rv n = (r, table')"
  shows "(\<exists>x. r = raise x \<and> table' = table) \<or>
    (\<exists>es e. r = return e \<and> ledger_case_events table c n = return es \<and> events_head es = h \<and>
       ledger_case_events table' c n = return (es @ [e]) \<and> le_event_type e = t \<and>
       normalize_value (PyDict payload) = return (JObj (le_payload e)) \<and>
       ca_digest (le_runtime e) = runtime_identity_digest ri \<and> le_previous e = h \<and> le_object_id e = obj \<and> le_revision_id e = rv \<and>
       (\<forall>c' m. c' \<noteq> c \<longrightarrow> ledger_case_events table' c' m = ledger_case_events table c' m))"
proof (cases "\<exists>x. r = raise x \<and> table' = table")
  case False
  then have kept: "\<not> (raise x = r \<and> table = table')" for x by auto
  note run = assms(4) [unfolded case_append_event_def Let_def validate_limit_def]
  obtain p where snap: "case_snapshot table c n = Inr p"
    using kept run by (cases "case_snapshot table c n") (auto split: if_splits)
  obtain es bh where p: "p = (es, bh)" by (cases p)
  have h: "events_head es = h" and len: "int (length es) < n" and rvo: "rv \<noteq> None \<longrightarrow> obj \<noteq> None"
    by (rule ccontr, use kept run snap p in \<open>auto split: if_splits\<close>)+
  obtain a where a: "runtime_address ri = Inr a" "ca_digest a = runtime_identity_digest ri"
    using runtime_address_Inr by blast
  obtain e where e: "event_build c (int (length es)) t a payload h obj rv = Inr e"
    using kept run snap p h a
    by (cases "event_build c (int (length es)) t a payload h obj rv") (auto split: if_splits)
  obtain b t1 where app: "append_batch table (map (case_entry c) [e]) (Some [(case_stream c, bh)]) = (b, t1)"
    by fastforce
  have args: "is_identifier c" "\<forall>i. obj = Some i \<longrightarrow> is_identifier i" "\<forall>a. rv = Some a \<longrightarrow> address_ok a"
    using assms by (simp_all add: object_id_ok address_init_ok)
  note s = case_append_event_steps [OF args snap [unfolded p] len h a(1) e rvo app]
  have rt: "r = and_then (enterprise_as_case ''canonical case append lost exact backend head'' (and_then b (\<lambda>i. return (hd i))))
      (\<lambda>_. return e)" "table' = t1" using assms(4) s(1) by auto
  obtain inserted where b: "b = Inr inserted"
  proof (cases b)
    case (Inl x)
    then have "table' = table" using append_batch_outcome [OF app] rt(2) by auto
    moreover obtain y where "enterprise_as_case ''canonical case append lost exact backend head''
        (Inl x :: durable_record result) = Inl y"
      by (cases "enterprise_as_case ''canonical case append lost exact backend head'' (Inl x :: durable_record result)") auto
    ultimately show ?thesis using kept rt(1) Inl by auto
  qed
  then have r: "r = return e" using rt(1) by simp
  note x = case_batch_snapshot [OF args(1) snap [unfolded p] _ _ app [unfolded b]]
  have "\<forall>e \<in> set [e]. event_ok e" using s(2) by simp
  note x = x [OF this s(3)]
  show ?thesis using r x len snap p h s a rt(2)
    by (intro disjI2 exI [of _ es] exI [of _ e]) (auto simp: ledger_case_events_Inr simp del: normalize_value.simps)
qed blast

section \<open>Properties\<close>

text \<open>C20: A case history only grows at its head. Whatever the table, appending an event either raises and
  leaves the table untouched, or the case read back as some history whose head is the head the caller
  expected, reads back afterwards as that history followed by the one new event, with the given type,
  payload, runtime identity and revision; and every other case reads exactly as before, errors included.\<close>

theorem case_append_all_or_nothing:
  assumes "case_id_init c = return c" and "\<forall>i. obj = Some i \<longrightarrow> object_id_init i = return i"
    and "\<forall>a. rv = Some a \<longrightarrow> content_address_init a = return a"
    and "case_append_event table c t ri payload h obj rv n = (r, table')"
  shows "(\<exists>x. r = raise x \<and> table' = table) \<or>
    (\<exists>es e. r = return e \<and> ledger_case_events table c n = return es \<and> events_head es = h \<and>
       ledger_case_events table' c n = return (es @ [e]) \<and> le_event_type e = t \<and>
       normalize_value (PyDict payload) = return (JObj (le_payload e)) \<and>
       ca_digest (le_runtime e) = runtime_identity_digest ri \<and> le_object_id e = obj \<and> le_revision_id e = rv \<and>
       (\<forall>c' m. c' \<noteq> c \<longrightarrow> ledger_case_events table' c' m = ledger_case_events table c' m))"
  using case_append_outcome [OF assms] by blast

text \<open>Appending goes through. When the case reads back with room for another event and the caller's
  expected head is its head, an event with a canonical type and payload is appended; the only other
  outcome is a refusal by the backend's unique digest, and then a SHA-256 collision is exhibited.\<close>

theorem case_append_succeeds:
  assumes "case_id_init c = return c" and "\<forall>i. obj = Some i \<longrightarrow> object_id_init i = return i"
    and "\<forall>a. rv = Some a \<longrightarrow> content_address_init a = return a" and "rv \<noteq> None \<longrightarrow> obj \<noteq> None"
    and "ledger_case_events table c n = return es" and "int (length es) < n"
    and "require_exact_identifier t ''event_type'' = return t"
    and "canonical_mapping payload ''ledger event payload'' = return copied"
  shows "(\<exists>e table'. case_append_event table c t ri payload (events_head es) obj rv n = (return e, table')) \<or>
    case_append_event table c t ri payload (events_head es) obj rv n = (raise SqliteIntegrityError, table) \<and>
      (\<exists>d d'. dr_sequence d < dr_sequence d' \<and> durable_clash d d')"
proof -
  have args: "is_identifier c" "\<forall>i. obj = Some i \<longrightarrow> is_identifier i" "\<forall>a. rv = Some a \<longrightarrow> address_ok a"
    using assms by (simp_all add: object_id_ok address_init_ok)
  obtain bh where snap: "case_snapshot table c n = Inr (es, bh)" using assms(5) by (auto simp: ledger_case_events_Inr)
  obtain a where a: "runtime_address ri = Inr a" using runtime_address_Inr by blast
  have head: "int (length es) = 0 \<longleftrightarrow> events_head es = None" by (simp add: events_head_def)
  obtain e where e: "event_build c (int (length es)) t a payload (events_head es) obj rv = Inr e"
    using event_build_total [OF assms(8,7) _ head, of c a obj rv] by auto
  have ok: "\<forall>e' \<in> set [e]. event_ok e'"
    using event_build_ok(1) [OF e args(1) _ events_head_ok args(2,3)] runtime_address_Inr [of ri] a
      case_snapshot_sound(2) [OF snap] by auto
  from case_batch_total [OF args(1) snap _ ok] show ?thesis
    using case_append_event_steps(1) [OF args snap assms(6) refl a e assms(4)] by fastforce
qed

text \<open>An exported history stands on its own: the bundle exported for a case holds exactly the
  events of the case, and its canonical text, read without the database, verifies to that bundle.\<close>

theorem case_export_verifies:
  assumes "case_id_init c = return c" and "ledger_case_events table c n = return es"
  shows "\<exists>b d. export_case table c n = return b \<and> cb_case_id b = c \<and> cb_events b = es \<and>
    loads (canonical_json (JObj (bundle_dict b))) = Some (JObj d) \<and> verify_export d = return b"
proof -
  have c: "is_identifier c" using assms(1) by (simp add: object_id_ok)
  obtain bh where snap: "case_snapshot table c n = Inr (es, bh)" using assms(2) by (auto simp: ledger_case_events_Inr)
  obtain b where b: "bundle_ok b" "cb_case_id b = c" "cb_events b = es"
    using bundle_build_snapshot [OF c snap] by blast
  obtain d where d: "loads (canonical_json (JObj (bundle_dict b))) = Some (JObj d)" "same_json d (bundle_dict b)"
    using same_json_text [OF wf_bundle(1) [OF b(1)]] by blast
  have "export_case table c n = Inr b" using b snap by (auto simp: export_case_Inr [OF c])
  moreover have "verify_export d = Inr b" using verified_export_of [OF b(1) d(2)] by (simp add: verify_export_def)
  ultimately show ?thesis using b d by blast
qed

text \<open>C26: A restore reproduces the history. The text of a bundle exported from one ledger is accepted by
  any other whose stream for that case is empty, and then that ledger exports the same bundle and every
  other case in it reads as before; the only other outcome is a failed transaction that changed nothing,
  and then a SHA-256 collision of two backend records is exhibited.\<close>

theorem case_restore_roundtrip:
  assumes "case_id_init c = return c" and "export_case source c n = return b"
    and "ledger_case_events target c n = return []"
    and "loads (canonical_json (JObj (bundle_dict b))) = Some (JObj d)"
  shows "(\<exists>target'. restore_case target c d n = (return b, target') \<and> export_case target' c n = return b \<and>
      (\<forall>c' m. c' \<noteq> c \<longrightarrow> ledger_case_events target' c' m = ledger_case_events target c' m)) \<or>
    restore_case target c d n = (raise_cl ''canonical case restore transaction failed'', target) \<and>
      (\<exists>r r'. dr_sequence r < dr_sequence r' \<and> durable_clash r r')"
proof -
  have c: "is_identifier c" using assms(1) by (simp add: object_id_ok)
  obtain bh0 where b: "bundle_ok b" "cb_case_id b = c" "case_snapshot source c n = Inr (cb_events b, bh0)"
    using assms(2) by (auto simp: export_case_Inr [OF c])
  have limit: "int (length (cb_events b)) \<le> n" using case_snapshot_sound(3) [OF b(3)] .
  have d: "same_json d (bundle_dict b)" using same_json_text [OF wf_bundle(1) [OF b(1)]] assms(4) by auto
  have v: "verified_export d (Some n) = Inr b" using verified_export_of [OF b(1) d] limit by simp
  have wf: "wf_json (JObj d)" using d by (simp add: same_json_def)
  obtain bh where snap: "case_snapshot target (cb_case_id b) n = Inr ([], bh)"
    using assms(3) b(2) by (auto simp: ledger_case_events_Inr)
  obtain r t where app: "restore_events target (cb_case_id b) (cb_events b) bh = (r, t)" by fastforce
  show ?thesis using restore_events_outcome [OF b(1) snap limit app] restore_case_steps [OF v wf snap app] b
    by (auto simp: export_case_Inr [OF c])
qed

text \<open>A restore never overwrites and never half-finishes. On any table and any JSON, restoring a case
  either raises and leaves the table untouched, or the case was empty before, the bundle is one that
  verifies offline for this case, the case now holds exactly its events, and every other case reads as
  before.\<close>

theorem case_restore_all_or_nothing:
  assumes "wf_json (JObj v)" and "restore_case table c v n = (r, table')"
  shows "(\<exists>x. r = raise x \<and> table' = table) \<or>
    (\<exists>b. r = return b \<and> verify_export v = return b \<and> cb_case_id b = c \<and>
       ledger_case_events table c n = return [] \<and> ledger_case_events table' c n = return (cb_events b) \<and>
       (\<forall>c' m. c' \<noteq> c \<longrightarrow> ledger_case_events table' c' m = ledger_case_events table c' m))"
proof (cases "\<exists>x. r = raise x \<and> table' = table")
  case False
  then have kept: "\<not> (raise x = r \<and> table = table')" for x by auto
  note run = assms(2) [unfolded restore_case_def validate_limit_def]
  obtain b where v: "verified_export v (Some n) = Inr b"
  proof (cases "verified_export v (Some n)")
    case (Inl x)
    then show ?thesis using kept run by (auto split: if_splits)
  qed
  have c: "cb_case_id b = c" by (rule ccontr) (use kept run v in \<open>auto split: if_splits\<close>)
  obtain p where snap: "case_snapshot table c n = Inr p"
    using kept run v c by (cases "case_snapshot table c n") (auto split: if_splits)
  obtain es bh where p: "p = (es, bh)" by (cases p)
  have es: "es = []" by (rule ccontr) (use kept run v c snap p in \<open>auto split: if_splits\<close>)
  obtain q t where app: "restore_events table (cb_case_id b) (cb_events b) bh = (q, t)" by fastforce
  have snap': "case_snapshot table (cb_case_id b) n = Inr ([], bh)" using snap p es c by simp
  note s = verified_export_sound [OF v assms(1)]
  have limit: "int (length (cb_events b)) \<le> n" using s(2) by simp
  have "r = and_then q (\<lambda>_. return b) \<and> table' = t"
    using restore_case_steps [OF v assms(1) snap' app] assms(2) c by simp
  moreover have "verify_export v = return b"
    using v by (auto simp: verify_export_def verified_export_def split: json.splits if_splits)
  ultimately show ?thesis using restore_events_outcome [OF s(1) snap' limit app] False c snap p es
    by (auto simp: ledger_case_events_Inr)
qed blast

section \<open>Witnesses\<close>

lemma sample_events: "ledger_case_events [] ''c'' 5 = Inr []"
  by (simp add: ledger_case_events_def case_snapshot_def durable_empty validate_limit_def case_matching_def decode_case_records_def)

lemma case_append_all_or_nothing_witness:
  "\<exists>r table'. case_append_event [] ''c'' ''t'' sample_identity [] None None None 5 = (r, table') \<and>
    ((\<exists>x. r = raise x \<and> table' = []) \<or> (\<exists>e. r = return e \<and> ledger_case_events table' ''c'' 5 = return [e]))"
proof -
  obtain r table' where a: "case_append_event [] ''c'' ''t'' sample_identity [] None None None 5 = (r, table')" by fastforce
  show ?thesis using case_append_all_or_nothing [OF sample_names(1) _ _ a] a sample_events by auto
qed

lemma case_append_succeeds_witness:
  "(\<exists>e table'. case_append_event [] ''c'' ''t'' sample_identity [] None None None 5 = (return e, table')) \<or>
    (\<exists>d d'. dr_sequence d < dr_sequence d' \<and> durable_clash d d')"
  using case_append_succeeds [OF sample_names(1) _ _ _ sample_events _ sample_names(3) sample_mapping,
      of None None sample_identity]
  by (auto simp: events_head_def)

lemma case_export_verifies_witness:
  "\<exists>b d. export_case [] ''c'' 5 = return b \<and> verify_export d = return b"
  using case_export_verifies [OF sample_names(1) sample_events] by blast

lemma sample_export: "\<exists>b d. export_case [] ''c'' 5 = return b \<and> wf_json (JObj d) \<and>
    loads (canonical_json (JObj (bundle_dict b))) = Some (JObj d)"
proof -
  obtain bh where "case_snapshot [] ''c'' 5 = Inr ([], bh)" using sample_events by (auto simp: ledger_case_events_Inr)
  then obtain b where "export_case [] ''c'' 5 = Inr b" "bundle_ok b"
    using bundle_build_snapshot [OF sample_identifiers(1)] sample_events by (fastforce simp: export_case_def)
  moreover from this(2) obtain d where "loads (canonical_json (JObj (bundle_dict b))) = Some (JObj d)" "same_json d (bundle_dict b)"
    using same_json_text [OF wf_bundle(1)] by blast
  ultimately show ?thesis by (auto simp: same_json_def simp del: wf_json_simps)
qed

lemma case_restore_roundtrip_witness:
  "\<exists>b d. export_case [] ''c'' 5 = return b \<and>
    ((\<exists>target'. restore_case [] ''c'' d 5 = (return b, target') \<and> export_case target' ''c'' 5 = return b) \<or>
     (\<exists>r r'. dr_sequence r < dr_sequence r' \<and> durable_clash r r'))"
proof -
  obtain b d where b: "export_case [] ''c'' 5 = Inr b" "loads (canonical_json (JObj (bundle_dict b))) = Some (JObj d)"
    using sample_export by blast
  from case_restore_roundtrip [OF sample_names(1) b(1) sample_events b(2)] show ?thesis using b(1) by blast
qed

lemma case_restore_all_or_nothing_witness:
  "\<exists>d r table'. restore_case [] ''c'' d 5 = (r, table') \<and>
    ((\<exists>x. r = raise x \<and> table' = []) \<or> (\<exists>b. r = return b \<and> verify_export d = return b))"
proof -
  obtain d where d: "wf_json (JObj d)" using sample_export by blast
  obtain r table' where a: "restore_case [] ''c'' d 5 = (r, table')" by fastforce
  show ?thesis using case_restore_all_or_nothing [OF d a] a by (intro exI [of _ d] exI [of _ r] exI [of _ table']) blast
qed

end
