(* ===== verification/Durable_Action.thy ===== *)
theory Durable_Action
  imports External_Action Case_Ledger
begin

text \<open>
  The durable coordinator of external actions, \<^verbatim>\<open>core/durable_external_action_v1.py\<close>. Its only state is the
  provenance table; the record of an action is recomputed from its stream by every operation. Other
  processes may write between two accesses of an operation: \<open>others n\<close> is what they did before its
  access number \<open>n\<close>, and \<open>alone\<close> when nobody else writes. The clock and the provider are arguments.
\<close>

section \<open>Reading values\<close>

definition DURABLE_EXTERNAL_ACTION_SCHEMA_V1 :: string where
  "DURABLE_EXTERNAL_ACTION_SCHEMA_V1 = ''lukart.durable-external-action.v1''"

definition EV_RESERVED :: string where "EV_RESERVED = ''external-action.reserved.v1''"
definition EV_DISPATCHED :: string where "EV_DISPATCHED = ''external-action.dispatched.v1''"
definition EV_PRE_EFFECT_FAILED :: string where "EV_PRE_EFFECT_FAILED = ''external-action.pre-effect-failed.v1''"
definition EV_OUTCOME_UNKNOWN :: string where "EV_OUTCOME_UNKNOWN = ''external-action.outcome-unknown.v1''"
definition EV_CONFIRMED_SUCCESS :: string where "EV_CONFIRMED_SUCCESS = ''external-action.confirmed-success.v1''"
definition EV_CONFIRMED_NO_EFFECT :: string where "EV_CONFIRMED_NO_EFFECT = ''external-action.confirmed-no-effect.v1''"
definition EV_RECEIPT_RECOVERED :: string where "EV_RECEIPT_RECOVERED = ''external-action.receipt-recovered.v1''"

definition MAX_TRANSITIONS :: nat where "MAX_TRANSITIONS = 1000"

lemmas event_names = EV_RESERVED_def EV_DISPATCHED_def EV_PRE_EFFECT_FAILED_def EV_OUTCOME_UNKNOWN_def
  EV_CONFIRMED_SUCCESS_def EV_CONFIRMED_NO_EFFECT_def EV_RECEIPT_RECOVERED_def

definition text_value :: "string \<Rightarrow> string \<Rightarrow> string result" where
  "text_value s field_name =
     (if s = [] \<or> s \<noteq> strip s then raise_cph (field_name @ '' must be nonblank and already canonical'') else return s)"

definition action_text :: "json \<Rightarrow> string \<Rightarrow> string result" where
  "action_text v field_name =
     (case v of JStr s \<Rightarrow> text_value s field_name
      | _ \<Rightarrow> raise_cph (field_name @ '' must be nonblank and already canonical''))"

definition action_mapping :: "json \<Rightarrow> string \<Rightarrow> (string \<times> json) list result" where
  "action_mapping v field_name =
     (case v of JObj d \<Rightarrow> return d | _ \<Rightarrow> raise_cph (field_name @ '' must be a mapping''))"

definition action_datetime :: "json \<Rightarrow> string \<Rightarrow> py_datetime result" where
  "action_datetime v field_name =
     and_then (action_text v field_name) (\<lambda>raw.
     case fromisoformat raw of
       None \<Rightarrow> raise_cph (field_name @ '' must be ISO-8601'')
     | Some t \<Rightarrow> if is_aware t then return t else raise_cph (field_name @ '' must be timezone-aware''))"

text \<open>Every exception of the constructor is a \<^verbatim>\<open>ValueError\<close>.\<close>

definition action_address :: "json \<Rightarrow> string \<Rightarrow> content_address result" where
  "action_address v field_name =
     (case and_then (action_mapping v field_name) address_from_dict of
        Inl _ \<Rightarrow> raise_cph (''invalid '' @ field_name) | Inr a \<Rightarrow> return a)"

text \<open>\<^verbatim>\<open>None if raw is None else f(raw)\<close>.\<close>

definition unless_null :: "(json \<Rightarrow> 'a result) \<Rightarrow> json \<Rightarrow> 'a option result" where
  "unless_null f v = (case v of JNull \<Rightarrow> return None | _ \<Rightarrow> and_then (f v) (\<lambda>x. return (Some x)))"

definition identity_from_dict :: "(string \<times> json) list \<Rightarrow> action_identity result" where
  "identity_from_dict value =
     and_then (action_text (dict_get value ''schema'') ''external action identity schema'') (\<lambda>schema.
     and_then (and_then (action_text (dict_get value ''case_id'') ''case_id'') case_id_init) (\<lambda>case_id.
     and_then (and_then (action_text (dict_get value ''artifact_id'') ''artifact_id'') object_id_init) (\<lambda>artifact_id.
     and_then (action_text (dict_get value ''artifact_version'') ''artifact_version'') (\<lambda>artifact_version.
     and_then (action_address (dict_get value ''artifact_digest'') ''artifact_digest'') (\<lambda>artifact_digest.
     and_then (action_text (dict_get value ''logical_action_id'') ''logical_action_id'') (\<lambda>logical_action_id.
     and_then (action_text (dict_get value ''action_type'') ''action_type'') (\<lambda>action_type.
     and_then (action_text (dict_get value ''channel'') ''channel'') (\<lambda>channel.
     and_then (unless_null (\<lambda>v. action_address v ''payload_digest'') (dict_get value ''payload_digest'')) (\<lambda>payload_digest.
     action_identity_init \<lparr>ai_case_id = case_id, ai_artifact_id = artifact_id, ai_artifact_version = artifact_version,
       ai_artifact_digest = artifact_digest, ai_logical_action_id = logical_action_id, ai_action_type = action_type,
       ai_channel = channel, ai_payload_digest = payload_digest, ai_schema = schema\<rparr>)))))))))"

definition outcome_from_json :: "json \<Rightarrow> receipt_outcome result" where
  "outcome_from_json v =
     (case action_text v ''receipt outcome'' of
        Inl _ \<Rightarrow> raise_cph ''unsupported receipt outcome''
      | Inr s \<Rightarrow>
          (case find (\<lambda>q. outcome_value q = s) [RO_CONFIRMED_SUCCESS, RO_CONFIRMED_NO_EFFECT, RO_UNKNOWN, RO_AMBIGUOUS] of
             None \<Rightarrow> raise_cph ''unsupported receipt outcome'' | Some q \<Rightarrow> return q))"

definition receipt_from_dict :: "(string \<times> json) list \<Rightarrow> action_receipt result" where
  "receipt_from_dict value =
     and_then (outcome_from_json (dict_get value ''outcome'')) (\<lambda>outcome.
     and_then (action_text (dict_get value ''receipt_id'') ''receipt_id'') (\<lambda>receipt_id.
     and_then (action_address (dict_get value ''identity_digest'') ''receipt identity_digest'') (\<lambda>identity.
     and_then (action_text (dict_get value ''attempt_id'') ''receipt attempt_id'') (\<lambda>attempt_id.
     and_then (action_text (dict_get value ''evidence_ref'') ''receipt evidence_ref'') (\<lambda>evidence_ref.
     and_then (unless_null (\<lambda>v. action_text v ''provider_reference'') (dict_get value ''provider_reference''))
       (\<lambda>provider_reference.
     and_then (unless_null (\<lambda>v. action_datetime v ''receipt external_timestamp'') (dict_get value ''external_timestamp''))
       (\<lambda>external_timestamp.
     and_then (action_datetime (dict_get value ''recorded_at'') ''receipt recorded_at'') (\<lambda>recorded_at.
     and_then (action_address (dict_get value ''receipt_digest'') ''receipt_digest'') (\<lambda>receipt_digest.
     and_then (action_text (dict_get value ''schema_version'') ''receipt schema_version'') (\<lambda>schema_version.
     and_then (action_text (dict_get value ''schema'') ''receipt schema'') (\<lambda>schema.
     receipt_init \<lparr>rt_receipt_id = receipt_id, rt_identity_digest = identity, rt_attempt_id = attempt_id,
       rt_outcome = outcome, rt_evidence_ref = evidence_ref, rt_recorded_at = recorded_at,
       rt_receipt_digest = receipt_digest, rt_provider_reference = provider_reference,
       rt_external_timestamp = external_timestamp, rt_schema_version = schema_version, rt_schema = schema\<rparr>)))))))))))"

section \<open>Loading an action\<close>

definition action_stream :: "action_identity \<Rightarrow> string" where
  "action_stream i = ''external-action:'' @ ca_digest (address_for_value
     (JObj [(''case_id'', JStr (ai_case_id i)), (''logical_action_id'', JStr (ai_logical_action_id i))]))"

fun enterprise_as_cph :: "string \<Rightarrow> 'a result \<Rightarrow> 'a result" where
  "enterprise_as_cph m (Inl (EnterpriseContractError _)) = raise_cph m"
| "enterprise_as_cph m r = r"

definition action_records :: "durable_table \<Rightarrow> action_identity \<Rightarrow> durable_record list result" where
  "action_records table i =
     and_then (enterprise_as_cph ''durable external-action backend verification failed'' (durable_verify table)) (\<lambda>verified.
     let matching = filter (\<lambda>r. dr_stream_id r = action_stream i) verified in
     if length matching > MAX_TRANSITIONS then raise_cph ''durable external-action transition limit exceeded''
     else return matching)"

definition check_transition :: "action_identity \<Rightarrow> durable_record \<Rightarrow> unit result" where
  "check_transition i r =
     (if dict_get (dr_payload r) ''schema'' \<noteq> JStr DURABLE_EXTERNAL_ACTION_SCHEMA_V1
      then raise_cph ''unsupported durable external-action transition schema''
      else if dict_get (dr_payload r) ''identity_digest'' \<noteq> JStr (ca_digest (identity_digest i))
      then raise_cph ''durable external-action transition identity mismatch''
      else return ())"

definition load_receipt :: "coordinated_action \<Rightarrow> durable_record \<Rightarrow> string \<Rightarrow> action_receipt result" where
  "load_receipt c r kind =
     and_then (and_then (action_mapping (dict_get (dr_payload r) ''receipt'') (kind @ '' receipt'')) receipt_from_dict) (\<lambda>receipt.
     if rt_attempt_id receipt \<noteq> co_owner c then raise_cph (kind @ '' receipt attempt mismatch'')
     else and_then (verify_receipt_for_transition receipt (co_identity c)) (\<lambda>_. return receipt))"

text \<open>One turn of the loop of \<^verbatim>\<open>_load\<close> after the first record.\<close>

definition load_step :: "action_identity \<Rightarrow> coordinated_action \<Rightarrow> durable_record \<Rightarrow> coordinated_action result" where
  "load_step i c r =
     and_then (check_transition i r) (\<lambda>_.
     if dr_event_type r = EV_RESERVED then
       (if co_state c \<notin> {PRE_EFFECT_FAILED, CONFIRMED_NO_EFFECT}
        then raise_cph ''invalid durable external-action retry transition''
        else and_then (action_text (dict_get (dr_payload r) ''attempt_id'') ''reservation attempt_id'') (\<lambda>owner.
          return (c\<lparr>co_state := RESERVED, co_owner := owner, co_attempts := co_attempts c + 1, co_receipt := None\<rparr>)))
     else if dr_event_type r = EV_DISPATCHED then
       (if co_state c \<noteq> RESERVED then raise_cph ''invalid DISPATCHED transition''
        else and_then (action_text (dict_get (dr_payload r) ''attempt_id'') ''dispatch attempt_id'') (\<lambda>attempt.
          if attempt \<noteq> co_owner c then raise_cph ''dispatch attempt owner mismatch''
          else and_then (action_text (dict_get (dr_payload r) ''dispatch_ref'') ''dispatch_ref'') (\<lambda>_.
          and_then (action_datetime (dict_get (dr_payload r) ''started_at'') ''dispatch started_at'') (\<lambda>_.
          return (c\<lparr>co_state := OUTCOME_UNKNOWN\<rparr>)))))
     else if dr_event_type r = EV_PRE_EFFECT_FAILED then
       (if co_state c \<noteq> RESERVED then raise_cph ''invalid PRE_EFFECT_FAILED transition''
        else return (c\<lparr>co_state := PRE_EFFECT_FAILED\<rparr>))
     else if dr_event_type r = EV_OUTCOME_UNKNOWN then
       (if co_state c \<noteq> RESERVED then raise_cph ''invalid OUTCOME_UNKNOWN transition''
        else return (c\<lparr>co_state := OUTCOME_UNKNOWN\<rparr>))
     else if dr_event_type r = EV_CONFIRMED_SUCCESS then
       (if co_state c \<noteq> OUTCOME_UNKNOWN then raise_cph ''confirmed success requires a dispatched/unknown outcome''
        else and_then (load_receipt c r ''confirmed'') (\<lambda>receipt.
          return (c\<lparr>co_state := CONFIRMED_EXTERNAL_SUCCESS, co_receipt := Some receipt\<rparr>)))
     else if dr_event_type r = EV_CONFIRMED_NO_EFFECT then
       (if co_state c \<noteq> OUTCOME_UNKNOWN then raise_cph ''invalid CONFIRMED_NO_EFFECT transition''
        else and_then (action_text (dict_get (dr_payload r) ''reconciliation_ref'') ''reconciliation_ref'') (\<lambda>_.
          return (c\<lparr>co_state := CONFIRMED_NO_EFFECT\<rparr>)))
     else if dr_event_type r = EV_RECEIPT_RECOVERED then
       (if co_state c \<noteq> OUTCOME_UNKNOWN then raise_cph ''invalid RECEIPT_RECOVERED transition''
        else and_then (action_text (dict_get (dr_payload r) ''reconciliation_ref'') ''reconciliation_ref'') (\<lambda>_.
          and_then (load_receipt c r ''recovered'') (\<lambda>receipt.
          return (c\<lparr>co_state := RECEIPT_RECOVERED, co_receipt := Some receipt\<rparr>))))
     else raise_cph (''unsupported durable external-action event: '' @ dr_event_type r))"

fun load_loop :: "action_identity \<Rightarrow> coordinated_action \<Rightarrow> durable_record list \<Rightarrow> coordinated_action result" where
  "load_loop i c [] = return c"
| "load_loop i c (r # rs) = and_then (load_step i c r) (\<lambda>c'. load_loop i c' rs)"

definition load_first :: "action_identity \<Rightarrow> durable_record \<Rightarrow> coordinated_action result" where
  "load_first i r =
     (if dr_event_type r \<noteq> EV_RESERVED then raise_cph ''durable external-action stream must start with reservation''
      else and_then (and_then (action_mapping (dict_get (dr_payload r) ''identity'') ''stored identity'') identity_from_dict)
        (\<lambda>stored.
      if identity_digest stored \<noteq> identity_digest i
      then raise (IdempotencyConflictError ''logical action id cannot be reused for a different immutable intent'')
      else and_then (action_text (dict_get (dr_payload r) ''attempt_id'') ''reservation attempt_id'') (\<lambda>owner.
      and_then (check_transition i r) (\<lambda>_.
      return \<lparr>co_identity = stored, co_state = RESERVED, co_owner = owner, co_attempts = 1, co_receipt = None\<rparr>))))"

definition load_records :: "action_identity \<Rightarrow> durable_record list \<Rightarrow> (coordinated_action option \<times> string) result" where
  "load_records i records =
     (case records of
        [] \<Rightarrow> return (None, DURABLE_GENESIS)
      | r # rs \<Rightarrow> and_then (load_first i r) (\<lambda>c. and_then (load_loop i c rs) (\<lambda>c'.
          return (Some c', dr_record_digest (last records)))))"

definition action_load :: "durable_table \<Rightarrow> action_identity \<Rightarrow> (coordinated_action option \<times> string) result" where
  "action_load table i = and_then (action_records table i) (load_records i)"

section \<open>Operations\<close>

type_synonym interference = "nat \<Rightarrow> durable_table \<Rightarrow> durable_table"

definition alone :: interference where
  "alone n table = table"

definition action_append ::
  "durable_table \<Rightarrow> action_identity \<Rightarrow> string \<Rightarrow> (string \<times> json) list \<Rightarrow> string \<Rightarrow>
   durable_record result \<times> durable_table" where
  "action_append table i event_type payload expected_head =
     durable_append table (action_stream i) event_type
       (py_mapping ([(''schema'', JStr DURABLE_EXTERNAL_ACTION_SCHEMA_V1),
          (''identity_digest'', JStr (ca_digest (identity_digest i)))] @ payload)) (Some expected_head)"

text \<open>\<^verbatim>\<open>except EnterpriseContractError\<close> around an append: the handler gets the table as it is then.\<close>

definition on_conflict ::
  "durable_record result \<times> durable_table \<Rightarrow> (durable_table \<Rightarrow> 'a result \<times> durable_table) \<Rightarrow>
   (durable_table \<Rightarrow> 'a result \<times> durable_table) \<Rightarrow> 'a result \<times> durable_table" where
  "on_conflict written handler k =
     (case written of
        (Inl (EnterpriseContractError _), table) \<Rightarrow> handler table
      | (Inl e, table) \<Rightarrow> (Inl e, table)
      | (Inr _, table) \<Rightarrow> k table)"

definition validate_attempt_id :: "string \<Rightarrow> string result" where
  "validate_attempt_id attempt_id = text_value attempt_id ''attempt_id''"

text \<open>The four tries; a try makes a load, an append and a second load.\<close>

fun reserve_try ::
  "nat \<Rightarrow> interference \<Rightarrow> nat \<Rightarrow> durable_table \<Rightarrow> action_identity \<Rightarrow> string \<Rightarrow>
   (disposition \<times> coordinated_action) result \<times> durable_table" where
  "reserve_try 0 others n table i attempt =
     (raise_cph ''durable external-action reservation lost repeated concurrent races'', table)"
| "reserve_try (Suc tries) others n table i attempt =
     (let table = others n table in
      checked (action_load table i) table (\<lambda>(current, head).
      let write = (\<lambda>payload.
        on_conflict (action_append (others (n + 1) table) i EV_RESERVED payload head)
          (\<lambda>table. reserve_try tries others (n + 2) table i attempt)
          (\<lambda>table. let table = others (n + 2) table in
             checked (action_load table i) table (\<lambda>(reserved, _).
             case reserved of
               None \<Rightarrow> (raise_cph ''durable external-action reservation verification failed'', table)
             | Some c \<Rightarrow>
                 if co_state c \<noteq> RESERVED
                 then (raise_cph ''durable external-action reservation verification failed'', table)
                 else if co_owner c \<noteq> attempt
                 then (raise_cph ''durable external-action reservation owner mismatch'', table)
                 else (return (INVOKE_ALLOWED, c), table)))) in
      case current of
        None \<Rightarrow> write [(''identity'', JObj (action_identity_dict i)), (''attempt_id'', JStr attempt)]
      | Some c \<Rightarrow>
          (case co_state c of
             CONFIRMED_EXTERNAL_SUCCESS \<Rightarrow> (return (REPLAY_CONFIRMED, c), table)
           | RECEIPT_RECOVERED \<Rightarrow> (return (REPLAY_CONFIRMED, c), table)
           | OUTCOME_UNKNOWN \<Rightarrow> (return (RECONCILE_REQUIRED, c), table)
           | RESERVED \<Rightarrow> (return (IN_PROGRESS, c), table)
           | _ \<Rightarrow> write [(''attempt_id'', JStr attempt)])))"

definition action_reserve ::
  "interference \<Rightarrow> durable_table \<Rightarrow> action_identity \<Rightarrow> string \<Rightarrow>
   (disposition \<times> coordinated_action) result \<times> durable_table" where
  "action_reserve others table i attempt_id =
     checked (validate_attempt_id attempt_id) table (\<lambda>attempt. reserve_try 4 others 0 table i attempt)"

definition action_owned :: "durable_table \<Rightarrow> action_identity \<Rightarrow> string \<Rightarrow> (coordinated_action \<times> string) result" where
  "action_owned table i attempt_id =
     and_then (validate_attempt_id attempt_id) (\<lambda>attempt.
     and_then (action_load table i) (\<lambda>(current, head).
     case current of
       None \<Rightarrow> raise_cph ''external action has no reservation''
     | Some c \<Rightarrow>
         if co_state c \<noteq> RESERVED then raise_cph ''external action is not in an invokable reservation''
         else if co_owner c \<noteq> attempt then raise_cph ''attempt does not own the active reservation''
         else return (c, head)))"

text \<open>The last load of an operation; \<open>m\<close> is the message when the record is gone.\<close>

definition reload ::
  "string \<Rightarrow> action_identity \<Rightarrow> durable_table \<Rightarrow> coordinated_action result \<times> durable_table" where
  "reload m i table =
     checked (action_load table i) table (\<lambda>(updated, _).
     case updated of None \<Rightarrow> (raise_cph m, table) | Some c \<Rightarrow> (return c, table))"

definition action_begin_dispatch ::
  "interference \<Rightarrow> durable_table \<Rightarrow> action_identity \<Rightarrow> string \<Rightarrow> string \<Rightarrow> py_datetime option \<Rightarrow> py_datetime \<Rightarrow>
   coordinated_action result \<times> durable_table" where
  "action_begin_dispatch others table i attempt_id dispatch_ref started_at now =
     checked (and_then (validate_attempt_id attempt_id) (\<lambda>attempt.
         and_then (text_value dispatch_ref ''dispatch_ref'') (\<lambda>ref. return (attempt, ref)))) table (\<lambda>(attempt, ref).
     let table = others 0 table in
     checked (action_load table i) table (\<lambda>(current, head).
     case current of
       None \<Rightarrow> (raise_cph ''external action has no reservation'', table)
     | Some c \<Rightarrow>
         let table = others 1 table in
         checked (action_records table i) table (\<lambda>records.
         if co_state c = OUTCOME_UNKNOWN \<and> records \<noteq> [] then
           (if dr_event_type (last records) = EV_DISPATCHED \<and>
               dict_get (dr_payload (last records)) ''attempt_id'' = JStr attempt \<and>
               dict_get (dr_payload (last records)) ''dispatch_ref'' = JStr ref
            then (return c, table)
            else (raise_cph ''external action outcome is already unknown and requires reconciliation'', table))
         else let table = others 2 table in
         checked (action_owned table i attempt_id) table (\<lambda>_.
         let moment = (case started_at of None \<Rightarrow> now | Some t \<Rightarrow> t) in
         if \<not> is_aware moment then (raise_cph ''dispatch started_at must be timezone-aware'', table)
         else on_conflict (action_append (others 3 table) i EV_DISPATCHED
               [(''attempt_id'', JStr attempt), (''dispatch_ref'', JStr ref), (''started_at'', JStr (isoformat moment))] head)
           (\<lambda>table. let table = others 4 table in
             checked (action_load table i) table (\<lambda>(winner, _).
             let table = others 5 table in
             checked (action_records table i) table (\<lambda>winner_records.
             case winner of
               None \<Rightarrow> (raise_cph ''external-action state changed during dispatch fencing'', table)
             | Some w \<Rightarrow>
                 if winner_records \<noteq> [] \<and> dr_event_type (last winner_records) = EV_DISPATCHED \<and> co_owner w = attempt \<and>
                   dict_get (dr_payload (last winner_records)) ''dispatch_ref'' = JStr ref
                 then (return w, table)
                 else (raise_cph ''external-action state changed during dispatch fencing'', table))))
           (\<lambda>table. let table = others 4 table in
             checked (action_load table i) table (\<lambda>(dispatched, _).
             case dispatched of
               None \<Rightarrow> (raise_cph ''durable dispatch verification failed'', table)
             | Some d \<Rightarrow>
                 if co_state d \<noteq> OUTCOME_UNKNOWN then (raise_cph ''durable dispatch verification failed'', table)
                 else (return d, table)))))))"

definition action_mark_pre_effect_failed ::
  "interference \<Rightarrow> durable_table \<Rightarrow> action_identity \<Rightarrow> string \<Rightarrow> coordinated_action result \<times> durable_table" where
  "action_mark_pre_effect_failed others table i attempt_id =
     checked (validate_attempt_id attempt_id) table (\<lambda>attempt.
     let table = others 0 table in
     checked (action_load table i) table (\<lambda>(current, head).
     case (case current of None \<Rightarrow> None
           | Some c \<Rightarrow> if co_state c = PRE_EFFECT_FAILED \<and> co_owner c = attempt then Some c else None) of
       Some c \<Rightarrow> (return c, table)
     | None \<Rightarrow>
         let table = others 1 table in
         checked (action_owned table i attempt_id) table (\<lambda>_.
         on_conflict (action_append (others 2 table) i EV_PRE_EFFECT_FAILED [(''attempt_id'', JStr attempt)] head)
           (\<lambda>table. (raise_cph ''external-action state changed during failure recording'', table))
           (\<lambda>table. reload ''external-action failure record disappeared'' i (others 3 table)))))"

definition action_mark_outcome_unknown ::
  "interference \<Rightarrow> durable_table \<Rightarrow> action_identity \<Rightarrow> string \<Rightarrow> coordinated_action result \<times> durable_table" where
  "action_mark_outcome_unknown others table i attempt_id =
     checked (validate_attempt_id attempt_id) table (\<lambda>attempt.
     let table = others 0 table in
     checked (action_load table i) table (\<lambda>(current, head).
     case (case current of None \<Rightarrow> None
           | Some c \<Rightarrow> if co_state c = OUTCOME_UNKNOWN \<and> co_owner c = attempt then Some c else None) of
       Some c \<Rightarrow> (return c, table)
     | None \<Rightarrow>
         let table = others 1 table in
         checked (action_owned table i attempt_id) table (\<lambda>_.
         on_conflict (action_append (others 2 table) i EV_OUTCOME_UNKNOWN [(''attempt_id'', JStr attempt)] head)
           (\<lambda>table. (raise_cph ''external-action state changed while marking outcome unknown'', table))
           (\<lambda>table. reload ''external-action unknown record disappeared'' i (others 3 table)))))"

definition action_confirm_no_effect ::
  "interference \<Rightarrow> durable_table \<Rightarrow> action_identity \<Rightarrow> string \<Rightarrow> coordinated_action result \<times> durable_table" where
  "action_confirm_no_effect others table i reconciliation_ref =
     checked (text_value reconciliation_ref ''reconciliation_ref'') table (\<lambda>reconciliation.
     let table = others 0 table in
     checked (action_load table i) table (\<lambda>(current, head).
     case current of
       None \<Rightarrow> (raise_cph ''external action has no reservation'', table)
     | Some c \<Rightarrow>
         if co_state c = CONFIRMED_NO_EFFECT then (return c, table)
         else if co_state c \<noteq> OUTCOME_UNKNOWN
         then (raise_cph ''confirmed no-effect reconciliation requires OUTCOME_UNKNOWN'', table)
         else on_conflict (action_append (others 1 table) i EV_CONFIRMED_NO_EFFECT
               [(''reconciliation_ref'', JStr reconciliation)] head)
           (\<lambda>table. let table = others 2 table in
             checked (action_load table i) table (\<lambda>(winner, _).
             case winner of
               Some w \<Rightarrow> if co_state w = CONFIRMED_NO_EFFECT then (return w, table)
                 else (raise_cph ''external-action state changed during no-effect reconciliation'', table)
             | None \<Rightarrow> (raise_cph ''external-action state changed during no-effect reconciliation'', table)))
           (\<lambda>table. reload ''external-action reconciliation disappeared'' i (others 2 table))))"

text \<open>\<^verbatim>\<open>winner is not None and winner.state in {...} and winner.receipt == receipt\<close>.\<close>

definition confirmed_with :: "coordinated_action \<Rightarrow> action_receipt \<Rightarrow> bool" where
  "confirmed_with c r = (case co_receipt c of None \<Rightarrow> False | Some q \<Rightarrow> receipt_eq q r)"

definition confirmed_state :: "action_state \<Rightarrow> bool" where
  "confirmed_state s = (s = CONFIRMED_EXTERNAL_SUCCESS \<or> s = RECEIPT_RECOVERED)"

definition winner_confirmed ::
  "action_identity \<Rightarrow> action_receipt \<Rightarrow> string \<Rightarrow> durable_table \<Rightarrow> coordinated_action result \<times> durable_table" where
  "winner_confirmed i receipt m table =
     checked (action_load table i) table (\<lambda>(winner, _).
     case winner of
       None \<Rightarrow> (raise_cph m, table)
     | Some w \<Rightarrow> if confirmed_state (co_state w) \<and> confirmed_with w receipt then (return w, table)
         else (raise_cph m, table))"

definition action_confirm_success ::
  "interference \<Rightarrow> durable_table \<Rightarrow> action_identity \<Rightarrow> string \<Rightarrow> action_receipt \<Rightarrow>
   coordinated_action result \<times> durable_table" where
  "action_confirm_success others table i attempt_id receipt =
     checked (and_then (verify_receipt_for_transition receipt i) (\<lambda>_. validate_attempt_id attempt_id)) table (\<lambda>attempt.
     if rt_attempt_id receipt \<noteq> attempt then (raise_cph ''receipt attempt does not match active attempt'', table)
     else let table = others 0 table in
     checked (action_load table i) table (\<lambda>(current, head).
     case current of
       None \<Rightarrow> (raise_cph ''external action has no reservation'', table)
     | Some c \<Rightarrow>
         if confirmed_state (co_state c) then
           (if confirmed_with c receipt then (return c, table)
            else (raise_cph ''confirmed external action already has a different receipt'', table))
         else if co_state c \<noteq> OUTCOME_UNKNOWN
         then (raise_cph ''confirmed success requires dispatch before provider success'', table)
         else if co_owner c \<noteq> attempt then (raise_cph ''attempt does not own active dispatch'', table)
         else on_conflict (action_append (others 1 table) i EV_CONFIRMED_SUCCESS
               [(''attempt_id'', JStr attempt), (''receipt'', JObj (receipt_dict receipt))] head)
           (\<lambda>table. winner_confirmed i receipt ''external-action state changed during success confirmation'' (others 2 table))
           (\<lambda>table. reload ''external-action success record disappeared'' i (others 2 table))))"

definition action_recover_receipt ::
  "interference \<Rightarrow> durable_table \<Rightarrow> action_identity \<Rightarrow> action_receipt \<Rightarrow> string \<Rightarrow>
   coordinated_action result \<times> durable_table" where
  "action_recover_receipt others table i receipt reconciliation_ref =
     checked (and_then (verify_receipt_for_transition receipt i) (\<lambda>_. text_value reconciliation_ref ''reconciliation_ref'')) table
       (\<lambda>reconciliation.
     let table = others 0 table in
     checked (action_load table i) table (\<lambda>(current, head).
     case current of
       None \<Rightarrow> (raise_cph ''external action has no reservation'', table)
     | Some c \<Rightarrow>
         if confirmed_state (co_state c) then
           (if confirmed_with c receipt then (return c, table)
            else (raise_cph ''external action already has a different confirmed receipt'', table))
         else if co_state c \<noteq> OUTCOME_UNKNOWN then (raise_cph ''receipt recovery requires OUTCOME_UNKNOWN'', table)
         else if rt_attempt_id receipt \<noteq> co_owner c then (raise_cph ''recovered receipt attempt mismatch'', table)
         else on_conflict (action_append (others 1 table) i EV_RECEIPT_RECOVERED
               [(''reconciliation_ref'', JStr reconciliation), (''receipt'', JObj (receipt_dict receipt))] head)
           (\<lambda>table. winner_confirmed i receipt ''external-action state changed during receipt recovery'' (others 2 table))
           (\<lambda>table. reload ''external-action recovered receipt disappeared'' i (others 2 table))))"

text \<open>\<^verbatim>\<open>execute\<close>: the result, the table, and the table at the moment the provider was called, if it was.\<close>

definition action_execute ::
  "interference \<Rightarrow> interference \<Rightarrow> interference \<Rightarrow> durable_table \<Rightarrow> action_identity \<Rightarrow> string \<Rightarrow> string \<Rightarrow> py_datetime \<Rightarrow>
   (durable_table \<Rightarrow> action_receipt result \<times> durable_table) \<Rightarrow>
   action_receipt result \<times> durable_table \<times> durable_table option" where
  "action_execute others1 others2 others3 table i attempt_id dispatch_ref now provider_call =
     (case action_reserve others1 table i attempt_id of
        (Inl e, table) \<Rightarrow> (raise e, table, None)
      | (Inr (d, c), table) \<Rightarrow>
          if d = REPLAY_CONFIRMED then
            (case co_receipt c of None \<Rightarrow> (raise_cph ''confirmed replay is missing receipt'', table, None)
             | Some r \<Rightarrow> (return r, table, None))
          else if d \<noteq> INVOKE_ALLOWED
          then (raise_cph (''provider invocation forbidden: '' @ disposition_value d), table, None)
          else (case action_begin_dispatch others2 table i attempt_id dispatch_ref None now of
             (Inl e, table) \<Rightarrow> (raise e, table, None)
           | (Inr _, dispatched) \<Rightarrow>
               (case provider_call dispatched of
                  (Inl e, table) \<Rightarrow> (raise e, table, Some dispatched)
                | (Inr receipt, table) \<Rightarrow>
                    (case action_confirm_success others3 table i attempt_id receipt of
                       (Inl e, table) \<Rightarrow> (raise e, table, Some dispatched)
                     | (Inr c', table) \<Rightarrow>
                         (return (case co_receipt c' of None \<Rightarrow> receipt | Some r \<Rightarrow> r), table, Some dispatched)))))"

section \<open>Reading back what is written\<close>

definition action_identity_ok :: "action_identity \<Rightarrow> bool" where
  "action_identity_ok i = (ai_schema i = EXTERNAL_ACTION_IDENTITY_SCHEMA_V1 \<and> is_identifier (ai_case_id i) \<and>
     is_identifier (ai_artifact_id i) \<and> is_identifier (ai_artifact_version i) \<and> is_identifier (ai_logical_action_id i) \<and>
     is_identifier (ai_action_type i) \<and> is_identifier (ai_channel i) \<and> address_ok (ai_artifact_digest i) \<and>
     (\<forall>a. ai_payload_digest i = Some a \<longrightarrow> address_ok a))"

definition receipt_ok :: "action_receipt \<Rightarrow> bool" where
  "receipt_ok r = (rt_schema r = EXTERNAL_ACTION_RECEIPT_SCHEMA_V1 \<and> is_identifier (rt_receipt_id r) \<and>
     is_identifier (rt_attempt_id r) \<and> is_identifier (rt_evidence_ref r) \<and> is_identifier (rt_schema_version r) \<and>
     (\<forall>p. rt_provider_reference r = Some p \<longrightarrow> is_identifier p) \<and> address_ok (rt_identity_digest r) \<and>
     datetime_ok (rt_recorded_at r) \<and> is_aware (rt_recorded_at r) \<and>
     (\<forall>t. rt_external_timestamp r = Some t \<longrightarrow> datetime_ok t \<and> is_aware t) \<and>
     rt_receipt_digest r = address_for_value (JObj (receipt_body r)))"

lemma text_value_Inr: "text_value v n = Inr s \<longleftrightarrow> s = v \<and> is_text v"
  by (auto simp: text_value_def is_text_def strip_id) (metis strip_stripped)

lemma identifier_text: "is_identifier v \<Longrightarrow> is_text v"
  by (simp add: is_identifier_def)

lemma action_text_Inr: "action_text v n = Inr s \<longleftrightarrow> v = JStr s \<and> is_text s"
  by (cases v) (auto simp: action_text_def text_value_Inr)

lemma action_mapping_Inr: "action_mapping v n = Inr d \<longleftrightarrow> v = JObj d"
  by (cases v) (auto simp: action_mapping_def)

lemma action_datetime_Inr:
  "action_datetime v n = Inr t \<longleftrightarrow> (\<exists>s. v = JStr s \<and> is_text s \<and> fromisoformat s = Some t \<and> is_aware t)"
  by (auto simp: action_datetime_def action_text_Inr split: option.splits if_splits)

lemma action_address_Inr: "action_address v n = Inr a \<longleftrightarrow> (\<exists>d. v = JObj d \<and> address_from_dict d = Inr a)"
  by (cases v) (auto simp: action_address_def action_mapping_def split: sum.splits)

lemma unless_null_Inr:
  "unless_null f v = Inr w \<longleftrightarrow> v = JNull \<and> w = None \<or> v \<noteq> JNull \<and> (\<exists>x. f v = Inr x \<and> w = Some x)"
  by (cases v) (auto simp: unless_null_def)

lemma action_address_field:
  assumes "same_json d d'" "dict_get d' k = JObj (address_dict a)" "address_ok a"
  shows "action_address (dict_get d k) n = Inr a"
  using address_field [OF assms] by (auto simp: action_address_Inr)

lemma action_opt_address_field:
  assumes "same_json d d'" "dict_get d' k = opt_address a" "\<forall>x. a = Some x \<longrightarrow> address_ok x"
  shows "unless_null (\<lambda>v. action_address v n) (dict_get d k) = Inr a"
proof (cases a)
  case None
  then have "dict_get d k = JNull" using same_json_get(1) [OF assms(1), of k] assms(2) by (simp add: opt_address_def)
  then show ?thesis using None by (simp add: unless_null_def)
next
  case (Some x)
  then obtain q where "dict_get d k = JObj q" "address_from_dict q = Inr x"
    using address_field [OF assms(1), of k x] assms(2,3) by (auto simp: opt_address_def)
  then show ?thesis using Some by (simp add: unless_null_Inr action_address_Inr)
qed

lemma action_opt_text_field:
  assumes "same_json d d'" "dict_get d' k = (case a of None \<Rightarrow> JNull | Some x \<Rightarrow> JStr (g x))"
    and "\<And>x. a = Some x \<Longrightarrow> f (JStr (g x)) = Inr x"
  shows "unless_null f (dict_get d k) = Inr a"
  using assms(3) same_json_scalar(1,3) [OF assms(1), of k] assms(2)
  by (cases a) (auto simp: unless_null_def)

lemma identity_roundtrip:
  assumes "action_identity_ok i" "same_json d (action_identity_dict i)"
  shows "identity_from_dict d = Inr i"
proof -
  note ok = assms(1) [unfolded action_identity_ok_def]
  have strs: "dict_get d ''schema'' = JStr (ai_schema i)" "dict_get d ''case_id'' = JStr (ai_case_id i)"
    "dict_get d ''artifact_id'' = JStr (ai_artifact_id i)" "dict_get d ''artifact_version'' = JStr (ai_artifact_version i)"
    "dict_get d ''logical_action_id'' = JStr (ai_logical_action_id i)" "dict_get d ''action_type'' = JStr (ai_action_type i)"
    "dict_get d ''channel'' = JStr (ai_channel i)"
    by (rule same_json_scalar(1) [OF assms(2)], simp add: dict_get_def action_identity_dict_def)+
  have "action_address (dict_get d ''artifact_digest'') n = Inr (ai_artifact_digest i)" for n
    by (rule action_address_field [OF assms(2)]) (use ok in \<open>simp_all add: dict_get_def action_identity_dict_def\<close>)
  moreover have "unless_null (\<lambda>v. action_address v n) (dict_get d ''payload_digest'') = Inr (ai_payload_digest i)" for n
    by (rule action_opt_address_field [OF assms(2)]) (use ok in \<open>simp_all add: dict_get_def action_identity_dict_def\<close>)
  moreover have "is_text (ai_schema i)"
    using ok by (simp add: EXTERNAL_ACTION_IDENTITY_SCHEMA_V1_def is_text_def stripped_def is_space_def)
  ultimately show ?thesis using ok
    by (cases i) (simp add: identity_from_dict_def strs action_text_def text_value_Inr identifier_text object_id_ok
        action_identity_init_def cph_identifier_Inr)
qed

lemma outcome_roundtrip: "outcome_from_json (JStr (outcome_value q)) = Inr q"
  by (cases q) (simp_all add: outcome_from_json_def action_text_def text_value_def strip_def is_space_def)

lemma receipt_dict_get:
  "dict_get (receipt_dict r) ''schema'' = JStr EXTERNAL_ACTION_RECEIPT_SCHEMA_V1"
  "dict_get (receipt_dict r) ''schema_version'' = JStr (rt_schema_version r)"
  "dict_get (receipt_dict r) ''receipt_id'' = JStr (rt_receipt_id r)"
  "dict_get (receipt_dict r) ''attempt_id'' = JStr (rt_attempt_id r)"
  "dict_get (receipt_dict r) ''outcome'' = JStr (outcome_value (rt_outcome r))"
  "dict_get (receipt_dict r) ''evidence_ref'' = JStr (rt_evidence_ref r)"
  "dict_get (receipt_dict r) ''recorded_at'' = JStr (isoformat (rt_recorded_at r))"
  "dict_get (receipt_dict r) ''identity_digest'' = JObj (address_dict (rt_identity_digest r))"
  "dict_get (receipt_dict r) ''receipt_digest'' = JObj (address_dict (rt_receipt_digest r))"
  "dict_get (receipt_dict r) ''provider_reference'' = opt_id (rt_provider_reference r)"
  "dict_get (receipt_dict r) ''external_timestamp'' = opt_iso (rt_external_timestamp r)"
  by (simp_all add: dict_get_def receipt_dict_def receipt_body_def)

lemma receipt_roundtrip:
  assumes "receipt_ok r" "same_json d (receipt_dict r)"
  shows "receipt_from_dict d = Inr r"
proof -
  note ok = assms(1) [unfolded receipt_ok_def]
  have strs: "dict_get d ''schema'' = JStr (rt_schema r)" "dict_get d ''schema_version'' = JStr (rt_schema_version r)"
    "dict_get d ''receipt_id'' = JStr (rt_receipt_id r)" "dict_get d ''attempt_id'' = JStr (rt_attempt_id r)"
    "dict_get d ''outcome'' = JStr (outcome_value (rt_outcome r))" "dict_get d ''evidence_ref'' = JStr (rt_evidence_ref r)"
    "dict_get d ''recorded_at'' = JStr (isoformat (rt_recorded_at r))"
    by (rule same_json_scalar(1) [OF assms(2)], simp add: receipt_dict_get ok)+
  have "action_address (dict_get d ''identity_digest'') n = Inr (rt_identity_digest r)" for n
    by (rule action_address_field [OF assms(2) receipt_dict_get(8)]) (use ok in simp)
  moreover have "action_address (dict_get d ''receipt_digest'') n = Inr (rt_receipt_digest r)" for n
    by (rule action_address_field [OF assms(2) receipt_dict_get(9)]) (use ok in simp)
  moreover have "unless_null (\<lambda>v. action_text v n) (dict_get d ''provider_reference'') = Inr (rt_provider_reference r)" for n
    by (rule action_opt_text_field [OF assms(2), where g = "\<lambda>x. x"])
      (use ok in \<open>simp_all add: receipt_dict_get opt_id_def action_text_Inr identifier_text\<close>)
  moreover have "unless_null (\<lambda>v. action_datetime v n) (dict_get d ''external_timestamp'') = Inr (rt_external_timestamp r)" for n
    by (rule action_opt_text_field [OF assms(2), where g = isoformat])
      (use ok in \<open>simp_all add: receipt_dict_get opt_iso_def action_datetime_Inr fromisoformat_isoformat is_text_isoformat\<close>)
  moreover have "is_text (rt_schema r)"
    using ok by (simp add: EXTERNAL_ACTION_RECEIPT_SCHEMA_V1_def is_text_def stripped_def is_space_def)
  moreover have "opt_built (\<lambda>p. cph_identifier p ''provider_reference'') (rt_provider_reference r) = Inr (rt_provider_reference r)"
    using ok by (auto simp: opt_built_def cph_identifier_Inr split: option.split)
  moreover have "opt_built (\<lambda>t. cph_aware t ''receipt external_timestamp'') (rt_external_timestamp r) = Inr (rt_external_timestamp r)"
    using ok by (auto simp: opt_built_def cph_aware_def split: option.split)
  moreover have "action_datetime (JStr (isoformat (rt_recorded_at r))) n = Inr (rt_recorded_at r)" for n
    using ok by (simp add: action_datetime_Inr fromisoformat_isoformat is_text_isoformat)
  ultimately show ?thesis using ok
    by (cases r) (simp add: receipt_from_dict_def strs outcome_roundtrip action_text_def text_value_Inr identifier_text
        receipt_init_def cph_identifier_Inr cph_aware_def receipt_verify_def)
qed

section \<open>One more record\<close>

lemma sha256_text_head: "is_sha256 d \<Longrightarrow> d \<noteq> [] \<and> stripped d"
  by (auto simp: is_sha256_def is_hex_def stripped_def list_all_iff dest: hex_char_not_space)

lemma strip_action_stream: "strip (action_stream i) = action_stream i" "action_stream i \<noteq> []"
proof -
  have "is_sha256 (ca_digest (address_for_value v))" for v by (simp add: address_for_value_def)
  then show "strip (action_stream i) = action_stream i"
    by (intro strip_id) (use sha256_text_head in \<open>auto simp: action_stream_def stripped_def is_space_def\<close>)
qed (simp add: action_stream_def)

definition action_event_types :: "string list" where
  "action_event_types = [EV_RESERVED, EV_DISPATCHED, EV_PRE_EFFECT_FAILED, EV_OUTCOME_UNKNOWN, EV_CONFIRMED_SUCCESS,
     EV_CONFIRMED_NO_EFFECT, EV_RECEIPT_RECOVERED]"

lemma strip_event_type: "t \<in> set action_event_types \<Longrightarrow> strip t = t \<and> t \<noteq> []"
  by (auto simp: action_event_types_def event_names strip_def is_space_def)

text \<open>Appending to one stream at its head: the new record follows, unless two record bodies collide.\<close>

lemma stream_append_total:
  assumes v: "durable_verify table = Inr rs" and s: "strip s = s" "s \<noteq> []" and t: "strip t = t" "t \<noteq> []"
    and wf: "wf_json (JObj body)" and h: "h = durable_head (filter (\<lambda>r. dr_stream_id r = s) rs)"
  shows "(\<exists>d table'. durable_append table s t (py_mapping body) (Some h) = (Inr d, table') \<and>
      durable_verify table' = Inr (rs @ [d]) \<and> dr_stream_id d = s \<and> dr_event_type d = t \<and>
      dr_payload d = json_mapping body) \<or>
    durable_append table s t (py_mapping body) (Some h) = (raise SqliteIntegrityError, table) \<and>
      (\<exists>r r'. dr_sequence r < dr_sequence r' \<and> durable_clash r r')"
proof -
  have n: "normalize_value (PyDict (py_mapping body)) = Inr (JObj (json_mapping body))"
    unfolding json_mapping_obj [symmetric] by (rule normalize_py_mapping [OF wf])
  have sha: "require_sha256 h m = Inr h" for m unfolding h by (rule verified_heads_sha [OF v])
  have ex: "prepare_expected (Some [(s, h)]) (map (\<lambda>(s, t, p). strip s) [(s, t, py_mapping body)]) = Inr (Some [(s, h)])"
    by (simp add: prepare_expected_def s sha dict_of_def)
  have hd: "check_heads table (Some [(s, h)]) = Inr ()"
    using select_stream_head_verified [OF v, of s] h by (simp add: check_heads_def split: option.splits)
  have ev: "\<forall>(s, t, p) \<in> set [(s, t, py_mapping body)]. strip s \<noteq> [] \<and> strip t \<noteq> [] \<and> (\<exists>j. normalize_value (PyDict p) = return j)"
    using n s t by (simp del: normalize_value.simps)
  from append_batch_total [OF v _ ev ex hd] show ?thesis
  proof
    assume "\<exists>inserted table'. append_batch table [(s, t, py_mapping body)] (Some [(s, h)]) = (return inserted, table')"
    then obtain ins table' where i: "append_batch table [(s, t, py_mapping body)] (Some [(s, h)]) = (return ins, table')" by blast
    from append_batch_outcome [OF i] obtain d where "ins = [d]" "durable_verify table' = Inr (rs @ [d])"
        "dr_stream_id d = s" "dr_event_type d = t" "normalize_value (PyDict (py_mapping body)) = return (JObj (dr_payload d))"
      using v s t by (auto simp: list_all2_Cons1 simp del: normalize_value.simps)
    then show ?thesis using i n by (auto simp: durable_append_def simp del: normalize_value.simps)
  next
    assume "append_batch table [(s, t, py_mapping body)] (Some [(s, h)]) = (raise SqliteIntegrityError, table) \<and>
      (\<exists>r r'. dr_sequence r < dr_sequence r' \<and> durable_clash r r')"
    then show ?thesis by (simp add: durable_append_def)
  qed simp
qed

lemma enterprise_as_cph_Inr [simp]: "enterprise_as_cph m r = Inr x \<longleftrightarrow> r = Inr x"
  by (cases "(m, r)" rule: enterprise_as_cph.cases) auto

lemma action_records_Inr:
  "action_records table i = Inr rs \<longleftrightarrow> (\<exists>all. durable_verify table = Inr all \<and>
     rs = filter (\<lambda>r. dr_stream_id r = action_stream i) all \<and> length rs \<le> MAX_TRANSITIONS)"
  by (cases "durable_verify table") (auto simp: action_records_def Let_def split: if_splits)

lemma load_loop_snoc: "load_loop i c (rs @ [r]) = and_then (load_loop i c rs) (\<lambda>c'. load_step i c' r)"
  by (induction rs arbitrary: c) (auto simp: and_then_def split: sum.split)

definition load_next :: "action_identity \<Rightarrow> coordinated_action option \<Rightarrow> durable_record \<Rightarrow> coordinated_action result" where
  "load_next i cur r = (case cur of None \<Rightarrow> load_first i r | Some c \<Rightarrow> load_step i c r)"

lemma load_records_snoc:
  assumes "load_records i rs = Inr (cur, h)"
  shows "load_records i (rs @ [r]) = and_then (load_next i cur r) (\<lambda>c. return (Some c, dr_record_digest r))"
  using assms by (cases rs) (auto simp: load_records_def load_loop_snoc load_next_def and_then_def split: sum.splits)

lemma load_records_snocE:
  assumes "load_records i (rs @ [r]) = Inr (cur, h)"
  obtains c0 h0 c where "load_records i rs = Inr (c0, h0)" "load_next i c0 r = Inr c" "cur = Some c"
proof -
  have "\<exists>c0 h0. load_records i rs = Inr (c0, h0)"
    using assms by (cases rs) (auto simp: load_records_def load_loop_snoc)
  then obtain c0 h0 where "load_records i rs = Inr (c0, h0)" by blast
  then show thesis using that assms load_records_snoc [of i rs c0 h0 r] by auto
qed

lemma load_records_head: "load_records i rs = Inr (cur, h) \<Longrightarrow> h = durable_head rs \<and> (cur = None \<longleftrightarrow> rs = [])"
  by (cases rs) (auto simp: load_records_def durable_head_def)

lemma action_load_Inr:
  "action_load table i = Inr (cur, h) \<longleftrightarrow> (\<exists>rs. action_records table i = Inr rs \<and> load_records i rs = Inr (cur, h))"
  by (auto simp: action_load_def)

text \<open>An append at the loaded head, followed by a load.\<close>

definition transition_body :: "action_identity \<Rightarrow> (string \<times> json) list \<Rightarrow> (string \<times> json) list" where
  "transition_body i payload = [(''schema'', JStr DURABLE_EXTERNAL_ACTION_SCHEMA_V1),
     (''identity_digest'', JStr (ca_digest (identity_digest i)))] @ payload"

lemma action_append_total:
  assumes load: "action_load table i = Inr (cur, h)" and rs: "action_records table i = Inr rs" "length rs < MAX_TRANSITIONS"
    and t: "t \<in> set action_event_types" and wf: "wf_json (JObj (transition_body i payload))"
  shows "(\<exists>d table'. action_append table i t payload h = (Inr d, table') \<and> action_records table' i = Inr (rs @ [d]) \<and>
      dr_event_type d = t \<and> dr_payload d = json_mapping (transition_body i payload) \<and>
      action_load table' i = and_then (load_next i cur d) (\<lambda>c. return (Some c, dr_record_digest d))) \<or>
    action_append table i t payload h = (raise SqliteIntegrityError, table) \<and>
      (\<exists>r r'. dr_sequence r < dr_sequence r' \<and> durable_clash r r')"
proof -
  obtain all where all: "durable_verify table = Inr all" "rs = filter (\<lambda>r. dr_stream_id r = action_stream i) all"
    using rs(1) by (auto simp: action_records_Inr)
  have l: "load_records i rs = Inr (cur, h)" using load rs(1) by (auto simp: action_load_Inr)
  have "h = durable_head (filter (\<lambda>r. dr_stream_id r = action_stream i) all)"
    using load_records_head [OF l] all(2) by simp
  from stream_append_total [OF all(1) strip_action_stream strip_event_type [OF t, THEN conjunct1]
      strip_event_type [OF t, THEN conjunct2] wf this]
  show ?thesis
  proof
    assume "\<exists>d table'. durable_append table (action_stream i) t (py_mapping (transition_body i payload)) (Some h) = (Inr d, table') \<and>
      durable_verify table' = Inr (all @ [d]) \<and> dr_stream_id d = action_stream i \<and> dr_event_type d = t \<and>
      dr_payload d = json_mapping (transition_body i payload)"
    then obtain d table' where d: "action_append table i t payload h = (Inr d, table')"
        "durable_verify table' = Inr (all @ [d])" "dr_stream_id d = action_stream i" "dr_event_type d = t"
        "dr_payload d = json_mapping (transition_body i payload)"
      by (auto simp: action_append_def transition_body_def)
    have r: "action_records table' i = Inr (rs @ [d])" using d(2,3) all(2) rs(2) by (simp add: action_records_Inr)
    have "action_load table' i = and_then (load_next i cur d) (\<lambda>c. return (Some c, dr_record_digest d))"
      using r load_records_snoc [OF l, of d] by (simp add: action_load_def)
    then show ?thesis using d r by blast
  qed (auto simp: action_append_def transition_body_def)
qed

section \<open>Loading follows the machine\<close>

definition is_dispatch_record :: "durable_record \<Rightarrow> bool" where
  "is_dispatch_record r = (dr_event_type r = EV_DISPATCHED \<or> dr_event_type r = EV_OUTCOME_UNKNOWN)"

definition is_no_effect_record :: "durable_record \<Rightarrow> bool" where
  "is_no_effect_record r = (dr_event_type r = EV_CONFIRMED_NO_EFFECT)"

definition logs :: "durable_record \<Rightarrow> action_event \<Rightarrow> bool" where
  "logs r e = ((e = EDispatch \<longleftrightarrow> is_dispatch_record r) \<and> (e = ENoEffect \<longleftrightarrow> is_no_effect_record r))"

lemma load_receipt_Inr:
  "load_receipt c r k = Inr q \<longleftrightarrow> (\<exists>d. dict_get (dr_payload r) ''receipt'' = JObj d \<and> receipt_from_dict d = Inr q) \<and>
     rt_attempt_id q = co_owner c \<and> verify_receipt_for_transition q (co_identity c) = Inr ()"
  by (auto simp: load_receipt_def action_mapping_Inr split: if_splits)

lemma load_first_machine:
  assumes "load_first i r = Inr c"
  shows "\<exists>e. action_step None e c \<and> logs r e"
proof -
  obtain j a where "dr_event_type r = EV_RESERVED"
      "c = \<lparr>co_identity = j, co_state = RESERVED, co_owner = a, co_attempts = 1, co_receipt = None\<rparr>"
    using assms by (auto simp: load_first_def split: if_splits)
  then show ?thesis using action_step.first [of a j]
    by (intro exI [of _ "EReserve a"]) (auto simp: logs_def is_dispatch_record_def is_no_effect_record_def event_names)
qed

lemma load_step_machine:
  assumes "load_step i c r = Inr c'"
  shows "\<exists>e. action_step (Some c) e c' \<and> logs r e"
proof -
  note d = assms [unfolded load_step_def]
  consider "dr_event_type r = EV_RESERVED" | "dr_event_type r = EV_DISPATCHED \<or> dr_event_type r = EV_OUTCOME_UNKNOWN"
    | "dr_event_type r = EV_PRE_EFFECT_FAILED" | "dr_event_type r = EV_CONFIRMED_SUCCESS"
    | "dr_event_type r = EV_CONFIRMED_NO_EFFECT" | "dr_event_type r = EV_RECEIPT_RECOVERED"
    using d by (auto split: if_splits)
  then show ?thesis
  proof cases
    case 1
    then obtain a where "co_state c \<in> {PRE_EFFECT_FAILED, CONFIRMED_NO_EFFECT}"
        "c' = c\<lparr>co_state := RESERVED, co_owner := a, co_attempts := co_attempts c + 1, co_receipt := None\<rparr>"
      using d by (auto split: if_splits)
    then show ?thesis using 1 action_step.again [of c a]
      by (intro exI [of _ "EReserve a"]) (auto simp: logs_def is_dispatch_record_def is_no_effect_record_def event_names)
  next
    case 2
    then have "co_state c = RESERVED" "c' = c\<lparr>co_state := OUTCOME_UNKNOWN\<rparr>"
      using d by (auto simp: event_names split: if_splits)
    then show ?thesis using 2 action_step.dispatch [of c]
      by (intro exI [of _ EDispatch]) (auto simp: logs_def is_dispatch_record_def is_no_effect_record_def event_names)
  next
    case 3
    then have "co_state c = RESERVED" "c' = c\<lparr>co_state := PRE_EFFECT_FAILED\<rparr>"
      using d by (auto simp: event_names split: if_splits)
    then show ?thesis using 3 action_step.pre_fail [of c]
      by (intro exI [of _ EPreFail]) (auto simp: logs_def is_dispatch_record_def is_no_effect_record_def event_names)
  next
    case 4
    then obtain q where "co_state c = OUTCOME_UNKNOWN" "load_receipt c r ''confirmed'' = Inr q"
        "c' = c\<lparr>co_state := CONFIRMED_EXTERNAL_SUCCESS, co_receipt := Some q\<rparr>"
      using d by (auto simp: event_names split: if_splits)
    then show ?thesis using 4 action_step.success [of c q]
      by (intro exI [of _ "ESuccess q"])
        (auto simp: load_receipt_Inr logs_def is_dispatch_record_def is_no_effect_record_def event_names)
  next
    case 5
    then have "co_state c = OUTCOME_UNKNOWN" "c' = c\<lparr>co_state := CONFIRMED_NO_EFFECT\<rparr>"
      using d by (auto simp: event_names split: if_splits)
    then show ?thesis using 5 action_step.no_effect [of c]
      by (intro exI [of _ ENoEffect]) (auto simp: logs_def is_dispatch_record_def is_no_effect_record_def event_names)
  next
    case 6
    then obtain q where "co_state c = OUTCOME_UNKNOWN" "load_receipt c r ''recovered'' = Inr q"
        "c' = c\<lparr>co_state := RECEIPT_RECOVERED, co_receipt := Some q\<rparr>"
      using d by (auto simp: event_names split: if_splits)
    then show ?thesis using 6 action_step.recover [of c q]
      by (intro exI [of _ "ERecover q"])
        (auto simp: load_receipt_Inr logs_def is_dispatch_record_def is_no_effect_record_def event_names)
  qed
qed

lemma load_records_machine:
  "load_records i rs = Inr (cur, h) \<Longrightarrow> \<exists>es. action_history es cur \<and> list_all2 logs rs es"
proof (induction rs arbitrary: cur h rule: rev_induct)
  case Nil
  then show ?case by (auto simp: load_records_def intro: action_history.start)
next
  case (snoc r rs)
  from snoc.prems obtain c0 h0 c where l: "load_records i rs = Inr (c0, h0)"
    and c: "load_next i c0 r = Inr c" "cur = Some c" by (rule load_records_snocE)
  then obtain es where es: "action_history es c0" "list_all2 logs rs es" using snoc.IH by blast
  then obtain e where "action_step c0 e c" "logs r e"
    using c(1) load_first_machine [of i r c] load_step_machine [of i _ r c] by (cases c0) (auto simp: load_next_def)
  then have "action_history (es @ [e]) cur" "list_all2 logs (rs @ [r]) (es @ [e])"
    using es c(2) by (auto intro: action_history.move list_all2_appendI)
  then show ?case by blast
qed

lemma logs_counts:
  "list_all2 logs rs es \<Longrightarrow> open_effects es = int (length (filter is_dispatch_record rs)) - int (length (filter is_no_effect_record rs))"
  by (induction rule: list_all2_induct) (auto simp: open_effects_def logs_def)

lemma load_records_effects:
  assumes "load_records i rs = Inr (cur, h)"
  shows "int (length (filter is_dispatch_record rs)) = int (length (filter is_no_effect_record rs)) +
    (case cur of None \<Rightarrow> 0 | Some c \<Rightarrow> if effect_open (co_state c) then 1 else 0)"
  using load_records_machine [OF assms] logs_counts action_history_effects by fastforce

lemma load_owner_text:
  assumes "load_records i rs = Inr (Some c, h)"
  shows "is_text (co_owner c)"
  using assms
proof (induction rs arbitrary: c h rule: rev_induct)
  case (snoc r rs)
  from snoc.prems obtain c0 h0 where l: "load_records i rs = Inr (c0, h0)" and c: "load_next i c0 r = Inr c"
    by (rule load_records_snocE) simp
  show ?case
  proof (cases c0)
    case None
    then show ?thesis using c by (auto simp: load_next_def load_first_def action_text_Inr split: if_splits)
  next
    case (Some b)
    then have "is_text (co_owner b)" using snoc.IH l by blast
    then show ?thesis using c Some by (auto simp: load_next_def load_step_def action_text_Inr split: if_splits)
  qed
qed (simp add: load_records_def)

lemma last_dispatched:
  assumes "load_records i rs = Inr (cur, h)" "rs \<noteq> []" "dr_event_type (last rs) = EV_DISPATCHED"
  shows "\<exists>c. cur = Some c \<and> co_state c = OUTCOME_UNKNOWN"
proof -
  obtain rs0 r where rs: "rs = rs0 @ [r]" using assms(2) by (meson rev_exhaust)
  with assms(1) obtain c0 h0 c where c: "load_next i c0 r = Inr c" "cur = Some c"
    by (auto elim: load_records_snocE)
  then show ?thesis using assms(3) rs
    by (cases c0) (auto simp: load_next_def load_first_def load_step_def event_names split: if_splits)
qed

section \<open>The provider call\<close>

text \<open>What holds of the result and the table when an operation returns.\<close>

definition returns :: "('a \<Rightarrow> 'st \<Rightarrow> bool) \<Rightarrow> 'a result \<times> 'st \<Rightarrow> bool" where
  "returns Q p = (case p of (Inl _, _) \<Rightarrow> True | (Inr c, t) \<Rightarrow> Q c t)"

lemma returns_Inr: "returns Q p \<Longrightarrow> p = (Inr c, t) \<Longrightarrow> Q c t"
  by (simp add: returns_def)

lemma returns_raise: "returns Q (Inl e, t)"
  by (simp add: returns_def)

lemma returns_return: "Q c t \<Longrightarrow> returns Q (Inr c, t)"
  by (simp add: returns_def)

lemma returns_checked: "(\<And>x. m = Inr x \<Longrightarrow> returns Q (f x)) \<Longrightarrow> returns Q (checked m t f)"
  by (cases m) (simp_all add: returns_def)

lemma returns_if: "(b \<Longrightarrow> returns Q p) \<Longrightarrow> (\<not> b \<Longrightarrow> returns Q q) \<Longrightarrow> returns Q (if b then p else q)"
  by simp

lemma returns_option:
  "(x = None \<Longrightarrow> returns Q p) \<Longrightarrow> (\<And>y. x = Some y \<Longrightarrow> returns Q (f y)) \<Longrightarrow> returns Q (case x of None \<Rightarrow> p | Some y \<Rightarrow> f y)"
  by (cases x) simp_all

lemma returns_pair: "(\<And>a b. x = (a, b) \<Longrightarrow> returns Q (f a b)) \<Longrightarrow> returns Q (case x of (a, b) \<Rightarrow> f a b)"
  by (cases x) simp

lemma returns_on_conflict:
  "(\<And>m t. written = (Inl (EnterpriseContractError m), t) \<Longrightarrow> returns Q (handler t)) \<Longrightarrow>
   (\<And>d t. written = (Inr d, t) \<Longrightarrow> returns Q (k t)) \<Longrightarrow> returns Q (on_conflict written handler k)"
  by (cases "fst written"; cases "projl (fst written)"; cases written) (auto simp: on_conflict_def returns_def)

lemmas returns_rules = returns_raise returns_checked returns_if returns_option returns_pair returns_on_conflict returns_return

lemma action_append_stored:
  assumes "action_append table i t payload h = (Inr d, table')" "t \<in> set action_event_types"
  shows "\<exists>all. durable_verify table = Inr all \<and> durable_verify table' = Inr (all @ [d]) \<and>
    dr_stream_id d = action_stream i \<and> dr_event_type d = t"
proof -
  obtain ins where "append_batch table [(action_stream i, t, py_mapping (transition_body i payload))]
      (Some [(action_stream i, h)]) = (Inr ins, table')" "d = hd ins"
    using assms(1) by (auto simp: action_append_def durable_append_def transition_body_def split: prod.splits)
  with append_batch_outcome [OF this(1)] show ?thesis
    using strip_action_stream strip_event_type [OF assms(2)] by (auto simp: list_all2_Cons1)
qed

text \<open>What a load after an append finds.\<close>

lemma action_append_loaded:
  assumes "action_append table i t payload h = (Inr d, table')" "t \<in> set action_event_types"
    and "action_load table i = Inr (cur, h0)" "action_load table' i = Inr (cur', h')"
  shows "\<exists>c. cur' = Some c \<and> load_next i cur d = Inr c \<and> dr_event_type d = t"
proof -
  obtain all where all: "durable_verify table = Inr all" "durable_verify table' = Inr (all @ [d])"
      "dr_stream_id d = action_stream i" "dr_event_type d = t"
    using action_append_stored [OF assms(1,2)] by blast
  obtain rs where rs: "action_records table i = Inr rs" "load_records i rs = Inr (cur, h0)"
    using assms(3) by (auto simp: action_load_Inr)
  have "load_records i (rs @ [d]) = Inr (cur', h')"
    using assms(4) rs(1) all by (auto simp: action_load_Inr action_records_Inr)
  then show ?thesis using load_records_snoc [OF rs(2), of d] all(4) by auto
qed

text \<open>A dispatch that returns leaves its table, or what others made of it, with the outcome open.\<close>

definition outcome_open :: "durable_table \<Rightarrow> action_identity \<Rightarrow> bool" where
  "outcome_open table i = (case action_load table i of Inl _ \<Rightarrow> True
     | Inr (cur, h) \<Rightarrow> (case cur of None \<Rightarrow> False | Some c \<Rightarrow> co_state c = OUTCOME_UNKNOWN))"

lemma outcome_open_last:
  assumes "action_records table i = Inr rs" "rs \<noteq> []" "dr_event_type (last rs) = EV_DISPATCHED"
  shows "outcome_open table i"
  using assms last_dispatched [of i rs]
  by (cases "load_records i rs") (fastforce simp: outcome_open_def action_load_def)+

lemma begin_dispatch_open:
  "returns (\<lambda>c t. outcome_open t i) (action_begin_dispatch others table i a ref st now)"
  unfolding action_begin_dispatch_def Let_def
  by (intro returns_rules) (auto simp: outcome_open_last, auto simp: outcome_open_def)

lemma action_append_failed:
  assumes "action_append table i t payload h = (Inl e, table')"
  shows "table' = table"
proof -
  obtain r where r: "append_batch table [(action_stream i, t, py_mapping (transition_body i payload))]
      (Some [(action_stream i, h)]) = (r, table')" "and_then r (\<lambda>inserted. return (hd inserted)) = Inl e"
    using assms by (auto simp: action_append_def durable_append_def transition_body_def split: prod.splits)
  then show ?thesis using append_batch_outcome [OF r(1)] by (cases r) auto
qed

text \<open>The limit is checked on reading only: a stream that is full takes one more record and cannot be read again.\<close>

lemma full_stream_unreadable:
  assumes "action_records table i = Inr rs" "length rs = MAX_TRANSITIONS"
    and "action_append table i t payload h = (Inr d, table')" "t \<in> set action_event_types"
  shows "action_load table' i = raise_cph ''durable external-action transition limit exceeded''"
  using action_append_stored [OF assms(3,4)] assms(1,2)
  by (auto simp: action_load_def action_records_Inr) (simp add: action_records_def)

section \<open>A worker on its own\<close>

definition reservable :: "durable_table \<Rightarrow> action_identity \<Rightarrow> bool" where
  "reservable table i = (case action_load table i of Inl _ \<Rightarrow> False
     | Inr (cur, h) \<Rightarrow> (case cur of None \<Rightarrow> True | Some c \<Rightarrow> co_state c = PRE_EFFECT_FAILED \<or> co_state c = CONFIRMED_NO_EFFECT))"

definition loads :: "durable_table \<Rightarrow> action_identity \<Rightarrow> coordinated_action \<Rightarrow> bool" where
  "loads table i c = (\<exists>h. action_load table i = Inr (Some c, h))"

definition reserve_post ::
  "durable_table \<Rightarrow> action_identity \<Rightarrow> string \<Rightarrow> disposition \<times> coordinated_action \<Rightarrow> durable_table \<Rightarrow> bool" where
  "reserve_post table i a = (\<lambda>(d, c) t. loads t i c \<and>
     (if d = INVOKE_ALLOWED then reservable table i \<and> co_state c = RESERVED \<and> co_owner c = a
      else t = table \<and> (d = REPLAY_CONFIRMED \<longrightarrow> confirmed_state (co_state c))))"

lemma returns_state:
  "(s = RESERVED \<Longrightarrow> returns Q p1) \<Longrightarrow> (s = PRE_EFFECT_FAILED \<Longrightarrow> returns Q p2) \<Longrightarrow> (s = OUTCOME_UNKNOWN \<Longrightarrow> returns Q p3) \<Longrightarrow>
   (s = CONFIRMED_EXTERNAL_SUCCESS \<Longrightarrow> returns Q p4) \<Longrightarrow> (s = CONFIRMED_NO_EFFECT \<Longrightarrow> returns Q p5) \<Longrightarrow>
   (s = RECEIPT_RECOVERED \<Longrightarrow> returns Q p6) \<Longrightarrow>
   returns Q (case s of RESERVED \<Rightarrow> p1 | PRE_EFFECT_FAILED \<Rightarrow> p2 | OUTCOME_UNKNOWN \<Rightarrow> p3
     | CONFIRMED_EXTERNAL_SUCCESS \<Rightarrow> p4 | CONFIRMED_NO_EFFECT \<Rightarrow> p5 | RECEIPT_RECOVERED \<Rightarrow> p6)"
  by (cases s) simp_all

lemma reserve_try_alone: "returns (reserve_post table i a) (reserve_try tries alone n table i a)"
proof (induction tries arbitrary: n)
  case (Suc tries)
  have again: "returns (reserve_post table i a) (reserve_try tries alone m t i a)"
    if "action_append table i ty p h = (Inl e, t)" for t p h e m ty
    using action_append_failed [OF that] Suc.IH by simp
  show ?case
    unfolding reserve_try.simps Let_def alone_def [abs_def]
    by (intro returns_rules returns_state; (rule again [unfolded alone_def [abs_def]], assumption)?)
      (auto simp: reserve_post_def loads_def reservable_def confirmed_state_def)
qed (simp add: returns_def)

lemma load_next_dispatched:
  "load_next i (Some c) d = Inr c' \<Longrightarrow> dr_event_type d = EV_DISPATCHED \<Longrightarrow> c' = c\<lparr>co_state := OUTCOME_UNKNOWN\<rparr>"
  by (auto simp: load_next_def load_step_def event_names split: if_splits)

lemma load_next_success:
  "load_next i (Some c) d = Inr c' \<Longrightarrow> dr_event_type d = EV_CONFIRMED_SUCCESS \<Longrightarrow>
     co_state c' = CONFIRMED_EXTERNAL_SUCCESS \<and> co_receipt c' \<noteq> None"
  by (auto simp: load_next_def load_step_def event_names split: if_splits)

lemma event_types_in: "EV_DISPATCHED \<in> set action_event_types" "EV_CONFIRMED_SUCCESS \<in> set action_event_types"
    "EV_RESERVED \<in> set action_event_types" "EV_PRE_EFFECT_FAILED \<in> set action_event_types"
    "EV_OUTCOME_UNKNOWN \<in> set action_event_types" "EV_CONFIRMED_NO_EFFECT \<in> set action_event_types"
    "EV_RECEIPT_RECOVERED \<in> set action_event_types"
  by (simp_all add: action_event_types_def)

lemma reserved_not_dispatched:
  assumes "action_load table i = Inr (Some c, h)" "co_state c = RESERVED" "action_records table i = Inr rs"
  shows "rs = [] \<or> dr_event_type (last rs) \<noteq> EV_DISPATCHED"
  using assms last_dispatched [of i rs "Some c" h] by (auto simp: action_load_Inr)

lemma begin_dispatch_alone:
  assumes c: "action_load table i = Inr (Some c, h)" "co_state c = RESERVED" "co_owner c = a"
  shows "returns (\<lambda>c t. loads t i c \<and> co_state c = OUTCOME_UNKNOWN \<and> co_owner c = a)
    (action_begin_dispatch alone table i a ref st now)"
proof -
  have stored: "loads t i d \<and> co_state d = OUTCOME_UNKNOWN \<and> co_owner d = a"
    if "action_append table i EV_DISPATCHED p h = (Inr r, t)" "action_load t i = Inr (Some d, h')" for t p r d h'
    using action_append_loaded [OF that(1) event_types_in(1) c(1) that(2)] load_next_dispatched [of i c r d] that(2) c(3)
    by (auto simp: loads_def)
  have kept: "t = table" if "action_append table i EV_DISPATCHED p h = (Inl e, t)" for p e t
    using action_append_failed [OF that] .
  show ?thesis
    unfolding action_begin_dispatch_def Let_def alone_def
    by (intro returns_rules) (use c reserved_not_dispatched [OF c(1,2)] in \<open>auto dest: kept dest!: stored\<close>)
qed

lemma confirm_success_alone:
  "returns (\<lambda>c t. loads t i c \<and> confirmed_state (co_state c) \<and> co_receipt c \<noteq> None) (action_confirm_success alone table i a r)"
proof -
  have stored: "loads t i d \<and> confirmed_state (co_state d) \<and> co_receipt d \<noteq> None"
    if "action_append table i EV_CONFIRMED_SUCCESS p h = (Inr x, t)" "action_load t i = Inr (Some d, h')"
      "action_load table i = Inr (Some c, h)" for t p d h h' c x
    using action_append_loaded [OF that(1) event_types_in(2) that(3) that(2)] load_next_success [of i c x d] that(2)
    by (auto simp: loads_def confirmed_state_def)
  show ?thesis
    unfolding action_confirm_success_def winner_confirmed_def reload_def Let_def alone_def
    by (intro returns_rules) (auto simp: loads_def confirmed_with_def split: option.splits dest!: stored)
qed

text \<open>Reserving again: an open outcome asks for reconciliation, a confirmed action is replayed.\<close>

lemma reserve_again:
  assumes "loads t i c" "co_state c = OUTCOME_UNKNOWN \<or> confirmed_state (co_state c)"
  shows "(\<exists>e. action_reserve alone t i a = (Inl e, t)) \<or>
    action_reserve alone t i a = (Inr (if co_state c = OUTCOME_UNKNOWN then RECONCILE_REQUIRED else REPLAY_CONFIRMED, c), t)"
proof (cases "validate_attempt_id a")
  case (Inr b)
  have "reserve_try (Suc 3) alone 0 t i b = (Inr (if co_state c = OUTCOME_UNKNOWN then RECONCILE_REQUIRED else REPLAY_CONFIRMED, c), t)"
    using assms unfolding reserve_try.simps Let_def alone_def by (auto simp: loads_def confirmed_state_def)
  then show ?thesis using Inr by (simp add: action_reserve_def numeral_eq_Suc)
qed (simp add: action_reserve_def)

lemma reserve_alone: "returns (reserve_post table i a) (action_reserve alone table i a)"
  unfolding action_reserve_def validate_attempt_id_def
  by (intro returns_checked) (simp add: text_value_Inr reserve_try_alone)

lemma execute_again:
  assumes "loads t i c" "co_state c = OUTCOME_UNKNOWN \<or> confirmed_state (co_state c)"
  shows "snd (action_execute alone others2 others3 t i a ref now provider) = (t, None)"
  using reserve_again [OF assms, of a] by (auto simp: action_execute_def split: option.splits)

lemma execute_confirmed:
  assumes "loads t i c" "confirmed_state (co_state c)" "co_receipt c = Some r"
  shows "action_execute alone others2 others3 t i a ref now provider =
    (and_then (validate_attempt_id a) (\<lambda>_. return r), t, None)"
proof (cases "validate_attempt_id a")
  case (Inl e)
  then show ?thesis by (simp add: action_execute_def action_reserve_def)
next
  case (Inr b)
  have "reserve_try (Suc 3) alone 0 t i b = (Inr (REPLAY_CONFIRMED, c), t)"
    using assms unfolding reserve_try.simps Let_def alone_def by (auto simp: loads_def confirmed_state_def)
  then show ?thesis using Inr assms(3) by (simp add: action_execute_def action_reserve_def numeral_eq_Suc)
qed

text \<open>The steps of a run of \<^verbatim>\<open>execute\<close>.\<close>

lemma execute_cases:
  assumes "action_execute o1 o2 o3 table i a ref now provider = (r, table', called)"
  obtains (refused) e where "r = Inl e" "called = None"
  | (replayed) c q where "action_reserve o1 table i a = (Inr (REPLAY_CONFIRMED, c), table')" "co_receipt c = Some q"
      "r = Inr q" "called = None"
  | (raised) c t1 c1 t e where "action_reserve o1 table i a = (Inr (INVOKE_ALLOWED, c), t1)"
      "action_begin_dispatch o2 t1 i a ref None now = (Inr c1, t)" "called = Some t" "r = Inl e"
  | (confirmed) c t1 c1 t q t2 c2 where "action_reserve o1 table i a = (Inr (INVOKE_ALLOWED, c), t1)"
      "action_begin_dispatch o2 t1 i a ref None now = (Inr c1, t)" "called = Some t" "provider t = (Inr q, t2)"
      "action_confirm_success o3 t2 i a q = (Inr c2, table')"
      "r = Inr (case co_receipt c2 of None \<Rightarrow> q | Some q \<Rightarrow> q)"
  using assms unfolding action_execute_def
  by (auto split: prod.splits sum.splits option.splits if_splits)

lemma execute_alone_called:
  assumes "action_execute alone alone o3 table i a ref now provider = (r, table', Some t)"
  shows "reservable table i \<and> (\<exists>c. loads t i c \<and> co_state c = OUTCOME_UNKNOWN \<and> co_owner c = a)"
proof -
  obtain c t1 c1 where r: "action_reserve alone table i a = (Inr (INVOKE_ALLOWED, c), t1)"
      and d: "action_begin_dispatch alone t1 i a ref None now = (Inr c1, t)"
    using assms by (cases rule: execute_cases) auto
  have p: "reservable table i" "loads t1 i c" "co_state c = RESERVED" "co_owner c = a"
    using returns_Inr [OF reserve_alone r] by (auto simp: reserve_post_def)
  then obtain h where "action_load t1 i = Inr (Some c, h)" by (auto simp: loads_def)
  from returns_Inr [OF begin_dispatch_alone [OF this p(3,4)] d] p(1) show ?thesis by blast
qed

lemma execute_alone_returned:
  assumes "action_execute alone alone alone table i a ref now provider = (Inr q, table', called)"
  shows "\<exists>c. loads table' i c \<and> confirmed_state (co_state c) \<and> co_receipt c = Some q"
  using assms
proof (cases rule: execute_cases)
  case (replayed c q')
  then show ?thesis using returns_Inr [OF reserve_alone replayed(1)] by (auto simp: reserve_post_def)
next
  case (confirmed c t1 c1 t q' t2 c2)
  then show ?thesis using returns_Inr [OF confirm_success_alone confirmed(5)] by auto
qed simp_all

section \<open>The durable coordinator implements the in-process one\<close>

text \<open>A transition record read back.\<close>

lemma transition_same:
  assumes "wf_json (JObj (transition_body i p))"
  shows "same_json (json_mapping (transition_body i p)) (transition_body i p)"
  using assms normal_json_mapping [OF assms] unfolding same_json_def json_mapping_obj [symmetric] normal_json_def
  by (simp add: norm_json_idem del: norm_json.simps wf_json_simps)

lemma transition_get:
  "dict_get (transition_body i p) k = (if k = ''schema'' then JStr DURABLE_EXTERNAL_ACTION_SCHEMA_V1
     else if k = ''identity_digest'' then JStr (ca_digest (identity_digest i)) else dict_get p k)"
  by (simp add: transition_body_def dict_get_def)

lemma transition_checked:
  assumes "wf_json (JObj (transition_body i p))" "dr_payload d = json_mapping (transition_body i p)"
  shows "check_transition i d = Inr ()"
  using same_json_scalar(1) [OF transition_same [OF assms(1)]] assms(2)
  by (simp add: check_transition_def transition_get)

lemma transition_text:
  assumes "wf_json (JObj (transition_body i p))" "dict_get p k = JStr s" "k \<noteq> ''schema''" "k \<noteq> ''identity_digest''"
  shows "dict_get (json_mapping (transition_body i p)) k = JStr s"
  by (rule same_json_scalar(1) [OF transition_same [OF assms(1)]]) (simp add: transition_get assms)

lemma transition_object:
  assumes "wf_json (JObj (transition_body i p))" "dict_get p k = JObj q" "k \<noteq> ''schema''" "k \<noteq> ''identity_digest''" "wf_json (JObj q)"
  shows "\<exists>q'. dict_get (json_mapping (transition_body i p)) k = JObj q' \<and> same_json q' q"
  by (rule same_json_nested [OF transition_same [OF assms(1)]]) (simp_all add: transition_get assms del: wf_json_simps)

lemma load_identity:
  "load_records i rs = Inr (Some c, h) \<Longrightarrow> identity_digest (co_identity c) = identity_digest i"
proof (induction rs arbitrary: c h rule: rev_induct)
  case (snoc r rs)
  from snoc.prems obtain c0 h0 where l: "load_records i rs = Inr (c0, h0)" and c: "load_next i c0 r = Inr c"
    by (rule load_records_snocE) simp
  show ?case
  proof (cases c0)
    case None
    then show ?thesis using c by (auto simp: load_next_def load_first_def split: if_splits)
  next
    case (Some b)
    then have "identity_digest (co_identity b) = identity_digest i" using snoc.IH l by blast
    then show ?thesis using c Some by (auto simp: load_next_def load_step_def split: if_splits)
  qed
qed (simp add: load_records_def)

text \<open>One transition at the loaded head.\<close>

lemma transition_done:
  assumes "action_load table i = Inr (cur, h)" "action_records table i = Inr rs" "length rs < MAX_TRANSITIONS"
    and "t \<in> set action_event_types" "wf_json (JObj (transition_body i p))"
    and "\<And>d. dr_event_type d = t \<Longrightarrow> dr_payload d = json_mapping (transition_body i p) \<Longrightarrow> load_next i cur d = Inr c"
  obtains d t' h' where "action_append table i t p h = (Inr d, t')" "action_load t' i = Inr (Some c, h')"
  | "action_append table i t p h = (raise SqliteIntegrityError, table)"
    "\<exists>r r'. dr_sequence r < dr_sequence r' \<and> durable_clash r r'"
  using action_append_total [OF assms(1-5)] assms(6) by fastforce

lemma wf_identity_dict: "wf_json (JObj (action_identity_dict i))"
  by (simp add: action_identity_dict_def)

lemma wf_receipt_dict: "wf_json (JObj (receipt_dict r))"
  by (simp add: receipt_dict_def receipt_body_def opt_iso_def split: option.split)

lemma wf_first_transition:
  "wf_json (JObj (transition_body i [(''identity'', JObj (action_identity_dict i)), (''attempt_id'', JStr a)]))"
  using wf_identity_dict [of i] by (simp add: transition_body_def)

lemma first_reserved:
  assumes "action_identity_ok i" "is_text a" "dr_event_type d = EV_RESERVED"
    and p: "dr_payload d = json_mapping (transition_body i [(''identity'', JObj (action_identity_dict i)), (''attempt_id'', JStr a)])"
  shows "load_next i None d =
    Inr \<lparr>co_identity = i, co_state = RESERVED, co_owner = a, co_attempts = 1, co_receipt = None\<rparr>"
proof -
  have "dict_get [(''identity'', JObj (action_identity_dict i)), (''attempt_id'', JStr a)] ''identity'' =
      JObj (action_identity_dict i)" by (simp add: dict_get_def)
  from transition_object [OF wf_first_transition this _ _ wf_identity_dict] obtain q
    where "dict_get (dr_payload d) ''identity'' = JObj q" "same_json q (action_identity_dict i)" using p by auto
  moreover have "dict_get (dr_payload d) ''attempt_id'' = JStr a"
    unfolding p by (rule transition_text [OF wf_first_transition]) (simp_all add: dict_get_def)
  ultimately show ?thesis
    using assms(2,3) identity_roundtrip [OF assms(1)] transition_checked [OF wf_first_transition p]
    by (simp add: load_next_def load_first_def action_mapping_def action_text_def text_value_Inr)
qed

lemma reserved_again:
  assumes "is_text a" "dr_event_type d = EV_RESERVED" "co_state c = PRE_EFFECT_FAILED \<or> co_state c = CONFIRMED_NO_EFFECT"
    and p: "dr_payload d = json_mapping (transition_body i [(''attempt_id'', JStr a)])"
  shows "load_next i (Some c) d =
    Inr (c\<lparr>co_state := RESERVED, co_owner := a, co_attempts := co_attempts c + 1, co_receipt := None\<rparr>)"
proof -
  have wf: "wf_json (JObj (transition_body i [(''attempt_id'', JStr a)]))" by (simp add: transition_body_def)
  have "dict_get (dr_payload d) ''attempt_id'' = JStr a"
    unfolding p by (rule transition_text [OF wf]) (simp_all add: dict_get_def)
  then show ?thesis using assms(1-3) transition_checked [OF wf p]
    by (auto simp: load_next_def load_step_def action_text_def text_value_Inr)
qed

lemma dispatched:
  assumes "is_text (co_owner c)" "is_text ref" "datetime_ok moment" "is_aware moment"
    and "dr_event_type d = EV_DISPATCHED" "co_state c = RESERVED"
    and p: "dr_payload d = json_mapping (transition_body i
      [(''attempt_id'', JStr (co_owner c)), (''dispatch_ref'', JStr ref), (''started_at'', JStr (isoformat moment))])"
  shows "load_next i (Some c) d = Inr (c\<lparr>co_state := OUTCOME_UNKNOWN\<rparr>)"
proof -
  let ?b = "[(''attempt_id'', JStr (co_owner c)), (''dispatch_ref'', JStr ref), (''started_at'', JStr (isoformat moment))]"
  have wf: "wf_json (JObj (transition_body i ?b))" by (simp add: transition_body_def)
  have "dict_get (dr_payload d) ''attempt_id'' = JStr (co_owner c)" "dict_get (dr_payload d) ''dispatch_ref'' = JStr ref"
      "dict_get (dr_payload d) ''started_at'' = JStr (isoformat moment)"
    unfolding p by (rule transition_text [OF wf]; simp add: dict_get_def)+
  then show ?thesis using assms(1-6) transition_checked [OF wf p]
    by (auto simp: load_next_def load_step_def action_text_def text_value_Inr action_datetime_Inr event_names
        fromisoformat_isoformat is_text_isoformat)
qed

lemma confirmed_none:
  assumes "is_text q" "dr_event_type d = EV_CONFIRMED_NO_EFFECT" "co_state c = OUTCOME_UNKNOWN"
    and p: "dr_payload d = json_mapping (transition_body i [(''reconciliation_ref'', JStr q)])"
  shows "load_next i (Some c) d = Inr (c\<lparr>co_state := CONFIRMED_NO_EFFECT\<rparr>)"
proof -
  have wf: "wf_json (JObj (transition_body i [(''reconciliation_ref'', JStr q)]))" by (simp add: transition_body_def)
  have "dict_get (dr_payload d) ''reconciliation_ref'' = JStr q"
    unfolding p by (rule transition_text [OF wf]) (simp_all add: dict_get_def)
  then show ?thesis using assms(1-3) transition_checked [OF wf p]
    by (auto simp: load_next_def load_step_def action_text_def text_value_Inr event_names)
qed

lemma failed_before:
  assumes "dr_event_type d = EV_PRE_EFFECT_FAILED" "co_state c = RESERVED"
    and p: "dr_payload d = json_mapping (transition_body i [(''attempt_id'', JStr a)])"
  shows "load_next i (Some c) d = Inr (c\<lparr>co_state := PRE_EFFECT_FAILED\<rparr>)"
  using assms(1,2) transition_checked [OF _ p] by (simp add: transition_body_def load_next_def load_step_def event_names)

lemma receipt_read:
  assumes "receipt_ok r" "rt_attempt_id r = co_owner c" "verify_receipt_for_transition r i = Inr ()"
    and "identity_digest (co_identity c) = identity_digest i"
    and wf: "wf_json (JObj (transition_body i p))" and r: "dict_get p ''receipt'' = JObj (receipt_dict r)"
    and p: "dr_payload d = json_mapping (transition_body i p)"
  shows "load_receipt c d k = Inr r"
proof -
  obtain q where "dict_get (dr_payload d) ''receipt'' = JObj q" "same_json q (receipt_dict r)"
    using transition_object [OF wf r] wf_receipt_dict p by (auto simp del: wf_json_simps)
  moreover have "verify_receipt_for_transition r (co_identity c) = Inr ()"
    using assms(3,4) by (simp add: verify_receipt_for_transition_def)
  ultimately show ?thesis using receipt_roundtrip [OF assms(1)] assms(2) by (auto simp: load_receipt_Inr)
qed

lemma confirmed_or_recovered:
  assumes r: "receipt_ok r" "rt_attempt_id r = co_owner c" "verify_receipt_for_transition r i = Inr ()"
      "identity_digest (co_identity c) = identity_digest i"
    and c: "co_state c = OUTCOME_UNKNOWN"
  shows "dr_event_type d = EV_CONFIRMED_SUCCESS \<Longrightarrow>
      dr_payload d = json_mapping (transition_body i [(''attempt_id'', JStr a), (''receipt'', JObj (receipt_dict r))]) \<Longrightarrow>
      load_next i (Some c) d = Inr (c\<lparr>co_state := CONFIRMED_EXTERNAL_SUCCESS, co_receipt := Some r\<rparr>)"
    and "dr_event_type d = EV_RECEIPT_RECOVERED \<Longrightarrow> is_text q \<Longrightarrow>
      dr_payload d = json_mapping (transition_body i [(''reconciliation_ref'', JStr q), (''receipt'', JObj (receipt_dict r))]) \<Longrightarrow>
      load_next i (Some c) d = Inr (c\<lparr>co_state := RECEIPT_RECOVERED, co_receipt := Some r\<rparr>)"
proof -
  assume p: "dr_payload d = json_mapping (transition_body i [(''attempt_id'', JStr a), (''receipt'', JObj (receipt_dict r))])"
    and t: "dr_event_type d = EV_CONFIRMED_SUCCESS"
  have wf: "wf_json (JObj (transition_body i [(''attempt_id'', JStr a), (''receipt'', JObj (receipt_dict r))]))"
    using wf_receipt_dict [of r] by (simp add: transition_body_def)
  have "load_receipt c d k = Inr r" for k by (rule receipt_read [OF r wf _ p]) (simp add: dict_get_def)
  then show "load_next i (Some c) d = Inr (c\<lparr>co_state := CONFIRMED_EXTERNAL_SUCCESS, co_receipt := Some r\<rparr>)"
    using t c transition_checked [OF wf p] by (simp add: load_next_def load_step_def event_names)
next
  assume p: "dr_payload d = json_mapping (transition_body i [(''reconciliation_ref'', JStr q), (''receipt'', JObj (receipt_dict r))])"
    and t: "dr_event_type d = EV_RECEIPT_RECOVERED" and q: "is_text q"
  have wf: "wf_json (JObj (transition_body i [(''reconciliation_ref'', JStr q), (''receipt'', JObj (receipt_dict r))]))"
    using wf_receipt_dict [of r] by (simp add: transition_body_def)
  have "load_receipt c d k = Inr r" for k by (rule receipt_read [OF r wf _ p]) (simp add: dict_get_def)
  moreover have "dict_get (dr_payload d) ''reconciliation_ref'' = JStr q"
    unfolding p by (rule transition_text [OF wf]) (simp_all add: dict_get_def)
  ultimately show "load_next i (Some c) d = Inr (c\<lparr>co_state := RECEIPT_RECOVERED, co_receipt := Some r\<rparr>)"
    using t c q transition_checked [OF wf p] by (simp add: load_next_def load_step_def action_text_def text_value_Inr event_names)
qed

text \<open>An operation of a worker on its own; \<open>ref\<close> and \<open>moment\<close> are the dispatch reference and start time.\<close>

fun action_exec :: "action_identity \<Rightarrow> string \<Rightarrow> py_datetime \<Rightarrow> action_op \<Rightarrow> durable_table \<Rightarrow> op_result \<times> durable_table" where
  "action_exec i ref moment (OpReserve a) table = disposed (action_reserve alone table i a)"
| "action_exec i ref moment (OpDispatch a) table = plain (action_begin_dispatch alone table i a ref (Some moment) moment)"
| "action_exec i ref moment (OpPreFail a) table = plain (action_mark_pre_effect_failed alone table i a)"
| "action_exec i ref moment (OpUnknown a) table = plain (action_mark_outcome_unknown alone table i a)"
| "action_exec i ref moment (OpNoEffect q) table = plain (action_confirm_no_effect alone table i q)"
| "action_exec i ref moment (OpSuccess a r) table = plain (action_confirm_success alone table i a r)"
| "action_exec i ref moment (OpRecover r q) table = plain (action_recover_receipt alone table i r q)"

definition op_receipt_ok :: "action_op \<Rightarrow> bool" where
  "op_receipt_ok op = (case op of OpSuccess a r \<Rightarrow> receipt_ok r | OpRecover r q \<Rightarrow> receipt_ok r | _ \<Rightarrow> True)"

text \<open>
  What the operation must do: return what the reference returned and end in its record, or have its append
  refused by the unique digest.
\<close>

definition carried_out ::
  "action_identity \<Rightarrow> durable_table \<Rightarrow> disposition option \<times> coordinated_action \<Rightarrow> op_result \<times> durable_table \<Rightarrow> bool" where
  "carried_out i table q p = ((\<exists>t. p = (Inr q, t) \<and> loads t i (snd q)) \<or>
     p = (raise SqliteIntegrityError, table) \<and> (\<exists>r r'. dr_sequence r < dr_sequence r' \<and> durable_clash r r'))"

lemma carried_out_append:
  assumes "action_load table i = Inr (cur, h)" "action_records table i = Inr rs" "length rs < MAX_TRANSITIONS"
    and "t \<in> set action_event_types" "wf_json (JObj (transition_body i p))"
    and "\<And>d. dr_event_type d = t \<Longrightarrow> dr_payload d = json_mapping (transition_body i p) \<Longrightarrow> load_next i cur d = Inr c"
    and "\<And>t' h'. action_load t' i = Inr (Some c, h') \<Longrightarrow> k t' = (Inr c, t')"
  shows "carried_out i table (None, c) (plain (on_conflict (action_append table i t p h) handler k))"
  by (rule transition_done [OF assms(1-6)]) (auto simp: carried_out_def on_conflict_def loads_def assms(7))

lemma reserve_carried_out:
  assumes load: "action_load table i = Inr (cur, h)" and rs: "action_records table i = Inr rs" "length rs < MAX_TRANSITIONS"
    and i: "action_identity_ok i" and a: "is_text a"
    and c: "cur = None \<and> c = \<lparr>co_identity = i, co_state = RESERVED, co_owner = a, co_attempts = 1, co_receipt = None\<rparr> \<or>
      (\<exists>b. cur = Some b \<and> (co_state b = PRE_EFFECT_FAILED \<or> co_state b = CONFIRMED_NO_EFFECT) \<and>
        c = b\<lparr>co_state := RESERVED, co_owner := a, co_attempts := co_attempts b + 1, co_receipt := None\<rparr>)"
  shows "carried_out i table (Some INVOKE_ALLOWED, c) (action_exec i ref moment (OpReserve a) table)"
proof -
  obtain p where tried: "\<And>n. reserve_try (Suc n) alone 0 table i a = on_conflict (action_append table i EV_RESERVED p h)
        (\<lambda>table. reserve_try n alone 2 table i a)
        (\<lambda>table. checked (action_load table i) table (\<lambda>(reserved, _).
           case reserved of None \<Rightarrow> (raise_cph ''durable external-action reservation verification failed'', table)
           | Some c \<Rightarrow> if co_state c \<noteq> RESERVED
               then (raise_cph ''durable external-action reservation verification failed'', table)
               else if co_owner c \<noteq> a then (raise_cph ''durable external-action reservation owner mismatch'', table)
               else (return (INVOKE_ALLOWED, c), table)))"
    and wf: "wf_json (JObj (transition_body i p))"
    and reads: "\<And>d. dr_event_type d = EV_RESERVED \<Longrightarrow> dr_payload d = json_mapping (transition_body i p) \<Longrightarrow> load_next i cur d = Inr c"
  proof (cases cur)
    case None
    show thesis
      by (rule that [where p = "[(''identity'', JObj (action_identity_dict i)), (''attempt_id'', JStr a)]"])
        (use None load c first_reserved [OF i a] in \<open>simp_all add: alone_def wf_first_transition numeral_2_eq_2 del: wf_json_simps\<close>)
  next
    case (Some b)
    have b: "co_state b = PRE_EFFECT_FAILED \<or> co_state b = CONFIRMED_NO_EFFECT" using c Some by auto
    show thesis
      by (rule that [where p = "[(''attempt_id'', JStr a)]"])
        (use Some b load c reserved_again [OF a _ b] in \<open>auto simp: alone_def transition_body_def numeral_2_eq_2\<close>)
  qed
  have "co_state c = RESERVED" "co_owner c = a" using c by auto
  then show ?thesis
    using transition_done [OF load rs event_types_in(3) wf reads, where thesis = ?thesis] a tried [of 3]
    by (auto simp: action_reserve_def validate_attempt_id_def text_value_def carried_out_def on_conflict_def loads_def numeral_eq_Suc
        is_text_def strip_id)
qed

lemma mem_reserve_new:
  assumes "mem_reserve i a m = (Inr (INVOKE_ALLOWED, c), m')"
  shows "is_text a \<and> mc_records m' (idempotency_key i) = Some c \<and>
    (mc_records m (idempotency_key i) = None \<and> c = \<lparr>co_identity = i, co_state = RESERVED, co_owner = a, co_attempts = 1, co_receipt = None\<rparr> \<or>
     (\<exists>b. mc_records m (idempotency_key i) = Some b \<and> (co_state b = PRE_EFFECT_FAILED \<or> co_state b = CONFIRMED_NO_EFFECT) \<and>
        c = b\<lparr>co_state := RESERVED, co_owner := a, co_attempts := co_attempts b + 1, co_receipt := None\<rparr>))"
proof (cases "mc_records m (idempotency_key i)")
  case None
  then show ?thesis using assms
    by (auto simp: mem_reserve_def Let_def mem_put_get is_text_def strip_iff split: if_splits option.splits)
next
  case (Some b)
  then show ?thesis using assms
    by (cases "co_state b") (auto simp: mem_reserve_def Let_def mem_put_get is_text_def strip_iff split: if_splits option.splits)
qed

lemma mem_reserve_reports:
  assumes "mem_reserve i a m = (Inr (d, c), m')" "d \<noteq> INVOKE_ALLOWED"
  shows "is_text a \<and> m' = m \<and> mc_records m (idempotency_key i) = Some c \<and>
    co_state c \<notin> {PRE_EFFECT_FAILED, CONFIRMED_NO_EFFECT} \<and>
    d = (if co_state c = RESERVED then IN_PROGRESS else if co_state c = OUTCOME_UNKNOWN then RECONCILE_REQUIRED
      else REPLAY_CONFIRMED)"
proof (cases "mc_records m (idempotency_key i)")
  case None
  then show ?thesis using assms by (auto simp: mem_reserve_def Let_def split: if_splits option.splits)
next
  case (Some b)
  then show ?thesis using assms
    by (cases "co_state b") (auto simp: mem_reserve_def Let_def is_text_def strip_iff split: if_splits option.splits)
qed

lemma reserve_reports:
  assumes "action_load table i = Inr (Some c, h)" "is_text a" "co_state c \<notin> {PRE_EFFECT_FAILED, CONFIRMED_NO_EFFECT}"
  shows "action_reserve alone table i a = (Inr (if co_state c = RESERVED then IN_PROGRESS
    else if co_state c = OUTCOME_UNKNOWN then RECONCILE_REQUIRED else REPLAY_CONFIRMED, c), table)"
proof -
  have "reserve_try (Suc 3) alone 0 table i a = (Inr (if co_state c = RESERVED then IN_PROGRESS
    else if co_state c = OUTCOME_UNKNOWN then RECONCILE_REQUIRED else REPLAY_CONFIRMED, c), table)"
    using assms(1,3) unfolding reserve_try.simps Let_def alone_def by (cases "co_state c") simp_all
  then show ?thesis using assms(2)
    by (simp add: action_reserve_def validate_attempt_id_def text_value_Inr [THEN iffD2] numeral_eq_Suc)
qed

lemma marked_unknown:
  assumes "dr_event_type d = EV_OUTCOME_UNKNOWN" "co_state c = RESERVED"
    and p: "dr_payload d = json_mapping (transition_body i [(''attempt_id'', JStr a)])"
  shows "load_next i (Some c) d = Inr (c\<lparr>co_state := OUTCOME_UNKNOWN\<rparr>)"
  using assms(1,2) transition_checked [OF _ p] by (simp add: transition_body_def load_next_def load_step_def event_names)

lemma durable_carries_out:
  assumes i: "action_identity_ok i" and ref: "is_text ref" "datetime_ok moment" "is_aware moment"
    and load: "action_load table i = Inr (mc_records m (idempotency_key i), h)"
    and rs: "action_records table i = Inr rs" "length rs < MAX_TRANSITIONS" and ok: "op_receipt_ok op"
    and run: "mem_exec i op m = (Inr x, m')"
  shows "carried_out i table x (action_exec i ref moment op table) \<and> mc_records m' (idempotency_key i) = Some (snd x)"
proof -
  define c where "c = snd x"
  have l: "load_records i rs = Inr (mc_records m (idempotency_key i), h)" using load rs(1) by (auto simp: action_load_Inr)
  have owner: "is_text (co_owner b)" if "mc_records m (idempotency_key i) = Some b" for b
    using load_owner_text l that by simp
  have digest: "identity_digest (co_identity b) = identity_digest i" if "mc_records m (idempotency_key i) = Some b" for b
    using load_identity l that by simp
  note append = carried_out_append [OF load rs]
  show ?thesis
  proof (cases op)
    case (OpReserve a)
    then obtain d where d: "fst x = Some d" "mem_reserve i a m = (Inr (d, c), m')" using run by (auto simp: c_def)
    show ?thesis
    proof (cases "d = INVOKE_ALLOWED")
      case True
      have x: "x = (Some INVOKE_ALLOWED, c)" using d(1) True by (cases x) (simp add: c_def)
      from mem_reserve_new [OF d(2) [unfolded True]] reserve_carried_out [OF load rs i] OpReserve show ?thesis
        unfolding x by fastforce
    next
      case False
      note q = mem_reserve_reports [OF d(2) False]
      have "action_reserve alone table i a = (Inr (d, c), table)"
        using reserve_reports [of table i c h a] load q by simp
      then show ?thesis using OpReserve q d(1) load by (auto simp: carried_out_def loads_def c_def)
    qed
  next
    case (OpDispatch a)
    have x: "x = (None, c)" using run OpDispatch by (cases x) (simp add: c_def)
    from OpDispatch obtain b where b: "mc_records m (idempotency_key i) = Some b" "co_state b = RESERVED" "co_owner b = a"
        "c = b\<lparr>co_state := OUTCOME_UNKNOWN\<rparr>" "mc_records m' (idempotency_key i) = Some c"
      using run x by (auto simp: mem_begin_dispatch_def checked_result mem_owned_Inr Let_def mem_put_get)
    have a: "validate_attempt_id a = Inr a" "text_value ref ''dispatch_ref'' = Inr ref"
      using owner b(1,3) ref(1) by (auto simp: validate_attempt_id_def text_value_Inr)
    have "action_owned table i a = Inr (b, h)" using a load b by (simp add: action_owned_def)
    then have "carried_out i table (None, c) (plain (action_begin_dispatch alone table i a ref (Some moment) moment))"
      using a load b(1-4) rs(1) ref(3) dispatched [of b ref moment _ i] owner [OF b(1)] ref
      by (simp add: action_begin_dispatch_def Let_def alone_def)
        (rule append; simp add: event_types_in transition_body_def)
    then show ?thesis using OpDispatch b(5) x by simp
  next
    case (OpPreFail a)
    have x: "x = (None, c)" using run OpPreFail by (cases x) (simp add: c_def)
    from OpPreFail obtain b where b: "mc_records m (idempotency_key i) = Some b" "co_state b = RESERVED" "co_owner b = a"
        "c = b\<lparr>co_state := PRE_EFFECT_FAILED\<rparr>" "mc_records m' (idempotency_key i) = Some c"
      using run x by (auto simp: mem_mark_pre_effect_failed_def checked_result mem_owned_Inr Let_def mem_put_get)
    have a: "validate_attempt_id a = Inr a" using owner b(1,3) by (auto simp: validate_attempt_id_def text_value_Inr)
    have "action_owned table i a = Inr (b, h)" using a load b by (simp add: action_owned_def)
    then have "carried_out i table (None, c) (plain (action_mark_pre_effect_failed alone table i a))"
      using a load b(1-4) failed_before [of _ b i a]
      by (simp add: action_mark_pre_effect_failed_def reload_def Let_def alone_def)
        (rule append; simp add: event_types_in transition_body_def)
    then show ?thesis using OpPreFail b(5) x by simp
  next
    case (OpUnknown a)
    have x: "x = (None, c)" using run OpUnknown by (cases x) (simp add: c_def)
    from OpUnknown obtain b where b: "mc_records m (idempotency_key i) = Some b" "co_state b = RESERVED" "co_owner b = a"
        "c = b\<lparr>co_state := OUTCOME_UNKNOWN\<rparr>" "mc_records m' (idempotency_key i) = Some c"
      using run x by (auto simp: mem_mark_outcome_unknown_def mem_begin_dispatch_def checked_result mem_owned_Inr Let_def mem_put_get)
    have a: "validate_attempt_id a = Inr a" using owner b(1,3) by (auto simp: validate_attempt_id_def text_value_Inr)
    have "action_owned table i a = Inr (b, h)" using a load b by (simp add: action_owned_def)
    then have "carried_out i table (None, c) (plain (action_mark_outcome_unknown alone table i a))"
      using a load b(1-4) marked_unknown [of _ b i a]
      by (simp add: action_mark_outcome_unknown_def reload_def Let_def alone_def)
        (rule append; simp add: event_types_in transition_body_def)
    then show ?thesis using OpUnknown b(5) x by simp
  next
    case (OpNoEffect q)
    have x: "x = (None, c)" using run OpNoEffect by (cases x) (simp add: c_def)
    from OpNoEffect obtain b where b: "mc_records m (idempotency_key i) = Some b" "co_state b = OUTCOME_UNKNOWN"
        "c = b\<lparr>co_state := CONFIRMED_NO_EFFECT\<rparr>" "mc_records m' (idempotency_key i) = Some c" "is_text q"
      using run x by (auto simp: mem_confirm_no_effect_def checked_result mem_require_Inr Let_def mem_put_get mem_reference_def
          is_text_def strip_iff split: if_splits)
    then have "carried_out i table (None, c) (plain (action_confirm_no_effect alone table i q))"
      using load confirmed_none [OF b(5) _ b(2)]
      by (simp add: action_confirm_no_effect_def reload_def Let_def alone_def text_value_def is_text_def strip_id)
        (rule append; simp add: event_types_in transition_body_def)
    then show ?thesis using OpNoEffect b(4) x by simp
  next
    case (OpSuccess a r)
    have x: "x = (None, c)" using run OpSuccess by (cases x) (simp add: c_def)
    from OpSuccess obtain b where b: "mc_records m (idempotency_key i) = Some b" "co_state b = OUTCOME_UNKNOWN"
        "c = b\<lparr>co_state := CONFIRMED_EXTERNAL_SUCCESS, co_receipt := Some r\<rparr>" "mc_records m' (idempotency_key i) = Some c"
        "verify_receipt_for_transition r i = Inr ()" "rt_attempt_id r = a" "co_owner b = a"
      using run x by (auto simp: mem_confirm_success_def checked_result mem_require_Inr Let_def mem_put_get split: if_splits)
    have "receipt_ok r" using ok OpSuccess by (simp add: op_receipt_ok_def)
    moreover have "validate_attempt_id a = Inr a" using owner b(1,7) by (auto simp: validate_attempt_id_def text_value_Inr)
    ultimately have "carried_out i table (None, c) (plain (action_confirm_success alone table i a r))"
      using load b confirmed_or_recovered(1) [of r b i _ a] digest [OF b(1)] wf_receipt_dict [of r]
      by (simp add: action_confirm_success_def reload_def Let_def alone_def confirmed_state_def)
        (rule append; simp add: event_types_in transition_body_def)
    then show ?thesis using OpSuccess b(4) x by simp
  next
    case (OpRecover r q)
    have x: "x = (None, c)" using run OpRecover by (cases x) (simp add: c_def)
    from OpRecover obtain b where b: "mc_records m (idempotency_key i) = Some b" "co_state b = OUTCOME_UNKNOWN"
        "c = b\<lparr>co_state := RECEIPT_RECOVERED, co_receipt := Some r\<rparr>" "mc_records m' (idempotency_key i) = Some c"
        "verify_receipt_for_transition r i = Inr ()" "rt_attempt_id r = co_owner b" "is_text q"
      using run x by (auto simp: mem_recover_receipt_def checked_result mem_require_Inr Let_def mem_put_get mem_reference_def
          is_text_def strip_iff split: if_splits)
    have "receipt_ok r" using ok OpRecover by (simp add: op_receipt_ok_def)
    then have "carried_out i table (None, c) (plain (action_recover_receipt alone table i r q))"
      using load b confirmed_or_recovered(2) [of r b i _ q] digest [OF b(1)] wf_receipt_dict [of r]
      by (simp add: action_recover_receipt_def reload_def Let_def alone_def confirmed_state_def text_value_def is_text_def strip_id)
        (rule append; simp add: event_types_in transition_body_def)
    then show ?thesis using OpRecover b(4) x by simp
  qed
qed

section \<open>Properties\<close>

text \<open>C30: The provider is called behind a durable fence. Whatever other workers do to the table between
  any two of its reads and writes, when \<^verbatim>\<open>execute\<close> calls the provider the table it left behind, if it
  still verifies and loads, loads this action as dispatched with its outcome open; so a crash during the
  call leaves the intent to act on record.\<close>

theorem provider_called_behind_fence:
  "case action_execute others1 others2 others3 table i a ref now provider of (r, table', called) \<Rightarrow>
     (case called of None \<Rightarrow> True | Some t \<Rightarrow>
        (case action_load t i of Inl _ \<Rightarrow> True
         | Inr (cur, h) \<Rightarrow> (case cur of None \<Rightarrow> False | Some c \<Rightarrow> co_state c = OUTCOME_UNKNOWN)))"
proof -
  have "outcome_open t i" if "action_execute others1 others2 others3 table i a ref now provider = (r, table', Some t)" for r table' t
    using that by (cases rule: execute_cases) (auto dest: returns_Inr [OF begin_dispatch_open])
  then show ?thesis by (auto simp: outcome_open_def split: prod.splits option.splits)
qed

text \<open>C29: A worker calls the provider at most once per open outcome. If \<^verbatim>\<open>execute\<close> called the provider,
  the action was before that unreserved, failed before any effect, or confirmed to have had none; at the
  call it is dispatched by this attempt; and from the table of the call on, every further \<^verbatim>\<open>execute\<close>, with
  any attempt, any dispatch reference and any provider, leaves the table alone and calls nothing.\<close>

theorem provider_called_once:
  "case action_execute alone alone alone table i a ref now provider of (r, table', called) \<Rightarrow>
     (case called of None \<Rightarrow> True | Some t \<Rightarrow>
        reservable table i \<and>
        (\<exists>c h. action_load t i = Inr (Some c, h) \<and> co_state c = OUTCOME_UNKNOWN \<and> co_owner c = a) \<and>
        (\<forall>a' ref' now' provider'. snd (action_execute alone alone alone t i a' ref' now' provider') = (t, None)))"
proof -
  have "reservable table i \<and> (\<exists>c h. action_load t i = Inr (Some c, h) \<and> co_state c = OUTCOME_UNKNOWN \<and> co_owner c = a) \<and>
      (\<forall>a' ref' now' provider'. snd (action_execute alone alone alone t i a' ref' now' provider') = (t, None))"
    if "action_execute alone alone alone table i a ref now provider = (r, table', Some t)" for r table' t
    using execute_alone_called [OF that] execute_again by (auto simp: loads_def)
  then show ?thesis by (auto split: prod.splits option.splits)
qed

text \<open>A receipt is final. If \<^verbatim>\<open>execute\<close> returned a receipt, then every later \<^verbatim>\<open>execute\<close> of the action on the
  resulting table returns that same receipt, or the refusal of its malformed attempt id, without touching
  the table or calling the provider.\<close>

theorem execute_replays_receipt:
  "case action_execute alone alone alone table i a ref now provider of (r, table', called) \<Rightarrow>
     (case r of Inl _ \<Rightarrow> True | Inr receipt \<Rightarrow>
        (\<forall>a' ref' now' provider'. action_execute alone alone alone table' i a' ref' now' provider' =
           (and_then (validate_attempt_id a') (\<lambda>_. return receipt), table', None)))"
proof -
  have "action_execute alone alone alone table' i a' ref' now' provider' =
      (and_then (validate_attempt_id a') (\<lambda>_. return q), table', None)"
    if "action_execute alone alone alone table i a ref now provider = (Inr q, table', called)" for q table' called a' ref' now' provider'
    using execute_alone_returned [OF that] execute_confirmed by blast
  then show ?thesis by (auto split: prod.splits sum.splits)
qed

text \<open>The records of an action balance. Whatever the table holds, if the action loads then its stream has
  as many dispatch and unknown-outcome records as confirmations of no effect, plus one exactly when the
  loaded state is open or confirmed; and the loaded head is the digest of the last record.\<close>

theorem action_records_balance:
  "case action_load table i of Inl _ \<Rightarrow> True | Inr (cur, h) \<Rightarrow>
     (\<exists>rs. action_records table i = Inr rs \<and> h = durable_head rs \<and>
        int (length (filter is_dispatch_record rs)) = int (length (filter is_no_effect_record rs)) +
          (case cur of None \<Rightarrow> 0 | Some c \<Rightarrow> if effect_open (co_state c) then 1 else 0))"
proof -
  have "\<exists>rs. action_records table i = Inr rs \<and> h = durable_head rs \<and>
      int (length (filter is_dispatch_record rs)) = int (length (filter is_no_effect_record rs)) +
        (case cur of None \<Rightarrow> 0 | Some c \<Rightarrow> if effect_open (co_state c) then 1 else 0)"
    if "action_load table i = Inr (cur, h)" for cur h
    using that load_records_effects load_records_head by (fastforce simp: action_load_Inr)
  then show ?thesis by (auto split: sum.splits)
qed

text \<open>C28: The durable coordinator implements the in-process one. On a verified table with room that loads an
  action to the record the in-process coordinator has for it, each operation of a worker on its own
  (reserve, begin dispatch, mark failed before the effect, mark the outcome unknown, confirm no effect, confirm
  success, recover a receipt) that returns in-process returns the same durably: the same record and, for a
  reservation, the same disposition, whether it allows the invocation or reports it in progress, in doubt or
  confirmed; and the table it leaves loads to the in-process record again. The one exception is that the unique
  digest refuses the row, which leaves the table as it was and exhibits a SHA-256 collision of two record bodies.\<close>

theorem durable_implements_in_process:
  assumes "action_identity_ok i" and "is_text ref" and "datetime_ok moment" and "is_aware moment"
    and "action_load table i = Inr (mc_records m (idempotency_key i), h)"
    and "action_records table i = Inr rs" and "length rs < MAX_TRANSITIONS" and "op_receipt_ok op"
    and "mem_exec i op m = (Inr x, m')"
  shows "(\<exists>t' h'. action_exec i ref moment op table = (Inr x, t') \<and>
       action_load t' i = Inr (mc_records m' (idempotency_key i), h')) \<or>
    action_exec i ref moment op table = (raise SqliteIntegrityError, table) \<and>
      (\<exists>r r'. dr_sequence r < dr_sequence r' \<and> durable_clash r r')"
  using durable_carries_out [OF assms] by (auto simp: carried_out_def loads_def)

section \<open>Witnesses\<close>

lemma sample_action_ok: "action_identity_ok sample_action"
  by (simp add: action_identity_ok_def sample_action_def address_ok_def is_identifier_def is_text_def stripped_def is_space_def
      address_for_value_def)

lemma durable_implements_in_process_witness:
  "\<exists>h moment. action_load [] sample_action = Inr (None, h) \<and>
    ((\<exists>t' h'. action_exec sample_action ''r'' moment (OpReserve ''a'') [] = (Inr (Some INVOKE_ALLOWED, sample_reserved), t') \<and>
       action_load t' sample_action = Inr (Some sample_reserved, h')) \<or>
     action_exec sample_action ''r'' moment (OpReserve ''a'') [] = (raise SqliteIntegrityError, []) \<and>
       (\<exists>r r'. dr_sequence r < dr_sequence r' \<and> durable_clash r r'))"
proof (intro exI conjI)
  let ?t = "\<lparr>dt_day = 1, dt_micros = 0, dt_offset = Some 0\<rparr> :: py_datetime"
  have r: "is_text ''r''" by (simp add: is_text_def stripped_def is_space_def)
  have t: "datetime_ok ?t" "is_aware ?t" by (simp_all add: datetime_ok_def is_aware_def date_ok_def max_ordinal_def US_DAY_def)
  have empty: "action_records [] sample_action = Inr []"
    using durable_empty by (simp add: action_records_def)
  have load: "action_load [] sample_action = Inr (mc_records coordinator_init (idempotency_key sample_action), DURABLE_GENESIS)"
    by (simp add: action_load_def empty load_records_def coordinator_init_def)
  then show "action_load [] sample_action = Inr (None, DURABLE_GENESIS)" by (simp add: coordinator_init_def)
  from durable_implements_in_process [OF sample_action_ok r t load empty _ _ sample_action_reserved]
  show "(\<exists>t' h'. action_exec sample_action ''r'' ?t (OpReserve ''a'') [] = (Inr (Some INVOKE_ALLOWED, sample_reserved), t') \<and>
       action_load t' sample_action = Inr (Some sample_reserved, h')) \<or>
     action_exec sample_action ''r'' ?t (OpReserve ''a'') [] = (raise SqliteIntegrityError, []) \<and>
       (\<exists>r r'. dr_sequence r < dr_sequence r' \<and> durable_clash r r')"
    by (simp add: MAX_TRANSITIONS_def op_receipt_ok_def mem_put_def split: if_splits)
qed

end
