(* ===== verification/Case_Hardening.thy ===== *)
theory Case_Hardening
  imports Case_Ledger External_Action
begin

text \<open>
  The contracts of case product hardening, \<^verbatim>\<open>core/case_product_hardening_v1.py\<close>, and the operations that
  record them in the case ledger: filing, response classification and delta, legal effect, closure and
  reopening. The external action identity and receipt are in \<open>External_Action\<close>. The clock is an argument
  where the code reads it; a \<^verbatim>\<open>frozenset\<close> is the list of its elements in the order it is iterated.
\<close>

definition HARDENING_SCHEMA_V1 :: string where "HARDENING_SCHEMA_V1 = ''lukart.case-product-hardening.v1''"
definition EVENT_ENVELOPE_SCHEMA_V1 :: string where "EVENT_ENVELOPE_SCHEMA_V1 = ''lukart.case-event-envelope.v1''"
definition RESPONSE_CLASSIFICATION_SCHEMA_V1 :: string where
  "RESPONSE_CLASSIFICATION_SCHEMA_V1 = ''lukart.response-classification.v1''"
definition RESPONSE_DELTA_SCHEMA_V1 :: string where "RESPONSE_DELTA_SCHEMA_V1 = ''lukart.response-delta.v1''"
definition LEGAL_RULE_SCHEMA_V1 :: string where "LEGAL_RULE_SCHEMA_V1 = ''lukart.temporal-legal-rule.v1''"
definition LEGAL_EFFECT_SCHEMA_V1 :: string where "LEGAL_EFFECT_SCHEMA_V1 = ''lukart.legal-effect-assessment.v1''"
definition CLOSURE_ASSESSMENT_SCHEMA_V1 :: string where
  "CLOSURE_ASSESSMENT_SCHEMA_V1 = ''lukart.closure-assessment.v1''"
definition REOPEN_DECISION_SCHEMA_V1 :: string where "REOPEN_DECISION_SCHEMA_V1 = ''lukart.case-reopen-decision.v1''"
definition AUTHORITY_APPROVAL_SCHEMA_V1 :: string where
  "AUTHORITY_APPROVAL_SCHEMA_V1 = ''lukart.authority-approval.v1''"
definition CASE_AUTHORITY_SCHEMA_V1 :: string where "CASE_AUTHORITY_SCHEMA_V1 = ''lukart.case-authority-grant.v1''"
definition CONTENT_EVIDENCE_SCHEMA_V1 :: string where
  "CONTENT_EVIDENCE_SCHEMA_V1 = ''lukart.content-addressed-evidence.v1''"

definition EXTERNAL_ACTION_RECEIPT_RECORDED :: string where
  "EXTERNAL_ACTION_RECEIPT_RECORDED = ''EXTERNAL_ACTION_RECEIPT_RECORDED''"
definition CASE_FILED :: string where "CASE_FILED = ''CASE_FILED''"
definition CASE_CLOSED :: string where "CASE_CLOSED = ''CASE_CLOSED''"
definition CASE_REOPENED :: string where "CASE_REOPENED = ''CASE_REOPENED''"

definition cph_json_mapping :: "(pykey \<times> pyval) list \<Rightarrow> string \<Rightarrow> (string \<times> json) list result" where
  "cph_json_mapping value field_name =
     (case normalize_value (PyDict value) of
        Inl _ \<Rightarrow> raise_cph (field_name @ '' is not canonically serializable'')
      | Inr (JObj decoded) \<Rightarrow> return decoded
      | Inr _ \<Rightarrow> raise_cph (field_name @ '' must be a mapping''))"

text \<open>The loops over field names.\<close>

definition cph_identifiers :: "(string \<times> string) list \<Rightarrow> unit result" where
  "cph_identifiers named = and_then (map_result (\<lambda>(name, v). cph_identifier v name) named) (\<lambda>_. return ())"

definition cph_aware_opt :: "py_datetime option \<Rightarrow> string \<Rightarrow> unit result" where
  "cph_aware_opt t field_name =
     (case t of None \<Rightarrow> return () | Some x \<Rightarrow> and_then (cph_aware x field_name) (\<lambda>_. return ()))"

definition cph_prerequisite :: "string \<Rightarrow> string \<times> json \<Rightarrow> (string \<times> json) result" where
  "cph_prerequisite field_name entry =
     and_then (cph_identifier (fst entry) (field_name @ '' key'')) (\<lambda>_.
     case snd entry of JNull \<Rightarrow> return entry | JBool _ \<Rightarrow> return entry
     | _ \<Rightarrow> raise_cph (field_name @ '' values must be bool or None''))"

definition cph_prerequisites :: "(string \<times> json) list \<Rightarrow> string \<Rightarrow> (string \<times> json) list result" where
  "cph_prerequisites value field_name =
     and_then (map_result (cph_prerequisite field_name) value) (\<lambda>normalized. return (dict_of normalized))"

section \<open>Event envelopes\<close>

record event_envelope =
  ee_occurred_at :: py_datetime
  ee_recorded_at :: py_datetime
  ee_schema_version :: string
  ee_policy_version :: string
  ee_actor_ref :: string
  ee_authority_ref :: string
  ee_correlation_id :: string
  ee_causation_id :: string
  ee_payload :: "(string \<times> json) list"
  ee_payload_digest :: content_address
  ee_schema :: string

definition envelope_verify :: "event_envelope \<Rightarrow> unit result" where
  "envelope_verify e =
     (if ee_payload_digest e \<noteq> address_for_value (JObj (ee_payload e))
      then raise_cph ''event payload digest mismatch'' else return ())"

definition envelope_init :: "event_envelope \<Rightarrow> event_envelope result" where
  "envelope_init e =
     (if ee_schema e \<noteq> EVENT_ENVELOPE_SCHEMA_V1 then raise_cph ''unsupported event envelope schema''
      else and_then (cph_aware (ee_occurred_at e) ''occurred_at'') (\<lambda>_.
      and_then (cph_aware (ee_recorded_at e) ''recorded_at'') (\<lambda>_.
      and_then (cph_identifiers
         [(''schema_version'', ee_schema_version e), (''policy_version'', ee_policy_version e),
          (''actor_ref'', ee_actor_ref e), (''authority_ref'', ee_authority_ref e),
          (''correlation_id'', ee_correlation_id e), (''causation_id'', ee_causation_id e)]) (\<lambda>_.
      let e' = e\<lparr>ee_payload := json_mapping (ee_payload e)\<rparr> in
      and_then (envelope_verify e') (\<lambda>_. return e')))))"

definition envelope_build ::
  "(pykey \<times> pyval) list \<Rightarrow> string \<Rightarrow> string \<Rightarrow> string \<Rightarrow> string \<Rightarrow> string \<Rightarrow> string \<Rightarrow> py_datetime option \<Rightarrow>
   py_datetime option \<Rightarrow> py_datetime \<Rightarrow> event_envelope result" where
  "envelope_build payload schema_version policy_version actor_ref authority_ref correlation_id causation_id
     occurred_at recorded_at now =
     and_then (cph_json_mapping payload ''event payload'') (\<lambda>copied.
     envelope_init \<lparr>ee_occurred_at = (case occurred_at of None \<Rightarrow> now | Some t \<Rightarrow> t),
       ee_recorded_at = (case recorded_at of None \<Rightarrow> now | Some t \<Rightarrow> t), ee_schema_version = schema_version,
       ee_policy_version = policy_version, ee_actor_ref = actor_ref, ee_authority_ref = authority_ref,
       ee_correlation_id = correlation_id, ee_causation_id = causation_id, ee_payload = copied,
       ee_payload_digest = address_for_value (JObj copied), ee_schema = EVENT_ENVELOPE_SCHEMA_V1\<rparr>)"

definition envelope_dict :: "event_envelope \<Rightarrow> (string \<times> json) list" where
  "envelope_dict e =
    [(''schema'', JStr (ee_schema e)),
     (''schema_version'', JStr (ee_schema_version e)),
     (''policy_version'', JStr (ee_policy_version e)),
     (''occurred_at'', JStr (isoformat (ee_occurred_at e))),
     (''recorded_at'', JStr (isoformat (ee_recorded_at e))),
     (''actor_ref'', JStr (ee_actor_ref e)),
     (''authority_ref'', JStr (ee_authority_ref e)),
     (''correlation_id'', JStr (ee_correlation_id e)),
     (''causation_id'', JStr (ee_causation_id e)),
     (''payload_digest'', JObj (address_dict (ee_payload_digest e))),
     (''payload'', JObj (ee_payload e))]"

section \<open>Evidence\<close>

record addressed_evidence =
  ev_evidence_id :: string
  ev_case_id :: string
  ev_content_digest :: content_address
  ev_media_type :: string
  ev_source_ref :: string
  ev_received_at :: py_datetime
  ev_external_timestamp :: "py_datetime option"
  ev_parser_version :: string
  ev_extraction_version :: string
  ev_storage_ref :: string
  ev_privacy_classification :: string
  ev_schema :: string

definition addressed_evidence_init :: "addressed_evidence \<Rightarrow> addressed_evidence result" where
  "addressed_evidence_init e =
     (if ev_schema e \<noteq> CONTENT_EVIDENCE_SCHEMA_V1 then raise_cph ''unsupported content evidence schema''
      else and_then (cph_identifiers
         [(''evidence_id'', ev_evidence_id e), (''media_type'', ev_media_type e), (''source_ref'', ev_source_ref e),
          (''parser_version'', ev_parser_version e), (''extraction_version'', ev_extraction_version e),
          (''storage_ref'', ev_storage_ref e), (''privacy_classification'', ev_privacy_classification e)]) (\<lambda>_.
      and_then (cph_aware (ev_received_at e) ''received_at'') (\<lambda>_.
      and_then (cph_aware_opt (ev_external_timestamp e) ''external_timestamp'') (\<lambda>_. return e))))"

definition addressed_evidence_dict :: "addressed_evidence \<Rightarrow> (string \<times> json) list" where
  "addressed_evidence_dict e =
    [(''schema'', JStr (ev_schema e)),
     (''evidence_id'', JStr (ev_evidence_id e)),
     (''case_id'', JStr (ev_case_id e)),
     (''content_digest'', JObj (address_dict (ev_content_digest e))),
     (''media_type'', JStr (ev_media_type e)),
     (''source_ref'', JStr (ev_source_ref e)),
     (''received_at'', JStr (isoformat (ev_received_at e))),
     (''external_timestamp'', opt_iso (ev_external_timestamp e)),
     (''parser_version'', JStr (ev_parser_version e)),
     (''extraction_version'', JStr (ev_extraction_version e)),
     (''storage_ref'', JStr (ev_storage_ref e)),
     (''privacy_classification'', JStr (ev_privacy_classification e))]"

section \<open>Authority\<close>

record authority_approval =
  aa_approval_id :: string
  aa_actor_ref :: string
  aa_authority_basis :: string
  aa_scope :: string
  aa_case_id :: string
  aa_artifact_id :: string
  aa_artifact_version :: string
  aa_artifact_digest :: content_address
  aa_action_type :: string
  aa_granted_at :: py_datetime
  aa_expires_at :: "py_datetime option"
  aa_revoked_at :: "py_datetime option"
  aa_schema :: string

text \<open>The checks on the end of an authority: aware, and not before the grant.\<close>

definition cph_not_before :: "py_datetime option \<Rightarrow> py_datetime \<Rightarrow> string \<Rightarrow> unit result" where
  "cph_not_before t granted_at field_name =
     (case t of None \<Rightarrow> return ()
      | Some x \<Rightarrow> and_then (cph_aware x field_name) (\<lambda>_.
          if instant x < instant granted_at then raise_cph (field_name @ '' cannot precede granted_at'')
          else return ()))"

definition approval_init :: "authority_approval \<Rightarrow> authority_approval result" where
  "approval_init a =
     (if aa_schema a \<noteq> AUTHORITY_APPROVAL_SCHEMA_V1 then raise_cph ''unsupported authority approval schema''
      else and_then (cph_identifiers
         [(''approval_id'', aa_approval_id a), (''actor_ref'', aa_actor_ref a),
          (''authority_basis'', aa_authority_basis a), (''scope'', aa_scope a),
          (''artifact_version'', aa_artifact_version a), (''action_type'', aa_action_type a)]) (\<lambda>_.
      and_then (cph_aware (aa_granted_at a) ''granted_at'') (\<lambda>_.
      and_then (cph_not_before (aa_expires_at a) (aa_granted_at a) ''expires_at'') (\<lambda>_.
      and_then (cph_not_before (aa_revoked_at a) (aa_granted_at a) ''revoked_at'') (\<lambda>_. return a)))))"

text \<open>The window both kinds of authority test: revocation ends it at once, expiry after its instant.\<close>

definition authority_in_force :: "py_datetime \<Rightarrow> py_datetime option \<Rightarrow> py_datetime option \<Rightarrow> py_datetime \<Rightarrow> bool" where
  "authority_in_force granted_at revoked_at expires_at moment =
     (instant granted_at \<le> instant moment \<and>
      (case revoked_at of None \<Rightarrow> True | Some t \<Rightarrow> instant moment < instant t) \<and>
      (case expires_at of None \<Rightarrow> True | Some t \<Rightarrow> instant moment \<le> instant t))"


record case_grant =
  cg_grant_id :: string
  cg_case_id :: string
  cg_actor_ref :: string
  cg_authority_ref :: string
  cg_allowed_actions :: "string list"
  cg_granted_at :: py_datetime
  cg_expires_at :: "py_datetime option"
  cg_revoked_at :: "py_datetime option"
  cg_schema :: string

definition case_grant_init :: "case_grant \<Rightarrow> case_grant result" where
  "case_grant_init g =
     (if cg_schema g \<noteq> CASE_AUTHORITY_SCHEMA_V1 then raise_cph ''unsupported CASE authority schema''
      else and_then (cph_identifiers
         [(''grant_id'', cg_grant_id g), (''actor_ref'', cg_actor_ref g), (''authority_ref'', cg_authority_ref g)]) (\<lambda>_.
      if cg_allowed_actions g = [] then raise_cph ''CASE authority must permit at least one action''
      else and_then (cph_identifiers (map (\<lambda>a. (''allowed_action'', a)) (cg_allowed_actions g))) (\<lambda>_.
      and_then (cph_aware (cg_granted_at g) ''granted_at'') (\<lambda>_.
      and_then (cph_not_before (cg_expires_at g) (cg_granted_at g) ''expires_at'') (\<lambda>_.
      and_then (cph_not_before (cg_revoked_at g) (cg_granted_at g) ''revoked_at'') (\<lambda>_. return g))))))"

definition grant_authorizes ::
  "case_grant \<Rightarrow> string \<Rightarrow> string \<Rightarrow> string \<Rightarrow> string \<Rightarrow> py_datetime option \<Rightarrow> py_datetime \<Rightarrow> bool result" where
  "grant_authorizes g case_id action actor_ref authority_ref at now =
     (let moment = (case at of None \<Rightarrow> now | Some t \<Rightarrow> t) in
      and_then (cph_aware moment ''authorization check time'') (\<lambda>_.
      return (authority_in_force (cg_granted_at g) (cg_revoked_at g) (cg_expires_at g) moment \<and>
        cg_case_id g = case_id \<and> cg_actor_ref g = actor_ref \<and> cg_authority_ref g = authority_ref \<and>
        action \<in> set (cg_allowed_actions g))))"

section \<open>Responses\<close>

datatype response_signal = RS_ACKNOWLEDGMENT | RS_INFORMATION_ONLY | RS_FUTURE_RESPONSE_PROMISED | RS_PARTIAL_RESPONSE
  | RS_SUBSTANTIVE_RESPONSE | RS_RESOLUTION_ISSUED | RS_NO_RESOLUTION | RS_UNKNOWN | RS_UNRESOLVED | RS_FINAL_RESOLUTION

fun signal_value :: "response_signal \<Rightarrow> string" where
  "signal_value RS_ACKNOWLEDGMENT = ''ACKNOWLEDGMENT''"
| "signal_value RS_INFORMATION_ONLY = ''INFORMATION_ONLY''"
| "signal_value RS_FUTURE_RESPONSE_PROMISED = ''FUTURE_RESPONSE_PROMISED''"
| "signal_value RS_PARTIAL_RESPONSE = ''PARTIAL_RESPONSE''"
| "signal_value RS_SUBSTANTIVE_RESPONSE = ''SUBSTANTIVE_RESPONSE''"
| "signal_value RS_RESOLUTION_ISSUED = ''RESOLUTION_ISSUED''"
| "signal_value RS_NO_RESOLUTION = ''NO_RESOLUTION''"
| "signal_value RS_UNKNOWN = ''UNKNOWN''"
| "signal_value RS_UNRESOLVED = ''UNRESOLVED''"
| "signal_value RS_FINAL_RESOLUTION = ''FINAL_RESOLUTION''"

text \<open>
  The markers of a negated resolution that are strings of the model. The other two of the code contain the
  letter e with ogonek, above code point 255, which no text of the model contains, so that they match none.
\<close>

definition NEGATED_RESOLUTION_MARKERS :: "string list" where
  "NEGATED_RESOLUTION_MARKERS = [''nie wydano decyzji'', ''no resolution was issued'', ''no decision was issued'']"

text \<open>\<^verbatim>\<open>s.split()\<close>, and \<^verbatim>\<open>p in s\<close>.\<close>

fun split_words :: "string \<Rightarrow> string list" where
  "split_words [] = []"
| "split_words (c # cs) =
     (if is_space c then split_words cs
      else (case cs of [] \<Rightarrow> [[c]]
        | d # _ \<Rightarrow> if is_space d then [c] # split_words cs
            else (case split_words cs of [] \<Rightarrow> [[c]] | w # ws \<Rightarrow> (c # w) # ws)))"

fun contains :: "string \<Rightarrow> string \<Rightarrow> bool" where
  "contains p [] = (p = [])"
| "contains p (c # cs) = (startswith p (c # cs) \<or> contains p cs)"

record response_classification =
  rc_response_digest :: content_address
  rc_signals :: "response_signal list"
  rc_evidence_refs :: "string list"
  rc_validator_version :: string
  rc_candidate_source :: string
  rc_classification_digest :: content_address
  rc_schema :: string

definition classification_body :: "response_classification \<Rightarrow> (string \<times> json) list" where
  "classification_body c =
    [(''schema'', JStr RESPONSE_CLASSIFICATION_SCHEMA_V1),
     (''response_digest'', JObj (address_dict (rc_response_digest c))),
     (''signals'', JList (map JStr (sort (map signal_value (rc_signals c))))),
     (''evidence_refs'', JList (map JStr (rc_evidence_refs c))),
     (''validator_version'', JStr (rc_validator_version c)),
     (''candidate_source'', JStr (rc_candidate_source c))]"


definition classification_verify :: "response_classification \<Rightarrow> unit result" where
  "classification_verify c =
     (if rc_classification_digest c \<noteq> address_for_value (JObj (classification_body c))
      then raise_cph ''response classification content-address mismatch'' else return ())"

definition classification_init :: "response_classification \<Rightarrow> response_classification result" where
  "classification_init c =
     (if rc_schema c \<noteq> RESPONSE_CLASSIFICATION_SCHEMA_V1
      then raise_cph ''unsupported response classification schema''
      else and_then (cph_identifier (rc_validator_version c) ''validator_version'') (\<lambda>_.
      and_then (cph_identifier (rc_candidate_source c) ''candidate_source'') (\<lambda>_.
      and_then (cph_identifiers (map (\<lambda>r. (''classification evidence_ref'', r)) (rc_evidence_refs c))) (\<lambda>_.
      and_then (classification_verify c) (\<lambda>_. return c)))))"

definition negated_resolution :: "string \<Rightarrow> bool" where
  "negated_resolution response_text =
     (let normalized = join '' '' (split_words (lower response_text)) in
      \<exists>marker \<in> set NEGATED_RESOLUTION_MARKERS. contains marker normalized)"

definition validate_candidate ::
  "string \<Rightarrow> response_signal list \<Rightarrow> string list \<Rightarrow> string \<Rightarrow> string \<Rightarrow> response_classification result" where
  "validate_candidate response_text proposed_signals evidence_refs validator_version candidate_source =
     (let signals = remdups proposed_signals;
          negated = negated_resolution response_text;
          conflicted = RS_RESOLUTION_ISSUED \<in> set signals \<and> RS_NO_RESOLUTION \<in> set signals in
      if conflicted \<and> RS_UNRESOLVED \<notin> set signals
      then raise_cph ''conflicting resolution signals must remain explicitly UNRESOLVED''
      else if RS_FINAL_RESOLUTION \<in> set signals \<and>
        (RS_RESOLUTION_ISSUED \<notin> set signals \<or> RS_NO_RESOLUTION \<in> set signals \<or> RS_UNKNOWN \<in> set signals \<or>
         RS_UNRESOLVED \<in> set signals \<or> negated)
      then raise_cph ''FINAL_RESOLUTION lacks safe affirmative resolution evidence''
      else let c = \<lparr>rc_response_digest = address_for_value (JObj [(''response_text'', JStr response_text)]),
             rc_signals = signals, rc_evidence_refs = evidence_refs, rc_validator_version = validator_version,
             rc_candidate_source = candidate_source,
             rc_classification_digest = \<lparr>ca_algorithm = SHA256, ca_digest = []\<rparr>,
             rc_schema = RESPONSE_CLASSIFICATION_SCHEMA_V1\<rparr> in
      classification_init (c\<lparr>rc_classification_digest := address_for_value (JObj (classification_body c))\<rparr>))"

datatype epistemic_label = EL_FACT | EL_CLAIM | EL_HYPOTHESIS | EL_INTERPRETATION | EL_UNKNOWN | EL_UNRESOLVED

fun label_value :: "epistemic_label \<Rightarrow> string" where
  "label_value EL_FACT = ''FACT''"
| "label_value EL_CLAIM = ''CLAIM''"
| "label_value EL_HYPOTHESIS = ''HYPOTHESIS''"
| "label_value EL_INTERPRETATION = ''INTERPRETATION''"
| "label_value EL_UNKNOWN = ''UNKNOWN''"
| "label_value EL_UNRESOLVED = ''UNRESOLVED''"

record delta_assertion =
  da_statement :: string
  da_label :: epistemic_label
  da_evidence_refs :: "string list"

definition delta_assertion_init :: "delta_assertion \<Rightarrow> delta_assertion result" where
  "delta_assertion_init a =
     and_then (cph_identifier (da_statement a) ''delta assertion statement'') (\<lambda>_.
     and_then (cph_identifiers (map (\<lambda>r. (''delta assertion evidence_ref'', r)) (da_evidence_refs a))) (\<lambda>_.
     if da_label a = EL_FACT \<and> da_evidence_refs a = [] then raise_cph ''FACT delta assertion requires evidence''
     else return a))"

definition delta_assertion_dict :: "delta_assertion \<Rightarrow> (string \<times> json) list" where
  "delta_assertion_dict a =
    [(''statement'', JStr (da_statement a)),
     (''label'', JStr (label_value (da_label a))),
     (''evidence_refs'', JList (map JStr (da_evidence_refs a)))]"

record response_delta =
  rd_case_id :: string
  rd_base_ledger_position :: int
  rd_base_state_digest :: content_address
  rd_response_digest :: content_address
  rd_classification_digest :: content_address
  rd_assertions :: "delta_assertion list"
  rd_contradictions :: "string list"
  rd_deadline_changes :: "string list"
  rd_procedural_changes :: "string list"
  rd_lifecycle_candidates :: "string list"
  rd_validator_version :: string
  rd_delta_digest :: content_address
  rd_schema_version :: string
  rd_schema :: string

definition delta_body :: "response_delta \<Rightarrow> (string \<times> json) list" where
  "delta_body d =
    [(''schema'', JStr RESPONSE_DELTA_SCHEMA_V1),
     (''schema_version'', JStr (rd_schema_version d)),
     (''case_id'', JStr (rd_case_id d)),
     (''base_ledger_position'', JInt (rd_base_ledger_position d)),
     (''base_state_digest'', JObj (address_dict (rd_base_state_digest d))),
     (''response_digest'', JObj (address_dict (rd_response_digest d))),
     (''classification_digest'', JObj (address_dict (rd_classification_digest d))),
     (''assertions'', JList (map (\<lambda>a. JObj (delta_assertion_dict a)) (rd_assertions d))),
     (''contradictions'', JList (map JStr (rd_contradictions d))),
     (''deadline_changes'', JList (map JStr (rd_deadline_changes d))),
     (''procedural_changes'', JList (map JStr (rd_procedural_changes d))),
     (''lifecycle_candidates'', JList (map JStr (rd_lifecycle_candidates d))),
     (''validator_version'', JStr (rd_validator_version d))]"


definition delta_verify :: "response_delta \<Rightarrow> unit result" where
  "delta_verify d =
     (if rd_delta_digest d \<noteq> address_for_value (JObj (delta_body d))
      then raise_cph ''response delta content-address mismatch'' else return ())"

definition delta_init :: "response_delta \<Rightarrow> response_delta result" where
  "delta_init d =
     (if rd_schema d \<noteq> RESPONSE_DELTA_SCHEMA_V1 then raise_cph ''unsupported response delta schema''
      else if rd_base_ledger_position d < -1 then raise_cph ''base_ledger_position cannot be less than -1''
      else and_then (cph_identifier (rd_validator_version d) ''delta validator_version'') (\<lambda>_.
      and_then (delta_verify d) (\<lambda>_. return d)))"

definition delta_build ::
  "string \<Rightarrow> int \<Rightarrow> content_address \<Rightarrow> response_classification \<Rightarrow> delta_assertion list \<Rightarrow> string list \<Rightarrow> string list \<Rightarrow>
   string list \<Rightarrow> string list \<Rightarrow> string \<Rightarrow> response_delta result" where
  "delta_build case_id base_ledger_position base_state_digest classification assertions contradictions
     deadline_changes procedural_changes lifecycle_candidates validator_version =
     (let d = \<lparr>rd_case_id = case_id, rd_base_ledger_position = base_ledger_position,
            rd_base_state_digest = base_state_digest, rd_response_digest = rc_response_digest classification,
            rd_classification_digest = rc_classification_digest classification, rd_assertions = assertions,
            rd_contradictions = contradictions, rd_deadline_changes = deadline_changes,
            rd_procedural_changes = procedural_changes, rd_lifecycle_candidates = lifecycle_candidates,
            rd_validator_version = validator_version, rd_delta_digest = \<lparr>ca_algorithm = SHA256, ca_digest = []\<rparr>,
            rd_schema_version = ''1'', rd_schema = RESPONSE_DELTA_SCHEMA_V1\<rparr> in
      delta_init (d\<lparr>rd_delta_digest := address_for_value (JObj (delta_body d))\<rparr>))"

section \<open>Legal effect\<close>

record legal_rule =
  lr_jurisdiction :: string
  lr_rule_id :: string
  lr_source_ref :: string
  lr_source_digest :: content_address
  lr_valid_from :: py_date
  lr_valid_to :: "py_date option"
  lr_retrieved_at :: py_datetime
  lr_verified_at :: py_datetime
  lr_verification_method :: string
  lr_verified :: bool
  lr_schema :: string

definition legal_rule_init :: "legal_rule \<Rightarrow> legal_rule result" where
  "legal_rule_init r =
     (if lr_schema r \<noteq> LEGAL_RULE_SCHEMA_V1 then raise_cph ''unsupported temporal legal rule schema''
      else and_then (cph_identifiers
         [(''jurisdiction'', lr_jurisdiction r), (''rule_id'', lr_rule_id r), (''source_ref'', lr_source_ref r),
          (''verification_method'', lr_verification_method r)]) (\<lambda>_.
      if (case lr_valid_to r of None \<Rightarrow> False | Some t \<Rightarrow> t < lr_valid_from r)
      then raise_cph ''legal rule valid_to precedes valid_from''
      else and_then (cph_aware (lr_retrieved_at r) ''legal rule retrieved_at'') (\<lambda>_.
      and_then (cph_aware (lr_verified_at r) ''legal rule verified_at'') (\<lambda>_. return r))))"

definition valid_on :: "legal_rule \<Rightarrow> py_date \<Rightarrow> bool" where
  "valid_on r on_date =
     (lr_valid_from r \<le> on_date \<and> (case lr_valid_to r of None \<Rightarrow> True | Some t \<Rightarrow> on_date \<le> t))"

definition legal_rule_dict :: "legal_rule \<Rightarrow> (string \<times> json) list" where
  "legal_rule_dict r =
    [(''schema'', JStr (lr_schema r)),
     (''jurisdiction'', JStr (lr_jurisdiction r)),
     (''rule_id'', JStr (lr_rule_id r)),
     (''source_ref'', JStr (lr_source_ref r)),
     (''source_digest'', JObj (address_dict (lr_source_digest r))),
     (''valid_from'', JStr (iso_date (lr_valid_from r))),
     (''valid_to'', (case lr_valid_to r of None \<Rightarrow> JNull | Some t \<Rightarrow> JStr (iso_date t))),
     (''retrieved_at'', JStr (isoformat (lr_retrieved_at r))),
     (''verified_at'', JStr (isoformat (lr_verified_at r))),
     (''verification_method'', JStr (lr_verification_method r)),
     (''verified'', JBool (lr_verified r))]"

datatype effect_status = LE_UNKNOWN | LE_UNRESOLVED | LE_VERIFIED_EFFECTIVE | LE_VERIFIED_NOT_EFFECTIVE | LE_NOT_APPLICABLE

fun effect_status_value :: "effect_status \<Rightarrow> string" where
  "effect_status_value LE_UNKNOWN = ''UNKNOWN''"
| "effect_status_value LE_UNRESOLVED = ''UNRESOLVED''"
| "effect_status_value LE_VERIFIED_EFFECTIVE = ''VERIFIED_EFFECTIVE''"
| "effect_status_value LE_VERIFIED_NOT_EFFECTIVE = ''VERIFIED_NOT_EFFECTIVE''"
| "effect_status_value LE_NOT_APPLICABLE = ''NOT_APPLICABLE''"

record legal_effect =
  lf_case_id :: string
  lf_subject_ref :: string
  lf_lifecycle_ref :: string
  lf_rule_digest :: "content_address option"
  lf_effect_status :: effect_status
  lf_prerequisites :: "(string \<times> json) list"
  lf_evidence_refs :: "string list"
  lf_contradictions :: "string list"
  lf_assessed_on :: py_date
  lf_effective_at :: "py_datetime option"
  lf_assessment_digest :: content_address
  lf_schema :: string

definition legal_effect_body :: "legal_effect \<Rightarrow> (string \<times> json) list" where
  "legal_effect_body a =
    [(''schema'', JStr LEGAL_EFFECT_SCHEMA_V1),
     (''case_id'', JStr (lf_case_id a)),
     (''subject_ref'', JStr (lf_subject_ref a)),
     (''lifecycle_ref'', JStr (lf_lifecycle_ref a)),
     (''rule_digest'', opt_address (lf_rule_digest a)),
     (''effect_status'', JStr (effect_status_value (lf_effect_status a))),
     (''prerequisites'', JObj (lf_prerequisites a)),
     (''evidence_refs'', JList (map JStr (lf_evidence_refs a))),
     (''contradictions'', JList (map JStr (lf_contradictions a))),
     (''assessed_on'', JStr (iso_date (lf_assessed_on a))),
     (''effective_at'', opt_iso (lf_effective_at a))]"


definition legal_effect_verify :: "legal_effect \<Rightarrow> unit result" where
  "legal_effect_verify a =
     (if lf_assessment_digest a \<noteq> address_for_value (JObj (legal_effect_body a))
      then raise_cph ''legal effect assessment content-address mismatch'' else return ())"

definition legal_effect_init :: "legal_effect \<Rightarrow> legal_effect result" where
  "legal_effect_init a =
     (if lf_schema a \<noteq> LEGAL_EFFECT_SCHEMA_V1 then raise_cph ''unsupported legal effect schema''
      else and_then (cph_identifier (lf_subject_ref a) ''subject_ref'') (\<lambda>_.
      and_then (cph_identifier (lf_lifecycle_ref a) ''lifecycle_ref'') (\<lambda>_.
      and_then (cph_prerequisites (lf_prerequisites a) ''legal effect prerequisites'') (\<lambda>copied.
      let a' = a\<lparr>lf_prerequisites := copied\<rparr> in
      and_then (case lf_effective_at a of None \<Rightarrow> return ()
        | Some t \<Rightarrow> and_then (cph_aware t ''effective_at'') (\<lambda>_.
            if lf_effect_status a \<noteq> LE_VERIFIED_EFFECTIVE
            then raise_cph ''effective_at is allowed only for VERIFIED_EFFECTIVE'' else return ())) (\<lambda>_.
      and_then (legal_effect_verify a') (\<lambda>_. return a'))))))"

definition effect_status_of ::
  "legal_rule option \<Rightarrow> py_date \<Rightarrow> (string \<times> json) list \<Rightarrow> string list \<Rightarrow> string list \<Rightarrow> effect_status" where
  "effect_status_of rule assessed_on prerequisites evidence_refs contradictions =
     (let values = map snd prerequisites in
      if contradictions \<noteq> [] then LE_UNRESOLVED
      else if (case rule of None \<Rightarrow> True | Some r \<Rightarrow> \<not> lr_verified r \<or> \<not> valid_on r assessed_on) then LE_UNKNOWN
      else if prerequisites = [] \<or> JNull \<in> set values then LE_UNKNOWN
      else if evidence_refs = [] then LE_UNKNOWN
      else if JBool False \<in> set values then LE_VERIFIED_NOT_EFFECTIVE
      else LE_VERIFIED_EFFECTIVE)"

definition assess_effect ::
  "string \<Rightarrow> string \<Rightarrow> string \<Rightarrow> legal_rule option \<Rightarrow> py_date \<Rightarrow> (string \<times> json) list \<Rightarrow> string list \<Rightarrow> string list \<Rightarrow>
   py_datetime option \<Rightarrow> legal_effect result" where
  "assess_effect case_id subject_ref lifecycle_ref rule assessed_on prerequisites evidence_refs contradictions effective_at =
     and_then (cph_prerequisites prerequisites ''legal effect prerequisites'') (\<lambda>normalized.
     let status = effect_status_of rule assessed_on normalized evidence_refs contradictions;
         a = \<lparr>lf_case_id = case_id, lf_subject_ref = subject_ref, lf_lifecycle_ref = lifecycle_ref,
           lf_rule_digest = map_option (\<lambda>r. address_for_value (JObj (legal_rule_dict r))) rule,
           lf_effect_status = status, lf_prerequisites = normalized, lf_evidence_refs = evidence_refs,
           lf_contradictions = contradictions, lf_assessed_on = assessed_on,
           lf_effective_at = (if status \<noteq> LE_VERIFIED_EFFECTIVE then None else effective_at),
           lf_assessment_digest = \<lparr>ca_algorithm = SHA256, ca_digest = []\<rparr>, lf_schema = LEGAL_EFFECT_SCHEMA_V1\<rparr> in
     legal_effect_init (a\<lparr>lf_assessment_digest := address_for_value (JObj (legal_effect_body a))\<rparr>))"

section \<open>Closure and reopening\<close>

datatype closure_blocker = CB_OPEN_DEADLINE | CB_EXPECTED_RESPONSE | CB_REQUIRED_FOLLOW_UP | CB_MATERIAL_UNKNOWN
  | CB_MATERIAL_UNRESOLVED | CB_UNRESOLVED_CONTRADICTION | CB_MISSING_EXPECTED_RECEIPT | CB_UNASSESSED_RESPONSE
  | CB_OPEN_REMEDY | CB_UNRESOLVED_LEGAL_EFFECT

fun blocker_value :: "closure_blocker \<Rightarrow> string" where
  "blocker_value CB_OPEN_DEADLINE = ''OPEN_DEADLINE''"
| "blocker_value CB_EXPECTED_RESPONSE = ''EXPECTED_RESPONSE''"
| "blocker_value CB_REQUIRED_FOLLOW_UP = ''REQUIRED_FOLLOW_UP''"
| "blocker_value CB_MATERIAL_UNKNOWN = ''MATERIAL_UNKNOWN''"
| "blocker_value CB_MATERIAL_UNRESOLVED = ''MATERIAL_UNRESOLVED''"
| "blocker_value CB_UNRESOLVED_CONTRADICTION = ''UNRESOLVED_CONTRADICTION''"
| "blocker_value CB_MISSING_EXPECTED_RECEIPT = ''MISSING_EXPECTED_RECEIPT''"
| "blocker_value CB_UNASSESSED_RESPONSE = ''UNASSESSED_RESPONSE''"
| "blocker_value CB_OPEN_REMEDY = ''OPEN_REMEDY''"
| "blocker_value CB_UNRESOLVED_LEGAL_EFFECT = ''UNRESOLVED_LEGAL_EFFECT''"

record closure_assessment =
  cl_case_id :: string
  cl_state_digest :: content_address
  cl_ledger_position :: int
  cl_blockers :: "closure_blocker list"
  cl_closure_reason :: string
  cl_actor_ref :: string
  cl_authority_ref :: string
  cl_policy_version :: string
  cl_lifecycle_epoch :: int
  cl_assessed_at :: py_datetime
  cl_assessment_digest :: content_address
  cl_schema :: string

definition closure_body :: "closure_assessment \<Rightarrow> (string \<times> json) list" where
  "closure_body a =
    [(''schema'', JStr CLOSURE_ASSESSMENT_SCHEMA_V1),
     (''case_id'', JStr (cl_case_id a)),
     (''state_digest'', JObj (address_dict (cl_state_digest a))),
     (''ledger_position'', JInt (cl_ledger_position a)),
     (''blockers'', JList (map (\<lambda>b. JStr (blocker_value b)) (cl_blockers a))),
     (''closure_reason'', JStr (cl_closure_reason a)),
     (''actor_ref'', JStr (cl_actor_ref a)),
     (''authority_ref'', JStr (cl_authority_ref a)),
     (''policy_version'', JStr (cl_policy_version a)),
     (''lifecycle_epoch'', JInt (cl_lifecycle_epoch a)),
     (''assessed_at'', JStr (isoformat (cl_assessed_at a)))]"

definition closure_dict :: "closure_assessment \<Rightarrow> (string \<times> json) list" where
  "closure_dict a = closure_body a @ [(''assessment_digest'', JObj (address_dict (cl_assessment_digest a)))]"

definition closure_eligible :: "closure_assessment \<Rightarrow> bool" where
  "closure_eligible a = (cl_blockers a = [])"

definition closure_verify :: "closure_assessment \<Rightarrow> unit result" where
  "closure_verify a =
     (if cl_assessment_digest a \<noteq> address_for_value (JObj (closure_body a))
      then raise_cph ''closure assessment content-address mismatch'' else return ())"

definition closure_init :: "closure_assessment \<Rightarrow> closure_assessment result" where
  "closure_init a =
     (if cl_schema a \<noteq> CLOSURE_ASSESSMENT_SCHEMA_V1 then raise_cph ''unsupported closure assessment schema''
      else if cl_ledger_position a < -1 then raise_cph ''closure ledger_position cannot be less than -1''
      else if cl_lifecycle_epoch a < 0 then raise_cph ''lifecycle_epoch cannot be negative''
      else and_then (cph_identifiers
         [(''closure_reason'', cl_closure_reason a), (''actor_ref'', cl_actor_ref a),
          (''authority_ref'', cl_authority_ref a), (''policy_version'', cl_policy_version a)]) (\<lambda>_.
      and_then (cph_aware (cl_assessed_at a) ''closure assessed_at'') (\<lambda>_.
      and_then (closure_verify a) (\<lambda>_. return a))))"

definition closure_build ::
  "string \<Rightarrow> content_address \<Rightarrow> int \<Rightarrow> closure_blocker list \<Rightarrow> string \<Rightarrow> string \<Rightarrow> string \<Rightarrow> string \<Rightarrow> int \<Rightarrow>
   py_datetime option \<Rightarrow> py_datetime \<Rightarrow> closure_assessment result" where
  "closure_build case_id state_digest ledger_position blockers closure_reason actor_ref authority_ref policy_version
     lifecycle_epoch assessed_at now =
     (let a = \<lparr>cl_case_id = case_id, cl_state_digest = state_digest, cl_ledger_position = ledger_position,
            cl_blockers = sort_key blocker_value (remdups blockers), cl_closure_reason = closure_reason,
            cl_actor_ref = actor_ref, cl_authority_ref = authority_ref, cl_policy_version = policy_version,
            cl_lifecycle_epoch = lifecycle_epoch,
            cl_assessed_at = (case assessed_at of None \<Rightarrow> now | Some t \<Rightarrow> t),
            cl_assessment_digest = \<lparr>ca_algorithm = SHA256, ca_digest = []\<rparr>, cl_schema = CLOSURE_ASSESSMENT_SCHEMA_V1\<rparr> in
      closure_init (a\<lparr>cl_assessment_digest := address_for_value (JObj (closure_body a))\<rparr>))"

record reopen_decision =
  ro_case_id :: string
  ro_previous_epoch :: int
  ro_new_epoch :: int
  ro_reason :: string
  ro_actor_ref :: string
  ro_authority_ref :: string
  ro_decided_at :: py_datetime
  ro_decision_digest :: content_address
  ro_schema :: string

definition reopen_body :: "reopen_decision \<Rightarrow> (string \<times> json) list" where
  "reopen_body d =
    [(''schema'', JStr REOPEN_DECISION_SCHEMA_V1),
     (''case_id'', JStr (ro_case_id d)),
     (''previous_epoch'', JInt (ro_previous_epoch d)),
     (''new_epoch'', JInt (ro_new_epoch d)),
     (''reason'', JStr (ro_reason d)),
     (''actor_ref'', JStr (ro_actor_ref d)),
     (''authority_ref'', JStr (ro_authority_ref d)),
     (''decided_at'', JStr (isoformat (ro_decided_at d)))]"


definition reopen_verify :: "reopen_decision \<Rightarrow> unit result" where
  "reopen_verify d =
     (if ro_decision_digest d \<noteq> address_for_value (JObj (reopen_body d))
      then raise_cph ''reopen decision content-address mismatch'' else return ())"

definition reopen_init :: "reopen_decision \<Rightarrow> reopen_decision result" where
  "reopen_init d =
     (if ro_schema d \<noteq> REOPEN_DECISION_SCHEMA_V1 then raise_cph ''unsupported reopen decision schema''
      else if ro_new_epoch d \<noteq> ro_previous_epoch d + 1
      then raise_cph ''reopen decision must increment lifecycle epoch by one''
      else and_then (cph_identifiers
         [(''reason'', ro_reason d), (''actor_ref'', ro_actor_ref d), (''authority_ref'', ro_authority_ref d)]) (\<lambda>_.
      and_then (cph_aware (ro_decided_at d) ''reopen decided_at'') (\<lambda>_.
      and_then (reopen_verify d) (\<lambda>_. return d))))"

definition reopen_build ::
  "string \<Rightarrow> int \<Rightarrow> string \<Rightarrow> string \<Rightarrow> string \<Rightarrow> py_datetime option \<Rightarrow> py_datetime \<Rightarrow> reopen_decision result" where
  "reopen_build case_id previous_epoch reason actor_ref authority_ref decided_at now =
     (if previous_epoch < 0 then raise_cph ''previous lifecycle epoch cannot be negative''
      else let d = \<lparr>ro_case_id = case_id, ro_previous_epoch = previous_epoch, ro_new_epoch = previous_epoch + 1,
             ro_reason = reason, ro_actor_ref = actor_ref, ro_authority_ref = authority_ref,
             ro_decided_at = (case decided_at of None \<Rightarrow> now | Some t \<Rightarrow> t),
             ro_decision_digest = \<lparr>ca_algorithm = SHA256, ca_digest = []\<rparr>, ro_schema = REOPEN_DECISION_SCHEMA_V1\<rparr> in
      reopen_init (d\<lparr>ro_decision_digest := address_for_value (JObj (reopen_body d))\<rparr>))"

section \<open>The case model\<close>

text \<open>The fields of \<^verbatim>\<open>Case\<close> that the operations read or write. The metadata is a dictionary of JSON values.\<close>

datatype case_status = CS_PRE_CASE | CS_NEW | CS_INTAKE | CS_FACTS | CS_ANALYSIS | CS_DECISION | CS_DRAFT
  | CS_FILED | CS_CLOSED

record case_model =
  cm_id :: string
  cm_status :: case_status
  cm_metadata :: "(string \<times> json) list"
  cm_updated_at :: py_datetime

definition case_touch :: "py_datetime \<Rightarrow> case_model \<Rightarrow> case_model" where
  "case_touch now c = c\<lparr>cm_updated_at := now\<rparr>"

definition set_metadata :: "string \<Rightarrow> json \<Rightarrow> case_model \<Rightarrow> case_model" where
  "set_metadata k v c = c\<lparr>cm_metadata := dict_put k v (cm_metadata c)\<rparr>"

text \<open>\<^verbatim>\<open>int(value)\<close>: a text is digits with single underscores between them, after an optional sign.\<close>

fun int_digits :: "int \<Rightarrow> string \<Rightarrow> int option" where
  "int_digits acc [] = Some acc"
| "int_digits acc [c] = (if is_digit c then Some (10 * acc + digit_value c) else None)"
| "int_digits acc (c # d # ds) =
     (if is_digit c then int_digits (10 * acc + digit_value c) (d # ds)
      else if c = CHR 0x5F \<and> is_digit d then int_digits (10 * acc + digit_value d) ds
      else None)"

definition unsigned_int :: "string \<Rightarrow> int option" where
  "unsigned_int s = (case s of [] \<Rightarrow> None | c # cs \<Rightarrow> if is_digit c then int_digits (digit_value c) cs else None)"

definition int_of_text :: "string \<Rightarrow> int option" where
  "int_of_text s = (case strip s of [] \<Rightarrow> None
     | c # cs \<Rightarrow> if c = CHR 0x2D then map_option uminus (unsigned_int cs)
         else if c = CHR 0x2B then unsigned_int cs else unsigned_int (c # cs))"

definition int_type_error :: "string \<Rightarrow> 'a result" where
  "int_type_error t = raise (BuiltinTypeError
     (''int() argument must be a string, a bytes-like object or a real number, not '' @ [CHR 0x27] @ t @ [CHR 0x27]))"

definition py_int :: "json \<Rightarrow> int result" where
  "py_int v = (case v of JInt i \<Rightarrow> return i | JBool b \<Rightarrow> return (if b then 1 else 0)
     | JStr s \<Rightarrow> (case int_of_text s of Some i \<Rightarrow> return i
         | None \<Rightarrow> raise (BuiltinValueError (''invalid literal for int() with base 10: '' @ repr_str s)))
     | JNull \<Rightarrow> int_type_error ''NoneType'' | JList _ \<Rightarrow> int_type_error ''list'' | JObj _ \<Rightarrow> int_type_error ''dict'')"

definition lifecycle_epoch :: "case_model \<Rightarrow> int result" where
  "lifecycle_epoch c = (case map_of (cm_metadata c) ''lifecycle_epoch'' of None \<Rightarrow> return 0 | Some v \<Rightarrow> py_int v)"

section \<open>Recording in the ledger\<close>

definition append_contract_event ::
  "durable_table \<Rightarrow> string \<Rightarrow> string \<Rightarrow> runtime_identity \<Rightarrow> content_address option \<Rightarrow> (pykey \<times> pyval) list \<Rightarrow>
   string \<Rightarrow> string \<Rightarrow> string \<Rightarrow> string \<Rightarrow> string \<Rightarrow> py_datetime option \<Rightarrow> py_datetime \<Rightarrow>
   ledger_event result \<times> durable_table" where
  "append_contract_event table case_id event_type runtime expected_head payload policy_version actor_ref authority_ref
     correlation_id causation_id occurred_at now =
     checked (envelope_build payload HARDENING_SCHEMA_V1 policy_version actor_ref authority_ref correlation_id
       causation_id occurred_at None now) table (\<lambda>envelope.
     case_append_event table case_id event_type runtime (py_mapping (envelope_dict envelope)) expected_head None None
       DEFAULT_MAX_CASE_EVENTS)"





definition close_case_governed ::
  "case_model \<Rightarrow> durable_table \<Rightarrow> closure_assessment \<Rightarrow> case_grant \<Rightarrow> content_address \<Rightarrow> int \<Rightarrow> runtime_identity \<Rightarrow>
   content_address option \<Rightarrow> string \<Rightarrow> string \<Rightarrow> py_datetime \<times> py_datetime \<Rightarrow> ledger_event result \<times> case_model \<times> durable_table" where
  "close_case_governed c table a authority current_state_digest current_ledger_position runtime expected_head
     correlation_id causation_id clock =
     (if cm_id c \<noteq> cl_case_id a then (raise_cph ''closure assessment belongs to another CASE'', c, table)
      else if cl_state_digest a \<noteq> current_state_digest
      then (raise_cph ''closure assessment is stale for current CASE state'', c, table)
      else if cl_ledger_position a \<noteq> current_ledger_position
      then (raise_cph ''closure assessment is stale for current ledger position'', c, table)
      else if \<not> closure_eligible a then (raise_cph ''CASE closure is blocked by material open items'', c, table)
      else checked (grant_authorizes authority (cl_case_id a) CASE_CLOSED (cl_actor_ref a) (cl_authority_ref a)
        (Some (cl_assessed_at a)) (fst clock)) (c, table) (\<lambda>authorized.
      if \<not> authorized then (raise_cph ''CASE closure actor is not authorized'', c, table)
      else let (r, table') = append_contract_event table (cl_case_id a) CASE_CLOSED runtime expected_head
        (py_mapping [(''assessment'', JObj (closure_dict a)), (''authority_grant_id'', JStr (cg_grant_id authority))])
        (cl_policy_version a) (cl_actor_ref a) (cl_authority_ref a) correlation_id causation_id
        (Some (cl_assessed_at a)) (fst clock) in
      checked r (c, table') (\<lambda>event.
      (return event,
       case_touch (snd clock) (set_metadata ''closure_assessment_digest'' (JStr (ca_digest (cl_assessment_digest a)))
         (set_metadata ''lifecycle_epoch'' (JInt (cl_lifecycle_epoch a)) (c\<lparr>cm_status := CS_CLOSED\<rparr>))), table'))))"


section \<open>Constructors and events\<close>

lemma cph_identifiers_Inr: "cph_identifiers fs = Inr u \<longleftrightarrow> (\<forall>(n, v) \<in> set fs. is_identifier v)"
proof -
  have "(\<exists>ys. map_result (\<lambda>(name, v). cph_identifier v name) fs = Inr ys) \<longleftrightarrow> (\<forall>(n, v) \<in> set fs. is_identifier v)"
    by (induction fs) (auto simp: cph_identifier_Inr)
  then show ?thesis by (auto simp: cph_identifiers_def)
qed

lemma cph_aware_Inr [simp]: "cph_aware t n = Inr x \<longleftrightarrow> x = t \<and> is_aware t"
  by (auto simp: cph_aware_def)

lemma cph_prerequisite_Inr:
  "cph_prerequisite n p = Inr q \<longleftrightarrow> q = p \<and> is_identifier (fst p) \<and> (snd p = JNull \<or> (\<exists>b. snd p = JBool b))"
  by (auto simp: cph_prerequisite_def cph_identifier_Inr split: json.splits)

lemma cph_prerequisites_Inr:
  "cph_prerequisites ps n = Inr qs \<longleftrightarrow>
     qs = dict_of ps \<and> (\<forall>p \<in> set ps. is_identifier (fst p) \<and> (snd p = JNull \<or> (\<exists>b. snd p = JBool b)))"
proof -
  have "map_result (cph_prerequisite n) ps = Inr ys \<longleftrightarrow>
      ys = ps \<and> (\<forall>p \<in> set ps. is_identifier (fst p) \<and> (snd p = JNull \<or> (\<exists>b. snd p = JBool b)))" for ys
    by (induction ps arbitrary: ys) (auto simp: cph_prerequisite_Inr)
  then show ?thesis by (auto simp: cph_prerequisites_def)
qed







lemma legal_effect_init_same:
  assumes "legal_effect_init b = Inr a"
    and "cph_prerequisites (lf_prerequisites b) ''legal effect prerequisites'' = Inr (lf_prerequisites b)"
  shows "a = b"
  using assms by (auto simp: legal_effect_init_def Let_def split: if_splits)


lemma wf_strings: "list_all wf_json (map JStr xs)" "list_all (wf_json \<circ> JStr) xs" by (simp_all add: list_all_iff)






text \<open>What an authority grant must be to cover an act.\<close>

definition grant_covers :: "case_grant \<Rightarrow> string \<Rightarrow> string \<Rightarrow> string \<Rightarrow> string \<Rightarrow> py_datetime \<Rightarrow> bool" where
  "grant_covers g case_id action actor authority moment =
     (is_aware moment \<and> authority_in_force (cg_granted_at g) (cg_revoked_at g) (cg_expires_at g) moment \<and>
      cg_case_id g = case_id \<and> cg_actor_ref g = actor \<and> cg_authority_ref g = authority \<and> action \<in> set (cg_allowed_actions g))"

lemma grant_authorizes_True: "grant_authorizes g c act actor auth (Some t) now = Inr True \<longleftrightarrow> grant_covers g c act actor auth t"
  by (auto simp: grant_authorizes_def grant_covers_def Let_def)



lemma map_of_dict_put: "map_of (dict_put k v d) k' = (if k' = k then Some v else map_of d k')"
  by (induction d) auto

lemma metadata_after:
  "cm_metadata (case_touch t c) = cm_metadata c" "cm_status (case_touch t c) = cm_status c" "cm_id (case_touch t c) = cm_id c"
  "cm_metadata (set_metadata k v c) = dict_put k v (cm_metadata c)" "cm_status (set_metadata k v c) = cm_status c"
  "cm_id (set_metadata k v c) = cm_id c"
  by (simp_all add: case_touch_def set_metadata_def)

text \<open>The case as a closure, and as a reopening, leaves it.\<close>

definition closed_case :: "closure_assessment \<Rightarrow> py_datetime \<Rightarrow> case_model \<Rightarrow> case_model" where
  "closed_case a now c =
     case_touch now (set_metadata ''closure_assessment_digest'' (JStr (ca_digest (cl_assessment_digest a)))
       (set_metadata ''lifecycle_epoch'' (JInt (cl_lifecycle_epoch a)) (c\<lparr>cm_status := CS_CLOSED\<rparr>)))"

lemma closed_case_after:
  "cm_status (closed_case a now c) = CS_CLOSED" "cm_id (closed_case a now c) = cm_id c"
  "lifecycle_epoch (closed_case a now c) = return (cl_lifecycle_epoch a)"
  by (simp_all add: closed_case_def metadata_after lifecycle_epoch_def map_of_dict_put py_int_def)

definition closure_basis :: "case_grant \<Rightarrow> content_address \<Rightarrow> int \<Rightarrow> string \<Rightarrow> closure_assessment \<Rightarrow> bool" where
  "closure_basis g state position case_id a =
     (cl_case_id a = case_id \<and> cl_state_digest a = state \<and> cl_ledger_position a = position \<and> cl_blockers a = [] \<and>
      grant_covers g case_id CASE_CLOSED (cl_actor_ref a) (cl_authority_ref a) (cl_assessed_at a))"

definition closure_payload :: "closure_assessment \<Rightarrow> case_grant \<Rightarrow> (string \<times> json) list" where
  "closure_payload a g = [(''assessment'', JObj (closure_dict a)), (''authority_grant_id'', JStr (cg_grant_id g))]"


lemma close_case_run:
  assumes "closure_basis g state position (cm_id c) a"
  shows "close_case_governed c table a g state position ri h corr caus clock =
    (let (r, table') = append_contract_event table (cm_id c) CASE_CLOSED ri h (py_mapping (closure_payload a g))
       (cl_policy_version a) (cl_actor_ref a) (cl_authority_ref a) corr caus (Some (cl_assessed_at a)) (fst clock) in
     checked r (c, table') (\<lambda>event. (return event, closed_case a (snd clock) c, table')))"
  using assms grant_authorizes_True [of g "cm_id c" CASE_CLOSED "cl_actor_ref a" "cl_authority_ref a" "cl_assessed_at a" "fst clock"]
  by (simp add: closure_basis_def close_case_governed_def closure_eligible_def closed_case_def closure_payload_def)

lemma close_case_refused:
  assumes "\<not> closure_basis g state position (cm_id c) a"
  shows "\<exists>x. close_case_governed c table a g state position ri h corr caus clock = (raise x, c, table)"
  using assms grant_authorizes_True [of g "cm_id c" CASE_CLOSED "cl_actor_ref a" "cl_authority_ref a" "cl_assessed_at a" "fst clock"]
  by (cases "grant_authorizes g (cl_case_id a) CASE_CLOSED (cl_actor_ref a) (cl_authority_ref a) (Some (cl_assessed_at a)) (fst clock)")
    (auto simp: closure_basis_def close_case_governed_def closure_eligible_def)




















section \<open>Runs of a case\<close>


text \<open>The status that an event of the ledger stands for.\<close>

definition status_after :: "case_status \<Rightarrow> ledger_event \<Rightarrow> case_status" where
  "status_after s e =
     (if le_event_type e = CASE_FILED then CS_FILED else if le_event_type e = CASE_CLOSED then CS_CLOSED
      else if le_event_type e = CASE_REOPENED then CS_ANALYSIS else s)"

text \<open>A ledger is in order, from a status, when a case is reopened only while it is CLOSED and filed only right
  after its receipt, to which the filing is linked.\<close>

definition in_order :: "case_status \<Rightarrow> ledger_event list \<Rightarrow> bool" where
  "in_order s es = (\<forall>xs e ys. es = xs @ e # ys \<longrightarrow>
     (le_event_type e = CASE_REOPENED \<longrightarrow> foldl status_after s xs = CS_CLOSED) \<and>
     (le_event_type e = CASE_FILED \<longrightarrow> xs \<noteq> [] \<and> le_event_type (last xs) = EXTERNAL_ACTION_RECEIPT_RECORDED \<and>
        le_previous e = Some (le_event_id (last xs))))"

lemma in_order_Nil [simp]: "in_order s []" by (simp add: in_order_def)






section \<open>Properties\<close>


text \<open>Closing forgets the epoch of the case. Whether and how a closure goes through does not depend on the
  epoch recorded in the case: the same assessment closes a case of any status and metadata with this identity,
  and the case then is in the epoch of the assessment. A case reopened into a later epoch is put back by an
  assessment of epoch 0, the default, and the decision that reopened it counts as fresh again.\<close>

theorem closing_rewinds_epoch:
  assumes "close_case_governed c table a g state position ri h corr caus clock = (return e, c', table')"
    and "cm_id d = cm_id c"
  shows "\<exists>d'. close_case_governed d table a g state position ri h corr caus clock = (return e, d', table') \<and>
    cm_status d' = CS_CLOSED \<and> lifecycle_epoch d' = return (cl_lifecycle_epoch a)"
proof -
  have basis: "closure_basis g state position (cm_id c) a"
    using close_case_refused [of g state position c a table ri h corr caus clock] assms(1) by auto
  obtain r1 t1 where app: "append_contract_event table (cm_id c) CASE_CLOSED ri h (py_mapping (closure_payload a g))
    (cl_policy_version a) (cl_actor_ref a) (cl_authority_ref a) corr caus (Some (cl_assessed_at a)) (fst clock) = (r1, t1)"
    by fastforce
  have "r1 = return e" "t1 = table'"
    using assms(1) app close_case_run [OF basis, of table ri h corr caus clock] by (cases r1; simp)+
  then show ?thesis
    using app close_case_run [of g state position d a table ri h corr caus clock] assms(2) basis by (simp add: closed_case_after)
qed







text \<open>Legal effect is verified exactly. An assessment is VERIFIED_EFFECTIVE if and only if nothing contradicts it,
  there is evidence, there are prerequisites and all are met, and the rule is verified and in force on the day; it is
  VERIFIED_NOT_EFFECTIVE on the same basis when all prerequisites are decided and one fails; UNRESOLVED exactly when
  something contradicts it, and UNKNOWN otherwise. Only an effective assessment has a date of effect.\<close>

theorem effect_verified_exact:
  assumes "assess_effect case_id subject lifecycle rule day prerequisites evidence contradictions effective_at = return a"
    and "distinct (map fst prerequisites)"
  defines "based \<equiv> contradictions = [] \<and> evidence \<noteq> [] \<and> prerequisites \<noteq> [] \<and> JNull \<notin> snd ` set prerequisites \<and>
    (\<exists>r. rule = Some r \<and> lr_verified r \<and> lr_valid_from r \<le> day \<and> (\<forall>t. lr_valid_to r = Some t \<longrightarrow> day \<le> t))"
  shows "(lf_effect_status a = LE_VERIFIED_EFFECTIVE \<longleftrightarrow> based \<and> (\<forall>v \<in> snd ` set prerequisites. v = JBool True)) \<and>
    (lf_effect_status a = LE_VERIFIED_NOT_EFFECTIVE \<longleftrightarrow> based \<and> JBool False \<in> snd ` set prerequisites) \<and>
    (lf_effect_status a = LE_UNRESOLVED \<longleftrightarrow> contradictions \<noteq> []) \<and>
    (lf_effect_status a = LE_UNKNOWN \<longleftrightarrow> contradictions = [] \<and> \<not> based) \<and>
    lf_effective_at a = (if lf_effect_status a = LE_VERIFIED_EFFECTIVE then effective_at else None) \<and>
    lf_prerequisites a = prerequisites \<and> legal_effect_init a = return a"
proof -
  have decided: "\<forall>p \<in> set prerequisites. snd p = JNull \<or> (\<exists>b. snd p = JBool b)"
    and idem: "cph_prerequisites prerequisites ''legal effect prerequisites'' = Inr prerequisites"
    using assms(1,2) by (auto simp: assess_effect_def cph_prerequisites_Inr dict_of_distinct)
  note run = assms(1) [unfolded assess_effect_def idem and_then_Inr Let_def]
  obtain b where b: "legal_effect_init b = return a" "lf_prerequisites b = prerequisites"
    "lf_effect_status b = effect_status_of rule day prerequisites evidence contradictions"
    "lf_effective_at b = (if lf_effect_status b \<noteq> LE_VERIFIED_EFFECTIVE then None else effective_at)"
    by (rule that [OF run]) simp_all
  have same: "a = b" by (rule legal_effect_init_same [OF b(1)]) (simp add: b(2) idem)
  note a = b [folded same]
  have met: "JBool False \<notin> snd ` set prerequisites \<longleftrightarrow> (\<forall>v \<in> snd ` set prerequisites. v = JBool True)"
    if nulls: "JNull \<notin> snd ` set prerequisites"
  proof
    assume no: "JBool False \<notin> snd ` set prerequisites"
    show "\<forall>v \<in> snd ` set prerequisites. v = JBool True"
    proof
      fix v assume v: "v \<in> snd ` set prerequisites"
      then obtain p where "p \<in> set prerequisites" "v = snd p" by blast
      with decided have "v = JNull \<or> (\<exists>q. v = JBool q)" by simp
      moreover have "v \<noteq> JNull" using nulls v by metis
      ultimately obtain q where "v = JBool q" by blast
      then show "v = JBool True" using no v by (cases q) simp_all
    qed
  next
    assume "\<forall>v \<in> snd ` set prerequisites. v = JBool True"
    then show "JBool False \<notin> snd ` set prerequisites" by blast
  qed
  have status: "lf_effect_status a =
    (if contradictions \<noteq> [] then LE_UNRESOLVED else if \<not> based then LE_UNKNOWN
     else if JBool False \<in> snd ` set prerequisites then LE_VERIFIED_NOT_EFFECTIVE else LE_VERIFIED_EFFECTIVE)"
    unfolding a(3) based_def effect_status_of_def valid_on_def Let_def by (cases rule) (auto split: option.splits)
  have date: "lf_effective_at a = (if lf_effect_status a = LE_VERIFIED_EFFECTIVE then effective_at else None)" using a(4) by simp
  show ?thesis
  proof (cases based)
    case True
    then have "contradictions = []" "JNull \<notin> snd ` set prerequisites" by (simp_all add: based_def)
    then show ?thesis unfolding date a(1,2) status met [OF \<open>JNull \<notin> snd ` set prerequisites\<close>, symmetric] using True by simp
  next
    case False
    then show ?thesis unfolding date a(1,2) status by simp
  qed
qed

text \<open>A response counts as finally resolved only on safe affirmative evidence. A candidate classification is
  accepted if and only if its texts are canonical identifiers, contradictory signals are marked UNRESOLVED, and
  FINAL_RESOLUTION comes with RESOLUTION_ISSUED and without NO_RESOLUTION, UNKNOWN, UNRESOLVED or a text that
  negates a resolution; what is accepted has the proposed signals and verifies.\<close>

theorem final_resolution_exact:
  "((\<exists>c. validate_candidate response_text signals evidence validator source = return c) \<longleftrightarrow>
     is_identifier validator \<and> is_identifier source \<and> (\<forall>r \<in> set evidence. is_identifier r) \<and>
     \<not> ({RS_RESOLUTION_ISSUED, RS_NO_RESOLUTION} \<subseteq> set signals \<and> RS_UNRESOLVED \<notin> set signals) \<and>
     \<not> (RS_FINAL_RESOLUTION \<in> set signals \<and> (RS_RESOLUTION_ISSUED \<notin> set signals \<or>
          set signals \<inter> {RS_NO_RESOLUTION, RS_UNKNOWN, RS_UNRESOLVED} \<noteq> {} \<or> negated_resolution response_text))) \<and>
   (\<forall>c. validate_candidate response_text signals evidence validator source = return c \<longrightarrow>
     set (rc_signals c) = set signals \<and> classification_verify c = return () \<and> classification_init c = return c)"
  by (auto simp: validate_candidate_def classification_init_def classification_verify_def Let_def cph_identifier_Inr
      cph_identifiers_Inr classification_body_def split: if_splits)

section \<open>Witnesses\<close>

definition sample_time :: py_datetime where "sample_time = \<lparr>dt_day = 738990, dt_micros = 0, dt_offset = Some 0\<rparr>"

definition sample_case :: case_model where
  "sample_case = \<lparr>cm_id = ''c'', cm_status = CS_ANALYSIS, cm_metadata = [], cm_updated_at = sample_time\<rparr>"

definition sample_closure :: closure_assessment where
  "sample_closure =
     (let a = \<lparr>cl_case_id = ''c'', cl_state_digest = address_for_value JNull, cl_ledger_position = -1, cl_blockers = [],
            cl_closure_reason = ''t'', cl_actor_ref = ''t'', cl_authority_ref = ''t'', cl_policy_version = ''t'',
            cl_lifecycle_epoch = 0, cl_assessed_at = sample_time, cl_assessment_digest = address_for_value JNull,
            cl_schema = CLOSURE_ASSESSMENT_SCHEMA_V1\<rparr> in
      a\<lparr>cl_assessment_digest := address_for_value (JObj (closure_body a))\<rparr>)"

definition sample_grant :: case_grant where
  "sample_grant = \<lparr>cg_grant_id = ''t'', cg_case_id = ''c'', cg_actor_ref = ''t'', cg_authority_ref = ''t'',
     cg_allowed_actions = [CASE_CLOSED], cg_granted_at = sample_time, cg_expires_at = None, cg_revoked_at = None,
     cg_schema = CASE_AUTHORITY_SCHEMA_V1\<rparr>"

lemma sample_closure_accepted:
  "closure_init sample_closure = return sample_closure" "case_grant_init sample_grant = return sample_grant"
  "closure_basis sample_grant (address_for_value JNull) (-1) (cm_id sample_case) sample_closure"
  by (simp_all add: closure_init_def closure_verify_def sample_closure_def closure_body_def Let_def cph_identifiers_Inr
      cph_identifier_Inr sample_identifiers is_aware_def sample_time_def case_grant_init_def sample_grant_def
      cph_not_before_def CASE_CLOSED_def is_identifier_def is_text_def stripped_def is_space_def strip_def closure_basis_def sample_case_def grant_covers_def authority_in_force_def)



end
