(* ===== verification/CIRP_Contracts.thy ===== *)
theory CIRP_Contracts
  imports Python_Time Case_Contracts
begin

text \<open>
  \<^verbatim>\<open>core/cirp/contracts.py\<close>: the artifacts of the case intake and response protocol that its guards
  exchange: legal sources and rule packs, deadline assessments, remedies and evidence requirements,
  strategies, filing topology and plans, and preflight results. A constructor gives its argument back,
  with digests normalised, or the exception.
\<close>

section \<open>Checks on fields\<close>

abbreviation raise_cirp :: "string \<Rightarrow> 'a result" where
  "raise_cirp msg \<equiv> Inl (CIRPContractError msg)"

definition has_control :: "string \<Rightarrow> bool" where
  "has_control s = (\<exists>c \<in> set s. (of_char c :: nat) < 32 \<or> (of_char c :: nat) = 127)"

definition cirp_nonblank :: "string \<Rightarrow> string \<Rightarrow> string result" where
  "cirp_nonblank v field_name =
     (if v = [] \<or> v \<noteq> strip v then raise_cirp (field_name @ '' must be nonblank and already canonical'')
      else if has_control v then raise_cirp (field_name @ '' cannot contain control characters'')
      else return v)"

definition cirp_optional :: "string option \<Rightarrow> string \<Rightarrow> string option result" where
  "cirp_optional v field_name =
     (case v of None \<Rightarrow> return None | Some s \<Rightarrow> and_then (cirp_nonblank s field_name) (\<lambda>s. return (Some s)))"

definition cirp_unique :: "string list \<Rightarrow> string \<Rightarrow> string list result" where
  "cirp_unique vs field_name =
     and_then (map_result (\<lambda>v. cirp_nonblank v field_name) vs) (\<lambda>normalized.
     if \<not> distinct normalized then raise_cirp (field_name @ '' cannot contain duplicates'') else return normalized)"

text \<open>The loops over field names; the checked value is the field itself.\<close>

definition nonblank_fields :: "(string \<times> string) list \<Rightarrow> unit result" where
  "nonblank_fields fs = and_then (map_result (\<lambda>(n, v). cirp_nonblank v n) fs) (\<lambda>_. return ())"

definition optional_fields :: "(string \<times> string option) list \<Rightarrow> unit result" where
  "optional_fields fs = and_then (map_result (\<lambda>(n, v). cirp_optional v n) fs) (\<lambda>_. return ())"

definition unique_fields :: "(string \<times> string list) list \<Rightarrow> unit result" where
  "unique_fields fs = and_then (map_result (\<lambda>(n, v). cirp_unique v n) fs) (\<lambda>_. return ())"

fun p3_as_cirp :: "'a result \<Rightarrow> 'a result" where
  "p3_as_cirp (Inl (P3ContractError m)) = raise_cirp m"
| "p3_as_cirp r = r"

definition cirp_digest :: "string \<Rightarrow> string \<Rightarrow> string result" where
  "cirp_digest v field_name = p3_as_cirp (require_sha256 v field_name)"

definition cirp_optional_digest :: "string option \<Rightarrow> string \<Rightarrow> string option result" where
  "cirp_optional_digest v field_name =
     (case v of None \<Rightarrow> return None | Some s \<Rightarrow> and_then (cirp_digest s field_name) (\<lambda>s. return (Some s)))"

definition cirp_aware :: "py_datetime \<Rightarrow> string \<Rightarrow> py_datetime result" where
  "cirp_aware t field_name = (if \<not> is_aware t then raise_cirp (field_name @ '' must be timezone-aware'') else return t)"

definition opt_date :: "py_date option \<Rightarrow> json" where
  "opt_date d = (case d of None \<Rightarrow> JNull | Some n \<Rightarrow> JStr (iso_date n))"

definition cirp_int :: "int option \<Rightarrow> json" where
  "cirp_int d = (case d of None \<Rightarrow> JNull | Some n \<Rightarrow> JInt n)"

text \<open>\<^verbatim>\<open>effective_from <= value and (effective_until is None or value <= effective_until)\<close>.\<close>

definition in_window :: "py_date \<Rightarrow> py_date option \<Rightarrow> py_date \<Rightarrow> bool" where
  "in_window a b d = (a \<le> d \<and> (case b of None \<Rightarrow> True | Some e \<Rightarrow> d \<le> e))"

definition window_reversed :: "py_date \<Rightarrow> py_date option \<Rightarrow> bool" where
  "window_reversed a b = (case b of None \<Rightarrow> False | Some e \<Rightarrow> e < a)"

text \<open>The maps the guards build from a tuple of artifacts; an identity that comes twice is refused.\<close>

fun index_unique :: "('a \<Rightarrow> string) \<Rightarrow> string \<Rightarrow> 'a list \<Rightarrow> (string \<rightharpoonup> 'a) \<Rightarrow> (string \<rightharpoonup> 'a) result" where
  "index_unique key message [] m = return m"
| "index_unique key message (x # xs) m =
     (if m (key x) \<noteq> None then raise_cirp (message @ key x) else index_unique key message xs (m(key x \<mapsto> x)))"

definition by_id :: "('a \<Rightarrow> string) \<Rightarrow> 'a list \<Rightarrow> string \<rightharpoonup> 'a" where
  "by_id key xs = map_of (map (\<lambda>x. (key x, x)) xs)"

section \<open>Legal sources and rule packs\<close>

definition LEGAL_SOURCE_SCHEMA_V1 :: string where
  "LEGAL_SOURCE_SCHEMA_V1 = ''lukart.cirp.legal-source-ref.v1''"

definition RULE_PACK_SCHEMA_V1 :: string where
  "RULE_PACK_SCHEMA_V1 = ''lukart.cirp.procedural-rule-pack.v1''"

datatype source_status = LS_VERIFIED | LS_PROVISIONAL | LS_UNKNOWN

fun source_status_value :: "source_status \<Rightarrow> string" where
  "source_status_value LS_VERIFIED = ''VERIFIED''"
| "source_status_value LS_PROVISIONAL = ''PROVISIONAL''"
| "source_status_value LS_UNKNOWN = ''UNKNOWN''"

datatype pack_status = RP_DRAFT | RP_ACTIVE | RP_RETIRED | RP_UNKNOWN

fun pack_status_value :: "pack_status \<Rightarrow> string" where
  "pack_status_value RP_DRAFT = ''DRAFT''"
| "pack_status_value RP_ACTIVE = ''ACTIVE''"
| "pack_status_value RP_RETIRED = ''RETIRED''"
| "pack_status_value RP_UNKNOWN = ''UNKNOWN''"

record legal_source =
  lsr_source_id :: string
  lsr_jurisdiction :: string
  lsr_authority_type :: string
  lsr_formal_citation :: string
  lsr_source_uri :: string
  lsr_source_digest :: "string option"
  lsr_effective_from :: py_date
  lsr_effective_until :: "py_date option"
  lsr_retrieved_at :: py_datetime
  lsr_verification_status :: source_status
  lsr_schema :: string

definition legal_source_init :: "legal_source \<Rightarrow> legal_source result" where
  "legal_source_init s =
     (if lsr_schema s \<noteq> LEGAL_SOURCE_SCHEMA_V1 then raise_cirp ''unsupported legal source schema''
      else and_then (nonblank_fields [(''source_id'', lsr_source_id s), (''jurisdiction'', lsr_jurisdiction s),
          (''authority_type'', lsr_authority_type s), (''formal_citation'', lsr_formal_citation s),
          (''source_uri'', lsr_source_uri s)]) (\<lambda>_.
      and_then (cirp_optional_digest (lsr_source_digest s) ''source_digest'') (\<lambda>source_digest.
      and_then (cirp_aware (lsr_retrieved_at s) ''retrieved_at'') (\<lambda>_.
      if window_reversed (lsr_effective_from s) (lsr_effective_until s)
      then raise_cirp ''legal source effective_until precedes effective_from''
      else if lsr_verification_status s = LS_VERIFIED \<and> source_digest = None
      then raise_cirp ''VERIFIED legal source requires source_digest''
      else return (s\<lparr>lsr_source_digest := source_digest\<rparr>)))))"

definition source_effective_on :: "legal_source \<Rightarrow> py_date \<Rightarrow> bool" where
  "source_effective_on s d = in_window (lsr_effective_from s) (lsr_effective_until s) d"

definition legal_source_dict :: "legal_source \<Rightarrow> (string \<times> json) list" where
  "legal_source_dict s =
    [(''schema'', JStr (lsr_schema s)), (''source_id'', JStr (lsr_source_id s)),
     (''jurisdiction'', JStr (lsr_jurisdiction s)), (''authority_type'', JStr (lsr_authority_type s)),
     (''formal_citation'', JStr (lsr_formal_citation s)), (''source_uri'', JStr (lsr_source_uri s)),
     (''source_digest'', opt_id (lsr_source_digest s)), (''effective_from'', JStr (iso_date (lsr_effective_from s))),
     (''effective_until'', opt_date (lsr_effective_until s)), (''retrieved_at'', JStr (isoformat (lsr_retrieved_at s))),
     (''verification_status'', JStr (source_status_value (lsr_verification_status s)))]"

record rule_pack =
  rpk_pack_id :: string
  rpk_version :: string
  rpk_jurisdiction :: string
  rpk_procedure_family :: string
  rpk_effective_from :: py_date
  rpk_effective_until :: "py_date option"
  rpk_source_set :: "legal_source list"
  rpk_source_set_digest :: string
  rpk_deadline_rules :: "string list"
  rpk_remedy_rules :: "string list"
  rpk_routing_rules :: "string list"
  rpk_formal_requirement_rules :: "string list"
  rpk_calendar_rules :: "string list"
  rpk_status :: pack_status
  rpk_schema :: string

definition source_set_digest :: "legal_source list \<Rightarrow> string" where
  "source_set_digest sources = content_digest (JList (map (\<lambda>s. JObj (legal_source_dict s)) sources))"

definition rule_pack_init :: "rule_pack \<Rightarrow> rule_pack result" where
  "rule_pack_init p =
     (if rpk_schema p \<noteq> RULE_PACK_SCHEMA_V1 then raise_cirp ''unsupported procedural rule pack schema''
      else and_then (nonblank_fields [(''pack_id'', rpk_pack_id p), (''version'', rpk_version p),
          (''jurisdiction'', rpk_jurisdiction p), (''procedure_family'', rpk_procedure_family p)]) (\<lambda>_.
      if window_reversed (rpk_effective_from p) (rpk_effective_until p)
      then raise_cirp ''rule pack effective_until precedes effective_from''
      else if \<not> distinct (map lsr_source_id (rpk_source_set p))
      then raise_cirp ''source_set cannot contain duplicate source_id values''
      else and_then (cirp_digest (rpk_source_set_digest p) ''source_set_digest'') (\<lambda>normalized.
      if normalized \<noteq> source_set_digest (rpk_source_set p) then raise_cirp ''source_set_digest mismatch''
      else and_then (unique_fields [(''deadline_rules'', rpk_deadline_rules p), (''remedy_rules'', rpk_remedy_rules p),
          (''routing_rules'', rpk_routing_rules p), (''formal_requirement_rules'', rpk_formal_requirement_rules p),
          (''calendar_rules'', rpk_calendar_rules p)]) (\<lambda>_.
      if rpk_status p = RP_ACTIVE \<and> rpk_source_set p = []
      then raise_cirp ''ACTIVE rule pack requires a legal source set''
      else return (p\<lparr>rpk_source_set_digest := normalized\<rparr>)))))"

text \<open>\<^verbatim>\<open>build\<close>: the digest of the source set is computed.\<close>

definition rule_pack_build :: "rule_pack \<Rightarrow> rule_pack result" where
  "rule_pack_build p =
     rule_pack_init (p\<lparr>rpk_source_set_digest := source_set_digest (rpk_source_set p), rpk_schema := RULE_PACK_SCHEMA_V1\<rparr>)"

definition rule_pack_dict :: "rule_pack \<Rightarrow> (string \<times> json) list" where
  "rule_pack_dict p =
    [(''schema'', JStr (rpk_schema p)), (''pack_id'', JStr (rpk_pack_id p)), (''version'', JStr (rpk_version p)),
     (''jurisdiction'', JStr (rpk_jurisdiction p)), (''procedure_family'', JStr (rpk_procedure_family p)),
     (''effective_from'', JStr (iso_date (rpk_effective_from p))), (''effective_until'', opt_date (rpk_effective_until p)),
     (''source_set'', JList (map (\<lambda>s. JObj (legal_source_dict s)) (rpk_source_set p))),
     (''source_set_digest'', JStr (rpk_source_set_digest p)), (''deadline_rules'', jstrs (rpk_deadline_rules p)),
     (''remedy_rules'', jstrs (rpk_remedy_rules p)), (''routing_rules'', jstrs (rpk_routing_rules p)),
     (''formal_requirement_rules'', jstrs (rpk_formal_requirement_rules p)),
     (''calendar_rules'', jstrs (rpk_calendar_rules p)), (''status'', JStr (pack_status_value (rpk_status p)))]"

definition pack_effective_on :: "rule_pack \<Rightarrow> py_date \<Rightarrow> bool" where
  "pack_effective_on p d = in_window (rpk_effective_from p) (rpk_effective_until p) d"

section \<open>Deadline assessments\<close>

definition DEADLINE_ASSESSMENT_SCHEMA_V1 :: string where
  "DEADLINE_ASSESSMENT_SCHEMA_V1 = ''lukart.cirp.deadline-assessment.v1''"

datatype deadline_status = DL_VERIFIED | DL_PROVISIONAL | DL_MISSING_INPUT | DL_CONFLICTING_EVIDENCE | DL_UNKNOWN_RULE
  | DL_EXPIRED | DL_NOT_APPLICABLE

fun deadline_status_value :: "deadline_status \<Rightarrow> string" where
  "deadline_status_value DL_VERIFIED = ''VERIFIED''"
| "deadline_status_value DL_PROVISIONAL = ''PROVISIONAL''"
| "deadline_status_value DL_MISSING_INPUT = ''MISSING_INPUT''"
| "deadline_status_value DL_CONFLICTING_EVIDENCE = ''CONFLICTING_EVIDENCE''"
| "deadline_status_value DL_UNKNOWN_RULE = ''UNKNOWN_RULE''"
| "deadline_status_value DL_EXPIRED = ''EXPIRED''"
| "deadline_status_value DL_NOT_APPLICABLE = ''NOT_APPLICABLE''"

record deadline_assessment =
  das_deadline_id :: string
  das_trigger_type :: string
  das_trigger_date :: "py_date option"
  das_trigger_evidence :: "string option"
  das_rule_pack_id :: "string option"
  das_rule_id :: "string option"
  das_rule_version :: "string option"
  das_legal_source_refs :: "string list"
  das_effective_law_date :: "py_date option"
  das_duration_value :: "int option"
  das_duration_unit :: "string option"
  das_calculation_method :: "string option"
  das_calendar_profile :: "string option"
  das_timezone :: "string option"
  das_legal_deadline :: "py_date option"
  das_safe_internal_deadline :: "py_date option"
  das_status :: deadline_status
  das_blocking_questions :: "string list"
  das_schema :: string

text \<open>The names of the required fields that are \<^verbatim>\<open>None\<close>, sorted.\<close>

definition verified_deadline_missing :: "deadline_assessment \<Rightarrow> string list" where
  "verified_deadline_missing a = map fst (filter snd
    [(''effective_law_date'', das_effective_law_date a = None), (''legal_deadline'', das_legal_deadline a = None),
     (''rule_id'', das_rule_id a = None), (''rule_pack_id'', das_rule_pack_id a = None),
     (''rule_version'', das_rule_version a = None), (''trigger_date'', das_trigger_date a = None),
     (''trigger_evidence'', das_trigger_evidence a = None)])"

definition deadline_init :: "deadline_assessment \<Rightarrow> deadline_assessment result" where
  "deadline_init a =
     (if das_schema a \<noteq> DEADLINE_ASSESSMENT_SCHEMA_V1 then raise_cirp ''unsupported deadline assessment schema''
      else and_then (nonblank_fields [(''deadline_id'', das_deadline_id a), (''trigger_type'', das_trigger_type a)]) (\<lambda>_.
      and_then (optional_fields [(''trigger_evidence'', das_trigger_evidence a), (''rule_pack_id'', das_rule_pack_id a),
          (''rule_id'', das_rule_id a), (''rule_version'', das_rule_version a), (''duration_unit'', das_duration_unit a),
          (''calculation_method'', das_calculation_method a), (''calendar_profile'', das_calendar_profile a),
          (''timezone'', das_timezone a)]) (\<lambda>_.
      and_then (unique_fields [(''legal_source_refs'', das_legal_source_refs a),
          (''blocking_questions'', das_blocking_questions a)]) (\<lambda>_.
      if (case das_duration_value a of None \<Rightarrow> False | Some n \<Rightarrow> n < 0)
      then raise_cirp ''duration_value cannot be negative''
      else if das_safe_internal_deadline a \<noteq> None \<and> das_legal_deadline a = None
      then raise_cirp ''safe_internal_deadline requires legal_deadline''
      else if (case (das_safe_internal_deadline a, das_legal_deadline a) of (Some s, Some d) \<Rightarrow> d < s | _ \<Rightarrow> False)
      then raise_cirp ''safe_internal_deadline cannot exceed legal_deadline''
      else if das_status a = DL_VERIFIED \<and> verified_deadline_missing a \<noteq> []
      then raise_cirp (''VERIFIED deadline missing: '' @ join '', '' (verified_deadline_missing a))
      else if das_status a = DL_VERIFIED \<and> das_legal_source_refs a = []
      then raise_cirp ''VERIFIED deadline requires legal_source_refs''
      else if das_status a = DL_VERIFIED \<and> das_blocking_questions a \<noteq> []
      then raise_cirp ''VERIFIED deadline cannot contain blocking_questions''
      else if das_status a \<in> {DL_MISSING_INPUT, DL_UNKNOWN_RULE, DL_CONFLICTING_EVIDENCE} \<and> das_blocking_questions a = []
      then raise_cirp (deadline_status_value (das_status a) @ '' deadline requires blocking_questions'')
      else if das_status a = DL_NOT_APPLICABLE \<and> das_legal_deadline a \<noteq> None
      then raise_cirp ''NOT_APPLICABLE deadline cannot contain legal_deadline''
      else return a))))"

definition deadline_dict :: "deadline_assessment \<Rightarrow> (string \<times> json) list" where
  "deadline_dict a =
    [(''schema'', JStr (das_schema a)), (''deadline_id'', JStr (das_deadline_id a)),
     (''trigger_type'', JStr (das_trigger_type a)), (''trigger_date'', opt_date (das_trigger_date a)),
     (''trigger_evidence'', opt_id (das_trigger_evidence a)), (''rule_pack_id'', opt_id (das_rule_pack_id a)),
     (''rule_id'', opt_id (das_rule_id a)), (''rule_version'', opt_id (das_rule_version a)),
     (''legal_source_refs'', jstrs (das_legal_source_refs a)), (''effective_law_date'', opt_date (das_effective_law_date a)),
     (''duration_value'', cirp_int (das_duration_value a)), (''duration_unit'', opt_id (das_duration_unit a)),
     (''calculation_method'', opt_id (das_calculation_method a)), (''calendar_profile'', opt_id (das_calendar_profile a)),
     (''timezone'', opt_id (das_timezone a)), (''legal_deadline'', opt_date (das_legal_deadline a)),
     (''safe_internal_deadline'', opt_date (das_safe_internal_deadline a)),
     (''status'', JStr (deadline_status_value (das_status a))),
     (''blocking_questions'', jstrs (das_blocking_questions a))]"

section \<open>Remedies and evidence\<close>

definition REMEDY_OPTION_SCHEMA_V1 :: string where
  "REMEDY_OPTION_SCHEMA_V1 = ''lukart.cirp.remedy-option.v1''"

definition EVIDENCE_REQUIREMENT_SCHEMA_V1 :: string where
  "EVIDENCE_REQUIREMENT_SCHEMA_V1 = ''lukart.cirp.evidence-requirement.v1''"

datatype admissibility = RA_VERIFIED_AVAILABLE | RA_PROVISIONALLY_AVAILABLE | RA_NOT_AVAILABLE | RA_UNKNOWN

fun admissibility_value :: "admissibility \<Rightarrow> string" where
  "admissibility_value RA_VERIFIED_AVAILABLE = ''VERIFIED_AVAILABLE''"
| "admissibility_value RA_PROVISIONALLY_AVAILABLE = ''PROVISIONALLY_AVAILABLE''"
| "admissibility_value RA_NOT_AVAILABLE = ''NOT_AVAILABLE''"
| "admissibility_value RA_UNKNOWN = ''UNKNOWN''"

record remedy_option =
  rem_remedy_id :: string
  rem_remedy_type :: string
  rem_target_authority :: string
  rem_filing_authority :: string
  rem_filing_via :: "string option"
  rem_applicable_rule_ids :: "string list"
  rem_deadline_id :: "string option"
  rem_formal_requirements :: "string list"
  rem_required_evidence :: "string list"
  rem_preserves_options :: "string list"
  rem_waives_options :: "string list"
  rem_admissibility_status :: admissibility
  rem_blockers :: "string list"
  rem_schema :: string

definition remedy_option_init :: "remedy_option \<Rightarrow> remedy_option result" where
  "remedy_option_init r =
     (if rem_schema r \<noteq> REMEDY_OPTION_SCHEMA_V1 then raise_cirp ''unsupported remedy option schema''
      else and_then (nonblank_fields [(''remedy_id'', rem_remedy_id r), (''remedy_type'', rem_remedy_type r),
          (''target_authority'', rem_target_authority r), (''filing_authority'', rem_filing_authority r)]) (\<lambda>_.
      and_then (optional_fields [(''filing_via'', rem_filing_via r), (''deadline_id'', rem_deadline_id r)]) (\<lambda>_.
      and_then (unique_fields [(''applicable_rule_ids'', rem_applicable_rule_ids r),
          (''formal_requirements'', rem_formal_requirements r), (''required_evidence'', rem_required_evidence r),
          (''preserves_options'', rem_preserves_options r), (''waives_options'', rem_waives_options r),
          (''blockers'', rem_blockers r)]) (\<lambda>_.
      if rem_admissibility_status r = RA_VERIFIED_AVAILABLE \<and> rem_applicable_rule_ids r = []
      then raise_cirp ''VERIFIED_AVAILABLE remedy requires applicable_rule_ids''
      else if rem_admissibility_status r = RA_VERIFIED_AVAILABLE \<and> rem_blockers r \<noteq> []
      then raise_cirp ''VERIFIED_AVAILABLE remedy cannot contain blockers''
      else return r))))"

definition remedy_option_dict :: "remedy_option \<Rightarrow> (string \<times> json) list" where
  "remedy_option_dict r =
    [(''schema'', JStr (rem_schema r)), (''remedy_id'', JStr (rem_remedy_id r)),
     (''remedy_type'', JStr (rem_remedy_type r)), (''target_authority'', JStr (rem_target_authority r)),
     (''filing_authority'', JStr (rem_filing_authority r)), (''filing_via'', opt_id (rem_filing_via r)),
     (''applicable_rule_ids'', jstrs (rem_applicable_rule_ids r)), (''deadline_id'', opt_id (rem_deadline_id r)),
     (''formal_requirements'', jstrs (rem_formal_requirements r)),
     (''required_evidence'', jstrs (rem_required_evidence r)),
     (''preserves_options'', jstrs (rem_preserves_options r)), (''waives_options'', jstrs (rem_waives_options r)),
     (''admissibility_status'', JStr (admissibility_value (rem_admissibility_status r))),
     (''blockers'', jstrs (rem_blockers r))]"

datatype evidence_category = EC_DEADLINE_CRITICAL | EC_ADMISSIBILITY_CRITICAL | EC_MERITS_CRITICAL | EC_PROCEDURAL
  | EC_SUPPORTING | EC_OPTIONAL

fun category_value :: "evidence_category \<Rightarrow> string" where
  "category_value EC_DEADLINE_CRITICAL = ''DEADLINE_CRITICAL''"
| "category_value EC_ADMISSIBILITY_CRITICAL = ''ADMISSIBILITY_CRITICAL''"
| "category_value EC_MERITS_CRITICAL = ''MERITS_CRITICAL''"
| "category_value EC_PROCEDURAL = ''PROCEDURAL''"
| "category_value EC_SUPPORTING = ''SUPPORTING''"
| "category_value EC_OPTIONAL = ''OPTIONAL''"

datatype importance = EI_CRITICAL | EI_HIGH | EI_MEDIUM | EI_LOW

fun importance_value :: "importance \<Rightarrow> string" where
  "importance_value EI_CRITICAL = ''CRITICAL''"
| "importance_value EI_HIGH = ''HIGH''"
| "importance_value EI_MEDIUM = ''MEDIUM''"
| "importance_value EI_LOW = ''LOW''"

datatype requirement_status = ER_PRESENT | ER_MISSING | ER_CONFLICTING | ER_STALE | ER_UNVERIFIED | ER_NOT_APPLICABLE

fun requirement_status_value :: "requirement_status \<Rightarrow> string" where
  "requirement_status_value ER_PRESENT = ''PRESENT''"
| "requirement_status_value ER_MISSING = ''MISSING''"
| "requirement_status_value ER_CONFLICTING = ''CONFLICTING''"
| "requirement_status_value ER_STALE = ''STALE''"
| "requirement_status_value ER_UNVERIFIED = ''UNVERIFIED''"
| "requirement_status_value ER_NOT_APPLICABLE = ''NOT_APPLICABLE''"

record evidence_requirement =
  evr_requirement_id :: string
  evr_description :: string
  evr_category :: evidence_category
  evr_importance :: importance
  evr_required_for :: "string list"
  evr_expected_evidence_kind :: string
  evr_status :: requirement_status
  evr_evidence_refs :: "string list"
  evr_schema :: string

definition evidence_requirement_init :: "evidence_requirement \<Rightarrow> evidence_requirement result" where
  "evidence_requirement_init e =
     (if evr_schema e \<noteq> EVIDENCE_REQUIREMENT_SCHEMA_V1 then raise_cirp ''unsupported evidence requirement schema''
      else and_then (nonblank_fields [(''requirement_id'', evr_requirement_id e), (''description'', evr_description e),
          (''expected_evidence_kind'', evr_expected_evidence_kind e)]) (\<lambda>_.
      and_then (unique_fields [(''required_for'', evr_required_for e), (''evidence_refs'', evr_evidence_refs e)]) (\<lambda>_.
      if evr_status e = ER_PRESENT \<and> evr_evidence_refs e = []
      then raise_cirp ''PRESENT evidence requirement requires evidence_refs''
      else if evr_status e = ER_MISSING \<and> evr_evidence_refs e \<noteq> []
      then raise_cirp ''MISSING evidence requirement cannot contain evidence_refs''
      else return e)))"

definition evidence_requirement_dict :: "evidence_requirement \<Rightarrow> (string \<times> json) list" where
  "evidence_requirement_dict e =
    [(''schema'', JStr (evr_schema e)), (''requirement_id'', JStr (evr_requirement_id e)),
     (''description'', JStr (evr_description e)), (''category'', JStr (category_value (evr_category e))),
     (''importance'', JStr (importance_value (evr_importance e))), (''required_for'', jstrs (evr_required_for e)),
     (''expected_evidence_kind'', JStr (evr_expected_evidence_kind e)),
     (''status'', JStr (requirement_status_value (evr_status e))), (''evidence_refs'', jstrs (evr_evidence_refs e))]"

section \<open>Strategies\<close>

definition STRATEGY_OPTION_SCHEMA_V1 :: string where
  "STRATEGY_OPTION_SCHEMA_V1 = ''lukart.cirp.strategy-option.v1''"

definition STRATEGY_DECISION_SCHEMA_V1 :: string where
  "STRATEGY_DECISION_SCHEMA_V1 = ''lukart.cirp.strategy-decision.v1''"

datatype deadline_safety = DSF_SAFE | DSF_RISK | DSF_UNKNOWN

fun deadline_safety_value :: "deadline_safety \<Rightarrow> string" where
  "deadline_safety_value DSF_SAFE = ''SAFE''"
| "deadline_safety_value DSF_RISK = ''RISK''"
| "deadline_safety_value DSF_UNKNOWN = ''UNKNOWN''"

datatype merits = MS_STRONG | MS_MODERATE | MS_WEAK | MS_UNKNOWN

fun merits_value :: "merits \<Rightarrow> string" where
  "merits_value MS_STRONG = ''STRONG''"
| "merits_value MS_MODERATE = ''MODERATE''"
| "merits_value MS_WEAK = ''WEAK''"
| "merits_value MS_UNKNOWN = ''UNKNOWN''"

datatype verification_level = VL_VERIFIED | VL_PROVISIONAL | VL_UNKNOWN

fun level_value :: "verification_level \<Rightarrow> string" where
  "level_value VL_VERIFIED = ''VERIFIED''"
| "level_value VL_PROVISIONAL = ''PROVISIONAL''"
| "level_value VL_UNKNOWN = ''UNKNOWN''"

datatype strategy_status = SD_RECOMMENDED | SD_NEEDS_EVIDENCE | SD_DECISION_REQUIRED | SD_NO_SAFE_OPTION | SD_ABSTAIN

fun strategy_status_value :: "strategy_status \<Rightarrow> string" where
  "strategy_status_value SD_RECOMMENDED = ''RECOMMENDED''"
| "strategy_status_value SD_NEEDS_EVIDENCE = ''NEEDS_EVIDENCE''"
| "strategy_status_value SD_DECISION_REQUIRED = ''DECISION_REQUIRED''"
| "strategy_status_value SD_NO_SAFE_OPTION = ''NO_SAFE_OPTION''"
| "strategy_status_value SD_ABSTAIN = ''ABSTAIN''"

record strategy_option =
  sto_strategy_id :: string
  sto_objective :: string
  sto_remedy_ids :: "string list"
  sto_proposed_actions :: "string list"
  sto_required_evidence :: "string list"
  sto_deadline_safety :: deadline_safety
  sto_admissibility :: verification_level
  sto_merits_strength :: merits
  sto_preserves_options :: "string list"
  sto_closes_options :: "string list"
  sto_risks :: "string list"
  sto_advantages :: "string list"
  sto_disadvantages :: "string list"
  sto_unresolved :: "string list"
  sto_schema :: string

definition strategy_option_init :: "strategy_option \<Rightarrow> strategy_option result" where
  "strategy_option_init s =
     (if sto_schema s \<noteq> STRATEGY_OPTION_SCHEMA_V1 then raise_cirp ''unsupported strategy option schema''
      else and_then (nonblank_fields [(''strategy_id'', sto_strategy_id s), (''objective'', sto_objective s)]) (\<lambda>_.
      and_then (unique_fields [(''remedy_ids'', sto_remedy_ids s), (''proposed_actions'', sto_proposed_actions s),
          (''required_evidence'', sto_required_evidence s), (''preserves_options'', sto_preserves_options s),
          (''closes_options'', sto_closes_options s), (''risks'', sto_risks s), (''advantages'', sto_advantages s),
          (''disadvantages'', sto_disadvantages s), (''unresolved'', sto_unresolved s)]) (\<lambda>_.
      return s)))"

definition strategy_option_dict :: "strategy_option \<Rightarrow> (string \<times> json) list" where
  "strategy_option_dict s =
    [(''schema'', JStr (sto_schema s)), (''strategy_id'', JStr (sto_strategy_id s)),
     (''objective'', JStr (sto_objective s)), (''remedy_ids'', jstrs (sto_remedy_ids s)),
     (''proposed_actions'', jstrs (sto_proposed_actions s)), (''required_evidence'', jstrs (sto_required_evidence s)),
     (''deadline_safety'', JStr (deadline_safety_value (sto_deadline_safety s))),
     (''admissibility'', JStr (level_value (sto_admissibility s))),
     (''merits_strength'', JStr (merits_value (sto_merits_strength s))),
     (''preserves_options'', jstrs (sto_preserves_options s)), (''closes_options'', jstrs (sto_closes_options s)),
     (''risks'', jstrs (sto_risks s)), (''advantages'', jstrs (sto_advantages s)),
     (''disadvantages'', jstrs (sto_disadvantages s)), (''unresolved'', jstrs (sto_unresolved s))]"

text \<open>\<^verbatim>\<open>rejection_reasons\<close> is a mapping; the argument is its items, the field the items sorted by key.\<close>

record strategy_decision =
  sdc_selected_strategy_id :: "string option"
  sdc_decision_status :: strategy_status
  sdc_rationale :: string
  sdc_rejected_strategy_ids :: "string list"
  sdc_rejection_reasons :: "(string \<times> string) list"
  sdc_decisive_evidence :: "string list"
  sdc_decisive_rules :: "string list"
  sdc_unresolved_risks :: "string list"
  sdc_schema :: string

fun freeze_items :: "string \<Rightarrow> (string \<times> string) list \<Rightarrow> (string \<times> string) list \<Rightarrow> (string \<times> string) list result" where
  "freeze_items field_name normalized [] = return (sort_key fst normalized)"
| "freeze_items field_name normalized ((k, v) # items) =
     and_then (cirp_nonblank k (field_name @ '' key'')) (\<lambda>k.
     and_then (cirp_nonblank v (field_name @ '' value'')) (\<lambda>v.
     if k \<in> fst ` set normalized then raise_cirp (field_name @ '' contains duplicate keys'')
     else freeze_items field_name (normalized @ [(k, v)]) items))"

definition freeze_string_mapping :: "(string \<times> string) list \<Rightarrow> string \<Rightarrow> (string \<times> string) list result" where
  "freeze_string_mapping m field_name = freeze_items field_name [] m"

text \<open>\<^verbatim>\<open>sorted(set(a) - set(b))\<close>.\<close>

definition sorted_diff :: "string list \<Rightarrow> string list \<Rightarrow> string list" where
  "sorted_diff a b = sorted_set (filter (\<lambda>x. x \<notin> set b) a)"

definition strategy_decision_init :: "strategy_decision \<Rightarrow> strategy_decision result" where
  "strategy_decision_init d =
     (if sdc_schema d \<noteq> STRATEGY_DECISION_SCHEMA_V1 then raise_cirp ''unsupported strategy decision schema''
      else and_then (cirp_optional (sdc_selected_strategy_id d) ''selected_strategy_id'') (\<lambda>_.
      and_then (cirp_nonblank (sdc_rationale d) ''rationale'') (\<lambda>_.
      and_then (cirp_unique (sdc_rejected_strategy_ids d) ''rejected_strategy_ids'') (\<lambda>_.
      and_then (freeze_string_mapping (sdc_rejection_reasons d) ''rejection_reasons'') (\<lambda>reasons.
      and_then (unique_fields [(''decisive_evidence'', sdc_decisive_evidence d), (''decisive_rules'', sdc_decisive_rules d),
          (''unresolved_risks'', sdc_unresolved_risks d)]) (\<lambda>_.
      let missing = sorted_diff (sdc_rejected_strategy_ids d) (map fst reasons);
          extra = sorted_diff (map fst reasons) (sdc_rejected_strategy_ids d) in
      if missing \<noteq> [] then raise_cirp (''rejected strategies missing reasons: '' @ join '', '' missing)
      else if extra \<noteq> [] then raise_cirp (''rejection reasons without rejected strategy: '' @ join '', '' extra)
      else let d' = d\<lparr>sdc_rejection_reasons := reasons\<rparr> in
      if sdc_decision_status d = SD_RECOMMENDED then
        (case sdc_selected_strategy_id d of
           None \<Rightarrow> raise_cirp ''RECOMMENDED decision requires selected_strategy_id''
         | Some s \<Rightarrow>
             if sdc_decisive_evidence d = [] \<or> sdc_decisive_rules d = []
             then raise_cirp ''RECOMMENDED decision requires decisive evidence and rules''
             else if s \<in> set (sdc_rejected_strategy_ids d) then raise_cirp ''selected strategy cannot also be rejected''
             else return d')
      else if sdc_selected_strategy_id d \<noteq> None
      then raise_cirp ''non-RECOMMENDED decision cannot select a strategy''
      else return d'))))))"

definition strategy_decision_dict :: "strategy_decision \<Rightarrow> (string \<times> json) list" where
  "strategy_decision_dict d =
    [(''schema'', JStr (sdc_schema d)), (''selected_strategy_id'', opt_id (sdc_selected_strategy_id d)),
     (''decision_status'', JStr (strategy_status_value (sdc_decision_status d))),
     (''rationale'', JStr (sdc_rationale d)), (''rejected_strategy_ids'', jstrs (sdc_rejected_strategy_ids d)),
     (''rejection_reasons'', JObj (map (map_prod id JStr) (sdc_rejection_reasons d))),
     (''decisive_evidence'', jstrs (sdc_decisive_evidence d)), (''decisive_rules'', jstrs (sdc_decisive_rules d)),
     (''unresolved_risks'', jstrs (sdc_unresolved_risks d))]"

section \<open>Filings\<close>

definition FILING_TOPOLOGY_SCHEMA_V1 :: string where
  "FILING_TOPOLOGY_SCHEMA_V1 = ''lukart.cirp.filing-topology-decision.v1''"

definition FILING_PLAN_SCHEMA_V1 :: string where
  "FILING_PLAN_SCHEMA_V1 = ''lukart.cirp.filing-plan.v1''"

datatype topology_status = FT_SINGLE_FILING_SAFE | FT_MULTIPLE_FILINGS_REQUIRED | FT_CONSOLIDATION_UNCERTAIN
  | FT_NO_FILING_REQUIRED

fun topology_status_value :: "topology_status \<Rightarrow> string" where
  "topology_status_value FT_SINGLE_FILING_SAFE = ''SINGLE_FILING_SAFE''"
| "topology_status_value FT_MULTIPLE_FILINGS_REQUIRED = ''MULTIPLE_FILINGS_REQUIRED''"
| "topology_status_value FT_CONSOLIDATION_UNCERTAIN = ''CONSOLIDATION_UNCERTAIN''"
| "topology_status_value FT_NO_FILING_REQUIRED = ''NO_FILING_REQUIRED''"

record topology_decision =
  ftd_status :: topology_status
  ftd_filing_count :: int
  ftd_combined_remedies :: "string list"
  ftd_separated_remedies :: "string list"
  ftd_rationale :: string
  ftd_blockers :: "string list"
  ftd_schema :: string

definition topology_init :: "topology_decision \<Rightarrow> topology_decision result" where
  "topology_init t =
     (if ftd_schema t \<noteq> FILING_TOPOLOGY_SCHEMA_V1 then raise_cirp ''unsupported filing topology schema''
      else if ftd_filing_count t < 0 then raise_cirp ''filing_count cannot be negative''
      else and_then (unique_fields [(''combined_remedies'', ftd_combined_remedies t),
          (''separated_remedies'', ftd_separated_remedies t)]) (\<lambda>_.
      and_then (cirp_nonblank (ftd_rationale t) ''rationale'') (\<lambda>_.
      and_then (cirp_unique (ftd_blockers t) ''blockers'') (\<lambda>_.
      if set (ftd_combined_remedies t) \<inter> set (ftd_separated_remedies t) \<noteq> {}
      then raise_cirp ''a remedy cannot be both combined and separated''
      else if ftd_status t = FT_SINGLE_FILING_SAFE \<and> (ftd_filing_count t \<noteq> 1 \<or> ftd_blockers t \<noteq> [])
      then raise_cirp ''SINGLE_FILING_SAFE requires one filing and no blockers''
      else if ftd_status t = FT_MULTIPLE_FILINGS_REQUIRED \<and> ftd_filing_count t < 2
      then raise_cirp ''MULTIPLE_FILINGS_REQUIRED requires at least two filings''
      else if ftd_status t = FT_CONSOLIDATION_UNCERTAIN \<and> ftd_blockers t = []
      then raise_cirp ''CONSOLIDATION_UNCERTAIN requires blockers''
      else if ftd_status t = FT_NO_FILING_REQUIRED \<and>
        (ftd_filing_count t \<noteq> 0 \<or> ftd_combined_remedies t \<noteq> [] \<or> ftd_separated_remedies t \<noteq> [])
      then raise_cirp ''NO_FILING_REQUIRED requires zero filing work''
      else return t))))"

definition topology_dict :: "topology_decision \<Rightarrow> (string \<times> json) list" where
  "topology_dict t =
    [(''schema'', JStr (ftd_schema t)), (''status'', JStr (topology_status_value (ftd_status t))),
     (''filing_count'', JInt (ftd_filing_count t)), (''combined_remedies'', jstrs (ftd_combined_remedies t)),
     (''separated_remedies'', jstrs (ftd_separated_remedies t)), (''rationale'', JStr (ftd_rationale t)),
     (''blockers'', jstrs (ftd_blockers t))]"

record filing_plan =
  fpl_filing_id :: string
  fpl_filing_type :: string
  fpl_target_authority :: string
  fpl_filing_authority :: string
  fpl_filing_via :: "string option"
  fpl_objective :: string
  fpl_requests :: "string list"
  fpl_allegations_or_grounds :: "string list"
  fpl_remedy_ids :: "string list"
  fpl_rule_refs :: "string list"
  fpl_evidence_refs :: "string list"
  fpl_attachment_requirements :: "string list"
  fpl_signature_requirements :: "string list"
  fpl_copy_requirements :: "string list"
  fpl_deadline_id :: "string option"
  fpl_delivery_method :: string
  fpl_topology_status :: topology_status
  fpl_schema :: string

definition filing_plan_init :: "filing_plan \<Rightarrow> filing_plan result" where
  "filing_plan_init p =
     (if fpl_schema p \<noteq> FILING_PLAN_SCHEMA_V1 then raise_cirp ''unsupported filing plan schema''
      else and_then (nonblank_fields [(''filing_id'', fpl_filing_id p), (''filing_type'', fpl_filing_type p),
          (''target_authority'', fpl_target_authority p), (''filing_authority'', fpl_filing_authority p),
          (''objective'', fpl_objective p), (''delivery_method'', fpl_delivery_method p)]) (\<lambda>_.
      and_then (optional_fields [(''filing_via'', fpl_filing_via p), (''deadline_id'', fpl_deadline_id p)]) (\<lambda>_.
      and_then (unique_fields [(''requests'', fpl_requests p), (''allegations_or_grounds'', fpl_allegations_or_grounds p),
          (''remedy_ids'', fpl_remedy_ids p), (''rule_refs'', fpl_rule_refs p), (''evidence_refs'', fpl_evidence_refs p),
          (''attachment_requirements'', fpl_attachment_requirements p),
          (''signature_requirements'', fpl_signature_requirements p), (''copy_requirements'', fpl_copy_requirements p)]) (\<lambda>_.
      if fpl_requests p = [] then raise_cirp ''filing plan requires at least one request''
      else if fpl_remedy_ids p = [] then raise_cirp ''filing plan requires remedy_ids''
      else if fpl_rule_refs p = [] then raise_cirp ''filing plan requires rule_refs''
      else return p))))"

definition filing_plan_dict :: "filing_plan \<Rightarrow> (string \<times> json) list" where
  "filing_plan_dict p =
    [(''schema'', JStr (fpl_schema p)), (''filing_id'', JStr (fpl_filing_id p)), (''filing_type'', JStr (fpl_filing_type p)),
     (''target_authority'', JStr (fpl_target_authority p)), (''filing_authority'', JStr (fpl_filing_authority p)),
     (''filing_via'', opt_id (fpl_filing_via p)), (''objective'', JStr (fpl_objective p)),
     (''requests'', jstrs (fpl_requests p)), (''allegations_or_grounds'', jstrs (fpl_allegations_or_grounds p)),
     (''remedy_ids'', jstrs (fpl_remedy_ids p)), (''rule_refs'', jstrs (fpl_rule_refs p)),
     (''evidence_refs'', jstrs (fpl_evidence_refs p)),
     (''attachment_requirements'', jstrs (fpl_attachment_requirements p)),
     (''signature_requirements'', jstrs (fpl_signature_requirements p)),
     (''copy_requirements'', jstrs (fpl_copy_requirements p)), (''deadline_id'', opt_id (fpl_deadline_id p)),
     (''delivery_method'', JStr (fpl_delivery_method p)),
     (''topology_status'', JStr (topology_status_value (fpl_topology_status p)))]"

section \<open>Preflight\<close>

definition PREFLIGHT_CHECK_SCHEMA_V1 :: string where
  "PREFLIGHT_CHECK_SCHEMA_V1 = ''lukart.cirp.preflight-check.v1''"

definition PREFLIGHT_RESULT_SCHEMA_V1 :: string where
  "PREFLIGHT_RESULT_SCHEMA_V1 = ''lukart.cirp.preflight-result.v1''"

datatype preflight_severity = PS_CRITICAL | PS_ERROR | PS_WARNING | PS_INFO

fun preflight_severity_value :: "preflight_severity \<Rightarrow> string" where
  "preflight_severity_value PS_CRITICAL = ''CRITICAL''"
| "preflight_severity_value PS_ERROR = ''ERROR''"
| "preflight_severity_value PS_WARNING = ''WARNING''"
| "preflight_severity_value PS_INFO = ''INFO''"

datatype preflight_status = PF_PASS | PF_FAIL | PF_UNKNOWN | PF_NOT_APPLICABLE

fun preflight_status_value :: "preflight_status \<Rightarrow> string" where
  "preflight_status_value PF_PASS = ''PASS''"
| "preflight_status_value PF_FAIL = ''FAIL''"
| "preflight_status_value PF_UNKNOWN = ''UNKNOWN''"
| "preflight_status_value PF_NOT_APPLICABLE = ''NOT_APPLICABLE''"

datatype preflight_final = PFF_FILING_READY | PFF_NOT_READY | PFF_ABSTAIN

fun preflight_final_value :: "preflight_final \<Rightarrow> string" where
  "preflight_final_value PFF_FILING_READY = ''FILING_READY''"
| "preflight_final_value PFF_NOT_READY = ''NOT_READY''"
| "preflight_final_value PFF_ABSTAIN = ''ABSTAIN''"

record preflight_check =
  pfc_check_id :: string
  pfc_severity :: preflight_severity
  pfc_status :: preflight_status
  pfc_reason :: string
  pfc_evidence_refs :: "string list"
  pfc_schema :: string

definition preflight_check_init :: "preflight_check \<Rightarrow> preflight_check result" where
  "preflight_check_init c =
     (if pfc_schema c \<noteq> PREFLIGHT_CHECK_SCHEMA_V1 then raise_cirp ''unsupported preflight check schema''
      else and_then (nonblank_fields [(''check_id'', pfc_check_id c), (''reason'', pfc_reason c)]) (\<lambda>_.
      and_then (cirp_unique (pfc_evidence_refs c) ''evidence_refs'') (\<lambda>_. return c)))"

definition preflight_check_dict :: "preflight_check \<Rightarrow> (string \<times> json) list" where
  "preflight_check_dict c =
    [(''schema'', JStr (pfc_schema c)), (''check_id'', JStr (pfc_check_id c)),
     (''severity'', JStr (preflight_severity_value (pfc_severity c))), (''status'', JStr (preflight_status_value (pfc_status c))),
     (''reason'', JStr (pfc_reason c)), (''evidence_refs'', jstrs (pfc_evidence_refs c))]"

record preflight_result =
  pfr_filing_id :: string
  pfr_checks :: "preflight_check list"
  pfr_blockers :: "string list"
  pfr_warnings :: "string list"
  pfr_final_status :: preflight_final
  pfr_schema :: string

definition preflight_result_init :: "preflight_result \<Rightarrow> preflight_result result" where
  "preflight_result_init r =
     (if pfr_schema r \<noteq> PREFLIGHT_RESULT_SCHEMA_V1 then raise_cirp ''unsupported preflight result schema''
      else and_then (cirp_nonblank (pfr_filing_id r) ''filing_id'') (\<lambda>_.
      if \<not> distinct (map pfc_check_id (pfr_checks r))
      then raise_cirp ''preflight checks cannot contain duplicate check_id values''
      else and_then (unique_fields [(''blockers'', pfr_blockers r), (''warnings'', pfr_warnings r)]) (\<lambda>_.
      let critical_non_pass = filter (\<lambda>c. pfc_severity c = PS_CRITICAL \<and> pfc_status c \<noteq> PF_PASS) (pfr_checks r) in
      if pfr_final_status r = PFF_FILING_READY \<and> pfr_checks r = []
      then raise_cirp ''FILING_READY requires preflight checks''
      else if pfr_final_status r = PFF_FILING_READY \<and> (pfr_blockers r \<noteq> [] \<or> critical_non_pass \<noteq> [])
      then raise_cirp ''FILING_READY requires all critical checks PASS and no blockers''
      else if pfr_blockers r \<noteq> [] \<and> pfr_final_status r = PFF_FILING_READY
      then raise_cirp ''blockers are incompatible with FILING_READY''
      else return r)))"

definition preflight_result_dict :: "preflight_result \<Rightarrow> (string \<times> json) list" where
  "preflight_result_dict r =
    [(''schema'', JStr (pfr_schema r)), (''filing_id'', JStr (pfr_filing_id r)),
     (''checks'', JList (map (\<lambda>c. JObj (preflight_check_dict c)) (pfr_checks r))),
     (''blockers'', jstrs (pfr_blockers r)), (''warnings'', jstrs (pfr_warnings r)),
     (''final_status'', JStr (preflight_final_value (pfr_final_status r)))]"

section \<open>What the constructors admit\<close>

definition is_line :: "string \<Rightarrow> bool" where
  "is_line s = (is_text s \<and> \<not> has_control s)"

definition line_tuple :: "string list \<Rightarrow> bool" where
  "line_tuple xs = (distinct xs \<and> (\<forall>x \<in> set xs. is_line x))"

lemma cirp_nonblank_Inr [simp]: "cirp_nonblank v n = Inr s \<longleftrightarrow> s = v \<and> is_line v"
  by (auto simp: cirp_nonblank_def is_line_def is_text_def strip_id) (metis strip_stripped)+

lemma cirp_optional_Inr [simp]: "cirp_optional v n = Inr s \<longleftrightarrow> s = v \<and> (\<forall>x. v = Some x \<longrightarrow> is_line x)"
  by (auto simp: cirp_optional_def split: option.splits)

lemma map_result_same:
  assumes "\<And>x y. f x = Inr y \<longleftrightarrow> y = g x \<and> P x"
  shows "map_result f xs = Inr ys \<longleftrightarrow> ys = map g xs \<and> (\<forall>x \<in> set xs. P x)"
  by (induction xs arbitrary: ys) (auto simp: assms)

lemma cirp_unique_Inr [simp]: "cirp_unique vs n = Inr ws \<longleftrightarrow> ws = vs \<and> line_tuple vs"
  using map_result_same [of "\<lambda>v. cirp_nonblank v n" "\<lambda>v. v" is_line vs]
  by (auto simp: cirp_unique_def line_tuple_def)

lemma fields_Inr [simp]:
  "nonblank_fields fs = Inr u \<longleftrightarrow> (\<forall>(n, v) \<in> set fs. is_line v)"
  "optional_fields os = Inr u \<longleftrightarrow> (\<forall>(n, v) \<in> set os. \<forall>x. v = Some x \<longrightarrow> is_line x)"
  "unique_fields us = Inr u \<longleftrightarrow> (\<forall>(n, v) \<in> set us. line_tuple v)"
  by (simp_all add: nonblank_fields_def optional_fields_def unique_fields_def case_prod_unfold
      map_result_same [of "\<lambda>p. cirp_nonblank (snd p) (fst p)" snd "\<lambda>p. is_line (snd p)"]
      map_result_same [of "\<lambda>p. cirp_optional (snd p) (fst p)" snd "\<lambda>p. \<forall>x. snd p = Some x \<longrightarrow> is_line x"]
      map_result_same [of "\<lambda>p. cirp_unique (snd p) (fst p)" snd "\<lambda>p. line_tuple (snd p)"])

lemma p3_as_cirp_Inr [simp]: "p3_as_cirp r = Inr x \<longleftrightarrow> r = Inr x"
  by (cases r rule: p3_as_cirp.cases) auto

lemma cirp_digest_Inr: "cirp_digest v n = Inr s \<longleftrightarrow> s = lower (strip v) \<and> is_sha256 s"
  by (simp add: cirp_digest_def require_sha256_Inr)

lemma cirp_aware_Inr [simp]: "cirp_aware t n = Inr s \<longleftrightarrow> s = t \<and> is_aware t"
  by (auto simp: cirp_aware_def)

text \<open>A constructor that does not normalise gives back what it was given.\<close>

lemma inits_same:
  "deadline_init a = Inr a' \<Longrightarrow> a' = a" "remedy_option_init r = Inr r' \<Longrightarrow> r' = r"
  "evidence_requirement_init e = Inr e' \<Longrightarrow> e' = e" "strategy_option_init so = Inr so' \<Longrightarrow> so' = so"
  "topology_init t = Inr t' \<Longrightarrow> t' = t" "filing_plan_init p = Inr p' \<Longrightarrow> p' = p"
  "preflight_check_init c = Inr c' \<Longrightarrow> c' = c" "preflight_result_init q = Inr q' \<Longrightarrow> q' = q"
  by (auto simp: deadline_init_def remedy_option_init_def evidence_requirement_init_def strategy_option_init_def
      topology_init_def filing_plan_init_def preflight_check_init_def preflight_result_init_def Let_def split: if_splits)

lemma index_unique_onto:
  "index_unique key msg xs m = Inr m' \<longleftrightarrow>
     distinct (map key xs) \<and> (\<forall>x \<in> set xs. m (key x) = None) \<and> m' = m ++ by_id key xs"
proof (induction xs arbitrary: m)
  case (Cons x xs)
  let ?m = "m(key x \<mapsto> x)"
  note IH = Cons.IH [of ?m]
  show ?case
  proof (cases "m (key x) = None \<and> key x \<notin> key ` set xs")
    case True
    then have "by_id key xs (key x) = None" by (simp add: by_id_def map_of_eq_None_iff image_image)
    then have "m ++ by_id key (x # xs) = ?m ++ by_id key xs"
      by (auto simp: by_id_def map_add_def split: option.splits)
    moreover have "(\<forall>y \<in> set xs. ?m (key y) = None) \<longleftrightarrow> (\<forall>y \<in> set xs. m (key y) = None)" using True by (force simp: image_iff)
    ultimately show ?thesis using True IH by (simp del: fun_upd_apply)
  next
    case False
    have "index_unique key msg xs ?m \<noteq> Inr m'" if k: "key x \<in> key ` set xs"
    proof -
      obtain y where "y \<in> set xs" "key y = key x" using k by auto
      then have "y \<in> set xs" "?m (key y) \<noteq> None" by simp_all
      then have "\<not> (\<forall>y \<in> set xs. ?m (key y) = None)" by (auto simp del: fun_upd_apply)
      then show ?thesis unfolding IH by blast
    qed
    then show ?thesis using False by (auto simp del: fun_upd_apply)
  qed
qed (auto simp: by_id_def)

lemma index_unique_Inr [simp]: "index_unique key msg xs Map.empty = Inr m \<longleftrightarrow> distinct (map key xs) \<and> m = by_id key xs"
  by (simp add: index_unique_onto)

lemma by_id_Some: "by_id key xs k = Some x \<Longrightarrow> x \<in> set xs \<and> key x = k"
  by (auto simp: by_id_def dest: map_of_SomeD)

lemma by_id_iff: "distinct (map key xs) \<Longrightarrow> by_id key xs k = Some x \<longleftrightarrow> x \<in> set xs \<and> key x = k"
  by (auto simp: by_id_Some) (auto simp: by_id_def comp_def intro!: map_of_is_SomeI)

lemma by_id_None: "by_id key xs k = None \<longleftrightarrow> k \<notin> key ` set xs"
  by (simp add: by_id_def map_of_eq_None_iff image_image)

lemma jstrs_norm [simp]: "norm_json (jstrs xs) = jstrs xs" "wf_json (jstrs xs)" "jstrs xs = jstrs ys \<longleftrightarrow> xs = ys"
  by (simp_all add: jstrs_def list_all_iff inj_map_eq_map inj_def)

lemma opt_date_norm [simp]: "norm_json (opt_date d) = opt_date d" "wf_json (opt_date d)"
  by (simp_all add: opt_date_def split: option.split)

lemma iso_date_inject: "date_ok a \<Longrightarrow> date_ok b \<Longrightarrow> iso_date a = iso_date b \<longleftrightarrow> a = b"
  by (metis iso_date_read option.inject prod.inject)

lemma opt_date_inject:
  "(\<forall>d. a = Some d \<longrightarrow> date_ok d) \<Longrightarrow> (\<forall>d. b = Some d \<longrightarrow> date_ok d) \<Longrightarrow> opt_date a = opt_date b \<longleftrightarrow> a = b"
  by (cases a; cases b) (auto simp: opt_date_def iso_date_inject)

lemma sorted_diff_empty [simp]: "sorted_diff a b = [] \<longleftrightarrow> set a \<subseteq> set b"
  by (auto simp: sorted_diff_def filter_empty_conv)

lemma digest_length: "length (content_digest j) = 64"
  using is_sha256_content_digest [of j] by (simp add: is_sha256_def)

text \<open>A rule pack names the rules of a guard by tokens, key and digest of the rule.\<close>

locale pack_bound = content_addressed ok dict
  for ok :: "'a \<Rightarrow> bool" and dict :: "'a \<Rightarrow> (string \<times> json) list" +
  fixes key :: "'a \<Rightarrow> string" and token :: "'a \<Rightarrow> string"
  assumes token: "token r = key r @ ''#'' @ content_digest (JObj (dict r))"
begin

lemma token_binds:
  assumes "token r = token r'" "ok r" "ok r'"
  shows "same_or_clash dict r r'"
proof -
  have "(key r @ ''#'') @ content_digest (JObj (dict r)) = (key r' @ ''#'') @ content_digest (JObj (dict r'))"
    using assms(1) by (simp add: token)
  then have "content_digest (JObj (dict r)) = content_digest (JObj (dict r'))"
    using append_eq_append_conv [of "key r @ ''#''" "key r' @ ''#''"] by (simp add: digest_length)
  then show ?thesis using digest_binds [OF assms(2,3)] by (simp add: same_or_clash_def)
qed

lemma pack_pins:
  assumes "sort names = sort (map token rules)" "sort names' = sort (map token rules')" "set names = set names'"
    and "\<forall>r \<in> set rules \<union> set rules'. ok r" "r \<in> set rules"
  shows "\<exists>r' \<in> set rules'. same_or_clash dict r r'"
proof -
  have "set (map token rules) = set (map token rules')" using assms(1-3) by (metis set_sort)
  then have "token r \<in> set (map token rules')" using assms(5) by auto
  then obtain r' where "r' \<in> set rules'" "token r = token r'" by auto
  then show ?thesis using token_binds assms(4,5) by blast
qed

end

end
