(* ===== verification/CIRP_Lifecycle.thy ===== *)
theory CIRP_Lifecycle
  imports CIRP_Contracts "HOL-Library.Sublist"
begin

text \<open>
  \<^verbatim>\<open>core/cirp/operational_guards.py\<close>: the lifecycle of a filed artifact, the boundary of the renderer, the
  effect of red-team findings and the canaries on public surfaces.
\<close>

section \<open>The lifecycle\<close>

datatype lifecycle_status = LC_DRAFT | LC_PREFLIGHTED | LC_SEND_READY | LC_APPROVED | LC_SENT_FILED
  | LC_RECEIVED_DELIVERED | LC_RESPONDED | LC_ASSESSED | LC_CLOSED_ARCHIVED

fun lifecycle_value :: "lifecycle_status \<Rightarrow> string" where
  "lifecycle_value LC_DRAFT = ''DRAFT''"
| "lifecycle_value LC_PREFLIGHTED = ''PREFLIGHTED''"
| "lifecycle_value LC_SEND_READY = ''SEND_READY''"
| "lifecycle_value LC_APPROVED = ''APPROVED''"
| "lifecycle_value LC_SENT_FILED = ''SENT/FILED''"
| "lifecycle_value LC_RECEIVED_DELIVERED = ''RECEIVED/DELIVERED''"
| "lifecycle_value LC_RESPONDED = ''RESPONDED''"
| "lifecycle_value LC_ASSESSED = ''ASSESSED''"
| "lifecycle_value LC_CLOSED_ARCHIVED = ''CLOSED/ARCHIVED''"

record transition_evidence =
  lte_preflight_executed :: bool
  lte_preflight_status :: "preflight_final option"
  lte_authority_verified :: bool
  lte_filing_route_verified :: bool
  lte_no_material_unknowns :: bool
  lte_explicit_user_authorization :: bool
  lte_external_action_receipt_verified :: bool
  lte_delivery_proof_verified :: bool
  lte_response_evidence_verified :: bool
  lte_assessment_recorded :: bool
  lte_closure_recorded :: bool

fun next_lifecycle :: "lifecycle_status \<Rightarrow> lifecycle_status option" where
  "next_lifecycle LC_DRAFT = Some LC_PREFLIGHTED"
| "next_lifecycle LC_PREFLIGHTED = Some LC_SEND_READY"
| "next_lifecycle LC_SEND_READY = Some LC_APPROVED"
| "next_lifecycle LC_APPROVED = Some LC_SENT_FILED"
| "next_lifecycle LC_SENT_FILED = Some LC_RECEIVED_DELIVERED"
| "next_lifecycle LC_RECEIVED_DELIVERED = Some LC_RESPONDED"
| "next_lifecycle LC_RESPONDED = Some LC_ASSESSED"
| "next_lifecycle LC_ASSESSED = Some LC_CLOSED_ARCHIVED"
| "next_lifecycle LC_CLOSED_ARCHIVED = None"

definition validate_lifecycle_transition ::
  "lifecycle_status \<Rightarrow> lifecycle_status \<Rightarrow> transition_evidence \<Rightarrow> unit result" where
  "validate_lifecycle_transition current target e =
     (case next_lifecycle current of
        None \<Rightarrow> raise_cirp ''closed lifecycle history cannot be advanced or rewritten''
      | Some expected \<Rightarrow>
      if target \<noteq> expected
      then raise_cirp (''invalid lifecycle transition: '' @ lifecycle_value current @ '' -> '' @ lifecycle_value target)
      else if target = LC_PREFLIGHTED \<and> \<not> lte_preflight_executed e
      then raise_cirp ''PREFLIGHTED requires an executed preflight''
      else if target = LC_SEND_READY \<and> lte_preflight_status e \<noteq> Some PFF_FILING_READY
      then raise_cirp ''SEND_READY requires FILING_READY preflight status''
      else if target = LC_SEND_READY \<and> \<not> lte_authority_verified e
      then raise_cirp ''SEND_READY requires verified authority''
      else if target = LC_SEND_READY \<and> \<not> lte_filing_route_verified e
      then raise_cirp ''SEND_READY requires verified filing route''
      else if target = LC_SEND_READY \<and> \<not> lte_no_material_unknowns e
      then raise_cirp ''SEND_READY cannot retain material UNKNOWN/UNRESOLVED state''
      else if target = LC_APPROVED \<and> \<not> lte_explicit_user_authorization e
      then raise_cirp ''APPROVED requires explicit user authorization''
      else if target = LC_SENT_FILED \<and> \<not> lte_external_action_receipt_verified e
      then raise_cirp ''SENT/FILED requires verified external-action evidence''
      else if target = LC_RECEIVED_DELIVERED \<and> \<not> lte_delivery_proof_verified e
      then raise_cirp ''RECEIVED/DELIVERED requires verified delivery proof''
      else if target = LC_RESPONDED \<and> \<not> lte_response_evidence_verified e
      then raise_cirp ''RESPONDED requires response evidence''
      else if target = LC_ASSESSED \<and> \<not> lte_assessment_recorded e
      then raise_cirp ''ASSESSED requires a recorded response assessment''
      else if target = LC_CLOSED_ARCHIVED \<and> \<not> lte_closure_recorded e
      then raise_cirp ''CLOSED/ARCHIVED requires a recorded closure event''
      else return ())"

definition append_lifecycle_transition ::
  "lifecycle_status list \<Rightarrow> lifecycle_status \<Rightarrow> transition_evidence \<Rightarrow> lifecycle_status list result" where
  "append_lifecycle_transition history target e =
     (if history = [] then raise_cirp ''lifecycle history requires an existing DRAFT state''
      else if hd history \<noteq> LC_DRAFT then raise_cirp ''lifecycle history must begin at DRAFT''
      else and_then (validate_lifecycle_transition (last history) target e) (\<lambda>_. return (history @ [target])))"

definition begin_reopened_run :: "lifecycle_status list \<Rightarrow> string list \<Rightarrow> lifecycle_status list result" where
  "begin_reopened_run closed_history ids =
     (if closed_history = [] \<or> last closed_history \<noteq> LC_CLOSED_ARCHIVED
      then raise_cirp ''reopen requires an existing CLOSED/ARCHIVED history''
      else if ids = [] then raise_cirp ''reopen requires new material evidence''
      else if list_ex (\<lambda>i. i = [] \<or> i \<noteq> strip i) ids
      then raise_cirp ''material evidence ids must be canonical and nonblank''
      else if \<not> distinct ids then raise_cirp ''material evidence ids cannot contain duplicates''
      else return [LC_DRAFT])"

definition assert_legal_effect_claim :: "bool \<Rightarrow> unit result" where
  "assert_legal_effect_claim verified =
     (if \<not> verified then raise_cirp ''legal effect cannot be claimed without independent verification'' else return ())"

section \<open>The renderer\<close>

record renderer_input =
  rsi_semantic_digest :: string
  rsi_filing_plan_digest :: string
  rsi_strategy_digest :: string
  rsi_evidence_digest :: string
  rsi_unresolved_markers :: "string list"

record renderer_output =
  rso_semantic_digest :: string
  rso_filing_plan_digest :: string
  rso_strategy_digest :: string
  rso_evidence_digest :: string
  rso_unresolved_markers :: "string list"
  rso_invented_fields :: "string list"
  rso_critical_placeholders :: "string list"
  rso_presentation_digest :: "string option"

fun same_fields :: "(string \<times> string \<times> string) list \<Rightarrow> unit result" where
  "same_fields [] = return ()"
| "same_fields ((field_name, a, b) # fs) =
     (if a \<noteq> b then raise_cirp (''renderer changed semantic field: '' @ field_name) else same_fields fs)"

definition validate_renderer_boundary :: "renderer_input \<Rightarrow> renderer_output \<Rightarrow> bool \<Rightarrow> unit result" where
  "validate_renderer_boundary source rendered send_ready =
     and_then (same_fields
         [(''semantic_digest'', rsi_semantic_digest source, rso_semantic_digest rendered),
          (''filing_plan_digest'', rsi_filing_plan_digest source, rso_filing_plan_digest rendered),
          (''strategy_digest'', rsi_strategy_digest source, rso_strategy_digest rendered),
          (''evidence_digest'', rsi_evidence_digest source, rso_evidence_digest rendered)]) (\<lambda>_.
     if rso_invented_fields rendered \<noteq> [] then raise_cirp ''renderer cannot invent factual or identifying fields''
     else if rso_unresolved_markers rendered \<noteq> rsi_unresolved_markers source
     then raise_cirp ''renderer cannot hide or rewrite UNKNOWN/UNRESOLVED state''
     else if send_ready \<and> rso_critical_placeholders rendered \<noteq> []
     then raise_cirp ''SEND_READY rendering cannot retain critical placeholders''
     else return ())"

section \<open>Red team and canaries\<close>

datatype finding_status = RT_PASS | RT_FAIL | RT_UNKNOWN

record red_team_finding =
  rtf_finding_id :: string
  rtf_status :: finding_status
  rtf_reason :: string

definition red_team_finding_init :: "red_team_finding \<Rightarrow> red_team_finding result" where
  "red_team_finding_init f =
     (if rtf_finding_id f = [] \<or> rtf_finding_id f \<noteq> strip (rtf_finding_id f)
      then raise_cirp ''red-team finding_id must be canonical and nonblank''
      else if rtf_reason f = [] \<or> rtf_reason f \<noteq> strip (rtf_reason f)
      then raise_cirp ''red-team reason must be canonical and nonblank''
      else return f)"

definition red_team_downstream_status :: "red_team_finding list \<Rightarrow> preflight_final \<Rightarrow> preflight_final" where
  "red_team_downstream_status findings preflight =
     (if list_ex (\<lambda>f. rtf_status f = RT_UNKNOWN) findings then PFF_ABSTAIN
      else if list_ex (\<lambda>f. rtf_status f = RT_FAIL) findings then PFF_NOT_READY
      else preflight)"

definition assert_public_surface_canary_clean :: "string list \<Rightarrow> string list \<Rightarrow> unit result" where
  "assert_public_surface_canary_clean private_canaries public_values =
     (if list_ex (\<lambda>m. m = [] \<or> m \<noteq> strip m) private_canaries
      then raise_cirp ''private canaries must be canonical and nonblank''
      else if list_ex (\<lambda>m. list_ex (\<lambda>v. sublist m v) public_values) private_canaries
      then raise_cirp ''private CASE canary leaked to a public surface''
      else return ())"

section \<open>Runs of the lifecycle\<close>

text \<open>What each status takes.\<close>

fun stage_evidence :: "lifecycle_status \<Rightarrow> transition_evidence \<Rightarrow> bool" where
  "stage_evidence LC_DRAFT e = False"
| "stage_evidence LC_PREFLIGHTED e = lte_preflight_executed e"
| "stage_evidence LC_SEND_READY e = (lte_preflight_status e = Some PFF_FILING_READY \<and> lte_authority_verified e \<and>
     lte_filing_route_verified e \<and> lte_no_material_unknowns e)"
| "stage_evidence LC_APPROVED e = lte_explicit_user_authorization e"
| "stage_evidence LC_SENT_FILED e = lte_external_action_receipt_verified e"
| "stage_evidence LC_RECEIVED_DELIVERED e = lte_delivery_proof_verified e"
| "stage_evidence LC_RESPONDED e = lte_response_evidence_verified e"
| "stage_evidence LC_ASSESSED e = lte_assessment_recorded e"
| "stage_evidence LC_CLOSED_ARCHIVED e = lte_closure_recorded e"

definition lifecycle_stages :: "lifecycle_status list" where
  "lifecycle_stages = [LC_PREFLIGHTED, LC_SEND_READY, LC_APPROVED, LC_SENT_FILED, LC_RECEIVED_DELIVERED,
     LC_RESPONDED, LC_ASSESSED, LC_CLOSED_ARCHIVED]"

text \<open>The histories that appends reach from a draft, with the evidence each append was given.\<close>

inductive lifecycle_run :: "lifecycle_status list \<Rightarrow> transition_evidence list \<Rightarrow> bool" where
  drafted: "lifecycle_run [LC_DRAFT] []"
| advanced: "lifecycle_run history es \<Longrightarrow> append_lifecycle_transition history target e = Inr history' \<Longrightarrow>
    lifecycle_run history' (es @ [e])"

lemma validate_transition_Inr:
  "validate_lifecycle_transition current target e = Inr u \<longleftrightarrow> next_lifecycle current = Some target \<and> stage_evidence target e"
  by (cases target; cases current) (simp_all add: validate_lifecycle_transition_def)

lemma append_transition_Inr:
  "append_lifecycle_transition history target e = Inr h \<longleftrightarrow> history \<noteq> [] \<and> hd history = LC_DRAFT \<and>
     next_lifecycle (last history) = Some target \<and> stage_evidence target e \<and> h = history @ [target]"
  by (auto simp: append_lifecycle_transition_def validate_transition_Inr)

text \<open>The status after \<open>n\<close> stages, and the one stage that may follow it.\<close>

lemma stage_after:
  assumes "n < 9"
  shows "next_lifecycle (last (LC_DRAFT # take n lifecycle_stages)) = Some target \<longleftrightarrow>
    n < length lifecycle_stages \<and> target = lifecycle_stages ! n"
proof -
  have "n \<in> {0, 1, 2, 3, 4, 5, 6, 7, 8}" using assms by auto
  then show ?thesis by (auto simp: lifecycle_stages_def)
qed

lemma run_is_prefix:
  "lifecycle_run history es \<Longrightarrow>
     history = LC_DRAFT # take (length es) lifecycle_stages \<and> list_all2 stage_evidence (take (length es) lifecycle_stages) es"
proof (induction rule: lifecycle_run.induct)
  case (advanced history es target e history')
  let ?n = "length es"
  have len: "?n \<le> 8" using list_all2_lengthD [OF advanced.IH [THEN conjunct2]] by (simp add: lifecycle_stages_def)
  have h: "next_lifecycle (last (LC_DRAFT # take ?n lifecycle_stages)) = Some target" "stage_evidence target e"
      "history' = LC_DRAFT # take ?n lifecycle_stages @ [target]"
    using advanced.IH advanced.hyps(2) by (auto simp: append_transition_Inr)
  have "?n < 9" using len by simp
  from h(1) [unfolded stage_after [OF this]] have t: "?n < length lifecycle_stages" "target = lifecycle_stages ! ?n" by simp_all
  then have "take (length (es @ [e])) lifecycle_stages = take ?n lifecycle_stages @ [target]" by (simp add: take_Suc_conv_app_nth)
  then show ?case using advanced.IH h(2,3) by (auto intro!: list_all2_appendI)
qed simp

lemma prefix_is_run:
  "list_all2 stage_evidence (take (length es) lifecycle_stages) es \<Longrightarrow>
     lifecycle_run (LC_DRAFT # take (length es) lifecycle_stages) es"
proof (induction es rule: rev_induct)
  case (snoc e es)
  let ?n = "length es"
  have "length (take (length (es @ [e])) lifecycle_stages) = Suc ?n" using list_all2_lengthD [OF snoc.prems] by simp
  then have n: "?n < length lifecycle_stages" by simp
  then have t: "take (length (es @ [e])) lifecycle_stages = take ?n lifecycle_stages @ [lifecycle_stages ! ?n]"
    by (simp add: take_Suc_conv_app_nth)
  have len: "length (take ?n lifecycle_stages) = length es" using n by simp
  have p: "list_all2 stage_evidence (take ?n lifecycle_stages) es" "stage_evidence (lifecycle_stages ! ?n) e"
    using snoc.prems unfolding t list_all2_append [OF len] by simp_all
  have "?n < 9" using n by (simp add: lifecycle_stages_def)
  then have "append_lifecycle_transition (LC_DRAFT # take ?n lifecycle_stages) (lifecycle_stages ! ?n) e =
      Inr (LC_DRAFT # take (length (es @ [e])) lifecycle_stages)"
    using p(2) n stage_after [of ?n "lifecycle_stages ! ?n"] unfolding append_transition_Inr t by simp
  with snoc.IH [OF p(1)] show ?case by (rule lifecycle_run.advanced)
qed (simp add: lifecycle_run.drafted)

lemma renderer_boundary_Inr:
  "validate_renderer_boundary source rendered send_ready = Inr u \<longleftrightarrow>
     rso_semantic_digest rendered = rsi_semantic_digest source \<and>
     rso_filing_plan_digest rendered = rsi_filing_plan_digest source \<and>
     rso_strategy_digest rendered = rsi_strategy_digest source \<and>
     rso_evidence_digest rendered = rsi_evidence_digest source \<and> rso_invented_fields rendered = [] \<and>
     rso_unresolved_markers rendered = rsi_unresolved_markers source \<and>
     \<not> (send_ready \<and> rso_critical_placeholders rendered \<noteq> [])"
  by (auto simp: validate_renderer_boundary_def)

lemma red_team_ready:
  "red_team_downstream_status findings preflight = PFF_FILING_READY \<longleftrightarrow>
     preflight = PFF_FILING_READY \<and> (\<forall>f \<in> set findings. rtf_status f = RT_PASS)"
proof -
  have "rtf_status f = RT_PASS \<longleftrightarrow> rtf_status f \<noteq> RT_UNKNOWN \<and> rtf_status f \<noteq> RT_FAIL" for f
    by (cases "rtf_status f") simp_all
  then show ?thesis by (auto simp: red_team_downstream_status_def list_ex_iff)
qed

section \<open>Properties\<close>

text \<open>C8: The lifecycle goes through the stages of \<^verbatim>\<open>_ALLOWED_NEXT\<close> in order, each with its evidence. A history
  reached from a draft by any number of accepted transitions is the draft followed by the first stages of the
  code's order, as many as transitions, and the evidence of every transition is what the code demands of its stage;
  and every such history is reached. In particular nothing is filed without a FILING_READY preflight, verified
  authority and route, no open unknowns, an explicit authorization and an external action receipt. This is the
  order of the code and of \<^verbatim>\<open>docs/NEW_CASE_CHECKLIST.md\<close>. It is not the order of
  \<^verbatim>\<open>docs/PRIVATE_CASE_OPERATING_STANDARD.md\<close>, which puts RENDERED and FINISH_PASS between PREFLIGHTED and
  SEND_READY and lets nothing but FINISH_PASS confer SEND_READY: the code has no such stages and accepts
  SEND_READY directly after PREFLIGHTED.\<close>

theorem lifecycle_runs_exact:
  "lifecycle_run history es \<longleftrightarrow> history = LC_DRAFT # take (length es) lifecycle_stages \<and>
     list_all2 stage_evidence (take (length es) lifecycle_stages) es"
  using run_is_prefix prefix_is_run by blast

end
