(* ===== verification/CIRP_Deadline.thy ===== *)
theory CIRP_Deadline
  imports CIRP_Contracts
begin

text \<open>
  \<^verbatim>\<open>core/cirp/deadline.py\<close>: calendars, executable deadline rules bound to a rule pack by digest, and the
  guard that evaluates a deadline. The time zone database is not part of the repository: \<open>zones\<close> says
  for a key whether it is unknown, refused with another exception, or a zone, given by the local date
  of an aware datetime. Dates are ordinals, and leaving their range raises \<^verbatim>\<open>OverflowError\<close>.
\<close>

section \<open>Calendars\<close>

datatype zone_lookup = ZoneMissing | ZoneRefused py_error | Zone "py_datetime \<Rightarrow> py_date result"

type_synonym zone_database = "string \<Rightarrow> zone_lookup"

record calendar_profile =
  dcp_profile_id :: string
  dcp_timezone :: string
  dcp_weekend_days :: "int list"
  dcp_holidays :: "py_date list"
  dcp_legal_source_ids :: "string list"

definition zone_info :: "zone_database \<Rightarrow> string \<Rightarrow> string \<Rightarrow> (py_datetime \<Rightarrow> py_date result) result" where
  "zone_info zones key message =
     (case zones key of ZoneMissing \<Rightarrow> raise_cirp (message @ key) | ZoneRefused e \<Rightarrow> raise e | Zone z \<Rightarrow> return z)"

definition calendar_init :: "zone_database \<Rightarrow> calendar_profile \<Rightarrow> calendar_profile result" where
  "calendar_init zones c =
     and_then (cirp_nonblank (dcp_profile_id c) ''profile_id'') (\<lambda>_.
     and_then (cirp_nonblank (dcp_timezone c) ''timezone'') (\<lambda>_.
     and_then (zone_info zones (dcp_timezone c) ''unknown calendar timezone: '') (\<lambda>_.
     let weekend = sort (dcp_weekend_days c); holidays = sort (dcp_holidays c) in
     if \<not> distinct weekend then raise_cirp ''weekend_days cannot contain duplicates''
     else if \<exists>d \<in> set weekend. d < 0 \<or> d > 6 then raise_cirp ''weekend_days values must be in range 0..6''
     else if length weekend = 7 then raise_cirp ''calendar profile must contain at least one business day''
     else if \<not> distinct holidays then raise_cirp ''holidays cannot contain duplicates''
     else and_then (cirp_unique (dcp_legal_source_ids c) ''legal_source_ids'') (\<lambda>_.
     return (c\<lparr>dcp_weekend_days := weekend, dcp_holidays := holidays\<rparr>)))))"

definition calendar_dict :: "calendar_profile \<Rightarrow> (string \<times> json) list" where
  "calendar_dict c =
    [(''profile_id'', JStr (dcp_profile_id c)), (''timezone'', JStr (dcp_timezone c)),
     (''weekend_days'', JList (map JInt (dcp_weekend_days c))),
     (''holidays'', JList (map (\<lambda>d. JStr (iso_date d)) (dcp_holidays c))),
     (''legal_source_ids'', jstrs (dcp_legal_source_ids c))]"

definition calendar_digest :: "calendar_profile \<Rightarrow> string" where
  "calendar_digest c = content_digest (JObj (calendar_dict c))"

definition is_business_day :: "calendar_profile \<Rightarrow> py_date \<Rightarrow> bool" where
  "is_business_day c d = (weekday d \<notin> set (dcp_weekend_days c) \<and> d \<notin> set (dcp_holidays c))"

text \<open>\<^verbatim>\<open>value + timedelta(days=n)\<close>; a \<^verbatim>\<open>timedelta\<close> holds less than a milliard days.\<close>

definition date_add :: "py_date \<Rightarrow> int \<Rightarrow> py_date result" where
  "date_add d n = (if \<bar>n\<bar> > 999999999 then raise BuiltinOverflowError
     else if date_ok (d + n) then return (d + n) else raise BuiltinOverflowError)"

lemma date_add_one: "date_add d 1 = (if date_ok (d + 1) then Inr (d + 1) else Inl BuiltinOverflowError)"
    "date_add d (- 1) = (if date_ok (d - 1) then Inr (d - 1) else Inl BuiltinOverflowError)"
  by (simp_all add: date_add_def)

function next_business_day :: "calendar_profile \<Rightarrow> py_date \<Rightarrow> py_date result" where
  "next_business_day c current =
     (if is_business_day c current then return current
      else and_then (date_add current 1) (\<lambda>current. next_business_day c current))"
  by pat_completeness auto
termination
  by (relation "measure (\<lambda>(c, d). nat (max_ordinal + 1 - d))") (auto simp: date_add_one date_ok_def split: if_splits)

function subtract_days :: "calendar_profile \<Rightarrow> py_date \<Rightarrow> int \<Rightarrow> py_date result" where
  "subtract_days c current remaining =
     (if remaining = 0 then return current
      else and_then (date_add current (- 1)) (\<lambda>current.
        subtract_days c current (if is_business_day c current then remaining - 1 else remaining)))"
  by pat_completeness auto
termination
  by (relation "measure (\<lambda>(c, d, n). nat d)") (auto simp: date_add_one date_ok_def split: if_splits)

definition subtract_business_days :: "calendar_profile \<Rightarrow> py_date \<Rightarrow> int \<Rightarrow> py_date result" where
  "subtract_business_days c d days =
     (if days < 0 then raise_cirp ''business-day buffer cannot be negative'' else subtract_days c d days)"

section \<open>Executable rules\<close>

datatype duration_unit = DU_CALENDAR_DAYS | DU_BUSINESS_DAYS

fun duration_unit_value :: "duration_unit \<Rightarrow> string" where
  "duration_unit_value DU_CALENDAR_DAYS = ''CALENDAR_DAYS''"
| "duration_unit_value DU_BUSINESS_DAYS = ''BUSINESS_DAYS''"

datatype start_rule = SR_EXCLUDE_TRIGGER | SR_INCLUDE_TRIGGER

fun start_rule_value :: "start_rule \<Rightarrow> string" where
  "start_rule_value SR_EXCLUDE_TRIGGER = ''EXCLUDE_TRIGGER''"
| "start_rule_value SR_INCLUDE_TRIGGER = ''INCLUDE_TRIGGER''"

datatype roll_convention = RC_NONE | RC_NEXT_BUSINESS_DAY

fun roll_value :: "roll_convention \<Rightarrow> string" where
  "roll_value RC_NONE = ''NONE''"
| "roll_value RC_NEXT_BUSINESS_DAY = ''NEXT_BUSINESS_DAY''"

datatype trigger_status = TS_VERIFIED | TS_PROVISIONAL | TS_MISSING | TS_CONFLICTING

record deadline_rule =
  xdr_rule_id :: string
  xdr_version :: string
  xdr_trigger_type :: string
  xdr_duration_value :: int
  xdr_duration_unit :: duration_unit
  xdr_start_rule :: start_rule
  xdr_roll_convention :: roll_convention
  xdr_calendar_profile_id :: string
  xdr_calendar_profile_digest :: string
  xdr_legal_source_ids :: "string list"
  xdr_effective_from :: py_date
  xdr_effective_until :: "py_date option"

definition deadline_rule_init :: "deadline_rule \<Rightarrow> deadline_rule result" where
  "deadline_rule_init r =
     and_then (nonblank_fields [(''rule_id'', xdr_rule_id r), (''version'', xdr_version r),
         (''trigger_type'', xdr_trigger_type r), (''calendar_profile_id'', xdr_calendar_profile_id r)]) (\<lambda>_.
     if xdr_duration_value r < 0 then raise_cirp ''duration_value cannot be negative''
     else if window_reversed (xdr_effective_from r) (xdr_effective_until r)
     then raise_cirp ''deadline rule effective_until precedes effective_from''
     else and_then (cirp_digest (xdr_calendar_profile_digest r) ''calendar_profile_digest'') (\<lambda>digest.
     and_then (cirp_unique (xdr_legal_source_ids r) ''legal_source_ids'') (\<lambda>_.
     if xdr_legal_source_ids r = [] then raise_cirp ''executable deadline rule requires legal_source_ids''
     else return (r\<lparr>xdr_calendar_profile_digest := digest\<rparr>))))"

definition deadline_rule_build ::
  "string \<Rightarrow> string \<Rightarrow> string \<Rightarrow> int \<Rightarrow> duration_unit \<Rightarrow> start_rule \<Rightarrow> roll_convention \<Rightarrow> calendar_profile \<Rightarrow>
   string list \<Rightarrow> py_date \<Rightarrow> py_date option \<Rightarrow> deadline_rule result" where
  "deadline_rule_build rule_id version trigger_type duration_value unit start roll calendar sources from until =
     deadline_rule_init \<lparr>xdr_rule_id = rule_id, xdr_version = version, xdr_trigger_type = trigger_type,
       xdr_duration_value = duration_value, xdr_duration_unit = unit, xdr_start_rule = start,
       xdr_roll_convention = roll, xdr_calendar_profile_id = dcp_profile_id calendar,
       xdr_calendar_profile_digest = calendar_digest calendar, xdr_legal_source_ids = sources,
       xdr_effective_from = from, xdr_effective_until = until\<rparr>"

definition deadline_rule_key :: "deadline_rule \<Rightarrow> string" where
  "deadline_rule_key r = xdr_rule_id r @ ''@'' @ xdr_version r"

definition deadline_rule_dict :: "deadline_rule \<Rightarrow> (string \<times> json) list" where
  "deadline_rule_dict r =
    [(''rule_id'', JStr (xdr_rule_id r)), (''version'', JStr (xdr_version r)),
     (''trigger_type'', JStr (xdr_trigger_type r)), (''duration_value'', JInt (xdr_duration_value r)),
     (''duration_unit'', JStr (duration_unit_value (xdr_duration_unit r))),
     (''start_rule'', JStr (start_rule_value (xdr_start_rule r))),
     (''roll_convention'', JStr (roll_value (xdr_roll_convention r))),
     (''calendar_profile_id'', JStr (xdr_calendar_profile_id r)),
     (''calendar_profile_digest'', JStr (xdr_calendar_profile_digest r)),
     (''legal_source_ids'', jstrs (xdr_legal_source_ids r)),
     (''effective_from'', JStr (iso_date (xdr_effective_from r))),
     (''effective_until'', opt_date (xdr_effective_until r))]"

definition deadline_rule_digest :: "deadline_rule \<Rightarrow> string" where
  "deadline_rule_digest r = content_digest (JObj (deadline_rule_dict r))"

definition deadline_rule_token :: "deadline_rule \<Rightarrow> string" where
  "deadline_rule_token r = deadline_rule_key r @ ''#'' @ deadline_rule_digest r"

definition deadline_rule_effective_on :: "deadline_rule \<Rightarrow> py_date \<Rightarrow> bool" where
  "deadline_rule_effective_on r d = in_window (xdr_effective_from r) (xdr_effective_until r) d"

definition calculation_method :: "deadline_rule \<Rightarrow> string" where
  "calculation_method r = join '':'' [''CIRP-02'', duration_unit_value (xdr_duration_unit r),
     start_rule_value (xdr_start_rule r), roll_value (xdr_roll_convention r)]"

section \<open>Calculation\<close>

function add_days :: "calendar_profile \<Rightarrow> py_date \<Rightarrow> int \<Rightarrow> py_date result" where
  "add_days c candidate remaining =
     (if remaining > 0 then and_then (date_add candidate 1) (\<lambda>candidate.
        add_days c candidate (if is_business_day c candidate then remaining - 1 else remaining))
      else return candidate)"
  by pat_completeness auto
termination
  by (relation "measure (\<lambda>(c, d, n). nat (max_ordinal + 1 - d))") (auto simp: date_add_one date_ok_def split: if_splits)

definition unrolled_deadline :: "deadline_rule \<Rightarrow> calendar_profile \<Rightarrow> py_date \<Rightarrow> py_date result" where
  "unrolled_deadline r c trigger_date =
     (if xdr_duration_value r = 0 then return trigger_date
      else if xdr_duration_unit r = DU_CALENDAR_DAYS
      then date_add trigger_date (if xdr_start_rule r = SR_INCLUDE_TRIGGER then xdr_duration_value r - 1
        else xdr_duration_value r)
      else add_days c trigger_date (if xdr_start_rule r = SR_INCLUDE_TRIGGER \<and> is_business_day c trigger_date
        then xdr_duration_value r - 1 else xdr_duration_value r))"

definition calculate_deadline :: "deadline_rule \<Rightarrow> calendar_profile \<Rightarrow> py_date \<Rightarrow> py_date result" where
  "calculate_deadline r c trigger_date =
     and_then (unrolled_deadline r c trigger_date) (\<lambda>candidate.
     if xdr_roll_convention r = RC_NEXT_BUSINESS_DAY then next_business_day c candidate else return candidate)"

declare next_business_day.simps [simp del] subtract_days.simps [simp del] add_days.simps [simp del]

section \<open>The guard\<close>

record deadline_guard =
  dg_rule_pack :: rule_pack
  dg_rules :: "string \<rightharpoonup> deadline_rule"
  dg_calendars :: "string \<rightharpoonup> calendar_profile"
  dg_sources :: "string \<rightharpoonup> legal_source"

fun check_jurisdictions :: "rule_pack \<Rightarrow> legal_source list \<Rightarrow> unit result" where
  "check_jurisdictions pack [] = return ()"
| "check_jurisdictions pack (s # sources) =
     (if lsr_jurisdiction s \<noteq> rpk_jurisdiction pack
      then raise_cirp ''rule pack legal source jurisdiction does not match rule pack jurisdiction''
      else check_jurisdictions pack sources)"

fun check_bindings :: "(string \<rightharpoonup> calendar_profile) \<Rightarrow> string list \<Rightarrow> deadline_rule list \<Rightarrow> unit result" where
  "check_bindings calendars source_ids [] = return ()"
| "check_bindings calendars source_ids (r # rules) =
     (case calendars (xdr_calendar_profile_id r) of
        None \<Rightarrow> raise_cirp (''missing calendar profile for executable rule: '' @ xdr_calendar_profile_id r)
      | Some c \<Rightarrow>
          if calendar_digest c \<noteq> xdr_calendar_profile_digest r
          then raise_cirp (''calendar profile digest mismatch for executable rule: '' @ deadline_rule_key r)
          else let missing = sorted_diff (xdr_legal_source_ids r @ dcp_legal_source_ids c) source_ids in
          if missing \<noteq> [] then raise_cirp (''deadline runtime references sources outside rule pack: '' @ join '', '' missing)
          else check_bindings calendars source_ids rules)"

text \<open>\<^verbatim>\<open>{source.source_id: source for source in rule_pack.source_set}\<close>; the last one wins.\<close>

definition sources_of :: "rule_pack \<Rightarrow> string \<rightharpoonup> legal_source" where
  "sources_of pack = by_id lsr_source_id (rev (rpk_source_set pack))"

definition deadline_guard_init ::
  "rule_pack \<Rightarrow> deadline_rule list \<Rightarrow> calendar_profile list \<Rightarrow> deadline_guard result" where
  "deadline_guard_init pack rules calendars =
     (if rpk_status pack \<noteq> RP_ACTIVE then raise_cirp ''DeadlineGuard requires an ACTIVE ProceduralRulePack''
      else if rules = [] then raise_cirp ''DeadlineGuard requires at least one executable deadline rule''
      else and_then (index_unique deadline_rule_key ''duplicate executable deadline rule key: '' rules Map.empty) (\<lambda>rule_map.
      and_then (index_unique dcp_profile_id ''duplicate deadline calendar profile: '' calendars Map.empty) (\<lambda>calendar_map.
      if sort (rpk_deadline_rules pack) \<noteq> sort (map deadline_rule_token rules)
      then raise_cirp ''ProceduralRulePack deadline_rules do not exactly bind executable semantics''
      else and_then (check_jurisdictions pack (rpk_source_set pack)) (\<lambda>_.
      and_then (check_bindings calendar_map (map lsr_source_id (rpk_source_set pack)) rules) (\<lambda>_.
      return \<lparr>dg_rule_pack = pack, dg_rules = rule_map, dg_calendars = calendar_map, dg_sources = sources_of pack\<rparr>)))))"

text \<open>\<^verbatim>\<open>self._sources[source_id]\<close> raises \<^verbatim>\<open>KeyError\<close> when there is none.\<close>

fun deadline_source_blockers :: "(string \<rightharpoonup> legal_source) \<Rightarrow> string list \<Rightarrow> py_date \<Rightarrow> string list result" where
  "deadline_source_blockers sources [] d = return []"
| "deadline_source_blockers sources (i # ids) d =
     (case sources i of
        None \<Rightarrow> raise (BuiltinKeyError i)
      | Some s \<Rightarrow> and_then (deadline_source_blockers sources ids d) (\<lambda>blockers. return (
          if lsr_verification_status s \<noteq> LS_VERIFIED
          then (''Verify legal source before deadline use: '' @ i) # blockers
          else if \<not> source_effective_on s d
          then (''Legal source is not effective on '' @ iso_date d @ '': '' @ i) # blockers
          else blockers)))"

text \<open>The keyword arguments of \<^verbatim>\<open>evaluate\<close>.\<close>

record deadline_query =
  dq_deadline_id :: string
  dq_rule_key :: string
  dq_trigger_type :: string
  dq_trigger_date :: "py_date option"
  dq_trigger_evidence :: "string option"
  dq_trigger_status :: trigger_status
  dq_effective_law_date :: "py_date option"
  dq_evaluation_time :: py_datetime
  dq_safe_buffer_business_days :: "int option"

definition unknown_rule_assessment :: "deadline_guard \<Rightarrow> deadline_query \<Rightarrow> deadline_assessment" where
  "unknown_rule_assessment g q =
     \<lparr>das_deadline_id = dq_deadline_id q, das_trigger_type = dq_trigger_type q, das_trigger_date = dq_trigger_date q,
      das_trigger_evidence = dq_trigger_evidence q, das_rule_pack_id = Some (rpk_pack_id (dg_rule_pack g)),
      das_rule_id = Some (dq_rule_key q), das_rule_version = None, das_legal_source_refs = [],
      das_effective_law_date = dq_effective_law_date q, das_duration_value = None, das_duration_unit = None,
      das_calculation_method = None, das_calendar_profile = None, das_timezone = None, das_legal_deadline = None,
      das_safe_internal_deadline = None, das_status = DL_UNKNOWN_RULE,
      das_blocking_questions = [''Resolve executable deadline rule: '' @ dq_rule_key q],
      das_schema = DEADLINE_ASSESSMENT_SCHEMA_V1\<rparr>"

text \<open>\<^verbatim>\<open>DeadlineAssessment(**common, ...)\<close>.\<close>

definition common_assessment ::
  "deadline_guard \<Rightarrow> deadline_query \<Rightarrow> deadline_rule \<Rightarrow> calendar_profile \<Rightarrow> string list \<Rightarrow>
   py_date option \<Rightarrow> py_date option \<Rightarrow> deadline_status \<Rightarrow> string list \<Rightarrow> deadline_assessment" where
  "common_assessment g q r c source_ids legal safe status blocking =
     \<lparr>das_deadline_id = dq_deadline_id q, das_trigger_type = dq_trigger_type q, das_trigger_date = dq_trigger_date q,
      das_trigger_evidence = dq_trigger_evidence q, das_rule_pack_id = Some (rpk_pack_id (dg_rule_pack g)),
      das_rule_id = Some (xdr_rule_id r), das_rule_version = Some (xdr_version r), das_legal_source_refs = source_ids,
      das_effective_law_date = dq_effective_law_date q, das_duration_value = Some (xdr_duration_value r),
      das_duration_unit = Some (duration_unit_value (xdr_duration_unit r)),
      das_calculation_method = Some (calculation_method r), das_calendar_profile = Some (dcp_profile_id c),
      das_timezone = Some (dcp_timezone c), das_legal_deadline = legal, das_safe_internal_deadline = safe,
      das_status = status, das_blocking_questions = blocking, das_schema = DEADLINE_ASSESSMENT_SCHEMA_V1\<rparr>"

text \<open>The internal deadline a number of business days earlier.\<close>

definition safe_deadline :: "calendar_profile \<Rightarrow> py_date \<Rightarrow> py_date \<Rightarrow> int option \<Rightarrow> py_date option result" where
  "safe_deadline c trigger_date legal buffer =
     (case buffer of None \<Rightarrow> return None
      | Some n \<Rightarrow> and_then (subtract_business_days c legal n) (\<lambda>safe.
          if safe < trigger_date
          then raise_cirp ''safe_buffer_business_days moves the internal deadline before the trigger date''
          else return (Some safe)))"

definition evaluated_status ::
  "zone_database \<Rightarrow> calendar_profile \<Rightarrow> deadline_query \<Rightarrow> py_date \<Rightarrow> deadline_status result" where
  "evaluated_status zones c q legal =
     (if dq_trigger_status q \<noteq> TS_VERIFIED then return DL_PROVISIONAL
      else and_then (case zones (dcp_timezone c) of
            ZoneMissing \<Rightarrow> raise (BuiltinKeyError (''No time zone found with key '' @ dcp_timezone c))
          | ZoneRefused e \<Rightarrow> raise e | Zone z \<Rightarrow> z (dq_evaluation_time q)) (\<lambda>today.
      return (if today > legal then DL_EXPIRED else DL_VERIFIED)))"

definition evaluate_rule ::
  "zone_database \<Rightarrow> deadline_guard \<Rightarrow> deadline_query \<Rightarrow> deadline_rule \<Rightarrow> calendar_profile \<Rightarrow> deadline_assessment result" where
  "evaluate_rule zones g q r c =
     (let source_ids = sorted_set (xdr_legal_source_ids r @ dcp_legal_source_ids c);
          blocked = (\<lambda>status blocking. deadline_init (common_assessment g q r c source_ids None None status blocking)) in
      case dq_effective_law_date q of
        None \<Rightarrow> blocked DL_MISSING_INPUT [''Establish the effective-law date for deadline evaluation.'']
      | Some law_date \<Rightarrow>
      if \<not> pack_effective_on (dg_rule_pack g) law_date \<or> \<not> deadline_rule_effective_on r law_date
      then blocked DL_UNKNOWN_RULE [''Resolve the rule pack/rule version effective on the relevant law date.'']
      else and_then (deadline_source_blockers (dg_sources g) source_ids law_date) (\<lambda>source_blockers.
      if source_blockers \<noteq> [] then blocked DL_UNKNOWN_RULE source_blockers
      else if dq_trigger_type q \<noteq> xdr_trigger_type r
      then blocked DL_UNKNOWN_RULE [''Rule '' @ deadline_rule_key r @ '' requires trigger type '' @ xdr_trigger_type r @
        '', not '' @ dq_trigger_type q @ ''.'']
      else if dq_trigger_status q = TS_CONFLICTING
      then blocked DL_CONFLICTING_EVIDENCE [''Resolve conflicting trigger-date evidence.'']
      else case dq_trigger_date q of
        None \<Rightarrow> blocked DL_MISSING_INPUT [''Establish the deadline trigger date.'']
      | Some trigger_date \<Rightarrow>
      if dq_trigger_status q = TS_MISSING then blocked DL_MISSING_INPUT [''Establish the deadline trigger date.'']
      else case dq_trigger_evidence q of
        None \<Rightarrow> blocked DL_MISSING_INPUT [''Bind the trigger date to evidence.'']
      | Some evidence \<Rightarrow>
      and_then (cirp_nonblank evidence ''trigger_evidence'') (\<lambda>_.
      and_then (calculate_deadline r c trigger_date) (\<lambda>legal.
      and_then (safe_deadline c trigger_date legal (dq_safe_buffer_business_days q)) (\<lambda>safe.
      and_then (evaluated_status zones c q legal) (\<lambda>status.
      deadline_init (common_assessment g q r c source_ids (Some legal) safe status [])))))))"

definition deadline_evaluate ::
  "zone_database \<Rightarrow> deadline_guard \<Rightarrow> deadline_query \<Rightarrow> deadline_assessment result" where
  "deadline_evaluate zones g q =
     and_then (nonblank_fields [(''deadline_id'', dq_deadline_id q), (''rule_key'', dq_rule_key q),
         (''trigger_type'', dq_trigger_type q)]) (\<lambda>_.
     if \<not> is_aware (dq_evaluation_time q) then raise_cirp ''evaluation_time must be timezone-aware''
     else if (case dq_safe_buffer_business_days q of None \<Rightarrow> False | Some n \<Rightarrow> n < 0)
     then raise_cirp ''safe_buffer_business_days cannot be negative''
     else case dg_rules g (dq_rule_key q) of
       None \<Rightarrow> deadline_init (unknown_rule_assessment g q)
     | Some r \<Rightarrow> (case dg_calendars g (xdr_calendar_profile_id r) of
         None \<Rightarrow> raise (BuiltinKeyError (xdr_calendar_profile_id r))
       | Some c \<Rightarrow> evaluate_rule zones g q r c))"

section \<open>Counting business days\<close>

text \<open>The reference: how many of the days \<open>a\<close> to \<open>b\<close> are business days.\<close>

definition business_days :: "calendar_profile \<Rightarrow> py_date \<Rightarrow> py_date \<Rightarrow> int" where
  "business_days c a b = int (length (filter (is_business_day c) [a..b]))"

lemma business_days_empty [simp]: "b < a \<Longrightarrow> business_days c a b = 0"
  by (simp add: business_days_def)

lemma business_days_first:
  "a \<le> b \<Longrightarrow> business_days c a b = (if is_business_day c a then 1 else 0) + business_days c (a + 1) b"
  by (simp add: business_days_def upto_rec1)

lemma business_days_last:
  "a \<le> b \<Longrightarrow> business_days c a b = business_days c a (b - 1) + (if is_business_day c b then 1 else 0)"
  by (simp add: business_days_def upto_rec2)

lemma business_days_nonneg [simp]: "0 \<le> business_days c a b"
  by (simp add: business_days_def)

lemma business_days_pos: "a \<le> x \<Longrightarrow> x \<le> b \<Longrightarrow> is_business_day c x \<Longrightarrow> 0 < business_days c a b"
  by (auto simp: business_days_def filter_empty_conv)

lemma next_business_day_Inr:
  "next_business_day c d = Inr d' \<longleftrightarrow>
     d \<le> d' \<and> (d' = d \<or> date_ok d') \<and> is_business_day c d' \<and> business_days c d (d' - 1) = 0"
  if "1 \<le> d + 1"
  using that
proof (induction c d rule: next_business_day.induct)
  case (1 c d)
  show ?case
  proof (cases "is_business_day c d")
    case True
    have "0 < business_days c d (d' - 1)" if "d < d'" using business_days_pos [of d d "d' - 1" c] that True by simp
    then show ?thesis using True by (subst next_business_day.simps) (cases "d = d'"; force)
  next
    case False
    have s: "business_days c d (d' - 1) = business_days c (d + 1) (d' - 1)" if "d < d'"
      using business_days_first [of d "d' - 1" c] that False by simp
    show ?thesis
    proof (cases "date_ok (d + 1)")
      case True
      then have "next_business_day c d = next_business_day c (d + 1)"
        using False by (subst next_business_day.simps) (simp add: date_add_one)
      moreover have "date_add d 1 = Inr (d + 1)" using True by (simp add: date_add_one)
      ultimately show ?thesis using "1.IH" [OF False] "1.prems" False s True
        by (cases "d < d'") (auto simp: date_ok_def)
    next
      case over: False
      then have "next_business_day c d = Inl BuiltinOverflowError"
        using False by (subst next_business_day.simps) (simp add: date_add_one)
      then show ?thesis using over False "1.prems" by (cases "d = d'") (auto simp: date_ok_def)
    qed
  qed
qed

lemma next_business_day_reached:
  assumes "is_business_day c x" "d \<le> x" "date_ok x" "0 \<le> d"
  shows "\<exists>d'. next_business_day c d = Inr d' \<and> d' \<le> x"
  using assms
proof (induction c d rule: next_business_day.induct)
  case (1 c d)
  show ?case
  proof (cases "is_business_day c d")
    case True
    then show ?thesis using "1.prems" by (subst next_business_day.simps) simp
  next
    case False
    then have "d < x" using "1.prems" by (cases "d = x") auto
    then have "date_add d 1 = Inr (d + 1)" using "1.prems" by (simp add: date_add_one date_ok_def)
    then show ?thesis using "1.IH" [OF False] "1.prems" False \<open>d < x\<close> by (subst next_business_day.simps) simp
  qed
qed

lemma add_days_Inr:
  "add_days c t n = Inr d \<longleftrightarrow> (if n \<le> 0 then d = t else t < d \<and> date_ok d \<and> is_business_day c d \<and> business_days c (t + 1) d = n)"
  if "0 \<le> t"
  using that
proof (induction c t n rule: add_days.induct)
  case (1 c t n)
  show ?case
  proof (cases "0 < n \<and> date_ok (t + 1)")
    case False
    then show ?thesis using "1.prems" by (subst add_days.simps) (auto simp: date_add_one date_ok_def)
  next
    case True
    let ?n = "if is_business_day c (t + 1) then n - 1 else n"
    have step: "add_days c t n = add_days c (t + 1) ?n" using True by (subst add_days.simps) (simp add: date_add_one)
    have IH: "add_days c (t + 1) ?n = Inr d \<longleftrightarrow>
        (if ?n \<le> 0 then d = t + 1 else t + 1 < d \<and> date_ok d \<and> is_business_day c d \<and> business_days c (t + 1 + 1) d = ?n)"
      using "1.IH" [of "t + 1"] True "1.prems" by (simp add: date_add_one)
    have f: "t < d \<Longrightarrow> business_days c (t + 1) d = (if is_business_day c (t + 1) then 1 else 0) + business_days c (t + 1 + 1) d"
      by (rule business_days_first) simp
    have p: "t + 1 < d \<Longrightarrow> is_business_day c d \<Longrightarrow> 0 < business_days c (t + 1 + 1) d"
      using business_days_pos [of "t + 1 + 1" d d c] by simp
    show ?thesis unfolding step IH using True f p by (cases "d = t + 1") (auto split: if_splits)
  qed
qed

lemma subtract_days_Inr:
  "subtract_days c d n = Inr s \<longleftrightarrow> (if n = 0 then s = d else s < d \<and> date_ok s \<and> is_business_day c s \<and> business_days c s (d - 1) = n)"
  if "d \<le> max_ordinal + 1" "0 \<le> n"
  using that
proof (induction c d n rule: subtract_days.induct)
  case (1 c d n)
  show ?case
  proof (cases "n \<noteq> 0 \<and> date_ok (d - 1)")
    case False
    then show ?thesis using "1.prems" by (subst subtract_days.simps) (auto simp: date_add_one date_ok_def)
  next
    case True
    let ?n = "if is_business_day c (d - 1) then n - 1 else n"
    have step: "subtract_days c d n = subtract_days c (d - 1) ?n" using True by (subst subtract_days.simps) (simp add: date_add_one)
    have IH: "subtract_days c (d - 1) ?n = Inr s \<longleftrightarrow>
        (if ?n = 0 then s = d - 1 else s < d - 1 \<and> date_ok s \<and> is_business_day c s \<and> business_days c s (d - 1 - 1) = ?n)"
      using "1.IH" [of "d - 1"] True "1.prems" by (simp add: date_add_one)
    have f: "s < d \<Longrightarrow> business_days c s (d - 1) = business_days c s (d - 1 - 1) + (if is_business_day c (d - 1) then 1 else 0)"
      by (rule business_days_last) simp
    have p: "s < d - 1 \<Longrightarrow> is_business_day c s \<Longrightarrow> 0 < business_days c s (d - 1 - 1)"
      using business_days_pos [of s s "d - 1 - 1" c] by simp
    show ?thesis unfolding step IH using True f p by (cases "s = d - 1") (auto split: if_splits)
  qed
qed

lemma add_days_total:
  "0 \<le> t \<Longrightarrow> n \<le> business_days c (t + 1) max_ordinal \<Longrightarrow> \<exists>d. add_days c t n = Inr d"
proof (induction c t n rule: add_days.induct)
  case (1 c t n)
  show ?case
  proof (cases "0 < n")
    case True
    then have "t + 1 \<le> max_ordinal" using "1.prems"(2) by (cases "t + 1 \<le> max_ordinal") auto
    then have t: "date_add t 1 = Inr (t + 1)" using "1.prems"(1) by (simp add: date_add_one date_ok_def)
    let ?n = "if is_business_day c (t + 1) then n - 1 else n"
    have "?n \<le> business_days c (t + 1 + 1) max_ordinal"
      using "1.prems"(2) business_days_first [OF \<open>t + 1 \<le> max_ordinal\<close>, of c] by (cases "is_business_day c (t + 1)") simp_all
    then have "\<exists>d. add_days c (t + 1) ?n = Inr d" using "1.IH" [OF True t] "1.prems"(1) by simp
    then show ?thesis using True t by (subst add_days.simps) simp
  qed (subst add_days.simps, simp)
qed

lemma business_days_mono: "b \<le> b' \<Longrightarrow> business_days c a b \<le> business_days c a b'"
proof (induction b' rule: int_ge_induct)
  case (step i)
  then show ?case using business_days_last [of a "i + 1" c] by (cases "a \<le> i + 1") auto
qed simp

text \<open>A calendar the constructor admits has a weekday that is not in the weekend.\<close>

definition calendar_ok :: "calendar_profile \<Rightarrow> bool" where
  "calendar_ok c = (is_line (dcp_profile_id c) \<and> is_line (dcp_timezone c) \<and> sorted (dcp_weekend_days c) \<and>
     distinct (dcp_weekend_days c) \<and> (\<forall>d \<in> set (dcp_weekend_days c). 0 \<le> d \<and> d \<le> 6) \<and>
     length (dcp_weekend_days c) < 7 \<and> sorted (dcp_holidays c) \<and> distinct (dcp_holidays c) \<and>
     line_tuple (dcp_legal_source_ids c))"

lemma calendar_init_ok: "calendar_init zones c = Inr c' \<Longrightarrow> calendar_ok c'"
proof -
  assume c: "calendar_init zones c = Inr c'"
  have "length (dcp_weekend_days c) < 7" if "distinct (sort (dcp_weekend_days c))" "length (dcp_weekend_days c) \<noteq> 7"
    "\<forall>d \<in> set (dcp_weekend_days c). \<not> d < 0 \<and> \<not> 6 < d"
  proof -
    have "set (dcp_weekend_days c) \<subseteq> {0..6}" using that(3) by force
    then have "card (set (dcp_weekend_days c)) \<le> 7" using card_mono [of "{0..6 :: int}"] by simp
    moreover have "card (set (dcp_weekend_days c)) = length (dcp_weekend_days c)" using that(1) by (simp add: distinct_card)
    ultimately show ?thesis using that(2) by simp
  qed
  with c show ?thesis by (force simp: calendar_init_def calendar_ok_def Let_def split: if_splits)
qed

lemma working_weekday:
  assumes "calendar_ok c"
  shows "\<exists>w. 0 \<le> w \<and> w \<le> 6 \<and> w \<notin> set (dcp_weekend_days c)"
proof (rule ccontr)
  assume "\<not> ?thesis"
  then have "{0..6} \<subseteq> set (dcp_weekend_days c)" by force
  then have "7 \<le> card (set (dcp_weekend_days c))" using card_mono [of "set (dcp_weekend_days c)" "{0..6}"] by simp
  then show False using assms card_length [of "dcp_weekend_days c"] by (simp add: calendar_ok_def)
qed

lemma weekday_offset: "0 \<le> w \<Longrightarrow> w \<le> 6 \<Longrightarrow> weekday (d + (w - weekday d) mod 7 + 7 * k) = w"
proof -
  assume w: "0 \<le> w" "w \<le> 6"
  define r p where "r = (d + 6) mod 7" and "p = (d + 6) div 7"
  define e q where "e = (w - r) mod 7" and "q = (w - r) div 7"
  have "d + 6 = 7 * p + r" "w - r = 7 * q + e" by (simp_all add: r_def p_def e_def q_def)
  then have sum: "d + e + 7 * k + 6 = w + 7 * (p - q + k)" by simp
  have "(d + e + 7 * k + 6) mod 7 = w" unfolding sum mod_mult_self2 using w by simp
  then show ?thesis by (simp only: weekday_def e_def r_def)
qed

text \<open>Among the next \<open>h + 1\<close> such weekdays one is not among the \<open>h\<close> holidays.\<close>

lemma business_day_near:
  assumes "calendar_ok c"
  shows "\<exists>x. d \<le> x \<and> x \<le> d + 7 * int (length (dcp_holidays c)) + 6 \<and> is_business_day c x"
proof -
  obtain w where w: "0 \<le> w" "w \<le> 6" "w \<notin> set (dcp_weekend_days c)" using working_weekday [OF assms] by blast
  define day where "day k = d + (w - weekday d) mod 7 + 7 * int k" for k
  let ?h = "length (dcp_holidays c)"
  have "inj_on day {0..?h}" by (auto simp: day_def inj_on_def)
  then have "card (day ` {0..?h}) = ?h + 1" by (simp add: card_image)
  moreover have "card (set (dcp_holidays c)) \<le> ?h" by (rule card_length)
  ultimately have "\<not> day ` {0..?h} \<subseteq> set (dcp_holidays c)" using card_mono [of "set (dcp_holidays c)" "day ` {0..?h}"] by auto
  then obtain k where k: "k \<le> ?h" "day k \<notin> set (dcp_holidays c)" unfolding image_subset_iff by auto
  have "weekday (day k) = w" unfolding day_def by (rule weekday_offset [OF w(1,2)])
  then have "is_business_day c (day k)" using w(3) k(2) by (simp add: is_business_day_def)
  moreover have "0 \<le> (w - weekday d) mod 7" "(w - weekday d) mod 7 \<le> 6" by simp_all
  then have "d \<le> day k" "day k \<le> d + 7 * int ?h + 6" using k(1) by (auto simp: day_def)
  ultimately show ?thesis by blast
qed

section \<open>Rules and calendars as digests\<close>

definition deadline_rule_ok :: "deadline_rule \<Rightarrow> bool" where
  "deadline_rule_ok r = (date_ok (xdr_effective_from r) \<and> (\<forall>d. xdr_effective_until r = Some d \<longrightarrow> date_ok d))"

definition calendar_dates_ok :: "calendar_profile \<Rightarrow> bool" where
  "calendar_dates_ok c = (\<forall>d \<in> set (dcp_holidays c). date_ok d)"

lemma iso_dates_inject:
  "\<forall>d \<in> set xs. date_ok d \<Longrightarrow> \<forall>d \<in> set ys. date_ok d \<Longrightarrow> map iso_date xs = map iso_date ys \<longleftrightarrow> xs = ys"
  by (rule inj_on_map_eq_map) (auto simp: inj_on_def iso_date_inject)

lemma duration_unit_value_eq [simp]: "duration_unit_value a = duration_unit_value b \<longleftrightarrow> a = b"
  by (cases a; cases b; simp)

lemma start_rule_value_eq [simp]: "start_rule_value a = start_rule_value b \<longleftrightarrow> a = b"
  by (cases a; cases b; simp)

lemma roll_value_eq [simp]: "roll_value a = roll_value b \<longleftrightarrow> a = b"
  by (cases a; cases b; simp)

interpretation deadline_rules: pack_bound deadline_rule_ok deadline_rule_dict deadline_rule_key deadline_rule_token
proof unfold_locales
  fix a b :: deadline_rule
  show "deadline_rule_token a = deadline_rule_key a @ ''#'' @ content_digest (JObj (deadline_rule_dict a))"
    by (simp add: deadline_rule_token_def deadline_rule_digest_def)
  show "wf_json (JObj (deadline_rule_dict a))" by (simp add: deadline_rule_dict_def)
  assume "deadline_rule_ok a" "deadline_rule_ok b"
    and "norm_json (JObj (deadline_rule_dict a)) = norm_json (JObj (deadline_rule_dict b))"
  then show "a = b"
    by (intro deadline_rule.equality)
      (simp_all add: norm_json_JObj_same_keys deadline_rule_dict_def deadline_rule_ok_def iso_date_inject opt_date_inject
        del: norm_json.simps(6))
qed

interpretation calendars: content_addressed calendar_dates_ok calendar_dict
proof unfold_locales
  fix a b :: calendar_profile
  show "wf_json (JObj (calendar_dict a))" by (simp add: calendar_dict_def list_all_iff)
  assume ok: "calendar_dates_ok a" "calendar_dates_ok b"
    and eq: "norm_json (JObj (calendar_dict a)) = norm_json (JObj (calendar_dict b))"
  have "map JStr (map iso_date (dcp_holidays a)) = map JStr (map iso_date (dcp_holidays b))"
    using eq by (simp add: norm_json_JObj_same_keys calendar_dict_def comp_def del: norm_json.simps(6))
  then have "dcp_holidays a = dcp_holidays b"
    using ok iso_dates_inject [of "dcp_holidays a" "dcp_holidays b"] by (simp add: inj_map_eq_map inj_def calendar_dates_ok_def del: map_map)
  moreover have "dcp_weekend_days a = dcp_weekend_days b"
    using eq by (simp add: norm_json_JObj_same_keys calendar_dict_def comp_def inj_map_eq_map inj_def del: norm_json.simps(6))
  ultimately show "a = b"
    using eq by (intro calendar_profile.equality) (simp_all add: norm_json_JObj_same_keys calendar_dict_def del: norm_json.simps(6))
qed

section \<open>What the guard checks\<close>

lemma check_jurisdictions_Inr [simp]:
  "check_jurisdictions pack ss = Inr u \<longleftrightarrow> (\<forall>s \<in> set ss. lsr_jurisdiction s = rpk_jurisdiction pack)"
  by (induction ss) auto

lemma check_bindings_Inr [simp]:
  "check_bindings calendars ids rules = Inr u \<longleftrightarrow> (\<forall>r \<in> set rules. \<exists>c. calendars (xdr_calendar_profile_id r) = Some c \<and>
     calendar_digest c = xdr_calendar_profile_digest r \<and>
     set (xdr_legal_source_ids r) \<union> set (dcp_legal_source_ids c) \<subseteq> set ids)"
  by (induction rules) (auto simp: Let_def split: option.splits)

lemma deadline_guard_init_Inr:
  "deadline_guard_init pack rules calendars = Inr g \<longleftrightarrow>
     rpk_status pack = RP_ACTIVE \<and> rules \<noteq> [] \<and> distinct (map deadline_rule_key rules) \<and>
     distinct (map dcp_profile_id calendars) \<and>
     sort (rpk_deadline_rules pack) = sort (map deadline_rule_token rules) \<and>
     (\<forall>s \<in> set (rpk_source_set pack). lsr_jurisdiction s = rpk_jurisdiction pack) \<and>
     (\<forall>r \<in> set rules. \<exists>c. by_id dcp_profile_id calendars (xdr_calendar_profile_id r) = Some c \<and>
       calendar_digest c = xdr_calendar_profile_digest r \<and>
       set (xdr_legal_source_ids r) \<union> set (dcp_legal_source_ids c) \<subseteq> lsr_source_id ` set (rpk_source_set pack)) \<and>
     g = \<lparr>dg_rule_pack = pack, dg_rules = by_id deadline_rule_key rules, dg_calendars = by_id dcp_profile_id calendars,
       dg_sources = sources_of pack\<rparr>"
  by (auto simp: deadline_guard_init_def)

lemma deadline_source_blockers_Nil:
  "deadline_source_blockers sources ids d = Inr [] \<longleftrightarrow>
     (\<forall>i \<in> set ids. \<exists>s. sources i = Some s \<and> lsr_verification_status s = LS_VERIFIED \<and> source_effective_on s d)"
  by (induction ids) (auto split: option.splits if_splits)

text \<open>What an evaluation rests on when it computes a date.\<close>

definition deadline_basis ::
  "deadline_guard \<Rightarrow> deadline_query \<Rightarrow> deadline_rule \<Rightarrow> calendar_profile \<Rightarrow> py_date \<Rightarrow> bool" where
  "deadline_basis g q r c t =
     (dg_rules g (dq_rule_key q) = Some r \<and> dg_calendars g (xdr_calendar_profile_id r) = Some c \<and>
      dq_trigger_date q = Some t \<and> dq_trigger_type q = xdr_trigger_type r \<and>
      dq_trigger_status q \<in> {TS_VERIFIED, TS_PROVISIONAL} \<and> (\<exists>e. dq_trigger_evidence q = Some e \<and> is_line e) \<and>
      (\<exists>l. dq_effective_law_date q = Some l \<and> pack_effective_on (dg_rule_pack g) l \<and> deadline_rule_effective_on r l \<and>
         (\<forall>i \<in> set (xdr_legal_source_ids r) \<union> set (dcp_legal_source_ids c).
            \<exists>s. dg_sources g i = Some s \<and> lsr_verification_status s = LS_VERIFIED \<and> source_effective_on s l)))"

definition deadline_blocked :: "deadline_assessment \<Rightarrow> bool" where
  "deadline_blocked a = (das_status a \<in> {DL_MISSING_INPUT, DL_UNKNOWN_RULE, DL_CONFLICTING_EVIDENCE} \<and>
     das_legal_deadline a = None \<and> das_safe_internal_deadline a = None \<and> das_blocking_questions a \<noteq> [])"

lemma blocked_init:
  "deadline_init (common_assessment g q r c ids None None status blocking) = Inr a \<Longrightarrow>
     status \<in> {DL_MISSING_INPUT, DL_UNKNOWN_RULE, DL_CONFLICTING_EVIDENCE} \<Longrightarrow> blocking \<noteq> [] \<Longrightarrow> deadline_blocked a"
  by (drule inits_same(1)) (simp add: deadline_blocked_def common_assessment_def)

lemma evaluate_rule_cases:
  assumes "evaluate_rule zones g q r c = Inr a" "\<not> deadline_blocked a"
    and "dg_rules g (dq_rule_key q) = Some r" "dg_calendars g (xdr_calendar_profile_id r) = Some c"
  shows "\<exists>t legal safe status. deadline_basis g q r c t \<and> calculate_deadline r c t = Inr legal \<and>
    safe_deadline c t legal (dq_safe_buffer_business_days q) = Inr safe \<and> evaluated_status zones c q legal = Inr status \<and>
    a = common_assessment g q r c (sorted_set (xdr_legal_source_ids r @ dcp_legal_source_ids c)) (Some legal) safe status []"
proof -
  note b = assms(1) [unfolded evaluate_rule_def Let_def]
  have no: "deadline_init (common_assessment g q r c ids None None status blocking) \<noteq> Inr a"
    if "status \<in> {DL_MISSING_INPUT, DL_UNKNOWN_RULE, DL_CONFLICTING_EVIDENCE}" "blocking \<noteq> []" for ids status blocking
    using blocked_init [OF _ that] assms(2) by blast
  obtain l where l: "dq_effective_law_date q = Some l" using b no by (auto split: option.splits)
  have w: "pack_effective_on (dg_rule_pack g) l" "deadline_rule_effective_on r l" using b no l by (auto split: if_splits)
  obtain sb where sb: "deadline_source_blockers (dg_sources g) (sorted_set (xdr_legal_source_ids r @ dcp_legal_source_ids c)) l = Inr sb"
    using b l w by auto
  have "sb = []" using b no [of DL_UNKNOWN_RULE sb] l w sb by (cases sb) auto
  note b = b [unfolded l option.case sb, simplified w sb \<open>sb = []\<close>, simplified]
  have t: "dq_trigger_type q = xdr_trigger_type r" using b no by (auto split: if_splits)
  have s: "dq_trigger_status q \<noteq> TS_CONFLICTING" using b no t by (auto split: if_splits)
  obtain d where d: "dq_trigger_date q = Some d" using b no t s by (auto split: option.splits)
  have m: "dq_trigger_status q \<noteq> TS_MISSING" using b no t s d by (auto split: if_splits)
  obtain e where e: "dq_trigger_evidence q = Some e" using b no t s d m by (auto split: option.splits)
  from b t s d m e obtain legal safe status where f: "is_line e" "calculate_deadline r c d = Inr legal"
      "safe_deadline c d legal (dq_safe_buffer_business_days q) = Inr safe" "evaluated_status zones c q legal = Inr status"
      "deadline_init (common_assessment g q r c (sorted_set (xdr_legal_source_ids r @ dcp_legal_source_ids c)) (Some legal) safe status []) = Inr a"
    by auto
  have "dq_trigger_status q \<in> {TS_VERIFIED, TS_PROVISIONAL}" using s m by (cases "dq_trigger_status q") auto
  moreover have "\<forall>i \<in> set (xdr_legal_source_ids r) \<union> set (dcp_legal_source_ids c).
      \<exists>s. dg_sources g i = Some s \<and> lsr_verification_status s = LS_VERIFIED \<and> source_effective_on s l"
    using sb \<open>sb = []\<close> by (simp add: deadline_source_blockers_Nil)
  ultimately have "deadline_basis g q r c d" using assms(3,4) d t e f(1) l w by (auto simp: deadline_basis_def)
  then show ?thesis using f inits_same(1) [OF f(5)] by blast
qed

lemma deadline_evaluate_cases:
  assumes "deadline_evaluate zones g q = Inr a" "\<not> deadline_blocked a"
  shows "\<exists>r c t legal safe status. deadline_basis g q r c t \<and> calculate_deadline r c t = Inr legal \<and>
    safe_deadline c t legal (dq_safe_buffer_business_days q) = Inr safe \<and> evaluated_status zones c q legal = Inr status \<and>
    a = common_assessment g q r c (sorted_set (xdr_legal_source_ids r @ dcp_legal_source_ids c)) (Some legal) safe status []"
proof -
  note b = assms(1) [unfolded deadline_evaluate_def]
  have "deadline_init (unknown_rule_assessment g q) \<noteq> Inr a"
    using assms(2) inits_same(1) [of "unknown_rule_assessment g q" a]
    by (auto simp: deadline_blocked_def unknown_rule_assessment_def)
  then obtain r c where r: "dg_rules g (dq_rule_key q) = Some r" "dg_calendars g (xdr_calendar_profile_id r) = Some c"
      "evaluate_rule zones g q r c = Inr a"
    using b by (auto split: if_splits option.splits)
  from evaluate_rule_cases [OF r(3) assms(2) r(1,2)] show ?thesis by blast
qed

text \<open>Conversely, a full basis yields the assessment.\<close>

lemma subtract_days_le: "subtract_days c d n = Inr s \<Longrightarrow> s \<le> d"
proof (induction c d n arbitrary: s rule: subtract_days.induct)
  case (1 c d n)
  show ?case
  proof (cases "n = 0 \<or> \<not> date_ok (d - 1)")
    case True
    then show ?thesis using "1.prems" by (subst (asm) subtract_days.simps) (auto simp: date_add_one split: if_splits)
  next
    case False
    then have d: "date_add d (- 1) = Inr (d - 1)" by (simp add: date_add_one)
    have "subtract_days c (d - 1) (if is_business_day c (d - 1) then n - 1 else n) = Inr s"
      using "1.prems" False d by (subst (asm) subtract_days.simps) simp
    then show ?thesis using "1.IH" [OF _ d] False by fastforce
  qed
qed

lemma safe_deadline_le: "safe_deadline c t d b = Inr (Some s) \<Longrightarrow> s \<le> d"
  by (auto simp: safe_deadline_def subtract_business_days_def split: option.splits if_splits dest: subtract_days_le)

lemma calculation_method_line: "is_line (calculation_method r)"
  by (cases "xdr_duration_unit r"; cases "xdr_start_rule r"; cases "xdr_roll_convention r")
    (simp_all add: calculation_method_def is_line_def is_text_def stripped_def is_space_def has_control_def)

lemma duration_unit_line: "is_line (duration_unit_value u)"
  by (cases u) (simp_all add: is_line_def is_text_def stripped_def is_space_def has_control_def)

definition rule_lines :: "deadline_rule \<Rightarrow> bool" where
  "rule_lines r = (is_line (xdr_rule_id r) \<and> is_line (xdr_version r) \<and> is_line (xdr_trigger_type r) \<and>
     line_tuple (xdr_legal_source_ids r) \<and> xdr_legal_source_ids r \<noteq> [] \<and> 0 \<le> xdr_duration_value r)"

lemma deadline_rule_init_lines: "deadline_rule_init r = Inr r' \<Longrightarrow> rule_lines r'"
  by (auto simp: deadline_rule_init_def rule_lines_def split: if_splits)

lemma common_assessment_ok:
  assumes "is_line (dq_deadline_id q)" "is_line (dq_trigger_type q)" "is_line (rpk_pack_id (dg_rule_pack g))"
    and "rule_lines r" "calendar_ok c" "\<forall>e. dq_trigger_evidence q = Some e \<longrightarrow> is_line e"
    and "dq_trigger_date q \<noteq> None" "dq_trigger_evidence q \<noteq> None" "dq_effective_law_date q \<noteq> None"
    and "\<forall>s. safe = Some s \<longrightarrow> s \<le> d" and "status \<in> {DL_VERIFIED, DL_PROVISIONAL, DL_EXPIRED}"
  defines "a \<equiv> common_assessment g q r c (sorted_set (xdr_legal_source_ids r @ dcp_legal_source_ids c)) (Some d) safe status []"
  shows "deadline_init a = Inr a"
  using assms(1-11) calculation_method_line [of r] duration_unit_line [of "xdr_duration_unit r"]
  by (auto simp: a_def deadline_init_def common_assessment_def rule_lines_def calendar_ok_def line_tuple_def
      verified_deadline_missing_def split: option.split)

lemma evaluate_rule_complete:
  assumes "deadline_basis g q r c t" "calculate_deadline r c t = Inr d"
    and "safe_deadline c t d (dq_safe_buffer_business_days q) = Inr safe" "evaluated_status zones c q d = Inr status"
    and "is_line (dq_deadline_id q)" "is_line (dq_trigger_type q)" "is_line (rpk_pack_id (dg_rule_pack g))"
    and "rule_lines r" "calendar_ok c"
  shows "evaluate_rule zones g q r c =
    Inr (common_assessment g q r c (sorted_set (xdr_legal_source_ids r @ dcp_legal_source_ids c)) (Some d) safe status [])"
proof -
  obtain l e where b: "dq_trigger_date q = Some t" "dq_trigger_type q = xdr_trigger_type r"
      "dq_trigger_status q \<in> {TS_VERIFIED, TS_PROVISIONAL}" "dq_trigger_evidence q = Some e" "is_line e"
      "dq_effective_law_date q = Some l" "pack_effective_on (dg_rule_pack g) l" "deadline_rule_effective_on r l"
    and sources: "\<forall>i \<in> set (xdr_legal_source_ids r) \<union> set (dcp_legal_source_ids c).
      \<exists>s. dg_sources g i = Some s \<and> lsr_verification_status s = LS_VERIFIED \<and> source_effective_on s l"
    using assms(1) by (auto simp: deadline_basis_def)
  have "deadline_source_blockers (dg_sources g) (sorted_set (xdr_legal_source_ids r @ dcp_legal_source_ids c)) l = Inr []"
    using sources by (simp add: deadline_source_blockers_Nil)
  moreover have "status \<in> {DL_VERIFIED, DL_PROVISIONAL, DL_EXPIRED}"
    using assms(4) by (auto simp: evaluated_status_def split: if_splits zone_lookup.splits)
  then have "deadline_init (common_assessment g q r c (sorted_set (xdr_legal_source_ids r @ dcp_legal_source_ids c)) (Some d) safe status []) =
      Inr (common_assessment g q r c (sorted_set (xdr_legal_source_ids r @ dcp_legal_source_ids c)) (Some d) safe status [])"
    using assms(3,5-9) b by (intro common_assessment_ok) (auto dest: safe_deadline_le)
  ultimately show ?thesis using assms(2-4) b by (auto simp: evaluate_rule_def Let_def)
qed

text \<open>The basis in terms of what the guard was made of.\<close>

definition verified_basis ::
  "zone_database \<Rightarrow> rule_pack \<Rightarrow> deadline_rule list \<Rightarrow> calendar_profile list \<Rightarrow> deadline_query \<Rightarrow> py_date \<Rightarrow> bool" where
  "verified_basis zones pack rules calendars q d =
     (\<exists>r \<in> set rules. \<exists>c \<in> set calendars. \<exists>t l e safe z today.
        deadline_rule_key r = dq_rule_key q \<and> dcp_profile_id c = xdr_calendar_profile_id r \<and>
        dq_trigger_status q = TS_VERIFIED \<and> dq_trigger_type q = xdr_trigger_type r \<and> dq_trigger_date q = Some t \<and>
        dq_trigger_evidence q = Some e \<and> is_line e \<and>
        dq_effective_law_date q = Some l \<and> pack_effective_on pack l \<and> deadline_rule_effective_on r l \<and>
        (\<forall>i \<in> set (xdr_legal_source_ids r) \<union> set (dcp_legal_source_ids c). \<exists>s \<in> set (rpk_source_set pack).
           lsr_source_id s = i \<and> lsr_verification_status s = LS_VERIFIED \<and> source_effective_on s l) \<and>
        calculate_deadline r c t = Inr d \<and> safe_deadline c t d (dq_safe_buffer_business_days q) = Inr safe \<and>
        zones (dcp_timezone c) = Zone z \<and> z (dq_evaluation_time q) = Inr today \<and> today \<le> d)"

lemma evaluated_verified:
  "evaluated_status zones c q d = Inr DL_VERIFIED \<longleftrightarrow> dq_trigger_status q = TS_VERIFIED \<and>
     (\<exists>z today. zones (dcp_timezone c) = Zone z \<and> z (dq_evaluation_time q) = Inr today \<and> today \<le> d)"
  by (cases "zones (dcp_timezone c)") (auto simp: evaluated_status_def not_less)

lemma verified_basis_iff:
  assumes pack: "rule_pack_init pack0 = Inr pack" and g: "deadline_guard_init pack rules calendars = Inr g"
  shows "verified_basis zones pack rules calendars q d \<longleftrightarrow>
    (\<exists>r c t safe. deadline_basis g q r c t \<and> calculate_deadline r c t = Inr d \<and>
       safe_deadline c t d (dq_safe_buffer_business_days q) = Inr safe \<and> evaluated_status zones c q d = Inr DL_VERIFIED)"
proof -
  have "distinct (map lsr_source_id (rpk_source_set pack))" using pack by (auto simp: rule_pack_init_def split: if_splits)
  then have ids: "distinct (map lsr_source_id (rev (rpk_source_set pack)))" by (simp only: rev_map [symmetric] distinct_rev)
  have sources: "dg_sources g i = Some s \<longleftrightarrow> s \<in> set (rpk_source_set pack) \<and> lsr_source_id s = i" for i s
    using g by (simp add: deadline_guard_init_Inr sources_of_def by_id_iff [OF ids])
  have "distinct (map deadline_rule_key rules)" "distinct (map dcp_profile_id calendars)"
    using g by (simp_all add: deadline_guard_init_Inr)
  then have maps: "dg_rules g k = Some r \<longleftrightarrow> r \<in> set rules \<and> deadline_rule_key r = k"
      "dg_calendars g k = Some c \<longleftrightarrow> c \<in> set calendars \<and> dcp_profile_id c = k" "dg_rule_pack g = pack" for k r c
    using g by (simp_all add: deadline_guard_init_Inr by_id_iff)
  show ?thesis
    unfolding verified_basis_def deadline_basis_def evaluated_verified sources maps
    by (rule iffI; elim bexE exE conjE; intro exI bexI conjI; (assumption | rule insertI1 | blast | simp))
qed

lemma guard_calendar:
  "deadline_guard_init pack rules calendars = Inr g \<Longrightarrow> r \<in> set rules \<Longrightarrow>
     \<exists>c \<in> set calendars. dg_calendars g (xdr_calendar_profile_id r) = Some c \<and> calendar_digest c = xdr_calendar_profile_digest r"
  by (fastforce simp: deadline_guard_init_Inr dest: by_id_Some)

section \<open>Properties\<close>

text \<open>C9: A deadline is VERIFIED exactly on a full basis. For a guard over constructed artifacts, \<^verbatim>\<open>evaluate\<close>
  answers VERIFIED with the date \<open>d\<close> if and only if the query is well formed and its rule is one of the
  guard's, the pack and the rule are in force on the law date, every legal source of the rule and its
  calendar is verified and in force then, the trigger is of the rule's type, verified, dated and bound to
  evidence, the rule computes \<open>d\<close> from the trigger date, the internal deadline can be set, and \<open>d\<close> is not
  yet past in the calendar's time zone.\<close>

theorem deadline_verified_exact:
  assumes "rule_pack_init pack0 = Inr pack"
    and "\<forall>r \<in> set rules. \<exists>r0. deadline_rule_init r0 = Inr r"
    and "\<forall>c \<in> set calendars. \<exists>c0. calendar_init zones c0 = Inr c"
    and "deadline_guard_init pack rules calendars = Inr g"
  shows "(\<exists>a. deadline_evaluate zones g q = Inr a \<and> das_status a = DL_VERIFIED \<and> das_legal_deadline a = Some d) \<longleftrightarrow>
    is_line (dq_deadline_id q) \<and> is_line (dq_rule_key q) \<and> is_line (dq_trigger_type q) \<and>
    is_aware (dq_evaluation_time q) \<and> (\<forall>n. dq_safe_buffer_business_days q = Some n \<longrightarrow> 0 \<le> n) \<and>
    verified_basis zones pack rules calendars q d" (is "?L = ?R")
proof
  assume ?L
  then obtain a where a: "deadline_evaluate zones g q = Inr a" "das_status a = DL_VERIFIED" "das_legal_deadline a = Some d"
    by blast
  then have "\<not> deadline_blocked a" by (simp add: deadline_blocked_def)
  from deadline_evaluate_cases [OF a(1) this] a(2,3) have "verified_basis zones pack rules calendars q d"
    unfolding verified_basis_iff [OF assms(1,4)] by (fastforce simp: common_assessment_def)
  then show ?R using a(1) by (auto simp: deadline_evaluate_def split: if_splits option.splits)
next
  assume R: ?R
  then obtain r c t safe where b: "deadline_basis g q r c t" "calculate_deadline r c t = Inr d"
      "safe_deadline c t d (dq_safe_buffer_business_days q) = Inr safe" "evaluated_status zones c q d = Inr DL_VERIFIED"
    unfolding verified_basis_iff [OF assms(1,4)] by blast
  then have rc: "dg_rules g (dq_rule_key q) = Some r" "dg_calendars g (xdr_calendar_profile_id r) = Some c"
    by (simp_all add: deadline_basis_def)
  then have "r \<in> set rules" "c \<in> set calendars" using assms(4) by (auto simp: deadline_guard_init_Inr dest: by_id_Some)
  then have "rule_lines r" "calendar_ok c" using assms(2,3) deadline_rule_init_lines calendar_init_ok by blast+
  moreover have "is_line (rpk_pack_id (dg_rule_pack g))"
    using assms(1,4) by (auto simp: deadline_guard_init_Inr rule_pack_init_def split: if_splits)
  ultimately have "evaluate_rule zones g q r c = Inr (common_assessment g q r c
      (sorted_set (xdr_legal_source_ids r @ dcp_legal_source_ids c)) (Some d) safe DL_VERIFIED [])"
    using R by (intro evaluate_rule_complete [OF b]) auto
  then show ?L using R rc by (auto simp: deadline_evaluate_def common_assessment_def split: option.splits)
qed

text \<open>C24: Deadline evaluation fails closed. An assessment that is returned either carries a date and no
  blocking question, and then a trigger that is verified or provisional, or it carries no date at all,
  internal one included, and at least one blocking question, under the status MISSING_INPUT, UNKNOWN_RULE or
  CONFLICTING_EVIDENCE.\<close>

theorem deadline_fails_closed:
  "case deadline_evaluate zones g q of Inl _ \<Rightarrow> True | Inr a \<Rightarrow>
     (if das_status a \<in> {DL_VERIFIED, DL_PROVISIONAL, DL_EXPIRED}
      then das_legal_deadline a \<noteq> None \<and> das_blocking_questions a = [] \<and>
        dq_trigger_status q = (if das_status a = DL_PROVISIONAL then TS_PROVISIONAL else TS_VERIFIED)
      else das_status a \<in> {DL_MISSING_INPUT, DL_UNKNOWN_RULE, DL_CONFLICTING_EVIDENCE} \<and> das_legal_deadline a = None \<and>
        das_safe_internal_deadline a = None \<and> das_blocking_questions a \<noteq> [])"
proof (cases "deadline_evaluate zones g q")
  case (Inr a)
  show ?thesis
  proof (cases "deadline_blocked a")
    case True
    then show ?thesis using Inr by (auto simp: deadline_blocked_def)
  next
    case False
    from deadline_evaluate_cases [OF Inr this] obtain r c t d safe status where
      "deadline_basis g q r c t" "evaluated_status zones c q d = Inr status"
      "a = common_assessment g q r c (sorted_set (xdr_legal_source_ids r @ dcp_legal_source_ids c)) (Some d) safe status []"
      by blast
    then show ?thesis using Inr
      by (auto simp: common_assessment_def evaluated_status_def deadline_basis_def split: if_splits zone_lookup.splits)
  qed
qed simp

text \<open>C23: A business-day deadline is the n-th business day. For a positive duration in business days, whatever
  the roll convention, the calculated date is the business day \<open>d\<close> such that exactly \<open>n\<close> of the days from the
  first counted day to \<open>d\<close> are business days; the first counted day is the trigger date itself under
  INCLUDE_TRIGGER and the next day otherwise. The calculation fails only if fewer than \<open>n\<close> business days
  are left in the range of dates.\<close>

theorem business_deadline_is_nth:
  assumes "date_ok t" and "xdr_duration_unit r = DU_BUSINESS_DAYS" and "0 < xdr_duration_value r"
    and "first = (if xdr_start_rule r = SR_INCLUDE_TRIGGER then t else t + 1)"
  shows "(calculate_deadline r c t = Inr d \<longleftrightarrow>
      first \<le> d \<and> date_ok d \<and> is_business_day c d \<and> business_days c first d = xdr_duration_value r) \<and>
    ((\<exists>d. calculate_deadline r c t = Inr d) \<longleftrightarrow> xdr_duration_value r \<le> business_days c first max_ordinal)"
proof -
  let ?n = "if xdr_start_rule r = SR_INCLUDE_TRIGGER \<and> is_business_day c t then xdr_duration_value r - 1 else xdr_duration_value r"
  have t: "0 \<le> t" using assms(1) by (simp add: date_ok_def)
  have unrolled: "unrolled_deadline r c t = add_days c t ?n" using assms(2,3) by (simp add: unrolled_deadline_def)
  have one: "add_days c t ?n = Inr d \<longleftrightarrow>
      first \<le> d \<and> date_ok d \<and> is_business_day c d \<and> business_days c first d = xdr_duration_value r" for d
  proof -
    have f: "t \<le> d \<Longrightarrow> business_days c t d = (if is_business_day c t then 1 else 0) + business_days c (t + 1) d"
      by (rule business_days_first)
    have p: "t < d \<Longrightarrow> is_business_day c d \<Longrightarrow> 0 < business_days c (t + 1) d"
      using business_days_pos [of "t + 1" d d c] by simp
    show ?thesis unfolding add_days_Inr [OF t] using assms(1,3,4) f p by (cases "t = d") (auto split: if_splits)
  qed
  have roll: "next_business_day c d = Inr d" if "is_business_day c d" for d
    using that by (subst next_business_day.simps) simp
  have calc: "calculate_deadline r c t = Inr d \<longleftrightarrow> add_days c t ?n = Inr d" for d
    using one roll unfolding calculate_deadline_def unrolled by auto
  have "(\<exists>d. add_days c t ?n = Inr d) \<longleftrightarrow> xdr_duration_value r \<le> business_days c first max_ordinal"
  proof
    assume "\<exists>d. add_days c t ?n = Inr d"
    then obtain d where "date_ok d" "business_days c first d = xdr_duration_value r" unfolding one by blast
    then show "xdr_duration_value r \<le> business_days c first max_ordinal"
      using business_days_mono [of d max_ordinal c first] by (simp add: date_ok_def)
  next
    assume n: "xdr_duration_value r \<le> business_days c first max_ordinal"
    have "business_days c t max_ordinal = (if is_business_day c t then 1 else 0) + business_days c (t + 1) max_ordinal"
      using assms(1) by (intro business_days_first) (simp add: date_ok_def)
    then show "\<exists>d. add_days c t ?n = Inr d" using n assms(4) by (intro add_days_total [OF t]) (auto split: if_splits)
  qed
  then show ?thesis using calc one by auto
qed

text \<open>Rolling forward is short. From any date, in a calendar that its constructor admits, the next business
  day comes after at most six days and a week per holiday, if the calendar of dates reaches that far; it is
  a business day, and none of the days skipped was one.\<close>

theorem next_business_day_bound:
  assumes "calendar_init zones c0 = Inr c" and "date_ok d" and "d + 7 * int (length (dcp_holidays c)) + 6 \<le> max_ordinal"
  shows "\<exists>d'. next_business_day c d = Inr d' \<and> d \<le> d' \<and> d' \<le> d + 7 * int (length (dcp_holidays c)) + 6 \<and>
    is_business_day c d' \<and> (\<forall>x. d \<le> x \<and> x < d' \<longrightarrow> \<not> is_business_day c x)"
proof -
  obtain x where x: "d \<le> x" "x \<le> d + 7 * int (length (dcp_holidays c)) + 6" "is_business_day c x"
    using business_day_near [OF calendar_init_ok [OF assms(1)]] by blast
  then have "date_ok x" "0 \<le> d" using assms(2,3) by (simp_all add: date_ok_def)
  from next_business_day_reached [OF x(3,1) this] obtain d' where d: "next_business_day c d = Inr d'" "d' \<le> x" by blast
  then have "d \<le> d'" "is_business_day c d'" "business_days c d (d' - 1) = 0"
    using next_business_day_Inr [of d c d'] assms(2) by (auto simp: date_ok_def)
  then show ?thesis using d x(2) business_days_pos [of d _ "d' - 1" c] by fastforce
qed

text \<open>A rule pack pins the deadline semantics. If two guards were made from packs that name the same deadline
  rules, then every rule of the one is a rule of the other, up to an exhibited SHA-256 collision of two rules;
  and the calendar it is evaluated with is the same in both, up to an exhibited collision of two calendars.\<close>

theorem deadline_semantics_pinned:
  assumes "deadline_guard_init pack rules calendars = Inr g" and "deadline_guard_init pack' rules' calendars' = Inr g'"
    and "set (rpk_deadline_rules pack) = set (rpk_deadline_rules pack')"
    and "\<forall>r \<in> set rules \<union> set rules'. deadline_rule_ok r"
    and "\<forall>c \<in> set calendars \<union> set calendars'. calendar_dates_ok c" and "r \<in> set rules"
  shows "\<exists>r' \<in> set rules'. same_or_clash deadline_rule_dict r r' \<and> (r = r' \<longrightarrow>
    (\<exists>c c'. dg_calendars g (xdr_calendar_profile_id r) = Some c \<and> dg_calendars g' (xdr_calendar_profile_id r) = Some c' \<and>
       same_or_clash calendar_dict c c'))"
proof -
  note g = assms(1,2) [unfolded deadline_guard_init_Inr]
  have tokens: "sort (rpk_deadline_rules pack) = sort (map deadline_rule_token rules)"
      "sort (rpk_deadline_rules pack') = sort (map deadline_rule_token rules')" using g by simp_all
  from deadline_rules.pack_pins [OF tokens assms(3,4,6)] obtain r' where r': "r' \<in> set rules'" "same_or_clash deadline_rule_dict r r'"
    by blast
  moreover have "\<exists>c c'. dg_calendars g (xdr_calendar_profile_id r) = Some c \<and> dg_calendars g' (xdr_calendar_profile_id r) = Some c' \<and>
      same_or_clash calendar_dict c c'" if "r = r'"
  proof -
    obtain c where c: "c \<in> set calendars" "dg_calendars g (xdr_calendar_profile_id r) = Some c"
        "calendar_digest c = xdr_calendar_profile_digest r"
      using guard_calendar [OF assms(1,6)] by blast
    obtain c' where c': "c' \<in> set calendars'" "dg_calendars g' (xdr_calendar_profile_id r) = Some c'"
        "calendar_digest c' = xdr_calendar_profile_digest r"
      using guard_calendar [OF assms(2) r'(1)] \<open>r = r'\<close> by blast
    have "calendar_dates_ok c" "calendar_dates_ok c'" using c(1) c'(1) assms(5) by auto
    then show ?thesis using c(2,3) c'(2,3) calendars.digest_binds [of c c'] by (simp add: same_or_clash_def calendar_digest_def)
  qed
  ultimately show ?thesis using r' by blast
qed

section \<open>Sample inputs and witnesses\<close>

definition sample_zones :: zone_database where
  "sample_zones key = (if key = ''UTC'' then Zone (\<lambda>t. return (dt_day t)) else ZoneMissing)"

definition sample_calendar :: calendar_profile where
  "sample_calendar = \<lparr>dcp_profile_id = ''cal'', dcp_timezone = ''UTC'', dcp_weekend_days = [5, 6],
     dcp_holidays = [739000], dcp_legal_source_ids = [''law'']\<rparr>"

definition sample_deadline_rule :: deadline_rule where
  "sample_deadline_rule = \<lparr>xdr_rule_id = ''appeal'', xdr_version = ''1'', xdr_trigger_type = ''service'',
     xdr_duration_value = 14, xdr_duration_unit = DU_BUSINESS_DAYS, xdr_start_rule = SR_EXCLUDE_TRIGGER,
     xdr_roll_convention = RC_NEXT_BUSINESS_DAY, xdr_calendar_profile_id = ''cal'',
     xdr_calendar_profile_digest = calendar_digest sample_calendar, xdr_legal_source_ids = [''law''],
     xdr_effective_from = 1, xdr_effective_until = None\<rparr>"

definition sample_source :: legal_source where
  "sample_source = \<lparr>lsr_source_id = ''law'', lsr_jurisdiction = ''PL'', lsr_authority_type = ''act'',
     lsr_formal_citation = ''art'', lsr_source_uri = ''uri'', lsr_source_digest = Some (content_digest JNull),
     lsr_effective_from = 1, lsr_effective_until = None,
     lsr_retrieved_at = \<lparr>dt_day = 1, dt_micros = 0, dt_offset = Some 0\<rparr>, lsr_verification_status = LS_VERIFIED,
     lsr_schema = LEGAL_SOURCE_SCHEMA_V1\<rparr>"

definition sample_pack :: rule_pack where
  "sample_pack = \<lparr>rpk_pack_id = ''pack'', rpk_version = ''1'', rpk_jurisdiction = ''PL'', rpk_procedure_family = ''civil'',
     rpk_effective_from = 1, rpk_effective_until = None, rpk_source_set = [sample_source],
     rpk_source_set_digest = source_set_digest [sample_source],
     rpk_deadline_rules = [deadline_rule_token sample_deadline_rule], rpk_remedy_rules = [], rpk_routing_rules = [],
     rpk_formal_requirement_rules = [], rpk_calendar_rules = [], rpk_status = RP_ACTIVE, rpk_schema = RULE_PACK_SCHEMA_V1\<rparr>"

lemma hex_char_printable: "c \<in> hex_alphabet \<Longrightarrow> \<not> ((of_char c :: nat) < 32 \<or> (of_char c :: nat) = 127)"
  unfolding hex_alphabet_cases by (elim disjE) simp_all

lemma hex_line: "is_hex s \<Longrightarrow> \<not> has_control s"
  using hex_char_printable by (auto simp: is_hex_def has_control_def list_all_iff)

lemma sample_lines [simp]: "is_line ''cal''" "is_line ''UTC''" "is_line ''law''" "is_line ''appeal''" "is_line ''1''"
    "is_line ''service''" "is_line ''pack''" "is_line ''PL''" "is_line ''civil''" "is_line ''act''" "is_line ''art''"
    "is_line ''uri''"
  by (simp_all add: is_line_def is_text_def stripped_def is_space_def has_control_def)

lemma sample_digest_ok: "cirp_digest (content_digest j) n = Inr (content_digest j)"
  using is_sha256_content_digest [of j] by (simp add: cirp_digest_Inr sha256_stripped)

lemma sample_token_line: "is_line (deadline_rule_token sample_deadline_rule)"
proof -
  have d: "is_sha256 (deadline_rule_digest sample_deadline_rule)" by (simp add: deadline_rule_digest_def)
  then have "stripped (deadline_rule_digest sample_deadline_rule)" "deadline_rule_digest sample_deadline_rule \<noteq> []"
      "\<not> has_control (deadline_rule_digest sample_deadline_rule)"
    using hex_line by (auto simp: is_sha256_def is_hex_strip dest: is_hex_strip) (metis is_hex_strip strip_stripped)
  then show ?thesis
    by (auto simp: deadline_rule_token_def deadline_rule_key_def sample_deadline_rule_def is_line_def is_text_def
        stripped_def is_space_def has_control_def)
qed

lemma sample_guard:
  "rule_pack_init sample_pack = Inr sample_pack" "deadline_rule_init sample_deadline_rule = Inr sample_deadline_rule"
  "calendar_init sample_zones sample_calendar = Inr sample_calendar"
  "\<exists>g. deadline_guard_init sample_pack [sample_deadline_rule] [sample_calendar] = Inr g"
proof -
  show "rule_pack_init sample_pack = Inr sample_pack"
    using sample_token_line
    by (auto simp: rule_pack_init_def sample_pack_def sample_digest_ok source_set_digest_def window_reversed_def line_tuple_def)
  show "deadline_rule_init sample_deadline_rule = Inr sample_deadline_rule"
    by (auto simp: deadline_rule_init_def sample_deadline_rule_def sample_digest_ok calendar_digest_def window_reversed_def line_tuple_def)
  show "calendar_init sample_zones sample_calendar = Inr sample_calendar"
    by (simp add: calendar_init_def sample_calendar_def zone_info_def sample_zones_def Let_def line_tuple_def)
  show "\<exists>g. deadline_guard_init sample_pack [sample_deadline_rule] [sample_calendar] = Inr g"
    by (simp add: deadline_guard_init_Inr sample_pack_def sample_source_def sample_deadline_rule_def sample_calendar_def
        by_id_def)
qed

definition sample_query :: deadline_query where
  "sample_query = \<lparr>dq_deadline_id = ''appeal'', dq_rule_key = ''appeal@1'', dq_trigger_type = ''service'',
     dq_trigger_date = Some 738990, dq_trigger_evidence = Some ''act'', dq_trigger_status = TS_VERIFIED,
     dq_effective_law_date = Some 738990, dq_evaluation_time = \<lparr>dt_day = 738995, dt_micros = 0, dt_offset = Some 0\<rparr>,
     dq_safe_buffer_business_days = None\<rparr>"

lemma sample_add_days: "add_days sample_calendar 738990 14 = Inr 739009"
  by (subst add_days_Inr)
    (simp_all add: business_days_def is_business_day_def weekday_def sample_calendar_def date_ok_def max_ordinal_def)

lemma sample_calculation: "calculate_deadline sample_deadline_rule sample_calendar 738990 = Inr 739009"
proof -
  have "next_business_day sample_calendar 739009 = Inr 739009"
    by (subst next_business_day.simps) (simp add: is_business_day_def weekday_def sample_calendar_def)
  then show ?thesis using sample_add_days
    by (simp add: calculate_deadline_def unrolled_deadline_def sample_deadline_rule_def)
qed

lemma deadline_verified_exact_witness:
  "\<exists>g a. deadline_guard_init sample_pack [sample_deadline_rule] [sample_calendar] = Inr g \<and>
     deadline_evaluate sample_zones g sample_query = Inr a \<and> das_status a = DL_VERIFIED \<and> das_legal_deadline a = Some 739009"
proof -
  obtain g where g: "deadline_guard_init sample_pack [sample_deadline_rule] [sample_calendar] = Inr g"
    using sample_guard(4) by blast
  have made: "\<forall>r \<in> set [sample_deadline_rule]. \<exists>r0. deadline_rule_init r0 = Inr r"
      "\<forall>c \<in> set [sample_calendar]. \<exists>c0. calendar_init sample_zones c0 = Inr c"
    using sample_guard(2,3) by auto
  have "deadline_rule_key sample_deadline_rule = ''appeal@1''" "xdr_trigger_type sample_deadline_rule = ''service''"
      "xdr_calendar_profile_id sample_deadline_rule = ''cal''" "xdr_legal_source_ids sample_deadline_rule = [''law'']"
      "deadline_rule_effective_on sample_deadline_rule 738990" "pack_effective_on sample_pack 738990"
    by (simp_all add: deadline_rule_key_def sample_deadline_rule_def deadline_rule_effective_on_def in_window_def
        pack_effective_on_def sample_pack_def)
  then have "verified_basis sample_zones sample_pack [sample_deadline_rule] [sample_calendar] sample_query 739009"
    using sample_calculation unfolding verified_basis_def
    by (simp add: sample_query_def safe_deadline_def sample_zones_def sample_calendar_def sample_pack_def
        sample_source_def source_effective_on_def in_window_def)
  moreover have "is_line ''appeal@1''" by (simp add: is_line_def is_text_def stripped_def is_space_def has_control_def)
  ultimately have "is_line (dq_deadline_id sample_query) \<and> is_line (dq_rule_key sample_query) \<and>
      is_line (dq_trigger_type sample_query) \<and> is_aware (dq_evaluation_time sample_query) \<and>
      (\<forall>n. dq_safe_buffer_business_days sample_query = Some n \<longrightarrow> 0 \<le> n) \<and>
      verified_basis sample_zones sample_pack [sample_deadline_rule] [sample_calendar] sample_query 739009"
    by (simp add: sample_query_def is_aware_def)
  with deadline_verified_exact [OF sample_guard(1) made g, of sample_query 739009] show ?thesis using g by blast
qed

lemma business_deadline_is_nth_witness:
  "(calculate_deadline sample_deadline_rule sample_calendar 738990 = Inr 739009 \<longleftrightarrow>
      738991 \<le> (739009 :: int) \<and> date_ok 739009 \<and> is_business_day sample_calendar 739009 \<and>
      business_days sample_calendar 738991 739009 = 14) \<and>
   ((\<exists>d. calculate_deadline sample_deadline_rule sample_calendar 738990 = Inr d) \<longleftrightarrow>
      14 \<le> business_days sample_calendar 738991 max_ordinal)"
  using business_deadline_is_nth [of 738990 sample_deadline_rule 738991 sample_calendar 739009]
  by (simp add: date_ok_def max_ordinal_def sample_deadline_rule_def)

lemma next_business_day_bound_witness:
  "\<exists>d'. next_business_day sample_calendar 739000 = Inr d' \<and> 739000 \<le> d' \<and> d' \<le> 739013"
  using next_business_day_bound [OF sample_guard(3), of 739000]
  by (force simp: date_ok_def max_ordinal_def sample_calendar_def)

lemma deadline_semantics_pinned_witness:
  "\<exists>r' \<in> set [sample_deadline_rule]. same_or_clash deadline_rule_dict sample_deadline_rule r'"
proof -
  obtain g where g: "deadline_guard_init sample_pack [sample_deadline_rule] [sample_calendar] = Inr g"
    using sample_guard(4) by blast
  have "\<forall>r \<in> set [sample_deadline_rule] \<union> set [sample_deadline_rule]. deadline_rule_ok r"
      "\<forall>c \<in> set [sample_calendar] \<union> set [sample_calendar]. calendar_dates_ok c"
    by (auto simp: deadline_rule_ok_def sample_deadline_rule_def calendar_dates_ok_def sample_calendar_def date_ok_def max_ordinal_def)
  from deadline_semantics_pinned [OF g g refl this, of sample_deadline_rule] show ?thesis by auto
qed

end
