(* ===== verification/CIRP_Remedy.thy ===== *)
theory CIRP_Remedy
  imports CIRP_Deadline
begin

text \<open>
  \<^verbatim>\<open>core/cirp/remedy.py\<close>: executable remedy rules bound to a rule pack and the guard that evaluates whether a
  remedy is available, from its sources, its applicability, the deadline it depends on and the evidence
  it requires.
\<close>

section \<open>Executable rules\<close>

datatype applicability = AP_VERIFIED | AP_PROVISIONAL | AP_NOT_APPLICABLE | AP_UNKNOWN | AP_CONFLICTING

record remedy_rule =
  xrr_rule_id :: string
  xrr_version :: string
  xrr_remedy_type :: string
  xrr_target_authority :: string
  xrr_filing_authority :: string
  xrr_filing_via :: "string option"
  xrr_formal_requirements :: "string list"
  xrr_required_evidence_ids :: "string list"
  xrr_preserves_options :: "string list"
  xrr_waives_options :: "string list"
  xrr_legal_source_ids :: "string list"
  xrr_deadline_required :: bool
  xrr_effective_from :: py_date
  xrr_effective_until :: "py_date option"

definition remedy_rule_init :: "remedy_rule \<Rightarrow> remedy_rule result" where
  "remedy_rule_init r =
     and_then (nonblank_fields [(''rule_id'', xrr_rule_id r), (''version'', xrr_version r),
         (''remedy_type'', xrr_remedy_type r), (''target_authority'', xrr_target_authority r),
         (''filing_authority'', xrr_filing_authority r)]) (\<lambda>_.
     and_then (cirp_optional (xrr_filing_via r) ''filing_via'') (\<lambda>_.
     and_then (unique_fields [(''formal_requirements'', xrr_formal_requirements r),
         (''required_evidence_ids'', xrr_required_evidence_ids r), (''preserves_options'', xrr_preserves_options r),
         (''waives_options'', xrr_waives_options r), (''legal_source_ids'', xrr_legal_source_ids r)]) (\<lambda>_.
     if xrr_legal_source_ids r = [] then raise_cirp ''executable remedy rule requires legal_source_ids''
     else if window_reversed (xrr_effective_from r) (xrr_effective_until r)
     then raise_cirp ''remedy rule effective_until precedes effective_from''
     else return r)))"

definition remedy_rule_key :: "remedy_rule \<Rightarrow> string" where
  "remedy_rule_key r = xrr_rule_id r @ ''@'' @ xrr_version r"

definition remedy_rule_dict :: "remedy_rule \<Rightarrow> (string \<times> json) list" where
  "remedy_rule_dict r =
    [(''rule_id'', JStr (xrr_rule_id r)), (''version'', JStr (xrr_version r)),
     (''remedy_type'', JStr (xrr_remedy_type r)), (''target_authority'', JStr (xrr_target_authority r)),
     (''filing_authority'', JStr (xrr_filing_authority r)), (''filing_via'', opt_id (xrr_filing_via r)),
     (''formal_requirements'', jstrs (xrr_formal_requirements r)),
     (''required_evidence_ids'', jstrs (xrr_required_evidence_ids r)),
     (''preserves_options'', jstrs (xrr_preserves_options r)), (''waives_options'', jstrs (xrr_waives_options r)),
     (''legal_source_ids'', jstrs (xrr_legal_source_ids r)), (''deadline_required'', JBool (xrr_deadline_required r)),
     (''effective_from'', JStr (iso_date (xrr_effective_from r))), (''effective_until'', opt_date (xrr_effective_until r))]"

definition remedy_rule_digest :: "remedy_rule \<Rightarrow> string" where
  "remedy_rule_digest r = content_digest (JObj (remedy_rule_dict r))"

definition remedy_rule_token :: "remedy_rule \<Rightarrow> string" where
  "remedy_rule_token r = remedy_rule_key r @ ''#'' @ remedy_rule_digest r"

definition remedy_rule_effective_on :: "remedy_rule \<Rightarrow> py_date \<Rightarrow> bool" where
  "remedy_rule_effective_on r d = in_window (xrr_effective_from r) (xrr_effective_until r) d"

section \<open>The guard\<close>

record remedy_guard =
  rg_rule_pack :: rule_pack
  rg_rules :: "string \<rightharpoonup> remedy_rule"
  rg_sources :: "string \<rightharpoonup> legal_source"

fun check_rule_sources :: "string list \<Rightarrow> remedy_rule list \<Rightarrow> unit result" where
  "check_rule_sources source_ids [] = return ()"
| "check_rule_sources source_ids (r # rules) =
     (let missing = sorted_diff (xrr_legal_source_ids r) source_ids in
      if missing \<noteq> [] then raise_cirp (''remedy runtime references sources outside rule pack: '' @ join '', '' missing)
      else check_rule_sources source_ids rules)"

definition remedy_guard_init :: "rule_pack \<Rightarrow> remedy_rule list \<Rightarrow> remedy_guard result" where
  "remedy_guard_init pack rules =
     (if rpk_status pack \<noteq> RP_ACTIVE then raise_cirp ''RemedyGuard requires an ACTIVE ProceduralRulePack''
      else if rules = [] then raise_cirp ''RemedyGuard requires at least one executable remedy rule''
      else and_then (index_unique remedy_rule_key ''duplicate executable remedy rule key: '' rules Map.empty) (\<lambda>rule_map.
      if sort (rpk_remedy_rules pack) \<noteq> sort (map remedy_rule_token rules)
      then raise_cirp ''ProceduralRulePack remedy_rules do not exactly bind executable semantics''
      else and_then (check_jurisdictions pack (rpk_source_set pack)) (\<lambda>_.
      and_then (check_rule_sources (map lsr_source_id (rpk_source_set pack)) rules) (\<lambda>_.
      return \<lparr>rg_rule_pack = pack, rg_rules = rule_map, rg_sources = sources_of pack\<rparr>))))"

fun remedy_source_blockers :: "(string \<rightharpoonup> legal_source) \<Rightarrow> string list \<Rightarrow> py_date \<Rightarrow> string list result" where
  "remedy_source_blockers sources [] d = return []"
| "remedy_source_blockers sources (i # ids) d =
     (case sources i of
        None \<Rightarrow> raise (BuiltinKeyError i)
      | Some s \<Rightarrow> and_then (remedy_source_blockers sources ids d) (\<lambda>blockers. return (
          if lsr_verification_status s \<noteq> LS_VERIFIED then (''Verify legal source: '' @ i) # blockers
          else if \<not> source_effective_on s d
          then (''Resolve legal source version effective on '' @ iso_date d @ '': '' @ i) # blockers
          else blockers)))"

text \<open>\<^verbatim>\<open>deadline.blocking_questions or (message,)\<close>.\<close>

definition questions_or :: "deadline_assessment \<Rightarrow> string \<Rightarrow> string list" where
  "questions_or a message = (if das_blocking_questions a \<noteq> [] then das_blocking_questions a else [message])"

definition deadline_dependency ::
  "remedy_guard \<Rightarrow> remedy_rule \<Rightarrow> deadline_assessment option \<Rightarrow> py_date \<Rightarrow> admissibility \<times> string list" where
  "deadline_dependency g r deadline law_date =
     (if \<not> xrr_deadline_required r then (RA_VERIFIED_AVAILABLE, [])
      else case deadline of
        None \<Rightarrow> (RA_UNKNOWN, [''Assess the deadline required by this remedy rule.''])
      | Some a \<Rightarrow>
          if das_rule_pack_id a \<noteq> Some (rpk_pack_id (rg_rule_pack g))
          then (RA_UNKNOWN, [''Deadline assessment is bound to a different procedural rule pack.''])
          else if das_effective_law_date a \<noteq> Some law_date
          then (RA_UNKNOWN, [''Deadline and remedy evaluations use different effective-law dates.''])
          else (case das_status a of
            DL_EXPIRED \<Rightarrow> (RA_NOT_AVAILABLE, [''Dependent deadline is expired: '' @ das_deadline_id a])
          | DL_VERIFIED \<Rightarrow> (RA_VERIFIED_AVAILABLE, [])
          | DL_PROVISIONAL \<Rightarrow> (RA_PROVISIONALLY_AVAILABLE,
              questions_or a (''Verify dependent deadline: '' @ das_deadline_id a))
          | DL_CONFLICTING_EVIDENCE \<Rightarrow> (RA_UNKNOWN,
              questions_or a (''Resolve conflicting dependent deadline evidence: '' @ das_deadline_id a))
          | DL_MISSING_INPUT \<Rightarrow> (RA_UNKNOWN,
              questions_or a (''Resolve dependent deadline assessment: '' @ das_deadline_id a))
          | DL_UNKNOWN_RULE \<Rightarrow> (RA_UNKNOWN,
              questions_or a (''Resolve dependent deadline assessment: '' @ das_deadline_id a))
          | DL_NOT_APPLICABLE \<Rightarrow> (RA_UNKNOWN,
              [''Dependent deadline is not applicable to this remedy: '' @ das_deadline_id a])))"

definition evidence_gap_label :: "evidence_requirement \<Rightarrow> string" where
  "evidence_gap_label e = ''Evidence gap '' @ evr_requirement_id e @ '': '' @ requirement_status_value (evr_status e) @
     '' ('' @ category_value (evr_category e) @ '', '' @ importance_value (evr_importance e) @ '')''"

definition is_critical :: "evidence_requirement \<Rightarrow> bool" where
  "is_critical e = (evr_importance e = EI_CRITICAL \<or>
     evr_category e \<in> {EC_DEADLINE_CRITICAL, EC_ADMISSIBILITY_CRITICAL, EC_MERITS_CRITICAL})"

text \<open>The loop over the required evidence: provisional and unknown blockers.\<close>

fun evidence_gaps ::
  "remedy_rule \<Rightarrow> (string \<rightharpoonup> evidence_requirement) \<Rightarrow> string list \<Rightarrow> (string list \<times> string list) result" where
  "evidence_gaps r requirements [] = return ([], [])"
| "evidence_gaps r requirements (i # ids) =
     (case requirements i of
        None \<Rightarrow> and_then (evidence_gaps r requirements ids) (\<lambda>(provisional, unknown).
          return (provisional, (''Assess required evidence requirement: '' @ i) # unknown))
      | Some e \<Rightarrow>
          if set (evr_required_for e) \<inter> {remedy_rule_key r, remedy_rule_token r} = {}
          then raise_cirp (''evidence requirement is not bound to executable remedy rule: '' @ i @ '' -> '' @ remedy_rule_key r)
          else and_then (evidence_gaps r requirements ids) (\<lambda>(provisional, unknown). return (
            if evr_status e = ER_PRESENT then (provisional, unknown)
            else if evr_status e \<in> {ER_CONFLICTING, ER_NOT_APPLICABLE} then (provisional, evidence_gap_label e # unknown)
            else if is_critical e then (provisional, evidence_gap_label e # unknown)
            else (evidence_gap_label e # provisional, unknown))))"

definition evidence_dependencies ::
  "remedy_rule \<Rightarrow> (string \<rightharpoonup> evidence_requirement) \<Rightarrow> (admissibility \<times> string list) result" where
  "evidence_dependencies r requirements =
     and_then (evidence_gaps r requirements (xrr_required_evidence_ids r)) (\<lambda>(provisional, unknown). return (
       if unknown \<noteq> [] then (RA_UNKNOWN, unknown)
       else if provisional \<noteq> [] then (RA_PROVISIONALLY_AVAILABLE, provisional)
       else (RA_VERIFIED_AVAILABLE, [])))"

record remedy_query =
  rq_remedy_id :: string
  rq_rule_key :: string
  rq_applicability_status :: applicability
  rq_evidence_requirements :: "evidence_requirement list"
  rq_effective_law_date :: "py_date option"
  rq_deadline :: "deadline_assessment option"

definition common_remedy :: "remedy_query \<Rightarrow> remedy_rule \<Rightarrow> admissibility \<Rightarrow> string list \<Rightarrow> remedy_option" where
  "common_remedy q r status blockers =
     \<lparr>rem_remedy_id = rq_remedy_id q, rem_remedy_type = xrr_remedy_type r,
      rem_target_authority = xrr_target_authority r, rem_filing_authority = xrr_filing_authority r,
      rem_filing_via = xrr_filing_via r, rem_applicable_rule_ids = [remedy_rule_token r],
      rem_deadline_id = (if xrr_deadline_required r then map_option das_deadline_id (rq_deadline q) else None),
      rem_formal_requirements = xrr_formal_requirements r, rem_required_evidence = xrr_required_evidence_ids r,
      rem_preserves_options = xrr_preserves_options r, rem_waives_options = xrr_waives_options r,
      rem_admissibility_status = status, rem_blockers = blockers, rem_schema = REMEDY_OPTION_SCHEMA_V1\<rparr>"

text \<open>\<^verbatim>\<open>tuple(dict.fromkeys(xs))\<close>: the first occurrences.\<close>

fun first_occurrences :: "'a list \<Rightarrow> 'a list" where
  "first_occurrences [] = []"
| "first_occurrences (x # xs) = x # filter (\<lambda>y. y \<noteq> x) (first_occurrences xs)"

definition evaluate_remedy_rule ::
  "remedy_guard \<Rightarrow> remedy_query \<Rightarrow> remedy_rule \<Rightarrow> (string \<rightharpoonup> evidence_requirement) \<Rightarrow> remedy_option result" where
  "evaluate_remedy_rule g q r requirements =
     (let answer = (\<lambda>status blockers. remedy_option_init (common_remedy q r status blockers)) in
      if \<not> xrr_deadline_required r \<and> rq_deadline q \<noteq> None
      then raise_cirp (''remedy rule '' @ remedy_rule_key r @ '' does not declare a deadline dependency'')
      else case rq_effective_law_date q of
        None \<Rightarrow> answer RA_UNKNOWN [''Establish the effective-law date for remedy evaluation.'']
      | Some law_date \<Rightarrow>
      if \<not> pack_effective_on (rg_rule_pack g) law_date \<or> \<not> remedy_rule_effective_on r law_date
      then answer RA_UNKNOWN [''Resolve the rule pack/remedy rule version effective on the relevant law date.'']
      else and_then (remedy_source_blockers (rg_sources g) (xrr_legal_source_ids r) law_date) (\<lambda>source_blockers.
      if source_blockers \<noteq> [] then answer RA_UNKNOWN source_blockers
      else if rq_applicability_status q = AP_NOT_APPLICABLE
      then answer RA_NOT_AVAILABLE [''Verified applicability assessment excludes this remedy.'']
      else if rq_applicability_status q = AP_UNKNOWN
      then answer RA_UNKNOWN [''Establish whether the remedy rule applies to the current posture.'']
      else if rq_applicability_status q = AP_CONFLICTING
      then answer RA_UNKNOWN [''Resolve conflicting evidence about remedy applicability.'']
      else
        let provisional = (if rq_applicability_status q = AP_PROVISIONAL
          then [''Verify case-specific remedy applicability.''] else []);
          (deadline_status, deadline_blockers) = deadline_dependency g r (rq_deadline q) law_date in
        if deadline_status = RA_NOT_AVAILABLE then answer RA_NOT_AVAILABLE deadline_blockers
        else if deadline_status = RA_UNKNOWN then answer RA_UNKNOWN deadline_blockers
        else let provisional = (if deadline_status = RA_PROVISIONALLY_AVAILABLE
          then provisional @ deadline_blockers else provisional) in
        and_then (evidence_dependencies r requirements) (\<lambda>(evidence_status, evidence_blockers).
        if evidence_status = RA_UNKNOWN then answer RA_UNKNOWN evidence_blockers
        else let provisional = (if evidence_status = RA_PROVISIONALLY_AVAILABLE
          then provisional @ evidence_blockers else provisional) in
        if provisional \<noteq> [] then answer RA_PROVISIONALLY_AVAILABLE (first_occurrences provisional)
        else answer RA_VERIFIED_AVAILABLE [])))"

definition remedy_evaluate :: "remedy_guard \<Rightarrow> remedy_query \<Rightarrow> remedy_option result" where
  "remedy_evaluate g q =
     and_then (nonblank_fields [(''remedy_id'', rq_remedy_id q), (''rule_key'', rq_rule_key q)]) (\<lambda>_.
     case rg_rules g (rq_rule_key q) of
       None \<Rightarrow> raise_cirp (''unknown executable remedy rule: '' @ rq_rule_key q)
     | Some r \<Rightarrow>
         and_then (index_unique evr_requirement_id ''duplicate evidence requirement: '' (rq_evidence_requirements q) Map.empty)
           (\<lambda>requirements. evaluate_remedy_rule g q r requirements))"

section \<open>What the guard checks\<close>

lemma check_rule_sources_Inr [simp]:
  "check_rule_sources ids rules = Inr u \<longleftrightarrow> (\<forall>r \<in> set rules. set (xrr_legal_source_ids r) \<subseteq> set ids)"
  by (induction rules) (auto simp: Let_def)

lemma remedy_guard_init_Inr:
  "remedy_guard_init pack rules = Inr g \<longleftrightarrow>
     rpk_status pack = RP_ACTIVE \<and> rules \<noteq> [] \<and> distinct (map remedy_rule_key rules) \<and>
     sort (rpk_remedy_rules pack) = sort (map remedy_rule_token rules) \<and>
     (\<forall>s \<in> set (rpk_source_set pack). lsr_jurisdiction s = rpk_jurisdiction pack) \<and>
     (\<forall>r \<in> set rules. set (xrr_legal_source_ids r) \<subseteq> lsr_source_id ` set (rpk_source_set pack)) \<and>
     g = \<lparr>rg_rule_pack = pack, rg_rules = by_id remedy_rule_key rules, rg_sources = sources_of pack\<rparr>"
  by (auto simp: remedy_guard_init_def)

definition remedy_rule_ok :: "remedy_rule \<Rightarrow> bool" where
  "remedy_rule_ok r = (date_ok (xrr_effective_from r) \<and> (\<forall>d. xrr_effective_until r = Some d \<longrightarrow> date_ok d))"

interpretation remedy_rules: pack_bound remedy_rule_ok remedy_rule_dict remedy_rule_key remedy_rule_token
proof unfold_locales
  fix a b :: remedy_rule
  show "remedy_rule_token a = remedy_rule_key a @ ''#'' @ content_digest (JObj (remedy_rule_dict a))"
    by (simp add: remedy_rule_token_def remedy_rule_digest_def)
  show "wf_json (JObj (remedy_rule_dict a))" by (simp add: remedy_rule_dict_def)
  assume "remedy_rule_ok a" "remedy_rule_ok b"
    and "norm_json (JObj (remedy_rule_dict a)) = norm_json (JObj (remedy_rule_dict b))"
  then show "a = b"
    by (intro remedy_rule.equality)
      (simp_all add: norm_json_JObj_same_keys remedy_rule_dict_def remedy_rule_ok_def iso_date_inject opt_date_inject
        del: norm_json.simps(6))
qed

lemma remedy_source_blockers_Nil:
  "remedy_source_blockers sources ids d = Inr [] \<longleftrightarrow>
     (\<forall>i \<in> set ids. \<exists>s. sources i = Some s \<and> lsr_verification_status s = LS_VERIFIED \<and> source_effective_on s d)"
  by (induction ids) (auto split: option.splits if_splits)

text \<open>A requirement that counts for the rule.\<close>

definition bound_to :: "remedy_rule \<Rightarrow> evidence_requirement \<Rightarrow> bool" where
  "bound_to r e = (remedy_rule_key r \<in> set (evr_required_for e) \<or> remedy_rule_token r \<in> set (evr_required_for e))"

lemma evidence_gaps_Nil:
  "evidence_gaps r requirements ids = Inr ([], []) \<longleftrightarrow>
     (\<forall>i \<in> set ids. \<exists>e. requirements i = Some e \<and> bound_to r e \<and> evr_status e = ER_PRESENT)"
  by (induction ids) (auto simp: bound_to_def split: option.splits if_splits)

lemma evidence_gaps_unknown:
  "evidence_gaps r requirements ids = Inr (provisional, unknown) \<Longrightarrow> i \<in> set ids \<Longrightarrow>
     (case requirements i of None \<Rightarrow> True
      | Some e \<Rightarrow> evr_status e \<in> {ER_CONFLICTING, ER_NOT_APPLICABLE} \<or> is_critical e \<and> evr_status e \<noteq> ER_PRESENT) \<Longrightarrow>
     unknown \<noteq> []"
proof (induction ids arbitrary: provisional unknown)
  case (Cons j ids)
  then show ?case by (cases "i = j") (auto split: option.splits if_splits)
qed simp

lemma evidence_verified:
  "evidence_dependencies r requirements = Inr (RA_VERIFIED_AVAILABLE, bs) \<longleftrightarrow> bs = [] \<and>
     (\<forall>i \<in> set (xrr_required_evidence_ids r). \<exists>e. requirements i = Some e \<and> bound_to r e \<and> evr_status e = ER_PRESENT)"
  unfolding evidence_gaps_Nil [symmetric] by (auto simp: evidence_dependencies_def split: if_splits)

definition deadline_met :: "remedy_guard \<Rightarrow> remedy_rule \<Rightarrow> deadline_assessment option \<Rightarrow> py_date \<Rightarrow> bool" where
  "deadline_met g r deadline l = (if xrr_deadline_required r
     then \<exists>a. deadline = Some a \<and> das_rule_pack_id a = Some (rpk_pack_id (rg_rule_pack g)) \<and>
       das_effective_law_date a = Some l \<and> das_status a = DL_VERIFIED
     else deadline = None)"

lemma deadline_dependency_verified:
  "\<not> (\<not> xrr_deadline_required r \<and> deadline \<noteq> None) \<Longrightarrow>
     deadline_dependency g r deadline l = (RA_VERIFIED_AVAILABLE, bs) \<longleftrightarrow> bs = [] \<and> deadline_met g r deadline l"
  by (auto simp: deadline_dependency_def deadline_met_def split: option.splits deadline_status.splits)

lemma deadline_dependency_open:
  "deadline_dependency g r deadline l = (RA_PROVISIONALLY_AVAILABLE, bs) \<Longrightarrow> bs \<noteq> []"
  by (auto simp: deadline_dependency_def questions_or_def split: option.splits deadline_status.splits if_splits)

lemma evidence_open: "evidence_dependencies r requirements = Inr (RA_PROVISIONALLY_AVAILABLE, bs) \<Longrightarrow> bs \<noteq> []"
  by (auto simp: evidence_dependencies_def split: if_splits)

lemma no_not_available: "evidence_dependencies r requirements \<noteq> Inr (RA_NOT_AVAILABLE, bs)"
  by (auto simp: evidence_dependencies_def split: if_splits)

lemma remedy_answer:
  "remedy_option_init (common_remedy q r st bs) = Inr out \<Longrightarrow> rem_admissibility_status out = st"
  by (drule inits_same(2)) (simp add: common_remedy_def)

definition remedy_basis ::
  "remedy_guard \<Rightarrow> remedy_query \<Rightarrow> remedy_rule \<Rightarrow> (string \<rightharpoonup> evidence_requirement) \<Rightarrow> bool" where
  "remedy_basis g q r requirements = (rq_applicability_status q = AP_VERIFIED \<and>
     (\<exists>l. rq_effective_law_date q = Some l \<and> pack_effective_on (rg_rule_pack g) l \<and> remedy_rule_effective_on r l \<and>
        (\<forall>i \<in> set (xrr_legal_source_ids r).
           \<exists>s. rg_sources g i = Some s \<and> lsr_verification_status s = LS_VERIFIED \<and> source_effective_on s l) \<and>
        deadline_met g r (rq_deadline q) l) \<and>
     (\<forall>i \<in> set (xrr_required_evidence_ids r). \<exists>e. requirements i = Some e \<and> bound_to r e \<and> evr_status e = ER_PRESENT))"

lemma evaluate_remedy_verified:
  assumes "evaluate_remedy_rule g q r requirements = Inr out" "rem_admissibility_status out = RA_VERIFIED_AVAILABLE"
  shows "remedy_basis g q r requirements \<and> out = common_remedy q r RA_VERIFIED_AVAILABLE [] \<and>
    remedy_option_init (common_remedy q r RA_VERIFIED_AVAILABLE []) = Inr (common_remedy q r RA_VERIFIED_AVAILABLE [])"
proof -
  note b = assms(1) [unfolded evaluate_remedy_rule_def Let_def]
  have no: "remedy_option_init (common_remedy q r st bs) \<noteq> Inr out" if "st \<noteq> RA_VERIFIED_AVAILABLE" for st bs
    using remedy_answer assms(2) that by fastforce
  have dep: "\<not> (\<not> xrr_deadline_required r \<and> rq_deadline q \<noteq> None)" using b by (auto split: if_splits)
  obtain l where l: "rq_effective_law_date q = Some l" using b dep no by (cases "rq_effective_law_date q") auto
  have w: "pack_effective_on (rg_rule_pack g) l" "remedy_rule_effective_on r l" using b dep no l by (auto split: if_splits)
  obtain sb where sb: "remedy_source_blockers (rg_sources g) (xrr_legal_source_ids r) l = Inr sb" using b dep l w by auto
  have Nil: "sb = []" using b dep no l w sb by (auto split: if_splits)
  note b = b [unfolded l option.case sb, simplified w dep sb Nil, simplified]
  have a: "rq_applicability_status q \<in> {AP_VERIFIED, AP_PROVISIONAL}"
    using b dep no by (cases "rq_applicability_status q") auto
  obtain ds db where d: "deadline_dependency g r (rq_deadline q) l = (ds, db)" by fastforce
  have ds: "ds = RA_VERIFIED_AVAILABLE \<or> ds = RA_PROVISIONALLY_AVAILABLE" using b dep no a d by (cases ds) auto
  obtain es eb where e: "evidence_dependencies r requirements = Inr (es, eb)" using b dep a d ds by auto
  have es: "es = RA_VERIFIED_AVAILABLE \<or> es = RA_PROVISIONALLY_AVAILABLE"
    using b dep no a d ds e no_not_available [of r requirements eb] by (cases es) auto
  define P1 where "P1 = (if rq_applicability_status q = AP_PROVISIONAL then [''Verify case-specific remedy applicability.''] else [])"
  define P2 where "P2 = (if ds = RA_PROVISIONALLY_AVAILABLE then P1 @ db else P1)"
  define P3 where "P3 = (if es = RA_PROVISIONALLY_AVAILABLE then P2 @ eb else P2)"
  have n: "rq_applicability_status q \<notin> {AP_NOT_APPLICABLE, AP_UNKNOWN, AP_CONFLICTING}" "ds \<noteq> RA_NOT_AVAILABLE"
    "ds \<noteq> RA_UNKNOWN" "es \<noteq> RA_UNKNOWN" using a ds es by auto
  have f: "(if P3 \<noteq> [] then remedy_option_init (common_remedy q r RA_PROVISIONALLY_AVAILABLE (first_occurrences P3))
      else remedy_option_init (common_remedy q r RA_VERIFIED_AVAILABLE [])) = Inr out"
    using b n unfolding P3_def P2_def P1_def d e by (simp only: insert_iff empty_iff de_Morgan_disj prod.case and_then_Inr if_False if_True simp_thms)
  then have P: "P3 = []" "remedy_option_init (common_remedy q r RA_VERIFIED_AVAILABLE []) = Inr out"
    using no [of RA_PROVISIONALLY_AVAILABLE] by (auto split: if_splits)
  then have "es = RA_VERIFIED_AVAILABLE" "P2 = []"
    using es e evidence_open [of r requirements eb] unfolding P3_def by auto
  then have "ds = RA_VERIFIED_AVAILABLE" "P1 = []"
    using ds d deadline_dependency_open [of g r "rq_deadline q" l db] unfolding P2_def by auto
  then have "rq_applicability_status q = AP_VERIFIED" using a unfolding P1_def by (auto split: if_splits)
  moreover have "deadline_met g r (rq_deadline q) l"
    using deadline_dependency_verified [OF dep, of g l db] d \<open>ds = _\<close> by simp
  moreover have "\<forall>i \<in> set (xrr_required_evidence_ids r). \<exists>e. requirements i = Some e \<and> bound_to r e \<and> evr_status e = ER_PRESENT"
    using e \<open>es = _\<close> evidence_verified [of r requirements eb] by simp
  ultimately show ?thesis
    using l w sb Nil P(2) inits_same(2) [OF P(2)] by (auto simp: remedy_basis_def remedy_source_blockers_Nil)
qed

lemma evaluate_remedy_complete:
  assumes "remedy_basis g q r requirements" "remedy_option_init (common_remedy q r RA_VERIFIED_AVAILABLE []) = Inr out"
  shows "evaluate_remedy_rule g q r requirements = Inr out"
proof -
  obtain l where l: "rq_applicability_status q = AP_VERIFIED" "rq_effective_law_date q = Some l"
      "pack_effective_on (rg_rule_pack g) l" "remedy_rule_effective_on r l" "deadline_met g r (rq_deadline q) l"
    and s: "remedy_source_blockers (rg_sources g) (xrr_legal_source_ids r) l = Inr []"
    and e: "evidence_dependencies r requirements = Inr (RA_VERIFIED_AVAILABLE, [])"
    using assms(1) by (auto simp: remedy_basis_def remedy_source_blockers_Nil evidence_verified)
  have dep: "\<not> (\<not> xrr_deadline_required r \<and> rq_deadline q \<noteq> None)" using l(5) by (auto simp: deadline_met_def split: if_splits)
  have "deadline_dependency g r (rq_deadline q) l = (RA_VERIFIED_AVAILABLE, [])"
    using deadline_dependency_verified [OF dep, of g l "[]"] l(5) by simp
  then show ?thesis using dep l s e assms(2) by (auto simp: evaluate_remedy_rule_def Let_def)
qed

definition remedy_lines :: "remedy_rule \<Rightarrow> bool" where
  "remedy_lines r = (is_line (xrr_remedy_type r) \<and> is_line (xrr_target_authority r) \<and> is_line (xrr_filing_authority r) \<and>
     (\<forall>v. xrr_filing_via r = Some v \<longrightarrow> is_line v) \<and> line_tuple (xrr_formal_requirements r) \<and>
     line_tuple (xrr_required_evidence_ids r) \<and> line_tuple (xrr_preserves_options r) \<and> line_tuple (xrr_waives_options r))"

lemma remedy_rule_init_lines: "remedy_rule_init r0 = Inr r \<Longrightarrow> remedy_lines r"
  by (auto simp: remedy_rule_init_def remedy_lines_def split: if_splits)

lemma common_remedy_ok:
  "remedy_option_init (common_remedy q r RA_VERIFIED_AVAILABLE []) = Inr (common_remedy q r RA_VERIFIED_AVAILABLE []) \<longleftrightarrow>
     is_line (rq_remedy_id q) \<and> is_line (remedy_rule_token r) \<and>
     (\<forall>a. xrr_deadline_required r \<longrightarrow> rq_deadline q = Some a \<longrightarrow> is_line (das_deadline_id a))"
  if "remedy_lines r"
  using that by (auto simp: remedy_option_init_def common_remedy_def remedy_lines_def line_tuple_def)

lemma remedy_evaluate_known:
  "rg_rules g (rq_rule_key q) = Some r \<Longrightarrow> remedy_evaluate g q = Inr out \<longleftrightarrow>
     is_line (rq_remedy_id q) \<and> is_line (rq_rule_key q) \<and> distinct (map evr_requirement_id (rq_evidence_requirements q)) \<and>
     evaluate_remedy_rule g q r (by_id evr_requirement_id (rq_evidence_requirements q)) = Inr out"
  by (auto simp: remedy_evaluate_def)

section \<open>Properties\<close>

text \<open>C14: A remedy is VERIFIED_AVAILABLE exactly on a full basis. For a guard over constructed artifacts, the
  answer is VERIFIED_AVAILABLE if and only if the query is well formed, its rule is one of the guard's and
  in force with its pack on the law date, its sources are verified and in force, it applies by a verified
  assessment, the deadline it needs (and only such a rule has one) is VERIFIED under this pack and law date,
  and every evidence requirement it names is present and bound to this rule. The answer then carries the
  rule's token.\<close>

theorem remedy_verified_exact:
  assumes "rule_pack_init pack0 = Inr pack" and "\<forall>r \<in> set rules. \<exists>r0. remedy_rule_init r0 = Inr r"
    and "remedy_guard_init pack rules = Inr g"
  shows "(\<exists>out. remedy_evaluate g q = Inr out \<and> rem_admissibility_status out = RA_VERIFIED_AVAILABLE \<and>
      rem_applicable_rule_ids out = [remedy_rule_token r]) \<and> r \<in> set rules \<and> remedy_rule_key r = rq_rule_key q \<longleftrightarrow>
    is_line (rq_remedy_id q) \<and> is_line (rq_rule_key q) \<and> distinct (map evr_requirement_id (rq_evidence_requirements q)) \<and>
    (\<forall>a. xrr_deadline_required r \<longrightarrow> rq_deadline q = Some a \<longrightarrow> is_line (das_deadline_id a)) \<and>
    r \<in> set rules \<and> remedy_rule_key r = rq_rule_key q \<and>
    remedy_basis g q r (by_id evr_requirement_id (rq_evidence_requirements q))" (is "?L = ?R")
proof
  have g: "rg_rules g = by_id remedy_rule_key rules" "distinct (map remedy_rule_key rules)"
    using assms(3) by (simp_all add: remedy_guard_init_Inr)
  assume L: ?L
  then have r: "rg_rules g (rq_rule_key q) = Some r" "remedy_lines r"
    using g assms(2) remedy_rule_init_lines by (auto simp: by_id_iff)
  obtain out where out: "remedy_evaluate g q = Inr out" "rem_admissibility_status out = RA_VERIFIED_AVAILABLE" using L by blast
  note e = out(1) [unfolded remedy_evaluate_known [OF r(1)]]
  note v = evaluate_remedy_verified [OF _ out(2), of g q r, OF e [THEN conjunct2, THEN conjunct2, THEN conjunct2]]
  then show ?R using L e common_remedy_ok [OF r(2), of q] by blast
next
  have g: "rg_rules g = by_id remedy_rule_key rules" "distinct (map remedy_rule_key rules)"
      "sort (rpk_remedy_rules pack) = sort (map remedy_rule_token rules)"
    using assms(3) by (simp_all add: remedy_guard_init_Inr)
  assume R: ?R
  then have r: "rg_rules g (rq_rule_key q) = Some r" "remedy_lines r"
    using g assms(2) remedy_rule_init_lines by (auto simp: by_id_iff)
  have "remedy_rule_token r \<in> set (rpk_remedy_rules pack)"
    using R arg_cong [OF g(3), of set] by simp
  then have "is_line (remedy_rule_token r)" using assms(1) by (auto simp: rule_pack_init_def line_tuple_def split: if_splits)
  then have "remedy_option_init (common_remedy q r RA_VERIFIED_AVAILABLE []) = Inr (common_remedy q r RA_VERIFIED_AVAILABLE [])"
    using R common_remedy_ok [OF r(2)] by blast
  then have "remedy_evaluate g q = Inr (common_remedy q r RA_VERIFIED_AVAILABLE [])"
    using R remedy_evaluate_known [OF r(1)] evaluate_remedy_complete by blast
  then show ?L using R by (simp add: common_remedy_def)
qed

section \<open>Sample inputs and witnesses\<close>

definition sample_remedy_rule :: remedy_rule where
  "sample_remedy_rule = \<lparr>xrr_rule_id = ''appeal'', xrr_version = ''1'', xrr_remedy_type = ''civil'',
     xrr_target_authority = ''act'', xrr_filing_authority = ''act'', xrr_filing_via = None,
     xrr_formal_requirements = [], xrr_required_evidence_ids = [''uri''], xrr_preserves_options = [],
     xrr_waives_options = [], xrr_legal_source_ids = [''law''], xrr_deadline_required = True,
     xrr_effective_from = 1, xrr_effective_until = None\<rparr>"

definition sample_remedy_pack :: rule_pack where
  "sample_remedy_pack = sample_pack\<lparr>rpk_deadline_rules := [], rpk_remedy_rules := [remedy_rule_token sample_remedy_rule]\<rparr>"

definition sample_remedy_query :: remedy_query where
  "sample_remedy_query = \<lparr>rq_remedy_id = ''appeal'', rq_rule_key = ''appeal@1'', rq_applicability_status = AP_VERIFIED,
     rq_evidence_requirements = [\<lparr>evr_requirement_id = ''uri'', evr_description = ''act'', evr_category = EC_MERITS_CRITICAL,
       evr_importance = EI_CRITICAL, evr_required_for = [''appeal@1''], evr_expected_evidence_kind = ''act'',
       evr_status = ER_PRESENT, evr_evidence_refs = [''uri''], evr_schema = EVIDENCE_REQUIREMENT_SCHEMA_V1\<rparr>],
     rq_effective_law_date = Some 738990,
     rq_deadline = Some \<lparr>das_deadline_id = ''appeal'', das_trigger_type = ''service'', das_trigger_date = Some 738990,
       das_trigger_evidence = Some ''act'', das_rule_pack_id = Some ''pack'', das_rule_id = Some ''appeal'',
       das_rule_version = Some ''1'', das_legal_source_refs = [''law''], das_effective_law_date = Some 738990,
       das_duration_value = Some 14, das_duration_unit = None, das_calculation_method = None,
       das_calendar_profile = Some ''cal'', das_timezone = Some ''UTC'', das_legal_deadline = Some 739009,
       das_safe_internal_deadline = None, das_status = DL_VERIFIED, das_blocking_questions = [],
       das_schema = DEADLINE_ASSESSMENT_SCHEMA_V1\<rparr>\<rparr>"

lemma sample_remedy_token_line: "is_line (remedy_rule_token sample_remedy_rule)"
proof -
  have d: "is_sha256 (remedy_rule_digest sample_remedy_rule)" by (simp add: remedy_rule_digest_def)
  then have "stripped (remedy_rule_digest sample_remedy_rule)" "remedy_rule_digest sample_remedy_rule \<noteq> []"
      "\<not> has_control (remedy_rule_digest sample_remedy_rule)"
    using hex_line by (auto simp: is_sha256_def is_hex_strip dest: is_hex_strip) (metis is_hex_strip strip_stripped)
  then show ?thesis
    by (auto simp: remedy_rule_token_def remedy_rule_key_def sample_remedy_rule_def is_line_def is_text_def
        stripped_def is_space_def has_control_def)
qed

lemma remedy_verified_exact_witness:
  "\<exists>g out. remedy_guard_init sample_remedy_pack [sample_remedy_rule] = Inr g \<and>
     remedy_evaluate g sample_remedy_query = Inr out \<and> rem_admissibility_status out = RA_VERIFIED_AVAILABLE"
proof -
  have pack: "rule_pack_init sample_remedy_pack = Inr sample_remedy_pack"
    using sample_remedy_token_line
    by (auto simp: rule_pack_init_def sample_remedy_pack_def sample_pack_def sample_digest_ok source_set_digest_def
        window_reversed_def line_tuple_def)
  have "remedy_rule_init sample_remedy_rule = Inr sample_remedy_rule"
    by (simp add: remedy_rule_init_def sample_remedy_rule_def window_reversed_def line_tuple_def)
  then have rules: "\<forall>r \<in> set [sample_remedy_rule]. \<exists>r0. remedy_rule_init r0 = Inr r" by auto
  obtain g where g: "remedy_guard_init sample_remedy_pack [sample_remedy_rule] = Inr g" "rg_rule_pack g = sample_remedy_pack"
      "rg_sources g = sources_of sample_remedy_pack"
    by (simp add: remedy_guard_init_Inr sample_remedy_pack_def sample_pack_def sample_source_def sample_remedy_rule_def)
  have l: "is_line ''appeal@1''" by (simp add: is_line_def is_text_def stripped_def is_space_def has_control_def)
  have "remedy_basis g sample_remedy_query sample_remedy_rule
      (by_id evr_requirement_id (rq_evidence_requirements sample_remedy_query))"
    unfolding remedy_basis_def g
    by (simp add: sample_remedy_query_def sample_remedy_rule_def deadline_met_def g sample_remedy_pack_def sample_pack_def
        pack_effective_on_def in_window_def remedy_rule_effective_on_def sources_of_def by_id_def sample_source_def
        source_effective_on_def bound_to_def remedy_rule_key_def)
  moreover have "distinct (map evr_requirement_id (rq_evidence_requirements sample_remedy_query))"
      "is_line (rq_remedy_id sample_remedy_query)" "is_line (rq_rule_key sample_remedy_query)"
      "\<forall>a. rq_deadline sample_remedy_query = Some a \<longrightarrow> is_line (das_deadline_id a)"
      "remedy_rule_key sample_remedy_rule = rq_rule_key sample_remedy_query"
    using l by (simp_all add: sample_remedy_query_def sample_remedy_rule_def remedy_rule_key_def)
  ultimately show ?thesis
    using remedy_verified_exact [OF pack rules g(1), of sample_remedy_query sample_remedy_rule] g(1) by auto
qed

end
