(* ===== verification/CIRP_Strategy.thy ===== *)
theory CIRP_Strategy
  imports CIRP_Remedy
begin

text \<open>
  \<^verbatim>\<open>core/cirp/strategy.py\<close>: the strategy guard, which recommends only a single verified and safe option, and
  the topology guard, which groups the remedies of a strategy into filings by an evidence-bound
  consolidation assessment.
\<close>

section \<open>Lines built from lines\<close>

lemma is_line_between: "is_line a \<Longrightarrow> \<not> has_control sep \<Longrightarrow> is_line b \<Longrightarrow> is_line (a @ sep @ b)"
  by (auto simp: is_line_def is_text_def stripped_def has_control_def)

lemma is_line_after: "p \<noteq> [] \<Longrightarrow> \<not> is_space (hd p) \<Longrightarrow> \<not> has_control p \<Longrightarrow> is_line b \<Longrightarrow> is_line (p @ b)"
  by (auto simp: is_line_def is_text_def stripped_def has_control_def)

lemma is_line_before: "q \<noteq> [] \<Longrightarrow> \<not> is_space (last q) \<Longrightarrow> \<not> has_control q \<Longrightarrow> is_line a \<Longrightarrow> is_line (a @ q)"
  by (auto simp: is_line_def is_text_def stripped_def has_control_def)

lemma is_line_join: "xs \<noteq> [] \<Longrightarrow> \<forall>x \<in> set xs. is_line x \<Longrightarrow> \<not> has_control sep \<Longrightarrow> is_line (join sep xs)"
  by (induction sep xs rule: join.induct) (auto intro: is_line_between)

definition printable :: "string \<Rightarrow> bool" where
  "printable p = (\<not> has_control p \<and> (p \<noteq> [] \<longrightarrow> \<not> is_space (hd p)))"

lemmas printable_label = printable_def has_control_def is_space_def

lemma labelled_line:
  "printable p \<Longrightarrow> p \<noteq> [] \<Longrightarrow> \<not> has_control sep \<Longrightarrow> xs \<noteq> [] \<Longrightarrow> \<forall>x \<in> set xs. is_line x \<Longrightarrow> is_line (p @ join sep xs)"
  by (simp add: printable_def is_line_after is_line_join)

lemma first_occurrences_set [simp]: "set (first_occurrences xs) = set xs"
  by (induction xs) auto

lemma first_occurrences_distinct [simp]: "distinct (first_occurrences xs)"
  by (induction xs) auto

lemma line_tuple_first_occurrences [simp]: "line_tuple (first_occurrences xs) \<longleftrightarrow> (\<forall>x \<in> set xs. is_line x)"
  by (simp add: line_tuple_def)

lemma line_tuple_Nil [simp]: "line_tuple []"
  by (simp add: line_tuple_def)

lemma line_tuple_Cons: "line_tuple (x # xs) \<longleftrightarrow> is_line x \<and> x \<notin> set xs \<and> line_tuple xs"
  by (auto simp: line_tuple_def)

section \<open>Consolidation assessments\<close>

datatype consolidation_status = CA_VERIFIED | CA_UNKNOWN | CA_CONFLICTING

fun consolidation_status_value :: "consolidation_status \<Rightarrow> string" where
  "consolidation_status_value CA_VERIFIED = ''VERIFIED''"
| "consolidation_status_value CA_UNKNOWN = ''UNKNOWN''"
| "consolidation_status_value CA_CONFLICTING = ''CONFLICTING''"

record consolidation =
  coa_assessment_id :: string
  coa_remedy_groups :: "string list list"
  coa_status :: consolidation_status
  coa_evidence_refs :: "string list"
  coa_rule_refs :: "string list"
  coa_rationale :: string
  coa_blockers :: "string list"

text \<open>The loop over the groups; \<open>seen\<close> holds the remedies of the groups before.\<close>

fun check_groups :: "int \<Rightarrow> string list \<Rightarrow> string list list \<Rightarrow> unit result" where
  "check_groups i seen [] = return ()"
| "check_groups i seen (g # gs) =
     and_then (cirp_unique g (''remedy_groups['' @ show_int i @ '']'')) (\<lambda>g.
     if g = [] then raise_cirp ''consolidation remedy groups cannot be empty''
     else let overlap = filter (\<lambda>x. x \<in> set seen) g in
     if overlap \<noteq> []
     then raise_cirp (''a remedy cannot occur in multiple consolidation groups: '' @ join '', '' (sorted_set overlap))
     else check_groups (i + 1) (seen @ g) gs)"

definition consolidation_init :: "consolidation \<Rightarrow> consolidation result" where
  "consolidation_init c =
     and_then (nonblank_fields [(''assessment_id'', coa_assessment_id c), (''rationale'', coa_rationale c)]) (\<lambda>_.
     and_then (unique_fields [(''evidence_refs'', coa_evidence_refs c), (''rule_refs'', coa_rule_refs c),
         (''blockers'', coa_blockers c)]) (\<lambda>_.
     and_then (check_groups 0 [] (coa_remedy_groups c)) (\<lambda>_.
     if coa_remedy_groups c = [] then raise_cirp ''consolidation assessment requires remedy_groups''
     else if coa_status c = CA_VERIFIED then
       (if coa_blockers c \<noteq> [] then raise_cirp ''VERIFIED consolidation assessment cannot have blockers''
        else if coa_evidence_refs c = [] \<or> coa_rule_refs c = []
        then raise_cirp ''VERIFIED consolidation assessment requires evidence_refs and rule_refs''
        else return c)
     else if coa_blockers c = []
     then raise_cirp (consolidation_status_value (coa_status c) @ '' consolidation assessment requires blockers'')
     else return c)))"

definition consolidated_ids :: "consolidation \<Rightarrow> string list" where
  "consolidated_ids c = concat (coa_remedy_groups c)"

section \<open>The strategy guard\<close>

text \<open>\<^verbatim>\<open>_ineligibility_reason\<close>: why an option cannot be recommended, and whether that is open to evidence.\<close>

definition ineligibility_reason ::
  "strategy_option \<Rightarrow> (string \<rightharpoonup> remedy_option) \<Rightarrow> string list \<Rightarrow> string option \<times> bool" where
  "ineligibility_reason opt remedies available =
     (let missing_remedies = filter (\<lambda>i. remedies i = None) (sto_remedy_ids opt);
          states = List.map_filter (\<lambda>i. map_option rem_admissibility_status (remedies i)) (sto_remedy_ids opt);
          missing_evidence = filter (\<lambda>i. i \<notin> set available) (sto_required_evidence opt) in
      if missing_remedies \<noteq> [] then (Some (''Missing remedy assessments: '' @ join '', '' missing_remedies), True)
      else if list_ex (\<lambda>s. s = RA_NOT_AVAILABLE) states
      then (Some ''At least one required remedy is not available.'', False)
      else if list_ex (\<lambda>s. s \<in> {RA_UNKNOWN, RA_PROVISIONALLY_AVAILABLE}) states
      then (Some ''Required remedy availability is not fully verified.'', True)
      else if missing_evidence \<noteq> []
      then (Some (''Missing required strategy evidence: '' @ join '', '' missing_evidence), True)
      else if sto_admissibility opt \<noteq> VL_VERIFIED then (Some ''Strategy admissibility is not VERIFIED.'', True)
      else if sto_deadline_safety opt = DSF_UNKNOWN then (Some ''Strategy deadline safety is UNKNOWN.'', True)
      else if sto_deadline_safety opt = DSF_RISK then (Some ''Strategy carries explicit deadline risk.'', False)
      else if sto_unresolved opt \<noteq> []
      then (Some (''Strategy retains unresolved dependencies: '' @ join ''; '' (sto_unresolved opt)), True)
      else (None, False))"

text \<open>The loop over the options: the eligible ones, the reasons of the others, and whether one is uncertain.\<close>

fun assess_options ::
  "(string \<rightharpoonup> remedy_option) \<Rightarrow> string list \<Rightarrow> strategy_option list \<Rightarrow>
   strategy_option list \<times> (string \<times> string) list \<times> bool" where
  "assess_options remedies available [] = ([], [], False)"
| "assess_options remedies available (opt # opts) =
     (let (reason, uncertain) = ineligibility_reason opt remedies available;
          (eligible, reasons, seen) = assess_options remedies available opts in
      case reason of
        None \<Rightarrow> (opt # eligible, reasons, seen)
      | Some why \<Rightarrow> (eligible, (sto_strategy_id opt, why) # reasons, uncertain \<or> seen))"

text \<open>\<^verbatim>\<open>tuple(dict.fromkeys(risk for option in options for risk in (*option.risks, *option.unresolved)))\<close>.\<close>

definition open_risks :: "strategy_option list \<Rightarrow> string list" where
  "open_risks opts = first_occurrences (concat (map (\<lambda>s. sto_risks s @ sto_unresolved s) opts))"

definition decision_for ::
  "string option \<Rightarrow> strategy_status \<Rightarrow> string \<Rightarrow> (string \<times> string) list \<Rightarrow> string list \<Rightarrow> string list \<Rightarrow> string list \<Rightarrow>
   strategy_decision result" where
  "decision_for selected status rationale reasons decisive_evidence decisive_rules risks =
     strategy_decision_init
       \<lparr>sdc_selected_strategy_id = selected, sdc_decision_status = status, sdc_rationale = rationale,
        sdc_rejected_strategy_ids = map fst reasons, sdc_rejection_reasons = reasons,
        sdc_decisive_evidence = decisive_evidence, sdc_decisive_rules = decisive_rules,
        sdc_unresolved_risks = risks, sdc_schema = STRATEGY_DECISION_SCHEMA_V1\<rparr>"

text \<open>The decision on the assessed options.\<close>

definition strategy_answer ::
  "strategy_option list \<Rightarrow> strategy_option list \<Rightarrow> (string \<times> string) list \<Rightarrow> bool \<Rightarrow> string list \<Rightarrow> string list \<Rightarrow>
   strategy_decision result" where
  "strategy_answer opts eligible reasons uncertainty_seen decisive_evidence decisive_rules =
     (case eligible of
        [] \<Rightarrow> decision_for None (if uncertainty_seen then SD_NEEDS_EVIDENCE else SD_NO_SAFE_OPTION)
          (if uncertainty_seen
           then ''No strategy can be recommended until unresolved evidence or verification gaps are closed.''
           else ''No supplied strategy is both verified and deadline-safe.'') reasons [] [] (open_risks opts)
      | [selected] \<Rightarrow>
          if decisive_evidence = [] \<or> decisive_rules = []
          then decision_for None SD_ABSTAIN
            ''One safe strategy remains, but explicit decisive evidence and rule references are required before recommendation.''
            reasons [] []
            (first_occurrences (sto_risks selected @ sto_unresolved selected @
               [''Bind decisive evidence and rules before recommendation.'']))
          else decision_for (Some (sto_strategy_id selected)) SD_RECOMMENDED
            ''Exactly one strategy remains fully verified and deadline-safe, with explicit decisive evidence and rule references.''
            reasons decisive_evidence decisive_rules (open_risks eligible)
      | _ \<Rightarrow> decision_for None SD_DECISION_REQUIRED
          ''Multiple fully verified and deadline-safe strategies remain; CIRP does not manufacture a numeric ranking.''
          reasons [] [] (open_risks eligible))"

definition strategy_decide ::
  "strategy_option list \<Rightarrow> remedy_option list \<Rightarrow> string list \<Rightarrow> string list \<Rightarrow> string list \<Rightarrow> strategy_decision result" where
  "strategy_decide opts remedies available_ids decisive_evidence decisive_rules =
     (if opts = [] then decision_for None SD_ABSTAIN ''No strategy options were supplied for evaluation.'' [] [] []
        [''Generate evidence-bound strategy options.'']
      else
      and_then (index_unique sto_strategy_id ''duplicate strategy_id: '' opts Map.empty) (\<lambda>_.
      and_then (index_unique rem_remedy_id ''duplicate remedy_id: '' remedies Map.empty) (\<lambda>remedy_map.
      and_then (cirp_unique available_ids ''available_evidence_ids'') (\<lambda>available.
      and_then (cirp_unique decisive_evidence ''decisive_evidence'') (\<lambda>decisive_evidence.
      and_then (cirp_unique decisive_rules ''decisive_rules'') (\<lambda>decisive_rules.
      let missing = sorted_diff decisive_evidence available in
      if missing \<noteq> []
      then raise_cirp (''decisive evidence is not present in available evidence: '' @ join '', '' missing)
      else let (eligible, reasons, uncertainty_seen) = assess_options remedy_map available opts in
        strategy_answer opts eligible reasons uncertainty_seen decisive_evidence decisive_rules))))))"

section \<open>The topology guard\<close>

definition topology_for ::
  "topology_status \<Rightarrow> int \<Rightarrow> string list \<Rightarrow> string list \<Rightarrow> string \<Rightarrow> string list \<Rightarrow> topology_decision result" where
  "topology_for status n combined separated rationale blockers =
     topology_init \<lparr>ftd_status = status, ftd_filing_count = n, ftd_combined_remedies = combined,
       ftd_separated_remedies = separated, ftd_rationale = rationale, ftd_blockers = blockers,
       ftd_schema = FILING_TOPOLOGY_SCHEMA_V1\<rparr>"

definition uncertain_topology :: "string \<Rightarrow> string list \<Rightarrow> topology_decision result" where
  "uncertain_topology rationale blockers = topology_for FT_CONSOLIDATION_UNCERTAIN 0 [] [] rationale blockers"

definition route_of :: "remedy_option \<Rightarrow> string \<times> string \<times> string option" where
  "route_of r = (rem_target_authority r, rem_filing_authority r, rem_filing_via r)"

definition group_routes :: "(string \<rightharpoonup> remedy_option) \<Rightarrow> string list \<Rightarrow> (string \<times> string \<times> string option) list" where
  "group_routes remedies ids = remdups (List.map_filter (\<lambda>i. map_option route_of (remedies i)) ids)"

definition route_blockers :: "string list list \<Rightarrow> (string \<rightharpoonup> remedy_option) \<Rightarrow> string list" where
  "route_blockers groups remedies =
     map (\<lambda>g. ''Consolidation group contains incompatible filing routes: '' @ join '', '' g)
       (filter (\<lambda>g. length g \<noteq> 1 \<and> length (group_routes remedies g) > 1) groups)"

definition topology_decide ::
  "strategy_option \<Rightarrow> remedy_option list \<Rightarrow> consolidation option \<Rightarrow> topology_decision result" where
  "topology_decide strategy remedies assessment =
     (let selected = sto_remedy_ids strategy in
      if selected = []
      then topology_for FT_NO_FILING_REQUIRED 0 [] [] ''The selected strategy contains no filing remedy.'' []
      else
      and_then (index_unique rem_remedy_id ''duplicate remedy_id: '' remedies Map.empty) (\<lambda>remedy_map.
      let missing = filter (\<lambda>i. remedy_map i = None) selected;
          non_verified = filter (\<lambda>i. map_option rem_admissibility_status (remedy_map i) \<noteq> Some RA_VERIFIED_AVAILABLE) selected in
      if missing \<noteq> []
      then uncertain_topology ''Selected strategy references missing remedy assessments.''
        [''Assess remedies before filing topology: '' @ join '', '' missing]
      else if non_verified \<noteq> []
      then uncertain_topology ''Filing topology cannot be certified from unresolved remedy availability.''
        [''Verify remedy availability: '' @ join '', '' non_verified]
      else if length selected = 1
      then topology_for FT_SINGLE_FILING_SAFE 1 selected [] ''One verified remedy requires one filing topology unit.'' []
      else case assessment of
        None \<Rightarrow> uncertain_topology ''Multiple remedies require an explicit consolidation assessment.''
          [''Verify whether the selected remedies may share filing units.'']
      | Some c \<Rightarrow>
          if set (consolidated_ids c) \<noteq> set selected \<or> length (consolidated_ids c) \<noteq> length selected
          then uncertain_topology ''Consolidation assessment does not cover the exact selected remedy set.''
            [''Reassess consolidation for the exact selected remedies.'']
          else if coa_status c \<noteq> CA_VERIFIED
          then uncertain_topology (coa_rationale c)
            (if coa_blockers c \<noteq> [] then coa_blockers c
             else [''Resolve consolidation assessment before filing topology.''])
          else let blockers = route_blockers (coa_remedy_groups c) remedy_map in
          if blockers \<noteq> []
          then uncertain_topology ''Verified consolidation grouping conflicts with remedy filing routes.'' blockers
          else
          let combined = concat (filter (\<lambda>g. length g > 1) (coa_remedy_groups c));
              separated = map hd (filter (\<lambda>g. length g = 1) (coa_remedy_groups c)) in
          if length (coa_remedy_groups c) = 1
          then topology_for FT_SINGLE_FILING_SAFE 1 (if combined \<noteq> [] then combined else selected) [] (coa_rationale c) []
          else topology_for FT_MULTIPLE_FILINGS_REQUIRED (int (length (coa_remedy_groups c))) combined separated
            (coa_rationale c) []))"

section \<open>What the constructors admit\<close>

lemma check_groups_Inr:
  "check_groups i seen gs = Inr u \<longleftrightarrow> (\<forall>g \<in> set gs. line_tuple g \<and> g \<noteq> []) \<and> distinct (concat gs) \<and>
     set seen \<inter> set (concat gs) = {}"
proof (induction gs arbitrary: i seen)
  case (Cons g gs)
  have "check_groups i seen (g # gs) = Inr u \<longleftrightarrow>
      line_tuple g \<and> g \<noteq> [] \<and> set g \<inter> set seen = {} \<and> check_groups (i + 1) (seen @ g) gs = Inr u"
    by (auto simp: filter_empty_conv)
  then show ?case unfolding Cons.IH by (auto simp: line_tuple_def)
qed simp

lemma consolidation_init_Inr:
  "consolidation_init c = Inr c' \<longleftrightarrow> c' = c \<and> is_line (coa_assessment_id c) \<and> is_line (coa_rationale c) \<and>
     line_tuple (coa_evidence_refs c) \<and> line_tuple (coa_rule_refs c) \<and> line_tuple (coa_blockers c) \<and>
     coa_remedy_groups c \<noteq> [] \<and> (\<forall>g \<in> set (coa_remedy_groups c). line_tuple g \<and> g \<noteq> []) \<and>
     distinct (consolidated_ids c) \<and>
     (if coa_status c = CA_VERIFIED then coa_blockers c = [] \<and> coa_evidence_refs c \<noteq> [] \<and> coa_rule_refs c \<noteq> []
      else coa_blockers c \<noteq> [])"
  by (auto simp: consolidation_init_def check_groups_Inr consolidated_ids_def)

lemma freeze_items_Inr:
  "distinct (map fst acc) \<Longrightarrow> freeze_items n acc kvs = Inr out \<longleftrightarrow>
     (\<forall>(k, v) \<in> set kvs. is_line k \<and> is_line v) \<and> distinct (map fst (acc @ kvs)) \<and> out = sort_key fst (acc @ kvs)"
proof (induction kvs arbitrary: acc)
  case (Cons p kvs)
  obtain k v where [simp]: "p = (k, v)" by fastforce
  show ?case
  proof (cases "is_line k \<and> is_line v \<and> k \<notin> fst ` set acc")
    case True
    then show ?thesis using Cons.IH [of "acc @ [(k, v)]"] Cons.prems by auto
  next
    case False
    then show ?thesis by (auto simp: and_then_def split: sum.splits)
  qed
qed auto

definition option_lines :: "strategy_option \<Rightarrow> bool" where
  "option_lines s = (is_line (sto_strategy_id s) \<and> line_tuple (sto_remedy_ids s) \<and> line_tuple (sto_required_evidence s) \<and>
     line_tuple (sto_risks s) \<and> line_tuple (sto_unresolved s))"

lemma strategy_option_lines: "strategy_option_init s0 = Inr s \<Longrightarrow> option_lines s"
  by (auto simp: strategy_option_init_def option_lines_def split: if_splits)

lemma decision_for_Inr:
  assumes "distinct (map fst reasons)" "\<forall>(k, v) \<in> set reasons. is_line k \<and> is_line v" "is_line rationale"
    "line_tuple ev" "line_tuple drl" "line_tuple risks"
    "if status = SD_RECOMMENDED then \<exists>s. selected = Some s \<and> is_line s \<and> ev \<noteq> [] \<and> drl \<noteq> [] \<and> s \<notin> fst ` set reasons
     else selected = None"
  shows "decision_for selected status rationale reasons ev drl risks = Inr
       \<lparr>sdc_selected_strategy_id = selected, sdc_decision_status = status, sdc_rationale = rationale,
        sdc_rejected_strategy_ids = map fst reasons, sdc_rejection_reasons = sort_key fst reasons,
        sdc_decisive_evidence = ev, sdc_decisive_rules = drl, sdc_unresolved_risks = risks,
        sdc_schema = STRATEGY_DECISION_SCHEMA_V1\<rparr>"
proof -
  have "freeze_string_mapping reasons n = Inr (sort_key fst reasons)" for n
    using assms(1,2) by (simp add: freeze_string_mapping_def freeze_items_Inr)
  moreover have "cirp_optional selected n = Inr selected" for n using assms(7) by (auto split: if_splits)
  moreover have "cirp_nonblank rationale n = Inr rationale" for n using assms(3) by simp
  moreover have "cirp_unique (map fst reasons) n = Inr (map fst reasons)" for n
    using assms(1,2) by (auto simp: line_tuple_def)
  moreover have "unique_fields [(a, ev), (b, drl), (c, risks)] = Inr ()" for a b c using assms(4-6) by simp
  ultimately show ?thesis using assms(7)
    by (auto simp: decision_for_def strategy_decision_init_def Let_def)
qed

section \<open>Which options are eligible\<close>

definition safe_option :: "(string \<rightharpoonup> remedy_option) \<Rightarrow> string list \<Rightarrow> strategy_option \<Rightarrow> bool" where
  "safe_option remedies available s =
     ((\<forall>i \<in> set (sto_remedy_ids s). \<exists>r. remedies i = Some r \<and> rem_admissibility_status r = RA_VERIFIED_AVAILABLE) \<and>
      set (sto_required_evidence s) \<subseteq> set available \<and> sto_admissibility s = VL_VERIFIED \<and>
      sto_deadline_safety s = DSF_SAFE \<and> sto_unresolved s = [])"

lemma all_verified:
  "(\<forall>i \<in> set ids. \<exists>r. m i = Some r \<and> rem_admissibility_status r = RA_VERIFIED_AVAILABLE) \<longleftrightarrow>
     filter (\<lambda>i. m i = None) ids = [] \<and>
     \<not> list_ex (\<lambda>s. s = RA_NOT_AVAILABLE) (List.map_filter (\<lambda>i. map_option rem_admissibility_status (m i)) ids) \<and>
     \<not> list_ex (\<lambda>s. s \<in> {RA_UNKNOWN, RA_PROVISIONALLY_AVAILABLE})
       (List.map_filter (\<lambda>i. map_option rem_admissibility_status (m i)) ids)"
proof (induction ids)
  case (Cons i ids)
  show ?case
  proof (cases "m i")
    case (Some r)
    then show ?thesis using Cons by (cases "rem_admissibility_status r") (simp_all add: List.map_filter_simps)
  qed simp
qed (simp add: List.map_filter_simps)

lemma ineligible_None: "fst (ineligibility_reason s m available) = None \<longleftrightarrow> safe_option m available s"
proof -
  have "(\<forall>x \<in> set (sto_required_evidence s). x \<in> set available) \<longleftrightarrow> set (sto_required_evidence s) \<subseteq> set available" by blast
  moreover have "sto_deadline_safety s = DSF_SAFE \<longleftrightarrow> sto_deadline_safety s \<noteq> DSF_UNKNOWN \<and> sto_deadline_safety s \<noteq> DSF_RISK"
    by (cases "sto_deadline_safety s") simp_all
  ultimately show ?thesis
    unfolding safe_option_def all_verified ineligibility_reason_def Let_def by (simp add: filter_empty_conv)
qed

lemma reason_line:
  assumes "option_lines s" "fst (ineligibility_reason s m available) = Some why"
  shows "is_line why"
proof -
  have lines: "line_tuple (sto_remedy_ids s)" "line_tuple (sto_required_evidence s)" "line_tuple (sto_unresolved s)"
    using assms(1) by (simp_all add: option_lines_def)
  have c1: "is_line (''Missing remedy assessments: '' @ join '', '' (filter P (sto_remedy_ids s)))"
    if "filter P (sto_remedy_ids s) \<noteq> []" for P
    using that lines by (intro labelled_line) (simp_all add: line_tuple_def printable_label)
  have c2: "is_line (''Missing required strategy evidence: '' @ join '', '' (filter P (sto_required_evidence s)))"
    if "filter P (sto_required_evidence s) \<noteq> []" for P
    using that lines by (intro labelled_line) (simp_all add: line_tuple_def printable_label)
  have c3: "is_line (''Strategy retains unresolved dependencies: '' @ join ''; '' (sto_unresolved s))"
    if "sto_unresolved s \<noteq> []"
    using that lines by (intro labelled_line) (simp_all add: line_tuple_def printable_label)
  have f: "is_line ''At least one required remedy is not available.''"
      "is_line ''Required remedy availability is not fully verified.''" "is_line ''Strategy admissibility is not VERIFIED.''"
      "is_line ''Strategy deadline safety is UNKNOWN.''" "is_line ''Strategy carries explicit deadline risk.''"
    by (simp_all add: is_line_def is_text_def stripped_def has_control_def is_space_def)
  show ?thesis using assms(2) c1 c2 c3 f by (auto simp: ineligibility_reason_def Let_def split: if_splits)
qed

lemma assess_options_eq:
  "assess_options m available opts = (eligible, reasons, u) \<Longrightarrow>
     eligible = filter (safe_option m available) opts \<and>
     map fst reasons = map sto_strategy_id (filter (\<lambda>s. \<not> safe_option m available s) opts) \<and>
     ((\<forall>s \<in> set opts. option_lines s) \<longrightarrow> (\<forall>(k, v) \<in> set reasons. is_line k \<and> is_line v))"
proof (induction opts arbitrary: eligible reasons u)
  case (Cons s opts)
  obtain el rs v where r: "assess_options m available opts = (el, rs, v)" by (cases "assess_options m available opts")
  obtain why unc where w: "ineligibility_reason s m available = (why, unc)" by fastforce
  have safe: "why = None \<longleftrightarrow> safe_option m available s" using ineligible_None [of s m available] w by simp
  have line: "option_lines s \<Longrightarrow> why = Some x \<Longrightarrow> is_line x" for x using reason_line [of s m available x] w by simp
  show ?case using Cons.IH [OF r] Cons.prems r w safe line by (cases why) (auto simp: option_lines_def)
qed simp

lemmas line_literal = is_line_def is_text_def stripped_def has_control_def is_space_def

lemma rationale_lines [simp]:
  "is_line ''No strategy can be recommended until unresolved evidence or verification gaps are closed.''"
  "is_line ''No supplied strategy is both verified and deadline-safe.''"
  "is_line ''One safe strategy remains, but explicit decisive evidence and rule references are required before recommendation.''"
  "is_line ''Bind decisive evidence and rules before recommendation.''"
  "is_line ''Exactly one strategy remains fully verified and deadline-safe, with explicit decisive evidence and rule references.''"
  "is_line ''Multiple fully verified and deadline-safe strategies remain; CIRP does not manufacture a numeric ranking.''"
  by (simp_all add: line_literal)

lemma open_risks_lines: "\<forall>s \<in> set opts. option_lines s \<Longrightarrow> line_tuple (open_risks opts)"
  by (auto simp: open_risks_def option_lines_def line_tuple_def)

text \<open>What a decision says of the options, by the number of safe ones.\<close>

definition decides :: "(strategy_option \<Rightarrow> bool) \<Rightarrow> strategy_option list \<Rightarrow> bool \<Rightarrow> strategy_decision \<Rightarrow> bool" where
  "decides safe opts decisive d =
     (sdc_rejected_strategy_ids d = map sto_strategy_id (filter (\<lambda>s. \<not> safe s) opts) \<and>
      (case filter safe opts of
         [] \<Rightarrow> sdc_decision_status d \<in> {SD_NEEDS_EVIDENCE, SD_NO_SAFE_OPTION} \<and> sdc_selected_strategy_id d = None
       | [s] \<Rightarrow> if decisive
           then sdc_decision_status d = SD_RECOMMENDED \<and> sdc_selected_strategy_id d = Some (sto_strategy_id s)
           else sdc_decision_status d = SD_ABSTAIN \<and> sdc_selected_strategy_id d = None
       | _ \<Rightarrow> sdc_decision_status d = SD_DECISION_REQUIRED \<and> sdc_selected_strategy_id d = None))"

lemma strategy_decide_total:
  assumes "\<forall>s \<in> set opts. option_lines s" "opts \<noteq> []" "distinct (map sto_strategy_id opts)"
    "distinct (map rem_remedy_id remedies)" "line_tuple available" "line_tuple ev" "line_tuple drl" "set ev \<subseteq> set available"
  shows "\<exists>d. strategy_decide opts remedies available ev drl = Inr d \<and>
    decides (safe_option (by_id rem_remedy_id remedies) available) opts (ev \<noteq> [] \<and> drl \<noteq> []) d"
proof -
  let ?safe = "safe_option (by_id rem_remedy_id remedies) available"
  obtain eligible reasons u where a: "assess_options (by_id rem_remedy_id remedies) available opts = (eligible, reasons, u)"
    by (cases "assess_options (by_id rem_remedy_id remedies) available opts")
  have e: "eligible = filter ?safe opts" and r: "map fst reasons = map sto_strategy_id (filter (\<lambda>s. \<not> ?safe s) opts)"
    and l: "\<forall>(k, v) \<in> set reasons. is_line k \<and> is_line v"
    using assess_options_eq [OF a] assms(1) by blast+
  have d: "distinct (map fst reasons)" unfolding r using assms(3) distinct_map_filter by blast
  have fresh: "sto_strategy_id s \<notin> fst ` set reasons" if "s \<in> set opts" "?safe s" for s
    using that assms(3) arg_cong [OF r, of set] by (auto simp: distinct_map dest: inj_onD)
  have risks: "line_tuple (open_risks eligible)" "line_tuple (open_risks opts)"
    using assms(1) e by (auto intro!: open_risks_lines)
  have i: "index_unique sto_strategy_id m opts Map.empty = Inr (by_id sto_strategy_id opts)"
      "index_unique rem_remedy_id m remedies Map.empty = Inr (by_id rem_remedy_id remedies)"
      "cirp_unique available m = Inr available" "cirp_unique ev m = Inr ev" "cirp_unique drl m = Inr drl" for m
    using assms by simp_all
  have run: "strategy_decide opts remedies available ev drl = strategy_answer opts eligible reasons u ev drl"
    using assms(2,8) unfolding strategy_decide_def i and_then_Inr by (simp add: a)
  consider "eligible = []" | s where "eligible = [s]" | s s' ss where "eligible = s # s' # ss"
    by (metis neq_Nil_conv)
  then show ?thesis
  proof cases
    case 1
    then show ?thesis using run d l risks e r by (cases u) (simp_all add: strategy_answer_def decision_for_Inr decides_def)
  next
    case (2 s)
    then have "s \<in> set (filter ?safe opts)" using e by (metis list.set_intros(1))
    then have s: "s \<in> set opts" "?safe s" by simp_all
    then have "is_line (sto_strategy_id s)" "\<forall>x \<in> set (sto_risks s) \<union> set (sto_unresolved s). is_line x"
      using assms(1) by (auto simp: option_lines_def line_tuple_def)
    then show ?thesis using run 2 d l risks(1) e r fresh [OF s] assms(6,7)
      by (cases "ev = [] \<or> drl = []") (auto simp: strategy_answer_def decision_for_Inr decides_def)
  next
    case (3 s s' ss)
    then show ?thesis using run d l risks e r by (simp add: strategy_answer_def decision_for_Inr decides_def)
  qed
qed

section \<open>Which remedies share a filing\<close>

text \<open>The filings a strategy may be split into: one filing for a single remedy, otherwise the groups of a verified
  assessment of exactly its remedies; all remedies are verified and the remedies of a filing share a route.\<close>

definition filing_groups ::
  "(string \<rightharpoonup> remedy_option) \<Rightarrow> string list \<Rightarrow> consolidation option \<Rightarrow> string list list \<Rightarrow> bool" where
  "filing_groups remedies ids assessment groups =
     (ids \<noteq> [] \<and> mset (concat groups) = mset ids \<and>
      (\<forall>i \<in> set ids. \<exists>r. remedies i = Some r \<and> rem_admissibility_status r = RA_VERIFIED_AVAILABLE) \<and>
      (\<forall>g \<in> set groups. \<forall>i \<in> set g. \<forall>j \<in> set g. map_option route_of (remedies i) = map_option route_of (remedies j)) \<and>
      (if length ids = 1 then groups = [ids]
       else \<exists>c. assessment = Some c \<and> coa_status c = CA_VERIFIED \<and> coa_remedy_groups c = groups))"

lemma topology_for_Inr:
  "\<lbrakk>0 \<le> n; line_tuple combined; line_tuple separated; is_line rationale; line_tuple blockers;
    set combined \<inter> set separated = {};
    case status of FT_SINGLE_FILING_SAFE \<Rightarrow> n = 1 \<and> blockers = [] | FT_MULTIPLE_FILINGS_REQUIRED \<Rightarrow> 2 \<le> n
    | FT_CONSOLIDATION_UNCERTAIN \<Rightarrow> blockers \<noteq> [] | FT_NO_FILING_REQUIRED \<Rightarrow> n = 0 \<and> combined = [] \<and> separated = []\<rbrakk> \<Longrightarrow>
   topology_for status n combined separated rationale blockers =
     Inr \<lparr>ftd_status = status, ftd_filing_count = n, ftd_combined_remedies = combined,
       ftd_separated_remedies = separated, ftd_rationale = rationale, ftd_blockers = blockers,
       ftd_schema = FILING_TOPOLOGY_SCHEMA_V1\<rparr>"
proof -
  assume a: "0 \<le> n" "line_tuple combined" "line_tuple separated" "is_line rationale" "line_tuple blockers"
    "set combined \<inter> set separated = {}"
    "case status of FT_SINGLE_FILING_SAFE \<Rightarrow> n = 1 \<and> blockers = [] | FT_MULTIPLE_FILINGS_REQUIRED \<Rightarrow> 2 \<le> n
    | FT_CONSOLIDATION_UNCERTAIN \<Rightarrow> blockers \<noteq> [] | FT_NO_FILING_REQUIRED \<Rightarrow> n = 0 \<and> combined = [] \<and> separated = []"
  have "unique_fields [(x, combined), (y, separated)] = Inr ()" "cirp_nonblank rationale x = Inr rationale"
      "cirp_unique blockers x = Inr blockers" for x y
    using a(2-5) by simp_all
  then show ?thesis using a(1,6,7) by (cases status) (simp_all add: topology_for_def topology_init_def)
qed

lemma uncertain_topology_Inr:
  "is_line rationale \<Longrightarrow> line_tuple blockers \<Longrightarrow> blockers \<noteq> [] \<Longrightarrow>
     \<exists>t. uncertain_topology rationale blockers = Inr t \<and> ftd_status t = FT_CONSOLIDATION_UNCERTAIN"
  by (simp add: uncertain_topology_def topology_for_Inr)

lemma group_routes_one:
  "\<forall>i \<in> set g. m i \<noteq> None \<Longrightarrow> \<not> 1 < length (group_routes m g) \<longleftrightarrow>
     (\<forall>i \<in> set g. \<forall>j \<in> set g. map_option route_of (m i) = map_option route_of (m j))"
proof -
  assume a: "\<forall>i \<in> set g. m i \<noteq> None"
  let ?R = "set (List.map_filter (\<lambda>i. map_option route_of (m i)) g)"
  have R: "?R = {x. \<exists>i \<in> set g. map_option route_of (m i) = Some x}"
    by (induction g) (auto simp: List.map_filter_simps split: option.splits)
  have "length (group_routes m g) = card ?R" by (simp add: group_routes_def length_remdups_card_conv)
  then have "\<not> 1 < length (group_routes m g) \<longleftrightarrow> (\<forall>x \<in> ?R. \<forall>y \<in> ?R. x = y)"
    by (metis List.finite_set card_le_Suc0_iff_eq not_less One_nat_def)
  also have "\<dots> \<longleftrightarrow> (\<forall>i \<in> set g. \<forall>j \<in> set g. map_option route_of (m i) = map_option route_of (m j))"
    unfolding R
  proof (intro iffI ballI)
    fix i j assume e: "\<forall>x \<in> {x. \<exists>i \<in> set g. map_option route_of (m i) = Some x}.
        \<forall>y \<in> {x. \<exists>i \<in> set g. map_option route_of (m i) = Some x}. x = y" and ij: "i \<in> set g" "j \<in> set g"
    obtain x y where xy: "map_option route_of (m i) = Some x" "map_option route_of (m j) = Some y"
      using a ij by (metis (no_types, lifting) not_None_eq option.map_disc_iff)
    then have "x = y" using e ij by blast
    then show "map_option route_of (m i) = map_option route_of (m j)" by (simp only: xy)
  next
    fix x y assume e: "\<forall>i \<in> set g. \<forall>j \<in> set g. map_option route_of (m i) = map_option route_of (m j)"
      and "x \<in> {x. \<exists>i \<in> set g. map_option route_of (m i) = Some x}" "y \<in> {x. \<exists>i \<in> set g. map_option route_of (m i) = Some x}"
    then obtain i j where ij: "i \<in> set g" "j \<in> set g" "map_option route_of (m i) = Some x" "map_option route_of (m j) = Some y"
      by blast
    have "map_option route_of (m i) = map_option route_of (m j)" using e ij(1,2) by blast
    then show "x = y" using ij(3,4) by simp
  qed
  finally show ?thesis .
qed

lemma route_blockers_Nil:
  assumes "\<forall>g \<in> set groups. \<forall>i \<in> set g. m i \<noteq> None"
  shows "route_blockers groups m = [] \<longleftrightarrow>
     (\<forall>g \<in> set groups. \<forall>i \<in> set g. \<forall>j \<in> set g. map_option route_of (m i) = map_option route_of (m j))"
proof -
  have "(length g \<noteq> 1 \<and> 1 < length (group_routes m g)) = (1 < length (group_routes m g))" if "g \<in> set groups" for g
    using group_routes_one [of g m] that assms by (auto simp: length_Suc_conv)
  then show ?thesis using assms group_routes_one [of _ m] by (auto simp: route_blockers_def filter_empty_conv)
qed

definition grouped_as :: "string list list \<Rightarrow> topology_decision \<Rightarrow> bool" where
  "grouped_as groups t =
     (ftd_filing_count t = int (length groups) \<and>
      (if length groups = 1
       then ftd_status t = FT_SINGLE_FILING_SAFE \<and> set (ftd_combined_remedies t) = set (concat groups) \<and>
         ftd_separated_remedies t = []
       else ftd_status t = FT_MULTIPLE_FILINGS_REQUIRED \<and>
         ftd_combined_remedies t = concat (filter (\<lambda>g. 1 < length g) groups) \<and>
         ftd_separated_remedies t = map hd (filter (\<lambda>g. length g = 1) groups)))"

lemma concat_filter_lines:
  "(\<forall>g \<in> set gs. line_tuple g) \<Longrightarrow> distinct (concat gs) \<Longrightarrow> line_tuple (concat (filter P gs))"
  by (induction gs) (auto simp: line_tuple_def)

lemma heads_in_concat: "\<forall>g \<in> set gs. g \<noteq> [] \<Longrightarrow> set (map hd (filter P gs)) \<subseteq> set (concat gs)"
  by (auto intro: hd_in_set)

lemma hd_filter_lines:
  "(\<forall>g \<in> set gs. line_tuple g \<and> g \<noteq> []) \<Longrightarrow> distinct (concat gs) \<Longrightarrow> line_tuple (map hd (filter P gs))"
proof (induction gs)
  case (Cons g gs)
  let ?H = "map hd (filter P gs)"
  have g: "hd g \<in> set g" using Cons.prems(1) by simp
  moreover have "set ?H \<subseteq> set (concat gs)" using heads_in_concat [of gs P] Cons.prems(1) by simp
  ultimately have "hd g \<notin> set ?H" using Cons.prems(2) by auto
  moreover have "line_tuple ?H" "is_line (hd g)" using Cons g by (auto simp: line_tuple_def)
  ultimately have "line_tuple (hd g # ?H)" unfolding line_tuple_Cons by blast
  then show ?case using \<open>line_tuple ?H\<close> by simp
qed simp

lemma combined_separated_disjoint:
  "(\<forall>g \<in> set gs. g \<noteq> []) \<Longrightarrow> distinct (concat gs) \<Longrightarrow>
     set (concat (filter (\<lambda>g. 1 < length g) gs)) \<inter> set (map hd (filter (\<lambda>g. length g = 1) gs)) = {}"
  for gs :: "string list list"
proof (induction gs)
  case (Cons g gs)
  let ?C = "set (concat (filter (\<lambda>g. 1 < length g) gs))" and ?H = "set (map hd (filter (\<lambda>g. length g = 1) gs))"
  have sub: "?C \<subseteq> set (concat gs)" "?H \<subseteq> set (concat gs)" using Cons.prems(1) heads_in_concat [of gs] by auto
  have g: "set g \<inter> set (concat gs) = {}" "hd g \<in> set g" "?C \<inter> ?H = {}" using Cons by simp_all
  have dis: "(if a then G \<union> C else C) \<inter> (if b then insert h H else H) = {}"
    if "C \<subseteq> U" "H \<subseteq> U" "G \<inter> U = {}" "h \<in> G" "C \<inter> H = {}" "\<not> (a \<and> b)" for a b h and C H G U :: "string set"
    using that by auto
  have "set (concat (filter (\<lambda>g. 1 < length g) (g # gs))) = (if 1 < length g then set g \<union> ?C else ?C)"
      "set (map hd (filter (\<lambda>g. length g = 1) (g # gs))) = (if length g = 1 then insert (hd g) ?H else ?H)" by simp_all
  moreover have "\<not> (1 < length g \<and> length g = 1)" by simp
  ultimately show ?case using dis [OF sub g(1,2,3)] by presburger
qed simp

lemma grouped_topology:
  assumes "consolidation_init c = Inr c" "coa_status c = CA_VERIFIED"
  defines "gs \<equiv> coa_remedy_groups c"
  defines "combined \<equiv> concat (filter (\<lambda>g. 1 < length g) gs)" and "separated \<equiv> map hd (filter (\<lambda>g. length g = 1) gs)"
  assumes "set (consolidated_ids c) = set ids" "line_tuple ids"
  shows "\<exists>t. (if length gs = 1
      then topology_for FT_SINGLE_FILING_SAFE 1 (if combined \<noteq> [] then combined else ids) [] (coa_rationale c) []
      else topology_for FT_MULTIPLE_FILINGS_REQUIRED (int (length gs)) combined separated (coa_rationale c) []) = Inr t \<and>
    grouped_as gs t"
proof -
  have c: "is_line (coa_rationale c)" "gs \<noteq> []" "\<forall>g \<in> set gs. line_tuple g \<and> g \<noteq> []" "distinct (concat gs)"
    using assms(1,2) by (simp_all add: consolidation_init_Inr gs_def consolidated_ids_def)
  have l: "line_tuple combined" "line_tuple separated" "set combined \<inter> set separated = {}"
    using c(3,4) concat_filter_lines [of gs] hd_filter_lines [of gs] combined_separated_disjoint [of gs]
    unfolding combined_def separated_def by blast+
  show ?thesis
  proof (cases "length gs = 1")
    case True
    then obtain g where g: "gs = [g]" by (auto simp: length_Suc_conv)
    then have "set (if combined \<noteq> [] then combined else ids) = set (concat gs)"
      using assms(6) by (auto simp: combined_def consolidated_ids_def gs_def)
    moreover have "line_tuple (if combined \<noteq> [] then combined else ids)" using l(1) assms(7) by simp
    ultimately show ?thesis using True c(1) by (simp add: topology_for_Inr grouped_as_def)
  next
    case False
    then have "2 \<le> int (length gs)" using c(2) by (cases gs rule: remdups_adj.cases) auto
    then show ?thesis using False c(1) l
      by (simp add: topology_for_Inr grouped_as_def combined_def separated_def)
  qed
qed

lemma topology_rationales [simp]:
  "is_line ''The selected strategy contains no filing remedy.''"
  "is_line ''Selected strategy references missing remedy assessments.''"
  "is_line ''Filing topology cannot be certified from unresolved remedy availability.''"
  "is_line ''One verified remedy requires one filing topology unit.''"
  "is_line ''Multiple remedies require an explicit consolidation assessment.''"
  "is_line ''Verify whether the selected remedies may share filing units.''"
  "is_line ''Consolidation assessment does not cover the exact selected remedy set.''"
  "is_line ''Reassess consolidation for the exact selected remedies.''"
  "is_line ''Verified consolidation grouping conflicts with remedy filing routes.''"
  by (simp_all add: line_literal)

lemma topology_blockers:
  "xs \<noteq> [] \<Longrightarrow> \<forall>x \<in> set xs. is_line x \<Longrightarrow> line_tuple [''Assess remedies before filing topology: '' @ join '', '' xs]"
  "xs \<noteq> [] \<Longrightarrow> \<forall>x \<in> set xs. is_line x \<Longrightarrow> line_tuple [''Verify remedy availability: '' @ join '', '' xs]"
  "xs \<noteq> [] \<Longrightarrow> \<forall>x \<in> set xs. is_line x \<Longrightarrow>
     is_line (''Consolidation group contains incompatible filing routes: '' @ join '', '' xs)"
  unfolding line_tuple_Cons by (intro conjI labelled_line; simp add: printable_label)+

lemma topology_for_status: "topology_for status n combined separated rationale blockers = Inr t \<Longrightarrow> ftd_status t = status"
  by (auto simp: topology_for_def dest: inits_same(5))

lemma uncertain_topology_status: "uncertain_topology rationale blockers = Inr t \<Longrightarrow> ftd_status t = FT_CONSOLIDATION_UNCERTAIN"
  by (simp add: uncertain_topology_def topology_for_status)

lemma same_remedies:
  assumes "distinct xs" "distinct ys"
  shows "\<not> (set xs \<noteq> set ys \<or> length xs \<noteq> length ys) \<longleftrightarrow> mset xs = mset ys"
  using assms by (metis distinct_card set_eq_iff_mset_eq_distinct)

lemma non_verified_Nil:
  "filter (\<lambda>i. m i = None) ids = [] \<and>
     filter (\<lambda>i. map_option rem_admissibility_status (m i) \<noteq> Some RA_VERIFIED_AVAILABLE) ids = [] \<longleftrightarrow>
     (\<forall>i \<in> set ids. \<exists>r. m i = Some r \<and> rem_admissibility_status r = RA_VERIFIED_AVAILABLE)"
  by (auto simp: filter_empty_conv)

text \<open>The decision once the remedies are known to be verified.\<close>

lemma topology_decide_verified:
  assumes "distinct (map rem_remedy_id remedies)" "sto_remedy_ids s \<noteq> []"
    and v: "\<forall>i \<in> set (sto_remedy_ids s). \<exists>r. by_id rem_remedy_id remedies i = Some r \<and>
      rem_admissibility_status r = RA_VERIFIED_AVAILABLE"
  shows "topology_decide s remedies assessment =
    (if length (sto_remedy_ids s) = 1
     then topology_for FT_SINGLE_FILING_SAFE 1 (sto_remedy_ids s) [] ''One verified remedy requires one filing topology unit.'' []
     else case assessment of
       None \<Rightarrow> uncertain_topology ''Multiple remedies require an explicit consolidation assessment.''
         [''Verify whether the selected remedies may share filing units.'']
     | Some c \<Rightarrow>
         if set (consolidated_ids c) \<noteq> set (sto_remedy_ids s) \<or> length (consolidated_ids c) \<noteq> length (sto_remedy_ids s)
         then uncertain_topology ''Consolidation assessment does not cover the exact selected remedy set.''
           [''Reassess consolidation for the exact selected remedies.'']
         else if coa_status c \<noteq> CA_VERIFIED
         then uncertain_topology (coa_rationale c) (if coa_blockers c \<noteq> [] then coa_blockers c
           else [''Resolve consolidation assessment before filing topology.''])
         else if route_blockers (coa_remedy_groups c) (by_id rem_remedy_id remedies) \<noteq> []
         then uncertain_topology ''Verified consolidation grouping conflicts with remedy filing routes.''
           (route_blockers (coa_remedy_groups c) (by_id rem_remedy_id remedies))
         else if length (coa_remedy_groups c) = 1
         then topology_for FT_SINGLE_FILING_SAFE 1
           (if concat (filter (\<lambda>g. 1 < length g) (coa_remedy_groups c)) \<noteq> []
            then concat (filter (\<lambda>g. 1 < length g) (coa_remedy_groups c)) else sto_remedy_ids s) [] (coa_rationale c) []
         else topology_for FT_MULTIPLE_FILINGS_REQUIRED (int (length (coa_remedy_groups c)))
           (concat (filter (\<lambda>g. 1 < length g) (coa_remedy_groups c)))
           (map hd (filter (\<lambda>g. length g = 1) (coa_remedy_groups c))) (coa_rationale c) [])"
proof -
  have i: "index_unique rem_remedy_id m remedies Map.empty = Inr (by_id rem_remedy_id remedies)" for m using assms(1) by simp
  have f: "filter (\<lambda>i. by_id rem_remedy_id remedies i = None) (sto_remedy_ids s) = []"
      "filter (\<lambda>i. map_option rem_admissibility_status (by_id rem_remedy_id remedies i) \<noteq> Some RA_VERIFIED_AVAILABLE)
         (sto_remedy_ids s) = []"
    using v non_verified_Nil [of "by_id rem_remedy_id remedies" "sto_remedy_ids s"] by blast+
  show ?thesis unfolding topology_decide_def i and_then_Inr Let_def f using assms(2) by (simp cong: option.case_cong)
qed

lemma topology_decide_unverified:
  assumes "topology_decide s remedies assessment = Inr t" "ftd_status t \<in> {FT_SINGLE_FILING_SAFE, FT_MULTIPLE_FILINGS_REQUIRED}"
  shows "distinct (map rem_remedy_id remedies) \<and> sto_remedy_ids s \<noteq> [] \<and>
    (\<forall>i \<in> set (sto_remedy_ids s). \<exists>r. by_id rem_remedy_id remedies i = Some r \<and>
       rem_admissibility_status r = RA_VERIFIED_AVAILABLE)"
proof -
  note b = assms(1) [unfolded topology_decide_def Let_def]
  have n: "sto_remedy_ids s \<noteq> []"
  proof
    assume "sto_remedy_ids s = []"
    then have "topology_for FT_NO_FILING_REQUIRED 0 [] [] ''The selected strategy contains no filing remedy.'' [] = Inr t"
      using b by simp
    then show False using topology_for_status assms(2) by fastforce
  qed
  have d: "distinct (map rem_remedy_id remedies)" using b n by (auto simp: and_then_def split: sum.splits)
  then have i: "index_unique rem_remedy_id m remedies Map.empty = Inr (by_id rem_remedy_id remedies)" for m by simp
  have u: "uncertain_topology rationale blockers \<noteq> Inr t" for rationale blockers
    using uncertain_topology_status assms(2) by fastforce
  show ?thesis using d n b u unfolding i and_then_Inr non_verified_Nil [symmetric] by (auto split: if_splits)
qed

lemma known_remedies:
  assumes "mset (concat gs) = mset ids" "\<forall>i \<in> set ids. \<exists>r. m i = Some r \<and> rem_admissibility_status r = RA_VERIFIED_AVAILABLE"
  shows "\<forall>g \<in> set gs. \<forall>i \<in> set g. m i \<noteq> None"
  using assms(2) mset_eq_setD [OF assms(1)] by fastforce

lemma topology_decide_grouped:
  assumes "line_tuple (sto_remedy_ids s)" and "distinct (map rem_remedy_id remedies)"
    and "\<forall>c. assessment = Some c \<longrightarrow> consolidation_init c = Inr c"
    and f: "filing_groups (by_id rem_remedy_id remedies) (sto_remedy_ids s) assessment groups"
  shows "\<exists>t. topology_decide s remedies assessment = Inr t \<and> grouped_as groups t"
proof -
  let ?m = "by_id rem_remedy_id remedies" and ?ids = "sto_remedy_ids s"
  have n: "?ids \<noteq> []" and v: "\<forall>i \<in> set ?ids. \<exists>r. ?m i = Some r \<and> rem_admissibility_status r = RA_VERIFIED_AVAILABLE"
    using f unfolding filing_groups_def by blast+
  note run = topology_decide_verified [OF assms(2) n v, of assessment]
  show ?thesis
  proof (cases "length ?ids = 1")
    case True
    then show ?thesis using f run assms(1) by (auto simp: filing_groups_def topology_for_Inr grouped_as_def)
  next
    case False
    then obtain c where c: "assessment = Some c" "coa_status c = CA_VERIFIED" "coa_remedy_groups c = groups"
      using f by (auto simp: filing_groups_def)
    have m: "mset (consolidated_ids c) = mset ?ids" using f c by (simp add: filing_groups_def consolidated_ids_def)
    have nb: "route_blockers groups ?m = []"
      using f known_remedies [of groups ?ids ?m] unfolding filing_groups_def by (intro iffD2 [OF route_blockers_Nil]) blast+
    have same: "set (consolidated_ids c) = set ?ids" "length (consolidated_ids c) = length ?ids"
      using mset_eq_setD [OF m] mset_eq_length [OF m] by simp_all
    have "consolidation_init c = Inr c" using assms(3) c(1) by blast
    from grouped_topology [OF this c(2) same(1) assms(1), unfolded c(3)] show ?thesis
      unfolding run unfolding c(1,3) option.case
      by (simp only: same nb c(2) False if_False simp_thms)
  qed
qed

section \<open>Properties\<close>

text \<open>C25: A filing topology is safe exactly for the verified grouping. For a constructed strategy and assessment
  and remedies with distinct identifiers, the groups of remedies allowed to be filed together (one filing for one remedy, otherwise the groups of
  a VERIFIED assessment that partitions exactly the strategy's remedies; every remedy VERIFIED_AVAILABLE;
  one route per group) always get a decision that counts them and names their combined and separated
  remedies, and a SINGLE or MULTIPLE decision is returned for nothing else.\<close>

theorem topology_grouping_exact:
  assumes "strategy_option_init s0 = Inr s" and "distinct (map rem_remedy_id remedies)"
    and "\<forall>c. assessment = Some c \<longrightarrow> consolidation_init c = Inr c"
  shows "(\<forall>groups. filing_groups (by_id rem_remedy_id remedies) (sto_remedy_ids s) assessment groups \<longrightarrow>
      (\<exists>t. topology_decide s remedies assessment = Inr t \<and> grouped_as groups t)) \<and>
    (\<forall>t. topology_decide s remedies assessment = Inr t \<longrightarrow>
      ftd_status t \<in> {FT_SINGLE_FILING_SAFE, FT_MULTIPLE_FILINGS_REQUIRED} \<longrightarrow>
      (\<exists>groups. filing_groups (by_id rem_remedy_id remedies) (sto_remedy_ids s) assessment groups \<and> grouped_as groups t))"
  (is "?A \<and> ?B")
proof
  let ?m = "by_id rem_remedy_id remedies" and ?ids = "sto_remedy_ids s"
  have lines: "line_tuple ?ids" using strategy_option_lines [OF assms(1)] by (simp add: option_lines_def)
  have groups: "distinct (consolidated_ids c)" if "assessment = Some c" for c
    using assms(3) that by (simp add: consolidation_init_Inr)
  show ?A using topology_decide_grouped [OF lines assms(2,3)] by blast
  show ?B
  proof (intro allI impI)
    fix t assume t: "topology_decide s remedies assessment = Inr t"
        "ftd_status t \<in> {FT_SINGLE_FILING_SAFE, FT_MULTIPLE_FILINGS_REQUIRED}"
    have u: "uncertain_topology rationale blockers \<noteq> Inr t" for rationale blockers
      using uncertain_topology_status t(2) by fastforce
    note v = topology_decide_unverified [OF t]
    note run = t(1) [unfolded topology_decide_verified [OF assms(2) v [THEN conjunct2, THEN conjunct1]
        v [THEN conjunct2, THEN conjunct2]]]
    show "\<exists>groups. filing_groups ?m ?ids assessment groups \<and> grouped_as groups t"
    proof (cases "length ?ids = 1")
      case True
      then have "filing_groups ?m ?ids assessment [?ids]" using v by (auto simp: filing_groups_def length_Suc_conv)
      moreover have "grouped_as [?ids] t" using run True lines by (auto simp: topology_for_Inr grouped_as_def)
      ultimately show ?thesis by blast
    next
      case False
      obtain c where c: "assessment = Some c" using run False u by (cases assessment) auto
      have e: "\<not> (set (consolidated_ids c) \<noteq> set ?ids \<or> length (consolidated_ids c) \<noteq> length ?ids)"
          "coa_status c = CA_VERIFIED" "route_blockers (coa_remedy_groups c) ?m = []"
        using run False c u by (auto split: if_splits)
      have same: "set (consolidated_ids c) = set ?ids" using e(1) by blast
      have "distinct ?ids" using lines by (simp add: line_tuple_def)
      from iffD1 [OF same_remedies [OF groups [OF c] this] e(1)] have m: "mset (concat (coa_remedy_groups c)) = mset ?ids"
        unfolding consolidated_ids_def .
      have "filing_groups ?m ?ids assessment (coa_remedy_groups c)"
        unfolding filing_groups_def
      proof (intro conjI)
        show "\<forall>g \<in> set (coa_remedy_groups c). \<forall>i \<in> set g. \<forall>j \<in> set g. map_option route_of (?m i) = map_option route_of (?m j)"
          using iffD1 [OF route_blockers_Nil [OF known_remedies [OF m v [THEN conjunct2, THEN conjunct2]]] e(3)] .
        show "if length ?ids = 1 then coa_remedy_groups c = [?ids]
          else \<exists>c'. assessment = Some c' \<and> coa_status c' = CA_VERIFIED \<and> coa_remedy_groups c' = coa_remedy_groups c"
          using False c e(2) by simp
      qed (use v m in blast)+
      moreover have "consolidation_init c = Inr c" using assms(3) c by blast
      note g = grouped_topology [OF this e(2) same lines]
      have "grouped_as (coa_remedy_groups c) t" using g e False run unfolding c option.case by simp
      ultimately show ?thesis by blast
    qed
  qed
qed

text \<open>C10: A strategy is recommended exactly when it is the only safe one. For constructed options with unique
  identities and well-formed references the guard always answers: it selects a strategy if and only if
  exactly one option is verified, deadline-safe, resolved, with all its remedies VERIFIED_AVAILABLE and its
  evidence available, and decisive evidence and rules are named; with two or more safe options it asks for a
  decision and never ranks them; and the rejected strategies are exactly the others.\<close>

theorem strategy_recommended_exact:
  assumes "\<forall>s \<in> set opts. strategy_option_init s = Inr s" and "opts \<noteq> []" and "distinct (map sto_strategy_id opts)"
    and "distinct (map rem_remedy_id remedies)" and "line_tuple available" and "line_tuple ev" and "line_tuple drl"
    and "set ev \<subseteq> set available"
  defines "safe \<equiv> filter (safe_option (by_id rem_remedy_id remedies) available) opts"
  shows "\<exists>d. strategy_decide opts remedies available ev drl = Inr d \<and>
    (\<forall>i. sdc_selected_strategy_id d = Some i \<longleftrightarrow>
       ev \<noteq> [] \<and> drl \<noteq> [] \<and> (\<exists>s. safe = [s] \<and> sto_strategy_id s = i)) \<and>
    (sdc_decision_status d = SD_RECOMMENDED \<longleftrightarrow> sdc_selected_strategy_id d \<noteq> None) \<and>
    (sdc_decision_status d = SD_DECISION_REQUIRED \<longleftrightarrow> 2 \<le> length safe) \<and>
    sdc_rejected_strategy_ids d =
      map sto_strategy_id (filter (\<lambda>s. \<not> safe_option (by_id rem_remedy_id remedies) available s) opts)"
proof -
  have "\<forall>s \<in> set opts. option_lines s" using assms(1) strategy_option_lines by blast
  from strategy_decide_total [OF this assms(2-8)] obtain d where d: "strategy_decide opts remedies available ev drl = Inr d"
      "decides (safe_option (by_id rem_remedy_id remedies) available) opts (ev \<noteq> [] \<and> drl \<noteq> []) d" by blast
  consider "safe = []" | s where "safe = [s]" | s s' ss where "safe = s # s' # ss" by (metis neq_Nil_conv)
  then show ?thesis using d unfolding decides_def safe_def [symmetric]
    by cases (auto split: if_splits)
qed

section \<open>Sample inputs and witnesses\<close>

definition sample_option :: strategy_option where
  "sample_option = \<lparr>sto_strategy_id = ''s'', sto_objective = ''o'', sto_remedy_ids = [''a'', ''b''],
     sto_proposed_actions = [], sto_required_evidence = [''e''], sto_deadline_safety = DSF_SAFE,
     sto_admissibility = VL_VERIFIED, sto_merits_strength = MS_STRONG, sto_preserves_options = [],
     sto_closes_options = [], sto_risks = [], sto_advantages = [], sto_disadvantages = [], sto_unresolved = [],
     sto_schema = STRATEGY_OPTION_SCHEMA_V1\<rparr>"

definition sample_remedy :: "string \<Rightarrow> remedy_option" where
  "sample_remedy i = \<lparr>rem_remedy_id = i, rem_remedy_type = ''appeal'', rem_target_authority = ''act'',
     rem_filing_authority = ''act'', rem_filing_via = None, rem_applicable_rule_ids = [''r''], rem_deadline_id = None,
     rem_formal_requirements = [], rem_required_evidence = [], rem_preserves_options = [], rem_waives_options = [],
     rem_admissibility_status = RA_VERIFIED_AVAILABLE, rem_blockers = [], rem_schema = REMEDY_OPTION_SCHEMA_V1\<rparr>"

definition sample_consolidation :: "string list list \<Rightarrow> consolidation" where
  "sample_consolidation groups = \<lparr>coa_assessment_id = ''c'', coa_remedy_groups = groups, coa_status = CA_VERIFIED,
     coa_evidence_refs = [''e''], coa_rule_refs = [''r''], coa_rationale = ''o'', coa_blockers = []\<rparr>"

lemma short_lines [simp]: "is_line ''a''" "is_line ''b''" "is_line ''c''" "is_line ''d''" "is_line ''e''" "is_line ''o''"
    "is_line ''r''" "is_line ''s''"
  by (simp_all add: line_literal)

lemma sample_option_init: "strategy_option_init sample_option = Inr sample_option"
  by (simp add: strategy_option_init_def sample_option_def line_tuple_def)

lemma strategy_recommended_exact_witness:
  "\<exists>d. strategy_decide [sample_option] [sample_remedy ''a'', sample_remedy ''b''] [''e''] [''e''] [''r''] = Inr d \<and>
     sdc_selected_strategy_id d = Some ''s''"
proof -
  have safe: "safe_option (by_id rem_remedy_id [sample_remedy ''a'', sample_remedy ''b'']) [''e''] sample_option"
    by (simp add: safe_option_def sample_option_def by_id_def sample_remedy_def)
  have "distinct (map rem_remedy_id [sample_remedy ''a'', sample_remedy ''b''])" by (simp add: sample_remedy_def)
  from strategy_recommended_exact [of "[sample_option]", OF _ _ _ this, of "[''e'']" "[''e'']" "[''r'']"]
  show ?thesis using safe sample_option_init by (fastforce simp: line_tuple_def sample_option_def)
qed

lemma topology_grouping_exact_witness:
  "\<exists>t. topology_decide sample_option [sample_remedy ''a'', sample_remedy ''b'']
      (Some (sample_consolidation [[''a''], [''b'']])) = Inr t \<and> grouped_as [[''a''], [''b'']] t"
proof -
  let ?c = "sample_consolidation [[''a''], [''b'']]"
  have c: "\<forall>c. Some ?c = Some c \<longrightarrow> consolidation_init c = Inr c"
    by (simp add: consolidation_init_Inr sample_consolidation_def consolidated_ids_def line_tuple_def)
  have d: "distinct (map rem_remedy_id [sample_remedy ''a'', sample_remedy ''b''])" by (simp add: sample_remedy_def)
  have "filing_groups (by_id rem_remedy_id [sample_remedy ''a'', sample_remedy ''b'']) (sto_remedy_ids sample_option)
      (Some ?c) [[''a''], [''b'']]"
    by (simp add: filing_groups_def sample_option_def by_id_def sample_remedy_def sample_consolidation_def)
  with topology_grouping_exact [OF sample_option_init d c] show ?thesis by blast
qed

end
