(* ===== verification/CIRP_Filing.thy ===== *)
theory CIRP_Filing
  imports CIRP_Strategy
begin

text \<open>
  \<^verbatim>\<open>core/cirp/filing.py\<close>: the planner that turns a recommended strategy and a filing topology into filing
  plans, one per caller-supplied specification.
\<close>

section \<open>Specifications\<close>

text \<open>This module's own field checks do not look for control characters; the plan's constructor does.\<close>

definition filing_nonblank :: "string \<Rightarrow> string \<Rightarrow> string result" where
  "filing_nonblank v field_name =
     (if v = [] \<or> v \<noteq> strip v then raise_cirp (field_name @ '' must be nonblank and already canonical'') else return v)"

definition filing_unique :: "string list \<Rightarrow> string \<Rightarrow> string list result" where
  "filing_unique vs field_name =
     and_then (map_result (\<lambda>v. filing_nonblank v field_name) vs) (\<lambda>normalized.
     if \<not> distinct normalized then raise_cirp (field_name @ '' cannot contain duplicates'') else return normalized)"

record filing_spec =
  fsp_filing_id :: string
  fsp_filing_type :: string
  fsp_remedy_ids :: "string list"
  fsp_requests :: "string list"
  fsp_allegations_or_grounds :: "string list"
  fsp_evidence_refs :: "string list"
  fsp_rule_refs :: "string list"
  fsp_attachment_requirements :: "string list"
  fsp_signature_requirements :: "string list"
  fsp_copy_requirements :: "string list"
  fsp_delivery_method :: string

definition filing_spec_init :: "filing_spec \<Rightarrow> filing_spec result" where
  "filing_spec_init s =
     and_then (map_result (\<lambda>(n, v). filing_nonblank v n) [(''filing_id'', fsp_filing_id s),
         (''filing_type'', fsp_filing_type s), (''delivery_method'', fsp_delivery_method s)]) (\<lambda>_.
     and_then (map_result (\<lambda>(n, v). filing_unique v n) [(''remedy_ids'', fsp_remedy_ids s), (''requests'', fsp_requests s),
         (''allegations_or_grounds'', fsp_allegations_or_grounds s), (''evidence_refs'', fsp_evidence_refs s),
         (''rule_refs'', fsp_rule_refs s), (''attachment_requirements'', fsp_attachment_requirements s),
         (''signature_requirements'', fsp_signature_requirements s), (''copy_requirements'', fsp_copy_requirements s)]) (\<lambda>_.
     if fsp_remedy_ids s = [] then raise_cirp ''filing spec requires remedy_ids''
     else if fsp_requests s = [] then raise_cirp ''filing spec requires at least one request''
     else if fsp_allegations_or_grounds s = [] then raise_cirp ''filing spec requires allegations_or_grounds''
     else return s))"

section \<open>The planner\<close>

definition selected_strategy :: "strategy_decision \<Rightarrow> strategy_option list \<Rightarrow> strategy_option result" where
  "selected_strategy d strategies =
     (if sdc_decision_status d \<noteq> SD_RECOMMENDED then raise_cirp ''filing planning requires a RECOMMENDED strategy''
      else and_then (index_unique sto_strategy_id ''duplicate strategy_id: '' strategies Map.empty) (\<lambda>strategy_map.
      case Option.bind (sdc_selected_strategy_id d) strategy_map of
        None \<Rightarrow> raise_cirp ''selected strategy is not present in supplied strategies''
      | Some s \<Rightarrow> return s))"

definition verified_remedy :: "(string \<rightharpoonup> remedy_option) \<Rightarrow> string \<Rightarrow> remedy_option result" where
  "verified_remedy remedies i =
     (case remedies i of
        None \<Rightarrow> raise_cirp (''missing remedy assessment: '' @ i)
      | Some r \<Rightarrow> if rem_admissibility_status r \<noteq> RA_VERIFIED_AVAILABLE
          then raise_cirp (''remedy is not VERIFIED_AVAILABLE: '' @ i) else return r)"

definition validate_partition :: "strategy_option \<Rightarrow> topology_decision \<Rightarrow> filing_spec list \<Rightarrow> unit result" where
  "validate_partition strategy topology specs =
     (let flattened = concat (map fsp_remedy_ids specs);
          combined = concat (map fsp_remedy_ids (filter (\<lambda>s. length (fsp_remedy_ids s) > 1) specs));
          separated = map (\<lambda>s. hd (fsp_remedy_ids s)) (filter (\<lambda>s. length (fsp_remedy_ids s) = 1) specs) in
      if int (length specs) \<noteq> ftd_filing_count topology
      then raise_cirp ''filing spec count does not match topology filing_count''
      else if \<not> distinct (map fsp_filing_id specs)
      then raise_cirp ''filing specs cannot contain duplicate filing_id values''
      else if \<not> distinct flattened then raise_cirp ''a remedy cannot occur in more than one filing spec''
      else if set flattened \<noteq> set (sto_remedy_ids strategy) \<or> length flattened \<noteq> length (sto_remedy_ids strategy)
      then raise_cirp ''filing specs must exactly partition selected strategy remedies''
      else if ftd_status topology = FT_SINGLE_FILING_SAFE \<and>
        (length specs \<noteq> 1 \<or> set (fsp_remedy_ids (hd specs)) \<noteq> set (sto_remedy_ids strategy))
      then raise_cirp ''SINGLE_FILING_SAFE requires one exact filing unit''
      else if ftd_status topology = FT_MULTIPLE_FILINGS_REQUIRED \<and> set combined \<noteq> set (ftd_combined_remedies topology)
      then raise_cirp ''filing specs do not match topology combined_remedies''
      else if ftd_status topology = FT_MULTIPLE_FILINGS_REQUIRED \<and> set separated \<noteq> set (ftd_separated_remedies topology)
      then raise_cirp ''filing specs do not match topology separated_remedies''
      else return ())"

definition validate_route :: "remedy_option list \<Rightarrow> unit result" where
  "validate_route remedies =
     (if length (remdups (map route_of remedies)) \<noteq> 1
      then raise_cirp ''filing unit contains incompatible remedy routes'' else return ())"

fun validate_deadlines :: "(string \<rightharpoonup> deadline_assessment) \<Rightarrow> remedy_option list \<Rightarrow> unit result" where
  "validate_deadlines deadlines [] = return ()"
| "validate_deadlines deadlines (r # rs) =
     (case rem_deadline_id r of
        None \<Rightarrow> validate_deadlines deadlines rs
      | Some i \<Rightarrow> (case deadlines i of
          None \<Rightarrow> raise_cirp (''missing deadline assessment: '' @ i)
        | Some a \<Rightarrow> if das_status a \<noteq> DL_VERIFIED
            then raise_cirp (''filing planning requires VERIFIED deadline: '' @ i)
            else validate_deadlines deadlines rs))"

definition validate_basis ::
  "filing_spec \<Rightarrow> remedy_option list \<Rightarrow> (string \<rightharpoonup> deadline_assessment) \<Rightarrow> string list \<Rightarrow> unit result" where
  "validate_basis spec remedies deadlines available =
     (if \<not> set (concat (map rem_applicable_rule_ids remedies)) \<subseteq> set (fsp_rule_refs spec)
      then raise_cirp ''filing spec is missing remedy rule references''
      else if \<not> set (concat (map rem_required_evidence remedies)) \<subseteq> set (fsp_evidence_refs spec)
      then raise_cirp ''filing spec is missing remedy evidence references''
      else if \<not> set (fsp_evidence_refs spec) \<subseteq> set available
      then raise_cirp ''filing spec references unavailable evidence''
      else validate_deadlines deadlines remedies)"

text \<open>\<^verbatim>\<open>tuple(dict.fromkeys(r.deadline_id for r in remedies if r.deadline_id is not None))\<close>.\<close>

definition deadline_ids :: "remedy_option list \<Rightarrow> string list" where
  "deadline_ids remedies = first_occurrences (List.map_filter rem_deadline_id remedies)"

definition plan_of :: "strategy_option \<Rightarrow> topology_status \<Rightarrow> filing_spec \<Rightarrow> remedy_option list \<Rightarrow> filing_plan" where
  "plan_of strategy status spec remedies =
     \<lparr>fpl_filing_id = fsp_filing_id spec, fpl_filing_type = fsp_filing_type spec,
      fpl_target_authority = rem_target_authority (hd remedies), fpl_filing_authority = rem_filing_authority (hd remedies),
      fpl_filing_via = rem_filing_via (hd remedies), fpl_objective = sto_objective strategy,
      fpl_requests = fsp_requests spec, fpl_allegations_or_grounds = fsp_allegations_or_grounds spec,
      fpl_remedy_ids = fsp_remedy_ids spec, fpl_rule_refs = fsp_rule_refs spec, fpl_evidence_refs = fsp_evidence_refs spec,
      fpl_attachment_requirements = fsp_attachment_requirements spec,
      fpl_signature_requirements = fsp_signature_requirements spec, fpl_copy_requirements = fsp_copy_requirements spec,
      fpl_deadline_id = (if length (deadline_ids remedies) = 1 then Some (hd (deadline_ids remedies)) else None),
      fpl_delivery_method = fsp_delivery_method spec, fpl_topology_status = status, fpl_schema = FILING_PLAN_SCHEMA_V1\<rparr>"

definition plan_unit ::
  "strategy_option \<Rightarrow> topology_status \<Rightarrow> (string \<rightharpoonup> remedy_option) \<Rightarrow> (string \<rightharpoonup> deadline_assessment) \<Rightarrow> string list \<Rightarrow>
   filing_spec \<Rightarrow> filing_plan result" where
  "plan_unit strategy status remedies deadlines available spec =
     and_then (map_result (verified_remedy remedies) (fsp_remedy_ids spec)) (\<lambda>selected.
     and_then (validate_route selected) (\<lambda>_.
     and_then (validate_basis spec selected deadlines available) (\<lambda>_.
     if length (deadline_ids selected) > 1
     then raise_cirp ''one filing unit cannot contain remedies with different deadline identities''
     else filing_plan_init (plan_of strategy status spec selected))))"

definition filing_plans ::
  "strategy_decision \<Rightarrow> strategy_option list \<Rightarrow> topology_decision \<Rightarrow> remedy_option list \<Rightarrow> deadline_assessment list \<Rightarrow>
   string list \<Rightarrow> filing_spec list \<Rightarrow> filing_plan list result" where
  "filing_plans decision strategies topology remedies deadlines available_ids specs =
     and_then (selected_strategy decision strategies) (\<lambda>selected.
     if ftd_status topology \<in> {FT_CONSOLIDATION_UNCERTAIN, FT_NO_FILING_REQUIRED}
     then raise_cirp (''cannot build filing plans from topology '' @ topology_status_value (ftd_status topology))
     else
     and_then (validate_partition selected topology specs) (\<lambda>_.
     and_then (index_unique rem_remedy_id ''duplicate remedy_id: '' remedies Map.empty) (\<lambda>remedy_map.
     and_then (index_unique das_deadline_id ''duplicate deadline_id: '' deadlines Map.empty) (\<lambda>deadline_map.
     and_then (filing_unique available_ids ''available_evidence_ids'') (\<lambda>available.
     map_result (plan_unit selected (ftd_status topology) remedy_map deadline_map available) specs)))))"

section \<open>What the planner accepts\<close>

lemma filing_unique_Inr: "filing_unique vs n = Inr ws \<longleftrightarrow> ws = vs \<and> distinct vs \<and> (\<forall>v \<in> set vs. is_text v)"
proof -
  have "filing_nonblank v n = Inr s \<longleftrightarrow> s = v \<and> is_text v" for v s
    by (auto simp: filing_nonblank_def is_text_def strip_id) (metis strip_stripped)
  then show ?thesis using map_result_same [of "\<lambda>v. filing_nonblank v n" "\<lambda>v. v" is_text vs]
    by (auto simp: filing_unique_def)
qed

lemma selected_strategy_Inr:
  "selected_strategy d strategies = Inr s \<longleftrightarrow> sdc_decision_status d = SD_RECOMMENDED \<and>
     distinct (map sto_strategy_id strategies) \<and> s \<in> set strategies \<and> sdc_selected_strategy_id d = Some (sto_strategy_id s)"
  by (cases "sdc_selected_strategy_id d")
    (auto simp: selected_strategy_def by_id_iff by_id_None distinct_map split: option.splits dest: by_id_Some inj_onD)

lemma verified_remedy_Inr:
  "verified_remedy m i = Inr r \<longleftrightarrow> m i = Some r \<and> rem_admissibility_status r = RA_VERIFIED_AVAILABLE"
  by (auto simp: verified_remedy_def split: option.splits)

definition partitioned :: "strategy_option \<Rightarrow> topology_decision \<Rightarrow> filing_spec list \<Rightarrow> bool" where
  "partitioned s t specs =
     (int (length specs) = ftd_filing_count t \<and> distinct (map fsp_filing_id specs) \<and>
      distinct (concat (map fsp_remedy_ids specs)) \<and>
      mset (concat (map fsp_remedy_ids specs)) = mset (sto_remedy_ids s) \<and>
      (ftd_status t = FT_SINGLE_FILING_SAFE \<longrightarrow> length specs = 1) \<and>
      (ftd_status t = FT_MULTIPLE_FILINGS_REQUIRED \<longrightarrow>
         set (concat (filter (\<lambda>ids. length ids > 1) (map fsp_remedy_ids specs))) = set (ftd_combined_remedies t) \<and>
         set (map hd (filter (\<lambda>ids. length ids = 1) (map fsp_remedy_ids specs))) = set (ftd_separated_remedies t)))"

lemma same_elements:
  assumes "distinct xs"
  shows "set xs = set ys \<and> length xs = length ys \<longleftrightarrow> mset xs = mset ys"
  using assms by (metis card_distinct distinct_card mset_eq_length mset_eq_setD set_eq_iff_mset_eq_distinct)

lemma validate_partition_Inr: "validate_partition s t specs = Inr u \<longleftrightarrow> partitioned s t specs"
proof (cases "distinct (concat (map fsp_remedy_ids specs)) \<and>
    mset (concat (map fsp_remedy_ids specs)) = mset (sto_remedy_ids s)")
  case True
  then have e: "set (concat (map fsp_remedy_ids specs)) = set (sto_remedy_ids s)"
      "length (concat (map fsp_remedy_ids specs)) = length (sto_remedy_ids s)"
    using same_elements by metis+
  have single: "set (fsp_remedy_ids (hd specs)) = set (sto_remedy_ids s)" if "length specs = 1"
    using e(1) that by (auto simp: length_Suc_conv)
  show ?thesis using True e single
    by (simp add: validate_partition_def Let_def partitioned_def filter_map comp_def split: if_splits)
next
  case False
  then have "\<not> (distinct (concat (map fsp_remedy_ids specs)) \<and> set (concat (map fsp_remedy_ids specs)) = set (sto_remedy_ids s) \<and>
      length (concat (map fsp_remedy_ids specs)) = length (sto_remedy_ids s))"
    using same_elements by metis
  then show ?thesis using False unfolding validate_partition_def Let_def partitioned_def by (auto split: if_splits)
qed

definition one_route :: "remedy_option list \<Rightarrow> bool" where
  "one_route rs = (rs \<noteq> [] \<and> (\<forall>r \<in> set rs. route_of r = route_of (hd rs)))"

lemma validate_route_Inr: "validate_route rs = Inr u \<longleftrightarrow> one_route rs"
proof -
  have "length (remdups (map route_of rs)) = 1 \<longleftrightarrow> (\<exists>x. route_of ` set rs = {x})"
    by (simp add: length_remdups_card_conv card_1_singleton_iff)
  also have "\<dots> \<longleftrightarrow> one_route rs"
    unfolding one_route_def by (cases rs) auto
  finally show ?thesis by (simp add: validate_route_def)
qed

definition deadline_verified :: "(string \<rightharpoonup> deadline_assessment) \<Rightarrow> string \<Rightarrow> bool" where
  "deadline_verified deadlines i = (\<exists>a. deadlines i = Some a \<and> das_status a = DL_VERIFIED)"

lemma validate_deadlines_Inr:
  "validate_deadlines deadlines rs = Inr u \<longleftrightarrow>
     (\<forall>r \<in> set rs. \<forall>i. rem_deadline_id r = Some i \<longrightarrow> deadline_verified deadlines i)"
  by (induction rs) (auto simp: deadline_verified_def split: option.splits)

lemma concat_map_subset: "set (concat (map f rs)) \<subseteq> S \<longleftrightarrow> (\<forall>r \<in> set rs. set (f r) \<subseteq> S)"
  by auto

lemma validate_basis_Inr:
  "validate_basis spec rs deadlines available = Inr u \<longleftrightarrow>
     (\<forall>r \<in> set rs. set (rem_applicable_rule_ids r) \<subseteq> set (fsp_rule_refs spec) \<and>
        set (rem_required_evidence r) \<subseteq> set (fsp_evidence_refs spec) \<and>
        (\<forall>i. rem_deadline_id r = Some i \<longrightarrow> deadline_verified deadlines i)) \<and>
     set (fsp_evidence_refs spec) \<subseteq> set available"
  unfolding validate_basis_def concat_map_subset by (auto simp: validate_deadlines_Inr split: if_splits)

text \<open>The basis of one filing: its remedies, verified and of one route, covered by the specification.\<close>

definition unit_basis ::
  "(string \<rightharpoonup> remedy_option) \<Rightarrow> (string \<rightharpoonup> deadline_assessment) \<Rightarrow> string list \<Rightarrow> filing_spec \<Rightarrow> remedy_option list \<Rightarrow> bool" where
  "unit_basis remedies deadlines available spec rs =
     (map remedies (fsp_remedy_ids spec) = map Some rs \<and> one_route rs \<and>
      (\<forall>r \<in> set rs. rem_admissibility_status r = RA_VERIFIED_AVAILABLE \<and>
         set (rem_applicable_rule_ids r) \<subseteq> set (fsp_rule_refs spec) \<and>
         set (rem_required_evidence r) \<subseteq> set (fsp_evidence_refs spec) \<and>
         (\<forall>i. rem_deadline_id r = Some i \<longrightarrow> deadline_verified deadlines i)) \<and>
      set (fsp_evidence_refs spec) \<subseteq> set available \<and> length (deadline_ids rs) \<le> 1)"

lemma verified_remedies_Inr:
  "map_result (verified_remedy m) ids = Inr rs \<longleftrightarrow>
     map m ids = map Some rs \<and> (\<forall>r \<in> set rs. rem_admissibility_status r = RA_VERIFIED_AVAILABLE)"
proof (induction ids arbitrary: rs)
  case (Cons i ids)
  show ?case by (cases rs) (auto simp: Cons.IH verified_remedy_Inr)
qed auto

lemma raise_if: "(if c then Inl e else m) = Inr x \<longleftrightarrow> \<not> c \<and> m = Inr x"
  by simp

lemma plan_unit_Inr:
  "plan_unit strategy status remedies deadlines available spec = Inr p \<longleftrightarrow>
     (\<exists>rs. unit_basis remedies deadlines available spec rs \<and> p = plan_of strategy status spec rs \<and> filing_plan_init p = Inr p)"
proof -
  have "plan_unit strategy status remedies deadlines available spec = Inr p \<longleftrightarrow>
     (\<exists>rs. map_result (verified_remedy remedies) (fsp_remedy_ids spec) = Inr rs \<and> validate_route rs = Inr () \<and>
        validate_basis spec rs deadlines available = Inr () \<and> length (deadline_ids rs) \<le> 1 \<and>
        filing_plan_init (plan_of strategy status spec rs) = Inr p)"
    by (auto simp: plan_unit_def raise_if not_less)
  also have "\<dots> \<longleftrightarrow> (\<exists>rs. unit_basis remedies deadlines available spec rs \<and>
      filing_plan_init (plan_of strategy status spec rs) = Inr p)"
    unfolding verified_remedies_Inr validate_route_Inr validate_basis_Inr unit_basis_def by blast
  finally show ?thesis using inits_same(6) by metis
qed

lemma filing_plans_Inr:
  "filing_plans decision strategies topology remedies deadlines available specs = Inr plans \<longleftrightarrow>
     (\<exists>s. selected_strategy decision strategies = Inr s \<and>
        ftd_status topology \<in> {FT_SINGLE_FILING_SAFE, FT_MULTIPLE_FILINGS_REQUIRED} \<and> partitioned s topology specs \<and>
        distinct (map rem_remedy_id remedies) \<and> distinct (map das_deadline_id deadlines) \<and>
        distinct available \<and> (\<forall>e \<in> set available. is_text e) \<and>
        map_result (plan_unit s (ftd_status topology) (by_id rem_remedy_id remedies) (by_id das_deadline_id deadlines)
          available) specs = Inr plans)"
  by (cases "ftd_status topology")
    (simp_all add: filing_plans_def validate_partition_Inr filing_unique_Inr)

section \<open>What a plan covers\<close>

definition plan_route :: "filing_plan \<Rightarrow> string \<times> string \<times> string option" where
  "plan_route p = (fpl_target_authority p, fpl_filing_authority p, fpl_filing_via p)"

definition plan_covered ::
  "(string \<rightharpoonup> remedy_option) \<Rightarrow> (string \<rightharpoonup> deadline_assessment) \<Rightarrow> string list \<Rightarrow> filing_plan \<Rightarrow> bool" where
  "plan_covered remedies deadlines available p =
     (fpl_remedy_ids p \<noteq> [] \<and> set (fpl_evidence_refs p) \<subseteq> set available \<and>
      (\<forall>i \<in> set (fpl_remedy_ids p). \<exists>r. remedies i = Some r \<and> rem_admissibility_status r = RA_VERIFIED_AVAILABLE \<and>
         route_of r = plan_route p \<and> set (rem_applicable_rule_ids r) \<subseteq> set (fpl_rule_refs p) \<and>
         set (rem_required_evidence r) \<subseteq> set (fpl_evidence_refs p) \<and>
         (\<forall>d. rem_deadline_id r = Some d \<longrightarrow> fpl_deadline_id p = Some d \<and> deadline_verified deadlines d)) \<and>
      (\<forall>d. fpl_deadline_id p = Some d \<longrightarrow>
         (\<exists>i \<in> set (fpl_remedy_ids p). \<exists>r. remedies i = Some r \<and> rem_deadline_id r = Some d)))"

lemma deadline_ids_set: "set (deadline_ids rs) = {i. \<exists>r \<in> set rs. rem_deadline_id r = Some i}"
  unfolding deadline_ids_def first_occurrences_set by (induction rs) (auto simp: List.map_filter_simps split: option.splits)

lemma plan_deadline:
  assumes "length (deadline_ids rs) \<le> 1"
  shows "(if length (deadline_ids rs) = 1 then Some (hd (deadline_ids rs)) else None) = Some i \<longleftrightarrow>
    (\<exists>r \<in> set rs. rem_deadline_id r = Some i)"
proof -
  have "(if length (deadline_ids rs) = 1 then Some (hd (deadline_ids rs)) else None) = Some i \<longleftrightarrow> i \<in> set (deadline_ids rs)"
    using assms by (cases "deadline_ids rs") auto
  then show ?thesis by (simp add: deadline_ids_set)
qed

lemma unit_basis_covered:
  assumes "unit_basis remedies deadlines available spec rs"
  shows "plan_covered remedies deadlines available (plan_of strategy status spec rs)"
proof -
  let ?p = "plan_of strategy status spec rs"
  have b: "map remedies (fsp_remedy_ids spec) = map Some rs" "one_route rs" "length (deadline_ids rs) \<le> 1"
      "set (fsp_evidence_refs spec) \<subseteq> set available"
    using assms by (simp_all add: unit_basis_def)
  have member: "\<exists>r \<in> set rs. remedies i = Some r" if "i \<in> set (fsp_remedy_ids spec)" for i
    using that arg_cong [OF b(1), of set] by auto
  have source: "\<exists>i \<in> set (fsp_remedy_ids spec). remedies i = Some r" if "r \<in> set rs" for r
    using that arg_cong [OF b(1), of set] by (metis (no_types, lifting) imageE imageI list.set_map)
  have d: "fpl_deadline_id ?p = Some i \<longleftrightarrow> (\<exists>r \<in> set rs. rem_deadline_id r = Some i)" for i
    using plan_deadline [OF b(3)] by (simp add: plan_of_def)
  have route: "plan_route ?p = route_of (hd rs)" by (simp add: plan_route_def plan_of_def route_of_def)
  have "fsp_remedy_ids spec \<noteq> []" using b(1,2) by (auto simp: one_route_def)
  moreover have "\<exists>r. remedies i = Some r \<and> rem_admissibility_status r = RA_VERIFIED_AVAILABLE \<and>
      route_of r = plan_route ?p \<and> set (rem_applicable_rule_ids r) \<subseteq> set (fsp_rule_refs spec) \<and>
      set (rem_required_evidence r) \<subseteq> set (fsp_evidence_refs spec) \<and>
      (\<forall>d. rem_deadline_id r = Some d \<longrightarrow> fpl_deadline_id ?p = Some d \<and> deadline_verified deadlines d)"
    if i: "i \<in> set (fsp_remedy_ids spec)" for i
  proof -
    obtain r where r: "r \<in> set rs" "remedies i = Some r" using member [OF i] by blast
    then show ?thesis using assms d b(2) unfolding unit_basis_def route one_route_def by blast
  qed
  moreover have "\<exists>i \<in> set (fsp_remedy_ids spec). \<exists>r. remedies i = Some r \<and> rem_deadline_id r = Some d"
    if "fpl_deadline_id ?p = Some d" for d
    using that d source by blast
  moreover have "fpl_remedy_ids ?p = fsp_remedy_ids spec" "fpl_evidence_refs ?p = fsp_evidence_refs spec"
      "fpl_rule_refs ?p = fsp_rule_refs spec"
    by (simp_all add: plan_of_def)
  ultimately show ?thesis using b(4) unfolding plan_covered_def by (simp only: simp_thms) blast
qed

lemma plans_of_specs:
  assumes "map_result (plan_unit s status remedies deadlines available) specs = Inr plans"
  shows "map fpl_remedy_ids plans = map fsp_remedy_ids specs \<and> map fpl_filing_id plans = map fsp_filing_id specs \<and>
    (\<forall>p \<in> set plans. plan_covered remedies deadlines available p \<and> filing_plan_init p = Inr p \<and> fpl_topology_status p = status)"
  using assms unfolding map_result_Inr_iff
proof (induction rule: list_all2_induct)
  case (Cons spec specs p plans)
  then obtain rs where r: "unit_basis remedies deadlines available spec rs" "p = plan_of s status spec rs" "filing_plan_init p = Inr p"
    by (auto simp: plan_unit_Inr)
  then show ?case using Cons.IH unit_basis_covered [OF r(1), of s status] by (simp add: plan_of_def)
qed simp

section \<open>Properties\<close>

text \<open>C11: The filings cover exactly the recommended strategy. When the planner returns plans, the decision was
  RECOMMENDED, the plans' remedies are exactly those of its strategy, each in one plan, there are as many
  plans as the topology counts, and in every plan each remedy is VERIFIED_AVAILABLE and shares the plan's
  route, its rules and evidence are cited, the evidence is available, and the plan's deadline is exactly that
  of its remedies and VERIFIED.\<close>

theorem filings_cover_strategy:
  assumes "filing_plans decision strategies topology remedies deadlines available specs = Inr plans"
  shows "\<exists>s \<in> set strategies. sdc_decision_status decision = SD_RECOMMENDED \<and>
    sdc_selected_strategy_id decision = Some (sto_strategy_id s) \<and>
    mset (concat (map fpl_remedy_ids plans)) = mset (sto_remedy_ids s) \<and>
    distinct (concat (map fpl_remedy_ids plans)) \<and> distinct (map fpl_filing_id plans) \<and>
    int (length plans) = ftd_filing_count topology \<and>
    (\<forall>p \<in> set plans. plan_covered (by_id rem_remedy_id remedies) (by_id das_deadline_id deadlines) available p)"
proof -
  obtain s where s: "selected_strategy decision strategies = Inr s" "partitioned s topology specs"
      "map_result (plan_unit s (ftd_status topology) (by_id rem_remedy_id remedies) (by_id das_deadline_id deadlines)
         available) specs = Inr plans"
    using assms by (auto simp: filing_plans_Inr)
  show ?thesis using s(1,2) plans_of_specs [OF s(3)] map_result_length [OF s(3)]
    unfolding selected_strategy_Inr partitioned_def by metis
qed

section \<open>Sample inputs and witnesses\<close>

definition quartet_option :: strategy_option where
  "quartet_option = sample_option\<lparr>sto_remedy_ids := [''a'', ''b'', ''c'', ''d'']\<rparr>"

definition quartet_remedies :: "remedy_option list" where
  "quartet_remedies = [sample_remedy ''a'', sample_remedy ''b'', sample_remedy ''c'', sample_remedy ''d'']"

definition quartet_decision :: strategy_decision where
  "quartet_decision = \<lparr>sdc_selected_strategy_id = Some ''s'', sdc_decision_status = SD_RECOMMENDED,
     sdc_rationale = ''o'', sdc_rejected_strategy_ids = [], sdc_rejection_reasons = [], sdc_decisive_evidence = [''e''],
     sdc_decisive_rules = [''r''], sdc_unresolved_risks = [], sdc_schema = STRATEGY_DECISION_SCHEMA_V1\<rparr>"

definition quartet_topology :: topology_decision where
  "quartet_topology = \<lparr>ftd_status = FT_MULTIPLE_FILINGS_REQUIRED, ftd_filing_count = 2,
     ftd_combined_remedies = [''a'', ''b'', ''c'', ''d''], ftd_separated_remedies = [], ftd_rationale = ''o'',
     ftd_blockers = [], ftd_schema = FILING_TOPOLOGY_SCHEMA_V1\<rparr>"

definition sample_spec :: "string \<Rightarrow> string list \<Rightarrow> filing_spec" where
  "sample_spec i ids = \<lparr>fsp_filing_id = i, fsp_filing_type = ''o'', fsp_remedy_ids = ids, fsp_requests = [''o''],
     fsp_allegations_or_grounds = [''o''], fsp_evidence_refs = [''e''], fsp_rule_refs = [''r''],
     fsp_attachment_requirements = [], fsp_signature_requirements = [], fsp_copy_requirements = [],
     fsp_delivery_method = ''o''\<rparr>"

lemma sample_unit:
  assumes "ids \<noteq> []" "distinct ids" "set ids \<subseteq> {''a'', ''b'', ''c'', ''d''}" "is_line i"
  shows "\<exists>p. plan_unit quartet_option FT_MULTIPLE_FILINGS_REQUIRED (by_id rem_remedy_id quartet_remedies) (by_id das_deadline_id []) [''e'']
      (sample_spec i ids) = Inr p"
proof -
  let ?rs = "map sample_remedy ids"
  have m: "by_id rem_remedy_id quartet_remedies x = Some (sample_remedy x)" if "x \<in> {''a'', ''b'', ''c'', ''d''}" for x
    using that by (auto simp: by_id_def quartet_remedies_def sample_remedy_def)
  have "one_route ?rs" using assms(1) by (simp add: one_route_def route_of_def sample_remedy_def hd_map)
  moreover have d: "deadline_ids ?rs = []" by (simp add: deadline_ids_def sample_remedy_def List.map_filter_def)
  moreover have "map (by_id rem_remedy_id quartet_remedies) ids = map Some ?rs" using assms(3) m by auto
  ultimately have "unit_basis (by_id rem_remedy_id quartet_remedies) (by_id das_deadline_id []) [''e''] (sample_spec i ids) ?rs"
    unfolding unit_basis_def by (simp add: sample_spec_def) (simp add: sample_remedy_def)
  moreover have "filing_plan_init (plan_of quartet_option FT_MULTIPLE_FILINGS_REQUIRED (sample_spec i ids) ?rs) =
      Inr (plan_of quartet_option FT_MULTIPLE_FILINGS_REQUIRED (sample_spec i ids) ?rs)"
  proof -
    have "line_tuple ids" using assms(2,3) by (auto simp: line_tuple_def)
    moreover have "is_line ''act''" by simp
    moreover have "rem_target_authority (hd ?rs) = ''act''" "rem_filing_authority (hd ?rs) = ''act''" "rem_filing_via (hd ?rs) = None"
      using assms(1) by (simp_all add: hd_map sample_remedy_def)
    ultimately show ?thesis using assms(1,4) d
      by (simp add: filing_plan_init_def plan_of_def sample_spec_def quartet_option_def sample_option_def line_tuple_Cons)
  qed
  ultimately show ?thesis unfolding plan_unit_Inr by blast
qed

lemma quartet_plans:
  assumes "specs = [sample_spec ''f'' [''a'', x], sample_spec ''g'' [y, ''d'']]" "x = ''b'' \<and> y = ''c'' \<or> x = ''c'' \<and> y = ''b''"
  shows "\<exists>plans. filing_plans quartet_decision [quartet_option] quartet_topology quartet_remedies [] [''e''] specs = Inr plans \<and>
    map fpl_remedy_ids plans = [[''a'', x], [y, ''d'']]"
proof -
  have "is_line ''f''" "is_line ''g''" by (simp_all add: line_literal)
  then obtain p q where
      "plan_unit quartet_option FT_MULTIPLE_FILINGS_REQUIRED (by_id rem_remedy_id quartet_remedies) (by_id das_deadline_id []) [''e'']
        (sample_spec ''f'' [''a'', x]) = Inr p"
      "plan_unit quartet_option FT_MULTIPLE_FILINGS_REQUIRED (by_id rem_remedy_id quartet_remedies) (by_id das_deadline_id []) [''e'']
        (sample_spec ''g'' [y, ''d'']) = Inr q"
    using assms(2) sample_unit [of "[''a'', x]" "''f''"] sample_unit [of "[y, ''d'']" "''g''"] by fastforce
  then have run: "map_result (plan_unit quartet_option FT_MULTIPLE_FILINGS_REQUIRED (by_id rem_remedy_id quartet_remedies)
      (by_id das_deadline_id []) [''e'']) specs = Inr [p, q]" by (simp add: assms(1))
  have "selected_strategy quartet_decision [quartet_option] = Inr quartet_option"
    by (simp add: selected_strategy_Inr quartet_decision_def quartet_option_def sample_option_def)
  moreover have "partitioned quartet_option quartet_topology specs"
    using assms by (auto simp: partitioned_def quartet_topology_def quartet_option_def sample_spec_def)
  moreover have "distinct (map rem_remedy_id quartet_remedies)" by (simp add: quartet_remedies_def sample_remedy_def)
  moreover have "is_text ''e''" by (simp add: line_literal)
  ultimately have "filing_plans quartet_decision [quartet_option] quartet_topology quartet_remedies [] [''e''] specs = Inr [p, q]"
    unfolding filing_plans_Inr using run by (auto simp: quartet_topology_def)
  moreover have "map fpl_remedy_ids [p, q] = map fsp_remedy_ids specs" using plans_of_specs [OF run] by blast
  ultimately show ?thesis by (simp add: assms(1) sample_spec_def)
qed

lemma filings_cover_strategy_witness:
  "\<exists>plans. filing_plans quartet_decision [quartet_option] quartet_topology quartet_remedies [] [''e'']
      [sample_spec ''f'' [''a'', ''b''], sample_spec ''g'' [''c'', ''d'']] = Inr plans \<and> distinct (map fpl_filing_id plans)"
proof -
  obtain plans where p: "filing_plans quartet_decision [quartet_option] quartet_topology quartet_remedies [] [''e'']
      [sample_spec ''f'' [''a'', ''b''], sample_spec ''g'' [''c'', ''d'']] = Inr plans"
    using quartet_plans by blast
  from filings_cover_strategy [OF this] show ?thesis using p by blast
qed

text \<open>C40: Filings need not follow the verified consolidation. The topology guard accepts four remedies of one
  route grouped as (a, b) and (c, d) by a verified assessment; the planner, which compares only the union of
  the combined remedies, then plans the filings (a, c) and (b, d) under this decision, although the
  assessment the decision was made from does not allow this grouping.\<close>

theorem regrouped_filings_accepted:
  "topology_decide quartet_option quartet_remedies
      (Some (sample_consolidation [[''a'', ''b''], [''c'', ''d'']])) = Inr quartet_topology \<and>
   \<not> filing_groups (by_id rem_remedy_id quartet_remedies) (sto_remedy_ids quartet_option)
      (Some (sample_consolidation [[''a'', ''b''], [''c'', ''d'']])) [[''a'', ''c''], [''b'', ''d'']] \<and>
   (\<exists>plans. filing_plans quartet_decision [quartet_option] quartet_topology quartet_remedies [] [''e'']
      [sample_spec ''f'' [''a'', ''c''], sample_spec ''g'' [''b'', ''d'']] = Inr plans \<and>
    map fpl_remedy_ids plans = [[''a'', ''c''], [''b'', ''d'']])"
proof (intro conjI)
  let ?m = "by_id rem_remedy_id quartet_remedies"
  have d: "distinct (map rem_remedy_id quartet_remedies)" by (simp add: quartet_remedies_def sample_remedy_def)
  have n: "sto_remedy_ids quartet_option = [''a'', ''b'', ''c'', ''d'']" by (simp add: quartet_option_def)
  have v: "\<forall>i \<in> set (sto_remedy_ids quartet_option). \<exists>r. ?m i = Some r \<and> rem_admissibility_status r = RA_VERIFIED_AVAILABLE"
    by (simp add: n by_id_def quartet_remedies_def sample_remedy_def)
  have "route_blockers [[''a'', ''b''], [''c'', ''d'']] ?m = []"
    by (simp add: route_blockers_def group_routes_def by_id_def quartet_remedies_def sample_remedy_def route_of_def
        List.map_filter_simps)
  moreover have "sto_remedy_ids quartet_option \<noteq> []" by (simp add: n)
  ultimately show "topology_decide quartet_option quartet_remedies
      (Some (sample_consolidation [[''a'', ''b''], [''c'', ''d'']])) = Inr quartet_topology"
    using topology_decide_verified [OF d _ v]
    by (simp add: sample_consolidation_def consolidated_ids_def n topology_for_Inr line_tuple_Cons quartet_topology_def insert_commute)
  show "\<not> filing_groups ?m (sto_remedy_ids quartet_option)
      (Some (sample_consolidation [[''a'', ''b''], [''c'', ''d'']])) [[''a'', ''c''], [''b'', ''d'']]"
    by (simp add: filing_groups_def n sample_consolidation_def)
  show "\<exists>plans. filing_plans quartet_decision [quartet_option] quartet_topology quartet_remedies [] [''e'']
      [sample_spec ''f'' [''a'', ''c''], sample_spec ''g'' [''b'', ''d'']] = Inr plans \<and>
    map fpl_remedy_ids plans = [[''a'', ''c''], [''b'', ''d'']]"
    by (rule quartet_plans) simp_all
qed

end
