(* ===== verification/CIRP_Preflight.thy ===== *)
theory CIRP_Preflight
  imports CIRP_Filing
begin

text \<open>
  \<^verbatim>\<open>core/cirp/preflight.py\<close>: the execution state of a filing and the preflight that decides whether a plan is
  ready to be filed.
\<close>

section \<open>The execution state\<close>

definition preflight_unique :: "string list \<Rightarrow> string \<Rightarrow> string list result" where
  "preflight_unique vs field_name =
     (if list_ex (\<lambda>v. v = [] \<or> v \<noteq> strip v) vs then raise_cirp (field_name @ '' must contain canonical nonblank values'')
      else if \<not> distinct vs then raise_cirp (field_name @ '' cannot contain duplicates'') else return vs)"

record execution_state =
  fes_filing_id :: string
  fes_provided_attachments :: "string list"
  fes_satisfied_formal_requirements :: "string list"
  fes_signature_ready :: bool
  fes_copies_ready :: bool
  fes_critical_unknowns :: "string list"

definition execution_state_init :: "execution_state \<Rightarrow> execution_state result" where
  "execution_state_init e =
     (if fes_filing_id e = [] \<or> fes_filing_id e \<noteq> strip (fes_filing_id e)
      then raise_cirp ''filing_id must be canonical and nonblank''
      else and_then (map_result (\<lambda>(n, v). preflight_unique v n)
          [(''provided_attachments'', fes_provided_attachments e),
           (''satisfied_formal_requirements'', fes_satisfied_formal_requirements e),
           (''critical_unknowns'', fes_critical_unknowns e)]) (\<lambda>_. return e))"

section \<open>The checks\<close>

definition preflight_check_of :: "string \<Rightarrow> preflight_status \<Rightarrow> string \<Rightarrow> string list \<Rightarrow> preflight_check result" where
  "preflight_check_of check_id status reason refs =
     preflight_check_init \<lparr>pfc_check_id = check_id, pfc_severity = PS_CRITICAL, pfc_status = status, pfc_reason = reason,
       pfc_evidence_refs = refs, pfc_schema = PREFLIGHT_CHECK_SCHEMA_V1\<rparr>"

definition identity_check :: "filing_plan \<Rightarrow> preflight_check result" where
  "identity_check p =
     (if fpl_filing_id p = [] \<or> fpl_filing_type p = []
      then preflight_check_of ''filing-identity'' PF_FAIL ''Filing identity is incomplete.'' []
      else preflight_check_of ''filing-identity'' PF_PASS ''Filing identity is explicit.'' [])"

text \<open>The selected remedies, or the error that ends the loop.\<close>

fun selected_remedies :: "(string \<rightharpoonup> remedy_option) \<Rightarrow> string list \<Rightarrow> string + remedy_option list" where
  "selected_remedies remedies [] = Inr []"
| "selected_remedies remedies (i # ids) =
     (case remedies i of
        None \<Rightarrow> Inl (''Missing remedy assessment: '' @ i @ ''.'')
      | Some r \<Rightarrow>
          if rem_admissibility_status r \<noteq> RA_VERIFIED_AVAILABLE
          then Inl (''Remedy is not VERIFIED_AVAILABLE: '' @ i @ ''.'')
          else and_then (selected_remedies remedies ids) (\<lambda>rs. Inr (r # rs)))"

definition remedy_check :: "string + remedy_option list \<Rightarrow> preflight_check result" where
  "remedy_check found =
     (case found of
        Inl message \<Rightarrow> preflight_check_of ''remedy-availability'' PF_FAIL message []
      | Inr _ \<Rightarrow> preflight_check_of ''remedy-availability'' PF_PASS ''All filing remedies are VERIFIED_AVAILABLE.'' [])"

definition route_check :: "filing_plan \<Rightarrow> remedy_option list \<Rightarrow> preflight_check result" where
  "route_check p selected =
     (if selected = [] then preflight_check_of ''filing-route'' PF_FAIL ''Verified remedy route is unavailable.'' []
      else let expected = map route_of selected in
      if length (remdups expected) \<noteq> 1 \<or> plan_route p \<notin> set expected
      then preflight_check_of ''filing-route'' PF_FAIL ''Filing route does not match verified remedy route.'' []
      else preflight_check_of ''filing-route'' PF_PASS ''Filing route matches verified remedies.'' [])"

definition deadline_check ::
  "filing_plan \<Rightarrow> remedy_option list \<Rightarrow> (string \<rightharpoonup> deadline_assessment) \<Rightarrow> preflight_check result" where
  "deadline_check p selected deadlines =
     (case deadline_ids selected of
        [] \<Rightarrow>
          if fpl_deadline_id p \<noteq> None
          then preflight_check_of ''deadline'' PF_FAIL ''Plan carries an unexpected deadline identity.'' []
          else preflight_check_of ''deadline'' PF_PASS ''No deadline dependency applies to the selected remedies.'' []
      | i # others \<Rightarrow>
          if others \<noteq> [] \<or> fpl_deadline_id p \<noteq> Some i
          then preflight_check_of ''deadline'' PF_FAIL ''Filing deadline identity does not match selected remedies.'' []
          else (case deadlines i of
            None \<Rightarrow> preflight_check_of ''deadline'' PF_UNKNOWN ''Required deadline assessment is missing.'' []
          | Some a \<Rightarrow>
              if das_status a = DL_EXPIRED
              then preflight_check_of ''deadline'' PF_FAIL ''Required filing deadline is expired.'' []
              else if das_status a \<noteq> DL_VERIFIED
              then preflight_check_of ''deadline'' PF_UNKNOWN ''Required filing deadline is not VERIFIED.'' []
              else preflight_check_of ''deadline'' PF_PASS ''Required deadline is VERIFIED.''
                (case das_trigger_evidence a of None \<Rightarrow> [] | Some e \<Rightarrow> [e])))"

definition requests_check :: "filing_plan \<Rightarrow> preflight_check result" where
  "requests_check p =
     (if fpl_requests p = [] \<or> fpl_allegations_or_grounds p = []
      then preflight_check_of ''requests-and-grounds'' PF_FAIL ''Requests or grounds are missing.'' []
      else preflight_check_of ''requests-and-grounds'' PF_PASS ''Requests and grounds are explicit.'' [])"

definition rule_check :: "filing_plan \<Rightarrow> remedy_option list \<Rightarrow> preflight_check result" where
  "rule_check p selected =
     (if \<not> set (concat (map rem_applicable_rule_ids selected)) \<subseteq> set (fpl_rule_refs p)
      then preflight_check_of ''rule-basis'' PF_FAIL ''Plan does not contain every remedy rule reference.'' []
      else preflight_check_of ''rule-basis'' PF_PASS ''Rule basis covers selected remedies.'' [])"

definition evidence_check :: "filing_plan \<Rightarrow> remedy_option list \<Rightarrow> string list \<Rightarrow> preflight_check result" where
  "evidence_check p selected available =
     (if \<not> set (concat (map rem_required_evidence selected)) \<subseteq> set (fpl_evidence_refs p) \<or>
         \<not> set (fpl_evidence_refs p) \<subseteq> set available
      then preflight_check_of ''evidence-basis'' PF_FAIL ''Filing evidence basis is incomplete or unavailable.'' []
      else preflight_check_of ''evidence-basis'' PF_PASS ''Filing evidence basis is present.'' (fpl_evidence_refs p))"

definition formal_check :: "remedy_option list \<Rightarrow> execution_state \<Rightarrow> preflight_check result" where
  "formal_check selected e =
     (let missing = sorted_diff (concat (map rem_formal_requirements selected)) (fes_satisfied_formal_requirements e) in
      if missing \<noteq> []
      then preflight_check_of ''formal-requirements'' PF_FAIL
        (''Required formal requirements are not satisfied: '' @ join '', '' missing) []
      else preflight_check_of ''formal-requirements'' PF_PASS ''Verified remedy formal requirements are satisfied.'' [])"

definition attachment_check :: "filing_plan \<Rightarrow> execution_state \<Rightarrow> preflight_check result" where
  "attachment_check p e =
     (let missing = sorted_diff (fpl_attachment_requirements p) (fes_provided_attachments e) in
      if missing \<noteq> []
      then preflight_check_of ''attachments'' PF_FAIL (''Required attachments are missing: '' @ join '', '' missing) []
      else preflight_check_of ''attachments'' PF_PASS ''Required attachments are present.'' [])"

definition signature_check :: "filing_plan \<Rightarrow> execution_state \<Rightarrow> preflight_check result" where
  "signature_check p e =
     (if fpl_signature_requirements p \<noteq> [] \<and> \<not> fes_signature_ready e
      then preflight_check_of ''signature'' PF_FAIL ''Signature requirements are not ready.'' []
      else preflight_check_of ''signature'' PF_PASS
        (if fpl_signature_requirements p \<noteq> [] then ''Signature requirements are ready.''
         else ''No signature requirement applies.'') [])"

definition copies_check :: "filing_plan \<Rightarrow> execution_state \<Rightarrow> preflight_check result" where
  "copies_check p e =
     (if fpl_copy_requirements p \<noteq> [] \<and> \<not> fes_copies_ready e
      then preflight_check_of ''copies'' PF_FAIL ''Copy requirements are not ready.'' []
      else preflight_check_of ''copies'' PF_PASS
        (if fpl_copy_requirements p \<noteq> [] then ''Copy requirements are ready.'' else ''No copy requirement applies.'') [])"

definition topology_check :: "filing_plan \<Rightarrow> preflight_check result" where
  "topology_check p =
     (if fpl_topology_status p \<notin> {FT_SINGLE_FILING_SAFE, FT_MULTIPLE_FILINGS_REQUIRED}
      then preflight_check_of ''topology'' PF_FAIL ''Filing topology is not verified for execution.'' []
      else preflight_check_of ''topology'' PF_PASS ''Filing topology is execution-safe.'' [])"

definition unknowns_check :: "execution_state \<Rightarrow> preflight_check result" where
  "unknowns_check e =
     (if fes_critical_unknowns e \<noteq> []
      then preflight_check_of ''critical-unknowns'' PF_UNKNOWN
        (''Critical UNKNOWN/UNRESOLVED state remains: '' @ join ''; '' (fes_critical_unknowns e)) []
      else preflight_check_of ''critical-unknowns'' PF_PASS ''No critical UNKNOWN/UNRESOLVED state remains.'' [])"

text \<open>All checks, in order; the first that cannot be built ends the evaluation.\<close>

definition preflight_checks ::
  "filing_plan \<Rightarrow> (string \<rightharpoonup> remedy_option) \<Rightarrow> (string \<rightharpoonup> deadline_assessment) \<Rightarrow> string list \<Rightarrow> execution_state \<Rightarrow>
   preflight_check list result" where
  "preflight_checks p remedies deadlines available e =
     (let found = selected_remedies remedies (fpl_remedy_ids p);
          selected = (case found of Inl _ \<Rightarrow> [] | Inr rs \<Rightarrow> rs) in
      map_result (\<lambda>check. check)
        [identity_check p, remedy_check found, route_check p selected, deadline_check p selected deadlines,
         requests_check p, rule_check p selected, evidence_check p selected available, formal_check selected e,
         attachment_check p e, signature_check p e, copies_check p e, topology_check p, unknowns_check e])"

definition critical_with :: "preflight_status \<Rightarrow> preflight_check \<Rightarrow> bool" where
  "critical_with st c = (pfc_severity c = PS_CRITICAL \<and> pfc_status c = st)"

definition preflight_outcome :: "string \<Rightarrow> preflight_check list \<Rightarrow> preflight_result result" where
  "preflight_outcome filing_id checks =
     preflight_result_init
       \<lparr>pfr_filing_id = filing_id, pfr_checks = checks,
        pfr_blockers = map (\<lambda>c. pfc_check_id c @ '': '' @ pfc_reason c)
          (filter (\<lambda>c. critical_with PF_FAIL c \<or> critical_with PF_UNKNOWN c) checks),
        pfr_warnings = [],
        pfr_final_status = (if list_ex (critical_with PF_UNKNOWN) checks then PFF_ABSTAIN
          else if list_ex (critical_with PF_FAIL) checks then PFF_NOT_READY else PFF_FILING_READY),
        pfr_schema = PREFLIGHT_RESULT_SCHEMA_V1\<rparr>"

definition preflight_evaluate ::
  "filing_plan \<Rightarrow> remedy_option list \<Rightarrow> deadline_assessment list \<Rightarrow> string list \<Rightarrow> execution_state \<Rightarrow> preflight_result result" where
  "preflight_evaluate p remedies deadlines available_ids e =
     (if fes_filing_id e \<noteq> fpl_filing_id p then raise_cirp ''execution state filing_id does not match filing plan''
      else
      and_then (index_unique rem_remedy_id ''duplicate remedy_id: '' remedies Map.empty) (\<lambda>remedy_map.
      and_then (index_unique das_deadline_id ''duplicate deadline_id: '' deadlines Map.empty) (\<lambda>deadline_map.
      and_then (preflight_unique available_ids ''available_evidence_ids'') (\<lambda>available.
      and_then (preflight_checks p remedy_map deadline_map available e) (\<lambda>checks.
      preflight_outcome (fpl_filing_id p) checks)))))"

section \<open>When a check passes\<close>

definition passes :: "preflight_check result \<Rightarrow> bool" where
  "passes x = (\<exists>c. x = Inr c \<and> pfc_status c = PF_PASS)"

definition critical_check :: "string \<Rightarrow> preflight_check result \<Rightarrow> bool" where
  "critical_check i x = (\<forall>c. x = Inr c \<longrightarrow> pfc_check_id c = i \<and> pfc_severity c = PS_CRITICAL \<and> pfc_status c \<noteq> PF_NOT_APPLICABLE)"

lemma passes_of:
  "passes (preflight_check_of i st reason refs) \<longleftrightarrow> st = PF_PASS \<and> is_line i \<and> is_line reason \<and> line_tuple refs"
  by (auto simp: passes_def preflight_check_of_def preflight_check_init_def)

lemma critical_check_of [simp]: "st \<noteq> PF_NOT_APPLICABLE \<Longrightarrow> critical_check i (preflight_check_of i st reason refs)"
  by (auto simp: critical_check_def preflight_check_of_def preflight_check_init_def)

lemma check_lines [simp]:
  "is_line ''filing-identity''" "is_line ''Filing identity is explicit.''" "is_line ''remedy-availability''"
  "is_line ''All filing remedies are VERIFIED_AVAILABLE.''" "is_line ''filing-route''"
  "is_line ''Filing route matches verified remedies.''" "is_line ''deadline''"
  "is_line ''No deadline dependency applies to the selected remedies.''" "is_line ''Required deadline is VERIFIED.''"
  "is_line ''requests-and-grounds''" "is_line ''Requests and grounds are explicit.''" "is_line ''rule-basis''"
  "is_line ''Rule basis covers selected remedies.''" "is_line ''evidence-basis''"
  "is_line ''Filing evidence basis is present.''" "is_line ''formal-requirements''"
  "is_line ''Verified remedy formal requirements are satisfied.''" "is_line ''attachments''"
  "is_line ''Required attachments are present.''" "is_line ''signature''" "is_line ''Signature requirements are ready.''"
  "is_line ''No signature requirement applies.''" "is_line ''copies''" "is_line ''Copy requirements are ready.''"
  "is_line ''No copy requirement applies.''" "is_line ''topology''" "is_line ''Filing topology is execution-safe.''"
  "is_line ''critical-unknowns''" "is_line ''No critical UNKNOWN/UNRESOLVED state remains.''"
  by (simp_all add: line_literal)

lemma selected_remedies_Inr:
  "selected_remedies m ids = Inr rs \<longleftrightarrow>
     map m ids = map Some rs \<and> (\<forall>r \<in> set rs. rem_admissibility_status r = RA_VERIFIED_AVAILABLE)"
proof (induction ids arbitrary: rs)
  case (Cons i ids)
  show ?case by (cases rs) (auto simp: Cons.IH split: option.splits)
qed auto

lemma critical_checks [simp]:
  "critical_check ''filing-identity'' (identity_check p)" "critical_check ''remedy-availability'' (remedy_check found)"
  "critical_check ''filing-route'' (route_check p rs)" "critical_check ''deadline'' (deadline_check p rs dl)"
  "critical_check ''requests-and-grounds'' (requests_check p)" "critical_check ''rule-basis'' (rule_check p rs)"
  "critical_check ''evidence-basis'' (evidence_check p rs av)" "critical_check ''formal-requirements'' (formal_check rs e)"
  "critical_check ''attachments'' (attachment_check p e)" "critical_check ''signature'' (signature_check p e)"
  "critical_check ''copies'' (copies_check p e)" "critical_check ''topology'' (topology_check p)"
  "critical_check ''critical-unknowns'' (unknowns_check e)"
  by (simp_all add: identity_check_def remedy_check_def route_check_def deadline_check_def requests_check_def rule_check_def
      evidence_check_def formal_check_def attachment_check_def signature_check_def copies_check_def topology_check_def
      unknowns_check_def Let_def split: sum.split list.split option.split)

lemma route_passes: "passes (route_check p rs) \<longleftrightarrow> rs \<noteq> [] \<and> (\<forall>r \<in> set rs. route_of r = plan_route p)"
proof (cases "rs = []")
  case False
  have "length (remdups (map route_of rs)) = 1 \<longleftrightarrow> (\<exists>x. route_of ` set rs = {x})"
    by (simp add: length_remdups_card_conv card_1_singleton_iff)
  moreover have single: "(\<exists>x. R = {x}) \<and> q \<in> R \<longleftrightarrow> R = {q}" for R and q :: "string \<times> string \<times> string option" by blast
  ultimately have "\<not> (length (remdups (map route_of rs)) \<noteq> 1 \<or> plan_route p \<notin> set (map route_of rs)) \<longleftrightarrow>
      route_of ` set rs = {plan_route p}"
    using single [of "route_of ` set rs" "plan_route p"] unfolding set_map by argo
  also have "\<dots> \<longleftrightarrow> (\<forall>r \<in> set rs. route_of r = plan_route p)" using False by (cases rs) auto
  finally have c: "\<not> (length (remdups (map route_of rs)) \<noteq> 1 \<or> plan_route p \<notin> set (map route_of rs)) \<longleftrightarrow>
      (\<forall>r \<in> set rs. route_of r = plan_route p)" .
  have "passes (route_check p rs) \<longleftrightarrow> \<not> (length (remdups (map route_of rs)) \<noteq> 1 \<or> plan_route p \<notin> set (map route_of rs))"
    using False by (simp add: route_check_def Let_def passes_of)
  then show ?thesis using False unfolding c by blast
qed (simp add: route_check_def passes_of)

definition lines_of_deadlines :: "(string \<rightharpoonup> deadline_assessment) \<Rightarrow> bool" where
  "lines_of_deadlines dl = (\<forall>i a e. dl i = Some a \<longrightarrow> das_trigger_evidence a = Some e \<longrightarrow> is_line e)"

lemma deadline_passes:
  assumes "lines_of_deadlines dl"
  shows "passes (deadline_check p rs dl) \<longleftrightarrow>
    (\<forall>i. fpl_deadline_id p = Some i \<longleftrightarrow> (\<exists>r \<in> set rs. rem_deadline_id r = Some i)) \<and>
    (\<forall>r \<in> set rs. \<forall>i. rem_deadline_id r = Some i \<longrightarrow> deadline_verified dl i)"
proof -
  have "passes (deadline_check p rs dl) \<longleftrightarrow>
      (case deadline_ids rs of [] \<Rightarrow> fpl_deadline_id p = None
       | i # others \<Rightarrow> others = [] \<and> fpl_deadline_id p = Some i \<and> deadline_verified dl i)"
    using assms by (auto simp: deadline_check_def passes_of deadline_verified_def lines_of_deadlines_def line_tuple_Cons
        split: list.split option.split)
  also have "\<dots> \<longleftrightarrow> (\<forall>i. fpl_deadline_id p = Some i \<longleftrightarrow> i \<in> set (deadline_ids rs)) \<and>
      (\<forall>i \<in> set (deadline_ids rs). deadline_verified dl i)"
  proof (cases "deadline_ids rs")
    case (Cons i others)
    have "distinct (deadline_ids rs)" by (simp add: deadline_ids_def)
    show ?thesis
    proof (cases others)
      case (Cons j more_ids)
      then have "i \<noteq> j" "i \<in> set (deadline_ids rs)" "j \<in> set (deadline_ids rs)"
        using \<open>deadline_ids rs = i # others\<close> \<open>distinct (deadline_ids rs)\<close> by auto
      then have "\<not> (\<forall>i. fpl_deadline_id p = Some i \<longleftrightarrow> i \<in> set (deadline_ids rs))" by (metis option.inject)
      then show ?thesis using Cons \<open>deadline_ids rs = i # others\<close> by (simp del: set_simps)
    qed (auto simp: Cons)
  qed auto
  finally show ?thesis by (auto simp: deadline_ids_set)
qed

section \<open>Readiness\<close>

text \<open>What the filing itself must bring: the caller's execution state against the plan and its remedies.\<close>

definition execution_ready :: "(string \<rightharpoonup> remedy_option) \<Rightarrow> filing_plan \<Rightarrow> execution_state \<Rightarrow> bool" where
  "execution_ready remedies p e =
     ((\<forall>i \<in> set (fpl_remedy_ids p). \<forall>r. remedies i = Some r \<longrightarrow>
         set (rem_formal_requirements r) \<subseteq> set (fes_satisfied_formal_requirements e)) \<and>
      set (fpl_attachment_requirements p) \<subseteq> set (fes_provided_attachments e) \<and>
      (fpl_signature_requirements p = [] \<or> fes_signature_ready e) \<and> (fpl_copy_requirements p = [] \<or> fes_copies_ready e) \<and>
      fes_critical_unknowns e = [])"

lemma all_checks_pass:
  fixes m :: "string \<rightharpoonup> remedy_option" and p :: filing_plan
  assumes "lines_of_deadlines dl" "line_tuple (fpl_evidence_refs p)" "fpl_filing_type p \<noteq> []" "fpl_filing_id p \<noteq> []"
    "fpl_requests p \<noteq> []" "fpl_remedy_ids p \<noteq> []"
  defines "found \<equiv> selected_remedies m (fpl_remedy_ids p)"
  defines "rs \<equiv> (case found of Inl _ \<Rightarrow> [] | Inr rs \<Rightarrow> rs)"
  shows "list_all passes
      [identity_check p, remedy_check found, route_check p rs, deadline_check p rs dl, requests_check p, rule_check p rs,
       evidence_check p rs av, formal_check rs e, attachment_check p e, signature_check p e, copies_check p e,
       topology_check p, unknowns_check e] \<longleftrightarrow>
    plan_covered m dl av p \<and> fpl_allegations_or_grounds p \<noteq> [] \<and>
    fpl_topology_status p \<in> {FT_SINGLE_FILING_SAFE, FT_MULTIPLE_FILINGS_REQUIRED} \<and> execution_ready m p e"
proof (cases found)
  case (Inl message)
  have "\<not> plan_covered m dl av p"
  proof
    assume c: "plan_covered m dl av p"
    then have "map m (fpl_remedy_ids p) = map Some (map (\<lambda>i. the (m i)) (fpl_remedy_ids p))"
      unfolding plan_covered_def by force
    moreover have "\<forall>r \<in> set (map (\<lambda>i. the (m i)) (fpl_remedy_ids p)). rem_admissibility_status r = RA_VERIFIED_AVAILABLE"
      using c unfolding plan_covered_def by force
    ultimately have "selected_remedies m (fpl_remedy_ids p) = Inr (map (\<lambda>i. the (m i)) (fpl_remedy_ids p))"
      unfolding selected_remedies_Inr by blast
    then show False using Inl by (simp add: found_def)
  qed
  then show ?thesis using Inl by (simp add: remedy_check_def passes_of)
next
  case (Inr sel)
  then have f: "map m (fpl_remedy_ids p) = map Some sel" "\<forall>r \<in> set sel. rem_admissibility_status r = RA_VERIFIED_AVAILABLE"
    by (simp_all add: found_def selected_remedies_Inr)
  have rs: "rs = sel" by (simp add: rs_def Inr)
  have member: "r \<in> set sel \<longleftrightarrow> (\<exists>i \<in> set (fpl_remedy_ids p). m i = Some r)" for r
    using arg_cong [OF f(1), of set] by (metis (no_types, lifting) image_iff list.set_map option.inject)
  have known: "\<exists>r \<in> set sel. m i = Some r" if "i \<in> set (fpl_remedy_ids p)" for i
    using that arg_cong [OF f(1), of set] by auto
  have ne: "sel \<noteq> []" using f(1) assms(6) by auto
  have checks: "passes (remedy_check found)" "passes (identity_check p)"
    "passes (requests_check p) \<longleftrightarrow> fpl_allegations_or_grounds p \<noteq> []"
    "passes (rule_check p sel) \<longleftrightarrow> (\<forall>r \<in> set sel. set (rem_applicable_rule_ids r) \<subseteq> set (fpl_rule_refs p))"
    "passes (evidence_check p sel av) \<longleftrightarrow>
       (\<forall>r \<in> set sel. set (rem_required_evidence r) \<subseteq> set (fpl_evidence_refs p)) \<and> set (fpl_evidence_refs p) \<subseteq> set av"
    "passes (formal_check sel e) \<longleftrightarrow>
       (\<forall>r \<in> set sel. set (rem_formal_requirements r) \<subseteq> set (fes_satisfied_formal_requirements e))"
    "passes (attachment_check p e) \<longleftrightarrow> set (fpl_attachment_requirements p) \<subseteq> set (fes_provided_attachments e)"
    "passes (signature_check p e) \<longleftrightarrow> fpl_signature_requirements p = [] \<or> fes_signature_ready e"
    "passes (copies_check p e) \<longleftrightarrow> fpl_copy_requirements p = [] \<or> fes_copies_ready e"
    "passes (topology_check p) \<longleftrightarrow> fpl_topology_status p \<in> {FT_SINGLE_FILING_SAFE, FT_MULTIPLE_FILINGS_REQUIRED}"
    "passes (unknowns_check e) \<longleftrightarrow> fes_critical_unknowns e = []"
    using assms(2-5) Inr unfolding rule_check_def evidence_check_def concat_map_subset
    by (auto simp: remedy_check_def identity_check_def requests_check_def passes_of formal_check_def attachment_check_def
        signature_check_def copies_check_def topology_check_def unknowns_check_def Let_def)
  have every: "(\<forall>i \<in> set (fpl_remedy_ids p). \<exists>r. m i = Some r \<and> P r) \<longleftrightarrow> (\<forall>r \<in> set sel. P r)" for P
    using member known by (metis option.inject)
  have some: "(\<exists>i \<in> set (fpl_remedy_ids p). \<exists>r. m i = Some r \<and> P r) \<longleftrightarrow> (\<exists>r \<in> set sel. P r)" for P
    using member by blast
  have cover: "plan_covered m dl av p \<longleftrightarrow>
      passes (route_check p sel) \<and> passes (deadline_check p sel dl) \<and> passes (rule_check p sel) \<and> passes (evidence_check p sel av)"
    unfolding plan_covered_def route_passes deadline_passes [OF assms(1)] checks
    unfolding every some using f(2) ne assms(6) by blast
  have exec: "execution_ready m p e \<longleftrightarrow>
      passes (formal_check sel e) \<and> passes (attachment_check p e) \<and> passes (signature_check p e) \<and>
      passes (copies_check p e) \<and> passes (unknowns_check e)"
    unfolding execution_ready_def checks using member by blast
  show ?thesis unfolding rs cover exec using checks by auto
qed

lemma map_result_id: "map_result (\<lambda>check. check) xs = Inr cs \<longleftrightarrow> xs = map Inr cs"
  by (induction xs arbitrary: cs) (auto simp: Cons_eq_map_conv)

lemma critical_names:
  "list_all2 critical_check names (map Inr cs) \<Longrightarrow>
     map pfc_check_id cs = names \<and> (\<forall>c \<in> set cs. pfc_severity c = PS_CRITICAL \<and> pfc_status c \<noteq> PF_NOT_APPLICABLE)"
  by (induction names "map (Inr :: preflight_check \<Rightarrow> preflight_check result) cs" arbitrary: cs rule: list_all2_induct)
    (auto simp: critical_check_def Cons_eq_map_conv)

lemma outcome_ready:
  assumes "list_all2 critical_check names (map Inr cs)" "distinct names" "names \<noteq> []" "is_line filing_id"
  shows "(\<exists>r. preflight_outcome filing_id cs = Inr r \<and> pfr_final_status r = PFF_FILING_READY) \<longleftrightarrow> list_all passes (map Inr cs)"
proof -
  note n = critical_names [OF assms(1)]
  have "passes (Inr c) \<longleftrightarrow> \<not> critical_with PF_UNKNOWN c \<and> \<not> critical_with PF_FAIL c" if "c \<in> set cs" for c
    using n that by (cases "pfc_status c") (auto simp: passes_def critical_with_def)
  then have all: "list_all passes (map Inr cs) \<longleftrightarrow>
      \<not> list_ex (critical_with PF_UNKNOWN) cs \<and> \<not> list_ex (critical_with PF_FAIL) cs"
    by (auto simp: list_all_iff list_ex_iff)
  show ?thesis
  proof (cases "list_all passes (map Inr cs)")
    case True
    then have none: "filter (\<lambda>c. critical_with PF_FAIL c \<or> critical_with PF_UNKNOWN c) cs = []"
        "filter (\<lambda>c. pfc_severity c = PS_CRITICAL \<and> pfc_status c \<noteq> PF_PASS) cs = []"
      using all by (auto simp: filter_empty_conv list_ex_iff list_all_iff passes_def)
    have "distinct (map pfc_check_id cs)" "cs \<noteq> []" using n assms(2,3) by auto
    then show ?thesis using True all none assms(4) by (simp add: preflight_outcome_def preflight_result_init_def)
  next
    case False
    have "pfr_final_status r \<noteq> PFF_FILING_READY" if "preflight_outcome filing_id cs = Inr r" for r
      using inits_same(8) [OF that [unfolded preflight_outcome_def]] False all by auto
    then show ?thesis using False by blast
  qed
qed

lemma outcomes_ready:
  assumes "list_all2 critical_check names xs" "distinct names" "names \<noteq> []" "is_line filing_id"
  shows "(\<exists>cs. xs = map Inr cs \<and> (\<exists>r. preflight_outcome filing_id cs = Inr r \<and> pfr_final_status r = PFF_FILING_READY)) \<longleftrightarrow>
    list_all passes xs"
proof (cases "\<exists>cs. xs = map Inr cs")
  case True
  then obtain cs where cs: "xs = map Inr cs" by blast
  moreover have "cs' = cs" if "xs = map Inr cs'" for cs'
    using that cs by (metis Inr_inject injI map_injective)
  ultimately show ?thesis using outcome_ready [OF assms(1) [unfolded cs] assms(2-4)] by metis
next
  case False
  have "list_all passes xs \<Longrightarrow> \<exists>cs. xs = map Inr cs"
    by (rule iffD1 [OF ex_map_conv [symmetric]]) (auto simp: list_all_iff passes_def)
  then show ?thesis using False by blast
qed

lemma preflight_unique_Inr: "preflight_unique vs n = Inr ws \<longleftrightarrow> ws = vs \<and> distinct vs \<and> (\<forall>v \<in> set vs. is_text v)"
proof -
  have "\<not> (v = [] \<or> v \<noteq> strip v) \<longleftrightarrow> is_text v" for v unfolding is_text_def by (metis strip_id strip_stripped)
  then have "\<not> list_ex (\<lambda>v. v = [] \<or> v \<noteq> strip v) vs \<longleftrightarrow> (\<forall>v \<in> set vs. is_text v)" unfolding list_ex_iff by blast
  then show ?thesis unfolding preflight_unique_def raise_if by auto
qed

text \<open>The preflight on a constructed plan.\<close>

lemma preflight_ready:
  assumes "filing_plan_init p = Inr p" "lines_of_deadlines (by_id das_deadline_id deadlines)"
  shows "(\<exists>r. preflight_evaluate p remedies deadlines available e = Inr r \<and> pfr_final_status r = PFF_FILING_READY) \<longleftrightarrow>
    fes_filing_id e = fpl_filing_id p \<and> distinct (map rem_remedy_id remedies) \<and> distinct (map das_deadline_id deadlines) \<and>
    distinct available \<and> (\<forall>v \<in> set available. is_text v) \<and>
    plan_covered (by_id rem_remedy_id remedies) (by_id das_deadline_id deadlines) available p \<and>
    fpl_allegations_or_grounds p \<noteq> [] \<and> fpl_topology_status p \<in> {FT_SINGLE_FILING_SAFE, FT_MULTIPLE_FILINGS_REQUIRED} \<and>
    execution_ready (by_id rem_remedy_id remedies) p e"
proof -
  let ?m = "by_id rem_remedy_id remedies" and ?dl = "by_id das_deadline_id deadlines"
  let ?found = "selected_remedies ?m (fpl_remedy_ids p)"
  let ?rs = "case ?found of Inl _ \<Rightarrow> [] | Inr rs \<Rightarrow> rs"
  let ?xs = "[identity_check p, remedy_check ?found, route_check p ?rs, deadline_check p ?rs ?dl, requests_check p, rule_check p ?rs,
    evidence_check p ?rs available, formal_check ?rs e, attachment_check p e, signature_check p e, copies_check p e,
    topology_check p, unknowns_check e]"
  let ?names = "[''filing-identity'', ''remedy-availability'', ''filing-route'', ''deadline'', ''requests-and-grounds'',
    ''rule-basis'', ''evidence-basis'', ''formal-requirements'', ''attachments'', ''signature'', ''copies'', ''topology'',
    ''critical-unknowns'']"
  have p: "is_line (fpl_filing_id p)" "line_tuple (fpl_evidence_refs p)" "fpl_filing_type p \<noteq> []" "fpl_requests p \<noteq> []"
      "fpl_remedy_ids p \<noteq> []"
    using assms(1) by (auto simp: filing_plan_init_def is_line_def is_text_def split: if_splits)
  then have "fpl_filing_id p \<noteq> []" by (auto simp: is_line_def is_text_def)
  note pass = all_checks_pass [OF assms(2) p(2,3) this p(4,5), where m = ?m and av = available and e = e]
  have crit: "list_all2 critical_check ?names ?xs" by simp
  have run: "(\<exists>cs. preflight_checks p ?m ?dl available e = Inr cs \<and>
        (\<exists>r. preflight_outcome (fpl_filing_id p) cs = Inr r \<and> pfr_final_status r = PFF_FILING_READY)) \<longleftrightarrow> list_all passes ?xs"
    unfolding preflight_checks_def Let_def map_result_id by (rule outcomes_ready [OF crit _ _ p(1)]) simp_all
  have "(\<exists>r. preflight_evaluate p remedies deadlines available e = Inr r \<and> pfr_final_status r = PFF_FILING_READY) \<longleftrightarrow>
      fes_filing_id e = fpl_filing_id p \<and> distinct (map rem_remedy_id remedies) \<and> distinct (map das_deadline_id deadlines) \<and>
      distinct available \<and> (\<forall>v \<in> set available. is_text v) \<and>
      (\<exists>cs. preflight_checks p ?m ?dl available e = Inr cs \<and>
        (\<exists>r. preflight_outcome (fpl_filing_id p) cs = Inr r \<and> pfr_final_status r = PFF_FILING_READY))"
    unfolding preflight_evaluate_def raise_if and_then_eq_Inr index_unique_Inr preflight_unique_Inr by blast
  then show ?thesis unfolding run pass by blast
qed

section \<open>From the options to the filings\<close>

definition spec_lines :: "filing_spec \<Rightarrow> bool" where
  "spec_lines f = (is_line (fsp_filing_id f) \<and> is_line (fsp_filing_type f) \<and> is_line (fsp_delivery_method f) \<and>
     line_tuple (fsp_remedy_ids f) \<and> line_tuple (fsp_requests f) \<and> line_tuple (fsp_allegations_or_grounds f) \<and>
     line_tuple (fsp_evidence_refs f) \<and> line_tuple (fsp_rule_refs f) \<and> line_tuple (fsp_attachment_requirements f) \<and>
     line_tuple (fsp_signature_requirements f) \<and> line_tuple (fsp_copy_requirements f) \<and> fsp_requests f \<noteq> [])"

lemma remedy_option_lines:
  "remedy_option_init r = Inr r \<Longrightarrow> is_line (rem_target_authority r) \<and> is_line (rem_filing_authority r) \<and>
     (\<forall>v. rem_filing_via r = Some v \<longrightarrow> is_line v) \<and> (\<forall>v. rem_deadline_id r = Some v \<longrightarrow> is_line v) \<and>
     (rem_admissibility_status r = RA_VERIFIED_AVAILABLE \<longrightarrow> rem_applicable_rule_ids r \<noteq> [])"
  by (auto simp: remedy_option_init_def split: if_splits)

lemma planned_unit:
  assumes "unit_basis (by_id rem_remedy_id remedies) dl available spec rs" "spec_lines spec" "is_line (sto_objective s)"
    "\<forall>r \<in> set remedies. remedy_option_init r = Inr r"
  shows "plan_unit s status (by_id rem_remedy_id remedies) dl available spec = Inr (plan_of s status spec rs)"
proof -
  have b: "map (by_id rem_remedy_id remedies) (fsp_remedy_ids spec) = map Some rs" "rs \<noteq> []"
      "\<forall>r \<in> set rs. rem_admissibility_status r = RA_VERIFIED_AVAILABLE \<and>
         set (rem_applicable_rule_ids r) \<subseteq> set (fsp_rule_refs spec)"
    using assms(1) by (auto simp: unit_basis_def one_route_def)
  have made: "remedy_option_init r = Inr r" if "r \<in> set rs" for r
  proof -
    have "Some r \<in> set (map (by_id rem_remedy_id remedies) (fsp_remedy_ids spec))" unfolding b(1) using that by simp
    then obtain i where "by_id rem_remedy_id remedies i = Some r" unfolding set_map by (elim imageE) simp
    then show ?thesis using by_id_Some assms(4) by metis
  qed
  have h: "hd rs \<in> set rs" using b(2) by simp
  note hd = remedy_option_lines [OF made [OF h]]
  have "rem_applicable_rule_ids (hd rs) \<noteq> []" using hd b(3) h by blast
  then have refs: "fsp_rule_refs spec \<noteq> []" using b(3) h by auto
  have ids: "fsp_remedy_ids spec \<noteq> []" using b(1,2) by auto
  have "is_line v" if v: "fpl_deadline_id (plan_of s status spec rs) = Some v" for v
  proof -
    have "v \<in> set (deadline_ids rs)" using v by (cases "deadline_ids rs") (auto simp: plan_of_def split: if_splits)
    then obtain r where "r \<in> set rs" "rem_deadline_id r = Some v" by (auto simp: deadline_ids_set)
    then show ?thesis using remedy_option_lines [OF made] by blast
  qed
  then have "filing_plan_init (plan_of s status spec rs) = Inr (plan_of s status spec rs)"
    using assms(2,3) hd refs ids by (simp add: filing_plan_init_def spec_lines_def plan_of_def)
  then show ?thesis using assms(1) unfolding plan_unit_Inr by blast
qed

lemma filing_plans_complete:
  assumes "selected_strategy d strategies = Inr s" "grouped_as groups t" "map fsp_remedy_ids specs = groups"
    "mset (concat groups) = mset (sto_remedy_ids s)" "distinct (sto_remedy_ids s)" "distinct (map fsp_filing_id specs)"
    "distinct (map rem_remedy_id remedies)" "distinct (map das_deadline_id deadlines)" "line_tuple available"
    "\<forall>spec \<in> set specs. \<exists>p. plan_unit s (ftd_status t) (by_id rem_remedy_id remedies) (by_id das_deadline_id deadlines)
       available spec = Inr p"
  shows "\<exists>plans. filing_plans d strategies t remedies deadlines available specs = Inr plans \<and> map fpl_remedy_ids plans = groups"
proof -
  let ?unit = "plan_unit s (ftd_status t) (by_id rem_remedy_id remedies) (by_id das_deadline_id deadlines) available"
  obtain g where "\<forall>spec \<in> set specs. ?unit spec = Inr (g spec)" using assms(10) by metis
  then have run: "map_result ?unit specs = Inr (map g specs)" by (intro map_result_all) blast
  have len: "length specs = length groups" unfolding assms(3) [symmetric] by simp
  have "distinct (concat groups)" using assms(4,5) by (metis mset_eq_imp_distinct_iff)
  then have "partitioned s t specs" using assms(2,4,6) len
    unfolding partitioned_def assms(3) grouped_as_def by (auto split: if_splits)
  moreover have "ftd_status t \<in> {FT_SINGLE_FILING_SAFE, FT_MULTIPLE_FILINGS_REQUIRED}"
    using assms(2) by (auto simp: grouped_as_def split: if_splits)
  moreover have "distinct available" "\<forall>e \<in> set available. is_text e"
    using assms(9) by (auto simp: line_tuple_def is_line_def)
  ultimately have "filing_plans d strategies t remedies deadlines available specs = Inr (map g specs)"
    unfolding filing_plans_Inr using assms(1,7,8) run by blast
  moreover have "map fpl_remedy_ids (map g specs) = groups" using plans_of_specs [OF run] assms(3) by simp
  ultimately show ?thesis by blast
qed

lemma made_deadline_lines:
  assumes "\<forall>a \<in> set deadlines. deadline_init a = Inr a"
  shows "lines_of_deadlines (by_id das_deadline_id deadlines)"
  unfolding lines_of_deadlines_def
proof (intro allI impI)
  fix i a e assume "by_id das_deadline_id deadlines i = Some a" and e: "das_trigger_evidence a = Some e"
  then have "deadline_init a = Inr a" using assms by_id_Some by metis
  then show "is_line e" using e by (auto simp: deadline_init_def split: if_splits)
qed

lemma planned_grounds:
  assumes "map_result (plan_unit s status m dl available) specs = Inr plans" "\<forall>f \<in> set specs. filing_spec_init f = Inr f"
  shows "\<forall>p \<in> set plans. fpl_allegations_or_grounds p \<noteq> []"
proof -
  have g: "filing_spec_init f = Inr f \<Longrightarrow> fsp_allegations_or_grounds f \<noteq> []" for f
    by (auto simp: filing_spec_init_def split: if_splits)
  show ?thesis using assms unfolding map_result_Inr_iff
  proof (induction rule: list_all2_induct)
    case (Cons f specs p plans)
    then obtain rs where "p = plan_of s status f rs" by (auto simp: plan_unit_Inr)
    then show ?case using Cons g by (simp add: plan_of_def)
  qed simp
qed

section \<open>Properties\<close>

text \<open>Preflight is FILING_READY exactly on a full basis. On a constructed plan and constructed deadlines, the
  answer is FILING_READY if and only if the execution state is the plan's own, identities are unique, every
  remedy of the plan is VERIFIED_AVAILABLE on the plan's route with its rules, available evidence and VERIFIED
  deadline covered by the plan, the grounds are stated, the topology is safe, and the execution state
  satisfies every formal requirement, attachment, signature and copy and leaves no critical unknown.\<close>

theorem preflight_ready_exact:
  assumes "filing_plan_init p = Inr p" and "\<forall>a \<in> set deadlines. deadline_init a = Inr a"
  shows "(\<exists>r. preflight_evaluate p remedies deadlines available e = Inr r \<and> pfr_final_status r = PFF_FILING_READY) \<longleftrightarrow>
    fes_filing_id e = fpl_filing_id p \<and> distinct (map rem_remedy_id remedies) \<and> distinct (map das_deadline_id deadlines) \<and>
    distinct available \<and> (\<forall>v \<in> set available. is_text v) \<and>
    plan_covered (by_id rem_remedy_id remedies) (by_id das_deadline_id deadlines) available p \<and>
    fpl_allegations_or_grounds p \<noteq> [] \<and> fpl_topology_status p \<in> {FT_SINGLE_FILING_SAFE, FT_MULTIPLE_FILINGS_REQUIRED} \<and>
    execution_ready (by_id rem_remedy_id remedies) p e"
  by (rule preflight_ready [OF assms(1) made_deadline_lines [OF assms(2)]])

text \<open>C13: Planner and preflight agree. A plan the planner built from constructed specifications passes the
  preflight over the same remedies, deadlines and evidence if and only if the execution state is the
  filing's own and ready: the preflight finds nothing the planner should have refused.\<close>

theorem planned_filing_ready_exact:
  assumes "filing_plans decision strategies topology remedies deadlines available specs = Inr plans" and "p \<in> set plans"
    and "\<forall>f \<in> set specs. filing_spec_init f = Inr f" and "\<forall>a \<in> set deadlines. deadline_init a = Inr a"
  shows "(\<exists>r. preflight_evaluate p remedies deadlines available e = Inr r \<and> pfr_final_status r = PFF_FILING_READY) \<longleftrightarrow>
    fes_filing_id e = fpl_filing_id p \<and> execution_ready (by_id rem_remedy_id remedies) p e"
proof -
  obtain s where s: "ftd_status topology \<in> {FT_SINGLE_FILING_SAFE, FT_MULTIPLE_FILINGS_REQUIRED}"
      "distinct (map rem_remedy_id remedies)" "distinct (map das_deadline_id deadlines)" "distinct available"
      "\<forall>e \<in> set available. is_text e"
      "map_result (plan_unit s (ftd_status topology) (by_id rem_remedy_id remedies) (by_id das_deadline_id deadlines)
         available) specs = Inr plans"
    using assms(1) unfolding filing_plans_Inr by blast
  have p: "plan_covered (by_id rem_remedy_id remedies) (by_id das_deadline_id deadlines) available p"
      "filing_plan_init p = Inr p" "fpl_topology_status p = ftd_status topology" "fpl_allegations_or_grounds p \<noteq> []"
    using plans_of_specs [OF s(6)] planned_grounds [OF s(6) assms(3)] assms(2) by blast+
  show ?thesis unfolding preflight_ready [OF p(2) made_deadline_lines [OF assms(4)]] p(3) using s p by blast
qed

text \<open>C12: A single safe strategy gets its filings. Given constructed options of which exactly one is safe,
  decisive evidence and rules, and a grouping of its remedies the topology guard allows, specifications that
  follow the groups and cover their remedies lead through the three guards to one plan per group.\<close>

theorem safe_strategy_reaches_plans:
  assumes "\<forall>s \<in> set opts. strategy_option_init s = Inr s" and "distinct (map sto_strategy_id opts)"
    and "\<forall>r \<in> set remedies. remedy_option_init r = Inr r" and "distinct (map rem_remedy_id remedies)"
    and "distinct (map das_deadline_id deadlines)"
    and "line_tuple available" "line_tuple ev" "line_tuple drl" "set ev \<subseteq> set available" "ev \<noteq> []" "drl \<noteq> []"
    and "filter (safe_option (by_id rem_remedy_id remedies) available) opts = [s]"
    and "\<forall>c. assessment = Some c \<longrightarrow> consolidation_init c = Inr c"
    and "filing_groups (by_id rem_remedy_id remedies) (sto_remedy_ids s) assessment groups"
    and "map fsp_remedy_ids specs = groups" and "distinct (map fsp_filing_id specs)"
    and "\<forall>f \<in> set specs. spec_lines f \<and>
      (\<exists>rs. unit_basis (by_id rem_remedy_id remedies) (by_id das_deadline_id deadlines) available f rs)"
  shows "\<exists>d t plans. strategy_decide opts remedies available ev drl = Inr d \<and>
    sdc_selected_strategy_id d = Some (sto_strategy_id s) \<and> topology_decide s remedies assessment = Inr t \<and>
    filing_plans d opts t remedies deadlines available specs = Inr plans \<and> map fpl_remedy_ids plans = groups"
proof -
  have lines: "\<forall>s \<in> set opts. option_lines s" using assms(1) strategy_option_lines by blast
  have "s \<in> set (filter (safe_option (by_id rem_remedy_id remedies) available) opts)" unfolding assms(12) by simp
  then have s: "s \<in> set opts" by simp
  then have sl: "line_tuple (sto_remedy_ids s)" "is_line (sto_objective s)"
    using lines assms(1) by (auto simp: option_lines_def strategy_option_init_def split: if_splits)
  have "opts \<noteq> []" using s by auto
  from strategy_decide_total [OF lines this assms(2,4,6-9)] obtain d where
      d: "strategy_decide opts remedies available ev drl = Inr d" "sdc_decision_status d = SD_RECOMMENDED"
        "sdc_selected_strategy_id d = Some (sto_strategy_id s)"
    using assms(10-12) by (auto simp: decides_def)
  obtain t where t: "topology_decide s remedies assessment = Inr t" "grouped_as groups t"
    using topology_decide_grouped [OF sl(1) assms(4,13,14)] by blast
  have "selected_strategy d opts = Inr s" using d(2,3) assms(2) s by (simp add: selected_strategy_Inr)
  moreover have "mset (concat groups) = mset (sto_remedy_ids s)" using assms(14) by (simp add: filing_groups_def)
  moreover have "\<forall>f \<in> set specs. \<exists>p. plan_unit s (ftd_status t) (by_id rem_remedy_id remedies) (by_id das_deadline_id deadlines)
       available f = Inr p"
    using assms(17) planned_unit [OF _ _ sl(2) assms(3)] by blast
  moreover have "distinct (sto_remedy_ids s)" using sl(1) by (simp add: line_tuple_def)
  ultimately obtain plans where
      "filing_plans d opts t remedies deadlines available specs = Inr plans" "map fpl_remedy_ids plans = groups"
    using filing_plans_complete [OF _ t(2) assms(15) _ _ assms(16,4,5,6)] by blast
  then show ?thesis using d(1,3) t(1) by blast
qed

section \<open>Sample inputs and witnesses\<close>

definition sample_execution :: execution_state where
  "sample_execution = \<lparr>fes_filing_id = ''f'', fes_provided_attachments = [], fes_satisfied_formal_requirements = [],
     fes_signature_ready = False, fes_copies_ready = False, fes_critical_unknowns = []\<rparr>"

lemma quartet_known: "i \<in> {''a'', ''b'', ''c'', ''d''} \<Longrightarrow> by_id rem_remedy_id quartet_remedies i = Some (sample_remedy i)"
  by (auto simp: by_id_def quartet_remedies_def sample_remedy_def)

definition sample_plan :: filing_plan where
  "sample_plan = plan_of quartet_option FT_MULTIPLE_FILINGS_REQUIRED (sample_spec ''f'' [''a'', ''b''])
     [sample_remedy ''a'', sample_remedy ''b'']"

lemma sample_basis:
  assumes "{x, y} \<subseteq> {''a'', ''b'', ''c'', ''d''}"
  shows "unit_basis (by_id rem_remedy_id quartet_remedies) (by_id das_deadline_id []) [''e''] (sample_spec i [x, y])
    [sample_remedy x, sample_remedy y]"
  using assms by (auto simp: unit_basis_def sample_spec_def quartet_known one_route_def route_of_def sample_remedy_def
      deadline_ids_def List.map_filter_simps)

lemma quartet_made: "\<forall>r \<in> set quartet_remedies. remedy_option_init r = Inr r" "strategy_option_init quartet_option = Inr quartet_option"
    "distinct (map rem_remedy_id quartet_remedies)"
  by (simp_all add: quartet_remedies_def sample_remedy_def remedy_option_init_def line_tuple_Cons strategy_option_init_def
      quartet_option_def sample_option_def)

lemma sample_spec_lines: "is_line i \<Longrightarrow> line_tuple ids \<Longrightarrow> spec_lines (sample_spec i ids)"
  by (simp add: spec_lines_def sample_spec_def line_tuple_Cons)

lemma sample_plan_made: "filing_plan_init sample_plan = Inr sample_plan"
proof -
  have f: "is_line ''f''" by (simp add: line_literal)
  have s: "spec_lines (sample_spec ''f'' [''a'', ''b''])" using f by (intro sample_spec_lines) (simp_all add: line_tuple_Cons)
  have "plan_unit quartet_option FT_MULTIPLE_FILINGS_REQUIRED (by_id rem_remedy_id quartet_remedies) (by_id das_deadline_id [])
      [''e''] (sample_spec ''f'' [''a'', ''b'']) = Inr sample_plan"
    unfolding sample_plan_def
    by (rule planned_unit [OF sample_basis s _ quartet_made(1)]) (simp_all add: quartet_option_def sample_option_def)
  then show ?thesis unfolding plan_unit_Inr by blast
qed

lemma sample_execution_ready: "execution_ready (by_id rem_remedy_id quartet_remedies) sample_plan sample_execution"
  by (auto simp: execution_ready_def sample_plan_def plan_of_def sample_spec_def sample_execution_def quartet_known
      sample_remedy_def)

lemma preflight_ready_exact_witness:
  "\<exists>r. preflight_evaluate sample_plan quartet_remedies [] [''e''] sample_execution = Inr r \<and>
     pfr_final_status r = PFF_FILING_READY"
proof -
  have "plan_covered (by_id rem_remedy_id quartet_remedies) (by_id das_deadline_id []) [''e''] sample_plan"
    unfolding sample_plan_def by (rule unit_basis_covered [OF sample_basis]) simp
  moreover have "is_text ''e''" by (simp add: line_literal)
  moreover have "fes_filing_id sample_execution = fpl_filing_id sample_plan" "fpl_allegations_or_grounds sample_plan \<noteq> []"
      "fpl_topology_status sample_plan = FT_MULTIPLE_FILINGS_REQUIRED"
    by (simp_all add: sample_plan_def plan_of_def sample_spec_def sample_execution_def)
  ultimately show ?thesis
    using preflight_ready_exact [OF sample_plan_made, of "[]" quartet_remedies "[''e'']" sample_execution]
      quartet_made(3) sample_execution_ready by simp
qed

lemma sample_spec_made: "filing_spec_init (sample_spec ''f'' [''a'', ''b'']) = Inr (sample_spec ''f'' [''a'', ''b''])"
    "filing_spec_init (sample_spec ''g'' [''c'', ''d'']) = Inr (sample_spec ''g'' [''c'', ''d''])"
  by (simp_all add: filing_spec_init_def sample_spec_def filing_nonblank_def filing_unique_def strip_def is_space_def)

lemma planned_filing_ready_exact_witness:
  "\<exists>plans p r. filing_plans quartet_decision [quartet_option] quartet_topology quartet_remedies [] [''e'']
      [sample_spec ''f'' [''a'', ''b''], sample_spec ''g'' [''c'', ''d'']] = Inr plans \<and> p \<in> set plans \<and>
    preflight_evaluate p quartet_remedies [] [''e''] sample_execution = Inr r \<and> pfr_final_status r = PFF_FILING_READY"
proof -
  obtain plans where p: "filing_plans quartet_decision [quartet_option] quartet_topology quartet_remedies [] [''e'']
      [sample_spec ''f'' [''a'', ''b''], sample_spec ''g'' [''c'', ''d'']] = Inr plans"
    using quartet_plans by blast
  then obtain s where run: "map_result (plan_unit s (ftd_status quartet_topology) (by_id rem_remedy_id quartet_remedies)
      (by_id das_deadline_id []) [''e'']) [sample_spec ''f'' [''a'', ''b''], sample_spec ''g'' [''c'', ''d'']] = Inr plans"
    unfolding filing_plans_Inr by blast
  then obtain q qs where q: "plans = q # qs" "plan_unit s (ftd_status quartet_topology) (by_id rem_remedy_id quartet_remedies)
      (by_id das_deadline_id []) [''e''] (sample_spec ''f'' [''a'', ''b'']) = Inr q" by auto
  then obtain rs where rs: "q = plan_of s (ftd_status quartet_topology) (sample_spec ''f'' [''a'', ''b'']) rs"
    unfolding plan_unit_Inr by blast
  have "fes_filing_id sample_execution = fpl_filing_id q" "execution_ready (by_id rem_remedy_id quartet_remedies) q sample_execution"
    unfolding rs by (auto simp: execution_ready_def plan_of_def sample_spec_def sample_execution_def quartet_known sample_remedy_def)
  moreover have "\<forall>f \<in> set [sample_spec ''f'' [''a'', ''b''], sample_spec ''g'' [''c'', ''d'']]. filing_spec_init f = Inr f"
    using sample_spec_made by simp
  ultimately show ?thesis using planned_filing_ready_exact [OF p, of q sample_execution] p q(1) by auto
qed

lemma safe_strategy_reaches_plans_witness:
  "\<exists>d t plans. strategy_decide [quartet_option] quartet_remedies [''e''] [''e''] [''r''] = Inr d \<and>
     topology_decide quartet_option quartet_remedies (Some (sample_consolidation [[''a'', ''b''], [''c'', ''d'']])) = Inr t \<and>
     filing_plans d [quartet_option] t quartet_remedies [] [''e'']
       [sample_spec ''f'' [''a'', ''b''], sample_spec ''g'' [''c'', ''d'']] = Inr plans \<and>
     map fpl_remedy_ids plans = [[''a'', ''b''], [''c'', ''d'']]"
proof -
  let ?c = "sample_consolidation [[''a'', ''b''], [''c'', ''d'']]" and ?m = "by_id rem_remedy_id quartet_remedies"
  let ?specs = "[sample_spec ''f'' [''a'', ''b''], sample_spec ''g'' [''c'', ''d'']]"
  have fg: "is_line ''f''" "is_line ''g''" by (simp_all add: line_literal)
  have c: "\<forall>c. Some ?c = Some c \<longrightarrow> consolidation_init c = Inr c"
    by (simp add: consolidation_init_Inr sample_consolidation_def consolidated_ids_def line_tuple_Cons)
  have safe: "filter (safe_option ?m [''e'']) [quartet_option] = [quartet_option]"
    by (simp add: safe_option_def quartet_option_def sample_option_def quartet_known sample_remedy_def)
  have groups: "filing_groups ?m (sto_remedy_ids quartet_option) (Some ?c) [[''a'', ''b''], [''c'', ''d'']]"
    by (simp add: filing_groups_def quartet_option_def quartet_known sample_remedy_def route_of_def sample_consolidation_def)
  have specs: "map fsp_remedy_ids ?specs = [[''a'', ''b''], [''c'', ''d'']]" "distinct (map fsp_filing_id ?specs)"
    by (simp_all add: sample_spec_def)
  have units: "\<forall>f \<in> set ?specs. spec_lines f \<and> (\<exists>rs. unit_basis ?m (by_id das_deadline_id []) [''e''] f rs)"
    using fg sample_basis [of "''a''" "''b''" "''f''"] sample_basis [of "''c''" "''d''" "''g''"]
    by (auto intro!: sample_spec_lines simp: line_tuple_Cons)
  have opts: "\<forall>s \<in> set [quartet_option]. strategy_option_init s = Inr s" using quartet_made(2) by simp
  have "line_tuple [''e'']" "line_tuple [''r'']" by (simp_all add: line_tuple_Cons)
  from safe_strategy_reaches_plans [OF opts _ quartet_made(1,3) _ this(1) this(1) this(2) _ _ _ safe c groups specs units]
  show ?thesis by auto
qed

end
