(* ===== verification/CIRP_Report.thy ===== *)
theory CIRP_Report
  imports CIRP_Preflight
begin

text \<open>
  \<^verbatim>\<open>core/cirp/report.py\<close>: the case report, a projection of the derived artifacts, and its status.
\<close>

section \<open>The report\<close>

definition CIRP_REPORT_SCHEMA_V1 :: string where "CIRP_REPORT_SCHEMA_V1 = ''lukart.cirp.report.v1''"

datatype report_status = CR_READY_TO_FILE | CR_NOT_READY | CR_NEEDS_EVIDENCE | CR_DECISION_REQUIRED | CR_NO_SAFE_OPTION
  | CR_NO_FILING_REQUIRED | CR_ABSTAIN

fun report_status_value :: "report_status \<Rightarrow> string" where
  "report_status_value CR_READY_TO_FILE = ''READY_TO_FILE''"
| "report_status_value CR_NOT_READY = ''NOT_READY''"
| "report_status_value CR_NEEDS_EVIDENCE = ''NEEDS_EVIDENCE''"
| "report_status_value CR_DECISION_REQUIRED = ''DECISION_REQUIRED''"
| "report_status_value CR_NO_SAFE_OPTION = ''NO_SAFE_OPTION''"
| "report_status_value CR_NO_FILING_REQUIRED = ''NO_FILING_REQUIRED''"
| "report_status_value CR_ABSTAIN = ''ABSTAIN''"

record cirp_report =
  rpt_case_id :: string
  rpt_run_id :: string
  rpt_document_summary :: string
  rpt_procedural_summary :: string
  rpt_deadline_summaries :: "string list"
  rpt_remedy_summaries :: "string list"
  rpt_evidence_gaps :: "string list"
  rpt_strategy_status :: string
  rpt_strategy_summary :: string
  rpt_filing_topology_status :: string
  rpt_filing_ids :: "string list"
  rpt_preflight_statuses :: "string list"
  rpt_open_questions :: "string list"
  rpt_critical_unknowns :: "string list"
  rpt_status :: report_status
  rpt_schema :: string

text \<open>This module's \<^verbatim>\<open>_unique\<close> is the one of the preflight.\<close>

definition report_text :: "string \<times> string \<Rightarrow> unit result" where
  "report_text f = (case f of (field_name, v) \<Rightarrow>
     if v = [] \<or> v \<noteq> strip v then raise_cirp (field_name @ '' must be canonical and nonblank'') else return ())"

definition report_init :: "cirp_report \<Rightarrow> cirp_report result" where
  "report_init r =
     (if rpt_schema r \<noteq> CIRP_REPORT_SCHEMA_V1 then raise_cirp ''unsupported CIRP report schema''
      else and_then (map_result report_text [(''case_id'', rpt_case_id r), (''run_id'', rpt_run_id r),
          (''document_summary'', rpt_document_summary r), (''procedural_summary'', rpt_procedural_summary r),
          (''strategy_status'', rpt_strategy_status r), (''strategy_summary'', rpt_strategy_summary r),
          (''filing_topology_status'', rpt_filing_topology_status r)]) (\<lambda>_.
      and_then (map_result (\<lambda>(n, v). preflight_unique v n) [(''deadline_summaries'', rpt_deadline_summaries r),
          (''remedy_summaries'', rpt_remedy_summaries r), (''evidence_gaps'', rpt_evidence_gaps r),
          (''filing_ids'', rpt_filing_ids r), (''preflight_statuses'', rpt_preflight_statuses r),
          (''open_questions'', rpt_open_questions r), (''critical_unknowns'', rpt_critical_unknowns r)]) (\<lambda>_.
      if rpt_critical_unknowns r \<noteq> [] \<and> rpt_status r = CR_READY_TO_FILE
      then raise_cirp ''READY_TO_FILE report cannot hide critical unknowns''
      else return r)))"

definition report_dict :: "cirp_report \<Rightarrow> (string \<times> json) list" where
  "report_dict r =
    [(''schema'', JStr (rpt_schema r)), (''case_id'', JStr (rpt_case_id r)), (''run_id'', JStr (rpt_run_id r)),
     (''document_summary'', JStr (rpt_document_summary r)), (''procedural_summary'', JStr (rpt_procedural_summary r)),
     (''deadline_summaries'', jstrs (rpt_deadline_summaries r)), (''remedy_summaries'', jstrs (rpt_remedy_summaries r)),
     (''evidence_gaps'', jstrs (rpt_evidence_gaps r)), (''strategy_status'', JStr (rpt_strategy_status r)),
     (''strategy_summary'', JStr (rpt_strategy_summary r)),
     (''filing_topology_status'', JStr (rpt_filing_topology_status r)), (''filing_ids'', jstrs (rpt_filing_ids r)),
     (''preflight_statuses'', jstrs (rpt_preflight_statuses r)), (''open_questions'', jstrs (rpt_open_questions r)),
     (''critical_unknowns'', jstrs (rpt_critical_unknowns r)), (''status'', JStr (report_status_value (rpt_status r)))]"

definition report_canonical_json :: "cirp_report \<Rightarrow> string" where
  "report_canonical_json r = canonical_json (JObj (report_dict r))"

definition report_digest :: "cirp_report \<Rightarrow> string" where
  "report_digest r = content_digest (JObj (report_dict r))"

section \<open>The builder\<close>

definition evidence_gap_ids :: "evidence_requirement list \<Rightarrow> string list" where
  "evidence_gap_ids requirements = map evr_requirement_id
     (filter (\<lambda>e. evr_status e \<in> {ER_MISSING, ER_CONFLICTING, ER_STALE, ER_UNVERIFIED}) requirements)"

definition status_of_report ::
  "strategy_decision \<Rightarrow> topology_decision \<Rightarrow> preflight_result list \<Rightarrow> string list \<Rightarrow> string list \<Rightarrow> report_status" where
  "status_of_report d t preflights gaps critical_unknowns =
     (if critical_unknowns \<noteq> [] then CR_ABSTAIN
      else if sdc_decision_status d = SD_NEEDS_EVIDENCE then CR_NEEDS_EVIDENCE
      else if sdc_decision_status d = SD_DECISION_REQUIRED then CR_DECISION_REQUIRED
      else if sdc_decision_status d = SD_NO_SAFE_OPTION then CR_NO_SAFE_OPTION
      else if sdc_decision_status d = SD_ABSTAIN then CR_ABSTAIN
      else if gaps \<noteq> [] then CR_NEEDS_EVIDENCE
      else if ftd_status t = FT_NO_FILING_REQUIRED then CR_NO_FILING_REQUIRED
      else if ftd_status t = FT_CONSOLIDATION_UNCERTAIN then CR_ABSTAIN
      else if preflights = [] then CR_NOT_READY
      else if list_ex (\<lambda>p. pfr_final_status p = PFF_ABSTAIN) preflights then CR_ABSTAIN
      else if list_ex (\<lambda>p. pfr_final_status p \<noteq> PFF_FILING_READY) preflights then CR_NOT_READY
      else CR_READY_TO_FILE)"

record report_input =
  rin_case_id :: string
  rin_run_id :: string
  rin_document_summary :: string
  rin_procedural_summary :: string
  rin_deadline_summaries :: "string list"
  rin_remedy_summaries :: "string list"
  rin_evidence_requirements :: "evidence_requirement list"
  rin_strategy_decision :: strategy_decision
  rin_strategy_summary :: string
  rin_topology :: topology_decision
  rin_filing_plans :: "filing_plan list"
  rin_preflights :: "preflight_result list"
  rin_open_questions :: "string list"
  rin_critical_unknowns :: "string list"

definition report_build :: "report_input \<Rightarrow> cirp_report result" where
  "report_build q =
     (let filing_ids = map fpl_filing_id (rin_filing_plans q);
          preflight_ids = map pfr_filing_id (rin_preflights q);
          gaps = evidence_gap_ids (rin_evidence_requirements q) in
      if \<not> distinct filing_ids then raise_cirp ''report filing plans contain duplicate filing_id values''
      else if \<not> distinct preflight_ids
      then raise_cirp ''report preflight results contain duplicate filing_id values''
      else if set preflight_ids \<noteq> set filing_ids
      then raise_cirp ''report requires one preflight result per filing plan''
      else and_then (preflight_unique (rin_critical_unknowns q) ''critical_unknowns'') (\<lambda>critical_unknowns.
      and_then (preflight_unique (rin_open_questions q) ''open_questions'') (\<lambda>open_questions.
      report_init
        \<lparr>rpt_case_id = rin_case_id q, rpt_run_id = rin_run_id q, rpt_document_summary = rin_document_summary q,
         rpt_procedural_summary = rin_procedural_summary q, rpt_deadline_summaries = rin_deadline_summaries q,
         rpt_remedy_summaries = rin_remedy_summaries q, rpt_evidence_gaps = gaps,
         rpt_strategy_status = strategy_status_value (sdc_decision_status (rin_strategy_decision q)),
         rpt_strategy_summary = rin_strategy_summary q,
         rpt_filing_topology_status = topology_status_value (ftd_status (rin_topology q)),
         rpt_filing_ids = filing_ids,
         rpt_preflight_statuses =
           map (\<lambda>p. pfr_filing_id p @ '':'' @ preflight_final_value (pfr_final_status p)) (rin_preflights q),
         rpt_open_questions = open_questions, rpt_critical_unknowns = critical_unknowns,
         rpt_status = status_of_report (rin_strategy_decision q) (rin_topology q) (rin_preflights q) gaps
           critical_unknowns,
         rpt_schema = CIRP_REPORT_SCHEMA_V1\<rparr>)))"

section \<open>Facts\<close>

lemma report_ready:
  "status_of_report d t preflights gaps unknowns = CR_READY_TO_FILE \<longleftrightarrow>
     unknowns = [] \<and> sdc_decision_status d = SD_RECOMMENDED \<and> gaps = [] \<and>
     ftd_status t \<in> {FT_SINGLE_FILING_SAFE, FT_MULTIPLE_FILINGS_REQUIRED} \<and> preflights \<noteq> [] \<and>
     (\<forall>p \<in> set preflights. pfr_final_status p = PFF_FILING_READY)"
  by (cases "sdc_decision_status d"; cases "ftd_status t") (auto simp: status_of_report_def list_ex_iff)

lemma evidence_gap_ids_Nil:
  "evidence_gap_ids requirements = [] \<longleftrightarrow> (\<forall>e \<in> set requirements. evr_status e \<in> {ER_PRESENT, ER_NOT_APPLICABLE})"
proof -
  have "evr_status e \<notin> {ER_MISSING, ER_CONFLICTING, ER_STALE, ER_UNVERIFIED} \<longleftrightarrow> evr_status e \<in> {ER_PRESENT, ER_NOT_APPLICABLE}"
    for e by (cases "evr_status e") simp_all
  then show ?thesis by (auto simp: evidence_gap_ids_def filter_empty_conv)
qed

lemma report_build_Inr:
  "report_build q = Inr r \<Longrightarrow>
     rpt_status r = status_of_report (rin_strategy_decision q) (rin_topology q) (rin_preflights q)
       (evidence_gap_ids (rin_evidence_requirements q)) (rin_critical_unknowns q) \<and>
     set (map pfr_filing_id (rin_preflights q)) = set (map fpl_filing_id (rin_filing_plans q)) \<and>
     rpt_critical_unknowns r = rin_critical_unknowns q \<and> rpt_open_questions r = rin_open_questions q \<and>
     rpt_evidence_gaps r = evidence_gap_ids (rin_evidence_requirements q)"
  by (auto simp: report_build_def report_init_def preflight_unique_Inr Let_def split: if_splits)

end
