(* ===== verification/CIRP_Assessments.thy ===== *)
theory CIRP_Assessments
  imports CIRP_Contracts
begin

text \<open>
  The inputs of a run in \<^verbatim>\<open>core/cirp/contracts.py\<close>: the identity of the run and the document, procedural and
  service assessments.
\<close>

section \<open>Run identity\<close>

definition CIRP_VERSION_V1 :: string where "CIRP_VERSION_V1 = ''1.0''"

definition CIRP_RUN_SCHEMA_V1 :: string where "CIRP_RUN_SCHEMA_V1 = ''lukart.cirp.run.v1''"

record run_identity =
  cri_case_id :: string
  cri_input_evidence_ids :: "string list"
  cri_input_event_ids :: "string list"
  cri_rule_pack_ids :: "string list"
  cri_rule_pack_digest :: string
  cri_policy_identity :: string
  cri_runtime_identity :: string
  cri_evaluation_time :: py_datetime
  cri_configuration_digest :: string
  cri_model_identity :: "string option"
  cri_cirp_version :: string
  cri_schema :: string

definition run_identity_init :: "run_identity \<Rightarrow> run_identity result" where
  "run_identity_init r =
     (if cri_schema r \<noteq> CIRP_RUN_SCHEMA_V1 \<or> cri_cirp_version r \<noteq> CIRP_VERSION_V1
      then raise_cirp ''unsupported CIRP run schema/version''
      else and_then (unique_fields [(''input_evidence_ids'', cri_input_evidence_ids r),
          (''input_event_ids'', cri_input_event_ids r), (''rule_pack_ids'', cri_rule_pack_ids r)]) (\<lambda>_.
      if cri_input_evidence_ids r = [] \<and> cri_input_event_ids r = []
      then raise_cirp ''CIRP run requires evidence or event input''
      else and_then (cirp_digest (cri_rule_pack_digest r) ''rule_pack_digest'') (\<lambda>pack_digest.
      and_then (cirp_digest (cri_configuration_digest r) ''configuration_digest'') (\<lambda>configuration_digest.
      and_then (nonblank_fields [(''policy_identity'', cri_policy_identity r),
          (''runtime_identity'', cri_runtime_identity r)]) (\<lambda>_.
      and_then (cirp_optional (cri_model_identity r) ''model_identity'') (\<lambda>_.
      and_then (cirp_aware (cri_evaluation_time r) ''evaluation_time'') (\<lambda>_.
      return (r\<lparr>cri_rule_pack_digest := pack_digest, cri_configuration_digest := configuration_digest\<rparr>))))))))"

definition run_identity_dict :: "run_identity \<Rightarrow> (string \<times> json) list" where
  "run_identity_dict r =
    [(''schema'', JStr (cri_schema r)), (''cirp_version'', JStr (cri_cirp_version r)),
     (''case_id'', JObj [(''value'', JStr (cri_case_id r))]), (''input_evidence_ids'', jstrs (cri_input_evidence_ids r)),
     (''input_event_ids'', jstrs (cri_input_event_ids r)), (''rule_pack_ids'', jstrs (cri_rule_pack_ids r)),
     (''rule_pack_digest'', JStr (cri_rule_pack_digest r)), (''policy_identity'', JStr (cri_policy_identity r)),
     (''runtime_identity'', JStr (cri_runtime_identity r)), (''model_identity'', opt_id (cri_model_identity r)),
     (''evaluation_time'', JStr (isoformat (cri_evaluation_time r))),
     (''configuration_digest'', JStr (cri_configuration_digest r))]"

definition run_identity_digest :: "run_identity \<Rightarrow> string" where
  "run_identity_digest r = content_digest (JObj (run_identity_dict r))"

section \<open>Document assessment\<close>

definition DOCUMENT_ASSESSMENT_SCHEMA_V1 :: string where
  "DOCUMENT_ASSESSMENT_SCHEMA_V1 = ''lukart.cirp.document-assessment.v1''"

datatype document_kind = DK_DECISION | DK_ORDER | DK_NOTICE | DK_SUMMONS | DK_REQUEST | DK_CLAIM | DK_RESPONSE | DK_JUDGMENT
  | DK_ENFORCEMENT_NOTICE | DK_INFORMATION | DK_CORRESPONDENCE | DK_OTHER | DK_UNKNOWN

fun document_kind_value :: "document_kind \<Rightarrow> string" where
  "document_kind_value DK_DECISION = ''DECISION''"
| "document_kind_value DK_ORDER = ''ORDER''"
| "document_kind_value DK_NOTICE = ''NOTICE''"
| "document_kind_value DK_SUMMONS = ''SUMMONS''"
| "document_kind_value DK_REQUEST = ''REQUEST''"
| "document_kind_value DK_CLAIM = ''CLAIM''"
| "document_kind_value DK_RESPONSE = ''RESPONSE''"
| "document_kind_value DK_JUDGMENT = ''JUDGMENT''"
| "document_kind_value DK_ENFORCEMENT_NOTICE = ''ENFORCEMENT_NOTICE''"
| "document_kind_value DK_INFORMATION = ''INFORMATION''"
| "document_kind_value DK_CORRESPONDENCE = ''CORRESPONDENCE''"
| "document_kind_value DK_OTHER = ''OTHER''"
| "document_kind_value DK_UNKNOWN = ''UNKNOWN''"

datatype assessment_status = AS_VERIFIED | AS_PROVISIONAL | AS_UNKNOWN | AS_UNRESOLVED

fun assessment_status_value :: "assessment_status \<Rightarrow> string" where
  "assessment_status_value AS_VERIFIED = ''VERIFIED''"
| "assessment_status_value AS_PROVISIONAL = ''PROVISIONAL''"
| "assessment_status_value AS_UNKNOWN = ''UNKNOWN''"
| "assessment_status_value AS_UNRESOLVED = ''UNRESOLVED''"

record document_assessment =
  doa_document_id :: string
  doa_source_evidence_id :: string
  doa_document_kind :: document_kind
  doa_issuer :: "string option"
  doa_recipient :: "string option"
  doa_document_date :: "py_date option"
  doa_case_reference :: "string option"
  doa_subject :: "string option"
  doa_operative_content :: "string list"
  doa_requested_actions :: "string list"
  doa_stated_deadlines :: "string list"
  doa_classification_status :: assessment_status
  doa_evidence_refs :: "string list"
  doa_open_questions :: "string list"
  doa_schema :: string

definition document_assessment_init :: "document_assessment \<Rightarrow> document_assessment result" where
  "document_assessment_init d =
     (if doa_schema d \<noteq> DOCUMENT_ASSESSMENT_SCHEMA_V1 then raise_cirp ''unsupported document assessment schema''
      else and_then (nonblank_fields [(''document_id'', doa_document_id d),
          (''source_evidence_id'', doa_source_evidence_id d)]) (\<lambda>_.
      and_then (optional_fields [(''issuer'', doa_issuer d), (''recipient'', doa_recipient d),
          (''case_reference'', doa_case_reference d), (''subject'', doa_subject d)]) (\<lambda>_.
      and_then (unique_fields [(''operative_content'', doa_operative_content d),
          (''requested_actions'', doa_requested_actions d), (''stated_deadlines'', doa_stated_deadlines d),
          (''evidence_refs'', doa_evidence_refs d), (''open_questions'', doa_open_questions d)]) (\<lambda>_.
      if doa_classification_status d = AS_VERIFIED \<and> doa_document_kind d = DK_UNKNOWN
      then raise_cirp ''VERIFIED document classification cannot be UNKNOWN''
      else if doa_classification_status d = AS_VERIFIED \<and> doa_evidence_refs d = []
      then raise_cirp ''VERIFIED document classification requires evidence_refs''
      else return d))))"

definition document_assessment_dict :: "document_assessment \<Rightarrow> (string \<times> json) list" where
  "document_assessment_dict d =
    [(''schema'', JStr (doa_schema d)), (''document_id'', JStr (doa_document_id d)),
     (''source_evidence_id'', JStr (doa_source_evidence_id d)),
     (''document_kind'', JStr (document_kind_value (doa_document_kind d))), (''issuer'', opt_id (doa_issuer d)),
     (''recipient'', opt_id (doa_recipient d)), (''document_date'', opt_date (doa_document_date d)),
     (''case_reference'', opt_id (doa_case_reference d)), (''subject'', opt_id (doa_subject d)),
     (''operative_content'', jstrs (doa_operative_content d)), (''requested_actions'', jstrs (doa_requested_actions d)),
     (''stated_deadlines'', jstrs (doa_stated_deadlines d)),
     (''classification_status'', JStr (assessment_status_value (doa_classification_status d))),
     (''evidence_refs'', jstrs (doa_evidence_refs d)), (''open_questions'', jstrs (doa_open_questions d))]"

section \<open>Procedural assessment\<close>

definition PROCEDURAL_ASSESSMENT_SCHEMA_V1 :: string where
  "PROCEDURAL_ASSESSMENT_SCHEMA_V1 = ''lukart.cirp.procedural-assessment.v1''"

datatype procedural_stage = PG_PRE_PROCEEDING | PG_FIRST_INSTANCE | PG_RESPONSE_REQUIRED | PG_APPEAL | PG_COMPLAINT
  | PG_COURT_REVIEW | PG_ENFORCEMENT | PG_POST_JUDGMENT | PG_EXTRAORDINARY_REMEDY | PG_INFORMATION_ONLY | PG_UNKNOWN

fun procedural_stage_value :: "procedural_stage \<Rightarrow> string" where
  "procedural_stage_value PG_PRE_PROCEEDING = ''PRE_PROCEEDING''"
| "procedural_stage_value PG_FIRST_INSTANCE = ''FIRST_INSTANCE''"
| "procedural_stage_value PG_RESPONSE_REQUIRED = ''RESPONSE_REQUIRED''"
| "procedural_stage_value PG_APPEAL = ''APPEAL''"
| "procedural_stage_value PG_COMPLAINT = ''COMPLAINT''"
| "procedural_stage_value PG_COURT_REVIEW = ''COURT_REVIEW''"
| "procedural_stage_value PG_ENFORCEMENT = ''ENFORCEMENT''"
| "procedural_stage_value PG_POST_JUDGMENT = ''POST_JUDGMENT''"
| "procedural_stage_value PG_EXTRAORDINARY_REMEDY = ''EXTRAORDINARY_REMEDY''"
| "procedural_stage_value PG_INFORMATION_ONLY = ''INFORMATION_ONLY''"
| "procedural_stage_value PG_UNKNOWN = ''UNKNOWN''"

record procedural_assessment =
  pra_jurisdiction :: string
  pra_procedure_family :: string
  pra_procedural_stage :: procedural_stage
  pra_issuing_authority :: "string option"
  pra_competent_authority :: "string option"
  pra_review_authority :: "string option"
  pra_filing_authority :: "string option"
  pra_filing_via :: "string option"
  pra_procedural_subject :: string
  pra_available_action_required :: "bool option"
  pra_status :: assessment_status
  pra_supporting_rules :: "string list"
  pra_evidence_refs :: "string list"
  pra_unresolved :: "string list"
  pra_schema :: string

definition procedural_assessment_init :: "procedural_assessment \<Rightarrow> procedural_assessment result" where
  "procedural_assessment_init p =
     (if pra_schema p \<noteq> PROCEDURAL_ASSESSMENT_SCHEMA_V1 then raise_cirp ''unsupported procedural assessment schema''
      else and_then (nonblank_fields [(''jurisdiction'', pra_jurisdiction p), (''procedure_family'', pra_procedure_family p),
          (''procedural_subject'', pra_procedural_subject p)]) (\<lambda>_.
      and_then (optional_fields [(''issuing_authority'', pra_issuing_authority p),
          (''competent_authority'', pra_competent_authority p), (''review_authority'', pra_review_authority p),
          (''filing_authority'', pra_filing_authority p), (''filing_via'', pra_filing_via p)]) (\<lambda>_.
      and_then (unique_fields [(''supporting_rules'', pra_supporting_rules p), (''evidence_refs'', pra_evidence_refs p),
          (''unresolved'', pra_unresolved p)]) (\<lambda>_.
      if pra_status p = AS_VERIFIED \<and> pra_procedural_stage p = PG_UNKNOWN
      then raise_cirp ''VERIFIED procedural stage cannot be UNKNOWN''
      else if pra_status p = AS_VERIFIED \<and> pra_evidence_refs p = []
      then raise_cirp ''VERIFIED procedural assessment requires evidence_refs''
      else return p))))"

definition opt_bool :: "bool option \<Rightarrow> json" where
  "opt_bool b = (case b of None \<Rightarrow> JNull | Some x \<Rightarrow> JBool x)"

definition procedural_assessment_dict :: "procedural_assessment \<Rightarrow> (string \<times> json) list" where
  "procedural_assessment_dict p =
    [(''schema'', JStr (pra_schema p)), (''jurisdiction'', JStr (pra_jurisdiction p)),
     (''procedure_family'', JStr (pra_procedure_family p)),
     (''procedural_stage'', JStr (procedural_stage_value (pra_procedural_stage p))),
     (''issuing_authority'', opt_id (pra_issuing_authority p)), (''competent_authority'', opt_id (pra_competent_authority p)),
     (''review_authority'', opt_id (pra_review_authority p)), (''filing_authority'', opt_id (pra_filing_authority p)),
     (''filing_via'', opt_id (pra_filing_via p)), (''procedural_subject'', JStr (pra_procedural_subject p)),
     (''available_action_required'', opt_bool (pra_available_action_required p)),
     (''status'', JStr (assessment_status_value (pra_status p))), (''supporting_rules'', jstrs (pra_supporting_rules p)),
     (''evidence_refs'', jstrs (pra_evidence_refs p)), (''unresolved'', jstrs (pra_unresolved p))]"

section \<open>Service assessment\<close>

definition SERVICE_ASSESSMENT_SCHEMA_V1 :: string where
  "SERVICE_ASSESSMENT_SCHEMA_V1 = ''lukart.cirp.service-assessment.v1''"

datatype service_status = SV_VERIFIED | SV_USER_REPORTED | SV_DOCUMENT_STATED | SV_MISSING | SV_CONFLICTING
  | SV_NOT_APPLICABLE

fun service_status_value :: "service_status \<Rightarrow> string" where
  "service_status_value SV_VERIFIED = ''VERIFIED''"
| "service_status_value SV_USER_REPORTED = ''USER_REPORTED''"
| "service_status_value SV_DOCUMENT_STATED = ''DOCUMENT_STATED''"
| "service_status_value SV_MISSING = ''MISSING''"
| "service_status_value SV_CONFLICTING = ''CONFLICTING''"
| "service_status_value SV_NOT_APPLICABLE = ''NOT_APPLICABLE''"

text \<open>The time of service is only ever written: it is the text its \<^verbatim>\<open>isoformat\<close> gives.\<close>

record service_assessment =
  sva_service_required :: "bool option"
  sva_service_method :: "string option"
  sva_service_date :: "py_date option"
  sva_service_time :: "string option"
  sva_evidence_refs :: "string list"
  sva_source_status :: service_status
  sva_conflicting_dates :: "py_date list"
  sva_assessment_status :: service_status
  sva_schema :: string

definition service_assessment_init :: "service_assessment \<Rightarrow> service_assessment result" where
  "service_assessment_init s =
     (if sva_schema s \<noteq> SERVICE_ASSESSMENT_SCHEMA_V1 then raise_cirp ''unsupported service assessment schema''
      else and_then (cirp_optional (sva_service_method s) ''service_method'') (\<lambda>_.
      and_then (cirp_unique (sva_evidence_refs s) ''evidence_refs'') (\<lambda>_.
      if \<not> distinct (sva_conflicting_dates s) then raise_cirp ''conflicting_dates cannot contain duplicates''
      else if sva_assessment_status s = SV_VERIFIED \<and> (sva_service_date s = None \<or> sva_evidence_refs s = [])
      then raise_cirp ''VERIFIED service requires date and evidence''
      else if sva_assessment_status s = SV_VERIFIED \<and> sva_conflicting_dates s \<noteq> []
      then raise_cirp ''VERIFIED service cannot retain conflicting dates''
      else if sva_assessment_status s = SV_CONFLICTING \<and>
        (sva_service_date s \<noteq> None \<or> length (sva_conflicting_dates s) < 2)
      then raise_cirp ''CONFLICTING service requires >=2 dates and no settled date''
      else if sva_assessment_status s = SV_MISSING \<and> sva_service_date s \<noteq> None
      then raise_cirp ''MISSING service cannot have service_date''
      else if sva_assessment_status s = SV_NOT_APPLICABLE \<and>
        (sva_service_required s \<noteq> Some False \<or> sva_service_date s \<noteq> None)
      then raise_cirp ''NOT_APPLICABLE service requires service_required=False''
      else return s)))"

definition service_assessment_dict :: "service_assessment \<Rightarrow> (string \<times> json) list" where
  "service_assessment_dict s =
    [(''schema'', JStr (sva_schema s)), (''service_required'', opt_bool (sva_service_required s)),
     (''service_method'', opt_id (sva_service_method s)), (''service_date'', opt_date (sva_service_date s)),
     (''service_time'', opt_id (sva_service_time s)), (''evidence_refs'', jstrs (sva_evidence_refs s)),
     (''source_status'', JStr (service_status_value (sva_source_status s))),
     (''conflicting_dates'', JList (map (\<lambda>d. JStr (iso_date d)) (sva_conflicting_dates s))),
     (''assessment_status'', JStr (service_status_value (sva_assessment_status s)))]"

text \<open>\<^verbatim>\<open>canonical_contract_json\<close> of a contract with this canonical dictionary.\<close>

definition canonical_contract_json :: "(string \<times> json) list \<Rightarrow> string" where
  "canonical_contract_json dict = canonical_json (JObj dict)"

section \<open>Facts\<close>

lemma assessments_same:
  "document_assessment_init d = Inr d' \<Longrightarrow> d' = d" "procedural_assessment_init p = Inr p' \<Longrightarrow> p' = p"
  "service_assessment_init s = Inr s' \<Longrightarrow> s' = s"
  by (auto simp: document_assessment_init_def procedural_assessment_init_def service_assessment_init_def split: if_splits)

text \<open>A VERIFIED service has one settled date and evidence for it.\<close>

lemma verified_service:
  "service_assessment_init s = Inr s \<Longrightarrow> sva_assessment_status s = SV_VERIFIED \<Longrightarrow>
     (\<exists>d. sva_service_date s = Some d) \<and> sva_evidence_refs s \<noteq> [] \<and> sva_conflicting_dates s = []"
  by (auto simp: service_assessment_init_def split: if_splits)

end
