(* ===== verification/CIRP_Replay.thy ===== *)
theory CIRP_Replay
  imports CIRP_Report CIRP_Assessments
begin

text \<open>
  \<^verbatim>\<open>core/cirp/replay.py\<close>: the manifest of a run, digests of its artifacts under the digest of its identity,
  and the comparison of two manifests.
\<close>

section \<open>Manifests\<close>

definition CIRP_REPLAY_MANIFEST_SCHEMA_V1 :: string where
  "CIRP_REPLAY_MANIFEST_SCHEMA_V1 = ''lukart.cirp.replay-manifest.v1''"

definition CIRP_REPLAY_COMPARISON_SCHEMA_V1 :: string where
  "CIRP_REPLAY_COMPARISON_SCHEMA_V1 = ''lukart.cirp.replay-comparison.v1''"

record artifact_ref =
  car_artifact_id :: string
  car_schema :: string
  car_digest :: string

definition artifact_ref_init :: "artifact_ref \<Rightarrow> artifact_ref result" where
  "artifact_ref_init a =
     and_then (cirp_nonblank (car_artifact_id a) ''artifact_id'') (\<lambda>_.
     and_then (cirp_nonblank (car_schema a) ''artifact schema'') (\<lambda>_.
     and_then (cirp_digest (car_digest a) ''artifact digest'') (\<lambda>digest. return (a\<lparr>car_digest := digest\<rparr>))))"

definition artifact_ref_dict :: "artifact_ref \<Rightarrow> (string \<times> json) list" where
  "artifact_ref_dict a =
    [(''artifact_id'', JStr (car_artifact_id a)), (''schema'', JStr (car_schema a)), (''digest'', JStr (car_digest a))]"

record replay_manifest =
  crm_run_identity_digest :: string
  crm_artifacts :: "artifact_ref list"
  crm_report_artifact_id :: string
  crm_cirp_version :: string
  crm_schema :: string

definition replay_manifest_init :: "replay_manifest \<Rightarrow> replay_manifest result" where
  "replay_manifest_init m =
     (if crm_schema m \<noteq> CIRP_REPLAY_MANIFEST_SCHEMA_V1 then raise_cirp ''unsupported CIRP replay manifest schema''
      else if crm_cirp_version m \<noteq> CIRP_VERSION_V1 then raise_cirp ''unsupported CIRP replay manifest version''
      else and_then (cirp_digest (crm_run_identity_digest m) ''run_identity_digest'') (\<lambda>run_digest.
      and_then (cirp_nonblank (crm_report_artifact_id m) ''report_artifact_id'') (\<lambda>report_id.
      if crm_artifacts m = [] then raise_cirp ''CIRP replay manifest requires artifacts''
      else if \<not> distinct (map car_artifact_id (crm_artifacts m))
      then raise_cirp ''CIRP replay manifest cannot contain duplicate artifact_id values''
      else let ordered = sort_key car_artifact_id (crm_artifacts m) in
      case filter (\<lambda>a. car_artifact_id a = report_id) ordered of
        [report] \<Rightarrow>
          if car_schema report \<noteq> CIRP_REPORT_SCHEMA_V1
          then raise_cirp ''report replay artifact must use lukart.cirp.report.v1''
          else return (m\<lparr>crm_run_identity_digest := run_digest, crm_artifacts := ordered\<rparr>)
      | _ \<Rightarrow> raise_cirp ''report_artifact_id must identify exactly one replay artifact'')))"

definition replay_manifest_build :: "run_identity \<Rightarrow> artifact_ref list \<Rightarrow> string \<Rightarrow> replay_manifest result" where
  "replay_manifest_build identity artifacts report_id =
     replay_manifest_init \<lparr>crm_run_identity_digest = run_identity_digest identity, crm_artifacts = artifacts,
       crm_report_artifact_id = report_id, crm_cirp_version = CIRP_VERSION_V1,
       crm_schema = CIRP_REPLAY_MANIFEST_SCHEMA_V1\<rparr>"

definition replay_manifest_dict :: "replay_manifest \<Rightarrow> (string \<times> json) list" where
  "replay_manifest_dict m =
    [(''schema'', JStr (crm_schema m)), (''cirp_version'', JStr (crm_cirp_version m)),
     (''run_identity_digest'', JStr (crm_run_identity_digest m)),
     (''artifacts'', JList (map (\<lambda>a. JObj (artifact_ref_dict a)) (crm_artifacts m))),
     (''report_artifact_id'', JStr (crm_report_artifact_id m))]"

definition replay_manifest_digest :: "replay_manifest \<Rightarrow> string" where
  "replay_manifest_digest m = content_digest (JObj (replay_manifest_dict m))"

section \<open>Comparison\<close>

record manifest_comparison =
  cmc_relation :: replay_relation
  cmc_expected_manifest_digest :: string
  cmc_actual_manifest_digest :: string
  cmc_run_identity_match :: bool
  cmc_missing_artifact_ids :: "string list"
  cmc_unexpected_artifact_ids :: "string list"
  cmc_mismatched_artifact_ids :: "string list"
  cmc_report_identity_match :: bool
  cmc_schema :: string

definition manifest_comparison_init :: "manifest_comparison \<Rightarrow> manifest_comparison result" where
  "manifest_comparison_init c =
     (if cmc_schema c \<noteq> CIRP_REPLAY_COMPARISON_SCHEMA_V1 then raise_cirp ''unsupported CIRP replay comparison schema''
      else and_then (cirp_digest (cmc_expected_manifest_digest c) ''expected_manifest_digest'') (\<lambda>expected.
      and_then (cirp_digest (cmc_actual_manifest_digest c) ''actual_manifest_digest'') (\<lambda>actual.
      and_then (cirp_unique (cmc_missing_artifact_ids c) ''missing_artifact_ids'') (\<lambda>missing.
      and_then (cirp_unique (cmc_unexpected_artifact_ids c) ''unexpected_artifact_ids'') (\<lambda>unexpected.
      and_then (cirp_unique (cmc_mismatched_artifact_ids c) ''mismatched_artifact_ids'') (\<lambda>mismatched.
      if cmc_relation c = IDENTICAL \<and> (\<not> cmc_run_identity_match c \<or> \<not> cmc_report_identity_match c \<or> missing \<noteq> [] \<or>
        unexpected \<noteq> [] \<or> mismatched \<noteq> [] \<or> expected \<noteq> actual)
      then raise_cirp ''IDENTICAL replay comparison cannot contain differences''
      else if cmc_relation c = CROSS_VERSION_COMPARABLE
      then raise_cirp ''CIRP v1 has no explicit cross-version replay compatibility contract''
      else return (c\<lparr>cmc_expected_manifest_digest := expected, cmc_actual_manifest_digest := actual,
        cmc_missing_artifact_ids := sort missing, cmc_unexpected_artifact_ids := sort unexpected,
        cmc_mismatched_artifact_ids := sort mismatched\<rparr>)))))))"

definition manifest_comparison_dict :: "manifest_comparison \<Rightarrow> (string \<times> json) list" where
  "manifest_comparison_dict c =
    [(''schema'', JStr (cmc_schema c)), (''relation'', JStr (replay_relation_value (cmc_relation c))),
     (''expected_manifest_digest'', JStr (cmc_expected_manifest_digest c)),
     (''actual_manifest_digest'', JStr (cmc_actual_manifest_digest c)),
     (''run_identity_match'', JBool (cmc_run_identity_match c)),
     (''missing_artifact_ids'', jstrs (cmc_missing_artifact_ids c)),
     (''unexpected_artifact_ids'', jstrs (cmc_unexpected_artifact_ids c)),
     (''mismatched_artifact_ids'', jstrs (cmc_mismatched_artifact_ids c)),
     (''report_identity_match'', JBool (cmc_report_identity_match c))]"

definition compare_manifests :: "replay_manifest \<Rightarrow> replay_manifest \<Rightarrow> manifest_comparison result" where
  "compare_manifests expected actual =
     (let expected_map = by_id car_artifact_id (rev (crm_artifacts expected));
          actual_map = by_id car_artifact_id (rev (crm_artifacts actual));
          expected_ids = map car_artifact_id (crm_artifacts expected);
          actual_ids = map car_artifact_id (crm_artifacts actual);
          missing = sorted_diff expected_ids actual_ids;
          unexpected = sorted_diff actual_ids expected_ids;
          common = sorted_set (filter (\<lambda>i. i \<in> set actual_ids) expected_ids);
          mismatched = filter (\<lambda>i. expected_map i \<noteq> actual_map i) common;
          run_match = (crm_run_identity_digest expected = crm_run_identity_digest actual);
          report_match = (crm_report_artifact_id expected = crm_report_artifact_id actual);
          expected_digest = replay_manifest_digest expected;
          actual_digest = replay_manifest_digest actual in
      manifest_comparison_init
        \<lparr>cmc_relation = (if missing \<noteq> [] \<or> unexpected \<noteq> [] then INCOMPLETE
           else if \<not> run_match \<or> \<not> report_match \<or> mismatched \<noteq> [] \<or> expected_digest \<noteq> actual_digest then DIFFERENT
           else IDENTICAL),
         cmc_expected_manifest_digest = expected_digest, cmc_actual_manifest_digest = actual_digest,
         cmc_run_identity_match = run_match, cmc_missing_artifact_ids = missing,
         cmc_unexpected_artifact_ids = unexpected, cmc_mismatched_artifact_ids = mismatched,
         cmc_report_identity_match = report_match, cmc_schema = CIRP_REPLAY_COMPARISON_SCHEMA_V1\<rparr>)"

section \<open>Facts\<close>

text \<open>A manifest made by its constructor from made artifacts.\<close>

definition manifest_made :: "replay_manifest \<Rightarrow> bool" where
  "manifest_made m = (\<exists>m0. replay_manifest_init m0 = Inr m \<and>
     (\<forall>a \<in> set (crm_artifacts m0). \<exists>a0. artifact_ref_init a0 = Inr a))"

lemma manifest_made_facts:
  assumes "manifest_made m"
  shows "crm_schema m = CIRP_REPLAY_MANIFEST_SCHEMA_V1" "crm_cirp_version m = CIRP_VERSION_V1"
    "sorted (map car_artifact_id (crm_artifacts m))" "distinct (map car_artifact_id (crm_artifacts m))"
    "\<forall>a \<in> set (crm_artifacts m). is_line (car_artifact_id a)"
proof -
  obtain m0 where m0: "replay_manifest_init m0 = Inr m" "\<forall>a \<in> set (crm_artifacts m0). \<exists>a0. artifact_ref_init a0 = Inr a"
    using assms unfolding manifest_made_def by blast
  have f: "crm_schema m = CIRP_REPLAY_MANIFEST_SCHEMA_V1" "crm_cirp_version m = CIRP_VERSION_V1"
      "crm_artifacts m = sort_key car_artifact_id (crm_artifacts m0)" "distinct (map car_artifact_id (crm_artifacts m0))"
    using m0(1) by (auto simp: replay_manifest_init_def Let_def split: if_splits list.splits)
  have "mset (map car_artifact_id (crm_artifacts m)) = mset (map car_artifact_id (crm_artifacts m0))" by (simp add: f(3))
  then show "distinct (map car_artifact_id (crm_artifacts m))" using f(4) mset_eq_imp_distinct_iff by blast
  show "\<forall>a \<in> set (crm_artifacts m). is_line (car_artifact_id a)"
    using m0(2) by (fastforce simp: f(3) artifact_ref_init_def)
qed (use assms in \<open>auto simp: manifest_made_def replay_manifest_init_def Let_def split: if_splits list.splits\<close>)

lemma by_id_rev: "distinct (map key xs) \<Longrightarrow> by_id key (rev xs) = by_id key xs"
proof
  fix k
  assume d: "distinct (map key xs)"
  have "by_id key (rev xs) k = Some x \<longleftrightarrow> by_id key xs k = Some x" for x
    using d by (simp add: by_id_iff rev_map [symmetric])
  then show "by_id key (rev xs) k = by_id key xs k" by (metis not_Some_eq)
qed

text \<open>Two lists in order of their distinct identities are equal when each identity has one meaning.\<close>

lemma same_index:
  assumes "sorted (map key xs)" "distinct (map key xs)" "sorted (map key ys)" "distinct (map key ys)"
    and "key ` set xs = key ` set ys" and "\<forall>k \<in> key ` set xs. by_id key xs k = by_id key ys k"
  shows "xs = ys"
proof -
  have ids: "map key xs = map key ys" using assms(1-5) by (intro sorted_distinct_set_unique) simp_all
  show ?thesis
  proof (rule nth_equalityI)
    show len: "length xs = length ys" using ids by (metis length_map)
    fix i
    assume i: "i < length xs"
    have "key (xs ! i) = key (ys ! i)" using arg_cong [OF ids, of "\<lambda>l. l ! i"] i len by simp
    moreover have "by_id key xs (key (xs ! i)) = Some (xs ! i)" using i by (simp add: by_id_iff assms(2))
    moreover have "by_id key ys (key (ys ! i)) = Some (ys ! i)" using i len by (simp add: by_id_iff assms(4))
    ultimately show "xs ! i = ys ! i" using assms(6) i by (metis image_eqI nth_mem option.inject)
  qed
qed

definition mismatched_ids :: "replay_manifest \<Rightarrow> replay_manifest \<Rightarrow> string set" where
  "mismatched_ids e a = {i \<in> car_artifact_id ` set (crm_artifacts e) \<inter> car_artifact_id ` set (crm_artifacts a).
     by_id car_artifact_id (crm_artifacts e) i \<noteq> by_id car_artifact_id (crm_artifacts a) i}"

lemma manifests_equal:
  assumes "manifest_made e" "manifest_made a"
  shows "e = a \<longleftrightarrow> car_artifact_id ` set (crm_artifacts e) = car_artifact_id ` set (crm_artifacts a) \<and>
    mismatched_ids e a = {} \<and> crm_run_identity_digest e = crm_run_identity_digest a \<and>
    crm_report_artifact_id e = crm_report_artifact_id a" (is "_ \<longleftrightarrow> ?same")
proof
  assume ?same
  then have "crm_artifacts e = crm_artifacts a"
    by (intro same_index [of car_artifact_id]) (use assms manifest_made_facts in \<open>auto simp: mismatched_ids_def\<close>)
  then show "e = a" using \<open>?same\<close> manifest_made_facts(1,2) [OF assms(1)] manifest_made_facts(1,2) [OF assms(2)]
    by (intro replay_manifest.equality) auto
qed (auto simp: mismatched_ids_def)

definition replay_relation_of :: "replay_manifest \<Rightarrow> replay_manifest \<Rightarrow> replay_relation" where
  "replay_relation_of e a =
     (if car_artifact_id ` set (crm_artifacts e) \<noteq> car_artifact_id ` set (crm_artifacts a) then INCOMPLETE
      else if e = a then IDENTICAL else DIFFERENT)"

lemma sorted_filter_set: "sorted xs \<Longrightarrow> sorted (filter P xs)"
  by (simp add: sorted_wrt_filter)

lemma comparison_made:
  assumes "manifest_made e" "manifest_made a"
  shows "\<exists>c. compare_manifests e a = Inr c \<and> cmc_relation c = replay_relation_of e a \<and>
    set (cmc_missing_artifact_ids c) = car_artifact_id ` set (crm_artifacts e) - car_artifact_id ` set (crm_artifacts a) \<and>
    set (cmc_unexpected_artifact_ids c) = car_artifact_id ` set (crm_artifacts a) - car_artifact_id ` set (crm_artifacts e) \<and>
    set (cmc_mismatched_artifact_ids c) = mismatched_ids e a"
proof -
  let ?e = "map car_artifact_id (crm_artifacts e)" and ?a = "map car_artifact_id (crm_artifacts a)"
  note fe = manifest_made_facts [OF assms(1)] and fa = manifest_made_facts [OF assms(2)]
  let ?mis = "filter (\<lambda>i. by_id car_artifact_id (crm_artifacts e) i \<noteq> by_id car_artifact_id (crm_artifacts a) i)
     (sorted_set (filter (\<lambda>i. i \<in> set ?a) ?e))"
  have mis: "set ?mis = mismatched_ids e a" by (auto simp: mismatched_ids_def)
  have lines: "line_tuple (sorted_diff ?e ?a)" "line_tuple (sorted_diff ?a ?e)" "line_tuple ?mis"
    using fe(5) fa(5) by (auto simp: line_tuple_def sorted_diff_def)
  have rel: "(if sorted_diff ?e ?a \<noteq> [] \<or> sorted_diff ?a ?e \<noteq> [] then INCOMPLETE
      else if crm_run_identity_digest e \<noteq> crm_run_identity_digest a \<or> crm_report_artifact_id e \<noteq> crm_report_artifact_id a \<or>
        ?mis \<noteq> [] \<or> replay_manifest_digest e \<noteq> replay_manifest_digest a then DIFFERENT else IDENTICAL) =
      replay_relation_of e a"
  proof -
    have "?mis = [] \<longleftrightarrow> mismatched_ids e a = {}" unfolding mis [symmetric] by (rule set_empty [symmetric])
    then show ?thesis unfolding replay_relation_of_def using manifests_equal [OF assms] by auto
  qed
  define M where "M = sorted_diff ?e ?a"
  define U where "U = sorted_diff ?a ?e"
  define X where "X = ?mis"
  have digests: "cirp_digest (replay_manifest_digest m) n = Inr (replay_manifest_digest m)" for m n
    by (simp add: replay_manifest_digest_def sample_digest_ok)
  have tuples: "cirp_unique M n = Inr M" "cirp_unique U n = Inr U" "cirp_unique X n = Inr X" for n
    using lines unfolding M_def U_def X_def by simp_all
  have same: "M = [] \<and> U = [] \<and> X = [] \<and> e = a" if "replay_relation_of e a = IDENTICAL"
  proof -
    have "e = a" using that by (auto simp: replay_relation_of_def split: if_splits)
    then have "set X = {}" using mis unfolding X_def by (auto simp: mismatched_ids_def)
    then show ?thesis using \<open>e = a\<close> by (simp add: M_def U_def)
  qed
  have other: "replay_relation_of e a \<noteq> CROSS_VERSION_COMPARABLE" by (simp add: replay_relation_of_def)
  have sets: "set M = car_artifact_id ` set (crm_artifacts e) - car_artifact_id ` set (crm_artifacts a)"
      "set U = car_artifact_id ` set (crm_artifacts a) - car_artifact_id ` set (crm_artifacts e)"
      "set X = mismatched_ids e a"
    using mis unfolding M_def U_def X_def by (auto simp: sorted_diff_def)
  show ?thesis
    unfolding compare_manifests_def Let_def by_id_rev [OF fe(4)] by_id_rev [OF fa(4)] rel
    unfolding M_def [symmetric] U_def [symmetric] X_def [symmetric] manifest_comparison_init_def
    using same other sets by (cases "replay_relation_of e a = IDENTICAL") (simp_all add: digests tuples)
qed

section \<open>Properties\<close>

text \<open>C22: Replay comparison is exact. Comparing two constructed manifests never fails; the relation is INCOMPLETE
  if and only if the two name different artifacts, IDENTICAL if and only if they are the same manifest, and
  DIFFERENT otherwise; the missing, unexpected and mismatched identities reported are exactly the differences.\<close>

theorem replay_comparison_exact:
  assumes "manifest_made e" and "manifest_made a"
  shows "\<exists>c. compare_manifests e a = Inr c \<and>
    (cmc_relation c = INCOMPLETE \<longleftrightarrow> car_artifact_id ` set (crm_artifacts e) \<noteq> car_artifact_id ` set (crm_artifacts a)) \<and>
    (cmc_relation c = IDENTICAL \<longleftrightarrow> e = a) \<and> cmc_relation c \<noteq> CROSS_VERSION_COMPARABLE \<and>
    set (cmc_missing_artifact_ids c) = car_artifact_id ` set (crm_artifacts e) - car_artifact_id ` set (crm_artifacts a) \<and>
    set (cmc_unexpected_artifact_ids c) = car_artifact_id ` set (crm_artifacts a) - car_artifact_id ` set (crm_artifacts e) \<and>
    set (cmc_mismatched_artifact_ids c) = mismatched_ids e a"
  using comparison_made [OF assms] by (auto simp: replay_relation_of_def)

section \<open>Witnesses\<close>

definition single_manifest :: "string \<Rightarrow> replay_manifest" where
  "single_manifest i = \<lparr>crm_run_identity_digest = content_digest JNull,
     crm_artifacts = [\<lparr>car_artifact_id = i, car_schema = CIRP_REPORT_SCHEMA_V1, car_digest = content_digest JNull\<rparr>],
     crm_report_artifact_id = i, crm_cirp_version = CIRP_VERSION_V1, crm_schema = CIRP_REPLAY_MANIFEST_SCHEMA_V1\<rparr>"

lemma single_manifest_made: "is_line i \<Longrightarrow> manifest_made (single_manifest i)"
  unfolding manifest_made_def
proof (intro exI [of _ "single_manifest i"] conjI ballI)
  assume i: "is_line i"
  show "replay_manifest_init (single_manifest i) = Inr (single_manifest i)"
    using i by (simp add: replay_manifest_init_def single_manifest_def sample_digest_ok)
  have schema: "is_line CIRP_REPORT_SCHEMA_V1" by (simp add: line_literal CIRP_REPORT_SCHEMA_V1_def)
  fix a assume "a \<in> set (crm_artifacts (single_manifest i))"
  then have "artifact_ref_init a = Inr a" using i schema
    by (simp add: single_manifest_def artifact_ref_init_def sample_digest_ok)
  then show "\<exists>a0. artifact_ref_init a0 = Inr a" by blast
qed

lemma replay_comparison_exact_witness:
  "\<exists>c. compare_manifests (single_manifest ''a'') (single_manifest ''b'') = Inr c \<and> cmc_relation c = INCOMPLETE \<and>
     set (cmc_missing_artifact_ids c) = {''a''} \<and> set (cmc_unexpected_artifact_ids c) = {''b''}"
proof -
  have "manifest_made (single_manifest ''a'')" "manifest_made (single_manifest ''b'')"
    by (simp_all add: single_manifest_made line_literal)
  from replay_comparison_exact [OF this] show ?thesis by (auto simp: single_manifest_def)
qed

end
