(* ===== verification/CIRP_Engine.thy ===== *)
theory CIRP_Engine
  imports CIRP_Replay
begin

text \<open>
  \<^verbatim>\<open>core/cirp/engine.py\<close>: the canonical runtime, which takes a request through the deadline, remedy, strategy
  and topology guards, the filing planner and the preflight to the report and its replay manifest.
\<close>

section \<open>The request\<close>

fun pack_identities :: "rule_pack list \<Rightarrow> (string \<times> string) list \<Rightarrow> (string \<times> string) list result" where
  "pack_identities [] ids = return ids"
| "pack_identities (pack # packs) ids =
     (if rpk_pack_id pack \<in> set (map fst ids) then raise_cirp (''duplicate procedural rule pack: '' @ rpk_pack_id pack)
      else pack_identities packs (ids @ [(rpk_pack_id pack, content_digest (JObj (rule_pack_dict pack)))]))"

definition canonical_rule_pack_set_digest :: "rule_pack list \<Rightarrow> string result" where
  "canonical_rule_pack_set_digest packs =
     and_then (pack_identities packs []) (\<lambda>ids.
     return (content_digest (JList (map (\<lambda>(i, d). JObj [(''pack_id'', JStr i), (''digest'', JStr d)]) (sort_key fst ids)))))"

record deadline_request =
  ddr_rule_pack_id :: string
  ddr_deadline_id :: string
  ddr_rule_key :: string
  ddr_trigger_type :: string
  ddr_trigger_date :: "py_date option"
  ddr_trigger_evidence :: "string option"
  ddr_trigger_status :: trigger_status
  ddr_effective_law_date :: "py_date option"
  ddr_safe_buffer_business_days :: "int option"

definition deadline_request_init :: "deadline_request \<Rightarrow> deadline_request result" where
  "deadline_request_init r =
     and_then (nonblank_fields [(''rule_pack_id'', ddr_rule_pack_id r), (''deadline_id'', ddr_deadline_id r),
         (''rule_key'', ddr_rule_key r), (''trigger_type'', ddr_trigger_type r)]) (\<lambda>_.
     and_then (cirp_optional (ddr_trigger_evidence r) ''trigger_evidence'') (\<lambda>_.
     if (case ddr_safe_buffer_business_days r of None \<Rightarrow> False | Some n \<Rightarrow> n < 0)
     then raise_cirp ''safe_buffer_business_days cannot be negative'' else return r))"

record remedy_request =
  rmr_rule_pack_id :: string
  rmr_remedy_id :: string
  rmr_rule_key :: string
  rmr_applicability_status :: applicability
  rmr_effective_law_date :: "py_date option"
  rmr_deadline_id :: "string option"

definition remedy_request_init :: "remedy_request \<Rightarrow> remedy_request result" where
  "remedy_request_init r =
     and_then (nonblank_fields [(''rule_pack_id'', rmr_rule_pack_id r), (''remedy_id'', rmr_remedy_id r),
         (''rule_key'', rmr_rule_key r)]) (\<lambda>_.
     and_then (cirp_optional (rmr_deadline_id r) ''deadline_id'') (\<lambda>_. return r))"

record run_request =
  crq_run_id :: string
  crq_run_identity :: run_identity
  crq_document_assessment :: document_assessment
  crq_procedural_assessment :: procedural_assessment
  crq_service_assessment :: service_assessment
  crq_rule_packs :: "rule_pack list"
  crq_deadline_rules :: "deadline_rule list"
  crq_deadline_calendars :: "calendar_profile list"
  crq_remedy_rules :: "remedy_rule list"
  crq_deadline_evaluations :: "deadline_request list"
  crq_remedy_evaluations :: "remedy_request list"
  crq_evidence_requirements :: "evidence_requirement list"
  crq_strategy_options :: "strategy_option list"
  crq_available_evidence_ids :: "string list"
  crq_decisive_evidence :: "string list"
  crq_decisive_rules :: "string list"
  crq_consolidation :: "consolidation option"
  crq_filing_specs :: "filing_spec list"
  crq_execution_states :: "execution_state list"
  crq_open_questions :: "string list"
  crq_critical_unknowns :: "string list"

definition run_request_init :: "run_request \<Rightarrow> run_request result" where
  "run_request_init q =
     and_then (cirp_nonblank (crq_run_id q) ''run_id'') (\<lambda>_.
     and_then (unique_fields [(''available_evidence_ids'', crq_available_evidence_ids q),
         (''decisive_evidence'', crq_decisive_evidence q), (''decisive_rules'', crq_decisive_rules q),
         (''open_questions'', crq_open_questions q), (''critical_unknowns'', crq_critical_unknowns q)]) (\<lambda>_.
     return q))"

record run_result =
  crr_run_identity :: run_identity
  crr_deadlines :: "deadline_assessment list"
  crr_remedies :: "remedy_option list"
  crr_strategy_decision :: strategy_decision
  crr_filing_topology :: topology_decision
  crr_filing_plans :: "filing_plan list"
  crr_preflights :: "preflight_result list"
  crr_report :: cirp_report
  crr_replay_manifest :: replay_manifest

section \<open>Validation of the request\<close>

definition expected_trigger :: "service_status \<Rightarrow> trigger_status" where
  "expected_trigger s =
     (if s = SV_VERIFIED then TS_VERIFIED
      else if s \<in> {SV_USER_REPORTED, SV_DOCUMENT_STATED} then TS_PROVISIONAL
      else if s = SV_CONFLICTING then TS_CONFLICTING else TS_MISSING)"

definition validate_service_trigger :: "deadline_request \<Rightarrow> service_assessment \<Rightarrow> unit result" where
  "validate_service_trigger e service =
     (let expected = expected_trigger (sva_assessment_status service) in
      if ddr_trigger_type e \<noteq> ''SERVICE_DATE'' then return ()
      else if ddr_trigger_status e \<noteq> expected
      then raise_cirp ''SERVICE_DATE deadline trigger status conflicts with ServiceAssessment''
      else if expected \<in> {TS_VERIFIED, TS_PROVISIONAL} then
        if ddr_trigger_date e \<noteq> sva_service_date service
        then raise_cirp ''SERVICE_DATE trigger date does not match ServiceAssessment''
        else if (case ddr_trigger_evidence e of None \<Rightarrow> True | Some v \<Rightarrow> v \<notin> set (sva_evidence_refs service))
        then raise_cirp ''SERVICE_DATE trigger evidence is not bound to ServiceAssessment''
        else return ()
      else if ddr_trigger_date e \<noteq> None
      then raise_cirp ''unsettled SERVICE_DATE assessment cannot supply a settled trigger date''
      else return ())"

fun validate_deadline_requests ::
  "string list \<Rightarrow> string list \<Rightarrow> service_assessment \<Rightarrow> deadline_request list \<Rightarrow> unit result" where
  "validate_deadline_requests pack_ids run_evidence service [] = return ()"
| "validate_deadline_requests pack_ids run_evidence service (e # es) =
     (if ddr_rule_pack_id e \<notin> set pack_ids
      then raise_cirp (''deadline evaluation references unknown rule pack: '' @ ddr_rule_pack_id e)
      else case ddr_trigger_evidence e of
        Some v \<Rightarrow>
          if v \<notin> set run_evidence then raise_cirp (''deadline trigger evidence is outside run identity: '' @ v)
          else and_then (validate_service_trigger e service) (\<lambda>_. validate_deadline_requests pack_ids run_evidence service es)
      | None \<Rightarrow>
          and_then (validate_service_trigger e service) (\<lambda>_. validate_deadline_requests pack_ids run_evidence service es))"

fun validate_remedy_requests :: "string list \<Rightarrow> remedy_request list \<Rightarrow> unit result" where
  "validate_remedy_requests pack_ids [] = return ()"
| "validate_remedy_requests pack_ids (e # es) =
     (if rmr_rule_pack_id e \<notin> set pack_ids
      then raise_cirp (''remedy evaluation references unknown rule pack: '' @ rmr_rule_pack_id e)
      else validate_remedy_requests pack_ids es)"

definition semantic_refs :: "run_request \<Rightarrow> string list" where
  "semantic_refs q =
     doa_evidence_refs (crq_document_assessment q) @ [doa_source_evidence_id (crq_document_assessment q)] @
     pra_evidence_refs (crq_procedural_assessment q) @ sva_evidence_refs (crq_service_assessment q) @
     concat (map evr_evidence_refs (crq_evidence_requirements q)) @
     (case crq_consolidation q of None \<Rightarrow> [] | Some c \<Rightarrow> coa_evidence_refs c)"

definition validate_request_identity :: "run_request \<Rightarrow> unit result" where
  "validate_request_identity q =
     (let pack_ids = map rpk_pack_id (crq_rule_packs q);
          run = crq_run_identity q;
          run_evidence = cri_input_evidence_ids run;
          available = crq_available_evidence_ids q in
      if \<not> distinct pack_ids then raise_cirp ''rule_packs cannot contain duplicate pack_id values''
      else if sort pack_ids \<noteq> sort (cri_rule_pack_ids run)
      then raise_cirp ''CIRP run rule_pack_ids do not exactly match canonical runtime rule packs''
      else and_then (canonical_rule_pack_set_digest (crq_rule_packs q)) (\<lambda>expected_digest.
      if cri_rule_pack_digest run \<noteq> expected_digest
      then raise_cirp ''CIRP run rule_pack_digest does not match canonical runtime rule packs''
      else if \<not> set available \<subseteq> set run_evidence
      then raise_cirp ''available_evidence_ids must be bound to CIRP run input_evidence_ids''
      else if \<not> set (semantic_refs q) \<subseteq> set run_evidence
      then raise_cirp (''CIRP semantic inputs reference evidence outside run identity: '' @
        join '', '' (sorted_diff (semantic_refs q) run_evidence))
      else if \<not> set (crq_decisive_evidence q) \<subseteq> set available
      then raise_cirp ''decisive_evidence must be present in available_evidence_ids''
      else if \<not> distinct (map ddr_deadline_id (crq_deadline_evaluations q))
      then raise_cirp ''deadline_evaluations contain duplicate deadline_id values''
      else if \<not> distinct (map rmr_remedy_id (crq_remedy_evaluations q))
      then raise_cirp ''remedy_evaluations contain duplicate remedy_id values''
      else if \<not> distinct (map evr_requirement_id (crq_evidence_requirements q))
      then raise_cirp ''evidence_requirements contain duplicate requirement_id values''
      else if \<not> distinct (map sto_strategy_id (crq_strategy_options q))
      then raise_cirp ''strategy_options contain duplicate strategy_id values''
      else if \<not> distinct (map fes_filing_id (crq_execution_states q))
      then raise_cirp ''execution_states contain duplicate filing_id values''
      else and_then (validate_deadline_requests pack_ids run_evidence (crq_service_assessment q)
          (crq_deadline_evaluations q)) (\<lambda>_.
        validate_remedy_requests pack_ids (crq_remedy_evaluations q))))"

section \<open>The guards of the packs\<close>

text \<open>\<^verbatim>\<open>owners.setdefault(token, pack_id)\<close> over the rules of a pack.\<close>

fun claim_tokens :: "string \<Rightarrow> string \<Rightarrow> string list \<Rightarrow> (string \<times> string) list \<Rightarrow> (string \<times> string) list result" where
  "claim_tokens message pack_id [] owners = return owners"
| "claim_tokens message pack_id (t # ts) owners =
     (case map_of owners t of
        None \<Rightarrow> claim_tokens message pack_id ts (owners @ [(t, pack_id)])
      | Some previous \<Rightarrow>
          if previous \<noteq> pack_id then raise_cirp (message @ t) else claim_tokens message pack_id ts owners)"

record guard_state =
  egs_deadline_owners :: "(string \<times> string) list"
  egs_remedy_owners :: "(string \<times> string) list"
  egs_deadline_guards :: "string \<rightharpoonup> deadline_guard"
  egs_remedy_guards :: "string \<rightharpoonup> remedy_guard"

text \<open>One round of the loop over the packs.\<close>

definition add_pack :: "run_request \<Rightarrow> rule_pack \<Rightarrow> guard_state \<Rightarrow> guard_state result" where
  "add_pack q pack st =
     (let pack_id = rpk_pack_id pack;
          deadline_rules = filter (\<lambda>r. deadline_rule_token r \<in> set (rpk_deadline_rules pack)) (crq_deadline_rules q);
          remedy_rules = filter (\<lambda>r. remedy_rule_token r \<in> set (rpk_remedy_rules pack)) (crq_remedy_rules q) in
      and_then (claim_tokens ''deadline rule is bound by multiple packs: '' pack_id (map deadline_rule_token deadline_rules)
          (egs_deadline_owners st)) (\<lambda>deadline_owners.
      and_then (if rpk_deadline_rules pack \<noteq> []
          then and_then (deadline_guard_init pack deadline_rules (crq_deadline_calendars q)) (\<lambda>g.
            return ((egs_deadline_guards st)(pack_id \<mapsto> g)))
          else return (egs_deadline_guards st)) (\<lambda>deadline_guards.
      and_then (claim_tokens ''remedy rule is bound by multiple packs: '' pack_id (map remedy_rule_token remedy_rules)
          (egs_remedy_owners st)) (\<lambda>remedy_owners.
      and_then (if rpk_remedy_rules pack \<noteq> []
          then and_then (remedy_guard_init pack remedy_rules) (\<lambda>g. return ((egs_remedy_guards st)(pack_id \<mapsto> g)))
          else return (egs_remedy_guards st)) (\<lambda>remedy_guards.
      return \<lparr>egs_deadline_owners = deadline_owners, egs_remedy_owners = remedy_owners,
        egs_deadline_guards = deadline_guards, egs_remedy_guards = remedy_guards\<rparr>)))))"

fun add_packs :: "run_request \<Rightarrow> rule_pack list \<Rightarrow> guard_state \<Rightarrow> guard_state result" where
  "add_packs q [] st = return st"
| "add_packs q (pack # packs) st = and_then (add_pack q pack st) (add_packs q packs)"

definition build_guards :: "run_request \<Rightarrow> ((string \<rightharpoonup> deadline_guard) \<times> (string \<rightharpoonup> remedy_guard)) result" where
  "build_guards q =
     (let deadline_tokens = map deadline_rule_token (crq_deadline_rules q);
          remedy_tokens = map remedy_rule_token (crq_remedy_rules q);
          calendar_ids = map dcp_profile_id (crq_deadline_calendars q) in
      if \<not> distinct deadline_tokens then raise_cirp ''deadline_rules contain duplicate executable semantics''
      else if \<not> distinct remedy_tokens then raise_cirp ''remedy_rules contain duplicate executable semantics''
      else and_then (add_packs q (crq_rule_packs q)
          \<lparr>egs_deadline_owners = [], egs_remedy_owners = [], egs_deadline_guards = Map.empty,
           egs_remedy_guards = Map.empty\<rparr>) (\<lambda>st.
      if set (map fst (egs_deadline_owners st)) \<noteq> set deadline_tokens
      then raise_cirp ''every supplied executable deadline rule must be bound by exactly one rule pack''
      else if set (map fst (egs_remedy_owners st)) \<noteq> set remedy_tokens
      then raise_cirp ''every supplied executable remedy rule must be bound by exactly one rule pack''
      else if \<not> distinct calendar_ids then raise_cirp ''deadline_calendars contain duplicate profile_id values''
      else if set calendar_ids \<noteq> set (map xdr_calendar_profile_id (crq_deadline_rules q))
      then raise_cirp ''deadline_calendars must exactly match executable deadline rule dependencies''
      else return (egs_deadline_guards st, egs_remedy_guards st)))"

section \<open>Evaluation\<close>

definition query_of_deadline :: "run_request \<Rightarrow> deadline_request \<Rightarrow> deadline_query" where
  "query_of_deadline q e =
     \<lparr>dq_deadline_id = ddr_deadline_id e, dq_rule_key = ddr_rule_key e, dq_trigger_type = ddr_trigger_type e,
      dq_trigger_date = ddr_trigger_date e, dq_trigger_evidence = ddr_trigger_evidence e,
      dq_trigger_status = ddr_trigger_status e, dq_effective_law_date = ddr_effective_law_date e,
      dq_evaluation_time = cri_evaluation_time (crq_run_identity q),
      dq_safe_buffer_business_days = ddr_safe_buffer_business_days e\<rparr>"

definition run_deadline ::
  "zone_database \<Rightarrow> run_request \<Rightarrow> (string \<rightharpoonup> deadline_guard) \<Rightarrow> deadline_request \<Rightarrow> deadline_assessment result" where
  "run_deadline zones q guards e =
     (case guards (ddr_rule_pack_id e) of
        None \<Rightarrow> raise_cirp (''deadline evaluation references a rule pack without deadline semantics: '' @ ddr_rule_pack_id e)
      | Some g \<Rightarrow> and_then (deadline_evaluate zones g (query_of_deadline q e)) (\<lambda>a.
          if das_rule_pack_id a \<noteq> Some (ddr_rule_pack_id e)
          then raise_cirp ''deadline assessment escaped its requested rule-pack identity'' else return a))"

definition evaluate_deadlines ::
  "zone_database \<Rightarrow> run_request \<Rightarrow> (string \<rightharpoonup> deadline_guard) \<Rightarrow> deadline_assessment list result" where
  "evaluate_deadlines zones q guards = map_result (run_deadline zones q guards) (crq_deadline_evaluations q)"

definition query_of_remedy :: "run_request \<Rightarrow> remedy_request \<Rightarrow> deadline_assessment option \<Rightarrow> remedy_query" where
  "query_of_remedy q e deadline =
     \<lparr>rq_remedy_id = rmr_remedy_id e, rq_rule_key = rmr_rule_key e, rq_applicability_status = rmr_applicability_status e,
      rq_evidence_requirements = crq_evidence_requirements q, rq_effective_law_date = rmr_effective_law_date e,
      rq_deadline = deadline\<rparr>"

definition requested_deadline ::
  "(string \<rightharpoonup> deadline_assessment) \<Rightarrow> remedy_request \<Rightarrow> deadline_assessment option result" where
  "requested_deadline deadline_map e =
     (case rmr_deadline_id e of None \<Rightarrow> return None
      | Some i \<Rightarrow> (case deadline_map i of
          None \<Rightarrow> raise_cirp (''remedy evaluation references missing deadline assessment: '' @ i)
        | Some a \<Rightarrow> return (Some a)))"

text \<open>\<^verbatim>\<open>pack_map[evaluation.rule_pack_id]\<close> raises \<^verbatim>\<open>KeyError\<close> when there is none.\<close>

definition run_remedy ::
  "run_request \<Rightarrow> (string \<rightharpoonup> remedy_guard) \<Rightarrow> (string \<rightharpoonup> deadline_assessment) \<Rightarrow> remedy_request \<Rightarrow> remedy_option result" where
  "run_remedy q guards deadline_map e =
     (case guards (rmr_rule_pack_id e) of
        None \<Rightarrow> raise_cirp (''remedy evaluation references a rule pack without remedy semantics: '' @ rmr_rule_pack_id e)
      | Some g \<Rightarrow> and_then (requested_deadline deadline_map e) (\<lambda>deadline.
          and_then (remedy_evaluate g (query_of_remedy q e deadline)) (\<lambda>option.
          case by_id rpk_pack_id (rev (crq_rule_packs q)) (rmr_rule_pack_id e) of
            None \<Rightarrow> raise (BuiltinKeyError (rmr_rule_pack_id e))
          | Some pack \<Rightarrow>
              if \<not> set (rem_applicable_rule_ids option) \<subseteq> set (rpk_remedy_rules pack)
              then raise_cirp ''remedy assessment escaped its requested rule-pack identity'' else return option)))"

definition evaluate_remedies ::
  "run_request \<Rightarrow> (string \<rightharpoonup> remedy_guard) \<Rightarrow> (string \<rightharpoonup> deadline_assessment) \<Rightarrow> remedy_option list result" where
  "evaluate_remedies q guards deadline_map = map_result (run_remedy q guards deadline_map) (crq_remedy_evaluations q)"

definition run_topology ::
  "strategy_decision \<Rightarrow> strategy_option list \<Rightarrow> remedy_option list \<Rightarrow> consolidation option \<Rightarrow> topology_decision result" where
  "run_topology decision strategies remedies assessment =
     (if sdc_decision_status decision \<noteq> SD_RECOMMENDED
      then uncertain_topology ''Filing topology is withheld until a strategy is RECOMMENDED.''
        [''Resolve strategy state before filing topology: '' @ strategy_status_value (sdc_decision_status decision)]
      else case find (\<lambda>s. Some (sto_strategy_id s) = sdc_selected_strategy_id decision) strategies of
        None \<Rightarrow> raise_cirp ''RECOMMENDED strategy decision does not resolve to a supplied strategy''
      | Some s \<Rightarrow> topology_decide s remedies assessment)"

text \<open>A remedy whose required evidence is all present names the evidence itself in the filing.\<close>

fun present_refs :: "(string \<rightharpoonup> evidence_requirement) \<Rightarrow> string list \<Rightarrow> string list option" where
  "present_refs requirements [] = Some []"
| "present_refs requirements (i # ids) =
     (case requirements i of None \<Rightarrow> None
      | Some e \<Rightarrow> if evr_status e \<noteq> ER_PRESENT then None
          else map_option (\<lambda>refs. evr_evidence_refs e @ refs) (present_refs requirements ids))"

definition materialize :: "(string \<rightharpoonup> evidence_requirement) \<Rightarrow> remedy_option \<Rightarrow> remedy_option result" where
  "materialize requirements r =
     (case present_refs requirements (rem_required_evidence r) of None \<Rightarrow> return r
      | Some refs \<Rightarrow> remedy_option_init (r\<lparr>rem_required_evidence := first_occurrences refs\<rparr>))"

definition materialize_filing_remedies ::
  "remedy_option list \<Rightarrow> evidence_requirement list \<Rightarrow> remedy_option list result" where
  "materialize_filing_remedies remedies requirements =
     map_result (materialize (by_id evr_requirement_id (rev requirements))) remedies"

definition no_execution_state :: "string \<Rightarrow> execution_state result" where
  "no_execution_state filing_id = execution_state_init
     \<lparr>fes_filing_id = filing_id, fes_provided_attachments = [], fes_satisfied_formal_requirements = [],
      fes_signature_ready = False, fes_copies_ready = False,
      fes_critical_unknowns = [''Filing execution state has not been established.'']\<rparr>"

definition preflight_plan ::
  "run_request \<Rightarrow> remedy_option list \<Rightarrow> deadline_assessment list \<Rightarrow> filing_plan \<Rightarrow> preflight_result result" where
  "preflight_plan q remedies deadlines p =
     and_then (case by_id fes_filing_id (rev (crq_execution_states q)) (fpl_filing_id p) of
         None \<Rightarrow> no_execution_state (fpl_filing_id p) | Some e \<Rightarrow> return e) (\<lambda>e.
     preflight_evaluate p remedies deadlines (crq_available_evidence_ids q) e)"

definition run_preflight ::
  "run_request \<Rightarrow> filing_plan list \<Rightarrow> remedy_option list \<Rightarrow> deadline_assessment list \<Rightarrow> preflight_result list result" where
  "run_preflight q plans remedies deadlines =
     (let unexpected = sorted_diff (map fes_filing_id (crq_execution_states q)) (map fpl_filing_id plans) in
      if unexpected \<noteq> [] then raise_cirp (''execution state has no matching filing plan: '' @ join '', '' unexpected)
      else map_result (preflight_plan q remedies deadlines) plans)"

section \<open>The report and the manifest\<close>

definition document_summary :: "document_assessment \<Rightarrow> string" where
  "document_summary d = document_kind_value (doa_document_kind d) @ '': '' @
     (case doa_subject d of None \<Rightarrow> doa_document_id d | Some s \<Rightarrow> if s = [] then doa_document_id d else s)"

definition procedural_summary :: "procedural_assessment \<Rightarrow> string" where
  "procedural_summary p = pra_procedure_family p @ ''/'' @ procedural_stage_value (pra_procedural_stage p) @ '': '' @
     pra_procedural_subject p"

definition deadline_summary :: "deadline_assessment \<Rightarrow> string" where
  "deadline_summary a = das_deadline_id a @ '': '' @ deadline_status_value (das_status a) @ ''; legal='' @
     (case das_legal_deadline a of None \<Rightarrow> ''UNKNOWN'' | Some d \<Rightarrow> iso_date d) @ ''; safe='' @
     (case das_safe_internal_deadline a of None \<Rightarrow> ''UNSET'' | Some d \<Rightarrow> iso_date d)"

definition remedy_summary :: "remedy_option \<Rightarrow> string" where
  "remedy_summary r = rem_remedy_id r @ '': '' @ admissibility_value (rem_admissibility_status r)"

definition open_questions_of ::
  "run_request \<Rightarrow> deadline_assessment list \<Rightarrow> remedy_option list \<Rightarrow> topology_decision \<Rightarrow> string list" where
  "open_questions_of q deadlines remedies topology = first_occurrences
     (crq_open_questions q @ doa_open_questions (crq_document_assessment q) @ pra_unresolved (crq_procedural_assessment q) @
      concat (map das_blocking_questions deadlines) @ concat (map rem_blockers remedies) @ ftd_blockers topology)"

definition critical_unknowns_of :: "run_request \<Rightarrow> string list" where
  "critical_unknowns_of q = first_occurrences
     (crq_critical_unknowns q @ concat (map fes_critical_unknowns (crq_execution_states q)))"

definition artifact_of :: "string \<Rightarrow> string \<Rightarrow> (string \<times> json) list \<Rightarrow> artifact_ref result" where
  "artifact_of artifact_id schema dict = artifact_ref_init
     \<lparr>car_artifact_id = artifact_id, car_schema = schema, car_digest = content_digest (JObj dict)\<rparr>"

text \<open>The artifacts of a run, in the order they are collected: identity, schema and canonical dictionary.\<close>

definition run_artifacts ::
  "run_request \<Rightarrow> deadline_assessment list \<Rightarrow> remedy_option list \<Rightarrow> strategy_decision \<Rightarrow> topology_decision \<Rightarrow>
   filing_plan list \<Rightarrow> preflight_result list \<Rightarrow> cirp_report \<Rightarrow> (string \<times> string \<times> (string \<times> json) list) list" where
  "run_artifacts q deadlines remedies decision topology plans preflights report =
     [(''document-assessment'', doa_schema (crq_document_assessment q), document_assessment_dict (crq_document_assessment q)),
      (''procedural-assessment'', pra_schema (crq_procedural_assessment q),
        procedural_assessment_dict (crq_procedural_assessment q)),
      (''service-assessment'', sva_schema (crq_service_assessment q), service_assessment_dict (crq_service_assessment q))] @
     map (\<lambda>e. (''evidence-requirement:'' @ evr_requirement_id e, evr_schema e, evidence_requirement_dict e))
       (crq_evidence_requirements q) @
     map (\<lambda>s. (''strategy-option:'' @ sto_strategy_id s, sto_schema s, strategy_option_dict s)) (crq_strategy_options q) @
     map (\<lambda>a. (''deadline-assessment:'' @ das_deadline_id a, das_schema a, deadline_dict a)) deadlines @
     map (\<lambda>r. (''remedy-option:'' @ rem_remedy_id r, rem_schema r, remedy_option_dict r)) remedies @
     [(''strategy-decision'', sdc_schema decision, strategy_decision_dict decision),
      (''filing-topology'', ftd_schema topology, topology_dict topology)] @
     map (\<lambda>p. (''filing-plan:'' @ fpl_filing_id p, fpl_schema p, filing_plan_dict p)) plans @
     map (\<lambda>p. (''preflight:'' @ pfr_filing_id p, pfr_schema p, preflight_result_dict p)) preflights @
     [(''report:'' @ crq_run_id q, rpt_schema report, report_dict report)]"

definition run_manifest ::
  "run_request \<Rightarrow> deadline_assessment list \<Rightarrow> remedy_option list \<Rightarrow> strategy_decision \<Rightarrow> topology_decision \<Rightarrow>
   filing_plan list \<Rightarrow> preflight_result list \<Rightarrow> cirp_report \<Rightarrow> replay_manifest result" where
  "run_manifest q deadlines remedies decision topology plans preflights report =
     and_then (map_result (\<lambda>(i, schema, dict). artifact_of i schema dict)
         (run_artifacts q deadlines remedies decision topology plans preflights report)) (\<lambda>artifacts.
     replay_manifest_build (crq_run_identity q) artifacts (''report:'' @ crq_run_id q))"

section \<open>The runtime\<close>

text \<open>The branch on the topology: plans, their preflights and the questions it adds.\<close>

definition run_filings ::
  "run_request \<Rightarrow> deadline_assessment list \<Rightarrow> remedy_option list \<Rightarrow> strategy_decision \<Rightarrow> topology_decision \<Rightarrow>
   (filing_plan list \<times> preflight_result list \<times> string list) result" where
  "run_filings q deadlines remedies decision topology =
     (if ftd_status topology \<in> {FT_SINGLE_FILING_SAFE, FT_MULTIPLE_FILINGS_REQUIRED}
      then if crq_filing_specs q \<noteq> []
        then and_then (materialize_filing_remedies remedies (crq_evidence_requirements q)) (\<lambda>materialized.
             and_then (filing_plans decision (crq_strategy_options q) topology materialized deadlines
               (crq_available_evidence_ids q) (crq_filing_specs q)) (\<lambda>plans.
             and_then (run_preflight q plans materialized deadlines) (\<lambda>preflights.
             return (plans, preflights, []))))
        else return ([], [], [''Provide the exact semantic filing specification before execution readiness.''])
      else if crq_filing_specs q \<noteq> [] \<or> crq_execution_states q \<noteq> []
      then raise_cirp ''filing specs/execution states are not allowed before an executable filing topology''
      else return ([], [], []))"

definition report_request ::
  "run_request \<Rightarrow> deadline_assessment list \<Rightarrow> remedy_option list \<Rightarrow> strategy_decision \<Rightarrow> topology_decision \<Rightarrow>
   filing_plan list \<Rightarrow> preflight_result list \<Rightarrow> string list \<Rightarrow> report_input" where
  "report_request q deadlines remedies decision topology plans preflights questions =
     \<lparr>rin_case_id = cri_case_id (crq_run_identity q), rin_run_id = crq_run_id q,
      rin_document_summary = document_summary (crq_document_assessment q),
      rin_procedural_summary = procedural_summary (crq_procedural_assessment q),
      rin_deadline_summaries = map deadline_summary deadlines, rin_remedy_summaries = map remedy_summary remedies,
      rin_evidence_requirements = crq_evidence_requirements q, rin_strategy_decision = decision,
      rin_strategy_summary = sdc_rationale decision, rin_topology = topology, rin_filing_plans = plans,
      rin_preflights = preflights, rin_open_questions = first_occurrences questions,
      rin_critical_unknowns = critical_unknowns_of q\<rparr>"

definition cirp_run :: "zone_database \<Rightarrow> run_request \<Rightarrow> run_result result" where
  "cirp_run zones q =
     and_then (validate_request_identity q) (\<lambda>_.
     and_then (build_guards q) (\<lambda>(deadline_guards, remedy_guards).
     and_then (evaluate_deadlines zones q deadline_guards) (\<lambda>deadlines.
     and_then (evaluate_remedies q remedy_guards (by_id das_deadline_id (rev deadlines))) (\<lambda>remedies.
     and_then (strategy_decide (crq_strategy_options q) remedies (crq_available_evidence_ids q)
         (crq_decisive_evidence q) (crq_decisive_rules q)) (\<lambda>decision.
     and_then (run_topology decision (crq_strategy_options q) remedies (crq_consolidation q)) (\<lambda>topology.
     and_then (run_filings q deadlines remedies decision topology) (\<lambda>(plans, preflights, added).
     and_then (report_build (report_request q deadlines remedies decision topology plans preflights
         (open_questions_of q deadlines remedies topology @ added))) (\<lambda>report.
     and_then (run_manifest q deadlines remedies decision topology plans preflights report) (\<lambda>manifest.
     return \<lparr>crr_run_identity = crq_run_identity q, crr_deadlines = deadlines, crr_remedies = remedies,
       crr_strategy_decision = decision, crr_filing_topology = topology, crr_filing_plans = plans,
       crr_preflights = preflights, crr_report = report, crr_replay_manifest = manifest\<rparr>)))))))))"

section \<open>What a run is made of\<close>

lemma cirp_run_steps:
  assumes "cirp_run zones q = Inr out"
  obtains dg rg added where
    "validate_request_identity q = Inr ()" "build_guards q = Inr (dg, rg)"
    "evaluate_deadlines zones q dg = Inr (crr_deadlines out)"
    "evaluate_remedies q rg (by_id das_deadline_id (rev (crr_deadlines out))) = Inr (crr_remedies out)"
    "strategy_decide (crq_strategy_options q) (crr_remedies out) (crq_available_evidence_ids q) (crq_decisive_evidence q)
      (crq_decisive_rules q) = Inr (crr_strategy_decision out)"
    "run_topology (crr_strategy_decision out) (crq_strategy_options q) (crr_remedies out) (crq_consolidation q) =
      Inr (crr_filing_topology out)"
    "run_filings q (crr_deadlines out) (crr_remedies out) (crr_strategy_decision out) (crr_filing_topology out) =
      Inr (crr_filing_plans out, crr_preflights out, added)"
    "report_build (report_request q (crr_deadlines out) (crr_remedies out) (crr_strategy_decision out)
      (crr_filing_topology out) (crr_filing_plans out) (crr_preflights out)
      (open_questions_of q (crr_deadlines out) (crr_remedies out) (crr_filing_topology out) @ added)) = Inr (crr_report out)"
    "run_manifest q (crr_deadlines out) (crr_remedies out) (crr_strategy_decision out) (crr_filing_topology out)
      (crr_filing_plans out) (crr_preflights out) (crr_report out) = Inr (crr_replay_manifest out)"
  using assms unfolding cirp_run_def by (auto split: prod.splits)

lemma map_result_source: "map_result f xs = Inr ys \<Longrightarrow> y \<in> set ys \<Longrightarrow> \<exists>x \<in> set xs. f x = Inr y"
  using list_all2_right by (fastforce simp: map_result_Inr_iff)

lemma map_result_target: "map_result f xs = Inr ys \<Longrightarrow> x \<in> set xs \<Longrightarrow> \<exists>y \<in> set ys. f x = Inr y"
  unfolding map_result_Inr_iff by (induction rule: list_all2_induct) auto

text \<open>Every guard of the tables belongs to a pack of the request.\<close>

definition deadline_guard_for :: "run_request \<Rightarrow> rule_pack \<Rightarrow> deadline_guard result" where
  "deadline_guard_for q pack = deadline_guard_init pack
     (filter (\<lambda>r. deadline_rule_token r \<in> set (rpk_deadline_rules pack)) (crq_deadline_rules q)) (crq_deadline_calendars q)"

definition remedy_guard_for :: "run_request \<Rightarrow> rule_pack \<Rightarrow> remedy_guard result" where
  "remedy_guard_for q pack = remedy_guard_init pack
     (filter (\<lambda>r. remedy_rule_token r \<in> set (rpk_remedy_rules pack)) (crq_remedy_rules q))"

definition guards_from :: "run_request \<Rightarrow> guard_state \<Rightarrow> bool" where
  "guards_from q st =
     ((\<forall>i g. egs_deadline_guards st i = Some g \<longrightarrow>
         (\<exists>pack \<in> set (crq_rule_packs q). rpk_pack_id pack = i \<and> deadline_guard_for q pack = Inr g)) \<and>
      (\<forall>i g. egs_remedy_guards st i = Some g \<longrightarrow>
         (\<exists>pack \<in> set (crq_rule_packs q). rpk_pack_id pack = i \<and> remedy_guard_for q pack = Inr g)))"

lemma add_pack_from:
  assumes "add_pack q pack st = Inr st'" "pack \<in> set (crq_rule_packs q)" "guards_from q st"
  shows "guards_from q st'"
proof -
  obtain down rown dg rg where st': "st' = \<lparr>egs_deadline_owners = down, egs_remedy_owners = rown, egs_deadline_guards = dg,
      egs_remedy_guards = rg\<rparr>"
    and d: "dg = egs_deadline_guards st \<or> (\<exists>g. deadline_guard_for q pack = Inr g \<and>
      dg = (egs_deadline_guards st)(rpk_pack_id pack \<mapsto> g))"
    and r: "rg = egs_remedy_guards st \<or> (\<exists>g. remedy_guard_for q pack = Inr g \<and>
      rg = (egs_remedy_guards st)(rpk_pack_id pack \<mapsto> g))"
    using assms(1) unfolding add_pack_def Let_def deadline_guard_for_def remedy_guard_for_def by (auto split: if_splits)
  have "\<exists>p \<in> set (crq_rule_packs q). rpk_pack_id p = i \<and> deadline_guard_for q p = Inr g" if "dg i = Some g" for i g
    using that d assms(2,3) unfolding guards_from_def by (auto split: if_splits)
  moreover have "\<exists>p \<in> set (crq_rule_packs q). rpk_pack_id p = i \<and> remedy_guard_for q p = Inr g" if "rg i = Some g" for i g
    using that r assms(2,3) unfolding guards_from_def by (auto split: if_splits)
  ultimately show ?thesis by (simp add: guards_from_def st')
qed

lemma add_packs_from:
  "add_packs q packs st = Inr st' \<Longrightarrow> set packs \<subseteq> set (crq_rule_packs q) \<Longrightarrow> guards_from q st \<Longrightarrow> guards_from q st'"
  by (induction packs arbitrary: st) (auto dest: add_pack_from)

lemma build_guards_from:
  assumes "build_guards q = Inr (dg, rg)"
  shows "dg i = Some g \<Longrightarrow> \<exists>pack \<in> set (crq_rule_packs q). rpk_pack_id pack = i \<and> deadline_guard_for q pack = Inr g"
    and "rg i = Some h \<Longrightarrow> \<exists>pack \<in> set (crq_rule_packs q). rpk_pack_id pack = i \<and> remedy_guard_for q pack = Inr h"
proof -
  let ?st = "\<lparr>egs_deadline_owners = [], egs_remedy_owners = [], egs_deadline_guards = Map.empty, egs_remedy_guards = Map.empty\<rparr>"
  obtain st where st: "add_packs q (crq_rule_packs q) ?st = Inr st" "dg = egs_deadline_guards st" "rg = egs_remedy_guards st"
    using assms unfolding build_guards_def Let_def by (auto split: if_splits)
  have "guards_from q ?st" by (simp add: guards_from_def)
  from add_packs_from [OF st(1) _ this] have "guards_from q st" by simp
  then show "dg i = Some g \<Longrightarrow> \<exists>pack \<in> set (crq_rule_packs q). rpk_pack_id pack = i \<and> deadline_guard_for q pack = Inr g"
    "rg i = Some h \<Longrightarrow> \<exists>pack \<in> set (crq_rule_packs q). rpk_pack_id pack = i \<and> remedy_guard_for q pack = Inr h"
    unfolding guards_from_def st by blast+
qed

section \<open>Grounded remedies and deadlines\<close>

text \<open>A remedy request whose answer rests on a full basis in one of the packs.\<close>

definition remedy_grounded :: "run_request \<Rightarrow> deadline_assessment list \<Rightarrow> remedy_request \<Rightarrow> bool" where
  "remedy_grounded q deadlines e = (\<exists>pack \<in> set (crq_rule_packs q). \<exists>g r deadline.
     rpk_pack_id pack = rmr_rule_pack_id e \<and> remedy_guard_for q pack = Inr g \<and> rg_rules g (rmr_rule_key e) = Some r \<and>
     requested_deadline (by_id das_deadline_id (rev deadlines)) e = Inr deadline \<and>
     remedy_basis g (query_of_remedy q e deadline) r (by_id evr_requirement_id (crq_evidence_requirements q)))"

lemma remedy_evaluate_basis:
  assumes "remedy_evaluate g q = Inr out" "rem_admissibility_status out = RA_VERIFIED_AVAILABLE"
  shows "\<exists>r. rg_rules g (rq_rule_key q) = Some r \<and>
    remedy_basis g q r (by_id evr_requirement_id (rq_evidence_requirements q)) \<and> rem_remedy_id out = rq_remedy_id q"
proof -
  obtain r where r: "rg_rules g (rq_rule_key q) = Some r"
    using assms(1) by (cases "rg_rules g (rq_rule_key q)") (auto simp: remedy_evaluate_def)
  have e: "evaluate_remedy_rule g q r (by_id evr_requirement_id (rq_evidence_requirements q)) = Inr out"
    using assms(1) unfolding remedy_evaluate_known [OF r] by blast
  from evaluate_remedy_verified [OF e assms(2)] r show ?thesis by (auto simp: common_remedy_def)
qed

lemma verified_remedy_grounded:
  assumes "build_guards q = Inr (dg, rg)"
    and "evaluate_remedies q rg (by_id das_deadline_id (rev deadlines)) = Inr remedies"
    and "r \<in> set remedies" "rem_admissibility_status r = RA_VERIFIED_AVAILABLE"
  shows "\<exists>e \<in> set (crq_remedy_evaluations q). rmr_remedy_id e = rem_remedy_id r \<and> remedy_grounded q deadlines e"
proof -
  obtain e where e: "e \<in> set (crq_remedy_evaluations q)" "run_remedy q rg (by_id das_deadline_id (rev deadlines)) e = Inr r"
    using map_result_source [OF assms(2) [unfolded evaluate_remedies_def] assms(3)] by blast
  then obtain g deadline where g: "rg (rmr_rule_pack_id e) = Some g"
      "requested_deadline (by_id das_deadline_id (rev deadlines)) e = Inr deadline"
      "remedy_evaluate g (query_of_remedy q e deadline) = Inr r"
    by (auto simp: run_remedy_def split: option.splits if_splits)
  have f: "rq_rule_key (query_of_remedy q e deadline) = rmr_rule_key e" "rq_remedy_id (query_of_remedy q e deadline) = rmr_remedy_id e"
      "rq_evidence_requirements (query_of_remedy q e deadline) = crq_evidence_requirements q"
    by (simp_all add: query_of_remedy_def)
  have "remedy_grounded q deadlines e"
    using remedy_evaluate_basis [OF g(3) assms(4)] build_guards_from(2) [OF assms(1) g(1)] g(2)
    unfolding remedy_grounded_def f by blast
  moreover have "rmr_remedy_id e = rem_remedy_id r" using remedy_evaluate_basis [OF g(3) assms(4)] unfolding f by auto
  ultimately show ?thesis using e(1) by blast
qed

text \<open>Every assessment a guard returns is one its constructor admits.\<close>

lemma evaluate_rule_made: "evaluate_rule zones g q r c = Inr a \<Longrightarrow> deadline_init a = Inr a"
proof -
  assume e: "evaluate_rule zones g q r c = Inr a"
  have made: "deadline_init x = Inr a \<Longrightarrow> deadline_init a = Inr a" for x using inits_same(1) by metis
  show ?thesis using e unfolding evaluate_rule_def Let_def
    by (auto split: option.splits if_splits dest: made)
qed

lemma deadline_evaluate_made:
  assumes "deadline_evaluate zones g q = Inr a"
  shows "deadline_init a = Inr a"
proof -
  have made: "deadline_init x = Inr a \<Longrightarrow> deadline_init a = Inr a" for x using inits_same(1) by metis
  show ?thesis using assms unfolding deadline_evaluate_def
    by (auto split: option.splits if_splits dest: made evaluate_rule_made)
qed

lemma deadlines_evaluated:
  assumes "build_guards q = Inr (dg, rg)" "evaluate_deadlines zones q dg = Inr deadlines" "a \<in> set deadlines"
  shows "\<exists>e \<in> set (crq_deadline_evaluations q). \<exists>pack \<in> set (crq_rule_packs q). \<exists>g. rpk_pack_id pack = ddr_rule_pack_id e \<and>
    deadline_guard_for q pack = Inr g \<and> deadline_evaluate zones g (query_of_deadline q e) = Inr a \<and> deadline_init a = Inr a"
proof -
  obtain e where e: "e \<in> set (crq_deadline_evaluations q)" "run_deadline zones q dg e = Inr a"
    using map_result_source [OF assms(2) [unfolded evaluate_deadlines_def] assms(3)] by blast
  then obtain g where g: "dg (ddr_rule_pack_id e) = Some g" "deadline_evaluate zones g (query_of_deadline q e) = Inr a"
    by (auto simp: run_deadline_def split: option.splits if_splits)
  then show ?thesis using e(1) build_guards_from(1) [OF assms(1) g(1)] deadline_evaluate_made [OF g(2)] by blast
qed

section \<open>Filings of a run\<close>

text \<open>Materialising changes nothing but the required evidence.\<close>

lemma materialize_fields:
  "materialize m r = Inr r' \<Longrightarrow> rem_remedy_id r' = rem_remedy_id r \<and>
     rem_admissibility_status r' = rem_admissibility_status r \<and> rem_formal_requirements r' = rem_formal_requirements r \<and>
     rem_deadline_id r' = rem_deadline_id r \<and> rem_applicable_rule_ids r' = rem_applicable_rule_ids r"
  by (auto simp: materialize_def split: option.splits dest!: inits_same(2))

lemma materialized:
  assumes "materialize_filing_remedies remedies requirements = Inr mats"
  shows "list_all2 (\<lambda>r r'. rem_remedy_id r' = rem_remedy_id r \<and> rem_admissibility_status r' = rem_admissibility_status r \<and>
      rem_formal_requirements r' = rem_formal_requirements r) remedies mats"
  using assms unfolding materialize_filing_remedies_def map_result_Inr_iff
  by (rule list_all2_mono) (blast dest: materialize_fields)

lemma by_id_related:
  "list_all2 (\<lambda>r r'. key r' = key r \<and> f r' = f r) rs rs' \<Longrightarrow> map_option f (by_id key rs' i) = map_option f (by_id key rs i)"
  by (induction rule: list_all2_induct) (auto simp: by_id_def)

lemma run_filings_plans:
  assumes "run_filings q deadlines remedies decision topology = Inr (plans, preflights, added)" "preflights \<noteq> []"
  obtains mats where "materialize_filing_remedies remedies (crq_evidence_requirements q) = Inr mats"
    "filing_plans decision (crq_strategy_options q) topology mats deadlines (crq_available_evidence_ids q) (crq_filing_specs q) =
       Inr plans"
    "map_result (preflight_plan q mats deadlines) plans = Inr preflights"
  using assms unfolding run_filings_def run_preflight_def Let_def by (auto split: if_splits)

text \<open>A ready preflight was made from an execution state of the request.\<close>

lemma preflight_plan_ready:
  assumes "preflight_plan q mats deadlines p = Inr r" "pfr_final_status r = PFF_FILING_READY"
    and "filing_plan_init p = Inr p" "\<forall>a \<in> set deadlines. deadline_init a = Inr a"
  shows "\<exists>e \<in> set (crq_execution_states q). fes_filing_id e = fpl_filing_id p \<and>
    execution_ready (by_id rem_remedy_id mats) p e \<and>
    plan_covered (by_id rem_remedy_id mats) (by_id das_deadline_id deadlines) (crq_available_evidence_ids q) p"
proof -
  have ready: "execution_ready (by_id rem_remedy_id mats) p e \<and> fes_filing_id e = fpl_filing_id p \<and>
      plan_covered (by_id rem_remedy_id mats) (by_id das_deadline_id deadlines) (crq_available_evidence_ids q) p"
    if "preflight_evaluate p mats deadlines (crq_available_evidence_ids q) e = Inr r" for e
    using preflight_ready [OF assms(3) made_deadline_lines [OF assms(4)]] that assms(2) by blast
  show ?thesis
  proof (cases "by_id fes_filing_id (rev (crq_execution_states q)) (fpl_filing_id p)")
    case None
    then obtain e where e: "no_execution_state (fpl_filing_id p) = Inr e"
        "preflight_evaluate p mats deadlines (crq_available_evidence_ids q) e = Inr r"
      using assms(1) by (auto simp: preflight_plan_def)
    have "fes_critical_unknowns e \<noteq> []" using e(1) by (auto simp: no_execution_state_def execution_state_init_def split: if_splits)
    then show ?thesis using ready [OF e(2)] by (simp add: execution_ready_def)
  next
    case (Some e)
    then have "e \<in> set (crq_execution_states q)" using by_id_Some by fastforce
    moreover have "preflight_evaluate p mats deadlines (crq_available_evidence_ids q) e = Inr r"
      using assms(1) Some by (simp add: preflight_plan_def)
    ultimately show ?thesis using ready by blast
  qed
qed

section \<open>What a recommendation rests on\<close>

lemma decision_for_fields:
  "decision_for selected status rationale reasons ev drl risks = Inr d \<Longrightarrow>
     sdc_decision_status d = status \<and> sdc_selected_strategy_id d = selected"
  by (cases selected) (auto simp: decision_for_def strategy_decision_init_def Let_def split: if_splits)

lemma strategy_answer_recommended:
  assumes "strategy_answer opts eligible reasons u ev drl = Inr d" "sdc_decision_status d = SD_RECOMMENDED"
  shows "\<exists>s. eligible = [s] \<and> sdc_selected_strategy_id d = Some (sto_strategy_id s)"
proof -
  have no: "decision_for selected status rationale reasons ev' drl' risks \<noteq> Inr d" if "status \<noteq> SD_RECOMMENDED"
    for selected status rationale ev' drl' risks
    using decision_for_fields assms(2) that by metis
  consider "eligible = []" | s where "eligible = [s]" | s s' ss where "eligible = s # s' # ss" by (metis neq_Nil_conv)
  then show ?thesis
  proof cases
    case (2 s)
    then have "sdc_selected_strategy_id d = Some (sto_strategy_id s)"
      using assms(1) no by (auto simp: strategy_answer_def split: if_splits dest: decision_for_fields)
    then show ?thesis using 2 by blast
  qed (use assms(1) no in \<open>auto simp: strategy_answer_def\<close>)
qed

lemma strategy_decide_recommended:
  assumes "strategy_decide opts remedies available ev drl = Inr d" "sdc_decision_status d = SD_RECOMMENDED"
  shows "\<exists>s \<in> set opts. sdc_selected_strategy_id d = Some (sto_strategy_id s) \<and>
    safe_option (by_id rem_remedy_id remedies) available s \<and> distinct (map rem_remedy_id remedies)"
proof -
  have "opts \<noteq> []"
  proof
    assume "opts = []"
    then have "sdc_decision_status d = SD_ABSTAIN" using assms(1) by (auto simp: strategy_decide_def dest: decision_for_fields)
    then show False using assms(2) by simp
  qed
  then have "distinct (map rem_remedy_id remedies) \<and> (case assess_options (by_id rem_remedy_id remedies) available opts of
      (eligible, reasons, u) \<Rightarrow> strategy_answer opts eligible reasons u ev drl) = Inr d"
    using assms(1) by (simp add: strategy_decide_def Let_def raise_if)
  then have d: "distinct (map rem_remedy_id remedies)" and run: "(case assess_options (by_id rem_remedy_id remedies) available opts of
      (eligible, reasons, u) \<Rightarrow> strategy_answer opts eligible reasons u ev drl) = Inr d" by blast+
  obtain eligible reasons u where a: "assess_options (by_id rem_remedy_id remedies) available opts = (eligible, reasons, u)"
    by (cases "assess_options (by_id rem_remedy_id remedies) available opts")
  then have "strategy_answer opts eligible reasons u ev drl = Inr d" using run by simp
  from strategy_answer_recommended [OF this assms(2)] obtain s where s: "eligible = [s]"
      "sdc_selected_strategy_id d = Some (sto_strategy_id s)" by blast
  then have "s \<in> set (filter (safe_option (by_id rem_remedy_id remedies) available) opts)"
    using assess_options_eq [OF a] by (metis list.set_intros(1))
  then show ?thesis using s(2) d by auto
qed

section \<open>Ready runs\<close>

lemma report_build_ready:
  assumes "report_build x = Inr r" "rpt_status r = CR_READY_TO_FILE"
  shows "rin_critical_unknowns x = [] \<and> sdc_decision_status (rin_strategy_decision x) = SD_RECOMMENDED \<and>
    evidence_gap_ids (rin_evidence_requirements x) = [] \<and>
    ftd_status (rin_topology x) \<in> {FT_SINGLE_FILING_SAFE, FT_MULTIPLE_FILINGS_REQUIRED} \<and> rin_preflights x \<noteq> [] \<and>
    (\<forall>p \<in> set (rin_preflights x). pfr_final_status p = PFF_FILING_READY)"
  using report_build_Inr [OF assms(1)] assms(2) report_ready by metis

text \<open>The facts of a run whose report is ready, under one selected strategy.\<close>

lemma ready_run:
  assumes "cirp_run zones q = Inr out" "rpt_status (crr_report out) = CR_READY_TO_FILE"
  obtains s where "s \<in> set (crq_strategy_options q)"
    "sdc_selected_strategy_id (crr_strategy_decision out) = Some (sto_strategy_id s)"
    "safe_option (by_id rem_remedy_id (crr_remedies out)) (crq_available_evidence_ids q) s"
    "mset (concat (map fpl_remedy_ids (crr_filing_plans out))) = mset (sto_remedy_ids s)" "crr_filing_plans out \<noteq> []"
    "\<forall>i \<in> set (sto_remedy_ids s). \<exists>e \<in> set (crq_remedy_evaluations q). rmr_remedy_id e = i \<and>
       remedy_grounded q (crr_deadlines out) e"
    "\<forall>p \<in> set (crr_filing_plans out). \<exists>e \<in> set (crq_execution_states q). fes_filing_id e = fpl_filing_id p \<and>
       execution_ready (by_id rem_remedy_id (crr_remedies out)) p e"
    "\<forall>e \<in> set (crq_evidence_requirements q). evr_status e \<in> {ER_PRESENT, ER_NOT_APPLICABLE}"
    "critical_unknowns_of q = []"
proof -
  from assms(1) obtain dg rg added where run: "build_guards q = Inr (dg, rg)"
    "evaluate_deadlines zones q dg = Inr (crr_deadlines out)"
    "evaluate_remedies q rg (by_id das_deadline_id (rev (crr_deadlines out))) = Inr (crr_remedies out)"
    "strategy_decide (crq_strategy_options q) (crr_remedies out) (crq_available_evidence_ids q) (crq_decisive_evidence q)
      (crq_decisive_rules q) = Inr (crr_strategy_decision out)"
    "run_filings q (crr_deadlines out) (crr_remedies out) (crr_strategy_decision out) (crr_filing_topology out) =
      Inr (crr_filing_plans out, crr_preflights out, added)"
    "report_build (report_request q (crr_deadlines out) (crr_remedies out) (crr_strategy_decision out)
      (crr_filing_topology out) (crr_filing_plans out) (crr_preflights out)
      (open_questions_of q (crr_deadlines out) (crr_remedies out) (crr_filing_topology out) @ added)) = Inr (crr_report out)"
    by (rule cirp_run_steps) blast
  have ready: "critical_unknowns_of q = []" "sdc_decision_status (crr_strategy_decision out) = SD_RECOMMENDED"
      "evidence_gap_ids (crq_evidence_requirements q) = []" "crr_preflights out \<noteq> []"
      "\<forall>p \<in> set (crr_preflights out). pfr_final_status p = PFF_FILING_READY"
    using report_build_ready [OF run(6) assms(2)] by (simp_all add: report_request_def)
  from strategy_decide_recommended [OF run(4) ready(2)] obtain s where s: "s \<in> set (crq_strategy_options q)"
      "sdc_selected_strategy_id (crr_strategy_decision out) = Some (sto_strategy_id s)"
      "safe_option (by_id rem_remedy_id (crr_remedies out)) (crq_available_evidence_ids q) s"
      "distinct (map rem_remedy_id (crr_remedies out))" by blast
  from run_filings_plans [OF run(5) ready(4)] obtain mats where mats:
      "materialize_filing_remedies (crr_remedies out) (crq_evidence_requirements q) = Inr mats"
      "filing_plans (crr_strategy_decision out) (crq_strategy_options q) (crr_filing_topology out) mats (crr_deadlines out)
        (crq_available_evidence_ids q) (crq_filing_specs q) = Inr (crr_filing_plans out)"
      "map_result (preflight_plan q mats (crr_deadlines out)) (crr_filing_plans out) = Inr (crr_preflights out)" .
  from mats(2) obtain t where t: "selected_strategy (crr_strategy_decision out) (crq_strategy_options q) = Inr t"
      "partitioned t (crr_filing_topology out) (crq_filing_specs q)"
      "map_result (plan_unit t (ftd_status (crr_filing_topology out)) (by_id rem_remedy_id mats)
        (by_id das_deadline_id (crr_deadlines out)) (crq_available_evidence_ids q)) (crq_filing_specs q) = Inr (crr_filing_plans out)"
    unfolding filing_plans_Inr by blast
  have "t = s" using t(1) s(1,2) unfolding selected_strategy_Inr by (auto simp: distinct_map dest: inj_onD)
  have made: "\<forall>a \<in> set (crr_deadlines out). deadline_init a = Inr a"
    using deadlines_evaluated [OF run(1,2)] by blast
  have plans: "mset (concat (map fpl_remedy_ids (crr_filing_plans out))) = mset (sto_remedy_ids s)"
      "\<forall>p \<in> set (crr_filing_plans out). filing_plan_init p = Inr p"
    using plans_of_specs [OF t(3)] t(2) unfolding partitioned_def \<open>t = s\<close> by metis+
  note related = materialized [OF mats(1)]
  have forms: "map_option rem_formal_requirements (by_id rem_remedy_id mats i) =
      map_option rem_formal_requirements (by_id rem_remedy_id (crr_remedies out) i)" for i
    by (rule by_id_related [OF list_all2_mono [OF related]]) blast
  have exec: "execution_ready (by_id rem_remedy_id mats) p e \<Longrightarrow> execution_ready (by_id rem_remedy_id (crr_remedies out)) p e"
    for p e
  proof -
    assume e: "execution_ready (by_id rem_remedy_id mats) p e"
    have "set (rem_formal_requirements r) \<subseteq> set (fes_satisfied_formal_requirements e)"
      if i: "i \<in> set (fpl_remedy_ids p)" "by_id rem_remedy_id (crr_remedies out) i = Some r" for i r
    proof -
      obtain r' where "by_id rem_remedy_id mats i = Some r'" "rem_formal_requirements r' = rem_formal_requirements r"
        using forms [of i] i(2) by auto
      then show ?thesis using e i(1) unfolding execution_ready_def by metis
    qed
    then show ?thesis using e unfolding execution_ready_def by blast
  qed
  have grounded: "\<forall>i \<in> set (sto_remedy_ids s). \<exists>e \<in> set (crq_remedy_evaluations q). rmr_remedy_id e = i \<and>
       remedy_grounded q (crr_deadlines out) e"
  proof
    fix i assume "i \<in> set (sto_remedy_ids s)"
    then obtain r where r: "by_id rem_remedy_id (crr_remedies out) i = Some r" "rem_admissibility_status r = RA_VERIFIED_AVAILABLE"
      using s(3) unfolding safe_option_def by blast
    from by_id_Some [OF r(1)] verified_remedy_grounded [OF run(1,3) _ r(2)]
    show "\<exists>e \<in> set (crq_remedy_evaluations q). rmr_remedy_id e = i \<and> remedy_grounded q (crr_deadlines out) e" by blast
  qed
  have filed: "\<forall>p \<in> set (crr_filing_plans out). \<exists>e \<in> set (crq_execution_states q). fes_filing_id e = fpl_filing_id p \<and>
       execution_ready (by_id rem_remedy_id (crr_remedies out)) p e"
  proof
    fix p assume p: "p \<in> set (crr_filing_plans out)"
    then obtain r where r: "r \<in> set (crr_preflights out)" "preflight_plan q mats (crr_deadlines out) p = Inr r"
      using map_result_target [OF mats(3)] by blast
    obtain e where e: "e \<in> set (crq_execution_states q)" "fes_filing_id e = fpl_filing_id p"
        "execution_ready (by_id rem_remedy_id mats) p e"
      using preflight_plan_ready [OF r(2) ready(5) [rule_format, OF r(1)] plans(2) [rule_format, OF p] made] by auto
    then show "\<exists>e \<in> set (crq_execution_states q). fes_filing_id e = fpl_filing_id p \<and>
        execution_ready (by_id rem_remedy_id (crr_remedies out)) p e"
      by (intro bexI [OF _ e(1)] conjI e(2) exec e(3))
  qed
  have "crr_filing_plans out \<noteq> []" using mats(3) ready(4) by auto
  moreover have "\<forall>e \<in> set (crq_evidence_requirements q). evr_status e \<in> {ER_PRESENT, ER_NOT_APPLICABLE}"
    using ready(3) by (simp add: evidence_gap_ids_Nil)
  ultimately show thesis using that s(1-3) plans(1) grounded filed ready(1) by blast
qed

end
