(* ===== verification/CIRP_Governance.thy ===== *)
theory CIRP_Governance
  imports CIRP_Engine
begin

text \<open>
  \<^verbatim>\<open>core/cirp/governance.py\<close> and \<^verbatim>\<open>core/cirp/governed_runtime.py\<close>: the registry of approved rule packs, the
  freshness policy, the governance receipt, and the governed runtime in front of the canonical one.
\<close>

section \<open>Approvals\<close>

definition RULE_PACK_APPROVAL_SCHEMA_V1 :: string where
  "RULE_PACK_APPROVAL_SCHEMA_V1 = ''lukart.cirp.rule-pack-approval.v1''"

definition RULE_PACK_REGISTRY_SCHEMA_V1 :: string where
  "RULE_PACK_REGISTRY_SCHEMA_V1 = ''lukart.cirp.rule-pack-registry.v1''"

definition RULE_PACK_FRESHNESS_POLICY_SCHEMA_V1 :: string where
  "RULE_PACK_FRESHNESS_POLICY_SCHEMA_V1 = ''lukart.cirp.rule-pack-freshness-policy.v1''"

definition RULE_PACK_GOVERNANCE_RECEIPT_SCHEMA_V1 :: string where
  "RULE_PACK_GOVERNANCE_RECEIPT_SCHEMA_V1 = ''lukart.cirp.rule-pack-governance-receipt.v1''"

record pack_approval =
  rpa_approval_id :: string
  rpa_pack_id :: string
  rpa_pack_digest :: string
  rpa_verified_at :: py_datetime
  rpa_approved_by :: string
  rpa_revoked_at :: "py_datetime option"
  rpa_schema :: string

definition pack_approval_init :: "pack_approval \<Rightarrow> pack_approval result" where
  "pack_approval_init a =
     (if rpa_schema a \<noteq> RULE_PACK_APPROVAL_SCHEMA_V1 then raise_cirp ''unsupported rule-pack approval schema''
      else and_then (nonblank_fields [(''approval_id'', rpa_approval_id a), (''pack_id'', rpa_pack_id a),
          (''approved_by'', rpa_approved_by a)]) (\<lambda>_.
      and_then (cirp_digest (rpa_pack_digest a) ''pack_digest'') (\<lambda>pack_digest.
      and_then (cirp_aware (rpa_verified_at a) ''verified_at'') (\<lambda>_.
      case rpa_revoked_at a of None \<Rightarrow> return (a\<lparr>rpa_pack_digest := pack_digest\<rparr>)
      | Some revoked \<Rightarrow> and_then (cirp_aware revoked ''revoked_at'') (\<lambda>_.
          if instant revoked < instant (rpa_verified_at a)
          then raise_cirp ''rule-pack revoked_at precedes verified_at''
          else return (a\<lparr>rpa_pack_digest := pack_digest\<rparr>))))))"

definition pack_approval_dict :: "pack_approval \<Rightarrow> (string \<times> json) list" where
  "pack_approval_dict a =
    [(''schema'', JStr (rpa_schema a)), (''approval_id'', JStr (rpa_approval_id a)), (''pack_id'', JStr (rpa_pack_id a)),
     (''pack_digest'', JStr (rpa_pack_digest a)), (''verified_at'', JStr (isoformat (rpa_verified_at a))),
     (''approved_by'', JStr (rpa_approved_by a)),
     (''revoked_at'', case rpa_revoked_at a of None \<Rightarrow> JNull | Some t \<Rightarrow> JStr (isoformat t))]"

definition pack_approval_digest :: "pack_approval \<Rightarrow> string" where
  "pack_approval_digest a = content_digest (JObj (pack_approval_dict a))"

definition pack_digest :: "rule_pack \<Rightarrow> string" where
  "pack_digest pack = content_digest (JObj (rule_pack_dict pack))"

section \<open>The registry\<close>

record pack_registry =
  rpr_registry_id :: string
  rpr_version :: string
  rpr_approvals :: "pack_approval list"
  rpr_schema :: string

definition approval_key :: "pack_approval \<Rightarrow> string \<times> string" where
  "approval_key a = (rpa_pack_id a, rpa_pack_digest a)"

text \<open>Sorting by the pair is sorting by the digest and then, stably, by the pack.\<close>

definition pack_registry_init :: "pack_registry \<Rightarrow> pack_registry result" where
  "pack_registry_init r =
     (if rpr_schema r \<noteq> RULE_PACK_REGISTRY_SCHEMA_V1 then raise_cirp ''unsupported rule-pack registry schema''
      else and_then (cirp_nonblank (rpr_registry_id r) ''registry_id'') (\<lambda>_.
      and_then (cirp_nonblank (rpr_version r) ''registry version'') (\<lambda>_.
      if \<not> distinct (map approval_key (rpr_approvals r))
      then raise_cirp ''rule-pack registry contains duplicate exact approvals''
      else if \<not> distinct (map rpa_approval_id (rpr_approvals r))
      then raise_cirp ''rule-pack registry contains duplicate approval_id values''
      else return (r\<lparr>rpr_approvals := sort_key rpa_pack_id (sort_key rpa_pack_digest (rpr_approvals r))\<rparr>))))"

definition exact_approval :: "pack_registry \<Rightarrow> rule_pack \<Rightarrow> pack_approval result" where
  "exact_approval r pack =
     (case filter (\<lambda>a. rpa_pack_id a = rpk_pack_id pack \<and> rpa_pack_digest a = pack_digest pack) (rpr_approvals r) of
        [a] \<Rightarrow> return a
      | _ \<Rightarrow> raise_cirp
          (''procedural rule pack lacks exactly one registry approval for its exact digest: '' @ rpk_pack_id pack))"

definition pack_registry_dict :: "pack_registry \<Rightarrow> (string \<times> json) list" where
  "pack_registry_dict r =
    [(''schema'', JStr (rpr_schema r)), (''registry_id'', JStr (rpr_registry_id r)), (''version'', JStr (rpr_version r)),
     (''approvals'', JList (map (\<lambda>a. JObj (pack_approval_dict a)) (rpr_approvals r)))]"

definition pack_registry_digest :: "pack_registry \<Rightarrow> string" where
  "pack_registry_digest r = content_digest (JObj (pack_registry_dict r))"

section \<open>Freshness\<close>

record freshness_policy =
  rfp_policy_id :: string
  rfp_version :: string
  rfp_max_approval_age_days :: int
  rfp_max_source_age_days :: int
  rfp_require_verified_sources :: bool
  rfp_schema :: string

definition freshness_policy_init :: "freshness_policy \<Rightarrow> freshness_policy result" where
  "freshness_policy_init p =
     (if rfp_schema p \<noteq> RULE_PACK_FRESHNESS_POLICY_SCHEMA_V1
      then raise_cirp ''unsupported rule-pack freshness policy schema''
      else and_then (cirp_nonblank (rfp_policy_id p) ''freshness policy_id'') (\<lambda>_.
      and_then (cirp_nonblank (rfp_version p) ''freshness policy version'') (\<lambda>_.
      if rfp_max_approval_age_days p < 0 \<or> rfp_max_source_age_days p < 0
      then raise_cirp ''freshness age limits cannot be negative'' else return p)))"

definition freshness_policy_dict :: "freshness_policy \<Rightarrow> (string \<times> json) list" where
  "freshness_policy_dict p =
    [(''schema'', JStr (rfp_schema p)), (''policy_id'', JStr (rfp_policy_id p)), (''version'', JStr (rfp_version p)),
     (''max_approval_age_days'', JInt (rfp_max_approval_age_days p)),
     (''max_source_age_days'', JInt (rfp_max_source_age_days p)),
     (''require_verified_sources'', JBool (rfp_require_verified_sources p))]"

definition freshness_policy_digest :: "freshness_policy \<Rightarrow> string" where
  "freshness_policy_digest p = content_digest (JObj (freshness_policy_dict p))"

section \<open>The receipt\<close>

record governance_receipt =
  grc_run_identity_digest :: string
  grc_request_digest :: string
  grc_rule_pack_set_digest :: string
  grc_registry_digest :: string
  grc_freshness_policy_digest :: string
  grc_evaluation_time :: py_datetime
  grc_approval_digests :: "string list"
  grc_pack_digests :: "string list"
  grc_schema :: string

definition digest_tuple :: "string list \<Rightarrow> string \<Rightarrow> string list result" where
  "digest_tuple ds field_name =
     and_then (map_result (\<lambda>d. cirp_digest d field_name) ds) (\<lambda>normalized.
     if normalized = [] then raise_cirp (field_name @ '' cannot be empty'')
     else if \<not> distinct normalized then raise_cirp (field_name @ '' cannot contain duplicates'')
     else return (sort normalized))"

definition governance_receipt_init :: "governance_receipt \<Rightarrow> governance_receipt result" where
  "governance_receipt_init r =
     (if grc_schema r \<noteq> RULE_PACK_GOVERNANCE_RECEIPT_SCHEMA_V1
      then raise_cirp ''unsupported rule-pack governance receipt schema''
      else and_then (cirp_digest (grc_run_identity_digest r) ''run_identity_digest'') (\<lambda>run_digest.
      and_then (cirp_digest (grc_request_digest r) ''request_digest'') (\<lambda>request_digest.
      and_then (cirp_digest (grc_rule_pack_set_digest r) ''rule_pack_set_digest'') (\<lambda>set_digest.
      and_then (cirp_digest (grc_registry_digest r) ''registry_digest'') (\<lambda>registry_digest.
      and_then (cirp_digest (grc_freshness_policy_digest r) ''freshness_policy_digest'') (\<lambda>policy_digest.
      and_then (cirp_aware (grc_evaluation_time r) ''evaluation_time'') (\<lambda>_.
      and_then (digest_tuple (grc_approval_digests r) ''approval_digests'') (\<lambda>approvals.
      and_then (digest_tuple (grc_pack_digests r) ''pack_digests'') (\<lambda>packs.
      return (r\<lparr>grc_run_identity_digest := run_digest, grc_request_digest := request_digest,
        grc_rule_pack_set_digest := set_digest, grc_registry_digest := registry_digest,
        grc_freshness_policy_digest := policy_digest, grc_approval_digests := approvals,
        grc_pack_digests := packs\<rparr>))))))))))"

definition governance_receipt_dict :: "governance_receipt \<Rightarrow> (string \<times> json) list" where
  "governance_receipt_dict r =
    [(''schema'', JStr (grc_schema r)), (''run_identity_digest'', JStr (grc_run_identity_digest r)),
     (''request_digest'', JStr (grc_request_digest r)), (''rule_pack_set_digest'', JStr (grc_rule_pack_set_digest r)),
     (''registry_digest'', JStr (grc_registry_digest r)),
     (''freshness_policy_digest'', JStr (grc_freshness_policy_digest r)),
     (''evaluation_time'', JStr (isoformat (grc_evaluation_time r))),
     (''approval_digests'', jstrs (grc_approval_digests r)), (''pack_digests'', jstrs (grc_pack_digests r))]"

definition governance_receipt_digest :: "governance_receipt \<Rightarrow> string" where
  "governance_receipt_digest r = content_digest (JObj (governance_receipt_dict r))"

section \<open>Verification\<close>

text \<open>\<^verbatim>\<open>timedelta(days=n)\<close> for a nonnegative \<open>n\<close>, in microseconds.\<close>

definition timedelta_days :: "int \<Rightarrow> int result" where
  "timedelta_days n = (if n > 999999999 \<or> n < -999999999 then raise BuiltinOverflowError else return (n * US_DAY))"

text \<open>\<^verbatim>\<open>now - then > limit\<close> on aware times is a comparison of instants.\<close>

fun check_sources :: "freshness_policy \<Rightarrow> int \<Rightarrow> py_datetime \<Rightarrow> legal_source list \<Rightarrow> unit result" where
  "check_sources policy limit t [] = return ()"
| "check_sources policy limit t (s # sources) =
     (if instant (lsr_retrieved_at s) > instant t
      then raise_cirp (''rule-pack legal source retrieval is future-dated: '' @ lsr_source_id s)
      else if instant t - instant (lsr_retrieved_at s) > limit
      then raise_cirp (''rule-pack legal source freshness limit exceeded: '' @ lsr_source_id s)
      else if rfp_require_verified_sources policy \<and> lsr_verification_status s \<noteq> LS_VERIFIED
      then raise_cirp (''freshness policy requires VERIFIED legal sources: '' @ lsr_source_id s)
      else check_sources policy limit t sources)"

definition verify_pack ::
  "pack_registry \<Rightarrow> freshness_policy \<Rightarrow> int \<Rightarrow> int \<Rightarrow> py_datetime \<Rightarrow> rule_pack \<Rightarrow> pack_approval result" where
  "verify_pack registry policy approval_limit source_limit t pack =
     and_then (exact_approval registry pack) (\<lambda>a.
     if instant (rpa_verified_at a) > instant t
     then raise_cirp (''rule-pack approval is future-dated relative to evaluation_time: '' @ rpk_pack_id pack)
     else if (case rpa_revoked_at a of None \<Rightarrow> False | Some r \<Rightarrow> instant r \<le> instant t)
     then raise_cirp (''rule-pack approval is revoked: '' @ rpk_pack_id pack)
     else if instant t - instant (rpa_verified_at a) > approval_limit
     then raise_cirp (''rule-pack approval is stale: '' @ rpk_pack_id pack)
     else and_then (check_sources policy source_limit t (rpk_source_set pack)) (\<lambda>_. return a))"

definition verify_rule_pack_governance ::
  "rule_pack list \<Rightarrow> pack_registry \<Rightarrow> freshness_policy \<Rightarrow> py_datetime \<Rightarrow> string \<Rightarrow> string \<Rightarrow> string \<Rightarrow>
   governance_receipt result" where
  "verify_rule_pack_governance packs registry policy t run_digest request_digest set_digest =
     and_then (cirp_aware t ''evaluation_time'') (\<lambda>_.
     and_then (cirp_digest run_digest ''run_identity_digest'') (\<lambda>_.
     and_then (cirp_digest request_digest ''request_digest'') (\<lambda>_.
     and_then (cirp_digest set_digest ''rule_pack_set_digest'') (\<lambda>_.
     if packs = [] then raise_cirp ''rule-pack governance verification requires rule packs''
     else and_then (timedelta_days (rfp_max_approval_age_days policy)) (\<lambda>approval_limit.
     and_then (timedelta_days (rfp_max_source_age_days policy)) (\<lambda>source_limit.
     and_then (map_result (verify_pack registry policy approval_limit source_limit t) packs) (\<lambda>approvals.
     governance_receipt_init
       \<lparr>grc_run_identity_digest = run_digest, grc_request_digest = request_digest,
        grc_rule_pack_set_digest = set_digest, grc_registry_digest = pack_registry_digest registry,
        grc_freshness_policy_digest = freshness_policy_digest policy, grc_evaluation_time = t,
        grc_approval_digests = map pack_approval_digest approvals, grc_pack_digests = map pack_digest packs,
        grc_schema = RULE_PACK_GOVERNANCE_RECEIPT_SCHEMA_V1\<rparr>)))))))"

section \<open>The governed runtime\<close>

definition GOVERNED_CIRP_REPLAY_SCHEMA_V1 :: string where
  "GOVERNED_CIRP_REPLAY_SCHEMA_V1 = ''lukart.cirp.governed-replay.v1''"

fun trigger_status_value :: "trigger_status \<Rightarrow> string" where
  "trigger_status_value TS_VERIFIED = ''VERIFIED''"
| "trigger_status_value TS_PROVISIONAL = ''PROVISIONAL''"
| "trigger_status_value TS_MISSING = ''MISSING''"
| "trigger_status_value TS_CONFLICTING = ''CONFLICTING''"

fun applicability_value :: "applicability \<Rightarrow> string" where
  "applicability_value AP_VERIFIED = ''VERIFIED''"
| "applicability_value AP_PROVISIONAL = ''PROVISIONAL''"
| "applicability_value AP_NOT_APPLICABLE = ''NOT_APPLICABLE''"
| "applicability_value AP_UNKNOWN = ''UNKNOWN''"
| "applicability_value AP_CONFLICTING = ''CONFLICTING''"

definition governed_deadline_dict :: "deadline_request \<Rightarrow> (string \<times> json) list" where
  "governed_deadline_dict e =
    [(''rule_pack_id'', JStr (ddr_rule_pack_id e)), (''deadline_id'', JStr (ddr_deadline_id e)),
     (''rule_key'', JStr (ddr_rule_key e)), (''trigger_type'', JStr (ddr_trigger_type e)),
     (''trigger_date'', opt_date (ddr_trigger_date e)), (''trigger_evidence'', opt_id (ddr_trigger_evidence e)),
     (''trigger_status'', JStr (trigger_status_value (ddr_trigger_status e))),
     (''effective_law_date'', opt_date (ddr_effective_law_date e)),
     (''safe_buffer_business_days'', cirp_int (ddr_safe_buffer_business_days e))]"

definition governed_remedy_dict :: "remedy_request \<Rightarrow> (string \<times> json) list" where
  "governed_remedy_dict e =
    [(''rule_pack_id'', JStr (rmr_rule_pack_id e)), (''remedy_id'', JStr (rmr_remedy_id e)),
     (''rule_key'', JStr (rmr_rule_key e)),
     (''applicability_status'', JStr (applicability_value (rmr_applicability_status e))),
     (''effective_law_date'', opt_date (rmr_effective_law_date e)), (''deadline_id'', opt_id (rmr_deadline_id e))]"

definition canonical_governance_request_digest :: "run_request \<Rightarrow> string result" where
  "canonical_governance_request_digest q =
     and_then (canonical_rule_pack_set_digest (crq_rule_packs q)) (\<lambda>set_digest.
     return (content_digest (JObj
       [(''run_id'', JStr (crq_run_id q)), (''run_identity_digest'', JStr (run_identity_digest (crq_run_identity q))),
        (''rule_pack_set_digest'', JStr set_digest),
        (''deadline_evaluations'', JList (map (\<lambda>e. JObj (governed_deadline_dict e)) (crq_deadline_evaluations q))),
        (''remedy_evaluations'', JList (map (\<lambda>e. JObj (governed_remedy_dict e)) (crq_remedy_evaluations q)))])))"

record governed_manifest =
  grm_canonical_replay_digest :: string
  grm_governance_receipt_digest :: string
  grm_run_identity_digest :: string
  grm_request_digest :: string
  grm_schema :: string

definition governed_manifest_init :: "governed_manifest \<Rightarrow> governed_manifest result" where
  "governed_manifest_init m =
     (if grm_schema m \<noteq> GOVERNED_CIRP_REPLAY_SCHEMA_V1 then raise_cirp ''unsupported governed CIRP replay schema''
      else return m)"

definition governed_manifest_dict :: "governed_manifest \<Rightarrow> (string \<times> json) list" where
  "governed_manifest_dict m =
    [(''schema'', JStr (grm_schema m)), (''canonical_replay_digest'', JStr (grm_canonical_replay_digest m)),
     (''governance_receipt_digest'', JStr (grm_governance_receipt_digest m)),
     (''run_identity_digest'', JStr (grm_run_identity_digest m)), (''request_digest'', JStr (grm_request_digest m))]"

record governed_result =
  gvr_canonical_result :: run_result
  gvr_governance_receipt :: "governance_receipt option"
  gvr_replay_manifest :: "governed_manifest option"

text \<open>\<^verbatim>\<open>__init__\<close>: the registry and the policy come together or not at all.\<close>

definition governed_runtime ::
  "pack_registry option \<Rightarrow> freshness_policy option \<Rightarrow> (pack_registry option \<times> freshness_policy option) result" where
  "governed_runtime registry policy =
     (if (registry = None) \<noteq> (policy = None)
      then raise_cirp ''rule-pack registry and freshness policy must be supplied together''
      else return (registry, policy))"

definition governance_of ::
  "pack_registry option \<times> freshness_policy option \<Rightarrow> run_request \<Rightarrow> string \<Rightarrow> governance_receipt option result" where
  "governance_of runtime q request_digest =
     (if crq_rule_packs q \<noteq> [] then
        (case runtime of
           (Some registry, Some policy) \<Rightarrow>
             and_then (canonical_rule_pack_set_digest (crq_rule_packs q)) (\<lambda>set_digest.
             and_then (verify_rule_pack_governance (crq_rule_packs q) registry policy
                (cri_evaluation_time (crq_run_identity q)) (run_identity_digest (crq_run_identity q)) request_digest set_digest)
               (\<lambda>receipt. return (Some receipt)))
         | _ \<Rightarrow> raise_cirp ''procedural rule packs require registry approval and freshness governance'')
      else if fst runtime \<noteq> None \<or> snd runtime \<noteq> None
      then raise_cirp ''rule-pack governance context cannot be attached to a run without rule packs''
      else return None)"

definition governed_run ::
  "zone_database \<Rightarrow> pack_registry option \<times> freshness_policy option \<Rightarrow> run_request \<Rightarrow> governed_result result" where
  "governed_run zones runtime q =
     and_then (canonical_governance_request_digest q) (\<lambda>request_digest.
     and_then (governance_of runtime q request_digest) (\<lambda>receipt.
     and_then (cirp_run zones q) (\<lambda>canonical.
     case receipt of
       None \<Rightarrow> return \<lparr>gvr_canonical_result = canonical, gvr_governance_receipt = None, gvr_replay_manifest = None\<rparr>
     | Some r \<Rightarrow> and_then (governed_manifest_init
           \<lparr>grm_canonical_replay_digest = replay_manifest_digest (crr_replay_manifest canonical),
            grm_governance_receipt_digest = governance_receipt_digest r,
            grm_run_identity_digest = run_identity_digest (crq_run_identity q), grm_request_digest = request_digest,
            grm_schema = GOVERNED_CIRP_REPLAY_SCHEMA_V1\<rparr>) (\<lambda>m.
         return \<lparr>gvr_canonical_result = canonical, gvr_governance_receipt = Some r, gvr_replay_manifest = Some m\<rparr>))))"

section \<open>What governance accepts\<close>

definition source_fresh :: "freshness_policy \<Rightarrow> py_datetime \<Rightarrow> legal_source \<Rightarrow> bool" where
  "source_fresh policy t s = (instant (lsr_retrieved_at s) \<le> instant t \<and>
     instant t \<le> instant (lsr_retrieved_at s) + rfp_max_source_age_days policy * US_DAY \<and>
     (rfp_require_verified_sources policy \<longrightarrow> lsr_verification_status s = LS_VERIFIED))"

text \<open>A pack approved at its exact digest by an approval that is in force and fresh at \<open>t\<close>, with fresh sources.\<close>

definition pack_approved :: "pack_registry \<Rightarrow> freshness_policy \<Rightarrow> py_datetime \<Rightarrow> rule_pack \<Rightarrow> bool" where
  "pack_approved registry policy t pack =
     ((\<exists>a \<in> set (rpr_approvals registry). rpa_pack_id a = rpk_pack_id pack \<and> rpa_pack_digest a = pack_digest pack \<and>
         instant (rpa_verified_at a) \<le> instant t \<and>
         instant t \<le> instant (rpa_verified_at a) + rfp_max_approval_age_days policy * US_DAY \<and>
         (\<forall>r. rpa_revoked_at a = Some r \<longrightarrow> instant t < instant r)) \<and>
      (\<forall>s \<in> set (rpk_source_set pack). source_fresh policy t s))"

lemma check_sources_Inr:
  "check_sources policy (rfp_max_source_age_days policy * US_DAY) t sources = Inr u \<longleftrightarrow>
     (\<forall>s \<in> set sources. source_fresh policy t s)"
  by (induction sources) (auto simp: source_fresh_def)

text \<open>A registry its constructor made holds one approval for a pack and a digest.\<close>

lemma registry_keys:
  assumes "pack_registry_init r0 = Inr r"
  shows "distinct (map approval_key (rpr_approvals r))"
proof -
  have r: "distinct (map approval_key (rpr_approvals r0))"
      "rpr_approvals r = sort_key rpa_pack_id (sort_key rpa_pack_digest (rpr_approvals r0))"
    using assms by (auto simp: pack_registry_init_def split: if_splits)
  have "mset (map approval_key (rpr_approvals r)) = mset (map approval_key (rpr_approvals r0))" by (simp add: r(2))
  then show ?thesis using r(1) mset_eq_imp_distinct_iff by blast
qed

lemma one_of: "distinct (map f xs) \<Longrightarrow> x \<in> set xs \<Longrightarrow> filter (\<lambda>y. f y = f x) xs = [x]"
proof (induction xs)
  case (Cons y ys)
  show ?case
  proof (cases "y = x")
    case True
    then have "filter (\<lambda>z. f z = f x) ys = []" using Cons.prems(1) by (auto simp: filter_empty_conv image_iff)
    then show ?thesis using True by simp
  next
    case False
    then have "f y \<noteq> f x" using Cons.prems by auto
    then show ?thesis using Cons False by simp
  qed
qed simp

lemma exact_approval_Inr:
  assumes "distinct (map approval_key (rpr_approvals r))"
  shows "exact_approval r pack = Inr a \<longleftrightarrow>
    a \<in> set (rpr_approvals r) \<and> rpa_pack_id a = rpk_pack_id pack \<and> rpa_pack_digest a = pack_digest pack" (is "_ \<longleftrightarrow> ?A")
proof
  assume "exact_approval r pack = Inr a"
  then have "filter (\<lambda>a. rpa_pack_id a = rpk_pack_id pack \<and> rpa_pack_digest a = pack_digest pack) (rpr_approvals r) = [a]"
    by (auto simp: exact_approval_def split: list.splits)
  then have "a \<in> set (filter (\<lambda>a. rpa_pack_id a = rpk_pack_id pack \<and> rpa_pack_digest a = pack_digest pack) (rpr_approvals r))"
    by simp
  then show ?A by simp
next
  assume A: ?A
  then have "filter (\<lambda>b. approval_key b = approval_key a) (rpr_approvals r) = [a]" using one_of [OF assms] by blast
  then show "exact_approval r pack = Inr a" using A by (simp add: exact_approval_def approval_key_def)
qed

lemma verify_pack_approved:
  assumes "distinct (map approval_key (rpr_approvals registry))"
  shows "(\<exists>a. verify_pack registry policy (rfp_max_approval_age_days policy * US_DAY) (rfp_max_source_age_days policy * US_DAY)
      t pack = Inr a) \<longleftrightarrow> pack_approved registry policy t pack"
proof -
  have "verify_pack registry policy (rfp_max_approval_age_days policy * US_DAY) (rfp_max_source_age_days policy * US_DAY)
      t pack = Inr a \<longleftrightarrow> a \<in> set (rpr_approvals registry) \<and> rpa_pack_id a = rpk_pack_id pack \<and>
        rpa_pack_digest a = pack_digest pack \<and> instant (rpa_verified_at a) \<le> instant t \<and>
        instant t \<le> instant (rpa_verified_at a) + rfp_max_approval_age_days policy * US_DAY \<and>
        (\<forall>r. rpa_revoked_at a = Some r \<longrightarrow> instant t < instant r) \<and>
        (\<forall>s \<in> set (rpk_source_set pack). source_fresh policy t s)" for a
    unfolding verify_pack_def and_then_eq_Inr exact_approval_Inr [OF assms] raise_if check_sources_Inr
    by (cases "rpa_revoked_at a") (auto simp: not_less not_le)
  then show ?thesis unfolding pack_approved_def by blast
qed

lemma map_result_total: "(\<exists>ys. map_result f xs = Inr ys) \<longleftrightarrow> (\<forall>x \<in> set xs. \<exists>y. f x = Inr y)"
  by (induction xs) auto

end
