(* ===== verification/CIRP_Runs.thy ===== *)
theory CIRP_Runs
  imports CIRP_Governance
begin

text \<open>
  What a run of \<^verbatim>\<open>core/cirp/engine.py\<close> and of the governed runtime guarantees end to end, and one run of both
  carried out from the request to the manifest.
\<close>

section \<open>Deadlines on the date of service\<close>

lemma deadline_requests_checked:
  "validate_deadline_requests pack_ids run_evidence service es = Inr u \<Longrightarrow> e \<in> set es \<Longrightarrow>
     validate_service_trigger e service = Inr () \<and> (\<forall>v. ddr_trigger_evidence e = Some v \<longrightarrow> v \<in> set run_evidence)"
  by (induction es) (auto split: option.splits if_splits)

lemma request_checked:
  assumes "validate_request_identity q = Inr u"
  shows "\<exists>u'. validate_deadline_requests (map rpk_pack_id (crq_rule_packs q)) (cri_input_evidence_ids (crq_run_identity q))
      (crq_service_assessment q) (crq_deadline_evaluations q) = Inr u'"
  using assms unfolding validate_request_identity_def Let_def by (auto simp: raise_if)

lemma verified_service_trigger:
  assumes "validate_service_trigger e service = Inr u" "ddr_trigger_type e = ''SERVICE_DATE''"
    and "ddr_trigger_status e = TS_VERIFIED"
  shows "sva_assessment_status service = SV_VERIFIED \<and> ddr_trigger_date e = sva_service_date service \<and>
    (\<exists>v \<in> set (sva_evidence_refs service). ddr_trigger_evidence e = Some v)"
proof -
  have "expected_trigger (sva_assessment_status service) = TS_VERIFIED"
    using assms by (auto simp: validate_service_trigger_def Let_def split: if_splits)
  moreover from this have "sva_assessment_status service = SV_VERIFIED" by (auto simp: expected_trigger_def split: if_splits)
  ultimately show ?thesis using assms
    by (auto simp: validate_service_trigger_def Let_def split: if_splits option.splits)
qed

text \<open>A VERIFIED deadline echoes its query, whose trigger is verified.\<close>

lemma verified_deadline_query:
  assumes "deadline_evaluate zones g q = Inr a" "das_status a = DL_VERIFIED"
  shows "dq_trigger_status q = TS_VERIFIED \<and> das_trigger_type a = dq_trigger_type q \<and>
    das_trigger_date a = dq_trigger_date q \<and> das_trigger_evidence a = dq_trigger_evidence q"
proof -
  have "\<not> deadline_blocked a" using assms(2) by (simp add: deadline_blocked_def)
  from deadline_evaluate_cases [OF assms(1) this] show ?thesis using assms(2)
    by (auto simp: common_assessment_def evaluated_status_def split: if_splits)
qed

section \<open>Made artifacts\<close>

lemma remedy_evaluate_made:
  assumes "remedy_evaluate g q = Inr out"
  shows "remedy_option_init out = Inr out"
proof -
  have made: "remedy_option_init x = Inr out \<Longrightarrow> remedy_option_init out = Inr out" for x using inits_same(2) by metis
  obtain r requirements where e: "evaluate_remedy_rule g q r requirements = Inr out"
    using assms unfolding remedy_evaluate_def by (auto split: option.splits)
  show ?thesis using e unfolding evaluate_remedy_rule_def Let_def
    by (auto split: option.splits if_splits prod.splits dest: made)
qed

lemma uncertain_topology_made: "uncertain_topology rationale blockers = Inr t \<Longrightarrow> topology_init t = Inr t"
  unfolding uncertain_topology_def topology_for_def using inits_same(5) by metis

lemma topology_decide_made:
  assumes "topology_decide s remedies assessment = Inr t"
  shows "topology_init t = Inr t"
proof -
  have made: "topology_for st n c sep r b = Inr t \<Longrightarrow> topology_init t = Inr t" for st n c sep r b
    unfolding topology_for_def using inits_same(5) by metis
  show ?thesis using assms unfolding topology_decide_def Let_def
    by (auto split: option.splits if_splits dest: made uncertain_topology_made)
qed

lemma preflight_evaluate_made: "preflight_evaluate p remedies deadlines available e = Inr r \<Longrightarrow> preflight_result_init r = Inr r"
  unfolding preflight_evaluate_def preflight_outcome_def by (auto split: if_splits dest: inits_same(8))

lemma run_filings_made:
  assumes "run_filings q deadlines remedies d t = Inr (plans, preflights, added)" "\<forall>a \<in> set deadlines. deadline_init a = Inr a"
  shows "(\<forall>p \<in> set plans. filing_plan_init p = Inr p) \<and> (\<forall>r \<in> set preflights. preflight_result_init r = Inr r)"
proof (cases "preflights = []")
  case False
  from run_filings_plans [OF assms(1) this] obtain mats where mats:
      "filing_plans d (crq_strategy_options q) t mats deadlines (crq_available_evidence_ids q) (crq_filing_specs q) = Inr plans"
      "map_result (preflight_plan q mats deadlines) plans = Inr preflights" by blast
  then have "\<forall>p \<in> set plans. filing_plan_init p = Inr p" unfolding filing_plans_Inr using plans_of_specs by blast
  moreover have "preflight_result_init r = Inr r" if "r \<in> set preflights" for r
    using map_result_source [OF mats(2) that] preflight_evaluate_made by (auto simp: preflight_plan_def)
  ultimately show ?thesis by blast
next
  case True
  have "plans = []" using assms(1) unfolding run_filings_def run_preflight_def Let_def True
    by (auto split: if_splits dest!: map_result_length)
  then show ?thesis using True by simp
qed

section \<open>Properties\<close>

text \<open>C5: A ready report is grounded. When a run ends with the report READY_TO_FILE, it recommends a supplied
  strategy that is safe; the plans file exactly its remedies; each of them answers a request whose rule, in a
  pack of the run, has its full basis (in force, verified sources, verified applicability, verified deadline,
  present evidence); each plan has an execution state of the request that is ready for it; no evidence
  requirement is open and no critical unknown remains.\<close>

theorem ready_report_grounded:
  assumes "cirp_run zones q = Inr out" and "rpt_status (crr_report out) = CR_READY_TO_FILE"
  shows "\<exists>s \<in> set (crq_strategy_options q).
    sdc_selected_strategy_id (crr_strategy_decision out) = Some (sto_strategy_id s) \<and>
    safe_option (by_id rem_remedy_id (crr_remedies out)) (crq_available_evidence_ids q) s \<and>
    mset (concat (map fpl_remedy_ids (crr_filing_plans out))) = mset (sto_remedy_ids s) \<and> crr_filing_plans out \<noteq> [] \<and>
    (\<forall>i \<in> set (sto_remedy_ids s). \<exists>e \<in> set (crq_remedy_evaluations q). rmr_remedy_id e = i \<and>
       remedy_grounded q (crr_deadlines out) e) \<and>
    (\<forall>p \<in> set (crr_filing_plans out). \<exists>e \<in> set (crq_execution_states q). fes_filing_id e = fpl_filing_id p \<and>
       execution_ready (by_id rem_remedy_id (crr_remedies out)) p e) \<and>
    (\<forall>e \<in> set (crq_evidence_requirements q). evr_status e \<in> {ER_PRESENT, ER_NOT_APPLICABLE}) \<and>
    critical_unknowns_of q = []"
  using ready_run [OF assms] by metis

text \<open>C7: A verified deadline on the date of service rests on verified service. When a run assesses a deadline
  that runs from SERVICE_DATE as VERIFIED, the service assessment of the run is VERIFIED, the deadline runs from
  its date, and the evidence it names is evidence of that service and an input of the run.\<close>

theorem service_deadline_grounded:
  assumes "cirp_run zones q = Inr out" and "a \<in> set (crr_deadlines out)" and "das_status a = DL_VERIFIED"
    and "das_trigger_type a = ''SERVICE_DATE''"
  shows "sva_assessment_status (crq_service_assessment q) = SV_VERIFIED \<and>
    das_trigger_date a = sva_service_date (crq_service_assessment q) \<and>
    (\<exists>v. das_trigger_evidence a = Some v \<and> v \<in> set (sva_evidence_refs (crq_service_assessment q)) \<and>
       v \<in> set (cri_input_evidence_ids (crq_run_identity q)))"
proof -
  from assms(1) obtain dg rg where run: "validate_request_identity q = Inr ()" "build_guards q = Inr (dg, rg)"
      "evaluate_deadlines zones q dg = Inr (crr_deadlines out)"
    by (rule cirp_run_steps) blast
  from deadlines_evaluated [OF run(2,3) assms(2)] obtain e g where e: "e \<in> set (crq_deadline_evaluations q)"
      "deadline_evaluate zones g (query_of_deadline q e) = Inr a" by blast
  note v = verified_deadline_query [OF e(2) assms(3)]
  have t: "ddr_trigger_type e = ''SERVICE_DATE''" "ddr_trigger_status e = TS_VERIFIED" "das_trigger_date a = ddr_trigger_date e"
      "das_trigger_evidence a = ddr_trigger_evidence e"
    using v assms(4) by (simp_all add: query_of_deadline_def)
  from request_checked [OF run(1)] deadline_requests_checked [OF _ e(1)]
  have c: "validate_service_trigger e (crq_service_assessment q) = Inr ()"
      "\<forall>v. ddr_trigger_evidence e = Some v \<longrightarrow> v \<in> set (cri_input_evidence_ids (crq_run_identity q))" by blast+
  from verified_service_trigger [OF c(1) t(1,2)] show ?thesis using c(2) t(3,4) by auto
qed

text \<open>C6: No rule pack runs without governance. When the governed runtime, with a constructed registry, returns a
  result for a request that has rule packs, a registry and a policy were supplied and every pack is approved
  there at its exact digest, by an approval in force and fresh at the evaluation time, with fresh sources; the
  receipt lists exactly the digests of the packs, and the governed manifest binds this receipt to the
  manifest of the canonical run, which is the run of the ungoverned runtime on the same request.\<close>

theorem governed_run_approved:
  assumes "governed_run zones runtime q = Inr out" and "crq_rule_packs q \<noteq> []"
    and "\<forall>r. fst runtime = Some r \<longrightarrow> (\<exists>r0. pack_registry_init r0 = Inr r)"
  shows "\<exists>registry policy receipt m. runtime = (Some registry, Some policy) \<and>
    (\<forall>pack \<in> set (crq_rule_packs q).
       pack_approved registry policy (cri_evaluation_time (crq_run_identity q)) pack) \<and>
    gvr_governance_receipt out = Some receipt \<and> set (grc_pack_digests receipt) = pack_digest ` set (crq_rule_packs q) \<and>
    gvr_replay_manifest out = Some m \<and> grm_governance_receipt_digest m = governance_receipt_digest receipt \<and>
    grm_canonical_replay_digest m = replay_manifest_digest (crr_replay_manifest (gvr_canonical_result out)) \<and>
    cirp_run zones q = Inr (gvr_canonical_result out)"
proof -
  obtain d receipt where r: "governance_of runtime q d = Inr receipt" "cirp_run zones q = Inr (gvr_canonical_result out)"
      "receipt = gvr_governance_receipt out"
      "\<forall>x. receipt = Some x \<longrightarrow> (\<exists>m. gvr_replay_manifest out = Some m \<and>
         grm_governance_receipt_digest m = governance_receipt_digest x \<and>
         grm_canonical_replay_digest m = replay_manifest_digest (crr_replay_manifest (gvr_canonical_result out)))"
    using assms(1) unfolding governed_run_def governed_manifest_init_def by (auto split: option.splits)
  obtain registry policy sd x where g: "runtime = (Some registry, Some policy)" "receipt = Some x"
      "verify_rule_pack_governance (crq_rule_packs q) registry policy (cri_evaluation_time (crq_run_identity q))
        (run_identity_digest (crq_run_identity q)) d sd = Inr x"
    using r(1) assms(2) unfolding governance_of_def by (auto split: prod.splits option.splits)
  have keys: "distinct (map approval_key (rpr_approvals registry))" using assms(3) g(1) registry_keys by auto
  let ?v = "verify_pack registry policy (rfp_max_approval_age_days policy * US_DAY) (rfp_max_source_age_days policy * US_DAY)
      (cri_evaluation_time (crq_run_identity q))"
  obtain approvals where a: "map_result ?v (crq_rule_packs q) = Inr approvals"
      "set (grc_pack_digests x) = pack_digest ` set (crq_rule_packs q)"
    using g(3) unfolding verify_rule_pack_governance_def timedelta_days_def governance_receipt_init_def digest_tuple_def
    by (auto simp: map_result_map pack_digest_def sample_digest_ok map_result_pure split: if_splits)
  then have "\<forall>pack \<in> set (crq_rule_packs q). pack_approved registry policy (cri_evaluation_time (crq_run_identity q)) pack"
    using map_result_total [of ?v] verify_pack_approved [OF keys] by blast
  then show ?thesis using g r a(2) by auto
qed

section \<open>A run carried out\<close>

definition service_rule :: deadline_rule where
  "service_rule = sample_deadline_rule\<lparr>xdr_trigger_type := ''SERVICE_DATE''\<rparr>"

definition case_pack :: rule_pack where
  "case_pack = sample_pack\<lparr>rpk_deadline_rules := [deadline_rule_token service_rule],
     rpk_remedy_rules := [remedy_rule_token sample_remedy_rule]\<rparr>"

definition case_requirement :: evidence_requirement where
  "case_requirement = \<lparr>evr_requirement_id = ''uri'', evr_description = ''act'', evr_category = EC_MERITS_CRITICAL,
     evr_importance = EI_CRITICAL, evr_required_for = [''appeal@1''], evr_expected_evidence_kind = ''act'',
     evr_status = ER_PRESENT, evr_evidence_refs = [''uri''], evr_schema = EVIDENCE_REQUIREMENT_SCHEMA_V1\<rparr>"

definition case_choice :: strategy_option where
  "case_choice = sample_option\<lparr>sto_remedy_ids := [''a''], sto_required_evidence := [''uri'']\<rparr>"

definition case_spec :: filing_spec where
  "case_spec = (sample_spec ''f'' [''a''])\<lparr>fsp_evidence_refs := [''uri''],
     fsp_rule_refs := [remedy_rule_token sample_remedy_rule]\<rparr>"

definition case_document :: document_assessment where
  "case_document = \<lparr>doa_document_id = ''d'', doa_source_evidence_id = ''act'', doa_document_kind = DK_DECISION,
     doa_issuer = None, doa_recipient = None, doa_document_date = None, doa_case_reference = None, doa_subject = None,
     doa_operative_content = [], doa_requested_actions = [], doa_stated_deadlines = [],
     doa_classification_status = AS_VERIFIED, doa_evidence_refs = [''act''], doa_open_questions = [],
     doa_schema = DOCUMENT_ASSESSMENT_SCHEMA_V1\<rparr>"

definition case_procedure :: procedural_assessment where
  "case_procedure = \<lparr>pra_jurisdiction = ''PL'', pra_procedure_family = ''civil'', pra_procedural_stage = PG_APPEAL,
     pra_issuing_authority = None, pra_competent_authority = None, pra_review_authority = None,
     pra_filing_authority = None, pra_filing_via = None, pra_procedural_subject = ''o'',
     pra_available_action_required = None, pra_status = AS_VERIFIED, pra_supporting_rules = [],
     pra_evidence_refs = [''act''], pra_unresolved = [], pra_schema = PROCEDURAL_ASSESSMENT_SCHEMA_V1\<rparr>"

definition case_service :: service_assessment where
  "case_service = \<lparr>sva_service_required = Some True, sva_service_method = None, sva_service_date = Some 738990,
     sva_service_time = None, sva_evidence_refs = [''act''], sva_source_status = SV_VERIFIED, sva_conflicting_dates = [],
     sva_assessment_status = SV_VERIFIED, sva_schema = SERVICE_ASSESSMENT_SCHEMA_V1\<rparr>"

definition case_identity :: run_identity where
  "case_identity = \<lparr>cri_case_id = ''c'', cri_input_evidence_ids = [''act'', ''uri''], cri_input_event_ids = [],
     cri_rule_pack_ids = [''pack''],
     cri_rule_pack_digest = content_digest (JList [JObj [(''pack_id'', JStr ''pack''), (''digest'', JStr (pack_digest case_pack))]]),
     cri_policy_identity = ''o'', cri_runtime_identity = ''o'',
     cri_evaluation_time = \<lparr>dt_day = 738995, dt_micros = 0, dt_offset = Some 0\<rparr>,
     cri_configuration_digest = content_digest JNull, cri_model_identity = None, cri_cirp_version = CIRP_VERSION_V1,
     cri_schema = CIRP_RUN_SCHEMA_V1\<rparr>"

definition case_deadline :: deadline_request where
  "case_deadline = \<lparr>ddr_rule_pack_id = ''pack'', ddr_deadline_id = ''appeal'', ddr_rule_key = ''appeal@1'',
     ddr_trigger_type = ''SERVICE_DATE'', ddr_trigger_date = Some 738990, ddr_trigger_evidence = Some ''act'',
     ddr_trigger_status = TS_VERIFIED, ddr_effective_law_date = Some 738990, ddr_safe_buffer_business_days = None\<rparr>"

definition case_remedy :: remedy_request where
  "case_remedy = \<lparr>rmr_rule_pack_id = ''pack'', rmr_remedy_id = ''a'', rmr_rule_key = ''appeal@1'',
     rmr_applicability_status = AP_VERIFIED, rmr_effective_law_date = Some 738990, rmr_deadline_id = Some ''appeal''\<rparr>"

definition case_request :: run_request where
  "case_request = \<lparr>crq_run_id = ''r'', crq_run_identity = case_identity, crq_document_assessment = case_document,
     crq_procedural_assessment = case_procedure, crq_service_assessment = case_service, crq_rule_packs = [case_pack],
     crq_deadline_rules = [service_rule], crq_deadline_calendars = [sample_calendar], crq_remedy_rules = [sample_remedy_rule],
     crq_deadline_evaluations = [case_deadline], crq_remedy_evaluations = [case_remedy],
     crq_evidence_requirements = [case_requirement], crq_strategy_options = [case_choice],
     crq_available_evidence_ids = [''act'', ''uri''], crq_decisive_evidence = [''uri''], crq_decisive_rules = [''r''],
     crq_consolidation = None, crq_filing_specs = [case_spec], crq_execution_states = [sample_execution],
     crq_open_questions = [], crq_critical_unknowns = []\<rparr>"

lemma case_valid: "validate_request_identity case_request = Inr ()"
  by (simp add: validate_request_identity_def Let_def case_request_def case_identity_def case_pack_def sample_pack_def
      canonical_rule_pack_set_digest_def pack_digest_def semantic_refs_def case_document_def case_procedure_def
      case_service_def case_requirement_def case_deadline_def case_remedy_def validate_service_trigger_def
      expected_trigger_def)

lemma case_guards:
  obtains dg rg where "build_guards case_request = Inr ([''pack'' \<mapsto> dg], [''pack'' \<mapsto> rg])"
    "deadline_guard_init case_pack [service_rule] [sample_calendar] = Inr dg"
    "remedy_guard_init case_pack [sample_remedy_rule] = Inr rg"
proof -
  have p: "rpk_pack_id case_pack = ''pack''" "rpk_deadline_rules case_pack = [deadline_rule_token service_rule]"
      "rpk_remedy_rules case_pack = [remedy_rule_token sample_remedy_rule]"
    by (simp_all add: case_pack_def sample_pack_def)
  obtain dg where dg: "deadline_guard_init case_pack [service_rule] [sample_calendar] = Inr dg"
    by (simp add: deadline_guard_init_Inr case_pack_def sample_pack_def sample_source_def service_rule_def
        sample_deadline_rule_def sample_calendar_def by_id_def)
  obtain rg where rg: "remedy_guard_init case_pack [sample_remedy_rule] = Inr rg"
    by (simp add: remedy_guard_init_Inr case_pack_def sample_pack_def sample_source_def sample_remedy_rule_def)
  have c: "xdr_calendar_profile_id service_rule = dcp_profile_id sample_calendar"
    by (simp add: service_rule_def sample_deadline_rule_def sample_calendar_def)
  have "build_guards case_request = Inr ([''pack'' \<mapsto> dg], [''pack'' \<mapsto> rg])"
    using dg rg by (simp add: build_guards_def Let_def case_request_def add_pack_def p c)
  then show thesis using that dg rg by blast
qed

definition case_assessed :: "deadline_assessment \<Rightarrow> bool" where
  "case_assessed a = (das_status a = DL_VERIFIED \<and> das_deadline_id a = ''appeal'' \<and> das_rule_pack_id a = Some ''pack'' \<and>
     das_effective_law_date a = Some 738990 \<and> das_trigger_type a = ''SERVICE_DATE'' \<and> das_blocking_questions a = [] \<and>
     das_legal_deadline a = Some 739009 \<and> das_safe_internal_deadline a = None \<and>
     das_schema a = DEADLINE_ASSESSMENT_SCHEMA_V1 \<and> deadline_init a = Inr a)"

lemma case_lines [simp]: "is_line ''appeal@1''" "is_line ''SERVICE_DATE''" "is_line ''f''"
  by (simp_all add: line_literal)

lemma case_deadlines:
  assumes "deadline_guard_init case_pack [service_rule] [sample_calendar] = Inr dg"
  obtains a where "evaluate_deadlines sample_zones case_request [''pack'' \<mapsto> dg] = Inr [a]" "case_assessed a"
proof -
  let ?q = "query_of_deadline case_request case_deadline"
  let ?a = "common_assessment dg ?q service_rule sample_calendar
      (sorted_set (xdr_legal_source_ids service_rule @ dcp_legal_source_ids sample_calendar)) (Some 739009) None DL_VERIFIED []"
  have g: "dg_rule_pack dg = case_pack" "dg_rules dg = by_id deadline_rule_key [service_rule]"
      "dg_calendars dg = by_id dcp_profile_id [sample_calendar]" "dg_sources dg = sources_of case_pack"
    using assms by (simp_all add: deadline_guard_init_Inr)
  have q: "dq_rule_key ?q = ''appeal@1''" "dq_trigger_date ?q = Some 738990" "dq_trigger_type ?q = ''SERVICE_DATE''"
      "dq_trigger_status ?q = TS_VERIFIED" "dq_trigger_evidence ?q = Some ''act''" "dq_effective_law_date ?q = Some 738990"
      "dq_safe_buffer_business_days ?q = None" "dq_deadline_id ?q = ''appeal''"
      "dq_evaluation_time ?q = \<lparr>dt_day = 738995, dt_micros = 0, dt_offset = Some 0\<rparr>"
    by (simp_all add: query_of_deadline_def case_deadline_def case_request_def case_identity_def)
  have r: "deadline_rule_key service_rule = ''appeal@1''" "xdr_calendar_profile_id service_rule = ''cal''"
      "xdr_trigger_type service_rule = ''SERVICE_DATE''" "xdr_legal_source_ids service_rule = [''law'']"
      "deadline_rule_effective_on service_rule 738990" "pack_effective_on case_pack 738990"
      "calculate_deadline service_rule sample_calendar 738990 = Inr 739009"
    using sample_calculation
    by (simp_all add: deadline_rule_key_def service_rule_def sample_deadline_rule_def deadline_rule_effective_on_def
        in_window_def pack_effective_on_def case_pack_def sample_pack_def calculate_deadline_def unrolled_deadline_def)
  have maps: "dg_rules dg ''appeal@1'' = Some service_rule" "dg_calendars dg ''cal'' = Some sample_calendar"
      "dg_sources dg ''law'' = Some sample_source"
    unfolding g by (simp_all add: by_id_def r sample_calendar_def sources_of_def case_pack_def sample_pack_def sample_source_def)
  have basis: "deadline_basis dg ?q service_rule sample_calendar 738990"
    unfolding deadline_basis_def using maps
    by (simp add: q r g(1) sample_calendar_def sample_source_def source_effective_on_def in_window_def)
  have made: "rule_lines service_rule" "calendar_ok sample_calendar" "is_line (rpk_pack_id (dg_rule_pack dg))"
    using sample_guard(2,3) calendar_init_ok deadline_rule_init_lines
    by (auto simp: rule_lines_def service_rule_def sample_deadline_rule_def g(1) case_pack_def sample_pack_def line_tuple_def)
  have "evaluate_rule sample_zones dg ?q service_rule sample_calendar = Inr ?a"
    by (rule evaluate_rule_complete [OF basis r(7)])
      (use made in \<open>simp_all add: q safe_deadline_def evaluated_status_def sample_zones_def sample_calendar_def\<close>)
  then have e: "deadline_evaluate sample_zones dg ?q = Inr ?a"
    unfolding deadline_evaluate_def using maps by (simp add: q r is_aware_def)
  have "das_rule_pack_id ?a = Some ''pack''" by (simp add: common_assessment_def g(1) case_pack_def sample_pack_def)
  then have "evaluate_deadlines sample_zones case_request [''pack'' \<mapsto> dg] = Inr [?a]"
    using e by (simp add: evaluate_deadlines_def case_request_def run_deadline_def case_deadline_def)
  moreover have "case_assessed ?a"
    using deadline_evaluate_made [OF e] unfolding case_assessed_def
    by (simp add: common_assessment_def q g(1) case_pack_def sample_pack_def)
  ultimately show thesis using that by blast
qed

definition case_available :: remedy_option where
  "case_available = \<lparr>rem_remedy_id = ''a'', rem_remedy_type = ''civil'', rem_target_authority = ''act'',
     rem_filing_authority = ''act'', rem_filing_via = None, rem_applicable_rule_ids = [remedy_rule_token sample_remedy_rule],
     rem_deadline_id = Some ''appeal'', rem_formal_requirements = [], rem_required_evidence = [''uri''],
     rem_preserves_options = [], rem_waives_options = [], rem_admissibility_status = RA_VERIFIED_AVAILABLE,
     rem_blockers = [], rem_schema = REMEDY_OPTION_SCHEMA_V1\<rparr>"

lemma case_available_made: "remedy_option_init case_available = Inr case_available"
  using sample_remedy_token_line by (simp add: remedy_option_init_def case_available_def line_tuple_def)

lemma case_remedies:
  assumes "remedy_guard_init case_pack [sample_remedy_rule] = Inr rg" "case_assessed a"
  shows "evaluate_remedies case_request [''pack'' \<mapsto> rg] (by_id das_deadline_id (rev [a])) = Inr [case_available]"
proof -
  let ?q = "query_of_remedy case_request case_remedy (Some a)"
  have g: "rg_rule_pack rg = case_pack" "rg_rules rg = by_id remedy_rule_key [sample_remedy_rule]" "rg_sources rg = sources_of case_pack"
    using assms(1) by (simp_all add: remedy_guard_init_Inr)
  have a: "das_deadline_id a = ''appeal''" "das_status a = DL_VERIFIED" "das_rule_pack_id a = Some ''pack''"
      "das_effective_law_date a = Some 738990"
    using assms(2) by (simp_all add: case_assessed_def)
  have q: "rq_rule_key ?q = ''appeal@1''" "rq_remedy_id ?q = ''a''" "rq_applicability_status ?q = AP_VERIFIED"
      "rq_effective_law_date ?q = Some 738990" "rq_deadline ?q = Some a" "rq_evidence_requirements ?q = [case_requirement]"
    by (simp_all add: query_of_remedy_def case_remedy_def case_request_def)
  have key: "remedy_rule_key sample_remedy_rule = ''appeal@1''" by (simp add: remedy_rule_key_def sample_remedy_rule_def)
  have rule: "rg_rules rg (rq_rule_key ?q) = Some sample_remedy_rule" unfolding g q by (simp add: by_id_def key)
  have "remedy_basis rg ?q sample_remedy_rule (by_id evr_requirement_id [case_requirement])"
    unfolding remedy_basis_def g q
    by (simp add: sample_remedy_rule_def deadline_met_def a g case_pack_def sample_pack_def pack_effective_on_def in_window_def
        remedy_rule_effective_on_def sources_of_def by_id_def sample_source_def source_effective_on_def bound_to_def
        remedy_rule_key_def case_requirement_def)
  moreover have "common_remedy ?q sample_remedy_rule RA_VERIFIED_AVAILABLE [] = case_available"
    by (simp add: common_remedy_def q case_available_def sample_remedy_rule_def a)
  ultimately have "evaluate_remedy_rule rg ?q sample_remedy_rule (by_id evr_requirement_id (rq_evidence_requirements ?q)) =
      Inr case_available"
    using evaluate_remedy_complete case_available_made unfolding q by metis
  then have "remedy_evaluate rg ?q = Inr case_available"
    unfolding remedy_evaluate_known [OF rule] by (simp add: q)
  moreover have "requested_deadline (by_id das_deadline_id [a]) case_remedy = Inr (Some a)"
    by (simp add: requested_deadline_def case_remedy_def by_id_def a)
  moreover have "by_id rpk_pack_id [case_pack] ''pack'' = Some case_pack" by (simp add: by_id_def case_pack_def sample_pack_def)
  moreover have "rmr_rule_pack_id case_remedy = ''pack''" by (simp add: case_remedy_def)
  ultimately show ?thesis
    by (simp add: evaluate_remedies_def run_remedy_def case_request_def)
      (simp add: case_available_def case_pack_def)
qed

definition case_decision :: strategy_decision where
  "case_decision = \<lparr>sdc_selected_strategy_id = Some ''s'', sdc_decision_status = SD_RECOMMENDED,
     sdc_rationale = ''Exactly one strategy remains fully verified and deadline-safe, with explicit decisive evidence and rule references.'',
     sdc_rejected_strategy_ids = [], sdc_rejection_reasons = [], sdc_decisive_evidence = [''uri''],
     sdc_decisive_rules = [''r''], sdc_unresolved_risks = [], sdc_schema = STRATEGY_DECISION_SCHEMA_V1\<rparr>"

lemma case_strategy:
  "strategy_decide [case_choice] [case_available] [''act'', ''uri''] [''uri''] [''r''] = Inr case_decision"
proof -
  have o: "sto_remedy_ids case_choice = [''a'']" "sto_required_evidence case_choice = [''uri'']" "sto_strategy_id case_choice = ''s''"
      "sto_risks case_choice = []" "sto_unresolved case_choice = []" "sto_admissibility case_choice = VL_VERIFIED"
      "sto_deadline_safety case_choice = DSF_SAFE"
    by (simp_all add: case_choice_def sample_option_def)
  have "ineligibility_reason case_choice (by_id rem_remedy_id [case_available]) [''act'', ''uri''] = (None, False)"
    by (simp add: ineligibility_reason_def Let_def o by_id_def case_available_def List.map_filter_simps)
  then have a: "assess_options (by_id rem_remedy_id [case_available]) [''act'', ''uri''] [case_choice] = ([case_choice], [], False)"
    by simp
  have i: "index_unique sto_strategy_id m [case_choice] Map.empty = Inr (by_id sto_strategy_id [case_choice])"
      "index_unique rem_remedy_id m [case_available] Map.empty = Inr (by_id rem_remedy_id [case_available])" for m
    by (simp_all add: by_id_def)
  have u: "cirp_unique [''act'', ''uri''] m = Inr [''act'', ''uri'']" "cirp_unique [''uri''] m = Inr [''uri'']"
      "cirp_unique [''r''] m = Inr [''r'']" for m by (simp_all add: line_tuple_def)
  have "strategy_decide [case_choice] [case_available] [''act'', ''uri''] [''uri''] [''r''] =
      strategy_answer [case_choice] [case_choice] [] False [''uri''] [''r'']"
    unfolding strategy_decide_def i u and_then_Inr Let_def by (simp add: a del: assess_options.simps)
  also have "\<dots> = Inr case_decision"
    by (simp add: strategy_answer_def open_risks_def o case_decision_def decision_for_Inr line_tuple_def)
  finally show ?thesis .
qed

definition case_topology :: topology_decision where
  "case_topology = \<lparr>ftd_status = FT_SINGLE_FILING_SAFE, ftd_filing_count = 1, ftd_combined_remedies = [''a''],
     ftd_separated_remedies = [], ftd_rationale = ''One verified remedy requires one filing topology unit.'',
     ftd_blockers = [], ftd_schema = FILING_TOPOLOGY_SCHEMA_V1\<rparr>"

lemma case_topology_run: "run_topology case_decision [case_choice] [case_available] None = Inr case_topology"
proof -
  have "is_line ''One verified remedy requires one filing topology unit.''" by (simp add: line_literal)
  then have "topology_for FT_SINGLE_FILING_SAFE 1 [''a''] [] ''One verified remedy requires one filing topology unit.'' [] = Inr case_topology"
    by (simp add: topology_for_Inr case_topology_def line_tuple_def)
  then show ?thesis
    by (simp add: run_topology_def case_decision_def case_choice_def sample_option_def topology_decide_def by_id_def
        case_available_def)
qed

lemma case_filings:
  assumes "case_assessed a"
  obtains p r where "run_filings case_request [a] [case_available] case_decision case_topology = Inr ([p], [r], [])"
    "fpl_filing_id p = ''f''" "pfr_filing_id r = ''f''" "pfr_final_status r = PFF_FILING_READY"
proof -
  let ?m = "by_id rem_remedy_id [case_available]" and ?dl = "by_id das_deadline_id [a]"
  have a: "das_deadline_id a = ''appeal''" "das_status a = DL_VERIFIED" "deadline_init a = Inr a"
    using assms by (simp_all add: case_assessed_def)
  have mats: "materialize_filing_remedies [case_available] [case_requirement] = Inr [case_available]"
  proof -
    have "case_available\<lparr>rem_required_evidence := [''uri'']\<rparr> = case_available" by (simp add: case_available_def)
    then have "materialize (by_id evr_requirement_id [case_requirement]) case_available = Inr case_available"
      using case_available_made
      by (simp add: materialize_def by_id_def case_requirement_def) (simp add: case_available_def case_requirement_def)
    then show ?thesis by (simp add: materialize_filing_remedies_def)
  qed
  have basis: "unit_basis ?m ?dl [''act'', ''uri''] case_spec [case_available]"
    by (simp add: unit_basis_def case_spec_def sample_spec_def by_id_def case_available_def one_route_def deadline_verified_def
        deadline_ids_def List.map_filter_simps a)
  have lines: "spec_lines case_spec"
    using sample_remedy_token_line by (simp add: spec_lines_def case_spec_def sample_spec_def line_tuple_def)
  let ?p = "plan_of case_choice FT_SINGLE_FILING_SAFE case_spec [case_available]"
  have unit: "plan_unit case_choice FT_SINGLE_FILING_SAFE ?m ?dl [''act'', ''uri''] case_spec = Inr ?p"
    by (rule planned_unit [OF basis lines]) (use case_available_made in \<open>simp_all add: case_choice_def sample_option_def\<close>)
  have "selected_strategy case_decision [case_choice] = Inr case_choice"
    by (simp add: selected_strategy_Inr case_decision_def case_choice_def sample_option_def)
  moreover have "partitioned case_choice case_topology [case_spec]"
    by (simp add: partitioned_def case_choice_def sample_option_def case_topology_def case_spec_def sample_spec_def)
  moreover have texts: "\<forall>e \<in> set [''act'', ''uri'']. is_text e" by (simp add: line_literal)
  ultimately have plans: "filing_plans case_decision [case_choice] case_topology [case_available] [a] [''act'', ''uri''] [case_spec] = Inr [?p]"
    unfolding filing_plans_Inr using unit by (simp add: case_topology_def)
  have init: "filing_plan_init ?p = Inr ?p" using unit unfolding plan_unit_Inr by blast
  have p: "fpl_filing_id ?p = ''f''" "fpl_remedy_ids ?p = [''a'']" "fpl_attachment_requirements ?p = []"
      "fpl_signature_requirements ?p = []" "fpl_copy_requirements ?p = []" "fpl_allegations_or_grounds ?p = [''o'']"
      "fpl_topology_status ?p = FT_SINGLE_FILING_SAFE"
    by (simp_all add: plan_of_def case_spec_def sample_spec_def)
  have "rem_formal_requirements x = []" if "?m i = Some x" for i x
    using that by (auto simp: by_id_def case_available_def split: if_splits)
  then have "execution_ready ?m ?p sample_execution" unfolding execution_ready_def p by (simp add: sample_execution_def)
  then obtain r where r: "preflight_evaluate ?p [case_available] [a] [''act'', ''uri''] sample_execution = Inr r"
      "pfr_final_status r = PFF_FILING_READY"
    using preflight_ready [OF init made_deadline_lines, of "[a]" "[case_available]" "[''act'', ''uri'']" sample_execution]
      unit_basis_covered [OF basis] texts a by (auto simp: p sample_execution_def)
  have "pfr_filing_id r = ''f''"
    using r(1) unfolding preflight_evaluate_def preflight_outcome_def by (auto simp: p split: if_splits dest!: inits_same(8))
  moreover have "run_preflight case_request [?p] [case_available] [a] = Inr [r]"
    using r(1) by (simp add: run_preflight_def Let_def case_request_def preflight_plan_def p by_id_def sample_execution_def)
  then have "run_filings case_request [a] [case_available] case_decision case_topology = Inr ([?p], [r], [])"
    using mats plans unfolding run_filings_def by (simp add: case_topology_def [THEN arg_cong [of _ _ ftd_status]] case_request_def)
  ultimately show thesis using that p(1) r(2) by blast
qed

lemma report_texts: "report_text (n, v) = (if is_text v then Inr () else raise_cirp (n @ '' must be canonical and nonblank''))"
  by (auto simp: report_text_def is_text_def strip_id) (metis strip_stripped)

lemma case_report:
  assumes "case_assessed a" "fpl_filing_id p = ''f''" "pfr_filing_id r = ''f''" "pfr_final_status r = PFF_FILING_READY"
  obtains report where "report_build (report_request case_request [a] [case_available] case_decision case_topology [p] [r]
      (open_questions_of case_request [a] [case_available] case_topology @ [])) = Inr report"
    "rpt_status report = CR_READY_TO_FILE" "rpt_schema report = CIRP_REPORT_SCHEMA_V1"
proof -
  have a: "das_deadline_id a = ''appeal''" "das_status a = DL_VERIFIED" "das_legal_deadline a = Some 739009"
      "das_safe_internal_deadline a = None" "das_blocking_questions a = []"
    using assms(1) by (simp_all add: case_assessed_def)
  have q: "open_questions_of case_request [a] [case_available] case_topology = []"
    by (simp add: open_questions_of_def case_request_def case_document_def case_procedure_def case_available_def
        case_topology_def a)
  have summary: "is_text (deadline_summary a)"
    by (simp add: deadline_summary_def a is_text_def stripped_def is_space_def)
  have texts: "is_text ''c''" "is_text ''r''" "is_text (document_summary case_document)" "is_text (procedural_summary case_procedure)"
      "is_text (remedy_summary case_available)" "is_text ''f:FILING_READY''" "is_text ''f''" "is_text ''RECOMMENDED''"
      "is_text ''SINGLE_FILING_SAFE''" "is_text (sdc_rationale case_decision)"
    by (simp_all add: document_summary_def case_document_def procedural_summary_def case_procedure_def remedy_summary_def
        case_available_def case_decision_def is_text_def stripped_def is_space_def)
  have u: "preflight_unique [v] n = Inr [v]" if "is_text v" for v n using that by (simp add: preflight_unique_Inr)
  have e: "preflight_unique [] n = Inr []" for n by (simp add: preflight_unique_Inr)
  have gaps: "evidence_gap_ids [case_requirement] = []" by (simp add: evidence_gap_ids_Nil case_requirement_def)
  have unknowns: "critical_unknowns_of case_request = []"
    by (simp add: critical_unknowns_of_def case_request_def sample_execution_def)
  have ready: "status_of_report case_decision case_topology [r] [] [] = CR_READY_TO_FILE"
    unfolding report_ready using assms(4) by (simp add: case_decision_def case_topology_def)
  have fields: "sdc_decision_status case_decision = SD_RECOMMENDED" "ftd_status case_topology = FT_SINGLE_FILING_SAFE"
      "crq_run_identity case_request = case_identity" "cri_case_id case_identity = ''c''" "crq_run_id case_request = ''r''"
      "crq_document_assessment case_request = case_document" "crq_procedural_assessment case_request = case_procedure"
      "crq_evidence_requirements case_request = [case_requirement]"
    by (simp_all add: case_decision_def case_topology_def case_request_def case_identity_def)
  have "\<exists>report. report_build (report_request case_request [a] [case_available] case_decision case_topology [p] [r]
      (open_questions_of case_request [a] [case_available] case_topology @ [])) = Inr report \<and>
      rpt_status report = CR_READY_TO_FILE \<and> rpt_schema report = CIRP_REPORT_SCHEMA_V1"
    unfolding report_build_def report_request_def q
    by (simp add: Let_def gaps unknowns ready assms fields report_init_def report_texts texts summary u e)
  then show thesis using that by blast
qed

lemma case_manifest:
  assumes "case_assessed a" "fpl_filing_id p = ''f''" "filing_plan_init p = Inr p" "pfr_filing_id r = ''f''"
    "preflight_result_init r = Inr r" "rpt_schema report = CIRP_REPORT_SCHEMA_V1"
  obtains m where "run_manifest case_request [a] [case_available] case_decision case_topology [p] [r] report = Inr m"
proof -
  have s: "das_deadline_id a = ''appeal''" "das_schema a = DEADLINE_ASSESSMENT_SCHEMA_V1" "fpl_schema p = FILING_PLAN_SCHEMA_V1"
      "pfr_schema r = PREFLIGHT_RESULT_SCHEMA_V1"
    using assms(1,3,5) by (auto simp: case_assessed_def filing_plan_init_def preflight_result_init_def split: if_splits)
  let ?n = "[(''document-assessment'', DOCUMENT_ASSESSMENT_SCHEMA_V1, document_assessment_dict case_document),
      (''procedural-assessment'', PROCEDURAL_ASSESSMENT_SCHEMA_V1, procedural_assessment_dict case_procedure),
      (''service-assessment'', SERVICE_ASSESSMENT_SCHEMA_V1, service_assessment_dict case_service),
      (''evidence-requirement:uri'', EVIDENCE_REQUIREMENT_SCHEMA_V1, evidence_requirement_dict case_requirement),
      (''strategy-option:s'', STRATEGY_OPTION_SCHEMA_V1, strategy_option_dict case_choice),
      (''deadline-assessment:appeal'', DEADLINE_ASSESSMENT_SCHEMA_V1, deadline_dict a),
      (''remedy-option:a'', REMEDY_OPTION_SCHEMA_V1, remedy_option_dict case_available),
      (''strategy-decision'', STRATEGY_DECISION_SCHEMA_V1, strategy_decision_dict case_decision),
      (''filing-topology'', FILING_TOPOLOGY_SCHEMA_V1, topology_dict case_topology),
      (''filing-plan:f'', FILING_PLAN_SCHEMA_V1, filing_plan_dict p),
      (''preflight:f'', PREFLIGHT_RESULT_SCHEMA_V1, preflight_result_dict r),
      (''report:r'', CIRP_REPORT_SCHEMA_V1, report_dict report)]"
  have fields: "crq_document_assessment case_request = case_document" "crq_procedural_assessment case_request = case_procedure"
      "crq_service_assessment case_request = case_service" "crq_evidence_requirements case_request = [case_requirement]"
      "crq_strategy_options case_request = [case_choice]" "crq_run_id case_request = ''r''"
      "crq_run_identity case_request = case_identity" "doa_schema case_document = DOCUMENT_ASSESSMENT_SCHEMA_V1"
      "pra_schema case_procedure = PROCEDURAL_ASSESSMENT_SCHEMA_V1" "sva_schema case_service = SERVICE_ASSESSMENT_SCHEMA_V1"
      "evr_requirement_id case_requirement = ''uri''" "evr_schema case_requirement = EVIDENCE_REQUIREMENT_SCHEMA_V1"
      "sto_strategy_id case_choice = ''s''" "sto_schema case_choice = STRATEGY_OPTION_SCHEMA_V1"
      "rem_remedy_id case_available = ''a''" "rem_schema case_available = REMEDY_OPTION_SCHEMA_V1"
      "sdc_schema case_decision = STRATEGY_DECISION_SCHEMA_V1" "ftd_schema case_topology = FILING_TOPOLOGY_SCHEMA_V1"
    by (simp_all add: case_request_def case_document_def case_procedure_def case_service_def case_requirement_def
        case_choice_def sample_option_def case_available_def case_decision_def case_topology_def)
  have arts: "run_artifacts case_request [a] [case_available] case_decision case_topology [p] [r] report = ?n"
    unfolding run_artifacts_def fields s assms by (simp add: fields s assms)
  have schemas: "is_line DOCUMENT_ASSESSMENT_SCHEMA_V1" "is_line PROCEDURAL_ASSESSMENT_SCHEMA_V1" "is_line SERVICE_ASSESSMENT_SCHEMA_V1"
      "is_line EVIDENCE_REQUIREMENT_SCHEMA_V1" "is_line STRATEGY_OPTION_SCHEMA_V1" "is_line DEADLINE_ASSESSMENT_SCHEMA_V1"
      "is_line REMEDY_OPTION_SCHEMA_V1" "is_line STRATEGY_DECISION_SCHEMA_V1" "is_line FILING_TOPOLOGY_SCHEMA_V1"
      "is_line FILING_PLAN_SCHEMA_V1" "is_line PREFLIGHT_RESULT_SCHEMA_V1" "is_line CIRP_REPORT_SCHEMA_V1"
    by (simp_all add: line_literal DOCUMENT_ASSESSMENT_SCHEMA_V1_def PROCEDURAL_ASSESSMENT_SCHEMA_V1_def
        SERVICE_ASSESSMENT_SCHEMA_V1_def EVIDENCE_REQUIREMENT_SCHEMA_V1_def STRATEGY_OPTION_SCHEMA_V1_def
        DEADLINE_ASSESSMENT_SCHEMA_V1_def REMEDY_OPTION_SCHEMA_V1_def STRATEGY_DECISION_SCHEMA_V1_def
        FILING_TOPOLOGY_SCHEMA_V1_def FILING_PLAN_SCHEMA_V1_def PREFLIGHT_RESULT_SCHEMA_V1_def CIRP_REPORT_SCHEMA_V1_def)
  have names: "list_all is_line (map fst ?n)" "distinct (map fst ?n)" by (simp_all add: line_literal)
  let ?ref = "\<lambda>(i, schema, dict). \<lparr>car_artifact_id = i, car_schema = schema, car_digest = content_digest (JObj dict)\<rparr>"
  have "artifact_of i schema dict = Inr (?ref (i, schema, dict))" if "is_line i" "is_line schema" for i schema dict
    using that by (simp add: artifact_of_def artifact_ref_init_def sample_digest_ok)
  then have refs: "map_result (\<lambda>(i, schema, dict). artifact_of i schema dict) ?n = Inr (map ?ref ?n)"
    using names(1) schemas by (intro map_result_all) auto
  have ids: "map car_artifact_id (map ?ref ?n) = map fst ?n" by simp
  have one: "filter (\<lambda>x. car_artifact_id x = ''report:r'') (sort_key car_artifact_id (map ?ref ?n)) =
      [?ref (''report:r'', CIRP_REPORT_SCHEMA_V1, report_dict report)]"
    by (simp add: filter_sort)
  have "\<exists>m. replay_manifest_build case_identity (map ?ref ?n) ''report:r'' = Inr m"
    unfolding replay_manifest_build_def replay_manifest_init_def Let_def
    using names(2) ids one by (simp add: run_identity_digest_def sample_digest_ok line_literal CIRP_REPLAY_MANIFEST_SCHEMA_V1_def)
  then show thesis using that refs unfolding run_manifest_def arts fields by auto
qed

text \<open>The whole run.\<close>

lemma case_run:
  obtains out a where "cirp_run sample_zones case_request = Inr out" "rpt_status (crr_report out) = CR_READY_TO_FILE"
    "crr_deadlines out = [a]" "case_assessed a"
proof -
  obtain dg rg where g: "build_guards case_request = Inr ([''pack'' \<mapsto> dg], [''pack'' \<mapsto> rg])"
      "deadline_guard_init case_pack [service_rule] [sample_calendar] = Inr dg"
      "remedy_guard_init case_pack [sample_remedy_rule] = Inr rg" by (rule case_guards)
  obtain a where a: "evaluate_deadlines sample_zones case_request [''pack'' \<mapsto> dg] = Inr [a]" "case_assessed a"
    by (rule case_deadlines [OF g(2)])
  note remedies = case_remedies [OF g(3) a(2)]
  obtain p r where f: "run_filings case_request [a] [case_available] case_decision case_topology = Inr ([p], [r], [])"
      "fpl_filing_id p = ''f''" "pfr_filing_id r = ''f''" "pfr_final_status r = PFF_FILING_READY"
    by (rule case_filings [OF a(2)])
  have made: "filing_plan_init p = Inr p" "preflight_result_init r = Inr r"
    using run_filings_made [OF f(1)] a(2) by (simp_all add: case_assessed_def)
  obtain report where report: "report_build (report_request case_request [a] [case_available] case_decision case_topology [p] [r]
      (open_questions_of case_request [a] [case_available] case_topology @ [])) = Inr report"
      "rpt_status report = CR_READY_TO_FILE" "rpt_schema report = CIRP_REPORT_SCHEMA_V1"
    by (rule case_report [OF a(2) f(2-4)])
  obtain m where m: "run_manifest case_request [a] [case_available] case_decision case_topology [p] [r] report = Inr m"
    by (rule case_manifest [OF a(2) f(2) made(1) f(3) made(2) report(3)])
  have fields: "crq_strategy_options case_request = [case_choice]" "crq_available_evidence_ids case_request = [''act'', ''uri'']"
      "crq_decisive_evidence case_request = [''uri'']" "crq_decisive_rules case_request = [''r'']" "crq_consolidation case_request = None"
    by (simp_all add: case_request_def)
  have "cirp_run sample_zones case_request = Inr \<lparr>crr_run_identity = crq_run_identity case_request, crr_deadlines = [a],
      crr_remedies = [case_available], crr_strategy_decision = case_decision, crr_filing_topology = case_topology,
      crr_filing_plans = [p], crr_preflights = [r], crr_report = report, crr_replay_manifest = m\<rparr>"
    unfolding cirp_run_def case_valid and_then_Inr g(1) prod.case a(1) remedies fields case_strategy case_topology_run f(1)
      report(1) m by (rule refl)
  from that [OF this _ _ a(2)] show thesis using report(2) by simp
qed

lemma ready_report_grounded_witness:
  "\<exists>out. cirp_run sample_zones case_request = Inr out \<and> rpt_status (crr_report out) = CR_READY_TO_FILE \<and>
     (\<exists>e \<in> set (crq_execution_states case_request). \<exists>p \<in> set (crr_filing_plans out). fes_filing_id e = fpl_filing_id p)"
proof -
  obtain out a where r: "cirp_run sample_zones case_request = Inr out" "rpt_status (crr_report out) = CR_READY_TO_FILE"
    by (rule case_run)
  from ready_report_grounded [OF r] show ?thesis using r by (metis list.set_intros(1) neq_Nil_conv)
qed

lemma service_deadline_grounded_witness:
  "\<exists>out a. cirp_run sample_zones case_request = Inr out \<and> crr_deadlines out = [a] \<and> das_trigger_date a = Some 738990 \<and>
     sva_assessment_status (crq_service_assessment case_request) = SV_VERIFIED"
proof -
  obtain out a where r: "cirp_run sample_zones case_request = Inr out" "crr_deadlines out = [a]" "case_assessed a"
    by (rule case_run)
  then have "a \<in> set (crr_deadlines out)" "das_status a = DL_VERIFIED" "das_trigger_type a = ''SERVICE_DATE''"
    by (simp_all add: case_assessed_def)
  from service_deadline_grounded [OF r(1) this] show ?thesis using r by (simp add: case_request_def case_service_def)
qed

definition case_registry :: pack_registry where
  "case_registry = \<lparr>rpr_registry_id = ''r'', rpr_version = ''1'', rpr_approvals =
     [\<lparr>rpa_approval_id = ''a'', rpa_pack_id = ''pack'', rpa_pack_digest = pack_digest case_pack,
       rpa_verified_at = \<lparr>dt_day = 738990, dt_micros = 0, dt_offset = Some 0\<rparr>, rpa_approved_by = ''o'',
       rpa_revoked_at = None, rpa_schema = RULE_PACK_APPROVAL_SCHEMA_V1\<rparr>],
     rpr_schema = RULE_PACK_REGISTRY_SCHEMA_V1\<rparr>"

definition case_policy :: freshness_policy where
  "case_policy = \<lparr>rfp_policy_id = ''o'', rfp_version = ''1'', rfp_max_approval_age_days = 30,
     rfp_max_source_age_days = 999999999, rfp_require_verified_sources = True,
     rfp_schema = RULE_PACK_FRESHNESS_POLICY_SCHEMA_V1\<rparr>"

lemma governed_run_approved_witness:
  "\<exists>out. governed_run sample_zones (Some case_registry, Some case_policy) case_request = Inr out \<and>
     gvr_governance_receipt out \<noteq> None"
proof -
  have made: "pack_registry_init case_registry = Inr case_registry"
    by (simp add: pack_registry_init_def case_registry_def)
  have fields: "crq_rule_packs case_request = [case_pack]" "crq_run_identity case_request = case_identity"
      "cri_evaluation_time case_identity = \<lparr>dt_day = 738995, dt_micros = 0, dt_offset = Some 0\<rparr>"
      "rpk_source_set case_pack = [sample_source]" "rpk_pack_id case_pack = ''pack''"
    by (simp_all add: case_request_def case_identity_def case_pack_def sample_pack_def)
  let ?t = "\<lparr>dt_day = 738995, dt_micros = 0, dt_offset = Some 0\<rparr>"
  have "pack_approved case_registry case_policy ?t case_pack"
    by (simp add: pack_approved_def case_registry_def case_policy_def fields source_fresh_def sample_source_def instant_def
        US_DAY_def US_SECOND_def)
  then obtain approval where v: "verify_pack case_registry case_policy (rfp_max_approval_age_days case_policy * US_DAY)
      (rfp_max_source_age_days case_policy * US_DAY) ?t case_pack = Inr approval"
    using verify_pack_approved [OF registry_keys [OF made]] by blast
  have limits: "timedelta_days (rfp_max_approval_age_days case_policy) = Inr (rfp_max_approval_age_days case_policy * US_DAY)"
      "timedelta_days (rfp_max_source_age_days case_policy) = Inr (rfp_max_source_age_days case_policy * US_DAY)"
    by (simp_all add: timedelta_days_def case_policy_def)
  obtain d where d: "canonical_rule_pack_set_digest [case_pack] = Inr (content_digest d)"
    by (simp add: canonical_rule_pack_set_digest_def fields)
  obtain c where c: "canonical_governance_request_digest case_request = Inr (content_digest c)"
    unfolding canonical_governance_request_digest_def fields d by simp
  have "\<exists>x. governance_of (Some case_registry, Some case_policy) case_request (content_digest c) = Inr (Some x)"
    unfolding governance_of_def fields d verify_rule_pack_governance_def
    by (simp add: limits v run_identity_digest_def sample_digest_ok is_aware_def governance_receipt_init_def digest_tuple_def
        pack_registry_digest_def freshness_policy_digest_def pack_approval_digest_def pack_digest_def)
  then obtain x where x: "governance_of (Some case_registry, Some case_policy) case_request (content_digest c) = Inr (Some x)" by blast
  obtain res a where run: "cirp_run sample_zones case_request = Inr res" by (rule case_run)
  obtain out where out: "governed_run sample_zones (Some case_registry, Some case_policy) case_request = Inr out"
    unfolding governed_run_def c and_then_Inr x run by (simp add: governed_manifest_init_def)
  have "\<forall>r. fst (Some case_registry, Some case_policy) = Some r \<longrightarrow> (\<exists>r0. pack_registry_init r0 = Inr r)"
    using made by auto
  from governed_run_approved [OF out _ this] show ?thesis using out by (auto simp: fields)
qed

end
