(* ===== verification/Spec2Isabelle.thy ===== *)
theory Spec2Isabelle
  imports P3_Ledger NS_Engine NS_Leases NS_Authority NS_Portfolio NS_Promotion Durable_Action Case_Hardening Crypto_Agility CIRP_Lifecycle CIRP_Runs
begin

text \<open>
  A verification development of the decision kernel of \<^verbatim>\<open>lukart-ros\<close> (Python, under
  \<^verbatim>\<open>src/core\<close>): the content-addressed contracts, the append-only ledgers and the unattended
  "night shift" that takes a task from authorization to automatic promotion, and the CIRP pipeline that takes a
  case from its deadlines to filings.

  The program's parts and how they meet. Every artifact is a frozen dataclass that normalises and
  checks its fields in \<^verbatim>\<open>__post_init__\<close>, has a canonical dictionary and a digest, the SHA-256 of the
  canonical JSON of that dictionary. Later artifacts hold the digests of earlier ones, so the chain
  policy, live state, task, authority envelope, reservation, decision, evidence bundle, quorum,
  signatures and clearance is bound together by digests alone. Stores (reservations, leases, event journal,
  replay ledger) keep that chain durable; the state machine and the engine order the work; scheduler
  and portfolio choose it; promotion ends it.

  Theories and the code they model.

  \<^item> \<^verbatim>\<open>Prelude\<close>, \<^verbatim>\<open>Python_Text\<close>: exceptions as values of a sum type, sequencing, guards, tuples made by
    \<^verbatim>\<open>sorted(set(...))\<close>, and the string methods the code uses.
  \<^item> \<^verbatim>\<open>Sha256\<close>, \<^verbatim>\<open>Canonical_Json\<close>, \<^verbatim>\<open>Json_Roundtrip\<close>: the hash, \<^verbatim>\<open>json.dumps\<close> with sorted keys and its
    inverse, so that equal digests mean equal contents or an exhibited SHA-256 collision.
  \<^item> \<^verbatim>\<open>Content_Address\<close>: the locale of a content-addressed record, interpreted on every record with a
    digest. \<^verbatim>\<open>P3_Contracts\<close>, \<^verbatim>\<open>Hash_Chain\<close>, \<^verbatim>\<open>P3_Ledger\<close>: \<^verbatim>\<open>core/p3/contracts.py\<close> and
    \<^verbatim>\<open>core/p3/ledger.py\<close>; the locale of a hash chain, interpreted on the ledger and on the journal.
  \<^item> \<^verbatim>\<open>NS_Contracts\<close>, \<^verbatim>\<open>NS_State_Machine\<close>, \<^verbatim>\<open>NS_Authority\<close>, \<^verbatim>\<open>NS_Leases\<close>, \<^verbatim>\<open>NS_Journal\<close>, \<^verbatim>\<open>NS_Engine\<close>,
    \<^verbatim>\<open>NS_Causal\<close>, \<^verbatim>\<open>NS_Scheduler\<close>: the files of the same names in \<^verbatim>\<open>core/night_shift\<close>.
    \<^verbatim>\<open>NS_Portfolio\<close>: \<^verbatim>\<open>portfolio.py\<close>, both registries, \<^verbatim>\<open>routing.py\<close> and \<^verbatim>\<open>multi_project.py\<close>.
  \<^item> \<^verbatim>\<open>NS_Verification\<close> (\<^verbatim>\<open>verification.py\<close>, \<^verbatim>\<open>receipts.py\<close>), \<^verbatim>\<open>NS_Crypto_Identity\<close>, \<^verbatim>\<open>NS_Shadow\<close>,
    \<^verbatim>\<open>NS_Promotion\<close>: evidence, signatures, calibration and the promotion decision.
  \<^item> \<^verbatim>\<open>Base64\<close>, \<^verbatim>\<open>Enterprise_Contracts\<close>, \<^verbatim>\<open>Crypto_Agility\<close>: \<^verbatim>\<open>core/enterprise/contracts.py\<close> and
    \<^verbatim>\<open>core/crypto_agility_v1.py\<close>.
  \<^item> \<^verbatim>\<open>Durable_Store\<close>: \<^verbatim>\<open>core/enterprise/durability.py\<close>, the SQLite provenance store.
    \<^verbatim>\<open>Case_Contracts\<close>, \<^verbatim>\<open>Case_Ledger\<close>: \<^verbatim>\<open>core/case_ledger\<close>, the case history kept in that store.
  \<^item> \<^verbatim>\<open>Python_Time\<close>: dates, datetimes and their ISO texts. \<^verbatim>\<open>External_Action\<close>: the identity and receipt of
    an external action (\<^verbatim>\<open>core/case_product_hardening_v1.py\<close>) and the in-process coordinator
    (\<^verbatim>\<open>core/external_action_execution_v1.py\<close>). \<^verbatim>\<open>Durable_Action\<close>: the same life kept in the provenance store
    (\<^verbatim>\<open>core/durable_external_action_v1.py\<close>). \<^verbatim>\<open>Case_Hardening\<close>: the other contracts of
    \<^verbatim>\<open>core/case_product_hardening_v1.py\<close> and the operations that file, close and reopen a case in its ledger.
  \<^item> \<^verbatim>\<open>CIRP_Contracts\<close>, \<^verbatim>\<open>CIRP_Assessments\<close>: the vocabulary, the legal sources, rule packs, run-wide records
    and assessments of \<^verbatim>\<open>core/cirp/contracts.py\<close>. \<^verbatim>\<open>CIRP_Deadline\<close>, \<^verbatim>\<open>CIRP_Remedy\<close>, \<^verbatim>\<open>CIRP_Strategy\<close>,
    \<^verbatim>\<open>CIRP_Filing\<close>, \<^verbatim>\<open>CIRP_Preflight\<close>, \<^verbatim>\<open>CIRP_Report\<close>, \<^verbatim>\<open>CIRP_Replay\<close>: the fail-closed guards of the case intake
    and response pipeline, from the computation of a deadline to the check that a filing is ready
    (\<^verbatim>\<open>deadline.py\<close>, \<^verbatim>\<open>remedy.py\<close>, \<^verbatim>\<open>strategy.py\<close>, \<^verbatim>\<open>filing.py\<close>, \<^verbatim>\<open>preflight.py\<close>), its report
    (\<^verbatim>\<open>report.py\<close>) and the comparison of recorded runs (\<^verbatim>\<open>replay.py\<close>), each with its artifacts from
    \<^verbatim>\<open>contracts.py\<close>. \<^verbatim>\<open>CIRP_Engine\<close>: \<^verbatim>\<open>engine.py\<close>, which runs the guards in order on one request.
    \<^verbatim>\<open>CIRP_Governance\<close>: \<^verbatim>\<open>governance.py\<close> and \<^verbatim>\<open>governed_runtime.py\<close>, the approval of rule packs and the runtime
    behind it. \<^verbatim>\<open>CIRP_Runs\<close>: what holds of whole runs. \<^verbatim>\<open>CIRP_Lifecycle\<close>: \<^verbatim>\<open>operational_guards.py\<close>.

  How state and operations correspond. A dataclass is a record; its constructor is \<open>X_init\<close>, which takes
  the fields as given and returns the normalised record or the exception; \<open>X_dict\<close> and \<open>X_digest\<close> are
  \<^verbatim>\<open>canonical_dict\<close> and \<^verbatim>\<open>digest\<close>. A SQLite store is a record of its tables, as maps on the primary key
  or row lists with the uniqueness the schema declares; an operation takes and returns the tables, and
  an exception inside a transaction leaves them as they were. Where two connections can interleave
  (heartbeats, transitions of the engine) the read and the write are separate steps. The ledger file
  is its text. An operation of the durable coordinator reads and writes the table several times; what
  other processes do in between is an argument of the operation, any function on tables, and the theorems
  about a worker on its own take the identity. Time, signing keys and the reservation verifier are arguments, as in the code.

  What the lemmas show. Constructors establish their invariant and are the identity on values that
  have it; digests pin contents; \<open>authorize_task\<close> succeeds exactly under its conditions and no envelope
  is spent beyond its budget; fencing tokens and compare-and-swap admit one writer; the engine only
  takes steps of the state machine, so a closed workflow passed every gate; journal and ledger are
  tamper evident and read back what was appended; batches respect every limit and are maximal; trust
  sets, attestations and signed bundles verify exactly what was signed; every calibration counts
  once; a case history appends, exports and restores whole and is tamper evident; an external action is
  a machine of six states in which every dispatch beyond the first needs a confirmed absence of effect,
  both coordinators follow it, the durable one carries out whatever the in-process one does, with the same result, the provider
  is called behind a recorded dispatch and not again while the outcome is open, and a receipt, once
  returned, is replayed; the status of a case is the replay of its ledger, in which a filing follows its receipt
  and a reopening a closure; each CIRP guard answers positively exactly on a full basis (a verified rule of a rule
  pack in force, verified evidence, a date that is the n-th business day, an available remedy, one safe or
  dominant strategy, one route per filing) and otherwise says what is missing, the guards compose up to the
  filing plans of a safe strategy, and the preflight refuses nothing the planner accepts; a run whose report is READY_TO_FILE has a safe strategy,
  verified remedies, ready plans and no open evidence, a VERIFIED deadline from the date of service rests on
  verified service, a governed run uses only packs approved at their exact digest, two recorded runs compare
  exactly, and the lifecycle passes its stages in order with the evidence each demands; and ELIGIBLE_AUTO is reached exactly along the path evidence, quorum, two signatures, fresh
  clearance.

  Bounds. No operation modelled needs fuel: the loops are structural recursions or folds over
  lists, the four tries of a durable reservation are a counter, and the JSON reader of \<^verbatim>\<open>Json_Roundtrip\<close> carries a termination proof.

  Not modelled. Floats in JSON values; characters above code point 255, lone surrogates among them (strings are
  lists of \<^typ>\<open>char\<close>, their UTF-8 encoding is modelled for these); Python's limits on recursion and on the digits
  of an integer in a text; the file system, SQLite itself and the YAML parser; the Ed25519 primitive, a parameter
  whose documented correctness is a named hypothesis where a theorem needs it. Of ISO datetimes only the extended
  format that \<^verbatim>\<open>isoformat\<close> writes is read. Aware datetimes are compared by instant, which is what Python does for
  UTC, fixed offsets and different zones; two datetimes that share one zone object with a changing offset are
  compared by their local times in Python. An operation of the case ledger is one step: its lock is that of one
  instance in one process, and a write of another process between its snapshot, its append and its
  verification, with the two errors that report one, is left out; so are the checks of the row count of an update
  inside the transaction that has just read the row. Not reached: the failure gate, canary and
  night cycle (they drive the modelled components through subprocesses and files), P3 runtime and replay, and the
  large evidence-policy contracts.

  Where the code and its documents or its intention part: U+0085 in the replay ledger, check and append of the
  engine in two transactions, one dispatch entry for two projects that share a task, filings across verified
  groups, a closure that overwrites the epoch of the case unchecked; and the lifecycle is proved in the order of the code,
  without the RENDERED and FINISH_PASS stages of the private case operating standard.
\<close>

end
